(* ===== verification/Prelude.thy ===== *)
theory Prelude
  imports Main "HOL-Library.AList" "HOL-Library.Word"
begin

text \<open>
  Shared vocabulary of the development: Python exceptions as values, Python list indexing,
  dictionaries as insertion-ordered association lists, byte strings as lists of integers
  in \<open>0..255\<close>, and the part of the standard module \<open>struct\<close> that the sources use
  (fixed-width little- and big-endian fields and padding).  The round-trip lemma for packed
  fields is proved once here and used by every wire format of the program.
\<close>

unbundle bit_operations_syntax

named_theorems keeps_rules \<open>a stateful operation never leaves an invariant\<close>
named_theorems works_rules \<open>a stateful operation does not raise and stays in an invariant\<close>
named_theorems bits_simps \<open>masks and shifts on Python integers as arithmetic\<close>
named_theorems wf_simps \<open>unfolding of the well-formedness predicates of the components\<close>

section \<open>Errors\<close>

datatype pyerr =
    AssertionError
  | ValueError
  | KeyError
  | IndexError
  | TypeError
  | StructError
  | RuntimeError
  | OSError
  | UnicodeError
  | OverflowError
  | DeviceError
  | ChipResponseError
  | TimeoutError
  | OperationError
  | SelfResetError
  | FileNotFoundError
  | NotADirectoryError
  | UnauthorizedError
  | ForbiddenError
  | ValidatorError
  | NotImplementedError
  | MsdError
  | MsdIsBusyError
  | MsdOfflineError
  | MsdConnectedError
  | MsdDisconnectedError
  | MsdImageNotSelected
  | MsdUnknownImageError
  | MsdImageExistsError
  | MsdImageStaticError
  | MsdRemoteDisabledError
  | MsdPermissionsError
  | MsdImageTooSmallError
  | MsdLockedError
  | GpioChannelNotFoundError
  | GpioSwitchNotSupported
  | GpioPulseNotSupported
  | GpioChannelIsBusyError
  | GpioDriverOfflineError
  | AtxIsBusyError
  | ConfigError
  | RfbError
  | RfbConnectionError

type_synonym 'a result = "pyerr + 'a"

definition bindR :: "'e + 'a \<Rightarrow> ('a \<Rightarrow> 'e + 'b) \<Rightarrow> 'e + 'b" where
  "bindR x f = (case x of Inl e \<Rightarrow> Inl e | Inr a \<Rightarrow> f a)"

definition assertR :: "bool \<Rightarrow> 'a result \<Rightarrow> 'a result" where
  "assertR b x = (if b then x else Inl AssertionError)"

definition ok :: "'e + 'a \<Rightarrow> bool" where
  "ok x = (case x of Inl _ \<Rightarrow> False | Inr _ \<Rightarrow> True)"

definition fromR :: "'a \<Rightarrow> 'e + 'a \<Rightarrow> 'a" where
  "fromR d x = (case x of Inl _ \<Rightarrow> d | Inr a \<Rightarrow> a)"

lemma bindR_simps [simp]: "bindR (Inl e) f = Inl e" "bindR (Inr a) f = f a"
  by (simp_all add: bindR_def)

lemma bindR_Inr_iff: "bindR x f = Inr b \<longleftrightarrow> (\<exists>a. x = Inr a \<and> f a = Inr b)"
  by (cases x) (auto simp: bindR_def)

lemma assertR_simps [simp]: "assertR True x = x" "assertR False x = Inl AssertionError"
  by (simp_all add: assertR_def)

lemma assertR_Inr_iff: "assertR b x = Inr y \<longleftrightarrow> b \<and> x = Inr y"
  by (simp add: assertR_def)

lemma assertR_assoc [simp]: "bindR (assertR b x) f = assertR b (bindR x f)"
  by (cases b) auto

lemma ok_simps [simp]: "ok (Inl e) = False" "ok (Inr a) = True"
  by (simp_all add: ok_def)

lemma ok_iff: "ok x \<longleftrightarrow> (\<exists>a. x = Inr a)"
  by (cases x) auto

lemma fromR_simps [simp]: "fromR d (Inl e) = d" "fromR d (Inr a) = a"
  by (simp_all add: fromR_def)

text \<open>The comprehension \<open>[f(x) for x in xs]\<close> where \<open>f\<close> may raise.\<close>

fun mapR :: "('a \<Rightarrow> 'e + 'b) \<Rightarrow> 'a list \<Rightarrow> 'e + 'b list" where
  "mapR f [] = Inr []"
| "mapR f (x # xs) = bindR (f x) (\<lambda>y. bindR (mapR f xs) (\<lambda>ys. Inr (y # ys)))"

lemma mapR_Inr_length: "mapR f xs = Inr ys \<Longrightarrow> length ys = length xs"
  by (induction xs arbitrary: ys) (auto simp: bindR_Inr_iff)

lemma mapR_total: "(\<And>x. x \<in> set xs \<Longrightarrow> f x = Inr (g x)) \<Longrightarrow> mapR f xs = Inr (map g xs)"
  by (induction xs) auto

lemma mapR_Inr_nth:
  "mapR f xs = Inr ys \<Longrightarrow> i < length xs \<Longrightarrow> f (xs ! i) = Inr (ys ! i)"
  by (induction xs arbitrary: ys i) (auto simp: bindR_Inr_iff nth_Cons split: nat.splits)

section \<open>Stateful code that may raise\<close>

text \<open>
  A method that changes its object and may raise maps the state to a result and the new state:
  what was changed before an exception stays changed.
\<close>

type_synonym ('s, 'a) sm = "'s \<Rightarrow> 'a result \<times> 's"

definition retS :: "'a \<Rightarrow> ('s, 'a) sm" where
  "retS a s = (Inr a, s)"

definition bindS :: "('s, 'a) sm \<Rightarrow> ('a \<Rightarrow> ('s, 'b) sm) \<Rightarrow> ('s, 'b) sm" where
  "bindS m f s = (case m s of (Inl e, t) \<Rightarrow> (Inl e, t) | (Inr a, t) \<Rightarrow> f a t)"

definition liftS :: "'a result \<Rightarrow> ('s, 'a) sm" where
  "liftS x s = (x, s)"

definition raiseS :: "pyerr \<Rightarrow> ('s, 'a) sm" where
  "raiseS e s = (Inl e, s)"

definition assertS :: "bool \<Rightarrow> ('s, 'a) sm \<Rightarrow> ('s, 'a) sm" where
  "assertS b m = (if b then m else raiseS AssertionError)"

definition getS :: "('s \<Rightarrow> ('s, 'a) sm) \<Rightarrow> ('s, 'a) sm" where
  "getS f s = f s s"

definition modifyS :: "('s \<Rightarrow> 's) \<Rightarrow> ('s, unit) sm" where
  "modifyS f s = (Inr (), f s)"

definition whenS :: "bool \<Rightarrow> ('s, unit) sm \<Rightarrow> ('s, unit) sm" where
  "whenS b m = (if b then m else retS ())"

fun forS :: "'a list \<Rightarrow> ('a \<Rightarrow> ('s, unit) sm) \<Rightarrow> ('s, unit) sm" where
  "forS [] f = retS ()"
| "forS (x # xs) f = bindS (f x) (\<lambda>_. forS xs f)"

text \<open>
  The statements \<open>try ... except\<close>, with a handler for the exceptions it names, and \<open>try ... finally\<close>,
  whose last part may itself raise and then hides what was raised before.
\<close>

definition exceptS :: "('s, 'a) sm \<Rightarrow> (pyerr \<Rightarrow> ('s, 'a) sm option) \<Rightarrow> ('s, 'a) sm" where
  "exceptS m h s = (case m s of
     (Inl e, t) \<Rightarrow> (case h e of None \<Rightarrow> (Inl e, t) | Some n \<Rightarrow> n t)
   | (Inr a, t) \<Rightarrow> (Inr a, t))"

definition finallyS :: "('s, 'a) sm \<Rightarrow> ('s, unit) sm \<Rightarrow> ('s, 'a) sm" where
  "finallyS m n s = (case m s of (r, t) \<Rightarrow> (case n t of (Inl e, u) \<Rightarrow> (Inl e, u) | (Inr _, u) \<Rightarrow> (r, u)))"

lemmas sm_defs = retS_def liftS_def raiseS_def assertS_def getS_def modifyS_def whenS_def

lemma bindS_simps [simp]:
  "bindS (retS a) f = f a" "bindS (raiseS e) f = raiseS e" "bindS (liftS (Inr a)) f = f a"
  "bindS (modifyS g) k s = k () (g s)" "bindS (getS h) l s = bindS (h s) l s"
  by (auto simp: bindS_def sm_defs fun_eq_iff split: prod.splits)

lemma bindS_ok: "m s = (Inr a, t) \<Longrightarrow> bindS m f s = f a t"
  and bindS_raise: "m s = (Inl e, t) \<Longrightarrow> bindS m f s = (Inl e, t)"
  by (simp_all add: bindS_def)

lemma bindS_Inr_iff: "bindS m f s = (Inr b, t) \<longleftrightarrow> (\<exists>a u. m s = (Inr a, u) \<and> f a u = (Inr b, t))"
  by (auto simp: bindS_def split: prod.splits sum.splits)

lemma bindS_cases: "bindS m f s = (case fst (m s) of Inl e \<Rightarrow> (Inl e, snd (m s)) | Inr a \<Rightarrow> f a (snd (m s)))"
  by (cases "m s"; cases "fst (m s)") (auto simp: bindS_def)

text \<open>\<open>keeps P m\<close>: \<open>m\<close> never leaves the states of \<open>P\<close>, whether it raises or not.\<close>

definition keeps :: "('s \<Rightarrow> bool) \<Rightarrow> ('s, 'a) sm \<Rightarrow> bool" where
  "keeps P m = (\<forall>s. P s \<longrightarrow> P (snd (m s)))"

lemma keepsD: "keeps P m \<Longrightarrow> P s \<Longrightarrow> P (snd (m s))"
  by (simp add: keeps_def)

lemma keepsE: "keeps P m \<Longrightarrow> P s \<Longrightarrow> m s = (r, t) \<Longrightarrow> P t"
  using keepsD by fastforce

lemma keeps_retS [keeps_rules]: "keeps P (retS a)" and keeps_raiseS [keeps_rules]: "keeps P (raiseS e)"
  and keeps_liftS [keeps_rules]: "keeps P (liftS x)"
  by (simp_all add: keeps_def sm_defs)

lemma keeps_bindS [keeps_rules]:
  "keeps P m \<Longrightarrow> (\<And>a. keeps P (f a)) \<Longrightarrow> keeps P (bindS m f)"
  by (auto simp: keeps_def bindS_cases split: sum.split)

lemma keeps_if [keeps_rules]: "(b \<Longrightarrow> keeps P m) \<Longrightarrow> (\<not> b \<Longrightarrow> keeps P n) \<Longrightarrow> keeps P (if b then m else n)"
  by simp

lemma keeps_whenS [keeps_rules]: "(b \<Longrightarrow> keeps P m) \<Longrightarrow> keeps P (whenS b m)"
  by (simp add: whenS_def keeps_retS)

lemma keeps_assertS [keeps_rules]: "(b \<Longrightarrow> keeps P m) \<Longrightarrow> keeps P (assertS b m)"
  by (simp add: assertS_def keeps_raiseS)

lemma keeps_forS [keeps_rules]: "(\<And>x. x \<in> set xs \<Longrightarrow> keeps P (f x)) \<Longrightarrow> keeps P (forS xs f)"
  by (induction xs) (auto intro!: keeps_retS keeps_bindS)

lemma keeps_exceptS [keeps_rules]:
  "keeps P m \<Longrightarrow> (\<And>e n. h e = Some n \<Longrightarrow> keeps P n) \<Longrightarrow> keeps P (exceptS m h)"
  by (fastforce simp: keeps_def exceptS_def split: prod.splits sum.splits option.splits)

lemma keeps_finallyS [keeps_rules]: "keeps P m \<Longrightarrow> keeps P n \<Longrightarrow> keeps P (finallyS m n)"
  unfolding keeps_def finallyS_def by (auto split: prod.splits sum.splits)

lemma keeps_modifyS: "(\<And>s. P s \<Longrightarrow> P (f s)) \<Longrightarrow> keeps P (modifyS f)"
  by (simp add: keeps_def modifyS_def)

lemma keeps_getS: "(\<And>s. P s \<Longrightarrow> P (snd (f s s))) \<Longrightarrow> keeps P (getS f)"
  by (simp add: keeps_def getS_def)

lemma keeps_getS_in: "(\<And>s. P s \<Longrightarrow> keeps P (f s)) \<Longrightarrow> keeps P (getS f)"
  by (simp add: keeps_def getS_def)

lemma keeps_bind_liftS: "(\<And>a. x = Inr a \<Longrightarrow> keeps P (f a)) \<Longrightarrow> keeps P (bindS (liftS x) f)"
  by (cases x) (simp_all add: keeps_def bindS_def liftS_def)

lemma keeps_getS_all [keeps_rules]: "(\<And>s. keeps P (f s)) \<Longrightarrow> keeps P (getS f)"
  by (simp add: keeps_def getS_def)

text \<open>
  \<open>works P m Q\<close>: from a state of \<open>P\<close>, \<open>m\<close> does not raise, stays in \<open>P\<close> and returns a
  value of \<open>Q\<close>.
\<close>

definition works :: "('s \<Rightarrow> bool) \<Rightarrow> ('s, 'a) sm \<Rightarrow> ('a \<Rightarrow> bool) \<Rightarrow> bool" where
  "works P m Q = (\<forall>s. P s \<longrightarrow> (\<exists>a t. m s = (Inr a, t) \<and> P t \<and> Q a))"

lemma worksD: "works P m Q \<Longrightarrow> P s \<Longrightarrow> \<exists>a t. m s = (Inr a, t) \<and> P t \<and> Q a"
  by (simp add: works_def)

lemma works_mono: "works P m Q \<Longrightarrow> (\<And>a. Q a \<Longrightarrow> R a) \<Longrightarrow> works P m R"
  unfolding works_def by blast

lemma works_retS [works_rules]: "Q a \<Longrightarrow> works P (retS a) Q"
  by (simp add: works_def retS_def)

lemma works_liftS [works_rules]: "x = Inr a \<Longrightarrow> Q a \<Longrightarrow> works P (liftS x) Q"
  by (simp add: works_def liftS_def)

lemma works_bindS:
  "works P m Q \<Longrightarrow> (\<And>a. Q a \<Longrightarrow> works P (f a) R) \<Longrightarrow> works P (bindS m f) R"
  unfolding works_def bindS_def by fastforce

lemma works_seq [works_rules]:
  "works P m (\<lambda>_. True) \<Longrightarrow> (\<And>a. works P (f a) R) \<Longrightarrow> works P (bindS m f) R"
  by (rule works_bindS) auto

lemma works_getS: "(\<And>s. P s \<Longrightarrow> works P (f s) Q) \<Longrightarrow> works P (getS f) Q"
  by (simp add: works_def getS_def)

lemma works_modifyS: "(\<And>s. P s \<Longrightarrow> P (f s)) \<Longrightarrow> Q () \<Longrightarrow> works P (modifyS f) Q"
  by (simp add: works_def modifyS_def)

lemma works_whenS [works_rules]: "(b \<Longrightarrow> works P m (\<lambda>_. True)) \<Longrightarrow> works P (whenS b m) (\<lambda>_. True)"
  by (simp add: whenS_def works_retS)

lemma works_assertS [works_rules]: "b \<Longrightarrow> works P m Q \<Longrightarrow> works P (assertS b m) Q"
  by (simp add: assertS_def)

lemma works_if [works_rules]:
  "(b \<Longrightarrow> works P m Q) \<Longrightarrow> (\<not> b \<Longrightarrow> works P n Q) \<Longrightarrow> works P (if b then m else n) Q"
  by simp

lemma works_conj: "works P m Q \<Longrightarrow> keeps R m \<Longrightarrow> works (\<lambda>s. P s \<and> R s) m Q"
  by (fastforce simp: works_def keeps_def)

lemma works_forS [works_rules]:
  "(\<And>x. x \<in> set xs \<Longrightarrow> works P (f x) (\<lambda>_. True)) \<Longrightarrow> works P (forS xs f) (\<lambda>_. True)"
  by (induction xs) (auto intro!: works_retS works_seq)

section \<open>Lists and dictionaries\<close>

text \<open>\<open>xs[i]\<close> and \<open>xs[i] = v\<close>: negative indices count from the end.\<close>

definition py_index :: "'a list \<Rightarrow> int \<Rightarrow> int" where
  "py_index xs i = (if i < 0 then int (length xs) + i else i)"

definition py_get :: "'a list \<Rightarrow> int \<Rightarrow> 'a result" where
  "py_get xs i = (let j = py_index xs i in
     if 0 \<le> j \<and> j < int (length xs) then Inr (xs ! nat j) else Inl IndexError)"

definition py_set :: "'a list \<Rightarrow> int \<Rightarrow> 'a \<Rightarrow> 'a list result" where
  "py_set xs i v = (let j = py_index xs i in
     if 0 \<le> j \<and> j < int (length xs) then Inr (xs[nat j := v]) else Inl IndexError)"

lemma py_get_nat [simp]:
  "py_get xs (int n) = (if n < length xs then Inr (xs ! n) else Inl IndexError)"
  by (simp add: py_get_def py_index_def)

lemma py_get_Inr_in: "py_get xs i = Inr x \<Longrightarrow> x \<in> set xs"
  by (auto simp: py_get_def Let_def split: if_splits)

text \<open>\<open>xs[a:b]\<close> for \<open>0 \<le> a\<close> and \<open>0 \<le> b\<close>.\<close>

definition py_slice :: "nat \<Rightarrow> nat \<Rightarrow> 'a list \<Rightarrow> 'a list" where
  "py_slice a b xs = take (b - a) (drop a xs)"

lemma length_py_slice: "length (py_slice a b xs) = min (b - a) (length xs - a)"
  by (simp add: py_slice_def)

lemma nth_py_slice: "i < b - a \<Longrightarrow> a + i < length xs \<Longrightarrow> py_slice a b xs ! i = xs ! (a + i)"
  by (simp add: py_slice_def)

text \<open>
  A \<open>dict\<close> is an association list with distinct keys: \<open>AList.update\<close> keeps the position of
  an existing key and appends a new one, as Python does.  Equality of dictionaries ignores
  the order.
\<close>

type_synonym ('k, 'v) dict = "('k \<times> 'v) list"

definition dict_wf :: "('k, 'v) dict \<Rightarrow> bool" where
  [wf_simps]: "dict_wf d = distinct (map fst d)"

definition dict_get :: "('k, 'v) dict \<Rightarrow> 'k \<Rightarrow> 'v \<Rightarrow> 'v" where
  "dict_get d k v = (case map_of d k of None \<Rightarrow> v | Some w \<Rightarrow> w)"

definition dict_at :: "('k, 'v) dict \<Rightarrow> 'k \<Rightarrow> 'v result" where
  "dict_at d k = (case map_of d k of None \<Rightarrow> Inl KeyError | Some w \<Rightarrow> Inr w)"

definition dict_has :: "('k, 'v) dict \<Rightarrow> 'k \<Rightarrow> bool" where
  "dict_has d k = (map_of d k \<noteq> None)"

definition dict_eq :: "('k, 'v) dict \<Rightarrow> ('k, 'v) dict \<Rightarrow> bool" where
  "dict_eq d e = list_all (\<lambda>k. map_of d k = map_of e k) (map fst d @ map fst e)"

lemma map_of_dict_update [simp]: "map_of (AList.update k v d) = (map_of d)(k \<mapsto> v)"
  by (rule update_conv')

lemma map_of_dict_delete [simp]: "map_of (AList.delete k d) = (map_of d)(k := None)"
  by (rule delete_conv')

lemma dict_wf_update [simp]: "dict_wf d \<Longrightarrow> dict_wf (AList.update k v d)"
  by (simp add: dict_wf_def distinct_update)

lemma dict_wf_delete [simp]: "dict_wf d \<Longrightarrow> dict_wf (AList.delete k d)"
  by (simp add: dict_wf_def distinct_delete)

lemma dict_wf_filter [simp]: "dict_wf d \<Longrightarrow> dict_wf (filter P d)"
  by (simp add: dict_wf_def distinct_map_filter)

lemma dict_eq_iff: "dict_eq d e \<longleftrightarrow> map_of d = map_of e"
proof
  assume eq: "dict_eq d e"
  show "map_of d = map_of e"
  proof
    fix k
    show "map_of d k = map_of e k"
    proof (cases "k \<in> fst ` set d \<or> k \<in> fst ` set e")
      case True
      with eq show ?thesis by (auto simp: dict_eq_def list_all_iff)
    next
      case False
      then have "map_of d k = None" and "map_of e k = None"
        by (simp_all only: map_of_eq_None_iff) auto
      then show ?thesis by simp
    qed
  qed
next
  assume "map_of d = map_of e"
  then show "dict_eq d e" by (simp add: dict_eq_def list_all_iff)
qed

lemma map_of_filter_value:
  "dict_wf d \<Longrightarrow> map_of (filter (\<lambda>(k, v). P k v) d) k =
     (case map_of d k of None \<Rightarrow> None | Some v \<Rightarrow> if P k v then Some v else None)"
proof (induction d)
  case Nil
  then show ?case by simp
next
  case (Cons kv d)
  then show ?case
    by (cases kv) (auto simp: dict_wf_def map_of_eq_None_iff split: option.splits
        dest: map_of_SomeD intro: rev_image_eqI)
qed

text \<open>A dictionary built from its items in order: a later value of a key replaces the earlier one.\<close>

definition dict_of :: "('k \<times> 'v) list \<Rightarrow> ('k, 'v) dict" where
  "dict_of kvs = foldl (\<lambda>d (k, v). AList.update k v d) [] kvs"

lemma map_of_dict_of: "map_of (dict_of kvs) = map_of (rev kvs)"
proof (induction kvs rule: rev_induct)
  case (snoc kv kvs)
  then show ?case by (cases kv) (auto simp: dict_of_def fun_eq_iff)
qed (simp add: dict_of_def)

lemma dict_wf_dict_of [simp]: "dict_wf (dict_of kvs)"
proof (induction kvs rule: rev_induct)
  case (snoc kv kvs)
  then show ?case by (cases kv) (simp add: dict_of_def)
qed (simp add: dict_of_def dict_wf_def)

lemma map_of_rev_wf: "dict_wf kvs \<Longrightarrow> map_of (rev kvs) = map_of kvs"
  unfolding dict_wf_def
  by (rule iffD2 [OF map_of_inject_set]) (simp_all only: set_rev rev_map [symmetric] distinct_rev)

lemma dict_wf_mem: "dict_wf d \<Longrightarrow> (k, v) \<in> set d \<Longrightarrow> map_of d k = Some v"
  by (simp add: dict_wf_def)

lemma map_of_dict_of_wf: "dict_wf kvs \<Longrightarrow> map_of (dict_of kvs) = map_of kvs"
  by (simp add: map_of_dict_of map_of_rev_wf)

section \<open>Bits of Python integers\<close>

definition bit_set :: "int \<Rightarrow> int \<Rightarrow> bool" where
  "bit_set x m = (x AND m \<noteq> 0)"

lemma and_mask_mod: "x AND (2 ^ n - 1) = x mod 2 ^ n" for x :: int
  by (simp flip: take_bit_eq_mod add: take_bit_eq_mask mask_eq_exp_minus_1)

lemma and_FF [bits_simps]: "x AND 255 = x mod 256" for x :: int
  using and_mask_mod [of x 8] by simp

lemma and_7FFF [bits_simps]: "x AND 32767 = x mod 32768" for x :: int
  using and_mask_mod [of x 15] by simp

lemma and_1F [bits_simps]: "x AND 31 = x mod 32" for x :: int
  using and_mask_mod [of x 5] by simp

lemma or_push_add: "0 \<le> a \<Longrightarrow> a < 2 ^ n \<Longrightarrow> a OR push_bit n b = a + 2 ^ n * b" for a b :: int
proof -
  assume "0 \<le> a" "a < 2 ^ n"
  then have "take_bit n a = a" by (simp add: take_bit_int_eq_self_iff)
  then show ?thesis
    using concat_bit_eq [of n a b] by (simp add: concat_bit_def push_bit_eq_mult mult.commute)
qed

lemma or_push8_add [bits_simps]: "0 \<le> a \<Longrightarrow> a < 256 \<Longrightarrow> a OR push_bit 8 b = a + 256 * b" for a b :: int
  using or_push_add [of a 8 b] by simp

lemma or_bound: "0 \<le> x \<Longrightarrow> x < 2 ^ n \<Longrightarrow> 0 \<le> y \<Longrightarrow> y < 2 ^ n \<Longrightarrow> x OR y < 2 ^ n" for x y :: int
  by (simp add: OR_upper)

lemma xor_bound: "0 \<le> x \<Longrightarrow> x < 2 ^ n \<Longrightarrow> 0 \<le> y \<Longrightarrow> y < 2 ^ n \<Longrightarrow> x XOR y < 2 ^ n" for x y :: int
  by (simp add: XOR_upper)

section \<open>Byte strings and struct\<close>

type_synonym bytes = "int list"

definition bytes_ok :: "int list \<Rightarrow> bool" where
  "bytes_ok bs = list_all (\<lambda>b. 0 \<le> b \<and> b < 256) bs"

lemma bytes_ok_simps [simp]:
  "bytes_ok []"
  "bytes_ok (b # bs) \<longleftrightarrow> 0 \<le> b \<and> b < 256 \<and> bytes_ok bs"
  "bytes_ok (xs @ ys) \<longleftrightarrow> bytes_ok xs \<and> bytes_ok ys"
  "bytes_ok (rev xs) \<longleftrightarrow> bytes_ok xs"
  "bytes_ok (replicate n 0)"
  by (auto simp: bytes_ok_def list_all_iff)

lemma bytes_ok_nth: "bytes_ok bs \<Longrightarrow> i < length bs \<Longrightarrow> 0 \<le> bs ! i \<and> bs ! i < 256"
  by (simp add: bytes_ok_def list_all_length)

lemma bytes_ok_take [simp]: "bytes_ok bs \<Longrightarrow> bytes_ok (take n bs)"
  by (auto simp: bytes_ok_def list_all_iff dest: in_set_takeD)

lemma bytes_ok_drop [simp]: "bytes_ok bs \<Longrightarrow> bytes_ok (drop n bs)"
  by (auto simp: bytes_ok_def list_all_iff dest: in_set_dropD)

lemma bytes_ok_concat [simp]: "bytes_ok (concat xss) \<longleftrightarrow> (\<forall>xs \<in> set xss. bytes_ok xs)"
  by (auto simp: bytes_ok_def list_all_iff)

lemma bytes_ok_update [intro]: "bytes_ok bs \<Longrightarrow> 0 \<le> b \<Longrightarrow> b < 256 \<Longrightarrow> bytes_ok (bs[i := b])"
  unfolding bytes_ok_def list_all_iff using set_update_subset_insert [of bs i b] by blast

text \<open>The constructor \<open>bytes([...])\<close> raises \<open>ValueError\<close> for an item outside \<open>0..255\<close>.\<close>

definition py_bytes :: "int list \<Rightarrow> bytes result" where
  "py_bytes xs = (if bytes_ok xs then Inr xs else Inl ValueError)"

fun to_le :: "nat \<Rightarrow> int \<Rightarrow> bytes" where
  "to_le 0 x = []"
| "to_le (Suc n) x = x mod 256 # to_le n (x div 256)"

fun of_le :: "bytes \<Rightarrow> int" where
  "of_le [] = 0"
| "of_le (b # bs) = b + 256 * of_le bs"

lemma length_to_le [simp]: "length (to_le n x) = n"
  by (induction n arbitrary: x) auto

lemma bytes_ok_to_le [simp]: "bytes_ok (to_le n x)"
  by (induction n arbitrary: x) auto

lemma of_le_to_le: "of_le (to_le n x) = x mod 256 ^ n"
proof (induction n arbitrary: x)
  case (Suc n)
  then show ?case by (simp add: zmod_zmult2_eq)
qed simp

lemma of_le_bounds: "bytes_ok bs \<Longrightarrow> 0 \<le> of_le bs \<and> of_le bs < 256 ^ length bs"
  by (induction bs) auto

lemma to_le_of_le: "bytes_ok bs \<Longrightarrow> to_le (length bs) (of_le bs) = bs"
  by (induction bs) auto

datatype endian = LE | BE

text \<open>A format string is a list of fields: unsigned and signed integers and pad bytes.\<close>

datatype field = FU nat | FS nat | FX nat

fun field_size :: "field \<Rightarrow> nat" where
  "field_size (FU n) = n"
| "field_size (FS n) = n"
| "field_size (FX n) = n"

definition calcsize :: "field list \<Rightarrow> nat" where
  "calcsize fs = sum_list (map field_size fs)"

definition put_int :: "endian \<Rightarrow> nat \<Rightarrow> int \<Rightarrow> bytes" where
  "put_int e n x = (case e of LE \<Rightarrow> to_le n x | BE \<Rightarrow> rev (to_le n x))"

definition get_int :: "endian \<Rightarrow> bytes \<Rightarrow> int" where
  "get_int e bs = (case e of LE \<Rightarrow> of_le bs | BE \<Rightarrow> of_le (rev bs))"

definition get_sint :: "endian \<Rightarrow> nat \<Rightarrow> bytes \<Rightarrow> int" where
  "get_sint e n bs = (let x = get_int e bs in if x < 256 ^ n div 2 then x else x - 256 ^ n)"

fun pack :: "endian \<Rightarrow> field list \<Rightarrow> int list \<Rightarrow> bytes result" where
  "pack e [] vs = (if vs = [] then Inr [] else Inl StructError)"
| "pack e (FX n # fs) vs = bindR (pack e fs vs) (\<lambda>r. Inr (replicate n 0 @ r))"
| "pack e (FU n # fs) (v # vs) =
     (if 0 \<le> v \<and> v < 256 ^ n then bindR (pack e fs vs) (\<lambda>r. Inr (put_int e n v @ r))
      else Inl StructError)"
| "pack e (FS n # fs) (v # vs) =
     (if - (256 ^ n div 2) \<le> v \<and> v < 256 ^ n div 2
      then bindR (pack e fs vs) (\<lambda>r. Inr (put_int e n v @ r))
      else Inl StructError)"
| "pack e (f # fs) [] = Inl StructError"

fun unpack_fields :: "endian \<Rightarrow> field list \<Rightarrow> bytes \<Rightarrow> int list" where
  "unpack_fields e [] bs = []"
| "unpack_fields e (FX n # fs) bs = unpack_fields e fs (drop n bs)"
| "unpack_fields e (FU n # fs) bs = get_int e (take n bs) # unpack_fields e fs (drop n bs)"
| "unpack_fields e (FS n # fs) bs = get_sint e n (take n bs) # unpack_fields e fs (drop n bs)"

definition unpack_from :: "endian \<Rightarrow> field list \<Rightarrow> bytes \<Rightarrow> nat \<Rightarrow> int list result" where
  "unpack_from e fs bs off = (if off + calcsize fs \<le> length bs
     then Inr (unpack_fields e fs (drop off bs)) else Inl StructError)"

lemma calcsize_simps [simp]:
  "calcsize [] = 0" "calcsize (f # fs) = field_size f + calcsize fs"
  by (simp_all add: calcsize_def)

lemma put_int_facts [simp]: "length (put_int e n x) = n" "bytes_ok (put_int e n x)"
  by (cases e; simp add: put_int_def)+

lemma get_put_int: "0 \<le> x \<Longrightarrow> x < 256 ^ n \<Longrightarrow> get_int e (put_int e n x) = x"
  by (cases e) (simp_all add: get_int_def put_int_def of_le_to_le)

lemma get_int_bounds: "bytes_ok bs \<Longrightarrow> 0 \<le> get_int e bs \<and> get_int e bs < 256 ^ length bs"
  using of_le_bounds [of bs] of_le_bounds [of "rev bs"] by (cases e) (auto simp: get_int_def)

lemma pow256_half: "0 < n \<Longrightarrow> (256 ^ n :: int) = 2 * (256 ^ n div 2)"
  by (cases n) auto

lemma get_put_sint:
  assumes "0 < n" and "- (256 ^ n div 2) \<le> x" and "x < 256 ^ n div 2"
  shows "get_sint e n (put_int e n x) = x"
proof -
  have get: "get_int e (put_int e n x) = x mod 256 ^ n"
    by (cases e) (simp_all add: get_int_def put_int_def of_le_to_le)
  show ?thesis
  proof (cases "0 \<le> x")
    case True
    with assms get show ?thesis
      using pow256_half [OF assms(1)] by (simp add: get_sint_def)
  next
    case False
    have "(x + 256 ^ n) mod 256 ^ n = x + 256 ^ n"
      using False assms pow256_half [OF assms(1)] by (intro mod_pos_pos_trivial) linarith+
    then have "x mod 256 ^ n = x + 256 ^ n" by simp
    with False get assms pow256_half [OF assms(1)] show ?thesis
      by (simp add: get_sint_def Let_def)
  qed
qed

lemma pack_facts: "pack e fs vs = Inr bs \<Longrightarrow> length bs = calcsize fs \<and> bytes_ok bs"
  by (induction e fs vs arbitrary: bs rule: pack.induct)
     (auto simp: bindR_Inr_iff split: if_splits)

lemma unpack_fields_pack:
  "pack e fs vs = Inr bs \<Longrightarrow> \<forall>f \<in> set fs. 0 < field_size f \<Longrightarrow> unpack_fields e fs (bs @ rest) = vs"
  by (induction e fs vs arbitrary: bs rule: pack.induct)
     (auto simp: bindR_Inr_iff get_put_int get_put_sint split: if_splits)

lemma unpack_from_pack:
  assumes "pack e fs vs = Inr bs" and "\<forall>f \<in> set fs. 0 < field_size f" and "off = length pre"
  shows "unpack_from e fs (pre @ bs @ rest) off = Inr vs"
  using unpack_fields_pack [OF assms(1,2)] pack_facts [OF assms(1)] assms(3)
  by (simp add: unpack_from_def)

lemma unpack_fields_append:
  "calcsize fs \<le> length bs \<Longrightarrow> unpack_fields e fs (bs @ rest) = unpack_fields e fs bs"
  by (induction e fs bs rule: unpack_fields.induct) auto

end
