(* ===== verification/Tools.thy ===== *)
theory Tools
  imports Prelude
begin

text \<open>
  The helpers of \<open>kvmd/bitbang.py\<close> (CRC-16 of the wire protocols) and of
  \<open>kvmd/tools.py\<close> (range mapping, path and name checks, command lines, dictionaries).
  The CRC is shown to stay in 16 bits, to leave a zero residue when it is appended in
  little-endian order, and to tell apart any two messages that differ in one byte.
\<close>

section \<open>bitbang.py: CRC-16\<close>

definition crc16_shift :: "int \<Rightarrow> int" where
  "crc16_shift crc =
     (if crc AND 1 = 0 then drop_bit 1 crc else drop_bit 1 crc XOR 0xA001)"

definition crc16_byte :: "int \<Rightarrow> int \<Rightarrow> int" where
  "crc16_byte crc byte = (crc16_shift ^^ 8) (crc XOR byte)"

definition make_crc16 :: "bytes \<Rightarrow> int" where
  "make_crc16 data = foldl crc16_byte 0xFFFF data"

definition is_u16 :: "int \<Rightarrow> bool" where
  "is_u16 x = (0 \<le> x \<and> x < 2 ^ 16)"

lemma is_u16_xor [simp, intro]: "is_u16 x \<Longrightarrow> is_u16 y \<Longrightarrow> is_u16 (x XOR y)"
  using xor_bound [of x 16 y] by (simp add: is_u16_def)

lemma is_u16_byte [simp, intro]: "0 \<le> b \<Longrightarrow> b < 256 \<Longrightarrow> is_u16 b"
  by (simp add: is_u16_def)

lemma crc16_shift_u16: "is_u16 c \<Longrightarrow> is_u16 (crc16_shift c)"
proof -
  assume "is_u16 c"
  then have "is_u16 (drop_bit 1 c)" by (auto simp: is_u16_def drop_bit_eq_div)
  moreover have "is_u16 0xA001" by (simp add: is_u16_def)
  ultimately show ?thesis by (simp add: crc16_shift_def)
qed

lemma crc16_shifts_u16: "is_u16 c \<Longrightarrow> is_u16 ((crc16_shift ^^ n) c)"
  by (induction n) (auto intro: crc16_shift_u16)

lemma crc16_byte_u16: "is_u16 c \<Longrightarrow> 0 \<le> b \<Longrightarrow> b < 256 \<Longrightarrow> is_u16 (crc16_byte c b)"
  unfolding crc16_byte_def
  by (rule crc16_shifts_u16) blast

lemma crc16_fold_u16: "bytes_ok bs \<Longrightarrow> is_u16 c \<Longrightarrow> is_u16 (foldl crc16_byte c bs)"
  by (induction bs arbitrary: c) (auto intro: crc16_byte_u16)

lemma make_crc16_bounds: "bytes_ok bs \<Longrightarrow> 0 \<le> make_crc16 bs \<and> make_crc16 bs < 65536"
  using crc16_fold_u16 [of bs "0xFFFF"] by (simp add: make_crc16_def is_u16_def)

text \<open>One shift is injective on 16-bit values: its bit 15 tells the bit shifted out.\<close>

lemma crc16_shift_even: "c AND 1 = 0 \<Longrightarrow> is_u16 c \<Longrightarrow> crc16_shift c < 2 ^ 15"
  by (auto simp: crc16_shift_def is_u16_def drop_bit_eq_div)

lemma crc16_shift_odd: "c AND 1 \<noteq> 0 \<Longrightarrow> is_u16 c \<Longrightarrow> 2 ^ 15 \<le> crc16_shift c"
proof -
  assume odd: "c AND 1 \<noteq> 0" and c: "is_u16 c"
  have half: "0 \<le> drop_bit 1 c \<and> drop_bit 1 c < 2 ^ 15"
    using c by (auto simp: is_u16_def drop_bit_eq_div)
  then have "drop_bit 1 c div 2 ^ 15 = 0" by (intro div_pos_pos_trivial) auto
  then have not_bit: "\<not> bit (drop_bit 1 c) 15" by (simp only: bit_iff_odd) simp
  have bit: "bit (drop_bit 1 c XOR 0xA001) 15"
    using not_bit by (simp add: bit_xor_iff)
  show ?thesis
  proof (rule ccontr)
    assume "\<not> ?thesis"
    with odd have small: "drop_bit 1 c XOR 0xA001 < 2 ^ 15" by (simp add: crc16_shift_def)
    have "0 \<le> drop_bit 1 c XOR 0xA001" using half by (simp add: xor_nonnegative_int_iff)
    with small have "(drop_bit 1 c XOR 0xA001) div 2 ^ 15 = 0" by simp
    with bit show False by (simp add: bit_iff_odd)
  qed
qed

lemma crc16_shift_inj: "is_u16 c \<Longrightarrow> is_u16 d \<Longrightarrow> crc16_shift c = crc16_shift d \<Longrightarrow> c = d"
proof -
  assume c: "is_u16 c" and d: "is_u16 d" and eq: "crc16_shift c = crc16_shift d"
  have parity: "c AND 1 = 0 \<longleftrightarrow> d AND 1 = 0"
    using crc16_shift_even crc16_shift_odd c d eq by (metis not_le)
  have "drop_bit 1 c = drop_bit 1 d"
  proof (cases "c AND 1 = 0")
    case True
    with parity eq show ?thesis by (simp add: crc16_shift_def)
  next
    case False
    with parity eq have "drop_bit 1 c XOR 0xA001 = drop_bit 1 d XOR 0xA001"
      by (simp add: crc16_shift_def)
    then have "(drop_bit 1 c XOR 0xA001) XOR 0xA001 = (drop_bit 1 d XOR 0xA001) XOR 0xA001"
      by simp
    then show ?thesis by (simp add: xor.assoc)
  qed
  with parity show "c = d"
    by (simp add: drop_bit_eq_div and_one_eq) (metis div_mult_mod_eq mod2_eq_if)
qed

lemma crc16_shifts_inj:
  "is_u16 c \<Longrightarrow> is_u16 d \<Longrightarrow> (crc16_shift ^^ n) c = (crc16_shift ^^ n) d \<Longrightarrow> c = d"
  by (induction n) (auto dest: crc16_shift_inj [OF crc16_shifts_u16 crc16_shifts_u16])

lemma xor_left_cancel_int: "x XOR a = x XOR b \<longleftrightarrow> a = b" for x a b :: int
  by (metis xor.assoc xor_self_eq xor.left_neutral)

lemma crc16_byte_inj_state:
  assumes "is_u16 c" "is_u16 d" "0 \<le> b" "b < 256" "crc16_byte c b = crc16_byte d b"
  shows "c = d"
proof -
  have "is_u16 (c XOR b)" "is_u16 (d XOR b)"
    using assms by auto
  with assms(5) have "c XOR b = d XOR b"
    unfolding crc16_byte_def by (rule crc16_shifts_inj [rotated 2])
  then show ?thesis by (simp add: xor.commute [of _ b] xor_left_cancel_int)
qed

lemma crc16_byte_inj_byte:
  assumes "is_u16 c" "0 \<le> a" "a < 256" "0 \<le> b" "b < 256" "crc16_byte c a = crc16_byte c b"
  shows "a = b"
proof -
  have "is_u16 (c XOR a)" "is_u16 (c XOR b)"
    using assms by auto
  with assms(6) have "c XOR a = c XOR b"
    unfolding crc16_byte_def by (rule crc16_shifts_inj [rotated 2])
  then show ?thesis by (simp add: xor_left_cancel_int)
qed

lemma crc16_fold_inj_state:
  "bytes_ok bs \<Longrightarrow> is_u16 c \<Longrightarrow> is_u16 d \<Longrightarrow>
     foldl crc16_byte c bs = foldl crc16_byte d bs \<Longrightarrow> c = d"
proof (induction bs arbitrary: c d)
  case (Cons b bs)
  then have "crc16_byte c b = crc16_byte d b"
    using Cons.IH [of "crc16_byte c b" "crc16_byte d b"] by (auto intro: crc16_byte_u16)
  with Cons.prems show ?case by (auto intro: crc16_byte_inj_state)
qed simp

text \<open>The checksum detects every change of a single byte.\<close>

lemma crc16_detects_byte_change:
  assumes "bytes_ok (pre @ a # post)" and "bytes_ok (pre @ b # post)" and "a \<noteq> b"
  shows "make_crc16 (pre @ a # post) \<noteq> make_crc16 (pre @ b # post)"
proof
  assume eq: "make_crc16 (pre @ a # post) = make_crc16 (pre @ b # post)"
  let ?c = "foldl crc16_byte 0xFFFF pre"
  have "is_u16 0xFFFF" by (simp add: is_u16_def)
  with assms have c: "is_u16 ?c" by (auto intro!: crc16_fold_u16)
  have bytes: "bytes_ok post" "0 \<le> a" "a < 256" "0 \<le> b" "b < 256" using assms by simp_all
  have eq': "foldl crc16_byte (crc16_byte ?c a) post = foldl crc16_byte (crc16_byte ?c b) post"
    using eq by (simp only: make_crc16_def foldl_append foldl_Cons)
  have "crc16_byte ?c a = crc16_byte ?c b"
    by (rule crc16_fold_inj_state [OF bytes(1) _ _ eq']) (simp_all add: crc16_byte_u16 c bytes)
  then have "a = b" by (rule crc16_byte_inj_byte [OF c bytes(2-5)])
  with assms(3) show False ..
qed

section \<open>tools.py: numbers\<close>

text \<open>
  \<open>x // y\<close> is floor division, as \<open>div\<close> on \<open>int\<close>; \<open>(in_max - in_min) or 1\<close> replaces
  a zero divisor by one.
\<close>

definition remap :: "int \<Rightarrow> int \<Rightarrow> int \<Rightarrow> int \<Rightarrow> int \<Rightarrow> int" where
  "remap v in_min in_max out_min out_max =
     (let d = in_max - in_min;
          r = (v - in_min) * (out_max - out_min) div (if d = 0 then 1 else d) + out_min
      in min (max r out_min) out_max)"

lemma remap_in_range:
  "out_min \<le> out_max \<Longrightarrow>
     out_min \<le> remap v in_min in_max out_min out_max \<and> remap v in_min in_max out_min out_max \<le> out_max"
  by (auto simp: remap_def Let_def)

lemma remap_mono:
  assumes "in_min < in_max" "out_min \<le> out_max" "v \<le> w"
  shows "remap v in_min in_max out_min out_max \<le> remap w in_min in_max out_min out_max"
proof -
  have "(v - in_min) * (out_max - out_min) \<le> (w - in_min) * (out_max - out_min)"
    using assms by (intro mult_right_mono) auto
  then have "(v - in_min) * (out_max - out_min) div (in_max - in_min)
      \<le> (w - in_min) * (out_max - out_min) div (in_max - in_min)"
    using assms by (intro zdiv_mono1) auto
  then show ?thesis using assms by (auto simp: remap_def Let_def)
qed

lemma remap_ends:
  assumes "in_min < in_max" "out_min \<le> out_max"
  shows "remap in_min in_min in_max out_min out_max = out_min"
    and "remap in_max in_min in_max out_min out_max = out_max"
  using assms by (simp_all add: remap_def Let_def)

section \<open>tools.py: paths, names and command lines\<close>

fun py_contains :: "string \<Rightarrow> string \<Rightarrow> bool" where
  "py_contains sub [] = (sub = [])"
| "py_contains sub (c # cs) = (take (length sub) (c # cs) = sub \<or> py_contains sub cs)"

definition py_startswith :: "string \<Rightarrow> string \<Rightarrow> bool" where
  "py_startswith s p = (take (length p) s = p)"

definition py_endswith :: "string \<Rightarrow> string \<Rightarrow> bool" where
  "py_endswith s p = (length p \<le> length s \<and> drop (length s - length p) s = p)"

definition nul :: char where
  "nul = CHR 0x00"

definition check_abs :: "string \<Rightarrow> unit result" where
  "check_abs path =
     (if path = [] then Inl ValueError
      else if nul \<in> set path then Inl ValueError
      else if \<not> py_startswith path ''/'' then Inl ValueError
      else if py_contains ''/../'' path \<or> py_endswith path ''/..'' then Inl ValueError
      else Inr ())"

definition check_name :: "string \<Rightarrow> unit result" where
  "check_name name =
     (if name = [] then Inl ValueError
      else if name \<in> {''.'', ''..'', ''lost+found''} then Inl ValueError
      else if nul \<in> set name then Inl ValueError
      else if CHR ''/'' \<in> set name then Inl ValueError
      else Inr ())"

definition build_cmd :: "string list \<Rightarrow> string list \<Rightarrow> string list \<Rightarrow> string list result" where
  "build_cmd cmd cmd_remove cmd_append =
     (case cmd of [] \<Rightarrow> Inl AssertionError
      | exe # args \<Rightarrow> Inr (exe # filter (\<lambda>a. a \<notin> set cmd_remove) args @ cmd_append))"

definition swapped_kvs :: "('k, 'v) dict \<Rightarrow> ('v, 'k) dict" where
  "swapped_kvs d = fold (\<lambda>(k, v) acc. AList.update v k acc) d []"

text \<open>The components of a path between slashes, the reference notion of \<open>check_abs\<close>.\<close>

fun path_split :: "string \<Rightarrow> string list" where
  "path_split [] = [[]]"
| "path_split (c # cs) =
     (if c = CHR ''/'' then [] # path_split cs
      else (case path_split cs of [] \<Rightarrow> [[c]] | p # ps \<Rightarrow> (c # p) # ps))"

lemma map_of_swapped_kvs_aux:
  "distinct (map snd d) \<Longrightarrow>
     map_of (fold (\<lambda>(k, v) acc. AList.update v k acc) d acc) v =
       (case map_of (map (\<lambda>(k, v). (v, k)) d) v of Some k \<Rightarrow> Some k | None \<Rightarrow> map_of acc v)"
  by (induction d arbitrary: acc)
     (force split: option.splits dest: map_of_SomeD simp: fun_upd_apply)+

lemma map_of_swapped_kvs:
  "distinct (map snd d) \<Longrightarrow> map_of (swapped_kvs d) v = map_of (map (\<lambda>(k, v). (v, k)) d) v"
  by (simp add: swapped_kvs_def map_of_swapped_kvs_aux split: option.splits)

lemma build_cmd_keeps_executable: "build_cmd (exe # args) rm app = Inr cmd \<Longrightarrow> hd cmd = exe"
  by (auto simp: build_cmd_def)

lemma path_split_not_Nil [simp]: "path_split s \<noteq> []"
  by (cases s) (auto split: list.splits)

lemma hd_path_split: "hd (path_split s) = takeWhile (\<lambda>c. c \<noteq> CHR ''/'') s"
proof (induction s)
  case (Cons c s)
  then show ?case by (cases "path_split s") auto
qed simp

lemma py_endswith_Cons: "py_endswith s p \<Longrightarrow> py_endswith (c # s) p"
  by (auto simp: py_endswith_def Suc_diff_le)

lemma dotdot_first:
  "takeWhile (\<lambda>c. c \<noteq> CHR ''/'') s = ''..'' \<Longrightarrow> s = ''..'' \<or> (\<exists>r. s = ''../'' @ r)"
proof -
  assume pre: "takeWhile (\<lambda>c. c \<noteq> CHR ''/'') s = ''..''"
  have s: "s = ''..'' @ dropWhile (\<lambda>c. c \<noteq> CHR ''/'') s"
    using takeWhile_dropWhile_id [of "\<lambda>c. c \<noteq> CHR ''/''" s] pre by simp
  show ?thesis
  proof (cases "dropWhile (\<lambda>c. c \<noteq> CHR ''/'') s")
    case Nil
    with s show ?thesis by simp
  next
    case (Cons d r)
    then have "d = CHR ''/''" using hd_dropWhile [of "\<lambda>c. c \<noteq> CHR ''/''" s] by force
    with s Cons show ?thesis by auto
  qed
qed

lemma dotdot_later:
  "''..'' \<in> set (tl (path_split s)) \<Longrightarrow> py_contains ''/../'' s \<or> py_endswith s ''/..''"
proof (induction s)
  case (Cons c cs)
  show ?case
  proof (cases "''..'' \<in> set (tl (path_split cs))")
    case True
    with Cons.IH show ?thesis by (auto intro: py_endswith_Cons)
  next
    case False
    with Cons.prems have c: "c = CHR ''/''" and "hd (path_split cs) = ''..''"
      by (auto split: if_splits list.splits) (cases "path_split cs"; auto)+
    then have "cs = ''..'' \<or> (\<exists>r. cs = ''../'' @ r)"
      unfolding hd_path_split by (intro dotdot_first)
    with c show ?thesis by (auto simp: py_endswith_def)
  qed
qed simp

text \<open>C7. The path check used for every configured file path is sound: an accepted path is
  absolute, has no NUL character, and none of its components is \<open>..\<close>, so it names no
  location by going up from a directory.\<close>

theorem check_abs_sound:
  assumes "check_abs path = Inr ()"
  shows "hd path = CHR ''/'' \<and> nul \<notin> set path \<and> ''..'' \<notin> set (path_split path)"
proof -
  obtain rest where path: "path = CHR ''/'' # rest"
    using assms by (cases path) (auto simp: check_abs_def py_startswith_def split: if_splits)
  have "''..'' \<notin> set (tl (path_split path))"
    using assms dotdot_later [of path] by (auto simp: check_abs_def split: if_splits)
  then have "''..'' \<notin> set (path_split path)" using path by simp
  with assms path show ?thesis by (auto simp: check_abs_def split: if_splits)
qed

theorem check_abs_sound_witness:
  "hd ''/etc/a..b'' = CHR ''/'' \<and> nul \<notin> set ''/etc/a..b'' \<and> ''..'' \<notin> set (path_split ''/etc/a..b'')"
  by (rule check_abs_sound) (simp add: check_abs_def py_startswith_def py_endswith_def nul_def)

end
