(* ===== verification/PyText.thy ===== *)
theory PyText
  imports Prelude
begin

text \<open>
  Python text as lists of code points, with the standard-library operations the sources
  apply to it: \<open>str.strip\<close>, \<open>str.upper\<close> as far as ASCII results go, \<open>int(s, 16)\<close>,
  the format \<open>02X\<close>, and the codec \<open>cp437\<close>.  Unicode decimal digits outside ASCII are not
  read as digits.
\<close>

type_synonym pytext = "int list"

definition text_of :: "string \<Rightarrow> pytext" where
  "text_of s = map (\<lambda>c. int (of_char c)) s"

definition is_space :: "int \<Rightarrow> bool" where
  "is_space c = (9 \<le> c \<and> c \<le> 13 \<or> 28 \<le> c \<and> c \<le> 32 \<or> c = 0x85 \<or> c = 0xA0 \<or> c = 0x1680
     \<or> 0x2000 \<le> c \<and> c \<le> 0x200A \<or> c = 0x2028 \<or> c = 0x2029 \<or> c = 0x202F \<or> c = 0x205F
     \<or> c = 0x3000)"

definition lstrip :: "pytext \<Rightarrow> pytext" where
  "lstrip t = dropWhile is_space t"

definition rstrip :: "pytext \<Rightarrow> pytext" where
  "rstrip t = rev (dropWhile is_space (rev t))"

definition strip :: "pytext \<Rightarrow> pytext" where
  "strip t = lstrip (rstrip t)"

lemma rstrip_append_space: "list_all is_space ws \<Longrightarrow> rstrip (t @ ws) = rstrip t"
  by (simp add: rstrip_def dropWhile_append list_all_iff)

lemma strip_append_space: "list_all is_space ws \<Longrightarrow> strip (t @ ws) = strip t"
  by (simp add: strip_def rstrip_append_space)

text \<open>
  Upper case.  The ten non-ASCII code points whose upper case is ASCII are listed; any other
  non-ASCII code point stays outside ASCII and is left as it is.
\<close>

definition upper_special :: "(int \<times> pytext) list" where
  "upper_special =
     [(0xDF, text_of ''SS''), (0x131, text_of ''I''), (0x17F, text_of ''S''),
      (0xFB00, text_of ''FF''), (0xFB01, text_of ''FI''), (0xFB02, text_of ''FL''),
      (0xFB03, text_of ''FFI''), (0xFB04, text_of ''FFL''), (0xFB05, text_of ''ST''),
      (0xFB06, text_of ''ST'')]"

definition upper_char :: "int \<Rightarrow> pytext" where
  "upper_char c = (if 97 \<le> c \<and> c \<le> 122 then [c - 32]
     else case map_of upper_special c of Some t \<Rightarrow> t | None \<Rightarrow> [c])"

definition upper :: "pytext \<Rightarrow> pytext" where
  "upper t = concat (map upper_char t)"

definition encode_ascii :: "pytext \<Rightarrow> bytes result" where
  "encode_ascii t = (if list_all (\<lambda>c. 0 \<le> c \<and> c < 128) t then Inr t else Inl UnicodeError)"

section \<open>Hexadecimal numbers\<close>

definition hex_val :: "int \<Rightarrow> int option" where
  "hex_val c = (if 48 \<le> c \<and> c \<le> 57 then Some (c - 48)
     else if 65 \<le> c \<and> c \<le> 70 then Some (c - 55)
     else if 97 \<le> c \<and> c \<le> 102 then Some (c - 87)
     else None)"

text \<open>Digits with single underscores between them; the flag says that a digit came last.\<close>

fun hex_digits :: "int \<Rightarrow> bool \<Rightarrow> pytext \<Rightarrow> int option" where
  "hex_digits acc d [] = (if d then Some acc else None)"
| "hex_digits acc d (c # cs) =
     (if c = 95 then (if d then hex_digits acc False cs else None)
      else case hex_val c of None \<Rightarrow> None | Some v \<Rightarrow> hex_digits (16 * acc + v) True cs)"

definition hex_body :: "pytext \<Rightarrow> int option" where
  "hex_body t = (case t of
       a # b # r \<Rightarrow> (if a = 48 \<and> (b = 120 \<or> b = 88)
         then (case r of c # r' \<Rightarrow> if c = 95 then hex_digits 0 False r' else hex_digits 0 False r
               | [] \<Rightarrow> None)
         else hex_digits 0 False t)
     | _ \<Rightarrow> hex_digits 0 False t)"

definition py_int16 :: "pytext \<Rightarrow> int result" where
  "py_int16 t = (let u = strip t in
     case (case u of
         c # r \<Rightarrow> if c = 45 then map_option uminus (hex_body r)
                  else if c = 43 then hex_body r else hex_body u
       | [] \<Rightarrow> None)
     of None \<Rightarrow> Inl ValueError | Some v \<Rightarrow> Inr v)"

definition hex_char :: "int \<Rightarrow> int" where
  "hex_char v = (if v < 10 then 48 + v else 55 + v)"

text \<open>The format \<open>02X\<close> of a number \<open>0 \<le> n\<close>: at least two upper-case digits.\<close>

function hex_upper :: "int \<Rightarrow> pytext" where
  "hex_upper n = (if n < 16 then [hex_char n] else hex_upper (n div 16) @ [hex_char (n mod 16)])"
  by pat_completeness auto
termination
  by (relation "measure nat") (auto simp: nat_less_iff)

declare hex_upper.simps [simp del]

definition fmt_02X :: "int \<Rightarrow> pytext" where
  "fmt_02X n = (let h = hex_upper n in replicate (2 - length h) 48 @ h)"

lemma hex_char_0 [simp]: "hex_char 0 = 48"
  by (simp add: hex_char_def)

lemma fmt_02X_byte: "0 \<le> b \<Longrightarrow> b < 256 \<Longrightarrow> fmt_02X b = [hex_char (b div 16), hex_char (b mod 16)]"
  by (subst fmt_02X_def, subst hex_upper.simps)
     (auto simp: hex_upper.simps [of "b div 16"] numeral_2_eq_2)

lemma hex_char_range:
  "0 \<le> v \<Longrightarrow> v < 16 \<Longrightarrow> 48 \<le> hex_char v \<and> hex_char v \<le> 57 \<or> 65 \<le> hex_char v \<and> hex_char v \<le> 70"
  by (auto simp: hex_char_def)

lemma hex_val_char [simp]: "0 \<le> v \<Longrightarrow> v < 16 \<Longrightarrow> hex_val (hex_char v) = Some v"
  by (auto simp: hex_val_def hex_char_def)

lemma not_space_hex_char: "0 \<le> v \<Longrightarrow> v < 16 \<Longrightarrow> \<not> is_space (hex_char v)"
  using hex_char_range [of v] by (auto simp: is_space_def)

lemma py_int16_fmt: "0 \<le> b \<Longrightarrow> b < 256 \<Longrightarrow> py_int16 (fmt_02X b) = Inr b"
proof -
  assume b: "0 \<le> b" "b < 256"
  define h l where "h = b div 16" and "l = b mod 16"
  then have hl: "0 \<le> h" "h < 16" "0 \<le> l" "l < 16" and bb: "b = 16 * h + l" using b by auto
  have "strip [hex_char h, hex_char l] = [hex_char h, hex_char l]"
    using hl by (simp add: strip_def lstrip_def rstrip_def not_space_hex_char)
  moreover have "hex_char h \<noteq> 45" "hex_char h \<noteq> 43" "hex_char h \<noteq> 95" "hex_char l \<noteq> 95"
    "hex_char l \<noteq> 120" "hex_char l \<noteq> 88"
    using hl hex_char_range [of h] hex_char_range [of l] by auto
  ultimately show ?thesis
    using b hl bb by (simp add: py_int16_def fmt_02X_byte h_def [symmetric] l_def [symmetric] hex_body_def)
qed

text \<open>\<open>[int(text[i:i+2], 16) for i in range(0, len(text), 2)]\<close>.\<close>

fun hex_pairs :: "pytext \<Rightarrow> int list result" where
  "hex_pairs [] = Inr []"
| "hex_pairs [a] = bindR (py_int16 [a]) (\<lambda>x. Inr [x])"
| "hex_pairs (a # b # r) =
     bindR (py_int16 [a, b]) (\<lambda>x. bindR (hex_pairs r) (\<lambda>xs. Inr (x # xs)))"

definition no_space :: "pytext \<Rightarrow> pytext" where
  "no_space t = filter (\<lambda>c. \<not> is_space c) t"

lemma hex_pairs_fmt: "bytes_ok bs \<Longrightarrow> hex_pairs (concat (map fmt_02X bs)) = Inr bs"
proof (induction bs)
  case (Cons b bs)
  then show ?case using py_int16_fmt [of b] by (simp add: fmt_02X_byte)
qed simp

lemma no_space_fmt: "0 \<le> b \<Longrightarrow> b < 256 \<Longrightarrow> no_space (fmt_02X b) = fmt_02X b"
  by (simp add: fmt_02X_byte no_space_def not_space_hex_char)

lemma no_space_hex: "bytes_ok bs \<Longrightarrow> no_space (concat (map fmt_02X bs)) = concat (map fmt_02X bs)"
proof (induction bs)
  case (Cons b bs)
  then show ?case using no_space_fmt [of b] by (simp add: no_space_def)
qed (simp add: no_space_def)

lemma length_hex: "bytes_ok bs \<Longrightarrow> length (concat (map fmt_02X bs)) = 2 * length bs"
  by (induction bs) (simp_all add: fmt_02X_byte)

section \<open>The codec cp437\<close>

definition cp437_high :: "int list" where
  "cp437_high =
     [199, 252, 233, 226, 228, 224, 229, 231, 234, 235, 232, 239, 238, 236, 196, 197,
      201, 230, 198, 244, 246, 242, 251, 249, 255, 214, 220, 162, 163, 165, 8359, 402,
      225, 237, 243, 250, 241, 209, 170, 186, 191, 8976, 172, 189, 188, 161, 171, 187,
      9617, 9618, 9619, 9474, 9508, 9569, 9570, 9558, 9557, 9571, 9553, 9559, 9565, 9564, 9563, 9488,
      9492, 9524, 9516, 9500, 9472, 9532, 9566, 9567, 9562, 9556, 9577, 9574, 9568, 9552, 9580, 9575,
      9576, 9572, 9573, 9561, 9560, 9554, 9555, 9579, 9578, 9496, 9484, 9608, 9604, 9612, 9616, 9600,
      945, 223, 915, 960, 931, 963, 181, 964, 934, 920, 937, 948, 8734, 966, 949, 8745,
      8801, 177, 8805, 8804, 8992, 8993, 247, 8776, 176, 8729, 183, 8730, 8319, 178, 9632, 160]"

definition cp437_decode1 :: "int \<Rightarrow> int" where
  "cp437_decode1 b = (if b < 128 then b else cp437_high ! nat (b - 128))"

definition cp437_decode :: "bytes \<Rightarrow> pytext" where
  "cp437_decode bs = map cp437_decode1 bs"

definition cp437_encode1 :: "int \<Rightarrow> int result" where
  "cp437_encode1 c = (if 0 \<le> c \<and> c < 128 then Inr c
     else case map_of (zip cp437_high (map (\<lambda>i. 128 + int i) [0..<length cp437_high])) c of
       Some b \<Rightarrow> Inr b | None \<Rightarrow> Inl UnicodeError)"

definition cp437_encode :: "pytext \<Rightarrow> bytes result" where
  "cp437_encode t = mapR cp437_encode1 t"

lemma cp437_high_facts: "length cp437_high = 128" "distinct cp437_high"
  by (simp_all add: cp437_high_def)

lemma cp437_encode1_decode1: "cp437_encode1 c = Inr b \<Longrightarrow> 0 \<le> b \<and> b < 256 \<and> cp437_decode1 b = c"
proof -
  assume enc: "cp437_encode1 c = Inr b"
  show ?thesis
  proof (cases "0 \<le> c \<and> c < 128")
    case True
    with enc show ?thesis by (simp add: cp437_encode1_def cp437_decode1_def)
  next
    case False
    with enc have "map_of (zip cp437_high (map (\<lambda>i. 128 + int i) [0..<length cp437_high])) c = Some b"
      by (auto simp: cp437_encode1_def split: option.splits if_splits)
    then have "(c, b) \<in> set (zip cp437_high (map (\<lambda>i. 128 + int i) [0..<length cp437_high]))" by (rule map_of_SomeD)
    then obtain i where i: "i < length cp437_high" "c = cp437_high ! i" "b = 128 + int i"
      by (auto simp: set_zip)
    then show ?thesis by (simp add: cp437_decode1_def cp437_high_facts(1))
  qed
qed

lemma cp437_roundtrip: "cp437_encode t = Inr bs \<Longrightarrow> bytes_ok bs \<and> cp437_decode bs = t"
  by (induction t arbitrary: bs)
     (auto simp: cp437_encode_def cp437_decode_def bindR_Inr_iff dest: cp437_encode1_decode1)

end
