(* ===== verification/Edid.thy ===== *)
theory Edid
  imports Tools PyText
begin

text \<open>
  The EDID editor of \<open>kvmd/edid.py\<close>: a mutable list of 128 or 256 integers with accessors
  for the manufacturer, product, serial and text descriptors, and a parser and printer for
  the CEA extension blocks.  The methods of the class \<open>Edid\<close> are functions on the record
  \<open>parsed_edid\<close>; a method that assigns returns the new record.
\<close>

section \<open>CEA data blocks\<close>

record cea_block =
  cb_tag :: int
  cb_data :: bytes

definition cea_ok :: "cea_block \<Rightarrow> bool" where
  "cea_ok cb = (0 < cb_tag cb \<and> cb_tag cb \<le> 7
     \<and> 0 < length (cb_data cb) \<and> length (cb_data cb) \<le> 31)"

definition mk_cea_block :: "int \<Rightarrow> bytes \<Rightarrow> cea_block result" where
  "mk_cea_block tag data = (let cb = \<lparr>cb_tag = tag, cb_data = data\<rparr> in assertR (cea_ok cb) (Inr cb))"

definition cea_size :: "cea_block \<Rightarrow> nat" where
  "cea_size cb = length (cb_data cb) + 1"

definition cea_pack :: "cea_block \<Rightarrow> bytes" where
  "cea_pack cb = (push_bit 5 (cb_tag cb) OR int (length (cb_data cb))) # cb_data cb"

definition cea_first_from_raw :: "int list \<Rightarrow> cea_block result" where
  "cea_first_from_raw raw = bindR (py_get raw 0) (\<lambda>h.
     assertR (0 < h \<and> h \<le> 0xFF)
       (let tag = drop_bit 5 (h AND 0xE0); size = nat (h AND 0x1F)
        in bindR (py_bytes (py_slice 1 (size + 1) raw)) (\<lambda>data. mk_cea_block tag data)))"

section \<open>The editor's state\<close>

record parsed_edid =
  e_long :: bool
  e_data :: "int list"

definition edid_init :: "bytes \<Rightarrow> parsed_edid result" where
  "edid_init data =
     assertR (length data \<in> {128, 256})
       (let long = (length data = 256) in
        assertR (long \<longrightarrow> data ! 126 = 1)
          (assertR (long \<longrightarrow> data ! 128 = 2 \<and> data ! 129 = 3)
             (Inr \<lparr>e_long = long, e_data = data\<rparr>)))"

definition edid_wf :: "parsed_edid \<Rightarrow> bool" where
  [wf_simps]: "edid_wf e = (length (e_data e) = (if e_long e then 256 else 128) \<and> bytes_ok (e_data e))"

definition is_header_valid :: "bytes \<Rightarrow> bool" where
  "is_header_valid data = (take 8 data = [0, 255, 255, 255, 255, 255, 255, 0])"

text \<open>The content of a file: binary when the header is valid, hexadecimal text otherwise.
  \<open>bytes.decode\<close> is the identity on ASCII; UTF-8 sequences are not modelled.\<close>

definition edid_from_raw :: "bytes \<Rightarrow> parsed_edid result" where
  "edid_from_raw raw =
     bindR (if is_header_valid raw then Inr raw
            else bindR (encode_ascii raw) (\<lambda>text.
                 bindR (hex_pairs (no_space text)) py_bytes)) edid_init"

definition upd :: "nat \<Rightarrow> int \<Rightarrow> parsed_edid \<Rightarrow> parsed_edid" where
  "upd i v e = e\<lparr>e_data := (e_data e)[i := v]\<rparr>"

definition update_checksums :: "parsed_edid \<Rightarrow> parsed_edid" where
  "update_checksums e =
     (let e1 = upd 127 (256 - sum_list (take 127 (e_data e)) mod 256) e
      in if e_long e1 then upd 255 (256 - sum_list (py_slice 128 255 (e_data e1)) mod 256) e1 else e1)"

definition hex_lines :: "int list \<Rightarrow> pytext" where
  "hex_lines d = concat (map (\<lambda>i.
       (if i = 0 then [] else [10]) @ concat (map fmt_02X (py_slice (16 * i) (16 * i + 16) d)))
     [0..<(length d + 15) div 16]) @ [10]"

definition write_hex :: "parsed_edid \<Rightarrow> pytext" where
  "write_hex e = hex_lines (e_data (update_checksums e))"

definition write_bin :: "parsed_edid \<Rightarrow> bytes result" where
  "write_bin e = py_bytes (e_data (update_checksums e))"

section \<open>Identification fields\<close>

definition get_mfc_id :: "parsed_edid \<Rightarrow> pytext" where
  "get_mfc_id e = (let raw = push_bit 8 (e_data e ! 8) OR e_data e ! 9 in
     [(drop_bit 10 raw AND 31) + 0x40, (drop_bit 5 raw AND 31) + 0x40, (raw AND 31) + 0x40])"

definition set_mfc_id :: "pytext \<Rightarrow> parsed_edid \<Rightarrow> parsed_edid result" where
  "set_mfc_id mfc e =
     assertR (length mfc = 3) (bindR (encode_ascii (upper mfc)) (\<lambda>data.
       assertR (list_all (\<lambda>c. 0x41 \<le> c \<and> c \<le> 0x5A) data)
         (let raw = (data ! 2 - 0x40) OR push_bit 5 (data ! 1 - 0x40) OR push_bit 10 (data ! 0 - 0x40)
          in Inr (upd 9 (raw AND 0xFF) (upd 8 (drop_bit 8 raw AND 0xFF) e)))))"

definition get_product_id :: "parsed_edid \<Rightarrow> int" where
  "get_product_id e = e_data e ! 10 OR push_bit 8 (e_data e ! 11)"

definition set_product_id :: "int \<Rightarrow> parsed_edid \<Rightarrow> parsed_edid result" where
  "set_product_id p e = assertR (0 \<le> p \<and> p \<le> 0xFFFF)
     (Inr (upd 11 (drop_bit 8 p AND 0xFF) (upd 10 (p AND 0xFF) e)))"

definition get_serial :: "parsed_edid \<Rightarrow> int" where
  "get_serial e = e_data e ! 12 OR push_bit 8 (e_data e ! 13)
     OR push_bit 16 (e_data e ! 14) OR push_bit 24 (e_data e ! 15)"

definition set_serial :: "int \<Rightarrow> parsed_edid \<Rightarrow> parsed_edid result" where
  "set_serial s e = assertR (0 \<le> s \<and> s \<le> 0xFFFFFFFF)
     (Inr (upd 15 (drop_bit 24 s AND 0xFF) (upd 14 (drop_bit 16 s AND 0xFF)
       (upd 13 (drop_bit 8 s AND 0xFF) (upd 12 (s AND 0xFF) e)))))"

section \<open>Text descriptors\<close>

text \<open>The exception \<open>EdidNoBlockError\<close> is \<open>None\<close> here.\<close>

definition find_dtd_text :: "int \<Rightarrow> parsed_edid \<Rightarrow> nat option" where
  "find_dtd_text t e =
     map_option (\<lambda>i. i + 5) (find (\<lambda>i. e_data e ! (i + 3) = t) [54, 72, 90, 108])"

definition get_dtd_text :: "int \<Rightarrow> parsed_edid \<Rightarrow> pytext option" where
  "get_dtd_text t e = map_option (\<lambda>i. strip (cp437_decode (py_slice i (i + 13) (e_data e))))
     (find_dtd_text t e)"

definition dtd_line :: "pytext \<Rightarrow> pytext" where
  "dtd_line text = take 13 (take 13 text @ [10] @ replicate 12 32)"

fun put_at :: "nat \<Rightarrow> int list \<Rightarrow> parsed_edid \<Rightarrow> parsed_edid" where
  "put_at i [] e = e"
| "put_at i (c # cs) e = put_at (Suc i) cs (upd i c e)"

definition set_dtd_text :: "int \<Rightarrow> pytext \<Rightarrow> parsed_edid \<Rightarrow> parsed_edid option result" where
  "set_dtd_text t text e = (case find_dtd_text t e of
       None \<Rightarrow> Inr None
     | Some i \<Rightarrow> bindR (cp437_encode (dtd_line text)) (\<lambda>enc. Inr (Some (put_at i enc e))))"

definition get_monitor_name :: "parsed_edid \<Rightarrow> pytext option" where
  "get_monitor_name e = get_dtd_text 0xFC e"

definition set_monitor_name :: "pytext \<Rightarrow> parsed_edid \<Rightarrow> parsed_edid option result" where
  "set_monitor_name text e = set_dtd_text 0xFC text e"

definition get_monitor_serial :: "parsed_edid \<Rightarrow> pytext option" where
  "get_monitor_serial e = get_dtd_text 0xFF e"

definition set_monitor_serial :: "pytext \<Rightarrow> parsed_edid \<Rightarrow> parsed_edid option result" where
  "set_monitor_serial text e = set_dtd_text 0xFF text e"

section \<open>CEA extension\<close>

lemma mk_cea_block_size: "mk_cea_block t d = Inr cb \<Longrightarrow> 2 \<le> cea_size cb"
  by (cases d) (auto simp: mk_cea_block_def assertR_Inr_iff cea_ok_def cea_size_def Let_def)

lemma cea_first_size: "cea_first_from_raw raw = Inr cb \<Longrightarrow> 2 \<le> cea_size cb"
  by (auto simp: cea_first_from_raw_def bindR_Inr_iff assertR_Inr_iff Let_def dest: mk_cea_block_size)

function parse_cbs :: "int list \<Rightarrow> cea_block list result" where
  "parse_cbs raw =
     (if raw = [] then Inr []
      else case cea_first_from_raw raw of
        Inl err \<Rightarrow> Inl err
      | Inr cb \<Rightarrow> bindR (parse_cbs (drop (cea_size cb) raw)) (\<lambda>cbs. Inr (cb # cbs)))"
  by pat_completeness auto
termination
  by (relation "measure length") (auto dest: cea_first_size)

function parse_dtds :: "int list \<Rightarrow> bytes result" where
  "parse_dtds raw =
     (if 18 + 1 < length raw \<and> raw ! 0 \<noteq> 0
      then bindR (py_bytes (take 18 raw)) (\<lambda>d.
           bindR (parse_dtds (drop 18 raw)) (\<lambda>ds. Inr (d @ ds)))
      else Inr [])"
  by pat_completeness auto
termination
  by (relation "measure length") auto

declare parse_cbs.simps [simp del] parse_dtds.simps [simp del]

text \<open>\<open>parse_cea\<close>: \<open>None\<close> stands for \<open>EdidNoBlockError\<close>.\<close>

definition parse_cea :: "parsed_edid \<Rightarrow> (cea_block list \<times> bytes) option result" where
  "parse_cea e =
     (if \<not> e_long e then Inr None
      else let cea = drop 128 (e_data e); dtd_begin = nat (cea ! 2) in
        if dtd_begin = 0 then Inr (Some ([], []))
        else bindR (if 4 < dtd_begin then parse_cbs (py_slice 4 dtd_begin cea) else Inr []) (\<lambda>cbs.
             assertR (4 \<le> dtd_begin)
               (bindR (parse_dtds (drop dtd_begin cea)) (\<lambda>dtds. Inr (Some (cbs, dtds))))))"

definition replace_cea :: "cea_block list \<Rightarrow> bytes \<Rightarrow> parsed_edid \<Rightarrow> parsed_edid result" where
  "replace_cea cbs dtds e =
     (let packed = concat (map cea_pack cbs); raw = packed @ dtds in
      assertR (length raw \<le> 128 - 4 - 1)
        (let e1 = upd (128 + 2) (if raw = [] then 0 else int (length packed) + 4) e
         in Inr (put_at (128 + 4) (map (\<lambda>i. if i < length raw then raw ! i else 0) [0..<123]) e1)))"

definition get_basic_audio :: "parsed_edid \<Rightarrow> bool" where
  "get_basic_audio e = bit_set (e_data e ! (128 + 3)) 0x40"

definition set_basic_audio :: "bool \<Rightarrow> parsed_edid \<Rightarrow> parsed_edid" where
  "set_basic_audio on e = (let b = e_data e ! (128 + 3) in
     upd (128 + 3) (if on then b OR 0x40 else b AND (0xFF - 0x40)) e)"

definition get_audio :: "parsed_edid \<Rightarrow> bool option result" where
  "get_audio e = bindR (parse_cea e) (\<lambda>r. Inr (map_option (\<lambda>(cbs, _).
     (\<exists>cb \<in> set cbs. cb_tag cb = 1) \<and> (\<exists>cb \<in> set cbs. cb_tag cb = 4) \<and> get_basic_audio e) r))"

definition audio_blocks :: "cea_block list" where
  "audio_blocks = [\<lparr>cb_tag = 1, cb_data = [0x09, 0x7f, 0x07]\<rparr>, \<lparr>cb_tag = 4, cb_data = [0x01, 0x00, 0x00]\<rparr>]"

definition set_audio :: "bool \<Rightarrow> parsed_edid \<Rightarrow> parsed_edid option result" where
  "set_audio on e = bindR (parse_cea e) (\<lambda>r. case r of
       None \<Rightarrow> Inr None
     | Some (cbs, dtds) \<Rightarrow>
         let kept = filter (\<lambda>cb. cb_tag cb \<notin> {1, 4}) cbs;
             new = (if on then kept @ audio_blocks else kept)
         in bindR (replace_cea new dtds e) (\<lambda>e1. Inr (Some (set_basic_audio on e1))))"

section \<open>Invariant\<close>

lemma upd_simps [simp]:
  "e_long (upd i v e) = e_long e"
  "e_data (upd i v e) = (e_data e)[i := v]"
  by (simp_all add: upd_def)

lemma put_at_long [simp]: "e_long (put_at i cs e) = e_long e"
  by (induction i cs e rule: put_at.induct) auto

lemma put_at_length [simp]: "length (e_data (put_at i cs e)) = length (e_data e)"
  by (induction i cs e rule: put_at.induct) auto

lemma put_at_nth:
  "j < length (e_data e) \<Longrightarrow> i + length cs \<le> length (e_data e) \<Longrightarrow>
     e_data (put_at i cs e) ! j = (if i \<le> j \<and> j < i + length cs then cs ! (j - i) else e_data e ! j)"
proof (induction i cs e rule: put_at.induct)
  case (2 i c cs e)
  then show ?case by (auto simp: nth_Cons' nth_list_update not_less_eq_eq)
qed simp

lemma edid_wf_upd: "edid_wf e \<Longrightarrow> 0 \<le> v \<and> v < 256 \<Longrightarrow> edid_wf (upd i v e)"
  by (auto simp: edid_wf_def)

lemma edid_wf_put_at: "edid_wf e \<Longrightarrow> bytes_ok cs \<Longrightarrow> edid_wf (put_at i cs e)"
  by (induction i cs e rule: put_at.induct) (auto intro: edid_wf_upd)

lemma edid_wf_nth: "edid_wf e \<Longrightarrow> i < 128 \<Longrightarrow> 0 \<le> e_data e ! i \<and> e_data e ! i < 256"
  by (auto simp: edid_wf_def intro!: bytes_ok_nth split: if_splits)

lemma edid_wf_nth_long:
  "edid_wf e \<Longrightarrow> e_long e \<Longrightarrow> i < 256 \<Longrightarrow> 0 \<le> e_data e ! i \<and> e_data e ! i < 256"
  by (auto simp: edid_wf_def intro!: bytes_ok_nth)

lemma edid_init_wf: "edid_init data = Inr e \<Longrightarrow> bytes_ok data \<Longrightarrow> edid_wf e"
  by (auto simp: edid_init_def assertR_Inr_iff edid_wf_def Let_def)

lemma edid_wf_length: "edid_wf e \<Longrightarrow> 128 \<le> length (e_data e)"
  by (simp add: edid_wf_def split: if_splits)

lemma set_product_id_wf: "set_product_id p e = Inr e' \<Longrightarrow> edid_wf e \<Longrightarrow> edid_wf e'"
  by (auto simp: set_product_id_def assertR_Inr_iff bits_simps intro!: edid_wf_upd)

lemma set_serial_wf: "set_serial s e = Inr e' \<Longrightarrow> edid_wf e \<Longrightarrow> edid_wf e'"
  by (auto simp: set_serial_def assertR_Inr_iff bits_simps intro!: edid_wf_upd)

lemma set_mfc_id_wf: "set_mfc_id m e = Inr e' \<Longrightarrow> edid_wf e \<Longrightarrow> edid_wf e'"
  by (auto simp: set_mfc_id_def assertR_Inr_iff bindR_Inr_iff Let_def bits_simps intro!: edid_wf_upd)

lemma set_dtd_text_wf: "set_dtd_text t text e = Inr (Some e') \<Longrightarrow> edid_wf e \<Longrightarrow> edid_wf e'"
  by (auto simp: set_dtd_text_def bindR_Inr_iff split: option.splits
      intro!: edid_wf_put_at dest: cp437_roundtrip)

section \<open>Round trips\<close>

lemma product_id_roundtrip:
  assumes "set_product_id p e = Inr e'" and "edid_wf e"
  shows "get_product_id e' = p"
proof -
  have p: "0 \<le> p" "p < 65536" and e': "e' = upd 11 (drop_bit 8 p AND 0xFF) (upd 10 (p AND 0xFF) e)"
    using assms(1) by (auto simp: set_product_id_def assertR_Inr_iff)
  have "p div 256 mod 256 = p div 256" using p by simp
  then show ?thesis
    using edid_wf_length [OF assms(2)] p
    by (simp add: e' get_product_id_def bits_simps drop_bit_eq_div)
qed

lemma get_serial_arith:
  assumes "edid_wf e"
  shows "get_serial e = e_data e ! 12 + 256 * e_data e ! 13 + 65536 * e_data e ! 14 + 16777216 * e_data e ! 15"
proof -
  have b: "0 \<le> e_data e ! 12" "e_data e ! 12 < 256" "0 \<le> e_data e ! 13" "e_data e ! 13 < 256"
    "0 \<le> e_data e ! 14" "e_data e ! 14 < 256"
    using edid_wf_nth [OF assms] by auto
  then show ?thesis
    using or_push_add [of "e_data e ! 12 + 256 * e_data e ! 13" 16 "e_data e ! 14"]
      or_push_add [of "e_data e ! 12 + 256 * e_data e ! 13 + 65536 * e_data e ! 14" 24 "e_data e ! 15"]
    by (simp add: get_serial_def bits_simps flip: or.assoc)
qed

lemma serial_roundtrip:
  assumes "set_serial s e = Inr e'" and "edid_wf e"
  shows "get_serial e' = s"
proof -
  have s: "0 \<le> s" "s < 4294967296"
    and e': "e' = upd 15 (drop_bit 24 s AND 0xFF) (upd 14 (drop_bit 16 s AND 0xFF)
       (upd 13 (drop_bit 8 s AND 0xFF) (upd 12 (s AND 0xFF) e)))"
    using assms(1) by (auto simp: set_serial_def assertR_Inr_iff)
  have data: "e_data e' ! 12 = s mod 256" "e_data e' ! 13 = s div 256 mod 256"
    "e_data e' ! 14 = s div 65536 mod 256" "e_data e' ! 15 = s div 16777216 mod 256"
    using edid_wf_length [OF assms(2)] by (simp_all add: e' bits_simps drop_bit_eq_div)
  have "s mod 65536 = 256 * (s div 256 mod 256) + s mod 256"
    using zmod_zmult2_eq [of 256 s 256] by simp
  moreover have "s mod 16777216 = 65536 * (s div 65536 mod 256) + s mod 65536"
    using zmod_zmult2_eq [of 256 s 65536] by simp
  moreover have "s = 16777216 * (s div 16777216) + s mod 16777216" by simp
  moreover have "s div 16777216 mod 256 = s div 16777216" using s by simp
  ultimately show ?thesis
    unfolding get_serial_arith [OF set_serial_wf [OF assms]] data by linarith
qed

lemma take_13_dtd_line: "length (dtd_line t) = 13"
  by (simp add: dtd_line_def)

lemma strip_dtd_line: "strip (dtd_line t) = strip (take 13 t)"
proof -
  define ws :: "int list" where "ws = [10] @ replicate 12 32"
  have "list_all is_space ws" by (simp add: ws_def list_all_iff is_space_def)
  then have "list_all is_space (take n ws)" for n
    by (auto simp: list_all_iff dest: in_set_takeD)
  moreover have "dtd_line t = take 13 t @ take (13 - length (take 13 t)) ws"
    unfolding dtd_line_def ws_def [symmetric] by (simp only: take_append take_take min.idem)
  ultimately show ?thesis by (simp only: strip_append_space)
qed

lemma find_dtd_text_bounds: "find_dtd_text t e = Some i \<Longrightarrow> i \<in> {59, 77, 95, 113}"
  by (auto simp: find_dtd_text_def split: if_splits)

lemma find_dtd_text_put_at:
  assumes "edid_wf e" and "find_dtd_text t e = Some i" and "length cs = 13"
  shows "find_dtd_text t (put_at i cs e) = Some i"
proof -
  have "e_data (put_at i cs e) ! (j + 3) = e_data e ! (j + 3)" if "j \<in> set [54, 72, 90, 108]" for j
    using that find_dtd_text_bounds [OF assms(2)] edid_wf_length [OF assms(1)] assms(3)
    by (auto simp: put_at_nth)
  then have "find_dtd_text t (put_at i cs e) = find_dtd_text t e"
    unfolding find_dtd_text_def by (intro arg_cong [of _ _ "map_option _"] find_cong) simp_all
  then show ?thesis using assms(2) by simp
qed

lemma slice_put_at:
  assumes "i + length cs \<le> length (e_data e)"
  shows "py_slice i (i + length cs) (e_data (put_at i cs e)) = cs"
  using assms by (intro nth_equalityI) (auto simp: length_py_slice nth_py_slice put_at_nth)

lemma dtd_text_roundtrip:
  assumes "set_dtd_text t text e = Inr (Some e')" and "edid_wf e"
  shows "get_dtd_text t e' = Some (strip (take 13 text))"
proof -
  obtain i enc where i: "find_dtd_text t e = Some i" and enc: "cp437_encode (dtd_line text) = Inr enc"
    and e': "e' = put_at i enc e"
    using assms(1) by (auto simp: set_dtd_text_def bindR_Inr_iff split: option.splits)
  have len: "length enc = 13"
    using mapR_Inr_length [of cp437_encode1 "dtd_line text" enc] enc take_13_dtd_line
    by (simp add: cp437_encode_def)
  have "i + 13 \<le> length (e_data e)"
    using find_dtd_text_bounds [OF i] edid_wf_length [OF assms(2)] by auto
  then have "py_slice i (i + 13) (e_data e') = enc" using slice_put_at [of i enc e] len e' by simp
  then show ?thesis
    using find_dtd_text_put_at [OF assms(2) i len] cp437_roundtrip [OF enc]
    by (simp add: get_dtd_text_def e' strip_dtd_line)
qed

lemma length_upper_char: "1 \<le> length (upper_char c)"
  by (auto simp: upper_char_def upper_special_def text_of_def)

lemma length_upper: "length t \<le> length (upper t)"
proof (induction t)
  case (Cons c t)
  then show ?case using length_upper_char [of c] by (simp add: upper_def)
qed simp

lemma base32_digits:
  fixes x y z :: int
  assumes "0 \<le> x" "x < 32" "0 \<le> y" "y < 32" "0 \<le> z" "z < 32"
  shows "(x + 32 * (y + 32 * z)) mod 32 = x" "(x + 32 * (y + 32 * z)) div 32 mod 32 = y"
    "(x + 32 * (y + 32 * z)) div 1024 mod 32 = z"
proof -
  have q: "(x + 32 * (y + 32 * z)) div 32 = y + 32 * z" using assms by simp
  have "(x + 32 * (y + 32 * z)) div 1024 = (x + 32 * (y + 32 * z)) div 32 div 32"
    by (simp flip: zdiv_zmult2_eq)
  also have "\<dots> = (y + 32 * z) div 32" unfolding q ..
  finally have "(x + 32 * (y + 32 * z)) div 1024 = (y + 32 * z) div 32" .
  then show "(x + 32 * (y + 32 * z)) div 1024 mod 32 = z" using assms by simp
  show "(x + 32 * (y + 32 * z)) div 32 mod 32 = y" unfolding q using assms by simp
  show "(x + 32 * (y + 32 * z)) mod 32 = x"
    using mod_mult_self2 [of x 32 "y + 32 * z"] assms by (simp del: mod_mult_self2)
qed

lemma mfc_id_roundtrip:
  assumes "set_mfc_id m e = Inr e'" and "edid_wf e"
  shows "get_mfc_id e' = take 3 (upper m)"
proof -
  define d where "d = upper m"
  have enc: "encode_ascii d = Inr d" and all: "list_all (\<lambda>c. 0x41 \<le> c \<and> c \<le> 0x5A) d"
    and len: "length m = 3"
    and e': "e' = (let raw = (d ! 2 - 0x40) OR push_bit 5 (d ! 1 - 0x40) OR push_bit 10 (d ! 0 - 0x40)
          in upd 9 (raw AND 0xFF) (upd 8 (drop_bit 8 raw AND 0xFF) e))"
    using assms(1) by (auto simp: set_mfc_id_def assertR_Inr_iff bindR_Inr_iff d_def Let_def
        encode_ascii_def split: if_splits)
  have dlen: "3 \<le> length d" using len length_upper [of m] by (simp add: d_def)
  obtain a b c r where d: "d = a # b # c # r"
    using dlen by (auto simp: numeral_3_eq_3 Suc_le_length_iff)
  have abc: "65 \<le> a" "a \<le> 90" "65 \<le> b" "b \<le> 90" "65 \<le> c" "c \<le> 90" using all d by auto
  define raw where "raw = (c - 64) + 32 * (b - 64) + 1024 * (a - 64)"
  have raw: "(d ! 2 - 0x40) OR push_bit 5 (d ! 1 - 0x40) OR push_bit 10 (d ! 0 - 0x40) = raw"
    using or_push_add [of "c - 64" 5 "b - 64"] or_push_add [of "c - 64 + 32 * (b - 64)" 10 "a - 64"] abc
    by (simp add: d raw_def flip: or.assoc)
  have rb: "0 \<le> raw" "raw < 65536" using abc by (auto simp: raw_def)
  have "e' = upd 9 (raw AND 0xFF) (upd 8 (drop_bit 8 raw AND 0xFF) e)"
    unfolding e' raw Let_def ..
  then have "e_data e' ! 9 = raw mod 256" "e_data e' ! 8 = raw div 256"
    using edid_wf_length [OF assms(2)] rb by (simp_all add: bits_simps drop_bit_eq_div)
  then have "push_bit 8 (e_data e' ! 8) OR e_data e' ! 9 = raw"
    using rb by (simp add: or.commute bits_simps)
  moreover have raw': "raw = (c - 64) + 32 * ((b - 64) + 32 * (a - 64))" by (simp add: raw_def)
  have "raw mod 32 = c - 64" "raw div 32 mod 32 = b - 64" "raw div 1024 mod 32 = a - 64"
    unfolding raw' using abc by (intro base32_digits; simp)+
  ultimately show ?thesis
    by (simp add: get_mfc_id_def Let_def bits_simps drop_bit_eq_div d flip: d_def)
qed

section \<open>The CEA blocks printed and parsed\<close>

lemma cea_header:
  fixes t n :: int
  assumes "0 \<le> t" "t \<le> 7" "0 \<le> n" "n \<le> 31"
  shows "push_bit 5 t OR n = n + 32 * t" "drop_bit 5 ((n + 32 * t) AND 0xE0) = t"
    "(n + 32 * t) AND 0x1F = n"
proof -
  show "push_bit 5 t OR n = n + 32 * t"
    using or_push_add [of n 5 t] assms by (simp add: or.commute)
  have "drop_bit 5 ((n + 32 * t) AND 0xE0) = (n + 32 * t) div 32 AND (2 ^ 3 - 1)"
    unfolding drop_bit_and unfolding drop_bit_eq_div by simp
  also have "\<dots> = (n + 32 * t) div 32 mod 8" by (simp only: and_mask_mod) simp
  also have "\<dots> = t" using assms by simp
  finally show "drop_bit 5 ((n + 32 * t) AND 0xE0) = t" .
  show "(n + 32 * t) AND 0x1F = n" using assms by (simp add: bits_simps)
qed

lemma cea_first_from_raw_pack:
  assumes "cea_ok cb" and "bytes_ok (cb_data cb)"
  shows "cea_first_from_raw (cea_pack cb @ rest) = Inr cb"
proof -
  define t n where "t = cb_tag cb" and "n = int (length (cb_data cb))"
  have tn: "0 < t" "t \<le> 7" "0 < n" "n \<le> 31" using assms(1) by (auto simp: cea_ok_def t_def n_def)
  then have h: "cea_pack cb = (n + 32 * t) # cb_data cb"
    using cea_header(1) [of t n] by (simp add: cea_pack_def t_def n_def)
  have "py_slice 1 (length (cb_data cb) + 1) (cea_pack cb @ rest) = cb_data cb"
    by (simp add: py_slice_def h)
  moreover have "cb = \<lparr>cb_tag = t, cb_data = cb_data cb\<rparr>" by (simp add: t_def)
  moreover have "py_get ((n + 32 * t) # cb_data cb @ rest) 0 = Inr (n + 32 * t)"
    by (simp add: py_get_def py_index_def)
  ultimately show ?thesis
    using tn assms cea_header(2,3) [of t n]
    by (simp add: cea_first_from_raw_def h mk_cea_block_def py_bytes_def Let_def n_def)
qed

lemma cea_pack_size: "length (cea_pack cb) = cea_size cb"
  by (simp add: cea_pack_def cea_size_def)

lemma cea_pack_not_Nil [simp]: "cea_pack cb \<noteq> []"
  by (simp add: cea_pack_def)

lemma parse_cbs_pack:
  "list_all (\<lambda>cb. cea_ok cb \<and> bytes_ok (cb_data cb)) cbs \<Longrightarrow>
     parse_cbs (concat (map cea_pack cbs)) = Inr cbs"
proof (induction cbs)
  case Nil
  show ?case by (subst parse_cbs.simps) simp
next
  case (Cons cb cbs)
  then show ?case
    using cea_first_from_raw_pack [of cb "concat (map cea_pack cbs)"]
    by (subst parse_cbs.simps) (simp add: cea_pack_size [symmetric])
qed

lemma cea_pack_bytes:
  assumes "cea_ok cb" and "bytes_ok (cb_data cb)"
  shows "bytes_ok (cea_pack cb)"
  using assms cea_header(1) [of "cb_tag cb" "int (length (cb_data cb))"]
  by (auto simp: cea_pack_def cea_ok_def)

lemma mk_cea_block_ok: "mk_cea_block t d = Inr cb \<Longrightarrow> cea_ok cb \<and> cb_data cb = d"
  by (auto simp: mk_cea_block_def Let_def assertR_Inr_iff)

lemma cea_first_ok: "cea_first_from_raw raw = Inr cb \<Longrightarrow> cea_ok cb \<and> bytes_ok (cb_data cb)"
  by (auto simp: cea_first_from_raw_def bindR_Inr_iff assertR_Inr_iff Let_def py_bytes_def
      split: if_splits dest: mk_cea_block_ok)

lemma parse_cbs_ok:
  "parse_cbs raw = Inr cbs \<Longrightarrow> list_all (\<lambda>cb. cea_ok cb \<and> bytes_ok (cb_data cb)) cbs"
proof (induction raw arbitrary: cbs rule: parse_cbs.induct)
  case (1 raw)
  show ?case
  proof (cases "raw = []")
    case True
    with "1.prems" show ?thesis by (simp add: parse_cbs.simps)
  next
    case False
    then obtain cb cs where cb: "cea_first_from_raw raw = Inr cb"
      and cs: "parse_cbs (drop (cea_size cb) raw) = Inr cs" "cbs = cb # cs"
      using "1.prems" by (subst (asm) parse_cbs.simps) (auto simp: bindR_Inr_iff split: sum.splits)
    then show ?thesis using "1.IH" [OF False cb] cea_first_ok [OF cb] by simp
  qed
qed

definition dtd_chunk :: "bytes \<Rightarrow> bool" where
  "dtd_chunk d = (length d = 18 \<and> d ! 0 \<noteq> 0 \<and> bytes_ok d)"

lemma parse_dtds_concat:
  assumes "list_all dtd_chunk ds" and "2 \<le> length tail" and "length tail \<le> 19 \<or> tail ! 0 = 0"
  shows "parse_dtds (concat ds @ tail) = Inr (concat ds)"
  using assms
proof (induction ds)
  case Nil
  then show ?case by (subst parse_dtds.simps) auto
next
  case (Cons d ds)
  then have d: "length d = 18" "d ! 0 \<noteq> 0" "bytes_ok d" by (auto simp: dtd_chunk_def)
  with Cons show ?case
    by (subst parse_dtds.simps) (simp add: nth_append py_bytes_def)
qed

lemma parse_dtds_total: "bytes_ok raw \<Longrightarrow> \<exists>ds. list_all dtd_chunk ds \<and> parse_dtds raw = Inr (concat ds)"
proof (induction raw rule: parse_dtds.induct)
  case (1 raw)
  show ?case
  proof (cases "18 + 1 < length raw \<and> raw ! 0 \<noteq> 0")
    case True
    with 1 obtain ds where ds: "list_all dtd_chunk ds" "parse_dtds (drop 18 raw) = Inr (concat ds)"
      by (auto simp: py_bytes_def)
    have "dtd_chunk (take 18 raw)" using True "1.prems" by (simp add: dtd_chunk_def)
    with ds True "1.prems" have "list_all dtd_chunk (take 18 raw # ds)"
      and "parse_dtds raw = Inr (concat (take 18 raw # ds))"
      by (simp_all add: parse_dtds.simps [of raw] py_bytes_def)
    then show ?thesis by blast
  next
    case False
    then have "parse_dtds raw = Inr []" by (subst parse_dtds.simps) auto
    then show ?thesis by (intro exI [of _ "[]"]) simp
  qed
qed

lemma put_at_data:
  "i + length cs \<le> length (e_data e) \<Longrightarrow>
     e_data (put_at i cs e) = take i (e_data e) @ cs @ drop (i + length cs) (e_data e)"
proof (induction i cs e rule: put_at.induct)
  case (1 i e)
  then show ?case by simp
next
  case (2 i c cs e)
  then have "e_data (put_at (Suc i) cs (upd i c e)) =
      take (Suc i) ((e_data e)[i := c]) @ cs @ drop (Suc i + length cs) ((e_data e)[i := c])"
    by simp
  with 2 show ?case by (simp add: take_Suc_conv_app_nth take_update_swap list_update_append)
qed

lemma replace_cea_data:
  assumes "replace_cea cbs dtds e = Inr e'" and "edid_wf e" and "e_long e"
    and packed: "packed = concat (map cea_pack cbs)" and raw: "raw = packed @ dtds"
  shows "length raw \<le> 123" "e_long e'" "take 128 (e_data e') = take 128 (e_data e)"
    "drop 128 (e_data e') = [e_data e ! 128, e_data e ! 129, if raw = [] then 0 else int (length packed) + 4,
       e_data e ! 131] @ raw @ replicate (123 - length raw) 0 @ [e_data e ! 255]"
proof -
  define zs where "zs = map (\<lambda>i. if i < length raw then raw ! i else 0) [0..<123]"
  define n where "n = (if raw = [] then 0 else int (length packed) + 4)"
  have len: "length raw \<le> 123" and e': "e' = put_at 132 zs (upd 130 n e)"
    using assms(1) unfolding replace_cea_def Let_def assertR_Inr_iff packed [symmetric] raw [symmetric] zs_def n_def
    by auto
  show "length raw \<le> 123" by (rule len)
  show "e_long e'" using assms(3) by (simp add: e')
  have zs: "zs = raw @ replicate (123 - length raw) 0"
    using len by (intro nth_equalityI) (auto simp: zs_def nth_append)
  have l256: "length (e_data e) = 256" using assms(2,3) by (simp add: edid_wf_def)
  have lzs: "length zs = 123" by (simp add: zs_def)
  have data: "e_data e' = take 132 ((e_data e)[130 := n]) @ zs @ drop 255 (e_data e)"
    using put_at_data [of 132 zs "upd 130 n e"] l256 lzs by (simp add: e')
  then show "take 128 (e_data e') = take 128 (e_data e)" using l256 by simp
  have "drop 128 (take 132 ((e_data e)[130 := n])) = [e_data e ! 128, e_data e ! 129, n, e_data e ! 131]"
    using l256 by (intro nth_equalityI) (auto simp: nth_Cons' nth_list_update numeral_eq_Suc less_Suc_eq)
  moreover have "drop 255 (e_data e) = [e_data e ! 255]"
    using l256 by (intro nth_equalityI) auto
  ultimately show "drop 128 (e_data e') = [e_data e ! 128, e_data e ! 129, if raw = [] then 0 else int (length packed) + 4,
       e_data e ! 131] @ raw @ replicate (123 - length raw) 0 @ [e_data e ! 255]"
    unfolding data zs n_def [symmetric] using l256 by simp
qed

lemma parse_dtds_after_replace:
  assumes ds: "list_all dtd_chunk ds" and n: "n \<le> 123" "length (concat ds) \<le> n"
  shows "parse_dtds (concat ds @ replicate (123 - n) 0 @ [c]) =
    Inr (concat (if n < 123 then ds else butlast ds))"
proof (cases "n < 123")
  case True
  then show ?thesis using parse_dtds_concat [OF ds, of "replicate (123 - n) 0 @ [c]"]
    by (simp add: nth_append)
next
  case False
  show ?thesis
  proof (cases "ds = []")
    case True
    then show ?thesis using False by (subst parse_dtds.simps) simp
  next
    case ne: False
    have last: "length (last ds) = 18" and init: "list_all dtd_chunk (butlast ds)"
      using ds ne by (auto simp: list_all_iff dtd_chunk_def dest: in_set_butlastD)
    have "concat ds @ replicate (123 - n) 0 @ [c] = concat (butlast ds) @ (last ds @ [c])"
      using False ne by (cases ds rule: rev_cases) auto
    then show ?thesis using parse_dtds_concat [OF init, of "last ds @ [c]"] last False by simp
  qed
qed

lemma parse_after_replace:
  assumes rep: "replace_cea cbs (concat ds) e = Inr e'" and wf: "edid_wf e" "e_long e"
    and cbs: "list_all (\<lambda>cb. cea_ok cb \<and> bytes_ok (cb_data cb)) cbs" and ds: "list_all dtd_chunk ds"
  shows "parse_cea e' = Inr (Some (cbs,
     concat (if length (concat (map cea_pack cbs) @ concat ds) < 123 then ds else butlast ds)))"
proof -
  define packed where "packed = concat (map cea_pack cbs)"
  define raw where "raw = packed @ concat ds"
  note facts = replace_cea_data [OF rep wf packed_def raw_def]
  define tail where "tail = replicate (123 - length raw) 0 @ [e_data e ! 255]"
  define n where "n = (if raw = [] then 0 else int (length packed) + 4)"
  define es where "es = (if length raw < 123 then ds else butlast ds)"
  have cea: "drop 128 (e_data e') = [e_data e ! 128, e_data e ! 129, n, e_data e ! 131] @ packed @ concat ds @ tail"
    using facts(4) by (simp add: raw_def tail_def n_def)
  have dtds: "parse_dtds (concat ds @ tail) = Inr (concat es)"
    using parse_dtds_after_replace [OF ds facts(1)] by (simp add: raw_def tail_def es_def)
  have empty: "packed = [] \<Longrightarrow> cbs = []" by (auto simp: packed_def)
  have "parse_cea e' = Inr (Some (cbs, concat es))"
  proof (cases "raw = []")
    case True
    have "nat (drop 128 (e_data e') ! 2) = 0" by (simp add: cea n_def True)
    moreover have "cbs = []" "concat ds = []" using True empty by (auto simp: raw_def)
    moreover have "es = ds" by (simp add: es_def True)
    ultimately show ?thesis using facts(2) by (simp add: parse_cea_def Let_def)
  next
    case False
    then have d: "nat (drop 128 (e_data e') ! 2) = length packed + 4" by (simp add: cea n_def)
    have "py_slice 4 (length packed + 4) (drop 128 (e_data e')) = packed"
      by (simp add: cea py_slice_def)
    moreover have "drop (length packed + 4) (drop 128 (e_data e')) = concat ds @ tail"
      unfolding cea by (simp add: eval_nat_numeral)
    moreover have "parse_cbs packed = Inr cbs" unfolding packed_def by (rule parse_cbs_pack [OF cbs])
    ultimately show ?thesis
      using facts(2) dtds empty unfolding parse_cea_def Let_def d by auto
  qed
  then show ?thesis unfolding es_def raw_def packed_def .
qed

lemma parse_cea_ok:
  assumes "parse_cea e = Inr (Some (cbs, dtds))" and "edid_wf e"
  shows "e_long e" "list_all (\<lambda>cb. cea_ok cb \<and> bytes_ok (cb_data cb)) cbs"
    "\<exists>ds. list_all dtd_chunk ds \<and> dtds = concat ds"
proof -
  show "e_long e" using assms(1) by (auto simp: parse_cea_def split: if_splits)
  define n where "n = nat (drop 128 (e_data e) ! 2)"
  have parse: "n = 0 \<and> cbs = [] \<and> dtds = [] \<or>
      (if 4 < n then parse_cbs (py_slice 4 n (drop 128 (e_data e))) else Inr []) = Inr cbs
        \<and> parse_dtds (drop n (drop 128 (e_data e))) = Inr dtds"
    using assms(1) unfolding parse_cea_def Let_def n_def [symmetric]
    by (auto simp: bindR_Inr_iff assertR_Inr_iff split: if_splits)
  then show "list_all (\<lambda>cb. cea_ok cb \<and> bytes_ok (cb_data cb)) cbs"
    by (auto split: if_splits dest: parse_cbs_ok)
  have "bytes_ok (drop n (drop 128 (e_data e)))"
    using assms(2) by (auto simp: edid_wf_def intro!: bytes_ok_drop)
  from parse_dtds_total [OF this] parse show "\<exists>ds. list_all dtd_chunk ds \<and> dtds = concat ds"
    by (auto intro: exI [of _ "[]"])
qed

lemma parse_cea_upd_131: "parse_cea (upd 131 v e) = parse_cea e"
proof -
  have "drop 128 (e_data (upd 131 v e)) = (drop 128 (e_data e))[3 := v]"
    by (simp add: drop_update_swap)
  moreover have "(xs[3 := v]) ! 2 = xs ! 2" for xs :: "int list" by simp
  moreover have "py_slice 4 n (xs[3 := v]) = py_slice 4 n xs" for xs :: "int list" and n
    by (simp add: py_slice_def)
  moreover have "4 \<le> n \<Longrightarrow> drop n (xs[3 := v]) = drop n xs" for xs :: "int list" and n
    by simp
  ultimately show ?thesis
    unfolding parse_cea_def Let_def by (auto simp: assertR_def intro!: arg_cong [of _ _ "bindR _"])
qed

lemma basic_audio_set: "edid_wf e \<Longrightarrow> e_long e \<Longrightarrow> get_basic_audio (set_basic_audio on e) = on"
proof -
  assume wf: "edid_wf e" "e_long e"
  define b where "b = e_data e ! 131"
  have len: "length (e_data e) = 256" using wf by (simp add: edid_wf_def)
  have "(b OR 0x40) AND 0x40 = 0x40" by (rule bit_eqI) (auto simp: bit_simps)
  moreover have "(b AND (0xFF - 0x40)) AND 0x40 = b AND ((0xFF - 0x40) AND 0x40)"
    by (simp only: and.assoc)
  then have "(b AND (0xFF - 0x40)) AND 0x40 = 0" by simp
  ultimately show ?thesis
    using len by (simp add: get_basic_audio_def set_basic_audio_def bit_set_def b_def Let_def)
qed

lemma replace_cea_wf:
  assumes "replace_cea cbs dtds e = Inr e'" and "edid_wf e" and "e_long e"
    and "list_all (\<lambda>cb. cea_ok cb \<and> bytes_ok (cb_data cb)) cbs" and "bytes_ok dtds"
  shows "edid_wf e'"
proof -
  note facts = replace_cea_data [OF assms(1-3) refl refl]
  have e: "length (e_data e) = 256" "bytes_ok (e_data e)" using assms(2,3) by (auto simp: edid_wf_def)
  have "bytes_ok (concat (map cea_pack cbs))" using assms(4) by (auto simp: list_all_iff cea_pack_bytes)
  then have "bytes_ok (drop 128 (e_data e'))" "length (drop 128 (e_data e')) = 128"
    unfolding facts(4) using facts(1) assms(5) edid_wf_nth_long [OF assms(2,3)] by auto
  moreover have "bytes_ok (take 128 (e_data e'))" using e facts(3) by simp
  ultimately have "bytes_ok (take 128 (e_data e') @ drop 128 (e_data e'))" by (simp del: append_take_drop_id)
  moreover have "length (e_data e') = 256" using \<open>length (drop 128 (e_data e')) = 128\<close> by simp
  ultimately show ?thesis using facts(2) by (simp add: edid_wf_def)
qed

text \<open>Switching the audio blocks of an EDID on or off takes effect: whenever
  \<open>set_audio\<close> succeeds, \<open>get_audio\<close> of the edited EDID reports exactly the requested
  state, and the first 128 bytes are left as they were.\<close>

theorem set_audio_then_get:
  assumes "set_audio on e = Inr (Some e')" and "edid_wf e"
  shows "get_audio e' = Inr (Some on) \<and> take 128 (e_data e') = take 128 (e_data e)"
proof -
  obtain cbs dtds where parse: "parse_cea e = Inr (Some (cbs, dtds))"
    using assms(1) by (auto simp: set_audio_def bindR_Inr_iff split: option.splits)
  define kept where "kept = filter (\<lambda>cb. cb_tag cb \<notin> {1, 4}) cbs"
  define new where "new = (if on then kept @ audio_blocks else kept)"
  have set_audio: "set_audio on e = bindR (replace_cea new dtds e) (\<lambda>e1. Inr (Some (set_basic_audio on e1)))"
    by (simp add: set_audio_def parse Let_def kept_def new_def)
  note ok = parse_cea_ok [OF parse assms(2)]
  obtain ds where ds: "list_all dtd_chunk ds" "dtds = concat ds" using ok(3) by blast
  obtain e1 where e1: "replace_cea new dtds e = Inr e1" and e': "e' = set_basic_audio on e1"
    using assms(1) unfolding set_audio by (auto simp: bindR_Inr_iff)
  have newok: "list_all (\<lambda>cb. cea_ok cb \<and> bytes_ok (cb_data cb)) new"
    using ok(2) by (auto simp: new_def kept_def list_all_iff audio_blocks_def cea_ok_def)
  obtain ds' where parse1: "parse_cea e1 = Inr (Some (new, concat ds'))"
    using parse_after_replace [OF _ assms(2) ok(1) newok ds(1)] e1 ds(2) by metis
  note facts = replace_cea_data [OF e1 assms(2) ok(1) refl refl]
  have "bytes_ok dtds" using ds by (auto simp: list_all_iff dtd_chunk_def)
  then have "edid_wf e1" by (rule replace_cea_wf [OF e1 assms(2) ok(1) newok])
  have "parse_cea e' = Inr (Some (new, concat ds'))"
    using parse1 parse_cea_upd_131 by (simp add: e' set_basic_audio_def Let_def)
  moreover have "get_basic_audio e' = on"
    unfolding e' by (rule basic_audio_set [OF \<open>edid_wf e1\<close> facts(2)])
  moreover have "(\<exists>cb \<in> set new. cb_tag cb = 1) \<and> (\<exists>cb \<in> set new. cb_tag cb = 4) \<longleftrightarrow> on"
    by (auto simp: new_def kept_def audio_blocks_def)
  ultimately have "get_audio e' = Inr (Some on)"
    by (auto simp: get_audio_def)
  moreover have "take 128 (e_data e') = take 128 (e_data e)"
    using facts(3) by (simp add: e' set_basic_audio_def Let_def)
  ultimately show ?thesis ..
qed

definition edid_sample :: parsed_edid where
  "edid_sample = \<lparr>e_long = True, e_data =
     ([0, 255, 255, 255, 255, 255, 255, 0] @ replicate 118 0 @ [1, 0, 2, 3] @ replicate 126 0)[57 := 0xFC]\<rparr>"

lemma edid_sample_wf: "edid_wf edid_sample" "e_long edid_sample"
  by code_simp+

theorem set_audio_then_get_witness:
  "get_audio (the (fromR None (set_audio True edid_sample))) = Inr (Some True)
    \<and> take 128 (e_data (the (fromR None (set_audio True edid_sample)))) = take 128 (e_data edid_sample)"
proof -
  have "set_audio True edid_sample = Inr (Some (the (fromR None (set_audio True edid_sample))))"
    by code_simp
  then show ?thesis by (rule set_audio_then_get [OF _ edid_sample_wf(1)])
qed

text \<open>C6. The CEA extension written by \<open>replace_cea\<close> is read back by \<open>parse_cea\<close>: the
  data blocks always, and the detailed timing descriptors as long as the block is not
  completely full.  When blocks and descriptors fill all 123 bytes, the parser's loop guard
  drops the last descriptor.\<close>

theorem cea_roundtrip:
  assumes "replace_cea cbs (concat ds) e = Inr e'" and "edid_wf e" and "e_long e"
    and "list_all (\<lambda>cb. cea_ok cb \<and> bytes_ok (cb_data cb)) cbs" and "list_all dtd_chunk ds"
  shows "parse_cea e' = Inr (Some (cbs,
     if length (concat (map cea_pack cbs) @ concat ds) < 123 then concat ds else concat (butlast ds)))"
  using parse_after_replace [OF assms] by simp

theorem cea_roundtrip_witness:
  "parse_cea (fromR edid_sample (replace_cea [] (concat (replicate 6 (replicate 18 7))) edid_sample))
     = Inr (Some ([], concat (replicate 6 (replicate 18 7))))"
proof -
  have "replace_cea [] (concat (replicate 6 (replicate 18 7))) edid_sample =
      Inr (fromR edid_sample (replace_cea [] (concat (replicate 6 (replicate 18 7))) edid_sample))"
    by code_simp
  moreover have "length (concat (replicate 6 (replicate 18 (7 :: int)))) = 108" by code_simp
  ultimately show ?thesis
    using cea_roundtrip [OF _ edid_sample_wf, of "[]" "replicate 6 (replicate 18 7)"]
    by (simp add: dtd_chunk_def bytes_ok_def list_all_iff)
qed

text \<open>The binary image written by \<open>write_bin\<close>: it exists exactly when neither block's
  byte sum (without its checksum) is a multiple of 256, and then every block sums to zero
  modulo 256.  Otherwise the computed checksum is 256, which is no byte, and the write
  raises \<open>ValueError\<close>.\<close>

theorem write_bin_checksums:
  assumes "edid_wf e"
  shows "case write_bin e of
      Inr bs \<Rightarrow> length bs = length (e_data e) \<and> sum_list (take 128 bs) mod 256 = 0
        \<and> (e_long e \<longrightarrow> sum_list (drop 128 bs) mod 256 = 0)
    | Inl err \<Rightarrow> err = ValueError \<and> (sum_list (take 127 (e_data e)) mod 256 = 0
        \<or> e_long e \<and> sum_list (py_slice 128 255 (e_data e)) mod 256 = 0)"
proof -
  define s1 s2 where "s1 = sum_list (take 127 (e_data e))" and "s2 = sum_list (py_slice 128 255 (e_data e))"
  define d where "d = e_data (update_checksums e)"
  have len: "128 \<le> length (e_data e)" "e_long e \<Longrightarrow> length (e_data e) = 256"
    "\<not> e_long e \<Longrightarrow> length (e_data e) = 128" and ok: "bytes_ok (e_data e)"
    using assms by (auto simp: edid_wf_def split: if_splits)
  have d: "d = (if e_long e then (e_data e)[127 := 256 - s1 mod 256, 255 := 256 - s2 mod 256]
      else (e_data e)[127 := 256 - s1 mod 256])"
    by (simp add: d_def update_checksums_def Let_def s1_def s2_def py_slice_def)
  have first: "take 128 d = take 127 (e_data e) @ [256 - s1 mod 256]"
    using len by (auto simp: d take_Suc_conv_app_nth [of 127, simplified])
  have second: "drop 128 d = py_slice 128 255 (e_data e) @ [256 - s2 mod 256]" if "e_long e"
    using len(2) that upd_conv_take_nth_drop [of 127 "drop 128 (e_data e)" "256 - s2 mod 256"]
    by (simp add: d drop_update_swap py_slice_def)
  have sums: "sum_list (take 128 d) mod 256 = 0" "e_long e \<Longrightarrow> sum_list (drop 128 d) mod 256 = 0"
    using second by (simp_all add: first s1_def s2_def) presburger+
  have byte: "0 \<le> 256 - x mod 256 \<and> 256 - x mod 256 < 256 \<longleftrightarrow> x mod 256 \<noteq> 0" for x :: int
    using pos_mod_bound [of 256 x] pos_mod_sign [of 256 x] by auto
  have "bytes_ok (take 128 d) \<longleftrightarrow> s1 mod 256 \<noteq> 0" using ok byte [of s1] by (simp add: first)
  moreover have "bytes_ok (drop 128 d) \<longleftrightarrow> (e_long e \<longrightarrow> s2 mod 256 \<noteq> 0)"
  proof (cases "e_long e")
    case True
    then show ?thesis using ok byte [of s2] by (simp add: second py_slice_def)
  next
    case False
    then show ?thesis using len(3) by (simp add: d)
  qed
  moreover have "bytes_ok d \<longleftrightarrow> bytes_ok (take 128 d) \<and> bytes_ok (drop 128 d)"
    by (metis append_take_drop_id bytes_ok_simps(3))
  ultimately have "bytes_ok d \<longleftrightarrow> s1 mod 256 \<noteq> 0 \<and> (e_long e \<longrightarrow> s2 mod 256 \<noteq> 0)"
    by (simp only:)
  moreover have "length d = length (e_data e)" by (simp add: d)
  ultimately show ?thesis
    using sums unfolding write_bin_def py_bytes_def d_def [symmetric] s1_def [symmetric] s2_def [symmetric]
    by auto
qed

text \<open>The identification fields are stored without loss and without disturbing each
  other: after setting manufacturer, product and serial number the getters return what was
  set (the manufacturer in upper case).\<close>

theorem edid_identity_roundtrip:
  assumes "set_mfc_id m e = Inr e1" and "set_product_id p e1 = Inr e2" and "set_serial s e2 = Inr e3"
    and "edid_wf e"
  shows "get_mfc_id e3 = take 3 (upper m) \<and> get_product_id e3 = p \<and> get_serial e3 = s"
proof -
  have wf: "edid_wf e1" "edid_wf e2"
    using assms set_mfc_id_wf set_product_id_wf by blast+
  have e2: "e2 = upd 11 (drop_bit 8 p AND 0xFF) (upd 10 (p AND 0xFF) e1)"
    using assms(2) by (auto simp: set_product_id_def assertR_Inr_iff)
  have e3: "e3 = upd 15 (drop_bit 24 s AND 0xFF) (upd 14 (drop_bit 16 s AND 0xFF)
       (upd 13 (drop_bit 8 s AND 0xFF) (upd 12 (s AND 0xFF) e2)))"
    using assms(3) by (auto simp: set_serial_def assertR_Inr_iff)
  have "get_mfc_id e3 = get_mfc_id e1" by (simp add: get_mfc_id_def e2 e3)
  moreover have "get_product_id e3 = get_product_id e2" by (simp add: get_product_id_def e3)
  ultimately show ?thesis
    using mfc_id_roundtrip [OF assms(1,4)] product_id_roundtrip [OF assms(2) wf(1)]
      serial_roundtrip [OF assms(3) wf(2)] by simp
qed

theorem edid_identity_roundtrip_witness:
  "let e1 = fromR edid_sample (set_mfc_id (text_of ''Dbg'') edid_sample);
       e2 = fromR edid_sample (set_product_id 0x1234 e1);
       e3 = fromR edid_sample (set_serial 0xCAFEBABE e2)
   in get_mfc_id e3 = take 3 (upper (text_of ''Dbg'')) \<and> get_product_id e3 = 0x1234 \<and> get_serial e3 = 0xCAFEBABE"
  unfolding Let_def
  by (rule edid_identity_roundtrip [of _ edid_sample]) (code_simp | rule edid_sample_wf)+

text \<open>A monitor name written into its descriptor is read back as the first 13 characters
  without surrounding white space, and the edited EDID keeps its size and its bytes in range.\<close>

theorem monitor_name_roundtrip:
  assumes "set_monitor_name text e = Inr (Some e')" and "edid_wf e"
  shows "get_monitor_name e' = Some (strip (take 13 text)) \<and> edid_wf e'"
  using dtd_text_roundtrip set_dtd_text_wf assms
  unfolding set_monitor_name_def get_monitor_name_def by blast

theorem monitor_name_roundtrip_witness:
  "let e' = the (fromR None (set_monitor_name (text_of '' LCD '') edid_sample))
   in get_monitor_name e' = Some (strip (take 13 (text_of '' LCD ''))) \<and> edid_wf e'"
  unfolding Let_def
  by (rule monitor_name_roundtrip [OF _ edid_sample_wf(1)]) code_simp

theorem write_bin_checksums_witness:
  "edid_wf edid_sample \<and> (case write_bin edid_sample of
      Inr bs \<Rightarrow> length bs = length (e_data edid_sample) \<and> sum_list (take 128 bs) mod 256 = 0
        \<and> (e_long edid_sample \<longrightarrow> sum_list (drop 128 bs) mod 256 = 0)
    | Inl err \<Rightarrow> err = ValueError \<and> (sum_list (take 127 (e_data edid_sample)) mod 256 = 0
        \<or> e_long edid_sample \<and> sum_list (py_slice 128 255 (e_data edid_sample)) mod 256 = 0))"
  using edid_sample_wf(1) write_bin_checksums [OF edid_sample_wf(1)] by blast

end
