(* ===== verification/SwitchTypes.thy ===== *)
theory SwitchTypes
  imports Complex_Main Edid
begin

text \<open>
  The values the KVM switch is configured with (\<open>kvmd/apps/kvmd/switch/types.py\<close>): EDIDs
  and their assignment to ports, LED colours, and per-port dictionaries with a default.
  A dataclass is a record; what its \<open>__post_init__\<close> computes is computed by the constructor
  function \<open>mk_...\<close>.
\<close>

section \<open>EDIDs\<close>

record edid_info =
  ei_mfc_id :: pytext
  ei_product_id :: int
  ei_serial :: int
  ei_monitor_name :: "pytext option"
  ei_monitor_serial :: "pytext option"
  ei_audio :: bool

definition edid_info_from_data :: "bytes \<Rightarrow> edid_info result" where
  "edid_info_from_data data = bindR (edid_init data) (\<lambda>parsed.
     bindR (get_audio parsed) (\<lambda>audio.
       Inr \<lparr>ei_mfc_id = get_mfc_id parsed, ei_product_id = get_product_id parsed,
            ei_serial = get_serial parsed, ei_monitor_name = get_monitor_name parsed,
            ei_monitor_serial = get_monitor_serial parsed,
            ei_audio = (case audio of None \<Rightarrow> False | Some a \<Rightarrow> a)\<rparr>))"

record edid =
  ed_name :: pytext
  ed_data :: bytes
  ed_crc :: int
  ed_valid :: bool
  ed_info :: "edid_info option"
  ed_packed :: bytes

definition mk_edid :: "pytext \<Rightarrow> bytes \<Rightarrow> edid result" where
  "mk_edid name data =
     assertR (0 < length name)
       (assertR (length data \<in> {128, 256})
         (let packed = take 256 (data @ replicate 128 0) in
          Inr \<lparr>ed_name = name, ed_data = data, ed_crc = make_crc16 packed,
               ed_valid = is_header_valid data,
               ed_info = (case edid_info_from_data data of Inl _ \<Rightarrow> None | Inr i \<Rightarrow> Some i),
               ed_packed = packed\<rparr>))"

definition edid_as_text :: "edid \<Rightarrow> pytext" where
  "edid_as_text e = concat (map fmt_02X (ed_data e))"

definition edid_pack :: "edid \<Rightarrow> bytes" where
  "edid_pack e = ed_packed e"

text \<open>The argument of \<open>from_data\<close>: nothing, bytes or text.\<close>

datatype edid_src = NoEdid | EdidBytes bytes | EdidText pytext

definition edid_from_hex :: "pytext \<Rightarrow> pytext \<Rightarrow> edid result" where
  "edid_from_hex name text = (let data_hex = no_space text in
     assertR (length data_hex \<in> {256, 512})
       (bindR (hex_pairs data_hex) (\<lambda>xs. bindR (py_bytes xs) (\<lambda>data. mk_edid name data))))"

fun edid_from_data :: "pytext \<Rightarrow> edid_src \<Rightarrow> edid result" where
  "edid_from_data name NoEdid = mk_edid name (replicate 256 0)"
| "edid_from_data name (EdidBytes data) =
     (if is_header_valid data then mk_edid name data
      else bindR (encode_ascii data) (edid_from_hex name))"
| "edid_from_data name (EdidText text) = edid_from_hex name text"

definition edid_ok :: "edid \<Rightarrow> bool" where
  [wf_simps]: "edid_ok e = (mk_edid (ed_name e) (ed_data e) = Inr e \<and> bytes_ok (ed_data e))"

lemma edid_ok_packed: "edid_ok e \<Longrightarrow> length (ed_packed e) = 256 \<and> bytes_ok (ed_packed e)"
proof -
  assume ok: "edid_ok e"
  then have p: "ed_packed e = take 256 (ed_data e @ replicate 128 0)" "length (ed_data e) \<in> {128, 256}"
    by (auto simp: edid_ok_def mk_edid_def assertR_Inr_iff Let_def
        dest: arg_cong [of _ _ ed_packed])
  moreover have "bytes_ok (ed_data e @ replicate 128 0)" using ok by (simp add: edid_ok_def)
  ultimately show ?thesis by (auto simp del: bytes_ok_simps take_append)
qed

lemma mk_edid_ok: "mk_edid name data = Inr e \<Longrightarrow> bytes_ok data \<Longrightarrow> edid_ok e"
  by (auto simp: edid_ok_def mk_edid_def assertR_Inr_iff Let_def)

lemma edid_from_data_ok:
  "edid_from_data name src = Inr e \<Longrightarrow> (\<And>bs. src = EdidBytes bs \<Longrightarrow> bytes_ok bs) \<Longrightarrow> edid_ok e"
  by (cases src) (auto simp: edid_from_hex_def assertR_Inr_iff bindR_Inr_iff Let_def py_bytes_def
      split: if_splits intro: mk_edid_ok)

section \<open>Per-port settings\<close>

text \<open>
  An interface for a setting kept per port.  A value can be stored when it is \<open>valid\<close> for
  the container; reading the port gives it back and no other port changes.
\<close>

locale port_setting =
  fixes lookup :: "'m \<Rightarrow> int \<Rightarrow> 'v"
    and store :: "'m \<Rightarrow> int \<Rightarrow> 'v \<Rightarrow> 'm"
    and valid :: "'m \<Rightarrow> 'v \<Rightarrow> bool"
  assumes lookup_store: "valid m v \<Longrightarrow> lookup (store m p v) q = (if q = p then v else lookup m q)"
    and valid_store: "valid m v \<Longrightarrow> valid (store m p v) w = valid m w"
begin

text \<open>\<open>compare_on_ports\<close>: the settings agree on ports \<open>0..ports-1\<close>.\<close>

definition agree :: "nat \<Rightarrow> 'm \<Rightarrow> 'm \<Rightarrow> bool" where
  "agree ports m n = list_all (\<lambda>p. lookup m (int p) = lookup n (int p)) [0..<ports]"

lemma agree_iff: "agree ports m n \<longleftrightarrow> (\<forall>p. 0 \<le> p \<and> p < int ports \<longrightarrow> lookup m p = lookup n p)"
proof -
  have "agree ports m n \<longleftrightarrow> (\<forall>i < ports. lookup m (int i) = lookup n (int i))"
    by (auto simp: agree_def list_all_iff)
  also have "\<dots> \<longleftrightarrow> (\<forall>p. 0 \<le> p \<and> p < int ports \<longrightarrow> lookup m p = lookup n p)"
    by (metis nat_less_iff of_nat_less_iff zle_int of_nat_0_le_iff int_nat_eq)
  finally show ?thesis .
qed

lemma agree_store:
  "valid m v \<Longrightarrow> agree ports (store m p v) m \<longleftrightarrow> (0 \<le> p \<and> p < int ports \<longrightarrow> lookup m p = v)"
  by (auto simp: agree_iff lookup_store)

lemma store_commute:
  "valid m v \<Longrightarrow> valid m w \<Longrightarrow> p \<noteq> q \<Longrightarrow>
     lookup (store (store m p v) q w) r = lookup (store (store m q w) p v) r"
  by (simp add: lookup_store valid_store)

lemma store_last:
  "valid m v \<Longrightarrow> valid m w \<Longrightarrow> lookup (store (store m p v) p w) r = lookup (store m p w) r"
  by (simp add: lookup_store valid_store)

end

subsection \<open>_PortsDict\<close>

record 'a ports_dict =
  pd_default :: 'a
  pd_kvs :: "(int, 'a) dict"

definition pd_init :: "'a \<Rightarrow> (int, 'a) dict \<Rightarrow> 'a ports_dict" where
  "pd_init d kvs = \<lparr>pd_default = d, pd_kvs = filter (\<lambda>(port, v). v \<noteq> d) kvs\<rparr>"

definition pd_get :: "'a ports_dict \<Rightarrow> int \<Rightarrow> 'a" where
  "pd_get m port = dict_get (pd_kvs m) port (pd_default m)"

definition pd_set :: "'a ports_dict \<Rightarrow> int \<Rightarrow> 'a option \<Rightarrow> 'a ports_dict" where
  "pd_set m port value =
     (let v = (case value of None \<Rightarrow> pd_default m | Some v \<Rightarrow> v) in
      if v = pd_default m then m\<lparr>pd_kvs := AList.delete port (pd_kvs m)\<rparr>
      else m\<lparr>pd_kvs := AList.update port v (pd_kvs m)\<rparr>)"

definition pd_compare_on_ports :: "'a ports_dict \<Rightarrow> 'a ports_dict \<Rightarrow> nat \<Rightarrow> bool" where
  "pd_compare_on_ports m n ports = list_all (\<lambda>p. pd_get m (int p) = pd_get n (int p)) [0..<ports]"

definition pd_eq :: "'a ports_dict \<Rightarrow> 'a ports_dict \<Rightarrow> bool" where
  "pd_eq m n = dict_eq (pd_kvs m) (pd_kvs n)"

definition pd_copy :: "'a ports_dict \<Rightarrow> 'a ports_dict" where
  "pd_copy m = pd_init (pd_default m) (pd_kvs m)"

definition pd_wf :: "'a ports_dict \<Rightarrow> bool" where
  [wf_simps]: "pd_wf m = (dict_wf (pd_kvs m) \<and> pd_default m \<notin> snd ` set (pd_kvs m))"

lemma pd_set_simps [simp]: "pd_default (pd_set m p v) = pd_default m"
  by (simp add: pd_set_def Let_def)

lemma pd_get_set:
  "pd_get (pd_set m p (Some v)) q = (if q = p then v else pd_get m q)"
  by (simp add: pd_set_def pd_get_def dict_get_def split: option.split)

lemma pd_init_wf: "dict_wf kvs \<Longrightarrow> pd_wf (pd_init d kvs)"
  by (auto simp: pd_init_def pd_wf_def)

lemma pd_set_wf: "pd_wf m \<Longrightarrow> pd_wf (pd_set m p v)"
proof -
  assume wf: "pd_wf m"
  have del: "snd ` set (AList.delete p (pd_kvs m)) \<subseteq> snd ` set (pd_kvs m)"
    by (auto simp: AList.delete_eq)
  have upd: "snd ` set (AList.update p w (pd_kvs m)) \<subseteq> insert w (snd ` set (pd_kvs m))" for w
  proof -
    have "set (AList.update p w al) \<subseteq> insert (p, w) (set al)" for al :: "(int \<times> 'a) list"
      by (induction al) auto
    then show ?thesis by force
  qed
  define w where "w = (case v of None \<Rightarrow> pd_default m | Some v \<Rightarrow> v)"
  show ?thesis
  proof (cases "w = pd_default m")
    case True
    with wf del show ?thesis by (auto simp: pd_set_def w_def [symmetric] Let_def pd_wf_def)
  next
    case False
    with wf have "pd_default m \<notin> insert w (snd ` set (pd_kvs m))" by (simp add: pd_wf_def)
    with upd [of w] have "pd_default m \<notin> snd ` set (AList.update p w (pd_kvs m))" by blast
    with wf False show ?thesis by (simp add: pd_set_def w_def [symmetric] Let_def pd_wf_def)
  qed
qed

lemma pd_copy_wf_id: "pd_wf m \<Longrightarrow> pd_copy m = m"
  unfolding pd_copy_def pd_init_def pd_wf_def
  by (cases m) (auto simp: filter_id_conv intro: rev_image_eqI)

lemma pd_wf_lookup: "pd_wf m \<Longrightarrow> map_of (pd_kvs m) p = (if pd_get m p = pd_default m then None else Some (pd_get m p))"
  by (auto simp: pd_wf_def pd_get_def dict_get_def split: option.splits dest!: map_of_SomeD)
     (metis image_eqI snd_conv)

interpretation ports: port_setting pd_get "\<lambda>m p v. pd_set m p (Some v)" "\<lambda>_ _. True"
  by unfold_locales (simp_all add: pd_get_set)

lemma pd_compare_agree: "pd_compare_on_ports m n ports = ports.agree ports m n"
  by (simp add: pd_compare_on_ports_def ports.agree_def)

text \<open>Two dictionaries with the same default are equal in Python exactly when every port reads
  the same value: the constructor and \<open>__setitem__\<close> never keep the default.\<close>

lemma pd_eq_extensional:
  assumes "pd_wf m" "pd_wf n" "pd_default m = pd_default n"
  shows "pd_eq m n \<longleftrightarrow> (\<forall>p. pd_get m p = pd_get n p)"
proof
  assume "pd_eq m n"
  then show "\<forall>p. pd_get m p = pd_get n p"
    using assms(3) by (simp add: pd_eq_def dict_eq_iff pd_get_def dict_get_def)
next
  assume same: "\<forall>p. pd_get m p = pd_get n p"
  have "map_of (pd_kvs m) p = map_of (pd_kvs n) p" for p
    using assms same by (simp add: pd_wf_lookup)
  then show "pd_eq m n" by (simp add: pd_eq_def dict_eq_iff fun_eq_iff)
qed

text \<open>The five dictionaries of the switch.  A delay is a number of seconds.\<close>

type_synonym delay = rat

definition dummies :: "(int, bool) dict \<Rightarrow> bool ports_dict" where
  "dummies kvs = pd_init True kvs"

definition port_names :: "(int, pytext) dict \<Rightarrow> pytext ports_dict" where
  "port_names kvs = pd_init [] kvs"

definition atx_click_power_delays :: "(int, delay) dict \<Rightarrow> delay ports_dict" where
  "atx_click_power_delays kvs = pd_init (1 / 2) kvs"

definition atx_click_power_long_delays :: "(int, delay) dict \<Rightarrow> delay ports_dict" where
  "atx_click_power_long_delays kvs = pd_init (11 / 2) kvs"

definition atx_click_reset_delays :: "(int, delay) dict \<Rightarrow> delay ports_dict" where
  "atx_click_reset_delays kvs = pd_init (1 / 2) kvs"

subsection \<open>Edids\<close>

record edids =
  es_all :: "(string, edid) dict"
  es_port :: "(int, string) dict"

definition default_name :: pytext where
  "default_name = text_of ''Default''"

definition default_id :: string where
  "default_id = ''default''"

definition edids_set_default :: "edids \<Rightarrow> edid_src \<Rightarrow> edids result" where
  "edids_set_default es src = bindR (edid_from_data default_name src) (\<lambda>e.
     Inr (es\<lparr>es_all := AList.update default_id e (es_all es)\<rparr>))"

text \<open>The constructor; the default EDID it may add is a constant, so it cannot fail.\<close>

definition mk_edids :: "(string, edid) dict \<Rightarrow> (int, string) dict \<Rightarrow> edids" where
  "mk_edids all port = (let es = \<lparr>es_all = all, es_port = port\<rparr> in
     if dict_has all default_id then es else fromR es (edids_set_default es NoEdid))"

definition edids_copy :: "edids \<Rightarrow> edids" where
  "edids_copy es = mk_edids (es_all es) (es_port es)"

definition edids_get_id_for_port :: "edids \<Rightarrow> int \<Rightarrow> string" where
  "edids_get_id_for_port es port = dict_get (es_port es) port default_id"

definition edids_compare_on_ports :: "edids \<Rightarrow> edids \<Rightarrow> nat \<Rightarrow> bool" where
  "edids_compare_on_ports es other ports =
     list_all (\<lambda>p. edids_get_id_for_port es (int p) = edids_get_id_for_port other (int p)) [0..<ports]"

text \<open>\<open>uid\<close> is the fresh identifier drawn by \<open>uuid.uuid4\<close>.\<close>

definition edids_add :: "string \<Rightarrow> edids \<Rightarrow> edid \<Rightarrow> string \<times> edids" where
  "edids_add uid es e = (uid, es\<lparr>es_all := AList.update uid e (es_all es)\<rparr>)"

definition edids_has_id :: "edids \<Rightarrow> string \<Rightarrow> bool" where
  "edids_has_id es eid = dict_has (es_all es) eid"

definition edids_set :: "edids \<Rightarrow> string \<Rightarrow> edid \<Rightarrow> edids result" where
  "edids_set es eid e = assertR (edids_has_id es eid)
     (Inr (es\<lparr>es_all := AList.update eid e (es_all es)\<rparr>))"

definition edids_get :: "edids \<Rightarrow> string \<Rightarrow> edid result" where
  "edids_get es eid = dict_at (es_all es) eid"

definition edids_remove :: "edids \<Rightarrow> string \<Rightarrow> edids result" where
  "edids_remove es eid = assertR (edids_has_id es eid)
     (Inr \<lparr>es_all = AList.delete eid (es_all es),
           es_port = filter (\<lambda>(port, i). i \<noteq> eid) (es_port es)\<rparr>)"

definition edids_assign :: "edids \<Rightarrow> int \<Rightarrow> string \<Rightarrow> edids result" where
  "edids_assign es port eid = assertR (edids_has_id es eid)
     (Inr (if eid = default_id then es\<lparr>es_port := AList.delete port (es_port es)\<rparr>
           else es\<lparr>es_port := AList.update port eid (es_port es)\<rparr>))"

definition edids_get_edid_for_port :: "edids \<Rightarrow> int \<Rightarrow> edid result" where
  "edids_get_edid_for_port es port = dict_at (es_all es) (edids_get_id_for_port es port)"

text \<open>
  The invariant: both dictionaries have distinct keys, the default EDID is there, every EDID
  is one the constructor makes, and every assigned port refers to a known EDID.
\<close>

definition edids_wf :: "edids \<Rightarrow> bool" where
  [wf_simps]: "edids_wf es = (dict_wf (es_all es) \<and> dict_wf (es_port es) \<and> edids_has_id es default_id
     \<and> (\<forall>e \<in> snd ` set (es_all es). edid_ok e)
     \<and> (\<forall>(p, eid) \<in> set (es_port es). edids_has_id es eid))"

lemma blank_edid: "\<exists>e. edid_from_data default_name NoEdid = Inr e \<and> edid_ok e"
proof -
  have "0 < length default_name" by (simp add: default_name_def text_of_def)
  then obtain e where e: "mk_edid default_name (replicate 256 0) = Inr e"
    by (simp add: mk_edid_def Let_def)
  then show ?thesis using mk_edid_ok by auto
qed

lemma set_dict_update: "set (AList.update k v d) \<subseteq> insert (k, v) (set d)"
  by (induction d) auto

lemma set_dict_delete: "set (AList.delete k d) \<subseteq> set d"
  by (auto simp: AList.delete_eq)

lemma edids_wf_update:
  assumes "edids_wf es" and "edid_ok e"
  shows "edids_wf (es\<lparr>es_all := AList.update eid e (es_all es)\<rparr>)"
proof -
  have "\<forall>x \<in> snd ` set (AList.update eid e (es_all es)). edid_ok x"
    using assms set_dict_update [of eid e "es_all es"] by (auto simp: edids_wf_def)
  then show ?thesis using assms by (auto simp: edids_wf_def edids_has_id_def dict_has_def)
qed

lemma mk_edids_wf:
  assumes "dict_wf all" "dict_wf port" "\<forall>e \<in> snd ` set all. edid_ok e"
    and "\<forall>(p, eid) \<in> set port. dict_has all eid"
  shows "edids_wf (mk_edids all port)"
proof (cases "dict_has all default_id")
  case True
  with assms show ?thesis by (auto simp: mk_edids_def edids_wf_def edids_has_id_def)
next
  case False
  obtain e where e: "edid_from_data default_name NoEdid = Inr e" "edid_ok e" using blank_edid by blast
  have "\<forall>x \<in> snd ` set (AList.update default_id e all). edid_ok x"
    using assms(3) e(2) set_dict_update [of default_id e all] by auto
  with False assms e show ?thesis
    by (auto simp: mk_edids_def edids_set_default_def edids_wf_def edids_has_id_def dict_has_def
        simp del: edid_from_data.simps)
qed

lemma edids_remove_wf:
  assumes "edids_remove es eid = Inr es'" and "edids_wf es" and "eid \<noteq> default_id"
  shows "edids_wf es'"
proof -
  have es': "es' = \<lparr>es_all = AList.delete eid (es_all es), es_port = filter (\<lambda>(port, i). i \<noteq> eid) (es_port es)\<rparr>"
    using assms(1) by (auto simp: edids_remove_def assertR_Inr_iff)
  have "\<forall>x \<in> snd ` set (AList.delete eid (es_all es)). edid_ok x"
    using assms(2) set_dict_delete [of eid "es_all es"] by (auto simp: edids_wf_def)
  then show ?thesis
    using assms(2,3) by (auto simp: es' edids_wf_def edids_has_id_def dict_has_def)
qed

lemma edids_assign_wf:
  assumes "edids_assign es port eid = Inr es'" and "edids_wf es"
  shows "edids_wf es'"
proof -
  have "\<forall>(p, i) \<in> set (es_port es'). edids_has_id es i"
    using assms set_dict_update [of port eid "es_port es"] set_dict_delete [of port "es_port es"]
    by (fastforce simp: edids_assign_def assertR_Inr_iff edids_wf_def split: if_splits)
  moreover have "es_all es' = es_all es" "dict_wf (es_port es')"
    using assms by (auto simp: edids_assign_def assertR_Inr_iff edids_wf_def split: if_splits)
  ultimately show ?thesis using assms(2) by (simp add: edids_wf_def edids_has_id_def)
qed

lemma edids_wf_port: "edids_wf es \<Longrightarrow> edids_has_id es (edids_get_id_for_port es port)"
  by (force simp: edids_wf_def edids_get_id_for_port_def dict_get_def split: option.splits
      dest: map_of_SomeD)

lemma edids_wf_edid: "edids_wf es \<Longrightarrow> map_of (es_all es) eid = Some e \<Longrightarrow> edid_ok e"
  by (force simp: edids_wf_def dest: map_of_SomeD)

lemma edids_get_id_assign:
  "edids_has_id es eid \<Longrightarrow> edids_get_id_for_port (fromR es (edids_assign es p eid)) q =
     (if q = p then eid else edids_get_id_for_port es q)"
  by (simp add: edids_assign_def edids_get_id_for_port_def dict_get_def split: option.split)

interpretation edid_ports: port_setting edids_get_id_for_port
  "\<lambda>es p eid. fromR es (edids_assign es p eid)" edids_has_id
  by unfold_locales (rule edids_get_id_assign, assumption, simp add: edids_has_id_def edids_assign_def)

lemma edids_compare_agree: "edids_compare_on_ports es other ports = edid_ports.agree ports es other"
  by (simp add: edids_compare_on_ports_def edid_ports.agree_def)

text \<open>The operations a configuration can go through, as values.\<close>

datatype edids_op =
    AddEdid string edid
  | SetEdid string edid
  | RemoveEdid string
  | AssignEdid int string
  | SetDefaultEdid edid_src

definition edids_op_ok :: "edids_op \<Rightarrow> bool" where
  "edids_op_ok op = (case op of
       AddEdid uid e \<Rightarrow> edid_ok e
     | SetEdid eid e \<Rightarrow> edid_ok e
     | RemoveEdid eid \<Rightarrow> eid \<noteq> default_id
     | AssignEdid _ _ \<Rightarrow> True
     | SetDefaultEdid src \<Rightarrow> (case src of EdidBytes bs \<Rightarrow> bytes_ok bs | _ \<Rightarrow> True))"

fun edids_apply :: "edids \<Rightarrow> edids_op \<Rightarrow> edids" where
  "edids_apply es (AddEdid uid e) = snd (edids_add uid es e)"
| "edids_apply es (SetEdid eid e) = fromR es (edids_set es eid e)"
| "edids_apply es (RemoveEdid eid) = fromR es (edids_remove es eid)"
| "edids_apply es (AssignEdid p eid) = fromR es (edids_assign es p eid)"
| "edids_apply es (SetDefaultEdid src) = fromR es (edids_set_default es src)"

lemma edids_set_wf: "edids_set es eid e = Inr es' \<Longrightarrow> edids_wf es \<Longrightarrow> edid_ok e \<Longrightarrow> edids_wf es'"
  by (auto simp: edids_set_def assertR_Inr_iff intro: edids_wf_update)

lemma edids_set_default_wf:
  assumes "edids_set_default es src = Inr es'" "edids_wf es" "\<And>bs. src = EdidBytes bs \<Longrightarrow> bytes_ok bs"
  shows "edids_wf es'"
proof -
  obtain e where e: "edid_from_data default_name src = Inr e"
    and es': "es' = es\<lparr>es_all := AList.update default_id e (es_all es)\<rparr>"
    using assms(1) by (auto simp: edids_set_default_def bindR_Inr_iff)
  show ?thesis unfolding es' by (rule edids_wf_update [OF assms(2) edid_from_data_ok [OF e assms(3)]])
qed

lemma fromR_wf: "(\<And>es'. x = Inr es' \<Longrightarrow> edids_wf es') \<Longrightarrow> edids_wf es \<Longrightarrow> edids_wf (fromR es x)"
  by (cases x) auto

lemma edids_apply_wf: "edids_wf es \<Longrightarrow> edids_op_ok op \<Longrightarrow> edids_wf (edids_apply es op)"
proof (cases op)
  case (AddEdid uid e)
  then show "edids_wf es \<Longrightarrow> edids_op_ok op \<Longrightarrow> ?thesis"
    by (simp add: edids_op_ok_def edids_add_def edids_wf_update)
next
  case (SetEdid eid e)
  then show "edids_wf es \<Longrightarrow> edids_op_ok op \<Longrightarrow> ?thesis"
    using edids_set_wf by (auto simp: edids_op_ok_def intro!: fromR_wf)
next
  case (RemoveEdid eid)
  then show "edids_wf es \<Longrightarrow> edids_op_ok op \<Longrightarrow> ?thesis"
    using edids_remove_wf by (auto simp: edids_op_ok_def intro!: fromR_wf)
next
  case (AssignEdid p eid)
  then show "edids_wf es \<Longrightarrow> edids_op_ok op \<Longrightarrow> ?thesis"
    using edids_assign_wf by (auto intro!: fromR_wf)
next
  case (SetDefaultEdid src)
  assume wf: "edids_wf es" and ok: "edids_op_ok op"
  have "\<And>bs. src = EdidBytes bs \<Longrightarrow> bytes_ok bs"
    using ok SetDefaultEdid by (simp add: edids_op_ok_def)
  then show ?thesis
    using SetDefaultEdid edids_set_default_wf [of es src] wf by (auto intro!: fromR_wf)
qed

lemma edids_foldl_wf:
  "edids_wf es \<Longrightarrow> list_all edids_op_ok ops \<Longrightarrow> edids_wf (foldl edids_apply es ops)"
  by (induction ops arbitrary: es) (auto intro: edids_apply_wf)

text \<open>C5. The EDID a port uses always exists: whatever sequence of additions, replacements,
  assignments and removals of non-default EDIDs a configuration has gone through, looking up
  the EDID of any port succeeds with a well-formed EDID.\<close>

theorem port_edid_always_known:
  assumes "edids_wf es" and "list_all edids_op_ok ops"
  shows "\<exists>e. edids_get_edid_for_port (foldl edids_apply es ops) port = Inr e \<and> edid_ok e"
proof -
  let ?es = "foldl edids_apply es ops"
  have wf: "edids_wf ?es" by (rule edids_foldl_wf [OF assms])
  then obtain e where e: "map_of (es_all ?es) (edids_get_id_for_port ?es port) = Some e"
    using edids_wf_port [of ?es port] by (auto simp: edids_has_id_def dict_has_def)
  then show ?thesis
    using edids_wf_edid [OF wf e] by (simp add: edids_get_edid_for_port_def dict_at_def)
qed

lemma mk_edids_empty_wf: "edids_wf (mk_edids [] [])"
  by (rule mk_edids_wf) (simp_all add: dict_wf_def)

theorem port_edid_always_known_witness:
  "\<exists>e. edids_get_edid_for_port (foldl edids_apply (mk_edids [] [])
      [AssignEdid 3 ''nope'', RemoveEdid ''nope'', SetDefaultEdid NoEdid]) 3 = Inr e \<and> edid_ok e"
  by (rule port_edid_always_known [OF mk_edids_empty_wf]) (simp add: edids_op_ok_def default_id_def)

section \<open>Colours\<close>

record color =
  co_red :: int
  co_green :: int
  co_blue :: int
  co_brightness :: int
  co_blink_ms :: int
  co_crc :: int
  co_packed :: bytes

definition color_fmt :: "field list" where
  "color_fmt = [FU 1, FU 1, FU 1, FU 1, FU 2]"

definition mk_color :: "int \<Rightarrow> int \<Rightarrow> int \<Rightarrow> int \<Rightarrow> int \<Rightarrow> color result" where
  "mk_color red green blue brightness blink_ms =
     assertR (0 \<le> red \<and> red \<le> 0xFF) (assertR (0 \<le> green \<and> green \<le> 0xFF)
    (assertR (0 \<le> blue \<and> blue \<le> 0xFF) (assertR (0 \<le> brightness \<and> brightness \<le> 0xFF)
    (assertR (0 \<le> blink_ms \<and> blink_ms \<le> 0xFFFF)
      (bindR (pack LE color_fmt [red, green, blue, brightness, blink_ms]) (\<lambda>data.
         Inr \<lparr>co_red = red, co_green = green, co_blue = blue, co_brightness = brightness,
              co_blink_ms = blink_ms, co_crc = make_crc16 data, co_packed = data\<rparr>))))))"

definition color_pack :: "color \<Rightarrow> bytes" where
  "color_pack c = co_packed c"

text \<open>The groups of the regular expression; \<open>$\<close> also matches before one final newline.\<close>

definition hex_group :: "pytext \<Rightarrow> int option" where
  "hex_group t = (if list_all (\<lambda>c. hex_val c \<noteq> None) t then hex_digits 0 False t else None)"

definition color_match :: "pytext \<Rightarrow> (int \<times> int \<times> int \<times> int \<times> int) option" where
  "color_match text =
     (let t = (if length text = 15 \<and> last text = 10 then butlast text else text) in
      if length t = 14 \<and> t ! 6 = 58 \<and> t ! 9 = 58 then
        (case (hex_group (py_slice 0 2 t), hex_group (py_slice 2 4 t), hex_group (py_slice 4 6 t),
               hex_group (py_slice 7 9 t), hex_group (py_slice 10 14 t)) of
           (Some r, Some g, Some b, Some br, Some bl) \<Rightarrow> Some (r, g, b, br, bl)
         | _ \<Rightarrow> None)
      else None)"

definition color_from_text :: "pytext \<Rightarrow> color result" where
  "color_from_text text = (case color_match text of
       None \<Rightarrow> Inl AssertionError
     | Some (r, g, b, br, bl) \<Rightarrow> mk_color r g b br bl)"

record colors =
  cs_inactive :: color
  cs_active :: color
  cs_flashing :: color
  cs_beacon :: color
  cs_bootloader :: color
  cs_crc :: int
  cs_packed :: bytes

definition mk_colors :: "color \<Rightarrow> color \<Rightarrow> color \<Rightarrow> color \<Rightarrow> color \<Rightarrow> colors result" where
  "mk_colors inactive active flashing beacon bootloader =
     (let cs = [inactive, active, flashing, beacon, bootloader];
          crcs = map co_crc cs; packed = concat (map color_pack cs)
      in bindR (pack LE [FU 2, FU 2, FU 2, FU 2, FU 2] crcs) (\<lambda>data.
           Inr \<lparr>cs_inactive = inactive, cs_active = active, cs_flashing = flashing,
                cs_beacon = beacon, cs_bootloader = bootloader,
                cs_crc = make_crc16 data, cs_packed = packed\<rparr>))"

definition colors_pack :: "colors \<Rightarrow> bytes" where
  "colors_pack c = cs_packed c"

definition color_default :: color where
  "color_default = \<lparr>co_red = 0, co_green = 0, co_blue = 0, co_brightness = 0, co_blink_ms = 0,
     co_crc = 0, co_packed = []\<rparr>"

definition colors_default :: "colors result" where
  "colors_default =
     bindR (mk_color 255 0 0 64 0) (\<lambda>i. bindR (mk_color 0 255 0 128 0) (\<lambda>a.
     bindR (mk_color 0 170 255 128 0) (\<lambda>f. bindR (mk_color 228 44 156 255 250) (\<lambda>b.
     bindR (mk_color 255 170 0 128 0) (\<lambda>bl. mk_colors i a f b bl)))))"

definition color_ok :: "color \<Rightarrow> bool" where
  [wf_simps]: "color_ok c = (mk_color (co_red c) (co_green c) (co_blue c) (co_brightness c) (co_blink_ms c) = Inr c)"

definition colors_ok :: "colors \<Rightarrow> bool" where
  [wf_simps]: "colors_ok cs = (list_all color_ok
       [cs_inactive cs, cs_active cs, cs_flashing cs, cs_beacon cs, cs_bootloader cs]
     \<and> mk_colors (cs_inactive cs) (cs_active cs) (cs_flashing cs) (cs_beacon cs) (cs_bootloader cs) = Inr cs)"

lemma mk_color_ok: "mk_color r g b br bl = Inr c \<Longrightarrow> color_ok c"
  by (auto simp: mk_color_def color_ok_def assertR_Inr_iff bindR_Inr_iff)

lemma color_ok_packed:
  assumes "color_ok c"
  shows "length (co_packed c) = 6 \<and> bytes_ok (co_packed c) \<and> is_u16 (co_crc c)"
proof -
  obtain data where data: "pack LE color_fmt [co_red c, co_green c, co_blue c, co_brightness c, co_blink_ms c] = Inr data"
    and c: "co_packed c = data" "co_crc c = make_crc16 data"
    using assms unfolding color_ok_def mk_color_def assertR_Inr_iff bindR_Inr_iff
    by (metis (no_types, lifting) color.select_convs(6,7) sum.inject(2))
  show ?thesis
    using pack_facts [OF data] make_crc16_bounds [of data] c by (simp add: color_fmt_def is_u16_def)
qed

end
