(* ===== verification/SwitchProto.thy ===== *)
theory SwitchProto
  imports SwitchTypes
begin

text \<open>
  The messages exchanged with the units of a switch chain
  (\<open>kvmd/apps/kvmd/switch/proto.py\<close>): the header, the bodies of the requests the host sends
  and of the responses the units send.  A dataclass is a record, its \<open>struct\<close> format a list
  of fields of the prelude, its \<open>__post_init__\<close> the check \<open>body_init\<close>.
\<close>

section \<open>Header\<close>

record header =
  hd_proto :: int
  hd_rid :: int
  hd_op :: int
  hd_unit :: int

abbreviation (input) op_NAK :: int where "op_NAK \<equiv> 0"
abbreviation (input) op_BOOTLOADER :: int where "op_BOOTLOADER \<equiv> 2"
abbreviation (input) op_REBOOT :: int where "op_REBOOT \<equiv> 3"
abbreviation (input) op_STATE :: int where "op_STATE \<equiv> 4"
abbreviation (input) op_SWITCH :: int where "op_SWITCH \<equiv> 5"
abbreviation (input) op_BEACON :: int where "op_BEACON \<equiv> 6"
abbreviation (input) op_ATX_LEDS :: int where "op_ATX_LEDS \<equiv> 7"
abbreviation (input) op_ATX_CLICK :: int where "op_ATX_CLICK \<equiv> 8"
abbreviation (input) op_SET_EDID :: int where "op_SET_EDID \<equiv> 9"
abbreviation (input) op_CLEAR_EDID :: int where "op_CLEAR_EDID \<equiv> 10"
abbreviation (input) op_SET_COLORS :: int where "op_SET_COLORS \<equiv> 12"
abbreviation (input) op_SET_QUIRKS :: int where "op_SET_QUIRKS \<equiv> 13"
abbreviation (input) op_SET_DUMMY :: int where "op_SET_DUMMY \<equiv> 14"

definition header_fmt :: "field list" where
  "header_fmt = [FU 1, FU 2, FU 1, FU 1]"

definition header_size :: nat where
  "header_size = calcsize header_fmt"

definition header_pack :: "header \<Rightarrow> bytes result" where
  "header_pack h = pack LE header_fmt [hd_proto h, hd_rid h, hd_op h, hd_unit h]"

definition header_unpack :: "bytes \<Rightarrow> nat \<Rightarrow> header result" where
  "header_unpack data offset = bindR (unpack_from LE header_fmt data offset) (\<lambda>vs. case vs of
       [proto, rid, op, unit] \<Rightarrow> Inr \<lparr>hd_proto = proto, hd_rid = rid, hd_op = op, hd_unit = unit\<rparr>
     | _ \<Rightarrow> Inl TypeError)"

section \<open>Responses\<close>

record nak =
  nk_reason :: int

definition nak_unpack :: "bytes \<Rightarrow> nat \<Rightarrow> nak result" where
  "nak_unpack data offset = bindR (unpack_from LE [FU 1] data offset) (\<lambda>vs. case vs of
       [r] \<Rightarrow> Inr \<lparr>nk_reason = r\<rparr> | _ \<Rightarrow> Inl TypeError)"

record unit_version =
  uv_hw :: int
  uv_sw :: int
  uv_sw_dev :: bool

definition is_fresh :: "unit_version \<Rightarrow> int \<Rightarrow> bool" where
  "is_fresh v version = (uv_sw_dev v \<or> version \<le> uv_sw v)"

record unit_flags =
  uf_changing_busy :: bool
  uf_flashing_busy :: bool
  uf_has_downlink :: bool
  uf_has_hpd :: bool

record unit_state =
  us_version :: unit_version
  us_flags :: unit_flags
  us_ch :: int
  us_beacons :: "bool list"
  us_np_crc :: "int list"
  us_video_5v_sens :: "bool list"
  us_video_hpd :: "bool list"
  us_video_edid :: "bool list"
  us_video_crc :: "int list"
  us_video_dummies :: "bool list"
  us_usb_5v_sens :: "bool list"
  us_atx_busy :: "bool list"
  us_ignore_hpd :: bool

definition compare_edid :: "unit_state \<Rightarrow> int \<Rightarrow> edid option \<Rightarrow> bool result" where
  "compare_edid s ch edid = bindR (py_get (us_video_edid s) ch) (\<lambda>valid. case edid of
       None \<Rightarrow> Inr (\<not> valid)
     | Some e \<Rightarrow> if valid = ed_valid e
         then bindR (py_get (us_video_crc s) ch) (\<lambda>crc. Inr (crc = ed_crc e)) else Inr False)"

definition make_flags6 :: "int \<Rightarrow> bool list" where
  "make_flags6 m = [bit_set m 0x01, bit_set m 0x02, bit_set m 0x04,
                       bit_set m 0x08, bit_set m 0x10, bit_set m 0x20]"

definition make_flags5 :: "int \<Rightarrow> bool list" where
  "make_flags5 m = [bit_set m 0x01, bit_set m 0x02, bit_set m 0x04,
                       bit_set m 0x08, bit_set m 0x10]"

definition make_flags4 :: "int \<Rightarrow> bool list" where
  "make_flags4 m = [bit_set m 0x01, bit_set m 0x02, bit_set m 0x04, bit_set m 0x08]"

definition unit_state_fmt :: "field list" where
  "unit_state_fmt = [FU 2, FU 2, FU 2, FU 1, FU 1, FU 2, FU 2, FU 2, FU 2, FU 2, FU 2,
     FU 1, FU 1, FU 1, FU 2, FU 2, FU 2, FU 2, FU 1, FX 1, FU 1, FU 1, FU 1, FX 28]"

definition unit_state_unpack :: "bytes \<Rightarrow> nat \<Rightarrow> unit_state result" where
  "unit_state_unpack data offset = bindR (unpack_from LE unit_state_fmt data offset) (\<lambda>vs. case vs of
       [sw_version, hw_version, flags, ch, beacons, nc0, nc1, nc2, nc3, nc4, nc5,
        video_5v_sens, video_hpd, video_edid, vc0, vc1, vc2, vc3,
        usb_5v_sens, atx_busy, quirks, video_dummies] \<Rightarrow>
       Inr \<lparr>us_version = \<lparr>uv_hw = hw_version, uv_sw = sw_version AND 0x7FFF,
                          uv_sw_dev = bit_set sw_version 0x8000\<rparr>,
            us_flags = \<lparr>uf_changing_busy = bit_set flags 0x80, uf_flashing_busy = bit_set flags 0x40,
                        uf_has_downlink = bit_set flags 0x02, uf_has_hpd = bit_set flags 0x04\<rparr>,
            us_ch = ch,
            us_beacons = make_flags6 beacons,
            us_np_crc = [nc0, nc1, nc2, nc3, nc4, nc5],
            us_video_5v_sens = make_flags5 video_5v_sens,
            us_video_hpd = make_flags5 video_hpd,
            us_video_edid = make_flags4 video_edid,
            us_video_crc = [vc0, vc1, vc2, vc3],
            us_video_dummies = make_flags4 video_dummies,
            us_usb_5v_sens = make_flags4 usb_5v_sens,
            us_atx_busy = make_flags4 atx_busy,
            us_ignore_hpd = bit_set quirks 0x01\<rparr>
     | _ \<Rightarrow> Inl ValueError)"

record unit_atx_leds =
  al_power :: "bool list"
  al_hdd :: "bool list"

definition unit_atx_leds_unpack :: "bytes \<Rightarrow> nat \<Rightarrow> unit_atx_leds result" where
  "unit_atx_leds_unpack data offset = bindR (unpack_from LE [FU 1] data offset) (\<lambda>vs. case vs of
       [m] \<Rightarrow> Inr
         \<lparr>al_power = [bit_set m 0x01, bit_set m 0x02, bit_set m 0x04, bit_set m 0x08],
          al_hdd = [bit_set m 0x10, bit_set m 0x20, bit_set m 0x40, bit_set m 0x80]\<rparr>
     | _ \<Rightarrow> Inl ValueError)"

datatype resp_body = RNak nak | RState unit_state | RAtxLeds unit_atx_leds

record response =
  rs_header :: header
  rs_body :: resp_body

definition response_unpack :: "bytes \<Rightarrow> response option result" where
  "response_unpack msg = bindR (header_unpack msg 0) (\<lambda>header.
     if hd_op header = op_NAK then
       bindR (nak_unpack msg header_size) (\<lambda>b. Inr (Some \<lparr>rs_header = header, rs_body = RNak b\<rparr>))
     else if hd_op header = op_STATE then
       bindR (unit_state_unpack msg header_size) (\<lambda>b. Inr (Some \<lparr>rs_header = header, rs_body = RState b\<rparr>))
     else if hd_op header = op_ATX_LEDS then
       bindR (unit_atx_leds_unpack msg header_size) (\<lambda>b. Inr (Some \<lparr>rs_header = header, rs_body = RAtxLeds b\<rparr>))
     else Inr None)"

section \<open>Requests\<close>

datatype body =
    BodySwitch int
  | BodySetBeacon int bool
  | BodyAtxClick int int int
  | BodySetEdid int edid
  | BodyClearEdid int
  | BodySetDummy int bool
  | BodySetColors int colors
  | BodySetQuirks bool

abbreviation (input) atx_POWER :: int where "atx_POWER \<equiv> 0"
abbreviation (input) atx_RESET :: int where "atx_RESET \<equiv> 1"

text \<open>The assertions of \<open>__post_init__\<close>.\<close>

fun body_ok :: "body \<Rightarrow> bool" where
  "body_ok (BodySwitch ch) = (0 \<le> ch \<and> ch \<le> 4)"
| "body_ok (BodySetBeacon ch on) = (0 \<le> ch \<and> ch \<le> 5)"
| "body_ok (BodyAtxClick ch action delay_ms) =
     ((0 \<le> ch \<and> ch \<le> 3) \<and> action \<in> {atx_POWER, atx_RESET} \<and> 1 \<le> delay_ms \<and> delay_ms \<le> 0xFFFF)"
| "body_ok (BodySetEdid ch edid) = (0 \<le> ch \<and> ch \<le> 3)"
| "body_ok (BodyClearEdid ch) = (0 \<le> ch \<and> ch \<le> 3)"
| "body_ok (BodySetDummy ch on) = (0 \<le> ch \<and> ch \<le> 3)"
| "body_ok (BodySetColors ch colors) = (0 \<le> ch \<and> ch \<le> 5)"
| "body_ok (BodySetQuirks ignore_hpd) = True"

definition body_init :: "body \<Rightarrow> body result" where
  "body_init b = assertR (body_ok b) (Inr b)"

text \<open>\<open>int.to_bytes()\<close>: one byte, \<open>OverflowError\<close> when it does not fit.\<close>

definition to_byte :: "int \<Rightarrow> bytes result" where
  "to_byte x = (if 0 \<le> x \<and> x < 256 then Inr [x] else Inl OverflowError)"

fun body_pack :: "body \<Rightarrow> bytes result" where
  "body_pack (BodySwitch ch) = to_byte ch"
| "body_pack (BodySetBeacon ch on) = bindR (to_byte ch) (\<lambda>a. bindR (to_byte (of_bool on)) (\<lambda>b. Inr (a @ b)))"
| "body_pack (BodyAtxClick ch action delay_ms) = pack LE [FU 1, FU 1, FU 2] [ch, action, delay_ms]"
| "body_pack (BodySetEdid ch edid) = bindR (to_byte ch) (\<lambda>a. Inr (a @ edid_pack edid))"
| "body_pack (BodyClearEdid ch) = to_byte ch"
| "body_pack (BodySetDummy ch on) = bindR (to_byte ch) (\<lambda>a. bindR (to_byte (of_bool on)) (\<lambda>b. Inr (a @ b)))"
| "body_pack (BodySetColors ch colors) = bindR (to_byte ch) (\<lambda>a. Inr (a @ colors_pack colors))"
| "body_pack (BodySetQuirks ignore_hpd) = to_byte (of_bool ignore_hpd)"

record request =
  rq_header :: header
  rq_body :: "body option"

definition request_pack :: "request \<Rightarrow> bytes result" where
  "request_pack r = bindR (header_pack (rq_header r)) (\<lambda>msg. case rq_body r of
       None \<Rightarrow> Inr msg
     | Some b \<Rightarrow> bindR (body_pack b) (\<lambda>data. Inr (msg @ data)))"

section \<open>Lemmas\<close>

definition header_ok :: "header \<Rightarrow> bool" where
  [wf_simps]: "header_ok h = ((0 \<le> hd_proto h \<and> hd_proto h < 256) \<and> (0 \<le> hd_rid h \<and> hd_rid h < 65536)
     \<and> (0 \<le> hd_op h \<and> hd_op h < 256) \<and> (0 \<le> hd_unit h \<and> hd_unit h < 256))"

lemma header_size [simp]: "header_size = 5"
  by (simp add: header_size_def header_fmt_def)

lemma header_pack_ok: "header_ok h \<Longrightarrow> \<exists>bs. header_pack h = Inr bs"
  by (auto simp: header_ok_def header_pack_def header_fmt_def)

lemma header_pack_facts: "header_pack h = Inr bs \<Longrightarrow> length bs = 5 \<and> bytes_ok bs"
  unfolding header_pack_def by (drule pack_facts) (simp add: header_fmt_def)

lemma header_unpack_pack:
  assumes "header_pack h = Inr bs"
  shows "header_unpack (bs @ rest) 0 = Inr h"
proof -
  have "unpack_from LE header_fmt ([] @ bs @ rest) 0 = Inr [hd_proto h, hd_rid h, hd_op h, hd_unit h]"
    by (rule unpack_from_pack [OF assms [unfolded header_pack_def]]) (simp_all add: header_fmt_def)
  then show ?thesis by (simp add: header_unpack_def)
qed

text \<open>Unpacking never invents a header that does not fit its format.\<close>

lemma header_unpack_ok: "header_unpack data 0 = Inr h \<Longrightarrow> bytes_ok data \<Longrightarrow> header_ok h"
  using get_int_bounds [of "take 1 data" LE] get_int_bounds [of "take 2 (drop 1 data)" LE]
    get_int_bounds [of "take 1 (drop 3 data)" LE] get_int_bounds [of "take 1 (drop 4 data)" LE]
  by (auto simp: header_unpack_def unpack_from_def header_fmt_def header_ok_def bindR_Inr_iff
      bytes_ok_simps split: if_splits)

text \<open>A request body that passes its assertions packs, for well-formed EDIDs and colours.\<close>

definition body_values_ok :: "body \<Rightarrow> bool" where
  "body_values_ok b = (case b of BodySetEdid _ e \<Rightarrow> edid_ok e
     | BodySetColors _ c \<Rightarrow> bytes_ok (colors_pack c) | _ \<Rightarrow> True)"

lemma body_pack_ok:
  assumes "body_ok b" and "body_values_ok b"
  shows "\<exists>bs. body_pack b = Inr bs \<and> bytes_ok bs"
proof (cases b)
  case (BodyAtxClick ch action delay_ms)
  with assms have "\<exists>bs. pack LE [FU 1, FU 1, FU 2] [ch, action, delay_ms] = Inr bs"
    by auto
  with pack_facts BodyAtxClick show ?thesis by fastforce
next
  case (BodySetEdid ch e)
  with assms edid_ok_packed [of e] show ?thesis
    by (auto simp: body_values_ok_def to_byte_def edid_pack_def)
qed (use assms in \<open>auto simp: body_values_ok_def to_byte_def\<close>)

lemma request_pack_ok:
  assumes "header_ok h" and "\<And>b. body = Some b \<Longrightarrow> body_ok b \<and> body_values_ok b"
  shows "\<exists>bs. request_pack \<lparr>rq_header = h, rq_body = body\<rparr> = Inr bs \<and> bytes_ok bs"
proof (cases body)
  case None
  then show ?thesis using header_pack_ok [OF assms(1)] header_pack_facts
    by (auto simp: request_pack_def)
next
  case (Some b)
  obtain x y where "header_pack h = Inr x" "body_pack b = Inr y" "bytes_ok y"
    using header_pack_ok [OF assms(1)] body_pack_ok [of b] assms(2) [OF Some] by blast
  then show ?thesis using Some header_pack_facts by (auto simp: request_pack_def)
qed

text \<open>
  The layout as the units see it: the masks of the flags and the bytes of a state.  They are
  the specification the decoder is compared with.
\<close>

definition mask_of :: "bool list \<Rightarrow> int" where
  "mask_of bs = horner_sum of_bool 2 bs"

lemma bit_set_pow: "bit_set x (2 ^ n) = bit x n"
  by (simp add: bit_set_def and_exp_eq_0_iff_not_bit)

lemma bit_set_mask_of [simp]:
  "bit_set (mask_of bs) (2 ^ n) \<longleftrightarrow> n < length bs \<and> bs ! n"
  by (simp add: bit_set_pow mask_of_def bit_horner_sum_bit_iff)

lemmas bit_set_mask_of_num [simp] =
  bit_set_mask_of [where n = 0, simplified] bit_set_mask_of [where n = 1, simplified]
  bit_set_mask_of [where n = 2, simplified] bit_set_mask_of [where n = 3, simplified]
  bit_set_mask_of [where n = 4, simplified] bit_set_mask_of [where n = 5, simplified]
  bit_set_mask_of [where n = 6, simplified] bit_set_mask_of [where n = 7, simplified]

lemma mask_of_bounds: "0 \<le> mask_of bs \<and> mask_of bs < 2 ^ length bs"
  by (induction bs) (auto simp: mask_of_def)

lemma make_flags_mask_of:
  "length bs = 4 \<Longrightarrow> make_flags4 (mask_of bs) = bs"
  "length bs = 5 \<Longrightarrow> make_flags5 (mask_of bs) = bs"
  "length bs = 6 \<Longrightarrow> make_flags6 (mask_of bs) = bs"
  by (auto simp: make_flags4_def make_flags5_def make_flags6_def length_Suc_conv numeral_eq_Suc)

definition unit_state_bytes :: "unit_state \<Rightarrow> bytes result" where
  "unit_state_bytes s = (let f = us_flags s; v = us_version s in pack LE unit_state_fmt
     ([uv_sw v + (if uv_sw_dev v then 0x8000 else 0), uv_hw v,
       mask_of [False, uf_has_downlink f, uf_has_hpd f, False, False, False,
                uf_flashing_busy f, uf_changing_busy f],
       us_ch s, mask_of (us_beacons s)] @ us_np_crc s @
      [mask_of (us_video_5v_sens s), mask_of (us_video_hpd s), mask_of (us_video_edid s)] @
      us_video_crc s @
      [mask_of (us_usb_5v_sens s), mask_of (us_atx_busy s), of_bool (us_ignore_hpd s),
       mask_of (us_video_dummies s)]))"

definition unit_state_ok :: "unit_state \<Rightarrow> bool" where
  [wf_simps]: "unit_state_ok s = (
     (0 \<le> uv_sw (us_version s) \<and> uv_sw (us_version s) < 0x8000) \<and> is_u16 (uv_hw (us_version s)) \<and>
     (0 \<le> us_ch s \<and> us_ch s < 256) \<and> length (us_beacons s) = 6 \<and>
     length (us_np_crc s) = 6 \<and> list_all is_u16 (us_np_crc s) \<and>
     length (us_video_5v_sens s) = 5 \<and> length (us_video_hpd s) = 5 \<and> length (us_video_edid s) = 4 \<and>
     length (us_video_crc s) = 4 \<and> list_all is_u16 (us_video_crc s) \<and>
     length (us_video_dummies s) = 4 \<and> length (us_usb_5v_sens s) = 4 \<and> length (us_atx_busy s) = 4)"

lemma length4: "length xs = 4 \<longleftrightarrow> (\<exists>a b c d. xs = [a, b, c, d])"
  by (auto simp: length_Suc_conv numeral_eq_Suc)

lemma length6: "length xs = 6 \<longleftrightarrow> (\<exists>a b c d e f. xs = [a, b, c, d, e, f])"
  by (auto simp: length_Suc_conv numeral_eq_Suc)

lemma mask_of_byte:
  "length bs \<le> 8 \<Longrightarrow> 0 \<le> mask_of bs \<and> mask_of bs < 256 \<and> mask_of bs < 65536"
proof -
  assume "length bs \<le> 8"
  then have "(2::int) ^ length bs \<le> 2 ^ 8" by (rule power_increasing) simp
  then show ?thesis using mask_of_bounds [of bs] by simp
qed

lemma sw_version_parts:
  assumes "0 \<le> v" "v < 0x8000"
  shows "(v + (if dev then 0x8000 else 0)) AND 0x7FFF = v"
    and "bit_set (v + (if dev then 0x8000 else 0)) 0x8000 = dev"
proof -
  show "(v + (if dev then 0x8000 else 0)) AND 0x7FFF = v"
    using assms by (simp add: bits_simps)
  have "(v + (if dev then 0x8000 else 0)) div 2 ^ 15 = (if dev then 1 else 0)"
    using assms by simp
  then have "bit_set (v + (if dev then 0x8000 else 0)) (2 ^ 15) = dev"
    unfolding bit_set_pow bit_iff_odd by simp
  then show "bit_set (v + (if dev then 0x8000 else 0)) 0x8000 = dev" by simp
qed

lemma unit_state_fmt_pos: "\<forall>f \<in> set unit_state_fmt. 0 < field_size f"
  by (simp add: unit_state_fmt_def)

lemma unit_state_bytes_total:
  assumes "unit_state_ok s"
  shows "\<exists>bs. unit_state_bytes s = Inr bs"
  using assms unfolding unit_state_ok_def length4 length6
  by (auto simp: unit_state_bytes_def unit_state_fmt_def Let_def is_u16_def mask_of_byte)

lemma unit_state_unpack_bytes:
  assumes "unit_state_ok s" and bs: "unit_state_bytes s = Inr bs"
  shows "unit_state_unpack (pre @ bs @ rest) (length pre) = Inr s"
proof -
  note u = unpack_from_pack [OF bs [unfolded unit_state_bytes_def Let_def] unit_state_fmt_pos refl,
      of pre rest]
  obtain a b c d e f where np: "us_np_crc s = [a, b, c, d, e, f]"
    using assms unfolding unit_state_ok_def length6 by blast
  obtain w x y z where vc: "us_video_crc s = [w, x, y, z]"
    using assms unfolding unit_state_ok_def length4 by blast
  show ?thesis
    using assms(1) unfolding unit_state_unpack_def u
    by (simp add: np vc unit_state_ok_def sw_version_parts make_flags_mask_of)
       (simp add: bit_set_def flip: np vc)
qed

lemma unit_atx_leds_unpack_bytes:
  assumes "length pw = 4" and "length hdd = 4"
  shows "unit_atx_leds_unpack (pre @ [mask_of (pw @ hdd)]) (length pre) =
           Inr \<lparr>al_power = pw, al_hdd = hdd\<rparr>"
  using assms unfolding length4
  by (auto simp: unit_atx_leds_unpack_def unpack_from_def get_int_def)

text \<open>A unit that reports its state in the documented layout is understood: for every
  state with fields in range and every header with the operation \<open>STATE\<close> there is one byte
  string, and decoding it gives that header and exactly that state.\<close>

theorem unit_state_decoded:
  assumes "header_ok h" and "hd_op h = op_STATE" and "unit_state_ok s"
  shows "\<exists>hb sb. header_pack h = Inr hb \<and> unit_state_bytes s = Inr sb \<and> length (hb @ sb) = 69 \<and>
           response_unpack (hb @ sb @ rest) = Inr (Some \<lparr>rs_header = h, rs_body = RState s\<rparr>)"
proof -
  obtain hb where hb: "header_pack h = Inr hb" using header_pack_ok [OF assms(1)] by blast
  obtain sb where sb: "unit_state_bytes s = Inr sb" using unit_state_bytes_total [OF assms(3)] by blast
  have len: "length hb = 5" "length sb = 64"
    using header_pack_facts [OF hb] pack_facts [OF sb [unfolded unit_state_bytes_def Let_def]]
    by (simp_all add: unit_state_fmt_def)
  have "unit_state_unpack (hb @ sb @ rest) 5 = Inr s"
    using unit_state_unpack_bytes [OF assms(3) sb, of hb rest] by (simp add: len)
  then show ?thesis
    using hb sb len header_unpack_pack [OF hb, of "sb @ rest"] assms(2)
    by (simp add: response_unpack_def)
qed

definition unit_state_sample :: unit_state where
  "unit_state_sample = \<lparr>us_version = \<lparr>uv_hw = 1, uv_sw = 8, uv_sw_dev = True\<rparr>,
     us_flags = \<lparr>uf_changing_busy = False, uf_flashing_busy = False, uf_has_downlink = True, uf_has_hpd = True\<rparr>,
     us_ch = 2, us_beacons = [False, True, False, False, False, False],
     us_np_crc = [0, 1, 2, 3, 4, 65535], us_video_5v_sens = [True, False, True, False, True],
     us_video_hpd = [True, False, True, False, True], us_video_edid = [True, False, True, False],
     us_video_crc = [0, 0x1234, 7, 65535], us_video_dummies = [True, True, True, True],
     us_usb_5v_sens = [True, False, True, False], us_atx_busy = [False, False, False, True],
     us_ignore_hpd = True\<rparr>"

theorem unit_state_decoded_witness:
  "\<exists>hb sb. header_pack \<lparr>hd_proto = 1, hd_rid = 515, hd_op = 4, hd_unit = 1\<rparr> = Inr hb \<and>
     unit_state_bytes unit_state_sample = Inr sb \<and> length (hb @ sb) = 69 \<and>
     response_unpack (hb @ sb @ [7]) = Inr (Some
       \<lparr>rs_header = \<lparr>hd_proto = 1, hd_rid = 515, hd_op = 4, hd_unit = 1\<rparr>,
        rs_body = RState unit_state_sample\<rparr>)"
  by (rule unit_state_decoded)
     (simp_all add: header_ok_def unit_state_ok_def unit_state_sample_def is_u16_def)

end
