(* ===== verification/SwitchDevice.thy ===== *)
theory SwitchDevice
  imports SwitchProto
begin

text \<open>
  The serial line to the switch (\<open>kvmd/apps/kvmd/switch/device.py\<close>): the framing of messages
  between \<open>F1\<close> and \<open>F2\<close> with escapes \<open>F0\<close>, the receive buffer of \<open>read_all\<close> and the
  requests.  The port itself is outside the program: \<open>dv_in\<close> are the bytes waiting in it,
  \<open>dv_out\<close> the writes it has received, \<open>dv_up\<close> says whether its operations succeed.
\<close>

record device =
  dv_rid :: int
  dv_tty :: bool
  dv_buf :: bytes
  dv_in :: bytes
  dv_out :: "bytes list"
  dv_up :: bool

text \<open>The first request id is drawn at random from \<open>1..0xFFFF\<close>.\<close>

definition device_init :: "int \<Rightarrow> device" where
  "device_init seed = \<lparr>dv_rid = seed, dv_tty = False, dv_buf = [], dv_in = [], dv_out = [], dv_up = True\<rparr>"

definition device_enter :: "(device, unit) sm" where
  "device_enter = getS (\<lambda>d. if dv_up d then modifyS (\<lambda>d. d\<lparr>dv_tty := True\<rparr>) else raiseS DeviceError)"

definition device_exit :: "device \<Rightarrow> device" where
  "device_exit d = d\<lparr>dv_tty := False\<rparr>"

section \<open>Receiving\<close>

definition index_from :: "int \<Rightarrow> nat \<Rightarrow> bytes \<Rightarrow> nat option" where
  "index_from x i xs = (let j = i + length (takeWhile (\<lambda>c. c \<noteq> x) (drop i xs))
     in if j < length xs then Some j else None)"

definition next_frame :: "bytes \<Rightarrow> (bytes \<times> bytes) option" where
  "next_frame buf = (case index_from 0xF1 0 buf of
       None \<Rightarrow> None
     | Some begin_ \<Rightarrow> (case index_from 0xF2 begin_ buf of
         None \<Rightarrow> None
       | Some end_ \<Rightarrow> (let msg = py_slice (begin_ + 1) end_ buf in
           if 0xF1 \<in> set msg then None else Some (msg, drop (end_ + 1) buf))))"

fun unescape_loop :: "bool \<Rightarrow> bytes \<Rightarrow> int list" where
  "unescape_loop esc [] = []"
| "unescape_loop esc (ch # msg) =
     (if ch = 0xF0 then unescape_loop True msg
      else (if esc then ch XOR 0xFF else ch) # unescape_loop False msg)"

definition unescape :: "bytes \<Rightarrow> bytes" where
  "unescape msg = (if 0xF0 \<notin> set msg then msg else unescape_loop False msg)"

lemma index_from_SomeD:
  "index_from x i xs = Some j \<Longrightarrow> i \<le> j \<and> j < length xs \<and> xs ! j = x"
proof -
  assume a: "index_from x i xs = Some j"
  let ?k = "length (takeWhile (\<lambda>c. c \<noteq> x) (drop i xs))"
  have j: "j = i + ?k" "j < length xs" using a by (auto simp: index_from_def Let_def split: if_splits)
  then have "?k < length (drop i xs)" by simp
  then have "drop i xs ! ?k = x" using nth_length_takeWhile by fastforce
  with j show ?thesis by simp
qed

lemma next_frame_shorter: "next_frame buf = Some (m, rest) \<Longrightarrow> length rest < length buf"
  by (auto simp: next_frame_def Let_def split: option.splits if_splits dest: index_from_SomeD)

text \<open>The loop of \<open>read_all\<close>: a decoding error leaves the buffer behind the bad message.\<close>

function read_loop :: "bytes \<Rightarrow> response list result \<times> bytes" where
  "read_loop buf = (case next_frame buf of
       None \<Rightarrow> (Inr [], buf)
     | Some (msg, rest) \<Rightarrow> (case response_unpack (unescape msg) of
         Inl e \<Rightarrow> (Inl e, rest)
       | Inr r \<Rightarrow> (let (rs, b) = read_loop rest in
           (bindR rs (\<lambda>rs. Inr (case r of None \<Rightarrow> rs | Some resp \<Rightarrow> resp # rs)), b))))"
  by pat_completeness auto
termination by (relation "measure length") (auto dest: next_frame_shorter)

declare read_loop.simps [simp del]

definition read_all :: "(device, response list) sm" where
  "read_all = getS (\<lambda>d. assertS (dv_tty d)
     (if \<not> dv_up d then raiseS DeviceError
      else if dv_in d = [] then retS []
      else bindS (modifyS (\<lambda>d. d\<lparr>dv_buf := dv_buf d @ dv_in d, dv_in := []\<rparr>)) (\<lambda>_.
        getS (\<lambda>d. bindS (modifyS (\<lambda>d. d\<lparr>dv_buf := snd (read_loop (dv_buf d))\<rparr>))
          (\<lambda>_. liftS (fst (read_loop (dv_buf d)))))))) "

section \<open>Sending\<close>

fun escape :: "bytes \<Rightarrow> bytes" where
  "escape [] = []"
| "escape (ch # msg) =
     (if 0xF0 \<le> ch \<and> ch \<le> 0xF2 then 0xF0 # (ch XOR 0xFF) # escape msg else ch # escape msg)"

definition wire_frame :: "bytes \<Rightarrow> bytes" where
  "wire_frame msg = 0xF1 # escape msg @ [0xF2]"

definition get_next_rid :: "(device, int) sm" where
  "get_next_rid = getS (\<lambda>d.
     bindS (modifyS (\<lambda>d. d\<lparr>dv_rid := (if dv_rid d + 1 > 0xFFFF then 1 else dv_rid d + 1)\<rparr>))
       (\<lambda>_. retS (dv_rid d)))"

definition send_request :: "int \<Rightarrow> int \<Rightarrow> body option \<Rightarrow> (device, int) sm" where
  "send_request op unit body = getS (\<lambda>d. assertS (dv_tty d)
     (bindS get_next_rid (\<lambda>rid.
      bindS (liftS (request_pack
        \<lparr>rq_header = \<lparr>hd_proto = 1, hd_rid = rid, hd_op = op, hd_unit = unit\<rparr>, rq_body = body\<rparr>)) (\<lambda>msg.
      bindS (liftS (py_bytes (wire_frame msg))) (\<lambda>data.
      getS (\<lambda>d. if dv_up d
        then bindS (modifyS (\<lambda>d. d\<lparr>dv_out := dv_out d @ [data]\<rparr>)) (\<lambda>_. retS rid)
        else raiseS DeviceError))))))"

text \<open>The body is built, with its assertions, before the request gets its id.\<close>

definition send_body :: "int \<Rightarrow> int \<Rightarrow> body \<Rightarrow> (device, int) sm" where
  "send_body op unit body = bindS (liftS (body_init body)) (\<lambda>b. send_request op unit (Some b))"

definition request_reboot :: "int \<Rightarrow> bool \<Rightarrow> (device, int) sm" where
  "request_reboot unit bootloader = send_request (if bootloader then op_BOOTLOADER else op_REBOOT) unit None"

definition request_state :: "(device, int) sm" where
  "request_state = send_request op_STATE 0xFF None"

definition request_switch :: "int \<Rightarrow> int \<Rightarrow> (device, int) sm" where
  "request_switch unit ch = send_body op_SWITCH unit (BodySwitch ch)"

definition request_beacon :: "int \<Rightarrow> int \<Rightarrow> bool \<Rightarrow> (device, int) sm" where
  "request_beacon unit ch on = send_body op_BEACON unit (BodySetBeacon ch on)"

definition request_atx_leds :: "(device, int) sm" where
  "request_atx_leds = send_request op_ATX_LEDS 0xFF None"

definition request_atx_cp :: "int \<Rightarrow> int \<Rightarrow> int \<Rightarrow> (device, int) sm" where
  "request_atx_cp unit ch delay_ms = send_body op_ATX_CLICK unit (BodyAtxClick ch atx_POWER delay_ms)"

definition request_atx_cr :: "int \<Rightarrow> int \<Rightarrow> int \<Rightarrow> (device, int) sm" where
  "request_atx_cr unit ch delay_ms = send_body op_ATX_CLICK unit (BodyAtxClick ch atx_RESET delay_ms)"

definition request_set_edid :: "int \<Rightarrow> int \<Rightarrow> edid \<Rightarrow> (device, int) sm" where
  "request_set_edid unit ch edid =
     (if ed_valid edid then send_body op_SET_EDID unit (BodySetEdid ch edid)
      else send_body op_CLEAR_EDID unit (BodyClearEdid ch))"

definition request_set_dummy :: "int \<Rightarrow> int \<Rightarrow> bool \<Rightarrow> (device, int) sm" where
  "request_set_dummy unit ch on = send_body op_SET_DUMMY unit (BodySetDummy ch on)"

definition request_set_colors :: "int \<Rightarrow> int \<Rightarrow> colors \<Rightarrow> (device, int) sm" where
  "request_set_colors unit ch colors = send_body op_SET_COLORS unit (BodySetColors ch colors)"

definition request_set_quirks :: "int \<Rightarrow> bool \<Rightarrow> (device, int) sm" where
  "request_set_quirks unit ignore_hpd = send_body op_SET_QUIRKS unit (BodySetQuirks ignore_hpd)"

section \<open>Framing\<close>

text \<open>
  What a framing must satisfy for a receiver that keeps what it cannot decode yet: a frame is
  recognised at the front whatever follows, more input never changes what was recognised, and
  every frame consumes input.
\<close>

locale framing =
  fixes frame :: "'m \<Rightarrow> bytes"
    and next_msg :: "bytes \<Rightarrow> ('m \<times> bytes) option"
    and good :: "'m \<Rightarrow> bool"
  assumes next_of_frame: "good m \<Longrightarrow> next_msg (frame m @ rest) = Some (m, rest)"
    and next_more: "next_msg a = Some (m, rest) \<Longrightarrow> next_msg (a @ b) = Some (m, rest @ b)"
    and next_less: "next_msg a = Some (m, rest) \<Longrightarrow> length rest < length a"
begin

function drain :: "bytes \<Rightarrow> 'm list \<times> bytes" where
  "drain buf = (case next_msg buf of None \<Rightarrow> ([], buf)
     | Some (m, rest) \<Rightarrow> (let (ms, b) = drain rest in (m # ms, b)))"
  by pat_completeness auto
termination by (relation "measure length") (auto dest: next_less)

declare drain.simps [simp del]

lemma drain_None: "next_msg buf = None \<Longrightarrow> drain buf = ([], buf)"
  by (subst drain.simps) simp

lemma drain_Some: "next_msg buf = Some (m, rest) \<Longrightarrow> drain buf = (m # fst (drain rest), snd (drain rest))"
  by (subst drain.simps) (simp add: case_prod_beta)

lemma drain_stable: "next_msg (snd (drain buf)) = None"
proof (induction buf rule: drain.induct)
  case (1 buf)
  then show ?case
    by (cases "next_msg buf") (auto simp: drain_None drain_Some)
qed

text \<open>Draining in two steps is draining at once: the split of the input does not matter.\<close>

lemma drain_append:
  "drain (a @ b) = (fst (drain a) @ fst (drain (snd (drain a) @ b)), snd (drain (snd (drain a) @ b)))"
proof (induction a rule: drain.induct)
  case (1 a)
  show ?case
  proof (cases "next_msg a")
    case None
    then show ?thesis by (simp add: drain_None)
  next
    case (Some mr)
    obtain m rest where "mr = (m, rest)" by (cases mr)
    with Some 1 show ?thesis by (simp add: drain_Some [OF next_more] drain_Some)
  qed
qed

fun drain_chunks :: "bytes \<Rightarrow> bytes list \<Rightarrow> 'm list \<times> bytes" where
  "drain_chunks buf [] = ([], buf)"
| "drain_chunks buf (c # cs) =
     (let (ms, b) = drain (buf @ c); (ns, b') = drain_chunks b cs in (ms @ ns, b'))"

lemma drain_chunks_concat:
  "next_msg buf = None \<Longrightarrow> drain_chunks buf cs = drain (buf @ concat cs)"
proof (induction cs arbitrary: buf)
  case Nil
  then show ?case by (simp add: drain_None)
next
  case (Cons c cs)
  show ?case
    using Cons.IH [OF drain_stable, of "buf @ c"] drain_append [of "buf @ c" "concat cs"]
    by (simp add: case_prod_beta Let_def)
qed

lemma drain_frames:
  "list_all good ms \<Longrightarrow> next_msg tail = None \<Longrightarrow> drain (concat (map frame ms) @ tail) = (ms, tail)"
proof (induction ms)
  case Nil
  then show ?case by (simp add: drain_None)
next
  case (Cons m ms)
  then show ?case by (simp add: drain_Some [OF next_of_frame])
qed

theorem stream_roundtrip:
  "list_all good ms \<Longrightarrow> next_msg [] = None \<Longrightarrow> concat cs = concat (map frame ms) \<Longrightarrow>
     drain_chunks [] cs = (ms, [])"
  using drain_chunks_concat [of "[]" cs] drain_frames [of ms "[]"] by simp

end

subsection \<open>The serial framing is such a framing\<close>

definition next_message :: "bytes \<Rightarrow> (bytes \<times> bytes) option" where
  "next_message buf = map_option (\<lambda>(m, rest). (unescape m, rest)) (next_frame buf)"

lemma escape_clean: "bytes_ok m \<Longrightarrow> 0xF1 \<notin> set (escape m) \<and> 0xF2 \<notin> set (escape m) \<and> bytes_ok (escape m)"
proof (induction m)
  case (Cons ch m)
  consider "ch = 240" | "ch = 241" | "ch = 242" | "ch < 240 \<or> 242 < ch" by linarith
  then show ?case using Cons by cases auto
qed simp

lemma xor_FF_involutive: "(ch XOR 255) XOR 255 = ch" for ch :: int
  by (simp add: xor.assoc)

lemma unescape_escape: "unescape (escape m) = m"
proof -
  have loop: "unescape_loop False (escape m) = m"
  proof (induction m)
    case (Cons ch m)
    consider "ch = 240" | "ch = 241" | "ch = 242" | "ch < 240 \<or> 242 < ch" by linarith
    then show ?case using Cons by cases (auto simp: xor_FF_involutive)
  qed simp
  have "240 \<notin> set (escape m) \<Longrightarrow> escape m = m"
    by (induction m) (auto split: if_splits)
  with loop show ?thesis by (simp add: unescape_def)
qed

lemma index_from_hit:
  "x \<notin> set (drop i pre) \<Longrightarrow> i \<le> length pre \<Longrightarrow> index_from x i (pre @ x # post) = Some (length pre)"
proof -
  assume a: "x \<notin> set (drop i pre)" "i \<le> length pre"
  then have "takeWhile (\<lambda>c. c \<noteq> x) (drop i pre @ x # post) = drop i pre"
    by (subst takeWhile_append2) auto
  with a(2) show ?thesis by (simp add: index_from_def Let_def)
qed

lemma index_from_miss: "x \<notin> set xs \<Longrightarrow> index_from x i xs = None"
proof -
  assume a: "x \<notin> set xs"
  then have "\<forall>c \<in> set (drop i xs). c \<noteq> x"
    using in_set_dropD [of _ i xs] by blast
  then have t: "takeWhile (\<lambda>c. c \<noteq> x) (drop i xs) = drop i xs"
    by (simp only: takeWhile_eq_all_conv)
  show ?thesis unfolding index_from_def Let_def t by simp
qed

lemma index_from_append: "index_from x i a = Some j \<Longrightarrow> index_from x i (a @ b) = Some j"
proof -
  assume a: "index_from x i a = Some j"
  let ?k = "length (takeWhile (\<lambda>c. c \<noteq> x) (drop i a))"
  have j: "j = i + ?k" "j < length a" using a unfolding index_from_def Let_def by (simp_all split: if_splits)
  then have "?k < length (drop i a)" by simp
  then have hit: "drop i a ! ?k \<in> set (drop i a) \<and> drop i a ! ?k = x"
    using nth_length_takeWhile by (metis (mono_tags, lifting) nth_mem)
  then have "takeWhile (\<lambda>c. c \<noteq> x) (drop i a @ drop i b') = takeWhile (\<lambda>c. c \<noteq> x) (drop i a)" for b'
    by (metis (mono_tags, lifting) takeWhile_append1)
  moreover have "drop i (a @ b) = drop i a @ b" using j by simp
  ultimately have "takeWhile (\<lambda>c. c \<noteq> x) (drop i (a @ b)) = takeWhile (\<lambda>c. c \<noteq> x) (drop i a)"
    using hit by (metis (mono_tags, lifting) takeWhile_append1)
  then show ?thesis using j by (simp add: index_from_def Let_def)
qed

lemma next_frame_hit:
  assumes "0xF1 \<notin> set pre" and "0xF2 \<notin> set m"
  shows "next_frame (pre @ 0xF1 # m @ 0xF2 # rest) = (if 0xF1 \<in> set m then None else Some (m, rest))"
proof -
  let ?buf = "pre @ 0xF1 # m @ 0xF2 # rest"
  have 1: "index_from 0xF1 0 ?buf = Some (length pre)"
    using assms(1) by (simp add: index_from_hit)
  have "index_from 0xF2 (length pre) ((pre @ 0xF1 # m) @ 0xF2 # rest) = Some (length (pre @ 0xF1 # m))"
    using assms(2) by (intro index_from_hit) auto
  then have 2: "index_from 0xF2 (length pre) ?buf = Some (length pre + Suc (length m))" by simp
  show ?thesis by (simp add: next_frame_def 1 2 py_slice_def Let_def)
qed

lemma next_frame_more:
  assumes "next_frame a = Some (m, rest)"
  shows "next_frame (a @ b) = Some (m, rest @ b)"
proof -
  obtain i j where i: "index_from 0xF1 0 a = Some i" and j: "index_from 0xF2 i a = Some j"
    and m: "0xF1 \<notin> set (py_slice (i + 1) j a)" "m = py_slice (i + 1) j a" "rest = drop (j + 1) a"
    using assms by (auto simp: next_frame_def Let_def split: option.splits if_splits)
  have le: "j < length a" "i \<le> j" using index_from_SomeD [OF j] by auto
  then have "py_slice (i + 1) j (a @ b) = py_slice (i + 1) j a" "drop (j + 1) (a @ b) = drop (j + 1) a @ b"
    by (simp_all add: py_slice_def)
  then show ?thesis
    using index_from_append [OF i, of b] index_from_append [OF j, of b] m
    by (simp add: next_frame_def Let_def)
qed

interpretation serial: framing wire_frame next_message bytes_ok
proof unfold_locales
  fix m rest
  assume "bytes_ok m"
  with next_frame_hit [of "[]" "escape m" rest] show "next_message (wire_frame m @ rest) = Some (m, rest)"
    by (simp add: escape_clean next_message_def wire_frame_def unescape_escape)
qed (auto simp: next_message_def next_frame_more dest: next_frame_shorter)

section \<open>The receiver over a stream\<close>

text \<open>The port delivers the chunks one by one, \<open>read_all\<close> is called after each.\<close>

fun receive :: "bytes list \<Rightarrow> (device, response list) sm" where
  "receive [] = retS []"
| "receive (c # cs) =
     bindS (modifyS (\<lambda>d. d\<lparr>dv_in := dv_in d @ c\<rparr>)) (\<lambda>_.
     bindS read_all (\<lambda>rs. bindS (receive cs) (\<lambda>rs'. retS (rs @ rs'))))"

definition somes :: "'a option list \<Rightarrow> 'a list" where
  "somes xs = List.map_filter (\<lambda>x. x) xs"

lemma somes_simps [simp]:
  "somes [] = []" "somes (x # xs) = (case x of None \<Rightarrow> somes xs | Some y \<Rightarrow> y # somes xs)"
  "somes (xs @ ys) = somes xs @ somes ys"
  by (induction xs) (auto simp: somes_def map_filter_simps split: option.split)

lemma mapR_append: "mapR f (xs @ ys) = Inr zs \<longleftrightarrow>
    (\<exists>us vs. mapR f xs = Inr us \<and> mapR f ys = Inr vs \<and> zs = us @ vs)"
  by (induction xs arbitrary: zs) (auto simp: bindR_Inr_iff)

lemma read_loop_drain:
  "mapR response_unpack (fst (serial.drain buf)) = Inr rs \<Longrightarrow>
     read_loop buf = (Inr (somes rs), snd (serial.drain buf))"
proof (induction buf arbitrary: rs rule: read_loop.induct)
  case (1 buf)
  show ?case
  proof (cases "next_frame buf")
    case None
    then have "next_message buf = None" by (simp add: next_message_def)
    with 1(2) None show ?thesis by (simp add: serial.drain_None read_loop.simps [of buf])
  next
    case (Some mr)
    obtain m rest where mr: "mr = (m, rest)" by (cases mr)
    then have nxt: "next_message buf = Some (unescape m, rest)" using Some by (simp add: next_message_def)
    with 1(2) obtain r rs' where r: "response_unpack (unescape m) = Inr r"
      and rs': "mapR response_unpack (fst (serial.drain rest)) = Inr rs'" "rs = r # rs'"
      by (auto simp: serial.drain_Some bindR_Inr_iff)
    have "read_loop rest = (Inr (somes rs'), snd (serial.drain rest))"
      using 1(1) [OF Some _ r rs'(1)] mr by simp
    then show ?thesis
      using Some mr r rs'(2) nxt by (subst read_loop.simps) (simp add: serial.drain_Some)
  qed
qed

definition dev_ready :: "device \<Rightarrow> bool" where
  [wf_simps]: "dev_ready d = (dv_tty d \<and> dv_up d \<and> dv_in d = [] \<and> next_frame (dv_buf d) = None)"

lemma receive_drain:
  "dev_ready d \<Longrightarrow> mapR response_unpack (fst (serial.drain_chunks (dv_buf d) cs)) = Inr rs \<Longrightarrow>
     receive cs d = (Inr (somes rs), d\<lparr>dv_buf := snd (serial.drain_chunks (dv_buf d) cs)\<rparr>)"
proof (induction cs arbitrary: d rs)
  case Nil
  then show ?case by (simp add: retS_def)
next
  case (Cons c cs)
  let ?dr = "serial.drain (dv_buf d @ c)"
  let ?d = "d\<lparr>dv_buf := snd ?dr\<rparr>"
  from Cons.prems(2) obtain us vs where us: "mapR response_unpack (fst ?dr) = Inr us"
    and vs: "mapR response_unpack (fst (serial.drain_chunks (snd ?dr) cs)) = Inr vs" and rs: "rs = us @ vs"
    by (auto simp: case_prod_beta Let_def mapR_append)
  have st: "next_frame (snd ?dr) = None"
    using serial.drain_stable [of "dv_buf d @ c"] by (simp add: next_message_def)
  have read: "read_all (d\<lparr>dv_in := c\<rparr>) = (Inr (somes us), ?d)"
  proof (cases "c = []")
    case True
    have "next_message (dv_buf d) = None" using Cons.prems(1) by (simp add: dev_ready_def next_message_def)
    with True us Cons.prems(1) show ?thesis
      by (simp add: read_all_def dev_ready_def sm_defs serial.drain_None)
  next
    case False
    with Cons.prems(1) read_loop_drain [OF us] show ?thesis
      by (simp add: read_all_def dev_ready_def getS_def assertS_def liftS_def)
  qed
  have "dev_ready ?d" using Cons.prems(1) st by (simp add: dev_ready_def)
  from Cons.IH [OF this] vs
  have "receive cs ?d = (Inr (somes vs), ?d\<lparr>dv_buf := snd (serial.drain_chunks (snd ?dr) cs)\<rparr>)" by simp
  with rs Cons.prems(1) show ?case
    by (simp add: dev_ready_def bindS_ok [of read_all, OF read] bindS_ok [of "receive cs"] retS_def
        case_prod_beta Let_def)
qed

text \<open>C4. The receiver is independent of how the serial port cuts the stream: whatever chunks
  the bytes of a sequence of framed messages arrive in, \<open>read_all\<close> yields their decoded
  responses, each once and in order, and leaves nothing in the buffer.\<close>

theorem stream_received:
  assumes "dev_ready d" and "dv_buf d = []"
    and "list_all bytes_ok msgs" and "mapR response_unpack msgs = Inr rs"
    and "concat cs = concat (map wire_frame msgs)"
  shows "receive cs d = (Inr (somes rs), d)"
proof -
  have "next_message [] = None" by (simp add: next_message_def next_frame_def index_from_def)
  from serial.stream_roundtrip [OF assms(3) this assms(5)]
  have "serial.drain_chunks (dv_buf d) cs = (msgs, [])" by (simp add: assms(2))
  with receive_drain [OF assms(1), of cs rs] assms(2,4) show ?thesis by simp
qed

definition leds_msg :: bytes where
  "leds_msg = [1, 2, 0, 7, 0, 0xF1]"

definition device_open :: device where
  "device_open = (device_init 1)\<lparr>dv_tty := True\<rparr>"

lemma device_open_ready: "dev_ready device_open \<and> dv_buf device_open = []"
  by (simp add: dev_ready_def device_open_def device_init_def next_frame_def index_from_def)

theorem stream_received_witness:
  "receive [[0xF1, 1], [2, 0, 7, 0, 0xF0], [0x0E, 0xF2, 0xF1, 1, 2, 0, 99, 0, 0xF2]] device_open
     = (Inr (somes (the (fromR None (map_sum id Some
           (mapR response_unpack [leds_msg, [1, 2, 0, 99, 0]]))))), device_open)"
  by (rule stream_received [where msgs = "[leds_msg, [1, 2, 0, 99, 0]]"])
     (simp_all add: device_open_ready, code_simp+)

text \<open>A lost end of frame is never recovered from: after a frame start whose end \<open>F2\<close> did
  not arrive, no later valid message is ever delivered, however it is split, and reopening the
  port does not help, since the buffer is kept.\<close>

theorem reader_never_resyncs:
  assumes "dev_ready d" and "dv_buf d = 0xF1 # x" and "0xF2 \<notin> set x"
    and "list_all bytes_ok msgs" and "concat cs = concat (map wire_frame msgs)"
  shows "fst (receive cs d) = Inr [] \<and>
    dv_buf (snd (device_enter (device_exit (snd (receive cs d))))) = 0xF1 # x @ concat cs"
proof -
  let ?buf = "0xF1 # x @ concat (map wire_frame msgs)"
  have none: "next_message ?buf = None"
  proof (cases msgs)
    case Nil
    have "index_from 0xF2 i (0xF1 # x) = None" for i
      using assms(3) by (intro index_from_miss) auto
    with Nil show ?thesis by (auto simp: next_message_def next_frame_def split: option.split)
  next
    case (Cons m ms)
    have "0xF2 \<notin> set (x @ 0xF1 # escape m)" using Cons assms(3,4) by (auto simp: escape_clean)
    from next_frame_hit [OF _ this, of "[]" "concat (map wire_frame ms)"] Cons show ?thesis
      by (simp add: next_message_def wire_frame_def)
  qed
  have "next_message (dv_buf d) = None" using assms(1) by (simp add: dev_ready_def next_message_def)
  then have "serial.drain_chunks (dv_buf d) cs = ([], ?buf)"
    using none serial.drain_chunks_concat [of "dv_buf d" cs] assms(2,5) by (simp add: serial.drain_None)
  with receive_drain [OF assms(1), of cs "[]"]
  have "receive cs d = (Inr [], d\<lparr>dv_buf := ?buf\<rparr>)" by simp
  with assms(1,5) show ?thesis
    by (simp add: device_enter_def device_exit_def sm_defs dev_ready_def)
qed

theorem reader_never_resyncs_witness:
  "fst (receive [wire_frame leds_msg] (device_open\<lparr>dv_buf := [0xF1, 1, 2]\<rparr>)) = Inr [] \<and>
   dv_buf (snd (device_enter (device_exit
     (snd (receive [wire_frame leds_msg] (device_open\<lparr>dv_buf := [0xF1, 1, 2]\<rparr>))))))
     = 0xF1 # [1, 2] @ concat [wire_frame leds_msg]"
  by (rule reader_never_resyncs [where msgs = "[leds_msg]"])
     (simp_all add: dev_ready_def device_open_def device_init_def next_frame_def index_from_def leds_msg_def)

section \<open>Requests on the wire\<close>

definition rid_ok :: "int \<Rightarrow> bool" where
  [wf_simps]: "rid_ok rid = (1 \<le> rid \<and> rid \<le> 0xFFFF)"

definition next_rid :: "int \<Rightarrow> int" where
  "next_rid rid = (if rid + 1 > 0xFFFF then 1 else rid + 1)"

lemma next_rid_ok: "rid_ok rid \<Longrightarrow> rid_ok (next_rid rid) \<and> next_rid rid \<noteq> rid"
  by (auto simp: rid_ok_def next_rid_def)

lemma get_next_rid_eq: "get_next_rid d = (Inr (dv_rid d), d\<lparr>dv_rid := next_rid (dv_rid d)\<rparr>)"
  by (simp add: get_next_rid_def next_rid_def sm_defs)

lemma wire_frame_ok: "bytes_ok m \<Longrightarrow> bytes_ok (wire_frame m)"
  by (simp add: wire_frame_def escape_clean)

lemma send_request_frame:
  assumes "dv_tty d" "dv_up d" "rid_ok (dv_rid d)" "0 \<le> op" "op < 256" "0 \<le> unit" "unit < 256"
    and "\<And>b. body = Some b \<Longrightarrow> body_ok b \<and> body_values_ok b"
  defines "h \<equiv> \<lparr>hd_proto = 1, hd_rid = dv_rid d, hd_op = op, hd_unit = unit\<rparr>"
  obtains msg where "request_pack \<lparr>rq_header = h, rq_body = body\<rparr> = Inr msg" "bytes_ok msg"
    and "send_request op unit body d =
      (Inr (dv_rid d), d\<lparr>dv_rid := next_rid (dv_rid d), dv_out := dv_out d @ [wire_frame msg]\<rparr>)"
proof -
  have "header_ok h" using assms by (simp add: header_ok_def rid_ok_def)
  then obtain msg where msg: "request_pack \<lparr>rq_header = h, rq_body = body\<rparr> = Inr msg" "bytes_ok msg"
    using request_pack_ok [of h body] assms(8) by blast
  have "send_request op unit body d =
      (Inr (dv_rid d), d\<lparr>dv_rid := next_rid (dv_rid d), dv_out := dv_out d @ [wire_frame msg]\<rparr>)"
    using assms(1,2) msg wire_frame_ok [OF msg(2)]
    by (simp add: send_request_def bindS_ok [OF get_next_rid_eq] py_bytes_def h_def getS_def assertS_def
        modifyS_def retS_def)
  with msg show thesis by (rule that)
qed

text \<open>Sending a request writes exactly one frame from which the receiver side of the framing
  recovers the packed request; the id returned is the one in its header, and the id of the next
  request is another one in \<open>1..0xFFFF\<close>.\<close>

theorem request_on_the_wire:
  assumes "dv_tty d" and "dv_up d" and "rid_ok (dv_rid d)" and "op \<in> {0..255}" and "unit \<in> {0..255}"
    and "body_ok b" and "body_values_ok b"
  shows "\<exists>msg d'. send_body op unit b d = (Inr (dv_rid d), d') \<and>
     request_pack \<lparr>rq_header = \<lparr>hd_proto = 1, hd_rid = dv_rid d, hd_op = op, hd_unit = unit\<rparr>,
                   rq_body = Some b\<rparr> = Inr msg \<and>
     dv_out d' = dv_out d @ [wire_frame msg] \<and>
     next_message (wire_frame msg @ rest) = Some (msg, rest) \<and>
     header_unpack msg 0 = Inr \<lparr>hd_proto = 1, hd_rid = dv_rid d, hd_op = op, hd_unit = unit\<rparr> \<and>
     rid_ok (dv_rid d') \<and> dv_rid d' \<noteq> dv_rid d"
proof -
  let ?h = "\<lparr>hd_proto = 1, hd_rid = dv_rid d, hd_op = op, hd_unit = unit\<rparr>"
  obtain msg where msg: "request_pack \<lparr>rq_header = ?h, rq_body = Some b\<rparr> = Inr msg" "bytes_ok msg"
    and send: "send_request op unit (Some b) d =
      (Inr (dv_rid d), d\<lparr>dv_rid := next_rid (dv_rid d), dv_out := dv_out d @ [wire_frame msg]\<rparr>)"
    by (rule send_request_frame [of d op unit "Some b"]) (use assms in auto)
  obtain hb bb where "header_pack ?h = Inr hb" "msg = hb @ bb"
    using msg(1) by (auto simp: request_pack_def bindR_Inr_iff)
  then have "header_unpack msg 0 = Inr ?h" by (simp add: header_unpack_pack)
  moreover have "send_body op unit b d = send_request op unit (Some b) d"
    using assms(6) by (simp add: send_body_def body_init_def)
  ultimately show ?thesis
    using send msg serial.next_of_frame [OF msg(2), of rest] next_rid_ok [OF assms(3)] by simp
qed

theorem request_on_the_wire_witness:
  "\<exists>msg d'. send_body 8 0xF1 (BodyAtxClick 3 1 0xF0F2) device_open = (Inr (dv_rid device_open), d') \<and>
     request_pack \<lparr>rq_header = \<lparr>hd_proto = 1, hd_rid = dv_rid device_open, hd_op = 8, hd_unit = 0xF1\<rparr>,
                   rq_body = Some (BodyAtxClick 3 1 0xF0F2)\<rparr> = Inr msg \<and>
     dv_out d' = dv_out device_open @ [wire_frame msg] \<and>
     next_message (wire_frame msg @ [1]) = Some (msg, [1]) \<and>
     header_unpack msg 0 = Inr \<lparr>hd_proto = 1, hd_rid = dv_rid device_open, hd_op = 8, hd_unit = 0xF1\<rparr> \<and>
     rid_ok (dv_rid d') \<and> dv_rid d' \<noteq> dv_rid device_open"
  by (rule request_on_the_wire) (simp_all add: device_open_def device_init_def rid_ok_def body_values_ok_def)

end
