(* ===== verification/PyFloat.thy ===== *)
theory PyFloat
  imports Complex_Main "HOL-Library.Log_Nat"
begin

text \<open>
  Python's floats as the code uses them: a float is a rational number, the result of an
  arithmetic operation is the exact result rounded to 53 bits, to nearest with ties to even.
  Overflow and subnormal numbers do not occur in the values modelled here.  \<open>int(x)\<close> truncates.
\<close>

definition pow2 :: "int \<Rightarrow> rat" where
  "pow2 e = (if 0 \<le> e then 2 ^ nat e else 1 / 2 ^ nat (- e))"

definition flog2 :: "rat \<Rightarrow> int" where
  "flog2 x = (let (a, b) = quotient_of x; e = int (floorlog 2 (nat a)) - int (floorlog 2 (nat b))
     in if pow2 e \<le> x then e else e - 1)"

definition round_even :: "rat \<Rightarrow> int" where
  "round_even y = (let n = \<lfloor>y\<rfloor>; f = y - rat_of_int n in
     if f < 1 / 2 \<or> (f = 1 / 2 \<and> even n) then n else n + 1)"

definition fl64 :: "rat \<Rightarrow> rat" where
  "fl64 x = (if x = 0 then 0 else
     (let k = flog2 \<bar>x\<bar> - 52; m = rat_of_int (round_even (\<bar>x\<bar> / pow2 k)) * pow2 k
      in if x < 0 then - m else m))"

definition py_trunc :: "rat \<Rightarrow> int" where
  "py_trunc x = (if x < 0 then \<lceil>x\<rceil> else \<lfloor>x\<rfloor>)"

lemma pow2_pos [simp]: "0 < pow2 e"
  by (simp add: pow2_def)

lemma pow2_0 [simp]: "pow2 0 = 1"
  by (simp add: pow2_def)

lemma pow2_minus: "pow2 (- e) = 1 / pow2 e"
  by (simp add: pow2_def)

lemma round_even_ge: "rat_of_int n \<le> y \<Longrightarrow> n \<le> round_even y"
  by (auto simp: round_even_def Let_def le_floor_iff intro: order_trans [of n "\<lfloor>y\<rfloor>"])

lemma round_even_int [simp]: "round_even (rat_of_int n) = n"
  by (simp add: round_even_def)

lemma fl64_0 [simp]: "fl64 0 = 0"
  by (simp add: fl64_def)

text \<open>Rounding does not carry a value of at least one below one.\<close>

lemma pow2_flog2_le:
  assumes "0 < x"
  shows "pow2 (flog2 x) \<le> x"
proof -
  obtain a b where q: "quotient_of x = (a, b)" by (cases "quotient_of x")
  have b: "0 < b" using quotient_of_denom_pos [OF q] .
  have x: "x = rat_of_int a / rat_of_int b" using quotient_of_div [OF q] .
  have a: "0 < a" using assms b by (simp add: x zero_less_divide_iff)
  define la where "la = floorlog 2 (nat a)"
  define lb where "lb = floorlog 2 (nat b)"
  have la: "0 < la" "2 ^ (la - 1) \<le> nat a"
    using a floorlog_bounds [of "nat a" 2] by (auto simp: la_def floorlog_def)
  have lb: "nat b < 2 ^ lb"
    using b floorlog_bounds [of "nat b" 2] by (auto simp: lb_def)
  have "rat_of_int b \<le> 2 ^ lb" using lb b
    by (metis (mono_tags) less_imp_le nat_less_numeral_power_cancel_iff of_int_le_iff of_int_numeral of_int_power)
  moreover have "2 ^ (la - 1) \<le> rat_of_int a" using la(2) a
    by (metis (mono_tags) le_nat_iff less_imp_le of_int_le_iff of_int_numeral of_int_power of_nat_numeral of_nat_power)
  ultimately have "2 ^ (la - 1) / 2 ^ lb \<le> x"
    using a b unfolding x by (intro frac_le) auto
  moreover have "pow2 (int la - int lb - 1) = 2 ^ (la - 1) / 2 ^ lb"
  proof (cases "lb \<le> la - 1")
    case True
    then have "nat (int la - int lb - 1) = la - 1 - lb" "0 \<le> int la - int lb - 1"
      using la(1) by linarith+
    then have "pow2 (int la - int lb - 1) = 2 ^ (la - 1 - lb)" by (simp only: pow2_def if_True)
    moreover have "(2::rat) ^ (la - 1 - lb) = 2 ^ (la - 1) / 2 ^ lb" using True by (intro power_diff) auto
    ultimately show ?thesis by simp
  next
    case False
    then have "nat (- (int la - int lb - 1)) = lb - (la - 1)" "int la - int lb - 1 < 0"
      using la(1) by linarith+
    with False show ?thesis by (simp add: pow2_def power_diff)
  qed
  ultimately show ?thesis
    by (simp add: flog2_def q la_def [symmetric] lb_def [symmetric] Let_def)
qed

lemma fl64_ge_1:
  assumes "1 \<le> x"
  shows "1 \<le> fl64 x"
proof -
  define k where "k = flog2 x - 52"
  have fl: "fl64 x = rat_of_int (round_even (x / pow2 k)) * pow2 k"
    using assms by (simp add: fl64_def k_def Let_def)
  have up: "1 \<le> rat_of_int n * pow2 k \<Longrightarrow> rat_of_int n \<le> x / pow2 k \<Longrightarrow> 1 \<le> fl64 x" for n
  proof -
    assume n: "1 \<le> rat_of_int n * pow2 k" "rat_of_int n \<le> x / pow2 k"
    have "rat_of_int n * pow2 k \<le> rat_of_int (round_even (x / pow2 k)) * pow2 k"
      using round_even_ge [OF n(2)] by (intro mult_right_mono) (auto simp: less_imp_le)
    from order_trans [OF n(1) this] show ?thesis unfolding fl .
  qed
  show ?thesis
  proof (cases "k \<le> 0")
    case True
    then have "rat_of_int (2 ^ nat (- k)) = 1 / pow2 k" by (auto simp: pow2_def)
    with up [of "2 ^ nat (- k)"] show ?thesis
      using assms pow2_pos [of k] by (simp add: divide_right_mono less_imp_le less_imp_neq [symmetric])
  next
    case False
    then have "pow2 k \<le> pow2 (flog2 x)" by (auto simp: pow2_def k_def intro: power_increasing)
    also have "\<dots> \<le> x" using assms by (intro pow2_flog2_le) simp
    finally have "rat_of_int 1 \<le> x / pow2 k" by simp
    moreover have "1 \<le> pow2 k" using False by (simp add: pow2_def)
    ultimately show ?thesis by (intro up [of 1]) simp_all
  qed
qed

lemma fl64_nonneg: "0 \<le> x \<Longrightarrow> 0 \<le> fl64 x"
proof (cases "x = 0")
  case False
  assume "0 \<le> x"
  with False have "rat_of_int 0 \<le> x / pow2 (flog2 \<bar>x\<bar> - 52)" by (simp add: less_imp_le)
  then have "0 \<le> round_even (x / pow2 (flog2 \<bar>x\<bar> - 52))" by (rule round_even_ge)
  with False \<open>0 \<le> x\<close> show ?thesis by (simp add: fl64_def Let_def less_imp_le)
qed simp

text \<open>The rounding error is at most one part in \<open>2 ^ 53\<close>.\<close>

lemma pow2_powi: "pow2 e = 2 powi e"
  by (simp add: pow2_def power_int_def inverse_eq_divide power_one_over)

lemma round_even_le: "rat_of_int (round_even y) \<le> y + 1 / 2"
proof -
  have "rat_of_int \<lfloor>y\<rfloor> \<le> y + 1 / 2" by (rule order_trans [OF of_int_floor_le]) simp
  then show ?thesis by (auto simp: round_even_def Let_def)
qed

lemma fl64_upper:
  assumes "0 < x"
  shows "fl64 x \<le> x + x / 2 ^ 53"
proof -
  define k where "k = flog2 x - 52"
  have fl: "fl64 x = rat_of_int (round_even (x / pow2 k)) * pow2 k"
    using assms by (simp add: fl64_def k_def Let_def)
  also have "\<dots> \<le> (x / pow2 k + 1 / 2) * pow2 k"
    by (intro mult_right_mono round_even_le less_imp_le pow2_pos)
  also have "\<dots> = x + pow2 k / 2"
    using less_imp_neq [OF pow2_pos [of k]] by (simp add: field_simps)
  also have "pow2 k = pow2 (flog2 x) / 2 ^ 52"
    by (simp add: pow2_powi k_def power_int_diff)
  also have "x + pow2 (flog2 x) / 2 ^ 52 / 2 \<le> x + x / 2 ^ 53"
    using pow2_flog2_le [OF assms] by simp
  finally show ?thesis .
qed

lemma py_trunc_ge: "0 \<le> n \<Longrightarrow> rat_of_int n \<le> x \<Longrightarrow> n \<le> py_trunc x"
  by (auto simp: py_trunc_def le_floor_iff)

lemma py_trunc_nonneg: "0 \<le> x \<Longrightarrow> py_trunc x = \<lfloor>x\<rfloor>"
  by (simp add: py_trunc_def)

end
