(* ===== verification/SwitchChain.thy ===== *)
theory SwitchChain
  imports SwitchDevice PyFloat
begin

text \<open>
  The controller of the switch chain (\<open>kvmd/apps/kvmd/switch/chain.py\<close>): a process that keeps
  what the units report, executes the commands of the daemon and brings the units to the
  configured state.  The queues of the two processes are lists in its state, the clock is an
  argument of the operations that read it.
\<close>

section \<open>Commands, events and the context of a unit\<close>

datatype cmd =
    CmdSetActual bool
  | CmdSetActivePrev
  | CmdSetActiveNext
  | CmdSetActivePort int
  | CmdSetPortBeacon int bool
  | CmdSetUnitBeacon int bool bool
  | CmdSetEdids edids
  | CmdSetDummies "bool ports_dict"
  | CmdSetColors colors
  | CmdAtxClick int delay bool "bool option"
  | CmdRebootUnit int bool

text \<open>The literals \<open>0.001\<close> and \<open>0xFFFF / 1000\<close> as the floats they are.\<close>

definition flt_0_001 :: rat where "flt_0_001 = fl64 (1 / 1000)"
definition flt_65_535 :: rat where "flt_65_535 = fl64 (0xFFFF / 1000)"

fun cmd_ok :: "cmd \<Rightarrow> bool" where
  "cmd_ok (CmdSetActivePort port) = (0 \<le> port)"
| "cmd_ok (CmdAtxClick port delay reset if_powered) =
     (0 \<le> port \<and> flt_0_001 \<le> delay \<and> delay \<le> flt_65_535)"
| "cmd_ok (CmdRebootUnit unit bootloader) = (0 \<le> unit)"
| "cmd_ok _ = True"

definition cmd_init :: "cmd \<Rightarrow> cmd result" where
  "cmd_init c = assertR (cmd_ok c) (Inr c)"

datatype event =
    DeviceFoundEvent
  | ChainTruncatedEvent int
  | PortActivatedEvent int
  | UnitStateEvent int unit_state
  | UnitAtxLedsEvent int unit_atx_leds

record unit_context =
  uc_state :: "unit_state option"
  uc_atx_leds :: "unit_atx_leds option"
  uc_rid :: int
  uc_deadline_ts :: rat

definition unit_context_init :: unit_context where
  "unit_context_init = \<lparr>uc_state = None, uc_atx_leds = None, uc_rid = -1, uc_deadline_ts = -1\<rparr>"

definition unit_timeout :: rat where
  "unit_timeout = 5"

definition get_changing_rid :: "rat \<Rightarrow> unit_context \<Rightarrow> int \<times> unit_context" where
  "get_changing_rid now c =
     (let c' = (if uc_deadline_ts c \<ge> 0 \<and> uc_deadline_ts c < now
                then c\<lparr>uc_rid := -1, uc_deadline_ts := -1\<rparr> else c)
      in (uc_rid c', c'))"

definition set_changing_rid :: "rat \<Rightarrow> int \<Rightarrow> unit_context \<Rightarrow> unit_context" where
  "set_changing_rid now rid c =
     c\<lparr>uc_rid := rid, uc_deadline_ts := (if rid \<ge> 0 then fl64 (now + unit_timeout) else -1)\<rparr>"

definition can_be_changed :: "rat \<Rightarrow> unit_context \<Rightarrow> bool \<times> unit_context" where
  "can_be_changed now c = (case uc_state c of
       None \<Rightarrow> (False, c)
     | Some s \<Rightarrow> if uf_changing_busy (us_flags s) then (False, c)
         else (let (rid, c') = get_changing_rid now c in (rid < 0, c')))"

definition is_atx_allowed :: "unit_context \<Rightarrow> int \<Rightarrow> (bool \<times> bool) result" where
  "is_atx_allowed c ch = (case (uc_state c, uc_atx_leds c) of
       (Some s, Some leds) \<Rightarrow> bindR (py_get (us_atx_busy s) ch) (\<lambda>busy.
         bindR (py_get (al_power leds) ch) (\<lambda>power_led. Inr (\<not> busy, power_led)))
     | _ \<Rightarrow> Inr (False, False))"

section \<open>Ports, units and channels\<close>

definition get_real_unit_channel :: "int \<Rightarrow> int \<times> int" where
  "get_real_unit_channel port = (port div 4, port mod 4)"

definition get_unit_target_channel :: "int \<Rightarrow> int \<Rightarrow> int" where
  "get_unit_target_channel unit port =
     (let (t_unit, t_ch) = get_real_unit_channel port in if unit \<noteq> t_unit then 4 else t_ch)"

definition get_virtual_port :: "int \<Rightarrow> int \<Rightarrow> int" where
  "get_virtual_port unit ch = unit * 4 + ch"

text \<open>
  A port number given as a float: its value, and the text \<open>str\<close> prints for it.  \<open>1.1\<close> is
  channel 1 of unit 1.  The fields of that text are decimal digits.
\<close>

record py_float =
  pf_value :: rat
  pf_str :: string

fun split_dot :: "string \<Rightarrow> string list" where
  "split_dot [] = [[]]"
| "split_dot (c # cs) = (if c = CHR ''.'' then [] # split_dot cs
     else (case split_dot cs of [] \<Rightarrow> [[c]] | w # ws \<Rightarrow> (c # w) # ws))"

definition digit_val :: "char \<Rightarrow> int option" where
  "digit_val c = (let n = int (of_char c) in if 48 \<le> n \<and> n \<le> 57 then Some (n - 48) else None)"

fun digits_value :: "int \<Rightarrow> string \<Rightarrow> int option" where
  "digits_value acc [] = Some acc"
| "digits_value acc (c # cs) = (case digit_val c of None \<Rightarrow> None
     | Some d \<Rightarrow> digits_value (10 * acc + d) cs)"

definition parse_digits :: "string \<Rightarrow> int result" where
  "parse_digits s = (if s = [] then Inl ValueError
     else (case digits_value 0 s of None \<Rightarrow> Inl ValueError | Some n \<Rightarrow> Inr n))"

definition translate_port :: "py_float \<Rightarrow> int result" where
  "translate_port port = assertR (0 \<le> pf_value port)
     (if rat_of_int (py_trunc (pf_value port)) = pf_value port then Inr (py_trunc (pf_value port))
      else bindR (mapR parse_digits (split_dot (pf_str port))) (\<lambda>parts. case parts of
          [unit, ch] \<Rightarrow>
            (let unit = min (max unit 1) 5; ch = min (max ch 1) 4
             in Inr (min ((unit - 1) * 4 + (ch - 1)) 19))
        | _ \<Rightarrow> Inl ValueError))"

section \<open>The chain\<close>

record chain =
  cn_device :: device
  cn_ignore_hpd_on_top :: bool
  cn_actual :: bool
  cn_edids :: edids
  cn_dummies :: "bool ports_dict"
  cn_colors :: colors
  cn_units :: "unit_context list"
  cn_active_port :: int
  cn_cmd_q :: "cmd list"
  cn_events_q :: "event list"
  cn_stop :: bool

definition chain_init :: "int \<Rightarrow> bool \<Rightarrow> chain result" where
  "chain_init seed ignore_hpd_on_top = bindR colors_default (\<lambda>colors.
     Inr \<lparr>cn_device = device_init seed, cn_ignore_hpd_on_top = ignore_hpd_on_top, cn_actual = False,
          cn_edids = mk_edids [] [], cn_dummies = dummies [], cn_colors = colors, cn_units = [],
          cn_active_port = -1, cn_cmd_q = [], cn_events_q = [], cn_stop = False\<rparr>)"

definition queue_cmd :: "cmd \<Rightarrow> (chain, unit) sm" where
  "queue_cmd cmd = bindS (liftS (cmd_init cmd)) (\<lambda>cmd.
     getS (\<lambda>s. whenS (\<not> cn_stop s) (modifyS (\<lambda>s. s\<lparr>cn_cmd_q := cn_cmd_q s @ [cmd]\<rparr>))))"

definition queue_event :: "event \<Rightarrow> (chain, unit) sm" where
  "queue_event ev = getS (\<lambda>s. whenS (\<not> cn_stop s) (modifyS (\<lambda>s. s\<lparr>cn_events_q := cn_events_q s @ [ev]\<rparr>)))"

text \<open>The methods the daemon calls: each puts one command in the queue.\<close>

definition chain_set_actual :: "bool \<Rightarrow> (chain, unit) sm" where
  "chain_set_actual actual = queue_cmd (CmdSetActual actual)"

definition chain_set_active_prev :: "(chain, unit) sm" where
  "chain_set_active_prev = queue_cmd CmdSetActivePrev"

definition chain_set_active_next :: "(chain, unit) sm" where
  "chain_set_active_next = queue_cmd CmdSetActiveNext"

definition chain_set_active_port :: "int \<Rightarrow> (chain, unit) sm" where
  "chain_set_active_port port = queue_cmd (CmdSetActivePort port)"

definition chain_set_port_beacon :: "int \<Rightarrow> bool \<Rightarrow> (chain, unit) sm" where
  "chain_set_port_beacon port on = queue_cmd (CmdSetPortBeacon port on)"

definition chain_set_uplink_beacon :: "int \<Rightarrow> bool \<Rightarrow> (chain, unit) sm" where
  "chain_set_uplink_beacon unit on = queue_cmd (CmdSetUnitBeacon unit on False)"

definition chain_set_downlink_beacon :: "int \<Rightarrow> bool \<Rightarrow> (chain, unit) sm" where
  "chain_set_downlink_beacon unit on = queue_cmd (CmdSetUnitBeacon unit on True)"

definition chain_set_edids :: "edids \<Rightarrow> (chain, unit) sm" where
  "chain_set_edids es = queue_cmd (CmdSetEdids es)"

definition chain_set_dummies :: "bool ports_dict \<Rightarrow> (chain, unit) sm" where
  "chain_set_dummies ds = queue_cmd (CmdSetDummies ds)"

definition chain_set_colors :: "colors \<Rightarrow> (chain, unit) sm" where
  "chain_set_colors cs = queue_cmd (CmdSetColors cs)"

definition chain_click_power :: "int \<Rightarrow> delay \<Rightarrow> bool option \<Rightarrow> (chain, unit) sm" where
  "chain_click_power port delay if_powered = queue_cmd (CmdAtxClick port delay False if_powered)"

definition chain_click_reset :: "int \<Rightarrow> delay \<Rightarrow> bool option \<Rightarrow> (chain, unit) sm" where
  "chain_click_reset port delay if_powered = queue_cmd (CmdAtxClick port delay True if_powered)"

definition chain_reboot_unit :: "int \<Rightarrow> bool \<Rightarrow> (chain, unit) sm" where
  "chain_reboot_unit unit bootloader = queue_cmd (CmdRebootUnit unit bootloader)"

text \<open>A request of the device, and an update of the context of unit \<open>i\<close>.\<close>

definition dev :: "(device, 'a) sm \<Rightarrow> (chain, 'a) sm" where
  "dev m s = (let (r, d) = m (cn_device s) in (r, s\<lparr>cn_device := d\<rparr>))"

definition devU :: "(device, int) sm \<Rightarrow> (chain, unit) sm" where
  "devU m = bindS (dev m) (\<lambda>_. retS ())"

definition set_unit :: "nat \<Rightarrow> unit_context \<Rightarrow> (chain, unit) sm" where
  "set_unit i c = modifyS (\<lambda>s. s\<lparr>cn_units := (cn_units s)[i := c]\<rparr>)"

subsection \<open>Commands\<close>

definition activate :: "int \<Rightarrow> (chain, unit) sm" where
  "activate port = bindS (modifyS (\<lambda>s. s\<lparr>cn_active_port := port\<rparr>)) (\<lambda>_. queue_event (PortActivatedEvent port))"

definition exec_cmd :: "cmd \<Rightarrow> (chain, unit) sm" where
  "exec_cmd cmd = getS (\<lambda>s. case cmd of
       CmdSetActual actual \<Rightarrow> modifyS (\<lambda>s. s\<lparr>cn_actual := actual\<rparr>)
     | CmdSetActivePrev \<Rightarrow>
         whenS (length (cn_units s) > 0)
           (let port = cn_active_port s - 1 in whenS (port \<ge> 0) (activate port))
     | CmdSetActiveNext \<Rightarrow>
         (let port = (if cn_active_port s < 0 then 0 else cn_active_port s + 1)
          in whenS (port < int (length (cn_units s)) * 4) (activate port))
     | CmdSetActivePort port \<Rightarrow> whenS (port < int (length (cn_units s)) * 4) (activate port)
     | CmdSetPortBeacon port on \<Rightarrow>
         (let (unit, ch) = get_real_unit_channel port in devU (request_beacon unit ch on))
     | CmdSetUnitBeacon unit on downlink \<Rightarrow> devU (request_beacon unit (if downlink then 4 else 5) on)
     | CmdAtxClick port delay reset if_powered \<Rightarrow>
         (let (unit, ch) = get_real_unit_channel port in
          whenS (unit < int (length (cn_units s)))
            (bindS (liftS (py_get (cn_units s) unit)) (\<lambda>ctx.
             bindS (liftS (is_atx_allowed ctx ch)) (\<lambda>(allowed, powered).
             whenS (allowed \<and> (if_powered = None \<or> if_powered = Some powered))
               (let delay_ms = min (py_trunc (fl64 (delay * 1000))) 0xFFFF in
                if reset then devU (request_atx_cr unit ch delay_ms)
                else devU (request_atx_cp unit ch delay_ms))))))
     | CmdSetEdids es \<Rightarrow> modifyS (\<lambda>s. s\<lparr>cn_edids := es\<rparr>)
     | CmdSetDummies ds \<Rightarrow> modifyS (\<lambda>s. s\<lparr>cn_dummies := ds\<rparr>)
     | CmdSetColors cs \<Rightarrow> modifyS (\<lambda>s. s\<lparr>cn_colors := cs\<rparr>)
     | CmdRebootUnit unit bootloader \<Rightarrow> devU (request_reboot unit bootloader))"

text \<open>
  Executing a command queues no command, so the loop over the queue runs once for each
  command that is in it.  A command that raises has been taken from the queue.
\<close>

fun consume_list :: "cmd list \<Rightarrow> (chain, unit) sm" where
  "consume_list [] = modifyS (\<lambda>s. s\<lparr>cn_cmd_q := []\<rparr>)"
| "consume_list (cmd # q) =
     bindS (modifyS (\<lambda>s. s\<lparr>cn_cmd_q := q\<rparr>)) (\<lambda>_. bindS (exec_cmd cmd) (\<lambda>_. consume_list q))"

definition consume_commands :: "(chain, unit) sm" where
  "consume_commands = getS (\<lambda>s. consume_list (cn_cmd_q s))"

subsection \<open>Responses\<close>

definition extend_units :: "int \<Rightarrow> unit_context list \<Rightarrow> unit_context list" where
  "extend_units units us = us @ replicate (nat units - length us) unit_context_init"

definition update_units :: "response \<Rightarrow> (chain, unit) sm" where
  "update_units resp = (let unit = hd_unit (rs_header resp); units = unit + 1 in
     bindS (modifyS (\<lambda>s. s\<lparr>cn_units := extend_units units (cn_units s)\<rparr>)) (\<lambda>_.
     case rs_body resp of
       RNak _ \<Rightarrow> retS ()
     | RState st \<Rightarrow> getS (\<lambda>s.
         bindS (whenS (\<not> uf_has_downlink (us_flags st) \<and> int (length (cn_units s)) > units)
           (bindS (modifyS (\<lambda>s. s\<lparr>cn_units := take (nat units) (cn_units s)\<rparr>)) (\<lambda>_.
            queue_event (ChainTruncatedEvent units)))) (\<lambda>_.
         getS (\<lambda>s. bindS (set_unit (nat unit) ((cn_units s ! nat unit)\<lparr>uc_state := Some st\<rparr>)) (\<lambda>_.
         queue_event (UnitStateEvent unit st)))))
     | RAtxLeds leds \<Rightarrow> getS (\<lambda>s.
         bindS (set_unit (nat unit) ((cn_units s ! nat unit)\<lparr>uc_atx_leds := Some leds\<rparr>)) (\<lambda>_.
         queue_event (UnitAtxLedsEvent unit leds)))))"

definition adjust_quirks :: "(chain, unit) sm" where
  "adjust_quirks = getS (\<lambda>s. forS (enumerate 0 (cn_units s)) (\<lambda>(unit, ctx). case uc_state ctx of
       None \<Rightarrow> retS ()
     | Some st \<Rightarrow> whenS (is_fresh (us_version st) 7)
         (let ignore_hpd = (unit = 0 \<and> cn_ignore_hpd_on_top s)
          in whenS (us_ignore_hpd st \<noteq> ignore_hpd) (devU (request_set_quirks (int unit) ignore_hpd)))))"

fun start_port_loop :: "(nat \<times> unit_context) list \<Rightarrow> (chain, unit) sm" where
  "start_port_loop [] = retS ()"
| "start_port_loop ((unit, ctx) # rest) = (case uc_state ctx of
       None \<Rightarrow> start_port_loop rest
     | Some st \<Rightarrow> if us_ch st < 4 then chain_set_active_port (get_virtual_port (int unit) (us_ch st))
         else start_port_loop rest)"

definition adjust_start_port :: "(chain, unit) sm" where
  "adjust_start_port = getS (\<lambda>s. whenS (cn_active_port s < 0) (start_port_loop (enumerate 0 (cn_units s))))"

definition finish_changing_request :: "rat \<Rightarrow> response \<Rightarrow> (chain, unit) sm" where
  "finish_changing_request now resp = getS (\<lambda>s.
     bindS (liftS (py_get (cn_units s) (hd_unit (rs_header resp)))) (\<lambda>ctx.
     let (rid, ctx) = get_changing_rid now ctx
     in set_unit (nat (hd_unit (rs_header resp)))
          (if rid = hd_rid (rs_header resp) then set_changing_rid now (-1) ctx else ctx)))"

definition handle_response :: "rat \<Rightarrow> response \<Rightarrow> (chain, unit) sm" where
  "handle_response now resp = bindS (update_units resp) (\<lambda>_. bindS adjust_quirks (\<lambda>_.
     bindS adjust_start_port (\<lambda>_. finish_changing_request now resp)))"

subsection \<open>Bringing the units to the configured state\<close>

text \<open>\<open>ctx.can_be_changed()\<close> of unit \<open>i\<close>, which may clear an expired request.\<close>

definition unit_can_be_changed :: "rat \<Rightarrow> nat \<Rightarrow> (chain, bool) sm" where
  "unit_can_be_changed now i = getS (\<lambda>s. let (b, ctx) = can_be_changed now (cn_units s ! i)
     in bindS (set_unit i ctx) (\<lambda>_. retS b))"

definition start_changing :: "rat \<Rightarrow> nat \<Rightarrow> (device, int) sm \<Rightarrow> (chain, unit) sm" where
  "start_changing now i m = bindS (dev m) (\<lambda>rid.
     getS (\<lambda>s. set_unit i (set_changing_rid now rid (cn_units s ! i))))"

definition ensure_config_port :: "rat \<Rightarrow> nat \<Rightarrow> unit_state \<Rightarrow> (chain, unit) sm" where
  "ensure_config_port now i st = getS (\<lambda>s. whenS (cn_active_port s \<ge> 0)
     (bindS (unit_can_be_changed now i) (\<lambda>can. whenS can
       (let ch = get_unit_target_channel (int i) (cn_active_port s)
        in whenS (us_ch st \<noteq> ch) (start_changing now i (request_switch (int i) ch))))))"

fun edids_loop :: "rat \<Rightarrow> nat \<Rightarrow> unit_state \<Rightarrow> int list \<Rightarrow> (chain, unit) sm" where
  "edids_loop now i st [] = retS ()"
| "edids_loop now i st (ch # chs) = getS (\<lambda>s.
     bindS (liftS (edids_get_edid_for_port (cn_edids s) (get_virtual_port (int i) ch))) (\<lambda>edid.
     bindS (liftS (compare_edid st ch (Some edid))) (\<lambda>same.
     if \<not> same then start_changing now i (request_set_edid (int i) ch edid)
     else edids_loop now i st chs)))"

definition ensure_config_edids :: "rat \<Rightarrow> nat \<Rightarrow> unit_state \<Rightarrow> (chain, unit) sm" where
  "ensure_config_edids now i st = getS (\<lambda>s. assertS (cn_actual s)
     (bindS (unit_can_be_changed now i) (\<lambda>can. whenS can (edids_loop now i st [0, 1, 2, 3]))))"

fun dummies_loop :: "rat \<Rightarrow> nat \<Rightarrow> unit_state \<Rightarrow> int list \<Rightarrow> (chain, unit) sm" where
  "dummies_loop now i st [] = retS ()"
| "dummies_loop now i st (ch # chs) = getS (\<lambda>s.
     let dummy = pd_get (cn_dummies s) (get_virtual_port (int i) ch) in
     bindS (liftS (py_get (us_video_dummies st) ch)) (\<lambda>cur.
     if cur \<noteq> dummy then start_changing now i (request_set_dummy (int i) ch dummy)
     else dummies_loop now i st chs))"

definition ensure_config_dummies :: "rat \<Rightarrow> nat \<Rightarrow> unit_state \<Rightarrow> (chain, unit) sm" where
  "ensure_config_dummies now i st = whenS (is_fresh (us_version st) 8)
     (bindS (unit_can_be_changed now i) (\<lambda>can. whenS can (dummies_loop now i st [0, 1, 2, 3])))"

definition ensure_config_colors :: "nat \<Rightarrow> unit_state \<Rightarrow> (chain, unit) sm" where
  "ensure_config_colors i st = getS (\<lambda>s. assertS (cn_actual s)
     (forS [0, 1, 2, 3, 4, 5] (\<lambda>np.
       bindS (liftS (py_get (us_np_crc st) np)) (\<lambda>crc.
       whenS (cs_crc (cn_colors s) \<noteq> crc) (devU (request_set_colors (int i) np (cn_colors s)))))))"

text \<open>
  \<open>clk i k\<close> is the time read in step \<open>k\<close> (port, EDIDs, dummies) of the pass over unit \<open>i\<close>.
\<close>

definition ensure_config_unit :: "(nat \<Rightarrow> nat \<Rightarrow> rat) \<Rightarrow> nat \<Rightarrow> (chain, unit) sm" where
  "ensure_config_unit clk i = getS (\<lambda>s. case uc_state (cn_units s ! i) of
       None \<Rightarrow> retS ()
     | Some st \<Rightarrow> bindS (ensure_config_port (clk i 0) i st) (\<lambda>_.
         whenS (cn_actual s)
           (bindS (ensure_config_edids (clk i 1) i st) (\<lambda>_.
            bindS (ensure_config_dummies (clk i 2) i st) (\<lambda>_.
            ensure_config_colors i st)))))"

definition ensure_config :: "(nat \<Rightarrow> nat \<Rightarrow> rat) \<Rightarrow> (chain, unit) sm" where
  "ensure_config clk = getS (\<lambda>s. forS [0..<length (cn_units s)] (ensure_config_unit clk))"

subsection \<open>The main loop\<close>

text \<open>
  \<open>select\<close> reports whether the serial port or the command queue has something to read; it waits
  at most a second.  An iteration is given the clock; \<open>count\<close> is the loop's counter of idle
  iterations.
\<close>

definition select_ready :: "(chain, bool) sm" where
  "select_ready = getS (\<lambda>s. if dv_tty (cn_device s) \<and> dv_up (cn_device s)
     then retS (dv_in (cn_device s) \<noteq> [] \<or> cn_cmd_q s \<noteq> []) else raiseS DeviceError)"

definition main_loop_step :: "rat \<Rightarrow> (nat \<Rightarrow> nat \<Rightarrow> rat) \<Rightarrow> nat \<Rightarrow> (chain, nat) sm" where
  "main_loop_step now clk count_in =
     (let count = 0 in
      bindS select_ready (\<lambda>ready.
      bindS (if ready then
               bindS (dev read_all) (\<lambda>resps.
               bindS (forS resps (handle_response now)) (\<lambda>_.
               bindS consume_commands (\<lambda>_. retS 0)))
             else
               (let count = count + 1 in
                if count \<ge> 5 then bindS (devU request_state) (\<lambda>_. retS 0) else retS count)) (\<lambda>count.
      bindS (ensure_config clk) (\<lambda>_. retS count))))"

text \<open>What happens between two iterations: bytes arrive, the daemon queues commands or stops.\<close>

record tick =
  tk_data :: bytes
  tk_cmds :: "cmd list"
  tk_stop :: bool
  tk_now :: rat
  tk_clk :: "nat \<Rightarrow> nat \<Rightarrow> rat"

definition environment :: "tick \<Rightarrow> chain \<Rightarrow> chain" where
  "environment t s = s\<lparr>cn_device := (cn_device s)\<lparr>dv_in := dv_in (cn_device s) @ tk_data t\<rparr>,
     cn_cmd_q := cn_cmd_q s @ tk_cmds t, cn_stop := cn_stop s \<or> tk_stop t\<rparr>"

fun main_loop_ticks :: "nat \<Rightarrow> tick list \<Rightarrow> (chain, unit) sm" where
  "main_loop_ticks count [] = retS ()"
| "main_loop_ticks count (t # ts) = bindS (modifyS (environment t)) (\<lambda>_. getS (\<lambda>s.
     if cn_stop s then retS ()
     else bindS (main_loop_step (tk_now t) (tk_clk t) count) (\<lambda>count. main_loop_ticks count ts)))"

definition main_loop :: "tick list \<Rightarrow> (chain, unit) sm" where
  "main_loop ts = bindS (devU request_state) (\<lambda>_. bindS (devU request_atx_leds) (\<lambda>_. main_loop_ticks 0 ts))"

text \<open>
  One round of the outer loop: \<open>present\<close> says whether the device file exists, the flag whether
  its absence has been reported.  Exceptions are logged; the commands left in the queue are
  dropped.
\<close>

definition subprocess_round :: "bool \<Rightarrow> tick list \<Rightarrow> bool \<Rightarrow> chain \<Rightarrow> bool \<times> chain" where
  "subprocess_round present ts no_device_reported s =
     (if present then
        (let s1 = snd (bindS (dev device_enter) (\<lambda>_. bindS (queue_event DeviceFoundEvent) (\<lambda>_. main_loop ts)) s)
         in (False, s1\<lparr>cn_device := device_exit (cn_device s1), cn_cmd_q := []\<rparr>))
      else if \<not> no_device_reported then (True, (snd (queue_event (ChainTruncatedEvent 0) s))\<lparr>cn_cmd_q := []\<rparr>)
      else (no_device_reported, s\<lparr>cn_cmd_q := []\<rparr>))"

end
