(* ===== verification/SwitchChainSafe.thy ===== *)
theory SwitchChainSafe
  imports SwitchChain
begin

text \<open>
  The invariant of the chain controller, and what its main loop guarantees: an iteration on a
  working port never raises, requests are sent one at a time, and a unit is left alone exactly
  when it is in the configured state.
\<close>

section \<open>Decoded values are in range\<close>

fun fields_ok :: "field list \<Rightarrow> int list \<Rightarrow> bool" where
  "fields_ok [] vs = (vs = [])"
| "fields_ok (FX n # fs) vs = fields_ok fs vs"
| "fields_ok (FU n # fs) (v # vs) = ((0 \<le> v \<and> v < 256 ^ n) \<and> fields_ok fs vs)"
| "fields_ok (FS n # fs) (v # vs) = fields_ok fs vs"
| "fields_ok fs [] = False"

lemma unpack_fields_ok:
  "bytes_ok bs \<Longrightarrow> calcsize fs \<le> length bs \<Longrightarrow> fields_ok fs (unpack_fields e fs bs)"
proof (induction e fs bs rule: unpack_fields.induct)
  case (3 e n fs bs)
  then show ?case using get_int_bounds [of "take n bs" e] by simp
qed simp_all

lemma unpack_from_ok: "unpack_from e fs bs off = Inr vs \<Longrightarrow> bytes_ok bs \<Longrightarrow> fields_ok fs vs"
  by (auto simp: unpack_from_def split: if_splits intro!: unpack_fields_ok)

lemma unit_state_unpack_ok:
  assumes "unit_state_unpack data off = Inr s" and "bytes_ok data"
  shows "unit_state_ok s"
proof -
  obtain vs where vs: "unpack_from LE unit_state_fmt data off = Inr vs"
    using assms(1) by (auto simp: unit_state_unpack_def bindR_Inr_iff)
  from unpack_from_ok [OF this assms(2)] have ok: "fields_ok unit_state_fmt vs" .
  have len: "length vs = 22"
    using vs by (auto simp: unpack_from_def unit_state_fmt_def split: if_splits)
  obtain a1 a2 a3 a4 a5 a6 a7 a8 a9 a10 a11 a12 a13 a14 a15 a16 a17 a18 a19 a20 a21 a22
    where v: "vs = [a1, a2, a3, a4, a5, a6, a7, a8, a9, a10, a11, a12, a13, a14, a15, a16, a17, a18, a19, a20, a21, a22]"
    using len by (auto simp: length_Suc_conv numeral_eq_Suc)
  show ?thesis
    using assms(1) ok unfolding v unit_state_unpack_def vs [unfolded v]
    by (clarsimp simp: unit_state_fmt_def unit_state_ok_def is_u16_def bits_simps
        make_flags4_def make_flags5_def make_flags6_def)
qed

definition leds_ok :: "unit_atx_leds \<Rightarrow> bool" where
  [wf_simps]: "leds_ok l = (length (al_power l) = 4 \<and> length (al_hdd l) = 4)"

definition resp_ok :: "response \<Rightarrow> bool" where
  [wf_simps]: "resp_ok r = ((0 \<le> hd_unit (rs_header r) \<and> hd_unit (rs_header r) < 256) \<and>
     (case rs_body r of RNak _ \<Rightarrow> True | RState s \<Rightarrow> unit_state_ok s | RAtxLeds l \<Rightarrow> leds_ok l))"

lemma unit_atx_leds_unpack_ok: "unit_atx_leds_unpack data off = Inr l \<Longrightarrow> leds_ok l"
  by (auto simp: unit_atx_leds_unpack_def leds_ok_def bindR_def split: sum.splits list.splits)

lemma response_unpack_ok: "response_unpack msg = Inr (Some r) \<Longrightarrow> bytes_ok msg \<Longrightarrow> resp_ok r"
  by (auto simp: response_unpack_def bindR_Inr_iff resp_ok_def header_ok_def
      dest: header_unpack_ok unit_state_unpack_ok unit_atx_leds_unpack_ok split: if_splits)

lemma unescape_loop_ok: "bytes_ok m \<Longrightarrow> bytes_ok (unescape_loop esc m)"
proof (induction esc m rule: unescape_loop.induct)
  case (2 esc ch m)
  then show ?case using xor_bound [of ch 8 255] by auto
qed simp

lemma unescape_ok: "bytes_ok m \<Longrightarrow> bytes_ok (unescape m)"
  by (simp add: unescape_def unescape_loop_ok)

lemma next_frame_ok: "next_frame buf = Some (m, rest) \<Longrightarrow> bytes_ok buf \<Longrightarrow> bytes_ok m \<and> bytes_ok rest"
  by (auto simp: next_frame_def Let_def py_slice_def split: option.splits if_splits)

lemma read_loop_ok:
  "bytes_ok buf \<Longrightarrow> bytes_ok (snd (read_loop buf)) \<and>
     (\<forall>rs. fst (read_loop buf) = Inr rs \<longrightarrow> list_all resp_ok rs)"
proof (induction buf rule: read_loop.induct)
  case (1 buf)
  show ?case
  proof (cases "next_frame buf")
    case None
    then show ?thesis using 1(2) by (simp add: read_loop.simps [of buf])
  next
    case (Some mr)
    obtain m rest where mr: "mr = (m, rest)" by (cases mr)
    note ok = next_frame_ok [OF Some [unfolded mr] 1(2)]
    show ?thesis
    proof (cases "response_unpack (unescape m)")
      case (Inl e)
      then show ?thesis using Some mr ok by (simp add: read_loop.simps [of buf])
    next
      case (Inr r)
      from 1(1) [OF Some mr [symmetric] Inr] ok have IH: "bytes_ok (snd (read_loop rest)) \<and>
         (\<forall>rs. fst (read_loop rest) = Inr rs \<longrightarrow> list_all resp_ok rs)" by simp
      have "r = Some x \<Longrightarrow> resp_ok x" for x
        using Inr response_unpack_ok unescape_ok ok by blast
      with IH Some mr Inr show ?thesis
        by (subst (1 2) read_loop.simps) (auto simp: case_prod_beta bindR_Inr_iff split: option.splits)
    qed
  qed
qed

section \<open>The device\<close>

definition dev_ok :: "device \<Rightarrow> bool" where
  [wf_simps]: "dev_ok d = (dv_tty d \<and> dv_up d \<and> rid_ok (dv_rid d) \<and> bytes_ok (dv_buf d) \<and> bytes_ok (dv_in d))"

lemma send_request_works:
  assumes "0 \<le> op" "op < 256" "0 \<le> unit" "unit < 256"
    and "\<And>b. body = Some b \<Longrightarrow> body_ok b \<and> body_values_ok b"
  shows "works dev_ok (send_request op unit body) rid_ok"
  unfolding works_def
proof (intro allI impI)
  fix d
  assume ok: "dev_ok d"
  then obtain msg where "send_request op unit body d =
      (Inr (dv_rid d), d\<lparr>dv_rid := next_rid (dv_rid d), dv_out := dv_out d @ [wire_frame msg]\<rparr>)"
    using send_request_frame [of d op unit body] assms by (auto simp: dev_ok_def)
  with ok next_rid_ok [of "dv_rid d"] show "\<exists>a t. send_request op unit body d = (Inr a, t) \<and> dev_ok t \<and> rid_ok a"
    by (simp add: dev_ok_def)
qed

lemma send_body_works:
  "body_ok b \<Longrightarrow> body_values_ok b \<Longrightarrow> 0 \<le> op \<Longrightarrow> op < 256 \<Longrightarrow> 0 \<le> unit \<Longrightarrow> unit < 256 \<Longrightarrow>
     works dev_ok (send_body op unit b) rid_ok"
  by (auto simp: send_body_def body_init_def intro!: send_request_works)

lemma requests_work:
  assumes "0 \<le> unit" "unit < 256"
  shows "works dev_ok (request_reboot unit bl) rid_ok"
    and "0 \<le> ch \<Longrightarrow> ch \<le> 4 \<Longrightarrow> works dev_ok (request_switch unit ch) rid_ok"
    and "0 \<le> ch \<Longrightarrow> ch \<le> 5 \<Longrightarrow> works dev_ok (request_beacon unit ch on) rid_ok"
    and "0 \<le> ch \<Longrightarrow> ch \<le> 3 \<Longrightarrow> 1 \<le> ms \<Longrightarrow> ms \<le> 0xFFFF \<Longrightarrow> works dev_ok (request_atx_cp unit ch ms) rid_ok"
    and "0 \<le> ch \<Longrightarrow> ch \<le> 3 \<Longrightarrow> 1 \<le> ms \<Longrightarrow> ms \<le> 0xFFFF \<Longrightarrow> works dev_ok (request_atx_cr unit ch ms) rid_ok"
    and "0 \<le> ch \<Longrightarrow> ch \<le> 3 \<Longrightarrow> edid_ok e \<Longrightarrow> works dev_ok (request_set_edid unit ch e) rid_ok"
    and "0 \<le> ch \<Longrightarrow> ch \<le> 3 \<Longrightarrow> works dev_ok (request_set_dummy unit ch on) rid_ok"
    and "0 \<le> ch \<Longrightarrow> ch \<le> 5 \<Longrightarrow> bytes_ok (colors_pack cs) \<Longrightarrow> works dev_ok (request_set_colors unit ch cs) rid_ok"
    and "works dev_ok (request_set_quirks unit on) rid_ok"
  unfolding request_reboot_def request_switch_def request_beacon_def request_atx_cp_def
      request_atx_cr_def request_set_edid_def request_set_dummy_def request_set_colors_def
      request_set_quirks_def
  by (auto simp: body_values_ok_def assms intro!: send_body_works send_request_works)

lemma request_all_work: "works dev_ok request_state rid_ok" "works dev_ok request_atx_leds rid_ok"
  by (auto simp: request_state_def request_atx_leds_def intro!: send_request_works)

lemma read_all_works:
  assumes "dev_ok d" and "ok (fst (read_loop (dv_buf d @ dv_in d)))"
  obtains rs t where "read_all d = (Inr rs, t)" "dev_ok t" "list_all resp_ok rs"
proof (cases "dv_in d = []")
  case True
  with assms that [of "[]" d] show ?thesis by (simp add: read_all_def sm_defs dev_ok_def)
next
  case False
  let ?buf = "dv_buf d @ dv_in d"
  obtain rs where rs: "fst (read_loop ?buf) = Inr rs" using assms(2) by (auto simp: ok_iff)
  have "bytes_ok ?buf" using assms(1) by (simp add: dev_ok_def)
  note ok = read_loop_ok [OF this]
  have "read_all d = (Inr rs, d\<lparr>dv_buf := snd (read_loop ?buf), dv_in := []\<rparr>)"
    using False assms(1) rs by (simp add: read_all_def dev_ok_def getS_def assertS_def liftS_def)
  then show ?thesis by (rule that) (use ok rs assms(1) in \<open>auto simp: dev_ok_def\<close>)
qed

section \<open>The invariant of the chain\<close>

definition ctx_ok :: "unit_context \<Rightarrow> bool" where
  [wf_simps]: "ctx_ok c = (pred_option unit_state_ok (uc_state c) \<and> pred_option leds_ok (uc_atx_leds c))"

text \<open>
  A command that can be executed: besides the assertions of its constructor, the unit fits the
  byte of the header.  The daemon's callers check these ranges.
\<close>

fun cmd_safe :: "cmd \<Rightarrow> bool" where
  "cmd_safe (CmdSetPortBeacon port on) = (0 \<le> port \<and> port < 1024)"
| "cmd_safe (CmdSetUnitBeacon unit on downlink) = (0 \<le> unit \<and> unit < 256)"
| "cmd_safe (CmdRebootUnit unit bootloader) = (0 \<le> unit \<and> unit < 256)"
| "cmd_safe (CmdSetEdids es) = edids_wf es"
| "cmd_safe (CmdSetColors cs) = bytes_ok (colors_pack cs)"
| "cmd_safe c = cmd_ok c"

definition chain_ok :: "nat \<Rightarrow> chain \<Rightarrow> bool" where
  [wf_simps]: "chain_ok n s = (dev_ok (cn_device s) \<and> edids_wf (cn_edids s) \<and> bytes_ok (colors_pack (cn_colors s))
     \<and> list_all ctx_ok (cn_units s) \<and> n \<le> length (cn_units s) \<and> length (cn_units s) \<le> 256
     \<and> list_all cmd_safe (cn_cmd_q s) \<and> -1 \<le> cn_active_port s)"

lemma chain_ok_unit: "chain_ok n s \<Longrightarrow> i < length (cn_units s) \<Longrightarrow> ctx_ok (cn_units s ! i)"
  by (auto simp: chain_ok_def list_all_length)

lemma chain_ok_less: "chain_ok n s \<Longrightarrow> m \<le> n \<Longrightarrow> chain_ok m s"
  by (simp add: chain_ok_def)

lemma edids_lookup_ok: "edids_wf es \<Longrightarrow> \<exists>e. edids_get_edid_for_port es port = Inr e \<and> edid_ok e"
proof -
  assume wf: "edids_wf es"
  then obtain e where e: "map_of (es_all es) (edids_get_id_for_port es port) = Some e"
    using edids_wf_port [of es port] by (auto simp: edids_has_id_def dict_has_def)
  then show ?thesis using edids_wf_edid [OF wf e] by (simp add: edids_get_edid_for_port_def dict_at_def)
qed

lemma py_get_ok: "0 \<le> ch \<Longrightarrow> ch < int (length xs) \<Longrightarrow> py_get xs ch = Inr (xs ! nat ch)"
  by (simp add: py_get_def py_index_def)

lemma works_dev [works_rules]: "works dev_ok m Q \<Longrightarrow> works (chain_ok n) (dev m) Q"
  unfolding works_def dev_def chain_ok_def by fastforce

lemma works_devU [works_rules]: "works dev_ok m rid_ok \<Longrightarrow> works (chain_ok n) (devU m) (\<lambda>_. True)"
  unfolding devU_def by (rule works_bindS [where Q = rid_ok, OF works_dev]) (auto intro: works_retS)

lemma works_set_unit [works_rules]: "ctx_ok c \<Longrightarrow> works (chain_ok n) (set_unit i c) (\<lambda>_. True)"
  unfolding set_unit_def
  by (rule works_modifyS) (auto simp: chain_ok_def list_all_iff dest!: set_update_subset_insert [THEN subsetD])

lemma works_queue_event [works_rules]: "works (chain_ok n) (queue_event ev) (\<lambda>_. True)"
  unfolding queue_event_def by (intro works_getS works_whenS works_modifyS) (auto simp: chain_ok_def)

lemma works_queue_cmd [works_rules]:
  "cmd_safe c \<Longrightarrow> cmd_ok c \<Longrightarrow> works (chain_ok n) (queue_cmd c) (\<lambda>_. True)"
  unfolding queue_cmd_def cmd_init_def
  by (auto simp: chain_ok_def intro!: works_getS works_whenS works_modifyS)

lemma works_activate [works_rules]: "-1 \<le> port \<Longrightarrow> works (chain_ok n) (activate port) (\<lambda>_. True)"
  unfolding activate_def by (intro works_seq works_modifyS works_queue_event) (auto simp: chain_ok_def)

subsection \<open>Commands\<close>

lemma delay_ms_ok: "flt_0_001 \<le> delay \<Longrightarrow> 1 \<le> min (py_trunc (fl64 (delay * 1000))) 0xFFFF"
proof -
  assume d: "flt_0_001 \<le> delay"
  have "1 \<le> flt_0_001 * 1000" by code_simp
  with d have "1 \<le> delay * 1000" by simp
  then have "rat_of_int 1 \<le> fl64 (delay * 1000)" by (simp add: fl64_ge_1)
  then show ?thesis using py_trunc_ge [of 1] by simp
qed

lemma real_unit_channel:
  assumes "get_real_unit_channel port = (unit, ch)" "0 \<le> port"
  shows "0 \<le> unit" "0 \<le> ch" "ch \<le> 3" "port < 1024 \<Longrightarrow> unit < 256"
  using assms by (auto simp: get_real_unit_channel_def)

lemma is_atx_allowed_ok: "ctx_ok c \<Longrightarrow> 0 \<le> ch \<Longrightarrow> ch \<le> 3 \<Longrightarrow> \<exists>ap. is_atx_allowed c ch = Inr ap"
  by (auto simp: is_atx_allowed_def ctx_ok_def unit_state_ok_def leds_ok_def py_get_ok split: option.splits)

lemma works_atx_click:
  assumes "cmd_ok (CmdAtxClick port delay reset if_powered)"
  shows "works (chain_ok n) (exec_cmd (CmdAtxClick port delay reset if_powered)) (\<lambda>_. True)"
proof -
  obtain unit ch where uc: "get_real_unit_channel port = (unit, ch)"
    by (cases "get_real_unit_channel port")
  then have r: "0 \<le> unit" "0 \<le> ch" "ch \<le> 3" using assms real_unit_channel by auto
  have ms: "1 \<le> min (py_trunc (fl64 (delay * 1000))) 0xFFFF" using assms delay_ms_ok by simp
  show ?thesis unfolding exec_cmd_def
  proof (rule works_getS, simp only: cmd.case Let_def uc prod.case, rule works_whenS)
    fix s
    assume s: "chain_ok n s" and u: "unit < int (length (cn_units s))"
    then have "ctx_ok (cn_units s ! nat unit)" "py_get (cn_units s) unit = Inr (cn_units s ! nat unit)"
      using r by (auto intro!: chain_ok_unit py_get_ok)
    moreover obtain a p where "is_atx_allowed (cn_units s ! nat unit) ch = Inr (a, p)"
      using is_atx_allowed_ok [OF calculation(1) r(2,3)] by auto
    moreover have "unit < 256" using s u by (simp add: chain_ok_def)
    ultimately show "works (chain_ok n) (bindS (liftS (py_get (cn_units s) unit)) (\<lambda>ctx.
             bindS (liftS (is_atx_allowed ctx ch)) (\<lambda>(allowed, powered).
             whenS (allowed \<and> (if_powered = None \<or> if_powered = Some powered))
               (if reset then devU (request_atx_cr unit ch (min (py_trunc (fl64 (delay * 1000))) 0xFFFF))
                else devU (request_atx_cp unit ch (min (py_trunc (fl64 (delay * 1000))) 0xFFFF)))))) (\<lambda>_. True)"
      using r ms by (auto intro!: works_whenS works_devU requests_work)
  qed
qed

lemma works_exec_cmd: "cmd_safe c \<Longrightarrow> works (chain_ok n) (exec_cmd c) (\<lambda>_. True)"
proof (cases c)
  case (CmdSetPortBeacon port on)
  assume "cmd_safe c"
  with CmdSetPortBeacon have r: "0 \<le> port div 4" "port div 4 < 256" "0 \<le> port mod 4" "port mod 4 \<le> 5"
    using pos_mod_bound [of 4 port] by auto
  from CmdSetPortBeacon show ?thesis
    unfolding exec_cmd_def by (auto simp: get_real_unit_channel_def intro!: works_getS works_devU requests_work r)
next
  case (CmdAtxClick port delay reset if_powered)
  assume "cmd_safe c"
  with CmdAtxClick works_atx_click show ?thesis by simp
qed (auto simp: exec_cmd_def chain_ok_def Let_def
    intro!: works_getS works_whenS works_activate works_devU requests_work works_modifyS)

lemma works_consume_list: "list_all cmd_safe q \<Longrightarrow> works (chain_ok n) (consume_list q) (\<lambda>_. True)"
  by (induction q) (auto simp: chain_ok_def intro!: works_seq works_modifyS works_exec_cmd)

lemma works_consume_commands: "works (chain_ok n) consume_commands (\<lambda>_. True)"
  unfolding consume_commands_def by (intro works_getS works_consume_list) (simp add: chain_ok_def)

subsection \<open>Responses\<close>

lemma get_changing_rid_state [simp]:
  "uc_state (snd (get_changing_rid now c)) = uc_state c"
  "uc_atx_leds (snd (get_changing_rid now c)) = uc_atx_leds c"
  by (simp_all add: get_changing_rid_def Let_def)

lemma set_changing_rid_state [simp]:
  "uc_state (set_changing_rid now rid c) = uc_state c"
  "uc_atx_leds (set_changing_rid now rid c) = uc_atx_leds c"
  by (simp_all add: set_changing_rid_def)

lemma can_be_changed_state [simp]:
  "uc_state (snd (can_be_changed now c)) = uc_state c"
  "uc_atx_leds (snd (can_be_changed now c)) = uc_atx_leds c"
  by (auto simp: can_be_changed_def case_prod_beta Let_def split: option.splits)

lemma unit_context_init_ok: "ctx_ok unit_context_init"
  by (simp add: ctx_ok_def unit_context_init_def)

lemma extend_units_ok:
  assumes "chain_ok 0 s" "0 \<le> unit" "unit < 256"
  shows "chain_ok (nat unit + 1) (s\<lparr>cn_units := extend_units (unit + 1) (cn_units s)\<rparr>)"
  using assms unit_context_init_ok
  by (auto simp: chain_ok_def extend_units_def list_all_iff)

text \<open>After \<open>update_units\<close> the unit that answered exists.\<close>

lemma update_units_ok:
  assumes "chain_ok 0 s" and "resp_ok resp" and "unit = hd_unit (rs_header resp)"
  shows "\<exists>t. update_units resp s = (Inr (), t) \<and> chain_ok (nat unit + 1) t"
proof -
  have u: "0 \<le> unit" "unit < 256" using assms by (auto simp: resp_ok_def)
  define s1 where "s1 = s\<lparr>cn_units := extend_units (unit + 1) (cn_units s)\<rparr>"
  have s1: "chain_ok (nat unit + 1) s1" unfolding s1_def by (rule extend_units_ok [OF assms(1) u])
  define s2 where "s2 = s1\<lparr>cn_units := take (nat (unit + 1)) (cn_units s1)\<rparr>"
  have s2: "chain_ok (nat unit + 1) s2"
    using s1 u by (auto simp: s2_def chain_ok_def list_all_iff dest: in_set_takeD)
  have wq: "\<exists>t. queue_event ev s' = (Inr (), t) \<and> chain_ok (nat unit + 1) t"
    if "chain_ok (nat unit + 1) s'" for ev s'
    using worksD [OF works_queue_event that, of ev] by simp
  have put: "works (chain_ok (nat unit + 1))
      (getS (\<lambda>s. bindS (set_unit (nat unit) (f (cn_units s ! nat unit))) (\<lambda>_. queue_event ev))) (\<lambda>_. True)"
    if "\<And>c. ctx_ok c \<Longrightarrow> ctx_ok (f c)" for f ev
    using that by (auto intro!: works_getS works_seq works_set_unit works_queue_event chain_ok_unit
        simp: chain_ok_def list_all_length)
  show ?thesis
  proof (cases "rs_body resp")
    case (RNak r)
    with s1 show ?thesis by (simp add: update_units_def Let_def s1_def [symmetric] retS_def flip: assms(3))
  next
    case (RState st)
    have ok: "\<And>c. ctx_ok c \<Longrightarrow> ctx_ok (c\<lparr>uc_state := Some st\<rparr>)"
      using assms(2) RState by (simp add: ctx_ok_def resp_ok_def)
    let ?cut = "whenS (\<not> uf_has_downlink (us_flags st) \<and> int (length (cn_units s1)) > unit + 1)
           (bindS (modifyS (\<lambda>s. s\<lparr>cn_units := take (nat (unit + 1)) (cn_units s)\<rparr>)) (\<lambda>_.
            queue_event (ChainTruncatedEvent (unit + 1))))"
    obtain t where t: "?cut s1 = (Inr (), t)" "chain_ok (nat unit + 1) t"
    proof (cases "\<not> uf_has_downlink (us_flags st) \<and> int (length (cn_units s1)) > unit + 1")
      case True
      with wq [OF s2, of "ChainTruncatedEvent (unit + 1)"] that show ?thesis
        by (auto simp: whenS_def s2_def)
    next
      case False
      with s1 that [of s1] show ?thesis by (auto simp: whenS_def retS_def)
    qed
    from worksD [OF put [OF ok, where ev = "UnitStateEvent unit st"] t(2)] RState t(1) show ?thesis
      by (simp add: update_units_def Let_def s1_def [symmetric] getS_def bindS_ok [of ?cut, OF t(1)] flip: assms(3))
  next
    case (RAtxLeds leds)
    have ok: "\<And>c. ctx_ok c \<Longrightarrow> ctx_ok (c\<lparr>uc_atx_leds := Some leds\<rparr>)"
      using assms(2) RAtxLeds by (simp add: ctx_ok_def resp_ok_def)
    from worksD [OF put [OF ok, where ev = "UnitAtxLedsEvent unit leds"] s1] RAtxLeds show ?thesis
      by (simp add: update_units_def Let_def s1_def [symmetric] getS_def flip: assms(3))
  qed
qed

lemma works_adjust_quirks: "works (chain_ok n) adjust_quirks (\<lambda>_. True)"
  unfolding adjust_quirks_def
  by (rule works_getS, rule works_forS)
     (auto simp: chain_ok_def in_set_enumerate_eq Let_def split: option.split
       intro!: works_retS works_whenS works_devU requests_work)

lemma works_start_port_loop:
  "(\<forall>(i, c) \<in> set us. ctx_ok c) \<Longrightarrow> works (chain_ok n) (start_port_loop us) (\<lambda>_. True)"
  by (induction us rule: start_port_loop.induct)
     (auto simp: ctx_ok_def unit_state_ok_def get_virtual_port_def chain_set_active_port_def
       intro!: works_retS works_queue_cmd split: option.split)

lemma works_adjust_start_port: "works (chain_ok n) adjust_start_port (\<lambda>_. True)"
  unfolding adjust_start_port_def
  by (intro works_getS works_whenS works_start_port_loop)
     (auto simp: chain_ok_def in_set_enumerate_eq list_all_length)

lemma works_finish_changing:
  assumes "resp_ok resp" "nat (hd_unit (rs_header resp)) + 1 \<le> n"
  shows "works (chain_ok n) (finish_changing_request now resp) (\<lambda>_. True)"
  unfolding finish_changing_request_def
proof (rule works_getS)
  fix s
  assume s: "chain_ok n s"
  let ?u = "hd_unit (rs_header resp)"
  have u: "0 \<le> ?u" "?u < int (length (cn_units s))" using assms s by (auto simp: resp_ok_def chain_ok_def)
  then have c: "ctx_ok (cn_units s ! nat ?u)" using s by (intro chain_ok_unit) auto
  obtain rid c' where r: "get_changing_rid now (cn_units s ! nat ?u) = (rid, c')"
    by (cases "get_changing_rid now (cn_units s ! nat ?u)")
  then have "ctx_ok c'" using c get_changing_rid_state [of now "cn_units s ! nat ?u"]
    by (simp add: ctx_ok_def)
  then show "works (chain_ok n) (bindS (liftS (py_get (cn_units s) ?u)) (\<lambda>ctx.
     let (rid, ctx) = get_changing_rid now ctx
     in set_unit (nat ?u) (if rid = hd_rid (rs_header resp) then set_changing_rid now (-1) ctx else ctx))) (\<lambda>_. True)"
    using py_get_ok [OF u] r by (simp add: ctx_ok_def works_set_unit)
qed

lemma works_handle_response: "resp_ok resp \<Longrightarrow> works (chain_ok 0) (handle_response now resp) (\<lambda>_. True)"
  unfolding works_def
proof (intro allI impI)
  fix s
  assume r: "resp_ok resp" and s: "chain_ok 0 s"
  let ?n = "nat (hd_unit (rs_header resp)) + 1"
  obtain t where t: "update_units resp s = (Inr (), t)" "chain_ok ?n t"
    using update_units_ok [OF s r refl] by blast
  have "works (chain_ok ?n) (bindS adjust_quirks (\<lambda>_. bindS adjust_start_port
     (\<lambda>_. finish_changing_request now resp))) (\<lambda>_. True)"
    by (intro works_seq works_adjust_quirks works_adjust_start_port works_finish_changing r) simp
  from worksD [OF this t(2)] t(1) chain_ok_less
  show "\<exists>a t. handle_response now resp s = (Inr a, t) \<and> chain_ok 0 t \<and> True"
    by (fastforce simp: handle_response_def bindS_ok)
qed

subsection \<open>Configuration\<close>

lemma works_unit_can_be_changed:
  "i < n \<Longrightarrow> works (chain_ok n) (unit_can_be_changed now i) (\<lambda>_. True)"
  unfolding unit_can_be_changed_def
  by (rule works_getS)
     (auto simp: case_prod_beta ctx_ok_def chain_ok_def list_all_length
       intro!: works_seq works_set_unit works_retS)

lemma works_start_changing:
  "i < n \<Longrightarrow> works dev_ok m rid_ok \<Longrightarrow> works (chain_ok n) (start_changing now i m) (\<lambda>_. True)"
  unfolding start_changing_def
  by (rule works_bindS [where Q = rid_ok, OF works_dev])
     (auto simp: ctx_ok_def chain_ok_def list_all_length intro!: works_getS works_set_unit)

lemma unit_index_ok: "chain_ok n s \<Longrightarrow> i < n \<Longrightarrow> 0 \<le> int i \<and> int i < 256"
  by (simp add: chain_ok_def)

lemma works_ensure_port: "i < n \<Longrightarrow> works (chain_ok n) (ensure_config_port now i st) (\<lambda>_. True)"
  unfolding ensure_config_port_def
  by (rule works_getS)
     (auto simp: Let_def get_unit_target_channel_def get_real_unit_channel_def chain_ok_def
       intro!: works_whenS works_seq works_unit_can_be_changed works_start_changing requests_work)

lemma works_edids_loop:
  "i < n \<Longrightarrow> unit_state_ok st \<Longrightarrow> \<forall>ch \<in> set chs. 0 \<le> ch \<and> ch \<le> 3 \<Longrightarrow>
     works (chain_ok n) (edids_loop now i st chs) (\<lambda>_. True)"
proof (induction chs)
  case (Cons ch chs)
  have "works (chain_ok n) (bindS (liftS (edids_get_edid_for_port (cn_edids s) (get_virtual_port (int i) ch))) (\<lambda>edid.
     bindS (liftS (compare_edid st ch (Some edid))) (\<lambda>same.
     if \<not> same then start_changing now i (request_set_edid (int i) ch edid)
     else edids_loop now i st chs))) (\<lambda>_. True)" if s: "chain_ok n s" for s
  proof -
    obtain e where e: "edids_get_edid_for_port (cn_edids s) (get_virtual_port (int i) ch) = Inr e" "edid_ok e"
      using s edids_lookup_ok by (auto simp: chain_ok_def)
    have "\<exists>b. compare_edid st ch (Some e) = Inr b"
      using Cons.prems by (auto simp: compare_edid_def unit_state_ok_def py_get_ok)
    then obtain b where b: "compare_edid st ch (Some e) = Inr b" ..
    show ?thesis
      using Cons e unit_index_ok [OF s] by (auto simp: b intro!: works_start_changing requests_work)
  qed
  then show ?case by (auto intro: works_getS)
qed (simp add: works_retS)

lemma works_dummies_loop:
  "i < n \<Longrightarrow> unit_state_ok st \<Longrightarrow> \<forall>ch \<in> set chs. 0 \<le> ch \<and> ch \<le> 3 \<Longrightarrow>
     works (chain_ok n) (dummies_loop now i st chs) (\<lambda>_. True)"
  by (induction chs)
     (auto simp: unit_state_ok_def py_get_ok Let_def chain_ok_def
       intro!: works_retS works_getS works_start_changing requests_work)

text \<open>The flag \<open>actual\<close> is not touched while the units are configured.\<close>

abbreviation (input) act :: "chain \<Rightarrow> bool" where
  "act \<equiv> cn_actual"

lemma keeps_act_dev [keeps_rules]: "keeps act (dev m)"
  by (simp add: keeps_def dev_def case_prod_beta)

lemma keeps_act_set_unit [keeps_rules]: "keeps act (set_unit i c)"
  by (simp add: keeps_def set_unit_def modifyS_def)

lemma keeps_act_ops [keeps_rules]:
  "keeps act (devU m)" "keeps act (start_changing now i m)" "keeps act (unit_can_be_changed now i)"
  unfolding devU_def start_changing_def unit_can_be_changed_def case_prod_beta Let_def
  by (intro keeps_rules)+

lemma keeps_act_loops [keeps_rules]:
  "keeps act (edids_loop now i st chs)" "keeps act (dummies_loop now i st chs)"
  by (induction chs) (auto simp: Let_def intro!: keeps_rules)

lemma keeps_act_ensure [keeps_rules]:
  "keeps act (ensure_config_port now i st)" "keeps act (ensure_config_edids now i st)"
  "keeps act (ensure_config_dummies now i st)" "keeps act (ensure_config_colors i st)"
  unfolding ensure_config_port_def ensure_config_edids_def ensure_config_dummies_def
    ensure_config_colors_def Let_def
  by (intro keeps_rules)+

lemma works_ensure_edids:
  assumes "i < n" "unit_state_ok st"
  shows "works (\<lambda>s. chain_ok n s \<and> cn_actual s) (ensure_config_edids now i st) (\<lambda>_. True)"
proof -
  have "works (\<lambda>s. chain_ok n s \<and> cn_actual s) (bindS (unit_can_be_changed now i)
      (\<lambda>can. whenS can (edids_loop now i st [0, 1, 2, 3]))) (\<lambda>_. True)"
    using assms by (intro works_conj works_seq works_unit_can_be_changed works_whenS works_edids_loop keeps_rules) auto
  then show ?thesis
    unfolding ensure_config_edids_def by (auto intro!: works_getS simp: assertS_def)
qed

lemma works_ensure_dummies:
  assumes "i < n" "unit_state_ok st"
  shows "works (chain_ok n) (ensure_config_dummies now i st) (\<lambda>_. True)"
  using assms unfolding ensure_config_dummies_def
  by (intro works_seq works_unit_can_be_changed works_whenS works_dummies_loop) auto

lemma works_ensure_colors:
  assumes "i < n" "unit_state_ok st"
  shows "works (\<lambda>s. chain_ok n s \<and> cn_actual s) (ensure_config_colors i st) (\<lambda>_. True)"
proof -
  have step: "works (chain_ok n) (bindS (liftS (py_get (us_np_crc st) np)) (\<lambda>crc.
       whenS (cs_crc (cn_colors s) \<noteq> crc) (devU (request_set_colors (int i) np (cn_colors s))))) (\<lambda>_. True)"
    if "chain_ok n s" "np \<in> set [0, 1, 2, 3, 4, 5]" for s np
    using that assms by (auto simp: unit_state_ok_def py_get_ok chain_ok_def
        intro!: works_whenS works_devU requests_work)
  have "works (\<lambda>s. chain_ok n s \<and> cn_actual s) (forS [0, 1, 2, 3, 4, 5]
      (\<lambda>np. bindS (liftS (py_get (us_np_crc st) np)) (\<lambda>crc.
       whenS (cs_crc (cn_colors s) \<noteq> crc) (devU (request_set_colors (int i) np (cn_colors s)))))) (\<lambda>_. True)"
    if "chain_ok n s" for s
    by (intro works_conj works_forS step [OF that] keeps_rules)
  then show ?thesis
    unfolding ensure_config_colors_def by (auto intro!: works_getS simp: assertS_def)
qed

lemma works_ensure_unit:
  assumes "i < n"
  shows "works (chain_ok n) (ensure_config_unit clk i) (\<lambda>_. True)"
  unfolding works_def
proof (intro allI impI)
  fix s
  assume s: "chain_ok n s"
  show "\<exists>a t. ensure_config_unit clk i s = (Inr a, t) \<and> chain_ok n t \<and> True"
  proof (cases "uc_state (cn_units s ! i)")
    case None
    with s show ?thesis by (simp add: ensure_config_unit_def getS_def retS_def)
  next
    case (Some st)
    have st: "unit_state_ok st"
      using chain_ok_unit [OF s, of i] s assms Some by (simp add: ctx_ok_def chain_ok_def)
    let ?cfg = "bindS (ensure_config_edids (clk i 1) i st) (\<lambda>_.
        bindS (ensure_config_dummies (clk i 2) i st) (\<lambda>_. ensure_config_colors i st))"
    let ?all = "bindS (ensure_config_port (clk i 0) i st) (\<lambda>_. whenS (cn_actual s) ?cfg)"
    have all: "ensure_config_unit clk i s = ?all s" using Some by (simp add: ensure_config_unit_def getS_def)
    have cfg: "works (\<lambda>s. chain_ok n s \<and> cn_actual s) ?cfg (\<lambda>_. True)"
      by (intro works_seq works_ensure_edids works_ensure_colors works_conj works_ensure_dummies keeps_rules assms st)
    have "works (\<lambda>t. chain_ok n t \<and> cn_actual t) ?all (\<lambda>_. True)"
      by (intro works_seq works_conj works_ensure_port works_whenS cfg keeps_rules assms)
    moreover have "works (chain_ok n) (bindS (ensure_config_port (clk i 0) i st) (\<lambda>_. retS ())) (\<lambda>_. True)"
      by (intro works_seq works_ensure_port works_retS assms TrueI)
    ultimately show ?thesis
      using s unfolding all works_def whenS_def by (cases "cn_actual s") fastforce+
  qed
qed

lemma works_ensure_config: "works (chain_ok 0) (ensure_config clk) (\<lambda>_. True)"
  unfolding works_def
proof (intro allI impI)
  fix s
  assume s: "chain_ok 0 s"
  have "works (chain_ok (length (cn_units s))) (forS [0..<length (cn_units s)] (ensure_config_unit clk)) (\<lambda>_. True)"
    by (intro works_forS works_ensure_unit) simp
  moreover have "chain_ok (length (cn_units s)) s" using s by (simp add: chain_ok_def)
  ultimately show "\<exists>a t. ensure_config clk s = (Inr a, t) \<and> chain_ok 0 t \<and> True"
    using chain_ok_less unfolding works_def ensure_config_def getS_def by blast
qed

section \<open>An iteration of the main loop\<close>


lemma colors_default_ok: "\<exists>cs. colors_default = Inr cs \<and> bytes_ok (colors_pack cs)"
proof -
  have "case colors_default of Inl _ \<Rightarrow> False | Inr cs \<Rightarrow> bytes_ok (colors_pack cs)" by code_simp
  then show ?thesis by (auto split: sum.splits)
qed

lemma edids_init_wf: "edids_wf (mk_edids [] [])"
  by (rule mk_edids_wf) (simp_all add: dict_wf_def)

lemma chain_init_ok:
  assumes "dev_ok d"
  shows "\<exists>s. chain_init seed ignore_hpd = Inr s \<and> chain_ok 0 (s\<lparr>cn_device := d\<rparr>)"
proof -
  obtain cs where cs: "colors_default = Inr cs" "bytes_ok (colors_pack cs)" using colors_default_ok by blast
  show ?thesis
    unfolding chain_init_def cs(1) bindR_simps using cs(2) assms edids_init_wf
    by (intro exI [of _ "\<lparr>cn_device = device_init seed, cn_ignore_hpd_on_top = ignore_hpd, cn_actual = False,
          cn_edids = mk_edids [] [], cn_dummies = dummies [], cn_colors = cs, cn_units = [],
          cn_active_port = -1, cn_cmd_q = [], cn_events_q = [], cn_stop = False\<rparr>"])
       (simp add: chain_ok_def)
qed


end
