(* ===== verification/SwitchChainSync.thy ===== *)
theory SwitchChainSync
  imports SwitchChainSafe
begin

text \<open>
  What the controller does to a unit: it stays silent exactly when the unit reports the
  configured state, it has at most one change outstanding, and it moves the active port only
  within the chain.
\<close>

section \<open>Counting what is sent\<close>

definition sent :: "chain \<Rightarrow> nat" where
  "sent s = length (dv_out (cn_device s))"

text \<open>A request that writes exactly one frame.\<close>

definition sends_one :: "(device, int) sm \<Rightarrow> bool" where
  "sends_one m = (\<forall>d. dev_ok d \<longrightarrow> (\<exists>rid t. m d = (Inr rid, t) \<and> dev_ok t \<and> rid_ok rid
     \<and> length (dv_out t) = Suc (length (dv_out d))))"

lemma sends_one_body:
  assumes "body_ok b" "body_values_ok b" "0 \<le> op" "op < 256" "0 \<le> unit" "unit < 256"
  shows "sends_one (send_body op unit b)"
  unfolding sends_one_def
proof (intro allI impI)
  fix d
  assume ok: "dev_ok d"
  then obtain msg where "send_request op unit (Some b) d =
      (Inr (dv_rid d), d\<lparr>dv_rid := next_rid (dv_rid d), dv_out := dv_out d @ [wire_frame msg]\<rparr>)"
    using send_request_frame [of d op unit "Some b"] assms by (auto simp: dev_ok_def)
  with ok next_rid_ok [of "dv_rid d"] assms(1) show "\<exists>rid t. send_body op unit b d = (Inr rid, t) \<and> dev_ok t \<and> rid_ok rid
     \<and> length (dv_out t) = Suc (length (dv_out d))"
    by (simp add: send_body_def body_init_def dev_ok_def)
qed

lemma requests_send_one:
  assumes "0 \<le> unit" "unit < 256" "0 \<le> ch" "ch \<le> 3"
  shows "sends_one (request_set_dummy unit ch on)"
    and "edid_ok e \<Longrightarrow> sends_one (request_set_edid unit ch e)"
  unfolding request_set_edid_def request_set_dummy_def
  by (auto simp: body_values_ok_def assms intro!: sends_one_body)

lemma request_switch_sends_one:
  "0 \<le> unit \<Longrightarrow> unit < 256 \<Longrightarrow> 0 \<le> ch \<Longrightarrow> ch \<le> 4 \<Longrightarrow> sends_one (request_switch unit ch)"
  unfolding request_switch_def by (auto simp: body_values_ok_def intro!: sends_one_body)

lemma request_colors_sends_one:
  "0 \<le> unit \<Longrightarrow> unit < 256 \<Longrightarrow> 0 \<le> ch \<Longrightarrow> ch \<le> 5 \<Longrightarrow> bytes_ok (colors_pack cs) \<Longrightarrow>
     sends_one (request_set_colors unit ch cs)"
  unfolding request_set_colors_def by (auto simp: body_values_ok_def intro!: sends_one_body)

text \<open>Nothing that is sent is taken back.\<close>

abbreviation (input) sent_ge :: "nat \<Rightarrow> chain \<Rightarrow> bool" where
  "sent_ge k s \<equiv> k \<le> sent s"

lemma send_request_grows: "length (dv_out d) \<le> length (dv_out (snd (send_request op unit body d)))"
  by (simp add: send_request_def getS_def assertS_def raiseS_def bindS_def get_next_rid_eq liftS_def
      modifyS_def retS_def split: sum.split)

lemma send_body_grows: "length (dv_out d) \<le> length (dv_out (snd (send_body op unit b d)))"
  by (simp add: send_body_def body_init_def assertR_def send_request_grows bindS_def liftS_def)

lemma keeps_sent_dev: "(\<And>d. length (dv_out d) \<le> length (dv_out (snd (m d)))) \<Longrightarrow> keeps (sent_ge k) (dev m)"
  unfolding keeps_def dev_def sent_def by (auto simp: case_prod_beta intro: order_trans)

lemma keeps_sent_set_unit [keeps_rules]: "keeps (sent_ge k) (set_unit i c)"
  by (simp add: keeps_def set_unit_def modifyS_def sent_def)

lemma keeps_sent_body [keeps_rules]:
  "keeps (sent_ge k) (start_changing now i (send_body op unit b))"
  "keeps (sent_ge k) (devU (send_body op unit b))"
  unfolding start_changing_def devU_def
  by (intro keeps_rules keeps_sent_dev send_body_grows)+

lemma keeps_sent_can [keeps_rules]: "keeps (sent_ge k) (unit_can_be_changed now i)"
  unfolding unit_can_be_changed_def case_prod_beta Let_def by (intro keeps_rules)

lemma keeps_sent_edid [keeps_rules]: "keeps (sent_ge k) (start_changing now i (request_set_edid u ch e))"
  by (simp add: request_set_edid_def keeps_sent_body)

lemma keeps_sent_loops [keeps_rules]:
  "keeps (sent_ge k) (edids_loop now i st chs)" "keeps (sent_ge k) (dummies_loop now i st chs)"
  by (induction chs) (auto simp: Let_def request_set_dummy_def intro!: keeps_rules)

lemma keeps_sent_ensure [keeps_rules]:
  "keeps (sent_ge k) (ensure_config_port now i st)" "keeps (sent_ge k) (ensure_config_edids now i st)"
  "keeps (sent_ge k) (ensure_config_dummies now i st)" "keeps (sent_ge k) (ensure_config_colors i st)"
  unfolding ensure_config_port_def ensure_config_edids_def ensure_config_dummies_def
    ensure_config_colors_def Let_def request_switch_def request_set_colors_def
  by (intro keeps_rules)+

lemma sent_ge_after: "keeps (sent_ge (sent s)) m \<Longrightarrow> sent s \<le> sent (snd (m s))"
  by (simp add: keeps_def)

section \<open>Silent exactly when in sync\<close>

text \<open>A unit with no outstanding change that is not busy.\<close>

definition unit_idle :: "unit_context \<Rightarrow> bool" where
  "unit_idle c = (uc_rid c = -1 \<and> uc_deadline_ts c = -1
     \<and> (case uc_state c of None \<Rightarrow> False | Some st \<Rightarrow> \<not> uf_changing_busy (us_flags st)))"

definition port_in_sync :: "chain \<Rightarrow> nat \<Rightarrow> unit_state \<Rightarrow> bool" where
  "port_in_sync s i st = (cn_active_port s \<ge> 0 \<longrightarrow> us_ch st = get_unit_target_channel (int i) (cn_active_port s))"

definition edid_in_sync :: "chain \<Rightarrow> nat \<Rightarrow> unit_state \<Rightarrow> int \<Rightarrow> bool" where
  "edid_in_sync s i st ch = (\<exists>e. edids_get_edid_for_port (cn_edids s) (get_virtual_port (int i) ch) = Inr e
     \<and> compare_edid st ch (Some e) = Inr True)"

definition dummy_in_sync :: "chain \<Rightarrow> nat \<Rightarrow> unit_state \<Rightarrow> int \<Rightarrow> bool" where
  "dummy_in_sync s i st ch =
     (us_video_dummies st ! nat ch = pd_get (cn_dummies s) (get_virtual_port (int i) ch))"

definition unit_in_sync :: "chain \<Rightarrow> nat \<Rightarrow> unit_state \<Rightarrow> bool" where
  "unit_in_sync s i st = (port_in_sync s i st \<and> (cn_actual s \<longrightarrow>
     (\<forall>ch \<in> {0..3}. edid_in_sync s i st ch) \<and>
     (is_fresh (us_version st) 8 \<longrightarrow> (\<forall>ch \<in> {0..3}. dummy_in_sync s i st ch)) \<and>
     (\<forall>np < 6. us_np_crc st ! np = cs_crc (cn_colors s))))"

lemma idle_can_be_changed:
  "unit_idle (cn_units s ! i) \<Longrightarrow> i < length (cn_units s) \<Longrightarrow> unit_can_be_changed now i s = (Inr True, s)"
  by (auto simp: unit_can_be_changed_def unit_idle_def can_be_changed_def get_changing_rid_def getS_def
      set_unit_def modifyS_def bindS_def retS_def Let_def split: option.splits)

lemma bind_idle:
  "unit_idle (cn_units s ! i) \<Longrightarrow> i < length (cn_units s) \<Longrightarrow> bindS (unit_can_be_changed now i) f s = f True s"
  by (simp add: bindS_ok [of "unit_can_be_changed now i"] idle_can_be_changed)

lemma start_changing_sent:
  assumes "sends_one m" "chain_ok n s"
  shows "\<exists>t. start_changing now i m s = (Inr (), t) \<and> sent t = Suc (sent s)"
proof -
  have "dev_ok (cn_device s)" using assms(2) by (simp add: chain_ok_def)
  then obtain rid d where "m (cn_device s) = (Inr rid, d)" "length (dv_out d) = Suc (length (dv_out (cn_device s)))"
    using assms(1) by (auto simp: sends_one_def)
  then show ?thesis
    by (simp add: start_changing_def dev_def bindS_def getS_def set_unit_def modifyS_def sent_def)
qed

text \<open>Outcome of a part of the pass: silent and without effect if \<open>b\<close>, otherwise a frame is sent.\<close>

definition silent_iff :: "bool \<Rightarrow> (chain, unit) sm \<Rightarrow> chain \<Rightarrow> bool" where
  "silent_iff b m s = (if b then m s = (Inr (), s) else sent s < sent (snd (m s)))"

lemma silent_iff_seq:
  assumes "silent_iff b m s" and "b \<Longrightarrow> silent_iff c n s" and "\<And>k. keeps (sent_ge k) n"
  shows "silent_iff (b \<and> c) (bindS m (\<lambda>_. n)) s"
proof (cases b)
  case True
  with assms(1,2) show ?thesis by (auto simp: silent_iff_def bindS_def)
next
  case False
  have "sent (snd (m s)) \<le> sent (snd (n (snd (m s))))"
    by (rule sent_ge_after [OF assms(3)])
  with False assms(1) show ?thesis by (auto simp: silent_iff_def bindS_cases split: sum.split)
qed

lemma silent_port:
  assumes "chain_ok n s" "i < n" "unit_idle (cn_units s ! i)"
  shows "silent_iff (port_in_sync s i st) (ensure_config_port now i st) s"
proof -
  have i: "i < length (cn_units s)" "0 \<le> int i" "int i < 256" using assms by (auto simp: chain_ok_def)
  let ?ch = "get_unit_target_channel (int i) (cn_active_port s)"
  have ch: "0 \<le> ?ch \<and> ?ch \<le> 4" using pos_mod_bound [of 4 "cn_active_port s"]
    by (auto simp: get_unit_target_channel_def get_real_unit_channel_def)
  have "\<exists>t. start_changing now i (request_switch (int i) ?ch) s = (Inr (), t) \<and> sent t = Suc (sent s)"
    using ch i by (intro start_changing_sent [OF request_switch_sends_one assms(1)]) auto
  then show ?thesis
    by (auto simp: silent_iff_def port_in_sync_def ensure_config_port_def getS_def whenS_def retS_def Let_def
        bind_idle [OF assms(3) i(1)])
qed

lemma silent_edids_loop:
  assumes "chain_ok n s" "i < n" "unit_state_ok st" "\<forall>ch \<in> set chs. 0 \<le> ch \<and> ch \<le> 3"
  shows "silent_iff (\<forall>ch \<in> set chs. edid_in_sync s i st ch) (edids_loop now i st chs) s"
  using assms(4)
proof (induction chs)
  case Nil
  then show ?case by (simp add: silent_iff_def retS_def)
next
  case (Cons ch chs)
  have i: "0 \<le> int i" "int i < 256" using assms by (auto simp: chain_ok_def)
  obtain e where e: "edids_get_edid_for_port (cn_edids s) (get_virtual_port (int i) ch) = Inr e" "edid_ok e"
    using assms(1) edids_lookup_ok by (auto simp: chain_ok_def)
  have "\<exists>b. compare_edid st ch (Some e) = Inr b"
    using Cons.prems assms(3) by (auto simp: compare_edid_def unit_state_ok_def py_get_ok)
  then obtain b where b: "compare_edid st ch (Some e) = Inr b" ..
  have "\<exists>t. start_changing now i (request_set_edid (int i) ch e) s = (Inr (), t) \<and> sent t = Suc (sent s)"
    using Cons.prems i e by (intro start_changing_sent [OF _ assms(1)] requests_send_one) auto
  with Cons e b show ?case
    by (auto simp: silent_iff_def edid_in_sync_def getS_def)
qed

lemma silent_edids:
  assumes "chain_ok n s" "i < n" "unit_state_ok st" "unit_idle (cn_units s ! i)" "cn_actual s"
  shows "silent_iff (\<forall>ch \<in> {0..3}. edid_in_sync s i st ch) (ensure_config_edids now i st) s"
proof -
  have "{0..3::int} = set [0, 1, 2, 3]" by auto
  moreover have "i < length (cn_units s)" using assms by (auto simp: chain_ok_def)
  ultimately show ?thesis
    using silent_edids_loop [OF assms(1,2,3), of "[0, 1, 2, 3]" now] assms(5)
    by (simp add: ensure_config_edids_def getS_def assertS_def whenS_def silent_iff_def
        bind_idle [OF assms(4)] del: edids_loop.simps)
qed

lemma silent_dummies_loop:
  assumes "chain_ok n s" "i < n" "unit_state_ok st" "\<forall>ch \<in> set chs. 0 \<le> ch \<and> ch \<le> 3"
  shows "silent_iff (\<forall>ch \<in> set chs. dummy_in_sync s i st ch) (dummies_loop now i st chs) s"
  using assms(4)
proof (induction chs)
  case Nil
  then show ?case by (simp add: silent_iff_def retS_def)
next
  case (Cons ch chs)
  have i: "0 \<le> int i" "int i < 256" using assms by (auto simp: chain_ok_def)
  have d: "py_get (us_video_dummies st) ch = Inr (us_video_dummies st ! nat ch)"
    using Cons.prems assms(3) by (auto simp: unit_state_ok_def py_get_ok)
  let ?on = "pd_get (cn_dummies s) (get_virtual_port (int i) ch)"
  have "\<exists>t. start_changing now i (request_set_dummy (int i) ch ?on) s = (Inr (), t) \<and> sent t = Suc (sent s)"
    using Cons.prems i by (intro start_changing_sent [OF _ assms(1)] requests_send_one) auto
  then have "sent s < sent (snd (start_changing now i (request_set_dummy (int i) ch ?on) s))" by auto
  with Cons d show ?case
    by (cases "us_video_dummies st ! nat ch = ?on") (auto simp: silent_iff_def dummy_in_sync_def getS_def Let_def)
qed

lemma silent_dummies:
  assumes "chain_ok n s" "i < n" "unit_state_ok st" "unit_idle (cn_units s ! i)"
  shows "silent_iff (is_fresh (us_version st) 8 \<longrightarrow> (\<forall>ch \<in> {0..3}. dummy_in_sync s i st ch))
     (ensure_config_dummies now i st) s"
proof -
  have "{0..3::int} = set [0, 1, 2, 3]" by auto
  moreover have "i < length (cn_units s)" using assms by (auto simp: chain_ok_def)
  ultimately show ?thesis
    using silent_dummies_loop [OF assms(1,2,3), of "[0, 1, 2, 3]" now]
    by (simp add: ensure_config_dummies_def whenS_def retS_def silent_iff_def
        bind_idle [OF assms(4)] del: dummies_loop.simps)
qed

lemma silent_colors_loop:
  assumes "chain_ok n s" "i < n" "unit_state_ok st" "\<forall>np \<in> set nps. 0 \<le> np \<and> np \<le> 5"
  shows "silent_iff (\<forall>np \<in> set nps. us_np_crc st ! nat np = cs_crc (cn_colors s))
    (forS nps (\<lambda>np. bindS (liftS (py_get (us_np_crc st) np)) (\<lambda>crc.
       whenS (cs_crc (cn_colors s) \<noteq> crc) (devU (request_set_colors (int i) np (cn_colors s)))))) s"
  using assms(4)
proof (induction nps)
  case Nil
  then show ?case by (simp add: silent_iff_def retS_def)
next
  case (Cons np nps)
  let ?cs = "cn_colors s"
  have i: "0 \<le> int i" "int i < 256" using assms by (auto simp: chain_ok_def)
  have c: "py_get (us_np_crc st) np = Inr (us_np_crc st ! nat np)"
    using Cons.prems assms(3) by (auto simp: unit_state_ok_def py_get_ok)
  have d: "dev_ok (cn_device s)" and cs: "bytes_ok (colors_pack ?cs)" using assms(1) by (simp_all add: chain_ok_def)
  have "sends_one (request_set_colors (int i) np ?cs)"
    using Cons.prems i cs by (intro request_colors_sends_one) auto
  then have "sent s < sent (snd (devU (request_set_colors (int i) np ?cs) s))"
    using d unfolding sends_one_def
    by (fastforce simp: devU_def dev_def bindS_def retS_def sent_def)
  then have "silent_iff (us_np_crc st ! nat np = cs_crc ?cs)
     (bindS (liftS (py_get (us_np_crc st) np)) (\<lambda>crc.
       whenS (cs_crc ?cs \<noteq> crc) (devU (request_set_colors (int i) np ?cs)))) s"
    by (auto simp: c silent_iff_def whenS_def retS_def)
  from silent_iff_seq [OF this, of "\<forall>np \<in> set nps. us_np_crc st ! nat np = cs_crc (cn_colors s)"] Cons
  show ?case by (auto simp: request_set_colors_def intro!: keeps_rules)
qed

lemma silent_colors:
  assumes "chain_ok n s" "i < n" "unit_state_ok st" "cn_actual s"
  shows "silent_iff (\<forall>np < 6. us_np_crc st ! np = cs_crc (cn_colors s)) (ensure_config_colors i st) s"
proof -
  have "{np. np < (6::nat)} = {0, 1, 2, 3, 4, 5}" by auto
  then have "(\<forall>np < 6. us_np_crc st ! np = cs_crc (cn_colors s)) =
      (\<forall>np \<in> set [0, 1, 2, 3, 4, 5 :: int]. us_np_crc st ! nat np = cs_crc (cn_colors s))"
    by (auto simp: set_eq_iff)
  then show ?thesis
    using silent_colors_loop [OF assms(1,2,3), of "[0, 1, 2, 3, 4, 5]"] assms(4)
    by (simp add: ensure_config_colors_def getS_def assertS_def silent_iff_def del: forS.simps)
qed

lemma ensure_config_silent_part:
  assumes "chain_ok n s" and "i < n" and "unit_idle (cn_units s ! i)" and "uc_state (cn_units s ! i) = Some st"
  shows "if unit_in_sync s i st then ensure_config_unit clk i s = (Inr (), s)
         else sent s < sent (snd (ensure_config_unit clk i s))"
proof -
  have "i < length (cn_units s)" using assms by (simp add: chain_ok_def)
  then have st: "unit_state_ok st" using chain_ok_unit [OF assms(1)] assms(4) by (force simp: ctx_ok_def)
  let ?cfg = "bindS (ensure_config_edids (clk i 1) i st) (\<lambda>_.
        bindS (ensure_config_dummies (clk i 2) i st) (\<lambda>_. ensure_config_colors i st))"
  have cfg: "silent_iff ((\<forall>ch \<in> {0..3}. edid_in_sync s i st ch) \<and>
      ((is_fresh (us_version st) 8 \<longrightarrow> (\<forall>ch \<in> {0..3}. dummy_in_sync s i st ch)) \<and>
       (\<forall>np < 6. us_np_crc st ! np = cs_crc (cn_colors s)))) ?cfg s" if "cn_actual s"
    by (intro silent_iff_seq silent_edids [OF assms(1,2) st assms(3) that]
        silent_dummies [OF assms(1,2) st assms(3)] silent_colors [OF assms(1,2) st that] keeps_rules)
  have "silent_iff (cn_actual s \<longrightarrow> (\<forall>ch \<in> {0..3}. edid_in_sync s i st ch) \<and>
      (is_fresh (us_version st) 8 \<longrightarrow> (\<forall>ch \<in> {0..3}. dummy_in_sync s i st ch)) \<and>
      (\<forall>np < 6. us_np_crc st ! np = cs_crc (cn_colors s))) (whenS (cn_actual s) ?cfg) s"
    using cfg by (simp add: whenS_def silent_iff_def retS_def)
  from silent_iff_seq [OF silent_port [OF assms(1-3), where st = st and now = "clk i 0"] this]
  have "silent_iff (unit_in_sync s i st)
      (bindS (ensure_config_port (clk i 0) i st) (\<lambda>_. whenS (cn_actual s) ?cfg)) s"
    by (simp add: unit_in_sync_def keeps_rules)
  then show ?thesis
    using assms(4) by (simp add: silent_iff_def ensure_config_unit_def getS_def)
qed


text \<open>A chain with one unit that has reported its state, and the start configuration.\<close>

definition sample_ctx :: unit_context where
  "sample_ctx = unit_context_init\<lparr>uc_state := Some unit_state_sample\<rparr>"

lemma sample_chain:
  "\<exists>s. chain_init 1 True = Inr s \<and>
     chain_ok 1 (s\<lparr>cn_device := device_open, cn_units := [sample_ctx], cn_active_port := port\<rparr>)"
  if "-1 \<le> port"
proof -
  have "dev_ok device_open" by code_simp
  from chain_init_ok [OF this, of 1 True] obtain s where
    s: "chain_init 1 True = Inr s" "chain_ok 0 (s\<lparr>cn_device := device_open\<rparr>)" by blast
  have "ctx_ok sample_ctx"
    by (simp add: ctx_ok_def sample_ctx_def unit_context_init_def unit_state_ok_def unit_state_sample_def is_u16_def)
  with s that show ?thesis by (auto simp: chain_ok_def)
qed


section \<open>One change at a time\<close>

definition outstanding :: "rat \<Rightarrow> unit_context \<Rightarrow> bool" where
  "outstanding now c = (0 \<le> uc_rid c \<and> now \<le> uc_deadline_ts c)"

lemma outstanding_cannot_change:
  "outstanding now (cn_units s ! i) \<Longrightarrow> bindS (unit_can_be_changed now i) f s = f False s"
proof -
  assume o: "outstanding now (cn_units s ! i)"
  have "can_be_changed now (cn_units s ! i) = (False, cn_units s ! i)"
    using o by (auto simp: can_be_changed_def get_changing_rid_def outstanding_def Let_def split: option.split)
  then have "unit_can_be_changed now i s = (Inr False, s)"
    by (simp add: unit_can_be_changed_def getS_def set_unit_def modifyS_def retS_def bindS_def)
  then show ?thesis by (simp add: bindS_ok [of "unit_can_be_changed now i"])
qed

text \<open>A unit is never sent a second change while one is outstanding: until the response
  with its request id arrives or five seconds have passed, the pass over the unit does nothing
  but refresh colours; and the request that starts a change makes it outstanding for that
  time.\<close>

theorem one_change_at_a_time:
  assumes "uc_state (cn_units s ! i) = Some st" and "\<forall>k < 3. outstanding (clk i k) (cn_units s ! i)"
  shows "ensure_config_unit clk i s =
    (if cn_actual s then ensure_config_colors i st s else (Inr (), s))"
proof -
  have port: "ensure_config_port (clk i 0) i st s = (Inr (), s)"
    using assms(2) by (simp add: ensure_config_port_def getS_def whenS_def retS_def outstanding_cannot_change)
  have edids: "cn_actual s \<Longrightarrow> ensure_config_edids (clk i 1) i st s = (Inr (), s)"
    using assms(2) by (simp add: ensure_config_edids_def getS_def assertS_def whenS_def retS_def outstanding_cannot_change)
  have dummies: "ensure_config_dummies (clk i 2) i st s = (Inr (), s)"
    using assms(2) by (simp add: ensure_config_dummies_def whenS_def retS_def outstanding_cannot_change)
  have cfg: "bindS (ensure_config_edids (clk i 1) i st) (\<lambda>_. bindS (ensure_config_dummies (clk i 2) i st)
      (\<lambda>_. ensure_config_colors i st)) s = ensure_config_colors i st s" if "cn_actual s"
    by (simp only: bindS_ok [of "ensure_config_edids (clk i 1) i st", OF edids [OF that]]
        bindS_ok [of "ensure_config_dummies (clk i 2) i st", OF dummies])
  have "ensure_config_unit clk i s = whenS (cn_actual s) (bindS (ensure_config_edids (clk i 1) i st) (\<lambda>_.
      bindS (ensure_config_dummies (clk i 2) i st) (\<lambda>_. ensure_config_colors i st))) s"
    unfolding ensure_config_unit_def getS_def assms(1) option.case
    by (simp only: bindS_ok [of "ensure_config_port (clk i 0) i st", OF port])
  with cfg show ?thesis by (auto simp: whenS_def retS_def)
qed

lemma start_changing_outstanding:
  assumes "sends_one m" "chain_ok n s" "i < n" "now' \<le> fl64 (now + 5)"
  shows "outstanding now' (cn_units (snd (start_changing now i m s)) ! i)"
proof -
  have "dev_ok (cn_device s)" "i < length (cn_units s)" using assms(2,3) by (auto simp: chain_ok_def)
  moreover obtain rid d where "m (cn_device s) = (Inr rid, d)" "rid_ok rid"
    using assms(1) calculation(1) by (auto simp: sends_one_def)
  ultimately show ?thesis
    using assms(4)
    by (simp add: start_changing_def dev_def bindS_def getS_def set_unit_def modifyS_def outstanding_def
        set_changing_rid_def rid_ok_def unit_timeout_def)
qed

theorem one_change_at_a_time_witness:
  "\<exists>s. chain_init 1 True = Inr s \<and>
     (let s' = s\<lparr>cn_units := [sample_ctx\<lparr>uc_rid := 7, uc_deadline_ts := 20\<rparr>], cn_active_port := 1\<rparr> in
      ensure_config_unit (\<lambda>_ _. 16) 0 s' =
        (if cn_actual s' then ensure_config_colors 0 unit_state_sample s' else (Inr (), s')))"
proof -
  obtain s where s: "chain_init 1 True = Inr s" using sample_chain [of 1] by auto
  show ?thesis
    unfolding Let_def
    by (intro exI [of _ s] conjI s one_change_at_a_time)
       (simp_all add: sample_ctx_def outstanding_def)
qed

section \<open>The active port\<close>

definition is_move :: "cmd \<Rightarrow> bool" where
  "is_move c = (case c of CmdSetActivePrev \<Rightarrow> True | CmdSetActiveNext \<Rightarrow> True
     | CmdSetActivePort port \<Rightarrow> 0 \<le> port | _ \<Rightarrow> False)"

lemma activate_eq:
  "\<not> cn_stop s \<Longrightarrow> activate p s =
     (Inr (), s\<lparr>cn_active_port := p, cn_events_q := cn_events_q s @ [PortActivatedEvent p]\<rparr>)"
  by (simp add: activate_def queue_event_def getS_def whenS_def modifyS_def bindS_def)

text \<open>Moving the active port keeps it inside the chain: from a port of the chain (or none),
  \<open>prev\<close>, \<open>next\<close> and \<open>set\<close> either leave everything as it is or activate a port of a unit of
  the chain and announce exactly that port.\<close>

theorem active_port_moves_within_chain:
  assumes "is_move c" and "\<not> cn_stop s" and "cn_active_port s < 4 * int (length (cn_units s))"
  shows "exec_cmd c s = (Inr (), s) \<or>
     (\<exists>p. 0 \<le> p \<and> p < 4 * int (length (cn_units s)) \<and>
       exec_cmd c s = (Inr (), s\<lparr>cn_active_port := p, cn_events_q := cn_events_q s @ [PortActivatedEvent p]\<rparr>))"
proof -
  let ?n = "length (cn_units s)"
  define p where "p = (case c of CmdSetActivePrev \<Rightarrow> cn_active_port s - 1
     | CmdSetActiveNext \<Rightarrow> (if cn_active_port s < 0 then 0 else cn_active_port s + 1)
     | CmdSetActivePort port \<Rightarrow> port | _ \<Rightarrow> 0)"
  define g where "g = (case c of CmdSetActivePrev \<Rightarrow> 0 < ?n \<and> 0 \<le> p | _ \<Rightarrow> p < int ?n * 4)"
  have "exec_cmd c s = whenS g (activate p) s" "g \<Longrightarrow> 0 \<le> p \<and> p < 4 * int ?n"
    using assms(1,3) by (auto simp: is_move_def g_def p_def exec_cmd_def getS_def whenS_def Let_def split: cmd.splits)
  then show ?thesis using activate_eq [OF assms(2), of p] by (auto simp: whenS_def retS_def)
qed

theorem active_port_moves_within_chain_witness:
  "\<exists>s. chain_init 1 True = Inr s \<and> (let s' = s\<lparr>cn_units := [sample_ctx], cn_active_port := 3\<rparr> in
     exec_cmd CmdSetActiveNext s' = (Inr (), s') \<or>
     (\<exists>p. 0 \<le> p \<and> p < 4 * int (length (cn_units s')) \<and> exec_cmd CmdSetActiveNext s' =
       (Inr (), s'\<lparr>cn_active_port := p, cn_events_q := cn_events_q s' @ [PortActivatedEvent p]\<rparr>)))"
proof -
  obtain s where s: "chain_init 1 True = Inr s" using sample_chain [of 1] by auto
  then have "\<not> cn_stop s" by (auto simp: chain_init_def bindR_Inr_iff)
  then show ?thesis
    unfolding Let_def
    by (intro exI [of _ s] conjI s active_port_moves_within_chain) (simp_all add: is_move_def)
qed

text \<open>When the chain gets shorter than the active port, \<open>prev\<close> activates and announces a
  port of a unit that is not there: the truncation does not reset the active port and the
  command checks only the lower bound.\<close>

theorem prev_outside_truncated_chain:
  assumes "resp = \<lparr>rs_header = h, rs_body = RState st\<rparr>" and "hd_unit h = 0" and "\<not> uf_has_downlink (us_flags st)"
    and "1 < length (cn_units s)" and "5 \<le> cn_active_port s" and "\<not> cn_stop s"
  shows "\<exists>t u. update_units resp s = (Inr (), t) \<and> length (cn_units t) = 1 \<and>
     exec_cmd CmdSetActivePrev t = (Inr (), u) \<and> cn_active_port u = cn_active_port s - 1 \<and>
     last (cn_events_q u) = PortActivatedEvent (cn_active_port s - 1) \<and>
     length (cn_units u) \<le> nat (fst (get_real_unit_channel (cn_active_port u)))"
proof -
  have "1 \<le> nat ((cn_active_port s - 1) div 4)" "cn_units s \<noteq> []" using assms(4,5) by auto
  then show ?thesis
    using assms
    by (simp add: update_units_def extend_units_def Let_def getS_def whenS_def modifyS_def queue_event_def
        set_unit_def bindS_def exec_cmd_def activate_def get_real_unit_channel_def)
qed

theorem prev_outside_truncated_chain_witness:
  "\<exists>s t u. chain_init 1 True = Inr s \<and>
     update_units \<lparr>rs_header = \<lparr>hd_proto = 1, hd_rid = 2, hd_op = 4, hd_unit = 0\<rparr>,
        rs_body = RState (unit_state_sample\<lparr>us_flags := \<lparr>uf_changing_busy = False, uf_flashing_busy = False,
          uf_has_downlink = False, uf_has_hpd = True\<rparr>\<rparr>)\<rparr>
       (s\<lparr>cn_units := [sample_ctx, sample_ctx], cn_active_port := 7\<rparr>) = (Inr (), t) \<and>
     exec_cmd CmdSetActivePrev t = (Inr (), u) \<and> last (cn_events_q u) = PortActivatedEvent 6 \<and> length (cn_units u) \<le> 1"
proof -
  obtain s where s: "chain_init 1 True = Inr s" using sample_chain [of 1] by auto
  then have ns: "\<not> cn_stop s" by (auto simp: chain_init_def bindR_Inr_iff)
  let ?st = "unit_state_sample\<lparr>us_flags := \<lparr>uf_changing_busy = False, uf_flashing_busy = False,
          uf_has_downlink = False, uf_has_hpd = True\<rparr>\<rparr>"
  let ?h = "\<lparr>hd_proto = 1, hd_rid = 2, hd_op = 4, hd_unit = 0\<rparr>"
  show ?thesis
    using s ns prev_outside_truncated_chain [of "\<lparr>rs_header = ?h, rs_body = RState ?st\<rparr>" ?h ?st
        "s\<lparr>cn_units := [sample_ctx, sample_ctx], cn_active_port := 7\<rparr>"]
    by (auto simp: get_real_unit_channel_def)
qed

section \<open>The idle loop\<close>

text \<open>The heartbeat is unreachable: an iteration with nothing to read always ends with the
  counter at one, whatever it was, and asks for no state; it only checks the configuration.\<close>

theorem idle_iteration_never_beats:
  assumes "dv_tty (cn_device s)" and "dv_up (cn_device s)" and "dv_in (cn_device s) = []" and "cn_cmd_q s = []"
  shows "main_loop_step now clk count s = bindS (ensure_config clk) (\<lambda>_. retS 1) s"
  using assms by (simp add: main_loop_step_def select_ready_def getS_def retS_def bindS_def)

theorem idle_iteration_never_beats_witness:
  "\<exists>s. chain_init 1 True = Inr s \<and> main_loop_step 9 (\<lambda>_ _. 9) 4 (s\<lparr>cn_device := device_open\<rparr>)
     = bindS (ensure_config (\<lambda>_ _. 9)) (\<lambda>_. retS 1) (s\<lparr>cn_device := device_open\<rparr>)"
proof -
  obtain s where s: "chain_init 1 True = Inr s" using sample_chain [of 1] by auto
  then have "cn_cmd_q s = []" by (auto simp: chain_init_def bindR_Inr_iff)
  then show ?thesis
    by (intro exI [of _ s] conjI s idle_iteration_never_beats) (simp_all add: device_open_def device_init_def)
qed

section \<open>Port numbers\<close>

definition digit_char :: "int \<Rightarrow> char" where
  "digit_char n = char_of (48 + n)"

text \<open>The notation \<open>unit.channel\<close> addresses the ports of the chain one to one: for unit
  \<open>u\<close> of 1..5 and channel \<open>c\<close> of 1..4 the translated port is the one whose unit and channel
  indices are \<open>u - 1\<close> and \<open>c - 1\<close>, and it is one of 0..19.\<close>

theorem translate_port_channels:
  assumes "u \<in> {1..5}" and "c \<in> {1..4}" and "0 \<le> v" and "rat_of_int (py_trunc v) \<noteq> v"
  shows "\<exists>p. translate_port \<lparr>pf_value = v, pf_str = [digit_char u, CHR ''.'', digit_char c]\<rparr> = Inr p \<and>
     get_real_unit_channel p = (u - 1, c - 1) \<and> get_virtual_port (u - 1) (c - 1) = p \<and> p \<in> {0..19}"
proof -
  have digit: "parse_digits [digit_char n] = Inr n \<and> digit_char n \<noteq> CHR ''.''" if "n \<in> {0..9}" for n
  proof -
    from that have "0 \<le> n \<and> n \<le> 9" by simp
    then have "n = 0 \<or> n = 1 \<or> n = 2 \<or> n = 3 \<or> n = 4 \<or> n = 5 \<or> n = 6 \<or> n = 7 \<or> n = 8 \<or> n = 9"
      by presburger
    moreover have "list_all (\<lambda>n. parse_digits [digit_char n] = Inr n \<and> digit_char n \<noteq> CHR ''.'')
        [0, 1, 2, 3, 4, 5, 6, 7, 8, 9]" by code_simp
    ultimately show ?thesis by auto
  qed
  have "split_dot [digit_char u, CHR ''.'', digit_char c] = [[digit_char u], [digit_char c]]"
    using digit [of u] digit [of c] assms(1,2) by simp
  moreover have "min ((u - 1) * 4 + (c - 1)) 19 = (u - 1) * 4 + (c - 1)" using assms(1,2) by auto
  ultimately have "translate_port \<lparr>pf_value = v, pf_str = [digit_char u, CHR ''.'', digit_char c]\<rparr>
      = Inr ((u - 1) * 4 + (c - 1))"
    using assms digit [of u] digit [of c] by (simp add: translate_port_def Let_def)
  moreover have "(a * 4 + b) div 4 = a \<and> (a * 4 + b) mod 4 = b" if "0 \<le> b" "b < 4" for a b :: int
    using that by (simp add: add.commute [of "a * 4"])
  from this [of "c - 1" "u - 1"] have "((u - 1) * 4 + (c - 1)) div 4 = u - 1" "((u - 1) * 4 + (c - 1)) mod 4 = c - 1"
    using assms(2) by auto
  ultimately show ?thesis
    using assms(1,2) unfolding get_real_unit_channel_def get_virtual_port_def
    by (intro exI [of _ "(u - 1) * 4 + (c - 1)"]) auto
qed

theorem translate_port_channels_witness:
  "\<exists>p. translate_port \<lparr>pf_value = 32 / 10, pf_str = [digit_char 3, CHR ''.'', digit_char 2]\<rparr> = Inr p \<and>
     get_real_unit_channel p = (3 - 1, 2 - 1) \<and> get_virtual_port (3 - 1) (2 - 1) = p \<and> p \<in> {0..19}"
proof -
  have "rat_of_int (py_trunc (32 / 10)) \<noteq> 32 / 10" by code_simp
  then show ?thesis by (intro translate_port_channels) simp_all
qed

end
