(* ===== verification/SwitchState.thy ===== *)
theory SwitchState
  imports SwitchChainSync
begin

text \<open>
  The state of the switch as the daemon's clients see it
  (\<open>kvmd/apps/kvmd/switch/state.py\<close>): the configuration, what the units have reported, and a
  queue of masks that say which parts of the state have changed.  The dictionary sent to the
  clients is a record with an optional part for each of its keys.
\<close>

section \<open>Decimal numbers\<close>

definition digit_of :: "nat \<Rightarrow> char" where
  "digit_of n = char_of (48 + n)"

fun nat_str :: "nat \<Rightarrow> string" where
  "nat_str n = (if n < 10 then [digit_of n] else nat_str (n div 10) @ [digit_of (n mod 10)])"

declare nat_str.simps [simp del]

text \<open>\<open>str(n)\<close> and \<open>f"{n}"\<close> for an integer.\<close>

definition int_str :: "int \<Rightarrow> string" where
  "int_str n = (if n < 0 then CHR ''-'' # nat_str (nat (- n)) else nat_str (nat n))"

section \<open>The cache\<close>

record unit_info =
  ui_state :: "unit_state option"
  ui_atx_leds :: "unit_atx_leds option"

record state_cache =
  sc_edids :: edids
  sc_dummies :: "bool ports_dict"
  sc_colors :: colors
  sc_port_names :: "pytext ports_dict"
  sc_atx_cp_delays :: "delay ports_dict"
  sc_atx_cpl_delays :: "delay ports_dict"
  sc_atx_cr_delays :: "delay ports_dict"
  sc_units :: "unit_info list"
  sc_active_port :: int
  sc_synced :: bool
  sc_queue :: "int list"

definition FW_VERSION :: int where "FW_VERSION = 9"

abbreviation (input) m_FULL :: int where "m_FULL \<equiv> 0xFFFF"
abbreviation (input) m_SUMMARY :: int where "m_SUMMARY \<equiv> 0x01"
abbreviation (input) m_EDIDS :: int where "m_EDIDS \<equiv> 0x02"
abbreviation (input) m_COLORS :: int where "m_COLORS \<equiv> 0x04"
abbreviation (input) m_VIDEO :: int where "m_VIDEO \<equiv> 0x08"
abbreviation (input) m_USB :: int where "m_USB \<equiv> 0x10"
abbreviation (input) m_BEACONS :: int where "m_BEACONS \<equiv> 0x20"
abbreviation (input) m_ATX :: int where "m_ATX \<equiv> 0x40"

definition state_cache_init :: "state_cache result" where
  "state_cache_init = bindR colors_default (\<lambda>cs. Inr
     \<lparr>sc_edids = mk_edids [] [], sc_dummies = dummies [], sc_colors = cs, sc_port_names = port_names [],
      sc_atx_cp_delays = atx_click_power_delays [], sc_atx_cpl_delays = atx_click_power_long_delays [],
      sc_atx_cr_delays = atx_click_reset_delays [], sc_units = [], sc_active_port = -1,
      sc_synced = True, sc_queue = []\<rparr>)"

definition cache_get_edids :: "state_cache \<Rightarrow> edids" where
  "cache_get_edids s = edids_copy (sc_edids s)"

definition cache_get_dummies :: "state_cache \<Rightarrow> bool ports_dict" where
  "cache_get_dummies s = pd_copy (sc_dummies s)"

definition cache_get_colors :: "state_cache \<Rightarrow> colors" where
  "cache_get_colors s = sc_colors s"

definition cache_get_port_names :: "state_cache \<Rightarrow> pytext ports_dict" where
  "cache_get_port_names s = pd_copy (sc_port_names s)"

definition cache_get_atx_cp_delays :: "state_cache \<Rightarrow> delay ports_dict" where
  "cache_get_atx_cp_delays s = pd_copy (sc_atx_cp_delays s)"

definition cache_get_atx_cpl_delays :: "state_cache \<Rightarrow> delay ports_dict" where
  "cache_get_atx_cpl_delays s = pd_copy (sc_atx_cpl_delays s)"

definition cache_get_atx_cr_delays :: "state_cache \<Rightarrow> delay ports_dict" where
  "cache_get_atx_cr_delays s = pd_copy (sc_atx_cr_delays s)"

definition bump_state :: "int \<Rightarrow> state_cache \<Rightarrow> state_cache result" where
  "bump_state m s = assertR (m \<noteq> 0) (Inr (s\<lparr>sc_queue := sc_queue s @ [m]\<rparr>))"

definition trigger_state :: "state_cache \<Rightarrow> state_cache result" where
  "trigger_state s = bump_state m_FULL s"

subsection \<open>The published state\<close>

record port_model =
  pm_unit :: nat
  pm_channel :: int
  pm_name :: pytext
  pm_id :: string
  pm_power :: delay
  pm_power_long :: delay
  pm_reset :: delay
  pm_dummy :: bool

record delay_limit =
  dl_default :: delay
  dl_min :: delay
  dl_max :: delay

record st_model =
  md_firmware :: int
  md_units :: "(int \<times> bool) list"
  md_ports :: "port_model list"
  md_limits :: "(string \<times> delay_limit) list"

record st_summary =
  sm_active_port :: int
  sm_active_id :: string
  sm_synced :: bool

record st_edids =
  sd_all :: "(string \<times> pytext \<times> pytext \<times> edid_info option) list"
  sd_used :: "string list"

record st_beacons =
  sb_uplinks :: "bool list"
  sb_downlinks :: "bool list"
  sb_ports :: "bool list"

record st_atx =
  sa_busy :: "bool list"
  sa_power :: "bool list"
  sa_hdd :: "bool list"

record switch_state =
  ss_model :: "st_model option"
  ss_summary :: "st_summary option"
  ss_edids :: "st_edids option"
  ss_colors :: "(string \<times> int \<times> int \<times> int \<times> int \<times> int) list option"
  ss_video :: "bool list option"
  ss_usb :: "bool list option"
  ss_beacons :: "st_beacons option"
  ss_atx :: "st_atx option"

definition is_units_ready :: "state_cache \<Rightarrow> bool" where
  "is_units_ready s = list_all (\<lambda>ui. ui_state ui \<noteq> None \<and> ui_atx_leds ui \<noteq> None) (sc_units s)"

definition active_id :: "state_cache \<Rightarrow> string" where
  "active_id s = (let p = sc_active_port s in
     if p < 0 then '''' else if length (sc_units s) > 1
     then int_str (p div 4 + 1) @ ''.'' @ int_str (p mod 4 + 1) else int_str (p + 1))"

definition color_comps :: "string \<Rightarrow> color \<Rightarrow> string \<times> int \<times> int \<times> int \<times> int \<times> int" where
  "color_comps role c = (role, co_red c, co_green c, co_blue c, co_brightness c, co_blink_ms c)"

definition state_colors :: "colors \<Rightarrow> (string \<times> int \<times> int \<times> int \<times> int \<times> int) list" where
  "state_colors cs = [color_comps ''inactive'' (cs_inactive cs), color_comps ''active'' (cs_active cs),
     color_comps ''flashing'' (cs_flashing cs), color_comps ''beacon'' (cs_beacon cs),
     color_comps ''bootloader'' (cs_bootloader cs)]"

definition port_model_of :: "state_cache \<Rightarrow> nat \<Rightarrow> int \<Rightarrow> port_model" where
  "port_model_of s unit ch = (let port = get_virtual_port (int unit) ch in
     \<lparr>pm_unit = unit, pm_channel = ch, pm_name = pd_get (sc_port_names s) port,
      pm_id = (if length (sc_units s) > 1 then int_str (int unit + 1) @ ''.'' @ int_str (ch + 1)
               else int_str (ch + 1)),
      pm_power = pd_get (sc_atx_cp_delays s) port, pm_power_long = pd_get (sc_atx_cpl_delays s) port,
      pm_reset = pd_get (sc_atx_cr_delays s) port, pm_dummy = pd_get (sc_dummies s) port\<rparr>)"

text \<open>The state before the loop over the units.\<close>

definition state_head :: "state_cache \<Rightarrow> int \<Rightarrow> switch_state" where
  "state_head s m =
     (let on = (\<lambda>k. m AND k \<noteq> 0); lim = (\<lambda>d. \<lparr>dl_default = d, dl_min = 0, dl_max = 10\<rparr>) in
     \<lparr>ss_model = (if m = m_FULL then Some \<lparr>md_firmware = FW_VERSION, md_units = [], md_ports = [],
        md_limits = [(''power'', lim (pd_default (sc_atx_cp_delays s))),
                     (''power_long'', lim (pd_default (sc_atx_cpl_delays s))),
                     (''reset'', lim (pd_default (sc_atx_cr_delays s)))]\<rparr> else None),
      ss_summary = (if on m_SUMMARY then Some \<lparr>sm_active_port = sc_active_port s,
        sm_active_id = active_id s, sm_synced = sc_synced s\<rparr> else None),
      ss_edids = (if on m_EDIDS then Some \<lparr>sd_all = map (\<lambda>(eid, e). (eid, ed_name e, edid_as_text e, ed_info e))
        (es_all (sc_edids s)), sd_used = []\<rparr> else None),
      ss_colors = (if on m_COLORS then Some (state_colors (sc_colors s)) else None),
      ss_video = (if on m_VIDEO then Some [] else None),
      ss_usb = (if on m_USB then Some [] else None),
      ss_beacons = (if on m_BEACONS then Some \<lparr>sb_uplinks = [], sb_downlinks = [], sb_ports = []\<rparr> else None),
      ss_atx = (if on m_ATX then Some \<lparr>sa_busy = [], sa_power = [], sa_hdd = []\<rparr> else None)\<rparr>)"

text \<open>What one ready unit appends to the lists of the parts that are there.\<close>

definition state_add_unit :: "state_cache \<Rightarrow> nat \<Rightarrow> unit_state \<Rightarrow> unit_atx_leds \<Rightarrow> switch_state \<Rightarrow> switch_state" where
  "state_add_unit s unit st leds r =
     r\<lparr>ss_model := map_option (\<lambda>md. md\<lparr>
          md_units := md_units md @ [(uv_sw (us_version st), uv_sw_dev (us_version st))],
          md_ports := md_ports md @ map (port_model_of s unit) [0, 1, 2, 3]\<rparr>) (ss_model r),
       ss_video := map_option (\<lambda>l. l @ take 4 (us_video_5v_sens st)) (ss_video r),
       ss_usb := map_option (\<lambda>l. l @ us_usb_5v_sens st) (ss_usb r),
       ss_beacons := map_option (\<lambda>b. \<lparr>sb_uplinks = sb_uplinks b @ [us_beacons st ! 5],
          sb_downlinks = sb_downlinks b @ [us_beacons st ! 4],
          sb_ports = sb_ports b @ take 4 (us_beacons st)\<rparr>) (ss_beacons r),
       ss_atx := map_option (\<lambda>a. \<lparr>sa_busy = sa_busy a @ us_atx_busy st,
          sa_power = sa_power a @ al_power leds, sa_hdd = sa_hdd a @ al_hdd leds\<rparr>) (ss_atx r),
       ss_edids := map_option (\<lambda>d. d\<lparr>sd_used := sd_used d @
          map (\<lambda>ch. edids_get_id_for_port (sc_edids s) (get_virtual_port (int unit) ch)) [0, 1, 2, 3]\<rparr>)
          (ss_edids r)\<rparr>"

fun state_units :: "state_cache \<Rightarrow> (nat \<times> unit_info) list \<Rightarrow> switch_state \<Rightarrow> switch_state result" where
  "state_units s [] r = Inr r"
| "state_units s ((unit, ui) # rest) r = (case (ui_state ui, ui_atx_leds ui) of
       (Some st, Some leds) \<Rightarrow> state_units s rest (state_add_unit s unit st leds r)
     | _ \<Rightarrow> Inl AssertionError)"

definition inner_get_state :: "int \<Rightarrow> state_cache \<Rightarrow> switch_state result" where
  "inner_get_state m s = assertR (m \<noteq> 0)
     (if \<not> is_units_ready s then Inr (state_head s m)
      else state_units s (enumerate 0 (sc_units s)) (state_head s m))"

definition get_state :: "state_cache \<Rightarrow> switch_state result" where
  "get_state s = inner_get_state m_FULL s"

text \<open>
  One step of \<open>poll_state\<close>: it is given the time and the mask taken from the queue (0 when
  nothing came within 0.1 s), and yields the new \<open>atx_ts\<close> and the mask of the state to send.
\<close>

definition poll_step :: "rat \<Rightarrow> int \<Rightarrow> rat \<Rightarrow> rat \<times> int option" where
  "poll_step now m atx_ts =
     (let send = (\<lambda>m ts. (ts, if m \<noteq> 0 then Some m else None)) in
      if m = m_ATX then
        (if atx_ts = 0 then (fl64 (now + fl64 (2 / 10)), None)
         else if atx_ts \<ge> now then (atx_ts, None)
         else send m atx_ts)
      else if m = 0 \<and> atx_ts > now then send m_ATX 0
      else if m AND m_ATX \<noteq> 0 then send m 0
      else send m atx_ts)"

fun poll_run :: "rat \<Rightarrow> (rat \<times> int) list \<Rightarrow> int list" where
  "poll_run atx_ts [] = []"
| "poll_run atx_ts ((now, m) # evs) = (case poll_step now m atx_ts of
       (ts, None) \<Rightarrow> poll_run ts evs | (ts, Some k) \<Rightarrow> k # poll_run ts evs)"

subsection \<open>Updates\<close>

fun check_edids :: "edids \<Rightarrow> nat \<Rightarrow> unit_state \<Rightarrow> int list \<Rightarrow> bool result" where
  "check_edids es unit st [] = Inr True"
| "check_edids es unit st (ch # chs) =
     bindR (edids_get_edid_for_port es (get_virtual_port (int unit) ch)) (\<lambda>edid.
     bindR (compare_edid st ch (Some edid)) (\<lambda>same. if \<not> same then Inr False else check_edids es unit st chs))"

fun check_colors :: "colors \<Rightarrow> unit_state \<Rightarrow> int list \<Rightarrow> bool result" where
  "check_colors cs st [] = Inr True"
| "check_colors cs st (ch # chs) = bindR (py_get (us_np_crc st) ch) (\<lambda>crc.
     if crc \<noteq> cs_crc cs then Inr False else check_colors cs st chs)"

fun check_synced_units :: "state_cache \<Rightarrow> (nat \<times> unit_info) list \<Rightarrow> bool result" where
  "check_synced_units s [] = Inr True"
| "check_synced_units s ((unit, ui) # rest) = (case ui_state ui of
       None \<Rightarrow> Inr False
     | Some st \<Rightarrow>
         if uf_changing_busy (us_flags st) then Inr False
         else if sc_active_port s \<ge> 0 \<and> us_ch st \<noteq> get_unit_target_channel (int unit) (sc_active_port s)
         then Inr False
         else bindR (check_edids (sc_edids s) unit st [0, 1, 2, 3]) (\<lambda>e.
           if \<not> e then Inr False
           else bindR (check_colors (sc_colors s) st [0, 1, 2, 3, 4, 5]) (\<lambda>c.
             if \<not> c then Inr False else check_synced_units s rest)))"

definition inner_check_synced :: "state_cache \<Rightarrow> bool result" where
  "inner_check_synced s = check_synced_units s (enumerate 0 (sc_units s))"

definition recache_synced :: "state_cache \<Rightarrow> (bool \<times> state_cache) result" where
  "recache_synced s = bindR (inner_check_synced s) (\<lambda>synced.
     Inr (if sc_synced s \<noteq> synced then (True, s\<lparr>sc_synced := synced\<rparr>) else (False, s)))"

definition cache_truncate :: "int \<Rightarrow> state_cache \<Rightarrow> state_cache result" where
  "cache_truncate units s = (if int (length (sc_units s)) > units
     then bump_state m_FULL (s\<lparr>sc_units := take (nat units) (sc_units s)\<rparr>) else Inr s)"

definition update_active_port :: "int \<Rightarrow> state_cache \<Rightarrow> state_cache result" where
  "update_active_port port s =
     (let changed = (sc_active_port s \<noteq> port) in
      bindR (recache_synced (s\<lparr>sc_active_port := port\<rparr>)) (\<lambda>(recached, s).
      if recached \<or> changed then bump_state m_SUMMARY s else Inr s))"

definition ensure_unit :: "int \<Rightarrow> state_cache \<Rightarrow> state_cache" where
  "ensure_unit unit s = s\<lparr>sc_units := sc_units s @
     replicate (nat (unit + 1) - length (sc_units s)) \<lparr>ui_state = None, ui_atx_leds = None\<rparr>\<rparr>"

definition update_unit_state :: "int \<Rightarrow> unit_state \<Rightarrow> state_cache \<Rightarrow> state_cache result" where
  "update_unit_state unit new s =
     (let s = ensure_unit unit s in
      bindR (py_get (sc_units s) unit) (\<lambda>ui.
      let prev = ui_state ui; s = s\<lparr>sc_units := (sc_units s)[nat unit := ui\<lparr>ui_state := Some new\<rparr>]\<rparr> in
      if \<not> is_units_ready s then Inr s
      else (case prev of
          None \<Rightarrow> bump_state m_FULL s
        | Some old \<Rightarrow> bindR (recache_synced s) (\<lambda>(recached, s).
            let m = (if recached then m_SUMMARY else 0);
                m = (if us_video_5v_sens old \<noteq> us_video_5v_sens new then m OR m_VIDEO else m);
                m = (if us_usb_5v_sens old \<noteq> us_usb_5v_sens new then m OR m_USB else m);
                m = (if us_beacons old \<noteq> us_beacons new then m OR m_BEACONS else m);
                m = (if us_atx_busy old \<noteq> us_atx_busy new then m OR m_ATX else m)
            in if m \<noteq> 0 then bump_state m s else Inr s))))"

definition update_unit_atx_leds :: "int \<Rightarrow> unit_atx_leds \<Rightarrow> state_cache \<Rightarrow> state_cache result" where
  "update_unit_atx_leds unit new s =
     (let s = ensure_unit unit s in
      bindR (py_get (sc_units s) unit) (\<lambda>ui.
      let prev = ui_atx_leds ui; s = s\<lparr>sc_units := (sc_units s)[nat unit := ui\<lparr>ui_atx_leds := Some new\<rparr>]\<rparr> in
      if \<not> is_units_ready s then Inr s
      else (case prev of None \<Rightarrow> bump_state m_FULL s
        | Some old \<Rightarrow> if old \<noteq> new then bump_state m_ATX s else Inr s)))"

subsection \<open>Setting the configuration\<close>

definition get_ports :: "state_cache \<Rightarrow> nat" where
  "get_ports s = length (sc_units s) * 4"

definition bump_if :: "bool \<Rightarrow> int \<Rightarrow> state_cache \<Rightarrow> state_cache result" where
  "bump_if changed m s = (if changed then bump_state m s else Inr s)"

definition cache_set_edids :: "edids \<Rightarrow> state_cache \<Rightarrow> state_cache result" where
  "cache_set_edids es s =
     (let changed = (\<not> dict_eq (es_all (sc_edids s)) (es_all es)
        \<or> \<not> edids_compare_on_ports (sc_edids s) es (get_ports s))
      in bump_if changed m_EDIDS (s\<lparr>sc_edids := edids_copy es\<rparr>))"

definition cache_set_dummies :: "bool ports_dict \<Rightarrow> state_cache \<Rightarrow> state_cache result" where
  "cache_set_dummies ds s = bump_if (\<not> pd_compare_on_ports (sc_dummies s) ds (get_ports s)) m_FULL
     (s\<lparr>sc_dummies := pd_copy ds\<rparr>)"

definition cache_set_colors :: "colors \<Rightarrow> state_cache \<Rightarrow> state_cache result" where
  "cache_set_colors cs s = bump_if (sc_colors s \<noteq> cs) m_COLORS (s\<lparr>sc_colors := cs\<rparr>)"

definition cache_set_port_names :: "pytext ports_dict \<Rightarrow> state_cache \<Rightarrow> state_cache result" where
  "cache_set_port_names ns s = bump_if (\<not> pd_compare_on_ports (sc_port_names s) ns (get_ports s)) m_FULL
     (s\<lparr>sc_port_names := pd_copy ns\<rparr>)"

definition cache_set_atx_cp_delays :: "delay ports_dict \<Rightarrow> state_cache \<Rightarrow> state_cache result" where
  "cache_set_atx_cp_delays ds s = bump_if (\<not> pd_compare_on_ports (sc_atx_cp_delays s) ds (get_ports s)) m_FULL
     (s\<lparr>sc_atx_cp_delays := pd_copy ds\<rparr>)"

definition cache_set_atx_cpl_delays :: "delay ports_dict \<Rightarrow> state_cache \<Rightarrow> state_cache result" where
  "cache_set_atx_cpl_delays ds s = bump_if (\<not> pd_compare_on_ports (sc_atx_cpl_delays s) ds (get_ports s)) m_FULL
     (s\<lparr>sc_atx_cpl_delays := pd_copy ds\<rparr>)"

definition cache_set_atx_cr_delays :: "delay ports_dict \<Rightarrow> state_cache \<Rightarrow> state_cache result" where
  "cache_set_atx_cr_delays ds s = bump_if (\<not> pd_compare_on_ports (sc_atx_cr_delays s) ds (get_ports s)) m_FULL
     (s\<lparr>sc_atx_cr_delays := pd_copy ds\<rparr>)"

section \<open>Delayed power and disk LEDs\<close>

lemma poll_run_quiet:
  assumes "list_all (\<lambda>(now, m). m AND m_ATX = 0 \<and> (m = 0 \<longrightarrow> ts \<le> now)) evs"
  shows "list_all (\<lambda>k. k AND m_ATX = 0) (poll_run ts evs)"
  using assms
proof (induction evs)
  case (Cons ev evs)
  obtain now m where ev: "ev = (now, m)" by (cases ev)
  have "poll_step now m ts = (ts, if m \<noteq> 0 then Some m else None)"
    using Cons.prems ev by (auto simp: poll_step_def Let_def)
  with Cons ev show ?case by simp
qed simp

lemma delay_sample: "fl64 (10 + fl64 (2 / 10)) \<le> 10 + 28 / 100"
proof -
  have "fl64 (2 / 10) \<le> 2 / 10 + 2 / 10 / 2 ^ 53" by (rule fl64_upper) simp
  moreover have "0 \<le> fl64 (2 / 10)" by (rule fl64_nonneg) simp
  ultimately show ?thesis using fl64_upper [of "10 + fl64 (2 / 10)"] by (simp add: field_simps)
qed

text \<open>A delayed change of the power or disk LEDs can be lost: when other changes keep
  the queue busy until the delay of 0.2 s has passed, the update that was held back is never
  sent, neither then nor after any number of idle polls.\<close>

theorem delayed_atx_update_lost:
  assumes "ts = fl64 (t0 + fl64 (2 / 10))"
    and "list_all (\<lambda>(now, m). m AND m_ATX = 0 \<and> (m = 0 \<longrightarrow> ts \<le> now)) evs"
  shows "list_all (\<lambda>k. k AND m_ATX = 0) (poll_run 0 ((t0, m_ATX) # evs))"
  using poll_run_quiet [OF assms(2)] by (simp add: poll_step_def Let_def assms(1))

theorem delayed_atx_update_lost_witness:
  "list_all (\<lambda>k. k AND m_ATX = 0) (poll_run 0 ((10, m_ATX) #
     [(10 + 9 / 100, m_SUMMARY), (10 + 18 / 100, m_USB), (10 + 28 / 100, 0), (10 + 38 / 100, 0)]))"
proof -
  have "list_all (\<lambda>(now, m). m AND m_ATX = 0 \<and> (m = 0 \<longrightarrow> fl64 (10 + fl64 (2 / 10)) \<le> now))
    [(10 + 9 / 100, m_SUMMARY), (10 + 18 / 100, m_USB), (10 + 28 / 100, 0), (10 + 38 / 100, 0)]"
    using delay_sample by simp
  from delayed_atx_update_lost [OF refl this] show ?thesis .
qed

text \<open>When the queue idles before the delay has passed, the update is sent once.\<close>

lemma delayed_atx_update_sent:
  "t1 < fl64 (t0 + fl64 (2 / 10)) \<Longrightarrow> fl64 (t0 + fl64 (2 / 10)) \<noteq> 0 \<Longrightarrow> poll_run 0 [(t0, m_ATX), (t1, 0)] = [m_ATX]"
  by (simp add: poll_step_def Let_def)

section \<open>The synchronised flag\<close>

lemma check_edids_eq:
  assumes "edids_wf (cn_edids c)" "unit_state_ok st" "\<forall>ch \<in> set chs. 0 \<le> ch \<and> ch \<le> 3"
  shows "check_edids (cn_edids c) i st chs = Inr (\<forall>ch \<in> set chs. edid_in_sync c i st ch)"
  using assms(3)
proof (induction chs)
  case (Cons ch chs)
  obtain e where e: "edids_get_edid_for_port (cn_edids c) (get_virtual_port (int i) ch) = Inr e"
    using edids_lookup_ok [OF assms(1)] by blast
  have "\<exists>b. compare_edid st ch (Some e) = Inr b"
    using Cons.prems assms(2) by (auto simp: compare_edid_def unit_state_ok_def py_get_ok)
  with e Cons show ?case by (auto simp: edid_in_sync_def)
qed simp

lemma check_colors_eq:
  assumes "unit_state_ok st" "\<forall>np \<in> set nps. 0 \<le> np \<and> np \<le> 5"
  shows "check_colors cs st nps = Inr (\<forall>np \<in> set nps. us_np_crc st ! nat np = cs_crc cs)"
  using assms(2) by (induction nps) (use assms(1) in \<open>auto simp: unit_state_ok_def py_get_ok\<close>)

lemma range_0_3: "{0..3::int} = set [0, 1, 2, 3]"
  by auto

lemma below_6: "(\<forall>np < 6. P np) = (\<forall>np \<in> set [0, 1, 2, 3, 4, 5 :: int]. P (nat np))"
proof -
  have "{np. np < (6::nat)} = {0, 1, 2, 3, 4, 5}" by auto
  moreover have "(\<forall>np < 6. P np) = (\<forall>np \<in> {np. np < (6::nat)}. P np)" by simp
  ultimately show ?thesis by simp
qed

text \<open>The cache and the controller see the same units and the same configuration.\<close>

definition same_view :: "state_cache \<Rightarrow> chain \<Rightarrow> bool" where
  "same_view s c = (map ui_state (sc_units s) = map uc_state (cn_units c) \<and> sc_edids s = cn_edids c
     \<and> sc_colors s = cn_colors c \<and> sc_active_port s = cn_active_port c)"

lemma check_synced_units_eq:
  assumes "edids_wf (cn_edids c)" "same_view s c" "cn_actual c"
    and "\<And>i ui. (i, ui) \<in> set us \<Longrightarrow> \<exists>st. ui_state ui = Some st \<and> unit_state_ok st
      \<and> \<not> uf_changing_busy (us_flags st) \<and> \<not> is_fresh (us_version st) 8"
  shows "check_synced_units s us = Inr (\<forall>(i, ui) \<in> set us. unit_in_sync c i (the (ui_state ui)))"
  using assms(4)
proof (induction us)
  case (Cons p us)
  obtain i ui where p: "p = (i, ui)" by (cases p)
  obtain st where st: "ui_state ui = Some st" "unit_state_ok st" "\<not> uf_changing_busy (us_flags st)"
      "\<not> is_fresh (us_version st) 8"
    using Cons.prems [of i ui] p by auto
  have IH: "check_synced_units s us = Inr (\<forall>(i, ui) \<in> set us. unit_in_sync c i (the (ui_state ui)))"
    by (rule Cons.IH) (auto intro: Cons.prems)
  have e: "check_edids (cn_edids c) i st [0, 1, 2, 3] = Inr (\<forall>ch \<in> {0..3}. edid_in_sync c i st ch)"
    using check_edids_eq [OF assms(1) st(2), of "[0, 1, 2, 3]" i] by (simp add: range_0_3)
  have k: "check_colors (cn_colors c) st [0, 1, 2, 3, 4, 5] = Inr (\<forall>np < 6. us_np_crc st ! np = cs_crc (cn_colors c))"
    using check_colors_eq [OF st(2), of "[0, 1, 2, 3, 4, 5]"] by (simp only: below_6) simp
  show ?case
    using assms(2,3) st IH unfolding p check_synced_units.simps same_view_def
    by (auto simp: e k unit_in_sync_def port_in_sync_def simp del: check_edids.simps check_colors.simps)
qed simp

lemma all_enumerate: "(\<forall>(i, x) \<in> set (enumerate 0 xs). P i x) \<longleftrightarrow> (\<forall>i < length xs. P i (xs ! i))"
  unfolding Ball_def split_paired_All in_set_enumerate_eq by auto


definition old_unit_state :: unit_state where
  "old_unit_state = unit_state_sample\<lparr>us_version := \<lparr>uv_hw = 1, uv_sw = 7, uv_sw_dev = False\<rparr>\<rparr>"

definition view_of :: "chain \<Rightarrow> state_cache" where
  "view_of c = \<lparr>sc_edids = cn_edids c, sc_dummies = dummies [], sc_colors = cn_colors c, sc_port_names = port_names [],
      sc_atx_cp_delays = atx_click_power_delays [], sc_atx_cpl_delays = atx_click_power_long_delays [],
      sc_atx_cr_delays = atx_click_reset_delays [],
      sc_units = map (\<lambda>u. \<lparr>ui_state = uc_state u, ui_atx_leds = uc_atx_leds u\<rparr>) (cn_units c),
      sc_active_port = cn_active_port c, sc_synced = True, sc_queue = []\<rparr>"


text \<open>The first report of a unit does not refresh the flag: a unit that is still switching
  is published with the full state as synchronised, although the check of the cache fails.\<close>

theorem first_report_stale_synced:
  assumes "sc_units s = [\<lparr>ui_state = None, ui_atx_leds = Some leds\<rparr>]" and "sc_synced s"
    and "uf_changing_busy (us_flags new)"
  shows "\<exists>t. update_unit_state 0 new s = Inr t \<and> sc_queue t = sc_queue s @ [m_FULL] \<and>
     inner_check_synced t = Inr False \<and>
     (\<exists>r. get_state t = Inr r \<and> map_option sm_synced (ss_summary r) = Some True)"
  using assms
  by (simp add: update_unit_state_def ensure_unit_def py_get_def py_index_def Let_def is_units_ready_def
      bump_state_def inner_check_synced_def get_state_def inner_get_state_def state_head_def state_add_unit_def)

definition cache_sample :: state_cache where
  "cache_sample = \<lparr>sc_edids = \<lparr>es_all = [], es_port = []\<rparr>, sc_dummies = dummies [],
      sc_colors = \<lparr>cs_inactive = color_default, cs_active = color_default, cs_flashing = color_default,
        cs_beacon = color_default, cs_bootloader = color_default, cs_crc = 0, cs_packed = []\<rparr>,
      sc_port_names = port_names [], sc_atx_cp_delays = atx_click_power_delays [],
      sc_atx_cpl_delays = atx_click_power_long_delays [], sc_atx_cr_delays = atx_click_reset_delays [],
      sc_units = [\<lparr>ui_state = None, ui_atx_leds = Some \<lparr>al_power = [], al_hdd = []\<rparr>\<rparr>],
      sc_active_port = -1, sc_synced = True, sc_queue = []\<rparr>"

theorem first_report_stale_synced_witness:
  "let new = unit_state_sample\<lparr>us_flags := \<lparr>uf_changing_busy = True, uf_flashing_busy = False,
      uf_has_downlink = False, uf_has_hpd = True\<rparr>\<rparr> in
   \<exists>t. update_unit_state 0 new cache_sample = Inr t \<and> sc_queue t = sc_queue cache_sample @ [m_FULL] \<and>
     inner_check_synced t = Inr False \<and>
     (\<exists>r. get_state t = Inr r \<and> map_option sm_synced (ss_summary r) = Some True)"
  unfolding Let_def by (rule first_report_stale_synced) (simp_all add: cache_sample_def)

section \<open>The full state\<close>

definition unit_ready :: "unit_info \<Rightarrow> bool" where
  "unit_ready ui = (pred_option unit_state_ok (ui_state ui) \<and> pred_option leds_ok (ui_atx_leds ui)
     \<and> ui_state ui \<noteq> None \<and> ui_atx_leds ui \<noteq> None)"

text \<open>The lengths of the lists of a state that depend on the units, and its per-port lists.\<close>

definition state_lengths :: "switch_state \<Rightarrow> nat option list" where
  "state_lengths r = [map_option (length \<circ> md_units) (ss_model r), map_option length (ss_video r),
     map_option length (ss_usb r), map_option (length \<circ> sb_uplinks) (ss_beacons r),
     map_option (length \<circ> sb_downlinks) (ss_beacons r), map_option (length \<circ> sb_ports) (ss_beacons r),
     map_option (length \<circ> sa_busy) (ss_atx r), map_option (length \<circ> sa_power) (ss_atx r),
     map_option (length \<circ> sa_hdd) (ss_atx r)]"

definition port_of_index :: "state_cache \<Rightarrow> nat \<Rightarrow> port_model" where
  "port_of_index s p = port_model_of s (p div 4) (int (p mod 4))"

lemma four_ports:
  "map (port_of_index s) [4 * k..<4 * Suc k] = map (port_model_of s k) [0, 1, 2, 3]"
  "map (\<lambda>p. edids_get_id_for_port es (int p)) [4 * k..<4 * Suc k]
     = map (\<lambda>ch. edids_get_id_for_port es (get_virtual_port (int k) ch)) [0, 1, 2, 3]"
proof -
  have r: "[4 * k..<4 * Suc k] = [4 * k, 4 * k + 1, 4 * k + 2, 4 * k + 3]"
    by (simp add: upt_rec)
  have p: "j < 4 \<Longrightarrow> port_of_index s (4 * k + j) = port_model_of s k (int j)" for j
    by (simp add: port_of_index_def)
  show "map (port_of_index s) [4 * k..<4 * Suc k] = map (port_model_of s k) [0, 1, 2, 3]"
    using p [of 0] p [of 1] p [of 2] p [of 3] unfolding r by simp
  show "map (\<lambda>p. edids_get_id_for_port es (int p)) [4 * k..<4 * Suc k]
     = map (\<lambda>ch. edids_get_id_for_port es (get_virtual_port (int k) ch)) [0, 1, 2, 3]"
    unfolding r by (simp add: get_virtual_port_def algebra_simps)
qed

lemma state_units_full:
  assumes "list_all unit_ready us"
  shows "\<exists>r'. state_units s (enumerate k us) r = Inr r' \<and>
     state_lengths r' = map2 (\<lambda>x c. map_option (\<lambda>l. l + c * length us) x) (state_lengths r) [1, 4, 4, 1, 1, 4, 4, 4, 4] \<and>
     map_option md_ports (ss_model r') =
       map_option (\<lambda>m. md_ports m @ map (port_of_index s) [4 * k..<4 * (k + length us)]) (ss_model r) \<and>
     map_option sd_used (ss_edids r') =
       map_option (\<lambda>d. sd_used d @ map (\<lambda>p. edids_get_id_for_port (sc_edids s) (int p)) [4 * k..<4 * (k + length us)]) (ss_edids r)"
  using assms
proof (induction us arbitrary: k r)
  case Nil
  then show ?case by (simp add: state_lengths_def option.map_comp o_def option.map_ident)
next
  case (Cons ui us)
  obtain st leds where u: "ui_state ui = Some st" "ui_atx_leds ui = Some leds" "unit_state_ok st" "leds_ok leds"
    using Cons.prems by (auto simp: unit_ready_def)
  let ?r = "state_add_unit s k st leds r"
  have split: "[4 * k..<4 * (k + Suc n)] = [4 * k..<4 * Suc k] @ [4 * Suc k..<4 * (Suc k + n)]" for n
    using upt_add_eq_append [of "4 * k" "4 * Suc k" "4 * n"] by (simp add: algebra_simps)
  have len: "state_lengths ?r = map2 (\<lambda>x c. map_option (\<lambda>l. l + c) x) (state_lengths r) [1, 4, 4, 1, 1, 4, 4, 4, 4]"
    using u by (simp add: state_lengths_def state_add_unit_def option.map_comp o_def unit_state_ok_def leds_ok_def)
  have ports: "map_option md_ports (ss_model ?r) =
      map_option (\<lambda>m. md_ports m @ map (port_of_index s) [4 * k..<4 * Suc k]) (ss_model r)"
    unfolding four_ports by (simp add: state_add_unit_def option.map_comp o_def)
  have used: "map_option sd_used (ss_edids ?r) =
      map_option (\<lambda>d. sd_used d @ map (\<lambda>p. edids_get_id_for_port (sc_edids s) (int p)) [4 * k..<4 * Suc k]) (ss_edids r)"
    unfolding four_ports by (simp add: state_add_unit_def option.map_comp o_def)
  obtain r' where r': "state_units s (enumerate (Suc k) us) ?r = Inr r'"
    "state_lengths r' = map2 (\<lambda>x c. map_option (\<lambda>l. l + c * length us) x) (state_lengths ?r) [1, 4, 4, 1, 1, 4, 4, 4, 4]"
    "map_option md_ports (ss_model r') =
       map_option (\<lambda>m. md_ports m @ map (port_of_index s) [4 * Suc k..<4 * (Suc k + length us)]) (ss_model ?r)"
    "map_option sd_used (ss_edids r') =
       map_option (\<lambda>d. sd_used d @ map (\<lambda>p. edids_get_id_for_port (sc_edids s) (int p)) [4 * Suc k..<4 * (Suc k + length us)]) (ss_edids ?r)"
    using Cons.IH [of "Suc k" ?r] Cons.prems by auto
  have "state_lengths r' = map2 (\<lambda>x c. map_option (\<lambda>l. l + c * length (ui # us)) x) (state_lengths r) [1, 4, 4, 1, 1, 4, 4, 4, 4]"
    unfolding r'(2) len by (simp add: state_lengths_def option.map_comp o_def algebra_simps)
  moreover have "map_option md_ports (ss_model r') =
       map_option (\<lambda>m. md_ports m @ map (port_of_index s) [4 * k..<4 * (k + length (ui # us))]) (ss_model r)"
    using r'(3) ports unfolding length_Cons split map_append
    by (cases "ss_model r"; cases "ss_model ?r") auto
  moreover have "map_option sd_used (ss_edids r') =
       map_option (\<lambda>d. sd_used d @ map (\<lambda>p. edids_get_id_for_port (sc_edids s) (int p)) [4 * k..<4 * (k + length (ui # us))]) (ss_edids r)"
    using r'(4) used unfolding length_Cons split map_append
    by (cases "ss_edids r"; cases "ss_edids ?r") auto
  ultimately show ?case using r'(1) u by simp
qed

text \<open>The full state describes every port exactly once and in port order: with all units
  ready, port \<open>p\<close> of the list carries the unit, channel, name, delays and dummy flag of port
  \<open>p\<close>, the list of used EDIDs the one assigned to \<open>p\<close>, and the lists of links, lamps and
  beacons have four entries a unit.\<close>

theorem full_state_covers_ports:
  assumes "list_all unit_ready (sc_units s)" and "n = length (sc_units s)"
  shows "\<exists>r. get_state s = Inr r \<and>
     map_option md_ports (ss_model r) = Some (map (port_of_index s) [0..<4 * n]) \<and>
     map_option sd_used (ss_edids r) = Some (map (\<lambda>p. edids_get_id_for_port (sc_edids s) (int p)) [0..<4 * n]) \<and>
     state_lengths r = map Some [n, 4 * n, 4 * n, n, n, 4 * n, 4 * n, 4 * n, 4 * n]"
proof -
  have ready: "is_units_ready s" using assms(1) by (auto simp: is_units_ready_def unit_ready_def list_all_iff)
  then have "get_state s = state_units s (enumerate 0 (sc_units s)) (state_head s m_FULL)"
    by (simp add: get_state_def inner_get_state_def)
  with state_units_full [OF assms(1), of s 0 "state_head s m_FULL"] assms(2) show ?thesis
    by (auto simp: state_head_def state_lengths_def Let_def)
qed

theorem full_state_covers_ports_witness:
  "\<exists>r. get_state (cache_sample\<lparr>sc_units := [\<lparr>ui_state = Some unit_state_sample,
       ui_atx_leds = Some \<lparr>al_power = [True, False, True, False], al_hdd = [False, False, False, False]\<rparr>\<rparr>]\<rparr>) = Inr r \<and>
     state_lengths r = map Some [1, 4, 4, 1, 1, 4, 4, 4, 4]"
proof -
  let ?s = "cache_sample\<lparr>sc_units := [\<lparr>ui_state = Some unit_state_sample,
       ui_atx_leds = Some \<lparr>al_power = [True, False, True, False], al_hdd = [False, False, False, False]\<rparr>\<rparr>]\<rparr>"
  have "list_all unit_ready (sc_units ?s)"
    by (simp add: unit_ready_def leds_ok_def unit_state_ok_def unit_state_sample_def is_u16_def)
  from full_state_covers_ports [OF this, of 1] show ?thesis by auto
qed

end
