(* ===== verification/SwitchStorage.thy ===== *)
theory SwitchStorage
  imports SwitchState
begin

text \<open>
  The files the switch configuration is kept in (\<open>kvmd/apps/kvmd/switch/storage.py\<close>).  A file
  is the JSON object \<open>json.loads\<close> reads from it; what \<open>json.dumps\<close> writes is read back as it
  was.  A directory maps file names to files.
\<close>

section \<open>Keys\<close>

lemma digit_val_of: "n < 10 \<Longrightarrow> digit_val (digit_of n) = Some (int n)"
  by (simp add: digit_val_def digit_of_def)

lemma digits_value_append:
  "digits_value acc (s @ t) = (case digits_value acc s of None \<Rightarrow> None | Some a \<Rightarrow> digits_value a t)"
  by (induction acc s rule: digits_value.induct) (auto split: option.split)

lemma digits_value_nat_str: "digits_value 0 (nat_str n) = Some (int n)"
proof (induction n rule: nat_str.induct)
  case (1 n)
  show ?case
  proof (cases "n < 10")
    case True
    then show ?thesis by (subst nat_str.simps) (simp add: digit_val_of)
  next
    case False
    then have "digits_value 0 (nat_str (n div 10)) = Some (int (n div 10))" using 1 by simp
    then show ?thesis using False
      by (subst nat_str.simps) (simp add: digits_value_append digit_val_of zdiv_int zmod_int)
  qed
qed

lemma nat_str_first: "nat_str n \<noteq> [] \<and> hd (nat_str n) \<in> digit_of ` {..<10}"
proof (induction n rule: nat_str.induct)
  case (1 n)
  show ?case
  proof (cases "n < 10")
    case True
    then show ?thesis by (subst (1 2) nat_str.simps) auto
  next
    case False
    with 1 show ?thesis by (subst (1 2) nat_str.simps) auto
  qed
qed

text \<open>\<open>int(key)\<close> for the keys \<open>str\<close> writes: an optional sign and decimal digits.\<close>

definition py_int10 :: "string \<Rightarrow> int result" where
  "py_int10 s = (case s of c # r \<Rightarrow> if c = CHR ''-'' then bindR (parse_digits r) (\<lambda>n. Inr (- n)) else parse_digits s
     | [] \<Rightarrow> Inl ValueError)"

lemma parse_nat_str: "parse_digits (nat_str n) = Inr (int n)"
  using nat_str_first [of n] by (simp add: parse_digits_def digits_value_nat_str)

lemma py_int10_str [simp]: "py_int10 (int_str n) = Inr n"
proof (cases "n < 0")
  case True
  then show ?thesis by (simp add: py_int10_def int_str_def parse_nat_str)
next
  case False
  have minus: "m < 10 \<Longrightarrow> digit_of m \<noteq> CHR ''-''" for m
  proof -
    assume "m < 10"
    then have "digit_val (digit_of m) = Some (int m)" by (rule digit_val_of)
    then show ?thesis by (auto simp: digit_val_def)
  qed
  obtain c r where s: "nat_str (nat n) = c # r" using nat_str_first [of "nat n"] by (cases "nat_str (nat n)") auto
  then have "c \<noteq> CHR ''-''" using nat_str_first [of "nat n"] minus by auto
  then show ?thesis using False s parse_nat_str [of "nat n"] by (simp add: py_int10_def int_str_def)
qed

lemma int_str_inj: "int_str a = int_str b \<Longrightarrow> a = b"
  by (metis py_int10_str sum.inject(2))

section \<open>Files\<close>

datatype json = JNull | JBool bool | JNum rat | JStr pytext | JObj "(string \<times> json) list"

type_synonym json_obj = "(string, json) dict"

record storage_ctx =
  sx_rw :: bool
  sx_files :: "(string, json_obj) dict"

text \<open>A file that does not exist reads as the empty object.\<close>

definition read_json_keyvals :: "storage_ctx \<Rightarrow> string \<Rightarrow> json_obj" where
  "read_json_keyvals x name = dict_get (sx_files x) name []"

text \<open>A dictionary comprehension: later keys overwrite earlier ones.\<close>

definition read_json_keyvals_int :: "storage_ctx \<Rightarrow> string \<Rightarrow> (int, json) dict result" where
  "read_json_keyvals_int x name =
     bindR (mapR (\<lambda>(k, v). bindR (py_int10 k) (\<lambda>i. Inr (i, v))) (read_json_keyvals x name))
       (\<lambda>kvs. Inr (dict_of kvs))"

definition write_json_keyvals :: "string \<Rightarrow> json_obj \<Rightarrow> storage_ctx \<Rightarrow> storage_ctx result" where
  "write_json_keyvals name kvs x = assertR (sx_rw x)
     (let kvs = dict_of kvs in
      if dict_eq (read_json_keyvals x name) kvs then Inr x
      else Inr (x\<lparr>sx_files := AList.update name kvs (sx_files x)\<rparr>))"

definition str_keys :: "(int, json) dict \<Rightarrow> json_obj" where
  "str_keys kvs = map (\<lambda>(k, v). (int_str k, v)) kvs"

text \<open>What was written is read back, whether or not the file was touched.\<close>

lemma read_after_write:
  "write_json_keyvals name kvs x = Inr x' \<Longrightarrow> dict_wf (read_json_keyvals x name) \<Longrightarrow>
     map_of (read_json_keyvals x' name) = map_of (dict_of kvs) \<and> dict_wf (read_json_keyvals x' name)"
  by (auto simp: write_json_keyvals_def assertR_Inr_iff Let_def dict_eq_iff read_json_keyvals_def dict_get_def
      split: if_splits)

lemma read_other_after_write:
  "write_json_keyvals name kvs x = Inr x' \<Longrightarrow> other \<noteq> name \<Longrightarrow> read_json_keyvals x' other = read_json_keyvals x other"
  by (auto simp: write_json_keyvals_def assertR_Inr_iff Let_def read_json_keyvals_def dict_get_def
      split: if_splits)

section \<open>Dictionaries of ports\<close>

text \<open>\<open>write_dummies\<close>, \<open>write_port_names\<close> and the delays differ in the file and the JSON type.\<close>

definition write_ports :: "('a \<Rightarrow> json) \<Rightarrow> string \<Rightarrow> 'a ports_dict \<Rightarrow> storage_ctx \<Rightarrow> storage_ctx result" where
  "write_ports enc name m x = write_json_keyvals name (str_keys (map (\<lambda>(k, v). (k, enc v)) (pd_kvs m))) x"

definition map_values :: "('v \<Rightarrow> 'w result) \<Rightarrow> ('k, 'v) dict \<Rightarrow> ('k, 'w) dict result" where
  "map_values dec kvs = mapR (\<lambda>(k, v). bindR (dec v) (\<lambda>w. Inr (k, w))) kvs"

definition read_typed :: "(json \<Rightarrow> 'a result) \<Rightarrow> string \<Rightarrow> storage_ctx \<Rightarrow> (int, 'a) dict result" where
  "read_typed dec name x = bindR (read_json_keyvals_int x name) (map_values dec)"

definition read_ports :: "(json \<Rightarrow> 'a result) \<Rightarrow> 'a \<Rightarrow> string \<Rightarrow> storage_ctx \<Rightarrow> 'a ports_dict result" where
  "read_ports dec d name x = bindR (read_typed dec name x) (\<lambda>kvs. Inr (pd_init d kvs))"

text \<open>Python's \<open>bool(value)\<close>; names and delays are taken as they are.\<close>

definition json_bool :: "json \<Rightarrow> bool result" where
  "json_bool v = Inr (case v of JNull \<Rightarrow> False | JBool b \<Rightarrow> b | JNum q \<Rightarrow> q \<noteq> 0 | JStr t \<Rightarrow> t \<noteq> [] | JObj kvs \<Rightarrow> kvs \<noteq> [])"

definition json_str :: "json \<Rightarrow> pytext result" where
  "json_str v = (case v of JStr t \<Rightarrow> Inr t | _ \<Rightarrow> Inl TypeError)"

definition json_num :: "json \<Rightarrow> rat result" where
  "json_num v = (case v of JNum q \<Rightarrow> Inr q | _ \<Rightarrow> Inl TypeError)"

definition write_dummies :: "bool ports_dict \<Rightarrow> storage_ctx \<Rightarrow> storage_ctx result" where
  "write_dummies = write_ports JBool ''dummies.json''"

definition read_dummies :: "storage_ctx \<Rightarrow> bool ports_dict result" where
  "read_dummies = read_ports json_bool True ''dummies.json''"

definition write_port_names :: "pytext ports_dict \<Rightarrow> storage_ctx \<Rightarrow> storage_ctx result" where
  "write_port_names = write_ports JStr ''port_names.json''"

definition read_port_names :: "storage_ctx \<Rightarrow> pytext ports_dict result" where
  "read_port_names = read_ports json_str [] ''port_names.json''"

definition write_atx_cp_delays :: "delay ports_dict \<Rightarrow> storage_ctx \<Rightarrow> storage_ctx result" where
  "write_atx_cp_delays = write_ports JNum ''atx_click_power_delays.json''"

definition read_atx_cp_delays :: "storage_ctx \<Rightarrow> delay ports_dict result" where
  "read_atx_cp_delays = read_ports json_num (1 / 2) ''atx_click_power_delays.json''"

definition write_atx_cpl_delays :: "delay ports_dict \<Rightarrow> storage_ctx \<Rightarrow> storage_ctx result" where
  "write_atx_cpl_delays = write_ports JNum ''atx_click_power_long_delays.json''"

definition read_atx_cpl_delays :: "storage_ctx \<Rightarrow> delay ports_dict result" where
  "read_atx_cpl_delays = read_ports json_num (11 / 2) ''atx_click_power_long_delays.json''"

definition write_atx_cr_delays :: "delay ports_dict \<Rightarrow> storage_ctx \<Rightarrow> storage_ctx result" where
  "write_atx_cr_delays = write_ports JNum ''atx_click_reset_delays.json''"

definition read_atx_cr_delays :: "storage_ctx \<Rightarrow> delay ports_dict result" where
  "read_atx_cr_delays = read_ports json_num (1 / 2) ''atx_click_reset_delays.json''"

lemma map_of_str_keys:
  "map_of (str_keys (map (\<lambda>(k, v). (k, enc v)) kvs)) (int_str k) = map_option enc (map_of kvs k)"
  by (induction kvs) (auto simp: str_keys_def dest: int_str_inj)

lemma map_of_str_keys_Some:
  "map_of (str_keys (map (\<lambda>(k, v). (k, enc v)) kvs)) s = Some j \<Longrightarrow>
     \<exists>k v. s = int_str k \<and> j = enc v"
  by (induction kvs) (auto simp: str_keys_def split: if_splits)

lemma map_of_parsed_keys:
  "(\<And>s j. (s, j) \<in> set f \<Longrightarrow> \<exists>k. s = int_str k) \<Longrightarrow>
     map_of (map (\<lambda>(s, j). (fromR 0 (py_int10 s), j)) f) k = map_of f (int_str k)"
proof (induction f)
  case (Cons p f)
  obtain s j where p: "p = (s, j)" by (cases p)
  obtain k' where "s = int_str k'" using Cons.prems [of s j] p by auto
  moreover have "map_of (map (\<lambda>(s, j). (fromR 0 (py_int10 s), j)) f) k = map_of f (int_str k)"
    by (rule Cons.IH) (auto intro: Cons.prems)
  ultimately show ?case using p by (auto dest: int_str_inj)
qed simp

lemma pd_get_init: "dict_wf kvs \<Longrightarrow> pd_get (pd_init d kvs) p = dict_get kvs p d"
  using map_of_filter_value [of kvs "\<lambda>_ v. v \<noteq> d" p]
  by (auto simp: pd_get_def pd_init_def dict_get_def split: option.splits)

text \<open>A value that is kept in a file has a JSON form that is read back.\<close>

locale json_codec =
  fixes enc :: "'a \<Rightarrow> json" and dec :: "json \<Rightarrow> 'a result" and good :: "'a \<Rightarrow> bool"
  assumes dec_enc: "good v \<Longrightarrow> dec (enc v) = Inr v"
begin

lemma map_values_dec:
  assumes "dict_wf d" and "\<And>k. map_of d k = map_option enc (map_of kvs k)"
    and "\<And>k v. map_of kvs k = Some v \<Longrightarrow> good v"
  shows "\<exists>e. map_values dec d = Inr e \<and> dict_wf e \<and> map_of e = map_of kvs"
proof -
  let ?e = "map (\<lambda>(k, v). (k, fromR undefined (dec v))) d"
  have "map_values dec d = Inr ?e"
    unfolding map_values_def
  proof (rule mapR_total)
    fix kv
    assume "kv \<in> set d"
    then have "map_of d (fst kv) = Some (snd kv)"
      using dict_wf_mem [OF assms(1)] by (cases kv) auto
    then show "(case kv of (k, v) \<Rightarrow> bindR (dec v) (\<lambda>w. Inr (k, w))) = Inr (case kv of (k, v) \<Rightarrow> (k, fromR undefined (dec v)))"
      unfolding assms(2) using assms(3) by (cases kv) (auto simp: dec_enc)
  qed
  moreover have "dict_wf ?e" using assms(1) by (simp add: dict_wf_def case_prod_beta o_def)
  moreover have "map_of ?e k = map_of kvs k" for k
    using assms(2,3) [of k] dec_enc by (cases "map_of kvs k") (auto simp: map_of_map)
  ultimately show ?thesis by blast
qed

lemma read_typed_of_file:
  assumes f: "map_of (read_json_keyvals x name) = map_of (str_keys (map (\<lambda>(k, v). (k, enc v)) kvs))"
    and wf: "dict_wf (read_json_keyvals x name)" and good: "\<And>k v. map_of kvs k = Some v \<Longrightarrow> good v"
  shows "\<exists>e. read_typed dec name x = Inr e \<and> dict_wf e \<and> map_of e = map_of kvs"
proof -
  let ?f = "read_json_keyvals x name"
  let ?l = "map (\<lambda>(s, j). (fromR 0 (py_int10 s), j)) ?f"
  have mem: "\<exists>k v. s = int_str k \<and> j = enc v" if "(s, j) \<in> set ?f" for s j
    using dict_wf_mem [OF wf that] unfolding f by (rule map_of_str_keys_Some)
  have int: "read_json_keyvals_int x name = Inr (dict_of ?l)"
  proof -
    have "mapR (\<lambda>(k, v). bindR (py_int10 k) (\<lambda>i. Inr (i, v))) ?f = Inr ?l"
      by (rule mapR_total) (auto dest!: mem)
    then show ?thesis by (simp add: read_json_keyvals_int_def)
  qed
  have map_l: "map_of (dict_of ?l) k = map_option enc (map_of kvs k)" for k
  proof -
    have "map_of (rev ?l) k = map_of (rev ?f) (int_str k)"
      unfolding rev_map by (rule map_of_parsed_keys) (auto dest: mem)
    also have "\<dots> = map_option enc (map_of kvs k)"
      by (simp add: map_of_rev_wf [OF wf] f map_of_str_keys)
    finally show ?thesis by (simp only: map_of_dict_of)
  qed
  from map_values_dec [OF dict_wf_dict_of map_l good] show ?thesis by (simp add: read_typed_def int)
qed

lemma dict_wf_str_keys: "dict_wf kvs \<Longrightarrow> dict_wf (str_keys (map (\<lambda>(k, v). (k, enc v)) kvs))"
  by (simp add: str_keys_def dict_wf_def case_prod_beta o_def distinct_map inj_on_def int_str_inj comp_def)

lemma typed_roundtrip:
  assumes "sx_rw x" and "dict_wf (read_json_keyvals x name)" and "dict_wf kvs"
    and good: "\<And>k v. map_of kvs k = Some v \<Longrightarrow> good v"
  shows "\<exists>x' e. write_json_keyvals name (str_keys (map (\<lambda>(k, v). (k, enc v)) kvs)) x = Inr x' \<and>
     read_typed dec name x' = Inr e \<and> dict_wf e \<and> map_of e = map_of kvs"
proof -
  let ?kvs = "str_keys (map (\<lambda>(k, v). (k, enc v)) kvs)"
  obtain x' where x': "write_json_keyvals name ?kvs x = Inr x'"
    using assms(1) that unfolding write_json_keyvals_def Let_def
    by (cases "dict_eq (read_json_keyvals x name) (dict_of ?kvs)") auto
  have f: "map_of (read_json_keyvals x' name) = map_of ?kvs" "dict_wf (read_json_keyvals x' name)"
    using read_after_write [OF x' assms(2)] map_of_dict_of_wf [OF dict_wf_str_keys [OF assms(3)]] by simp_all
  have "\<exists>e. read_typed dec name x' = Inr e \<and> dict_wf e \<and> map_of e = map_of kvs"
    by (rule read_typed_of_file [OF f]) (rule good)
  then show ?thesis using x' by blast
qed

lemma ports_roundtrip:
  assumes "sx_rw x" and "dict_wf (read_json_keyvals x name)" and "pd_wf m" and "\<And>v. good v"
  shows "\<exists>x' m'. write_ports enc name m x = Inr x' \<and> read_ports dec (pd_default m) name x' = Inr m' \<and>
     pd_eq m' m \<and> (\<forall>p. pd_get m' p = pd_get m p)"
proof -
  obtain x' e where e: "write_ports enc name m x = Inr x'" "read_typed dec name x' = Inr e"
      "dict_wf e" "map_of e = map_of (pd_kvs m)"
    using typed_roundtrip [OF assms(1,2), of "pd_kvs m"] assms(3,4) by (auto simp: write_ports_def pd_wf_def)
  let ?m = "pd_init (pd_default m) e"
  have "pd_get ?m p = pd_get m p" for p
    using pd_get_init [OF e(3), of "pd_default m" p] e(4) by (simp add: pd_get_def dict_get_def)
  moreover have "pd_default ?m = pd_default m" by (simp add: pd_init_def)
  ultimately show ?thesis
    using e pd_eq_extensional [OF pd_init_wf [OF e(3)] assms(3)] by (auto simp: read_ports_def)
qed

end

interpretation bools: json_codec JBool json_bool "\<lambda>_. True"
  by unfold_locales (simp add: json_bool_def)

interpretation texts: json_codec JStr json_str "\<lambda>_. True"
  by unfold_locales (simp add: json_str_def)

interpretation nums: json_codec JNum json_num "\<lambda>_. True"
  by unfold_locales (simp add: json_num_def)

text \<open>Settings survive a restart: port dictionaries written to their file and read back are
  equal, port by port, to what was written, whatever the file held before and also when the
  write was skipped because the file held the same data.\<close>

theorem port_settings_roundtrip:
  assumes "sx_rw x" and "\<forall>name. dict_wf (read_json_keyvals x name)"
    and "pd_wf ds" and "pd_default ds = True" and "pd_wf ns" and "pd_default ns = []"
    and "pd_wf ts" and "pd_default ts = 1 / 2"
  shows "\<exists>x1 x2 x3 ds' ns' ts'.
     write_dummies ds x = Inr x1 \<and> read_dummies x1 = Inr ds' \<and> (\<forall>p. pd_get ds' p = pd_get ds p) \<and>
     write_port_names ns x = Inr x2 \<and> read_port_names x2 = Inr ns' \<and> (\<forall>p. pd_get ns' p = pd_get ns p) \<and>
     write_atx_cr_delays ts x = Inr x3 \<and> read_atx_cr_delays x3 = Inr ts' \<and> (\<forall>p. pd_get ts' p = pd_get ts p)"
proof -
  obtain x1 ds' where "write_dummies ds x = Inr x1" "read_dummies x1 = Inr ds'" "\<forall>p. pd_get ds' p = pd_get ds p"
    using bools.ports_roundtrip [of x "''dummies.json''" ds] assms
    by (auto simp: write_dummies_def read_dummies_def)
  moreover obtain x2 ns' where "write_port_names ns x = Inr x2" "read_port_names x2 = Inr ns'"
      "\<forall>p. pd_get ns' p = pd_get ns p"
    using texts.ports_roundtrip [of x "''port_names.json''" ns] assms
    by (auto simp: write_port_names_def read_port_names_def)
  moreover obtain x3 ts' where "write_atx_cr_delays ts x = Inr x3" "read_atx_cr_delays x3 = Inr ts'"
      "\<forall>p. pd_get ts' p = pd_get ts p"
    using nums.ports_roundtrip [of x "''atx_click_reset_delays.json''" ts] assms
    by (auto simp: write_atx_cr_delays_def read_atx_cr_delays_def)
  ultimately show ?thesis by blast
qed

definition empty_storage :: storage_ctx where
  "empty_storage = \<lparr>sx_rw = True, sx_files = []\<rparr>"

lemma empty_storage_wf: "sx_rw empty_storage" "dict_wf (read_json_keyvals empty_storage name)"
  by (simp_all add: empty_storage_def read_json_keyvals_def dict_get_def dict_wf_def)

theorem port_settings_roundtrip_witness:
  "\<exists>x1 x2 x3 ds' ns' ts'.
     write_dummies (dummies [(3, False), (5, True)]) empty_storage = Inr x1 \<and> read_dummies x1 = Inr ds' \<and>
       (\<forall>p. pd_get ds' p = pd_get (dummies [(3, False), (5, True)]) p) \<and>
     write_port_names (port_names [(0, [104, 105])]) empty_storage = Inr x2 \<and> read_port_names x2 = Inr ns' \<and>
       (\<forall>p. pd_get ns' p = pd_get (port_names [(0, [104, 105])]) p) \<and>
     write_atx_cr_delays (atx_click_reset_delays [(19, 2)]) empty_storage = Inr x3 \<and> read_atx_cr_delays x3 = Inr ts' \<and>
       (\<forall>p. pd_get ts' p = pd_get (atx_click_reset_delays [(19, 2)]) p)"
  by (rule port_settings_roundtrip)
     (auto simp: empty_storage_wf [unfolded dict_wf_def] empty_storage_wf(1) dummies_def port_names_def atx_click_reset_delays_def pd_init_def
       pd_wf_def dict_wf_def)

section \<open>EDIDs\<close>

text \<open>Identifiers are ASCII text; \<open>lower\<close> changes its capital letters.\<close>

definition string_of :: "pytext \<Rightarrow> string" where
  "string_of t = map (\<lambda>c. char_of (nat c)) t"

definition lower_char :: "char \<Rightarrow> char" where
  "lower_char c = (let n = (of_char c :: nat) in if 65 \<le> n \<and> n \<le> 90 then char_of (n + 32) else c)"

definition str_lower :: "string \<Rightarrow> string" where
  "str_lower s = map lower_char s"

lemma string_of_text_of [simp]: "string_of (text_of s) = s"
  by (simp add: string_of_def text_of_def o_def map_idI)

definition json_id :: "json \<Rightarrow> string result" where
  "json_id v = bindR (json_str v) (\<lambda>t. Inr (string_of t))"

definition edid_to_json :: "edid \<Rightarrow> json" where
  "edid_to_json e = JObj [(''name'', JStr (ed_name e)), (''data'', JStr (edid_as_text e))]"

definition edid_from_json :: "json \<Rightarrow> edid result" where
  "edid_from_json v = (case v of
       JObj kvs \<Rightarrow> bindR (bindR (dict_at kvs ''name'') json_str) (\<lambda>name.
                 bindR (bindR (dict_at kvs ''data'') json_str) (\<lambda>data. edid_from_data name (EdidText data)))
     | _ \<Rightarrow> Inl TypeError)"

definition write_edids :: "edids \<Rightarrow> storage_ctx \<Rightarrow> storage_ctx result" where
  "write_edids es x =
     bindR (write_json_keyvals ''edids_all.json''
       (map (\<lambda>(eid, e). (str_lower eid, edid_to_json e)) (filter (\<lambda>(eid, e). eid \<noteq> default_id) (es_all es))) x) (\<lambda>x.
     write_json_keyvals ''edids_port.json'' (str_keys (map (\<lambda>(k, v). (k, JStr (text_of v))) (es_port es))) x)"

definition read_edids :: "storage_ctx \<Rightarrow> edids result" where
  "read_edids x =
     bindR (map_values edid_from_json
       (map (\<lambda>(eid, v). (str_lower eid, v)) (read_json_keyvals x ''edids_all.json''))) (\<lambda>all.
     bindR (read_typed json_id ''edids_port.json'' x) (\<lambda>port. Inr (mk_edids (dict_of all) port)))"

lemma edid_from_hex_as_text: "edid_ok e \<Longrightarrow> edid_from_hex (ed_name e) (edid_as_text e) = Inr e"
proof -
  assume ok: "edid_ok e"
  then have b: "bytes_ok (ed_data e)" and m: "mk_edid (ed_name e) (ed_data e) = Inr e" by (simp_all add: edid_ok_def)
  from m have "length (ed_data e) \<in> {128, 256}" by (auto simp: mk_edid_def assertR_Inr_iff)
  then show ?thesis
    using b m by (auto simp: edid_from_hex_def edid_as_text_def no_space_hex length_hex hex_pairs_fmt py_bytes_def)
qed

interpretation edid_json: json_codec edid_to_json edid_from_json edid_ok
  by unfold_locales (simp add: edid_to_json_def edid_from_json_def dict_at_def json_str_def edid_from_hex_as_text)

interpretation ids: json_codec "\<lambda>s. JStr (text_of s)" json_id "\<lambda>_. True"
  by unfold_locales (simp add: json_id_def json_str_def)

text \<open>EDIDs survive a restart: writing the EDIDs of a well-formed configuration with
  lower-case identifiers and reading them back gives the same EDID under every identifier but
  the default one, and the same assignment of identifiers to ports.\<close>

theorem edids_roundtrip:
  assumes "sx_rw x" and "\<forall>name. dict_wf (read_json_keyvals x name)"
    and "edids_wf es" and "\<forall>eid \<in> fst ` set (es_all es). str_lower eid = eid"
  shows "\<exists>x' es'. write_edids es x = Inr x' \<and> read_edids x' = Inr es' \<and>
     (\<forall>eid. eid \<noteq> default_id \<longrightarrow> map_of (es_all es') eid = map_of (es_all es) eid) \<and>
     (\<forall>p. edids_get_id_for_port es' p = edids_get_id_for_port es p)"
proof -
  let ?own = "filter (\<lambda>(eid, e). eid \<noteq> default_id) (es_all es)"
  have wf: "dict_wf (es_all es)" "dict_wf (es_port es)" using assms(3) by (simp_all add: edids_wf_def)
  then have wf_own: "dict_wf ?own" by simp
  have lower: "map (\<lambda>(eid, e). (str_lower eid, edid_to_json e)) ?own = map (\<lambda>(eid, e). (eid, edid_to_json e)) ?own"
    using assms(4) by (intro map_cong refl) (auto simp: image_iff)
  let ?f = "map (\<lambda>(eid, e). (eid, edid_to_json e)) ?own"
  have wf_f: "dict_wf ?f" using wf_own by (simp add: dict_wf_def case_prod_beta o_def)
  obtain x1 where x1: "write_json_keyvals ''edids_all.json'' ?f x = Inr x1"
    using assms(1) that unfolding write_json_keyvals_def Let_def
    by (cases "dict_eq (read_json_keyvals x ''edids_all.json'') (dict_of ?f)") auto
  have rw: "sx_rw x1"
    using x1 assms(1) by (auto simp: write_json_keyvals_def assertR_Inr_iff Let_def split: if_splits)
  have f1: "map_of (read_json_keyvals x1 ''edids_all.json'') = map_of ?f" "dict_wf (read_json_keyvals x1 ''edids_all.json'')"
    using read_after_write [OF x1] assms(2) map_of_dict_of_wf [OF wf_f] by simp_all
  have "dict_wf (read_json_keyvals x1 ''edids_port.json'')"
    using read_other_after_write [OF x1, of "''edids_port.json''"] assms(2) by simp
  from ids.typed_roundtrip [OF rw this wf(2)] obtain x2 port where
    x2: "write_json_keyvals ''edids_port.json'' (str_keys (map (\<lambda>(k, v). (k, JStr (text_of v))) (es_port es))) x1 = Inr x2"
    and port: "read_typed json_id ''edids_port.json'' x2 = Inr port" "map_of port = map_of (es_port es)" by auto
  let ?r = "read_json_keyvals x2 ''edids_all.json''"
  have r: "?r = read_json_keyvals x1 ''edids_all.json''"
    using read_other_after_write [OF x2, of "''edids_all.json''"] by simp
  have "\<forall>(eid, v) \<in> set ?r. str_lower eid = eid"
  proof (clarify)
    fix eid v
    assume "(eid, v) \<in> set ?r"
    then have "map_of ?f eid = Some v" using dict_wf_mem [OF f1(2)] f1(1) r by metis
    then have "eid \<in> fst ` set (es_all es)" by (force dest: map_of_SomeD)
    then show "str_lower eid = eid" using assms(4) by blast
  qed
  then have low: "map (\<lambda>(eid, v). (str_lower eid, v)) ?r = ?r" by (intro map_idI) auto
  have "\<exists>e. map_values edid_from_json ?r = Inr e \<and> dict_wf e \<and> map_of e = map_of ?own"
  proof (rule edid_json.map_values_dec)
    show "map_of ?r k = map_option edid_to_json (map_of ?own k)" for k
      unfolding r f1(1) by (simp add: map_of_map)
    show "map_of ?own k = Some v \<Longrightarrow> edid_ok v" for k v
      using assms(3) by (force simp: edids_wf_def dest!: map_of_SomeD)
  qed (use r f1 in simp)
  then obtain all where all: "map_values edid_from_json ?r = Inr all" "dict_wf all" "map_of all = map_of ?own" by blast
  let ?es = "mk_edids (dict_of all) port"
  have read: "read_edids x2 = Inr ?es" unfolding read_edids_def low all(1) port(1) by simp
  have "map_of (es_all ?es) eid = map_of (es_all es) eid" if "eid \<noteq> default_id" for eid
  proof -
    obtain e where e: "edid_from_data default_name NoEdid = Inr e" using blank_edid by blast
    have "map_of (dict_of all) eid = map_of (es_all es) eid"
      unfolding map_of_dict_of_wf [OF all(2)] all(3)
      using map_of_filter_value [OF wf(1), of "\<lambda>eid e. eid \<noteq> default_id" eid] that by (simp split: option.split)
    then show ?thesis
      using that e by (simp add: mk_edids_def edids_set_default_def Let_def del: edid_from_data.simps)
  qed
  moreover have "es_port ?es = port"
    using blank_edid by (auto simp: mk_edids_def edids_set_default_def Let_def simp del: edid_from_data.simps)
  then have "edids_get_id_for_port ?es p = edids_get_id_for_port es p" for p
    by (simp add: edids_get_id_for_port_def dict_get_def port(2))
  moreover have "write_edids es x = Inr x2" unfolding write_edids_def lower x1 using x2 by simp
  ultimately show ?thesis using read by blast
qed

definition edids_sample :: "edid \<Rightarrow> edids" where
  "edids_sample e = (mk_edids [] [])\<lparr>es_all := AList.update ''ab'' e (es_all (mk_edids [] [])), es_port := [(3, ''ab'')]\<rparr>"

theorem edids_roundtrip_witness:
  "\<exists>e x' es'. edid_from_data default_name NoEdid = Inr e \<and>
     write_edids (edids_sample e) empty_storage = Inr x' \<and> read_edids x' = Inr es' \<and>
     (\<forall>eid. eid \<noteq> default_id \<longrightarrow> map_of (es_all es') eid = map_of (es_all (edids_sample e)) eid) \<and>
     (\<forall>p. edids_get_id_for_port es' p = edids_get_id_for_port (edids_sample e) p)"
proof -
  obtain e where e: "edid_from_data default_name NoEdid = Inr e" "edid_ok e" using blank_edid by blast
  have "edids_wf ((mk_edids [] [])\<lparr>es_all := AList.update ''ab'' e (es_all (mk_edids [] []))\<rparr>)"
    by (rule edids_wf_update [OF edids_init_wf e(2)])
  then have wf: "edids_wf (edids_sample e)"
    by (auto simp: edids_wf_def edids_sample_def edids_has_id_def dict_has_def dict_wf_def)
  have "str_lower default_id = default_id" "str_lower ''ab'' = ''ab''" by code_simp+
  then have low: "\<forall>eid \<in> fst ` set (es_all (edids_sample e)). str_lower eid = eid"
    using e(1) by (simp add: edids_sample_def mk_edids_def edids_set_default_def dict_has_def del: edid_from_data.simps)
  from edids_roundtrip [OF empty_storage_wf(1) _ wf low] empty_storage_wf(2) e(1) show ?thesis by blast
qed

section \<open>Colours\<close>

definition color_to_json :: "color \<Rightarrow> json" where
  "color_to_json c = JObj [(''red'', JNum (rat_of_int (co_red c))), (''green'', JNum (rat_of_int (co_green c))),
     (''blue'', JNum (rat_of_int (co_blue c))), (''brightness'', JNum (rat_of_int (co_brightness c))),
     (''blink_ms'', JNum (rat_of_int (co_blink_ms c)))]"

text \<open>A component that is not an integer is refused by \<open>struct.pack\<close>.\<close>

definition json_int :: "json \<Rightarrow> int result" where
  "json_int v = bindR (json_num v) (\<lambda>q. if rat_of_int \<lfloor>q\<rfloor> = q then Inr \<lfloor>q\<rfloor> else Inl StructError)"

definition color_from_json :: "json \<Rightarrow> color result" where
  "color_from_json v = (case v of
       JObj kvs \<Rightarrow> (let comp = (\<lambda>k. bindR (dict_at kvs k) json_int) in
         bindR (comp ''red'') (\<lambda>r. bindR (comp ''green'') (\<lambda>g. bindR (comp ''blue'') (\<lambda>b.
         bindR (comp ''brightness'') (\<lambda>br. bindR (comp ''blink_ms'') (\<lambda>bl. mk_color r g b br bl))))))
     | _ \<Rightarrow> Inl TypeError)"

definition write_colors :: "colors \<Rightarrow> storage_ctx \<Rightarrow> storage_ctx result" where
  "write_colors cs x = write_json_keyvals ''colors.json''
     [(''inactive'', color_to_json (cs_inactive cs)), (''active'', color_to_json (cs_active cs)),
      (''flashing'', color_to_json (cs_flashing cs)), (''beacon'', color_to_json (cs_beacon cs)),
      (''bootloader'', color_to_json (cs_bootloader cs))] x"

text \<open>A role that is not in the file keeps its default.\<close>

definition read_colors :: "storage_ctx \<Rightarrow> colors result" where
  "read_colors x = bindR colors_default (\<lambda>d.
     let raw = read_json_keyvals x ''colors.json'';
         role = (\<lambda>k c. case map_of raw k of None \<Rightarrow> Inr c | Some v \<Rightarrow> color_from_json v) in
     bindR (role ''inactive'' (cs_inactive d)) (\<lambda>i. bindR (role ''active'' (cs_active d)) (\<lambda>a.
     bindR (role ''flashing'' (cs_flashing d)) (\<lambda>f. bindR (role ''beacon'' (cs_beacon d)) (\<lambda>b.
     bindR (role ''bootloader'' (cs_bootloader d)) (\<lambda>bl. mk_colors i a f b bl))))))"

lemma color_from_to_json: "color_ok c \<Longrightarrow> color_from_json (color_to_json c) = Inr c"
  by (simp add: color_from_json_def color_to_json_def dict_at_def json_int_def json_num_def color_ok_def Let_def)

interpretation color_json: json_codec color_to_json color_from_json color_ok
  by unfold_locales (rule color_from_to_json)

text \<open>Colours survive a restart: the colours written are the colours read.\<close>

theorem colors_roundtrip:
  assumes "sx_rw x" and "dict_wf (read_json_keyvals x ''colors.json'')" and "colors_ok cs"
  shows "\<exists>x'. write_colors cs x = Inr x' \<and> read_colors x' = Inr cs"
proof -
  let ?f = "[(''inactive'', color_to_json (cs_inactive cs)), (''active'', color_to_json (cs_active cs)),
      (''flashing'', color_to_json (cs_flashing cs)), (''beacon'', color_to_json (cs_beacon cs)),
      (''bootloader'', color_to_json (cs_bootloader cs))]"
  have wf: "dict_wf ?f" by (simp add: dict_wf_def)
  obtain x' where x': "write_json_keyvals ''colors.json'' ?f x = Inr x'"
    using assms(1) that unfolding write_json_keyvals_def Let_def
    by (cases "dict_eq (read_json_keyvals x ''colors.json'') (dict_of ?f)") auto
  have f: "map_of (read_json_keyvals x' ''colors.json'') = map_of ?f"
    using read_after_write [OF x' assms(2)] map_of_dict_of_wf [OF wf] by simp
  obtain d where d: "colors_default = Inr d" using colors_default_ok by blast
  have ok: "color_ok (cs_inactive cs)" "color_ok (cs_active cs)" "color_ok (cs_flashing cs)"
      "color_ok (cs_beacon cs)" "color_ok (cs_bootloader cs)"
    and mk: "mk_colors (cs_inactive cs) (cs_active cs) (cs_flashing cs) (cs_beacon cs) (cs_bootloader cs) = Inr cs"
    using assms(3) by (simp_all add: colors_ok_def)
  have "read_colors x' = Inr cs"
    unfolding read_colors_def d bindR_simps Let_def f using mk
    by (simp add: color_from_to_json [OF ok(1)] color_from_to_json [OF ok(2)] color_from_to_json [OF ok(3)]
        color_from_to_json [OF ok(4)] color_from_to_json [OF ok(5)])
  then show ?thesis using x' by (simp add: write_colors_def)
qed

lemma colors_default_wf: "\<exists>cs. colors_default = Inr cs \<and> colors_ok cs"
proof -
  have "case colors_default of Inl _ \<Rightarrow> False | Inr cs \<Rightarrow> colors_ok cs" by code_simp
  then show ?thesis by (auto split: sum.splits)
qed

theorem colors_roundtrip_witness:
  "\<exists>cs x'. colors_default = Inr cs \<and> write_colors cs empty_storage = Inr x' \<and> read_colors x' = Inr cs"
proof -
  obtain cs where cs: "colors_default = Inr cs" "colors_ok cs" using colors_default_wf by blast
  from colors_roundtrip [OF empty_storage_wf(1,2) cs(2)] cs(1) show ?thesis by blast
qed

section \<open>Storage\<close>

text \<open>The two contexts: both hold the lock, only one may write.\<close>

definition storage_readable :: "(string, json_obj) dict \<Rightarrow> storage_ctx" where
  "storage_readable files = \<lparr>sx_rw = False, sx_files = files\<rparr>"

definition storage_writable :: "(string, json_obj) dict \<Rightarrow> storage_ctx" where
  "storage_writable files = \<lparr>sx_rw = True, sx_files = files\<rparr>"

lemma readable_never_writes: "write_json_keyvals name kvs (storage_readable files) = Inl AssertionError"
  by (simp add: write_json_keyvals_def storage_readable_def)

end
