(* ===== verification/SwitchApi.thy ===== *)
theory SwitchApi
  imports SwitchStorage
begin

text \<open>
  The switch as the daemon offers it (\<open>kvmd/apps/kvmd/switch/__init__.py\<close>): every method changes
  the controller's queue, the state cache and the storage.  \<open>SwitchUnknownEdidError\<close> is an
  \<open>OperationError\<close>.  The lock makes a method one step; what the environment supplies (the
  identifier drawn, the content of the default EDID file) is an argument.
\<close>

record saved =
  sv_edids :: "edids option"
  sv_dummies :: "bool ports_dict option"
  sv_colors :: "colors option"
  sv_port_names :: "pytext ports_dict option"
  sv_atx_cp_delays :: "delay ports_dict option"
  sv_atx_cpl_delays :: "delay ports_dict option"
  sv_atx_cr_delays :: "delay ports_dict option"

record switch =
  sw_chain :: chain
  sw_cache :: state_cache
  sw_files :: "(string, json_obj) dict"
  sw_prevs :: saved
  sw_notified :: bool

definition switch_init :: "int \<Rightarrow> bool \<Rightarrow> (string, json_obj) dict \<Rightarrow> switch result" where
  "switch_init seed ignore_hpd_on_top files =
     bindR (chain_init seed ignore_hpd_on_top) (\<lambda>c. bindR state_cache_init (\<lambda>s.
       Inr \<lparr>sw_chain = c, sw_cache = s, sw_files = files,
            sw_prevs = \<lparr>sv_edids = None, sv_dummies = None, sv_colors = None, sv_port_names = None,
              sv_atx_cp_delays = None, sv_atx_cpl_delays = None, sv_atx_cr_delays = None\<rparr>,
            sw_notified = False\<rparr>))"

text \<open>A call of the controller and one of the cache.\<close>

definition chainS :: "(chain, 'a) sm \<Rightarrow> (switch, 'a) sm" where
  "chainS m sw = (case m (sw_chain sw) of (r, c) \<Rightarrow> (r, sw\<lparr>sw_chain := c\<rparr>))"

definition cacheS :: "(state_cache \<Rightarrow> state_cache result) \<Rightarrow> (switch, unit) sm" where
  "cacheS f sw = (case f (sw_cache sw) of Inl e \<Rightarrow> (Inl e, sw) | Inr s \<Rightarrow> (Inr (), sw\<lparr>sw_cache := s\<rparr>))"

definition notifyS :: "bool \<Rightarrow> (switch, unit) sm" where
  "notifyS save = whenS save (modifyS (\<lambda>sw. sw\<lparr>sw_notified := True\<rparr>))"

section \<open>Changing the configuration\<close>

definition x_set_edids :: "edids \<Rightarrow> bool \<Rightarrow> (switch, unit) sm" where
  "x_set_edids es save = bindS (chainS (chain_set_edids es)) (\<lambda>_.
     bindS (cacheS (cache_set_edids es)) (\<lambda>_. notifyS save))"

definition x_set_dummies :: "bool ports_dict \<Rightarrow> bool \<Rightarrow> (switch, unit) sm" where
  "x_set_dummies ds save = bindS (chainS (chain_set_dummies ds)) (\<lambda>_.
     bindS (cacheS (cache_set_dummies ds)) (\<lambda>_. notifyS save))"

definition x_set_colors :: "colors \<Rightarrow> bool \<Rightarrow> (switch, unit) sm" where
  "x_set_colors cs save = bindS (chainS (chain_set_colors cs)) (\<lambda>_.
     bindS (cacheS (cache_set_colors cs)) (\<lambda>_. notifyS save))"

definition x_set_port_names :: "pytext ports_dict \<Rightarrow> bool \<Rightarrow> (switch, unit) sm" where
  "x_set_port_names ns save = bindS (cacheS (cache_set_port_names ns)) (\<lambda>_. notifyS save)"

definition x_set_atx_cp_delays :: "delay ports_dict \<Rightarrow> bool \<Rightarrow> (switch, unit) sm" where
  "x_set_atx_cp_delays ds save = bindS (cacheS (cache_set_atx_cp_delays ds)) (\<lambda>_. notifyS save)"

definition x_set_atx_cpl_delays :: "delay ports_dict \<Rightarrow> bool \<Rightarrow> (switch, unit) sm" where
  "x_set_atx_cpl_delays ds save = bindS (cacheS (cache_set_atx_cpl_delays ds)) (\<lambda>_. notifyS save)"

definition x_set_atx_cr_delays :: "delay ports_dict \<Rightarrow> bool \<Rightarrow> (switch, unit) sm" where
  "x_set_atx_cr_delays ds save = bindS (cacheS (cache_set_atx_cr_delays ds)) (\<lambda>_. notifyS save)"

section \<open>The methods\<close>

definition set_active_prev :: "(switch, unit) sm" where
  "set_active_prev = chainS chain_set_active_prev"

definition set_active_next :: "(switch, unit) sm" where
  "set_active_next = chainS chain_set_active_next"

definition set_active_port :: "py_float \<Rightarrow> (switch, unit) sm" where
  "set_active_port port = bindS (liftS (translate_port port)) (\<lambda>p. chainS (chain_set_active_port p))"

definition set_port_beacon :: "py_float \<Rightarrow> bool \<Rightarrow> (switch, unit) sm" where
  "set_port_beacon port on = bindS (liftS (translate_port port)) (\<lambda>p. chainS (chain_set_port_beacon p on))"

definition set_uplink_beacon :: "int \<Rightarrow> bool \<Rightarrow> (switch, unit) sm" where
  "set_uplink_beacon unit on = chainS (chain_set_uplink_beacon unit on)"

definition set_downlink_beacon :: "int \<Rightarrow> bool \<Rightarrow> (switch, unit) sm" where
  "set_downlink_beacon unit on = chainS (chain_set_downlink_beacon unit on)"

text \<open>The flag \<open>long\<close> selects the long delay.\<close>

definition inner_atx_cp :: "py_float \<Rightarrow> bool option \<Rightarrow> bool \<Rightarrow> (switch, unit) sm" where
  "inner_atx_cp port if_powered long = bindS (liftS (translate_port port)) (\<lambda>p. getS (\<lambda>sw.
     chainS (chain_click_power p (pd_get (if long then cache_get_atx_cpl_delays (sw_cache sw)
       else cache_get_atx_cp_delays (sw_cache sw)) p) if_powered)))"

definition inner_atx_cr :: "py_float \<Rightarrow> bool option \<Rightarrow> (switch, unit) sm" where
  "inner_atx_cr port if_powered = bindS (liftS (translate_port port)) (\<lambda>p. getS (\<lambda>sw.
     chainS (chain_click_reset p (pd_get (cache_get_atx_cr_delays (sw_cache sw)) p) if_powered)))"

definition atx_power_on :: "py_float \<Rightarrow> (switch, unit) sm" where
  "atx_power_on port = inner_atx_cp port (Some False) False"

definition atx_power_off :: "py_float \<Rightarrow> (switch, unit) sm" where
  "atx_power_off port = inner_atx_cp port (Some True) False"

definition atx_power_off_hard :: "py_float \<Rightarrow> (switch, unit) sm" where
  "atx_power_off_hard port = inner_atx_cp port (Some True) True"

definition atx_power_reset_hard :: "py_float \<Rightarrow> (switch, unit) sm" where
  "atx_power_reset_hard port = inner_atx_cr port (Some True)"

definition atx_click_power :: "py_float \<Rightarrow> (switch, unit) sm" where
  "atx_click_power port = inner_atx_cp port None False"

definition atx_click_power_long :: "py_float \<Rightarrow> (switch, unit) sm" where
  "atx_click_power_long port = inner_atx_cp port None True"

definition atx_click_reset :: "py_float \<Rightarrow> (switch, unit) sm" where
  "atx_click_reset port = inner_atx_cr port None"

definition create_edid :: "string \<Rightarrow> pytext \<Rightarrow> pytext \<Rightarrow> (switch, string) sm" where
  "create_edid uid name data_hex = getS (\<lambda>sw.
     bindS (liftS (edid_from_data name (EdidText data_hex))) (\<lambda>e.
     let (eid, es) = edids_add uid (cache_get_edids (sw_cache sw)) e
     in bindS (x_set_edids es True) (\<lambda>_. retS eid)))"

text \<open>\<open>name or old.name\<close>: an empty text counts as missing.\<close>

definition text_or :: "pytext option \<Rightarrow> pytext \<Rightarrow> pytext" where
  "text_or t d = (case t of None \<Rightarrow> d | Some t \<Rightarrow> if t = [] then d else t)"

definition change_edid :: "string \<Rightarrow> pytext option \<Rightarrow> pytext option \<Rightarrow> (switch, unit) sm" where
  "change_edid eid name data_hex = assertS (eid \<noteq> default_id) (getS (\<lambda>sw.
     let es = cache_get_edids (sw_cache sw) in
     if \<not> edids_has_id es eid then raiseS OperationError
     else bindS (liftS (edids_get es eid)) (\<lambda>old.
       bindS (liftS (edid_from_data (text_or name (ed_name old))
                       (EdidText (text_or data_hex (edid_as_text old))))) (\<lambda>e.
       bindS (liftS (edids_set es eid e)) (\<lambda>es. x_set_edids es True)))))"

definition remove_edid :: "string \<Rightarrow> (switch, unit) sm" where
  "remove_edid eid = assertS (eid \<noteq> default_id) (getS (\<lambda>sw.
     let es = cache_get_edids (sw_cache sw) in
     if \<not> edids_has_id es eid then raiseS OperationError
     else bindS (liftS (edids_remove es eid)) (\<lambda>es. x_set_edids es True)))"

text \<open>A role is kept, reset by \<open>default\<close>, or read from the text.\<close>

definition new_color :: "(string, pytext) dict \<Rightarrow> string \<Rightarrow> color \<Rightarrow> color \<Rightarrow> color result" where
  "new_color values role dflt old = (case map_of values role of
       None \<Rightarrow> Inr old
     | Some t \<Rightarrow> if t \<noteq> text_of ''default'' then color_from_text t else Inr dflt)"

definition set_colors :: "(string, pytext) dict \<Rightarrow> (switch, unit) sm" where
  "set_colors values = getS (\<lambda>sw. let old = cache_get_colors (sw_cache sw) in
     bindS (liftS colors_default) (\<lambda>d.
     bindS (liftS (new_color values ''inactive'' (cs_inactive d) (cs_inactive old))) (\<lambda>i.
     bindS (liftS (new_color values ''active'' (cs_active d) (cs_active old))) (\<lambda>a.
     bindS (liftS (new_color values ''flashing'' (cs_flashing d) (cs_flashing old))) (\<lambda>f.
     bindS (liftS (new_color values ''beacon'' (cs_beacon d) (cs_beacon old))) (\<lambda>b.
     bindS (liftS (new_color values ''bootloader'' (cs_bootloader d) (cs_bootloader old))) (\<lambda>bl.
     bindS (liftS (mk_colors i a f b bl)) (\<lambda>cs. x_set_colors cs True))))))))"

text \<open>One turn of the loop over the parameters: a value equal to \<open>reset\<close> restores the default.\<close>

definition set_param ::
  "(state_cache \<Rightarrow> 'a ports_dict) \<Rightarrow> ('a ports_dict \<Rightarrow> bool \<Rightarrow> (switch, unit) sm) \<Rightarrow> 'a option \<Rightarrow> int \<Rightarrow>
   'a option \<Rightarrow> (switch, unit) sm" where
  "set_param getter setter reset port value = (case value of
       None \<Rightarrow> retS ()
     | Some v \<Rightarrow> getS (\<lambda>sw. setter (pd_set (getter (sw_cache sw)) port
         (if Some v = reset then None else Some v)) True))"

definition set_port_params ::
  "py_float \<Rightarrow> string option \<Rightarrow> bool option \<Rightarrow> pytext option \<Rightarrow> delay option \<Rightarrow> delay option \<Rightarrow>
   delay option \<Rightarrow> (switch, unit) sm" where
  "set_port_params port edid_id dummy name cp_delay cpl_delay cr_delay =
     bindS (liftS (translate_port port)) (\<lambda>p.
     bindS (case edid_id of
         None \<Rightarrow> retS ()
       | Some eid \<Rightarrow> getS (\<lambda>sw. let es = cache_get_edids (sw_cache sw) in
           if \<not> edids_has_id es eid then raiseS OperationError
           else bindS (liftS (edids_assign es p eid)) (\<lambda>es. x_set_edids es True))) (\<lambda>_.
     bindS (set_param cache_get_dummies x_set_dummies None p dummy) (\<lambda>_.
     bindS (set_param cache_get_port_names x_set_port_names (Some []) p name) (\<lambda>_.
     bindS (set_param cache_get_atx_cp_delays x_set_atx_cp_delays (Some 0) p cp_delay) (\<lambda>_.
     bindS (set_param cache_get_atx_cpl_delays x_set_atx_cpl_delays (Some 0) p cpl_delay) (\<lambda>_.
     set_param cache_get_atx_cr_delays x_set_atx_cr_delays (Some 0) p cr_delay))))))"

definition reboot_unit :: "int \<Rightarrow> bool \<Rightarrow> (switch, unit) sm" where
  "reboot_unit unit bootloader = chainS (chain_reboot_unit unit bootloader)"

definition switch_get_state :: "switch \<Rightarrow> switch_state result" where
  "switch_get_state sw = get_state (sw_cache sw)"

definition switch_trigger_state :: "(switch, unit) sm" where
  "switch_trigger_state = cacheS trigger_state"

section \<open>The tasks\<close>

text \<open>
  \<open>dflt_hex\<close> is the content of the default EDID file, or nothing when it cannot be read.  An
  exception while reading leaves everything as it was; it is logged.
\<close>

definition read_all_configs :: "storage_ctx \<Rightarrow> pytext option \<Rightarrow>
    (edids \<times> bool ports_dict \<times> colors \<times> pytext ports_dict \<times> delay ports_dict \<times> delay ports_dict \<times> delay ports_dict) result" where
  "read_all_configs x dflt_hex =
     bindR (read_edids x) (\<lambda>es. bindR (read_dummies x) (\<lambda>ds. bindR (read_colors x) (\<lambda>cs.
     bindR (read_port_names x) (\<lambda>ns. bindR (read_atx_cp_delays x) (\<lambda>cp.
     bindR (read_atx_cpl_delays x) (\<lambda>cpl. bindR (read_atx_cr_delays x) (\<lambda>cr.
     (case dflt_hex of None \<Rightarrow> Inl OSError
      | Some t \<Rightarrow> bindR (edids_set_default es (EdidText t)) (\<lambda>es. Inr (es, ds, cs, ns, cp, cpl, cr))))))))))"

definition load_configs :: "pytext option \<Rightarrow> (switch, unit) sm" where
  "load_configs dflt_hex = getS (\<lambda>sw. case read_all_configs (storage_readable (sw_files sw)) dflt_hex of
       Inl _ \<Rightarrow> retS ()
     | Inr (es, ds, cs, ns, cp, cpl, cr) \<Rightarrow>
         bindS (x_set_edids es False) (\<lambda>_. bindS (x_set_dummies ds False) (\<lambda>_.
         bindS (x_set_colors cs False) (\<lambda>_. bindS (x_set_port_names ns False) (\<lambda>_.
         bindS (x_set_atx_cp_delays cp False) (\<lambda>_. bindS (x_set_atx_cpl_delays cpl False) (\<lambda>_.
         bindS (x_set_atx_cr_delays cr False) (\<lambda>_. chainS (chain_set_actual True)))))))))"

definition systask_event :: "pytext option \<Rightarrow> event \<Rightarrow> (switch, unit) sm" where
  "systask_event dflt_hex ev = (case ev of
       DeviceFoundEvent \<Rightarrow> load_configs dflt_hex
     | ChainTruncatedEvent units \<Rightarrow> cacheS (cache_truncate units)
     | PortActivatedEvent port \<Rightarrow> cacheS (update_active_port port)
     | UnitStateEvent unit st \<Rightarrow> cacheS (update_unit_state unit st)
     | UnitAtxLedsEvent unit leds \<Rightarrow> cacheS (update_unit_atx_leds unit leds))"

definition systask_default_edid :: "pytext option \<Rightarrow> (switch, unit) sm" where
  "systask_default_edid dflt_hex = (case dflt_hex of
       None \<Rightarrow> retS ()
     | Some t \<Rightarrow> getS (\<lambda>sw. case edids_set_default (cache_get_edids (sw_cache sw)) (EdidText t) of
           Inl _ \<Rightarrow> retS ()
         | Inr es \<Rightarrow> x_set_edids es False))"

text \<open>Python's \<open>==\<close> on the saved values.\<close>

definition edids_eq :: "edids \<Rightarrow> edids \<Rightarrow> bool" where
  "edids_eq a b = (dict_eq (es_all a) (es_all b) \<and> dict_eq (es_port a) (es_port b))"

definition saved_as :: "('a \<Rightarrow> 'a \<Rightarrow> bool) \<Rightarrow> 'a \<Rightarrow> 'a option \<Rightarrow> bool" where
  "saved_as eq new old = (case old of None \<Rightarrow> False | Some o' \<Rightarrow> eq new o')"

text \<open>
  One write of \<open>__systask_storage\<close>: what differs from the last written value is written, and
  remembered once it is.
\<close>

definition store_value ::
  "('a \<Rightarrow> 'a \<Rightarrow> bool) \<Rightarrow> 'a \<Rightarrow> 'a option \<Rightarrow> ('a \<Rightarrow> storage_ctx \<Rightarrow> storage_ctx result) \<Rightarrow> ('a \<Rightarrow> saved \<Rightarrow> saved) \<Rightarrow>
   (switch, unit) sm" where
  "store_value eq new old write remember = whenS (\<not> saved_as eq new old)
     (getS (\<lambda>sw. bindS (liftS (write new (storage_writable (sw_files sw)))) (\<lambda>x.
        modifyS (\<lambda>sw. sw\<lparr>sw_files := sx_files x, sw_prevs := remember new (sw_prevs sw)\<rparr>))))"

definition systask_storage :: "(switch, unit) sm" where
  "systask_storage = getS (\<lambda>sw. let s = sw_cache sw; p = sw_prevs sw in
     bindS (store_value edids_eq (cache_get_edids s) (sv_edids p) write_edids (\<lambda>v. sv_edids_update (\<lambda>_. Some v))) (\<lambda>_.
     bindS (store_value pd_eq (cache_get_dummies s) (sv_dummies p) write_dummies (\<lambda>v. sv_dummies_update (\<lambda>_. Some v))) (\<lambda>_.
     bindS (store_value (=) (cache_get_colors s) (sv_colors p) write_colors (\<lambda>v. sv_colors_update (\<lambda>_. Some v))) (\<lambda>_.
     bindS (store_value pd_eq (cache_get_port_names s) (sv_port_names p) write_port_names
       (\<lambda>v. sv_port_names_update (\<lambda>_. Some v))) (\<lambda>_.
     bindS (store_value pd_eq (cache_get_atx_cp_delays s) (sv_atx_cp_delays p) write_atx_cp_delays
       (\<lambda>v. sv_atx_cp_delays_update (\<lambda>_. Some v))) (\<lambda>_.
     bindS (store_value pd_eq (cache_get_atx_cpl_delays s) (sv_atx_cpl_delays p) write_atx_cpl_delays
       (\<lambda>v. sv_atx_cpl_delays_update (\<lambda>_. Some v))) (\<lambda>_.
     bindS (store_value pd_eq (cache_get_atx_cr_delays s) (sv_atx_cr_delays p) write_atx_cr_delays
       (\<lambda>v. sv_atx_cr_delays_update (\<lambda>_. Some v))) (\<lambda>_.
     modifyS (\<lambda>sw. sw\<lparr>sw_notified := False\<rparr>)))))))))"

section \<open>The controller and the cache are in step\<close>

datatype switch_op =
    OpPrev | OpNext | OpPort py_float | OpPortBeacon py_float bool | OpUplink int bool | OpDownlink int bool
  | OpAtxCp py_float "bool option" bool | OpAtxCr py_float "bool option"
  | OpCreateEdid string pytext pytext | OpChangeEdid string "pytext option" "pytext option" | OpRemoveEdid string
  | OpSetColors "(string, pytext) dict"
  | OpPortParams py_float "string option" "bool option" "pytext option" "delay option" "delay option" "delay option"
  | OpReboot int bool | OpTrigger | OpEvent "pytext option" event | OpDefaultEdid "pytext option" | OpStore

text \<open>A method called by a client, or a turn of a task; an exception ends it.\<close>

fun exec_op :: "switch_op \<Rightarrow> switch \<Rightarrow> switch" where
  "exec_op OpPrev sw = snd (set_active_prev sw)"
| "exec_op OpNext sw = snd (set_active_next sw)"
| "exec_op (OpPort port) sw = snd (set_active_port port sw)"
| "exec_op (OpPortBeacon port on) sw = snd (set_port_beacon port on sw)"
| "exec_op (OpUplink unit on) sw = snd (set_uplink_beacon unit on sw)"
| "exec_op (OpDownlink unit on) sw = snd (set_downlink_beacon unit on sw)"
| "exec_op (OpAtxCp port if_powered long) sw = snd (inner_atx_cp port if_powered long sw)"
| "exec_op (OpAtxCr port if_powered) sw = snd (inner_atx_cr port if_powered sw)"
| "exec_op (OpCreateEdid uid name hex) sw = snd (create_edid uid name hex sw)"
| "exec_op (OpChangeEdid eid name hex) sw = snd (change_edid eid name hex sw)"
| "exec_op (OpRemoveEdid eid) sw = snd (remove_edid eid sw)"
| "exec_op (OpSetColors values) sw = snd (set_colors values sw)"
| "exec_op (OpPortParams port eid dummy name cp cpl cr) sw = snd (set_port_params port eid dummy name cp cpl cr sw)"
| "exec_op (OpReboot unit bootloader) sw = snd (reboot_unit unit bootloader sw)"
| "exec_op OpTrigger sw = snd (switch_trigger_state sw)"
| "exec_op (OpEvent dflt ev) sw = snd (systask_event dflt ev sw)"
| "exec_op (OpDefaultEdid dflt) sw = snd (systask_default_edid dflt sw)"
| "exec_op OpStore sw = snd (systask_storage sw)"

text \<open>The configuration the controller will have when it has worked off its queue.\<close>

definition pend_edids :: "edids \<Rightarrow> cmd \<Rightarrow> edids" where
  "pend_edids e c = (case c of CmdSetEdids es \<Rightarrow> es | _ \<Rightarrow> e)"

definition pend_dummies :: "bool ports_dict \<Rightarrow> cmd \<Rightarrow> bool ports_dict" where
  "pend_dummies d c = (case c of CmdSetDummies ds \<Rightarrow> ds | _ \<Rightarrow> d)"

definition pend_colors :: "colors \<Rightarrow> cmd \<Rightarrow> colors" where
  "pend_colors d c = (case c of CmdSetColors cs \<Rightarrow> cs | _ \<Rightarrow> d)"

definition in_step :: "switch \<Rightarrow> bool" where
  [wf_simps]: "in_step sw = (let c = sw_chain sw; s = sw_cache sw in
     \<not> cn_stop c \<and>
     foldl pend_edids (cn_edids c) (cn_cmd_q c) = sc_edids s \<and> edids_has_id (sc_edids s) default_id \<and>
     foldl pend_dummies (cn_dummies c) (cn_cmd_q c) = sc_dummies s \<and> pd_wf (sc_dummies s) \<and>
     foldl pend_colors (cn_colors c) (cn_cmd_q c) = sc_colors s)"

lemmas pend_defs = pend_edids_def pend_dummies_def pend_colors_def

fun config_cmd :: "cmd \<Rightarrow> bool" where
  "config_cmd (CmdSetEdids _) = True"
| "config_cmd (CmdSetDummies _) = True"
| "config_cmd (CmdSetColors _) = True"
| "config_cmd _ = False"

lemma keeps_queue_cmd [keeps_rules]: "\<not> config_cmd c \<Longrightarrow> keeps in_step (chainS (queue_cmd c))"
  by (cases c) (auto simp: keeps_def chainS_def queue_cmd_def cmd_init_def assertR_def bindS_def liftS_def getS_def
      whenS_def modifyS_def retS_def in_step_def Let_def pend_defs split: if_splits)

definition same_config :: "state_cache \<Rightarrow> state_cache \<Rightarrow> bool" where
  "same_config s t = (sc_edids t = sc_edids s \<and> sc_dummies t = sc_dummies s \<and> sc_colors t = sc_colors s)"

lemma keeps_cacheS: "(\<And>s t. f s = Inr t \<Longrightarrow> same_config s t) \<Longrightarrow> keeps in_step (cacheS f)"
  by (auto simp: keeps_def cacheS_def in_step_def same_config_def Let_def split: sum.split)

lemma keeps_notify [keeps_rules]: "keeps in_step (notifyS save)"
  by (simp add: keeps_def notifyS_def whenS_def modifyS_def retS_def in_step_def Let_def)

lemma bump_if_eq: "m \<noteq> 0 \<Longrightarrow> \<exists>q. bump_if b m s = Inr (s\<lparr>sc_queue := q\<rparr>)"
  by (auto simp: bump_if_def bump_state_def intro: exI [of _ "sc_queue s"])

text \<open>Setting a part of the configuration reaches both sides.\<close>

lemma keeps_queue_then_cache:
  assumes "cmd_ok c" and "\<And>sw. in_step sw \<Longrightarrow> \<exists>s. f (sw_cache sw) = Inr s \<and>
    in_step (sw\<lparr>sw_chain := (sw_chain sw)\<lparr>cn_cmd_q := cn_cmd_q (sw_chain sw) @ [c]\<rparr>, sw_cache := s\<rparr>)"
  shows "keeps in_step (bindS (chainS (queue_cmd c)) (\<lambda>_. bindS (cacheS f) (\<lambda>_. notifyS save)))"
  unfolding keeps_def
proof (intro allI impI)
  fix sw
  assume sw: "in_step sw"
  let ?sw = "sw\<lparr>sw_chain := (sw_chain sw)\<lparr>cn_cmd_q := cn_cmd_q (sw_chain sw) @ [c]\<rparr>\<rparr>"
  have q: "chainS (queue_cmd c) sw = (Inr (), ?sw)"
    using sw assms(1) by (simp add: chainS_def queue_cmd_def cmd_init_def getS_def whenS_def
        modifyS_def in_step_def Let_def)
  obtain s where s: "f (sw_cache sw) = Inr s" "in_step (?sw\<lparr>sw_cache := s\<rparr>)" using assms(2) [OF sw] by auto
  then have "cacheS f ?sw = (Inr (), ?sw\<lparr>sw_cache := s\<rparr>)" by (simp add: cacheS_def)
  then have "bindS (chainS (queue_cmd c)) (\<lambda>_. bindS (cacheS f) (\<lambda>_. notifyS save)) sw = notifyS save (?sw\<lparr>sw_cache := s\<rparr>)"
    by (simp add: bindS_ok [of "chainS (queue_cmd c)", OF q] bindS_ok)
  then show "in_step (snd (bindS (chainS (queue_cmd c)) (\<lambda>_. bindS (cacheS f) (\<lambda>_. notifyS save)) sw))"
    using keepsD [OF keeps_notify s(2)] by simp
qed

lemma keeps_x_set_edids [keeps_rules]: "edids_has_id es default_id \<Longrightarrow> keeps in_step (x_set_edids es save)"
  unfolding x_set_edids_def chain_set_edids_def
proof (rule keeps_queue_then_cache)
  fix sw
  assume es: "edids_has_id es default_id" and sw: "in_step sw"
  have copy: "edids_copy es = es" using es by (simp add: edids_copy_def mk_edids_def edids_has_id_def)
  obtain q where "cache_set_edids es (sw_cache sw) = Inr ((sw_cache sw)\<lparr>sc_edids := es, sc_queue := q\<rparr>)"
    using bump_if_eq [of m_EDIDS] by (force simp: cache_set_edids_def copy Let_def)
  then show "\<exists>s. cache_set_edids es (sw_cache sw) = Inr s \<and> in_step (sw\<lparr>sw_chain := (sw_chain sw)
      \<lparr>cn_cmd_q := cn_cmd_q (sw_chain sw) @ [CmdSetEdids es]\<rparr>, sw_cache := s\<rparr>)"
    using sw es by (simp add: in_step_def Let_def pend_defs)
qed simp

lemma keeps_x_set_dummies [keeps_rules]: "pd_wf ds \<Longrightarrow> keeps in_step (x_set_dummies ds save)"
  unfolding x_set_dummies_def chain_set_dummies_def
proof (rule keeps_queue_then_cache)
  fix sw
  assume ds: "pd_wf ds" and sw: "in_step sw"
  obtain q where "cache_set_dummies ds (sw_cache sw) = Inr ((sw_cache sw)\<lparr>sc_dummies := ds, sc_queue := q\<rparr>)"
    using bump_if_eq [of m_FULL] by (force simp: cache_set_dummies_def pd_copy_wf_id [OF ds])
  then show "\<exists>s. cache_set_dummies ds (sw_cache sw) = Inr s \<and> in_step (sw\<lparr>sw_chain := (sw_chain sw)
      \<lparr>cn_cmd_q := cn_cmd_q (sw_chain sw) @ [CmdSetDummies ds]\<rparr>, sw_cache := s\<rparr>)"
    using sw ds by (simp add: in_step_def Let_def pend_defs)
qed simp

lemma keeps_x_set_colors [keeps_rules]: "keeps in_step (x_set_colors cs save)"
  unfolding x_set_colors_def chain_set_colors_def
proof (rule keeps_queue_then_cache)
  fix sw
  assume sw: "in_step sw"
  obtain q where "cache_set_colors cs (sw_cache sw) = Inr ((sw_cache sw)\<lparr>sc_colors := cs, sc_queue := q\<rparr>)"
    using bump_if_eq [of m_COLORS] by (force simp: cache_set_colors_def)
  then show "\<exists>s. cache_set_colors cs (sw_cache sw) = Inr s \<and> in_step (sw\<lparr>sw_chain := (sw_chain sw)
      \<lparr>cn_cmd_q := cn_cmd_q (sw_chain sw) @ [CmdSetColors cs]\<rparr>, sw_cache := s\<rparr>)"
    using sw by (simp add: in_step_def Let_def pend_defs)
qed simp

lemma bump_if_same: "bump_if b m s = Inr t \<Longrightarrow> same_config s t"
  by (auto simp: bump_if_def bump_state_def assertR_Inr_iff same_config_def split: if_splits)

lemma keeps_x_set_others [keeps_rules]:
  "keeps in_step (x_set_port_names ns save)" "keeps in_step (x_set_atx_cp_delays ds save)"
  "keeps in_step (x_set_atx_cpl_delays ds save)" "keeps in_step (x_set_atx_cr_delays ds save)"
  unfolding x_set_port_names_def x_set_atx_cp_delays_def x_set_atx_cpl_delays_def x_set_atx_cr_delays_def
    cache_set_port_names_def cache_set_atx_cp_delays_def cache_set_atx_cpl_delays_def cache_set_atx_cr_delays_def
  by (intro keeps_rules keeps_cacheS; drule bump_if_same; simp add: same_config_def)+

text \<open>The events of the controller change no configuration.\<close>

lemma bump_state_same: "bump_state m s = Inr t \<Longrightarrow> same_config s t"
  by (auto simp: bump_state_def assertR_Inr_iff same_config_def)

lemma recache_same: "recache_synced s = Inr (b, t) \<Longrightarrow> same_config s t"
  by (auto simp: recache_synced_def bindR_Inr_iff same_config_def split: if_splits)

lemma same_config_trans: "same_config s t \<Longrightarrow> same_config t u \<Longrightarrow> same_config s u"
  by (simp add: same_config_def)

lemma truncate_same: "cache_truncate n s = Inr t \<Longrightarrow> same_config s t"
  by (auto simp: cache_truncate_def same_config_def split: if_splits dest!: bump_state_same)

lemma active_port_same: "update_active_port p s = Inr t \<Longrightarrow> same_config s t"
  by (auto simp: update_active_port_def bindR_Inr_iff same_config_def Let_def split: if_splits
      dest!: recache_same bump_state_same)

lemma unit_state_same: "update_unit_state u st s = Inr t \<Longrightarrow> same_config s t"
proof -
  assume a: "update_unit_state u st s = Inr t"
  let ?s = "ensure_unit u s"
  obtain ui where ui: "py_get (sc_units ?s) u = Inr ui"
    using a by (auto simp: update_unit_state_def Let_def bindR_Inr_iff)
  let ?s' = "?s\<lparr>sc_units := (sc_units ?s)[nat u := ui\<lparr>ui_state := Some st\<rparr>]\<rparr>"
  have s': "same_config s ?s'" by (simp add: same_config_def ensure_unit_def)
  have "same_config ?s' t"
    using a ui by (auto simp: update_unit_state_def Let_def bindR_Inr_iff same_config_def
        split: if_splits option.splits dest!: recache_same bump_state_same)
  with s' show ?thesis by (rule same_config_trans)
qed

lemma unit_leds_same: "update_unit_atx_leds u l s = Inr t \<Longrightarrow> same_config s t"
  by (auto simp: update_unit_atx_leds_def Let_def bindR_Inr_iff same_config_def ensure_unit_def
      split: if_splits option.splits dest!: bump_state_same)

lemma keeps_cache_updates [keeps_rules]:
  "keeps in_step (cacheS (cache_truncate n))" "keeps in_step (cacheS (update_active_port p))"
  "keeps in_step (cacheS (update_unit_state u st))" "keeps in_step (cacheS (update_unit_atx_leds u l))"
  "keeps in_step (cacheS trigger_state)"
  by (intro keeps_cacheS; (drule truncate_same active_port_same unit_state_same unit_leds_same
        bump_state_same [folded trigger_state_def])?; simp add: trigger_state_def bump_state_same)+

subsection \<open>Every operation\<close>

lemma mk_edids_has_default: "edids_has_id (mk_edids all port) default_id"
  using blank_edid by (auto simp: mk_edids_def edids_has_id_def edids_set_default_def dict_has_def Let_def
      simp del: edid_from_data.simps)

lemma cache_edids_default: "in_step sw \<Longrightarrow> edids_has_id (cache_get_edids (sw_cache sw)) default_id"
  by (simp add: cache_get_edids_def edids_copy_def mk_edids_has_default)

lemma edids_ops_default:
  "edids_has_id es default_id \<Longrightarrow> edids_has_id (snd (edids_add uid es e)) default_id"
  "edids_set es eid e = Inr es' \<Longrightarrow> edids_has_id es default_id \<Longrightarrow> edids_has_id es' default_id"
  "edids_remove es eid = Inr es' \<Longrightarrow> eid \<noteq> default_id \<Longrightarrow> edids_has_id es default_id \<Longrightarrow> edids_has_id es' default_id"
  "edids_assign es p eid = Inr es' \<Longrightarrow> edids_has_id es default_id \<Longrightarrow> edids_has_id es' default_id"
  "edids_set_default es src = Inr es' \<Longrightarrow> edids_has_id es' default_id"
  by (auto simp: edids_has_id_def dict_has_def edids_add_def edids_set_def edids_remove_def edids_assign_def
      edids_set_default_def assertR_Inr_iff bindR_Inr_iff split: if_splits)

lemma cache_dummies_wf: "in_step sw \<Longrightarrow> pd_wf (pd_set (cache_get_dummies (sw_cache sw)) p v)"
  by (simp add: cache_get_dummies_def in_step_def Let_def pd_copy_wf_id pd_set_wf)

lemma keeps_simple_ops:
  "keeps in_step set_active_prev" "keeps in_step set_active_next" "keeps in_step (set_active_port port)"
  "keeps in_step (set_port_beacon port on)" "keeps in_step (set_uplink_beacon unit on)"
  "keeps in_step (set_downlink_beacon unit on)" "keeps in_step (inner_atx_cp port if_powered long)"
  "keeps in_step (inner_atx_cr port if_powered)" "keeps in_step (reboot_unit unit bl)"
  "keeps in_step switch_trigger_state"
  unfolding set_active_prev_def set_active_next_def set_active_port_def set_port_beacon_def set_uplink_beacon_def
    set_downlink_beacon_def inner_atx_cp_def inner_atx_cr_def reboot_unit_def switch_trigger_state_def
    chain_set_active_prev_def chain_set_active_next_def chain_set_active_port_def chain_set_port_beacon_def
    chain_set_uplink_beacon_def chain_set_downlink_beacon_def chain_click_power_def chain_click_reset_def
    chain_reboot_unit_def
  by (intro keeps_rules; simp)+

lemma keeps_create_edid: "keeps in_step (create_edid uid name hex)"
  unfolding create_edid_def
  by (rule keeps_getS_in)
     (auto simp: edids_add_def edids_ops_default [unfolded edids_add_def snd_conv] cache_edids_default
       intro!: keeps_rules)

lemma keeps_change_edid: "keeps in_step (change_edid eid name hex)"
  unfolding change_edid_def
  by (intro keeps_assertS keeps_getS_in)
     (auto simp: Let_def cache_edids_default intro!: keeps_if keeps_raiseS keeps_bind_liftS keeps_x_set_edids
       elim: edids_ops_default(2))

lemma keeps_remove_edid: "keeps in_step (remove_edid eid)"
  unfolding remove_edid_def
  by (intro keeps_assertS keeps_getS_in)
     (auto simp: Let_def cache_edids_default intro!: keeps_if keeps_raiseS keeps_bind_liftS keeps_x_set_edids
       elim: edids_ops_default(3))

lemma keeps_set_colors: "keeps in_step (set_colors values)"
  unfolding set_colors_def Let_def by (intro keeps_rules)

lemma keeps_set_param:
  "(\<And>m. keeps in_step (setter m True)) \<Longrightarrow> keeps in_step (set_param getter setter reset p v)"
  unfolding set_param_def by (cases v) (auto intro!: keeps_rules)

lemma keeps_set_port_params: "keeps in_step (set_port_params port eid dummy name cp cpl cr)"
proof -
  have edid: "keeps in_step (case eid of None \<Rightarrow> retS () | Some eid \<Rightarrow> getS (\<lambda>sw. let es = cache_get_edids (sw_cache sw) in
           if \<not> edids_has_id es eid then raiseS OperationError
           else bindS (liftS (edids_assign es p eid)) (\<lambda>es. x_set_edids es True)))" for p
    by (cases eid) (auto simp: Let_def cache_edids_default intro!: keeps_retS keeps_getS_in keeps_if keeps_raiseS
        keeps_bind_liftS keeps_x_set_edids intro: edids_ops_default(4) [OF _ cache_edids_default])
  have dum: "keeps in_step (set_param cache_get_dummies x_set_dummies None p dummy)" for p
    unfolding set_param_def
    by (cases dummy) (auto intro!: keeps_retS keeps_getS_in keeps_x_set_dummies cache_dummies_wf)
  show ?thesis
    unfolding set_port_params_def
    by (intro keeps_bindS keeps_liftS edid dum keeps_set_param keeps_x_set_others)
qed

lemma map_values_keys: "map_values dec d = Inr e \<Longrightarrow> map fst e = map fst d"
  unfolding map_values_def
  by (induction d arbitrary: e) (auto simp: bindR_Inr_iff split: prod.splits)

lemma read_ports_wf: "read_ports dec d name x = Inr m \<Longrightarrow> pd_wf m"
proof -
  assume a: "read_ports dec d name x = Inr m"
  then obtain kvs e where k: "read_json_keyvals_int x name = Inr kvs" "map_values dec kvs = Inr e" "m = pd_init d e"
    by (auto simp: read_ports_def read_typed_def bindR_Inr_iff)
  have "dict_wf kvs" using k(1) by (auto simp: read_json_keyvals_int_def bindR_Inr_iff)
  then have "dict_wf e" using map_values_keys [OF k(2)] by (simp add: dict_wf_def)
  then show ?thesis by (simp add: k(3) pd_init_wf)
qed

lemma keeps_load_configs: "keeps in_step (load_configs dflt)"
proof -
  have set: "keeps in_step (bindS (x_set_edids es False) (\<lambda>_. bindS (x_set_dummies ds False) (\<lambda>_.
         bindS (x_set_colors cs False) (\<lambda>_. bindS (x_set_port_names ns False) (\<lambda>_.
         bindS (x_set_atx_cp_delays cp False) (\<lambda>_. bindS (x_set_atx_cpl_delays cpl False) (\<lambda>_.
         bindS (x_set_atx_cr_delays cr False) (\<lambda>_. chainS (chain_set_actual True)))))))))"
    if "read_all_configs x dflt = Inr (es, ds, cs, ns, cp, cpl, cr)" for x es ds cs ns cp cpl cr
  proof -
    have "edids_has_id es default_id" "pd_wf ds"
      using that by (auto simp: read_all_configs_def bindR_Inr_iff read_dummies_def
          split: option.splits elim: edids_ops_default(5) read_ports_wf)
    then show ?thesis unfolding chain_set_actual_def by (intro keeps_rules) simp_all
  qed
  show ?thesis
    unfolding load_configs_def
    by (rule keeps_getS_all) (auto intro!: keeps_retS set split: sum.split)
qed

lemma keeps_default_edid: "keeps in_step (systask_default_edid dflt)"
  unfolding systask_default_edid_def
  by (auto intro!: keeps_retS keeps_getS_all keeps_x_set_edids split: option.split sum.split
      elim: edids_ops_default(5))

lemma keeps_store_value: "keeps in_step (store_value eq new old write remember)"
  unfolding store_value_def
  by (intro keeps_rules keeps_modifyS) (simp add: in_step_def Let_def)

lemma keeps_storage: "keeps in_step systask_storage"
  unfolding systask_storage_def Let_def
  by (intro keeps_rules keeps_store_value keeps_modifyS) (simp add: in_step_def Let_def)

lemma keeps_systask_event: "keeps in_step (systask_event dflt ev)"
  unfolding systask_event_def by (cases ev) (auto intro!: keeps_load_configs keeps_cache_updates)

lemma exec_op_in_step: "in_step sw \<Longrightarrow> in_step (exec_op op sw)"
  by (cases op) (auto intro: keepsD keeps_simple_ops keeps_create_edid keeps_change_edid keeps_remove_edid
      keeps_set_colors keeps_set_port_params keeps_systask_event keeps_default_edid keeps_storage)

definition run_ops :: "switch_op list \<Rightarrow> switch \<Rightarrow> switch" where
  "run_ops ops sw = foldl (\<lambda>sw op. exec_op op sw) sw ops"

lemma run_ops_in_step: "in_step sw \<Longrightarrow> in_step (run_ops ops sw)"
  by (induction ops arbitrary: sw) (auto simp: run_ops_def exec_op_in_step)

subsection \<open>What the controller ends up with\<close>

text \<open>Only the three configuration commands change the configuration.\<close>

definition chain_config :: "chain \<Rightarrow> edids \<times> bool ports_dict \<times> colors" where
  "chain_config s = (cn_edids s, cn_dummies s, cn_colors s)"

lemma exec_cmd_config:
  "chain_config (snd (exec_cmd c s)) = (pend_edids (cn_edids s) c, pend_dummies (cn_dummies s) c, pend_colors (cn_colors s) c)"
proof -
  have dev: "keeps (\<lambda>t. chain_config t = k) (devU m)" for k m
    unfolding devU_def by (intro keeps_rules) (auto simp: keeps_def dev_def chain_config_def case_prod_beta)
  have act: "keeps (\<lambda>t. chain_config t = k) (activate p)" for k p
    unfolding activate_def queue_event_def
    by (intro keeps_rules keeps_modifyS) (simp_all add: chain_config_def)
  have actual: "chain_config (t\<lparr>cn_actual := b\<rparr>) = chain_config t" for t b
    by (simp add: chain_config_def)
  have rest: "keeps (\<lambda>t. chain_config t = k) (exec_cmd c)" if "\<not> config_cmd c" for k
    using that unfolding exec_cmd_def
    by (cases c) (auto simp: Let_def actual
        intro!: keeps_getS_all keeps_whenS keeps_bindS keeps_liftS keeps_if dev act keeps_modifyS split: prod.split)
  show ?thesis
  proof (cases "config_cmd c")
    case True
    then show ?thesis by (cases c) (simp_all add: exec_cmd_def getS_def modifyS_def chain_config_def pend_defs)
  next
    case False
    then show ?thesis using keepsD [OF rest [OF False], of s "chain_config s"]
      by (cases c) (auto simp: chain_config_def pend_defs)
  qed
qed

lemma consume_list_config:
  "consume_list q s = (Inr (), t) \<Longrightarrow> chain_config t =
     (foldl pend_edids (cn_edids s) q, foldl pend_dummies (cn_dummies s) q, foldl pend_colors (cn_colors s) q)"
proof (induction q arbitrary: s)
  case Nil
  then show ?case by (auto simp: modifyS_def chain_config_def)
next
  case (Cons c q)
  let ?s = "s\<lparr>cn_cmd_q := q\<rparr>"
  obtain u where u: "exec_cmd c ?s = (Inr (), u)" "consume_list q u = (Inr (), t)"
    using Cons.prems by (auto simp: bindS_def modifyS_def split: prod.splits sum.splits)
  have "chain_config u = (pend_edids (cn_edids s) c, pend_dummies (cn_dummies s) c, pend_colors (cn_colors s) c)"
    using exec_cmd_config [of c ?s] u(1) by simp
  then show ?case using Cons.IH [OF u(2)] by (simp add: chain_config_def)
qed

lemma switch_init_in_step:
  "\<exists>sw. switch_init seed ign files = Inr sw \<and> in_step sw \<and> cn_cmd_q (sw_chain sw) = []"
proof -
  obtain cs where cs: "colors_default = Inr cs" using colors_default_ok by blast
  show ?thesis
    unfolding switch_init_def chain_init_def state_cache_init_def cs bindR_simps
    by (rule exI, rule conjI, rule refl)
       (simp add: in_step_def Let_def mk_edids_has_default dummies_def pd_init_def pd_wf_def dict_wf_def)
qed

lemma bindS_ret_unit [simp]: "bindS m (\<lambda>_. retS ()) = m" "bindS n retS = n"
  by (auto simp: bindS_def retS_def fun_eq_iff split: prod.split sum.split)

lemma consume_config_cmds: "list_all config_cmd q \<Longrightarrow> \<exists>t. consume_list q s = (Inr (), t)"
proof (induction q arbitrary: s)
  case (Cons c q)
  have "\<exists>u. exec_cmd c (s\<lparr>cn_cmd_q := q\<rparr>) = (Inr (), u)"
    using Cons.prems by (cases c) (auto simp: exec_cmd_def getS_def modifyS_def)
  then show ?case using Cons by (auto simp: bindS_ok)
qed (simp add: modifyS_def)

lemma x_set_dummies_queue:
  "in_step sw \<Longrightarrow> cn_cmd_q (sw_chain (snd (x_set_dummies ds save sw))) = cn_cmd_q (sw_chain sw) @ [CmdSetDummies ds]"
  using bump_if_eq [of m_FULL]
  by (auto simp: x_set_dummies_def chain_set_dummies_def queue_cmd_def cmd_init_def chainS_def cacheS_def
      notifyS_def bindS_def liftS_def getS_def whenS_def modifyS_def retS_def in_step_def Let_def
      split: sum.split)

text \<open>C3. The clients are shown the configuration the switch gets: whatever methods are called
  and whatever events and storage turns happen in between, also when they fail, the controller
  holds exactly the EDIDs, dummy flags and colours of the state cache once it has worked off
  its queue.\<close>

theorem controller_gets_shown_configuration:
  assumes "in_step sw" and "consume_commands (sw_chain (run_ops ops sw)) = (Inr (), c)"
  shows "cn_edids c = sc_edids (sw_cache (run_ops ops sw)) \<and>
     cn_dummies c = sc_dummies (sw_cache (run_ops ops sw)) \<and>
     cn_colors c = sc_colors (sw_cache (run_ops ops sw))"
  using run_ops_in_step [OF assms(1), of ops] consume_list_config [of "cn_cmd_q (sw_chain (run_ops ops sw))"] assms(2)
  by (simp add: consume_commands_def getS_def in_step_def Let_def chain_config_def)

theorem controller_gets_shown_configuration_witness:
  "\<exists>sw c. switch_init 1 False [] = Inr sw \<and>
     (let sw' = run_ops [OpPortParams \<lparr>pf_value = 2, pf_str = ''2.0''\<rparr> None (Some False) None None None None] sw in
      consume_commands (sw_chain sw') = (Inr (), c) \<and>
      cn_edids c = sc_edids (sw_cache sw') \<and> cn_dummies c = sc_dummies (sw_cache sw') \<and>
      cn_colors c = sc_colors (sw_cache sw'))"
proof -
  obtain sw where sw: "switch_init 1 False [] = Inr sw" "in_step sw" "cn_cmd_q (sw_chain sw) = []"
    using switch_init_in_step by blast
  let ?ops = "[OpPortParams \<lparr>pf_value = 2, pf_str = ''2.0''\<rparr> None (Some False) None None None None]"
  let ?ds = "pd_set (cache_get_dummies (sw_cache sw)) 2 (Some False)"
  have "run_ops ?ops sw = snd (x_set_dummies ?ds True sw)"
    by (simp add: run_ops_def set_port_params_def set_param_def translate_port_def py_trunc_def getS_def)
  then have "cn_cmd_q (sw_chain (run_ops ?ops sw)) = [CmdSetDummies ?ds]"
    using x_set_dummies_queue [OF sw(2)] sw(3) by simp
  then obtain c where c: "consume_commands (sw_chain (run_ops ?ops sw)) = (Inr (), c)"
    using consume_config_cmds [of "[CmdSetDummies ?ds]"] by (auto simp: consume_commands_def getS_def)
  from controller_gets_shown_configuration [OF sw(2) c] c sw(1) show ?thesis by (auto simp: Let_def)
qed

end
