(* ===== verification/KeyTables.thy ===== *)
theory KeyTables
  imports Prelude "HOL-Library.Char_ord"
begin

text \<open>
  The key tables (\<open>kvmd/keyboard/mappings.py\<close>): what every Linux key code is on the USB keyboard
  and on the microcontroller, the names the web clients use for the keys, and the PC/AT scan
  codes of the VNC protocol and of the keyboard layouts.

  The numbers behind \<open>ecodes.KEY_A\<close> and its like come from the \<open>evdev\<close> package, so they are a
  parameter \<open>ec\<close> of the model, from the names to the numbers; the tables hold the names.
\<close>

section \<open>The tables\<close>

type_synonym ecodes = "string \<Rightarrow> int"

record usb_key =
  uk_code :: int
  uk_mod :: bool

record mcu_key =
  mk_code :: int

record key =
  ky_mcu :: mcu_key
  ky_usb :: usb_key

definition mk_key :: "int \<Rightarrow> int \<Rightarrow> bool \<Rightarrow> key" where
  "mk_key mcu usb is_mod =
     \<lparr>ky_mcu = \<lparr>mk_code = mcu\<rparr>, ky_usb = \<lparr>uk_code = usb, uk_mod = is_mod\<rparr>\<rparr>"

text \<open>Name, code on the microcontroller, code on the USB keyboard, whether it is a modifier.\<close>

definition KEYMAP :: "(string \<times> int \<times> int \<times> bool) list" where
  "KEYMAP = [
   (''KEY_A'', 1, 4, False), (''KEY_B'', 2, 5, False), (''KEY_C'', 3, 6, False),
   (''KEY_D'', 4, 7, False), (''KEY_E'', 5, 8, False), (''KEY_F'', 6, 9, False),
   (''KEY_G'', 7, 10, False), (''KEY_H'', 8, 11, False), (''KEY_I'', 9, 12, False),
   (''KEY_J'', 10, 13, False), (''KEY_K'', 11, 14, False), (''KEY_L'', 12, 15, False),
   (''KEY_M'', 13, 16, False), (''KEY_N'', 14, 17, False), (''KEY_O'', 15, 18, False),
   (''KEY_P'', 16, 19, False), (''KEY_Q'', 17, 20, False), (''KEY_R'', 18, 21, False),
   (''KEY_S'', 19, 22, False), (''KEY_T'', 20, 23, False), (''KEY_U'', 21, 24, False),
   (''KEY_V'', 22, 25, False), (''KEY_W'', 23, 26, False), (''KEY_X'', 24, 27, False),
   (''KEY_Y'', 25, 28, False), (''KEY_Z'', 26, 29, False), (''KEY_1'', 27, 30, False),
   (''KEY_2'', 28, 31, False), (''KEY_3'', 29, 32, False), (''KEY_4'', 30, 33, False),
   (''KEY_5'', 31, 34, False), (''KEY_6'', 32, 35, False), (''KEY_7'', 33, 36, False),
   (''KEY_8'', 34, 37, False), (''KEY_9'', 35, 38, False), (''KEY_0'', 36, 39, False),
   (''KEY_ENTER'', 37, 40, False), (''KEY_ESC'', 38, 41, False),
   (''KEY_BACKSPACE'', 39, 42, False), (''KEY_TAB'', 40, 43, False),
   (''KEY_SPACE'', 41, 44, False), (''KEY_MINUS'', 42, 45, False),
   (''KEY_EQUAL'', 43, 46, False), (''KEY_LEFTBRACE'', 44, 47, False),
   (''KEY_RIGHTBRACE'', 45, 48, False), (''KEY_BACKSLASH'', 46, 49, False),
   (''KEY_SEMICOLON'', 47, 51, False), (''KEY_APOSTROPHE'', 48, 52, False),
   (''KEY_GRAVE'', 49, 53, False), (''KEY_COMMA'', 50, 54, False), (''KEY_DOT'', 51, 55, False),
   (''KEY_SLASH'', 52, 56, False), (''KEY_CAPSLOCK'', 53, 57, False),
   (''KEY_F1'', 54, 58, False), (''KEY_F2'', 55, 59, False), (''KEY_F3'', 56, 60, False),
   (''KEY_F4'', 57, 61, False), (''KEY_F5'', 58, 62, False), (''KEY_F6'', 59, 63, False),
   (''KEY_F7'', 60, 64, False), (''KEY_F8'', 61, 65, False), (''KEY_F9'', 62, 66, False),
   (''KEY_F10'', 63, 67, False), (''KEY_F11'', 64, 68, False), (''KEY_F12'', 65, 69, False),
   (''KEY_SYSRQ'', 66, 70, False), (''KEY_INSERT'', 67, 73, False),
   (''KEY_HOME'', 68, 74, False), (''KEY_PAGEUP'', 69, 75, False),
   (''KEY_DELETE'', 70, 76, False), (''KEY_END'', 71, 77, False),
   (''KEY_PAGEDOWN'', 72, 78, False), (''KEY_RIGHT'', 73, 79, False),
   (''KEY_LEFT'', 74, 80, False), (''KEY_DOWN'', 75, 81, False), (''KEY_UP'', 76, 82, False),
   (''KEY_LEFTCTRL'', 77, 1, True), (''KEY_LEFTSHIFT'', 78, 2, True),
   (''KEY_LEFTALT'', 79, 4, True), (''KEY_LEFTMETA'', 80, 8, True),
   (''KEY_RIGHTCTRL'', 81, 16, True), (''KEY_RIGHTSHIFT'', 82, 32, True),
   (''KEY_RIGHTALT'', 83, 64, True), (''KEY_RIGHTMETA'', 84, 128, True),
   (''KEY_PAUSE'', 85, 72, False), (''KEY_SCROLLLOCK'', 86, 71, False),
   (''KEY_NUMLOCK'', 87, 83, False), (''KEY_CONTEXT_MENU'', 88, 101, False),
   (''KEY_KPSLASH'', 89, 84, False), (''KEY_KPASTERISK'', 90, 85, False),
   (''KEY_KPMINUS'', 91, 86, False), (''KEY_KPPLUS'', 92, 87, False),
   (''KEY_KPENTER'', 93, 88, False), (''KEY_KP1'', 94, 89, False), (''KEY_KP2'', 95, 90, False),
   (''KEY_KP3'', 96, 91, False), (''KEY_KP4'', 97, 92, False), (''KEY_KP5'', 98, 93, False),
   (''KEY_KP6'', 99, 94, False), (''KEY_KP7'', 100, 95, False), (''KEY_KP8'', 101, 96, False),
   (''KEY_KP9'', 102, 97, False), (''KEY_KP0'', 103, 98, False), (''KEY_KPDOT'', 104, 99, False),
   (''KEY_POWER'', 105, 102, False), (''KEY_102ND'', 106, 100, False),
   (''KEY_YEN'', 107, 137, False), (''KEY_RO'', 108, 135, False),
   (''KEY_KATAKANA'', 109, 136, False), (''KEY_HENKAN'', 110, 138, False),
   (''KEY_MUHENKAN'', 111, 139, False), (''KEY_MUTE'', 112, 127, False),
   (''KEY_VOLUMEUP'', 113, 128, False), (''KEY_VOLUMEDOWN'', 114, 129, False),
   (''KEY_F20'', 115, 111, False), (''KEY_F21'', 116, 112, False),
   (''KEY_F22'', 117, 113, False), (''KEY_F23'', 118, 114, False),
   (''KEY_F24'', 119, 115, False), (''KEY_F13'', 120, 104, False),
   (''KEY_F14'', 121, 105, False), (''KEY_F15'', 122, 106, False),
   (''KEY_F16'', 123, 107, False), (''KEY_F17'', 124, 108, False),
   (''KEY_F18'', 125, 109, False), (''KEY_F19'', 126, 110, False)]"

definition WEB_TO_EVDEV :: "(string \<times> string) list" where
  "WEB_TO_EVDEV = [
   (''KeyA'', ''KEY_A''), (''KeyB'', ''KEY_B''), (''KeyC'', ''KEY_C''), (''KeyD'', ''KEY_D''),
   (''KeyE'', ''KEY_E''), (''KeyF'', ''KEY_F''), (''KeyG'', ''KEY_G''), (''KeyH'', ''KEY_H''),
   (''KeyI'', ''KEY_I''), (''KeyJ'', ''KEY_J''), (''KeyK'', ''KEY_K''), (''KeyL'', ''KEY_L''),
   (''KeyM'', ''KEY_M''), (''KeyN'', ''KEY_N''), (''KeyO'', ''KEY_O''), (''KeyP'', ''KEY_P''),
   (''KeyQ'', ''KEY_Q''), (''KeyR'', ''KEY_R''), (''KeyS'', ''KEY_S''), (''KeyT'', ''KEY_T''),
   (''KeyU'', ''KEY_U''), (''KeyV'', ''KEY_V''), (''KeyW'', ''KEY_W''), (''KeyX'', ''KEY_X''),
   (''KeyY'', ''KEY_Y''), (''KeyZ'', ''KEY_Z''), (''Digit1'', ''KEY_1''),
   (''Digit2'', ''KEY_2''), (''Digit3'', ''KEY_3''), (''Digit4'', ''KEY_4''),
   (''Digit5'', ''KEY_5''), (''Digit6'', ''KEY_6''), (''Digit7'', ''KEY_7''),
   (''Digit8'', ''KEY_8''), (''Digit9'', ''KEY_9''), (''Digit0'', ''KEY_0''),
   (''Enter'', ''KEY_ENTER''), (''Escape'', ''KEY_ESC''), (''Backspace'', ''KEY_BACKSPACE''),
   (''Tab'', ''KEY_TAB''), (''Space'', ''KEY_SPACE''), (''Minus'', ''KEY_MINUS''),
   (''Equal'', ''KEY_EQUAL''), (''BracketLeft'', ''KEY_LEFTBRACE''),
   (''BracketRight'', ''KEY_RIGHTBRACE''), (''Backslash'', ''KEY_BACKSLASH''),
   (''Semicolon'', ''KEY_SEMICOLON''), (''Quote'', ''KEY_APOSTROPHE''),
   (''Backquote'', ''KEY_GRAVE''), (''Comma'', ''KEY_COMMA''), (''Period'', ''KEY_DOT''),
   (''Slash'', ''KEY_SLASH''), (''CapsLock'', ''KEY_CAPSLOCK''), (''F1'', ''KEY_F1''),
   (''F2'', ''KEY_F2''), (''F3'', ''KEY_F3''), (''F4'', ''KEY_F4''), (''F5'', ''KEY_F5''),
   (''F6'', ''KEY_F6''), (''F7'', ''KEY_F7''), (''F8'', ''KEY_F8''), (''F9'', ''KEY_F9''),
   (''F10'', ''KEY_F10''), (''F11'', ''KEY_F11''), (''F12'', ''KEY_F12''),
   (''PrintScreen'', ''KEY_SYSRQ''), (''Insert'', ''KEY_INSERT''), (''Home'', ''KEY_HOME''),
   (''PageUp'', ''KEY_PAGEUP''), (''Delete'', ''KEY_DELETE''), (''End'', ''KEY_END''),
   (''PageDown'', ''KEY_PAGEDOWN''), (''ArrowRight'', ''KEY_RIGHT''),
   (''ArrowLeft'', ''KEY_LEFT''), (''ArrowDown'', ''KEY_DOWN''), (''ArrowUp'', ''KEY_UP''),
   (''ControlLeft'', ''KEY_LEFTCTRL''), (''ShiftLeft'', ''KEY_LEFTSHIFT''),
   (''AltLeft'', ''KEY_LEFTALT''), (''MetaLeft'', ''KEY_LEFTMETA''),
   (''ControlRight'', ''KEY_RIGHTCTRL''), (''ShiftRight'', ''KEY_RIGHTSHIFT''),
   (''AltRight'', ''KEY_RIGHTALT''), (''MetaRight'', ''KEY_RIGHTMETA''),
   (''Pause'', ''KEY_PAUSE''), (''ScrollLock'', ''KEY_SCROLLLOCK''),
   (''NumLock'', ''KEY_NUMLOCK''), (''ContextMenu'', ''KEY_CONTEXT_MENU''),
   (''NumpadDivide'', ''KEY_KPSLASH''), (''NumpadMultiply'', ''KEY_KPASTERISK''),
   (''NumpadSubtract'', ''KEY_KPMINUS''), (''NumpadAdd'', ''KEY_KPPLUS''),
   (''NumpadEnter'', ''KEY_KPENTER''), (''Numpad1'', ''KEY_KP1''), (''Numpad2'', ''KEY_KP2''),
   (''Numpad3'', ''KEY_KP3''), (''Numpad4'', ''KEY_KP4''), (''Numpad5'', ''KEY_KP5''),
   (''Numpad6'', ''KEY_KP6''), (''Numpad7'', ''KEY_KP7''), (''Numpad8'', ''KEY_KP8''),
   (''Numpad9'', ''KEY_KP9''), (''Numpad0'', ''KEY_KP0''), (''NumpadDecimal'', ''KEY_KPDOT''),
   (''Power'', ''KEY_POWER''), (''IntlBackslash'', ''KEY_102ND''), (''IntlYen'', ''KEY_YEN''),
   (''IntlRo'', ''KEY_RO''), (''KanaMode'', ''KEY_KATAKANA''), (''Convert'', ''KEY_HENKAN''),
   (''NonConvert'', ''KEY_MUHENKAN''), (''AudioVolumeMute'', ''KEY_MUTE''),
   (''AudioVolumeUp'', ''KEY_VOLUMEUP''), (''AudioVolumeDown'', ''KEY_VOLUMEDOWN''),
   (''F20'', ''KEY_F20''), (''F21'', ''KEY_F21''), (''F22'', ''KEY_F22''),
   (''F23'', ''KEY_F23''), (''F24'', ''KEY_F24''), (''F13'', ''KEY_F13''),
   (''F14'', ''KEY_F14''), (''F15'', ''KEY_F15''), (''F16'', ''KEY_F16''),
   (''F17'', ''KEY_F17''), (''F18'', ''KEY_F18''), (''F19'', ''KEY_F19'')]"

record at1_key =
  at_code :: int
  at_shift :: bool
  at_altgr :: bool
  at_ctrl :: bool

definition At1Key :: "int \<Rightarrow> bool \<Rightarrow> at1_key" where
  "At1Key code shift = \<lparr>at_code = code, at_shift = shift, at_altgr = False, at_ctrl = False\<rparr>"

text \<open>X11 keysym, AT code, whether with shift; every list of the source has one key.\<close>

definition X11_TO_AT1 :: "(int \<times> at1_key list) list" where
  "X11_TO_AT1 = map (\<lambda>(x, c, s). (x, [At1Key c s])) [
   (65307, 1, False), (33, 2, True), (49, 2, False), (50, 3, False), (64, 3, True),
   (35, 4, True), (51, 4, False), (36, 5, True), (52, 5, False), (37, 6, True), (53, 6, False),
   (54, 7, False), (94, 7, True), (38, 8, True), (55, 8, False), (42, 9, True), (56, 9, False),
   (40, 10, True), (57, 10, False), (41, 11, True), (48, 11, False), (45, 12, False),
   (95, 12, True), (43, 13, True), (61, 13, False), (65288, 14, False), (65289, 15, False),
   (81, 16, True), (113, 16, False), (87, 17, True), (119, 17, False), (69, 18, True),
   (101, 18, False), (82, 19, True), (114, 19, False), (84, 20, True), (116, 20, False),
   (89, 21, True), (121, 21, False), (85, 22, True), (117, 22, False), (73, 23, True),
   (105, 23, False), (79, 24, True), (111, 24, False), (80, 25, True), (112, 25, False),
   (91, 26, False), (123, 26, True), (93, 27, False), (125, 27, True), (65293, 28, False),
   (65507, 29, False), (65, 30, True), (97, 30, False), (83, 31, True), (115, 31, False),
   (68, 32, True), (100, 32, False), (70, 33, True), (102, 33, False), (71, 34, True),
   (103, 34, False), (72, 35, True), (104, 35, False), (74, 36, True), (106, 36, False),
   (75, 37, True), (107, 37, False), (76, 38, True), (108, 38, False), (58, 39, True),
   (59, 39, False), (34, 40, True), (39, 40, False), (96, 41, False), (126, 41, True),
   (65505, 42, False), (92, 43, False), (124, 43, True), (90, 44, True), (122, 44, False),
   (88, 45, True), (120, 45, False), (67, 46, True), (99, 46, False), (86, 47, True),
   (118, 47, False), (66, 48, True), (98, 48, False), (78, 49, True), (110, 49, False),
   (77, 50, True), (109, 50, False), (44, 51, False), (60, 51, True), (46, 52, False),
   (62, 52, True), (47, 53, False), (63, 53, True), (65506, 54, False), (215, 55, False),
   (65513, 56, False), (32, 57, False), (65509, 58, False), (65470, 59, False),
   (65471, 60, False), (65472, 61, False), (65473, 62, False), (65474, 63, False),
   (65475, 64, False), (65476, 65, False), (65477, 66, False), (65478, 67, False),
   (65479, 68, False), (65407, 69, False), (65300, 70, False), (65463, 71, False),
   (65464, 72, False), (65465, 73, False), (65453, 74, False), (65460, 75, False),
   (65461, 76, False), (65462, 77, False), (65451, 78, False), (65457, 79, False),
   (65458, 80, False), (65459, 81, False), (65456, 82, False), (65454, 83, False),
   (65301, 84, False), (65480, 87, False), (65481, 88, False), (65421, 57372, False),
   (65508, 57373, False), (65455, 57397, False), (65027, 57400, False), (65514, 57400, False),
   (65299, 57414, False), (65360, 57415, False), (65362, 57416, False), (65365, 57417, False),
   (65361, 57419, False), (65363, 57421, False), (65367, 57423, False), (65364, 57424, False),
   (65366, 57425, False), (65379, 57426, False), (65535, 57427, False), (65511, 57435, False),
   (65515, 57435, False), (65512, 57436, False), (65516, 57436, False), (65383, 57437, False),
   (269025071, 57438, False)]"

definition AT1_TO_EVDEV :: "(int \<times> string) list" where
  "AT1_TO_EVDEV = [
   (1, ''KEY_ESC''), (2, ''KEY_1''), (3, ''KEY_2''), (4, ''KEY_3''), (5, ''KEY_4''),
   (6, ''KEY_5''), (7, ''KEY_6''), (8, ''KEY_7''), (9, ''KEY_8''), (10, ''KEY_9''),
   (11, ''KEY_0''), (12, ''KEY_MINUS''), (13, ''KEY_EQUAL''), (14, ''KEY_BACKSPACE''),
   (15, ''KEY_TAB''), (16, ''KEY_Q''), (17, ''KEY_W''), (18, ''KEY_E''), (19, ''KEY_R''),
   (20, ''KEY_T''), (21, ''KEY_Y''), (22, ''KEY_U''), (23, ''KEY_I''), (24, ''KEY_O''),
   (25, ''KEY_P''), (26, ''KEY_LEFTBRACE''), (27, ''KEY_RIGHTBRACE''), (28, ''KEY_ENTER''),
   (29, ''KEY_LEFTCTRL''), (30, ''KEY_A''), (31, ''KEY_S''), (32, ''KEY_D''), (33, ''KEY_F''),
   (34, ''KEY_G''), (35, ''KEY_H''), (36, ''KEY_J''), (37, ''KEY_K''), (38, ''KEY_L''),
   (39, ''KEY_SEMICOLON''), (40, ''KEY_APOSTROPHE''), (41, ''KEY_GRAVE''),
   (42, ''KEY_LEFTSHIFT''), (43, ''KEY_BACKSLASH''), (44, ''KEY_Z''), (45, ''KEY_X''),
   (46, ''KEY_C''), (47, ''KEY_V''), (48, ''KEY_B''), (49, ''KEY_N''), (50, ''KEY_M''),
   (51, ''KEY_COMMA''), (52, ''KEY_DOT''), (53, ''KEY_SLASH''), (54, ''KEY_RIGHTSHIFT''),
   (55, ''KEY_KPASTERISK''), (56, ''KEY_LEFTALT''), (57, ''KEY_SPACE''), (58, ''KEY_CAPSLOCK''),
   (59, ''KEY_F1''), (60, ''KEY_F2''), (61, ''KEY_F3''), (62, ''KEY_F4''), (63, ''KEY_F5''),
   (64, ''KEY_F6''), (65, ''KEY_F7''), (66, ''KEY_F8''), (67, ''KEY_F9''), (68, ''KEY_F10''),
   (69, ''KEY_NUMLOCK''), (70, ''KEY_SCROLLLOCK''), (71, ''KEY_KP7''), (72, ''KEY_KP8''),
   (73, ''KEY_KP9''), (74, ''KEY_KPMINUS''), (75, ''KEY_KP4''), (76, ''KEY_KP5''),
   (77, ''KEY_KP6''), (78, ''KEY_KPPLUS''), (79, ''KEY_KP1''), (80, ''KEY_KP2''),
   (81, ''KEY_KP3''), (82, ''KEY_KP0''), (83, ''KEY_KPDOT''), (84, ''KEY_SYSRQ''),
   (85, ''KEY_F16''), (86, ''KEY_102ND''), (87, ''KEY_F11''), (88, ''KEY_F12''),
   (90, ''KEY_F20''), (93, ''KEY_F13''), (94, ''KEY_F14''), (95, ''KEY_F15''),
   (109, ''KEY_F23''), (111, ''KEY_F24''), (112, ''KEY_KATAKANA''), (115, ''KEY_RO''),
   (116, ''KEY_F21''), (121, ''KEY_HENKAN''), (123, ''KEY_MUHENKAN''), (125, ''KEY_YEN''),
   (57347, ''KEY_F17''), (57348, ''KEY_F19''), (57372, ''KEY_KPENTER''),
   (57373, ''KEY_RIGHTCTRL''), (57376, ''KEY_MUTE''), (57390, ''KEY_VOLUMEDOWN''),
   (57392, ''KEY_VOLUMEUP''), (57397, ''KEY_KPSLASH''), (57400, ''KEY_RIGHTALT''),
   (57414, ''KEY_PAUSE''), (57415, ''KEY_HOME''), (57416, ''KEY_UP''), (57417, ''KEY_PAGEUP''),
   (57419, ''KEY_LEFT''), (57421, ''KEY_RIGHT''), (57423, ''KEY_END''), (57424, ''KEY_DOWN''),
   (57425, ''KEY_PAGEDOWN''), (57426, ''KEY_INSERT''), (57427, ''KEY_DELETE''),
   (57435, ''KEY_LEFTMETA''), (57436, ''KEY_RIGHTMETA''), (57437, ''KEY_CONTEXT_MENU''),
   (57438, ''KEY_POWER''), (57463, ''KEY_F18''), (57465, ''KEY_F22'')]"

definition SHIFTS :: "string list" where
  "SHIFTS = [''KEY_LEFTSHIFT'', ''KEY_RIGHTSHIFT'']"

definition ALTS :: "string list" where
  "ALTS = [''KEY_LEFTALT'', ''KEY_RIGHTALT'']"

definition CTRLS :: "string list" where
  "CTRLS = [''KEY_LEFTCTRL'', ''KEY_RIGHTCTRL'']"

definition METAS :: "string list" where
  "METAS = [''KEY_LEFTMETA'', ''KEY_RIGHTMETA'']"

definition evdev_modifiers :: "string list" where
  "evdev_modifiers = SHIFTS @ ALTS @ CTRLS @ METAS"

section \<open>The tables on the numbers of the package\<close>

definition keymap :: "ecodes \<Rightarrow> (int, key) dict" where
  "keymap ec = dict_of (map (\<lambda>(n, mcu, usb, m). (ec n, mk_key mcu usb m)) KEYMAP)"

definition web_to_evdev :: "ecodes \<Rightarrow> (string, int) dict" where
  "web_to_evdev ec = dict_of (map (\<lambda>(w, n). (w, ec n)) WEB_TO_EVDEV)"

definition at1_to_evdev :: "ecodes \<Rightarrow> (int, int) dict" where
  "at1_to_evdev ec = dict_of (map (\<lambda>(a, n). (a, ec n)) AT1_TO_EVDEV)"

definition x11_to_at1 :: "(int, at1_key list) dict" where
  "x11_to_at1 = dict_of X11_TO_AT1"

definition is_evdev_modifier :: "ecodes \<Rightarrow> int \<Rightarrow> bool" where
  "is_evdev_modifier ec k = (k \<in> set (map ec evdev_modifiers))"

section \<open>The tables fit together\<close>

definition key_names :: "string list" where
  "key_names = map fst KEYMAP"

definition button_names :: "string list" where
  "button_names = [''BTN_LEFT'', ''BTN_RIGHT'', ''BTN_MIDDLE'', ''BTN_BACK'', ''BTN_FORWARD'']"

text \<open>
  What the tables rely on in the package: the names it is asked for are different codes, none
  of them the reserved code 0.  A numbering with this property counts the names.
\<close>

definition ecodes_ok :: "ecodes \<Rightarrow> bool" where
  "ecodes_ok ec = (distinct (map ec (key_names @ button_names)) \<and> 0 \<notin> set (map ec key_names))"

definition index_of :: "'a list \<Rightarrow> 'a \<Rightarrow> nat" where
  "index_of xs x = length (takeWhile (\<lambda>y. y \<noteq> x) xs)"

definition count_names :: ecodes where
  "count_names n = 1 + int (index_of (key_names @ button_names) n)"

lemma nth_index_of: "x \<in> set xs \<Longrightarrow> xs ! index_of xs x = x"
  by (induction xs) (auto simp: index_of_def)

lemma index_of_inj: "inj_on (index_of xs) (set xs)"
  by (rule inj_onI) (metis nth_index_of)

lemma names_distinct: "distinct (key_names @ button_names)"
  by (simp add: key_names_def button_names_def KEYMAP_def)

lemma count_names_ok: "ecodes_ok count_names"
  using names_distinct index_of_inj [of "key_names @ button_names"]
  unfolding ecodes_ok_def distinct_map
  by (auto simp: inj_on_def count_names_def simp del: set_append)

text \<open>
  Both tables of codes lead to keys of \<open>KEYMAP\<close>: the web names list them in its order, the scan
  codes in the order given by the positions below.
\<close>

lemma web_names: "map snd WEB_TO_EVDEV = key_names"
  by (simp add: WEB_TO_EVDEV_def key_names_def KEYMAP_def)

lemma at1_names: "map snd AT1_TO_EVDEV = map ((!) key_names) [
     37, 26, 27, 28, 29, 30, 31, 32, 33, 34, 35, 41, 42, 38, 39, 16, 22, 4, 17, 19, 24, 20, 8,
     14, 15, 43, 44, 36, 76, 0, 18, 3, 5, 6, 7, 9, 10, 11, 46, 47, 48, 77, 45, 25, 23, 2, 21,
     1, 13, 12, 49, 50, 51, 81, 89, 78, 40, 52, 53, 54, 55, 56, 57, 58, 59, 60, 61, 62, 86, 85,
     99, 100, 101, 90, 96, 97, 98, 91, 93, 94, 95, 102, 103, 65, 122, 105, 63, 64, 114, 119,
     120, 121, 117, 118, 108, 107, 115, 109, 110, 106, 123, 125, 92, 80, 111, 113, 112, 88, 82,
     84, 67, 75, 68, 73, 72, 70, 74, 71, 66, 69, 79, 83, 87, 104, 124, 116]"
  by (simp add: AT1_TO_EVDEV_def key_names_def KEYMAP_def)

lemma modifier_names: "evdev_modifiers = map ((!) key_names) [77, 81, 78, 82, 76, 80, 79, 83]"
  by (simp add: evdev_modifiers_def SHIFTS_def ALTS_def CTRLS_def METAS_def key_names_def KEYMAP_def)

lemma key_tables_closed:
  "set (map snd WEB_TO_EVDEV) \<subseteq> set key_names"
  "set (map snd AT1_TO_EVDEV) \<subseteq> set key_names"
  "set evdev_modifiers \<subseteq> set key_names"
proof -
  have len: "length key_names = 126" by (simp add: key_names_def KEYMAP_def)
  show "set (map snd WEB_TO_EVDEV) \<subseteq> set key_names" by (simp add: web_names)
  show "set (map snd AT1_TO_EVDEV) \<subseteq> set key_names"
    unfolding at1_names by (simp add: len)
  show "set evdev_modifiers \<subseteq> set key_names"
    unfolding modifier_names by (simp add: len)
qed

section \<open>Looking keys up\<close>

definition key_row_ok :: "string \<times> int \<times> int \<times> bool \<Rightarrow> bool" where
  "key_row_ok = (\<lambda>(n, mcu, usb, m). 0 < mcu \<and> mcu < 256 \<and> 0 < usb \<and> usb < 256
     \<and> m = (n \<in> set evdev_modifiers) \<and> (m \<longrightarrow> usb \<in> {1, 2, 4, 8, 16, 32, 64, 128}))"

lemma keymap_rows: "\<forall>r \<in> set KEYMAP. key_row_ok r"
  by (simp add: KEYMAP_def key_row_ok_def evdev_modifiers_def SHIFTS_def ALTS_def CTRLS_def METAS_def)

lemma keymap_codes_distinct: "distinct (map (\<lambda>(n, mcu, usb, m). (usb, m)) KEYMAP)"
    "distinct (map (\<lambda>(n, mcu, usb, m). mcu) KEYMAP)"
  by (simp_all add: KEYMAP_def)

lemma keymap_Some:
  assumes "map_of (keymap ec) k = Some v"
  obtains n mcu usb m where "(n, mcu, usb, m) \<in> set KEYMAP" "k = ec n" "v = mk_key mcu usb m"
  using map_of_SomeD [OF assms [unfolded keymap_def map_of_dict_of]] by (auto intro: that)

lemma keymap_row:
  assumes "ecodes_ok ec" "(n, mcu, usb, m) \<in> set KEYMAP"
  shows "map_of (keymap ec) (ec n) = Some (mk_key mcu usb m)"
proof -
  let ?kvs = "map (\<lambda>(n, mcu, usb, m). (ec n, mk_key mcu usb m)) KEYMAP"
  have "map fst ?kvs = map ec key_names"
    by (simp add: key_names_def comp_def case_prod_unfold)
  then have wf: "dict_wf ?kvs"
    unfolding dict_wf_def using assms(1) by (simp only: ecodes_ok_def map_append distinct_append)
  have "(ec n, mk_key mcu usb m) \<in> set ?kvs" using assms(2) by force
  with wf show ?thesis
    unfolding keymap_def map_of_dict_of_wf [OF wf] dict_wf_def by (rule map_of_is_SomeI)
qed

lemma keymap_total:
  assumes "ecodes_ok ec" "n \<in> set key_names"
  obtains mcu usb m where "(n, mcu, usb, m) \<in> set KEYMAP"
    "map_of (keymap ec) (ec n) = Some (mk_key mcu usb m)"
  using assms keymap_row [OF assms(1)] by (auto simp: key_names_def)

lemma keymap_inj:
  assumes "ecodes_ok ec" "map_of (keymap ec) k = Some v" "map_of (keymap ec) l = Some w"
    and "ky_usb v = ky_usb w \<or> ky_mcu v = ky_mcu w"
  shows "k = l"
proof -
  obtain n c u m where r: "(n, c, u, m) \<in> set KEYMAP" "k = ec n" "v = mk_key c u m"
    by (rule keymap_Some [OF assms(2)])
  obtain n' c' u' m' where r': "(n', c', u', m') \<in> set KEYMAP" "l = ec n'" "w = mk_key c' u' m'"
    by (rule keymap_Some [OF assms(3)])
  have "(u = u' \<and> m = m') \<or> c = c'" using assms(4) r(3) r'(3) by (auto simp: mk_key_def)
  then have "(n, c, u, m) = (n', c', u', m')"
    using keymap_codes_distinct r(1) r'(1) by (auto simp: distinct_map inj_on_def)
  then show ?thesis using r(2) r'(2) by simp
qed

text \<open>The modifiers by their number and by the table are the same keys.\<close>

lemma modifier_iff:
  assumes "ecodes_ok ec" "map_of (keymap ec) k = Some v"
  shows "is_evdev_modifier ec k \<longleftrightarrow> uk_mod (ky_usb v)"
proof -
  obtain n c u m where r: "(n, c, u, m) \<in> set KEYMAP" "k = ec n" "v = mk_key c u m"
    by (rule keymap_Some [OF assms(2)])
  have inj: "inj_on ec (set key_names)"
    using assms(1) by (simp add: ecodes_ok_def distinct_map)
  have n: "n \<in> set key_names" using r(1) by (force simp: key_names_def)
  have "k \<in> ec ` set evdev_modifiers \<longleftrightarrow> n \<in> set evdev_modifiers"
    using inj_on_image_mem_iff [OF inj n key_tables_closed(3)] r(2) by simp
  moreover have "m = (n \<in> set evdev_modifiers)"
    using keymap_rows r(1) by (auto simp: key_row_ok_def)
  ultimately show ?thesis using r(3) by (simp add: is_evdev_modifier_def mk_key_def)
qed

lemma usb_code_bounds:
  assumes "map_of (keymap ec) k = Some v"
  shows "0 < uk_code (ky_usb v)" "uk_code (ky_usb v) < 256"
    "0 < mk_code (ky_mcu v)" "mk_code (ky_mcu v) < 256"
    "uk_mod (ky_usb v) \<longrightarrow> uk_code (ky_usb v) \<in> {1, 2, 4, 8, 16, 32, 64, 128}"
proof -
  obtain n c u m where "(n, c, u, m) \<in> set KEYMAP" "v = mk_key c u m"
    by (rule keymap_Some [OF assms])
  with keymap_rows show "0 < uk_code (ky_usb v)" "uk_code (ky_usb v) < 256"
    "0 < mk_code (ky_mcu v)" "mk_code (ky_mcu v) < 256"
    "uk_mod (ky_usb v) \<longrightarrow> uk_code (ky_usb v) \<in> {1, 2, 4, 8, 16, 32, 64, 128}"
    by (auto simp: key_row_ok_def mk_key_def)
qed

lemma code_table_values:
  "map_of (dict_of (map (\<lambda>(a, n). (a, ec n)) kvs)) a = Some k \<Longrightarrow> k \<in> ec ` set (map snd kvs)"
  unfolding map_of_dict_of by (drule map_of_SomeD) force

text \<open>Every key a client can name reaches the computer: each name of the web clients and each
  scan code of the VNC protocol stands for a key that \<open>KEYMAP\<close> knows, with codes that are
  nonzero bytes, and two different keys never share a USB usage or a microcontroller code.\<close>

theorem client_keys_known:
  assumes "ecodes_ok ec"
    and "map_of (web_to_evdev ec) w = Some k \<or> map_of (at1_to_evdev ec) a = Some k"
  shows "\<exists>v. map_of (keymap ec) k = Some v
      \<and> uk_code (ky_usb v) \<in> {1..255} \<and> mk_code (ky_mcu v) \<in> {1..255}
      \<and> (\<forall>l u. map_of (keymap ec) l = Some u \<and> (ky_usb u = ky_usb v \<or> ky_mcu u = ky_mcu v) \<longrightarrow> l = k)"
proof -
  have "k \<in> ec ` set key_names"
    using assms(2)
  proof
    assume "map_of (web_to_evdev ec) w = Some k"
    from code_table_values [OF this [unfolded web_to_evdev_def]] show ?thesis
      using key_tables_closed(1) by blast
  next
    assume "map_of (at1_to_evdev ec) a = Some k"
    from code_table_values [OF this [unfolded at1_to_evdev_def]] show ?thesis
      using key_tables_closed(2) by blast
  qed
  then obtain n where n: "n \<in> set key_names" and k: "k = ec n" by blast
  obtain mcu usb m where v: "map_of (keymap ec) k = Some (mk_key mcu usb m)"
    using keymap_total [OF assms(1) n] k by metis
  have uniq: "\<forall>l u. map_of (keymap ec) l = Some u \<and>
      (ky_usb u = ky_usb (mk_key mcu usb m) \<or> ky_mcu u = ky_mcu (mk_key mcu usb m)) \<longrightarrow> l = k"
    by (intro allI impI, elim conjE) (rule keymap_inj [OF assms(1) _ v])
  have range: "uk_code (ky_usb (mk_key mcu usb m)) \<in> {1..255}"
      "mk_code (ky_mcu (mk_key mcu usb m)) \<in> {1..255}"
    using usb_code_bounds(1-4) [OF v] by simp_all
  show ?thesis by (rule exI, rule conjI [OF v], intro conjI range uniq)
qed

theorem client_keys_known_witness:
  "\<exists>v. map_of (keymap count_names) (count_names ''KEY_A'') = Some v
      \<and> uk_code (ky_usb v) \<in> {1..255} \<and> mk_code (ky_mcu v) \<in> {1..255}"
proof -
  have "map_of (web_to_evdev count_names) ''KeyA'' = Some (count_names ''KEY_A'')"
    unfolding web_to_evdev_def map_of_dict_of by (simp add: WEB_TO_EVDEV_def)
  then show ?thesis using client_keys_known [OF count_names_ok] by blast
qed

end
