(* ===== verification/HidEvents.thy ===== *)
theory HidEvents
  imports KeyTables Tools
begin

text \<open>
  The events of the USB gadget HID (\<open>kvmd/plugins/hid/otg/events.py\<close>) and the ranges of the
  mouse coordinates (\<open>kvmd/mouse.py\<close>), with the reports the keyboard and the mouse write to
  their devices.
\<close>

section \<open>mouse.py\<close>

definition range_min :: int where "range_min = - 32768"
definition range_max :: int where "range_max = 32767"
definition delta_min :: int where "delta_min = - 127"
definition delta_max :: int where "delta_max = 127"

lemmas mouse_ranges = range_min_def range_max_def delta_min_def delta_max_def

definition range_remap :: "int \<Rightarrow> int \<Rightarrow> int \<Rightarrow> int" where
  "range_remap v out_min out_max = remap v range_min range_max out_min out_max"

definition range_normalize :: "int \<Rightarrow> int" where
  "range_normalize v = min (max range_min v) range_max"

definition delta_normalize :: "int \<Rightarrow> int" where
  "delta_normalize v = min (max delta_min v) delta_max"

definition mouse_to_evdev :: "ecodes \<Rightarrow> (string, int) dict" where
  "mouse_to_evdev ec =
     [(''left'', ec ''BTN_LEFT''), (''right'', ec ''BTN_RIGHT''), (''middle'', ec ''BTN_MIDDLE''),
      (''up'', ec ''BTN_BACK''), (''down'', ec ''BTN_FORWARD'')]"

lemma range_normalize_in: "range_min \<le> range_normalize v \<and> range_normalize v \<le> range_max"
  by (auto simp: range_normalize_def mouse_ranges)

lemma range_normalize_id: "range_min \<le> v \<Longrightarrow> v \<le> range_max \<Longrightarrow> range_normalize v = v"
  by (simp add: range_normalize_def)

section \<open>Events\<close>

text \<open>
  A button event keeps the button, the new state and the bit of the report; a move keeps the
  target, the Windows 98 flag and the point in the coordinates of the report.
\<close>

datatype hid_event =
    ClearEvent
  | ResetEvent
  | KeyEvent usb_key bool
  | ModifierEvent usb_key bool
  | MouseButtonEvent int bool int
  | MouseMoveEvent int int bool int int
  | MouseRelativeEvent int int
  | MouseWheelEvent int int

definition make_keyboard_event :: "ecodes \<Rightarrow> int \<Rightarrow> bool \<Rightarrow> hid_event result" where
  "make_keyboard_event ec key state = bindR (dict_at (keymap ec) key) (\<lambda>k.
     if uk_mod (ky_usb k) then assertR (uk_mod (ky_usb k)) (Inr (ModifierEvent (ky_usb k) state))
     else assertR (\<not> uk_mod (ky_usb k)) (Inr (KeyEvent (ky_usb k) state)))"

definition mouse_button_event :: "ecodes \<Rightarrow> int \<Rightarrow> bool \<Rightarrow> hid_event result" where
  "mouse_button_event ec button state = bindR
     (dict_at (dict_of [(ec ''BTN_LEFT'', 1), (ec ''BTN_RIGHT'', 2), (ec ''BTN_MIDDLE'', 4),
        (ec ''BTN_BACK'', 8), (ec ''BTN_FORWARD'', 16)]) button) (\<lambda>code.
     Inr (MouseButtonEvent button state code))"

definition in_range :: "int \<Rightarrow> bool" where
  "in_range v = (range_min \<le> v \<and> v \<le> range_max)"

definition in_delta :: "int \<Rightarrow> bool" where
  "in_delta v = (delta_min \<le> v \<and> v \<le> delta_max)"

definition mouse_move_event :: "int \<Rightarrow> int \<Rightarrow> bool \<Rightarrow> hid_event result" where
  "mouse_move_event to_x to_y win98_fix = assertR (in_range to_x) (assertR (in_range to_y)
     (let fx = range_remap to_x 0 range_max; fy = range_remap to_y 0 range_max
      in Inr (MouseMoveEvent to_x to_y win98_fix
           (if win98_fix then push_bit 1 fx else fx) (if win98_fix then push_bit 1 fy else fy))))"

definition mouse_relative_event :: "int \<Rightarrow> int \<Rightarrow> hid_event result" where
  "mouse_relative_event dx dy = assertR (in_delta dx) (assertR (in_delta dy)
     (Inr (MouseRelativeEvent dx dy)))"

definition mouse_wheel_event :: "int \<Rightarrow> int \<Rightarrow> hid_event result" where
  "mouse_wheel_event dx dy = assertR (in_delta dx) (assertR (in_delta dy)
     (Inr (MouseWheelEvent dx dy)))"

definition get_led_caps :: "int \<Rightarrow> bool" where
  "get_led_caps flags = bit_set flags 2"

definition get_led_scroll :: "int \<Rightarrow> bool" where
  "get_led_scroll flags = bit_set flags 4"

definition get_led_num :: "int \<Rightarrow> bool" where
  "get_led_num flags = bit_set flags 1"

section \<open>Reports\<close>

text \<open>The set of pressed modifiers is a list without repetitions; the order does not matter.\<close>

definition mods_byte :: "usb_key list \<Rightarrow> int" where
  "mods_byte ms = fold (\<lambda>m acc. acc OR uk_code m) ms 0"

definition slot_code :: "usb_key option \<Rightarrow> int" where
  "slot_code k = (case k of None \<Rightarrow> 0 | Some u \<Rightarrow> uk_code u)"

definition make_keyboard_report :: "usb_key list \<Rightarrow> usb_key option list \<Rightarrow> bytes result" where
  "make_keyboard_report ms ks = assertR (length ks = 6)
     (py_bytes ([mods_byte ms, 0] @ map slot_code ks))"

definition make_mouse_report ::
  "bool \<Rightarrow> int \<Rightarrow> int \<Rightarrow> int \<Rightarrow> int option \<Rightarrow> int \<Rightarrow> bytes result" where
  "make_mouse_report absolute buttons move_x move_y wheel_x wheel_y =
     (case wheel_x of
        Some wx \<Rightarrow> pack LE (if absolute then [FU 1, FU 2, FU 2, FS 1, FS 1]
                                       else [FU 1, FS 1, FS 1, FS 1, FS 1])
                     [buttons, move_x, move_y, wheel_y, wx]
      | None \<Rightarrow> pack LE (if absolute then [FU 1, FU 2, FU 2, FS 1] else [FU 1, FS 1, FS 1, FS 1])
                     [buttons, move_x, move_y, wheel_y])"

section \<open>Generators of reports\<close>

text \<open>
  \<open>_process_event\<close> is a generator: the state of the device process with the reports yielded so
  far.  The reports are written as they are yielded; nothing else runs in the process meanwhile.
\<close>

type_synonym 's gen = "('s \<times> bytes list, unit) sm"

definition yieldG :: "('s \<Rightarrow> bytes result) \<Rightarrow> 's gen" where
  "yieldG f = (\<lambda>(s, out). case f s of Inl e \<Rightarrow> (Inl e, s, out) | Inr r \<Rightarrow> (Inr (), s, out @ [r]))"

definition updateG :: "('s \<Rightarrow> 's) \<Rightarrow> 's gen" where
  "updateG f = modifyS (\<lambda>(s, out). (f s, out))"

definition readG :: "('s \<Rightarrow> 's gen) \<Rightarrow> 's gen" where
  "readG f = (\<lambda>(s, out). f s (s, out))"

lemma gen_simps [simp]:
  "f s = Inr r \<Longrightarrow> yieldG f (s, out) = (Inr (), s, out @ [r])"
  "updateG g (s, out) = (Inr (), g s, out)"
  "readG h (s, out) = h s (s, out)"
  "retS a (s, out) = (Inr a, s, out)"
  by (simp_all add: yieldG_def updateG_def readG_def modifyS_def retS_def)

end
