(* ===== verification/HidKeyboard.thy ===== *)
theory HidKeyboard
  imports HidEvents
begin

text \<open>
  The keyboard process of the USB gadget (\<open>kvmd/plugins/hid/otg/keyboard.py\<close>): from key events to
  the reports of a six-slot boot keyboard.  The specification is the set of keys the user holds.
\<close>

section \<open>The process\<close>

record keyboard =
  kb_mods :: "usb_key list"
  kb_keys :: "usb_key option list"

definition keyboard_init :: keyboard where
  "keyboard_init = \<lparr>kb_mods = [], kb_keys = replicate 6 None\<rparr>"

definition kb_cleanup_report :: bytes where
  "kb_cleanup_report = replicate 8 0"

definition kb_make_report :: "keyboard \<Rightarrow> bytes result" where
  "kb_make_report kb = make_keyboard_report (kb_mods kb) (kb_keys kb)"

definition clear_modifiers :: "keyboard \<Rightarrow> keyboard" where
  "clear_modifiers kb = kb\<lparr>kb_mods := []\<rparr>"

definition clear_keys :: "keyboard \<Rightarrow> keyboard" where
  "clear_keys kb = kb\<lparr>kb_keys := replicate 6 None\<rparr>"

definition set_slot :: "usb_key option \<Rightarrow> usb_key option \<Rightarrow> keyboard \<Rightarrow> keyboard" where
  "set_slot old new kb = kb\<lparr>kb_keys := (kb_keys kb)[index_of (kb_keys kb) old := new]\<rparr>"

definition kb_clear_event :: "keyboard gen" where
  "kb_clear_event = bindS (updateG clear_modifiers) (\<lambda>_. bindS (updateG clear_keys) (\<lambda>_.
     yieldG kb_make_report))"

definition kb_modifier_event :: "usb_key \<Rightarrow> bool \<Rightarrow> keyboard gen" where
  "kb_modifier_event m state = bindS
     (readG (\<lambda>kb. whenS (m \<in> set (kb_mods kb))
        (bindS (updateG (\<lambda>kb. kb\<lparr>kb_mods := removeAll m (kb_mods kb)\<rparr>)) (\<lambda>_. yieldG kb_make_report)))) (\<lambda>_.
     whenS state
        (bindS (updateG (\<lambda>kb. kb\<lparr>kb_mods := List.insert m (kb_mods kb)\<rparr>)) (\<lambda>_. yieldG kb_make_report)))"

definition kb_key_event :: "usb_key \<Rightarrow> bool \<Rightarrow> keyboard gen" where
  "kb_key_event k state = bindS
     (readG (\<lambda>kb.
        if Some k \<in> set (kb_keys kb)
        then bindS (updateG (set_slot (Some k) None)) (\<lambda>_. yieldG kb_make_report)
        else whenS (state \<and> None \<notin> set (kb_keys kb))
          (bindS (updateG clear_keys) (\<lambda>_. yieldG kb_make_report)))) (\<lambda>_.
     whenS state (readG (\<lambda>kb.
        if None \<in> set (kb_keys kb)
        then bindS (updateG (set_slot None (Some k))) (\<lambda>_. yieldG kb_make_report)
        else raiseS ValueError)))"

fun kb_process_event :: "hid_event \<Rightarrow> keyboard gen" where
  "kb_process_event ClearEvent = kb_clear_event"
| "kb_process_event ResetEvent = kb_clear_event"
| "kb_process_event (ModifierEvent m state) = kb_modifier_event m state"
| "kb_process_event (KeyEvent k state) = kb_key_event k state"
| "kb_process_event _ = raiseS RuntimeError"

record kb_leds =
  led_caps :: bool
  led_scroll :: bool
  led_num :: bool

definition kb_leds_init :: kb_leds where
  "kb_leds_init = \<lparr>led_caps = False, led_scroll = False, led_num = False\<rparr>"

definition kb_read_report :: "bytes \<Rightarrow> kb_leds result" where
  "kb_read_report report = assertR (length report = 1) (bindR (py_get report 0) (\<lambda>flags.
     Inr \<lparr>led_caps = get_led_caps flags, led_scroll = get_led_scroll flags,
          led_num = get_led_num flags\<rparr>))"

section \<open>What the computer sees\<close>

text \<open>The keys of the table, and the well-formed states: six slots, no key twice.\<close>

definition table_key :: "usb_key \<Rightarrow> bool" where
  "table_key u = (\<exists>r \<in> set KEYMAP. uk_code u = fst (snd (snd r)) \<and> uk_mod u = snd (snd (snd r)))"

definition filled :: "'a option list \<Rightarrow> 'a list" where
  "filled xs = map the (filter (\<lambda>x. x \<noteq> None) xs)"

definition kb_wf :: "keyboard \<Rightarrow> bool" where
  "kb_wf kb = (length (kb_keys kb) = 6 \<and> distinct (kb_mods kb) \<and> distinct (filled (kb_keys kb))
     \<and> list_all (\<lambda>u. table_key u \<and> uk_mod u) (kb_mods kb)
     \<and> list_all (\<lambda>u. table_key u \<and> \<not> uk_mod u) (filled (kb_keys kb)))"

definition kb_held :: "keyboard \<Rightarrow> usb_key set" where
  "kb_held kb = set (kb_mods kb) \<union> set (filled (kb_keys kb))"

text \<open>A key is down in a report when its bit or one of the six slots says so.\<close>

definition down_in :: "bytes \<Rightarrow> usb_key \<Rightarrow> bool" where
  "down_in r u = (if uk_mod u then bit_set (r ! 0) (uk_code u) else uk_code u \<in> set (drop 2 r))"

definition shows_keys :: "bytes \<Rightarrow> usb_key set \<Rightarrow> bool" where
  "shows_keys r H = (length r = 8 \<and> (\<forall>u. table_key u \<longrightarrow> (down_in r u \<longleftrightarrow> u \<in> H)))"

lemma set_filled: "set (filled xs) = {u. Some u \<in> set xs}"
  by (force simp: filled_def)

lemma table_key_facts:
  assumes "table_key u"
  shows "0 < uk_code u" "uk_code u < 256" "uk_mod u \<Longrightarrow> uk_code u \<in> {1, 2, 4, 8, 16, 32, 64, 128}"
  using assms keymap_rows by (auto simp: table_key_def key_row_ok_def)

lemma table_key_eq: "uk_code u = uk_code v \<Longrightarrow> uk_mod u = uk_mod v \<Longrightarrow> u = v" for u v :: usb_key
  by (cases u, cases v) simp

lemma keymap_table_key: "map_of (keymap ec) k = Some v \<Longrightarrow> table_key (ky_usb v)"
  by (erule keymap_Some) (force simp: table_key_def mk_key_def)

lemma mods_byte_snoc: "mods_byte (ms @ [m]) = mods_byte ms OR uk_code m"
  by (simp add: mods_byte_def)

lemma mods_byte_bound: "list_all (\<lambda>u. table_key u \<and> uk_mod u) ms \<Longrightarrow> 0 \<le> mods_byte ms \<and> mods_byte ms < 256"
proof (induction ms rule: rev_induct)
  case (snoc m ms)
  then have "0 \<le> uk_code m" "uk_code m < 2 ^ 8" "0 \<le> mods_byte ms" "mods_byte ms < 2 ^ 8"
    using table_key_facts [of m] by auto
  then show ?case using or_bound [of "mods_byte ms" 8 "uk_code m"] by (simp add: mods_byte_snoc)
qed (simp add: mods_byte_def)

lemma modifier_codes_and:
  assumes "table_key u" "uk_mod u" "table_key v" "uk_mod v"
  shows "bit_set (uk_code u) (uk_code v) \<longleftrightarrow> u = v"
proof -
  have "uk_code u AND uk_code v \<noteq> 0 \<longleftrightarrow> uk_code u = uk_code v"
    using table_key_facts(3) [OF assms(1,2)] table_key_facts(3) [OF assms(3,4)] by auto
  then show ?thesis using table_key_eq assms(2,4) by (auto simp: bit_set_def)
qed

lemma bit_set_or: "bit_set (a OR b) c \<longleftrightarrow> bit_set a c \<or> bit_set b c"
proof -
  have "(a OR b) AND c = 0 \<longleftrightarrow> a AND c = 0 \<and> b AND c = 0"
    by (auto simp: bit_eq_iff bit_and_iff bit_or_iff)
  then show ?thesis by (auto simp: bit_set_def)
qed

lemma mods_byte_bit:
  assumes "list_all (\<lambda>u. table_key u \<and> uk_mod u) ms" "table_key v" "uk_mod v"
  shows "bit_set (mods_byte ms) (uk_code v) \<longleftrightarrow> v \<in> set ms"
  using assms(1)
proof (induction ms rule: rev_induct)
  case Nil
  then show ?case by (simp add: mods_byte_def bit_set_def)
next
  case (snoc m ms)
  then show ?case using modifier_codes_and [of m v] assms by (auto simp: mods_byte_snoc bit_set_or)
qed

lemma filled_simps [simp]:
  "filled [] = []" "filled (None # xs) = filled xs" "filled (Some k # xs) = k # filled xs"
  "filled (replicate n None) = []"
  by (simp_all add: filled_def filter_replicate)

lemma index_of_simps [simp]:
  "index_of (x # xs) y = (if x = y then 0 else Suc (index_of xs y))"
  by (simp add: index_of_def)

lemma length_filled: "length (filled xs) \<le> length xs \<and> (None \<notin> set xs \<longleftrightarrow> length (filled xs) = length xs)"
proof (induction xs)
  case (Cons x xs)
  then show ?case by (cases x) auto
qed simp

lemma filled_free_slot:
  "Some k \<in> set xs \<Longrightarrow> filled (xs[index_of xs (Some k) := None]) = remove1 k (filled xs)"
proof (induction xs)
  case (Cons x xs)
  then show ?case by (cases x) auto
qed simp

lemma filled_fill_slot:
  "None \<in> set xs \<Longrightarrow> set (filled (xs[index_of xs None := Some k])) = insert k (set (filled xs))
     \<and> (distinct (filled xs) \<and> k \<notin> set (filled xs) \<longrightarrow> distinct (filled (xs[index_of xs None := Some k])))"
proof (induction xs)
  case (Cons x xs)
  then show ?case by (cases x) auto
qed simp

definition kb_report :: "keyboard \<Rightarrow> bytes" where
  "kb_report kb = [mods_byte (kb_mods kb), 0] @ map slot_code (kb_keys kb)"

lemma slot_code_bound:
  "list_all (\<lambda>u. table_key u \<and> \<not> uk_mod u) (filled ks) \<Longrightarrow> x \<in> set ks \<Longrightarrow> 0 \<le> slot_code x \<and> slot_code x < 256"
  by (cases x) (auto simp: slot_code_def list_all_iff set_filled intro: less_imp_le table_key_facts)

lemma kb_make_report_wf: "kb_wf kb \<Longrightarrow> kb_make_report kb = Inr (kb_report kb)"
  using mods_byte_bound [of "kb_mods kb"] slot_code_bound [of "kb_keys kb"]
  by (auto simp: kb_make_report_def make_keyboard_report_def kb_wf_def py_bytes_def kb_report_def
      bytes_ok_def list_all_iff)

lemma kb_report_shows:
  assumes "kb_wf kb"
  shows "shows_keys (kb_report kb) (kb_held kb)"
  unfolding shows_keys_def
proof (intro conjI allI impI)
  show "length (kb_report kb) = 8" using assms by (simp add: kb_report_def kb_wf_def)
  fix u assume u: "table_key u"
  show "down_in (kb_report kb) u \<longleftrightarrow> u \<in> kb_held kb"
  proof (cases "uk_mod u")
    case True
    then have "u \<notin> set (filled (kb_keys kb))" using assms by (auto simp: kb_wf_def list_all_iff)
    then show ?thesis
      using mods_byte_bit [of "kb_mods kb" u] assms True u
      by (simp add: down_in_def kb_report_def kb_held_def kb_wf_def)
  next
    case False
    then have "u \<notin> set (kb_mods kb)" using assms by (auto simp: kb_wf_def list_all_iff)
    moreover have "uk_code u \<in> slot_code ` set (kb_keys kb) \<longleftrightarrow> Some u \<in> set (kb_keys kb)"
    proof
      assume "uk_code u \<in> slot_code ` set (kb_keys kb)"
      then obtain v where v: "Some v \<in> set (kb_keys kb)" "uk_code u = uk_code v"
        using table_key_facts(1) [OF u] by (auto simp: slot_code_def split: option.splits)
      then have "\<not> uk_mod v" using assms by (auto simp: kb_wf_def list_all_iff set_filled)
      with v False have "u = v" using table_key_eq [of u v] by metis
      with v show "Some u \<in> set (kb_keys kb)" by simp
    qed (force simp: slot_code_def)
    ultimately show ?thesis using False
      by (simp add: down_in_def kb_report_def kb_held_def set_filled)
  qed
qed

section \<open>The specification\<close>

fun held_step :: "hid_event \<Rightarrow> usb_key set \<Rightarrow> usb_key set" where
  "held_step ClearEvent H = {}"
| "held_step ResetEvent H = {}"
| "held_step (ModifierEvent m state) H = (if state then insert m H else H - {m})"
| "held_step (KeyEvent k state) H =
     (if \<not> state then H - {k}
      else if k \<in> H \<or> card {u \<in> H. \<not> uk_mod u} < 6 then insert k H
      else insert k {u \<in> H. uk_mod u})"
| "held_step _ H = H"

fun kb_event_ok :: "hid_event \<Rightarrow> bool" where
  "kb_event_ok ClearEvent = True"
| "kb_event_ok ResetEvent = True"
| "kb_event_ok (ModifierEvent m _) = (table_key m \<and> uk_mod m)"
| "kb_event_ok (KeyEvent k _) = (table_key k \<and> \<not> uk_mod k)"
| "kb_event_ok _ = False"

lemma make_keyboard_event_ok: "make_keyboard_event ec key state = Inr e \<Longrightarrow> kb_event_ok e"
  by (auto simp: make_keyboard_event_def bindR_Inr_iff assertR_Inr_iff dict_at_def
      split: if_splits option.splits intro: keymap_table_key)

text \<open>A step of the process: it succeeds and its reports tell the computer the new state.\<close>

definition tells :: "keyboard gen \<Rightarrow> keyboard \<Rightarrow> usb_key set \<Rightarrow> bool" where
  "tells g kb H = (\<exists>kb' rs. (\<forall>out. g (kb, out) = (Inr (), kb', out @ rs)) \<and> kb_wf kb' \<and> kb_held kb' = H
     \<and> (if rs = [] then H = kb_held kb else shows_keys (last rs) H)
     \<and> (\<forall>r \<in> set rs. \<exists>H'. shows_keys r H' \<and> H' \<subseteq> kb_held kb \<union> H))"

lemma tells_report:
  assumes "kb_wf (f kb)" "kb_held (f kb) = H"
  shows "tells (bindS (updateG f) (\<lambda>_. yieldG kb_make_report)) kb H"
proof -
  have "bindS (updateG f) (\<lambda>_. yieldG kb_make_report) (kb, out) = (Inr (), f kb, out @ [kb_report (f kb)])"
    for out by (simp add: bindS_def kb_make_report_wf [OF assms(1)])
  moreover have "shows_keys (kb_report (f kb)) H" using kb_report_shows [OF assms(1)] assms(2) by simp
  ultimately show ?thesis unfolding tells_def
    by (intro exI [of _ "f kb"] exI [of _ "[kb_report (f kb)]"]) (use assms in auto)
qed

lemma tells_skip: "kb_wf kb \<Longrightarrow> kb_held kb = H \<Longrightarrow> tells (retS ()) kb H"
  unfolding tells_def by auto

lemma tells_read: "tells (g kb) kb H \<Longrightarrow> tells (readG g) kb H"
  by (simp add: tells_def)

lemma tells_bind:
  assumes "tells g kb M" and "\<And>kb'. kb_wf kb' \<Longrightarrow> kb_held kb' = M \<Longrightarrow> tells h kb' N"
    and "M \<subseteq> kb_held kb \<union> N"
  shows "tells (bindS g (\<lambda>_. h)) kb N"
proof -
  obtain kb1 rs1 where 1: "\<forall>out. g (kb, out) = (Inr (), kb1, out @ rs1)" "kb_wf kb1" "kb_held kb1 = M"
      "if rs1 = [] then M = kb_held kb else shows_keys (last rs1) M"
      "\<forall>r \<in> set rs1. \<exists>H'. shows_keys r H' \<and> H' \<subseteq> kb_held kb \<union> M"
    using assms(1) unfolding tells_def by blast
  obtain kb2 rs2 where 2: "\<forall>out. h (kb1, out) = (Inr (), kb2, out @ rs2)" "kb_wf kb2"
      "kb_held kb2 = N" "if rs2 = [] then N = kb_held kb1 else shows_keys (last rs2) N"
      "\<forall>r \<in> set rs2. \<exists>H'. shows_keys r H' \<and> H' \<subseteq> kb_held kb1 \<union> N"
    using assms(2) [OF 1(2,3)] unfolding tells_def by blast
  have run: "\<forall>out. bindS g (\<lambda>_. h) (kb, out) = (Inr (), kb2, out @ (rs1 @ rs2))"
    using 1(1) 2(1) by (simp add: bindS_def)
  have lst: "if rs1 @ rs2 = [] then N = kb_held kb else shows_keys (last (rs1 @ rs2)) N"
    using 1(3,4) 2(4) by (auto split: if_splits)
  have mid: "\<forall>r \<in> set (rs1 @ rs2). \<exists>H'. shows_keys r H' \<and> H' \<subseteq> kb_held kb \<union> N"
  proof
    fix r assume "r \<in> set (rs1 @ rs2)"
    then consider "r \<in> set rs1" | "r \<in> set rs2" by auto
    then obtain H' where H': "shows_keys r H'" "H' \<subseteq> kb_held kb \<union> M \<or> H' \<subseteq> M \<union> N"
      using 1(5) 2(5) unfolding 1(3) by (cases; blast)
    then have "H' \<subseteq> kb_held kb \<union> N" using assms(3) by blast
    with H'(1) show "\<exists>H'. shows_keys r H' \<and> H' \<subseteq> kb_held kb \<union> N" by blast
  qed
  show ?thesis unfolding tells_def
    by (intro exI conjI) (rule run, rule 2(2), rule 2(3), rule lst, rule mid)
qed

section \<open>The process follows the specification\<close>

lemma clear_all:
  assumes "kb_wf kb"
  shows "kb_wf (clear_keys (clear_modifiers kb))" "kb_held (clear_keys (clear_modifiers kb)) = {}"
    "kb_wf (clear_keys kb)" "kb_held (clear_keys kb) = {u \<in> kb_held kb. uk_mod u}"
  using assms by (auto simp: kb_wf_def kb_held_def clear_keys_def clear_modifiers_def list_all_iff)

lemma held_non_mods: "kb_wf kb \<Longrightarrow> card {u \<in> kb_held kb. \<not> uk_mod u} = length (filled (kb_keys kb))"
proof -
  assume wf: "kb_wf kb"
  then have "{u \<in> kb_held kb. \<not> uk_mod u} = set (filled (kb_keys kb))"
    by (auto simp: kb_wf_def kb_held_def list_all_iff)
  with wf show ?thesis by (simp add: kb_wf_def distinct_card)
qed

lemma free_slot_iff: "kb_wf kb \<Longrightarrow> None \<in> set (kb_keys kb) \<longleftrightarrow> card {u \<in> kb_held kb. \<not> uk_mod u} < 6"
  using length_filled [of "kb_keys kb"] held_non_mods [of kb] by (auto simp: kb_wf_def)

lemma key_down_iff: "kb_wf kb \<Longrightarrow> \<not> uk_mod k \<Longrightarrow> Some k \<in> set (kb_keys kb) \<longleftrightarrow> k \<in> kb_held kb"
  by (auto simp: kb_wf_def kb_held_def list_all_iff set_filled)

lemma mod_down_iff: "kb_wf kb \<Longrightarrow> uk_mod m \<Longrightarrow> m \<in> set (kb_mods kb) \<longleftrightarrow> m \<in> kb_held kb"
  by (auto simp: kb_wf_def kb_held_def list_all_iff)

lemma release_key:
  assumes "kb_wf kb" "\<not> uk_mod k" "Some k \<in> set (kb_keys kb)"
  shows "kb_wf (set_slot (Some k) None kb) \<and> kb_held (set_slot (Some k) None kb) = kb_held kb - {k}"
  using assms filled_free_slot [OF assms(3)]
  by (auto simp: kb_wf_def kb_held_def set_slot_def list_all_iff)

lemma press_key:
  assumes "kb_wf kb" "table_key k" "\<not> uk_mod k" "None \<in> set (kb_keys kb)" "k \<notin> kb_held kb"
  shows "kb_wf (set_slot None (Some k) kb) \<and> kb_held (set_slot None (Some k) kb) = insert k (kb_held kb)"
  using assms filled_fill_slot [OF assms(4), of k]
  by (auto simp: kb_wf_def kb_held_def set_slot_def list_all_iff)

lemma kb_clear_tells: "kb_wf kb \<Longrightarrow> tells kb_clear_event kb {}"
proof -
  assume wf: "kb_wf kb"
  have "kb_clear_event = bindS (updateG (\<lambda>kb. clear_keys (clear_modifiers kb))) (\<lambda>_. yieldG kb_make_report)"
    by (auto simp: kb_clear_event_def bindS_def fun_eq_iff)
  then show ?thesis
    using tells_report [of "\<lambda>kb. clear_keys (clear_modifiers kb)", OF clear_all(1,2) [OF wf]] by simp
qed

lemma kb_modifier_tells:
  assumes wf: "kb_wf kb" and m: "table_key m" "uk_mod m"
  shows "tells (kb_modifier_event m state) kb (held_step (ModifierEvent m state) (kb_held kb))"
  unfolding kb_modifier_event_def
proof (rule tells_bind [where M = "kb_held kb - {m}"])
  show "tells (readG (\<lambda>kb. whenS (m \<in> set (kb_mods kb))
     (bindS (updateG (\<lambda>kb. kb\<lparr>kb_mods := removeAll m (kb_mods kb)\<rparr>)) (\<lambda>_. yieldG kb_make_report)))) kb
     (kb_held kb - {m})"
  proof (rule tells_read, cases "m \<in> set (kb_mods kb)")
    case True
    have "kb_wf (kb\<lparr>kb_mods := removeAll m (kb_mods kb)\<rparr>)"
        "kb_held (kb\<lparr>kb_mods := removeAll m (kb_mods kb)\<rparr>) = kb_held kb - {m}"
      using wf m by (auto simp: kb_wf_def kb_held_def list_all_iff distinct_removeAll)
    then show "tells (whenS (m \<in> set (kb_mods kb)) (bindS (updateG (\<lambda>kb. kb\<lparr>kb_mods := removeAll m (kb_mods kb)\<rparr>))
        (\<lambda>_. yieldG kb_make_report))) kb (kb_held kb - {m})"
      using True by (simp add: whenS_def tells_report)
  next
    case False
    then show "tells (whenS (m \<in> set (kb_mods kb)) (bindS (updateG (\<lambda>kb. kb\<lparr>kb_mods := removeAll m (kb_mods kb)\<rparr>))
        (\<lambda>_. yieldG kb_make_report))) kb (kb_held kb - {m})"
      using mod_down_iff [OF wf m(2)] wf by (simp add: whenS_def tells_skip)
  qed
next
  fix kb' assume kb': "kb_wf kb'" "kb_held kb' = kb_held kb - {m}"
  then have "m \<notin> set (kb_mods kb')" using mod_down_iff [of kb' m] m by auto
  then have "kb_wf (kb'\<lparr>kb_mods := List.insert m (kb_mods kb')\<rparr>)"
      "kb_held (kb'\<lparr>kb_mods := List.insert m (kb_mods kb')\<rparr>) = insert m (kb_held kb)"
    using kb' m by (auto simp: kb_wf_def kb_held_def)
  then show "tells (whenS state (bindS (updateG (\<lambda>kb. kb\<lparr>kb_mods := List.insert m (kb_mods kb)\<rparr>))
      (\<lambda>_. yieldG kb_make_report))) kb' (held_step (ModifierEvent m state) (kb_held kb))"
    using kb' by (cases state) (simp_all add: whenS_def tells_report tells_skip)
qed auto

text \<open>
  A key event first makes room: it releases the key if it was down, or everything but the
  modifiers when all six slots are taken.
\<close>

definition room_for :: "usb_key \<Rightarrow> bool \<Rightarrow> usb_key set \<Rightarrow> usb_key set" where
  "room_for k state H = (if k \<in> H then H - {k}
     else if state \<and> \<not> card {u \<in> H. \<not> uk_mod u} < 6 then {u \<in> H. uk_mod u} else H)"

lemma room_for_facts:
  assumes "kb_wf kb" "\<not> uk_mod k"
  shows "room_for k state (kb_held kb) \<subseteq> kb_held kb" "k \<notin> room_for k state (kb_held kb)"
    "state \<Longrightarrow> card {u \<in> room_for k state (kb_held kb). \<not> uk_mod u} < 6"
    "held_step (KeyEvent k state) (kb_held kb) =
       (if state then insert k (room_for k state (kb_held kb)) else room_for k state (kb_held kb))"
proof -
  show "room_for k state (kb_held kb) \<subseteq> kb_held kb" "k \<notin> room_for k state (kb_held kb)"
    using assms(2) by (auto simp: room_for_def)
  show "held_step (KeyEvent k state) (kb_held kb) =
       (if state then insert k (room_for k state (kb_held kb)) else room_for k state (kb_held kb))"
    by (auto simp: room_for_def)
  assume st: "state"
  show "card {u \<in> room_for k state (kb_held kb). \<not> uk_mod u} < 6"
  proof (cases "k \<in> kb_held kb")
    case True
    let ?N = "{u \<in> kb_held kb. \<not> uk_mod u}"
    have "finite ?N" by (simp add: kb_held_def)
    moreover have "{u \<in> room_for k state (kb_held kb). \<not> uk_mod u} = ?N - {k}"
      using True by (auto simp: room_for_def)
    moreover have "k \<in> ?N" using True assms(2) by simp
    moreover have "card ?N \<le> 6"
      using held_non_mods [OF assms(1)] length_filled [of "kb_keys kb"] assms(1) by (simp add: kb_wf_def)
    ultimately show ?thesis using card_Diff1_less [of ?N k] by simp
  qed (use st in \<open>auto simp: room_for_def\<close>)
qed

lemma kb_key_tells:
  assumes wf: "kb_wf kb" and k: "table_key k" "\<not> uk_mod k"
  shows "tells (kb_key_event k state) kb (held_step (KeyEvent k state) (kb_held kb))"
  unfolding kb_key_event_def
proof (rule tells_bind [where M = "room_for k state (kb_held kb)"])
  note down = key_down_iff [OF wf k(2)]
  show "tells (readG (\<lambda>kb. if Some k \<in> set (kb_keys kb)
      then bindS (updateG (set_slot (Some k) None)) (\<lambda>_. yieldG kb_make_report)
      else whenS (state \<and> None \<notin> set (kb_keys kb))
        (bindS (updateG clear_keys) (\<lambda>_. yieldG kb_make_report)))) kb (room_for k state (kb_held kb))"
  proof (rule tells_read, cases "Some k \<in> set (kb_keys kb)")
    case True
    then show "tells (if Some k \<in> set (kb_keys kb)
        then bindS (updateG (set_slot (Some k) None)) (\<lambda>_. yieldG kb_make_report)
        else whenS (state \<and> None \<notin> set (kb_keys kb))
          (bindS (updateG clear_keys) (\<lambda>_. yieldG kb_make_report))) kb (room_for k state (kb_held kb))"
      using release_key [OF wf k(2) True] down by (simp add: room_for_def tells_report)
  next
    case False
    then show "tells (if Some k \<in> set (kb_keys kb)
        then bindS (updateG (set_slot (Some k) None)) (\<lambda>_. yieldG kb_make_report)
        else whenS (state \<and> None \<notin> set (kb_keys kb))
          (bindS (updateG clear_keys) (\<lambda>_. yieldG kb_make_report))) kb (room_for k state (kb_held kb))"
      using down free_slot_iff [OF wf] clear_all(3,4) [OF wf] wf
      by (auto simp: room_for_def whenS_def tells_report tells_skip)
  qed
next
  fix kb' assume kb': "kb_wf kb'" "kb_held kb' = room_for k state (kb_held kb)"
  note room = room_for_facts [OF wf k(2), of state]
  have free: "state \<Longrightarrow> None \<in> set (kb_keys kb')" using free_slot_iff [OF kb'(1)] kb'(2) room(3) by simp
  show "tells (whenS state (readG (\<lambda>kb. if None \<in> set (kb_keys kb)
        then bindS (updateG (set_slot None (Some k))) (\<lambda>_. yieldG kb_make_report)
        else raiseS ValueError))) kb' (held_step (KeyEvent k state) (kb_held kb))"
  proof (cases state)
    case True
    with free press_key [OF kb'(1) k] room(2,4) kb'(2) show ?thesis
      by (auto simp: whenS_def intro!: tells_read tells_report)
  qed (use kb' room(4) in \<open>simp add: whenS_def tells_skip\<close>)
next
  show "room_for k state (kb_held kb) \<subseteq> kb_held kb \<union> held_step (KeyEvent k state) (kb_held kb)"
    using room_for_facts(1) [OF wf k(2)] by blast
qed

lemma kb_event_tells:
  "kb_wf kb \<Longrightarrow> kb_event_ok e \<Longrightarrow> tells (kb_process_event e) kb (held_step e (kb_held kb))"
  by (cases e) (simp_all add: kb_clear_tells kb_modifier_tells kb_key_tells del: held_step.simps(3,4))

definition held_after :: "hid_event list \<Rightarrow> usb_key set \<Rightarrow> usb_key set" where
  "held_after es H = fold held_step es H"

text \<open>The keys that were pressed at all.\<close>

definition pressed_by :: "hid_event list \<Rightarrow> usb_key set" where
  "pressed_by es = {u. KeyEvent u True \<in> set es \<or> ModifierEvent u True \<in> set es}"

lemma held_step_pressed: "kb_event_ok e \<Longrightarrow> held_step e H \<subseteq> H \<union> pressed_by [e]"
  by (cases e) (auto simp: pressed_by_def)

lemma kb_run_tells:
  assumes "kb_wf kb" "list_all kb_event_ok es"
  shows "\<exists>kb' rs. (\<forall>out. forS es kb_process_event (kb, out) = (Inr (), kb', out @ rs)) \<and> kb_wf kb'
    \<and> kb_held kb' = held_after es (kb_held kb)
    \<and> (if rs = [] then kb_held kb' = kb_held kb else shows_keys (last rs) (kb_held kb'))
    \<and> (\<forall>r \<in> set rs. \<exists>H'. shows_keys r H' \<and> H' \<subseteq> kb_held kb \<union> pressed_by es)"
  using assms
proof (induction es arbitrary: kb)
  case Nil
  show ?case by (rule exI [of _ kb], rule exI [of _ "[]"]) (use Nil.prems in \<open>simp add: held_after_def\<close>)
next
  case (Cons e es)
  let ?H = "held_step e (kb_held kb)"
  have "tells (kb_process_event e) kb ?H" using kb_event_tells Cons.prems by simp
  then obtain kb1 rs1 where 1: "\<forall>out. kb_process_event e (kb, out) = (Inr (), kb1, out @ rs1)" "kb_wf kb1"
      "kb_held kb1 = ?H" "if rs1 = [] then ?H = kb_held kb else shows_keys (last rs1) ?H"
      "\<forall>r \<in> set rs1. \<exists>H'. shows_keys r H' \<and> H' \<subseteq> kb_held kb \<union> ?H"
    unfolding tells_def by blast
  have "list_all kb_event_ok es" using Cons.prems by simp
  from Cons.IH [OF 1(2) this] obtain kb2 rs2 where
      2: "\<forall>out. forS es kb_process_event (kb1, out) = (Inr (), kb2, out @ rs2)" "kb_wf kb2"
      "kb_held kb2 = held_after es (kb_held kb1)"
      "if rs2 = [] then kb_held kb2 = kb_held kb1 else shows_keys (last rs2) (kb_held kb2)"
      "\<forall>r \<in> set rs2. \<exists>H'. shows_keys r H' \<and> H' \<subseteq> kb_held kb1 \<union> pressed_by es"
    by blast
  have sub: "?H \<subseteq> kb_held kb \<union> pressed_by (e # es)" "pressed_by es \<subseteq> pressed_by (e # es)"
    using held_step_pressed [of e] Cons.prems(2) by (auto simp: pressed_by_def)
  have "\<forall>out. forS (e # es) kb_process_event (kb, out) = (Inr (), kb2, out @ (rs1 @ rs2))"
    using 1(1) 2(1) by (simp add: bindS_def)
  moreover have "kb_held kb2 = held_after (e # es) (kb_held kb)"
    using 2(3) 1(3) by (simp add: held_after_def)
  moreover have "if rs1 @ rs2 = [] then kb_held kb2 = kb_held kb else shows_keys (last (rs1 @ rs2)) (kb_held kb2)"
    using 1(3,4) 2(4) by (auto split: if_splits)
  moreover have "\<forall>r \<in> set (rs1 @ rs2). \<exists>H'. shows_keys r H' \<and> H' \<subseteq> kb_held kb \<union> pressed_by (e # es)"
  proof
    fix r assume "r \<in> set (rs1 @ rs2)"
    then consider "r \<in> set rs1" | "r \<in> set rs2" by auto
    then obtain H' where "shows_keys r H'" "H' \<subseteq> kb_held kb \<union> ?H \<or> H' \<subseteq> ?H \<union> pressed_by es"
      using 1(5) 2(5) unfolding 1(3) by (cases; blast)
    with sub show "\<exists>H'. shows_keys r H' \<and> H' \<subseteq> kb_held kb \<union> pressed_by (e # es)" by blast
  qed
  ultimately show ?case using 2(2) by blast
qed

lemma keyboard_init_facts [simp]: "kb_wf keyboard_init" "kb_held keyboard_init = {}"
    "shows_keys (replicate 8 0) {}"
  by (auto simp: keyboard_init_def kb_wf_def kb_held_def shows_keys_def down_in_def bit_set_def
      dest: table_key_facts(1))

text \<open>The events a client can cause: clearing, resetting and the keys of the table.\<close>

definition client_event :: "ecodes \<Rightarrow> hid_event \<Rightarrow> bool" where
  "client_event ec e = (e \<in> {ClearEvent, ResetEvent} \<or> (\<exists>key state. make_keyboard_event ec key state = Inr e))"

lemma client_event_ok: "\<forall>e \<in> set es. client_event ec e \<Longrightarrow> list_all kb_event_ok es"
  using make_keyboard_event_ok by (force simp: list_all_iff client_event_def)

text \<open>C11. The computer always learns which keys are held: whatever key presses, releases and
  clearings the clients cause, the keyboard process never raises, and the last report it wrote
  (the released keyboard, if none) shows exactly the keys held according to the specification:
  a release removes the key, a press adds it, and a seventh key releases the other six.\<close>

theorem keyboard_shows_held_keys:
  assumes "\<forall>e \<in> set es. client_event ec e"
  shows "\<exists>kb rs. forS es kb_process_event (keyboard_init, []) = (Inr (), kb, rs)
    \<and> shows_keys (last (kb_cleanup_report # rs)) (held_after es {})"
proof -
  from kb_run_tells [OF keyboard_init_facts(1) client_event_ok [OF assms]]
  obtain kb rs where "forS es kb_process_event (keyboard_init, []) = (Inr (), kb, rs)"
    "kb_held kb = held_after es {}"
    "if rs = [] then kb_held kb = kb_held keyboard_init else shows_keys (last rs) (kb_held kb)" by auto
  then show ?thesis using keyboard_init_facts(3) by (auto simp: kb_cleanup_report_def split: if_splits)
qed

definition sample_events :: "hid_event list" where
  "sample_events = [ModifierEvent \<lparr>uk_code = 2, uk_mod = True\<rparr> True, KeyEvent \<lparr>uk_code = 4, uk_mod = False\<rparr> True,
     KeyEvent \<lparr>uk_code = 4, uk_mod = False\<rparr> False]"

lemma keymap_sample:
  "map_of (keymap count_names) (count_names ''KEY_A'') = Some (mk_key 1 4 False)"
  "map_of (keymap count_names) (count_names ''KEY_LEFTSHIFT'') = Some (mk_key 78 2 True)"
  by (rule keymap_row [OF count_names_ok], simp add: KEYMAP_def)+

lemma sample_events_client: "\<forall>e \<in> set sample_events. client_event count_names e"
proof -
  have "make_keyboard_event count_names (count_names ''KEY_A'') s = Inr (KeyEvent \<lparr>uk_code = 4, uk_mod = False\<rparr> s)"
    "make_keyboard_event count_names (count_names ''KEY_LEFTSHIFT'') s =
       Inr (ModifierEvent \<lparr>uk_code = 2, uk_mod = True\<rparr> s)" for s
    using keymap_sample by (simp_all add: make_keyboard_event_def dict_at_def mk_key_def)
  then show ?thesis by (auto simp: sample_events_def client_event_def)
qed

theorem keyboard_shows_held_keys_witness:
  "\<exists>kb rs. forS sample_events kb_process_event (keyboard_init, []) = (Inr (), kb, rs)
    \<and> shows_keys (last (kb_cleanup_report # rs)) (held_after sample_events {})"
  by (rule keyboard_shows_held_keys [OF sample_events_client])

text \<open>No phantom keys: every report written on the way is eight bytes long and shows only keys
  that some client pressed.\<close>

theorem keyboard_no_phantom_keys:
  assumes "\<forall>e \<in> set es. client_event ec e"
    and "forS es kb_process_event (keyboard_init, []) = (Inr (), kb, rs)" "r \<in> set rs"
  shows "length r = 8 \<and> (\<forall>u. table_key u \<and> down_in r u \<longrightarrow> u \<in> pressed_by es)"
proof -
  from kb_run_tells [OF keyboard_init_facts(1) client_event_ok [OF assms(1)]]
  have "\<exists>H. shows_keys r H \<and> H \<subseteq> pressed_by es" using assms(2,3) by auto
  then obtain H where "shows_keys r H" "H \<subseteq> pressed_by es" by blast
  then show ?thesis by (auto simp: shows_keys_def)
qed

theorem keyboard_no_phantom_keys_witness:
  "{u. table_key u \<and> down_in [2, 0, 4, 0, 0, 0, 0, 0] u} \<subseteq> pressed_by sample_events"
proof -
  have run: "forS sample_events kb_process_event (keyboard_init, []) =
     (Inr (), \<lparr>kb_mods = [\<lparr>uk_code = 2, uk_mod = True\<rparr>], kb_keys = replicate 6 None\<rparr>,
      [[2, 0, 0, 0, 0, 0, 0, 0], [2, 0, 4, 0, 0, 0, 0, 0], [2, 0, 0, 0, 0, 0, 0, 0]])"
    by code_simp
  have "[2, 0, 4, 0, 0, 0, 0, 0] \<in> set [[2, 0, 0, 0, 0, 0, 0, 0], [2, 0, 4, 0, 0, 0, 0, 0], [2, 0, 0, 0, 0, 0, 0, 0 :: int]]"
    by simp
  from conjunct2 [OF keyboard_no_phantom_keys [OF sample_events_client run this]] show ?thesis by blast
qed

end
