(* ===== verification/HidMouse.thy ===== *)
theory HidMouse
  imports HidEvents
begin

text \<open>
  The mouse process of the USB gadget (\<open>kvmd/plugins/hid/otg/mouse.py\<close>), absolute or relative,
  with or without a horizontal wheel.  The object lives twice: the daemon keeps the copy whose
  methods queue events, the forked process keeps the copy whose state the events change.
\<close>

section \<open>The process\<close>

record mouse =
  ms_absolute :: bool
  ms_hwheel :: bool
  ms_buttons :: int
  ms_x :: int
  ms_y :: int
  ms_win98 :: bool

definition mouse_init :: "bool \<Rightarrow> bool \<Rightarrow> mouse" where
  "mouse_init absolute horizontal_wheel =
     \<lparr>ms_absolute = absolute, ms_hwheel = horizontal_wheel, ms_buttons = 0, ms_x = 0, ms_y = 0,
      ms_win98 = False\<rparr>"

definition set_win98_fix :: "bool \<Rightarrow> mouse \<Rightarrow> mouse" where
  "set_win98_fix enabled m = m\<lparr>ms_win98 := enabled\<rparr>"

definition ms_cleanup_report :: "mouse \<Rightarrow> bytes result" where
  "ms_cleanup_report m = make_mouse_report (ms_absolute m) 0
     (if ms_absolute m then ms_x m else 0) (if ms_absolute m then ms_y m else 0)
     (if ms_hwheel m then Some 0 else None) 0"

text \<open>The events the methods of the daemon queue.\<close>

definition send_button_event :: "ecodes \<Rightarrow> int \<Rightarrow> bool \<Rightarrow> mouse \<Rightarrow> hid_event list result" where
  "send_button_event ec button state m = bindR (mouse_button_event ec button state) (\<lambda>e. Inr [e])"

definition send_move_event :: "int \<Rightarrow> int \<Rightarrow> mouse \<Rightarrow> hid_event list result" where
  "send_move_event to_x to_y m = (if ms_absolute m
     then bindR (mouse_move_event to_x to_y (ms_win98 m)) (\<lambda>e. Inr [e]) else Inr [])"

definition send_relative_event :: "int \<Rightarrow> int \<Rightarrow> mouse \<Rightarrow> hid_event list result" where
  "send_relative_event dx dy m = (if \<not> ms_absolute m
     then bindR (mouse_relative_event dx dy) (\<lambda>e. Inr [e]) else Inr [])"

definition send_wheel_event :: "int \<Rightarrow> int \<Rightarrow> mouse \<Rightarrow> hid_event list result" where
  "send_wheel_event dx dy m = bindR (mouse_wheel_event dx dy) (\<lambda>e. Inr [e])"

text \<open>A report, with the deltas of a relative event and of a wheel event when there is one.\<close>

definition ms_make_report :: "(int \<times> int) option \<Rightarrow> (int \<times> int) option \<Rightarrow> mouse \<Rightarrow> bytes result" where
  "ms_make_report relative_event wheel_event m = assertR (ms_absolute m \<longrightarrow> relative_event = None)
     (let (move_x, move_y) = (if ms_absolute m then (ms_x m, ms_y m)
            else case relative_event of Some d \<Rightarrow> d | None \<Rightarrow> (0, 0));
          (wheel_x, wheel_y) = (case wheel_event of Some d \<Rightarrow> d | None \<Rightarrow> (0, 0))
      in make_mouse_report (ms_absolute m) (ms_buttons m) move_x move_y
           (if ms_hwheel m then Some wheel_x else None) wheel_y)"

definition ms_clear_event :: "mouse gen" where
  "ms_clear_event = bindS (updateG (\<lambda>m. m\<lparr>ms_buttons := 0\<rparr>)) (\<lambda>_. yieldG (ms_make_report None None))"

definition ms_button_event :: "int \<Rightarrow> bool \<Rightarrow> mouse gen" where
  "ms_button_event code state = bindS
     (readG (\<lambda>m. whenS (bit_set code (ms_buttons m))
        (bindS (updateG (\<lambda>m. m\<lparr>ms_buttons := ms_buttons m AND NOT code\<rparr>)) (\<lambda>_.
           yieldG (ms_make_report None None))))) (\<lambda>_.
     whenS state
        (bindS (updateG (\<lambda>m. m\<lparr>ms_buttons := ms_buttons m OR code\<rparr>)) (\<lambda>_.
           yieldG (ms_make_report None None))))"

definition ms_move_event :: "int \<Rightarrow> int \<Rightarrow> mouse gen" where
  "ms_move_event fx fy = bindS (updateG (\<lambda>m. m\<lparr>ms_x := fx, ms_y := fy\<rparr>)) (\<lambda>_.
     yieldG (ms_make_report None None))"

definition ms_relative_event :: "int \<Rightarrow> int \<Rightarrow> mouse gen" where
  "ms_relative_event dx dy = yieldG (ms_make_report (Some (dx, dy)) None)"

definition ms_wheel_event :: "int \<Rightarrow> int \<Rightarrow> mouse gen" where
  "ms_wheel_event dx dy = yieldG (ms_make_report None (Some (dx, dy)))"

fun ms_process_event :: "hid_event \<Rightarrow> mouse gen" where
  "ms_process_event ClearEvent = ms_clear_event"
| "ms_process_event ResetEvent = ms_clear_event"
| "ms_process_event (MouseButtonEvent _ state code) = ms_button_event code state"
| "ms_process_event (MouseMoveEvent _ _ _ fx fy) = ms_move_event fx fy"
| "ms_process_event (MouseRelativeEvent dx dy) = ms_relative_event dx dy"
| "ms_process_event (MouseWheelEvent dx dy) = ms_wheel_event dx dy"
| "ms_process_event _ = raiseS RuntimeError"

section \<open>What the computer sees\<close>

definition ms_format :: "mouse \<Rightarrow> field list" where
  "ms_format m = FU 1 # (if ms_absolute m then [FU 2, FU 2] else [FS 1, FS 1])
     @ (if ms_hwheel m then [FS 1, FS 1] else [FS 1])"

text \<open>A report read back: buttons, x, y, vertical and, if there is one, horizontal wheel.\<close>

definition ms_decode :: "mouse \<Rightarrow> bytes \<Rightarrow> int list" where
  "ms_decode m r = unpack_fields LE (ms_format m) r"

fun ms_event_ok :: "bool \<Rightarrow> hid_event \<Rightarrow> bool" where
  "ms_event_ok absolute ClearEvent = True"
| "ms_event_ok absolute ResetEvent = True"
| "ms_event_ok absolute (MouseButtonEvent _ _ code) = (code \<in> {1, 2, 4, 8, 16})"
| "ms_event_ok absolute (MouseMoveEvent _ _ _ fx fy) = (absolute \<and> 0 \<le> fx \<and> fx < 65536 \<and> 0 \<le> fy \<and> fy < 65536)"
| "ms_event_ok absolute (MouseRelativeEvent dx dy) = (\<not> absolute \<and> in_delta dx \<and> in_delta dy)"
| "ms_event_ok absolute (MouseWheelEvent dx dy) = (in_delta dx \<and> in_delta dy)"
| "ms_event_ok absolute _ = False"

definition ms_wf :: "mouse \<Rightarrow> bool" where
  "ms_wf m = (0 \<le> ms_buttons m \<and> ms_buttons m < 256 \<and> 0 \<le> ms_x m \<and> ms_x m < 65536
     \<and> 0 \<le> ms_y m \<and> ms_y m < 65536)"

lemma fixed_bounds:
  assumes "in_range v"
  shows "0 \<le> range_remap v 0 range_max" "range_remap v 0 range_max \<le> 32767"
  using remap_in_range [of 0 32767 v range_min range_max] by (simp_all add: range_remap_def mouse_ranges)

text \<open>Everything the methods queue is an event the process can handle.\<close>

lemma sent_events_ok:
  "send_button_event ec button state m = Inr es \<Longrightarrow> list_all (ms_event_ok (ms_absolute m)) es"
  "send_move_event x y m = Inr es \<Longrightarrow> list_all (ms_event_ok (ms_absolute m)) es"
  "send_relative_event x y m = Inr es \<Longrightarrow> list_all (ms_event_ok (ms_absolute m)) es"
  "send_wheel_event x y m = Inr es \<Longrightarrow> list_all (ms_event_ok (ms_absolute m)) es"
proof -
  show "send_button_event ec button state m = Inr es \<Longrightarrow> list_all (ms_event_ok (ms_absolute m)) es"
    by (auto simp: send_button_event_def mouse_button_event_def bindR_Inr_iff dict_at_def map_of_dict_of
        split: option.splits if_splits)
  show "send_move_event x y m = Inr es \<Longrightarrow> list_all (ms_event_ok (ms_absolute m)) es"
    using fixed_bounds [of x] fixed_bounds [of y]
    by (auto simp: send_move_event_def mouse_move_event_def bindR_Inr_iff assertR_Inr_iff Let_def
        push_bit_eq_mult split: if_splits)
qed (auto simp: send_relative_event_def mouse_relative_event_def send_wheel_event_def
      mouse_wheel_event_def bindR_Inr_iff assertR_Inr_iff split: if_splits)

section \<open>Reports are faithful\<close>

text \<open>
  The report for a state and deltas, as the computer decodes it.  A wheel event carries the
  vertical delta first; the horizontal one is dropped by a mouse without that wheel.
\<close>

definition ms_view :: "mouse \<Rightarrow> int \<times> int \<Rightarrow> int \<times> int \<Rightarrow> int list" where
  "ms_view m d w = [ms_buttons m] @ (if ms_absolute m then [ms_x m, ms_y m] else [fst d, snd d])
     @ (if ms_hwheel m then [snd w, fst w] else [snd w])"

definition opt_delta :: "(int \<times> int) option \<Rightarrow> int \<times> int" where
  "opt_delta d = (case d of Some p \<Rightarrow> p | None \<Rightarrow> (0, 0))"

definition small :: "int \<times> int \<Rightarrow> bool" where
  "small d = (in_delta (fst d) \<and> in_delta (snd d))"

lemma ms_report_view:
  assumes "ms_wf m" "ms_absolute m \<longrightarrow> rel = None" "small (opt_delta rel)" "small (opt_delta whl)"
  shows "\<exists>r. ms_make_report rel whl m = Inr r \<and> length r = calcsize (ms_format m)
     \<and> ms_decode m r = ms_view m (opt_delta rel) (opt_delta whl)"
proof -
  let ?vs = "ms_view m (opt_delta rel) (opt_delta whl)"
  have pk: "ms_make_report rel whl m = pack LE (ms_format m) ?vs"
    using assms(2) by (cases "ms_absolute m"; cases "ms_hwheel m"; cases rel; cases whl)
      (simp_all add: ms_make_report_def make_mouse_report_def ms_format_def ms_view_def opt_delta_def
        split_def Let_def del: pack.simps)
  have "\<exists>r. pack LE (ms_format m) ?vs = Inr r"
    using assms(1,3,4) by (cases "ms_absolute m"; cases "ms_hwheel m")
      (simp_all add: ms_format_def ms_view_def ms_wf_def small_def in_delta_def mouse_ranges)
  then obtain r where r: "pack LE (ms_format m) ?vs = Inr r" by blast
  have "unpack_fields LE (ms_format m) (r @ []) = ?vs"
    by (rule unpack_fields_pack [OF r]) (simp_all add: ms_format_def)
  with pk r pack_facts [OF r] show ?thesis by (auto simp: ms_decode_def)
qed

text \<open>
  Positions 1 and 2 of a report add to the pointer of a relative mouse, position 3 is the vertical
  and position 4 the horizontal wheel: \<open>reported\<close> adds them up, \<open>requested\<close> is what the events ask.
\<close>

definition reported :: "mouse \<Rightarrow> bytes list \<Rightarrow> nat \<Rightarrow> int" where
  "reported m rs i = (\<Sum>r\<leftarrow>rs. if (i \<in> {1, 2} \<and> \<not> ms_absolute m) \<or> i = 3 \<or> (i = 4 \<and> ms_hwheel m)
     then ms_decode m r ! i else 0)"

fun requested :: "mouse \<Rightarrow> hid_event \<Rightarrow> nat \<Rightarrow> int" where
  "requested m (MouseRelativeEvent dx dy) i = (if i = 1 then dx else if i = 2 then dy else 0)"
| "requested m (MouseWheelEvent dx dy) i =
     (if i = 3 then dy else if i = 4 \<and> ms_hwheel m then dx else 0)"
| "requested m _ i = 0"

fun button_step :: "int \<Rightarrow> hid_event \<Rightarrow> bool \<Rightarrow> bool" where
  "button_step c ClearEvent down = False"
| "button_step c ResetEvent down = False"
| "button_step c (MouseButtonEvent _ state code) down = (if code = c then state else down)"
| "button_step c _ down = down"

fun point_step :: "hid_event \<Rightarrow> int \<times> int \<Rightarrow> int \<times> int" where
  "point_step (MouseMoveEvent _ _ _ fx fy) _ = (fx, fy)"
| "point_step _ p = p"

definition button_codes :: "int list" where
  "button_codes = [1, 2, 4, 8, 16]"

definition same_kind :: "mouse \<Rightarrow> mouse \<Rightarrow> bool" where
  "same_kind m m' = (ms_absolute m' = ms_absolute m \<and> ms_hwheel m' = ms_hwheel m)"

definition shows_mouse :: "mouse \<Rightarrow> bytes \<Rightarrow> bool" where
  "shows_mouse m r = (length r = calcsize (ms_format m) \<and> ms_decode m r ! 0 = ms_buttons m
     \<and> (ms_absolute m \<longrightarrow> ms_decode m r ! 1 = ms_x m \<and> ms_decode m r ! 2 = ms_y m))"

lemma bit_set_power: "bit_set b (2 ^ n) \<longleftrightarrow> bit b n"
  by (simp add: bit_set_def and_exp_eq_0_iff_not_bit)

lemma button_codes_powers:
  assumes "c \<in> set button_codes"
  obtains n where "n < 5" "c = 2 ^ n"
proof -
  have "c \<in> (\<lambda>n. 2 ^ n) ` {0, 1, 2, 3, 4 :: nat}" using assms by (auto simp: button_codes_def)
  then obtain n where "n \<in> {0, 1, 2, 3, 4 :: nat}" "c = 2 ^ n" by blast
  then show ?thesis by (intro that [of n]) auto
qed

lemma button_bits:
  assumes "c \<in> set button_codes" "d \<in> set button_codes"
  shows "bit_set (b AND NOT c) d \<longleftrightarrow> c \<noteq> d \<and> bit_set b d" "bit_set (b OR c) d \<longleftrightarrow> c = d \<or> bit_set b d"
    "bit_set c b \<longleftrightarrow> bit_set b c"
proof -
  obtain n k where n: "c = 2 ^ n" and k: "d = 2 ^ k"
    using button_codes_powers assms by metis
  show "bit_set (b AND NOT c) d \<longleftrightarrow> c \<noteq> d \<and> bit_set b d" "bit_set (b OR c) d \<longleftrightarrow> c = d \<or> bit_set b d"
    unfolding n k bit_set_power by (auto simp: bit_simps)
  show "bit_set c b \<longleftrightarrow> bit_set b c" by (simp add: bit_set_def and.commute)
qed

lemma button_byte:
  assumes "c \<in> set button_codes" "0 \<le> b" "b < 256"
  shows "0 \<le> b AND NOT c \<and> b AND NOT c < 256" "0 \<le> b OR c \<and> b OR c < 256"
proof -
  have "0 \<le> c" "c < 2 ^ 8" using assms(1) by (auto simp: button_codes_def)
  with assms show "0 \<le> b OR c \<and> b OR c < 256" using or_bound [of b 8 c] by simp
  have "b AND NOT c \<le> b" using assms(2) by (rule AND_upper1)
  with assms show "0 \<le> b AND NOT c \<and> b AND NOT c < 256" by simp
qed

text \<open>A generator that goes from one state to another and whose reports say so.\<close>

definition guides :: "mouse gen \<Rightarrow> mouse \<Rightarrow> mouse \<Rightarrow> (nat \<Rightarrow> int) \<Rightarrow> bool" where
  "guides g m m' D = (\<exists>rs. (\<forall>out. g (m, out) = (Inr (), m', out @ rs)) \<and> ms_wf m' \<and> same_kind m m'
     \<and> (if rs = [] then m' = m else shows_mouse m' (last rs)) \<and> (\<forall>i. reported m rs i = D i)
     \<and> [] \<notin> set rs)"

lemma decode_same_kind: "same_kind m m' \<Longrightarrow> ms_decode m' = ms_decode m"
  "same_kind m m' \<Longrightarrow> reported m' = reported m"
proof -
  show eq: "same_kind m m' \<Longrightarrow> ms_decode m' = ms_decode m"
    by (simp add: same_kind_def ms_decode_def ms_format_def fun_eq_iff)
  assume k: "same_kind m m'"
  then show "reported m' = reported m"
    unfolding reported_def eq [OF k] by (simp add: same_kind_def)
qed

lemma guides_report:
  assumes "ms_wf (f m)" "same_kind m (f m)" "ms_absolute m \<longrightarrow> rel = None"
    and "small (opt_delta rel)" "small (opt_delta whl)"
    and "\<And>i. D i = (if i = 1 \<and> \<not> ms_absolute m then fst (opt_delta rel) else
       if i = 2 \<and> \<not> ms_absolute m then snd (opt_delta rel) else if i = 3 then snd (opt_delta whl) else
       if i = 4 \<and> ms_hwheel m then fst (opt_delta whl) else 0)"
  shows "guides (bindS (updateG f) (\<lambda>_. yieldG (ms_make_report rel whl))) m (f m) D"
proof -
  have "ms_absolute (f m) \<longrightarrow> rel = None" using assms(2,3) by (simp add: same_kind_def)
  from ms_report_view [OF assms(1) this assms(4,5)]
  obtain r where r: "ms_make_report rel whl (f m) = Inr r" "length r = calcsize (ms_format (f m))"
      "ms_decode (f m) r = ms_view (f m) (opt_delta rel) (opt_delta whl)" by blast
  have "reported m [r] i = D i" for i
    using r(3) assms(2) unfolding decode_same_kind(1) [OF assms(2)] assms(6)
    by (auto simp: reported_def ms_view_def same_kind_def)
  moreover have "shows_mouse (f m) r" using r(2,3) by (auto simp: shows_mouse_def ms_view_def)
  moreover have "bindS (updateG f) (\<lambda>_. yieldG (ms_make_report rel whl)) (m, out) = (Inr (), f m, out @ [r])"
    for out using r(1) by (simp add: bindS_def)
  moreover have "r \<noteq> []" using r(2) by (auto simp: ms_format_def)
  ultimately show ?thesis unfolding guides_def using assms(1,2)
    by (intro exI [of _ "[r]"]) simp
qed

lemma guides_skip: "ms_wf m \<Longrightarrow> (\<And>i. D i = 0) \<Longrightarrow> guides (retS ()) m m D"
  unfolding guides_def by (auto simp: reported_def same_kind_def)

lemma guides_read: "guides (g m) m m' D \<Longrightarrow> guides (readG g) m m' D"
  by (simp add: guides_def)

lemma guides_bind:
  assumes "guides g m m1 C" "guides h m1 m2 D"
  shows "guides (bindS g (\<lambda>_. h)) m m2 (\<lambda>i. C i + D i)"
proof -
  obtain rs where 1: "\<forall>out. g (m, out) = (Inr (), m1, out @ rs)" "same_kind m m1"
      "if rs = [] then m1 = m else shows_mouse m1 (last rs)" "\<forall>i. reported m rs i = C i" "[] \<notin> set rs"
    using assms(1) unfolding guides_def by blast
  obtain ss where 2: "\<forall>out. h (m1, out) = (Inr (), m2, out @ ss)" "ms_wf m2" "same_kind m1 m2"
      "if ss = [] then m2 = m1 else shows_mouse m2 (last ss)" "\<forall>i. reported m1 ss i = D i" "[] \<notin> set ss"
    using assms(2) unfolding guides_def by blast
  have "\<forall>out. bindS g (\<lambda>_. h) (m, out) = (Inr (), m2, out @ (rs @ ss))"
    using 1(1) 2(1) by (simp add: bindS_def)
  moreover have "same_kind m m2" using 1(2) 2(3) by (simp add: same_kind_def)
  moreover have "if rs @ ss = [] then m2 = m else shows_mouse m2 (last (rs @ ss))"
    using 1(3) 2(4) by (auto split: if_splits)
  moreover have "\<forall>i. reported m (rs @ ss) i = C i + D i"
    using 1(4) 2(5) unfolding decode_same_kind(2) [OF 1(2)] by (simp add: reported_def)
  moreover have "[] \<notin> set (rs @ ss)" using 1(5) 2(6) by simp
  ultimately show ?thesis using 2(2) unfolding guides_def by blast
qed

text \<open>The state after an event.\<close>

fun ms_after :: "hid_event \<Rightarrow> mouse \<Rightarrow> mouse" where
  "ms_after ClearEvent m = m\<lparr>ms_buttons := 0\<rparr>"
| "ms_after ResetEvent m = m\<lparr>ms_buttons := 0\<rparr>"
| "ms_after (MouseButtonEvent _ state code) m =
     (let m1 = (if bit_set code (ms_buttons m) then m\<lparr>ms_buttons := ms_buttons m AND NOT code\<rparr> else m)
      in if state then m1\<lparr>ms_buttons := ms_buttons m1 OR code\<rparr> else m1)"
| "ms_after (MouseMoveEvent _ _ _ fx fy) m = m\<lparr>ms_x := fx, ms_y := fy\<rparr>"
| "ms_after _ m = m"

lemma small_none [simp]: "in_delta 0" "small (0, 0)" and opt_delta_simps [simp]:
    "opt_delta None = (0, 0)" "opt_delta (Some d) = d"
  by (simp_all add: small_def opt_delta_def in_delta_def mouse_ranges)

lemma guides_plain_report:
  "ms_wf (f m) \<Longrightarrow> same_kind m (f m)
     \<Longrightarrow> guides (bindS (updateG f) (\<lambda>_. yieldG (ms_make_report None None))) m (f m) (\<lambda>i. 0)"
  by (rule guides_report) (simp_all add: small_def in_delta_def mouse_ranges)

lemma update_nothing: "yieldG f = bindS (updateG (\<lambda>m. m)) (\<lambda>_. yieldG f)"
  by (auto simp: bindS_def fun_eq_iff)

lemma guides_button:
  assumes "ms_wf m" "code \<in> set button_codes"
  shows "guides (ms_button_event code state) m (ms_after (MouseButtonEvent b state code) m) (\<lambda>i. 0)"
proof -
  define m1 where "m1 = (if bit_set code (ms_buttons m) then m\<lparr>ms_buttons := ms_buttons m AND NOT code\<rparr> else m)"
  have wf1: "ms_wf m1" using assms button_byte(1) [OF assms(2)] by (simp add: ms_wf_def m1_def)
  have 1: "guides (readG (\<lambda>m. whenS (bit_set code (ms_buttons m))
        (bindS (updateG (\<lambda>m. m\<lparr>ms_buttons := ms_buttons m AND NOT code\<rparr>)) (\<lambda>_.
           yieldG (ms_make_report None None))))) m m1 (\<lambda>i. 0)"
    using wf1 guides_plain_report [of "\<lambda>m. m\<lparr>ms_buttons := ms_buttons m AND NOT code\<rparr>" m]
    by (intro guides_read) (auto simp: whenS_def same_kind_def m1_def intro: guides_skip)
  have 2: "guides (whenS state (bindS (updateG (\<lambda>m. m\<lparr>ms_buttons := ms_buttons m OR code\<rparr>)) (\<lambda>_.
           yieldG (ms_make_report None None)))) m1
        (if state then m1\<lparr>ms_buttons := ms_buttons m1 OR code\<rparr> else m1) (\<lambda>i. 0)"
    using wf1 button_byte(2) [OF assms(2), of "ms_buttons m1"] guides_plain_report [of "\<lambda>m. m\<lparr>ms_buttons := ms_buttons m OR code\<rparr>" m1]
    by (cases state) (simp_all add: whenS_def same_kind_def ms_wf_def guides_skip)
  have "ms_after (MouseButtonEvent b state code) m = (if state then m1\<lparr>ms_buttons := ms_buttons m1 OR code\<rparr> else m1)"
    by (simp add: Let_def m1_def)
  then show ?thesis
    unfolding ms_button_event_def using guides_bind [OF 1 2] by simp
qed

lemma guides_event:
  assumes "ms_wf m" "ms_event_ok (ms_absolute m) e"
  shows "guides (ms_process_event e) m (ms_after e m) (requested m e)"
proof (cases e)
  case (MouseButtonEvent b s c)
  with assms have "c \<in> set button_codes" by (simp add: button_codes_def)
  from guides_button [OF assms(1) this, of s b] show ?thesis
    unfolding MouseButtonEvent guides_def by simp
next
  case (MouseMoveEvent x y w fx fy)
  then show ?thesis using assms guides_plain_report [of "\<lambda>m. m\<lparr>ms_x := fx, ms_y := fy\<rparr>" m]
    by (simp add: ms_move_event_def ms_wf_def same_kind_def guides_def)
next
  case (MouseRelativeEvent dx dy)
  have "guides (bindS (updateG (\<lambda>m. m)) (\<lambda>_. yieldG (ms_make_report (Some (dx, dy)) None))) m m (requested m e)"
    by (rule guides_report) (use assms MouseRelativeEvent in \<open>auto simp: same_kind_def small_def\<close>)
  then show ?thesis using MouseRelativeEvent by (simp add: ms_relative_event_def update_nothing [symmetric])
next
  case (MouseWheelEvent dx dy)
  have "guides (bindS (updateG (\<lambda>m. m)) (\<lambda>_. yieldG (ms_make_report None (Some (dx, dy))))) m m (requested m e)"
    by (rule guides_report) (use assms MouseWheelEvent in \<open>auto simp: same_kind_def small_def\<close>)
  then show ?thesis using MouseWheelEvent by (simp add: ms_wheel_event_def update_nothing [symmetric])
qed (use assms guides_plain_report [of "\<lambda>m. m\<lparr>ms_buttons := 0\<rparr>" m] in
    \<open>simp_all add: ms_clear_event_def ms_wf_def same_kind_def guides_def\<close>)

text \<open>The button a run of events leaves pressed and the point it leaves the pointer at.\<close>

definition button_after :: "int \<Rightarrow> hid_event list \<Rightarrow> bool \<Rightarrow> bool" where
  "button_after c es down = fold (button_step c) es down"

definition point_after :: "hid_event list \<Rightarrow> int \<times> int \<Rightarrow> int \<times> int" where
  "point_after es p = fold point_step es p"

lemma button_code_known: "ms_event_ok b (MouseButtonEvent x s c) \<Longrightarrow> c \<in> set button_codes"
  by (simp add: button_codes_def)

lemma ms_after_buttons:
  assumes "ms_event_ok (ms_absolute m) e" "c \<in> set button_codes"
  shows "bit_set (ms_buttons (ms_after e m)) c \<longleftrightarrow> button_step c e (bit_set (ms_buttons m) c)"
proof (cases e)
  case (MouseButtonEvent b s d)
  then have "d \<in> set button_codes" using assms(1) button_code_known by metis
  then show ?thesis
    using MouseButtonEvent button_bits [OF _ assms(2), of d] by (auto simp: Let_def)
qed (simp_all add: bit_set_def)

lemma ms_after_point: "(ms_x (ms_after e m), ms_y (ms_after e m)) = point_step e (ms_x m, ms_y m)"
  by (cases e) (simp_all add: Let_def)

lemma requested_kind: "same_kind m m' \<Longrightarrow> requested m' = requested m"
  by (intro ext, rename_tac e i, case_tac e) (auto simp: same_kind_def)

lemma ms_run_guides:
  assumes "ms_wf m" "list_all (ms_event_ok (ms_absolute m)) es"
  shows "\<exists>m'. guides (forS es ms_process_event) m m' (\<lambda>i. \<Sum>e\<leftarrow>es. requested m e i)
    \<and> (\<forall>c \<in> set button_codes. bit_set (ms_buttons m') c \<longleftrightarrow> button_after c es (bit_set (ms_buttons m) c))
    \<and> (ms_x m', ms_y m') = point_after es (ms_x m, ms_y m)"
  using assms
proof (induction es arbitrary: m)
  case Nil
  then show ?case by (intro exI [of _ m]) (simp add: guides_skip button_after_def point_after_def)
next
  case (Cons e es)
  let ?m1 = "ms_after e m"
  have ok: "ms_event_ok (ms_absolute m) e" using Cons.prems by simp
  have g: "guides (ms_process_event e) m ?m1 (requested m e)" by (rule guides_event [OF Cons.prems(1) ok])
  then have wf1: "ms_wf ?m1" and kind: "same_kind m ?m1" unfolding guides_def by blast+
  have "list_all (ms_event_ok (ms_absolute ?m1)) es" using Cons.prems kind by (simp add: same_kind_def)
  from Cons.IH [OF wf1 this] obtain m' where m':
    "guides (forS es ms_process_event) ?m1 m' (\<lambda>i. \<Sum>e\<leftarrow>es. requested ?m1 e i)"
    "\<forall>c \<in> set button_codes. bit_set (ms_buttons m') c \<longleftrightarrow> button_after c es (bit_set (ms_buttons ?m1) c)"
    "(ms_x m', ms_y m') = point_after es (ms_x ?m1, ms_y ?m1)" by blast
  have "guides (forS (e # es) ms_process_event) m m' (\<lambda>i. \<Sum>e\<leftarrow>e # es. requested m e i)"
    using guides_bind [OF g m'(1)] by (simp add: requested_kind [OF kind])
  moreover have "\<forall>c \<in> set button_codes.
      bit_set (ms_buttons m') c \<longleftrightarrow> button_after c (e # es) (bit_set (ms_buttons m) c)"
    using m'(2) ms_after_buttons [OF ok] by (simp add: button_after_def)
  moreover have "(ms_x m', ms_y m') = point_after (e # es) (ms_x m, ms_y m)"
    using m'(3) ms_after_point [of e m] by (simp add: point_after_def)
  ultimately show ?case by blast
qed

lemma mouse_init_facts [simp]:
  "ms_wf (mouse_init a h)" "ms_absolute (mouse_init a h) = a" "ms_buttons (mouse_init a h) = 0"
  "ms_x (mouse_init a h) = 0" "ms_y (mouse_init a h) = 0" "\<not> bit_set 0 c"
  by (simp_all add: mouse_init_def ms_wf_def bit_set_def)

text \<open>C12. The mouse reports what it was asked: for every sequence of events the methods can queue, the
  process never raises; the last report shows each button pressed exactly when its last event
  pressed it, and on an absolute mouse the last point moved to; and over all reports the relative
  movement and the wheel deltas add up to those requested, nothing lost and nothing repeated.\<close>

theorem mouse_reports_faithful:
  assumes "list_all (ms_event_ok absolute) es"
  shows "\<exists>m rs. forS es ms_process_event (mouse_init absolute hwheel, []) = (Inr (), m, rs)
    \<and> (rs \<noteq> [] \<longrightarrow>
        (\<forall>c \<in> set button_codes. bit_set (ms_decode m (last rs) ! 0) c \<longleftrightarrow> button_after c es False)
        \<and> (absolute \<longrightarrow> (ms_decode m (last rs) ! 1, ms_decode m (last rs) ! 2) = point_after es (0, 0)))
    \<and> (rs = [] \<longrightarrow> (\<forall>c \<in> set button_codes. \<not> button_after c es False) \<and> point_after es (0, 0) = (0, 0))
    \<and> (\<forall>i. reported (mouse_init absolute hwheel) rs i
          = (\<Sum>e\<leftarrow>es. requested (mouse_init absolute hwheel) e i))"
proof -
  let ?m0 = "mouse_init absolute hwheel"
  obtain m where g: "guides (forS es ms_process_event) ?m0 m (\<lambda>i. \<Sum>e\<leftarrow>es. requested ?m0 e i)"
    and b: "\<forall>c \<in> set button_codes. bit_set (ms_buttons m) c \<longleftrightarrow> button_after c es False"
    and p: "(ms_x m, ms_y m) = point_after es (0, 0)"
    using ms_run_guides [of ?m0 es] assms by auto
  obtain rs where rs: "forS es ms_process_event (?m0, []) = (Inr (), m, rs)" "same_kind ?m0 m"
      "if rs = [] then m = ?m0 else shows_mouse m (last rs)"
      "\<forall>i. reported ?m0 rs i = (\<Sum>e\<leftarrow>es. requested ?m0 e i)"
    using g unfolding guides_def by (metis append_Nil)
  have shown: "ms_decode m (last rs) ! 0 = ms_buttons m \<and> (absolute \<longrightarrow>
      ms_decode m (last rs) ! 1 = ms_x m \<and> ms_decode m (last rs) ! 2 = ms_y m)" if "rs \<noteq> []"
    using that rs(2,3) by (simp add: shows_mouse_def same_kind_def)
  have idle: "ms_buttons m = 0 \<and> ms_x m = 0 \<and> ms_y m = 0" if "rs = []" using that rs(3) by simp
  show ?thesis
  proof (rule exI [of _ m], rule exI [of _ rs], intro conjI)
    show "rs \<noteq> [] \<longrightarrow> (\<forall>c \<in> set button_codes. bit_set (ms_decode m (last rs) ! 0) c \<longleftrightarrow> button_after c es False)
        \<and> (absolute \<longrightarrow> (ms_decode m (last rs) ! 1, ms_decode m (last rs) ! 2) = point_after es (0, 0))"
      using shown b p by simp
    show "rs = [] \<longrightarrow> (\<forall>c \<in> set button_codes. \<not> button_after c es False) \<and> point_after es (0, 0) = (0, 0)"
      using idle b p mouse_init_facts(6) by metis
  qed (rule rs(1), rule rs(4))
qed

definition sample_moves :: "hid_event list" where
  "sample_moves = [MouseButtonEvent 0 True 1, MouseRelativeEvent 5 (-3), MouseWheelEvent 1 2]"

theorem mouse_reports_faithful_witness:
  "\<exists>m rs. forS sample_moves ms_process_event (mouse_init False True, []) = (Inr (), m, rs)
    \<and> (rs \<noteq> [] \<longrightarrow>
        (\<forall>c \<in> set button_codes. bit_set (ms_decode m (last rs) ! 0) c \<longleftrightarrow> button_after c sample_moves False))
    \<and> (\<forall>i. reported (mouse_init False True) rs i = (\<Sum>e\<leftarrow>sample_moves. requested (mouse_init False True) e i))"
proof -
  have "list_all (ms_event_ok False) sample_moves"
    by (simp add: sample_moves_def in_delta_def mouse_ranges)
  from mouse_reports_faithful [OF this, of True] show ?thesis by blast
qed

lemma win98_only: "\<exists>w. fold set_win98_fix flags m = m\<lparr>ms_win98 := w\<rparr>"
proof (induction flags arbitrary: m)
  case Nil
  show ?case by (rule exI [of _ "ms_win98 m"]) simp
next
  case (Cons b flags)
  from Cons.IH [of "m\<lparr>ms_win98 := b\<rparr>"] show ?case by (simp add: set_win98_fix_def)
qed

text \<open>Stopping the mouse moves the pointer: \<open>cleanup\<close> means to write the released buttons at the
  current point, but it runs in the daemon, whose copy of the point is never updated.  Whatever
  was configured before, an absolute mouse reports the point 0, 0, while the process had left
  the pointer at the last point moved to.\<close>

theorem cleanup_moves_pointer:
  assumes "ms_event_ok True (MouseMoveEvent x y fix fx fy)"
  shows "\<exists>r m rs c. forS [MouseMoveEvent x y fix fx fy] ms_process_event (mouse_init True hwheel, []) = (Inr (), m, rs)
    \<and> rs = [r] \<and> take 2 (drop 1 (ms_decode m r)) = [fx, fy]
    \<and> ms_cleanup_report (fold set_win98_fix flags (mouse_init True hwheel)) = Inr c
    \<and> take 3 (ms_decode (mouse_init True hwheel) c) = [0, 0, 0]"
proof -
  let ?init = "mouse_init True hwheel" and ?m = "(mouse_init True hwheel)\<lparr>ms_x := fx, ms_y := fy\<rparr>"
  have wf: "ms_wf ?m" using assms by (simp add: ms_wf_def mouse_init_def)
  from ms_report_view [OF wf, of None None] obtain r where
    r: "ms_make_report None None ?m = Inr r" "ms_decode ?m r = ms_view ?m (0, 0) (0, 0)" by auto
  have run: "forS [MouseMoveEvent x y fix fx fy] ms_process_event (?init, []) = (Inr (), ?m, [r])"
    using r(1) by (simp add: ms_move_event_def bindS_def)
  obtain w where w: "fold set_win98_fix flags ?init = ?init\<lparr>ms_win98 := w\<rparr>"
    using win98_only by blast
  from ms_report_view [of ?init None None] obtain c where
    c: "ms_make_report None None ?init = Inr c" "ms_decode ?init c = ms_view ?init (0, 0) (0, 0)" by auto
  have "ms_cleanup_report (fold set_win98_fix flags ?init) = Inr c"
    using c(1) unfolding w
    by (simp add: ms_cleanup_report_def ms_make_report_def mouse_init_def)
  with run r(2) c(2) show ?thesis
    by (intro exI [of _ r] exI [of _ ?m] exI [of _ "[r]"] exI [of _ c])
      (simp add: ms_view_def mouse_init_def)
qed

theorem cleanup_moves_pointer_witness:
  "\<exists>r m rs c. forS [MouseMoveEvent 0 0 False 16383 16383] ms_process_event (mouse_init True True, []) = (Inr (), m, rs)
    \<and> rs = [r] \<and> take 2 (drop 1 (ms_decode m r)) = [16383, 16383]
    \<and> ms_cleanup_report (fold set_win98_fix [] (mouse_init True True)) = Inr c
    \<and> take 3 (ms_decode (mouse_init True True) c) = [0, 0, 0]"
  by (rule cleanup_moves_pointer) simp

end
