(* ===== verification/HidDevice.thy ===== *)
theory HidDevice
  imports HidKeyboard HidMouse
begin

text \<open>
  The process behind a HID device file (\<open>kvmd/plugins/hid/otg/device.py\<close>): it takes events from
  its queue, writes the reports they cause, repeats the last report while it is not accepted, and
  reads the reports of the computer.  Every call of the operating system is an answer given to
  the model: whether the file exists and opens, what \<open>select\<close> and \<open>write\<close> say, what was read.
\<close>

section \<open>The process\<close>

record answer =
  an_exists :: bool
  an_exists_again :: bool
  an_opens :: bool
  an_writable :: "bool option"
  an_written :: "nat option"

record round_env =
  re_read :: answer
  re_reads :: "bytes option list"
  re_reports :: "nat \<Rightarrow> answer"
  re_retry :: answer
  re_udc :: bool

record ('s, 'f) hid_dev =
  hd_read_size :: nat
  hd_write_retries :: int
  hd_noop :: bool
  hd_queue :: "hid_event list"
  hd_online :: bool
  hd_flags :: 'f
  hd_open :: bool
  hd_proc :: 's
  hd_report :: bytes
  hd_retries :: int
  hd_written :: "bytes list"

definition hid_dev_init :: "nat \<Rightarrow> int \<Rightarrow> bool \<Rightarrow> 'f \<Rightarrow> 's \<Rightarrow> ('s, 'f) hid_dev" where
  "hid_dev_init read_size write_retries noop flags s =
     \<lparr>hd_read_size = read_size, hd_write_retries = write_retries, hd_noop = noop, hd_queue = [],
      hd_online = True, hd_flags = flags, hd_open = False, hd_proc = s, hd_report = [],
      hd_retries = 0, hd_written = []\<rparr>"

definition hid_queue_event :: "hid_event \<Rightarrow> ('s, 'f) hid_dev \<Rightarrow> ('s, 'f) hid_dev" where
  "hid_queue_event e d = d\<lparr>hd_queue := hd_queue d @ [e]\<rparr>"

definition clear_queue :: "('s, 'f) hid_dev \<Rightarrow> ('s, 'f) hid_dev" where
  "clear_queue d = d\<lparr>hd_queue := []\<rparr>"

definition send_clear_event :: "('s, 'f) hid_dev \<Rightarrow> ('s, 'f) hid_dev" where
  "send_clear_event d = hid_queue_event ClearEvent (clear_queue d)"

definition send_reset_event :: "('s, 'f) hid_dev \<Rightarrow> ('s, 'f) hid_dev" where
  "send_reset_event d = hid_queue_event ResetEvent (clear_queue d)"

definition close_device :: "('s, 'f) hid_dev \<Rightarrow> ('s, 'f) hid_dev" where
  "close_device d = d\<lparr>hd_open := False\<rparr>"

definition ensure_device :: "answer \<Rightarrow> (('s, 'f) hid_dev, bool) sm" where
  "ensure_device a = getS (\<lambda>d.
     if hd_noop d then retS True
     else if \<not> an_exists a
     then bindS (modifyS (\<lambda>d. (close_device d)\<lparr>hd_online := False\<rparr>)) (\<lambda>_. retS False)
     else bindS (whenS (\<not> hd_open d \<and> an_exists_again a \<and> an_opens a)
            (modifyS (\<lambda>d. d\<lparr>hd_open := True\<rparr>))) (\<lambda>_. getS (\<lambda>d.
          if hd_open d \<and> an_writable a = Some True then retS True
          else bindS (modifyS (\<lambda>d. d\<lparr>hd_online := False\<rparr>)) (\<lambda>_. retS False))))"

text \<open>A partial write counts as a failure; \<open>hd_written\<close> lists the reports written in full.\<close>

definition write_report :: "answer \<Rightarrow> bytes \<Rightarrow> (('s, 'f) hid_dev, bool) sm" where
  "write_report a r = assertS (r \<noteq> []) (getS (\<lambda>d.
     if hd_noop d then retS True
     else assertS (hd_open d)
       (if an_written a = Some (length r)
        then bindS (modifyS (\<lambda>d. d\<lparr>hd_online := True, hd_written := hd_written d @ [r]\<rparr>)) (\<lambda>_. retS True)
        else bindS (modifyS (\<lambda>d. d\<lparr>hd_online := False\<rparr>)) (\<lambda>_. retS False))))"

definition read_all_reports ::
  "(bytes \<Rightarrow> 'f \<Rightarrow> 'f result) \<Rightarrow> bytes option list \<Rightarrow> (('s, 'f) hid_dev, unit) sm" where
  "read_all_reports rd reads = getS (\<lambda>d.
     if hd_noop d \<or> hd_read_size d = 0 then retS ()
     else assertS (hd_open d) (forS reads (\<lambda>r. case r of None \<Rightarrow> retS ()
       | Some report \<Rightarrow> getS (\<lambda>d. bindS (liftS (rd report (hd_flags d))) (\<lambda>f.
           modifyS (\<lambda>d. d\<lparr>hd_flags := f\<rparr>))))))"

definition fresh_report :: "answer \<Rightarrow> bytes \<Rightarrow> (('s, 'f) hid_dev, unit) sm" where
  "fresh_report a r = bindS (modifyS (\<lambda>d. d\<lparr>hd_report := r, hd_retries := hd_write_retries d\<rparr>)) (\<lambda>_.
     bindS (ensure_device a) (\<lambda>ready. whenS ready (bindS (write_report a r) (\<lambda>w.
       whenS w (modifyS (\<lambda>d. d\<lparr>hd_retries := 0\<rparr>))))))"

text \<open>
  The reports of an event are written as the generator yields them, then its exception, if any,
  is raised.  (An empty report would raise before the next one is computed; no device has one.)
\<close>

definition event_reports :: "(hid_event \<Rightarrow> 's gen) \<Rightarrow> (nat \<Rightarrow> answer) \<Rightarrow> hid_event \<Rightarrow> (('s, 'f) hid_dev, unit) sm" where
  "event_reports proc as e = getS (\<lambda>d. case proc e (hd_proc d, []) of (res, s, rs) \<Rightarrow>
     bindS (modifyS (\<lambda>d. d\<lparr>hd_proc := s\<rparr>)) (\<lambda>_.
     bindS (forS (enumerate 0 rs) (\<lambda>(i, r). fresh_report (as i) r)) (\<lambda>_. liftS res)))"

definition repeat_report :: "answer \<Rightarrow> (('s, 'f) hid_dev, unit) sm" where
  "repeat_report a = getS (\<lambda>d. whenS (0 < hd_retries d) (bindS (ensure_device a) (\<lambda>ready.
     whenS ready (bindS (write_report a (hd_report d)) (\<lambda>w.
       modifyS (\<lambda>d. d\<lparr>hd_retries := (if w then 0 else hd_retries d - 1)\<rparr>))))))"

text \<open>One round of the loop; an empty queue is a timeout of \<open>get\<close>.\<close>

definition dev_round ::
  "(hid_event \<Rightarrow> 's gen) \<Rightarrow> (bytes \<Rightarrow> 'f \<Rightarrow> 'f result) \<Rightarrow> round_env \<Rightarrow> (('s, 'f) hid_dev, unit) sm" where
  "dev_round proc rd env = bindS (ensure_device (re_read env)) (\<lambda>ready.
     bindS (whenS ready (read_all_reports rd (re_reads env))) (\<lambda>_. getS (\<lambda>d.
       case hd_queue d of
         e # q \<Rightarrow> bindS (modifyS (\<lambda>d. d\<lparr>hd_queue := q\<rparr>)) (\<lambda>_. event_reports proc (re_reports env) e)
       | [] \<Rightarrow> bindS (whenS (\<not> re_udc env) (modifyS (\<lambda>d. d\<lparr>hd_online := False\<rparr>))) (\<lambda>_.
           repeat_report (re_retry env)))))"

text \<open>An exception in a round is logged; the next round starts a second later.\<close>

definition dev_rounds ::
  "(hid_event \<Rightarrow> 's gen) \<Rightarrow> (bytes \<Rightarrow> 'f \<Rightarrow> 'f result) \<Rightarrow> round_env list \<Rightarrow> ('s, 'f) hid_dev \<Rightarrow> ('s, 'f) hid_dev" where
  "dev_rounds proc rd envs d = fold (\<lambda>env d. snd (dev_round proc rd env d)) envs d"

definition cleanup_write :: "answer \<Rightarrow> bytes \<Rightarrow> (('s, 'f) hid_dev, unit) sm" where
  "cleanup_write a r = getS (\<lambda>d. assertS (\<not> hd_open d) (bindS (ensure_device a) (\<lambda>ready.
     whenS ready (bindS (write_report a r) (\<lambda>_. modifyS close_device)))))"

section \<open>What the daemon and the process do to each other\<close>

text \<open>
  The daemon queues events and clears the queue while the process runs its rounds: every
  interleaving is a sequence of these steps.
\<close>

inductive dev_step ::
  "(hid_event \<Rightarrow> 's gen) \<Rightarrow> (bytes \<Rightarrow> 'f \<Rightarrow> 'f result) \<Rightarrow> (hid_event \<Rightarrow> bool) \<Rightarrow> (round_env \<Rightarrow> bool)
     \<Rightarrow> ('s, 'f) hid_dev \<Rightarrow> ('s, 'f) hid_dev \<Rightarrow> bool"
  for proc rd event_ok env_ok where
  Queue: "event_ok e \<Longrightarrow> dev_step proc rd event_ok env_ok d (hid_queue_event e d)"
| Clear: "dev_step proc rd event_ok env_ok d (send_clear_event d)"
| Reset: "dev_step proc rd event_ok env_ok d (send_reset_event d)"
| Round: "env_ok env \<Longrightarrow> dev_step proc rd event_ok env_ok d (snd (dev_round proc rd env d))"

inductive_cases dev_stepE: "dev_step proc rd event_ok env_ok d d'"

inductive dev_reachable ::
  "(hid_event \<Rightarrow> 's gen) \<Rightarrow> (bytes \<Rightarrow> 'f \<Rightarrow> 'f result) \<Rightarrow> (hid_event \<Rightarrow> bool) \<Rightarrow> (round_env \<Rightarrow> bool)
     \<Rightarrow> ('s, 'f) hid_dev \<Rightarrow> ('s, 'f) hid_dev \<Rightarrow> bool"
  for proc rd event_ok env_ok d where
  Start: "dev_reachable proc rd event_ok env_ok d d"
| Step: "dev_reachable proc rd event_ok env_ok d d' \<Longrightarrow> dev_step proc rd event_ok env_ok d' d''
    \<Longrightarrow> dev_reachable proc rd event_ok env_ok d d''"

section \<open>The calls\<close>

text \<open>What the link to the computer may change, and what a round never touches.\<close>

definition same_core :: "('s, 'f) hid_dev \<Rightarrow> ('s, 'f) hid_dev \<Rightarrow> bool" where
  "same_core d d' = (hd_noop d' = hd_noop d \<and> hd_read_size d' = hd_read_size d
     \<and> hd_write_retries d' = hd_write_retries d)"

definition same_work :: "('s, 'f) hid_dev \<Rightarrow> ('s, 'f) hid_dev \<Rightarrow> bool" where
  "same_work d d' = (same_core d d' \<and> hd_queue d' = hd_queue d \<and> hd_proc d' = hd_proc d
     \<and> hd_report d' = hd_report d \<and> hd_retries d' = hd_retries d \<and> hd_written d' = hd_written d)"

definition link_up :: "('s, 'f) hid_dev \<Rightarrow> bool" where
  "link_up d = (hd_noop d \<or> hd_open d)"

definition ready_with :: "answer \<Rightarrow> ('s, 'f) hid_dev \<Rightarrow> bool" where
  "ready_with a d = (hd_noop d \<or> (an_exists a \<and> (hd_open d \<or> an_exists_again a \<and> an_opens a)
     \<and> an_writable a = Some True))"

lemma ensure_device_eq:
  "\<exists>d'. ensure_device a d = (Inr (ready_with a d), d') \<and> same_work d d' \<and> (ready_with a d \<longrightarrow> link_up d')"
  by (auto simp: ensure_device_def sm_defs bindS_def ready_with_def same_work_def same_core_def
      link_up_def close_device_def)

definition accepted :: "answer \<Rightarrow> bytes \<Rightarrow> ('s, 'f) hid_dev \<Rightarrow> bool" where
  "accepted a r d = (hd_noop d \<or> an_written a = Some (length r))"

lemma write_report_eq:
  assumes "r \<noteq> []" "link_up d"
  shows "\<exists>d'. write_report a r d = (Inr (accepted a r d), d') \<and> same_core d d'
    \<and> hd_queue d' = hd_queue d \<and> hd_proc d' = hd_proc d \<and> hd_report d' = hd_report d
    \<and> hd_retries d' = hd_retries d
    \<and> hd_written d' = hd_written d @ (if accepted a r d \<and> \<not> hd_noop d then [r] else [])"
  using assms by (auto simp: write_report_def sm_defs bindS_def accepted_def same_core_def link_up_def)

text \<open>The device is there and takes this report.\<close>

definition works_for :: "bytes \<Rightarrow> answer \<Rightarrow> bool" where
  "works_for r a = (an_exists a \<and> an_exists_again a \<and> an_opens a \<and> an_writable a = Some True
     \<and> an_written a = Some (length r))"

lemma works_for_ready: "works_for r a \<Longrightarrow> ready_with a d \<and> accepted a r d"
  by (simp add: works_for_def ready_with_def accepted_def)

text \<open>The last report generated was written (or nothing is to be written at all).\<close>

definition delivered :: "('s, 'f) hid_dev \<Rightarrow> bool" where
  "delivered d = (hd_noop d \<or> (hd_written d \<noteq> [] \<and> last (hd_written d) = hd_report d))"

definition pending :: "int \<Rightarrow> ('s, 'f) hid_dev \<Rightarrow> bool" where
  "pending n d = (hd_report d \<noteq> [] \<and> (hd_retries d = 0 \<and> delivered d \<or> n \<le> hd_retries d))"

lemma fresh_report_eq:
  assumes "r \<noteq> []"
  shows "\<exists>d'. fresh_report a r d = (Inr (), d') \<and> same_core d d' \<and> hd_queue d' = hd_queue d
    \<and> hd_proc d' = hd_proc d \<and> hd_report d' = r \<and> pending (hd_write_retries d) d'"
proof -
  let ?d0 = "d\<lparr>hd_report := r, hd_retries := hd_write_retries d\<rparr>"
  obtain d1 where d1: "ensure_device a ?d0 = (Inr (ready_with a ?d0), d1)" "same_work ?d0 d1"
    "ready_with a ?d0 \<longrightarrow> link_up d1" using ensure_device_eq by blast
  show ?thesis
  proof (cases "ready_with a ?d0")
    case False
    then show ?thesis using d1 assms
      by (auto simp: fresh_report_def sm_defs bindS_def same_work_def same_core_def pending_def)
  next
    case True
    with d1 have "link_up d1" by simp
    from write_report_eq [OF assms this, of a] obtain d2 where d2:
      "write_report a r d1 = (Inr (accepted a r d1), d2)" "same_core d1 d2" "hd_queue d2 = hd_queue d1"
      "hd_proc d2 = hd_proc d1" "hd_report d2 = hd_report d1" "hd_retries d2 = hd_retries d1"
      "hd_written d2 = hd_written d1 @ (if accepted a r d1 \<and> \<not> hd_noop d1 then [r] else [])" by blast
    have run: "fresh_report a r d = (Inr (), if accepted a r d1 then d2\<lparr>hd_retries := 0\<rparr> else d2)"
      using True d1(1) d2(1) by (simp add: fresh_report_def sm_defs bindS_def)
    show ?thesis unfolding run using assms d1(2) d2(2-)
      by (auto simp: same_work_def same_core_def pending_def delivered_def)
  qed
qed

lemma fresh_reports_eq:
  assumes "[] \<notin> set rs"
  shows "\<exists>d'. forS (enumerate n rs) (\<lambda>(i, r). fresh_report (as i) r) d = (Inr (), d') \<and> same_core d d'
    \<and> hd_queue d' = hd_queue d \<and> hd_proc d' = hd_proc d \<and> hd_report d' = last (hd_report d # rs)
    \<and> (if rs = [] then d' = d else pending (hd_write_retries d) d')"
  using assms
proof (induction rs arbitrary: n d)
  case Nil
  then show ?case by (simp add: retS_def same_core_def)
next
  case (Cons r rs)
  then have "r \<noteq> []" "[] \<notin> set rs" by auto
  from fresh_report_eq [OF this(1), of "as n" d] obtain d1 where d1:
    "fresh_report (as n) r d = (Inr (), d1)" "same_core d d1" "hd_queue d1 = hd_queue d"
    "hd_proc d1 = hd_proc d" "hd_report d1 = r" "pending (hd_write_retries d) d1" by blast
  from Cons.IH [OF \<open>[] \<notin> set rs\<close>, of "Suc n" d1] obtain d2 where d2:
    "forS (enumerate (Suc n) rs) (\<lambda>(i, r). fresh_report (as i) r) d1 = (Inr (), d2)" "same_core d1 d2"
    "hd_queue d2 = hd_queue d1" "hd_proc d2 = hd_proc d1" "hd_report d2 = last (hd_report d1 # rs)"
    "if rs = [] then d2 = d1 else pending (hd_write_retries d1) d2" by blast
  have "forS (enumerate n (r # rs)) (\<lambda>(i, r). fresh_report (as i) r) d = (Inr (), d2)"
    using d1(1) d2(1) by (simp add: bindS_def)
  moreover have "pending (hd_write_retries d) d2"
    using d1(2,6) d2(6) by (auto simp: same_core_def split: if_splits)
  ultimately show ?case using d1(2-5) d2(2-5) by (simp add: same_core_def)
qed

text \<open>A repetition costs a try only when the device could be written to.\<close>

lemma repeat_report_eq:
  assumes "pending n d"
  shows "\<exists>d'. repeat_report a d = (Inr (), d') \<and> same_core d d' \<and> hd_queue d' = hd_queue d
    \<and> hd_proc d' = hd_proc d \<and> hd_report d' = hd_report d \<and> pending (n - 1) d'
    \<and> (0 < n \<and> ready_with a d \<and> accepted a (hd_report d) d \<longrightarrow> delivered d' \<and> hd_retries d' = 0)"
proof (cases "0 < hd_retries d")
  case False
  then show ?thesis using assms
    by (auto simp: repeat_report_def sm_defs pending_def same_core_def)
next
  case True
  have r: "hd_report d \<noteq> []" "n \<le> hd_retries d" using assms True by (auto simp: pending_def)
  obtain d1 where d1: "ensure_device a d = (Inr (ready_with a d), d1)" "same_work d d1"
    "ready_with a d \<longrightarrow> link_up d1" using ensure_device_eq by blast
  show ?thesis
  proof (cases "ready_with a d")
    case False
    then show ?thesis using d1 r True
      by (auto simp: repeat_report_def sm_defs bindS_def same_work_def same_core_def pending_def)
  next
    case ready: True
    with d1 have "link_up d1" by simp
    from write_report_eq [OF r(1) this, of a] obtain d2 where d2:
      "write_report a (hd_report d) d1 = (Inr (accepted a (hd_report d) d1), d2)" "same_core d1 d2"
      "hd_queue d2 = hd_queue d1" "hd_proc d2 = hd_proc d1" "hd_report d2 = hd_report d1"
      "hd_retries d2 = hd_retries d1"
      "hd_written d2 = hd_written d1 @ (if accepted a (hd_report d) d1 \<and> \<not> hd_noop d1 then [hd_report d] else [])"
      by blast
    let ?w = "accepted a (hd_report d) d1"
    have run: "repeat_report a d = (Inr (), d2\<lparr>hd_retries := (if ?w then 0 else hd_retries d2 - 1)\<rparr>)"
      using True ready d1(1,2) d2(1) by (simp add: repeat_report_def sm_defs bindS_def same_work_def)
    have "?w = accepted a (hd_report d) d" using d1(2) by (simp add: accepted_def same_work_def same_core_def)
    then show ?thesis unfolding run using r d1(2) d2(2-)
      by (auto simp: same_work_def same_core_def pending_def delivered_def)
  qed
qed

section \<open>The interface of a device process\<close>

text \<open>
  What the loop needs of the keyboard and the mouse: an event never raises, keeps the invariant,
  yields no empty report, and does not look at what was written before; a report of the
  expected size is read without an exception.
\<close>

locale hid_process =
  fixes proc :: "hid_event \<Rightarrow> 's gen"
    and rd :: "bytes \<Rightarrow> 'f \<Rightarrow> 'f result"
    and inv :: "'s \<Rightarrow> bool"
    and event_ok :: "hid_event \<Rightarrow> bool"
    and read_ok :: "bytes \<Rightarrow> bool"
  assumes proc_works: "inv s \<Longrightarrow> event_ok e \<Longrightarrow>
      \<exists>s' rs. (\<forall>out. proc e (s, out) = (Inr (), s', out @ rs)) \<and> inv s' \<and> [] \<notin> set rs"
    and clear_known: "event_ok ClearEvent" "event_ok ResetEvent"
    and read_works: "read_ok report \<Longrightarrow> ok (rd report f)"
begin

definition reads_ok :: "round_env \<Rightarrow> bool" where
  "reads_ok env = (\<forall>r. Some r \<in> set (re_reads env) \<longrightarrow> read_ok r)"

definition dev_inv :: "('s, 'f) hid_dev \<Rightarrow> bool" where
  "dev_inv d = (inv (hd_proc d) \<and> list_all event_ok (hd_queue d) \<and> 0 \<le> hd_write_retries d
     \<and> 0 \<le> hd_retries d \<and> (0 < hd_retries d \<longrightarrow> hd_report d \<noteq> []))"

text \<open>Reading changes the flags of the computer only.\<close>

lemma read_loop_eq:
  assumes "\<forall>r. Some r \<in> set reads \<longrightarrow> read_ok r"
  shows "\<exists>f. forS reads (\<lambda>r. case r of None \<Rightarrow> retS ()
       | Some report \<Rightarrow> getS (\<lambda>d. bindS (liftS (rd report (hd_flags d))) (\<lambda>f.
           modifyS (\<lambda>d. d\<lparr>hd_flags := f\<rparr>)))) d = (Inr (), d\<lparr>hd_flags := f\<rparr>)"
  using assms
proof (induction reads arbitrary: d)
  case Nil
  show ?case by (rule exI [of _ "hd_flags d"]) (simp add: retS_def)
next
  case (Cons r reads)
  show ?case
  proof (cases r)
    case None
    with Cons show ?thesis by (simp add: bindS_def retS_def)
  next
    case (Some report)
    with Cons.prems obtain f where "rd report (hd_flags d) = Inr f"
      using read_works [of report "hd_flags d"] by (auto simp: ok_iff)
    with Some Cons.IH [of "d\<lparr>hd_flags := f\<rparr>"] Cons.prems show ?thesis
      by (auto simp: sm_defs bindS_def)
  qed
qed

lemma read_all_reports_eq:
  assumes "\<forall>r. Some r \<in> set reads \<longrightarrow> read_ok r" "link_up d"
  shows "\<exists>d'. read_all_reports rd reads d = (Inr (), d') \<and> same_work d d'"
  using assms(2) read_loop_eq [OF assms(1), of d]
  by (auto simp: read_all_reports_def getS_def assertS_def retS_def same_work_def same_core_def link_up_def)

text \<open>Everything before the queue is looked at.\<close>

lemma round_start:
  assumes "reads_ok env"
  shows "\<exists>d'. same_work d d' \<and> dev_round proc rd env d = (case hd_queue d' of
       e # q \<Rightarrow> bindS (modifyS (\<lambda>d. d\<lparr>hd_queue := q\<rparr>)) (\<lambda>_. event_reports proc (re_reports env) e)
     | [] \<Rightarrow> bindS (whenS (\<not> re_udc env) (modifyS (\<lambda>d. d\<lparr>hd_online := False\<rparr>))) (\<lambda>_.
         repeat_report (re_retry env))) d'"
proof -
  obtain d1 where d1: "ensure_device (re_read env) d = (Inr (ready_with (re_read env) d), d1)"
    "same_work d d1" "ready_with (re_read env) d \<longrightarrow> link_up d1" using ensure_device_eq by blast
  have "\<exists>d2. whenS (ready_with (re_read env) d) (read_all_reports rd (re_reads env)) d1 = (Inr (), d2)
      \<and> same_work d1 d2"
    using read_all_reports_eq [of "re_reads env" d1] assms d1(3)
    by (cases "ready_with (re_read env) d")
      (auto simp: whenS_def retS_def reads_ok_def same_work_def same_core_def)
  then obtain d2 where d2: "whenS (ready_with (re_read env) d) (read_all_reports rd (re_reads env)) d1 = (Inr (), d2)"
    "same_work d1 d2" by blast
  show ?thesis
    by (rule exI [of _ d2])
      (use d1(1,2) d2 in \<open>simp add: dev_round_def bindS_def getS_def same_work_def same_core_def\<close>)
qed

lemma event_round:
  assumes "reads_ok env" "hd_queue d = e # q" "proc e (hd_proc d, []) = (Inr (), s', rs)" "[] \<notin> set rs"
  shows "\<exists>d'. dev_round proc rd env d = (Inr (), d') \<and> same_core d d' \<and> hd_queue d' = q \<and> hd_proc d' = s'
    \<and> hd_report d' = last (hd_report d # rs)
    \<and> (if rs = [] then hd_retries d' = hd_retries d \<and> hd_written d' = hd_written d
       else pending (hd_write_retries d) d')"
proof -
  from round_start [OF assms(1)] obtain d1 where d1: "same_work d d1"
    "dev_round proc rd env d = (case hd_queue d1 of
       e # q \<Rightarrow> bindS (modifyS (\<lambda>d. d\<lparr>hd_queue := q\<rparr>)) (\<lambda>_. event_reports proc (re_reports env) e)
     | [] \<Rightarrow> bindS (whenS (\<not> re_udc env) (modifyS (\<lambda>d. d\<lparr>hd_online := False\<rparr>))) (\<lambda>_.
         repeat_report (re_retry env))) d1" by blast
  let ?d2 = "d1\<lparr>hd_queue := q, hd_proc := s'\<rparr>"
  from fresh_reports_eq [OF assms(4), of 0 "re_reports env" ?d2] obtain d3 where d3:
    "forS (enumerate 0 rs) (\<lambda>(i, r). fresh_report (re_reports env i) r) ?d2 = (Inr (), d3)"
    "same_core ?d2 d3" "hd_queue d3 = hd_queue ?d2" "hd_proc d3 = hd_proc ?d2"
    "hd_report d3 = last (hd_report ?d2 # rs)"
    "if rs = [] then d3 = ?d2 else pending (hd_write_retries ?d2) d3" by blast
  have "dev_round proc rd env d = (Inr (), d3)"
    using d1 d3(1) assms(2,3)
    by (simp add: same_work_def event_reports_def bindS_def getS_def modifyS_def liftS_def)
  then show ?thesis using d1(1) d3(2-)
    by (intro exI [of _ d3], cases "rs = []") (simp_all add: same_work_def same_core_def)
qed

lemma idle_round:
  assumes "reads_ok env" "hd_queue d = []" "hd_retries d = 0 \<or> pending n d"
  shows "\<exists>d'. dev_round proc rd env d = (Inr (), d') \<and> same_core d d' \<and> hd_queue d' = []
    \<and> hd_proc d' = hd_proc d \<and> hd_report d' = hd_report d
    \<and> (hd_retries d = 0 \<longrightarrow> hd_retries d' = 0 \<and> hd_written d' = hd_written d)
    \<and> (pending n d \<longrightarrow> pending (n - 1) d'
        \<and> (0 < n \<and> works_for (hd_report d) (re_retry env) \<longrightarrow> delivered d' \<and> hd_retries d' = 0))"
proof -
  from round_start [OF assms(1)] obtain d1 where d1: "same_work d d1"
    "dev_round proc rd env d = (case hd_queue d1 of
       e # q \<Rightarrow> bindS (modifyS (\<lambda>d. d\<lparr>hd_queue := q\<rparr>)) (\<lambda>_. event_reports proc (re_reports env) e)
     | [] \<Rightarrow> bindS (whenS (\<not> re_udc env) (modifyS (\<lambda>d. d\<lparr>hd_online := False\<rparr>))) (\<lambda>_.
         repeat_report (re_retry env))) d1" by blast
  let ?d2 = "if re_udc env then d1 else d1\<lparr>hd_online := False\<rparr>"
  have run: "dev_round proc rd env d = repeat_report (re_retry env) ?d2"
    using d1 assms(2) by (simp add: same_work_def bindS_def whenS_def modifyS_def retS_def)
  have same: "same_work d ?d2" using d1(1) by (simp add: same_work_def same_core_def)
  have pend: "pending k ?d2 = pending k d" for k
    using same by (simp add: pending_def delivered_def same_work_def same_core_def)
  show ?thesis
  proof (cases "hd_retries d = 0")
    case True
    then have "repeat_report (re_retry env) ?d2 = (Inr (), ?d2)"
      using same by (simp add: repeat_report_def sm_defs same_work_def)
    with run have "dev_round proc rd env d = (Inr (), ?d2)" by simp
    moreover have "pending n d \<longrightarrow> pending (n - 1) ?d2 \<and> (0 < n \<longrightarrow> delivered ?d2)"
      unfolding pend [symmetric] using same True by (auto simp: pending_def same_work_def)
    ultimately show ?thesis using same True assms(2) unfolding same_work_def
      by (intro exI [of _ ?d2]) metis
  next
    case False
    with assms(3) have "pending n ?d2" using pend by simp
    from repeat_report_eq [OF this, of "re_retry env"] run same False assms(2) works_for_ready show ?thesis
      by (fastforce simp: same_work_def same_core_def)
  qed
qed

text \<open>No round raises, whatever the daemon does meanwhile and however the device behaves.\<close>

lemma round_works:
  assumes "dev_inv d" "reads_ok env"
  shows "\<exists>d'. dev_round proc rd env d = (Inr (), d') \<and> dev_inv d'"
proof (cases "hd_queue d")
  case Nil
  have "hd_retries d = 0 \<or> pending (hd_retries d) d" using assms(1) by (auto simp: dev_inv_def pending_def)
  from idle_round [OF assms(2) Nil this] assms(1) show ?thesis
    by (auto simp: dev_inv_def pending_def same_core_def)
next
  case (Cons e q)
  with assms(1) have "inv (hd_proc d)" "event_ok e" by (auto simp: dev_inv_def)
  from proc_works [OF this] obtain s' rs where
    p: "proc e (hd_proc d, []) = (Inr (), s', rs)" "inv s'" "[] \<notin> set rs" by auto
  from event_round [OF assms(2) Cons p(1,3)] obtain d' where d': "dev_round proc rd env d = (Inr (), d')"
    "same_core d d'" "hd_queue d' = q" "hd_proc d' = s'" "hd_report d' = last (hd_report d # rs)"
    "if rs = [] then hd_retries d' = hd_retries d \<and> hd_written d' = hd_written d
       else pending (hd_write_retries d) d'" by blast
  have "dev_inv d'" using assms(1) Cons d'(2-) p(2)
    by (cases "rs = []") (auto simp: dev_inv_def pending_def same_core_def)
  with d'(1) show ?thesis by blast
qed

lemma step_inv: "dev_step proc rd event_ok reads_ok d d' \<Longrightarrow> dev_inv d \<Longrightarrow> dev_inv d'"
  by (erule dev_stepE)
    (use round_works clear_known in \<open>fastforce simp: dev_inv_def hid_queue_event_def send_clear_event_def
      send_reset_event_def clear_queue_def\<close>)+

lemma reachable_inv: "dev_reachable proc rd event_ok reads_ok d d' \<Longrightarrow> dev_inv d \<Longrightarrow> dev_inv d'"
  by (induction rule: dev_reachable.induct) (auto dest: step_inv)

lemma init_inv: "inv s \<Longrightarrow> 0 \<le> n \<Longrightarrow> dev_inv (hid_dev_init k n noop flags s)"
  by (simp add: dev_inv_def hid_dev_init_def)

text \<open>
  The queue is worked off event by event, and then the last report is repeated while it is
  not accepted.
\<close>

lemma events_phase:
  assumes "inv (hd_proc d)" "list_all event_ok es" "hd_queue d = es" "length envs = length es"
    and "list_all reads_ok envs"
  shows "\<exists>s' rs. (\<forall>out. forS es proc (hd_proc d, out) = (Inr (), s', out @ rs)) \<and> [] \<notin> set rs
    \<and> (let d' = dev_rounds proc rd envs d in same_core d d' \<and> hd_queue d' = [] \<and> hd_proc d' = s'
        \<and> hd_report d' = last (hd_report d # rs)
        \<and> (if rs = [] then hd_retries d' = hd_retries d \<and> hd_written d' = hd_written d
           else pending (hd_write_retries d) d'))"
  using assms
proof (induction es arbitrary: d envs)
  case Nil
  then show ?case
    by (intro exI [of _ "hd_proc d"] exI [of _ "[]"]) (simp add: dev_rounds_def retS_def same_core_def)
next
  case (Cons e es)
  then obtain env envs' where envs: "envs = env # envs'" "length envs' = length es"
    "reads_ok env" "list_all reads_ok envs'" by (cases envs) auto
  have "event_ok e" "list_all event_ok es" using Cons.prems by auto
  from proc_works [OF Cons.prems(1) this(1)] obtain s1 rs1 where
    p: "\<forall>out. proc e (hd_proc d, out) = (Inr (), s1, out @ rs1)" "inv s1" "[] \<notin> set rs1" by auto
  from p(1) have p0: "proc e (hd_proc d, []) = (Inr (), s1, rs1)" by simp
  from event_round [OF envs(3) Cons.prems(3) p0 p(3)] obtain d1 where d1:
    "dev_round proc rd env d = (Inr (), d1)" "same_core d d1" "hd_queue d1 = es" "hd_proc d1 = s1"
    "hd_report d1 = last (hd_report d # rs1)" "if rs1 = [] then hd_retries d1 = hd_retries d \<and> hd_written d1 = hd_written d
       else pending (hd_write_retries d) d1" by blast
  have "inv (hd_proc d1)" using d1(4) p(2) by simp
  from Cons.IH [OF this \<open>list_all event_ok es\<close> d1(3) envs(2,4)] obtain s' rs where ih:
    "\<forall>out. forS es proc (hd_proc d1, out) = (Inr (), s', out @ rs)" "[] \<notin> set rs"
    "let d' = dev_rounds proc rd envs' d1 in same_core d1 d' \<and> hd_queue d' = [] \<and> hd_proc d' = s'
        \<and> hd_report d' = last (hd_report d1 # rs)
        \<and> (if rs = [] then hd_retries d' = hd_retries d1 \<and> hd_written d' = hd_written d1
           else pending (hd_write_retries d1) d')" by blast
  have run: "dev_rounds proc rd envs d = dev_rounds proc rd envs' d1"
    using d1(1) by (simp add: dev_rounds_def envs(1))
  have "\<forall>out. forS (e # es) proc (hd_proc d, out) = (Inr (), s', out @ (rs1 @ rs))"
    using p(1) ih(1) d1(4) by (simp add: bindS_def)
  moreover have "[] \<notin> set (rs1 @ rs)" using p(3) ih(2) by simp
  moreover have "pending (hd_write_retries d) d1 \<Longrightarrow> rs = [] \<Longrightarrow>
      pending (hd_write_retries d) (dev_rounds proc rd envs' d1)"
    using ih(3) by (simp add: Let_def pending_def delivered_def same_core_def)
  ultimately show ?case unfolding run using d1(2,5,6) ih(3)
    by (intro exI [of _ s'] exI [of _ "rs1 @ rs"], cases "rs1 = []"; cases "rs = []")
      (simp_all add: Let_def same_core_def)
qed

lemma idle_phase:
  assumes "hd_queue d = []" "pending n d" "list_all reads_ok envs"
  shows "let d' = dev_rounds proc rd envs d in same_core d d' \<and> hd_queue d' = [] \<and> hd_proc d' = hd_proc d
    \<and> hd_report d' = hd_report d \<and> pending (n - int (length envs)) d'"
  using assms
proof (induction envs arbitrary: d n)
  case Nil
  then show ?case by (simp add: dev_rounds_def same_core_def)
next
  case (Cons env envs)
  from idle_round [of env d n] Cons.prems obtain d1 where d1: "dev_round proc rd env d = (Inr (), d1)"
    "same_core d d1" "hd_queue d1 = []" "hd_proc d1 = hd_proc d" "hd_report d1 = hd_report d"
    "pending (n - 1) d1" by auto
  have "list_all reads_ok envs" using Cons.prems by simp
  from Cons.IH [OF d1(3,6) this] show ?case
    using d1 by (simp add: dev_rounds_def Let_def same_core_def algebra_simps)
qed

text \<open>
  With fewer repetitions needed than \<open>write_retries\<close>, the last report reaches the computer,
  whatever happened to the earlier attempts.
\<close>

lemma last_report_delivered:
  assumes "inv s" "list_all event_ok es" "length envs = length es"
    and "list_all reads_ok (envs @ idles @ [env])" "int (length idles) < n"
    and "forS es proc (s, []) = (Inr (), s', rs)" "rs \<noteq> []" "works_for (last rs) (re_retry env)"
  shows "hd_written (dev_rounds proc rd (envs @ idles @ [env])
      ((hid_dev_init k n False flags s)\<lparr>hd_queue := es\<rparr>)) \<noteq> []"
    and "last (hd_written (dev_rounds proc rd (envs @ idles @ [env])
      ((hid_dev_init k n False flags s)\<lparr>hd_queue := es\<rparr>))) = last rs"
proof -
  let ?d = "(hid_dev_init k n False flags s)\<lparr>hd_queue := es\<rparr>"
  define d1 where "d1 = dev_rounds proc rd envs ?d"
  define d2 where "d2 = dev_rounds proc rd idles d1"
  have init: "hd_proc ?d = s" "hd_queue ?d = es" "hd_write_retries ?d = n" "\<not> hd_noop ?d"
    by (simp_all add: hid_dev_init_def)
  from events_phase [of ?d es envs] assms(1-4) init obtain s1 rs1 where ev:
    "\<forall>out. forS es proc (s, out) = (Inr (), s1, out @ rs1)"
    "let d' = d1 in same_core ?d d' \<and> hd_queue d' = [] \<and> hd_proc d' = s1
        \<and> hd_report d' = last (hd_report ?d # rs1)
        \<and> (if rs1 = [] then hd_retries d' = hd_retries ?d \<and> hd_written d' = hd_written ?d
           else pending (hd_write_retries ?d) d')" by (auto simp: d1_def)
  have "rs1 = rs" using ev(1) assms(6) by simp
  then have 1: "same_core ?d d1" "hd_queue d1 = []" "hd_report d1 = last rs" "pending n d1"
    using ev(2) assms(7) init(3) by (simp_all add: Let_def)
  have 2: "same_core d1 d2" "hd_queue d2 = []" "hd_report d2 = last rs" "pending (n - int (length idles)) d2"
    using idle_phase [OF 1(2,4), of idles] assms(4) 1(3) by (simp_all add: Let_def d2_def)
  from idle_round [of env d2 "n - int (length idles)"] 2 assms(4,5,8) obtain d3 where
    3: "dev_round proc rd env d2 = (Inr (), d3)" "same_core d2 d3" "hd_report d3 = last rs" "delivered d3"
    by auto
  have "dev_rounds proc rd (envs @ idles @ [env]) ?d = d3"
    using 3(1) by (simp add: dev_rounds_def d1_def d2_def)
  moreover have "\<not> hd_noop d3" using init(4) 1(1) 2(1) 3(2) by (simp add: same_core_def)
  ultimately show "hd_written (dev_rounds proc rd (envs @ idles @ [env]) ?d) \<noteq> []"
    and "last (hd_written (dev_rounds proc rd (envs @ idles @ [env]) ?d)) = last rs"
    using 3(3,4) by (auto simp: delivered_def)
qed

end

section \<open>The keyboard and the mouse are such processes\<close>

definition kb_read :: "bytes \<Rightarrow> kb_leds \<Rightarrow> kb_leds result" where
  "kb_read report _ = kb_read_report report"

definition ms_read :: "bytes \<Rightarrow> unit \<Rightarrow> unit result" where
  "ms_read _ f = Inr f"

definition one_byte :: "bytes \<Rightarrow> bool" where
  "one_byte report = (length report = 1)"

lemma shows_keys_nonempty: "shows_keys r H \<Longrightarrow> r \<noteq> []"
  by (auto simp: shows_keys_def)

lemma tells_process:
  assumes "tells g kb H"
  shows "\<exists>kb' rs. (\<forall>out. g (kb, out) = (Inr (), kb', out @ rs)) \<and> kb_wf kb' \<and> [] \<notin> set rs"
proof -
  from assms obtain kb' rs where "\<forall>out. g (kb, out) = (Inr (), kb', out @ rs)" "kb_wf kb'"
    "\<forall>r \<in> set rs. \<exists>H'. shows_keys r H'" unfolding tells_def by blast
  moreover from this(3) have "[] \<notin> set rs" using shows_keys_nonempty by blast
  ultimately show ?thesis by blast
qed

interpretation kb_dev: hid_process kb_process_event kb_read kb_wf kb_event_ok one_byte
proof unfold_locales
  fix s e assume "kb_wf s" "kb_event_ok e"
  from tells_process [OF kb_event_tells [OF this]]
  show "\<exists>s' rs. (\<forall>out. kb_process_event e (s, out) = (Inr (), s', out @ rs)) \<and> kb_wf s' \<and> [] \<notin> set rs" .
qed (simp_all add: one_byte_def kb_read_def kb_read_report_def py_get_def py_index_def)

lemma guides_process:
  assumes "guides g m m' D"
  shows "\<exists>m' rs. (\<forall>out. g (m, out) = (Inr (), m', out @ rs)) \<and> (ms_wf m' \<and> ms_absolute m' = ms_absolute m)
    \<and> [] \<notin> set rs"
  using assms unfolding guides_def same_kind_def by blast

interpretation abs_dev: hid_process ms_process_event ms_read "\<lambda>m. ms_wf m \<and> ms_absolute m"
  "ms_event_ok True" "\<lambda>_. True"
proof unfold_locales
  fix m e assume m: "ms_wf m \<and> ms_absolute m" and e: "ms_event_ok True e"
  have "guides (ms_process_event e) m (ms_after e m) (requested m e)"
    by (rule guides_event) (use m e in simp_all)
  from guides_process [OF this] m
  show "\<exists>m' rs. (\<forall>out. ms_process_event e (m, out) = (Inr (), m', out @ rs))
      \<and> (ms_wf m' \<and> ms_absolute m') \<and> [] \<notin> set rs" by simp
qed (simp_all add: ms_read_def)

interpretation rel_dev: hid_process ms_process_event ms_read "\<lambda>m. ms_wf m \<and> \<not> ms_absolute m"
  "ms_event_ok False" "\<lambda>_. True"
proof unfold_locales
  fix m e assume m: "ms_wf m \<and> \<not> ms_absolute m" and e: "ms_event_ok False e"
  have "guides (ms_process_event e) m (ms_after e m) (requested m e)"
    by (rule guides_event) (use m e in simp_all)
  from guides_process [OF this] m
  show "\<exists>m' rs. (\<forall>out. ms_process_event e (m, out) = (Inr (), m', out @ rs))
      \<and> (ms_wf m' \<and> \<not> ms_absolute m') \<and> [] \<notin> set rs" by simp
qed (simp_all add: ms_read_def)

section \<open>Properties of the device processes\<close>

text \<open>The computer sends its LED states as reports of one byte.\<close>

definition led_env :: "round_env \<Rightarrow> bool" where
  "led_env env = (\<forall>r. Some r \<in> set (re_reads env) \<longrightarrow> length r = 1)"

lemma led_env_iff: "kb_dev.reads_ok = led_env"
  by (auto simp: kb_dev.reads_ok_def led_env_def one_byte_def fun_eq_iff)

lemma dev_reachable_mono:
  assumes "dev_reachable proc rd ok1 env1 d d'" "\<And>e. ok1 e \<Longrightarrow> ok2 e" "\<And>env. env1 env \<Longrightarrow> env2 env"
  shows "dev_reachable proc rd ok2 env2 d d'"
  using assms(1)
proof (induction rule: dev_reachable.induct)
  case (Step d' d'')
  from Step.hyps(2) have "dev_step proc rd ok2 env2 d' d''"
    by (cases rule: dev_step.cases) (use assms(2,3) in \<open>auto intro: dev_step.intros\<close>)
  with Step.IH show ?case by (rule dev_reachable.Step)
qed (rule dev_reachable.Start)

lemma client_event_kb: "client_event ec e \<Longrightarrow> kb_event_ok e"
  by (auto simp: client_event_def dest: make_keyboard_event_ok)

text \<open>The keyboard process never stumbles: in every state it can reach while the daemon queues key
  events and clears the queue at any time, and however the device file behaves, a round of its
  loop raises no exception and its six slots hold different keys.\<close>

theorem keyboard_device_never_raises:
  assumes "dev_reachable kb_process_event kb_read (client_event ec) led_env
      (hid_dev_init 1 n noop kb_leds_init keyboard_init) d" "0 \<le> n" "led_env env"
  shows "fst (dev_round kb_process_event kb_read env d) = Inr () \<and> kb_wf (hd_proc d)
    \<and> 0 \<le> hd_retries d"
proof -
  have "dev_reachable kb_process_event kb_read kb_event_ok kb_dev.reads_ok
      (hid_dev_init 1 n noop kb_leds_init keyboard_init) d"
    by (rule dev_reachable_mono [OF assms(1)]) (simp_all add: client_event_kb led_env_iff)
  from kb_dev.reachable_inv [OF this kb_dev.init_inv] have "kb_dev.dev_inv d" using assms(2) by simp
  with kb_dev.round_works [of d env] assms(3) show ?thesis
    by (auto simp: led_env_iff kb_dev.dev_inv_def)
qed

definition dead_answer :: answer where
  "dead_answer = \<lparr>an_exists = False, an_exists_again = False, an_opens = False, an_writable = None,
     an_written = None\<rparr>"

definition good_answer :: "nat \<Rightarrow> answer" where
  "good_answer n = \<lparr>an_exists = True, an_exists_again = True, an_opens = True, an_writable = Some True,
     an_written = Some n\<rparr>"

definition sample_env :: "answer \<Rightarrow> round_env" where
  "sample_env a = \<lparr>re_read = dead_answer, re_reads = [], re_reports = (\<lambda>_. dead_answer), re_retry = a,
     re_udc = True\<rparr>"

lemma sample_env_ok: "led_env (sample_env a)"
  by (simp add: led_env_def sample_env_def)

theorem keyboard_device_never_raises_witness:
  "fst (dev_round kb_process_event kb_read (sample_env dead_answer)
      (hid_dev_init 1 150 False kb_leds_init keyboard_init)) = Inr ()"
  using keyboard_device_never_raises [OF dev_reachable.Start [of _ _ "client_event count_names"] _ sample_env_ok]
  by simp



end
