(* ===== verification/HidBase.thy ===== *)
theory HidBase
  imports HidEvents
begin

text \<open>
  What every HID back end shares (\<open>kvmd/plugins/hid/__init__.py\<close>): ignored keys, the ranges of an
  absolute mouse, merging of mouse deltas, and the jiggler that keeps the computer awake.  The
  abstract methods of the back end are a record of operations on its state; the seconds of the
  monotonic clock are an argument.
\<close>

section \<open>The state\<close>

record 'b hid_ops =
  op_key :: "int \<Rightarrow> bool \<Rightarrow> ('b, unit) sm"
  op_button :: "int \<Rightarrow> bool \<Rightarrow> ('b, unit) sm"
  op_move :: "int \<Rightarrow> int \<Rightarrow> ('b, unit) sm"
  op_relative :: "int \<Rightarrow> int \<Rightarrow> ('b, unit) sm"
  op_wheel :: "int \<Rightarrow> int \<Rightarrow> ('b, unit) sm"
  op_clear :: "('b, unit) sm"

record 'b base_hid =
  bh_ignore_keys :: "int list"
  bh_x_range :: "int \<times> int"
  bh_y_range :: "int \<times> int"
  bh_j_enabled :: bool
  bh_j_interval :: int
  bh_j_active :: bool
  bh_j_absolute :: bool
  bh_activity_ts :: int
  bh_last_x :: int
  bh_last_y :: int
  bh_dev :: 'b

definition base_hid_init ::
  "ecodes \<Rightarrow> string list \<Rightarrow> int \<times> int \<Rightarrow> int \<times> int \<Rightarrow> bool \<Rightarrow> bool \<Rightarrow> int \<Rightarrow> int \<Rightarrow> 'b \<Rightarrow> 'b base_hid result" where
  "base_hid_init ec ignore_keys x_range y_range j_enabled j_active j_interval now dev =
     bindR (mapR (dict_at (web_to_evdev ec)) ignore_keys) (\<lambda>ks.
       Inr \<lparr>bh_ignore_keys = ks, bh_x_range = x_range, bh_y_range = y_range, bh_j_enabled = j_enabled,
            bh_j_interval = j_interval, bh_j_active = j_active, bh_j_absolute = True,
            bh_activity_ts = now, bh_last_x = 0, bh_last_y = 0, bh_dev = dev\<rparr>)"

definition on_dev :: "('b, unit) sm \<Rightarrow> ('b base_hid, unit) sm" where
  "on_dev m h = (case m (bh_dev h) of (r, b) \<Rightarrow> (r, h\<lparr>bh_dev := b\<rparr>))"

definition bump_activity :: "int \<Rightarrow> ('b base_hid, unit) sm" where
  "bump_activity now = modifyS (\<lambda>h. h\<lparr>bh_activity_ts := now\<rparr>)"

definition get_inactivity_seconds :: "int \<Rightarrow> 'b base_hid \<Rightarrow> int" where
  "get_inactivity_seconds now h = now - bh_activity_ts h"

section \<open>Keys and mouse\<close>

definition send_key_event :: "ecodes \<Rightarrow> 'b hid_ops \<Rightarrow> int \<Rightarrow> int \<Rightarrow> bool \<Rightarrow> bool \<Rightarrow> ('b base_hid, unit) sm" where
  "send_key_event ec ops now key state finish =
     bindS (on_dev (op_key ops key state)) (\<lambda>_.
     bindS (whenS (state \<and> finish \<and> (\<not> is_evdev_modifier ec key \<and> key \<noteq> ec ''KEY_SYSRQ''))
        (on_dev (op_key ops key False))) (\<lambda>_. bump_activity now))"

text \<open>The keys come with the second at which each is sent, after its delay.\<close>

definition send_key_events ::
  "ecodes \<Rightarrow> 'b hid_ops \<Rightarrow> bool \<Rightarrow> (int \<times> bool \<times> int) list \<Rightarrow> ('b base_hid, unit) sm" where
  "send_key_events ec ops no_ignore_keys keys = forS keys (\<lambda>(key, state, now). getS (\<lambda>h.
     whenS (no_ignore_keys \<or> key \<notin> set (bh_ignore_keys h)) (send_key_event ec ops now key state False)))"

definition send_mouse_button_event :: "'b hid_ops \<Rightarrow> int \<Rightarrow> int \<Rightarrow> bool \<Rightarrow> ('b base_hid, unit) sm" where
  "send_mouse_button_event ops now button state =
     bindS (on_dev (op_button ops button state)) (\<lambda>_. bump_activity now)"

definition fit_range :: "int \<times> int \<Rightarrow> int \<Rightarrow> int" where
  "fit_range r v = (if r \<noteq> (range_min, range_max) then range_remap v (fst r) (snd r) else v)"

definition send_mouse_move_event :: "'b hid_ops \<Rightarrow> int \<Rightarrow> int \<Rightarrow> int \<Rightarrow> ('b base_hid, unit) sm" where
  "send_mouse_move_event ops now to_x to_y =
     bindS (modifyS (\<lambda>h. h\<lparr>bh_last_x := to_x, bh_last_y := to_y\<rparr>)) (\<lambda>_. getS (\<lambda>h.
     bindS (on_dev (op_move ops (fit_range (bh_x_range h) to_x) (fit_range (bh_y_range h) to_y))) (\<lambda>_.
     bump_activity now)))"

definition send_mouse_relative_event :: "'b hid_ops \<Rightarrow> int \<Rightarrow> int \<Rightarrow> int \<Rightarrow> ('b base_hid, unit) sm" where
  "send_mouse_relative_event ops now dx dy =
     bindS (on_dev (op_relative ops dx dy)) (\<lambda>_. bump_activity now)"

definition send_mouse_wheel_event :: "'b hid_ops \<Rightarrow> int \<Rightarrow> int \<Rightarrow> int \<Rightarrow> ('b base_hid, unit) sm" where
  "send_mouse_wheel_event ops now dx dy =
     bindS (on_dev (op_wheel ops dx dy)) (\<lambda>_. bump_activity now)"

definition clear_events :: "'b hid_ops \<Rightarrow> ('b base_hid, unit) sm" where
  "clear_events ops = on_dev (op_clear ops)"

text \<open>The calls of the handler that the merging loop makes, with the delta collected so far.\<close>

fun squash_loop :: "int \<times> int \<Rightarrow> (int \<times> int) list \<Rightarrow> (int \<times> int) list" where
  "squash_loop prev [] = (if fst prev \<noteq> 0 \<or> snd prev \<noteq> 0 then [prev] else [])"
| "squash_loop prev (cur # ds) =
     (if \<bar>fst prev + fst cur\<bar> > 127 \<or> \<bar>snd prev + snd cur\<bar> > 127
      then prev # squash_loop cur ds
      else squash_loop (fst prev + fst cur, snd prev + snd cur) ds)"

definition process_mouse_delta_event ::
  "(int \<times> int) list \<Rightarrow> bool \<Rightarrow> (int \<Rightarrow> int \<Rightarrow> ('b base_hid, unit) sm) \<Rightarrow> ('b base_hid, unit) sm" where
  "process_mouse_delta_event deltas squash handler =
     forS (if squash then squash_loop (0, 0) deltas else deltas) (\<lambda>(x, y). handler x y)"

definition send_mouse_relative_events :: "'b hid_ops \<Rightarrow> int \<Rightarrow> (int \<times> int) list \<Rightarrow> bool \<Rightarrow> ('b base_hid, unit) sm" where
  "send_mouse_relative_events ops now deltas squash =
     process_mouse_delta_event deltas squash (send_mouse_relative_event ops now)"

definition send_mouse_wheel_events :: "'b hid_ops \<Rightarrow> int \<Rightarrow> (int \<times> int) list \<Rightarrow> bool \<Rightarrow> ('b base_hid, unit) sm" where
  "send_mouse_wheel_events ops now deltas squash =
     process_mouse_delta_event deltas squash (send_mouse_wheel_event ops now)"

section \<open>The jiggler\<close>

definition set_jiggler_absolute :: "bool \<Rightarrow> 'b base_hid \<Rightarrow> 'b base_hid" where
  "set_jiggler_absolute absolute h = h\<lparr>bh_j_absolute := absolute\<rparr>"

definition set_jiggler_active :: "bool \<Rightarrow> 'b base_hid \<Rightarrow> 'b base_hid" where
  "set_jiggler_active active h = (if bh_j_enabled h then h\<lparr>bh_j_active := active\<rparr> else h)"

record jiggler_state =
  js_enabled :: bool
  js_active :: bool
  js_interval :: int

definition get_jiggler_state :: "'b base_hid \<Rightarrow> jiggler_state" where
  "get_jiggler_state h =
     \<lparr>js_enabled = bh_j_enabled h, js_active = bh_j_active h, js_interval = bh_j_interval h\<rparr>"

text \<open>The interval is a positive integer, so its quarter rounded down is a division.\<close>

definition roll_interval :: "(int \<Rightarrow> int \<Rightarrow> int) \<Rightarrow> 'b base_hid \<Rightarrow> int" where
  "roll_interval randint h =
     (let jitter = bh_j_interval h div 4;
          lo = max 1 (bh_j_interval h - jitter);
          hi = bh_j_interval h + jitter
      in randint lo hi)"

definition jiggle_absolute :: "int list" where
  "jiggle_absolute = concat (replicate 5 [100, -100]) @ [0]"

definition jiggle_relative :: "int list" where
  "jiggle_relative = concat (replicate 5 [10, -10])"

text \<open>
  One turn of \<open>systask\<close>: the result is the interval until the next one.  \<open>nows\<close> are the seconds at
  which the moves of a jiggle are made, a tenth of a second apart.
\<close>

definition jiggle :: "'b hid_ops \<Rightarrow> (nat \<Rightarrow> int) \<Rightarrow> ('b base_hid, unit) sm" where
  "jiggle ops nows = getS (\<lambda>h. if bh_j_absolute h
     then forS (enumerate 0 jiggle_absolute) (\<lambda>(i, move). send_mouse_move_event ops (nows i)
        (range_normalize (bh_last_x h + move)) (range_normalize (bh_last_y h + move)))
     else forS (enumerate 0 jiggle_relative) (\<lambda>(i, move). send_mouse_relative_event ops (nows i) move move))"

definition systask_turn ::
  "'b hid_ops \<Rightarrow> (int \<Rightarrow> int \<Rightarrow> int) \<Rightarrow> int \<Rightarrow> (nat \<Rightarrow> int) \<Rightarrow> int \<Rightarrow> ('b base_hid, int) sm" where
  "systask_turn ops randint now nows interval = getS (\<lambda>h.
     if bh_j_active h \<and> bh_activity_ts h + interval < now
     then bindS (jiggle ops nows) (\<lambda>_. getS (\<lambda>h. retS (roll_interval randint h)))
     else retS interval)"

section \<open>Merging loses nothing\<close>

definition delta_sum :: "(int \<times> int) list \<Rightarrow> int \<times> int" where
  "delta_sum ds = (sum_list (map fst ds), sum_list (map snd ds))"

definition delta_ok :: "int \<times> int \<Rightarrow> bool" where
  "delta_ok d = (in_delta (fst d) \<and> in_delta (snd d))"

lemma squash_loop_sum: "delta_sum (squash_loop prev ds) = delta_sum (prev # ds)"
  by (induction prev ds rule: squash_loop.induct) (auto simp: delta_sum_def prod_eq_iff)

lemma squash_loop_ok:
  "delta_ok prev \<Longrightarrow> list_all delta_ok ds \<Longrightarrow> list_all delta_ok (squash_loop prev ds)"
proof (induction prev ds rule: squash_loop.induct)
  case (2 prev cur ds)
  show ?case
  proof (cases "\<bar>fst prev + fst cur\<bar> > 127 \<or> \<bar>snd prev + snd cur\<bar> > 127")
    case True
    with 2 show ?thesis by simp
  next
    case False
    then have "delta_ok (fst prev + fst cur, snd prev + snd cur)"
      by (simp add: delta_ok_def in_delta_def mouse_ranges abs_le_iff not_less)
    with 2(2) [OF False this] 2(4) False show ?thesis by simp
  qed
qed simp

lemma squash_loop_length: "length (squash_loop prev ds) \<le> Suc (length ds)"
  by (induction prev ds rule: squash_loop.induct) auto

lemma squash_length:
  assumes "list_all delta_ok ds"
  shows "length (squash_loop (0, 0) ds) \<le> length ds"
proof (cases ds)
  case (Cons d ds')
  with assms have "squash_loop (0, 0) ds = squash_loop d ds'"
    by (auto simp: delta_ok_def in_delta_def mouse_ranges)
  then show ?thesis using squash_loop_length [of d ds'] Cons by simp
qed simp

text \<open>Merging mouse deltas loses no movement: the calls of the handler that the loop makes for a
  list of valid deltas add up to the same movement, every one of them is a valid delta again,
  and there are at most as many as before.\<close>

theorem squash_preserves_movement:
  assumes "list_all delta_ok ds"
  shows "delta_sum (squash_loop (0, 0) ds) = delta_sum ds
    \<and> list_all delta_ok (squash_loop (0, 0) ds) \<and> length (squash_loop (0, 0) ds) \<le> length ds"
proof -
  have "delta_sum (squash_loop (0, 0) ds) = delta_sum ds"
    by (simp add: squash_loop_sum) (simp add: delta_sum_def)
  moreover
  have "delta_ok (0, 0)" by (simp add: delta_ok_def in_delta_def mouse_ranges)
  ultimately show ?thesis using squash_loop_ok [OF \<open>delta_ok (0, 0)\<close> assms] squash_length [OF assms] by blast
qed

theorem squash_preserves_movement_witness:
  "delta_sum (squash_loop (0, 0) [(100, 0), (20, 5), (10, -5), (-127, 127)]) = (3, 127)
    \<and> list_all delta_ok [(120, 5), (-117, 122)]"
proof -
  have "list_all delta_ok [(100, 0), (20, 5), (10, -5), (-127, 127)]"
    by (simp add: delta_ok_def in_delta_def mouse_ranges)
  from squash_preserves_movement [OF this] show ?thesis by (simp add: delta_sum_def)
qed

section \<open>Ranges and the jiggler\<close>

lemma fit_range_in:
  assumes "in_range v" "fst r \<le> snd r"
  shows "fst r \<le> fit_range r v \<and> fit_range r v \<le> snd r"
  using assms remap_in_range [of "fst r" "snd r" v range_min range_max]
  by (auto simp: fit_range_def range_remap_def in_range_def)

lemma fit_range_mono:
  assumes "v \<le> w" "fst r \<le> snd r"
  shows "fit_range r v \<le> fit_range r w"
  using assms remap_mono [of range_min range_max "fst r" "snd r" v w]
  by (auto simp: fit_range_def range_remap_def mouse_ranges)

lemma roll_interval_bounds:
  assumes "\<And>lo hi. lo \<le> hi \<Longrightarrow> lo \<le> randint lo hi \<and> randint lo hi \<le> hi" "1 \<le> bh_j_interval h"
  shows "1 \<le> roll_interval randint h" "3 * bh_j_interval h \<le> 4 * roll_interval randint h"
    "4 * roll_interval randint h \<le> 5 * bh_j_interval h"
proof -
  let ?i = "bh_j_interval h"
  have le: "max 1 (?i - ?i div 4) \<le> ?i + ?i div 4" using assms(2) by auto
  have quarter: "4 * (?i div 4) \<le> ?i" by simp
  have roll: "roll_interval randint h = randint (max 1 (?i - ?i div 4)) (?i + ?i div 4)"
    by (simp add: roll_interval_def Let_def)
  have "max 1 (?i - ?i div 4) \<le> roll_interval randint h" "roll_interval randint h \<le> ?i + ?i div 4"
    unfolding roll using assms(1) [OF le] by simp_all
  with quarter show "1 \<le> roll_interval randint h" "3 * ?i \<le> 4 * roll_interval randint h"
    "4 * roll_interval randint h \<le> 5 * ?i" by linarith+
qed

text \<open>Sending moves one after the other leaves the last one as the last point.\<close>

lemma moves_last_point:
  assumes "forS ms (\<lambda>(i, mv). send_mouse_move_event ops (nows i) (f mv) (g mv)) h = (Inr (), h')" "ms \<noteq> []"
  shows "bh_last_x h' = f (snd (last ms)) \<and> bh_last_y h' = g (snd (last ms))"
  using assms
proof (induction ms arbitrary: h)
  case (Cons m ms)
  obtain i mv where m: "m = (i, mv)" by fastforce
  obtain r h1 where h1: "send_mouse_move_event ops (nows i) (f mv) (g mv) h = (r, h1)" by fastforce
  with Cons.prems(1) m have r: "r = Inr ()"
    by (cases r) (auto simp: bindS_def)
  have "bh_last_x h1 = f mv \<and> bh_last_y h1 = g mv"
    using h1 r by (auto simp: send_mouse_move_event_def bindS_def getS_def modifyS_def on_dev_def
        bump_activity_def split: prod.splits sum.splits)
  moreover have "forS ms (\<lambda>(i, mv). send_mouse_move_event ops (nows i) (f mv) (g mv)) h1 = (Inr (), h')"
    using Cons.prems(1) h1 r m by (simp add: bindS_def)
  ultimately show ?case using Cons.IH [of h1] m by (cases "ms = []") (auto simp: retS_def)
qed simp

lemma jiggle_moves: "map snd (enumerate 0 jiggle_absolute) = jiggle_absolute" "last (enumerate 0 jiggle_absolute) = (10, 0)"
    "jiggle_absolute \<noteq> []" "sum_list jiggle_relative = 0"
  by (simp_all add: jiggle_absolute_def jiggle_relative_def numeral_eq_Suc)

text \<open>The jiggler does not move the pointer away: a jiggle of an absolute mouse that raises nothing
  ends at the point where the pointer was, and the steps of a relative mouse add up to nothing.\<close>

theorem jiggle_returns_pointer:
  assumes "jiggle ops nows h = (Inr (), h')" "bh_j_absolute h" "in_range (bh_last_x h)" "in_range (bh_last_y h)"
  shows "bh_last_x h' = bh_last_x h \<and> bh_last_y h' = bh_last_y h \<and> sum_list jiggle_relative = 0"
proof -
  have run: "forS (enumerate 0 jiggle_absolute) (\<lambda>(i, mv). send_mouse_move_event ops (nows i)
      (range_normalize (bh_last_x h + mv)) (range_normalize (bh_last_y h + mv))) h = (Inr (), h')"
    using assms(1,2) by (simp add: jiggle_def getS_def)
  have "enumerate 0 jiggle_absolute \<noteq> []"
    using jiggle_moves(3) by (metis length_enumerate length_0_conv)
  from moves_last_point [OF run this] show ?thesis
    using assms(3,4) jiggle_moves by (simp add: in_range_def range_normalize_id)
qed

definition no_ops :: "unit hid_ops" where
  "no_ops = \<lparr>op_key = (\<lambda>_ _. retS ()), op_button = (\<lambda>_ _. retS ()), op_move = (\<lambda>_ _. retS ()),
     op_relative = (\<lambda>_ _. retS ()), op_wheel = (\<lambda>_ _. retS ()), op_clear = retS ()\<rparr>"

definition idle_hid :: "unit base_hid" where
  "idle_hid = \<lparr>bh_ignore_keys = [], bh_x_range = (range_min, range_max), bh_y_range = (range_min, range_max),
     bh_j_enabled = True, bh_j_interval = 60, bh_j_active = True, bh_j_absolute = True,
     bh_activity_ts = 0, bh_last_x = 32700, bh_last_y = - 7, bh_dev = ()\<rparr>"

theorem jiggle_returns_pointer_witness:
  "bh_last_x (snd (jiggle no_ops (\<lambda>_. 5) idle_hid)) = 32700 \<and> bh_last_y (snd (jiggle no_ops (\<lambda>_. 5) idle_hid)) = - 7"
proof -
  obtain h' where h': "jiggle no_ops (\<lambda>_. 5) idle_hid = (Inr (), h')"
    by (simp add: jiggle_def getS_def idle_hid_def jiggle_absolute_def numeral_eq_Suc send_mouse_move_event_def
        bindS_def modifyS_def on_dev_def no_ops_def retS_def bump_activity_def)
  from jiggle_returns_pointer [OF h'] show ?thesis
    using h' by (simp add: idle_hid_def in_range_def mouse_ranges)
qed

section \<open>The interface of a back end\<close>

text \<open>
  A back end keeps an invariant of its own in every abstract method; then every method of
  \<open>BaseHid\<close> and the jiggler keep it too, also when they raise, and none changes the kind of
  events the jiggler sends.
\<close>

locale hid_backend =
  fixes ops :: "'b hid_ops" and good :: "'b \<Rightarrow> bool"
  assumes key_keeps: "keeps good (op_key ops key state)"
    and button_keeps: "keeps good (op_button ops button state)"
    and move_keeps: "keeps good (op_move ops x y)"
    and relative_keeps: "keeps good (op_relative ops x y)"
    and wheel_keeps: "keeps good (op_wheel ops x y)"
    and clear_keeps: "keeps good (op_clear ops)"
begin

definition dev_good :: "bool \<Rightarrow> 'b base_hid \<Rightarrow> bool" where
  "dev_good a h = (good (bh_dev h) \<and> bh_j_absolute h = a)"

lemma keeps_on_dev [keeps_rules]: "keeps good m \<Longrightarrow> keeps (dev_good a) (on_dev m)"
  by (auto simp: keeps_def on_dev_def dev_good_def split: prod.splits)

lemma keeps_bump [keeps_rules]: "keeps (dev_good a) (bump_activity now)"
  unfolding bump_activity_def by (rule keeps_modifyS) (simp add: dev_good_def)

lemma keeps_last_point: "keeps (dev_good a) (modifyS (\<lambda>h. h\<lparr>bh_last_x := x, bh_last_y := y\<rparr>))"
  by (rule keeps_modifyS) (simp add: dev_good_def)

lemmas op_keeps [keeps_rules] = key_keeps button_keeps move_keeps relative_keeps wheel_keeps clear_keeps
  keeps_last_point

lemma keeps_send_key_event [keeps_rules]: "keeps (dev_good a) (send_key_event ec ops now key state finish)"
  unfolding send_key_event_def by (intro keeps_rules)

lemma keeps_send_key_events: "keeps (dev_good a) (send_key_events ec ops no_ignore keys)"
  unfolding send_key_events_def by (intro keeps_rules) (auto intro!: keeps_rules split: prod.splits)

lemma keeps_send_button: "keeps (dev_good a) (send_mouse_button_event ops now button state)"
  unfolding send_mouse_button_event_def by (intro keeps_rules)

lemma keeps_send_move [keeps_rules]: "keeps (dev_good a) (send_mouse_move_event ops now x y)"
  unfolding send_mouse_move_event_def by (intro keeps_rules)

lemma keeps_send_relative [keeps_rules]: "keeps (dev_good a) (send_mouse_relative_event ops now x y)"
  unfolding send_mouse_relative_event_def by (intro keeps_rules)

lemma keeps_send_wheel [keeps_rules]: "keeps (dev_good a) (send_mouse_wheel_event ops now x y)"
  unfolding send_mouse_wheel_event_def by (intro keeps_rules)

lemma keeps_send_deltas:
  "keeps (dev_good a) (send_mouse_relative_events ops now ds squash)"
  "keeps (dev_good a) (send_mouse_wheel_events ops now ds squash)"
  unfolding send_mouse_relative_events_def send_mouse_wheel_events_def process_mouse_delta_event_def
  by (intro keeps_rules, auto intro!: keeps_rules split: prod.splits)+

lemma keeps_clear: "keeps (dev_good a) (clear_events ops)"
  unfolding clear_events_def by (intro keeps_rules)

lemma keeps_jiggle: "keeps (dev_good a) (jiggle ops nows)"
  unfolding jiggle_def by (intro keeps_rules) (auto intro!: keeps_rules split: prod.splits)

end

end
