(* ===== verification/HidOtg.thy ===== *)
theory HidOtg
  imports HidDevice HidBase
begin

text \<open>
  The HID plugin of the USB gadget (\<open>kvmd/plugins/hid/otg/__init__.py\<close>): one keyboard and one or
  two mice, of which the current one gets the events.  It is a back end of \<open>BaseHid\<close>.
\<close>

section \<open>The plugin\<close>

text \<open>A mouse is the daemon's copy of the object and the device process.\<close>

record hid_mouse =
  hm_front :: mouse
  hm_dev :: "(mouse, unit) hid_dev"

record otg =
  ot_keyboard :: "(keyboard, kb_leds) hid_dev"
  ot_mouse :: hid_mouse
  ot_alt :: "hid_mouse option"
  ot_on_alt :: bool
  ot_mouses :: "(string, bool) dict"

record otg_config =
  oc_noop :: bool
  oc_kb_retries :: int
  oc_absolute :: bool
  oc_win98_fix :: bool
  oc_hwheel :: bool
  oc_retries :: int
  oc_alt_device :: bool
  oc_alt_hwheel :: bool
  oc_alt_retries :: int

definition hid_mouse_init :: "bool \<Rightarrow> bool \<Rightarrow> int \<Rightarrow> bool \<Rightarrow> hid_mouse" where
  "hid_mouse_init absolute hwheel retries noop =
     \<lparr>hm_front = mouse_init absolute hwheel,
      hm_dev = hid_dev_init 0 retries noop () (mouse_init absolute hwheel)\<rparr>"

text \<open>The table of modes says for each whether it is the alternative mouse.\<close>

definition otg_init :: "otg_config \<Rightarrow> otg" where
  "otg_init c =
     \<lparr>ot_keyboard = hid_dev_init 1 (oc_kb_retries c) (oc_noop c) kb_leds_init keyboard_init,
      ot_mouse = hid_mouse_init (oc_absolute c) (oc_hwheel c) (oc_retries c) (oc_noop c),
      ot_alt = (if oc_alt_device c
        then Some (hid_mouse_init (\<not> oc_absolute c) (oc_alt_hwheel c) (oc_alt_retries c) (oc_noop c))
        else None),
      ot_on_alt = False,
      ot_mouses = (if oc_alt_device c
        then [(''usb'', \<not> oc_absolute c), (''usb_rel'', oc_absolute c)]
          @ (if oc_win98_fix c then [(''usb_win98'', \<not> oc_absolute c)] else [])
        else [])\<rparr>"

definition current_mouse :: "otg \<Rightarrow> hid_mouse" where
  "current_mouse ot = (case ot_alt ot of Some a \<Rightarrow> if ot_on_alt ot then a else ot_mouse ot
     | None \<Rightarrow> ot_mouse ot)"

definition update_current :: "(hid_mouse \<Rightarrow> hid_mouse) \<Rightarrow> otg \<Rightarrow> otg" where
  "update_current f ot = (case ot_alt ot of
       Some a \<Rightarrow> if ot_on_alt ot then ot\<lparr>ot_alt := Some (f a)\<rparr> else ot\<lparr>ot_mouse := f (ot_mouse ot)\<rparr>
     | None \<Rightarrow> ot\<lparr>ot_mouse := f (ot_mouse ot)\<rparr>)"

definition on_queue :: "((mouse, unit) hid_dev \<Rightarrow> (mouse, unit) hid_dev) \<Rightarrow> hid_mouse \<Rightarrow> hid_mouse" where
  "on_queue f m = m\<lparr>hm_dev := f (hm_dev m)\<rparr>"

definition get_current_mouse_mode :: "otg \<Rightarrow> string" where
  "get_current_mouse_mode ot =
     (if ot_mouses ot = [] then []
      else let m = hm_front (current_mouse ot)
           in if ms_absolute m then (if ms_win98 m then ''usb_win98'' else ''usb'') else ''usb_rel'')"

section \<open>The operations of the back end\<close>

definition queue_all :: "hid_event list \<Rightarrow> ('s, 'f) hid_dev \<Rightarrow> ('s, 'f) hid_dev" where
  "queue_all es d = fold hid_queue_event es d"

definition to_current :: "(mouse \<Rightarrow> hid_event list result) \<Rightarrow> (otg, unit) sm" where
  "to_current send = getS (\<lambda>ot. bindS (liftS (send (hm_front (current_mouse ot)))) (\<lambda>es.
     modifyS (update_current (on_queue (queue_all es)))))"

definition otg_send_key :: "ecodes \<Rightarrow> int \<Rightarrow> bool \<Rightarrow> (otg, unit) sm" where
  "otg_send_key ec key state = bindS (liftS (make_keyboard_event ec key state)) (\<lambda>e.
     modifyS (\<lambda>ot. ot\<lparr>ot_keyboard := hid_queue_event e (ot_keyboard ot)\<rparr>))"

definition all_devices :: "((keyboard, kb_leds) hid_dev \<Rightarrow> (keyboard, kb_leds) hid_dev)
    \<Rightarrow> ((mouse, unit) hid_dev \<Rightarrow> (mouse, unit) hid_dev) \<Rightarrow> otg \<Rightarrow> otg" where
  "all_devices f g ot = ot\<lparr>ot_keyboard := f (ot_keyboard ot), ot_mouse := on_queue g (ot_mouse ot),
     ot_alt := map_option (on_queue g) (ot_alt ot)\<rparr>"

definition otg_clear_events :: "(otg, unit) sm" where
  "otg_clear_events = modifyS (all_devices send_clear_event send_clear_event)"

definition otg_reset :: "(otg, unit) sm" where
  "otg_reset = modifyS (all_devices send_reset_event send_reset_event)"

definition otg_ops :: "ecodes \<Rightarrow> otg hid_ops" where
  "otg_ops ec =
     \<lparr>op_key = otg_send_key ec,
      op_button = (\<lambda>button state. to_current (send_button_event ec button state)),
      op_move = (\<lambda>x y. to_current (send_move_event x y)),
      op_relative = (\<lambda>dx dy. to_current (send_relative_event dx dy)),
      op_wheel = (\<lambda>dx dy. to_current (send_wheel_event dx dy)),
      op_clear = otg_clear_events\<rparr>"

text \<open>Switching the mouse: the old one is cleared, the new one gets the Windows 98 flag.\<close>

definition switch_mouse :: "string \<Rightarrow> bool \<Rightarrow> otg \<Rightarrow> otg" where
  "switch_mouse output alt ot =
     update_current (\<lambda>m. m\<lparr>hm_front := set_win98_fix (output = ''usb_win98'') (hm_front m)\<rparr>)
       ((update_current (on_queue send_clear_event) ot)\<lparr>ot_on_alt := alt\<rparr>)"

definition set_params :: "string option \<Rightarrow> bool option \<Rightarrow> (otg base_hid, unit) sm" where
  "set_params mouse_output jiggler = modifyS (\<lambda>h.
     let h1 = (case mouse_output of None \<Rightarrow> h
           | Some output \<Rightarrow> (case map_of (ot_mouses (bh_dev h)) output of None \<Rightarrow> h
              | Some alt \<Rightarrow> if output \<noteq> get_current_mouse_mode (bh_dev h)
                  then (let ot = switch_mouse output alt (bh_dev h)
                        in set_jiggler_absolute (ms_absolute (hm_front (current_mouse ot))) (h\<lparr>bh_dev := ot\<rparr>))
                  else h))
     in case jiggler of None \<Rightarrow> h1 | Some active \<Rightarrow> set_jiggler_active active h1)"

record mouse_state =
  mt_available :: "string list"
  mt_active :: string
  mt_online :: bool
  mt_absolute :: bool

record hid_state =
  ht_kb_online :: bool
  ht_kb_leds :: kb_leds
  ht_mouse :: mouse_state
  ht_jiggler :: jiggler_state

definition otg_get_state :: "otg base_hid \<Rightarrow> hid_state" where
  "otg_get_state h = (let ot = bh_dev h; kb = ot_keyboard ot; m = current_mouse ot
     in \<lparr>ht_kb_online = hd_online kb, ht_kb_leds = hd_flags kb,
         ht_mouse = \<lparr>mt_available = map fst (ot_mouses ot), mt_active = get_current_mouse_mode ot,
           mt_online = hd_online (hm_dev m), mt_absolute = ms_absolute (hm_front m)\<rparr>,
         ht_jiggler = get_jiggler_state h\<rparr>)"

definition otg_plugin_init ::
  "ecodes \<Rightarrow> otg_config \<Rightarrow> string list \<Rightarrow> int \<times> int \<Rightarrow> int \<times> int \<Rightarrow> bool \<Rightarrow> bool \<Rightarrow> int \<Rightarrow> int \<Rightarrow> otg base_hid result" where
  "otg_plugin_init ec c ignore_keys x_range y_range j_enabled j_active j_interval now =
     bindR (base_hid_init ec ignore_keys x_range y_range j_enabled j_active j_interval now (otg_init c)) (\<lambda>h.
       Inr (set_jiggler_absolute (ms_absolute (hm_front (current_mouse (bh_dev h)))) h))"

section \<open>The whole plugin at work\<close>

datatype hid_call =
    SendKey int bool bool
  | SendKeys "(int \<times> bool \<times> int) list" bool
  | SendButton int bool
  | SendMove int int
  | SendRelative "(int \<times> int) list" bool
  | SendWheel "(int \<times> int) list" bool
  | ClearEvents
  | ResetHid
  | SetParams "string option" "bool option"
  | Jiggle "nat \<Rightarrow> int"

fun exec_call :: "ecodes \<Rightarrow> int \<Rightarrow> hid_call \<Rightarrow> (otg base_hid, unit) sm" where
  "exec_call ec now (SendKey key state finish) = send_key_event ec (otg_ops ec) now key state finish"
| "exec_call ec now (SendKeys keys no_ignore) = send_key_events ec (otg_ops ec) no_ignore keys"
| "exec_call ec now (SendButton button state) = send_mouse_button_event (otg_ops ec) now button state"
| "exec_call ec now (SendMove x y) = send_mouse_move_event (otg_ops ec) now x y"
| "exec_call ec now (SendRelative ds squash) = send_mouse_relative_events (otg_ops ec) now ds squash"
| "exec_call ec now (SendWheel ds squash) = send_mouse_wheel_events (otg_ops ec) now ds squash"
| "exec_call ec now ClearEvents = clear_events (otg_ops ec)"
| "exec_call ec now ResetHid = on_dev otg_reset"
| "exec_call ec now (SetParams output jiggler) = set_params output jiggler"
| "exec_call ec now (Jiggle nows) = jiggle (otg_ops ec) nows"

inductive otg_step :: "ecodes \<Rightarrow> otg base_hid \<Rightarrow> otg base_hid \<Rightarrow> bool" for ec where
  Call: "otg_step ec h (snd (exec_call ec now call h))"
| KeyboardRound: "led_env env \<Longrightarrow> otg_step ec h (h\<lparr>bh_dev := (bh_dev h)\<lparr>ot_keyboard :=
    snd (dev_round kb_process_event kb_read env (ot_keyboard (bh_dev h)))\<rparr>\<rparr>)"
| MouseRound: "otg_step ec h (h\<lparr>bh_dev := (bh_dev h)\<lparr>ot_mouse :=
    on_queue (\<lambda>d. snd (dev_round ms_process_event ms_read env d)) (ot_mouse (bh_dev h))\<rparr>\<rparr>)"
| AltRound: "otg_step ec h (h\<lparr>bh_dev := (bh_dev h)\<lparr>ot_alt :=
    map_option (on_queue (\<lambda>d. snd (dev_round ms_process_event ms_read env d))) (ot_alt (bh_dev h))\<rparr>\<rparr>)"

inductive_cases otg_stepE: "otg_step ec h h'"

section \<open>Every event fits its device\<close>

context hid_process
begin

lemma queue_all_inv: "dev_inv d \<Longrightarrow> list_all event_ok es \<Longrightarrow> dev_inv (queue_all es d)"
  by (induction es arbitrary: d) (auto simp: queue_all_def hid_queue_event_def dev_inv_def)

lemma clear_inv: "dev_inv d \<Longrightarrow> dev_inv (send_clear_event d)" "dev_inv d \<Longrightarrow> dev_inv (send_reset_event d)"
  using clear_known by (auto simp: dev_inv_def send_clear_event_def send_reset_event_def
      clear_queue_def hid_queue_event_def)

lemma round_keeps_inv: "dev_inv d \<Longrightarrow> reads_ok env \<Longrightarrow> dev_inv (snd (dev_round proc rd env d))"
  using round_works by fastforce

end

definition mouse_ready :: "hid_mouse \<Rightarrow> bool" where
  "mouse_ready m = (if ms_absolute (hm_front m) then abs_dev.dev_inv (hm_dev m) else rel_dev.dev_inv (hm_dev m))"

definition otg_ready :: "otg \<Rightarrow> bool" where
  "otg_ready ot = (kb_dev.dev_inv (ot_keyboard ot) \<and> mouse_ready (ot_mouse ot)
     \<and> (case ot_alt ot of None \<Rightarrow> True | Some a \<Rightarrow> mouse_ready a))"

lemma mouse_reads: "abs_dev.reads_ok env" "rel_dev.reads_ok env"
  by (simp_all add: abs_dev.reads_ok_def rel_dev.reads_ok_def)

lemma mouse_ready_keeps:
  assumes "mouse_ready m"
  shows "list_all (ms_event_ok (ms_absolute (hm_front m))) es \<Longrightarrow> mouse_ready (on_queue (queue_all es) m)"
    "mouse_ready (on_queue send_clear_event m)" "mouse_ready (on_queue send_reset_event m)"
    "mouse_ready (on_queue (\<lambda>d. snd (dev_round ms_process_event ms_read env d)) m)"
    "mouse_ready (m\<lparr>hm_front := set_win98_fix b (hm_front m)\<rparr>)"
  using assms abs_dev.queue_all_inv [of "hm_dev m" es] rel_dev.queue_all_inv [of "hm_dev m" es]
    abs_dev.clear_inv [of "hm_dev m"] rel_dev.clear_inv [of "hm_dev m"]
    abs_dev.round_keeps_inv [OF _ mouse_reads(1), of "hm_dev m" env]
    rel_dev.round_keeps_inv [OF _ mouse_reads(2), of "hm_dev m" env]
  by (auto simp: mouse_ready_def on_queue_def set_win98_fix_def)

lemma mouse_round_works:
  assumes "mouse_ready m"
  shows "fst (dev_round ms_process_event ms_read env (hm_dev m)) = Inr ()"
  using assms abs_dev.round_works [OF _ mouse_reads(1), of "hm_dev m" env]
    rel_dev.round_works [OF _ mouse_reads(2), of "hm_dev m" env]
  by (auto simp: mouse_ready_def split: if_splits)

lemma current_ready: "otg_ready ot \<Longrightarrow> mouse_ready (current_mouse ot)"
  by (auto simp: otg_ready_def current_mouse_def split: option.splits)

lemma update_current_ready:
  assumes "otg_ready ot" "\<And>m. m = current_mouse ot \<Longrightarrow> mouse_ready m \<Longrightarrow> mouse_ready (f m)"
  shows "otg_ready (update_current f ot)"
  using assms current_ready [OF assms(1)]
  by (auto simp: otg_ready_def update_current_def current_mouse_def split: option.splits)

lemma on_alt_ready: "otg_ready (ot\<lparr>ot_on_alt := b\<rparr>) = otg_ready ot"
  by (simp add: otg_ready_def)

lemma keeps_to_current:
  assumes "\<And>m es. send m = Inr es \<Longrightarrow> list_all (ms_event_ok (ms_absolute m)) es"
  shows "keeps otg_ready (to_current send)"
  unfolding to_current_def
proof (rule keeps_getS)
  fix ot assume "otg_ready ot"
  then show "otg_ready (snd (bindS (liftS (send (hm_front (current_mouse ot))))
      (\<lambda>es. modifyS (update_current (on_queue (queue_all es)))) ot))"
    using assms [of "hm_front (current_mouse ot)"] mouse_ready_keeps(1) update_current_ready
    by (cases "send (hm_front (current_mouse ot))") (auto simp: bindS_def liftS_def modifyS_def)
qed

lemma keeps_send_key: "keeps otg_ready (otg_send_key ec key state)"
  unfolding otg_send_key_def
  by (intro keeps_bind_liftS keeps_modifyS)
    (auto simp: otg_ready_def kb_dev.dev_inv_def hid_queue_event_def pending_def delivered_def
      dest: make_keyboard_event_ok split: option.splits)

lemma all_devices_ready:
  "otg_ready ot \<Longrightarrow> otg_ready (all_devices send_clear_event send_clear_event ot)"
  "otg_ready ot \<Longrightarrow> otg_ready (all_devices send_reset_event send_reset_event ot)"
  by (auto simp: otg_ready_def all_devices_def kb_dev.clear_inv mouse_ready_keeps split: option.splits)

interpretation otg_backend: hid_backend "otg_ops ec" otg_ready for ec
proof
  fix key state button x y
  show "keeps otg_ready (op_key (otg_ops ec) key state)" by (simp add: otg_ops_def keeps_send_key)
  show "keeps otg_ready (op_button (otg_ops ec) button state)"
    by (simp add: otg_ops_def) (rule keeps_to_current, erule sent_events_ok(1))
  show "keeps otg_ready (op_move (otg_ops ec) x y)"
    by (simp add: otg_ops_def) (rule keeps_to_current, erule sent_events_ok(2))
  show "keeps otg_ready (op_relative (otg_ops ec) x y)"
    by (simp add: otg_ops_def) (rule keeps_to_current, erule sent_events_ok(3))
  show "keeps otg_ready (op_wheel (otg_ops ec) x y)"
    by (simp add: otg_ops_def) (rule keeps_to_current, erule sent_events_ok(4))
  show "keeps otg_ready (op_clear (otg_ops ec))"
    by (simp add: otg_ops_def otg_clear_events_def keeps_modifyS all_devices_ready)
qed

lemma switch_mouse_ready: "otg_ready ot \<Longrightarrow> otg_ready (switch_mouse output alt ot)"
  unfolding switch_mouse_def
  by (intro update_current_ready) (simp_all add: on_alt_ready update_current_ready mouse_ready_keeps)

lemma exec_call_ready:
  assumes "otg_ready (bh_dev h)"
  shows "otg_ready (bh_dev (snd (exec_call ec now call h)))"
proof -
  note ks = otg_backend.keeps_send_key_event otg_backend.keeps_send_key_events otg_backend.keeps_send_button
    otg_backend.keeps_send_move otg_backend.keeps_send_deltas otg_backend.keeps_clear otg_backend.keeps_jiggle
  have base: "otg_ready (bh_dev (snd (m h)))" if "keeps (otg_backend.dev_good (bh_j_absolute h)) m" for m
    using keepsD [OF that] assms by (simp add: otg_backend.dev_good_def)
  show ?thesis
  proof (cases call)
    case ResetHid
    then show ?thesis using assms by (simp add: on_dev_def otg_reset_def modifyS_def all_devices_ready)
  next
    case (SetParams out jiggler)
    then show ?thesis using assms switch_mouse_ready
      by (auto simp: set_params_def modifyS_def Let_def set_jiggler_active_def set_jiggler_absolute_def
          split: option.splits)
  qed (simp_all add: base ks)
qed

lemma otg_step_ready:
  assumes "otg_step ec h h'" "otg_ready (bh_dev h)"
  shows "otg_ready (bh_dev h')"
  using assms(1)
proof (cases rule: otg_step.cases)
  case (Call now call)
  then show ?thesis using exec_call_ready [OF assms(2)] by simp
next
  case (KeyboardRound env)
  then show ?thesis using assms(2) kb_dev.round_keeps_inv [of "ot_keyboard (bh_dev h)" env]
    by (simp add: otg_ready_def led_env_iff)
qed (use assms(2) in \<open>auto simp: otg_ready_def mouse_ready_keeps split: option.splits\<close>)

lemma otg_init_ready:
  assumes "0 \<le> oc_kb_retries c" "0 \<le> oc_retries c" "0 \<le> oc_alt_retries c"
  shows "otg_ready (otg_init c)"
proof -
  have "mouse_ready (hid_mouse_init a w n noop)" if "0 \<le> n" for a w n noop
    using that by (simp add: mouse_ready_def hid_mouse_init_def abs_dev.init_inv rel_dev.init_inv)
  then show ?thesis using assms kb_dev.init_inv [of keyboard_init "oc_kb_retries c"]
    by (simp add: otg_ready_def otg_init_def)
qed

lemma plugin_init_dev: "otg_plugin_init ec c ig xr yr je ja ji now = Inr h \<Longrightarrow>
   bh_dev h = otg_init c \<and> bh_j_absolute h = ms_absolute (hm_front (current_mouse (otg_init c)))"
  by (auto simp: otg_plugin_init_def base_hid_init_def bindR_Inr_iff set_jiggler_absolute_def)


definition sample_config :: otg_config where
  "sample_config = \<lparr>oc_noop = False, oc_kb_retries = 150, oc_absolute = True, oc_win98_fix = True,
     oc_hwheel = True, oc_retries = 150, oc_alt_device = True, oc_alt_hwheel = True, oc_alt_retries = 150\<rparr>"

definition sample_plugin :: "otg base_hid" where
  "sample_plugin = fromR undefined (otg_plugin_init count_names sample_config [] (range_min, range_max)
     (range_min, range_max) True False 60 0)"

lemma sample_plugin_init: "otg_plugin_init count_names sample_config [] (range_min, range_max)
     (range_min, range_max) True False 60 0 = Inr sample_plugin"
  by (simp add: sample_plugin_def otg_plugin_init_def base_hid_init_def)


section \<open>Switching the mouse\<close>

definition otg_shape :: "otg_config \<Rightarrow> bool \<Rightarrow> otg \<Rightarrow> bool" where
  "otg_shape c b ot = (ot_mouses ot = ot_mouses (otg_init c) \<and> ot_on_alt ot = b
     \<and> ms_absolute (hm_front (ot_mouse ot)) = oc_absolute c
     \<and> (case ot_alt ot of None \<Rightarrow> \<not> oc_alt_device c \<and> \<not> b
        | Some a \<Rightarrow> oc_alt_device c \<and> ms_absolute (hm_front a) = (\<not> oc_absolute c)))"

lemma update_current_shape:
  "otg_shape c b ot \<Longrightarrow> (\<And>m. ms_absolute (hm_front (f m)) = ms_absolute (hm_front m))
     \<Longrightarrow> otg_shape c b (update_current f ot)"
  by (auto simp: otg_shape_def update_current_def split: option.splits)

lemma current_kind: "otg_shape c b ot \<Longrightarrow> ms_absolute (hm_front (current_mouse ot)) = (oc_absolute c \<noteq> b)"
  by (auto simp: otg_shape_def current_mouse_def split: option.splits)

lemma keeps_shape_to_current: "keeps (otg_shape c b) (to_current send)"
  unfolding to_current_def
  by (intro keeps_getS_all keeps_bind_liftS keeps_modifyS update_current_shape) (simp_all add: on_queue_def)

lemma all_devices_shape: "otg_shape c b (all_devices f g ot) = otg_shape c b ot"
  by (auto simp: otg_shape_def all_devices_def on_queue_def split: option.splits)

interpretation otg_kinds: hid_backend "otg_ops ec" "otg_shape c b" for ec c b
proof
  fix key state button x y
  show "keeps (otg_shape c b) (op_key (otg_ops ec) key state)"
    unfolding otg_ops_def otg_send_key_def hid_ops.simps
    by (intro keeps_bind_liftS keeps_modifyS) (simp add: otg_shape_def)
  show "keeps (otg_shape c b) (op_clear (otg_ops ec))"
    by (simp add: otg_ops_def otg_clear_events_def keeps_modifyS all_devices_shape)
qed (simp_all add: otg_ops_def keeps_shape_to_current)

text \<open>The jiggler sends the kind of events the current mouse takes.\<close>

definition modes_ok :: "otg_config \<Rightarrow> otg base_hid \<Rightarrow> bool" where
  "modes_ok c h = (\<exists>b. otg_shape c b (bh_dev h) \<and> bh_j_absolute h = (oc_absolute c \<noteq> b))"

lemma switch_mouse_shape:
  assumes "otg_shape c b ot" "map_of (ot_mouses ot) out = Some alt"
  shows "otg_shape c alt (switch_mouse out alt ot)"
proof -
  have "oc_alt_device c" using assms by (auto simp: otg_shape_def otg_init_def split: if_splits)
  then have "otg_shape c alt ((update_current (on_queue send_clear_event) ot)\<lparr>ot_on_alt := alt\<rparr>)"
    using update_current_shape [OF assms(1), of "on_queue send_clear_event"]
    by (auto simp: otg_shape_def on_queue_def split: option.splits)
  then show ?thesis unfolding switch_mouse_def
    by (rule update_current_shape) (simp add: set_win98_fix_def)
qed

lemma set_params_modes: "modes_ok c h \<Longrightarrow> modes_ok c (snd (set_params out jiggler h))"
proof -
  assume "modes_ok c h"
  then obtain b where h: "otg_shape c b (bh_dev h)" "bh_j_absolute h = (oc_absolute c \<noteq> b)"
    by (auto simp: modes_ok_def)
  have jig: "modes_ok c (set_jiggler_active a h1)" if "modes_ok c h1" for a h1
    using that by (simp add: modes_ok_def set_jiggler_active_def)
  have "modes_ok c (set_jiggler_absolute (ms_absolute (hm_front (current_mouse ot))) (h\<lparr>bh_dev := ot\<rparr>))"
    if "map_of (ot_mouses (bh_dev h)) m = Some alt" "ot = switch_mouse m alt (bh_dev h)" for m alt ot
    using switch_mouse_shape [OF h(1) that(1)] that(2) current_kind
    by (auto simp: modes_ok_def set_jiggler_absolute_def)
  then show ?thesis using \<open>modes_ok c h\<close> jig
    by (auto simp: set_params_def modifyS_def Let_def split: option.splits)
qed

lemma exec_call_modes: "modes_ok c h \<Longrightarrow> modes_ok c (snd (exec_call ec now call h))"
proof -
  assume mo: "modes_ok c h"
  then obtain b where h: "otg_shape c b (bh_dev h)" "bh_j_absolute h = (oc_absolute c \<noteq> b)"
    by (auto simp: modes_ok_def)
  note ks = otg_kinds.keeps_send_key_event otg_kinds.keeps_send_key_events otg_kinds.keeps_send_button
    otg_kinds.keeps_send_move otg_kinds.keeps_send_deltas otg_kinds.keeps_clear otg_kinds.keeps_jiggle
  have base: "modes_ok c (snd (m h))" if "keeps (otg_kinds.dev_good c b (bh_j_absolute h)) m" for m
    using keepsD [OF that] h by (auto simp: otg_kinds.dev_good_def modes_ok_def)
  show ?thesis
  proof (cases call)
    case ResetHid
    then show ?thesis using mo by (simp add: modes_ok_def on_dev_def otg_reset_def modifyS_def all_devices_shape)
  next
    case (SetParams out jiggler)
    then show ?thesis using set_params_modes [OF mo] by simp
  qed (simp_all add: base ks)
qed

lemma otg_step_modes:
  assumes "otg_step ec h h'" "modes_ok c h"
  shows "modes_ok c h'"
  using assms(1)
proof (cases rule: otg_step.cases)
  case (Call now call)
  then show ?thesis using exec_call_modes [OF assms(2)] by simp
qed (use assms(2) in \<open>auto simp: modes_ok_def otg_shape_def on_queue_def split: option.splits\<close>)

lemma plugin_init_modes:
  assumes "otg_plugin_init ec c ig xr yr je ja ji now = Inr h"
  shows "modes_ok c h"
proof -
  have "otg_shape c False (otg_init c)"
    by (simp add: otg_shape_def otg_init_def hid_mouse_init_def mouse_init_def)
  with plugin_init_dev [OF assms] current_kind [OF this] show ?thesis
    by (auto simp: modes_ok_def)
qed

lemma current_after_update: "current_mouse (update_current f ot) = f (current_mouse ot)"
  by (auto simp: current_mouse_def update_current_def split: option.splits)

lemma mode_of_kind: "otg_shape c b ot \<Longrightarrow> ot_mouses ot \<noteq> [] \<Longrightarrow> get_current_mouse_mode ot =
    (if oc_absolute c \<noteq> b then if ms_win98 (hm_front (current_mouse ot)) then ''usb_win98'' else ''usb'' else ''usb_rel'')"
  by (simp add: get_current_mouse_mode_def current_kind)

lemma mode_after_switch:
  assumes "otg_shape c b ot" "map_of (ot_mouses ot) out = Some alt"
  shows "get_current_mouse_mode (switch_mouse out alt ot) = out"
proof -
  have shape: "otg_shape c alt (switch_mouse out alt ot)" by (rule switch_mouse_shape [OF assms])
  have fix': "ms_win98 (hm_front (current_mouse (switch_mouse out alt ot))) = (out = ''usb_win98'')"
    by (simp add: switch_mouse_def current_after_update set_win98_fix_def)
  have "ot_mouses (switch_mouse out alt ot) = ot_mouses ot" "ot_mouses ot = ot_mouses (otg_init c)"
    using shape assms(1) by (simp_all add: otg_shape_def)
  then show ?thesis using mode_of_kind [OF shape] fix' assms(2)
    by (auto simp: otg_init_def split: if_splits)
qed

text \<open>The mouse mode is the one asked for: in every state the plugin can reach, selecting an
  offered mode makes it the active one and any other name changes nothing; and at all times the
  jiggler sends the kind of movement the current mouse takes, so none of its moves is dropped.\<close>

theorem mouse_mode_selected:
  assumes "otg_plugin_init ec c ignore_keys x_range y_range j_enabled j_active j_interval now = Inr h0"
    and "rtranclp (otg_step ec) h0 h"
  shows "bh_j_absolute h = ms_absolute (hm_front (current_mouse (bh_dev h)))
    \<and> get_current_mouse_mode (bh_dev (snd (set_params (Some out) jiggler h)))
       = (if out \<in> fst ` set (ot_mouses (bh_dev h)) then out else get_current_mouse_mode (bh_dev h))"
proof -
  have "modes_ok c h" using assms(2) plugin_init_modes [OF assms(1)]
    by (induction rule: rtranclp_induct) (auto dest: otg_step_modes)
  then obtain b where h: "otg_shape c b (bh_dev h)" "bh_j_absolute h = (oc_absolute c \<noteq> b)"
    by (auto simp: modes_ok_def)
  have "get_current_mouse_mode (bh_dev (snd (set_params (Some out) jiggler h)))
       = (if out \<in> fst ` set (ot_mouses (bh_dev h)) then out else get_current_mouse_mode (bh_dev h))"
  proof (cases "map_of (ot_mouses (bh_dev h)) out")
    case None
    then have "out \<notin> fst ` set (ot_mouses (bh_dev h))" by (simp add: map_of_eq_None_iff)
    with None show ?thesis
      by (cases jiggler) (simp_all add: set_params_def modifyS_def set_jiggler_active_def)
  next
    case (Some alt)
    then have "out \<in> fst ` set (ot_mouses (bh_dev h))" by (meson domI domIff map_of_eq_None_iff)
    with Some mode_after_switch [OF h(1) Some] show ?thesis
      by (auto simp: set_params_def modifyS_def Let_def set_jiggler_active_def set_jiggler_absolute_def
          split: option.splits)
  qed
  then show ?thesis using h current_kind [OF h(1)] by simp
qed

theorem mouse_mode_selected_witness:
  "get_current_mouse_mode (bh_dev (snd (set_params (Some ''usb_win98'') None sample_plugin))) = ''usb_win98''"
proof -
  have "''usb_win98'' \<in> fst ` set (ot_mouses (bh_dev sample_plugin))"
    using plugin_init_dev [OF sample_plugin_init] by (simp add: otg_init_def sample_config_def)
  then show ?thesis
    using mouse_mode_selected [OF sample_plugin_init rtranclp.rtrancl_refl, of "''usb_win98''" None] by simp
qed

end
