(* ===== verification/KeyText.thy ===== *)
theory KeyText
  imports KeyTables PyText
begin

text \<open>
  Typing text: keyboard layouts (\<open>kvmd/keyboard/keysym.py\<close>) and the translation of text to key
  events (\<open>kvmd/keyboard/printer.py\<close>).  Parameters: the keysym names of the Xlib package, the
  keysym of a character from libxkbcommon, and \<open>str.isprintable\<close>, which is a Unicode table.
\<close>

section \<open>keysym.py: layouts\<close>

definition SHIFT :: int where "SHIFT = 1"
definition ALTGR :: int where "ALTGR = 2"
definition CTRL :: int where "CTRL = 4"

lemmas symmap_mods = SHIFT_def ALTGR_def CTRL_def

fun split_words :: "pytext \<Rightarrow> pytext \<Rightarrow> pytext list" where
  "split_words w [] = (if w = [] then [] else [w])"
| "split_words w (c # cs) =
     (if is_space c then (if w = [] then split_words [] cs else w # split_words [] cs)
      else split_words (w @ [c]) cs)"

fun split_lines :: "pytext \<Rightarrow> pytext \<Rightarrow> pytext list" where
  "split_lines w [] = [w]"
| "split_lines w (c # cs) = (if c = 10 then w # split_lines [] cs else split_lines (w @ [c]) cs)"

definition starts_with :: "pytext \<Rightarrow> pytext \<Rightarrow> bool" where
  "starts_with p t = (take (length p) t = p)"

definition resolve_keysym :: "(pytext \<Rightarrow> int option) \<Rightarrow> pytext \<Rightarrow> int" where
  "resolve_keysym xlib name =
     (case (case xlib name of Some code \<Rightarrow> Some code
            | None \<Rightarrow> if name = text_of ''EuroSign'' then Some 0x20AC else None) of
        Some code \<Rightarrow> code
      | None \<Rightarrow> if length name = 5 \<and> hd name = 85
          then (case py_int16 (tl name) of Inr v \<Rightarrow> v | Inl _ \<Rightarrow> 0) else 0)"

type_synonym layout = "(int, at1_key list) dict"

definition append_key :: "int \<Rightarrow> at1_key \<Rightarrow> layout \<Rightarrow> layout" where
  "append_key x k l = AList.update x (dict_get l x [] @ [k]) l"

definition layout_line :: "(pytext \<Rightarrow> int option) \<Rightarrow> pytext \<Rightarrow> layout \<Rightarrow> layout" where
  "layout_line xlib line l =
     (if line = [] \<or> starts_with (text_of ''#'') line \<or> starts_with (text_of ''map '') line
         \<or> starts_with (text_of ''include '') line
      then l
      else case split_words [] line of
        name # number # opts \<Rightarrow>
          (let x = resolve_keysym xlib name in
           if x = 0 then l
           else case py_int16 number of
             Inl _ \<Rightarrow> l
           | Inr code \<Rightarrow>
               (let l1 = append_key x \<lparr>at_code = code, at_shift = text_of ''shift'' \<in> set opts,
                       at_altgr = text_of ''altgr'' \<in> set opts, at_ctrl = text_of ''ctrl'' \<in> set opts\<rparr> l;
                    y = resolve_keysym xlib (upper name)
                in if text_of ''addupper'' \<in> set opts \<and> y \<noteq> 0 then append_key y (At1Key code True) l1
                   else l1))
      | _ \<Rightarrow> l)"

definition read_keyboard_layout :: "(pytext \<Rightarrow> int option) \<Rightarrow> pytext \<Rightarrow> layout" where
  "read_keyboard_layout xlib text = fold (layout_line xlib) (map strip (split_lines [] text)) []"

type_synonym symmap = "(int, (int, int) dict) dict"

definition key_mods :: "at1_key \<Rightarrow> int" where
  "key_mods k = (if at_shift k then SHIFT else 0) OR (if at_altgr k then ALTGR else 0)
     OR (if at_ctrl k then CTRL else 0)"

definition bad_modifier :: "ecodes \<Rightarrow> int \<Rightarrow> at1_key \<Rightarrow> bool" where
  "bad_modifier ec e k = (e \<in> set (map ec SHIFTS) \<and> at_shift k \<or> e \<in> set (map ec ALTS) \<and> at_altgr k
     \<or> e \<in> set (map ec CTRLS) \<and> at_ctrl k)"

definition symmap_add :: "ecodes \<Rightarrow> int \<times> at1_key \<Rightarrow> symmap \<Rightarrow> symmap" where
  "symmap_add ec = (\<lambda>(code, k) m. case map_of (at1_to_evdev ec) (at_code k) of
       None \<Rightarrow> m
     | Some e \<Rightarrow> if bad_modifier ec e k then m
         else (let inner = dict_get m code []
               in AList.update code
                    (if dict_has inner (key_mods k) then inner else AList.update (key_mods k) e inner) m))"

definition layout_keys :: "layout \<Rightarrow> (int \<times> at1_key) list" where
  "layout_keys l = concat (map (\<lambda>(code, ks). map (\<lambda>k. (code, k)) ks) l)"

definition build_symmap :: "ecodes \<Rightarrow> (pytext \<Rightarrow> int option) \<Rightarrow> pytext \<Rightarrow> symmap" where
  "build_symmap ec xlib text =
     fold (symmap_add ec) (layout_keys (read_keyboard_layout xlib text) @ layout_keys x11_to_at1) []"

section \<open>printer.py: text to keys\<close>

record printer =
  pr_shift :: bool
  pr_altgr :: bool

definition replace_char :: "int \<Rightarrow> pytext" where
  "replace_char c =
     (if c \<in> {0x201A, 0x2018, 0x2019} then [39]
      else if c \<in> {0x201E, 0x201C, 0x201D} then [34]
      else if c = 0x2013 then [45]
      else if c = 0x2014 then [45, 45]
      else [c])"

definition ch_to_keysym :: "(int \<Rightarrow> int) \<Rightarrow> pytext \<Rightarrow> int result" where
  "ch_to_keysym keysym ch = (case ch of [c] \<Rightarrow> Inr (keysym c) | _ \<Rightarrow> Inl AssertionError)"

text \<open>The keys of a character; \<open>None\<close> when it is skipped.\<close>

definition char_keys ::
  "ecodes \<Rightarrow> (int \<Rightarrow> int) \<Rightarrow> (int \<Rightarrow> bool) \<Rightarrow> symmap \<Rightarrow> int \<Rightarrow> (int, int) dict option" where
  "char_keys ec keysym printable symmap c =
     (if c = 10 then Some [(0, ec ''KEY_ENTER'')]
      else if c = 9 then Some [(0, ec ''KEY_TAB'')]
      else if c = 32 then Some [(0, ec ''KEY_SPACE'')]
      else let ch = replace_char c
           in if \<not> list_all printable ch then None
              else case bindR (ch_to_keysym keysym ch) (\<lambda>x. dict_at symmap x) of
                Inl _ \<Rightarrow> None | Inr keys \<Rightarrow> Some keys)"

definition usable_key :: "(int, int) dict \<Rightarrow> (int \<times> int) option" where
  "usable_key keys = find (\<lambda>(mods, key). \<not> bit_set mods CTRL) keys"

text \<open>Press or release a modifier so that it is down exactly when the key wants it.\<close>

definition adjust_mod :: "int \<Rightarrow> bool \<Rightarrow> bool \<Rightarrow> (int \<times> bool) list" where
  "adjust_mod key want down = (if want \<and> \<not> down then [(key, True)]
     else if \<not> want \<and> down then [(key, False)] else [])"

definition type_key :: "ecodes \<Rightarrow> int \<times> int \<Rightarrow> printer \<Rightarrow> (int \<times> bool) list \<times> printer" where
  "type_key ec = (\<lambda>(mods, key) p.
     (adjust_mod (ec ''KEY_LEFTSHIFT'') (bit_set mods SHIFT) (pr_shift p)
        @ adjust_mod (ec ''KEY_RIGHTALT'') (bit_set mods ALTGR) (pr_altgr p)
        @ [(key, True), (key, False)],
      \<lparr>pr_shift = bit_set mods SHIFT, pr_altgr = bit_set mods ALTGR\<rparr>))"

fun type_text ::
  "ecodes \<Rightarrow> (int \<Rightarrow> int) \<Rightarrow> (int \<Rightarrow> bool) \<Rightarrow> symmap \<Rightarrow> pytext \<Rightarrow> printer \<Rightarrow> (int \<times> bool) list" where
  "type_text ec keysym printable symmap [] p =
     adjust_mod (ec ''KEY_LEFTSHIFT'') False (pr_shift p) @ adjust_mod (ec ''KEY_RIGHTALT'') False (pr_altgr p)"
| "type_text ec keysym printable symmap (c # cs) p =
     (case char_keys ec keysym printable symmap c of
        None \<Rightarrow> type_text ec keysym printable symmap cs p
      | Some keys \<Rightarrow> (case usable_key keys of
            None \<Rightarrow> type_text ec keysym printable symmap cs p
          | Some k \<Rightarrow> (case type_key ec k p of (es, p') \<Rightarrow>
              es @ type_text ec keysym printable symmap cs p')))"

definition text_to_evdev_keys ::
  "ecodes \<Rightarrow> (int \<Rightarrow> int) \<Rightarrow> (int \<Rightarrow> bool) \<Rightarrow> symmap \<Rightarrow> pytext \<Rightarrow> (int \<times> bool) list" where
  "text_to_evdev_keys ec keysym printable symmap text =
     type_text ec keysym printable symmap text \<lparr>pr_shift = False, pr_altgr = False\<rparr>"

section \<open>The first mapping of a keysym wins\<close>

definition symmap_get :: "symmap \<Rightarrow> int \<Rightarrow> int \<Rightarrow> int option" where
  "symmap_get m code mods = map_of (dict_get m code []) mods"

text \<open>The mappings a list of keys offers, in order.\<close>

definition offers :: "ecodes \<Rightarrow> (int \<times> at1_key) list \<Rightarrow> ((int \<times> int) \<times> int) list" where
  "offers ec ks = concat (map (\<lambda>(code, k). case map_of (at1_to_evdev ec) (at_code k) of
       None \<Rightarrow> []
     | Some e \<Rightarrow> if bad_modifier ec e k then [] else [((code, key_mods k), e)]) ks)"

lemma dict_get_update: "dict_get (AList.update x v d) y z = (if x = y then v else dict_get d y z)"
  by (simp add: dict_get_def)

lemma symmap_get_add:
  "symmap_get (symmap_add ec ck m) code mods =
     (case symmap_get m code mods of Some e \<Rightarrow> Some e | None \<Rightarrow> map_of (offers ec [ck]) (code, mods))"
proof -
  obtain c k where ck: "ck = (c, k)" by fastforce
  show ?thesis
  proof (cases "map_of (at1_to_evdev ec) (at_code k)")
    case None
    then show ?thesis by (simp add: ck symmap_add_def offers_def split: option.splits)
  next
    case (Some e)
    show ?thesis
    proof (cases "bad_modifier ec e k")
      case True
      with Some show ?thesis by (simp add: ck symmap_add_def offers_def split: option.splits)
    next
      case False
      let ?inner = "dict_get m c []"
      have add: "symmap_add ec ck m = AList.update c (if dict_has ?inner (key_mods k) then ?inner
          else AList.update (key_mods k) e ?inner) m"
        using Some False by (simp add: ck symmap_add_def Let_def)
      have offer: "offers ec [ck] = [((c, key_mods k), e)]" using Some False by (simp add: ck offers_def)
      show ?thesis unfolding add offer symmap_get_def dict_get_update
        by (cases "map_of ?inner (key_mods k)") (auto simp: dict_has_def split: option.splits)
    qed
  qed
qed

lemma symmap_get_fold:
  "symmap_get (fold (symmap_add ec) ks m) code mods =
     (case symmap_get m code mods of Some e \<Rightarrow> Some e | None \<Rightarrow> map_of (offers ec ks) (code, mods))"
proof (induction ks arbitrary: m)
  case (Cons k ks)
  have "offers ec (k # ks) = offers ec [k] @ offers ec ks" by (simp add: offers_def)
  then show ?case using Cons [of "symmap_add ec k m"]
    by (simp add: symmap_get_add map_add_def split: option.splits)
qed (simp add: offers_def split: option.splits)

lemma key_mods_bits:
  "bit_set (key_mods k) SHIFT = at_shift k" "bit_set (key_mods k) ALTGR = at_altgr k"
  "bit_set (key_mods k) CTRL = at_ctrl k"
  by (cases "at_shift k"; cases "at_altgr k"; cases "at_ctrl k";
      simp add: key_mods_def bit_set_def symmap_mods)+

lemma offers_mem:
  assumes "((code, mods), e) \<in> set (offers ec ks)"
  obtains k where "(code, k) \<in> set ks" "mods = key_mods k" "map_of (at1_to_evdev ec) (at_code k) = Some e"
    "\<not> bad_modifier ec e k"
  using assms by (auto simp: offers_def split: option.splits if_splits)

text \<open>A keyboard layout maps a keysym to the key its first line says: for each keysym and each
  combination of modifiers the symbol map has the first valid entry of the layout file, the
  built-in table only fills what the layout leaves open, and no modifier key ever needs itself
  to be held.\<close>

theorem symmap_first_wins:
  "symmap_get (build_symmap ec xlib text) code mods =
     (case map_of (offers ec (layout_keys (read_keyboard_layout xlib text))) (code, mods) of
        Some e \<Rightarrow> Some e
      | None \<Rightarrow> map_of (offers ec (layout_keys x11_to_at1)) (code, mods))
   \<and> \<not> (symmap_get (build_symmap ec xlib text) code mods \<in> Some ` ec ` set SHIFTS \<and> bit_set mods SHIFT)
   \<and> \<not> (symmap_get (build_symmap ec xlib text) code mods \<in> Some ` ec ` set ALTS \<and> bit_set mods ALTGR)"
proof -
  let ?ks = "layout_keys (read_keyboard_layout xlib text) @ layout_keys x11_to_at1"
  have get: "symmap_get (build_symmap ec xlib text) code mods = map_of (offers ec ?ks) (code, mods)"
    unfolding build_symmap_def symmap_get_fold by (simp add: symmap_get_def dict_get_def)
  have split: "offers ec (xs @ ys) = offers ec xs @ offers ec ys" for xs ys by (simp add: offers_def)
  have first: "map_of (offers ec ?ks) (code, mods) =
      (case map_of (offers ec (layout_keys (read_keyboard_layout xlib text))) (code, mods) of
        Some e \<Rightarrow> Some e | None \<Rightarrow> map_of (offers ec (layout_keys x11_to_at1)) (code, mods))"
    by (simp only: split map_of_append map_add_def)
  have no_self: "\<not> (e \<in> set (map ec SHIFTS) \<and> bit_set mods SHIFT) \<and> \<not> (e \<in> set (map ec ALTS) \<and> bit_set mods ALTGR)"
    if "map_of (offers ec ?ks) (code, mods) = Some e" for e
    using map_of_SomeD [OF that] by (elim offers_mem) (auto simp: bad_modifier_def key_mods_bits)
  show ?thesis unfolding get using first no_self by auto
qed

section \<open>Typing is faithful\<close>

text \<open>
  What a computer makes of key events: the keys down at the moment, and every press of a key that
  is neither of the two modifiers, together with whether they are down.
\<close>

fun typed :: "int \<Rightarrow> int \<Rightarrow> bool \<Rightarrow> bool \<Rightarrow> (int \<times> bool) list \<Rightarrow> (int \<times> bool \<times> bool) list" where
  "typed s a sd ad [] = []"
| "typed s a sd ad ((k, st) # es) =
     (if k = s then typed s a st ad es
      else if k = a then typed s a sd st es
      else if st then (k, sd, ad) # typed s a sd ad es
      else typed s a sd ad es)"

definition down_after :: "(int \<times> bool) list \<Rightarrow> int set \<Rightarrow> int set" where
  "down_after es H = fold (\<lambda>(k, st) H. if st then insert k H else H - {k}) es H"

text \<open>What the text asks for: the first usable key of each character with its modifiers.\<close>

definition wanted :: "ecodes \<Rightarrow> (int \<Rightarrow> int) \<Rightarrow> (int \<Rightarrow> bool) \<Rightarrow> symmap \<Rightarrow> int \<Rightarrow> (int \<times> bool \<times> bool) list" where
  "wanted ec keysym printable symmap c =
     (case char_keys ec keysym printable symmap c of None \<Rightarrow> []
      | Some keys \<Rightarrow> (case usable_key keys of None \<Rightarrow> []
          | Some (mods, key) \<Rightarrow> [(key, bit_set mods SHIFT, bit_set mods ALTGR)]))"

text \<open>Layouts that use a modifier key as the key of a character are left out.\<close>

definition plain_keys :: "ecodes \<Rightarrow> (int \<Rightarrow> int) \<Rightarrow> (int \<Rightarrow> bool) \<Rightarrow> symmap \<Rightarrow> pytext \<Rightarrow> bool" where
  "plain_keys ec keysym printable symmap text = list_all (\<lambda>c. list_all (\<lambda>(key, _).
     key \<noteq> ec ''KEY_LEFTSHIFT'' \<and> key \<noteq> ec ''KEY_RIGHTALT'') (wanted ec keysym printable symmap c)) text"

definition mods_down :: "ecodes \<Rightarrow> printer \<Rightarrow> int set" where
  "mods_down ec p = (if pr_shift p then {ec ''KEY_LEFTSHIFT''} else {})
     \<union> (if pr_altgr p then {ec ''KEY_RIGHTALT''} else {})"

lemma typed_adjust:
  assumes "s \<noteq> a"
  shows "typed s a sd ad (adjust_mod s want sd @ es) = typed s a want ad es"
    "typed s a sd ad (adjust_mod a want ad @ es) = typed s a sd want es"
  using assms by (auto simp: adjust_mod_def)

lemma type_key_typed:
  assumes "s = ec ''KEY_LEFTSHIFT''" "a = ec ''KEY_RIGHTALT''" "s \<noteq> a" "key \<noteq> s" "key \<noteq> a"
    and "type_key ec (mods, key) p = (es, p')"
  shows "typed s a (pr_shift p) (pr_altgr p) (es @ rest) =
       (key, bit_set mods SHIFT, bit_set mods ALTGR) # typed s a (pr_shift p') (pr_altgr p') rest"
    "down_after (es @ rest) (mods_down ec p) = down_after rest (mods_down ec p')"
proof -
  have es: "es = adjust_mod s (bit_set mods SHIFT) (pr_shift p) @ adjust_mod a (bit_set mods ALTGR) (pr_altgr p)
        @ [(key, True), (key, False)]" "p' = \<lparr>pr_shift = bit_set mods SHIFT, pr_altgr = bit_set mods ALTGR\<rparr>"
    using assms(1,2,6) by (simp_all add: type_key_def)
  show "typed s a (pr_shift p) (pr_altgr p) (es @ rest) =
       (key, bit_set mods SHIFT, bit_set mods ALTGR) # typed s a (pr_shift p') (pr_altgr p') rest"
    using typed_adjust [OF assms(3)] assms(3-5) by (simp add: es)
  have "down_after es (mods_down ec p) = mods_down ec p'"
    using assms(3-5) unfolding es(1) assms(1,2)
    by (auto simp: down_after_def mods_down_def adjust_mod_def es(2))
  then show "down_after (es @ rest) (mods_down ec p) = down_after rest (mods_down ec p')"
    by (simp add: down_after_def)
qed

lemma type_text_faithful:
  assumes "ec ''KEY_LEFTSHIFT'' \<noteq> ec ''KEY_RIGHTALT''" "plain_keys ec keysym printable symmap txs"
  shows "typed (ec ''KEY_LEFTSHIFT'') (ec ''KEY_RIGHTALT'') (pr_shift p) (pr_altgr p)
      (type_text ec keysym printable symmap txs p) = concat (map (wanted ec keysym printable symmap) txs)
    \<and> down_after (type_text ec keysym printable symmap txs p) (mods_down ec p) = {}"
  using assms(2)
proof (induction txs arbitrary: p)
  case Nil
  then show ?case using assms(1) typed_adjust [OF assms(1)]
    by (auto simp: down_after_def mods_down_def adjust_mod_def)
next
  case (Cons c txs)
  have rest: "plain_keys ec keysym printable symmap txs" using Cons.prems by (simp add: plain_keys_def)
  note ih = Cons.IH [OF rest]
  show ?case
  proof (cases "char_keys ec keysym printable symmap c")
    case None
    then show ?thesis using ih by (simp add: wanted_def)
  next
    case (Some keys)
    show ?thesis
    proof (cases "usable_key keys")
      case None
      with Some show ?thesis using ih by (simp add: wanted_def)
    next
      case usable: (Some k)
      obtain mods key where k: "k = (mods, key)" by fastforce
      obtain es p' where es: "type_key ec (mods, key) p = (es, p')" by fastforce
      have "key \<noteq> ec ''KEY_LEFTSHIFT''" "key \<noteq> ec ''KEY_RIGHTALT''"
        using Cons.prems Some usable k by (simp_all add: plain_keys_def wanted_def)
      from type_key_typed [OF refl refl assms(1) this es] ih [of p'] Some usable k es
      show ?thesis by (simp add: wanted_def)
    qed
  qed
qed

text \<open>C13. Text is typed as written: the computer sees, for each character that the layout can produce
  and in order, its key with Shift and AltGr held exactly as the layout demands, and at the end
  every key is released.\<close>

theorem text_typed_faithfully:
  assumes "ecodes_ok ec" "plain_keys ec keysym printable symmap text"
  shows "typed (ec ''KEY_LEFTSHIFT'') (ec ''KEY_RIGHTALT'') False False
      (text_to_evdev_keys ec keysym printable symmap text) = concat (map (wanted ec keysym printable symmap) text)
    \<and> down_after (text_to_evdev_keys ec keysym printable symmap text) {} = {}"
proof -
  have "inj_on ec (set key_names)" using assms(1) by (simp add: ecodes_ok_def distinct_map)
  moreover have "''KEY_LEFTSHIFT'' \<in> set key_names" "''KEY_RIGHTALT'' \<in> set key_names"
    using key_tables_closed(3) by (simp_all add: evdev_modifiers_def SHIFTS_def ALTS_def)
  ultimately have "ec ''KEY_LEFTSHIFT'' \<noteq> ec ''KEY_RIGHTALT''" by (auto dest: inj_onD)
  from type_text_faithful [OF this assms(2), of "\<lparr>pr_shift = False, pr_altgr = False\<rparr>"]
  show ?thesis by (simp add: text_to_evdev_keys_def mods_down_def)
qed

definition sample_symmap :: symmap where
  "sample_symmap = [(97, [(0, count_names ''KEY_A'')]), (65, [(5, 3), (1, count_names ''KEY_A'')])]"

theorem text_typed_faithfully_witness:
  "typed (count_names ''KEY_LEFTSHIFT'') (count_names ''KEY_RIGHTALT'') False False
      (text_to_evdev_keys count_names (\<lambda>c. c) (\<lambda>_. True) sample_symmap [65, 97])
    = concat (map (wanted count_names (\<lambda>c. c) (\<lambda>_. True) sample_symmap) [65, 97])"
proof -
  have "plain_keys count_names (\<lambda>c. c) (\<lambda>_. True) sample_symmap [65, 97]" by code_simp
  from text_typed_faithfully [OF count_names_ok this] show ?thesis by simp
qed

text \<open>An em dash is never typed: the code means to type it as two hyphens, but a string of two
  characters has no keysym, the assertion is swallowed, and the character is dropped whatever
  the layout offers.\<close>

theorem em_dash_dropped:
  "text_to_evdev_keys ec keysym printable symmap (xs @ [0x2014] @ ys) =
     text_to_evdev_keys ec keysym printable symmap (xs @ ys)"
proof -
  have "char_keys ec keysym printable symmap 0x2014 = None"
    by (simp add: char_keys_def replace_char_def ch_to_keysym_def Let_def)
  then have "type_text ec keysym printable symmap (xs @ [0x2014] @ ys) p =
      type_text ec keysym printable symmap (xs @ ys) p" for p
    by (induction xs arbitrary: p) (auto split: option.splits prod.splits)
  then show ?thesis by (simp add: text_to_evdev_keys_def)
qed

end
