(* ===== verification/KeyMagic.thy ===== *)
theory KeyMagic
  imports KeyTables Complex_Main
begin

text \<open>
  The magic chords of the VNC and local-HID servers (\<open>kvmd/keyboard/magic.py\<close>): after two taps of
  the left Alt key, the next key is a command instead of a key for the computer, or the first of
  a number of digits.  The handlers and the clock are arguments.
\<close>

record magic =
  mg_taps :: int
  mg_ts :: rat
  mg_codes :: "int list"

definition magic_init :: magic where
  "magic_init = \<lparr>mg_taps = 0, mg_ts = 0, mg_codes = []\<rparr>"

definition MAGIC_TIMEOUT :: rat where "MAGIC_TIMEOUT = 2"
definition MAGIC_TRIGGER :: int where "MAGIC_TRIGGER = 2"

text \<open>What is called: the proxy with the key, a handler of the key, or the numeric handler.\<close>

datatype magic_call = Proxy int bool | Handler int | Numeric "int list"

text \<open>The clock is read at the start and again when a tap or an unfinished number is noted.\<close>

definition handle_key ::
  "ecodes \<Rightarrow> int list \<Rightarrow> (int list \<Rightarrow> bool) option \<Rightarrow> rat \<Rightarrow> rat \<Rightarrow> int \<Rightarrow> bool \<Rightarrow> magic \<Rightarrow> magic_call \<times> magic" where
  "handle_key ec handlers numeric now later key state m0 =
     (let m = (if mg_ts m0 + MAGIC_TIMEOUT < now then magic_init else m0)
      in if key = ec ''KEY_LEFTALT''
         then (Proxy key state, if state then m else m\<lparr>mg_taps := mg_taps m + 1, mg_ts := later\<rparr>)
         else if \<not> state then (Proxy key state, m)
         else if mg_taps m < MAGIC_TRIGGER then (Proxy key state, magic_init)
         else if key \<in> set handlers then (Handler key, magic_init)
         else case numeric of
           Some f \<Rightarrow>
             if ec ''KEY_1'' \<le> key \<and> key \<le> ec ''KEY_8''
             then (let codes = mg_codes m @ [key - ec ''KEY_1'']
                   in (Numeric codes, if f codes then magic_init
                         else \<lparr>mg_taps = mg_taps m, mg_ts = later, mg_codes = codes\<rparr>))
             else (Proxy key state, magic_init)
         | None \<Rightarrow> (Proxy key state, magic_init))"

fun handle_keys ::
  "ecodes \<Rightarrow> int list \<Rightarrow> (int list \<Rightarrow> bool) option \<Rightarrow> (int \<times> bool \<times> rat) list \<Rightarrow> magic \<Rightarrow> magic_call list \<times> magic" where
  "handle_keys ec handlers numeric [] m = ([], m)"
| "handle_keys ec handlers numeric ((key, state, now) # ks) m =
     (case handle_key ec handlers numeric now now key state m of (c, m') \<Rightarrow>
      case handle_keys ec handlers numeric ks m' of (cs, m'') \<Rightarrow> (c # cs, m''))"

text \<open>A digit is pressed at one time and released at another.\<close>

definition digit_strokes :: "ecodes \<Rightarrow> (int \<times> rat \<times> rat) list \<Rightarrow> (int \<times> bool \<times> rat) list" where
  "digit_strokes ec ds = concat (map (\<lambda>(d, t, t'). [(ec ''KEY_1'' + d, True, t), (ec ''KEY_1'' + d, False, t')]) ds)"

fun in_time :: "rat \<Rightarrow> (int \<times> rat \<times> rat) list \<Rightarrow> bool" where
  "in_time ts [] = True"
| "in_time ts ((d, t, t') # ds) = (t \<le> ts + MAGIC_TIMEOUT \<and> t' \<le> t + MAGIC_TIMEOUT \<and> in_time t ds)"

definition number_calls :: "ecodes \<Rightarrow> int list \<Rightarrow> int list \<Rightarrow> magic_call list" where
  "number_calls ec codes ds = concat (map (\<lambda>i. [Numeric (codes @ take (Suc i) ds), Proxy (ec ''KEY_1'' + ds ! i) False])
     [0..<length ds])"

text \<open>What the digits rely on in the package: the digit keys are consecutive and not left Alt.\<close>

definition digits_ok :: "ecodes \<Rightarrow> bool" where
  "digits_ok ec = (ec ''KEY_8'' = ec ''KEY_1'' + 7 \<and> (ec ''KEY_LEFTALT'' < ec ''KEY_1'' \<or> ec ''KEY_8'' < ec ''KEY_LEFTALT''))"

lemma handle_keys_Cons:
  "fst (handle_keys ec handlers numeric ((key, state, now) # ks) m) =
     fst (handle_key ec handlers numeric now now key state m)
     # fst (handle_keys ec handlers numeric ks (snd (handle_key ec handlers numeric now now key state m)))"
  by (simp split: prod.splits)

declare handle_keys.simps(2) [simp del] handle_keys_Cons [simp]

lemma number_calls_Cons:
  "number_calls ec codes (d # ds) = Numeric (codes @ [d]) # Proxy (ec ''KEY_1'' + d) False # number_calls ec (codes @ [d]) ds"
proof -
  have "[0..<length (d # ds)] = 0 # map Suc [0..<length ds]" by (simp add: upt_conv_Cons map_Suc_upt del: upt_Suc)
  then show ?thesis by (simp add: number_calls_def comp_def)
qed

lemma digits_typed:
  assumes ec: "digits_ok ec" and "list_all (\<lambda>(d, t, t'). 0 \<le> d \<and> d \<le> 7 \<and> ec ''KEY_1'' + d \<notin> set handlers) ds"
    and "mg_taps m \<ge> MAGIC_TRIGGER" "in_time (mg_ts m) ds"
    and "\<And>n. n < length ds \<Longrightarrow> 0 < n \<Longrightarrow> \<not> f (mg_codes m @ take n (map fst ds))"
  shows "fst (handle_keys ec handlers (Some f) (digit_strokes ec ds) m) = number_calls ec (mg_codes m) (map fst ds)"
  using assms(2-)
proof (induction ds arbitrary: m)
  case Nil
  then show ?case by (simp add: digit_strokes_def number_calls_def)
next
  case (Cons x ds)
  obtain d t t' where x: "x = (d, t, t')" by (cases x) auto
  let ?k = "ec ''KEY_1'' + d" and ?codes = "mg_codes m @ [d]"
  have d: "0 \<le> d" "d \<le> 7" "?k \<notin> set handlers" using Cons.prems(1) x by auto
  have time: "t \<le> mg_ts m + MAGIC_TIMEOUT" "t' \<le> t + MAGIC_TIMEOUT" "in_time t ds"
    using Cons.prems(3) x by auto
  have k: "?k \<noteq> ec ''KEY_LEFTALT''" "ec ''KEY_1'' \<le> ?k" "?k \<le> ec ''KEY_8''"
    using ec d by (auto simp: digits_ok_def)
  let ?m1 = "if f ?codes then magic_init else \<lparr>mg_taps = mg_taps m, mg_ts = t, mg_codes = ?codes\<rparr>"
  have press: "handle_key ec handlers (Some f) t t ?k True m = (Numeric ?codes, ?m1)"
    using time(1) k d(3) Cons.prems(2) by (simp add: handle_key_def Let_def)
  have strokes: "digit_strokes ec (x # ds) = (?k, True, t) # (?k, False, t') # digit_strokes ec ds"
    by (simp add: digit_strokes_def x)
  show ?case
  proof (cases "ds = []")
    case True
    have "fst (handle_key ec handlers (Some f) t' t' ?k False ?m1) = Proxy ?k False"
      using k(1) by (simp add: handle_key_def)
    then show ?thesis unfolding strokes
      by (simp add: True press x number_calls_Cons) (simp add: digit_strokes_def number_calls_def)
  next
    case False
    then have "\<not> f ?codes" using Cons.prems(4) [of 1] by (cases ds) (simp_all add: x)
    then have m1: "?m1 = \<lparr>mg_taps = mg_taps m, mg_ts = t, mg_codes = ?codes\<rparr>" by simp
    have release: "handle_key ec handlers (Some f) t' t' ?k False ?m1 = (Proxy ?k False, ?m1)"
      using time(2) k(1) m1 by (simp add: handle_key_def)
    have "fst (handle_keys ec handlers (Some f) (digit_strokes ec ds) ?m1) =
        number_calls ec ?codes (map fst ds)"
    proof -
      have "\<not> f (mg_codes ?m1 @ take n (map fst ds))" if "n < length ds" "0 < n" for n
        using Cons.prems(4) [of "Suc n"] that m1 by (simp add: x)
      moreover have "in_time (mg_ts ?m1) ds" "MAGIC_TRIGGER \<le> mg_taps ?m1"
        using time(3) Cons.prems(2) m1 by simp_all
      moreover have "list_all (\<lambda>(d, t, t'). 0 \<le> d \<and> d \<le> 7 \<and> ec ''KEY_1'' + d \<notin> set handlers) ds"
        using Cons.prems(1) by simp
      ultimately show ?thesis using Cons.IH [of ?m1] m1 by simp
    qed
    then show ?thesis unfolding strokes
      by (simp add: press release x number_calls_Cons)
  qed
qed

text \<open>A number typed after a double tap of Alt reaches the numeric handler digit by digit: as long as
  the handler asks for more and each key comes within the timeout, it is called with every
  prefix of the number, and no press of a digit reaches the computer.\<close>

theorem magic_collects_digits:
  assumes "digits_ok ec"
    and "list_all (\<lambda>(d, t, t'). 0 \<le> d \<and> d \<le> 7 \<and> ec ''KEY_1'' + d \<notin> set handlers) ds"
    and "t2 \<le> t1 + MAGIC_TIMEOUT" "t3 \<le> t1 + MAGIC_TIMEOUT" "in_time t3 ds"
    and "\<And>n. n < length ds \<Longrightarrow> 0 < n \<Longrightarrow> \<not> f (take n (map fst ds))"
  shows "fst (handle_keys ec handlers (Some f)
      ([(ec ''KEY_LEFTALT'', True, t0), (ec ''KEY_LEFTALT'', False, t1),
        (ec ''KEY_LEFTALT'', True, t2), (ec ''KEY_LEFTALT'', False, t3)] @ digit_strokes ec ds) magic_init) =
    [Proxy (ec ''KEY_LEFTALT'') True, Proxy (ec ''KEY_LEFTALT'') False,
     Proxy (ec ''KEY_LEFTALT'') True, Proxy (ec ''KEY_LEFTALT'') False] @ number_calls ec [] (map fst ds)"
proof -
  let ?a = "ec ''KEY_LEFTALT''" and ?m = "\<lparr>mg_taps = 2, mg_ts = t3, mg_codes = []\<rparr>"
  have "handle_key ec handlers (Some f) t0 t0 ?a True magic_init = (Proxy ?a True, magic_init)"
    "handle_key ec handlers (Some f) t1 t1 ?a False magic_init =
       (Proxy ?a False, \<lparr>mg_taps = 1, mg_ts = t1, mg_codes = []\<rparr>)"
    "handle_key ec handlers (Some f) t2 t2 ?a True \<lparr>mg_taps = 1, mg_ts = t1, mg_codes = []\<rparr> =
       (Proxy ?a True, \<lparr>mg_taps = 1, mg_ts = t1, mg_codes = []\<rparr>)"
    "handle_key ec handlers (Some f) t3 t3 ?a False \<lparr>mg_taps = 1, mg_ts = t1, mg_codes = []\<rparr> = (Proxy ?a False, ?m)"
    using assms(3,4) by (simp_all add: handle_key_def Let_def magic_init_def)
  moreover have "fst (handle_keys ec handlers (Some f) (digit_strokes ec ds) ?m) = number_calls ec [] (map fst ds)"
    using digits_typed [OF assms(1,2), of ?m f] assms(5,6) by (simp add: MAGIC_TRIGGER_def)
  ultimately show ?thesis by simp
qed

theorem magic_collects_digits_witness:
  "fst (handle_keys count_names [] (Some (\<lambda>codes. length codes = 2))
      ([(count_names ''KEY_LEFTALT'', True, 10), (count_names ''KEY_LEFTALT'', False, 10),
        (count_names ''KEY_LEFTALT'', True, 11), (count_names ''KEY_LEFTALT'', False, 11)]
       @ digit_strokes count_names [(0, 12, 12), (4, 13, 13)]) magic_init) =
    [Proxy (count_names ''KEY_LEFTALT'') True, Proxy (count_names ''KEY_LEFTALT'') False,
     Proxy (count_names ''KEY_LEFTALT'') True, Proxy (count_names ''KEY_LEFTALT'') False]
    @ number_calls count_names [] [0, 4]"
proof -
  have "digits_ok count_names" by code_simp
  from magic_collects_digits [OF this, of "[]" "[(0, 12, 12), (4, 13, 13)]" 11 10 11 "\<lambda>codes. length codes = 2" 10]
  show ?thesis by (simp add: MAGIC_TIMEOUT_def)
qed

end
