(* ===== verification/McuProto.thy ===== *)
theory McuProto
  imports HidEvents
begin

text \<open>
  The protocol of the HID microcontroller (\<open>kvmd/plugins/hid/_mcu/proto.py\<close>): requests of eight
  bytes and responses of four or eight, both guarded by a CRC.
\<close>

section \<open>Framing\<close>

definition make_request :: "bytes \<Rightarrow> bytes result" where
  "make_request cmd = assertR (length cmd = 5)
     (let req = 0x33 # cmd in bindR (pack BE [FU 2] [make_crc16 req]) (\<lambda>crc.
        assertR (length (req @ crc) = 8) (Inr (req @ crc))))"

definition check_response :: "bytes \<Rightarrow> bool result" where
  "check_response resp = assertR (length resp = 4 \<or> length resp = 8)
     (bindR (unpack_from BE [FU 2] (drop (length resp - 2) resp) 0) (\<lambda>vs. case vs of
        [crc] \<Rightarrow> Inr (make_crc16 (take (length resp - 2) resp) = crc)
      | _ \<Rightarrow> Inl TypeError))"

definition packed_request :: "field list \<Rightarrow> int list \<Rightarrow> bytes result" where
  "packed_request fs vs = bindR (pack BE fs vs) make_request"

definition REQUEST_PING :: "bytes result" where
  "REQUEST_PING = make_request [1, 0, 0, 0, 0]"

definition REQUEST_REPEAT :: "bytes result" where
  "REQUEST_REPEAT = make_request [2, 0, 0, 0, 0]"

definition RESPONSE_LEGACY_OK :: "bytes result" where
  "RESPONSE_LEGACY_OK = bindR (pack BE [FU 2] [make_crc16 [0x33, 0x20]]) (\<lambda>crc. Inr ([0x33, 0x20] @ crc))"

section \<open>Outputs\<close>

definition KEYBOARD_NAMES_TO_CODES :: "(string, int) dict" where
  "KEYBOARD_NAMES_TO_CODES = [(''disabled'', 0), (''usb'', 1), (''ps2'', 3)]"

definition MOUSE_NAMES_TO_CODES :: "(string, int) dict" where
  "MOUSE_NAMES_TO_CODES =
     [(''disabled'', 0), (''usb'', 8), (''usb_rel'', 16), (''ps2'', 24), (''usb_win98'', 32)]"

definition get_active_keyboard :: "int \<Rightarrow> string" where
  "get_active_keyboard outputs = dict_get (swapped_kvs KEYBOARD_NAMES_TO_CODES) (outputs AND 7) ''disabled''"

definition get_active_mouse :: "int \<Rightarrow> string" where
  "get_active_mouse outputs = dict_get (swapped_kvs MOUSE_NAMES_TO_CODES) (outputs AND 56) ''disabled''"

section \<open>Events\<close>

datatype mcu_event =
    McuSetKeyboard string
  | McuSetMouse string
  | McuSetConnected bool
  | McuClear
  | McuKey int bool
  | McuButton int bool
  | McuMove int int
  | McuRelative int int
  | McuWheel int int

definition mouse_buttons :: "ecodes \<Rightarrow> (int, int \<times> int \<times> bool) dict" where
  "mouse_buttons ec = dict_of [(ec ''BTN_LEFT'', (128, 8, True)), (ec ''BTN_RIGHT'', (64, 4, True)),
     (ec ''BTN_MIDDLE'', (32, 2, True)), (ec ''BTN_BACK'', (128, 8, False)), (ec ''BTN_FORWARD'', (64, 4, False))]"

text \<open>The assertions of the constructors.\<close>

fun mcu_event_ok :: "ecodes \<Rightarrow> mcu_event \<Rightarrow> bool" where
  "mcu_event_ok ec (McuSetKeyboard n) = (n = [] \<or> dict_has KEYBOARD_NAMES_TO_CODES n)"
| "mcu_event_ok ec (McuSetMouse n) = (n = [] \<or> dict_has MOUSE_NAMES_TO_CODES n)"
| "mcu_event_ok ec (McuKey code _) = dict_has (keymap ec) code"
| "mcu_event_ok ec (McuButton code _) =
     (code \<in> set (map ec [''BTN_LEFT'', ''BTN_RIGHT'', ''BTN_MIDDLE'', ''BTN_BACK'', ''BTN_FORWARD'']))"
| "mcu_event_ok ec (McuMove x y) = (in_range x \<and> in_range y)"
| "mcu_event_ok ec (McuRelative x y) = (in_delta x \<and> in_delta y)"
| "mcu_event_ok ec (McuWheel x y) = (in_delta x \<and> in_delta y)"
| "mcu_event_ok ec _ = True"

definition mk_mcu_event :: "ecodes \<Rightarrow> mcu_event \<Rightarrow> mcu_event result" where
  "mk_mcu_event ec e = assertR (mcu_event_ok ec e) (Inr e)"

fun event_request :: "ecodes \<Rightarrow> mcu_event \<Rightarrow> bytes result" where
  "event_request ec (McuSetKeyboard n) =
     packed_request [FU 1, FU 1, FX 3] [0x03, dict_get KEYBOARD_NAMES_TO_CODES n 0]"
| "event_request ec (McuSetMouse n) =
     packed_request [FU 1, FU 1, FX 3] [0x04, dict_get MOUSE_NAMES_TO_CODES n 0]"
| "event_request ec (McuSetConnected c) = packed_request [FU 1, FU 1, FX 3] [0x05, of_bool c]"
| "event_request ec McuClear = make_request [0x10, 0, 0, 0, 0]"
| "event_request ec (McuKey code state) = bindR (dict_at (keymap ec) code) (\<lambda>k.
     packed_request [FU 1, FU 1, FU 1, FX 2] [0x11, mk_code (ky_mcu k), of_bool state])"
| "event_request ec (McuButton code state) = bindR (dict_at (mouse_buttons ec) code) (\<lambda>(c, pressed, is_main).
     (let c' = (if state then c OR pressed else c)
      in packed_request [FU 1, FU 1, FU 1, FX 2]
           [0x13, if is_main then c' else 0, if is_main then 0 else c']))"
| "event_request ec (McuMove x y) = packed_request [FU 1, FS 2, FS 2] [0x12, x, y]"
| "event_request ec (McuRelative x y) = packed_request [FU 1, FS 1, FS 1, FX 2] [0x15, x, y]"
| "event_request ec (McuWheel x y) = packed_request [FU 1, FX 1, FS 1, FX 2] [0x14, y]"

section \<open>Requests are well formed\<close>

lemma bytes_split: "2 \<le> length r \<Longrightarrow> bytes_ok r \<Longrightarrow>
    \<exists>body a b. r = body @ [a, b] \<and> 0 \<le> a \<and> a < 256 \<and> 0 \<le> b \<and> b < 256 \<and> bytes_ok body"
proof -
  assume r: "2 \<le> length r" "bytes_ok r"
  obtain a b where "drop (length r - 2) r = [a, b]"
    using r(1) by (cases "drop (length r - 2) r" rule: remdups_adj.cases) (auto dest: arg_cong [of _ _ length])
  then have "r = take (length r - 2) r @ [a, b]" by (metis append_take_drop_id)
  moreover have "bytes_ok (take (length r - 2) r)" using r(2) by simp
  ultimately show ?thesis using r(2) by (metis bytes_ok_simps)
qed

lemma check_response_crc:
  assumes "length body = 2 \<or> length body = 6"
  shows "check_response (body @ [a, b]) = Inr (make_crc16 body = 256 * a + b)"
  using assms by (auto simp: check_response_def unpack_from_def get_int_def)

lemma packed_crc:
  assumes "0 \<le> crc" "crc < 65536"
  shows "pack BE [FU 2] [crc] = Inr [crc div 256, crc mod 256]"
  using assms by (simp add: put_int_def numeral_2_eq_2)

lemma make_request_eq:
  assumes "length cmd = 5" "bytes_ok cmd"
  shows "make_request cmd =
      Inr (0x33 # cmd @ [make_crc16 (0x33 # cmd) div 256, make_crc16 (0x33 # cmd) mod 256])"
proof -
  have "bytes_ok (0x33 # cmd)" using assms(2) by simp
  from make_crc16_bounds [OF this] packed_crc [of "make_crc16 (0x33 # cmd)"] assms(1)
  show ?thesis by (simp add: make_request_def Let_def)
qed

definition valid_request :: "bytes \<Rightarrow> bool" where
  "valid_request r = (length r = 8 \<and> bytes_ok r \<and> hd r = 0x33 \<and> check_response r = Inr True)"

lemma make_request_valid:
  assumes "length cmd = 5" "bytes_ok cmd"
  shows "\<exists>r. make_request cmd = Inr r \<and> valid_request r \<and> take 5 (drop 1 r) = cmd"
proof -
  let ?crc = "make_crc16 (0x33 # cmd)"
  have "bytes_ok (0x33 # cmd)" using assms(2) by simp
  from make_crc16_bounds [OF this] have crc: "0 \<le> ?crc" "?crc < 65536" by auto
  then have "0 \<le> ?crc div 256 \<and> ?crc div 256 < 256" by auto
  moreover have "check_response ((0x33 # cmd) @ [?crc div 256, ?crc mod 256]) = Inr True"
    by (subst check_response_crc) (use assms in \<open>auto simp: mult.commute\<close>)
  ultimately show ?thesis
    unfolding make_request_eq [OF assms] using assms by (simp add: valid_request_def)
qed

end
