(* ===== verification/McuFirmware.thy ===== *)
theory McuFirmware
  imports McuProto
begin

text \<open>
  The other end of the protocol of \<open>McuProto\<close>: how the firmware of the bridge
  (\<open>hid/pico/src/main.c\<close>, \<open>ph_cmds.c\<close> and \<open>ph_proto.h\<close>) reads a request and composes a response.
  What the firmware then does to its USB or PS/2 port is logged as an action.
\<close>

section \<open>Requests as the firmware reads them\<close>

datatype fw_action =
    FwOutputs int int
  | FwClear
  | FwKey int bool
  | FwButton string bool
  | FwAbs int int
  | FwRel int int
  | FwWheel int int

record firmware =
  fw_prev_code :: int
  fw_reset_required :: bool
  fw_outputs :: int
  fw_avail :: int
  fw_leds :: int
  fw_offlines :: int
  fw_log :: "fw_action list"

text \<open>The usage codes of the keys 1 to 126 (\<open>ph_usb_keymap.h\<close>).\<close>

definition FW_KEYMAP :: "int list" where
  "FW_KEYMAP = [
   4, 5, 6, 7, 8, 9, 10, 11, 12, 13, 14, 15, 16, 17, 18, 19, 20, 21,
   22, 23, 24, 25, 26, 27, 28, 29, 30, 31, 32, 33, 34, 35, 36, 37, 38, 39,
   40, 41, 42, 43, 44, 45, 46, 47, 48, 49, 51, 52, 53, 54, 55, 56, 57, 58,
   59, 60, 61, 62, 63, 64, 65, 66, 67, 68, 69, 70, 73, 74, 75, 76, 77, 78,
   79, 80, 81, 82, 224, 225, 226, 227, 228, 229, 230, 231, 72, 71, 83, 101, 84, 85,
   86, 87, 88, 89, 90, 91, 92, 93, 94, 95, 96, 97, 98, 99, 102, 100, 137, 135,
   136, 138, 139, 127, 128, 129, 111, 112, 113, 114, 115, 104, 105, 106, 107, 108, 109, 110]"

definition fw_keymap :: "int \<Rightarrow> int" where
  "fw_keymap key = (if 1 \<le> key \<and> key \<le> 126 then FW_KEYMAP ! nat (key - 1) else 0)"

definition merge8_s16 :: "int \<Rightarrow> int \<Rightarrow> int" where
  "merge8_s16 a b = get_sint BE 2 [a, b]"

definition fw_buttons :: "int \<Rightarrow> int \<Rightarrow> fw_action list" where
  "fw_buttons a b =
     (if a AND 128 \<noteq> 0 then [FwButton ''left'' (a AND 8 \<noteq> 0)] else [])
   @ (if a AND 64 \<noteq> 0 then [FwButton ''right'' (a AND 4 \<noteq> 0)] else [])
   @ (if a AND 32 \<noteq> 0 then [FwButton ''middle'' (a AND 2 \<noteq> 0)] else [])
   @ (if b AND 128 \<noteq> 0 then [FwButton ''backward'' (b AND 8 \<noteq> 0)] else [])
   @ (if b AND 64 \<noteq> 0 then [FwButton ''forward'' (b AND 4 \<noteq> 0)] else [])"

text \<open>The handler of a command: its actions and whether it asks for a restart; None for no handler.\<close>

definition fw_command :: "int \<Rightarrow> int list \<Rightarrow> (fw_action list \<times> bool) option" where
  "fw_command code args =
     (if code = 0x03 then Some ([FwOutputs 7 (args ! 0)], True)
      else if code = 0x04 then Some ([FwOutputs 56 (args ! 0)], True)
      else if code = 0x10 then Some ([FwClear], False)
      else if code = 0x11 then 
        Some (if fw_keymap (args ! 0) > 0 then [FwKey (fw_keymap (args ! 0)) (args ! 1 \<noteq> 0)] else [], False)
      else if code = 0x13 then Some (fw_buttons (args ! 0) (args ! 1), False)
      else if code = 0x12 then
        Some ([FwAbs (merge8_s16 (args ! 0) (args ! 1)) (merge8_s16 (args ! 2) (args ! 3))], False)
      else if code = 0x15 then Some ([FwRel (get_sint BE 1 [args ! 0]) (get_sint BE 1 [args ! 1])], False)
      else if code = 0x14 then Some ([FwWheel (get_sint BE 1 [args ! 0]) (get_sint BE 1 [args ! 1])], False)
      else None)"

definition fw_handle_request :: "bytes \<Rightarrow> firmware \<Rightarrow> int \<times> firmware" where
  "fw_handle_request data fw =
     (if data ! 0 = 0x33 \<and> make_crc16 (take 6 data) = get_int BE [data ! 6, data ! 7] then
        (case fw_command (data ! 1) (drop 2 data) of
           Some (acts, reset) \<Rightarrow>
             (0x80, fw\<lparr>fw_log := fw_log fw @ acts, fw_reset_required := fw_reset_required fw \<or> reset\<rparr>)
         | None \<Rightarrow>
             (if data ! 1 = 0x01 \<or> data ! 1 = 0x05 then 0x80 else if data ! 1 = 0x02 then 0 else 0x45, fw))
      else (0x40, fw))"

definition fw_response :: "int \<Rightarrow> firmware \<Rightarrow> bytes" where
  "fw_response code fw =
     (let body = (if code AND 0x80 \<noteq> 0
                  then [0x34, (0x80 OR (if fw_reset_required fw then 0x40 else 0)) OR fw_offlines fw OR fw_leds fw,
                        0x80 OR fw_outputs fw, fw_avail fw, 0, 0]
                  else [0x34, code, 0, 0, 0, 0])
      in body @ put_int BE 2 (make_crc16 body))"

definition fw_send_response :: "int \<Rightarrow> firmware \<Rightarrow> bytes \<times> firmware" where
  "fw_send_response code fw =
     (if code = 0 then (fw_response (fw_prev_code fw) fw, fw)
      else (fw_response code fw, fw\<lparr>fw_prev_code := code\<rparr>))"

definition fw_serve :: "bytes \<Rightarrow> firmware \<Rightarrow> bytes \<times> firmware" where
  "fw_serve data fw = (case fw_handle_request data fw of (code, fw') \<Rightarrow> fw_send_response code fw')"

definition fw_sane :: "firmware \<Rightarrow> bool" where
  "fw_sane fw = (fw_offlines fw \<in> {0, 8, 16, 24} \<and> fw_leds fw \<in> set [0..7]
     \<and> 0 \<le> fw_outputs fw \<and> fw_outputs fw < 64 \<and> 0 \<le> fw_avail fw \<and> fw_avail fw < 256
     \<and> fw_prev_code fw \<in> {0x24, 0x40, 0x45, 0x48, 0x80})"

section \<open>What an event asks for\<close>

text \<open>The usage code of a key in the USB tables: the modifiers are eight bits of a mask there.\<close>

definition usb_usage :: "usb_key \<Rightarrow> int" where
  "usb_usage u = (if uk_mod u then 224 + int (length (takeWhile (\<lambda>k. uk_code u \<noteq> 2 ^ k) [0..<8])) else uk_code u)"

fun event_actions :: "ecodes \<Rightarrow> mcu_event \<Rightarrow> fw_action list" where
  "event_actions ec (McuSetKeyboard n) = [FwOutputs 7 (dict_get KEYBOARD_NAMES_TO_CODES n 0)]"
| "event_actions ec (McuSetMouse n) = [FwOutputs 56 (dict_get MOUSE_NAMES_TO_CODES n 0)]"
| "event_actions ec (McuSetConnected _) = []"
| "event_actions ec McuClear = [FwClear]"
| "event_actions ec (McuKey code state) =
     (case map_of (keymap ec) code of Some k \<Rightarrow> [FwKey (usb_usage (ky_usb k)) state] | None \<Rightarrow> [])"
| "event_actions ec (McuButton code state) =
     (if code = ec ''BTN_LEFT'' then [FwButton ''left'' state]
      else if code = ec ''BTN_RIGHT'' then [FwButton ''right'' state]
      else if code = ec ''BTN_MIDDLE'' then [FwButton ''middle'' state]
      else if code = ec ''BTN_BACK'' then [FwButton ''backward'' state]
      else [FwButton ''forward'' state])"
| "event_actions ec (McuMove x y) = [FwAbs x y]"
| "event_actions ec (McuRelative x y) = [FwRel x y]"
| "event_actions ec (McuWheel x y) = [FwWheel 0 y]"

text \<open>The firmware maps every key to the usage code that the USB tables of the daemon have for it.\<close>

lemma fw_keymap_rows:
  "\<forall>(n, mcu, usb, m) \<in> set KEYMAP. fw_keymap mcu = usb_usage \<lparr>uk_code = usb, uk_mod = m\<rparr> \<and> fw_keymap mcu > 0
     \<and> 0 \<le> mcu \<and> mcu < 256"
  by code_simp

lemma fw_keymap_usage:
  assumes "map_of (keymap ec) code = Some k"
  shows "fw_keymap (mk_code (ky_mcu k)) = usb_usage (ky_usb k)" "0 < usb_usage (ky_usb k)"
    "0 \<le> mk_code (ky_mcu k)" "mk_code (ky_mcu k) < 256"
proof -
  obtain n c u m where r: "(n, c, u, m) \<in> set KEYMAP" "k = mk_key c u m"
    by (rule keymap_Some [OF assms])
  with fw_keymap_rows have row: "fw_keymap c = usb_usage \<lparr>uk_code = u, uk_mod = m\<rparr> \<and> fw_keymap c > 0
      \<and> 0 \<le> c \<and> c < 256"
    by blast
  with r(2) show "fw_keymap (mk_code (ky_mcu k)) = usb_usage (ky_usb k)" "0 < usb_usage (ky_usb k)"
    "0 \<le> mk_code (ky_mcu k)" "mk_code (ky_mcu k) < 256"
    by (simp_all add: mk_key_def)
qed

section \<open>The firmware does what an event asks for\<close>

lemma fw_command_args: "length args = 4 \<Longrightarrow> fw_command c (args @ t) = fw_command c args"
  by (simp add: fw_command_def nth_append)

text \<open>How the firmware takes a request that the daemon framed.\<close>

definition fw_executes :: "int \<Rightarrow> fw_action list \<Rightarrow> bool \<Rightarrow> firmware \<Rightarrow> bytes \<Rightarrow> bool" where
  "fw_executes code acts reset fw r =
     (fw_handle_request r fw =
        (code, fw\<lparr>fw_log := fw_log fw @ acts, fw_reset_required := fw_reset_required fw \<or> reset\<rparr>))"

lemma fw_takes_frame:
  assumes "length args = 4" "bytes_ok (c # args)"
  shows "\<exists>r. make_request (c # args) = Inr r \<and> valid_request r \<and> (\<forall>fw.
    fw_handle_request r fw = (case fw_command c args of
        Some (acts, reset) \<Rightarrow>
          (0x80, fw\<lparr>fw_log := fw_log fw @ acts, fw_reset_required := fw_reset_required fw \<or> reset\<rparr>)
      | None \<Rightarrow> (if c = 0x01 \<or> c = 0x05 then 0x80 else if c = 0x02 then 0 else 0x45, fw)))"
proof -
  let ?crc = "make_crc16 (0x33 # c # args)"
  let ?r = "0x33 # (c # args) @ [?crc div 256, ?crc mod 256]"
  have len: "length (c # args) = 5" using assms(1) by simp
  obtain r where r: "make_request (c # args) = Inr r" "valid_request r"
    using make_request_valid [OF len assms(2)] by blast
  have req: "r = ?r" using make_request_eq [OF len assms(2)] r(1) by simp
  obtain x y z w where args: "args = [x, y, z, w]"
    using assms(1) by (auto simp: length_Suc_conv numeral_nat)
  have crc: "get_int BE [?crc div 256, ?crc mod 256] = ?crc"
    by (simp add: get_int_def)
  have "fw_handle_request ?r fw = (case fw_command c args of
        Some (acts, reset) \<Rightarrow>
          (0x80, fw\<lparr>fw_log := fw_log fw @ acts, fw_reset_required := fw_reset_required fw \<or> reset\<rparr>)
      | None \<Rightarrow> (if c = 0x01 \<or> c = 0x05 then 0x80 else if c = 0x02 then 0 else 0x45, fw))" for fw
    using crc fw_command_args [of "[x, y, z, w]" c "[?crc div 256, ?crc mod 256]"]
    unfolding args by (simp add: fw_handle_request_def)
  with r req show ?thesis by blast
qed

lemma dict_get_codes:
  "dict_get KEYBOARD_NAMES_TO_CODES n 0 \<in> {0, 1, 3}"
  "dict_get MOUSE_NAMES_TO_CODES n 0 \<in> {0, 8, 16, 24, 32}"
  by (simp_all add: dict_get_def KEYBOARD_NAMES_TO_CODES_def MOUSE_NAMES_TO_CODES_def)

definition asks_restart :: "mcu_event \<Rightarrow> bool" where
  "asks_restart e = (case e of McuSetKeyboard _ \<Rightarrow> True | McuSetMouse _ \<Rightarrow> True | _ \<Rightarrow> False)"

definition encodes :: "ecodes \<Rightarrow> mcu_event \<Rightarrow> int \<Rightarrow> int list \<Rightarrow> bool" where
  "encodes ec e c args = (event_request ec e = make_request (c # args) \<and> length args = 4 \<and> bytes_ok (c # args)
     \<and> (fw_command c args = Some (event_actions ec e, asks_restart e)
        \<or> c = 0x05 \<and> event_actions ec e = [] \<and> \<not> asks_restart e \<and> fw_command c args = None))"

lemma put_bytes: "put_int BE (Suc 0) x = [x mod 256]" "put_int BE (Suc (Suc 0)) x = [x div 256 mod 256, x mod 256]"
  by (simp_all add: put_int_def)

lemmas pack_bytes = packed_request_def put_bytes numeral_3_eq_3 numeral_2_eq_2

lemma packed_frames:
  assumes "0 \<le> c" "c < 256"
  shows "0 \<le> a \<Longrightarrow> a < 256 \<Longrightarrow> packed_request [FU 1, FU 1, FX 3] [c, a] = make_request [c, a, 0, 0, 0]"
    "0 \<le> a \<Longrightarrow> a < 256 \<Longrightarrow> 0 \<le> b \<Longrightarrow> b < 256 \<Longrightarrow>
      packed_request [FU 1, FU 1, FU 1, FX 2] [c, a, b] = make_request [c, a, b, 0, 0]"
    "- 128 \<le> x \<Longrightarrow> x < 128 \<Longrightarrow> - 128 \<le> y \<Longrightarrow> y < 128 \<Longrightarrow>
      packed_request [FU 1, FS 1, FS 1, FX 2] [c, x, y] = make_request [c, x mod 256, y mod 256, 0, 0]"
    "- 128 \<le> y \<Longrightarrow> y < 128 \<Longrightarrow>
      packed_request [FU 1, FX 1, FS 1, FX 2] [c, y] = make_request [c, 0, y mod 256, 0, 0]"
    "- 32768 \<le> x \<Longrightarrow> x < 32768 \<Longrightarrow> - 32768 \<le> y \<Longrightarrow> y < 32768 \<Longrightarrow>
      packed_request [FU 1, FS 2, FS 2] [c, x, y] =
        make_request [c, x div 256 mod 256, x mod 256, y div 256 mod 256, y mod 256]"
  using assms by (simp_all add: pack_bytes)

lemmas frames = packed_frames [simplified]

lemma get_signed:
  "- 128 \<le> x \<Longrightarrow> x < 128 \<Longrightarrow> get_sint BE 1 [x mod 256] = x"
  "- 32768 \<le> x \<Longrightarrow> x < 32768 \<Longrightarrow> merge8_s16 (x div 256 mod 256) (x mod 256) = x"
  using get_put_sint [of 1 x BE] get_put_sint [of "Suc (Suc 0)" x BE]
  by (simp_all add: put_bytes merge8_s16_def numeral_2_eq_2)

lemma encodes_output:
  "\<exists>args. encodes ec (McuSetKeyboard n) 0x03 args" "\<exists>args. encodes ec (McuSetMouse n) 0x04 args"
proof -
  from dict_get_codes(1) [of n] have "encodes ec (McuSetKeyboard n) 0x03 [dict_get KEYBOARD_NAMES_TO_CODES n 0, 0, 0, 0]"
    by (auto simp: encodes_def frames fw_command_def asks_restart_def)
  then show "\<exists>args. encodes ec (McuSetKeyboard n) 0x03 args" by blast
  from dict_get_codes(2) [of n] have "encodes ec (McuSetMouse n) 0x04 [dict_get MOUSE_NAMES_TO_CODES n 0, 0, 0, 0]"
    by (auto simp: encodes_def frames fw_command_def asks_restart_def)
  then show "\<exists>args. encodes ec (McuSetMouse n) 0x04 args" by blast
qed

lemma encodes_plain: "\<exists>args. encodes ec (McuSetConnected b) 0x05 args" "\<exists>args. encodes ec McuClear 0x10 args"
proof -
  have "encodes ec (McuSetConnected b) 0x05 [of_bool b, 0, 0, 0]"
    by (auto simp: encodes_def frames fw_command_def asks_restart_def)
  then show "\<exists>args. encodes ec (McuSetConnected b) 0x05 args" by blast
  have "encodes ec McuClear 0x10 [0, 0, 0, 0]"
    by (simp add: encodes_def fw_command_def asks_restart_def)
  then show "\<exists>args. encodes ec McuClear 0x10 args" by blast
qed

lemma encodes_key:
  assumes "map_of (keymap ec) code = Some k"
  shows "\<exists>args. encodes ec (McuKey code state) 0x11 args"
proof -
  have "encodes ec (McuKey code state) 0x11 [mk_code (ky_mcu k), of_bool state, 0, 0]"
    using fw_keymap_usage [OF assms] assms
    by (auto simp: encodes_def frames fw_command_def asks_restart_def dict_at_def)
  then show ?thesis by blast
qed

lemma encodes_moves:
  "in_range x \<Longrightarrow> in_range y \<Longrightarrow> \<exists>args. encodes ec (McuMove x y) 0x12 args"
  "in_delta x \<Longrightarrow> in_delta y \<Longrightarrow> \<exists>args. encodes ec (McuRelative x y) 0x15 args"
  "in_delta x \<Longrightarrow> in_delta y \<Longrightarrow> \<exists>args. encodes ec (McuWheel x y) 0x14 args"
proof -
  assume "in_range x" "in_range y"
  then have "encodes ec (McuMove x y) 0x12 [x div 256 mod 256, x mod 256, y div 256 mod 256, y mod 256]"
    by (simp add: encodes_def frames fw_command_def asks_restart_def in_range_def mouse_ranges get_signed)
  then show "\<exists>args. encodes ec (McuMove x y) 0x12 args" by blast
next
  assume d: "in_delta x" "in_delta y"
  then have "encodes ec (McuRelative x y) 0x15 [x mod 256, y mod 256, 0, 0]"
    by (simp add: encodes_def frames fw_command_def asks_restart_def in_delta_def mouse_ranges get_signed [simplified])
  then show "\<exists>args. encodes ec (McuRelative x y) 0x15 args" by blast
  from d have "encodes ec (McuWheel x y) 0x14 [0, y mod 256, 0, 0]"
    using get_signed(1) [of 0]
    by (simp add: encodes_def frames fw_command_def asks_restart_def in_delta_def mouse_ranges get_signed [simplified])
  then show "\<exists>args. encodes ec (McuWheel x y) 0x14 args" by blast
qed

lemma buttons_distinct:
  assumes "ecodes_ok ec"
  shows "distinct (map ec [''BTN_LEFT'', ''BTN_RIGHT'', ''BTN_MIDDLE'', ''BTN_BACK'', ''BTN_FORWARD''])"
  using assms by (simp add: ecodes_ok_def button_names_def)

lemma mouse_buttons_map:
  assumes "ecodes_ok ec"
  shows "map_of (mouse_buttons ec) = map_of [(ec ''BTN_LEFT'', (128, 8, True)), (ec ''BTN_RIGHT'', (64, 4, True)),
     (ec ''BTN_MIDDLE'', (32, 2, True)), (ec ''BTN_BACK'', (128, 8, False)), (ec ''BTN_FORWARD'', (64, 4, False))]"
  unfolding mouse_buttons_def
  by (rule map_of_dict_of_wf) (use buttons_distinct [OF assms] in \<open>simp add: dict_wf_def\<close>)

lemma fw_buttons_bits:
  "fw_buttons (if st then 136 else 128) 0 = [FwButton ''left'' st]"
  "fw_buttons (if st then 68 else 64) 0 = [FwButton ''right'' st]"
  "fw_buttons (if st then 34 else 32) 0 = [FwButton ''middle'' st]"
  "fw_buttons 0 (if st then 136 else 128) = [FwButton ''backward'' st]"
  "fw_buttons 0 (if st then 68 else 64) = [FwButton ''forward'' st]"
  by (cases st; simp add: fw_buttons_def)+

lemma encodes_button:
  assumes "ecodes_ok ec" "mcu_event_ok ec (McuButton code state)"
  shows "\<exists>args. encodes ec (McuButton code state) 0x13 args"
proof -
  have d: "distinct (map ec [''BTN_FORWARD'', ''BTN_BACK'', ''BTN_MIDDLE'', ''BTN_RIGHT'', ''BTN_LEFT''])"
    using buttons_distinct [OF assms(1), folded distinct_rev [of "map ec _"]] by (simp only: list.map rev.simps append.simps)
  have enc: "encodes ec (McuButton code state) 0x13 [a, b, 0, 0]"
    if at: "map_of (mouse_buttons ec) code = Some (c, p, m)"
      and v: "a = (if m then if state then c OR p else c else 0)" "b = (if m then 0 else if state then c OR p else c)"
      and ab: "0 \<le> a" "a < 256" "0 \<le> b" "b < 256"
      and acts: "fw_buttons a b = event_actions ec (McuButton code state)" for a b c p m
  proof -
    have "event_request ec (McuButton code state) = packed_request [FU 1, FU 1, FU 1, FX 2] [0x13, a, b]"
      by (simp add: at v dict_at_def Let_def)
    then have "event_request ec (McuButton code state) = make_request [0x13, a, b, 0, 0]"
      using packed_frames(2) [of "0x13" a b] ab by simp
    then show ?thesis
      using ab acts by (simp add: encodes_def fw_command_def asks_restart_def del: event_actions.simps event_request.simps)
  qed
  consider "code = ec ''BTN_LEFT''" | "code = ec ''BTN_RIGHT''" | "code = ec ''BTN_MIDDLE''"
    | "code = ec ''BTN_BACK''" | "code = ec ''BTN_FORWARD''"
    using assms(2) by auto
  then show ?thesis
  proof cases
    case 1
    have "encodes ec (McuButton code state) 0x13 [if state then 136 else 128, 0, 0, 0]"
      by (rule enc [of 128 8 True]) (use 1 d in \<open>simp_all add: mouse_buttons_map [OF assms(1)] fw_buttons_bits\<close>)
    then show ?thesis by blast
  next
    case 2
    have "encodes ec (McuButton code state) 0x13 [if state then 68 else 64, 0, 0, 0]"
      by (rule enc [of 64 4 True]) (use 2 d in \<open>simp_all add: mouse_buttons_map [OF assms(1)] fw_buttons_bits\<close>)
    then show ?thesis by blast
  next
    case 3
    have "encodes ec (McuButton code state) 0x13 [if state then 34 else 32, 0, 0, 0]"
      by (rule enc [of 32 2 True]) (use 3 d in \<open>simp_all add: mouse_buttons_map [OF assms(1)] fw_buttons_bits\<close>)
    then show ?thesis by blast
  next
    case 4
    have "encodes ec (McuButton code state) 0x13 [0, if state then 136 else 128, 0, 0]"
      by (rule enc [of 128 8 False]) (use 4 d in \<open>simp_all add: mouse_buttons_map [OF assms(1)] fw_buttons_bits\<close>)
    then show ?thesis by blast
  next
    case 5
    have "encodes ec (McuButton code state) 0x13 [0, if state then 68 else 64, 0, 0]"
      by (rule enc [of 64 4 False]) (use 5 d in \<open>simp_all add: mouse_buttons_map [OF assms(1)] fw_buttons_bits\<close>)
    then show ?thesis by blast
  qed
qed

lemma event_encodes:
  assumes "ecodes_ok ec" "mcu_event_ok ec e"
  shows "\<exists>c args. encodes ec e c args"
proof (cases e)
  case (McuSetKeyboard n) then show ?thesis using encodes_output(1) by blast
next
  case (McuSetMouse n) then show ?thesis using encodes_output(2) by blast
next
  case (McuSetConnected b) then show ?thesis using encodes_plain(1) by blast
next
  case McuClear then show ?thesis using encodes_plain(2) by blast
next
  case (McuKey code state)
  with assms(2) obtain k where "map_of (keymap ec) code = Some k" by (auto simp: dict_has_def)
  with McuKey show ?thesis using encodes_key by blast
next
  case (McuButton code state) with assms show ?thesis using encodes_button by blast
next
  case (McuMove x y) with assms(2) show ?thesis using encodes_moves(1) [of x y ec] by auto
next
  case (McuRelative x y) with assms(2) show ?thesis using encodes_moves(2) [of x y ec] by auto
next
  case (McuWheel x y) with assms(2) show ?thesis using encodes_moves(3) [of x y ec] by auto
qed

lemma event_understood:
  assumes "ecodes_ok ec" "mcu_event_ok ec e"
  shows "\<exists>r. event_request ec e = Inr r \<and> valid_request r
    \<and> (\<forall>fw. fw_executes 0x80 (event_actions ec e) (asks_restart e) fw r)"
proof -
  obtain c args where enc: "encodes ec e c args" using event_encodes [OF assms] by blast
  then have frame: "length args = 4" "bytes_ok (c # args)" by (auto simp: encodes_def)
  obtain r where r: "make_request (c # args) = Inr r" "valid_request r"
      and fw: "\<forall>fw. fw_handle_request r fw = (case fw_command c args of
        Some (acts, reset) \<Rightarrow>
          (0x80, fw\<lparr>fw_log := fw_log fw @ acts, fw_reset_required := fw_reset_required fw \<or> reset\<rparr>)
      | None \<Rightarrow> (if c = 0x01 \<or> c = 0x05 then 0x80 else if c = 0x02 then 0 else 0x45, fw))"
    using fw_takes_frame [OF frame] by blast
  have "fw_executes 0x80 (event_actions ec e) (asks_restart e) fw r" for fw
    using enc fw by (auto simp: fw_executes_def encodes_def)
  with enc r show ?thesis by (auto simp: encodes_def)
qed



section \<open>Corrupted messages are noticed\<close>

lemma check_response_detects:
  assumes "check_response r = Inr True" "length r = 4 \<or> length r = 8" "bytes_ok r"
    and "i < length r" "0 \<le> b" "b < 256" "b \<noteq> r ! i"
  shows "check_response (r[i := b]) = Inr False"
proof -
  obtain body p q where r: "r = body @ [p, q]" "0 \<le> p" "p < 256" "0 \<le> q" "q < 256" "bytes_ok body"
    using bytes_split [of r] assms(2,3) by auto
  have len: "length body = 2 \<or> length body = 6" using assms(2) r(1) by auto
  then have crc: "make_crc16 body = 256 * p + q" using assms(1) check_response_crc [OF len, of p q] r(1) by simp
  consider "i < length body" | "i = length body" | "i = Suc (length body)"
    using assms(4) r(1) by fastforce
  then show ?thesis
  proof cases
    case 1
    then have upd: "r[i := b] = body[i := b] @ [p, q]" using r(1) by (simp add: list_update_append)
    have split: "body = take i body @ body ! i # drop (Suc i) body" "body[i := b] = take i body @ b # drop (Suc i) body"
      using 1 by (simp_all add: id_take_nth_drop upd_conv_take_nth_drop)
    have "b \<noteq> body ! i" using assms(7) 1 r(1) by (simp add: nth_append)
    moreover have "bytes_ok (take i body @ body ! i # drop (Suc i) body)" using r(6) split(1) by metis
    ultimately have "make_crc16 (take i body @ body ! i # drop (Suc i) body) \<noteq>
        make_crc16 (take i body @ b # drop (Suc i) body)"
      by (intro crc16_detects_byte_change) (use assms(5,6) in auto)
    then have "make_crc16 (body[i := b]) \<noteq> make_crc16 body" using split by metis
    with crc show ?thesis unfolding upd using check_response_crc [of "body[i := b]" p q] len by simp
  next
    case 2
    then have "r[i := b] = body @ [b, q]" "r ! i = p" using r(1) by (simp_all add: list_update_append nth_append)
    with assms(7) crc show ?thesis using check_response_crc [OF len, of b q] by simp
  next
    case 3
    then have "r[i := b] = body @ [p, b]" "r ! i = q" using r(1) by (simp_all add: list_update_append nth_append)
    with assms(7) crc show ?thesis using check_response_crc [OF len, of p b] by simp
  qed
qed

lemma fw_checks_crc:
  assumes "length data = 8"
  shows "make_crc16 (take 6 data) = get_int BE [data ! 6, data ! 7] \<longleftrightarrow> check_response data = Inr True"
proof -
  have "drop 6 data = [data ! 6, data ! 7]"
    using assms by (simp add: list_eq_iff_nth_eq less_Suc_eq numeral_2_eq_2 nth_append)
  then have "data = take 6 data @ [data ! 6, data ! 7]" by (metis append_take_drop_id)
  moreover have "check_response (take 6 data @ [data ! 6, data ! 7]) =
      Inr (make_crc16 (take 6 data) = 256 * data ! 6 + data ! 7)"
    by (rule check_response_crc) (simp add: assms)
  ultimately have "check_response data = Inr (make_crc16 (take 6 data) = 256 * data ! 6 + data ! 7)" by metis
  then show ?thesis by (simp add: get_int_def algebra_simps)
qed

text \<open>
  C15.  A change of any single byte on the way, the checksum included, is noticed at both ends: the
  firmware answers a CRC error and performs nothing, and the daemon rejects the response.
\<close>

theorem corrupted_byte_noticed:
  assumes "bytes_ok r" "i < length r" "0 \<le> b" "b < 256" "b \<noteq> r ! i"
  shows "(valid_request r \<longrightarrow> fw_handle_request (r[i := b]) fw = (0x40, fw))
    \<and> ((length r = 4 \<or> length r = 8) \<and> check_response r = Inr True \<longrightarrow> check_response (r[i := b]) = Inr False)"
proof (intro conjI impI)
  assume v: "valid_request r"
  then have "check_response (r[i := b]) = Inr False"
    using check_response_detects assms by (simp add: valid_request_def)
  with v fw_checks_crc [of "r[i := b]"] show "fw_handle_request (r[i := b]) fw = (0x40, fw)"
    by (auto simp: valid_request_def fw_handle_request_def)
next
  assume "(length r = 4 \<or> length r = 8) \<and> check_response r = Inr True"
  with assms show "check_response (r[i := b]) = Inr False" by (intro check_response_detects) auto
qed

lemma legacy_ok_valid: "RESPONSE_LEGACY_OK = Inr [0x33, 0x20, 0x98, 0x14] \<and> check_response [0x33, 0x20, 0x98, 0x14] = Inr True"
  by code_simp

theorem corrupted_byte_noticed_witness: "check_response [0x33, 0x21, 0x98, 0x14] = Inr False"
  using corrupted_byte_noticed [of "[0x33, 0x20, 0x98, 0x14]" 1 "0x21"] legacy_ok_valid by simp

end
