(* ===== verification/McuHid.thy ===== *)
theory McuHid
  imports McuFirmware HidBase
begin

text \<open>
  The HID plugin over a microcontroller (\<open>kvmd/plugins/hid/_mcu/__init__.py\<close>) with its serial and
  SPI lines (\<open>serial.py\<close>, \<open>spi.py\<close>): a queue of events, the retries of a request, the flags of the
  state and the loop of the child process.  The line and the power pin are an interface: a record of
  operations on a state of their own.  Logging and sleeping are left out.
\<close>

section \<open>The line\<close>

record 'w mcu_io =
  io_powered :: "('w, bool) sm"
  io_send :: "bytes \<Rightarrow> ('w, bytes) sm"
  io_reset :: "('w, unit) sm"
  io_has_device :: "('w, bool) sm"
  io_connect :: "('w, unit) sm"

text \<open>What a serial port returned to \<open>write\<close>, to \<open>read(4)\<close> and to the second \<open>read(4)\<close>.\<close>

record tty_answer =
  ta_written :: int
  ta_first :: bytes
  ta_rest :: bytes

definition serial_send :: "tty_answer \<Rightarrow> bytes \<Rightarrow> bytes result" where
  "serial_send a req = assertR (length req = 8) (assertR (req ! 0 = 0x33) (assertR (ta_written a = 8)
     (Inr (if length (ta_first a) = 4
           then if ta_first a ! 0 = 0x34
                then (if length (ta_first a @ ta_rest a) \<noteq> 8 then [] else ta_first a @ ta_rest a)
                else ta_first a
           else []))))"

text \<open>The bytes of SPI transfers: zeros before the first byte are skipped, eight bytes are a response.\<close>

fun spi_bytes :: "bytes \<Rightarrow> bytes \<Rightarrow> bytes" where
  "spi_bytes resp [] = resp"
| "spi_bytes resp (b # bs) =
     (if resp = [] \<and> b = 0 then spi_bytes resp bs
      else if length (resp @ [b]) = 8 then resp @ [b]
      else spi_bytes (resp @ [b]) bs)"

fun spi_response :: "bytes \<Rightarrow> bytes list \<Rightarrow> bytes" where
  "spi_response resp [] = []"
| "spi_response resp (chunk # chunks) =
     (let resp' = spi_bytes resp chunk in if length resp' = 8 then resp' else spi_response resp' chunks)"

text \<open>The transfers before each deadline: those that read garbage and those that read the response.\<close>

definition spi_send :: "bytes list \<times> bytes list \<Rightarrow> bytes \<Rightarrow> bytes result" where
  "spi_send xfers req = assertR (length req = 8) (assertR (req ! 0 = 0x33)
     (Inr (if replicate 10 0 \<in> set (fst xfers) then spi_response [] (snd xfers) else [])))"

section \<open>The state\<close>

record 'w mcu =
  mu_common_retries :: nat
  mu_read_retries :: nat
  mu_reset_self :: bool
  mu_noop :: bool
  mu_queue :: "mcu_event list"
  mu_stop :: bool
  mu_reset_required :: bool
  mu_online :: bool
  mu_busy :: bool
  mu_status :: int
  mu_link :: 'w

definition mcu_init :: "nat \<Rightarrow> nat \<Rightarrow> bool \<Rightarrow> bool \<Rightarrow> 'w \<Rightarrow> 'w mcu" where
  "mcu_init common_retries read_retries reset_self noop link =
     \<lparr>mu_common_retries = common_retries, mu_read_retries = read_retries, mu_reset_self = reset_self,
      mu_noop = noop, mu_queue = [], mu_stop = False, mu_reset_required = False, mu_online = False,
      mu_busy = False, mu_status = 0, mu_link = link\<rparr>"

definition on_link :: "('w, 'a) sm \<Rightarrow> ('w mcu, 'a) sm" where
  "on_link m s = (case m (mu_link s) of (r, w) \<Rightarrow> (r, s\<lparr>mu_link := w\<rparr>))"

definition set_state_online :: "bool \<Rightarrow> ('w mcu, unit) sm" where
  "set_state_online online = modifyS (\<lambda>s. s\<lparr>mu_online := online\<rparr>)"

definition set_state_busy :: "bool \<Rightarrow> ('w mcu, unit) sm" where
  "set_state_busy busy = modifyS (\<lambda>s. s\<lparr>mu_busy := busy\<rparr>)"

definition pong_status :: "bytes \<Rightarrow> int" where
  "pong_status resp =
     (let status = push_bit 16 (resp ! 1)
      in if length resp > 4 then status OR (push_bit 8 (resp ! 2) OR resp ! 3) else status)"

definition set_state_pong :: "bytes \<Rightarrow> ('w mcu, unit) sm" where
  "set_state_pong resp =
     (let reset_required = (resp ! 1 AND 64 \<noteq> 0)
      in bindS (modifyS (\<lambda>s. s\<lparr>mu_online := True, mu_busy := reset_required, mu_status := pong_status resp\<rparr>)) (\<lambda>_.
         whenS reset_required (getS (\<lambda>s. if mu_reset_self s then raiseS SelfResetError
           else modifyS (\<lambda>s. s\<lparr>mu_reset_required := True\<rparr>)))))"

section \<open>A request and its retries\<close>

datatype verdict = NoReply | Garbled | BadReply | Rejected | LegacyDone | Pong

definition judge :: "bytes \<Rightarrow> verdict result" where
  "judge resp =
     (if length resp < 4 then Inr NoReply
      else bindR (check_response resp) (\<lambda>valid.
        if \<not> valid then Inr Garbled
        else let code = resp ! 1 in Inr (
          if code = 0x48 then BadReply
          else if code = 0x40 then BadReply
          else if code = 0x45 then Rejected
          else if code = 0x24 then Rejected
          else if code = 0x20 then LegacyDone
          else if code AND 0x80 \<noteq> 0 then Pong
          else BadReply)))"

definition ask :: "'w mcu_io \<Rightarrow> bytes \<Rightarrow> ('w mcu, bytes) sm" where
  "ask io req = getS (\<lambda>s. if mu_noop s then liftS RESPONSE_LEGACY_OK else on_link (io_send io req))"

text \<open>The loop either returns from the function or ends with the value to return on errors.\<close>

datatype loop_end = Returned | Ended bool

fun request_loop :: "'w mcu_io \<Rightarrow> nat \<Rightarrow> nat \<Rightarrow> bytes \<Rightarrow> ('w mcu, loop_end) sm" where
  "request_loop io 0 reads req = bindS (on_link (io_powered io)) (\<lambda>_. retS (Ended False))"
| "request_loop io (Suc common) reads req = bindS (on_link (io_powered io)) (\<lambda>powered.
     if \<not> powered \<or> reads = 0 then retS (Ended False)
     else bindS (ask io req) (\<lambda>resp. bindS (liftS (judge resp)) (\<lambda>v. case v of
         NoReply \<Rightarrow> bindS (set_state_online False) (\<lambda>_. request_loop io common (reads - 1) req)
       | Garbled \<Rightarrow> bindS (liftS REQUEST_REPEAT) (\<lambda>again.
           bindS (set_state_online False) (\<lambda>_. request_loop io common reads again))
       | BadReply \<Rightarrow> bindS (set_state_online False) (\<lambda>_. request_loop io common reads req)
       | Rejected \<Rightarrow> retS (Ended True)
       | LegacyDone \<Rightarrow> bindS (set_state_online True) (\<lambda>_. retS Returned)
       | Pong \<Rightarrow> bindS (set_state_pong resp) (\<lambda>_. retS Returned))))"

definition process_request :: "'w mcu_io \<Rightarrow> bytes \<Rightarrow> ('w mcu, bool) sm" where
  "process_request io req = getS (\<lambda>s.
     bindS (request_loop io (mu_common_retries s) (mu_read_retries s) req) (\<lambda>fin. case fin of
         Returned \<Rightarrow> retS True
       | Ended error_retval \<Rightarrow> bindS (on_link (io_powered io)) (\<lambda>powered.
           if \<not> powered then bindS (set_state_online False) (\<lambda>_. retS True) else retS error_retval)))"

section \<open>The queue and the calls of the daemon\<close>

definition mcu_queue_event :: "mcu_event \<Rightarrow> bool \<Rightarrow> 'w mcu \<Rightarrow> 'w mcu" where
  "mcu_queue_event e clear s =
     (if \<not> mu_stop s then s\<lparr>mu_queue := (if clear then [] else mu_queue s) @ [e]\<rparr> else s)"

definition queue_new :: "ecodes \<Rightarrow> mcu_event \<Rightarrow> bool \<Rightarrow> ('w mcu, unit) sm" where
  "queue_new ec e clear = bindS (liftS (mk_mcu_event ec e)) (\<lambda>e. modifyS (mcu_queue_event e clear))"

definition mcu_clear_events :: "'w mcu \<Rightarrow> 'w mcu" where
  "mcu_clear_events = mcu_queue_event McuClear True"

definition mcu_ops :: "ecodes \<Rightarrow> 'w mcu hid_ops" where
  "mcu_ops ec =
     \<lparr>op_key = (\<lambda>key state. queue_new ec (McuKey key state) False),
      op_button = (\<lambda>button state. queue_new ec (McuButton button state) False),
      op_move = (\<lambda>x y. queue_new ec (McuMove x y) False),
      op_relative = (\<lambda>dx dy. queue_new ec (McuRelative dx dy) False),
      op_wheel = (\<lambda>dx dy. queue_new ec (McuWheel dx dy) False),
      op_clear = modifyS mcu_clear_events\<rparr>"

definition mcu_reset :: "('w mcu, unit) sm" where
  "mcu_reset = modifyS (\<lambda>s. s\<lparr>mu_reset_required := True\<rparr>)"

definition mcu_set_connected :: "ecodes \<Rightarrow> bool \<Rightarrow> ('w mcu, unit) sm" where
  "mcu_set_connected ec connected = queue_new ec (McuSetConnected connected) True"

text \<open>The outputs to set, queued in order; the last one with \<open>clear\<close>.\<close>

definition mcu_set_params ::
  "ecodes \<Rightarrow> string option \<Rightarrow> string option \<Rightarrow> bool option \<Rightarrow> ('w mcu base_hid, unit) sm" where
  "mcu_set_params ec keyboard_output mouse_output jiggler =
     bindS (liftS (mapR (mk_mcu_event ec)
        ((case keyboard_output of Some k \<Rightarrow> [McuSetKeyboard k] | None \<Rightarrow> [])
         @ (case mouse_output of Some m \<Rightarrow> [McuSetMouse m] | None \<Rightarrow> [])))) (\<lambda>events.
     bindS (forS (enumerate 1 events) (\<lambda>(index, e). on_dev (modifyS (mcu_queue_event e (index = length events))))) (\<lambda>_.
     case jiggler of None \<Rightarrow> retS () | Some active \<Rightarrow> modifyS (set_jiggler_active active)))"

section \<open>The state shown to clients\<close>

record outputs_state =
  os_available :: "string list"
  os_active :: string

record mcu_state =
  st_online :: bool
  st_busy :: bool
  st_connected :: "bool option"
  st_kb_online :: bool
  st_caps :: bool
  st_scroll :: bool
  st_num :: bool
  st_kb_outputs :: outputs_state
  st_mouse_online :: bool
  st_absolute :: bool
  st_mouse_outputs :: outputs_state
  st_jiggler :: jiggler_state

definition kb_available :: "int \<Rightarrow> string list" where
  "kb_available outputs2 =
     (let av = (if outputs2 AND 1 \<noteq> 0 then [''usb''] else []) @ (if outputs2 AND 2 \<noteq> 0 then [''ps2''] else [])
      in if av \<noteq> [] then av @ [''disabled''] else av)"

definition mouse_available :: "int \<Rightarrow> string list" where
  "mouse_available outputs2 =
     (let av = (if outputs2 AND 1 \<noteq> 0 then [''usb'', ''usb_rel''] else [])
             @ (if outputs2 AND 4 \<noteq> 0 then [''usb_win98''] else [])
             @ (if outputs2 AND 2 \<noteq> 0 then [''ps2''] else [])
      in if av \<noteq> [] then av @ [''disabled''] else av)"

definition mk_outputs :: "bool \<Rightarrow> string list \<Rightarrow> string \<Rightarrow> outputs_state" where
  "mk_outputs dynamic available active =
     (if dynamic then \<lparr>os_available = available, os_active = (if active \<in> set available then active else [])\<rparr>
      else \<lparr>os_available = [], os_active = []\<rparr>)"

definition mcu_get_state :: "'w mcu base_hid \<Rightarrow> mcu_state \<times> 'w mcu base_hid" where
  "mcu_get_state h =
     (let s = bh_dev h; online = mu_online s; status = mu_status s;
          pong = drop_bit 16 status AND 255; outputs1 = drop_bit 8 status AND 255; outputs2 = status AND 255;
          active_mouse = get_active_mouse outputs1;
          absolute = \<not> (online \<and> active_mouse \<in> {''usb_rel'', ''ps2''});
          h' = set_jiggler_absolute absolute h;
          dynamic = (outputs1 AND 128 \<noteq> 0)
      in (\<lparr>st_online = online, st_busy = mu_busy s,
           st_connected = (if outputs2 AND 128 \<noteq> 0 then Some (outputs2 AND 64 \<noteq> 0) else None),
           st_kb_online = (online \<and> \<not> pong AND 8 \<noteq> 0),
           st_caps = (pong AND 1 \<noteq> 0), st_scroll = (pong AND 2 \<noteq> 0), st_num = (pong AND 4 \<noteq> 0),
           st_kb_outputs = mk_outputs dynamic (kb_available outputs2) (get_active_keyboard outputs1),
           st_mouse_online = (online \<and> \<not> pong AND 16 \<noteq> 0),
           st_absolute = absolute,
           st_mouse_outputs = mk_outputs dynamic (mouse_available outputs2) active_mouse,
           st_jiggler = get_jiggler_state h'\<rparr>, h'))"

section \<open>The loop of the child process\<close>

definition is_output_event :: "mcu_event \<Rightarrow> bool" where
  "is_output_event e = (case e of McuSetKeyboard _ \<Rightarrow> True | McuSetMouse _ \<Rightarrow> True | _ \<Rightarrow> False)"

text \<open>One turn of the loop over a connection; False leaves it.\<close>

definition hid_turn :: "ecodes \<Rightarrow> 'w mcu_io \<Rightarrow> ('w mcu, bool) sm" where
  "hid_turn ec io = getS (\<lambda>s.
     if mu_stop s \<and> mu_queue s = [] then retS False
     else if mu_reset_required s then
       bindS (set_state_busy True) (\<lambda>_. bindS (modifyS (\<lambda>s. s\<lparr>mu_reset_required := False\<rparr>)) (\<lambda>_. retS False))
     else (case mu_queue s of
         [] \<Rightarrow> bindS (liftS REQUEST_PING) (\<lambda>req. bindS (process_request io req) (\<lambda>_. retS True))
       | e # q \<Rightarrow>
           bindS (modifyS (\<lambda>s. s\<lparr>mu_queue := q\<rparr>)) (\<lambda>_.
           bindS (whenS (is_output_event e) (set_state_busy True)) (\<lambda>_.
           bindS (liftS (event_request ec e)) (\<lambda>req.
           bindS (process_request io req) (\<lambda>done.
           bindS (whenS (\<not> done) (modifyS mcu_clear_events)) (\<lambda>_. retS True)))))))"

fun wait_loop :: "'w mcu_io \<Rightarrow> nat \<Rightarrow> ('w mcu, bool) sm" where
  "wait_loop io 0 = retS False"
| "wait_loop io (Suc n) = bindS (on_link (io_has_device io)) (\<lambda>found.
     if found then retS True else getS (\<lambda>s. if mu_stop s then retS False else wait_loop io n))"

definition wait_device :: "'w mcu_io \<Rightarrow> bool \<Rightarrow> ('w mcu, bool) sm" where
  "wait_device io reset = bindS (whenS reset (on_link (io_reset io))) (\<lambda>_. bindS (wait_loop io 10) (\<lambda>found.
     if found then retS True else bindS (set_state_online False) (\<lambda>_. retS False)))"

text \<open>Where the loop is: waiting for the device, with a reset or without, in a connection, or at its end.\<close>

datatype phase = WaitDevice bool | InSession | LoopDone

definition after_error :: "pyerr \<Rightarrow> bool \<Rightarrow> 'w mcu \<Rightarrow> phase \<times> 'w mcu" where
  "after_error e reset s =
     (if e = SelfResetError then (WaitDevice False, s) else (WaitDevice reset, mcu_clear_events s))"

definition hid_loop_step :: "ecodes \<Rightarrow> 'w mcu_io \<Rightarrow> phase \<Rightarrow> 'w mcu \<Rightarrow> phase \<times> 'w mcu" where
  "hid_loop_step ec io ph s = (case ph of
       LoopDone \<Rightarrow> (LoopDone, s)
     | WaitDevice reset \<Rightarrow>
         (if mu_stop s then (LoopDone, s)
          else (case wait_device io reset s of
              (Inl e, t) \<Rightarrow> after_error e reset t
            | (Inr False, t) \<Rightarrow> (WaitDevice reset, t)
            | (Inr True, t) \<Rightarrow> (case on_link (io_connect io) t of
                (Inl e, u) \<Rightarrow> after_error e True u
              | (Inr _, u) \<Rightarrow> (InSession, u))))
     | InSession \<Rightarrow> (case hid_turn ec io s of
           (Inl e, t) \<Rightarrow> after_error e True t
         | (Inr True, t) \<Rightarrow> (InSession, t)
         | (Inr False, t) \<Rightarrow> (WaitDevice True, t)))"

text \<open>The last request of the process, whose errors are swallowed.\<close>

definition subprocess_cleanup :: "ecodes \<Rightarrow> 'w mcu_io \<Rightarrow> 'w mcu \<Rightarrow> 'w mcu" where
  "subprocess_cleanup ec io s = snd (bindS (on_link (io_has_device io)) (\<lambda>found. if found
     then bindS (on_link (io_connect io)) (\<lambda>_. bindS (liftS (event_request ec McuClear)) (\<lambda>req.
          bindS (process_request io req) (\<lambda>_. retS ())))
     else retS ()) s)"

section \<open>Steps that raise nothing but the self reset\<close>

definition tame :: "('s \<Rightarrow> bool) \<Rightarrow> ('s, 'a) sm \<Rightarrow> bool" where
  "tame P m = (\<forall>s. P s \<longrightarrow> P (snd (m s)) \<and> (\<forall>e. fst (m s) = Inl e \<longrightarrow> e = SelfResetError))"

named_theorems tame_rules

lemma tameD: "tame P m \<Longrightarrow> P s \<Longrightarrow> P (snd (m s)) \<and> (\<forall>e. fst (m s) = Inl e \<longrightarrow> e = SelfResetError)"
  by (simp add: tame_def)

lemma tame_retS [tame_rules]: "tame P (retS a)"
  by (simp add: tame_def retS_def)

lemma tame_works: "works P m Q \<Longrightarrow> tame P m"
  by (force simp: tame_def works_def)

lemma tame_bindS [tame_rules]: "tame P m \<Longrightarrow> (\<And>a. tame P (f a)) \<Longrightarrow> tame P (bindS m f)"
  by (fastforce simp: tame_def bindS_cases split: sum.splits)

lemma tame_bind_works: "works P m Q \<Longrightarrow> (\<And>a. Q a \<Longrightarrow> tame P (f a)) \<Longrightarrow> tame P (bindS m f)"
  by (fastforce simp: tame_def works_def bindS_cases split: sum.splits)

lemma tame_getS: "(\<And>s. P s \<Longrightarrow> tame P (f s)) \<Longrightarrow> tame P (getS f)"
  by (simp add: tame_def getS_def)

lemma tame_modifyS: "(\<And>s. P s \<Longrightarrow> P (f s)) \<Longrightarrow> tame P (modifyS f)"
  by (simp add: tame_def modifyS_def)

lemma tame_whenS [tame_rules]: "tame P m \<Longrightarrow> tame P (whenS b m)"
  by (simp add: tame_def whenS_def retS_def)

lemma tame_if [tame_rules]: "(b \<Longrightarrow> tame P m) \<Longrightarrow> (\<not> b \<Longrightarrow> tame P n) \<Longrightarrow> tame P (if b then m else n)"
  by simp

section \<open>A line that answers with four, eight or no bytes\<close>

lemma judge_works: "length resp \<in> {0, 4, 8} \<Longrightarrow> \<exists>v. judge resp = Inr v"
  by (auto simp: judge_def check_response_def unpack_from_def Let_def)

lemma request_repeat_valid: "\<exists>r. REQUEST_REPEAT = Inr r \<and> valid_request r"
    "\<exists>r. REQUEST_PING = Inr r \<and> valid_request r"
  using make_request_valid [of "[2, 0, 0, 0, 0]"] make_request_valid [of "[1, 0, 0, 0, 0]"]
  by (auto simp: REQUEST_REPEAT_def REQUEST_PING_def)

definition queue_ok :: "ecodes \<Rightarrow> 'w mcu \<Rightarrow> bool" where
  "queue_ok ec s = list_all (mcu_event_ok ec) (mu_queue s)"

locale mcu_line =
  fixes io :: "'w mcu_io" and good :: "'w \<Rightarrow> bool"
  assumes powered_works: "works good (io_powered io) (\<lambda>_. True)"
    and send_works: "valid_request req \<Longrightarrow> works good (io_send io req) (\<lambda>resp. length resp \<in> {0, 4, 8})"
    and reset_keeps: "keeps good (io_reset io)"
    and has_device_keeps: "keeps good (io_has_device io)"
    and connect_keeps: "keeps good (io_connect io)"
begin

definition mcu_good :: "ecodes \<Rightarrow> 'w mcu \<Rightarrow> bool" where
  "mcu_good ec s = (good (mu_link s) \<and> queue_ok ec s)"

lemma on_link_works: "works good m Q \<Longrightarrow> works (mcu_good ec) (on_link m) Q"
  by (fastforce simp: works_def on_link_def mcu_good_def queue_ok_def split: prod.splits)

lemmas link_powered = on_link_works [OF powered_works]

lemma ask_works:
  assumes "valid_request req"
  shows "works (mcu_good ec) (ask io req) (\<lambda>resp. length resp \<in> {0, 4, 8})"
  unfolding ask_def
  by (intro works_getS works_if on_link_works send_works assms) (use legacy_ok_valid in \<open>auto intro!: works_liftS\<close>)

lemma tame_flags: "tame (mcu_good ec) (set_state_online b)" "tame (mcu_good ec) (set_state_busy b)"
  unfolding set_state_online_def set_state_busy_def
  by (rule tame_modifyS; simp add: mcu_good_def queue_ok_def)+

lemma tame_pong: "tame (mcu_good ec) (set_state_pong resp)"
proof -
  have raise: "tame (mcu_good ec) (raiseS SelfResetError)" by (simp add: tame_def raiseS_def)
  show ?thesis
    unfolding set_state_pong_def Let_def
    by (intro tame_bindS tame_whenS tame_getS tame_if raise tame_modifyS) (simp_all add: mcu_good_def queue_ok_def)
qed

lemma request_loop_tame: "valid_request req \<Longrightarrow> tame (mcu_good ec) (request_loop io common reads req)"
proof (induction common arbitrary: reads req)
  case 0
  show ?case by (simp, intro tame_bind_works [OF link_powered] tame_retS)
next
  case (Suc c)
  obtain again where again: "REQUEST_REPEAT = Inr again" "valid_request again" using request_repeat_valid(1) by blast
  have judged: "tame (mcu_good ec) (bindS (liftS (judge resp)) k)"
    if "length resp \<in> {0, 4, 8}" "\<And>v. tame (mcu_good ec) (k v)" for resp k
    using judge_works [OF that(1)] that(2) by auto
  have next_try: "tame (mcu_good ec) (bindS (set_state_online b) (\<lambda>_. request_loop io c n r))"
    if "valid_request r" for b n r
    by (intro tame_bindS tame_flags Suc.IH that)
  show ?case
    unfolding request_loop.simps
    by (intro tame_bind_works [OF link_powered] tame_if tame_retS tame_bind_works [OF ask_works [OF Suc.prems]] judged)
      (auto split: verdict.splits simp: again intro!: next_try tame_bindS tame_retS tame_flags tame_pong Suc.prems again(2))
qed

lemma process_request_tame:
  assumes "valid_request req"
  shows "tame (mcu_good ec) (process_request io req)"
  unfolding process_request_def
  by (intro tame_getS tame_bindS request_loop_tame assms)
    (auto split: loop_end.splits intro!: tame_retS tame_bind_works [OF link_powered] tame_bindS tame_flags)

lemma tame_clear: "tame (mcu_good ec) (modifyS mcu_clear_events)"
  by (rule tame_modifyS) (simp add: mcu_good_def queue_ok_def mcu_clear_events_def mcu_queue_event_def)

lemma hid_turn_tame:
  assumes "ecodes_ok ec"
  shows "tame (mcu_good ec) (hid_turn ec io)"
  unfolding hid_turn_def
proof (rule tame_getS)
  fix s :: "'w mcu"
  assume s: "mcu_good ec s"
  obtain ping where ping: "REQUEST_PING = Inr ping" "valid_request ping" using request_repeat_valid(2) by blast
  have ping_turn: "tame (mcu_good ec) (bindS (liftS REQUEST_PING) (\<lambda>req. bindS (process_request io req) (\<lambda>_. retS True)))"
    by (simp add: ping(1)) (intro tame_bindS process_request_tame ping(2) tame_retS)
  have busy: "tame (mcu_good ec) (modifyS (\<lambda>s. s\<lparr>mu_reset_required := False\<rparr>))"
    by (rule tame_modifyS) (simp add: mcu_good_def queue_ok_def)
  have event: "tame (mcu_good ec) (bindS (modifyS (\<lambda>s. s\<lparr>mu_queue := q\<rparr>)) (\<lambda>_.
           bindS (whenS (is_output_event e) (set_state_busy True)) (\<lambda>_.
           bindS (liftS (event_request ec e)) (\<lambda>req.
           bindS (process_request io req) (\<lambda>done.
           bindS (whenS (\<not> done) (modifyS mcu_clear_events)) (\<lambda>_. retS True))))))"
    if q: "mu_queue s = e # q" for e q
  proof -
    have ok: "mcu_event_ok ec e" "list_all (mcu_event_ok ec) q" using s q by (simp_all add: mcu_good_def queue_ok_def)
    obtain req where req: "event_request ec e = Inr req" "valid_request req"
      using event_encodes [OF assms ok(1)] fw_takes_frame by (fastforce simp: encodes_def)
    have pop: "tame (mcu_good ec) (modifyS (\<lambda>s. s\<lparr>mu_queue := q\<rparr>))"
      by (rule tame_modifyS) (simp add: mcu_good_def queue_ok_def ok(2))
    show ?thesis
      unfolding req by (simp, intro tame_bindS pop tame_whenS tame_flags process_request_tame req(2) tame_clear tame_retS)
  qed
  show "tame (mcu_good ec) (if mu_stop s \<and> mu_queue s = [] then retS False
     else if mu_reset_required s then
       bindS (set_state_busy True) (\<lambda>_. bindS (modifyS (\<lambda>s. s\<lparr>mu_reset_required := False\<rparr>)) (\<lambda>_. retS False))
     else (case mu_queue s of
         [] \<Rightarrow> bindS (liftS REQUEST_PING) (\<lambda>req. bindS (process_request io req) (\<lambda>_. retS True))
       | e # q \<Rightarrow>
           bindS (modifyS (\<lambda>s. s\<lparr>mu_queue := q\<rparr>)) (\<lambda>_.
           bindS (whenS (is_output_event e) (set_state_busy True)) (\<lambda>_.
           bindS (liftS (event_request ec e)) (\<lambda>req.
           bindS (process_request io req) (\<lambda>done.
           bindS (whenS (\<not> done) (modifyS mcu_clear_events)) (\<lambda>_. retS True)))))))"
    by (auto split: list.splits intro!: ping_turn event tame_bindS tame_flags busy tame_retS)
qed

lemma keeps_on_link: "keeps good m \<Longrightarrow> keeps (mcu_good ec) (on_link m)"
  by (auto simp: keeps_def on_link_def mcu_good_def queue_ok_def split: prod.splits)

lemma keeps_wait_loop: "keeps (mcu_good ec) (wait_loop io n)"
proof (induction n)
  case (Suc n)
  then show ?case
    by (auto intro!: keeps_bindS keeps_on_link has_device_keeps keeps_if keeps_retS keeps_getS_in)
qed (simp add: keeps_retS)

lemma keeps_wait_device: "keeps (mcu_good ec) (wait_device io reset)"
proof -
  have online: "keeps (mcu_good ec) (set_state_online b)" for b
    using tame_flags(1) [of ec b] by (simp add: keeps_def tame_def)
  show ?thesis
    unfolding wait_device_def
    by (intro keeps_bindS keeps_whenS keeps_on_link reset_keeps keeps_wait_loop keeps_if keeps_retS online)
qed

lemma clear_good: "mcu_good ec s \<Longrightarrow> mcu_good ec (mcu_clear_events s)"
  by (simp add: mcu_good_def queue_ok_def mcu_clear_events_def mcu_queue_event_def)

lemma loop_step_good:
  assumes "ecodes_ok ec" "mcu_good ec s"
  shows "mcu_good ec (snd (hid_loop_step ec io ph s))"
proof -
  have err: "mcu_good ec t \<Longrightarrow> mcu_good ec (snd (after_error e r t))" for e r t
    by (simp add: after_error_def clear_good)
  have turn: "mcu_good ec (snd (hid_turn ec io s))" using tameD [OF hid_turn_tame [OF assms(1)] assms(2)] by blast
  have wait: "mcu_good ec (snd (wait_device io r s))" for r using keepsD [OF keeps_wait_device assms(2)] .
  have conn: "mcu_good ec t \<Longrightarrow> mcu_good ec (snd (on_link (io_connect io) t))" for t
    using keepsD [OF keeps_on_link [OF connect_keeps]] .
  show ?thesis
  proof (cases ph)
    case (WaitDevice r)
    obtain x t where w: "wait_device io r s = (x, t)" by fastforce
    obtain y u where c: "on_link (io_connect io) t = (y, u)" by fastforce
    have "mcu_good ec t" using wait [of r] w by simp
    moreover have "mcu_good ec u" using conn [of t] calculation c by simp
    ultimately show ?thesis using WaitDevice w c assms(2) err by (auto simp: hid_loop_step_def split: sum.splits bool.splits)
  next
    case InSession
    obtain x t where "hid_turn ec io s = (x, t)" by fastforce
    with InSession turn err show ?thesis by (auto simp: hid_loop_step_def split: sum.splits bool.splits)
  next
    case LoopDone
    with assms(2) show ?thesis by (simp add: hid_loop_step_def)
  qed
qed

end

section \<open>Serial and SPI lines\<close>

fun pop :: "'a \<Rightarrow> 'a list \<Rightarrow> 'a \<times> 'a list" where
  "pop d [] = (d, [])"
| "pop d (x # xs) = (x, xs)"

text \<open>
  A line with what its port, its power pin and its device file are going to answer; when the answers
  run out, the device is there, powered and silent.
\<close>

record 'a line =
  ln_answers :: "'a list"
  ln_power :: "bool list"
  ln_present :: "bool list"
  ln_opens :: "bool list"

definition line_io :: "'a \<Rightarrow> ('a \<Rightarrow> bytes \<Rightarrow> bytes result) \<Rightarrow> 'a line mcu_io" where
  "line_io silent send =
     \<lparr>io_powered = (\<lambda>l. case pop True (ln_power l) of (p, ps) \<Rightarrow> (Inr p, l\<lparr>ln_power := ps\<rparr>)),
      io_send = (\<lambda>req l. case pop silent (ln_answers l) of (a, as) \<Rightarrow> (send a req, l\<lparr>ln_answers := as\<rparr>)),
      io_reset = retS (),
      io_has_device = (\<lambda>l. case pop True (ln_present l) of (p, ps) \<Rightarrow> (Inr p, l\<lparr>ln_present := ps\<rparr>)),
      io_connect = (\<lambda>l. case pop True (ln_opens l) of (p, ps) \<Rightarrow>
        (if p then Inr () else Inl OSError, l\<lparr>ln_opens := ps\<rparr>))\<rparr>"

definition serial_io :: "tty_answer line mcu_io" where
  "serial_io = line_io \<lparr>ta_written = 8, ta_first = [], ta_rest = []\<rparr> serial_send"

definition spi_io :: "(bytes list \<times> bytes list) line mcu_io" where
  "spi_io = line_io ([], []) spi_send"

text \<open>The port writes a request of eight bytes whole, and \<open>read(4)\<close> returns at most four bytes.\<close>

definition tty_ok :: "tty_answer \<Rightarrow> bool" where
  "tty_ok a = (ta_written a = 8 \<and> length (ta_first a) \<le> 4 \<and> length (ta_rest a) \<le> 4)"

definition line_ok :: "('a \<Rightarrow> bool) \<Rightarrow> 'a line \<Rightarrow> bool" where
  "line_ok p l = list_all p (ln_answers l)"

lemma pop_all: "p d \<Longrightarrow> list_all p xs \<Longrightarrow> p (fst (pop d xs)) \<and> list_all p (snd (pop d xs))"
  by (cases xs) auto

lemma spi_response_length: "length (spi_response resp chunks) \<in> {0, 8}"
  by (induction resp chunks rule: spi_response.induct) (auto simp: Let_def)

lemma valid_request_head: "valid_request r \<Longrightarrow> length r = 8 \<and> r ! 0 = 0x33"
  by (cases r) (simp_all add: valid_request_def)

lemma line_io_line:
  assumes "p silent" and "\<And>a req. p a \<Longrightarrow> valid_request req \<Longrightarrow> \<exists>resp. send a req = Inr resp \<and> length resp \<in> {0, 4, 8}"
  shows "mcu_line (line_io silent send) (line_ok p)"
proof
  show "works (line_ok p) (io_powered (line_io silent send)) (\<lambda>_. True)"
    by (auto simp: line_io_def works_def line_ok_def split: prod.splits)
  show "works (line_ok p) (io_send (line_io silent send) req) (\<lambda>resp. length resp \<in> {0, 4, 8})"
    if "valid_request req" for req
    unfolding works_def
  proof (intro allI impI)
    fix l assume "line_ok p l"
    then have "p (fst (pop silent (ln_answers l)))" "list_all p (snd (pop silent (ln_answers l)))"
      using pop_all [of p silent, OF assms(1)] by (auto simp: line_ok_def)
    with assms(2) [OF _ that] show "\<exists>a t. io_send (line_io silent send) req l = (Inr a, t) \<and> line_ok p t \<and> length a \<in> {0, 4, 8}"
      by (fastforce simp: line_io_def line_ok_def case_prod_unfold)
  qed
qed (auto simp: line_io_def keeps_def line_ok_def retS_def split: prod.splits)

interpretation serial_line: mcu_line serial_io "line_ok tty_ok"
  unfolding serial_io_def
  by (rule line_io_line) (auto simp: tty_ok_def serial_send_def dest: valid_request_head)

lemma spi_send_ok: "valid_request req \<Longrightarrow> \<exists>resp. spi_send x req = Inr resp \<and> length resp \<in> {0, 4, 8}"
  using valid_request_head [of req] spi_response_length [of "[]" "snd x"] by (auto simp: spi_send_def)

interpretation spi_line: mcu_line spi_io "line_ok (\<lambda>_. True)"
  unfolding spi_io_def by (rule line_io_line) (auto dest: spi_send_ok)

section \<open>The plugin as a whole\<close>

datatype mcu_call =
    McuSendKey int bool bool
  | McuSendKeys "(int \<times> bool \<times> int) list" bool
  | McuSendButton int bool
  | McuSendMove int int
  | McuSendRelative "(int \<times> int) list" bool
  | McuSendWheel "(int \<times> int) list" bool
  | McuClearEvents
  | McuReset
  | McuConnect bool
  | McuSetParams "string option" "string option" "bool option"
  | McuJiggle "nat \<Rightarrow> int"

fun mcu_exec :: "ecodes \<Rightarrow> int \<Rightarrow> mcu_call \<Rightarrow> ('w mcu base_hid, unit) sm" where
  "mcu_exec ec now (McuSendKey key state finish) = send_key_event ec (mcu_ops ec) now key state finish"
| "mcu_exec ec now (McuSendKeys keys no_ignore) = send_key_events ec (mcu_ops ec) no_ignore keys"
| "mcu_exec ec now (McuSendButton button state) = send_mouse_button_event (mcu_ops ec) now button state"
| "mcu_exec ec now (McuSendMove x y) = send_mouse_move_event (mcu_ops ec) now x y"
| "mcu_exec ec now (McuSendRelative ds squash) = send_mouse_relative_events (mcu_ops ec) now ds squash"
| "mcu_exec ec now (McuSendWheel ds squash) = send_mouse_wheel_events (mcu_ops ec) now ds squash"
| "mcu_exec ec now McuClearEvents = clear_events (mcu_ops ec)"
| "mcu_exec ec now McuReset = on_dev mcu_reset"
| "mcu_exec ec now (McuConnect connected) = on_dev (mcu_set_connected ec connected)"
| "mcu_exec ec now (McuSetParams keyboard mouse jiggler) = mcu_set_params ec keyboard mouse jiggler"
| "mcu_exec ec now (McuJiggle nows) = jiggle (mcu_ops ec) nows"

inductive mcu_step :: "ecodes \<Rightarrow> 'w mcu_io \<Rightarrow> phase \<times> 'w mcu base_hid \<Rightarrow> phase \<times> 'w mcu base_hid \<Rightarrow> bool"
  for ec io where
  Call: "mcu_step ec io (ph, h) (ph, snd (mcu_exec ec now call h))"
| Show: "mcu_step ec io (ph, h) (ph, snd (mcu_get_state h))"
| Loop: "hid_loop_step ec io ph (bh_dev h) = (ph', s) \<Longrightarrow> mcu_step ec io (ph, h) (ph', h\<lparr>bh_dev := s\<rparr>)"
| Stop: "mcu_step ec io (ph, h) (ph, h\<lparr>bh_dev := (bh_dev h)\<lparr>mu_stop := True\<rparr>\<rparr>)"

inductive_cases mcu_stepE: "mcu_step ec io p q"

definition mcu_started :: "nat \<Rightarrow> nat \<Rightarrow> bool \<Rightarrow> bool \<Rightarrow> 'w \<Rightarrow> 'w mcu base_hid \<Rightarrow> bool" where
  "mcu_started common reads reset_self noop w h = (bh_dev h = mcu_init common reads reset_self noop w)"

context mcu_line
begin

lemma keeps_queue_new: "keeps (mcu_good ec) (queue_new ec e clear)"
  unfolding queue_new_def
  by (rule keeps_bind_liftS, rule keeps_modifyS)
    (auto simp: mk_mcu_event_def assertR_Inr_iff mcu_good_def queue_ok_def mcu_queue_event_def)

sublocale calls: hid_backend "mcu_ops ec" "mcu_good ec" for ec
proof
  show "keeps (mcu_good ec) (op_clear (mcu_ops ec))"
    by (simp add: mcu_ops_def keeps_modifyS clear_good)
qed (simp_all add: mcu_ops_def keeps_queue_new)

lemma keeps_on_dev_good: "keeps (mcu_good ec) m \<Longrightarrow> mcu_good ec (bh_dev h) \<Longrightarrow> mcu_good ec (bh_dev (snd (on_dev m h)))"
  using calls.keeps_on_dev [of ec m "bh_j_absolute h"]
  by (simp add: keeps_def calls.dev_good_def)

lemma set_params_good:
  assumes "mcu_good ec (bh_dev h)"
  shows "mcu_good ec (bh_dev (snd (mcu_set_params ec keyboard mouse jiggler h)))"
proof -
  have queued: "keeps (\<lambda>h. mcu_good ec (bh_dev h)) (forS (enumerate n es) (\<lambda>(index, e).
      on_dev (modifyS (mcu_queue_event e (index = k)))))" if "list_all (mcu_event_ok ec) es" for n es k
  proof (rule keeps_forS)
    fix x assume "x \<in> set (enumerate n es)"
    then have "fst x - n < length es" "es ! (fst x - n) = snd x" by (auto simp: in_set_enumerate_eq)
    then have "mcu_event_ok ec (snd x)" using that by (metis list_all_length)
    then have "keeps (mcu_good ec) (modifyS (mcu_queue_event (snd x) (fst x = k)))"
      by (intro keeps_modifyS) (simp add: mcu_good_def queue_ok_def mcu_queue_event_def)
    then show "keeps (\<lambda>h. mcu_good ec (bh_dev h)) (case x of (index, e) \<Rightarrow> on_dev (modifyS (mcu_queue_event e (index = k))))"
      unfolding keeps_def [of "\<lambda>h. mcu_good ec (bh_dev h)"] by (auto simp: keeps_on_dev_good split: prod.splits)
  qed
  have made: "list_all (mcu_event_ok ec) es" if "mapR (mk_mcu_event ec) xs = Inr es" for xs es
    using that by (induction xs arbitrary: es) (auto simp: bindR_Inr_iff mk_mcu_event_def assertR_Inr_iff)
  have "keeps (\<lambda>h. mcu_good ec (bh_dev h)) (mcu_set_params ec keyboard mouse jiggler)"
    unfolding mcu_set_params_def
  proof (rule keeps_bind_liftS)
    fix es
    assume "mapR (mk_mcu_event ec)
        ((case keyboard of Some k \<Rightarrow> [McuSetKeyboard k] | None \<Rightarrow> [])
         @ (case mouse of Some m \<Rightarrow> [McuSetMouse m] | None \<Rightarrow> [])) = Inr es"
    then have "list_all (mcu_event_ok ec) es" by (rule made)
    then show "keeps (\<lambda>h. mcu_good ec (bh_dev h)) (bindS (forS (enumerate 1 es) (\<lambda>(index, e).
        on_dev (modifyS (mcu_queue_event e (index = length es))))) (\<lambda>_.
        case jiggler of None \<Rightarrow> retS () | Some active \<Rightarrow> modifyS (set_jiggler_active active)))"
      by (intro keeps_bindS queued) (auto split: option.splits intro!: keeps_retS keeps_modifyS
          simp: set_jiggler_active_def)
  qed
  then show ?thesis using assms by (rule keepsD)
qed

lemma mcu_exec_good:
  assumes "mcu_good ec (bh_dev h)"
  shows "mcu_good ec (bh_dev (snd (mcu_exec ec now call h)))"
proof -
  note ks = calls.keeps_send_key_event calls.keeps_send_key_events calls.keeps_send_button
    calls.keeps_send_move calls.keeps_send_deltas calls.keeps_clear calls.keeps_jiggle
  have base: "mcu_good ec (bh_dev (snd (m h)))" if "keeps (calls.dev_good ec (bh_j_absolute h)) m" for m :: "('w mcu base_hid, unit) sm"
    using keepsD [OF that] assms by (simp add: calls.dev_good_def)
  have reset: "keeps (mcu_good ec) mcu_reset"
    unfolding mcu_reset_def by (rule keeps_modifyS) (simp add: mcu_good_def queue_ok_def)
  show ?thesis
    by (cases call) (simp_all add: base ks keeps_on_dev_good reset mcu_set_connected_def keeps_queue_new set_params_good assms)
qed

lemma mcu_step_good:
  assumes "ecodes_ok ec" "mcu_step ec io p q" "mcu_good ec (bh_dev (snd p))"
  shows "mcu_good ec (bh_dev (snd q))"
  using assms(2)
proof (cases rule: mcu_step.cases)
  case (Call ph h now call)
  then show ?thesis using mcu_exec_good assms(3) by simp
next
  case (Show ph h)
  then show ?thesis using assms(3) by (simp add: mcu_get_state_def Let_def set_jiggler_absolute_def)
next
  case (Loop ph h ph' s)
  then show ?thesis using loop_step_good [OF assms(1), of "bh_dev h" ph] assms(3) by simp
next
  case (Stop ph h)
  then show ?thesis using assms(3) by (simp add: mcu_good_def queue_ok_def)
qed

lemma mcu_reachable_good:
  assumes "ecodes_ok ec" "(mcu_step ec io)\<^sup>*\<^sup>* p q" "mcu_good ec (bh_dev (snd p))"
  shows "mcu_good ec (bh_dev (snd q))"
  using assms(2,3) by (induction rule: rtranclp_induct) (auto intro: mcu_step_good [OF assms(1)])

lemma reachable_turn:
  assumes "ecodes_ok ec" "(mcu_step ec io)\<^sup>*\<^sup>* (WaitDevice True, h) (ph, h')"
    and "mcu_started common reads reset_self noop w h" "good w"
  shows "\<forall>e. fst (hid_turn ec io (bh_dev h')) = Inl e \<longrightarrow> e = SelfResetError"
proof -
  have "mcu_good ec (bh_dev h)" using assms(3,4) by (simp add: mcu_started_def mcu_init_def mcu_good_def queue_ok_def)
  then have "mcu_good ec (bh_dev h')" using mcu_reachable_good [OF assms(1,2)] by simp
  then show ?thesis using tameD [OF hid_turn_tame [OF assms(1)]] by blast
qed

end


definition quiet_line :: "'a line" where
  "quiet_line = \<lparr>ln_answers = [], ln_power = [], ln_present = [], ln_opens = []\<rparr>"

definition sample_mcu :: "'w \<Rightarrow> 'w mcu base_hid" where
  "sample_mcu w = \<lparr>bh_ignore_keys = [], bh_x_range = (range_min, range_max), bh_y_range = (range_min, range_max),
     bh_j_enabled = False, bh_j_interval = 60, bh_j_active = False, bh_j_absolute = True, bh_activity_ts = 0,
     bh_last_x = 0, bh_last_y = 0, bh_dev = mcu_init 5 5 False False w\<rparr>"


section \<open>A failed request leaves only a clear\<close>

definition work_of :: "'w mcu \<Rightarrow> mcu_event list \<times> bool \<times> nat \<times> nat" where
  "work_of s = (mu_queue s, mu_stop s, mu_common_retries s, mu_read_retries s)"

named_theorems work_rules

lemma work_on_link [work_rules]: "keeps (\<lambda>s. work_of s = w) (on_link m)"
  by (auto simp: keeps_def on_link_def work_of_def split: prod.splits)

lemma work_flags [work_rules]: "keeps (\<lambda>s. work_of s = w) (set_state_online b)"
    "keeps (\<lambda>s. work_of s = w) (set_state_busy b)"
  unfolding set_state_online_def set_state_busy_def by (rule keeps_modifyS; simp add: work_of_def)+

lemma work_liftS [work_rules]: "keeps P (liftS x)"
  by (simp add: keeps_def liftS_def)

lemma work_pong [work_rules]: "keeps (\<lambda>s. work_of s = w) (set_state_pong resp)"
  unfolding set_state_pong_def Let_def
  by (intro keeps_bindS keeps_whenS keeps_getS_in keeps_if keeps_raiseS keeps_modifyS) (simp_all add: work_of_def)

lemma work_ask [work_rules]: "keeps (\<lambda>s. work_of s = w) (ask io req)"
  unfolding ask_def by (intro keeps_getS_in keeps_if work_rules)

lemma work_request_loop: "keeps (\<lambda>s. work_of s = w) (request_loop io common reads req)"
proof (induction common arbitrary: reads req)
  case 0
  show ?case by (simp, intro keeps_bindS work_rules keeps_retS)
next
  case (Suc c)
  show ?case
    unfolding request_loop.simps
    by (intro keeps_bindS work_rules keeps_if keeps_retS)
      (auto split: verdict.splits intro!: keeps_bindS work_rules keeps_retS Suc.IH)
qed

lemma work_process_request: "keeps (\<lambda>s. work_of s = w) (process_request io req)"
  unfolding process_request_def
  by (intro keeps_getS_in keeps_bindS work_request_loop)
    (auto split: loop_end.splits intro!: keeps_retS keeps_bindS work_rules)

lemma turn_event:
  assumes "mu_queue s = e # q" "\<not> mu_reset_required s" "event_request ec e = Inr req"
  shows "hid_turn ec io s = bindS (process_request io req) (\<lambda>done.
           bindS (whenS (\<not> done) (modifyS mcu_clear_events)) (\<lambda>_. retS True))
           (s\<lparr>mu_queue := q, mu_busy := (mu_busy s \<or> is_output_event e)\<rparr>)"
  using assms by (simp add: hid_turn_def bindS_def sm_defs set_state_busy_def)

text \<open>
  When the request of an event fails for good, the turn drops everything queued behind it and
  leaves a single clear, so that no key or button stays pressed; otherwise the queue moves on by one.
\<close>

theorem failed_event_leaves_clear:
  assumes "mu_queue s = e # q" "\<not> mu_reset_required s" "\<not> mu_stop s" "event_request ec e = Inr req"
    and "process_request io req (s\<lparr>mu_queue := q, mu_busy := (mu_busy s \<or> is_output_event e)\<rparr>) = (Inr done, t)"
  shows "fst (hid_turn ec io s) = Inr True
    \<and> mu_queue (snd (hid_turn ec io s)) = (if done then q else [McuClear])"
proof -
  have "work_of t = work_of (s\<lparr>mu_queue := q, mu_busy := (mu_busy s \<or> is_output_event e)\<rparr>)"
    using keepsD [OF work_process_request [of "work_of (s\<lparr>mu_queue := q, mu_busy := (mu_busy s \<or> is_output_event e)\<rparr>)"] refl, of io req] assms(5)
    by simp
  then have "mu_queue t = q" "\<not> mu_stop t" using assms(3) by (simp_all add: work_of_def)
  then show ?thesis
    using turn_event [OF assms(1,2,4)] assms(5)
    by (cases "done") (simp_all add: bindS_def sm_defs mcu_clear_events_def mcu_queue_event_def)
qed

theorem failed_event_leaves_clear_witness:
  "mu_queue (snd (hid_turn count_names serial_io
     ((mcu_init 5 5 False False quiet_line)\<lparr>mu_queue := [McuMove 1 2, McuMove 3 4]\<rparr>))) = [McuClear]"
proof -
  let ?s = "(mcu_init 5 5 False False (quiet_line :: tty_answer line))\<lparr>mu_queue := [McuMove 1 2, McuMove 3 4]\<rparr>"
  obtain req where req: "event_request count_names (McuMove 1 2) = Inr req" "valid_request req"
    using event_understood [OF count_names_ok, of "McuMove 1 2"]
    by (auto simp: in_range_def mouse_ranges simp del: event_request.simps)
  have head: "serial_send \<lparr>ta_written = 8, ta_first = [], ta_rest = []\<rparr> req = Inr []"
    using valid_request_head [OF req(2)] by (simp add: serial_send_def)
  have "\<exists>t. process_request serial_io req (?s\<lparr>mu_queue := [McuMove 3 4],
      mu_busy := (mu_busy ?s \<or> is_output_event (McuMove 1 2))\<rparr>) = (Inr False, t)"
    by (simp add: process_request_def bindS_def sm_defs mcu_init_def quiet_line_def ask_def on_link_def numeral_nat
        serial_io_def line_io_def head judge_def set_state_online_def)
  then obtain t where t: "process_request serial_io req (?s\<lparr>mu_queue := [McuMove 3 4],
      mu_busy := (mu_busy ?s \<or> is_output_event (McuMove 1 2))\<rparr>) = (Inr False, t)" ..
  have "mu_queue ?s = [McuMove 1 2, McuMove 3 4]" "\<not> mu_reset_required ?s" "\<not> mu_stop ?s"
    by (simp_all add: mcu_init_def)
  from conjunct2 [OF failed_event_leaves_clear [OF this req(1) t]] show ?thesis by simp
qed

section \<open>Bounded retries\<close>

text \<open>A line that counts the requests it is sent.\<close>

definition counted :: "'w mcu_io \<Rightarrow> ('w \<times> nat) mcu_io" where
  "counted io =
     \<lparr>io_powered = (\<lambda>(w, n). case io_powered io w of (r, v) \<Rightarrow> (r, v, n)),
      io_send = (\<lambda>req (w, n). case io_send io req w of (r, v) \<Rightarrow> (r, v, Suc n)),
      io_reset = (\<lambda>(w, n). case io_reset io w of (r, v) \<Rightarrow> (r, v, n)),
      io_has_device = (\<lambda>(w, n). case io_has_device io w of (r, v) \<Rightarrow> (r, v, n)),
      io_connect = (\<lambda>(w, n). case io_connect io w of (r, v) \<Rightarrow> (r, v, n))\<rparr>"

definition sends :: "('w \<times> nat) mcu \<Rightarrow> nat" where
  "sends s = snd (mu_link s)"

definition costs :: "nat \<Rightarrow> (('w \<times> nat) mcu, 'a) sm \<Rightarrow> bool" where
  "costs n m = (\<forall>s. sends (snd (m s)) \<le> n + sends s)"

named_theorems costs_rules

lemma costs_free [costs_rules]:
  "costs 0 (on_link (io_powered (counted io)))" "costs 0 (set_state_online b)" "costs 0 (set_state_pong resp)"
  "costs 0 (retS a)" "costs 0 (liftS x)"
  by (auto simp: costs_def on_link_def counted_def sends_def set_state_online_def set_state_pong_def bindS_def sm_defs Let_def
      split: prod.splits)

lemma costs_ask: "costs 1 (ask (counted io) req)"
  by (auto simp: costs_def ask_def on_link_def counted_def sends_def sm_defs split: prod.splits)

lemma costs_bind: "costs a m \<Longrightarrow> (\<And>x. costs b (f x)) \<Longrightarrow> costs (a + b) (bindS m f)"
proof -
  assume m: "costs a m" and f: "\<And>x. costs b (f x)"
  have "sends (snd (bindS m f s)) \<le> (a + b) + sends s" for s
  proof (cases "m s")
    case (Pair r t)
    with m have t: "sends t \<le> a + sends s" by (metis costs_def snd_conv)
    show ?thesis
    proof (cases r)
      case (Inr x)
      have "sends (snd (f x t)) \<le> b + sends t" using f by (simp add: costs_def)
      with Pair Inr t show ?thesis by (simp add: bindS_def)
    qed (use Pair t in \<open>simp add: bindS_def\<close>)
  qed
  then show ?thesis by (simp add: costs_def)
qed

lemma costs_bind0 [costs_rules]: "costs 0 m \<Longrightarrow> (\<And>x. costs b (f x)) \<Longrightarrow> costs b (bindS m f)"
  using costs_bind [of 0 m b f] by simp

lemma costs_mono: "costs a m \<Longrightarrow> a \<le> b \<Longrightarrow> costs b m"
  by (auto simp: costs_def intro: le_trans)

lemma costs_retS [costs_rules]: "costs n (retS a)"
  by (simp add: costs_def retS_def)

lemma costs_request_loop: "costs common (request_loop (counted io) common reads req)"
proof (induction common arbitrary: reads req)
  case 0
  show ?case by (simp, intro costs_rules)
next
  case (Suc c)
  let ?judged = "\<lambda>resp. bindS (liftS (judge resp)) (\<lambda>v. case v of
         NoReply \<Rightarrow> bindS (set_state_online False) (\<lambda>_. request_loop (counted io) c (reads - 1) req)
       | Garbled \<Rightarrow> bindS (liftS REQUEST_REPEAT) (\<lambda>again.
           bindS (set_state_online False) (\<lambda>_. request_loop (counted io) c reads again))
       | BadReply \<Rightarrow> bindS (set_state_online False) (\<lambda>_. request_loop (counted io) c reads req)
       | Rejected \<Rightarrow> retS (Ended True)
       | LegacyDone \<Rightarrow> bindS (set_state_online True) (\<lambda>_. retS Returned)
       | Pong \<Rightarrow> bindS (set_state_pong resp) (\<lambda>_. retS Returned))"
  have "costs c (?judged resp)" for resp
    by (intro costs_bind0 costs_free) (auto split: verdict.splits intro!: costs_bind0 costs_free Suc.IH costs_retS)
  then have ask: "costs (Suc c) (bindS (ask (counted io) req) ?judged)"
    using costs_bind [OF costs_ask, of c ?judged io req] by (simp only: plus_1_eq_Suc)
  have "costs (Suc c) (if b then retS (Ended False) else bindS (ask (counted io) req) ?judged)" for b
    by (cases b) (simp_all only: if_True if_False ask costs_retS)
  then show ?case unfolding request_loop.simps by (intro costs_bind0 costs_free)
qed

text \<open>
  A request is sent at most \<open>common_retries\<close> times, whatever the line answers or raises, so a
  turn of the loop always ends.
\<close>

theorem request_attempts_bounded:
  "snd (mu_link (snd (process_request (counted io) req s))) \<le> mu_common_retries s + snd (mu_link s)"
proof -
  have "costs common (bindS (request_loop (counted io) common reads req) (\<lambda>fin. case fin of
         Returned \<Rightarrow> retS True
       | Ended error_retval \<Rightarrow> bindS (on_link (io_powered (counted io))) (\<lambda>powered.
           if \<not> powered then bindS (set_state_online False) (\<lambda>_. retS True) else retS error_retval)))" for common reads
  proof -
    have rest: "costs 0 (case fin of Returned \<Rightarrow> retS True
       | Ended error_retval \<Rightarrow> bindS (on_link (io_powered (counted io))) (\<lambda>powered.
           if \<not> powered then bindS (set_state_online False) (\<lambda>_. retS True) else retS error_retval))" for fin
      by (auto split: loop_end.splits intro!: costs_bind0 costs_free)
    from costs_bind [OF costs_request_loop rest] show ?thesis by simp
  qed
  then show ?thesis by (simp add: costs_def sends_def process_request_def getS_def)
qed

section \<open>What the clients see\<close>

lemma three_bytes:
  assumes "0 \<le> a" "a < 256" "0 \<le> b" "b < 256" "0 \<le> c" "c < (256 :: int)"
  shows "(c + 256 * b + 65536 * a) div 65536 mod 256 = a" "(c + 256 * b + 65536 * a) div 256 mod 256 = b"
    "(c + 256 * b + 65536 * a) mod 256 = c"
proof -
  have "(c + 256 * b) div 65536 = 0" by (rule div_pos_pos_trivial) (use assms in linarith)+
  then have "(c + 256 * b + 65536 * a) div 65536 = a" by simp
  then show "(c + 256 * b + 65536 * a) div 65536 mod 256 = a" using assms by simp
  have eq: "c + 256 * b + 65536 * a = c + 256 * (b + 256 * a)" by simp
  have "(c + 256 * k) div 256 = k" "(c + 256 * k) mod 256 = c" for k
    using assms by (simp_all add: div_pos_pos_trivial)
  from this [of "b + 256 * a"] show "(c + 256 * b + 65536 * a) div 256 mod 256 = b" "(c + 256 * b + 65536 * a) mod 256 = c"
    unfolding eq using assms by (simp_all only:) simp
qed

lemma pong_status_fields:
  assumes "length resp = 8" "bytes_ok resp"
  shows "drop_bit 16 (pong_status resp) AND 255 = resp ! 1" "drop_bit 8 (pong_status resp) AND 255 = resp ! 2"
    "pong_status resp AND 255 = resp ! 3"
proof -
  have b: "0 \<le> resp ! 1" "resp ! 1 < 256" "0 \<le> resp ! 2" "resp ! 2 < 256" "0 \<le> resp ! 3" "resp ! 3 < 256"
    using bytes_ok_nth [OF assms(2)] assms(1) by simp_all
  have low: "push_bit 8 (resp ! 2) OR resp ! 3 = resp ! 3 + 256 * resp ! 2"
    using or_push8_add [of "resp ! 3" "resp ! 2"] b by (simp add: or.commute)
  have "push_bit 16 (resp ! 1) OR (resp ! 3 + 256 * resp ! 2) = (resp ! 3 + 256 * resp ! 2) + 65536 * resp ! 1"
    using or_push_add [of "resp ! 3 + 256 * resp ! 2" 16 "resp ! 1"] b by (simp add: or.commute)
  then have st: "pong_status resp = resp ! 3 + 256 * resp ! 2 + 65536 * resp ! 1"
    by (simp add: pong_status_def Let_def assms(1) low [simplified])
  show "drop_bit 16 (pong_status resp) AND 255 = resp ! 1" "drop_bit 8 (pong_status resp) AND 255 = resp ! 2"
    "pong_status resp AND 255 = resp ! 3"
    unfolding st and_FF drop_bit_eq_div using three_bytes [OF b] by simp_all
qed

text \<open>
  After a response of the firmware, the state shown to the clients is the one of the response:
  the LEDs, the online flags, the connection and the outputs come from its three status bytes.
\<close>

theorem pong_shown_faithfully:
  assumes "length resp = 8" "bytes_ok resp"
    and "st = fst (mcu_get_state (h\<lparr>bh_dev := snd (set_state_pong resp (bh_dev h))\<rparr>))"
  shows "st_online st \<and> st_busy st = (resp ! 1 AND 64 \<noteq> 0)
    \<and> st_caps st = (resp ! 1 AND 1 \<noteq> 0) \<and> st_scroll st = (resp ! 1 AND 2 \<noteq> 0) \<and> st_num st = (resp ! 1 AND 4 \<noteq> 0)
    \<and> st_kb_online st = (resp ! 1 AND 8 = 0) \<and> st_mouse_online st = (resp ! 1 AND 16 = 0)
    \<and> st_connected st = (if resp ! 3 AND 128 \<noteq> 0 then Some (resp ! 3 AND 64 \<noteq> 0) else None)
    \<and> st_kb_outputs st = mk_outputs (resp ! 2 AND 128 \<noteq> 0) (kb_available (resp ! 3)) (get_active_keyboard (resp ! 2))
    \<and> st_mouse_outputs st = mk_outputs (resp ! 2 AND 128 \<noteq> 0) (mouse_available (resp ! 3)) (get_active_mouse (resp ! 2))
    \<and> st_absolute st = (get_active_mouse (resp ! 2) \<notin> {''usb_rel'', ''ps2''})"
proof -
  let ?s = "snd (set_state_pong resp (bh_dev h))"
  have "mu_online ?s" "mu_busy ?s = (resp ! 1 AND 64 \<noteq> 0)" "mu_status ?s = pong_status resp"
    by (auto simp: set_state_pong_def Let_def bindS_def sm_defs)
  then show ?thesis
    unfolding assms(3) mcu_get_state_def
    by (simp add: Let_def pong_status_fields [OF assms(1,2)])
qed

theorem pong_shown_faithfully_witness:
  "st_caps (fst (mcu_get_state ((sample_mcu quiet_line)\<lparr>bh_dev :=
      snd (set_state_pong [0x34, 0x81, 0x88, 0x01, 0, 0, 0, 0] (bh_dev (sample_mcu (quiet_line :: tty_answer line))))\<rparr>)))"
  using pong_shown_faithfully [of "[0x34, 0x81, 0x88, 0x01, 0, 0, 0, 0]" _ "sample_mcu (quiet_line :: tty_answer line)", OF _ _ refl]
  by simp

section \<open>Both outputs at once\<close>

text \<open>
  A call that sets both outputs loses the one of the keyboard: only the last event is queued
  with \<open>clear\<close>, and that clears the first.
\<close>

theorem both_outputs_lose_keyboard:
  assumes "dict_has KEYBOARD_NAMES_TO_CODES k" "dict_has MOUSE_NAMES_TO_CODES m" "\<not> mu_stop (bh_dev h)"
  shows "fst (mcu_set_params ec (Some k) (Some m) None h) = Inr ()
    \<and> mu_queue (bh_dev (snd (mcu_set_params ec (Some k) (Some m) None h))) = [McuSetMouse m]"
  using assms
  by (simp add: mcu_set_params_def mk_mcu_event_def bindS_def on_dev_def sm_defs mcu_queue_event_def)

theorem both_outputs_lose_keyboard_witness:
  "mu_queue (bh_dev (snd (mcu_set_params count_names (Some ''ps2'') (Some ''usb_rel'') None
     (sample_mcu (quiet_line :: tty_answer line))))) = [McuSetMouse ''usb_rel'']"
  using both_outputs_lose_keyboard [of "''ps2''" "''usb_rel''" "sample_mcu (quiet_line :: tty_answer line)" count_names]
  by (simp add: dict_has_def KEYBOARD_NAMES_TO_CODES_def MOUSE_NAMES_TO_CODES_def sample_mcu_def mcu_init_def)

end
