(* ===== verification/McuBridge.thy ===== *)
theory McuBridge
  imports McuHid
begin

text \<open>
  The daemon of \<open>McuHid\<close> and the firmware of \<open>McuFirmware\<close> over a line that may corrupt a byte of
  a request or of a response, or lose a response: how often an event is performed.
\<close>

section \<open>A faulty line to the firmware\<close>

text \<open>A corrupted message has one byte combined with a mask.\<close>

datatype fault = Clean | GarbledRequest nat int | GarbledReply nat int | GarbledBoth nat int nat int | LostReply

record bridge =
  br_fw :: firmware
  br_faults :: "fault list"

definition corrupt :: "nat \<Rightarrow> int \<Rightarrow> bytes \<Rightarrow> bytes" where
  "corrupt i m bs = bs[i := bs ! i XOR m]"

definition bridge_send :: "bytes \<Rightarrow> (bridge, bytes) sm" where
  "bridge_send req br = (case pop Clean (br_faults br) of (f, fs) \<Rightarrow>
     (case fw_serve (case f of GarbledRequest i m \<Rightarrow> corrupt i m req | GarbledBoth i m _ _ \<Rightarrow> corrupt i m req | _ \<Rightarrow> req) (br_fw br) of (resp, fw) \<Rightarrow>
       (Inr (case f of GarbledReply i m \<Rightarrow> corrupt i m resp | GarbledBoth _ _ j k \<Rightarrow> corrupt j k resp | LostReply \<Rightarrow> [] | _ \<Rightarrow> resp),
        \<lparr>br_fw = fw, br_faults = fs\<rparr>)))"

definition bridge_io :: "bridge mcu_io" where
  "bridge_io = \<lparr>io_powered = retS True, io_send = bridge_send, io_reset = retS (),
     io_has_device = retS True, io_connect = retS ()\<rparr>"

fun fault_ok :: "fault \<Rightarrow> bool" where
  "fault_ok (GarbledRequest i m) = (i < 8 \<and> 0 < m \<and> m < 256)"
| "fault_ok (GarbledReply i m) = (i < 8 \<and> 0 < m \<and> m < 256)"
| "fault_ok (GarbledBoth i m j k) = (i < 8 \<and> 0 < m \<and> m < 256 \<and> j < 8 \<and> 0 < k \<and> k < 256)"
| "fault_ok _ = True"

definition bridge_ok :: "bridge \<Rightarrow> bool" where
  "bridge_ok br = (fw_sane (br_fw br) \<and> list_all fault_ok (br_faults br))"

lemma corrupt_length [simp]: "length (corrupt i m bs) = length bs"
  by (simp add: corrupt_def)

lemma corrupt_byte:
  assumes "bytes_ok bs" "i < length bs" "0 < m" "m < 256"
  shows "0 \<le> bs ! i XOR m" "bs ! i XOR m < 256" "bs ! i XOR m \<noteq> bs ! i"
proof -
  have b: "0 \<le> bs ! i" "bs ! i < 256" using bytes_ok_nth [OF assms(1,2)] by auto
  show "0 \<le> bs ! i XOR m" using b(1) assms(3) by simp
  show "bs ! i XOR m < 256" using xor_bound [of "bs ! i" 8 m] b assms(3,4) by simp
  have "(bs ! i XOR m) XOR bs ! i = m" by (metis xor.commute xor.left_commute xor_self_eq xor.right_neutral)
  then show "bs ! i XOR m \<noteq> bs ! i" using assms(3) by force
qed

lemma corrupt_request:
  assumes "valid_request r" "i < 8" "0 < m" "m < 256"
  shows "fw_handle_request (corrupt i m r) fw = (0x40, fw)"
proof -
  have r: "bytes_ok r" "length r = 8" using assms(1) by (simp_all add: valid_request_def)
  have "check_response (corrupt i m r) = Inr False"
    unfolding corrupt_def using assms r corrupt_byte [OF r(1), of i m]
    by (intro check_response_detects) (simp_all add: valid_request_def)
  with fw_checks_crc [of "corrupt i m r"] r(2) show ?thesis by (auto simp: fw_handle_request_def)
qed

section \<open>The responses of the firmware\<close>

lemma fw_status_byte:
  assumes "fw_sane fw" "a \<in> {128, 192}"
  shows "0 \<le> a OR fw_offlines fw OR fw_leds fw" "a OR fw_offlines fw OR fw_leds fw < 256"
    "(a OR fw_offlines fw OR fw_leds fw) AND 128 \<noteq> 0"
proof -
  have o: "0 \<le> fw_offlines fw" "fw_offlines fw < 2 ^ 8" "0 \<le> fw_leds fw" "fw_leds fw < 2 ^ 8"
    using assms(1) by (auto simp: fw_sane_def)
  have a: "0 \<le> a" "a < 2 ^ 8" using assms(2) by auto
  have ao: "a OR fw_offlines fw < 2 ^ 8" "0 \<le> a OR fw_offlines fw"
    using or_bound [OF a o(1,2)] a(1) o(1) by simp_all
  show "0 \<le> a OR fw_offlines fw OR fw_leds fw" "a OR fw_offlines fw OR fw_leds fw < 256"
    using or_bound [OF ao(2,1) o(3,4)] ao(2) o(3) by (simp_all add: or.assoc)
  have "a AND 128 = 128" using assms(2) by auto
  then have "(a OR fw_offlines fw OR fw_leds fw) AND 128 = 128 OR (fw_offlines fw OR fw_leds fw) AND 128"
    by (simp add: bit.conj_disj_distrib2)
  moreover have "128 OR x \<noteq> 0" for x :: int by (simp add: or_eq_0_iff)
  ultimately show "(a OR fw_offlines fw OR fw_leds fw) AND 128 \<noteq> 0" by metis
qed

lemma framed_response:
  assumes "length body = 6" "bytes_ok body"
  shows "check_response (body @ put_int BE 2 (make_crc16 body)) = Inr True"
proof -
  let ?crc = "make_crc16 body"
  have c: "0 \<le> ?crc" "?crc < 65536" using make_crc16_bounds [OF assms(2)] by auto
  have "put_int BE 2 ?crc = [?crc div 256, ?crc mod 256]" using c by (simp add: put_bytes numeral_2_eq_2)
  with check_response_crc [of body "?crc div 256" "?crc mod 256"] assms(1) show ?thesis by simp
qed

definition fw_code_ok :: "int \<Rightarrow> bool" where
  "fw_code_ok code = (code \<in> {0x24, 0x40, 0x45, 0x48, 0x80})"

definition verdict_of :: "int \<Rightarrow> verdict" where
  "verdict_of code = (if code = 0x80 then Pong else if code \<in> {0x24, 0x45} then Rejected else BadReply)"

lemma fw_response_facts:
  assumes "fw_sane fw" "fw_code_ok code"
  shows "length (fw_response code fw) = 8" "bytes_ok (fw_response code fw)"
    "check_response (fw_response code fw) = Inr True" "judge (fw_response code fw) = Inr (verdict_of code)"
    "code = 0x80 \<Longrightarrow> fw_response code fw ! 1 AND 64 \<noteq> 0 \<longleftrightarrow> fw_reset_required fw"
proof -
  let ?a = "(if fw_reset_required fw then 192 else 128) :: int"
  let ?st = "?a OR fw_offlines fw OR fw_leds fw"
  have st: "0 \<le> ?st" "?st < 256" "?st AND 128 \<noteq> 0" using fw_status_byte [OF assms(1), of ?a] by auto
  have o: "0 \<le> 128 OR fw_outputs fw" "128 OR fw_outputs fw < 256" "0 \<le> fw_avail fw" "fw_avail fw < 256"
    using assms(1) or_bound [of 128 8 "fw_outputs fw"] by (auto simp: fw_sane_def)
  let ?body = "if code AND 0x80 \<noteq> 0 then [0x34, ?st, 0x80 OR fw_outputs fw, fw_avail fw, 0, 0]
     else [0x34, code, 0, 0, 0, 0]"
  have body: "fw_response code fw = ?body @ put_int BE 2 (make_crc16 ?body)"
    by (cases "fw_reset_required fw") (simp_all add: fw_response_def Let_def)
  have ok: "length ?body = 6" "bytes_ok ?body" using st o assms(2) by (auto simp: fw_code_ok_def)
  show "length (fw_response code fw) = 8" using ok(1) body by simp
  show "bytes_ok (fw_response code fw)" using ok(2) body by simp
  show crc: "check_response (fw_response code fw) = Inr True" unfolding body by (rule framed_response [OF ok])
  have head: "fw_response code fw ! 1 = (if code AND 0x80 \<noteq> 0 then ?st else code)"
    by (cases "fw_reset_required fw") (simp_all add: fw_response_def Let_def)
  have "?st \<notin> {0x48, 0x40, 0x45, 0x24, 0x20}" using st(3) by auto
  then show "judge (fw_response code fw) = Inr (verdict_of code)"
    using assms(2) crc head st(3) ok(1) body
    by (auto simp: judge_def Let_def fw_code_ok_def verdict_of_def)
  show "fw_response code fw ! 1 AND 64 \<noteq> 0 \<longleftrightarrow> fw_reset_required fw" if "code = 0x80"
  proof -
    have "(fw_offlines fw OR fw_leds fw) AND 64 = 0"
      using assms(1) by (auto simp: fw_sane_def upto.simps)
    then have "?st AND 64 = ?a AND 64" by (simp add: bit.conj_disj_distrib2)
    then show ?thesis using head that by simp
  qed
qed

section \<open>One request over the line\<close>

definition log_of :: "bridge mcu \<Rightarrow> fw_action list" where
  "log_of s = fw_log (br_fw (mu_link s))"

definition performed :: "fw_action list \<Rightarrow> firmware \<Rightarrow> firmware" where
  "performed acts fw = fw\<lparr>fw_log := fw_log fw @ acts, fw_prev_code := 0x80\<rparr>"

definition refused :: "firmware \<Rightarrow> firmware" where
  "refused fw = fw\<lparr>fw_prev_code := 0x40\<rparr>"

text \<open>A request that makes the firmware perform some actions, and no restart.\<close>

definition performs :: "fw_action list \<Rightarrow> bytes \<Rightarrow> bool" where
  "performs acts r = (valid_request r \<and> (\<forall>fw. fw_executes 0x80 acts False fw r))"

lemma fw_response_only: "fw_response c (performed acts fw) = fw_response c fw" "fw_response c (refused fw) = fw_response c fw"
    "fw_response c (fw\<lparr>fw_log := l\<rparr>) = fw_response c fw"
  by (simp_all add: fw_response_def performed_def refused_def)

lemma performed_simps [simp]:
  "fw_sane (performed acts fw) = fw_sane (fw\<lparr>fw_prev_code := 0x80\<rparr>)" "fw_log (performed acts fw) = fw_log fw @ acts"
  "fw_prev_code (performed acts fw) = 0x80" "fw_reset_required (performed acts fw) = fw_reset_required fw"
  "fw_log (refused fw) = fw_log fw" "fw_prev_code (refused fw) = 0x40"
  "fw_reset_required (refused fw) = fw_reset_required fw"
  by (simp_all add: performed_def refused_def fw_sane_def)

lemma fw_sane_after: "fw_sane fw \<Longrightarrow> fw_sane (performed acts fw)" "fw_sane fw \<Longrightarrow> fw_sane (refused fw)"
  by (simp_all add: performed_def refused_def fw_sane_def)

lemma fw_sane_code: "fw_sane fw \<Longrightarrow> fw_code_ok (fw_prev_code fw)"
  by (simp add: fw_sane_def fw_code_ok_def)

lemma fw_serves:
  "performs acts r \<Longrightarrow> fw_serve r fw = (fw_response 0x80 fw, performed acts fw)"
  "valid_request r \<Longrightarrow> i < 8 \<Longrightarrow> 0 < m \<Longrightarrow> m < 256 \<Longrightarrow> fw_serve (corrupt i m r) fw = (fw_response 0x40 fw, refused fw)"
  "REQUEST_REPEAT = Inr rr \<Longrightarrow> fw_serve rr fw = (fw_response (fw_prev_code fw) fw, fw)"
proof -
  show "fw_serve r fw = (fw_response 0x80 fw, performed acts fw)" if "performs acts r"
    using that by (simp add: fw_serve_def performs_def fw_executes_def fw_send_response_def fw_response_only)
      (simp add: performed_def)
  show "fw_serve (corrupt i m r) fw = (fw_response 0x40 fw, refused fw)"
    if "valid_request r" "i < 8" "0 < m" "m < 256"
    using corrupt_request [OF that] by (simp add: fw_serve_def fw_send_response_def refused_def)
  show "fw_serve rr fw = (fw_response (fw_prev_code fw) fw, fw)" if "REQUEST_REPEAT = Inr rr"
  proof -
    have len: "length [0, 0, 0, 0 :: int] = 4" "bytes_ok [2, 0, 0, 0, 0]" by simp_all
    obtain r where r: "make_request [2, 0, 0, 0, 0] = Inr r" "fw_handle_request r fw = (0, fw)"
      using fw_takes_frame [OF len] by (force simp: fw_command_def)
    with that have "r = rr" by (simp add: REQUEST_REPEAT_def)
    with r(2) show ?thesis by (simp add: fw_serve_def fw_send_response_def)
  qed
qed

lemma judge_corrupt:
  assumes "fw_sane fw" "fw_code_ok c" "i < 8" "0 < m" "m < 256"
  shows "judge (corrupt i m (fw_response c fw)) = Inr Garbled"
proof -
  note f = fw_response_facts [OF assms(1,2)]
  have "check_response (corrupt i m (fw_response c fw)) = Inr False"
    unfolding corrupt_def using corrupt_byte [OF f(2), of i m] f assms
    by (intro check_response_detects) simp_all
  then show ?thesis using f(1) by (simp add: judge_def)
qed

lemma request_step:
  assumes "bridge_send req (mu_link s) = (Inr resp, br)" "judge resp = Inr v" "\<not> mu_noop s" "reads > 0"
    and rr: "REQUEST_REPEAT = Inr rr"
  shows "request_loop bridge_io (Suc c) reads req s = (case v of
         NoReply \<Rightarrow> request_loop bridge_io c (reads - 1) req (s\<lparr>mu_link := br, mu_online := False\<rparr>)
       | Garbled \<Rightarrow> request_loop bridge_io c reads rr (s\<lparr>mu_link := br, mu_online := False\<rparr>)
       | BadReply \<Rightarrow> request_loop bridge_io c reads req (s\<lparr>mu_link := br, mu_online := False\<rparr>)
       | Rejected \<Rightarrow> (Inr (Ended True), s\<lparr>mu_link := br\<rparr>)
       | LegacyDone \<Rightarrow> (Inr Returned, s\<lparr>mu_link := br, mu_online := True\<rparr>)
       | Pong \<Rightarrow> bindS (set_state_pong resp) (\<lambda>_. retS Returned) (s\<lparr>mu_link := br\<rparr>))"
proof -
  have "io_powered bridge_io = retS True" "io_send bridge_io = bridge_send" by (simp_all add: bridge_io_def)
  then show ?thesis
    using assms(1-4) by (cases v) (simp_all add: bindS_def ask_def on_link_def sm_defs set_state_online_def rr)
qed

text \<open>A good response of a firmware that asks for no restart ends the loop.\<close>

lemma pong_returns:
  assumes "fw_sane fw" "\<not> fw_reset_required fw"
  shows "\<exists>t. bindS (set_state_pong (fw_response 0x80 fw)) (\<lambda>_. retS Returned) s = (Inr Returned, t)
    \<and> mu_link t = mu_link s \<and> mu_online t \<and> mu_reset_required t = mu_reset_required s \<and> mu_noop t = mu_noop s"
proof -
  have "fw_response 0x80 fw ! 1 AND 64 = 0"
    using fw_response_facts(5) [of _ "0x80", OF assms(1)] assms(2) by (simp add: fw_code_ok_def)
  then show ?thesis by (simp add: set_state_pong_def bindS_def sm_defs)
qed

lemma pong_ends:
  assumes "bridge_send req (mu_link s) = (Inr (fw_response 0x80 fw), br)" "fw_sane fw" "\<not> fw_reset_required fw"
    and "\<not> mu_noop s" "reads > 0"
  shows "\<exists>t. request_loop bridge_io (Suc c) reads req s = (Inr Returned, t) \<and> mu_link t = br \<and> mu_online t
    \<and> mu_reset_required t = mu_reset_required s \<and> mu_noop t = mu_noop s"
proof -
  obtain rr where rr: "REQUEST_REPEAT = Inr rr" using request_repeat_valid(1) by blast
  have "judge (fw_response 0x80 fw) = Inr Pong"
    using fw_response_facts(4) [of _ "0x80", OF assms(2)] by (simp add: fw_code_ok_def verdict_of_def)
  from request_step [OF assms(1) this assms(4,5) rr] pong_returns [OF assms(2,3), of "s\<lparr>mu_link := br\<rparr>"]
  show ?thesis by simp
qed

section \<open>Corruptions of one kind\<close>

definition garbled_reply :: "fault \<Rightarrow> bool" where
  "garbled_reply f = (case f of GarbledReply i m \<Rightarrow> fault_ok f | _ \<Rightarrow> False)"

definition garbled_request :: "fault \<Rightarrow> bool" where
  "garbled_request f = (case f of GarbledRequest i m \<Rightarrow> fault_ok f | _ \<Rightarrow> False)"

text \<open>The daemon asks to repeat the response until it arrives.\<close>

lemma repeats_until_clean:
  assumes rr: "REQUEST_REPEAT = Inr rr" and "reads > 0"
    and "fw_sane fw" "fw_prev_code fw = 0x80" "\<not> fw_reset_required fw"
    and "list_all garbled_reply fs" "length fs \<le> c"
    and "mu_link s = \<lparr>br_fw = fw, br_faults = fs\<rparr>" "\<not> mu_noop s"
  shows "\<exists>t. request_loop bridge_io (Suc c) reads rr s = (Inr Returned, t) \<and> br_fw (mu_link t) = fw \<and> mu_online t"
  using assms(6-9)
proof (induction fs arbitrary: c s)
  case Nil
  have send: "bridge_send rr (mu_link s) = (Inr (fw_response 0x80 fw), \<lparr>br_fw = fw, br_faults = []\<rparr>)"
    using Nil.prems(3) fw_serves(3) [OF rr, of fw] assms(4) by (simp add: bridge_send_def)
  from pong_ends [OF send assms(3,5) Nil.prems(4) assms(2), of c] show ?case by auto
next
  case (Cons f fs)
  obtain i m where f: "f = GarbledReply i m" "i < 8" "0 < m" "m < 256"
    using Cons.prems(1) by (auto simp: garbled_reply_def split: fault.splits)
  obtain d where c: "c = Suc d" "length fs \<le> d" using Cons.prems(2) by (cases c) auto
  have send: "bridge_send rr (mu_link s) =
      (Inr (corrupt i m (fw_response 0x80 fw)), \<lparr>br_fw = fw, br_faults = fs\<rparr>)"
    using Cons.prems(3) fw_serves(3) [OF rr, of fw] assms(4) f by (simp add: bridge_send_def)
  have judged: "judge (corrupt i m (fw_response 0x80 fw)) = Inr Garbled"
    by (rule judge_corrupt [OF assms(3) _ f(2-4)]) (simp add: fw_code_ok_def)
  show ?case
    unfolding request_step [OF send judged Cons.prems(4) assms(2) rr] c(1)
    using Cons.IH [of d "s\<lparr>mu_link := \<lparr>br_fw = fw, br_faults = fs\<rparr>, mu_online := False\<rparr>"] Cons.prems(1,4) c(2)
    by simp
qed

lemma garbled_replies_performed:
  assumes "performs acts r" "reads > 0" "fw_sane fw" "\<not> fw_reset_required fw"
    and "list_all garbled_reply fs" "length fs \<le> c"
    and "mu_link s = \<lparr>br_fw = fw, br_faults = fs\<rparr>" "\<not> mu_noop s"
  shows "\<exists>t. request_loop bridge_io (Suc c) reads r s = (Inr Returned, t)
    \<and> br_fw (mu_link t) = performed acts fw \<and> mu_online t"
proof (cases fs)
  obtain rr where rr: "REQUEST_REPEAT = Inr rr" using request_repeat_valid(1) by blast
  note after = fw_sane_after(1) [OF assms(3), of acts]
  {
    case Nil
    have send: "bridge_send r (mu_link s) = (Inr (fw_response 0x80 fw), \<lparr>br_fw = performed acts fw, br_faults = []\<rparr>)"
      using assms(7) Nil fw_serves(1) [OF assms(1), of fw] by (simp add: bridge_send_def)
    from pong_ends [OF send assms(3,4) assms(8,2), of c] show ?thesis by auto
  next
    case (Cons f gs)
    obtain i m where f: "f = GarbledReply i m" "i < 8" "0 < m" "m < 256"
      using assms(5) Cons by (auto simp: garbled_reply_def split: fault.splits)
    obtain d where c: "c = Suc d" "length gs \<le> d" using assms(6) Cons by (cases c) auto
    have send: "bridge_send r (mu_link s) =
        (Inr (corrupt i m (fw_response 0x80 fw)), \<lparr>br_fw = performed acts fw, br_faults = gs\<rparr>)"
      using assms(7) Cons fw_serves(1) [OF assms(1), of fw] f by (simp add: bridge_send_def)
    have judged: "judge (corrupt i m (fw_response 0x80 fw)) = Inr Garbled"
      by (rule judge_corrupt [OF assms(3) _ f(2-4)]) (simp add: fw_code_ok_def)
    show ?thesis
      unfolding request_step [OF send judged assms(8,2) rr] c(1)
      using repeats_until_clean [OF rr assms(2) after _ _ _ c(2),
          of "s\<lparr>mu_link := \<lparr>br_fw = performed acts fw, br_faults = gs\<rparr>, mu_online := False\<rparr>"] assms(4,5,8) Cons
      by simp
  }
qed

lemma garbled_requests_performed:
  assumes "performs acts r" "reads > 0" "fw_sane fw" "\<not> fw_reset_required fw"
    and "list_all garbled_request fs" "length fs \<le> c"
    and "mu_link s = \<lparr>br_fw = fw, br_faults = fs\<rparr>" "\<not> mu_noop s"
  shows "\<exists>t. request_loop bridge_io (Suc c) reads r s = (Inr Returned, t)
    \<and> fw_log (br_fw (mu_link t)) = fw_log fw @ acts \<and> mu_online t"
  using assms(3-)
proof (induction fs arbitrary: c s fw)
  case Nil
  then show ?case using garbled_replies_performed [OF assms(1,2), of fw "[]" c s] by fastforce
next
  case (Cons f fs)
  obtain rr where rr: "REQUEST_REPEAT = Inr rr" using request_repeat_valid(1) by blast
  obtain i m where f: "f = GarbledRequest i m" "i < 8" "0 < m" "m < 256"
    using Cons.prems(3) by (auto simp: garbled_request_def split: fault.splits)
  obtain d where c: "c = Suc d" "length fs \<le> d" using Cons.prems(4) by (cases c) auto
  have valid: "valid_request r" using assms(1) by (simp add: performs_def)
  have send: "bridge_send r (mu_link s) = (Inr (fw_response 0x40 fw), \<lparr>br_fw = refused fw, br_faults = fs\<rparr>)"
    using Cons.prems(5) fw_serves(2) [OF valid f(2-4), of fw] f(1) by (simp add: bridge_send_def)
  have judged: "judge (fw_response 0x40 fw) = Inr BadReply"
    using fw_response_facts(4) [of _ "0x40", OF Cons.prems(1)] by (simp add: fw_code_ok_def verdict_of_def)
  show ?case
    unfolding request_step [OF send judged Cons.prems(6) assms(2) rr] c(1)
    using Cons.IH [of "refused fw" d "s\<lparr>mu_link := \<lparr>br_fw = refused fw, br_faults = fs\<rparr>, mu_online := False\<rparr>"]
      fw_sane_after(2) [OF Cons.prems(1)] Cons.prems c(2)
    by simp
qed

lemma event_performs:
  assumes "ecodes_ok ec" "mcu_event_ok ec e" "\<not> asks_restart e" "event_request ec e = Inr r"
  shows "performs (event_actions ec e) r"
  using event_understood [OF assms(1,2)] assms(3,4) by (auto simp: performs_def)

lemma process_request_ends:
  assumes "request_loop bridge_io (mu_common_retries s) (mu_read_retries s) req s = (Inr fin, t)"
  shows "process_request bridge_io req s = (Inr (case fin of Returned \<Rightarrow> True | Ended b \<Rightarrow> b), t)"
  using assms by (simp add: process_request_def getS_def bindS_def bridge_io_def on_link_def retS_def split: loop_end.splits)


definition idle_firmware :: firmware where
  "idle_firmware = \<lparr>fw_prev_code = 0x24, fw_reset_required = False, fw_outputs = 9, fw_avail = 1, fw_leds = 0,
     fw_offlines = 0, fw_log = []\<rparr>"

lemma idle_firmware_sane: "fw_sane idle_firmware"
  by (simp add: fw_sane_def idle_firmware_def)


section \<open>Corruptions of both kinds\<close>

definition log_is :: "fw_action list set \<Rightarrow> bridge mcu \<Rightarrow> bool" where
  "log_is logs s = (log_of s \<in> logs \<and> bridge_ok (mu_link s) \<and> LostReply \<notin> set (br_faults (mu_link s)))"

lemma bridge_send_cases:
  assumes "bridge_ok br"
  obtains f fs where "pop Clean (br_faults br) = (f, fs)" "fault_ok f" "list_all fault_ok fs"
    "set fs \<subseteq> set (br_faults br)" "f \<in> insert Clean (set (br_faults br))"
  using assms by (cases "br_faults br") (auto simp: bridge_ok_def)

lemma repeat_send_log:
  assumes "REQUEST_REPEAT = Inr rr" "log_is logs s"
  shows "log_is logs (snd (on_link (bridge_send rr) s))"
proof -
  have valid: "valid_request rr" using request_repeat_valid(1) assms(1) by (metis sum.inject(2))
  have ok: "bridge_ok (mu_link s)" using assms(2) by (simp add: log_is_def)
  obtain f fs where f: "pop Clean (br_faults (mu_link s)) = (f, fs)" "fault_ok f" "list_all fault_ok fs"
    "set fs \<subseteq> set (br_faults (mu_link s))" "f \<in> insert Clean (set (br_faults (mu_link s)))"
    using bridge_send_cases [OF ok] .
  show ?thesis
    using f assms(2) fw_serves(3) [OF assms(1)] fw_serves(2) [OF valid] fw_sane_after(2)
    by (cases f) (auto simp: on_link_def bridge_send_def log_is_def log_of_def bridge_ok_def)
qed

named_theorems log_rules

lemma log_flags [log_rules]: "keeps (log_is logs) (set_state_online b)" "keeps (log_is logs) (set_state_pong resp)"
  "keeps (log_is logs) (on_link (io_powered bridge_io))" "keeps (log_is logs) (liftS x)"
  by (auto simp: keeps_def set_state_online_def set_state_pong_def bindS_def sm_defs log_is_def log_of_def
      bridge_io_def on_link_def Let_def)

lemma log_repeat:
  assumes "REQUEST_REPEAT = Inr rr"
  shows "keeps (log_is logs) (request_loop bridge_io c reads rr)"
proof (induction c arbitrary: reads)
  case 0
  show ?case by (simp, intro keeps_bindS log_rules keeps_retS)
next
  case (Suc c)
  have "keeps (log_is logs) (on_link (bridge_send rr))" using repeat_send_log [OF assms] by (simp add: keeps_def)
  then have ask: "keeps (log_is logs) (ask bridge_io rr)"
    unfolding ask_def by (intro keeps_getS_in keeps_if log_rules) (simp add: bridge_io_def)
  show ?case
    unfolding request_loop.simps
    by (intro keeps_bindS log_rules keeps_if keeps_retS ask)
      (auto split: verdict.splits simp: assms intro!: keeps_bindS log_rules keeps_retS Suc.IH)
qed

lemma log_mono: "log_is A s \<Longrightarrow> A \<subseteq> B \<Longrightarrow> log_is B s"
  by (auto simp: log_is_def)

lemma log_event:
  assumes "performs acts r" "log_is {l} s" "\<not> mu_noop s"
  shows "log_is {l, l @ acts} (snd (request_loop bridge_io c reads r s))"
  using assms(2,3)
proof (induction c arbitrary: reads s)
  case 0
  then have "log_is {l} (snd (request_loop bridge_io 0 reads r s))"
    by (intro keepsD [of "log_is {l}"]) (simp, intro keeps_bindS log_rules keeps_retS)
  then show ?case by (rule log_mono) simp
next
  case (Suc c)
  obtain rr where rr: "REQUEST_REPEAT = Inr rr" using request_repeat_valid(1) by blast
  have valid: "valid_request r" using assms(1) by (simp add: performs_def)
  obtain fw where fw: "br_fw (mu_link s) = fw" "fw_sane fw" "fw_log fw = l" "bridge_ok (mu_link s)"
    using Suc.prems(1) by (auto simp: log_is_def log_of_def bridge_ok_def)
  obtain f fs where f: "pop Clean (br_faults (mu_link s)) = (f, fs)" "fault_ok f" "list_all fault_ok fs"
    "set fs \<subseteq> set (br_faults (mu_link s))" "f \<in> insert Clean (set (br_faults (mu_link s)))"
    using bridge_send_cases [OF fw(4)] .
  have lost: "LostReply \<notin> set fs" "f \<noteq> LostReply" using f(4,5) Suc.prems(1) by (auto simp: log_is_def)
  let ?done = "\<lparr>br_fw = performed acts fw, br_faults = fs\<rparr>"
  have done_log: "log_is {l, l @ acts} (s\<lparr>mu_link := ?done\<rparr>)" "log_is {l, l @ acts} (s\<lparr>mu_link := ?done, mu_online := False\<rparr>)"
    using fw f(3) lost(1) fw_sane_after(1) [OF fw(2)] by (simp_all add: log_is_def log_of_def bridge_ok_def)
  show ?case
  proof (cases "reads > 0")
    case False
    then have "request_loop bridge_io (Suc c) reads r s = (Inr (Ended False), s)"
      by (simp add: bindS_def bridge_io_def on_link_def retS_def)
    then show ?thesis using Suc.prems(1) log_mono by fastforce
  next
    case True
    show ?thesis
    proof (cases f)
      case Clean
      have send: "bridge_send r (mu_link s) = (Inr (fw_response 0x80 fw), ?done)"
        using f(1) Clean fw(1) fw_serves(1) [OF assms(1), of fw] by (simp add: bridge_send_def)
      have judged: "judge (fw_response 0x80 fw) = Inr Pong"
        using fw_response_facts(4) [of _ "0x80", OF fw(2)] by (simp add: fw_code_ok_def verdict_of_def)
      have "keeps (log_is {l, l @ acts}) (bindS (set_state_pong (fw_response 0x80 fw)) (\<lambda>_. retS Returned))"
        by (intro keeps_bindS log_rules keeps_retS)
      from keepsD [OF this done_log(1)] request_step [OF send judged Suc.prems(2) True rr, of c]
      show ?thesis by simp
    next
      case (GarbledReply i m)
      then have im: "i < 8" "0 < m" "m < 256" using f(2) by simp_all
      have send: "bridge_send r (mu_link s) = (Inr (corrupt i m (fw_response 0x80 fw)), ?done)"
        using f(1) GarbledReply fw(1) fw_serves(1) [OF assms(1), of fw] by (simp add: bridge_send_def)
      have judged: "judge (corrupt i m (fw_response 0x80 fw)) = Inr Garbled"
        by (rule judge_corrupt [OF fw(2) _ im]) (simp add: fw_code_ok_def)
      from keepsD [OF log_repeat [OF rr] done_log(2), of c reads] request_step [OF send judged Suc.prems(2) True rr, of c]
      show ?thesis by simp
    next
      case (GarbledRequest i m)
      then have im: "i < 8" "0 < m" "m < 256" using f(2) by simp_all
      let ?t = "s\<lparr>mu_link := \<lparr>br_fw = refused fw, br_faults = fs\<rparr>, mu_online := False\<rparr>"
      have send: "bridge_send r (mu_link s) = (Inr (fw_response 0x40 fw), \<lparr>br_fw = refused fw, br_faults = fs\<rparr>)"
        using f(1) GarbledRequest fw(1) fw_serves(2) [OF valid im, of fw] by (simp add: bridge_send_def)
      have judged: "judge (fw_response 0x40 fw) = Inr BadReply"
        using fw_response_facts(4) [of _ "0x40", OF fw(2)] by (simp add: fw_code_ok_def verdict_of_def)
      have "log_is {l} ?t"
        using fw f(3) lost(1) fw_sane_after(2) [OF fw(2)] by (simp add: log_is_def log_of_def bridge_ok_def)
      from Suc.IH [OF this, of reads] request_step [OF send judged Suc.prems(2) True rr, of c] Suc.prems(2)
      show ?thesis by simp
    next
      case (GarbledBoth i m j k)
      then have im: "i < 8" "0 < m" "m < 256" and jk: "j < 8" "0 < k" "k < 256" using f(2) by simp_all
      let ?t = "s\<lparr>mu_link := \<lparr>br_fw = refused fw, br_faults = fs\<rparr>, mu_online := False\<rparr>"
      have send: "bridge_send r (mu_link s) = (Inr (corrupt j k (fw_response 0x40 fw)), \<lparr>br_fw = refused fw, br_faults = fs\<rparr>)"
        using f(1) GarbledBoth fw(1) fw_serves(2) [OF valid im, of fw] by (simp add: bridge_send_def)
      have judged: "judge (corrupt j k (fw_response 0x40 fw)) = Inr Garbled"
        by (rule judge_corrupt [OF fw(2) _ jk]) (simp add: fw_code_ok_def)
      have "log_is {l, l @ acts} ?t"
        using fw f(3) lost(1) fw_sane_after(2) [OF fw(2)] by (simp add: log_is_def log_of_def bridge_ok_def)
      from keepsD [OF log_repeat [OF rr] this, of c reads] request_step [OF send judged Suc.prems(2) True rr, of c]
      show ?thesis by simp
    qed (use lost in simp)
  qed
qed

text \<open>
  Whatever bytes of requests and responses are corrupted, in any mixture, an event is never
  performed twice.
\<close>

theorem corrupted_event_at_most_once:
  assumes "ecodes_ok ec" "mcu_event_ok ec e" "\<not> asks_restart e" "event_request ec e = Inr r"
    and "bridge_ok (mu_link s)" "LostReply \<notin> set (br_faults (mu_link s))" "\<not> mu_noop s"
  shows "log_of (snd (process_request bridge_io r s)) \<in> {log_of s, log_of s @ event_actions ec e}"
proof -
  have "log_is {log_of s} s" using assms(5,6) by (simp add: log_is_def)
  from log_event [OF event_performs [OF assms(1-4)] this assms(7), of "mu_common_retries s" "mu_read_retries s"]
  have "log_is {log_of s, log_of s @ event_actions ec e}
      (snd (request_loop bridge_io (mu_common_retries s) (mu_read_retries s) r s))" .
  moreover have "snd (process_request bridge_io r s) =
      snd (request_loop bridge_io (mu_common_retries s) (mu_read_retries s) r s)"
    by (simp add: process_request_def getS_def bindS_cases bridge_io_def on_link_def retS_def split: sum.splits loop_end.splits)
  ultimately show ?thesis by (simp add: log_is_def)
qed

definition mixed_faults :: "fault list" where
  "mixed_faults = [GarbledRequest 1 4, GarbledBoth 2 8 7 255]"

definition mixed_mcu :: "bridge mcu" where
  "mixed_mcu = mcu_init 5 5 False False \<lparr>br_fw = idle_firmware, br_faults = mixed_faults\<rparr>"

lemma mixed_mcu_simps: "mu_link mixed_mcu = \<lparr>br_fw = idle_firmware, br_faults = mixed_faults\<rparr>"
    "\<not> mu_noop mixed_mcu" "mu_common_retries mixed_mcu = 5" "mu_read_retries mixed_mcu = 5" "log_of mixed_mcu = []"
    "bridge_ok (mu_link mixed_mcu)" "LostReply \<notin> set (br_faults (mu_link mixed_mcu))"
  by (simp_all add: mixed_mcu_def mcu_init_def log_of_def idle_firmware_sane bridge_ok_def mixed_faults_def)
    (simp add: idle_firmware_def)

lemma sample_event:
  "mcu_event_ok ec (McuMove 10 (-20))" "\<not> asks_restart (McuMove 10 (-20))"
  "ecodes_ok ec \<Longrightarrow> \<exists>r. event_request ec (McuMove 10 (-20)) = Inr r"
proof -
  show ok: "mcu_event_ok ec (McuMove 10 (-20))" "\<not> asks_restart (McuMove 10 (-20))"
    by (simp_all add: in_range_def mouse_ranges asks_restart_def)
  show "\<exists>r. event_request ec (McuMove 10 (-20)) = Inr r" if "ecodes_ok ec"
    using event_understood [OF that ok(1)] by blast
qed

theorem corrupted_event_at_most_once_witness:
  "\<exists>r. event_request count_names (McuMove 10 (-20)) = Inr r
    \<and> log_of (snd (process_request bridge_io r mixed_mcu)) \<in> {[], [FwAbs 10 (-20)]}"
proof -
  obtain r where r: "event_request count_names (McuMove 10 (-20)) = Inr r"
    using sample_event(3) [OF count_names_ok] by blast
  have "log_of (snd (process_request bridge_io r mixed_mcu)) \<in>
      {log_of mixed_mcu, log_of mixed_mcu @ event_actions count_names (McuMove 10 (-20))}"
    by (rule corrupted_event_at_most_once [OF count_names_ok sample_event(1,2) r mixed_mcu_simps(6,7,2)])
  with r mixed_mcu_simps(5) show ?thesis by simp
qed

text \<open>Once the last answer was an error, asking to repeat it brings the error back for ever.\<close>

lemma repeated_error_never_ends:
  assumes rr: "REQUEST_REPEAT = Inr rr" and "reads > 0" "fw_sane fw" "fw_prev_code fw = 0x40"
    and "mu_link s = \<lparr>br_fw = fw, br_faults = []\<rparr>" "\<not> mu_noop s"
  shows "\<exists>t. request_loop bridge_io c reads rr s = (Inr (Ended False), t) \<and> log_of t = fw_log fw"
  using assms(5,6)
proof (induction c arbitrary: s)
  case 0
  then show ?case by (simp add: bindS_def bridge_io_def on_link_def retS_def log_of_def)
next
  case (Suc c)
  have send: "bridge_send rr (mu_link s) = (Inr (fw_response 0x40 fw), \<lparr>br_fw = fw, br_faults = []\<rparr>)"
    using Suc.prems(1) fw_serves(3) [OF rr, of fw] assms(4) by (simp add: bridge_send_def)
  have judged: "judge (fw_response 0x40 fw) = Inr BadReply"
    using fw_response_facts(4) [of _ "0x40", OF assms(3)] by (simp add: fw_code_ok_def verdict_of_def)
  show ?case
    unfolding request_step [OF send judged Suc.prems(2) assms(2) rr]
    using Suc.IH [of "s\<lparr>mu_link := \<lparr>br_fw = fw, br_faults = []\<rparr>, mu_online := False\<rparr>"] Suc.prems(2) by simp
qed

text \<open>
  When a request and the response that reports its corruption are both corrupted, the daemon
  replaces the request by the one to repeat the response, and keeps it: the rest of the retries only
  repeat the error, and the event is lost although the line is clean again.
\<close>

theorem garbled_error_loses_event:
  assumes "ecodes_ok ec" "mcu_event_ok ec e" "\<not> asks_restart e" "event_request ec e = Inr r"
    and "mu_link s = \<lparr>br_fw = fw, br_faults = [GarbledBoth i m j k]\<rparr>" "fault_ok (GarbledBoth i m j k)"
    and "fw_sane fw" "\<not> mu_noop s" "0 < mu_read_retries s" "0 < mu_common_retries s"
  shows "\<exists>t. process_request bridge_io r s = (Inr False, t) \<and> log_of t = log_of s"
proof -
  obtain rr where rr: "REQUEST_REPEAT = Inr rr" using request_repeat_valid(1) by blast
  have valid: "valid_request r"
    using event_performs [OF assms(1-4)] by (simp add: performs_def)
  have im: "i < 8" "0 < m" "m < 256" and jk: "j < 8" "0 < k" "k < 256" using assms(6) by simp_all
  obtain c where c: "mu_common_retries s = Suc c" using assms(10) gr0_implies_Suc by blast
  have send: "bridge_send r (mu_link s) =
      (Inr (corrupt j k (fw_response 0x40 fw)), \<lparr>br_fw = refused fw, br_faults = []\<rparr>)"
    using assms(5) fw_serves(2) [OF valid im, of fw] by (simp add: bridge_send_def)
  have judged: "judge (corrupt j k (fw_response 0x40 fw)) = Inr Garbled"
    by (rule judge_corrupt [OF assms(7) _ jk]) (simp add: fw_code_ok_def)
  obtain t where t: "request_loop bridge_io c (mu_read_retries s) rr
      (s\<lparr>mu_link := \<lparr>br_fw = refused fw, br_faults = []\<rparr>, mu_online := False\<rparr>) = (Inr (Ended False), t)"
    "log_of t = fw_log (refused fw)"
    using repeated_error_never_ends [OF rr assms(9) fw_sane_after(2) [OF assms(7)], of
        "s\<lparr>mu_link := \<lparr>br_fw = refused fw, br_faults = []\<rparr>, mu_online := False\<rparr>" c] assms(8) by auto
  have "request_loop bridge_io (mu_common_retries s) (mu_read_retries s) r s = (Inr (Ended False), t)"
    using request_step [OF send judged assms(8,9) rr, of c] t(1) c by simp
  with process_request_ends [OF this] t(2) assms(5) show ?thesis by (simp add: log_of_def)
qed

theorem garbled_error_loses_event_witness:
  "\<exists>r t. event_request count_names (McuMove 10 (-20)) = Inr r
    \<and> process_request bridge_io r (mcu_init 5 5 False False
        \<lparr>br_fw = idle_firmware, br_faults = [GarbledBoth 2 8 7 255]\<rparr>) = (Inr False, t) \<and> log_of t = []"
proof -
  let ?s = "mcu_init 5 5 False False \<lparr>br_fw = idle_firmware, br_faults = [GarbledBoth 2 8 7 255]\<rparr>"
  obtain r where r: "event_request count_names (McuMove 10 (-20)) = Inr r"
    using sample_event(3) [OF count_names_ok] by blast
  have st: "mu_link ?s = \<lparr>br_fw = idle_firmware, br_faults = [GarbledBoth 2 8 7 255]\<rparr>" "fault_ok (GarbledBoth 2 8 7 255)"
    "\<not> mu_noop ?s" "0 < mu_read_retries ?s" "0 < mu_common_retries ?s" "log_of ?s = []"
    by (simp_all add: mcu_init_def idle_firmware_def log_of_def)
  from garbled_error_loses_event [OF count_names_ok sample_event(1,2) r st(1,2) idle_firmware_sane st(3-5)] r st(6)
  show ?thesis by auto
qed

section \<open>The whole queue over a clean line\<close>

fun run_turns :: "ecodes \<Rightarrow> 'w mcu_io \<Rightarrow> nat \<Rightarrow> 'w mcu \<Rightarrow> 'w mcu" where
  "run_turns ec io 0 s = s"
| "run_turns ec io (Suc n) s = run_turns ec io n (snd (hid_turn ec io s))"

definition clean_link :: "bridge mcu \<Rightarrow> bool" where
  "clean_link s = (br_faults (mu_link s) = [] \<and> fw_sane (br_fw (mu_link s)) \<and> \<not> fw_reset_required (br_fw (mu_link s))
     \<and> \<not> mu_noop s \<and> \<not> mu_reset_required s \<and> 0 < mu_common_retries s \<and> 0 < mu_read_retries s)"

lemma clean_turn:
  assumes "ecodes_ok ec" "mcu_event_ok ec e" "\<not> asks_restart e" "clean_link s" "mu_queue s = e # q"
  defines "t \<equiv> snd (hid_turn ec bridge_io s)"
  shows "clean_link t \<and> mu_queue t = q \<and> log_of t = log_of s @ event_actions ec e \<and> mu_online t"
proof -
  obtain r where r: "event_request ec e = Inr r" using event_understood [OF assms(1,2)] by blast
  note p = event_performs [OF assms(1-3) r]
  let ?s = "s\<lparr>mu_queue := q, mu_busy := (mu_busy s \<or> is_output_event e)\<rparr>"
  let ?fw = "br_fw (mu_link s)"
  have fw: "br_faults (mu_link s) = []" "fw_sane ?fw" "\<not> fw_reset_required ?fw" "\<not> mu_noop s"
      "\<not> mu_reset_required s" "0 < mu_common_retries s" "0 < mu_read_retries s"
    using assms(4) by (simp_all add: clean_link_def)
  obtain c where c: "mu_common_retries s = Suc c" using fw(6) gr0_implies_Suc by blast
  have send: "bridge_send r (mu_link ?s) = (Inr (fw_response 0x80 ?fw), \<lparr>br_fw = performed (event_actions ec e) ?fw, br_faults = []\<rparr>)"
    using fw(1) fw_serves(1) [OF p, of ?fw] by (simp add: bridge_send_def)
  obtain u where u: "request_loop bridge_io (Suc c) (mu_read_retries s) r ?s = (Inr Returned, u)"
      "mu_link u = \<lparr>br_fw = performed (event_actions ec e) ?fw, br_faults = []\<rparr>" "mu_online u"
      "mu_reset_required u = mu_reset_required s" "mu_noop u = mu_noop s"
    using pong_ends [OF send fw(2,3) _ fw(7), of c] fw(4) by auto
  then have ended: "process_request bridge_io r ?s = (Inr True, u)"
    using process_request_ends [of ?s r Returned u] c by simp
  then have "work_of u = work_of ?s"
    using keepsD [OF work_process_request [of "work_of ?s"] refl, of bridge_io r] by simp
  then have w: "mu_queue u = q" "mu_common_retries u = mu_common_retries s" "mu_read_retries u = mu_read_retries s"
    by (simp_all add: work_of_def)
  have "t = u"
    unfolding t_def using turn_event [OF assms(5) fw(5) r, of bridge_io] ended by (simp add: bindS_def sm_defs)
  with u w fw fw_sane_after(1) [OF fw(2)] show ?thesis
    by (simp add: clean_link_def log_of_def)
qed



end
