(* ===== verification/Auth.thy ===== *)
theory Auth
  imports PyText
begin

text \<open>
  The authorisation of users and their sessions (\<open>kvmd/apps/kvmd/auth.py\<close>).  The authorisation
  services, the one-time passwords, the random tokens and the monotonic clock are an environment that
  every call gets anew.
\<close>

section \<open>Sessions\<close>

record session =
  se_user :: pytext
  se_expire_req :: int
  se_expire_ts :: int
  se_ws_started :: int

definition mk_session :: "pytext \<Rightarrow> int \<Rightarrow> int \<Rightarrow> int \<Rightarrow> session result" where
  "mk_session user expire_req expire_ts ws_started =
     assertR (user = strip user \<and> user \<noteq> [] \<and> expire_req \<ge> 0 \<and> expire_ts \<ge> 0)
       (Inr \<lparr>se_user = user, se_expire_req = expire_req, se_expire_ts = expire_ts, se_ws_started = ws_started\<rparr>)"

text \<open>The account database: names with uids, and groups with their members.\<close>

definition load_usc_uids ::
  "(pytext \<times> int) list \<Rightarrow> (pytext \<times> pytext list) list \<Rightarrow> pytext list \<Rightarrow> pytext list \<Rightarrow> (int, pytext) dict result" where
  "load_usc_uids pwall grall users groups = assertR (list_all (\<lambda>(name, uid). name = strip name \<and> name \<noteq> []) pwall)
     (let pwds = dict_of pwall;
          from_users = map (\<lambda>(name, uid). (uid, name)) (filter (\<lambda>(name, uid). name \<in> set users) pwall);
          members = concat (map snd (filter (\<lambda>(name, mem). name \<in> set groups) grall));
          from_groups = map (\<lambda>m. (fromR 0 (dict_at pwds m), m)) (filter (dict_has pwds) members)
      in Inr (dict_of (from_users @ from_groups)))"

record auth =
  au_enabled :: bool
  au_expire :: int
  au_extend :: bool
  au_usc_uids :: "(int, pytext) dict"
  au_unauth_paths :: "pytext list"
  au_force_int_users :: "pytext list"
  au_has_ext :: bool
  au_totp :: bool
  au_sessions :: "(pytext, session) dict"

definition auth_init ::
  "bool \<Rightarrow> int \<Rightarrow> bool \<Rightarrow> (int, pytext) dict \<Rightarrow> pytext list \<Rightarrow> bool \<Rightarrow> pytext list \<Rightarrow> bool \<Rightarrow> auth result" where
  "auth_init enabled expire ws_extend usc_uids unauth_paths ext force_int_users totp =
     assertR (expire \<ge> 0) (Inr \<lparr>au_enabled = enabled, au_expire = expire, au_extend = ws_extend,
       au_usc_uids = usc_uids, au_unauth_paths = unauth_paths, au_force_int_users = force_int_users,
       au_has_ext = (enabled \<and> ext), au_totp = totp, au_sessions = []\<rparr>)"

record auth_env =
  ae_now :: int
  ae_int :: "pytext \<Rightarrow> pytext \<Rightarrow> bool"
  ae_ext :: "pytext \<Rightarrow> pytext \<Rightarrow> bool"
  ae_secret :: pytext
  ae_verify :: "pytext \<Rightarrow> pytext \<Rightarrow> bool"
  ae_token :: "nat \<Rightarrow> pytext"

record exposed =
  ex_path :: pytext
  ex_auth_required :: bool
  ex_allow_usc :: bool

definition is_auth_required :: "auth \<Rightarrow> exposed \<Rightarrow> bool" where
  "is_auth_required a ex = (au_enabled a \<and> ex_auth_required ex \<and> ex_path ex \<notin> set (au_unauth_paths a))"

section \<open>Logging in\<close>

definition service_accepts :: "auth_env \<Rightarrow> auth \<Rightarrow> pytext \<Rightarrow> pytext \<Rightarrow> bool" where
  "service_accepts env a user passwd =
     (if user \<notin> set (au_force_int_users a) \<and> au_has_ext a then ae_ext env user passwd else ae_int env user passwd)"

text \<open>\<open>passwd[-6:]\<close> is the one-time code when there is a secret.\<close>

definition authorize :: "auth_env \<Rightarrow> auth \<Rightarrow> pytext \<Rightarrow> pytext \<Rightarrow> bool result" where
  "authorize env a user passwd = assertR (user = strip user \<and> user \<noteq> []) (assertR (au_enabled a)
     (let secret = strip (ae_secret env); n = length passwd - 6
      in if au_totp a \<and> secret \<noteq> []
         then (if \<not> ae_verify env secret (drop n passwd) then Inr False
               else Inr (service_accepts env a user (take n passwd)))
         else Inr (service_accepts env a user passwd)))"

definition make_new_token :: "auth_env \<Rightarrow> auth \<Rightarrow> pytext result" where
  "make_new_token env a =
     (case find (\<lambda>t. \<not> dict_has (au_sessions a) t) (map (ae_token env) [0..<10]) of
        Some t \<Rightarrow> Inr t | None \<Rightarrow> Inl RuntimeError)"

definition make_expire_ts :: "auth_env \<Rightarrow> auth \<Rightarrow> int \<Rightarrow> int result" where
  "make_expire_ts env a expire = assertR (expire \<ge> 0) (assertR (au_expire a \<ge> 0)
     (let expire' = (if expire = 0 then au_expire a
                     else if au_expire a > 0 then min expire (au_expire a) else expire)
      in if expire' > 0 then Inr (ae_now env + expire') else assertR (expire' = 0) (Inr 0)))"

definition login :: "auth_env \<Rightarrow> pytext \<Rightarrow> pytext \<Rightarrow> int \<Rightarrow> (auth, pytext option) sm" where
  "login env user passwd expire =
     assertS (user = strip user \<and> user \<noteq> []) (assertS (expire \<ge> 0) (getS (\<lambda>a. assertS (au_enabled a)
       (bindS (liftS (authorize env a user passwd)) (\<lambda>accepted.
          if accepted then
            bindS (liftS (make_new_token env a)) (\<lambda>token.
            bindS (liftS (make_expire_ts env a expire)) (\<lambda>ts.
            bindS (liftS (mk_session user expire ts 0)) (\<lambda>session.
            bindS (modifyS (\<lambda>a. a\<lparr>au_sessions := AList.update token session (au_sessions a)\<rparr>)) (\<lambda>_.
            retS (Some token)))))
          else retS None)))))"

definition logout :: "pytext \<Rightarrow> (auth, unit) sm" where
  "logout token = getS (\<lambda>a. assertS (au_enabled a)
     (case map_of (au_sessions a) token of
        None \<Rightarrow> retS ()
      | Some s \<Rightarrow> modifyS (\<lambda>a. a\<lparr>au_sessions := filter (\<lambda>(t, x). se_user x \<noteq> se_user s) (au_sessions a)\<rparr>)))"

definition check :: "auth_env \<Rightarrow> pytext \<Rightarrow> (auth, pytext option) sm" where
  "check env token = getS (\<lambda>a. assertS (au_enabled a)
     (case map_of (au_sessions a) token of
        None \<Rightarrow> retS None
      | Some s \<Rightarrow>
          if se_expire_ts s \<le> 0 then retS (Some (se_user s))
          else if ae_now env < se_expire_ts s then retS (Some (se_user s))
          else bindS (modifyS (\<lambda>a. a\<lparr>au_sessions := AList.delete token (au_sessions a)\<rparr>)) (\<lambda>_. retS None)))"

section \<open>WebSocket sessions\<close>

definition renew_ws_session :: "auth_env \<Rightarrow> pytext \<Rightarrow> bool \<Rightarrow> (auth, unit) sm" where
  "renew_ws_session env token start = getS (\<lambda>a.
     if au_enabled a \<and> au_extend a then
       (case map_of (au_sessions a) token of
          None \<Rightarrow> retS ()
        | Some s \<Rightarrow>
            (let ws = se_ws_started s + (if start then 1 else - 1) in
             bindS (liftS (if ws \<le> 0 then make_expire_ts env a (se_expire_req s) else Inr 0)) (\<lambda>ts.
             bindS (liftS (mk_session (se_user s) (se_expire_req s) ts ws)) (\<lambda>session.
             modifyS (\<lambda>a. a\<lparr>au_sessions := AList.update token session (au_sessions a)\<rparr>)))))
     else retS ())"

definition start_ws_session :: "auth_env \<Rightarrow> pytext \<Rightarrow> (auth, unit) sm" where
  "start_ws_session env token = renew_ws_session env token True"

definition stop_ws_session :: "auth_env \<Rightarrow> pytext \<Rightarrow> (auth, unit) sm" where
  "stop_ws_session env token = renew_ws_session env token False"

definition check_unix_credentials :: "auth \<Rightarrow> int \<Rightarrow> pytext option result" where
  "check_unix_credentials a uid = assertR (au_enabled a) (Inr (map_of (au_usc_uids a) uid))"

section \<open>Runs of the manager\<close>

text \<open>
  A run is a list of calls with their environments and results.  The logins that succeeded are what
  every session must go back to.
\<close>

datatype auth_call =
    Login pytext pytext int
  | Logout pytext
  | Check pytext
  | StartWs pytext
  | StopWs pytext

fun auth_exec :: "auth_env \<Rightarrow> auth_call \<Rightarrow> (auth, pytext option) sm" where
  "auth_exec env (Login user passwd expire) = login env user passwd expire"
| "auth_exec env (Logout token) = bindS (logout token) (\<lambda>_. retS None)"
| "auth_exec env (Check token) = check env token"
| "auth_exec env (StartWs token) = bindS (start_ws_session env token) (\<lambda>_. retS None)"
| "auth_exec env (StopWs token) = bindS (stop_ws_session env token) (\<lambda>_. retS None)"

record auth_event =
  av_env :: auth_env
  av_call :: auth_call
  av_result :: "pytext option result"
  av_before :: auth

inductive auth_run :: "auth \<Rightarrow> auth_event list \<Rightarrow> auth \<Rightarrow> bool" for a where
  Start: "auth_run a [] a"
| Step: "auth_run a es b \<Longrightarrow> auth_exec env call b = (r, c) \<Longrightarrow>
    auth_run a (es @ [\<lparr>av_env = env, av_call = call, av_result = r, av_before = b\<rparr>]) c"

inductive_cases auth_run_snocE: "auth_run a (es @ [e]) c"

text \<open>The event that made a token: a login of the user, accepted by the services.\<close>

definition issued :: "auth_event \<Rightarrow> pytext \<Rightarrow> pytext \<Rightarrow> bool" where
  "issued e token user = (\<exists>passwd expire. av_call e = Login user passwd expire \<and> av_result e = Inr (Some token)
     \<and> authorize (av_env e) (av_before e) user passwd = Inr True)"

definition asked_expire :: "auth_event \<Rightarrow> int" where
  "asked_expire e = (case av_call e of Login u p x \<Rightarrow> x | _ \<Rightarrow> 0)"

definition clock_ok :: "auth_event list \<Rightarrow> bool" where
  "clock_ok es = (\<forall>e \<in> set es. 0 \<le> ae_now (av_env e))"

text \<open>When a session without WebSockets ends, as its login and the limit of the manager allow.\<close>

definition lifetime :: "auth \<Rightarrow> int \<Rightarrow> int option" where
  "lifetime a expire = (if expire = 0 \<and> au_expire a = 0 then None
     else if expire = 0 then Some (au_expire a)
     else if au_expire a = 0 then Some expire else Some (min expire (au_expire a)))"

definition backed :: "auth_event list \<Rightarrow> auth \<Rightarrow> pytext \<Rightarrow> session \<Rightarrow> bool" where
  "backed es a token s = (\<exists>e \<in> set es. issued e token (se_user s) \<and> se_expire_req s = asked_expire e
     \<and> 0 \<le> se_expire_req s \<and> se_user s = strip (se_user s) \<and> se_user s \<noteq> []
     \<and> (au_extend a \<or> (case lifetime a (asked_expire e) of None \<Rightarrow> se_expire_ts s = 0
          | Some l \<Rightarrow> se_expire_ts s = ae_now (av_env e) + l \<and> 0 < l)))"

definition auth_inv :: "auth_event list \<Rightarrow> auth \<Rightarrow> bool" where
  "auth_inv es a = (0 \<le> au_expire a \<and> dict_wf (au_sessions a)
     \<and> (\<forall>token s. (token, s) \<in> set (au_sessions a) \<longrightarrow> backed es a token s))"

definition same_setup :: "auth \<Rightarrow> auth \<Rightarrow> bool" where
  "same_setup a b = (\<exists>ss. b = a\<lparr>au_sessions := ss\<rparr>)"

lemma backed_more: "backed es a t s \<Longrightarrow> backed (es @ fs) a t s"
  by (auto simp: backed_def)

lemma backed_setup: "backed es (a\<lparr>au_sessions := ss\<rparr>) t s = backed es a t s"
  by (simp add: backed_def lifetime_def)

lemma make_expire_ts_lifetime:
  assumes "make_expire_ts env a x = Inr ts"
  shows "case lifetime a x of None \<Rightarrow> ts = 0 | Some l \<Rightarrow> ts = ae_now env + l \<and> 0 < l"
  using assms by (auto simp: make_expire_ts_def lifetime_def assertR_Inr_iff Let_def split: if_splits)

lemma token_fresh: "make_new_token env a = Inr t \<Longrightarrow> map_of (au_sessions a) t = None"
  by (auto simp: make_new_token_def dict_has_def find_Some_iff split: option.splits)

lemma session_dict_update: "dict_wf d \<Longrightarrow> x \<in> set (AList.update k v d) \<Longrightarrow> x = (k, v) \<or> x \<in> set d"
  by (induction d) (auto simp: dict_wf_def split: if_splits)

lemma inv_subset:
  assumes "auth_inv es b" "dict_wf ss" "set ss \<subseteq> set (au_sessions b)"
  shows "auth_inv (es @ fs) (b\<lparr>au_sessions := ss\<rparr>)"
  using assms unfolding auth_inv_def backed_setup by (simp, blast intro: backed_more)

lemma inv_same: "auth_inv es b \<Longrightarrow> auth_inv (es @ fs) b"
  using inv_subset [of es b "au_sessions b" fs] by (simp add: auth_inv_def)

lemma inv_put:
  assumes "auth_inv es b" "backed (es @ fs) b t s"
  shows "auth_inv (es @ fs) (b\<lparr>au_sessions := AList.update t s (au_sessions b)\<rparr>)"
proof -
  have wf: "dict_wf (au_sessions b)" using assms(1) by (simp add: auth_inv_def)
  have "backed (es @ fs) b t' s'" if "(t', s') \<in> set (AList.update t s (au_sessions b))" for t' s'
    using session_dict_update [OF wf that] assms backed_more unfolding auth_inv_def by blast
  with assms(1) show ?thesis unfolding auth_inv_def backed_setup by simp
qed

lemma setup_refl: "same_setup b b"
  unfolding same_setup_def by (rule exI [of _ "au_sessions b"]) simp

lemma setup_sessions: "same_setup b (b\<lparr>au_sessions := ss\<rparr>)"
  unfolding same_setup_def by blast

lemma login_step:
  assumes "auth_inv es b" "login env user passwd x b = (r, c)" "0 \<le> ae_now env"
    and e: "e = \<lparr>av_env = env, av_call = Login user passwd x, av_result = r, av_before = b\<rparr>"
  shows "auth_inv (es @ [e]) c \<and> same_setup b c"
proof (cases "\<exists>t. r = Inr (Some t)")
  case False
  then have "c = b" using assms(2)
    by (auto simp: login_def assertS_def bindS_def sm_defs split: if_splits sum.splits)
  then show ?thesis using inv_same [OF assms(1)] setup_refl by blast
next
  case True
  then obtain t where t: "r = Inr (Some t)" by blast
  with assms(2) obtain ts s where acc: "authorize env b user passwd = Inr True" and ts: "make_expire_ts env b x = Inr ts"
      and s: "mk_session user x ts 0 = Inr s" and c: "c = b\<lparr>au_sessions := AList.update t s (au_sessions b)\<rparr>"
    by (auto simp: login_def assertS_def bindS_def sm_defs split: if_splits sum.splits)
  have sess: "s = \<lparr>se_user = user, se_expire_req = x, se_expire_ts = ts, se_ws_started = 0\<rparr>"
    "user = strip user" "user \<noteq> []" "0 \<le> x"
    using s by (auto simp: mk_session_def assertR_Inr_iff)
  have "issued e t user" using acc t by (simp add: issued_def e)
  then have "backed (es @ [e]) b t s"
    using sess make_expire_ts_lifetime [OF ts] by (auto simp: backed_def e asked_expire_def split: option.splits)
  from inv_put [OF assms(1) this] c setup_sessions show ?thesis by blast
qed

lemma renew_step:
  assumes "auth_inv es b" "renew_ws_session env token start b = (r, c)"
  shows "auth_inv (es @ fs) c \<and> same_setup b c"
proof (cases "c = b")
  case True
  then show ?thesis using inv_same [OF assms(1)] setup_refl by blast
next
  case False
  with assms(2) obtain s ts ws n where ext: "au_extend b" and s: "map_of (au_sessions b) token = Some s"
      and n: "mk_session (se_user s) (se_expire_req s) ts ws = Inr n"
      and c: "c = b\<lparr>au_sessions := AList.update token n (au_sessions b)\<rparr>"
    by (auto simp: renew_ws_session_def bindS_def sm_defs Let_def split: if_splits option.splits sum.splits)
  have "backed es b token s" using assms(1) map_of_SomeD [OF s] by (auto simp: auth_inv_def)
  moreover have "se_user n = se_user s" "se_expire_req n = se_expire_req s"
    using n by (auto simp: mk_session_def assertR_Inr_iff)
  ultimately have "backed (es @ fs) b token n"
    using ext by (auto simp: backed_def)
  from inv_put [OF assms(1) this] c setup_sessions show ?thesis by blast
qed

lemma auth_step:
  assumes "auth_inv es b" "auth_exec env call b = (r, c)" "0 \<le> ae_now env"
  shows "auth_inv (es @ [\<lparr>av_env = env, av_call = call, av_result = r, av_before = b\<rparr>]) c \<and> same_setup b c"
proof -
  let ?e = "\<lparr>av_env = env, av_call = call, av_result = r, av_before = b\<rparr>"
  have wf: "dict_wf (au_sessions b)" using assms(1) by (simp add: auth_inv_def)
  have sub: "auth_inv (es @ [?e]) c \<and> same_setup b c"
    if "c = b\<lparr>au_sessions := ss\<rparr>" "dict_wf ss" "set ss \<subseteq> set (au_sessions b)" for ss
    using inv_subset [OF assms(1) that(2,3)] setup_sessions that(1) by blast
  have id: "auth_inv (es @ [?e]) c \<and> same_setup b c" if "c = b"
    using inv_same [OF assms(1)] setup_refl that by blast
  show ?thesis
proof (cases call)
  case (Login user passwd x)
  with assms(2) login_step [OF assms(1) _ assms(3)] show ?thesis by simp
next
  case (Logout token)
  with assms(2) have "c = b \<or> (\<exists>u. c = b\<lparr>au_sessions := filter (\<lambda>(t, x). se_user x \<noteq> u) (au_sessions b)\<rparr>)"
    by (auto simp: logout_def assertS_def bindS_def sm_defs split: if_splits option.splits)
  then show ?thesis using id sub wf by (elim disjE exE) auto
next
  case (Check token)
  with assms(2) have "c = b \<or> c = b\<lparr>au_sessions := AList.delete token (au_sessions b)\<rparr>"
    by (auto simp: check_def assertS_def bindS_def sm_defs split: if_splits option.splits)
  then show ?thesis using id sub wf by (elim disjE) (auto simp: AList.delete_eq)
next
  case (StartWs token)
  with assms(2) obtain r' where "renew_ws_session env token True b = (r', c)"
    by (auto simp: start_ws_session_def bindS_def retS_def split: sum.splits prod.splits)
  from renew_step [OF assms(1) this] show ?thesis by blast
next
  case (StopWs token)
  with assms(2) obtain r' where "renew_ws_session env token False b = (r', c)"
    by (auto simp: stop_ws_session_def bindS_def retS_def split: sum.splits prod.splits)
  from renew_step [OF assms(1) this] show ?thesis by blast
qed
qed

lemma auth_run_inv:
  assumes "auth_run a es b" "au_sessions a = []" "0 \<le> au_expire a" "clock_ok es"
  shows "auth_inv es b \<and> same_setup a b"
  using assms
proof (induction rule: auth_run.induct)
  case Start
  then show ?case by (simp add: auth_inv_def dict_wf_def setup_refl)
next
  case (Step es b env call r c)
  then have "auth_inv es b" "same_setup a b" "0 \<le> ae_now env" by (auto simp: clock_ok_def)
  from auth_step [OF this(1) Step.hyps(2) this(3)] this(2) show ?case
    by (auto simp: same_setup_def)
qed

lemma check_user:
  assumes "check env token b = (Inr (Some user), c)"
  obtains s where "map_of (au_sessions b) token = Some s" "se_user s = user"
    "se_expire_ts s \<le> 0 \<or> ae_now env < se_expire_ts s"
  using assms by (auto simp: check_def assertS_def bindS_def sm_defs split: if_splits option.splits)

lemma lifetime_setup: "same_setup a b \<Longrightarrow> lifetime b x = lifetime a x \<and> au_extend b = au_extend a"
  by (auto simp: same_setup_def lifetime_def)

section \<open>What a token proves\<close>


text \<open>A manager with a limit of an hour, and a service that knows one user.\<close>

definition demo_auth :: auth where
  "demo_auth = fromR undefined (auth_init True 3600 False [] [] False [] False)"

definition demo_auth_env :: "int \<Rightarrow> auth_env" where
  "demo_auth_env now = \<lparr>ae_now = now, ae_int = (\<lambda>u p. u = text_of ''admin'' \<and> p = text_of ''pass''), ae_ext = (\<lambda>u p. False),
     ae_secret = [], ae_verify = (\<lambda>s c. False), ae_token = (\<lambda>n. text_of ''token'' @ [int n])\<rparr>"

definition demo_login :: auth_event where
  "demo_login = \<lparr>av_env = demo_auth_env 100, av_call = Login (text_of ''admin'') (text_of ''pass'') 0,
     av_result = Inr (Some (text_of ''token'' @ [0])), av_before = demo_auth\<rparr>"

definition demo_logged :: auth where
  "demo_logged = demo_auth\<lparr>au_sessions := [(text_of ''token'' @ [0],
     \<lparr>se_user = text_of ''admin'', se_expire_req = 0, se_expire_ts = 3700, se_ws_started = 0\<rparr>)]\<rparr>"

lemma demo_login_exec:
  "auth_exec (demo_auth_env 100) (Login (text_of ''admin'') (text_of ''pass'') 0) demo_auth =
     (Inr (Some (text_of ''token'' @ [0])), demo_logged)"
  by code_simp

lemma demo_login_run: "auth_run demo_auth [demo_login] demo_logged"
  using auth_run.Step [OF auth_run.Start demo_login_exec] by (simp add: demo_login_def)


section \<open>Logging out\<close>

definition no_session :: "pytext \<Rightarrow> auth \<Rightarrow> bool" where
  "no_session user a = (\<forall>(token, s) \<in> set (au_sessions a). se_user s \<noteq> user)"

lemma no_session_subset: "no_session u b \<Longrightarrow> set ss \<subseteq> set (au_sessions b) \<Longrightarrow> no_session u (b\<lparr>au_sessions := ss\<rparr>)"
  by (auto simp: no_session_def)

lemma set_update_subset: "set (AList.update k v d) \<subseteq> insert (k, v) (set d)"
  by (induction d) auto

lemma renew_no_session:
  assumes "renew_ws_session env token start b = (r, c)" "no_session u b"
  shows "no_session u c"
proof (cases "c = b")
  case False
  with assms(1) obtain s ts ws n where s: "map_of (au_sessions b) token = Some s"
      and n: "mk_session (se_user s) (se_expire_req s) ts ws = Inr n"
      and c: "c = b\<lparr>au_sessions := AList.update token n (au_sessions b)\<rparr>"
    by (auto simp: renew_ws_session_def bindS_def sm_defs Let_def split: if_splits option.splits sum.splits)
  have "se_user n \<noteq> u"
    using n assms(2) map_of_SomeD [OF s] by (auto simp: mk_session_def assertR_Inr_iff no_session_def)
  then show ?thesis using assms(2) set_update_subset [of token n "au_sessions b"] by (auto simp: c no_session_def)
qed (use assms in simp)

lemma login_no_session:
  assumes "login env user passwd x b = (r, c)" "no_session u b" "user \<noteq> u \<or> (\<forall>t. r \<noteq> Inr (Some t))"
  shows "no_session u c"
proof (cases "c = b")
  case False
  with assms(1) obtain t ts s where t: "r = Inr (Some t)" and s: "mk_session user x ts 0 = Inr s"
      and c: "c = b\<lparr>au_sessions := AList.update t s (au_sessions b)\<rparr>"
    by (auto simp: login_def assertS_def bindS_def sm_defs split: if_splits sum.splits)
  have "se_user s \<noteq> u" using s t assms(3) by (auto simp: mk_session_def assertR_Inr_iff)
  then show ?thesis using assms(2) set_update_subset [of t s "au_sessions b"] by (auto simp: c no_session_def)
qed (use assms in simp)

lemma exec_no_session:
  assumes "auth_exec env call b = (r, c)" "no_session u b"
    and "\<And>passwd x t. call = Login u passwd x \<Longrightarrow> r \<noteq> Inr (Some t)"
  shows "no_session u c"
proof (cases call)
  case (Login user passwd x)
  with assms login_no_session [of env user passwd x b r c u] show ?thesis by auto
next
  case (Logout token)
  with assms(1) have "c = b \<or> (\<exists>v. c = b\<lparr>au_sessions := filter (\<lambda>(t, x). se_user x \<noteq> v) (au_sessions b)\<rparr>)"
    by (auto simp: logout_def assertS_def bindS_def sm_defs split: if_splits option.splits)
  then show ?thesis using assms(2) no_session_subset [OF assms(2)] by auto
next
  case (Check token)
  with assms(1) have "c = b \<or> c = b\<lparr>au_sessions := AList.delete token (au_sessions b)\<rparr>"
    by (auto simp: check_def assertS_def bindS_def sm_defs split: if_splits option.splits)
  then show ?thesis using assms(2) no_session_subset [OF assms(2)] by (auto simp: AList.delete_eq)
next
  case (StartWs token)
  with assms(1) obtain r' where "renew_ws_session env token True b = (r', c)"
    by (auto simp: start_ws_session_def bindS_def retS_def split: sum.splits prod.splits)
  then show ?thesis using renew_no_session assms(2) by blast
next
  case (StopWs token)
  with assms(1) obtain r' where "renew_ws_session env token False b = (r', c)"
    by (auto simp: stop_ws_session_def bindS_def retS_def split: sum.splits prod.splits)
  then show ?thesis using renew_no_session assms(2) by blast
qed

definition logs_in :: "pytext \<Rightarrow> auth_event \<Rightarrow> bool" where
  "logs_in user e = (\<exists>token. issued e token user)"

lemma login_accepted:
  assumes "auth_exec env (Login u p x) b = (Inr (Some t), c)"
  shows "issued \<lparr>av_env = env, av_call = Login u p x, av_result = Inr (Some t), av_before = b\<rparr> t u"
  using assms by (auto simp: issued_def login_def assertS_def bindS_def sm_defs split: if_splits sum.splits)

lemma run_no_session:
  assumes "auth_run b es c" "no_session u b" "\<forall>e \<in> set es. \<not> logs_in u e"
  shows "no_session u c"
  using assms
proof (induction rule: auth_run.induct)
  case (Step es b' env call r c')
  have "r \<noteq> Inr (Some t)" if "call = Login u p x" for p x t
    using Step.prems(2) Step.hyps(2) login_accepted [of env u p x b' t c'] that by (auto simp: logs_in_def)
  with Step exec_no_session [of env call b' r c' u] show ?case by auto
qed

text \<open>
  C20. A logout ends every session of its user, not only the one whose token it names: after it, in
  every run of the manager, no token whatsoever is checked as that user until a login of the user is
  accepted again.
\<close>

theorem logout_ends_all_sessions:
  assumes out: "map_of (au_sessions b) token = Some s" "logout token b = (Inr (), b')"
    and run: "auth_run b' es c" "\<forall>e \<in> set es. \<not> logs_in (se_user s) e"
  shows "fst (check env t c) \<noteq> Inr (Some (se_user s))"
proof
  assume "fst (check env t c) = Inr (Some (se_user s))"
  then obtain d where chk: "check env t c = (Inr (Some (se_user s)), d)" by (metis prod.collapse)
  have "no_session (se_user s) b'"
    using out by (auto simp: no_session_def logout_def assertS_def sm_defs split: if_splits)
  then have "no_session (se_user s) c" using run_no_session run by blast
  moreover obtain s' where "map_of (au_sessions c) t = Some s'" "se_user s' = se_user s"
    using check_user [OF chk] by metis
  ultimately show False using map_of_SomeD [of _ t s'] by (auto simp: no_session_def)
qed

theorem logout_ends_all_sessions_witness:
  "fst (check (demo_auth_env 200) (text_of ''token'' @ [0]) demo_auth) \<noteq> Inr (Some (text_of ''admin''))"
proof -
  let ?s = "\<lparr>se_user = text_of ''admin'', se_expire_req = 0, se_expire_ts = 3700, se_ws_started = 0\<rparr>"
  have "map_of (au_sessions demo_logged) (text_of ''token'' @ [0]) = Some ?s"
    "logout (text_of ''token'' @ [0]) demo_logged = (Inr (), demo_auth)"
    by code_simp+
  from logout_ends_all_sessions [OF this auth_run.Start] show ?thesis by simp
qed

section \<open>One login does not touch another\<close>

text \<open>
  A refused login changes nothing.  An accepted one returns a token that no session has yet, adds
  one session of that user under it, and leaves every other token exactly as it was.
\<close>

theorem login_adds_one_session:
  assumes "login env user passwd x a = (Inr r, c)"
  shows "case r of
      None \<Rightarrow> c = a \<and> authorize env a user passwd = Inr False
    | Some token \<Rightarrow> authorize env a user passwd = Inr True \<and> map_of (au_sessions a) token = None
        \<and> (\<exists>s. se_user s = user \<and> se_expire_req s = x \<and> map_of (au_sessions c) = (map_of (au_sessions a))(token \<mapsto> s))"
proof (cases r)
  case None
  then show ?thesis using assms
    by (auto simp: login_def assertS_def bindS_def sm_defs split: if_splits sum.splits)
next
  case (Some t)
  with assms obtain ts s where "authorize env a user passwd = Inr True" "make_new_token env a = Inr t"
      and s: "mk_session user x ts 0 = Inr s" and c: "c = a\<lparr>au_sessions := AList.update t s (au_sessions a)\<rparr>"
    by (auto simp: login_def assertS_def bindS_def sm_defs split: if_splits sum.splits)
  moreover have "se_user s = user \<and> se_expire_req s = x" using s by (auto simp: mk_session_def assertR_Inr_iff)
  ultimately show ?thesis using Some token_fresh [of env a t] by (auto simp: update_conv')
qed

theorem login_adds_one_session_witness:
  "\<exists>s. se_user s = text_of ''admin'' \<and> se_expire_req s = 0
     \<and> map_of (au_sessions demo_logged) = (map_of (au_sessions demo_auth))(text_of ''token'' @ [0] \<mapsto> s)"
  using login_adds_one_session [OF demo_login_exec [unfolded auth_exec.simps]] by simp

section \<open>Local users of the UNIX socket\<close>

lemma dict_of_mem: "map_of (dict_of xs) k = Some v \<Longrightarrow> (k, v) \<in> set xs"
  by (auto simp: map_of_dict_of dest: map_of_SomeD)

text \<open>
  The kernel credentials of a local process authorise it only as a system user with that very
  uid who is listed by name, or who is a member of a listed group.
\<close>

theorem unix_login_is_listed:
  assumes "load_usc_uids pwall grall users groups = Inr uids" "au_usc_uids a = uids"
    "check_unix_credentials a uid = Inr (Some name)"
  shows "(name, uid) \<in> set pwall
    \<and> (name \<in> set users \<or> (\<exists>(g, members) \<in> set grall. g \<in> set groups \<and> name \<in> set members))"
proof -
  let ?members = "concat (map snd (filter (\<lambda>(name, mem). name \<in> set groups) grall))"
  let ?from_users = "map (\<lambda>(name, uid). (uid, name)) (filter (\<lambda>(name, uid). name \<in> set users) pwall)"
  let ?from_groups = "map (\<lambda>m. (fromR 0 (dict_at (dict_of pwall) m), m)) (filter (dict_has (dict_of pwall)) ?members)"
  have "map_of (dict_of (?from_users @ ?from_groups)) uid = Some name"
    using assms by (auto simp: load_usc_uids_def check_unix_credentials_def assertR_Inr_iff Let_def)
  then have "(uid, name) \<in> set ?from_users \<or> (uid, name) \<in> set ?from_groups"
    using dict_of_mem by fastforce
  then show ?thesis
  proof
    assume "(uid, name) \<in> set ?from_groups"
    then have m: "name \<in> set ?members" "dict_has (dict_of pwall) name" "uid = fromR 0 (dict_at (dict_of pwall) name)"
      by auto
    then have "map_of (rev pwall) name = Some uid"
      by (auto simp: dict_has_def dict_at_def map_of_dict_of split: option.splits)
    then have "(name, uid) \<in> set pwall" by (auto dest: map_of_SomeD)
    with m(1) show ?thesis by auto
  qed auto
qed

theorem unix_login_is_listed_witness:
  "(text_of ''user'', 1000 :: int) \<in> set [(text_of ''root'', 0), (text_of ''user'', 1000)]
    \<and> (text_of ''user'' \<in> set [] \<or> (\<exists>(g, members) \<in> set [(text_of ''kvm'', [text_of ''user''])].
         g \<in> set [text_of ''kvm''] \<and> text_of ''user'' \<in> set members))"
proof (rule unix_login_is_listed)
  show "load_usc_uids [(text_of ''root'', 0), (text_of ''user'', 1000)] [(text_of ''kvm'', [text_of ''user''])] []
      [text_of ''kvm''] = Inr [(1000, text_of ''user'')]"
    by code_simp
  show "au_usc_uids (demo_auth\<lparr>au_usc_uids := [(1000, text_of ''user'')]\<rparr>) = [(1000, text_of ''user'')]" by simp
  show "check_unix_credentials (demo_auth\<lparr>au_usc_uids := [(1000, text_of ''user'')]\<rparr>) 1000 = Inr (Some (text_of ''user''))"
    by code_simp
qed

end
