(* ===== verification/PosixPath.thy ===== *)
theory PosixPath
  imports Tools "HOL-Library.List_Lexorder" "HOL-Library.Char_ord"
begin

text \<open>
  The functions of Python's \<open>os.path\<close> on POSIX that the sources use, on byte strings.
\<close>

section \<open>Splitting and joining\<close>

definition is_slash :: "char \<Rightarrow> bool" where
  "is_slash c = (c = CHR ''/'')"

definition path_head :: "string \<Rightarrow> string" where
  "path_head p = rev (dropWhile (\<lambda>c. \<not> is_slash c) (rev p))"

definition path_basename :: "string \<Rightarrow> string" where
  "path_basename p = rev (takeWhile (\<lambda>c. \<not> is_slash c) (rev p))"

definition path_dirname :: "string \<Rightarrow> string" where
  "path_dirname p = (let h = path_head p in
     if list_all is_slash h then h else rev (dropWhile is_slash (rev h)))"

definition path_join :: "string \<Rightarrow> string \<Rightarrow> string" where
  "path_join a b =
     (if py_startswith b ''/'' then b
      else if a = [] \<or> py_endswith a ''/'' then a @ b
      else a @ ''/'' @ b)"

fun join_parts :: "string list \<Rightarrow> string" where
  "join_parts [] = []"
| "join_parts [p] = p"
| "join_parts (p # ps) = p @ CHR ''/'' # join_parts ps"

section \<open>Normal paths\<close>

definition norm_comp :: "bool \<Rightarrow> string \<Rightarrow> string list \<Rightarrow> string list" where
  "norm_comp absolute part acc =
     (if part = [] \<or> part = ''.'' then acc
      else if part \<noteq> ''..'' \<or> (\<not> absolute \<and> acc = []) \<or> (acc \<noteq> [] \<and> last acc = ''..'') then acc @ [part]
      else butlast acc)"

definition norm_parts :: "bool \<Rightarrow> string \<Rightarrow> string list" where
  "norm_parts absolute p = fold (norm_comp absolute) (path_split p) []"

definition leading_slashes :: "string \<Rightarrow> string" where
  "leading_slashes p =
     (if \<not> py_startswith p ''/'' then []
      else if py_startswith p ''//'' \<and> \<not> py_startswith p ''///'' then ''//'' else ''/'')"

definition path_normpath :: "string \<Rightarrow> string" where
  "path_normpath p =
     (let absolute = py_startswith p ''/'';
          r = leading_slashes p @ join_parts (norm_parts absolute p)
      in if p = [] \<or> r = [] then ''.'' else r)"

fun common_prefix :: "'a list \<Rightarrow> 'a list \<Rightarrow> nat" where
  "common_prefix (x # xs) (y # ys) = (if x = y then Suc (common_prefix xs ys) else 0)"
| "common_prefix _ _ = 0"

text \<open>\<open>os.path.relpath\<close> for two absolute paths.\<close>

definition path_relpath :: "string \<Rightarrow> string \<Rightarrow> string" where
  "path_relpath p start =
     (let ss = filter (\<lambda>c. c \<noteq> []) (path_split (path_normpath start));
          ps = filter (\<lambda>c. c \<noteq> []) (path_split (path_normpath p));
          i = common_prefix ss ps;
          rel = replicate (length ss - i) ''..'' @ drop i ps
      in if rel = [] then ''.'' else join_parts rel)"

definition lower_ascii :: "char \<Rightarrow> char" where
  "lower_ascii c = (if 65 \<le> (of_char c :: nat) \<and> (of_char c :: nat) \<le> 90 then char_of ((of_char c :: nat) + 32) else c)"

section \<open>Facts\<close>

lemma path_head_append: "path_head p @ path_basename p = p"
  unfolding path_head_def path_basename_def
  by (metis rev_append rev_rev_ident takeWhile_dropWhile_id)

lemma basename_no_slash: "CHR ''/'' \<notin> set (path_basename p)"
  by (auto simp: path_basename_def is_slash_def dest: set_takeWhileD)

lemma dirname_length: "length (path_dirname p) \<le> length p"
proof -
  have "length (path_head p) \<le> length p" by (metis path_head_append length_append le_add1)
  moreover have "length (path_dirname p) \<le> length (path_head p)"
    using length_dropWhile_le [of is_slash "rev (path_head p)"] by (simp add: path_dirname_def Let_def)
  ultimately show ?thesis by linarith
qed

lemma dirname_shorter: "path_dirname p \<noteq> p \<Longrightarrow> length (path_dirname p) < length p"
proof -
  assume ne: "path_dirname p \<noteq> p"
  have "length (path_dirname p) \<noteq> length p"
  proof
    assume eq: "length (path_dirname p) = length p"
    have h: "length (path_dirname p) \<le> length (path_head p)"
      using length_dropWhile_le [of is_slash "rev (path_head p)"] by (simp add: path_dirname_def Let_def)
    have b: "path_basename p = []"
      using eq h path_head_append [of p] by (metis length_append add_diff_cancel_left' diff_is_0_eq length_0_conv)
    then have hp: "path_head p = p" using path_head_append [of p] by simp
    show False
    proof (cases "list_all is_slash p")
      case True
      then show False using ne hp by (simp add: path_dirname_def)
    next
      case False
      then have d: "path_dirname p = rev (dropWhile is_slash (rev p))" by (simp add: path_dirname_def hp)
      with eq have "dropWhile is_slash (rev p) = rev p"
        by (metis append_Nil length_append length_rev add_cancel_left_left length_0_conv takeWhile_dropWhile_id)
      then show False using d ne by simp
    qed
  qed
  then show ?thesis using dirname_length [of p] by linarith
qed

end
