(* ===== verification/MsdFs.thy ===== *)
theory MsdFs
  imports PosixPath
begin

text \<open>
  The outside of the mass storage: the file system with its mount points, the remount helper, and the
  attributes of the USB drive in \<open>configfs\<close>.  Every call to the operating system takes its number from
  a counter and what the system answers to the call of that number is a parameter, so that any call
  may fail with any error and a write may be short.
\<close>

section \<open>Files\<close>

datatype node_kind = IsFile | IsDir | IsOther

record node =
  nd_kind :: node_kind
  nd_data :: bytes
  nd_mtime :: int

datatype os_answer = Fine | Fail int | Short nat

record world =
  mw_nodes :: "(string, node) dict"
  mw_mounts :: "string list"
  mw_rw_mounts :: "string list"
  mw_access :: "string \<Rightarrow> bool"
  mw_dead :: "string \<Rightarrow> bool"
  mw_statvfs :: "string \<Rightarrow> int \<times> int \<times> int"
  mw_msd_root :: "string result"
  mw_msd_mount :: string
  mw_now :: int
  mw_drive_on :: bool
  mw_lun_file :: string
  mw_lun_cdrom :: int
  mw_lun_ro :: int
  mw_answer :: "nat \<Rightarrow> os_answer"
  mw_calls :: nat

text \<open>A missing file is not an answer but follows from the files.\<close>

definition os_error :: "int \<Rightarrow> pyerr" where
  "os_error errno = OSError"

definition os_call :: "(int \<Rightarrow> pyerr) \<Rightarrow> (nat option \<Rightarrow> (world, 'a) sm) \<Rightarrow> (world, 'a) sm" where
  "os_call err m w =
     (let n = mw_calls w; w' = w\<lparr>mw_calls := Suc n\<rparr>
      in case mw_answer w n of Fine \<Rightarrow> m None w' | Short k \<Rightarrow> m (Some k) w' | Fail e \<Rightarrow> (Inl (err e), w'))"

definition sys :: "(world, 'a) sm \<Rightarrow> (world, 'a) sm" where
  "sys m = os_call os_error (\<lambda>_. m)"

definition node_at :: "world \<Rightarrow> string \<Rightarrow> node option" where
  "node_at w p = map_of (mw_nodes w) p"

definition path_exists :: "world \<Rightarrow> string \<Rightarrow> bool" where
  "path_exists w p = (node_at w p \<noteq> None)"

definition is_dir :: "world \<Rightarrow> string \<Rightarrow> bool" where
  "is_dir w p = (case node_at w p of Some nd \<Rightarrow> nd_kind nd = IsDir | None \<Rightarrow> False)"

definition is_mount :: "world \<Rightarrow> string \<Rightarrow> bool" where
  "is_mount w p = (p = ''/'' \<or> p \<in> set (mw_mounts w))"

text \<open>The loop of \<open>_find_closest_mountpoint\<close>; an absolute path always ends at the root.\<close>

function closest_mount :: "world \<Rightarrow> string \<Rightarrow> string" where
  "closest_mount w p =
     (if is_mount w p \<or> path_dirname p = p then p else closest_mount w (path_dirname p))"
  by auto
termination by (relation "measure (length \<circ> snd)") (auto simp: dirname_shorter)

declare closest_mount.simps [simp del]

definition find_closest_mountpoint :: "world \<Rightarrow> string \<Rightarrow> string result" where
  "find_closest_mountpoint w p = bindR (check_abs p) (\<lambda>_. Inr (closest_mount w p))"

definition writable_fs :: "world \<Rightarrow> string \<Rightarrow> bool" where
  "writable_fs w p = (closest_mount w p \<in> set (mw_rw_mounts w))"

definition put_node :: "string \<Rightarrow> node \<Rightarrow> world \<Rightarrow> world" where
  "put_node p nd w = w\<lparr>mw_nodes := AList.update p nd (mw_nodes w)\<rparr>"

definition fs_remove :: "string \<Rightarrow> (world, unit) sm" where
  "fs_remove p = sys (getS (\<lambda>w. case node_at w p of
     None \<Rightarrow> raiseS FileNotFoundError
   | Some nd \<Rightarrow>
       if nd_kind nd = IsDir \<or> \<not> writable_fs w p then raiseS OSError
       else modifyS (\<lambda>w. w\<lparr>mw_nodes := AList.delete p (mw_nodes w)\<rparr>)))"

text \<open>Opening a file for writing creates it or empties it.\<close>

definition fs_create :: "string \<Rightarrow> (world, unit) sm" where
  "fs_create p = sys (getS (\<lambda>w.
     if \<not> is_dir w (path_dirname p) then raiseS FileNotFoundError
     else if is_dir w p \<or> \<not> writable_fs w p then raiseS OSError
     else modifyS (put_node p \<lparr>nd_kind = IsFile, nd_data = [], nd_mtime = mw_now w\<rparr>)))"

text \<open>\<open>os.makedirs(path, exist_ok=True)\<close>, from the outermost missing directory on.\<close>

function missing_dirs :: "world \<Rightarrow> string \<Rightarrow> string list" where
  "missing_dirs w p =
     (if path_exists w p \<or> path_dirname p = p then [] else missing_dirs w (path_dirname p) @ [p])"
  by auto
termination by (relation "measure (length \<circ> snd)") (auto simp: dirname_shorter)

declare missing_dirs.simps [simp del]

definition fs_mkdir :: "string \<Rightarrow> (world, unit) sm" where
  "fs_mkdir p = sys (getS (\<lambda>w.
     if \<not> writable_fs w p \<or> \<not> is_dir w (path_dirname p) then raiseS OSError
     else modifyS (put_node p \<lparr>nd_kind = IsDir, nd_data = [], nd_mtime = mw_now w\<rparr>)))"

definition fs_makedirs :: "string \<Rightarrow> (world, unit) sm" where
  "fs_makedirs p = getS (\<lambda>w. bindS (forS (missing_dirs w p) fs_mkdir)
     (\<lambda>_. getS (\<lambda>w. if is_dir w p then retS () else raiseS OSError)))"

definition change_data :: "string \<Rightarrow> (bytes \<Rightarrow> bytes) \<Rightarrow> world \<Rightarrow> world" where
  "change_data p f w =
     (case node_at w p of None \<Rightarrow> w | Some nd \<Rightarrow> put_node p (nd\<lparr>nd_data := f (nd_data nd), nd_mtime := mw_now w\<rparr>) w)"

definition truncated :: "nat \<Rightarrow> bytes \<Rightarrow> bytes" where
  "truncated n data = take n data @ replicate (n - length data) 0"

definition fs_ftruncate :: "string \<Rightarrow> int \<Rightarrow> (world, unit) sm" where
  "fs_ftruncate p n = sys (if n < 0 then raiseS OSError else modifyS (change_data p (truncated (nat n))))"

definition overwritten :: "nat \<Rightarrow> bytes \<Rightarrow> bytes \<Rightarrow> bytes" where
  "overwritten pos chunk data = truncated pos data @ chunk @ drop (pos + length chunk) data"

text \<open>A write to an unbuffered file: it may take only the first bytes, and returns how many.\<close>

definition fs_write :: "string \<Rightarrow> nat \<Rightarrow> bytes \<Rightarrow> (world, nat) sm" where
  "fs_write p pos chunk = os_call os_error (\<lambda>short.
     let part = (case short of None \<Rightarrow> chunk | Some k \<Rightarrow> take k chunk)
     in bindS (modifyS (change_data p (overwritten pos part))) (\<lambda>_. retS (length part)))"

section \<open>The remount helper\<close>

text \<open>\<open>aiohelpers.remount\<close> logs a failure and returns whether the helper succeeded.\<close>

definition remount :: "bool \<Rightarrow> (world, bool) sm" where
  "remount rw = exceptS (sys (bindS (modifyS (\<lambda>w. w\<lparr>mw_rw_mounts :=
       (if rw then mw_msd_mount w # mw_rw_mounts w else removeAll (mw_msd_mount w) (mw_rw_mounts w))\<rparr>)) (\<lambda>_. retS True)))
     (\<lambda>e. Some (retS False))"

section \<open>The USB drive\<close>

text \<open>
  The attributes of the logical unit.  The kernel gives back what was written, and \<open>forced_eject\<close>
  empties \<open>file\<close>.  \<open>set_param_error\<close> is the \<open>except\<close> of \<open>__set_param\<close>.
\<close>

definition drive_is_enabled :: "world \<Rightarrow> bool" where
  "drive_is_enabled w = mw_drive_on w"

definition set_param_error :: "int \<Rightarrow> pyerr" where
  "set_param_error errno = (if errno = 16 then MsdLockedError else os_error errno)"

definition set_path_error :: "int \<Rightarrow> pyerr" where
  "set_path_error errno =
     (if errno = 16 then MsdLockedError
      else if errno = 1 \<or> errno = 13 then MsdPermissionsError
      else if errno = 525 then MsdImageTooSmallError
      else os_error errno)"

definition set_image_path :: "string \<Rightarrow> (world, unit) sm" where
  "set_image_path path =
     (if path \<noteq> [] then os_call set_path_error (\<lambda>_. modifyS (\<lambda>w. w\<lparr>mw_lun_file := path\<rparr>))
      else os_call set_param_error (\<lambda>_. modifyS (\<lambda>w. w\<lparr>mw_lun_file := []\<rparr>)))"

definition get_image_path :: "(world, string) sm" where
  "get_image_path = sys (getS (\<lambda>w. retS (if mw_lun_file w \<noteq> [] then path_normpath (mw_lun_file w) else [])))"

definition set_cdrom_flag :: "bool \<Rightarrow> (world, unit) sm" where
  "set_cdrom_flag flag = os_call set_param_error (\<lambda>_. modifyS (\<lambda>w. w\<lparr>mw_lun_cdrom := of_bool flag\<rparr>))"

definition get_cdrom_flag :: "(world, bool) sm" where
  "get_cdrom_flag = sys (getS (\<lambda>w. retS (mw_lun_cdrom w \<noteq> 0)))"

definition set_rw_flag :: "bool \<Rightarrow> (world, unit) sm" where
  "set_rw_flag flag = os_call set_param_error (\<lambda>_. modifyS (\<lambda>w. w\<lparr>mw_lun_ro := of_bool (\<not> flag)\<rparr>))"

definition get_rw_flag :: "(world, bool) sm" where
  "get_rw_flag = sys (getS (\<lambda>w. retS (mw_lun_ro w = 0)))"

section \<open>Walking the storage\<close>

definition dir_children :: "world \<Rightarrow> string \<Rightarrow> string list" where
  "dir_children w d = sort_key path_basename
     (filter (\<lambda>p. path_dirname p = d \<and> p \<noteq> d) (map fst (mw_nodes w)))"

definition hidden_name :: "string \<Rightarrow> bool" where
  "hidden_name name = (py_startswith name ''.'' \<or> name = ''lost+found'')"

definition has_kind :: "world \<Rightarrow> node_kind \<Rightarrow> string \<Rightarrow> bool" where
  "has_kind w k p = (case node_at w p of Some nd \<Rightarrow> nd_kind nd = k | None \<Rightarrow> False)"

definition list_dir :: "world \<Rightarrow> string \<Rightarrow> string list \<times> string list" where
  "list_dir w d = (let items = filter (\<lambda>p. \<not> hidden_name (path_basename p)) (dir_children w d) in
     (filter (\<lambda>p. has_kind w IsDir p \<and> \<not> mw_dead w p) items, filter (has_kind w IsFile) items))"

definition max_path :: "world \<Rightarrow> nat" where
  "max_path w = foldr max (map (length \<circ> fst) (mw_nodes w)) 0"

lemma foldr_max_le: "x \<in> set xs \<Longrightarrow> (x :: nat) \<le> foldr max xs 0"
  by (induction xs) auto

lemma mem_max_path: "p \<in> fst ` set (mw_nodes w) \<Longrightarrow> length p \<le> max_path w"
  unfolding max_path_def by (rule foldr_max_le) force

lemma set_dir_children: "set (dir_children w d) = {p \<in> fst ` set (mw_nodes w). path_dirname p = d \<and> p \<noteq> d}"
  by (auto simp: dir_children_def)

lemma child_deeper:
  assumes "p \<in> set (fst (list_dir w d))"
  shows "Suc (max_path w) - length p < Suc (max_path w) - length d"
proof -
  from assms have p: "path_dirname p = d" "p \<noteq> d" "p \<in> fst ` set (mw_nodes w)"
    unfolding list_dir_def Let_def by (simp_all add: set_dir_children)
  have "length d < length p" using dirname_shorter [of p] p(1,2) by simp
  moreover have "length p \<le> max_path w" using p(3) by (rule mem_max_path)
  ultimately show ?thesis by linarith
qed

text \<open>The directories of the storage, each with its files, in the order of the generator.\<close>

function walk_dirs :: "world \<Rightarrow> string \<Rightarrow> (string \<times> string list) list" where
  "walk_dirs w d = (d, snd (list_dir w d)) # concat (map (walk_dirs w) (fst (list_dir w d)))"
  by auto
termination by (relation "measure (\<lambda>(w, d). Suc (max_path w) - length d)") (use child_deeper in auto)

declare walk_dirs.simps [simp del]

definition walk_storage :: "world \<Rightarrow> string \<Rightarrow> (string \<times> string list) list result" where
  "walk_storage w d = bindR (check_abs d) (\<lambda>_.
     if is_dir w d then Inr (walk_dirs w d) else Inl NotADirectoryError)"

end
