(* ===== verification/MsdStorage.thy ===== *)
theory MsdStorage
  imports MsdFs
begin

text \<open>
  The images and partitions of the mass storage (\<open>kvmd/plugins/msd/otg/storage.py\<close>).  An \<open>Image\<close>
  object is a value; the places that refresh an object write the refreshed value back where the
  object is kept.
\<close>

section \<open>The state of the storage\<close>

record image =
  im_name :: string
  im_path :: string
  im_in_storage :: bool
  im_complete :: bool
  im_removable :: bool
  im_writable :: bool
  im_size :: int
  im_mod_ts :: int
  im_adopted :: bool

record part =
  pt_name :: string
  pt_path :: string
  pt_size :: int
  pt_free :: int
  pt_writable :: bool

record store =
  sg_root :: "string option"
  sg_images :: "(string, image) dict option"
  sg_parts :: "(string, part) dict option"
  sg_world :: world

type_synonym ('x, 'a) st = "('x store_scheme, 'a) sm"

definition worldS :: "(world, 'a) sm \<Rightarrow> ('x, 'a) st" where
  "worldS m s = (case m (sg_world s) of (r, w) \<Rightarrow> (r, s\<lparr>sg_world := w\<rparr>))"

definition askS :: "(world \<Rightarrow> ('x, 'a) st) \<Rightarrow> ('x, 'a) st" where
  "askS f = getS (\<lambda>s. f (sg_world s))"

section \<open>Images\<close>

text \<open>Dataclass equality compares the name and the path only.\<close>

definition image_eq :: "image \<Rightarrow> image \<Rightarrow> bool" where
  "image_eq a b = (im_name a = im_name b \<and> im_path a = im_path b)"

definition image_init :: "string \<Rightarrow> string \<Rightarrow> bool \<Rightarrow> bool \<Rightarrow> image result" where
  "image_init name path in_storage adopted = bindR (check_abs path) (\<lambda>_.
     assertR (in_storage \<or> \<not> adopted)
       (Inr \<lparr>im_name = name, im_path = path_normpath path, im_in_storage = in_storage, im_complete = False,
         im_removable = False, im_writable = False, im_size = 0, im_mod_ts = 0, im_adopted = adopted\<rparr>))"

definition incomplete_name :: "string \<Rightarrow> string" where
  "incomplete_name file = ''.__'' @ file @ ''.incomplete''"

definition incomplete_path :: "image \<Rightarrow> string" where
  "incomplete_path im = path_join (path_dirname (im_path im)) (incomplete_name (path_basename (im_path im)))"

definition is_complete :: "world \<Rightarrow> image \<Rightarrow> bool" where
  "is_complete w im = (\<not> im_in_storage im \<or> \<not> path_exists w (incomplete_path im))"

definition is_removable :: "world \<Rightarrow> image \<Rightarrow> bool" where
  "is_removable w im =
     (if \<not> im_in_storage im then False
      else if \<not> im_adopted im then True
      else mw_access w (path_dirname (im_path im)))"

definition is_writable :: "world \<Rightarrow> image \<Rightarrow> bool" where
  "is_writable w im =
     (if py_endswith (map lower_ascii (im_name im)) ''.iso'' then False
      else if im_in_storage im \<and> \<not> im_adopted im then True
      else mw_access w (im_path im))"

definition get_stat :: "image \<Rightarrow> (world, int \<times> int) sm" where
  "get_stat im = exceptS (sys (getS (\<lambda>w. case node_at w (im_path im) of
       None \<Rightarrow> raiseS FileNotFoundError
     | Some nd \<Rightarrow> retS (int (length (nd_data nd)), nd_mtime nd)))) (\<lambda>e. Some (retS (0, 0)))"

definition image_reload :: "image \<Rightarrow> ('x, image) st" where
  "image_reload im = askS (\<lambda>w. bindS (worldS (get_stat im)) (\<lambda>(size, mod_ts).
     retS (im\<lparr>im_complete := is_complete w im, im_removable := is_removable w im, im_writable := is_writable w im,
       im_size := size, im_mod_ts := mod_ts\<rparr>)))"

definition image_exists :: "world \<Rightarrow> image \<Rightarrow> bool" where
  "image_exists w im = path_exists w (im_path im)"

definition set_complete :: "bool \<Rightarrow> image \<Rightarrow> ('x, image) st" where
  "set_complete flag im = assertS (im_in_storage im)
     (bindS (if flag
        then exceptS (worldS (fs_remove (incomplete_path im)))
               (\<lambda>e. if e = FileNotFoundError then Some (retS ()) else None)
        else worldS (fs_create (incomplete_path im))) (\<lambda>_.
      image_reload im))"

definition image_remove :: "bool \<Rightarrow> image \<Rightarrow> ('x, image) st" where
  "image_remove fatal im = assertS (im_in_storage im) (assertS (im_removable im)
     (bindS (exceptS (bindS (worldS (fs_remove (im_path im))) (\<lambda>_. retS True))
        (\<lambda>e. if e = FileNotFoundError \<or> \<not> fatal then Some (retS False) else None)) (\<lambda>removed.
      if removed then set_complete True im else retS im)))"

definition make_image_obj :: "string \<Rightarrow> string \<Rightarrow> bool \<Rightarrow> bool \<Rightarrow> ('x, image) st" where
  "make_image_obj name path in_storage adopted =
     bindS (liftS (image_init name path in_storage adopted)) image_reload"

section \<open>Partitions\<close>

definition part_init :: "string \<Rightarrow> string \<Rightarrow> part result" where
  "part_init name path = assertR (\<not> py_startswith name ''/'') (assertR (\<not> py_endswith name ''/'')
     (bindR (check_abs path) (\<lambda>_.
       Inr \<lparr>pt_name = name, pt_path = path_normpath path, pt_size = 0, pt_free = 0, pt_writable = False\<rparr>)))"

definition part_reload :: "part \<Rightarrow> ('x, part) st" where
  "part_reload pt = worldS (sys (getS (\<lambda>w. case mw_statvfs w (pt_path pt) of (blocks, frsize, bavail) \<Rightarrow>
     retS (pt\<lparr>pt_size := blocks * frsize, pt_free := bavail * frsize,
       pt_writable := (pt_name pt = [] \<or> mw_access w (pt_path pt))\<rparr>))))"

definition make_part :: "string \<Rightarrow> string \<Rightarrow> ('x, part) st" where
  "make_part name path = bindS (liftS (part_init name path)) part_reload"

section \<open>The storage\<close>

definition check_image_name :: "string \<Rightarrow> unit result" where
  "check_image_name name =
     (if name = [] \<or> py_startswith name ''.'' \<or> py_startswith name ''/'' \<or> py_endswith name ''/''
         \<or> ''..'' \<in> set (path_split name)
      then Inl ValueError else Inr ())"

definition get_root_path :: "('x, string) st" where
  "get_root_path = getS (\<lambda>s. case sg_root s of None \<Rightarrow> raiseS MsdOfflineError | Some p \<Rightarrow> retS p)"

definition get_images :: "('x, (string, image) dict) st" where
  "get_images = getS (\<lambda>s. case sg_images s of None \<Rightarrow> raiseS MsdOfflineError | Some d \<Rightarrow> retS d)"

definition get_parts :: "('x, (string, part) dict) st" where
  "get_parts = getS (\<lambda>s. case sg_parts s of None \<Rightarrow> raiseS MsdOfflineError | Some d \<Rightarrow> retS d)"

definition storage_get_state :: "('x, (string, image) dict \<times> (string, part) dict) st" where
  "storage_get_state = bindS get_images (\<lambda>ims. bindS get_parts (\<lambda>pts. retS (ims, pts)))"

definition load_image :: "string \<Rightarrow> string \<Rightarrow> string \<Rightarrow> (string, image) dict \<Rightarrow> ('x, (string, image) dict) st" where
  "load_image root mnt file images = (let name = path_relpath file root in
     bindS (liftS (check_image_name name)) (\<lambda>_.
     bindS (make_image_obj name file True (mnt \<noteq> root)) (\<lambda>im.
     retS (AList.update name im images))))"

fun foldS :: "('a \<Rightarrow> 'b \<Rightarrow> ('s, 'b) sm) \<Rightarrow> 'a list \<Rightarrow> 'b \<Rightarrow> ('s, 'b) sm" where
  "foldS f [] b = retS b"
| "foldS f (x # xs) b = bindS (f x b) (foldS f xs)"

text \<open>One directory of the walk: it is watched, listed, and its images and its partition are loaded.\<close>

definition load_dir ::
  "string \<Rightarrow> string \<times> string list \<Rightarrow> (string, image) dict \<times> (string, part) dict
     \<Rightarrow> ('x, (string, image) dict \<times> (string, part) dict) st" where
  "load_dir root item acc = (case item of (dir, files) \<Rightarrow> case acc of (images, parts) \<Rightarrow>
     bindS (worldS (sys (retS ()))) (\<lambda>_.
     askS (\<lambda>w. bindS (liftS (find_closest_mountpoint w dir)) (\<lambda>mnt.
     bindS (foldS (load_image root mnt) files images) (\<lambda>images'.
     if dir \<noteq> root \<and> is_mount w dir then
       (let name = path_relpath dir root in
        bindS (liftS (check_image_name name)) (\<lambda>_.
        bindS (make_part name dir) (\<lambda>pt. retS (images', AList.update name pt parts))))
     else retS (images', parts))))))"

definition storage_reload :: "('x, unit) st" where
  "storage_reload =
     bindS (modifyS (\<lambda>s. s\<lparr>sg_root := None, sg_images := None, sg_parts := None\<rparr>)) (\<lambda>_.
     askS (\<lambda>w. bindS (liftS (mw_msd_root w)) (\<lambda>root.
     bindS (liftS (walk_storage w root)) (\<lambda>items.
     bindS (foldS (load_dir root) items ([], [])) (\<lambda>(images, parts).
     bindS (make_part [] root) (\<lambda>pt.
     modifyS (\<lambda>s. s\<lparr>sg_root := Some root, sg_images := Some images, sg_parts := Some (AList.update [] pt parts)\<rparr>)))))))"

definition is_probably_enabled :: "world \<Rightarrow> (string \<Rightarrow> bool) \<Rightarrow> bool" where
  "is_probably_enabled w can_read = (case mw_msd_root w of Inl e \<Rightarrow> False | Inr root \<Rightarrow> can_read root)"

definition reload_parts :: "('x, unit) st" where
  "reload_parts = bindS get_parts (\<lambda>parts.
     forS parts (\<lambda>(name, pt). bindS (part_reload pt) (\<lambda>pt'.
       modifyS (\<lambda>s. s\<lparr>sg_parts := map_option (AList.update name pt') (sg_parts s)\<rparr>))))"

text \<open>\<open>shared\<close>: the image is the very object of the table, so that the table sees it refreshed.\<close>

definition remove_image :: "bool \<Rightarrow> image \<Rightarrow> bool \<Rightarrow> ('x, unit) st" where
  "remove_image shared im fatal = assertS (im_in_storage im) (assertS (im_removable im)
     (bindS get_images (\<lambda>images. whenS (dict_has images (im_name im))
       (bindS (image_remove fatal im) (\<lambda>im'.
        whenS shared (modifyS (\<lambda>s. s\<lparr>sg_images := map_option (AList.update (im_name im) im') (sg_images s)\<rparr>)))))))"

definition make_image :: "string \<Rightarrow> ('x, image) st" where
  "make_image name = bindS (liftS (check_image_name name)) (\<lambda>_.
     bindS get_root_path (\<lambda>root. let path = path_join root name in
     askS (\<lambda>w. bindS (liftS (find_closest_mountpoint w path)) (\<lambda>mnt.
     bindS (make_image_obj name path True (mnt \<noteq> root)) (\<lambda>im.
     bindS get_images (\<lambda>images.
     if dict_has images (im_name im) \<or> image_exists w im then raiseS MsdImageExistsError else retS im))))))"

definition get_image_by_name :: "string \<Rightarrow> ('x, image) st" where
  "get_image_by_name name = bindS (liftS (check_image_name name)) (\<lambda>_.
     bindS get_images (\<lambda>images. askS (\<lambda>w. case map_of images name of
       None \<Rightarrow> raiseS MsdUnknownImageError
     | Some im \<Rightarrow> if \<not> image_exists w im then raiseS MsdUnknownImageError
         else assertS (im_in_storage im) (retS im))))"

definition get_image_by_path :: "string \<Rightarrow> ('x, image) st" where
  "get_image_by_path path = bindS (liftS (check_abs path)) (\<lambda>_. let p = path_normpath path in
     bindS get_images (\<lambda>images. case find (\<lambda>(name, im). im_path im = p) images of
       Some (name, im) \<Rightarrow> retS im
     | None \<Rightarrow> make_image_obj (path_basename p) p False False))"

definition storage_remount :: "bool \<Rightarrow> bool \<Rightarrow> ('x, unit) st" where
  "storage_remount rw fatal = bindS (worldS (remount rw)) (\<lambda>success. if \<not> success \<and> fatal then raiseS MsdError else retS ())"

definition remount_rw :: "image \<Rightarrow> ('x, unit) st" where
  "remount_rw im = assertS (im_in_storage im) (bindS get_root_path (\<lambda>root.
     askS (\<lambda>w. bindS (liftS (find_closest_mountpoint w (im_path im))) (\<lambda>mnt.
     whenS (mnt = root) (storage_remount True True)))))"

definition remount_ro :: "('x, unit) st" where
  "remount_ro = storage_remount False False"

definition remount_probe :: "('x, unit) st" where
  "remount_probe = bindS (storage_remount True True) (\<lambda>_. storage_remount False True)"

end
