(* ===== verification/MsdOtg.thy ===== *)
theory MsdOtg
  imports MsdStorage
begin

text \<open>
  The mass storage plugin on the USB gadget (\<open>kvmd/plugins/msd/otg/__init__.py\<close>) with the readers and
  writers of images (\<open>kvmd/plugins/msd/__init__.py\<close>).  A method runs under the exclusive region and the
  lock, so it is one step; \<open>read_image\<close> and \<open>write_image\<close> give up the lock between their entry, their
  chunks and their exit, which are steps of their own, and other steps may come in between.
\<close>

section \<open>The state of the plugin\<close>

record vdrive =
  vd_image :: "image option"
  vd_connected :: bool
  vd_cdrom :: bool
  vd_rw :: bool

record reader =
  rd_name :: string
  rd_path :: string
  rd_size :: int
  rd_readed :: nat

record writer =
  wr_name :: string
  wr_path :: string
  wr_size :: int
  wr_written :: int
  wr_unsynced :: int
  wr_pos :: nat

datatype task = Idle | Reading | Writing "image option" bool

record msd = store +
  ms_online :: bool
  ms_vd :: "vdrive option"
  ms_busy :: bool
  ms_task :: task
  ms_reader :: "reader option"
  ms_writer :: "writer option"
  ms_reset :: bool
  ms_read_chunk :: nat
  ms_sync_chunk :: int

definition msd_init :: "nat \<Rightarrow> int \<Rightarrow> world \<Rightarrow> msd" where
  "msd_init read_chunk sync_chunk w = \<lparr>sg_root = None, sg_images = None, sg_parts = None, sg_world = w,
     ms_online = False, ms_vd = None, ms_busy = False, ms_task = Idle, ms_reader = None, ms_writer = None,
     ms_reset = False, ms_read_chunk = read_chunk, ms_sync_chunk = sync_chunk\<rparr>"

type_synonym 'a msd_op = "(msd, 'a) sm"

section \<open>The guards\<close>

text \<open>The region of \<open>busy_locked\<close>, which a second operation cannot enter.\<close>

definition busy_locked :: "'a msd_op \<Rightarrow> 'a msd_op" where
  "busy_locked m = getS (\<lambda>s. if ms_busy s then raiseS MsdIsBusyError
     else finallyS (bindS (modifyS (\<lambda>s. s\<lparr>ms_busy := True\<rparr>)) (\<lambda>_. m)) (modifyS (\<lambda>s. s\<lparr>ms_busy := False\<rparr>)))"

definition inserted :: "vdrive \<Rightarrow> bool msd_op" where
  "inserted vd = (if vd_connected vd then retS True
     else bindS (worldS get_image_path) (\<lambda>p. retS (p \<noteq> [])))"

definition check_online_connected :: "vdrive msd_op" where
  "check_online_connected = getS (\<lambda>s. assertS (ms_busy s) (case ms_vd s of
     None \<Rightarrow> raiseS MsdOfflineError
   | Some vd \<Rightarrow> bindS (inserted vd) (\<lambda>b. if \<not> b then raiseS MsdDisconnectedError
       else assertS (ms_online s) (retS vd))))"

definition check_online_disconnected :: "vdrive msd_op" where
  "check_online_disconnected = getS (\<lambda>s. assertS (ms_busy s) (case ms_vd s of
     None \<Rightarrow> raiseS MsdOfflineError
   | Some vd \<Rightarrow> bindS (inserted vd) (\<lambda>b. if b then raiseS MsdConnectedError
       else assertS (ms_online s) (retS vd))))"

definition set_vd :: "vdrive \<Rightarrow> unit msd_op" where
  "set_vd vd = modifyS (\<lambda>s. s\<lparr>ms_vd := Some vd\<rparr>)"

definition set_offline :: "unit msd_op" where
  "set_offline = modifyS (\<lambda>s. s\<lparr>ms_online := False, ms_vd := None\<rparr>)"

definition set_online :: "vdrive \<Rightarrow> unit msd_op" where
  "set_online real_vd = bindS (modifyS (\<lambda>s. s\<lparr>ms_online := True\<rparr>)) (\<lambda>_. getS (\<lambda>s.
     if vd_image real_vd \<noteq> None then assertS (vd_connected real_vd) (set_vd real_vd)
     else (let vd = (case ms_vd s of None \<Rightarrow> real_vd | Some vd \<Rightarrow> vd);
               keep = (case vd_image vd of None \<Rightarrow> True
                  | Some im \<Rightarrow> im_in_storage im \<and> image_exists (sg_world s) im)
           in set_vd (vd\<lparr>vd_image := (if keep then vd_image vd else None), vd_connected := False\<rparr>))))"

section \<open>Operations\<close>

definition msd_reset :: "unit msd_op" where
  "msd_reset = busy_locked (exceptS
     (bindS (modifyS (\<lambda>s. s\<lparr>ms_reset := True\<rparr>)) (\<lambda>_.
      bindS (worldS (set_image_path [])) (\<lambda>_.
      bindS (worldS (set_cdrom_flag False)) (\<lambda>_.
      bindS (worldS (set_rw_flag False)) (\<lambda>_. remount_ro)))))
     (\<lambda>e. Some (retS ())))"

text \<open>\<open>fix_rw\<close> is the last statement of \<open>set_params\<close>.\<close>

definition fix_rw :: "vdrive \<Rightarrow> vdrive" where
  "fix_rw vd = (if vd_rw vd \<and> (vd_cdrom vd \<or> (case vd_image vd of None \<Rightarrow> False | Some im \<Rightarrow> \<not> im_writable im))
     then vd\<lparr>vd_rw := False\<rparr> else vd)"

definition msd_set_params :: "string option \<Rightarrow> bool option \<Rightarrow> bool option \<Rightarrow> string option \<Rightarrow> unit msd_op" where
  "msd_set_params name cdrom rw remote_url =
     (if remote_url \<noteq> None then raiseS MsdRemoteDisabledError
      else busy_locked (bindS check_online_disconnected (\<lambda>vd.
        bindS (case name of None \<Rightarrow> retS (vd_image vd)
           | Some n \<Rightarrow> if n \<noteq> [] then bindS (get_image_by_name n) (\<lambda>im. retS (Some im)) else retS None) (\<lambda>image.
        set_vd (fix_rw (vd\<lparr>vd_image := image,
          vd_cdrom := (case cdrom of None \<Rightarrow> vd_cdrom vd | Some b \<Rightarrow> b),
          vd_rw := (case rw of None \<Rightarrow> vd_rw vd | Some b \<Rightarrow> b)\<rparr>))))))"

definition connect :: "unit msd_op" where
  "connect = bindS check_online_disconnected (\<lambda>vd. case vd_image vd of
     None \<Rightarrow> raiseS MsdImageNotSelected
   | Some im \<Rightarrow> askS (\<lambda>w.
       if \<not> image_exists w im then raiseS MsdUnknownImageError
       else if \<not> im_in_storage im then raiseS MsdUnknownImageError
       else bindS (whenS (vd_rw vd) (remount_rw im)) (\<lambda>_.
            bindS (worldS (set_rw_flag (vd_rw vd))) (\<lambda>_.
            bindS (worldS (set_cdrom_flag (vd_cdrom vd))) (\<lambda>_.
            bindS (worldS (set_image_path (im_path im))) (\<lambda>_.
            set_vd (vd\<lparr>vd_connected := True\<rparr>)))))))"

definition disconnect :: "unit msd_op" where
  "disconnect = bindS check_online_connected (\<lambda>vd.
     bindS (worldS (set_image_path [])) (\<lambda>_.
     bindS (set_vd (vd\<lparr>vd_connected := False\<rparr>)) (\<lambda>_. remount_ro)))"

definition msd_set_connected :: "bool \<Rightarrow> unit msd_op" where
  "msd_set_connected connected = busy_locked (if connected then connect else disconnect)"

definition msd_remove :: "string \<Rightarrow> unit msd_op" where
  "msd_remove name = busy_locked (bindS check_online_disconnected (\<lambda>vd.
     bindS (get_image_by_name name) (\<lambda>im.
     if \<not> im_removable im then raiseS MsdImageStaticError
     else bindS (whenS (case vd_image vd of None \<Rightarrow> False | Some i \<Rightarrow> image_eq i im) (set_vd (vd\<lparr>vd_image := None\<rparr>))) (\<lambda>_.
          finallyS (bindS (remount_rw im) (\<lambda>_. remove_image True im True)) remount_ro))))"

section \<open>Reading an image\<close>

definition reader_open :: "image \<Rightarrow> reader msd_op" where
  "reader_open im = bindS (worldS (sys (getS (\<lambda>w. case node_at w (im_path im) of
        None \<Rightarrow> raiseS FileNotFoundError | Some nd \<Rightarrow> retS (int (length (nd_data nd))))))) (\<lambda>size.
     bindS (worldS (sys (retS ()))) (\<lambda>_.
     retS \<lparr>rd_name = im_name im, rd_path = im_path im, rd_size = size, rd_readed = 0\<rparr>))"

definition close_reader :: "unit msd_op" where
  "close_reader = modifyS (\<lambda>s. s\<lparr>ms_reader := None\<rparr>)"

definition leave_read :: "unit msd_op" where
  "leave_read = finallyS close_reader (modifyS (\<lambda>s. s\<lparr>ms_busy := False, ms_task := Idle\<rparr>))"

definition read_enter :: "string \<Rightarrow> unit msd_op" where
  "read_enter name = getS (\<lambda>s. if ms_busy s then raiseS MsdIsBusyError
     else exceptS (bindS (modifyS (\<lambda>s. s\<lparr>ms_busy := True, ms_task := Reading\<rparr>)) (\<lambda>_.
       bindS check_online_disconnected (\<lambda>_.
       bindS (get_image_by_name name) (\<lambda>im.
       bindS (reader_open im) (\<lambda>r. modifyS (\<lambda>s. s\<lparr>ms_reader := Some r\<rparr>))))))
     (\<lambda>e. Some (bindS leave_read (\<lambda>_. raiseS e))))"

definition read_chunk :: "bytes msd_op" where
  "read_chunk = getS (\<lambda>s. case ms_reader s of None \<Rightarrow> raiseS AssertionError
   | Some r \<Rightarrow> bindS (worldS (sys (getS (\<lambda>w. retS (case node_at w (rd_path r) of None \<Rightarrow> []
         | Some nd \<Rightarrow> take (ms_read_chunk s) (drop (rd_readed r) (nd_data nd))))))) (\<lambda>chunk.
       bindS (modifyS (\<lambda>s. s\<lparr>ms_reader := Some (r\<lparr>rd_readed := rd_readed r + length chunk\<rparr>)\<rparr>)) (\<lambda>_. retS chunk)))"

definition read_exit :: "unit msd_op" where
  "read_exit = leave_read"

section \<open>Writing an image\<close>

text \<open>When \<open>ftruncate\<close> fails the file is closed and the exception goes on.\<close>

definition writer_open :: "image \<Rightarrow> int \<Rightarrow> writer msd_op" where
  "writer_open im total_size =
     bindS (worldS (fs_makedirs (path_dirname (im_path im)))) (\<lambda>_.
     bindS (worldS (fs_create (im_path im))) (\<lambda>_.
     bindS (worldS (fs_ftruncate (im_path im) total_size)) (\<lambda>_.
     retS \<lparr>wr_name = im_name im, wr_path = im_path im, wr_size = total_size, wr_written = 0, wr_unsynced = 0, wr_pos = 0\<rparr>)))"

definition sync_file :: "unit msd_op" where
  "sync_file = bindS (worldS (sys (retS ()))) (\<lambda>_. worldS (sys (retS ())))"

definition write_chunk :: "bytes \<Rightarrow> int msd_op" where
  "write_chunk chunk = getS (\<lambda>s. case ms_writer s of None \<Rightarrow> raiseS AssertionError
   | Some wr \<Rightarrow> bindS (worldS (fs_write (wr_path wr) (wr_pos wr) chunk)) (\<lambda>n.
       let wr' = wr\<lparr>wr_pos := wr_pos wr + n, wr_written := wr_written wr + int (length chunk),
                   wr_unsynced := wr_unsynced wr + int (length chunk)\<rparr> in
       bindS (modifyS (\<lambda>s. s\<lparr>ms_writer := Some wr'\<rparr>)) (\<lambda>_.
       bindS (whenS (wr_unsynced wr' \<ge> ms_sync_chunk s) (bindS sync_file (\<lambda>_.
          modifyS (\<lambda>s. s\<lparr>ms_writer := Some (wr'\<lparr>wr_unsynced := 0\<rparr>)\<rparr>)))) (\<lambda>_.
       retS (wr_written wr')))))"

definition writer_finish :: "bool msd_op" where
  "writer_finish = getS (\<lambda>s. case ms_writer s of None \<Rightarrow> raiseS AssertionError
   | Some wr \<Rightarrow> bindS sync_file (\<lambda>_. retS (wr_written wr \<ge> wr_size wr)))"

text \<open>\<open>writer.close\<close> logs what it catches.\<close>

definition close_writer :: "unit msd_op" where
  "close_writer = getS (\<lambda>s. whenS (ms_writer s \<noteq> None)
     (bindS (exceptS (worldS (sys (retS ()))) (\<lambda>e. Some (retS ()))) (\<lambda>_. modifyS (\<lambda>s. s\<lparr>ms_writer := None\<rparr>))))"

text \<open>The local variable \<open>image\<close> of the context, which the operations on it refresh.\<close>

definition task_image :: "msd \<Rightarrow> image option" where
  "task_image s = (case ms_task s of Writing im rm \<Rightarrow> im | _ \<Rightarrow> None)"

definition set_task_image :: "image \<Rightarrow> unit msd_op" where
  "set_task_image im = modifyS (\<lambda>s. s\<lparr>ms_task := (case ms_task s of Writing _ rm \<Rightarrow> Writing (Some im) rm | t \<Rightarrow> t)\<rparr>)"

definition remove_incomplete :: "msd \<Rightarrow> bool" where
  "remove_incomplete s = (case ms_task s of Writing im rm \<Rightarrow> rm | _ \<Rightarrow> False)"

definition finish_writing :: "bool \<Rightarrow> unit msd_op" where
  "finish_writing complete = finallyS close_writer (getS (\<lambda>s. case task_image s of
     None \<Rightarrow> retS ()
   | Some im \<Rightarrow> bindS check_online_disconnected (\<lambda>_.
       finallyS (bindS (set_complete complete im) set_task_image)
         (finallyS (getS (\<lambda>s. whenS (remove_incomplete s \<and> \<not> complete)
             (case task_image s of None \<Rightarrow> retS () | Some im \<Rightarrow> remove_image False im False)))
           remount_ro))))"

definition leave_write :: "bool \<Rightarrow> unit msd_op" where
  "leave_write complete = finallyS (finish_writing complete) (modifyS (\<lambda>s. s\<lparr>ms_busy := False, ms_task := Idle\<rparr>))"

definition start_writing :: "string \<Rightarrow> int \<Rightarrow> unit msd_op" where
  "start_writing name total_size = bindS check_online_disconnected (\<lambda>_.
     bindS (make_image name) (\<lambda>im.
     bindS (set_task_image im) (\<lambda>_.
     bindS (remount_rw im) (\<lambda>_.
     bindS (set_complete False im) (\<lambda>im'.
     bindS (set_task_image im') (\<lambda>_.
     bindS (writer_open im' total_size) (\<lambda>wr. modifyS (\<lambda>s. s\<lparr>ms_writer := Some wr\<rparr>))))))))"

definition write_enter :: "string \<Rightarrow> int \<Rightarrow> bool \<Rightarrow> unit msd_op" where
  "write_enter name total_size rm = getS (\<lambda>s. if ms_busy s then raiseS MsdIsBusyError
     else exceptS (bindS (modifyS (\<lambda>s. s\<lparr>ms_busy := True, ms_task := Writing None rm\<rparr>)) (\<lambda>_. start_writing name total_size))
       (\<lambda>e. Some (bindS (leave_write False) (\<lambda>_. raiseS e))))"

text \<open>The body of the context has ended, or has raised.\<close>

definition write_exit :: "unit msd_op" where
  "write_exit = bindS (exceptS (bindS writer_finish (\<lambda>c. retS (c, None))) (\<lambda>e. Some (retS (False, Some e)))) (\<lambda>(c, err).
     bindS (leave_write c) (\<lambda>_. case err of None \<Rightarrow> retS () | Some e \<Rightarrow> raiseS e))"

definition write_abort :: "unit msd_op" where
  "write_abort = leave_write False"

definition msd_cleanup :: "unit msd_op" where
  "msd_cleanup = finallyS close_reader close_writer"

section \<open>Following the drive and the storage\<close>

definition get_real_vd :: "vdrive msd_op" where
  "get_real_vd = bindS (worldS get_image_path) (\<lambda>path.
     bindS (if path \<noteq> [] then bindS (get_image_by_path path) (\<lambda>im. retS (Some im)) else retS None) (\<lambda>image.
     bindS (worldS get_cdrom_flag) (\<lambda>cdrom.
     bindS (worldS get_rw_flag) (\<lambda>rw.
     retS \<lparr>vd_image = image, vd_connected = (path \<noteq> []), vd_cdrom = cdrom, vd_rw = rw\<rparr>))))"

definition msd_reload :: "bool \<Rightarrow> unit msd_op" where
  "msd_reload reload_storage =
     bindS (exceptS (bindS (getS (\<lambda>s. whenS (\<not> ms_online s \<or> reload_storage) storage_reload)) (\<lambda>_.
         bindS get_real_vd (\<lambda>real_vd.
         bindS (getS (\<lambda>s. whenS (ms_vd s = None \<and> vd_image real_vd = None) remount_probe)) (\<lambda>_.
         retS (Some real_vd)))))
       (\<lambda>e. Some (bindS set_offline (\<lambda>_. retS None)))) (\<lambda>r.
     case r of None \<Rightarrow> retS () | Some vd \<Rightarrow> set_online vd)"

datatype watch_event = WatchRestart | WatchStorage | WatchDrive

text \<open>
  A turn of the watching loop, with the events of a series; it returns whether the loop goes on.
\<close>

definition systask_turn :: "watch_event list \<Rightarrow> bool msd_op" where
  "systask_turn evs = getS (\<lambda>s.
     if ms_vd s = None \<or> WatchRestart \<in> set evs then retS False
     else if evs \<noteq> [] then bindS (msd_reload (WatchStorage \<in> set evs)) (\<lambda>_. retS True)
     else if ms_writer s \<noteq> None then bindS reload_parts (\<lambda>_. retS True)
     else retS True)"

end
