(* ===== verification/MsdSafe.thy ===== *)
theory MsdSafe
  imports MsdOtg
begin

text \<open>
  The safety of the mass storage: which operations leave the files and the drive alone, and what every
  run of the plugin keeps.
\<close>

section \<open>Operations that change neither files nor drive\<close>

lemma keeps_case_option [keeps_rules]:
  "(x = None \<Longrightarrow> keeps P m) \<Longrightarrow> (\<And>a. x = Some a \<Longrightarrow> keeps P (f a)) \<Longrightarrow> keeps P (case x of None \<Rightarrow> m | Some a \<Rightarrow> f a)"
  by (cases x) auto

lemma keeps_case_prod [keeps_rules]:
  "(\<And>a b. x = (a, b) \<Longrightarrow> keeps P (f a b)) \<Longrightarrow> keeps P (case x of (a, b) \<Rightarrow> f a b)"
  by (cases x) auto

lemma keeps_let [keeps_rules]: "keeps P (f x) \<Longrightarrow> keeps P (Let x f)"
  by simp

lemma keeps_foldS [keeps_rules]: "(\<And>x b. keeps P (f x b)) \<Longrightarrow> keeps P (foldS f xs b)"
  by (induction xs arbitrary: b) (auto intro!: keeps_retS keeps_bindS)

definition wcore :: "world \<Rightarrow> (string, node) dict \<times> string \<times> (nat \<Rightarrow> os_answer)" where
  "wcore w = (mw_nodes w, mw_lun_file w, mw_answer w)"

definition core :: "msd \<Rightarrow> ((string, node) dict \<times> string \<times> (nat \<Rightarrow> os_answer)) \<times> bool \<times> task \<times> writer option" where
  "core s = (wcore (sg_world s), ms_busy s, ms_task s, ms_writer s)"

lemma wcore_update [simp]:
  "wcore (w\<lparr>mw_rw_mounts := a\<rparr>) = wcore w" "wcore (w\<lparr>mw_lun_cdrom := b\<rparr>) = wcore w"
  "wcore (w\<lparr>mw_lun_ro := b\<rparr>) = wcore w" "wcore (w\<lparr>mw_calls := n\<rparr>) = wcore w"
  by (simp_all add: wcore_def)

lemma core_update [simp]:
  "core (s\<lparr>sg_root := a\<rparr>) = core s" "core (s\<lparr>sg_images := b\<rparr>) = core s" "core (s\<lparr>sg_parts := d\<rparr>) = core s"
  "core (s\<lparr>ms_online := e\<rparr>) = core s" "core (s\<lparr>ms_vd := f\<rparr>) = core s" "core (s\<lparr>ms_reader := g\<rparr>) = core s"
  "core (s\<lparr>ms_reset := h\<rparr>) = core s"
  by (simp_all add: core_def)

lemma keeps_os_call [keeps_rules]:
  "(\<And>k. keeps (\<lambda>w. wcore w = c) (m k)) \<Longrightarrow> keeps (\<lambda>w. wcore w = c) (os_call err m)"
  unfolding keeps_def os_call_def by (auto simp: Let_def split: os_answer.split)

lemma keeps_sys [keeps_rules]: "keeps (\<lambda>w. wcore w = c) m \<Longrightarrow> keeps (\<lambda>w. wcore w = c) (sys m)"
  unfolding sys_def by (intro keeps_rules)

lemma keeps_worldS [keeps_rules]:
  assumes "\<And>d. keeps (\<lambda>w. wcore w = d) m"
  shows "keeps (\<lambda>s. core s = c) (worldS m)"
proof -
  have "wcore (snd (m w)) = wcore w" for w using assms [of "wcore w"] by (simp add: keeps_def)
  then show ?thesis by (auto simp: keeps_def worldS_def core_def split_beta)
qed

lemma keeps_askS [keeps_rules]: "(\<And>w. keeps P (f w)) \<Longrightarrow> keeps P (askS f)"
  unfolding askS_def by (intro keeps_rules)

lemma calm_modify [keeps_rules]: "(\<And>s. core (f s) = core s) \<Longrightarrow> keeps (\<lambda>s. core s = c) (modifyS f)"
  by (simp add: keeps_def modifyS_def)

lemma calm_world_modify [keeps_rules]: "(\<And>w. wcore (f w) = wcore w) \<Longrightarrow> keeps (\<lambda>w. wcore w = c) (modifyS f)"
  by (simp add: keeps_def modifyS_def)

lemma quiet_world [keeps_rules]:
  "keeps (\<lambda>w. wcore w = c) (remount rw)" "keeps (\<lambda>w. wcore w = c) (set_cdrom_flag b)"
  "keeps (\<lambda>w. wcore w = c) (set_rw_flag b)" "keeps (\<lambda>w. wcore w = c) get_image_path"
  "keeps (\<lambda>w. wcore w = c) get_cdrom_flag" "keeps (\<lambda>w. wcore w = c) get_rw_flag" "keeps (\<lambda>w. wcore w = c) (get_stat im)"
  unfolding remount_def set_cdrom_flag_def set_rw_flag_def get_image_path_def get_cdrom_flag_def get_rw_flag_def get_stat_def
  by (auto intro!: keeps_rules)

lemma calm_image [keeps_rules]:
  "keeps (\<lambda>s. core s = c) (image_reload im)" "keeps (\<lambda>s. core s = c) (make_image_obj n p b a)"
  "keeps (\<lambda>s. core s = c) (part_reload pt)" "keeps (\<lambda>s. core s = c) (make_part n p)"
  unfolding image_reload_def make_image_obj_def part_reload_def make_part_def
  by (auto intro!: keeps_rules split: prod.split simp: image_reload_def part_reload_def)

lemma calm_storage [keeps_rules]:
  "keeps (\<lambda>s. core s = c) get_root_path" "keeps (\<lambda>s. core s = c) get_images" "keeps (\<lambda>s. core s = c) get_parts"
  unfolding get_root_path_def get_images_def get_parts_def by (auto intro!: keeps_rules)

lemma calm_load [keeps_rules]:
  "keeps (\<lambda>s. core s = c) (load_image root mnt file images)"
  unfolding load_image_def Let_def by (auto intro!: keeps_rules)

lemma calm_load_dir [keeps_rules]: "keeps (\<lambda>s. core s = c) (load_dir root item acc)"
  unfolding load_dir_def Let_def by (auto intro!: keeps_rules)

lemma calm_storage_reload [keeps_rules]: "keeps (\<lambda>s. core s = c) storage_reload"
  unfolding storage_reload_def by (auto intro!: keeps_rules)

lemma calm_reload_parts [keeps_rules]: "keeps (\<lambda>s. core s = c) reload_parts"
  unfolding reload_parts_def by (auto intro!: keeps_rules)

lemma calm_lookup [keeps_rules]:
  "keeps (\<lambda>s. core s = c) (make_image n)" "keeps (\<lambda>s. core s = c) (get_image_by_name n)"
  "keeps (\<lambda>s. core s = c) (get_image_by_path n)" "keeps (\<lambda>s. core s = c) (storage_remount b f)"
  unfolding make_image_def get_image_by_name_def get_image_by_path_def storage_remount_def Let_def
  by (auto intro!: keeps_rules)

lemma calm_remount [keeps_rules]:
  "keeps (\<lambda>s. core s = c) (remount_rw im)" "keeps (\<lambda>s. core s = c) remount_ro" "keeps (\<lambda>s. core s = c) remount_probe"
  unfolding remount_rw_def remount_ro_def remount_probe_def by (auto intro!: keeps_rules)

lemma calm_checks [keeps_rules]:
  "keeps (\<lambda>s. core s = c) (inserted vd)" "keeps (\<lambda>s. core s = c) check_online_connected"
  "keeps (\<lambda>s. core s = c) check_online_disconnected"
  unfolding check_online_connected_def check_online_disconnected_def inserted_def by (auto intro!: keeps_rules)

lemma calm_set_vd [keeps_rules]: "keeps (\<lambda>s. core s = c) (set_vd vd)" "keeps (\<lambda>s. core s = c) set_offline"
  "keeps (\<lambda>s. core s = c) (set_online vd)"
  unfolding set_vd_def set_offline_def set_online_def Let_def by (auto intro!: keeps_rules)

lemma calm_get_real_vd [keeps_rules]: "keeps (\<lambda>s. core s = c) get_real_vd"
  unfolding get_real_vd_def by (auto intro!: keeps_rules)

lemma calm_msd_reload [keeps_rules]: "keeps (\<lambda>s. core s = c) (msd_reload b)"
  unfolding msd_reload_def by (intro keeps_rules) (auto intro!: keeps_rules split: option.splits)

lemma calm_systask [keeps_rules]: "keeps (\<lambda>s. core s = c) (systask_turn evs)"
  unfolding systask_turn_def by (auto intro!: keeps_rules)

lemma calm_reader [keeps_rules]: "keeps (\<lambda>s. core s = c) (reader_open im)" "keeps (\<lambda>s. core s = c) close_reader"
  "keeps (\<lambda>s. core s = c) read_chunk"
  unfolding reader_open_def close_reader_def read_chunk_def by (auto intro!: keeps_rules)

section \<open>Operations that change files only\<close>

definition frame :: "msd \<Rightarrow> string \<times> bool \<times> task \<times> writer option" where
  "frame s = (mw_lun_file (sg_world s), ms_busy s, ms_task s, ms_writer s)"

lemma frame_core: "frame s = (fst (snd (fst (core s))), snd (core s))"
  by (simp add: frame_def core_def wcore_def)

lemma keeps_core: "(\<And>c. keeps (\<lambda>s. core s = c) m) \<Longrightarrow> keeps (\<lambda>s. Q (core s)) m"
  by (simp add: keeps_def)

lemma keeps_core_frame: "(\<And>c. keeps (\<lambda>s. core s = c) m) \<Longrightarrow> keeps (\<lambda>s. frame s = c) m"
  unfolding frame_core by (rule keeps_core)

lemma keeps_frame: "(\<And>c. keeps (\<lambda>s. frame s = c) m) \<Longrightarrow> keeps (\<lambda>s. Q (frame s)) m"
  by (simp add: keeps_def)

definition drops :: "(world, 'a) sm \<Rightarrow> bool" where
  "drops m = (\<forall>w. mw_lun_file (snd (m w)) = mw_lun_file w)"

lemma drops_call: "(\<And>k. drops (m k)) \<Longrightarrow> drops (os_call err m)"
  by (auto simp: drops_def os_call_def Let_def split: os_answer.split)

lemma drops_sys: "drops m \<Longrightarrow> drops (sys m)"
  unfolding sys_def by (intro drops_call)

lemma drops_basic: "drops (retS a)" "drops (raiseS e)" "(\<And>w. mw_lun_file (f w) = mw_lun_file w) \<Longrightarrow> drops (modifyS f)"
  by (simp_all add: drops_def sm_defs)

lemma drops_bind: "drops m \<Longrightarrow> (\<And>a. drops (f a)) \<Longrightarrow> drops (bindS m f)"
  by (auto simp: drops_def bindS_cases split: sum.split)

lemma drops_get: "(\<And>w. drops (f w)) \<Longrightarrow> drops (getS f)"
  by (simp add: drops_def getS_def)

lemma drops_for: "(\<And>x. drops (f x)) \<Longrightarrow> drops (forS xs f)"
  by (induction xs) (auto intro!: drops_basic drops_bind)

lemma lun_put_node [simp]: "mw_lun_file (put_node p nd w) = mw_lun_file w"
  by (simp add: put_node_def)

lemma lun_change_data [simp]: "mw_lun_file (change_data p f w) = mw_lun_file w"
  by (simp add: change_data_def split: option.split)

lemma drops_fs: "drops (fs_remove p)" "drops (fs_create p)" "drops (fs_mkdir p)" "drops (fs_ftruncate p n)"
  "drops (fs_write p pos chunk)"
  unfolding fs_remove_def fs_create_def fs_mkdir_def fs_ftruncate_def fs_write_def
  by (auto intro!: drops_sys drops_call drops_get drops_basic drops_bind simp: Let_def split: option.split)

lemma drops_makedirs: "drops (fs_makedirs p)"
  unfolding fs_makedirs_def by (auto intro!: drops_get drops_basic drops_bind drops_for drops_fs)

lemma frame_world: "drops m \<Longrightarrow> keeps (\<lambda>s. frame s = c) (worldS m)"
  by (auto simp: keeps_def worldS_def frame_def drops_def split_beta)

lemma frame_fs [keeps_rules]:
  "keeps (\<lambda>s. frame s = c) (worldS (fs_remove p))" "keeps (\<lambda>s. frame s = c) (worldS (fs_create p))"
  "keeps (\<lambda>s. frame s = c) (worldS (fs_makedirs p))" "keeps (\<lambda>s. frame s = c) (worldS (fs_ftruncate p n))"
  "keeps (\<lambda>s. frame s = c) (worldS (fs_write p pos chunk))" "keeps (\<lambda>s. frame s = c) (worldS (sys (retS ())))"
  by (intro frame_world drops_fs drops_makedirs drops_sys drops_basic)+

lemmas frame_calm [keeps_rules] = calm_image [THEN keeps_core_frame] calm_storage [THEN keeps_core_frame]
  calm_lookup [THEN keeps_core_frame] calm_remount [THEN keeps_core_frame] calm_checks [THEN keeps_core_frame]
  calm_set_vd [THEN keeps_core_frame] calm_reader [THEN keeps_core_frame]

lemma frame_images [simp]: "frame (s\<lparr>sg_images := b\<rparr>) = frame s"
  by (simp add: frame_def)

lemma frame_modify [keeps_rules]: "(\<And>s. frame (f s) = frame s) \<Longrightarrow> keeps (\<lambda>s. frame s = c) (modifyS f)"
  by (simp add: keeps_def modifyS_def)

lemma frame_set_complete [keeps_rules]: "keeps (\<lambda>s. frame s = c) (set_complete b im)"
  unfolding set_complete_def by (auto intro!: keeps_rules split: if_splits)

lemma frame_remove [keeps_rules]: "keeps (\<lambda>s. frame s = c) (image_remove f im)"
  "keeps (\<lambda>s. frame s = c) (remove_image b im f)"
  unfolding remove_image_def image_remove_def by (auto intro!: keeps_rules split: if_splits)

lemma frame_writer [keeps_rules]: "keeps (\<lambda>s. frame s = c) (writer_open im n)" "keeps (\<lambda>s. frame s = c) sync_file"
  unfolding writer_open_def sync_file_def by (auto intro!: keeps_rules)

section \<open>Actions and runs\<close>

text \<open>
  What may happen: the methods, the watcher, the steps of a reading or writing context while there is
  one, and what others do: the host ejects the medium, and another program puts a file somewhere.
\<close>

datatype msd_act =
    ActReload bool
  | ActWatch "watch_event list"
  | ActParams "string option" "bool option" "bool option" "string option"
  | ActConnect bool
  | ActReset
  | ActRemove string
  | ActReadEnter string
  | ActReadChunk
  | ActReadExit
  | ActWriteEnter string int bool
  | ActWriteChunk bytes
  | ActWriteExit
  | ActWriteAbort
  | HostEject
  | OtherFile string node

fun is_writing :: "task \<Rightarrow> bool" where
  "is_writing (Writing im rm) = True"
| "is_writing _ = False"

definition ignoring :: "'a msd_op \<Rightarrow> unit msd_op" where
  "ignoring m = bindS m (\<lambda>_. retS ())"

fun msd_exec :: "msd_act \<Rightarrow> unit msd_op" where
  "msd_exec (ActReload b) = msd_reload b"
| "msd_exec (ActWatch evs) = ignoring (systask_turn evs)"
| "msd_exec (ActParams n c r u) = msd_set_params n c r u"
| "msd_exec (ActConnect b) = msd_set_connected b"
| "msd_exec ActReset = msd_reset"
| "msd_exec (ActRemove n) = msd_remove n"
| "msd_exec (ActReadEnter n) = read_enter n"
| "msd_exec ActReadChunk = ignoring read_chunk"
| "msd_exec ActReadExit = getS (\<lambda>s. whenS (ms_task s = Reading) read_exit)"
| "msd_exec (ActWriteEnter n len rm) = write_enter n len rm"
| "msd_exec (ActWriteChunk chunk) = ignoring (write_chunk chunk)"
| "msd_exec ActWriteExit = getS (\<lambda>s. whenS (is_writing (ms_task s)) write_exit)"
| "msd_exec ActWriteAbort = getS (\<lambda>s. whenS (is_writing (ms_task s)) write_abort)"
| "msd_exec HostEject = worldS (modifyS (\<lambda>w. w\<lparr>mw_lun_file := []\<rparr>))"
| "msd_exec (OtherFile p nd) = worldS (modifyS (put_node p nd))"

fun by_others :: "msd_act \<Rightarrow> bool" where
  "by_others HostEject = True"
| "by_others (OtherFile p nd) = True"
| "by_others _ = False"

inductive msd_run :: "msd \<Rightarrow> msd_act list \<Rightarrow> msd \<Rightarrow> bool" for s where
  RunNil: "msd_run s [] s"
| RunStep: "msd_run s acts t \<Longrightarrow> msd_exec a t = (r, u) \<Longrightarrow> msd_run s (acts @ [a]) u"

definition lun_file :: "msd \<Rightarrow> string" where
  "lun_file s = mw_lun_file (sg_world s)"

definition files :: "msd \<Rightarrow> (string, node) dict" where
  "files s = mw_nodes (sg_world s)"

definition frame_inv :: "string \<times> bool \<times> task \<times> writer option \<Rightarrow> bool" where
  "frame_inv f = (case f of (lun, busy, task, wr) \<Rightarrow>
     (busy \<longleftrightarrow> task \<noteq> Idle)
     \<and> (wr \<noteq> None \<longrightarrow> (\<exists>im rm. task = Writing (Some im) rm))
     \<and> ((\<exists>im rm. task = Writing (Some im) rm) \<longrightarrow> lun = []))"

abbreviation msd_inv :: "msd \<Rightarrow> bool" where
  "msd_inv s \<equiv> frame_inv (frame s)"

section \<open>Every action keeps the invariant\<close>

definition idle_inside :: "msd \<Rightarrow> bool" where
  "idle_inside s = (ms_busy s \<and> ms_task s = Idle \<and> ms_writer s = None)"

lemma idle_of_frame: "(\<And>c. keeps (\<lambda>s. frame s = c) m) \<Longrightarrow> keeps idle_inside m"
  using keeps_frame [of m "\<lambda>(l, b, t, w). b \<and> t = Idle \<and> w = None"]
  by (simp add: idle_inside_def frame_def keeps_def)

lemmas idle_calm [keeps_rules] = frame_calm [THEN idle_of_frame] frame_remove [THEN idle_of_frame]

lemma idle_world [keeps_rules]: "keeps idle_inside (worldS m)"
  by (auto simp: keeps_def idle_inside_def worldS_def split_beta)

lemma idle_reset [keeps_rules]: "keeps idle_inside (modifyS (\<lambda>s. s\<lparr>ms_reset := b\<rparr>))"
  by (auto simp: keeps_def idle_inside_def modifyS_def)

lemma idle_bodies [keeps_rules]: "keeps idle_inside connect" "keeps idle_inside disconnect"
  unfolding connect_def disconnect_def by (auto intro!: keeps_rules)

lemma busy_locked_inv:
  assumes "keeps idle_inside m"
  shows "keeps msd_inv (busy_locked m)"
  unfolding keeps_def
proof (intro allI impI)
  fix s assume inv: "msd_inv s"
  show "msd_inv (snd (busy_locked m s))"
  proof (cases "ms_busy s")
    case True
    with inv show ?thesis by (simp add: busy_locked_def sm_defs)
  next
    case False
    with inv have "idle_inside (s\<lparr>ms_busy := True\<rparr>)" by (auto simp: frame_inv_def frame_def idle_inside_def)
    with assms have "idle_inside (snd (m (s\<lparr>ms_busy := True\<rparr>)))" by (simp add: keeps_def)
    with False show ?thesis
      by (auto simp: busy_locked_def sm_defs finallyS_def bindS_def split_beta frame_inv_def frame_def idle_inside_def)
  qed
qed

lemma inv_of_core: "(\<And>c. keeps (\<lambda>s. core s = c) m) \<Longrightarrow> keeps msd_inv m"
  using keeps_core_frame [THEN keeps_frame] by blast

lemma inv_methods:
  "keeps msd_inv (msd_set_params n c r u)" "keeps msd_inv (msd_set_connected b)" "keeps msd_inv msd_reset"
  "keeps msd_inv (msd_remove nm)"
  unfolding msd_set_params_def msd_set_connected_def msd_reset_def msd_remove_def
  by (auto intro!: busy_locked_inv keeps_rules)

lemma inv_calm:
  "keeps msd_inv (msd_reload b)" "keeps msd_inv (ignoring (systask_turn evs))" "keeps msd_inv (ignoring read_chunk)"
  unfolding ignoring_def by (intro inv_of_core keeps_rules)+

text \<open>Inside a writing context with an image, and after it.\<close>

definition writing_inside :: "msd \<Rightarrow> bool" where
  "writing_inside s = (lun_file s = [] \<and> ms_busy s \<and> (\<exists>im rm. ms_task s = Writing (Some im) rm))"

lemma writing_of_frame: "(\<And>c. keeps (\<lambda>s. frame s = c) m) \<Longrightarrow> keeps writing_inside m"
  using keeps_frame [of m "\<lambda>(l, b, t, w). l = [] \<and> b \<and> (\<exists>im rm. t = Writing (Some im) rm)"]
  by (simp add: writing_inside_def frame_def lun_file_def keeps_def)

lemmas writing_calm [keeps_rules] = frame_calm [THEN writing_of_frame] frame_remove [THEN writing_of_frame]
  frame_set_complete [THEN writing_of_frame] frame_writer [THEN writing_of_frame] frame_fs [THEN writing_of_frame]

lemma writing_steps [keeps_rules]: "keeps writing_inside (set_task_image im)"
  "keeps writing_inside (modifyS (\<lambda>s. s\<lparr>ms_writer := w\<rparr>))"
  by (auto simp: keeps_def writing_inside_def set_task_image_def modifyS_def lun_file_def)

lemma inv_writing: "writing_inside s \<Longrightarrow> msd_inv s"
  by (auto simp: writing_inside_def frame_inv_def frame_def lun_file_def)

lemma inv_no_writer: "msd_inv s \<Longrightarrow> ms_writer s \<noteq> None \<Longrightarrow> writing_inside s"
  by (auto simp: writing_inside_def frame_inv_def frame_def lun_file_def)

lemma write_chunk_writing: "keeps writing_inside (write_chunk chunk)"
  unfolding write_chunk_def Let_def by (auto intro!: keeps_rules)

lemma inv_write_chunk: "keeps msd_inv (ignoring (write_chunk chunk))"
  unfolding keeps_def
proof (intro allI impI)
  fix s assume inv: "msd_inv s"
  show "msd_inv (snd (ignoring (write_chunk chunk) s))"
  proof (cases "ms_writer s")
    case None
    with inv show ?thesis by (simp add: ignoring_def write_chunk_def bindS_def sm_defs)
  next
    case (Some wr)
    with inv have "writing_inside s" by (intro inv_no_writer) auto
    moreover have "keeps writing_inside (ignoring (write_chunk chunk))"
      unfolding ignoring_def by (intro keeps_bindS write_chunk_writing keeps_retS)
    ultimately show ?thesis by (intro inv_writing) (rule keepsD)
  qed
qed

text \<open>Leaving a context leaves no trace of it, whatever fails on the way.\<close>

definition no_writer :: "msd \<Rightarrow> bool" where
  "no_writer s = (ms_writer s = None)"

lemma no_writer_of_frame: "(\<And>c. keeps (\<lambda>s. frame s = c) m) \<Longrightarrow> keeps no_writer m"
  using keeps_frame [of m "\<lambda>(l, b, t, w). w = None"] by (simp add: no_writer_def frame_def keeps_def)

lemmas no_writer_calm [keeps_rules] = frame_calm [THEN no_writer_of_frame] frame_remove [THEN no_writer_of_frame]
  frame_set_complete [THEN no_writer_of_frame]

lemma no_writer_steps [keeps_rules]: "keeps no_writer (set_task_image im)"
  by (auto simp: keeps_def no_writer_def set_task_image_def modifyS_def)

lemma close_writer_closes: "no_writer (snd (close_writer s))"
  by (cases "ms_writer s") (auto simp: no_writer_def close_writer_def sm_defs bindS_def exceptS_def
      split: prod.splits sum.splits)

lemma leave_write_inv: "msd_inv (snd (leave_write b s)) \<and> ms_task (snd (leave_write b s)) = Idle"
proof -
  let ?rest = "getS (\<lambda>s. case task_image s of None \<Rightarrow> retS ()
   | Some im \<Rightarrow> bindS check_online_disconnected (\<lambda>_.
       finallyS (bindS (set_complete b im) set_task_image)
         (finallyS (getS (\<lambda>s. whenS (remove_incomplete s \<and> \<not> b)
             (case task_image s of None \<Rightarrow> retS () | Some im \<Rightarrow> remove_image False im False)))
           remount_ro)))"
  have "keeps no_writer ?rest" by (auto intro!: keeps_rules)
  then have "no_writer (snd (finish_writing b s))"
    using close_writer_closes [of s]
    by (auto simp: finish_writing_def finallyS_def keeps_def split: prod.splits sum.splits)
  then show ?thesis
    by (auto simp: leave_write_def finallyS_def modifyS_def no_writer_def frame_inv_def frame_def split: prod.splits)
qed

lemma leave_read_inv: "ms_writer s = None \<Longrightarrow> msd_inv (snd (leave_read s)) \<and> ms_task (snd (leave_read s)) = Idle"
  by (auto simp: leave_read_def close_reader_def finallyS_def modifyS_def frame_inv_def frame_def)

lemma normpath_not_Nil: "path_normpath p \<noteq> []"
  by (simp add: path_normpath_def Let_def)

lemma image_path_lun:
  assumes "get_image_path w = (Inr p, w')"
  shows "(p = []) = (mw_lun_file w = [])"
  using assms normpath_not_Nil
  by (auto simp: get_image_path_def sys_def os_call_def sm_defs Let_def split: os_answer.splits if_splits)

lemma check_disconnected:
  assumes "check_online_disconnected s = (Inr vd, t)"
  shows "lun_file s = [] \<and> ms_vd s = Some vd \<and> \<not> vd_connected vd \<and> ms_busy s"
proof -
  from assms have vd: "ms_vd s = Some vd" "\<not> vd_connected vd" "ms_busy s"
    and p: "\<exists>w'. get_image_path (sg_world s) = (Inr [], w')"
    by (auto simp: check_online_disconnected_def inserted_def sm_defs bindS_def worldS_def
        split: option.splits if_splits prod.splits sum.splits)
  from p image_path_lun have "lun_file s = []" by (auto simp: lun_file_def)
  with vd show ?thesis by simp
qed

lemma check_refused:
  assumes "lun_file s \<noteq> []" "bindS check_online_disconnected f s = (r, t)"
  shows "\<exists>e. r = Inl e \<and> core t = core s"
proof -
  have "core (snd (check_online_disconnected s)) = core s"
    using calm_checks(3) [of "core s"] by (simp add: keeps_def)
  moreover have "\<not> (\<exists>vd. fst (check_online_disconnected s) = Inr vd)"
    using check_disconnected [of s] assms(1) by (metis prod.collapse)
  ultimately show ?thesis using assms(2) by (auto simp: bindS_cases split: sum.splits)
qed

lemma start_writing_ok:
  assumes "start_writing n len s = (Inr (), t)" "ms_task s = Writing None rm"
  shows "writing_inside t"
proof -
  from assms(1) obtain vd s1 im s2 where c: "check_online_disconnected s = (Inr vd, s1)"
    and m: "make_image n s1 = (Inr im, s2)"
    and r: "bindS (set_task_image im) (\<lambda>_. bindS (remount_rw im) (\<lambda>_. bindS (set_complete False im) (\<lambda>im'.
      bindS (set_task_image im') (\<lambda>_. bindS (writer_open im' len) (\<lambda>wr. modifyS (\<lambda>s. s\<lparr>ms_writer := Some wr\<rparr>)))))) s2
      = (Inr (), t)"
    unfolding start_writing_def bindS_Inr_iff by blast
  have "frame s1 = frame s"
    using keepsE [OF calm_checks(3) [THEN keeps_core_frame, of "frame s"] _ c] by simp
  then have f: "frame s2 = frame s"
    using keepsE [OF calm_lookup(1) [THEN keeps_core_frame, of "frame s"] _ m] by simp
  let ?s3 = "s2\<lparr>ms_task := Writing (Some im) rm\<rparr>"
  have s3: "set_task_image im s2 = (Inr (), ?s3)"
    using f assms(2) by (auto simp: set_task_image_def modifyS_def frame_def)
  have w: "writing_inside ?s3"
    using check_disconnected [OF c] f by (auto simp: writing_inside_def frame_def lun_file_def)
  have k: "keeps writing_inside (bindS (remount_rw im) (\<lambda>_. bindS (set_complete False im) (\<lambda>im'.
      bindS (set_task_image im') (\<lambda>_. bindS (writer_open im' len) (\<lambda>wr. modifyS (\<lambda>s. s\<lparr>ms_writer := Some wr\<rparr>))))))"
    by (intro keeps_rules)
  from keepsE [OF k w r [unfolded bindS_ok [of "set_task_image im" s2 "()" ?s3, OF s3]]] show ?thesis .
qed

lemma write_enter_inv: "keeps msd_inv (write_enter n len rm)"
  unfolding keeps_def
proof (intro allI impI)
  fix s assume inv: "msd_inv s"
  let ?s1 = "s\<lparr>ms_busy := True, ms_task := Writing None rm\<rparr>"
  show "msd_inv (snd (write_enter n len rm s))"
  proof (cases "ms_busy s")
    case True
    with inv show ?thesis by (simp add: write_enter_def sm_defs)
  next
    case False
    obtain r t where st: "start_writing n len ?s1 = (r, t)" by fastforce
    show ?thesis
    proof (cases r)
      case (Inr u)
      with st have "writing_inside t" by (auto intro: start_writing_ok)
      then have "msd_inv t" by (rule inv_writing)
      with st Inr False show ?thesis by (simp add: write_enter_def sm_defs exceptS_def bindS_def)
    next
      case (Inl e)
      with st False leave_write_inv [of False t] show ?thesis
        by (auto simp: write_enter_def sm_defs exceptS_def bindS_def split: prod.splits sum.splits)
    qed
  qed
qed

definition reading_inside :: "msd \<Rightarrow> bool" where
  "reading_inside s = (ms_busy s \<and> ms_task s = Reading \<and> ms_writer s = None)"

lemma reading_of_frame: "(\<And>c. keeps (\<lambda>s. frame s = c) m) \<Longrightarrow> keeps reading_inside m"
  using keeps_frame [of m "\<lambda>(l, b, t, w). b \<and> t = Reading \<and> w = None"]
  by (simp add: reading_inside_def frame_def keeps_def)

lemmas reading_calm [keeps_rules] = frame_calm [THEN reading_of_frame]

lemma read_enter_inv: "keeps msd_inv (read_enter n)"
  unfolding keeps_def
proof (intro allI impI)
  fix s assume inv: "msd_inv s"
  let ?s1 = "s\<lparr>ms_busy := True, ms_task := Reading\<rparr>"
  let ?body = "bindS check_online_disconnected (\<lambda>_. bindS (get_image_by_name n) (\<lambda>im.
       bindS (reader_open im) (\<lambda>r. modifyS (\<lambda>s. s\<lparr>ms_reader := Some r\<rparr>))))"
  show "msd_inv (snd (read_enter n s))"
  proof (cases "ms_busy s")
    case True
    with inv show ?thesis by (simp add: read_enter_def sm_defs)
  next
    case False
    obtain r t where st: "?body ?s1 = (r, t)" by fastforce
    have r1: "reading_inside ?s1" using inv False by (auto simp: reading_inside_def frame_inv_def frame_def)
    have "keeps reading_inside (modifyS (\<lambda>s. s\<lparr>ms_reader := x\<rparr>))" for x
      by (simp add: keeps_def reading_inside_def modifyS_def)
    then have k: "keeps reading_inside ?body" by (intro keeps_rules)
    have t: "reading_inside t" by (rule keepsE [OF k r1 st])
    then have "msd_inv t" by (auto simp: reading_inside_def frame_inv_def frame_def)
    moreover have "msd_inv (snd (leave_read t))" using t leave_read_inv [of t] by (simp add: reading_inside_def)
    moreover have "snd (read_enter n s) = (case r of Inl e \<Rightarrow> snd (leave_read t) | Inr u \<Rightarrow> t)"
    proof -
      have "read_enter n s = exceptS (\<lambda>s. ?body ?s1) (\<lambda>e. Some (bindS leave_read (\<lambda>_. raiseS e))) s"
        using False by (simp add: read_enter_def getS_def exceptS_def modifyS_def bindS_def)
      also have "\<dots> = (case r of Inl e \<Rightarrow> bindS leave_read (\<lambda>_. raiseS e) t | Inr u \<Rightarrow> (Inr u, t))"
        by (cases r) (simp_all only: exceptS_def st sum.case prod.case option.case)
      finally show ?thesis by (cases r) (auto simp: bindS_cases [of leave_read] raiseS_def split: sum.split)
    qed
    ultimately show ?thesis by (simp split: sum.split)
  qed
qed

lemma caught_all: "\<exists>a t. exceptS m (\<lambda>e. Some (retS (f e))) s = (Inr a, t)"
  by (cases "m s"; cases "fst (m s)") (auto simp: exceptS_def retS_def)

lemma exit_inv:
  "keeps msd_inv (getS (\<lambda>s. whenS (ms_task s = Reading) read_exit))"
  "keeps msd_inv (getS (\<lambda>s. whenS (is_writing (ms_task s)) write_abort))"
  "keeps msd_inv (getS (\<lambda>s. whenS (is_writing (ms_task s)) write_exit))"
proof -
  have "msd_inv (snd (leave_read s))" if "msd_inv s" "ms_task s = Reading" for s
    using that leave_read_inv [of s] by (auto simp: frame_inv_def frame_def)
  then show "keeps msd_inv (getS (\<lambda>s. whenS (ms_task s = Reading) read_exit))"
    unfolding keeps_def getS_def whenS_def retS_def read_exit_def by simp
  show "keeps msd_inv (getS (\<lambda>s. whenS (is_writing (ms_task s)) write_abort))"
    using leave_write_inv by (auto simp: keeps_def write_abort_def getS_def whenS_def retS_def)
  have "msd_inv (snd (write_exit s))" for s
  proof -
    obtain x t where x: "exceptS (bindS writer_finish (\<lambda>c. retS (c, None))) (\<lambda>e. Some (retS (False, Some e))) s = (Inr x, t)"
      using caught_all [of "bindS writer_finish (\<lambda>c. retS (c, None))" "\<lambda>e. (False, Some e)" s] by blast
    obtain c err where "x = (c, err)" by fastforce
    with x have "snd (write_exit s) = snd (leave_write c t)"
      by (auto simp: write_exit_def bindS_cases sm_defs split: sum.split option.split)
    then show ?thesis using leave_write_inv by simp
  qed
  then show "keeps msd_inv (getS (\<lambda>s. whenS (is_writing (ms_task s)) write_exit))"
    by (auto simp: keeps_def getS_def whenS_def retS_def)
qed

lemma others_inv: "keeps msd_inv (worldS (modifyS (\<lambda>w. w\<lparr>mw_lun_file := []\<rparr>)))"
  "keeps msd_inv (worldS (modifyS (put_node p nd)))"
  by (auto simp: keeps_def worldS_def modifyS_def frame_inv_def frame_def put_node_def)

lemma msd_exec_inv: "keeps msd_inv (msd_exec a)"
  by (cases a) (auto simp: inv_methods inv_calm inv_write_chunk write_enter_inv read_enter_inv exit_inv others_inv)

lemma msd_run_inv: "msd_run s acts t \<Longrightarrow> msd_inv s \<Longrightarrow> msd_inv t"
  by (induction rule: msd_run.induct) (auto dest: keepsE [OF msd_exec_inv])

lemma msd_init_inv: "msd_inv (msd_init rc sc w)"
  by (simp add: msd_init_def frame_inv_def frame_def)

end
