(* ===== verification/MsdUpload.thy ===== *)
theory MsdUpload
  imports MsdSafe
begin

text \<open>
  What the mass storage guarantees: the image in the drive, the exclusive region, uploads, and the way
  an image is inserted; and where uploads and insertions go wrong.
\<close>

section \<open>The image in the drive\<close>

lemma files_core: "files s = fst (fst (core s))"
  by (simp add: files_def core_def wcore_def)

lemma keeps_files: "(\<And>c. keeps (\<lambda>s. core s = c) m) \<Longrightarrow> keeps (\<lambda>s. files s = n) m"
  unfolding files_core by (rule keeps_core)

lemmas files_calm [keeps_rules] = calm_storage [THEN keeps_files] calm_lookup [THEN keeps_files]
  calm_remount [THEN keeps_files] calm_checks [THEN keeps_files] calm_set_vd [THEN keeps_files]
  calm_reader [THEN keeps_files] calm_msd_reload [THEN keeps_files] calm_systask [THEN keeps_files]

lemma files_drive [keeps_rules]:
  "keeps (\<lambda>s. files s = n) (worldS (set_image_path p))" "keeps (\<lambda>s. files s = n) (worldS (set_cdrom_flag b))"
  "keeps (\<lambda>s. files s = n) (worldS (set_rw_flag b))"
  unfolding set_image_path_def set_cdrom_flag_def set_rw_flag_def
  by (auto simp: keeps_def worldS_def os_call_def modifyS_def files_def Let_def split: os_answer.split)

lemma files_update [simp]:
  "files (s\<lparr>ms_busy := b\<rparr>) = files s" "files (s\<lparr>ms_task := k\<rparr>) = files s" "files (s\<lparr>ms_reset := r\<rparr>) = files s"
  "files (s\<lparr>ms_vd := v\<rparr>) = files s" "files (s\<lparr>ms_writer := wr\<rparr>) = files s" "files (s\<lparr>ms_reader := rd\<rparr>) = files s"
  by (simp_all add: files_def)

lemma files_modify [keeps_rules]: "(\<And>s. files (f s) = files s) \<Longrightarrow> keeps (\<lambda>s. files s = n) (modifyS f)"
  by (simp add: keeps_def modifyS_def)

lemma files_drive_methods:
  "keeps (\<lambda>s. files s = n) (msd_set_connected b)" "keeps (\<lambda>s. files s = n) msd_reset"
  "keeps (\<lambda>s. files s = n) (msd_set_params nm c r u)"
  unfolding msd_set_connected_def msd_reset_def msd_set_params_def busy_locked_def connect_def disconnect_def
  by (auto intro!: keeps_rules)

lemma remove_refused:
  assumes "lun_file s \<noteq> []"
  shows "files (snd (msd_remove nm s)) = files s"
proof (cases "ms_busy s")
  case True
  then show ?thesis by (simp add: msd_remove_def busy_locked_def sm_defs)
next
  case False
  let ?s1 = "s\<lparr>ms_busy := True\<rparr>"
  have l: "lun_file ?s1 \<noteq> []" using assms by (simp add: lun_file_def)
  obtain m where m: "msd_remove nm = busy_locked (bindS check_online_disconnected m)" by (simp add: msd_remove_def)
  obtain r t where st: "bindS check_online_disconnected m ?s1 = (r, t)" by fastforce
  from check_refused [OF l st] have "files t = files s" by (auto simp: files_core core_def)
  moreover have "snd (msd_remove nm s) = t\<lparr>ms_busy := False\<rparr>"
    using False by (simp add: m busy_locked_def getS_def finallyS_def st) (simp add: modifyS_def)
  ultimately show ?thesis by simp
qed

lemma files_reading:
  "keeps (\<lambda>s. files s = n) (read_enter nm)" "keeps (\<lambda>s. files s = n) read_exit"
  unfolding read_enter_def read_exit_def leave_read_def by (auto intro!: keeps_rules)

lemma leave_write_idle:
  assumes "task_image s = None" "ms_writer s = None"
  shows "files (snd (leave_write b s)) = files s"
  using assms by (simp add: leave_write_def finish_writing_def finallyS_def close_writer_def sm_defs)

lemma write_exit_idle:
  assumes "task_image s = None" "ms_writer s = None"
  shows "files (snd (write_exit s)) = files s"
proof -
  have "writer_finish s = (Inl AssertionError, s)" using assms(2) by (simp add: writer_finish_def sm_defs)
  then have "snd (write_exit s) = snd (leave_write False s)"
    by (auto simp: write_exit_def bindS_def [of writer_finish] exceptS_def bindS_def [of "\<lambda>s. _ s"] sm_defs
        bindS_cases [of "leave_write _"] raiseS_def split: sum.split prod.split)
  then show ?thesis using leave_write_idle [OF assms] by simp
qed

lemma write_enter_refused:
  assumes "lun_file s \<noteq> []" "ms_writer s = None"
  shows "files (snd (write_enter nm len rm s)) = files s"
proof (cases "ms_busy s")
  case True
  then show ?thesis by (simp add: write_enter_def sm_defs)
next
  case False
  let ?s1 = "s\<lparr>ms_busy := True, ms_task := Writing None rm\<rparr>"
  have l: "lun_file ?s1 \<noteq> []" using assms by (simp add: lun_file_def)
  obtain m where m: "start_writing nm len = bindS check_online_disconnected m" by (simp add: start_writing_def)
  obtain r t where st: "bindS check_online_disconnected m ?s1 = (r, t)" by fastforce
  from check_refused [OF l st] obtain e where r: "r = Inl e" and c: "core t = core ?s1" by blast
  from c have t: "files t = files s" "task_image t = None" "ms_writer t = None"
    using assms(2) by (auto simp: files_core core_def task_image_def)
  have "snd (write_enter nm len rm s) = snd (leave_write False t)"
    using False by (simp add: write_enter_def getS_def exceptS_def m st r bindS_cases [of "leave_write _"] raiseS_def split: sum.split)
  then show ?thesis using leave_write_idle [OF t(2,3)] t(1) by simp
qed


section \<open>The exclusive region\<close>

fun is_method :: "msd_act \<Rightarrow> bool" where
  "is_method (ActParams n c r u) = (u = None)"
| "is_method (ActConnect b) = True"
| "is_method ActReset = True"
| "is_method (ActRemove n) = True"
| "is_method (ActReadEnter n) = True"
| "is_method (ActWriteEnter n len rm) = True"
| "is_method _ = False"

lemma busy_refuses: "is_method a \<Longrightarrow> ms_busy s \<Longrightarrow> msd_exec a s = (Inl MsdIsBusyError, s)"
  by (cases a) (auto simp: msd_set_params_def msd_set_connected_def msd_reset_def msd_remove_def read_enter_def
      write_enter_def busy_locked_def sm_defs)

text \<open>
  The region is held exactly while an image is read or written: in every run a method never leaves
  it held, not even when it fails half-way, and an ended context always gives it back.  As long as it is
  held, every method is refused with the busy error and changes nothing.
\<close>

theorem region_held_only_by_transfers:
  assumes "msd_run (msd_init rc sc w) acts s"
  shows "(ms_busy s \<longleftrightarrow> ms_task s \<noteq> Idle)
    \<and> (\<forall>a. is_method a \<longrightarrow> ms_task s \<noteq> Idle \<longrightarrow> msd_exec a s = (Inl MsdIsBusyError, s))"
  using msd_run_inv [OF assms msd_init_inv] busy_refuses by (auto simp: frame_inv_def frame_def)

section \<open>Uploads\<close>

lemma node_at_put [simp]: "node_at (put_node p nd w) q = (if q = p then Some nd else node_at w q)"
  by (simp add: node_at_def put_node_def update_conv')

lemma basename_join: "list_all (\<lambda>c. \<not> is_slash c) x \<Longrightarrow> x \<noteq> [] \<Longrightarrow> path_basename (path_join d x) = x"
proof -
  assume x: "list_all (\<lambda>c. \<not> is_slash c) x" "x \<noteq> []"
  then have ns: "\<not> py_startswith x ''/''" by (cases x) (auto simp: py_startswith_def is_slash_def)
  have tw: "takeWhile (\<lambda>c. \<not> is_slash c) (rev x) = rev x" using x(1) by (simp add: list_all_iff takeWhile_eq_all_conv)
  have sl: "path_basename (y @ CHR ''/'' # x) = x" for y
    using x(1) by (simp add: path_basename_def list_all_iff takeWhile_append is_slash_def)
  consider "d = []" | y where "d = y @ ''/''" | "d \<noteq> []" "\<not> py_endswith d ''/''"
    by (auto simp: py_endswith_def) (metis append_take_drop_id)
  then show ?thesis
  proof cases
    case 1
    then show ?thesis using ns by (simp add: path_join_def path_basename_def tw)
  next
    case 2
    then show ?thesis using ns sl [of y] by (simp add: path_join_def py_endswith_def)
  next
    case 3
    then show ?thesis using ns sl [of d] by (simp add: path_join_def)
  qed
qed

lemma incomplete_other: "incomplete_path im \<noteq> im_path im"
proof
  assume e: "incomplete_path im = im_path im"
  let ?f = "path_basename (im_path im)"
  have "list_all (\<lambda>c. \<not> is_slash c) (incomplete_name ?f)"
    using basename_no_slash [of "im_path im"] by (auto simp: incomplete_name_def list_all_iff is_slash_def)
  then have "path_basename (incomplete_path im) = incomplete_name ?f"
    by (simp add: incomplete_path_def basename_join incomplete_name_def)
  with e have "incomplete_name ?f = ?f" by simp
  then have "length (incomplete_name ?f) = length ?f" by simp
  then show False by (simp add: incomplete_name_def)
qed

text \<open>
  The state of an upload of \<open>len\<close> bytes that has taken \<open>data\<close>: the image file begins with the data and
  the mark of an incomplete image is there.
\<close>

definition uploading :: "image \<Rightarrow> int \<Rightarrow> bytes \<Rightarrow> msd \<Rightarrow> bool" where
  "uploading im len data s =
     ((\<exists>im' rm. ms_task s = Writing (Some im') rm \<and> im_path im' = im_path im \<and> im_in_storage im')
      \<and> (\<exists>wr. ms_writer s = Some wr \<and> wr_path wr = im_path im \<and> wr_size wr = len
            \<and> wr_written wr = int (length data) \<and> wr_pos wr = length data)
      \<and> (\<exists>nd. map_of (files s) (im_path im) = Some nd \<and> take (length data) (nd_data nd) = data
            \<and> length (nd_data nd) = max (nat len) (length data))
      \<and> map_of (files s) (incomplete_path im) \<noteq> None
      \<and> (\<forall>n k. mw_answer (sg_world s) n \<noteq> Short k))"

lemma uploading_core: "core t = core s \<Longrightarrow> uploading im len data s = uploading im len data t"
  by (simp add: uploading_def core_def files_def wcore_def)

lemma os_call_Inr:
  "os_call err m w = (Inr a, w') \<longleftrightarrow> (mw_answer w (mw_calls w) = Fine \<and> m None (w\<lparr>mw_calls := Suc (mw_calls w)\<rparr>) = (Inr a, w')
     \<or> (\<exists>k. mw_answer w (mw_calls w) = Short k \<and> m (Some k) (w\<lparr>mw_calls := Suc (mw_calls w)\<rparr>) = (Inr a, w')))"
  by (auto simp: os_call_def Let_def split: os_answer.split)

lemma sys_Inr:
  "sys m w = (Inr a, w') \<Longrightarrow> \<exists>n. m (w\<lparr>mw_calls := n\<rparr>) = (Inr a, w')"
  by (auto simp: sys_def os_call_Inr)

lemma node_at_calls [simp]: "node_at (w\<lparr>mw_calls := n\<rparr>) p = node_at w p"
  by (simp add: node_at_def)

lemma fs_create_ok:
  assumes "fs_create p w = (Inr (), w')"
  shows "(\<exists>nd. node_at w' p = Some nd \<and> nd_data nd = []) \<and> (\<forall>q. q \<noteq> p \<longrightarrow> node_at w' q = node_at w q) \<and> mw_answer w' = mw_answer w"
  using assms unfolding fs_create_def by (auto dest!: sys_Inr simp: sm_defs split: if_splits) (simp add: put_node_def)

lemma change_data_at:
  "node_at w p = Some nd \<Longrightarrow> node_at (change_data p f w) p = Some (nd\<lparr>nd_data := f (nd_data nd), nd_mtime := mw_now w\<rparr>)"
  "q \<noteq> p \<Longrightarrow> node_at (change_data p f w) q = node_at w q" "mw_answer (change_data p f w) = mw_answer w"
  by (auto simp: change_data_def put_node_def split: option.split) (simp_all add: node_at_def update_conv')

lemma fs_ftruncate_ok:
  assumes "fs_ftruncate p n w = (Inr (), w')" "node_at w p = Some nd"
  shows "0 \<le> n \<and> (\<exists>nd'. node_at w' p = Some nd' \<and> nd_data nd' = truncated (nat n) (nd_data nd))
    \<and> (\<forall>q. q \<noteq> p \<longrightarrow> node_at w' q = node_at w q) \<and> mw_answer w' = mw_answer w"
  using assms unfolding fs_ftruncate_def
  by (auto dest!: sys_Inr simp: sm_defs change_data_at split: if_splits)

lemma fs_write_ok:
  assumes "fs_write p pos chunk w = (Inr n, w')" "node_at w p = Some nd" "\<forall>n k. mw_answer w n \<noteq> Short k"
  shows "n = length chunk \<and> (\<exists>nd'. node_at w' p = Some nd' \<and> nd_data nd' = overwritten pos chunk (nd_data nd))
    \<and> (\<forall>q. q \<noteq> p \<longrightarrow> node_at w' q = node_at w q) \<and> mw_answer w' = mw_answer w"
  using assms unfolding fs_write_def
  by (auto simp: os_call_Inr sm_defs bindS_def change_data_at Let_def)

definition grows :: "(world, 'a) sm \<Rightarrow> bool" where
  "grows m = (\<forall>w. (\<forall>q. node_at w q \<noteq> None \<longrightarrow> node_at (snd (m w)) q \<noteq> None) \<and> mw_answer (snd (m w)) = mw_answer w)"

lemma grows_basic: "grows (retS a)" "grows (raiseS e)" "(\<And>w. grows (f w)) \<Longrightarrow> grows (getS f)"
  by (simp_all add: grows_def sm_defs)

lemma grows_bind: "grows m \<Longrightarrow> (\<And>a. grows (f a)) \<Longrightarrow> grows (bindS m f)"
  by (auto simp: grows_def bindS_cases split: sum.split)

lemma grows_for: "(\<And>x. grows (f x)) \<Longrightarrow> grows (forS xs f)"
  by (induction xs) (auto intro!: grows_basic grows_bind)

lemma grows_sys: "grows m \<Longrightarrow> grows (sys m)"
  by (auto simp: grows_def sys_def os_call_def Let_def split: os_answer.split)

lemma grows_makedirs: "grows (fs_makedirs p)"
proof -
  have "grows (modifyS (put_node q nd))" for q nd
    by (simp add: grows_def modifyS_def) (simp add: put_node_def)
  then show ?thesis
    unfolding fs_makedirs_def fs_mkdir_def by (auto intro!: grows_basic grows_bind grows_for grows_sys)
qed

lemma files_node: "map_of (files s) p = node_at (sg_world s) p"
  by (simp add: files_def node_at_def)

lemma worldS_Inr: "worldS m s = (Inr a, t) \<longleftrightarrow> (\<exists>w. m (sg_world s) = (Inr a, w) \<and> t = s\<lparr>sg_world := w\<rparr>)"
  by (auto simp: worldS_def split: prod.splits)

text \<open>What a refreshed image keeps.\<close>

lemma image_reload_Inr:
  "image_reload im s = (Inr im', t) \<Longrightarrow> im_path im' = im_path im \<and> im_in_storage im' = im_in_storage im
     \<and> im_name im' = im_name im \<and> core (t :: msd) = core s"
  using keepsE [OF calm_image(1) [of "core s" im], of s "Inr im'" t]
  by (auto simp: image_reload_def askS_def getS_def bindS_Inr_iff retS_def)

lemma set_complete_marks:
  assumes "set_complete False im s = (Inr im', t)"
  shows "im_in_storage im \<and> im_path im' = im_path im \<and> im_in_storage im' \<and> map_of (files t) (incomplete_path im) \<noteq> None
    \<and> mw_answer (sg_world t) = mw_answer (sg_world s) \<and> ms_task (t :: msd) = ms_task s"
proof -
  from assms obtain u where st: "im_in_storage im" and c: "worldS (fs_create (incomplete_path im)) s = (Inr (), u)"
    and r: "image_reload im u = (Inr im', t)"
    by (auto simp: set_complete_def assertS_def raiseS_def bindS_Inr_iff split: if_splits)
  from c obtain w where w: "fs_create (incomplete_path im) (sg_world s) = (Inr (), w)" "u = s\<lparr>sg_world := w\<rparr>"
    by (auto simp: worldS_Inr)
  from image_reload_Inr [OF r] fs_create_ok [OF w(1)] w(2) st show ?thesis
    by (auto simp: files_core core_def wcore_def files_node node_at_def)
qed

lemma writer_open_fills:
  assumes "writer_open im len s = (Inr wr, t)"
  shows "wr_path wr = im_path im \<and> wr_size wr = len \<and> wr_written wr = 0 \<and> wr_pos wr = 0
    \<and> (\<exists>nd. map_of (files t) (im_path im) = Some nd \<and> length (nd_data nd) = nat len)
    \<and> (\<forall>q. map_of (files s) q \<noteq> None \<longrightarrow> map_of (files t) q \<noteq> None)
    \<and> mw_answer (sg_world t) = mw_answer (sg_world s) \<and> ms_task (t :: msd) = ms_task s"
proof -
  from assms obtain w1 w2 w3 where m: "fs_makedirs (path_dirname (im_path im)) (sg_world s) = (Inr (), w1)"
    and c: "fs_create (im_path im) w1 = (Inr (), w2)" and f: "fs_ftruncate (im_path im) len w2 = (Inr (), w3)"
    and t: "t = s\<lparr>sg_world := w3\<rparr>"
    and wr: "wr = \<lparr>wr_name = im_name im, wr_path = im_path im, wr_size = len, wr_written = 0, wr_unsynced = 0, wr_pos = 0\<rparr>"
    by (auto simp: writer_open_def bindS_Inr_iff worldS_Inr retS_def)
  have g: "node_at (sg_world s) q \<noteq> None \<longrightarrow> node_at w1 q \<noteq> None" "mw_answer w1 = mw_answer (sg_world s)" for q
    using grows_makedirs [of "path_dirname (im_path im)"] m by (auto simp: grows_def) (metis snd_conv option.distinct(1))+
  obtain nd where nd: "node_at w2 (im_path im) = Some nd" "nd_data nd = []" using fs_create_ok [OF c] by blast
  have "(\<forall>q. node_at (sg_world s) q \<noteq> None \<longrightarrow> node_at w3 q \<noteq> None)"
    using g(1) fs_create_ok [OF c] fs_ftruncate_ok [OF f nd(1)] by (metis option.distinct(1))
  moreover have "\<exists>nd. node_at w3 (im_path im) = Some nd \<and> length (nd_data nd) = nat len"
    using fs_ftruncate_ok [OF f nd(1)] nd(2) by (auto simp: truncated_def)
  ultimately show ?thesis
    using fs_create_ok [OF c] fs_ftruncate_ok [OF f nd(1)] g(2) by (simp add: t wr files_node)
qed

lemma write_enter_uploads:
  assumes "write_enter nm len rm s = (Inr (), t)" "\<forall>n k. mw_answer (sg_world s) n \<noteq> Short k"
  shows "\<exists>im. ms_task t = Writing (Some im) rm \<and> uploading im len [] t"
proof -
  let ?s0 = "s\<lparr>ms_busy := True, ms_task := Writing None rm\<rparr>"
  from assms(1) have "start_writing nm len ?s0 = (Inr (), t)"
    by (auto simp: write_enter_def getS_def raiseS_def exceptS_def modifyS_def bindS_def [of "\<lambda>s. (Inr (), _ s)"]
        bindS_Inr_iff split: if_splits prod.splits sum.splits)
  then obtain vd s1 im s2 s3 u im' s4 wr s5
    where c: "check_online_disconnected ?s0 = (Inr vd, s1)" and m: "make_image nm s1 = (Inr im, s2)"
    and r: "remount_rw im (snd (set_task_image im s2)) = (Inr u, s3)"
    and k: "set_complete False im s3 = (Inr im', s4)"
    and w: "writer_open im' len (snd (set_task_image im' s4)) = (Inr wr, s5)" and t: "t = s5\<lparr>ms_writer := Some wr\<rparr>"
    unfolding start_writing_def bindS_Inr_iff by (auto simp: set_task_image_def modifyS_def)
  have "core s2 = core ?s0"
    using keepsE [OF calm_checks(3) _ c, of "core ?s0"] keepsE [OF calm_lookup(1) _ m, of "core ?s0"] by simp
  then have a2: "ms_task s2 = Writing None rm" "mw_answer (sg_world s2) = mw_answer (sg_world s)"
    by (auto simp: core_def wcore_def)
  have "core s3 = core (snd (set_task_image im s2))" using keepsE [OF calm_remount(1) _ r] by simp
  with a2 have a3: "ms_task s3 = Writing (Some im) rm" "mw_answer (sg_world s3) = mw_answer (sg_world s)"
    by (auto simp: core_def wcore_def set_task_image_def modifyS_def)
  note k' = set_complete_marks [OF k]
  note w' = writer_open_fills [OF w]
  have inc: "incomplete_path im' = incomplete_path im" using k' by (simp add: incomplete_path_def)
  have "ms_task t = Writing (Some im') rm" using w' k' a3 by (simp add: t set_task_image_def modifyS_def)
  moreover have "uploading im' len [] t"
    using w' k' a3 assms(2) inc unfolding uploading_def
    by (auto simp: t set_task_image_def modifyS_def files_def)
  ultimately show ?thesis by blast
qed

lemma sync_core: "sync_file s = (r, t) \<Longrightarrow> core t = core s"
proof -
  have "keeps (\<lambda>s. core s = c) sync_file" for c unfolding sync_file_def by (intro keeps_rules)
  from keepsE [OF this [of "core s"]] show "sync_file s = (r, t) \<Longrightarrow> core t = core s" by blast
qed

lemma overwritten_grows:
  assumes "take (length d) data = d" "length data = max m (length d)"
  shows "take (length (d @ c)) (overwritten (length d) c data) = d @ c"
    "length (overwritten (length d) c data) = max m (length (d @ c))"
  using assms by (auto simp: overwritten_def truncated_def)

lemma write_chunk_uploads:
  assumes "uploading im len data s" "write_chunk chunk s = (Inr n, t)"
  shows "uploading im len (data @ chunk) t"
proof -
  from assms(1) obtain wr nd where wr: "ms_writer s = Some wr" "wr_path wr = im_path im" "wr_size wr = len"
      "wr_written wr = int (length data)" "wr_pos wr = length data"
    and nd: "node_at (sg_world s) (im_path im) = Some nd" "take (length data) (nd_data nd) = data"
      "length (nd_data nd) = max (nat len) (length data)"
    and rest: "node_at (sg_world s) (incomplete_path im) \<noteq> None" "\<forall>n k. mw_answer (sg_world s) n \<noteq> Short k"
      "\<exists>im' rm. ms_task s = Writing (Some im') rm \<and> im_path im' = im_path im \<and> im_in_storage im'"
    by (auto simp: uploading_def files_node)
  from assms(2) wr(1) obtain m w where w: "fs_write (wr_path wr) (wr_pos wr) chunk (sg_world s) = (Inr m, w)"
    and t: "\<exists>x. core t = core (s\<lparr>sg_world := w, ms_writer := Some (wr\<lparr>wr_pos := wr_pos wr + m,
        wr_written := wr_written wr + int (length chunk), wr_unsynced := x\<rparr>)\<rparr>)"
    by (auto simp: write_chunk_def getS_def Let_def bindS_Inr_iff worldS_Inr modifyS_def whenS_def retS_def
        split: if_splits dest!: sync_core) (auto simp: core_def)
  note f = fs_write_ok [OF w [unfolded wr(2,5)] nd(1) rest(2)]
  obtain nd' where nd': "node_at w (im_path im) = Some nd'" "nd_data nd' = overwritten (length data) chunk (nd_data nd)"
    using f by blast
  have mark: "node_at w (incomplete_path im) \<noteq> None" using f rest(1) incomplete_other by metis
  from t obtain x where x: "core t = core (s\<lparr>sg_world := w, ms_writer := Some (wr\<lparr>wr_pos := wr_pos wr + m,
        wr_written := wr_written wr + int (length chunk), wr_unsynced := x\<rparr>)\<rparr>)" by blast
  have "uploading im len (data @ chunk) (s\<lparr>sg_world := w, ms_writer := Some (wr\<lparr>wr_pos := wr_pos wr + m,
        wr_written := wr_written wr + int (length chunk), wr_unsynced := x\<rparr>)\<rparr>)"
    using wr rest f nd' mark overwritten_grows [OF nd(2,3), of chunk] by (auto simp: uploading_def files_node)
  with uploading_core [OF x] show ?thesis by simp
qed

text \<open>
  An upload as it proceeds: chunks that are written, and anything else in between that does not end the
  upload; other programs may put files anywhere but in place of the image and its mark.
\<close>

fun ends_upload :: "msd_act \<Rightarrow> bool" where
  "ends_upload (ActWriteChunk c) = True"
| "ends_upload ActWriteExit = True"
| "ends_upload ActWriteAbort = True"
| "ends_upload _ = False"

fun replaces :: "image \<Rightarrow> msd_act \<Rightarrow> bool" where
  "replaces im (OtherFile p nd) = (p = im_path im \<or> p = incomplete_path im)"
| "replaces im _ = False"

inductive upload_run :: "image \<Rightarrow> msd \<Rightarrow> bytes \<Rightarrow> msd \<Rightarrow> bool" for im s where
  UpStart: "upload_run im s [] s"
| UpChunk: "upload_run im s data t \<Longrightarrow> write_chunk chunk t = (Inr n, u) \<Longrightarrow> upload_run im s (data @ chunk) u"
| UpOther: "upload_run im s data t \<Longrightarrow> \<not> ends_upload a \<Longrightarrow> \<not> replaces im a \<Longrightarrow> msd_exec a t = (r, u)
    \<Longrightarrow> upload_run im s data u"

lemma other_uploads:
  assumes "uploading im len data s" "msd_inv s" "\<not> ends_upload a" "\<not> replaces im a"
  shows "uploading im len data (snd (msd_exec a s))"
proof -
  have task: "ms_task s \<noteq> Idle" "ms_task s \<noteq> Reading" "ms_busy s"
    using assms(1,2) by (auto simp: uploading_def frame_inv_def frame_def)
  have core: "uploading im len data (snd (m s))" if "keeps (\<lambda>x. core x = core s) m" for m :: "'x msd_op"
    using that assms(1) uploading_core [of "snd (m s)" s] by (simp add: keeps_def)
  show ?thesis
  proof (cases "is_method a")
    case True
    then show ?thesis using busy_refuses [OF True task(3)] assms(1) by simp
  next
    case False
    show ?thesis
    proof (cases a)
      case HostEject
      then show ?thesis using assms(1) by (auto simp: uploading_def worldS_def modifyS_def files_def)
    next
      case (OtherFile p nd)
      then show ?thesis using assms(1,4)
        by (auto simp: uploading_def worldS_def modifyS_def files_node) (simp_all add: put_node_def)
    qed (use False assms task core in \<open>auto intro!: core keeps_rules simp: ignoring_def sm_defs msd_set_params_def\<close>)
  qed
qed

lemma chunk_inv:
  assumes "msd_inv s" "write_chunk c s = (r, t)"
  shows "msd_inv t"
proof -
  have "snd (ignoring (write_chunk c) s) = t"
    by (cases r) (simp_all add: ignoring_def bindS_cases [of "write_chunk c"] assms(2) retS_def)
  then show ?thesis using keepsD [OF inv_write_chunk assms(1), of c] by simp
qed

lemma upload_run_uploads:
  assumes "upload_run im s data t" "uploading im len [] s" "msd_inv s"
  shows "uploading im len data t \<and> msd_inv t"
  using assms
proof (induction rule: upload_run.induct)
  case (UpChunk data t chunk n u)
  then show ?case using write_chunk_uploads chunk_inv by blast
next
  case (UpOther data t a r u)
  then show ?case using other_uploads [of im len data t a] keepsE [OF msd_exec_inv, of t a r u] by auto
qed auto

text \<open>
  C22. An unfinished upload is never offered as an image that is complete: from the moment an upload has
  begun, whatever is interleaved with its chunks, the mark of an incomplete image lies beside the file,
  so that a reload of the storage, also the first one after a crash, reports the image as incomplete.
\<close>

theorem unfinished_upload_marked:
  assumes "msd_run (msd_init rc sc w) acts s0" "write_enter nm len rm s0 = (Inr (), s)"
    and "\<forall>n k. mw_answer (sg_world s0) n \<noteq> Short k"
  shows "\<exists>im. task_image s = Some im \<and> (\<forall>data t. upload_run im s data t \<longrightarrow>
    \<not> is_complete (sg_world t) im \<and> (\<exists>nd. node_at (sg_world t) (im_path im) = Some nd \<and> take (length data) (nd_data nd) = data))"
proof -
  have i0: "msd_inv s0" using msd_run_inv [OF assms(1) msd_init_inv] .
  have i: "msd_inv s" using keepsE [OF write_enter_inv i0 assms(2)] .
  from write_enter_uploads [OF assms(2,3)] obtain im where im: "ms_task s = Writing (Some im) rm" "uploading im len [] s"
    by blast
  have st: "im_in_storage im" using im by (auto simp: uploading_def)
  have "\<not> is_complete (sg_world t) im \<and> (\<exists>nd. node_at (sg_world t) (im_path im) = Some nd \<and> take (length data) (nd_data nd) = data)"
    if "upload_run im s data t" for data t
    using upload_run_uploads [OF that im(2) i] st
    by (auto simp: uploading_def files_node is_complete_def path_exists_def)
  then show ?thesis using im(1) by (auto simp: task_image_def)
qed

lemma fs_remove_ok:
  assumes "fs_remove p w = (r, w')" "r = Inr () \<or> r = Inl FileNotFoundError"
  shows "node_at w' p = None \<and> (\<forall>q. q \<noteq> p \<longrightarrow> node_at w' q = node_at w q)"
  using assms unfolding fs_remove_def sys_def
  by (auto simp: os_call_def Let_def sm_defs os_error_def split: os_answer.splits option.splits if_splits)
     (auto simp: node_at_def delete_conv' put_node_def)

lemma set_complete_clears:
  assumes "set_complete True im s = (Inr im', t)"
  shows "node_at (sg_world (t :: msd)) (incomplete_path im) = None
    \<and> (\<forall>q. q \<noteq> incomplete_path im \<longrightarrow> node_at (sg_world t) q = node_at (sg_world s) q)"
proof -
  from assms obtain u where c: "exceptS (worldS (fs_remove (incomplete_path im)))
      (\<lambda>e. if e = FileNotFoundError then Some (retS ()) else None) s = (Inr (), u)"
    and r: "image_reload im u = (Inr im', t)"
    by (auto simp: set_complete_def assertS_def raiseS_def bindS_Inr_iff split: if_splits)
  from c obtain w x where w: "fs_remove (incomplete_path im) (sg_world s) = (x, w)" "x = Inr () \<or> x = Inl FileNotFoundError"
    "sg_world u = w"
    by (auto simp: exceptS_def worldS_def retS_def split: prod.splits sum.splits if_splits)
  from image_reload_Inr [OF r] fs_remove_ok [OF w(1,2)] w(3) show ?thesis
    by (auto simp: core_def wcore_def node_at_def)
qed

lemma finallyS_Inr: "finallyS m n s = (Inr a, u) \<longleftrightarrow> (\<exists>t x. m s = (Inr a, t) \<and> n t = (Inr x, u))"
  by (auto simp: finallyS_def split: prod.splits sum.splits)

lemma close_writer_core:
  "files (snd (close_writer s)) = files s \<and> task_image (snd (close_writer s)) = task_image s"
proof -
  have "keeps (\<lambda>s. core s = c) (exceptS (worldS (sys (retS ()))) (\<lambda>e. Some (retS ())))" for c
    by (intro keeps_rules) (auto intro!: keeps_rules)
  then have "core (snd (exceptS (worldS (sys (retS ()))) (\<lambda>e. Some (retS ())) s)) = core s" by (simp add: keeps_def)
  then show ?thesis
    by (auto simp: close_writer_def getS_def whenS_def retS_def modifyS_def bindS_cases task_image_def
        files_core core_def wcore_def split: sum.split)
qed

lemma finish_writing_complete:
  assumes "finish_writing True s = (Inr (), u)" "task_image s = Some im"
  shows "node_at (sg_world u) (incomplete_path im) = None
    \<and> (\<forall>q. q \<noteq> incomplete_path im \<longrightarrow> node_at (sg_world u) q = node_at (sg_world s) q)"
proof -
  from assms obtain s1 where s1: "s1 = snd (close_writer s)"
    and r: "\<exists>x. getS (\<lambda>s. case task_image s of None \<Rightarrow> retS () | Some im \<Rightarrow> bindS check_online_disconnected (\<lambda>_.
       finallyS (bindS (set_complete True im) set_task_image)
         (finallyS (getS (\<lambda>s. whenS (remove_incomplete s \<and> \<not> True)
             (case task_image s of None \<Rightarrow> retS () | Some im \<Rightarrow> remove_image False im False)))
           remount_ro))) s1 = (Inr x, u)"
    unfolding finish_writing_def finallyS_Inr by (metis snd_conv)
  note f1 = close_writer_core [of s, folded s1]
  from r f1 assms(2) obtain vd s2 im' s3 x s4 where c: "check_online_disconnected s1 = (Inr vd, s2)"
    and k: "set_complete True im s2 = (Inr im', s3)" and "s4 = snd (set_task_image im' s3)"
    and m: "remount_ro s4 = (Inr x, u)"
    by (auto simp: getS_def bindS_Inr_iff finallyS_Inr whenS_def retS_def set_task_image_def modifyS_def)
  moreover have "core s2 = core s1" using keepsE [OF calm_checks(3) _ c, of "core s1"] by simp
  moreover have "core u = core s4" using keepsE [OF calm_remount(2) _ m, of "core s4"] by simp
  ultimately show ?thesis using set_complete_clears [OF k] f1
    by (auto simp: core_def wcore_def node_at_def files_def set_task_image_def modifyS_def)
qed


section \<open>Inserting an image\<close>

lemma worldS_only: "worldS m s = (r, t) \<Longrightarrow> t = s\<lparr>sg_world := sg_world t\<rparr>"
  by (auto simp: worldS_def split: prod.splits)

lemma check_only:
  assumes "check_online_disconnected s = (Inr vd, t)"
  shows "t = s\<lparr>sg_world := sg_world t\<rparr>"
  using assms by (auto simp: check_online_disconnected_def inserted_def getS_def assertS_def raiseS_def retS_def bindS_Inr_iff
      split: option.splits if_splits dest: worldS_only)

lemma remount_only:
  assumes "remount_rw im s = (Inr u, t)"
  shows "t = s\<lparr>sg_world := sg_world t\<rparr>"
  using assms by (auto simp: remount_rw_def storage_remount_def get_root_path_def askS_def getS_def assertS_def raiseS_def
      retS_def liftS_def whenS_def bindS_Inr_iff split: option.splits if_splits dest: worldS_only)

lemma name_lookup:
  assumes "get_image_by_name n s = (Inr im, t)"
  shows "t = s \<and> (\<exists>d. sg_images s = Some d \<and> map_of d n = Some im)"
  using assms by (auto simp: get_image_by_name_def get_images_def askS_def getS_def assertS_def raiseS_def retS_def liftS_def
      bindS_Inr_iff split: option.splits if_splits)

lemma fix_rw_fields [simp]:
  "vd_image (fix_rw vd) = vd_image vd" "vd_cdrom (fix_rw vd) = vd_cdrom vd"
  "vd_rw (fix_rw vd) = (vd_rw vd \<and> \<not> vd_cdrom vd \<and> (case vd_image vd of None \<Rightarrow> True | Some im \<Rightarrow> im_writable im))"
  by (auto simp: fix_rw_def split: option.split)

lemma set_params_selects:
  assumes "msd_set_params (Some n) cdrom rw None s = (Inr (), t)" "n \<noteq> []"
  shows "\<exists>d im vd. sg_images s = Some d \<and> map_of d n = Some im \<and> ms_vd t = Some (fix_rw vd) \<and> vd_image vd = Some im
    \<and> (\<forall>b. cdrom = Some b \<longrightarrow> vd_cdrom vd = b) \<and> (\<forall>b. rw = Some b \<longrightarrow> vd_rw vd = b)"
proof -
  from assms obtain s0 vd0 s1 im s2 where "s0 = s\<lparr>ms_busy := True\<rparr>"
    and c: "check_online_disconnected s0 = (Inr vd0, s1)" and g: "get_image_by_name n s1 = (Inr im, s2)"
    and t: "t = s2\<lparr>ms_vd := Some (fix_rw (vd0\<lparr>vd_image := Some im,
          vd_cdrom := (case cdrom of None \<Rightarrow> vd_cdrom vd0 | Some b \<Rightarrow> b),
          vd_rw := (case rw of None \<Rightarrow> vd_rw vd0 | Some b \<Rightarrow> b)\<rparr>)), ms_busy := False\<rparr>"
    by (auto simp: msd_set_params_def busy_locked_def getS_def raiseS_def finallyS_Inr modifyS_def set_vd_def bindS_Inr_iff retS_def
        split: if_splits)
  moreover have "sg_images s1 = sg_images s0" by (subst check_only [OF c]) simp
  ultimately obtain d where "sg_images s = Some d" "map_of d n = Some im" "s2 = s1" using name_lookup [OF g] by auto
  then show ?thesis
    by (intro exI [of _ d] exI [of _ im] exI [of _ "vd0\<lparr>vd_image := Some im,
          vd_cdrom := (case cdrom of None \<Rightarrow> vd_cdrom vd0 | Some b \<Rightarrow> b),
          vd_rw := (case rw of None \<Rightarrow> vd_rw vd0 | Some b \<Rightarrow> b)\<rparr>"]) (simp add: t)
qed

lemma call_ok:
  "set_rw_flag b w = (Inr (), w') \<Longrightarrow> mw_lun_ro w' = of_bool (\<not> b)"
  "set_cdrom_flag b w = (Inr (), w') \<Longrightarrow> mw_lun_cdrom w' = of_bool b \<and> mw_lun_ro w' = mw_lun_ro w"
  "set_image_path p w = (Inr (), w') \<Longrightarrow> mw_lun_file w' = p \<and> mw_lun_cdrom w' = mw_lun_cdrom w \<and> mw_lun_ro w' = mw_lun_ro w"
  by (auto simp: set_rw_flag_def set_cdrom_flag_def set_image_path_def os_call_Inr modifyS_def split: if_splits)

lemma connect_inserts:
  assumes "msd_set_connected True s = (Inr (), t)"
  shows "\<exists>vd im. ms_vd s = Some vd \<and> vd_image vd = Some im \<and> lun_file t = im_path im
    \<and> mw_lun_ro (sg_world t) = of_bool (\<not> vd_rw vd) \<and> mw_lun_cdrom (sg_world t) = of_bool (vd_cdrom vd)
    \<and> (\<exists>vd'. ms_vd t = Some vd' \<and> vd_connected vd')"
proof -
  let ?s0 = "s\<lparr>ms_busy := True\<rparr>"
  from assms obtain vd s1 im s2 s3 s4 s5 where
    c: "check_online_disconnected ?s0 = (Inr vd, s1)" and im: "vd_image vd = Some im"
    and a: "worldS (set_rw_flag (vd_rw vd)) s2 = (Inr (), s3)" and b: "worldS (set_cdrom_flag (vd_cdrom vd)) s3 = (Inr (), s4)"
    and d: "worldS (set_image_path (im_path im)) s4 = (Inr (), s5)"
    and t: "t = s5\<lparr>ms_vd := Some (vd\<lparr>vd_connected := True\<rparr>), ms_busy := False\<rparr>"
    by (auto simp: msd_set_connected_def busy_locked_def connect_def askS_def getS_def raiseS_def finallyS_Inr modifyS_def set_vd_def
        bindS_Inr_iff retS_def split: if_splits option.splits)
  have "ms_vd s = Some vd" using check_disconnected [OF c] by simp
  then show ?thesis using im a b d call_ok t by (fastforce simp: worldS_Inr lun_file_def)
qed

text \<open>
  The drive gets the image that was selected, the way it was selected: after the parameters have
  been set and the drive has been connected, its file is the path of the image of that name, the CD-ROM
  flag is the wanted one, and the medium is writable for the host only if that was asked for, the image
  is writable and the drive is no CD-ROM.
\<close>

theorem inserted_as_selected:
  assumes "msd_set_params (Some n) (Some cdrom) (Some rw) None s = (Inr (), s1)" "n \<noteq> []"
    and "msd_set_connected True s1 = (Inr (), s2)"
  shows "\<exists>d im. sg_images s = Some d \<and> map_of d n = Some im \<and> lun_file s2 = im_path im
    \<and> mw_lun_cdrom (sg_world s2) = of_bool cdrom
    \<and> mw_lun_ro (sg_world s2) = of_bool (\<not> (rw \<and> \<not> cdrom \<and> im_writable im))"
proof -
  from set_params_selects [OF assms(1,2)] obtain d im vd where "sg_images s = Some d" "map_of d n = Some im"
    "ms_vd s1 = Some (fix_rw vd)" "vd_image vd = Some im" "vd_cdrom vd = cdrom" "vd_rw vd = rw" by auto
  with connect_inserts [OF assms(3)] show ?thesis by (intro exI [of _ d] exI [of _ im]) auto
qed

text \<open>
  An upload begins only in a directory that is already there: the mark is created first, and
  the directories that the writer would make come too late.
\<close>

lemma upload_needs_directory:
  assumes "write_enter nm len rm s = (Inr (), t)"
  shows "\<exists>im. task_image t = Some im \<and> is_dir (sg_world s) (path_dirname (incomplete_path im))"
proof -
  let ?s0 = "s\<lparr>ms_busy := True, ms_task := Writing None rm\<rparr>"
  from assms(1) have "start_writing nm len ?s0 = (Inr (), t)"
    by (auto simp: write_enter_def getS_def raiseS_def exceptS_def modifyS_def bindS_def [of "\<lambda>s. (Inr (), _ s)"]
        bindS_Inr_iff split: if_splits prod.splits sum.splits)
  then obtain vd s1 im s2 s3 u im' s4 wr s5
    where c: "check_online_disconnected ?s0 = (Inr vd, s1)" and m: "make_image nm s1 = (Inr im, s2)"
    and r: "remount_rw im (snd (set_task_image im s2)) = (Inr u, s3)"
    and k: "set_complete False im s3 = (Inr im', s4)"
    and w: "writer_open im' len (snd (set_task_image im' s4)) = (Inr wr, s5)" and t: "t = s5\<lparr>ms_writer := Some wr\<rparr>"
    unfolding start_writing_def bindS_Inr_iff by (auto simp: set_task_image_def modifyS_def)
  have "core s2 = core ?s0"
    using keepsE [OF calm_checks(3) _ c, of "core ?s0"] keepsE [OF calm_lookup(1) _ m, of "core ?s0"] by simp
  moreover have "core s3 = core (snd (set_task_image im s2))" using keepsE [OF calm_remount(1) _ r] by simp
  ultimately have n3: "files s3 = files s" "ms_task s3 = Writing (Some im) rm"
    by (auto simp: core_def wcore_def files_def set_task_image_def modifyS_def)
  from k have "is_dir (sg_world s3) (path_dirname (incomplete_path im))"
    by (auto simp: set_complete_def assertS_def raiseS_def bindS_Inr_iff worldS_Inr fs_create_def getS_def is_dir_def
        split: if_splits dest!: sys_Inr)
  then have "is_dir (sg_world s) (path_dirname (incomplete_path im))" using n3(1) by (simp add: is_dir_def node_at_def files_def)
  moreover have "task_image t = Some im'" "incomplete_path im' = incomplete_path im"
    using writer_open_fills [OF w] set_complete_marks [OF k] n3(2)
    by (auto simp: t task_image_def set_task_image_def modifyS_def incomplete_path_def)
  ultimately show ?thesis by simp
qed

end
