(* ===== verification/MsdExamples.thy ===== *)
theory MsdExamples
  imports MsdUpload
begin

text \<open>
  A storage with two images, on which the properties of the mass storage are seen at work, and the
  runs in which the plugin does what it should not.
\<close>

definition dir_node :: node where
  "dir_node = \<lparr>nd_kind = IsDir, nd_data = [], nd_mtime = 0\<rparr>"

definition file_node :: "bytes \<Rightarrow> node" where
  "file_node data = \<lparr>nd_kind = IsFile, nd_data = data, nd_mtime = 0\<rparr>"

definition demo_world :: "(nat \<Rightarrow> os_answer) \<Rightarrow> world" where
  "demo_world answer = \<lparr>
     mw_nodes = [(''/'', dir_node), (''/msd'', dir_node), (''/msd/a.img'', file_node [1, 2, 3]), (''/msd/c.iso'', file_node [4])],
     mw_mounts = [''/msd''], mw_rw_mounts = [], mw_access = (\<lambda>p. True), mw_dead = (\<lambda>p. False),
     mw_statvfs = (\<lambda>p. (100, 4096, 50)), mw_msd_root = Inr ''/msd'', mw_msd_mount = ''/msd'', mw_now = 7,
     mw_drive_on = True, mw_lun_file = [], mw_lun_cdrom = 0, mw_lun_ro = 1, mw_answer = answer, mw_calls = 0\<rparr>"

fun run_acts :: "msd_act list \<Rightarrow> msd \<Rightarrow> msd" where
  "run_acts [] s = s"
| "run_acts (a # as) s = run_acts as (snd (msd_exec a s))"

lemma run_acts_snoc: "run_acts (as @ [a]) s = snd (msd_exec a (run_acts as s))"
  by (induction as arbitrary: s) auto

lemma msd_run_acts: "msd_run s as (run_acts as s)"
proof (induction as rule: rev_induct)
  case (snoc a as)
  have "msd_exec a (run_acts as s) = (fst (msd_exec a (run_acts as s)), run_acts (as @ [a]) s)" by (simp add: run_acts_snoc)
  with snoc show ?case by (rule msd_run.RunStep)
qed (simp add: msd_run.RunNil)

definition demo_start :: "(nat \<Rightarrow> os_answer) \<Rightarrow> msd" where
  "demo_start answer = msd_init 2 4194304 (demo_world answer)"

definition fine :: "nat \<Rightarrow> os_answer" where
  "fine n = Fine"

definition demo_online :: "msd" where
  "demo_online = run_acts [ActReload True] (demo_start fine)"

definition demo_inserted :: "msd" where
  "demo_inserted = run_acts [ActReload True, ActParams (Some ''a.img'') (Some False) (Some True) None, ActConnect True] (demo_start fine)"

lemma demo_inserted_file: "lun_file demo_inserted = ''/msd/a.img''"
  by code_simp


definition demo_uploading :: "msd" where
  "demo_uploading = run_acts [ActReload True, ActWriteEnter ''b.img'' 4 True] (demo_start fine)"

lemma demo_uploading_run:
  "msd_run (msd_init 2 4194304 (demo_world fine)) [ActReload True, ActWriteEnter ''b.img'' 4 True] demo_uploading"
  unfolding demo_uploading_def demo_start_def by (rule msd_run_acts)

theorem region_held_only_by_transfers_witness:
  "msd_exec (ActConnect True) demo_uploading = (Inl MsdIsBusyError, demo_uploading)"
proof -
  have "ms_task demo_uploading \<noteq> Idle" by code_simp
  then show ?thesis
    using region_held_only_by_transfers [OF demo_uploading_run, THEN conjunct2, rule_format, of "ActConnect True"] by simp
qed

lemma fine_whole: "\<forall>n k. mw_answer (demo_world fine) n \<noteq> Short k"
  by (simp add: demo_world_def fine_def)

lemma demo_online_run: "msd_run (msd_init 2 4194304 (demo_world fine)) [ActReload True] demo_online"
  unfolding demo_online_def demo_start_def by (rule msd_run_acts)

lemma online_whole: "\<forall>n k. mw_answer (sg_world demo_online) n \<noteq> Short k"
proof -
  have "core demo_online = core (demo_start fine)"
    using calm_msd_reload [of "core (demo_start fine)" True] by (simp add: demo_online_def keeps_def)
  then show ?thesis using fine_whole by (simp add: core_def wcore_def demo_start_def msd_init_def)
qed

lemma pairI: "fst p = a \<Longrightarrow> p = (a, snd p)"
  by (cases p) simp

lemma demo_enter: "write_enter ''b.img'' 4 True demo_online = (Inr (), demo_uploading)"
proof -
  have "fst (write_enter ''b.img'' 4 True demo_online) = Inr ()" by code_simp
  from pairI [OF this] show ?thesis by (simp add: demo_uploading_def demo_online_def)
qed

theorem unfinished_upload_marked_witness:
  "\<exists>im. task_image demo_uploading = Some im \<and> \<not> is_complete (sg_world demo_uploading) im"
  using unfinished_upload_marked [OF demo_online_run demo_enter online_whole] upload_run.UpStart by blast

definition demo_chunk :: msd where
  "demo_chunk = snd (write_chunk [9, 8] demo_uploading)"

definition demo_chunks :: msd where
  "demo_chunks = snd (write_chunk [7, 6] demo_chunk)"

definition demo_finished :: msd where
  "demo_finished = snd (write_exit demo_chunks)"

lemma demo_task: "map_option im_path (task_image demo_uploading) = Some ''/msd/b.img''"
  by code_simp

lemma demo_upload_run: "upload_run im demo_uploading (([] @ [9, 8]) @ [7, 6]) demo_chunks"
proof (rule upload_run.UpChunk [OF upload_run.UpChunk [OF upload_run.UpStart]])
  have "fst (write_chunk [9, 8] demo_uploading) = Inr 2" by code_simp
  from pairI [OF this] show "write_chunk [9, 8] demo_uploading = (Inr 2, demo_chunk)" by (simp add: demo_chunk_def)
  have "fst (write_chunk [7, 6] demo_chunk) = Inr 4" by code_simp
  from pairI [OF this] show "write_chunk [7, 6] demo_chunk = (Inr 4, demo_chunks)" by (simp add: demo_chunks_def)
qed

lemma demo_exit: "write_exit demo_chunks = (Inr (), demo_finished)"
proof -
  have "fst (write_exit demo_chunks) = Inr ()" by code_simp
  from pairI [OF this] show ?thesis by (simp add: demo_finished_def)
qed


definition demo_selected :: msd where
  "demo_selected = snd (msd_set_params (Some ''a.img'') (Some False) (Some True) None demo_online)"

theorem inserted_as_selected_witness:
  "\<exists>d im. sg_images demo_online = Some d \<and> map_of d ''a.img'' = Some im \<and> lun_file demo_inserted = im_path im
    \<and> mw_lun_cdrom (sg_world demo_inserted) = of_bool False
    \<and> mw_lun_ro (sg_world demo_inserted) = of_bool (\<not> (True \<and> \<not> False \<and> im_writable im))"
proof (rule inserted_as_selected)
  have "fst (msd_set_params (Some ''a.img'') (Some False) (Some True) None demo_online) = Inr ()" by code_simp
  from pairI [OF this] show "msd_set_params (Some ''a.img'') (Some False) (Some True) None demo_online = (Inr (), demo_selected)"
    by (simp add: demo_selected_def)
  have "fst (msd_set_connected True demo_selected) = Inr ()" by code_simp
  from pairI [OF this] show "msd_set_connected True demo_selected = (Inr (), demo_inserted)"
    by (simp add: demo_inserted_def demo_selected_def demo_online_def)
qed simp

section \<open>Where it goes wrong\<close>

text \<open>An image in a new directory cannot be uploaded: the mark is created before the directory.\<close>

theorem new_directory_upload_fails:
  "fst (write_enter ''sub/b.img'' 4 True demo_online) = Inl FileNotFoundError"
  by code_simp

text \<open>
  An aborted upload is to be removed, but the image is looked up in the table of the last reload, which
  does not have it yet: without a reload in between, the file and its mark stay.
\<close>

definition demo_aborted :: "msd_act list \<Rightarrow> msd" where
  "demo_aborted between = run_acts ([ActReload True, ActWriteEnter ''b.img'' 4 True, ActWriteChunk [9]] @ between @ [ActWriteAbort])
     (demo_start fine)"

theorem aborted_upload_stays:
  "path_exists (sg_world (demo_aborted [])) ''/msd/b.img''
    \<and> \<not> path_exists (sg_world (demo_aborted [ActReload True])) ''/msd/b.img''"
  by code_simp

text \<open>A write that takes only a part of its chunk goes unnoticed, and the image is called complete.\<close>

definition short_at :: "nat \<Rightarrow> nat \<Rightarrow> os_answer" where
  "short_at m n = (if n = m then Short 1 else Fine)"

definition demo_short :: msd where
  "demo_short = run_acts [ActReload True, ActWriteEnter ''b.img'' 4 True, ActWriteChunk [9, 8, 7, 6], ActWriteExit]
     (demo_start (short_at 16))"

theorem short_write_unnoticed:
  "map_option nd_data (node_at (sg_world demo_short) ''/msd/b.img'') = Some [9, 0, 0, 0]
    \<and> \<not> path_exists (sg_world demo_short) ''/msd/.__b.img.incomplete''"
  by code_simp

text \<open>When the medium cannot be put into the drive, the storage stays mounted for writing.\<close>

definition fail_at :: "nat \<Rightarrow> int \<Rightarrow> nat \<Rightarrow> os_answer" where
  "fail_at m e n = (if n = m then Fail e else Fine)"

definition demo_refused :: msd where
  "demo_refused = run_acts [ActReload True, ActParams (Some ''a.img'') (Some False) (Some True) None] (demo_start (fail_at 14 13))"

theorem failed_insertion_leaves_writable:
  "fst (msd_set_connected True demo_refused) = Inl MsdPermissionsError
    \<and> mw_rw_mounts (sg_world (snd (msd_set_connected True demo_refused))) = [''/msd'']"
  by code_simp

end
