(* ===== verification/MsdState.thy ===== *)
theory MsdState
  imports MsdOtg
begin

text \<open>
  The state of the mass storage as the clients see it, and the differences that \<open>poll_state\<close> sends.
\<close>

section \<open>The state\<close>

record storage_state =
  ss_images :: "(string, image) dict"
  ss_parts :: "(string, part) dict"
  ss_downloading :: "(string \<times> int \<times> int) option"
  ss_uploading :: "(string \<times> int \<times> int) option"

record msd_state =
  mst_online :: bool
  mst_busy :: bool
  mst_storage :: "storage_state option"
  mst_drive :: "vdrive option"

definition reader_state :: "reader \<Rightarrow> string \<times> int \<times> int" where
  "reader_state r = (rd_name r, rd_size r, int (rd_readed r))"

definition writer_state :: "writer \<Rightarrow> string \<times> int \<times> int" where
  "writer_state wr = (wr_name wr, wr_size wr, wr_written wr)"

text \<open>The path of an image is not shown.\<close>

definition vd_state :: "vdrive \<Rightarrow> vdrive" where
  "vd_state vd = vd\<lparr>vd_image := map_option (\<lambda>im. im\<lparr>im_path := []\<rparr>) (vd_image vd)\<rparr>"

definition msd_get_state :: "msd_state msd_op" where
  "msd_get_state = getS (\<lambda>s.
     bindS (if ms_online s then assertS (ms_vd s \<noteq> None) (bindS storage_get_state (\<lambda>(ims, pts).
         retS (Some \<lparr>ss_images = ims, ss_parts = pts, ss_downloading = map_option reader_state (ms_reader s),
           ss_uploading = map_option writer_state (ms_writer s)\<rparr>))) else retS None) (\<lambda>storage.
     bindS (case ms_vd s of None \<Rightarrow> retS None | Some vd \<Rightarrow> assertS (ms_online s) (retS (Some (vd_state vd)))) (\<lambda>vd.
     retS \<lparr>mst_online = (vd \<noteq> None \<and> drive_is_enabled (sg_world s)), mst_busy = ms_busy s,
       mst_storage = storage, mst_drive = vd\<rparr>)))"

section \<open>Differences\<close>

record storage_diff =
  sd_images :: "(string, image) dict option"
  sd_parts :: "(string, part) dict option"
  sd_downloading :: "(string \<times> int \<times> int) option option"
  sd_uploading :: "(string \<times> int \<times> int) option option"

record msd_diff =
  df_busy :: "bool option"
  df_drive :: "vdrive option option"
  df_storage :: storage_diff

datatype msd_message = Whole msd_state | Changes msd_diff | Nothing

definition no_change :: storage_diff where
  "no_change = \<lparr>sd_images = None, sd_parts = None, sd_downloading = None, sd_uploading = None\<rparr>"

text \<open>
  \<open>(prev.get("storage") or {}).get(sub) != (new["storage"] or {}).get(sub)\<close> for the four parts; where there is
  no new storage, \<open>new["storage"][sub]\<close> raises.  A missing storage has \<open>None\<close> for each part.
\<close>

definition storage_diff :: "storage_state option \<Rightarrow> storage_state option \<Rightarrow> storage_diff result" where
  "storage_diff prev new =
     (let images = map_option ss_images prev \<noteq> map_option ss_images new;
          parts = map_option ss_parts prev \<noteq> map_option ss_parts new;
          downloading = Option.bind prev ss_downloading \<noteq> Option.bind new ss_downloading;
          uploading = Option.bind prev ss_uploading \<noteq> Option.bind new ss_uploading
      in case new of
           None \<Rightarrow> if images \<or> parts \<or> downloading \<or> uploading then Inl TypeError else Inr no_change
         | Some st \<Rightarrow> Inr
             \<lparr>sd_images = (if images then Some (ss_images st) else None),
              sd_parts = (if parts then Some (ss_parts st) else None),
              sd_downloading = (if downloading then Some (ss_downloading st) else None),
              sd_uploading = (if uploading then Some (ss_uploading st) else None)\<rparr>)"

text \<open>
  One turn of \<open>poll_state\<close>: \<open>reset\<close> when somebody asked for the whole state, \<open>prev\<close> what was sent last.
\<close>

definition poll_turn :: "bool \<Rightarrow> msd_state option \<Rightarrow> msd_state \<Rightarrow> (msd_message \<times> msd_state option) result" where
  "poll_turn reset prev new =
     (case (if reset then None else prev) of
        None \<Rightarrow> Inr (Whole new, Some new)
      | Some p \<Rightarrow>
          if mst_online p \<noteq> mst_online new then Inr (Whole new, Some new)
          else bindR (storage_diff (mst_storage p) (mst_storage new)) (\<lambda>sd.
            let busy = (if mst_busy p \<noteq> mst_busy new then Some (mst_busy new) else None);
                drive = (if mst_drive p \<noteq> mst_drive new then Some (mst_drive new) else None)
            in if busy = None \<and> drive = None \<and> sd = no_change then Inr (Nothing, Some p)
               else Inr (Changes \<lparr>df_busy = busy, df_drive = drive, df_storage = sd\<rparr>, Some new)))"

section \<open>Clients that merge the differences\<close>

text \<open>
  A client keeps what it has where a difference has nothing; the parts of a storage it did not have
  start out empty.
\<close>

definition or_old :: "'a \<Rightarrow> 'a option \<Rightarrow> 'a" where
  "or_old old x = (case x of None \<Rightarrow> old | Some a \<Rightarrow> a)"

definition merge_storage :: "storage_state option \<Rightarrow> storage_diff \<Rightarrow> storage_state option" where
  "merge_storage old sd =
     (if sd = no_change then old
      else (let st = (case old of None \<Rightarrow> \<lparr>ss_images = [], ss_parts = [], ss_downloading = None, ss_uploading = None\<rparr> | Some st \<Rightarrow> st)
            in Some \<lparr>ss_images = or_old (ss_images st) (sd_images sd), ss_parts = or_old (ss_parts st) (sd_parts sd),
                 ss_downloading = or_old (ss_downloading st) (sd_downloading sd),
                 ss_uploading = or_old (ss_uploading st) (sd_uploading sd)\<rparr>))"

fun client_merge :: "msd_state option \<Rightarrow> msd_message \<Rightarrow> msd_state option" where
  "client_merge old (Whole st) = Some st"
| "client_merge old Nothing = old"
| "client_merge old (Changes df) = map_option (\<lambda>st. st\<lparr>mst_busy := or_old (mst_busy st) (df_busy df),
     mst_drive := or_old (mst_drive st) (df_drive df), mst_storage := merge_storage (mst_storage st) (df_storage df)\<rparr>) old"

lemma merge_storage_diff: "storage_diff prev new = Inr sd \<Longrightarrow> merge_storage prev sd = new"
  by (cases prev; cases new) (auto simp: storage_diff_def merge_storage_def no_change_def or_old_def Let_def
      split: if_splits intro!: storage_state.equality)

lemma storage_diff_none: "storage_diff prev new = Inr no_change \<Longrightarrow> prev = new"
  using merge_storage_diff [of prev new no_change] by (simp add: merge_storage_def)

lemma storage_diff_error: "(\<exists>e. storage_diff prev new = Inl e) = (prev \<noteq> None \<and> new = None)"
  by (cases prev; cases new) (auto simp: storage_diff_def Let_def)

text \<open>
  C24. The differences are complete: whatever was sent before, a client that merges the message of a turn
  into what it has shows exactly the new state, and the turn is silent only when nothing has changed.  The
  turn fails in one case only, when the storage has gone but the state was, and still is, offline.
\<close>

theorem clients_follow_state:
  "case poll_turn reset prev new of
     Inr (msg, sent) \<Rightarrow> client_merge prev msg = Some new \<and> sent = Some new
   | Inl e \<Rightarrow> \<not> reset \<and> mst_storage new = None
       \<and> (\<exists>p. prev = Some p \<and> mst_online p = mst_online new \<and> mst_storage p \<noteq> None)"
proof (cases "reset \<or> prev = None")
  case True
  then show ?thesis by (auto simp: poll_turn_def)
next
  case False
  then obtain p where p: "prev = Some p" "\<not> reset" by auto
  show ?thesis
  proof (cases "mst_online p = mst_online new")
    case True
    show ?thesis
    proof (cases "storage_diff (mst_storage p) (mst_storage new)")
      case (Inl e)
      then show ?thesis using p True storage_diff_error [of "mst_storage p" "mst_storage new"] by (auto simp: poll_turn_def)
    next
      case (Inr sd)
      then show ?thesis using p True merge_storage_diff [OF Inr] storage_diff_none [of "mst_storage p" "mst_storage new"]
        by (auto simp: poll_turn_def Let_def or_old_def intro!: msd_state.equality split: if_splits)
    qed
  qed (use p in \<open>simp add: poll_turn_def\<close>)
qed

text \<open>And then it does fail: the storage goes while the drive is switched off.\<close>

theorem poll_fails_when_storage_goes:
  assumes "mst_storage p \<noteq> None" "mst_online p = mst_online new" "mst_storage new = None"
  shows "poll_turn False (Some p) new = Inl TypeError"
  using assms by (auto simp: poll_turn_def storage_diff_def Let_def)

end
