(* ===== verification/Stun.thy ===== *)
theory Stun
  imports Prelude
begin

text \<open>
  The STUN client of the Janus runner (\<open>kvmd/apps/janus/stun.py\<close>): requests with their retries, the
  parser of the responses and the detection of the kind of NAT.  The socket, the random bytes, the
  resolver and the notation of addresses (\<open>ipaddress\<close>) are an environment over a state of its own.
\<close>

section \<open>Data\<close>

datatype nat_type =
    NatError | NatBlocked | OpenInternet | SymmetricUdpFw | FullConeNat | RestrictedNat | RestrictedPortNat
  | SymmetricNat | ChangedAddrError

record stun_address =
  sa_ip :: string
  sa_port :: int

record stun_response =
  sr_ok :: bool
  sr_ext :: "stun_address option"
  sr_src :: "stun_address option"
  sr_changed :: "stun_address option"

record stun_info =
  si_nat_type :: nat_type
  si_src_ip :: string
  si_ext_ip :: string
  si_stun_host :: string
  si_stun_ip :: string
  si_stun_port :: int

record stun =
  su_host :: string
  su_port :: int
  su_retries :: nat
  su_ip :: string

text \<open>
  \<open>sv_exchange\<close> sends a datagram to an address and waits for one; \<open>sv_resolve\<close> gives the families and
  addresses of a name, \<open>sv_bind\<close> opens the socket of a family.
\<close>

record 'w stun_env =
  sv_token :: "('w, bytes) sm"
  sv_exchange :: "bytes \<Rightarrow> string \<times> int \<Rightarrow> ('w, bytes) sm"
  sv_resolve :: "string \<Rightarrow> int \<Rightarrow> ('w, (nat \<times> string) list) sm"
  sv_bind :: "nat \<Rightarrow> string \<Rightarrow> ('w, unit) sm"
  sv_ip4 :: "bytes \<Rightarrow> string"
  sv_ip6 :: "bytes \<Rightarrow> string"

section \<open>Responses\<close>

definition trans_xor :: "bytes \<Rightarrow> bytes \<Rightarrow> bytes result" where
  "trans_xor data trans_id =
     (if trans_id = [] then Inr data
      else assertR (length data \<le> length trans_id) (py_bytes (map2 (\<lambda>b t. b XOR t) data trans_id)))"

definition mk_ip4 :: "('w, 'z) stun_env_scheme \<Rightarrow> bytes \<Rightarrow> string result" where
  "mk_ip4 env bs = (if length bs = 4 then Inr (sv_ip4 env bs) else Inl ValueError)"

definition mk_ip6 :: "('w, 'z) stun_env_scheme \<Rightarrow> bytes \<Rightarrow> string result" where
  "mk_ip6 env bs = (if length bs = 16 then Inr (sv_ip6 env bs) else Inl ValueError)"

definition unpack_be :: "field list \<Rightarrow> bytes \<Rightarrow> int list result" where
  "unpack_be fs bs = (if length bs = calcsize fs then unpack_from BE fs bs 0 else Inl StructError)"

definition parse_address :: "('w, 'z) stun_env_scheme \<Rightarrow> bytes \<Rightarrow> bytes \<Rightarrow> stun_address result" where
  "parse_address env data trans_id =
     bindR (py_get data 1) (\<lambda>family.
     bindR (trans_xor (py_slice 2 4 data) trans_id) (\<lambda>p.
     bindR (unpack_be [FU 2] p) (\<lambda>port.
     if family = 0x01 then
       bindR (trans_xor (py_slice 4 8 data) trans_id) (\<lambda>a.
       bindR (mk_ip4 env a) (\<lambda>ip. Inr \<lparr>sa_ip = ip, sa_port = hd port\<rparr>))
     else if family = 0x02 then
       bindR (trans_xor (py_slice 4 20 data) trans_id) (\<lambda>a.
       bindR (mk_ip6 env a) (\<lambda>ip. Inr \<lparr>sa_ip = ip, sa_port = hd port\<rparr>))
     else Inl RuntimeError)))"

datatype stun_field = FExt | FSrc | FChanged

definition attr_field :: "int \<Rightarrow> stun_field option" where
  "attr_field t =
     (if t = 0x0001 \<or> t = 0x0020 then Some FExt
      else if t = 0x0004 then Some FSrc
      else if t = 0x0005 then Some FChanged else None)"

fun set_field :: "stun_field \<Rightarrow> stun_address \<Rightarrow> stun_response \<Rightarrow> stun_response" where
  "set_field FExt a r = r\<lparr>sr_ext := Some a\<rparr>"
| "set_field FSrc a r = r\<lparr>sr_src := Some a\<rparr>"
| "set_field FChanged a r = r\<lparr>sr_changed := Some a\<rparr>"

definition empty_response :: "bool \<Rightarrow> stun_response" where
  "empty_response answered = \<lparr>sr_ok = answered, sr_ext = None, sr_src = None, sr_changed = None\<rparr>"

text \<open>The loop over the attributes: every turn consumes at least the four bytes of a header.\<close>

function parse_attrs ::
  "('w, 'z) stun_env_scheme \<Rightarrow> bytes \<Rightarrow> bytes \<Rightarrow> nat \<Rightarrow> int \<Rightarrow> stun_response \<Rightarrow> stun_response result" where
  "parse_attrs env trans_id resp offset remaining parsed =
     (if remaining \<le> 0 then Inr parsed
      else case unpack_be [FU 2, FU 2] (py_slice offset (offset + 4) resp) of
        Inl e \<Rightarrow> Inl e
      | Inr hdr \<Rightarrow>
          (let attr_type = hdr ! 0; attr_len = nat (hdr ! 1) in
           case (case attr_field attr_type of
                   None \<Rightarrow> Inr parsed
                 | Some f \<Rightarrow> bindR (parse_address env (drop (offset + 4) resp) (if attr_type = 0x0020 then trans_id else []))
                     (\<lambda>a. Inr (set_field f a parsed))) of
             Inl e \<Rightarrow> Inl e
           | Inr parsed' \<Rightarrow> parse_attrs env trans_id resp (offset + 4 + attr_len) (remaining - (4 + int attr_len)) parsed'))"
  by pat_completeness auto
termination by (relation "measure (\<lambda>(env, t, r, off, rem, p). nat rem)") auto

declare parse_attrs.simps [simp del]

section \<open>Requests\<close>

text \<open>
  \<open>Inr None\<close> is an error that is retried; a datagram shorter than a header raises out of the loop.
\<close>

definition inner_make_request ::
  "('w, 'z) stun_env_scheme \<Rightarrow> bytes \<Rightarrow> bytes \<Rightarrow> string \<times> int \<Rightarrow> ('w, bytes option) sm" where
  "inner_make_request env trans_id req addr =
     bindS (liftS (pack BE [FU 2, FU 2] [0x0001, int (length req)])) (\<lambda>hdr.
     bindS (exceptS (bindS (sv_exchange env (hdr @ trans_id @ req) addr) (\<lambda>r. retS (Some r))) (\<lambda>e. Some (retS None))) (\<lambda>answer.
     case answer of
       None \<Rightarrow> retS None
     | Some resp \<Rightarrow>
         bindS (liftS (unpack_be [FU 2, FU 2] (take 4 resp))) (\<lambda>v.
         if v ! 0 \<noteq> 0x0101 then retS None
         else if trans_id \<noteq> py_slice 4 20 resp then retS None
         else retS (Some (py_slice 20 (20 + nat (v ! 1)) resp)))))"

fun request_retries ::
  "('w, 'z) stun_env_scheme \<Rightarrow> bytes \<Rightarrow> bytes \<Rightarrow> string \<times> int \<Rightarrow> nat \<Rightarrow> bytes option \<Rightarrow> ('w, bytes option) sm" where
  "request_retries env trans_id req addr 0 prev = retS prev"
| "request_retries env trans_id req addr (Suc n) prev =
     bindS (inner_make_request env trans_id req addr) (\<lambda>r.
       case r of Some resp \<Rightarrow> retS (Some resp) | None \<Rightarrow> request_retries env trans_id req addr n None)"

definition stun_request :: "('w, 'z) stun_env_scheme \<Rightarrow> stun \<Rightarrow> string \<times> int \<Rightarrow> bytes \<Rightarrow> ('w, stun_response) sm" where
  "stun_request env su addr req =
     bindS (sv_token env) (\<lambda>token. let trans_id = [0x21, 0x12, 0xA4, 0x42] @ token in
     bindS (request_retries env trans_id req addr (su_retries su) (Some [])) (\<lambda>r.
     case r of
       None \<Rightarrow> retS (empty_response False)
     | Some resp \<Rightarrow> liftS (parse_attrs env trans_id resp 0 (int (length resp)) (empty_response True))))"

definition change_request :: "int \<Rightarrow> bytes" where
  "change_request flags = fromR [] (pack BE [FU 2, FU 2, FU 4] [0x0003, 0x0004, flags])"

section \<open>The kind of NAT\<close>

definition get_nat_type ::
  "('w, 'z) stun_env_scheme \<Rightarrow> stun \<Rightarrow> string \<Rightarrow> string \<Rightarrow> ('w, nat_type \<times> stun_response) sm" where
  "get_nat_type env su stun_ip src_ip =
     bindS (stun_request env su (stun_ip, su_port su) []) (\<lambda>first.
     if \<not> sr_ok first then retS (NatBlocked, first)
     else
       bindS (stun_request env su (stun_ip, su_port su) (change_request 6)) (\<lambda>resp.
       if (case sr_ext first of None \<Rightarrow> False | Some a \<Rightarrow> sa_ip a = src_ip) then
         retS (if sr_ok resp then OpenInternet else SymmetricUdpFw, resp)
       else if sr_ok resp then retS (FullConeNat, resp)
       else (case sr_changed first of
          None \<Rightarrow> raiseS RuntimeError
        | Some ch \<Rightarrow>
            bindS (stun_request env su (sa_ip ch, sa_port ch) []) (\<lambda>resp.
            if \<not> sr_ok resp then retS (ChangedAddrError, resp)
            else if sr_ext resp = sr_ext first then
              bindS (stun_request env su (sa_ip ch, su_port su) (change_request 2)) (\<lambda>resp.
              retS (if sr_ok resp then RestrictedNat else RestrictedPortNat, resp))
            else retS (SymmetricNat, resp)))))"

text \<open>
  The resolver is asked again until the counter of retries meets zero; the configuration has at least one.
\<close>

fun retried_getaddrinfo :: "('w, 'z) stun_env_scheme \<Rightarrow> nat \<Rightarrow> string \<Rightarrow> int \<Rightarrow> ('w, (nat \<times> string) list) sm" where
  "retried_getaddrinfo env 0 host port = raiseS RuntimeError"
| "retried_getaddrinfo env (Suc n) host port =
     exceptS (sv_resolve env host port) (\<lambda>e. if n = 0 then None else Some (retried_getaddrinfo env n host port))"

definition choose_ip :: "string \<Rightarrow> string list \<Rightarrow> string" where
  "choose_ip old ips = (if old = [] \<or> old \<notin> set ips then hd ips else old)"

text \<open>\<open>get_info\<close> returns the information with the client, whose address it may have changed.\<close>

definition get_info :: "('w, 'z) stun_env_scheme \<Rightarrow> stun \<Rightarrow> string \<Rightarrow> int \<Rightarrow> ('w, stun_info \<times> stun) sm" where
  "get_info env su src_ip src_port =
     (let info = (\<lambda>nat_type ext_ip stun_ip. \<lparr>si_nat_type = nat_type, si_src_ip = src_ip, si_ext_ip = ext_ip,
            si_stun_host = su_host su, si_stun_ip = stun_ip, si_stun_port = su_port su\<rparr>) in
      exceptS
        (bindS (retried_getaddrinfo env (su_retries su) src_ip src_port) (\<lambda>srcs.
         bindS (liftS (py_get srcs 0)) (\<lambda>(src_fam, src_addr).
         bindS (retried_getaddrinfo env (su_retries su) (su_host su) (su_port su)) (\<lambda>addrs.
         let stun_ips = map snd (filter (\<lambda>(fam, ip). fam = src_fam) addrs) in
         if stun_ips = [] then raiseS RuntimeError
         else (let su' = su\<lparr>su_ip := choose_ip (su_ip su) stun_ips\<rparr> in
           exceptS
             (bindS (sv_bind env src_fam src_addr) (\<lambda>_.
              bindS (get_nat_type env su' (su_ip su') src_ip) (\<lambda>(nat_type, resp).
              retS (info nat_type (case sr_ext resp of None \<Rightarrow> [] | Some a \<Rightarrow> sa_ip a) (su_ip su'), su'))))
             (\<lambda>e. Some (retS (info NatError [] (su_ip su'), su'))))))))
        (\<lambda>e. Some (retS (info NatError [] (su_ip su), su))))"

end
