(* ===== verification/StunNat.thy ===== *)
theory StunNat
  imports Stun
begin

text \<open>
  What the STUN client makes of the answers: the attributes of a server are read back as they were
  written, and the kind of NAT that is detected is compared with the NAT the client is really behind,
  for every kind of box in front of it and the server of RFC 3489.
\<close>

section \<open>Attributes written by a server\<close>

type_synonym endpoint = "bytes \<times> int"

definition wf_endpoint :: "endpoint \<Rightarrow> bool" where
  "wf_endpoint ep = (length (fst ep) = 4 \<and> bytes_ok (fst ep) \<and> 0 \<le> snd ep \<and> snd ep < 65536)"

datatype stun_attr = PlainAddr int endpoint | XorAddr endpoint | OtherAttr int bytes

definition xor_bytes :: "bytes \<Rightarrow> bytes \<Rightarrow> bytes" where
  "xor_bytes xs ts = map2 (\<lambda>b t. b XOR t) xs ts"

fun attr_body :: "bytes \<Rightarrow> stun_attr \<Rightarrow> bytes" where
  "attr_body tid (PlainAddr t ep) = [0, 1] @ put_int BE 2 (snd ep) @ fst ep"
| "attr_body tid (XorAddr ep) = [0, 1] @ xor_bytes (put_int BE 2 (snd ep)) tid @ xor_bytes (fst ep) tid"
| "attr_body tid (OtherAttr t v) = v"

fun attr_type :: "stun_attr \<Rightarrow> int" where
  "attr_type (PlainAddr t ep) = t"
| "attr_type (XorAddr ep) = 0x0020"
| "attr_type (OtherAttr t v) = t"

definition enc_attr :: "bytes \<Rightarrow> stun_attr \<Rightarrow> bytes" where
  "enc_attr tid a = put_int BE 2 (attr_type a) @ put_int BE 2 (int (length (attr_body tid a))) @ attr_body tid a"

fun wf_attr :: "stun_attr \<Rightarrow> bool" where
  "wf_attr (PlainAddr t ep) = (t \<in> {0x0001, 0x0004, 0x0005} \<and> wf_endpoint ep)"
| "wf_attr (XorAddr ep) = wf_endpoint ep"
| "wf_attr (OtherAttr t v) = (0 \<le> t \<and> t < 65536 \<and> attr_field t = None \<and> length v < 65536)"

definition addr_of :: "('w, 'z) stun_env_scheme \<Rightarrow> endpoint \<Rightarrow> stun_address" where
  "addr_of env ep = \<lparr>sa_ip = sv_ip4 env (fst ep), sa_port = snd ep\<rparr>"

fun apply_attr :: "('w, 'z) stun_env_scheme \<Rightarrow> stun_attr \<Rightarrow> stun_response \<Rightarrow> stun_response" where
  "apply_attr env (PlainAddr t ep) r = (case attr_field t of None \<Rightarrow> r | Some f \<Rightarrow> set_field f (addr_of env ep) r)"
| "apply_attr env (XorAddr ep) r = set_field FExt (addr_of env ep) r"
| "apply_attr env (OtherAttr t v) r = r"

lemma unpack_be_put2: "0 \<le> x \<Longrightarrow> x < 65536 \<Longrightarrow> unpack_be [FU 2] (put_int BE 2 x) = Inr [x]"
  by (simp add: unpack_be_def unpack_from_def get_put_int)

lemma unpack_header:
  assumes "0 \<le> t" "t < 65536" "0 \<le> n" "n < 65536"
  shows "unpack_be [FU 2, FU 2] (put_int BE 2 t @ put_int BE 2 n) = Inr [t, n]"
  using assms by (simp add: unpack_be_def unpack_from_def get_put_int)

lemma slice_append: "length xs = a \<Longrightarrow> length ys = b - a \<Longrightarrow> py_slice a b (xs @ ys @ zs) = ys"
  by (simp add: py_slice_def)

lemma xor_twice:
  assumes "bytes_ok xs" "bytes_ok ts" "length xs \<le> length ts" "ts \<noteq> []"
  shows "trans_xor (xor_bytes xs ts) ts = Inr xs"
proof -
  have "map2 (\<lambda>b t. b XOR t) (map2 (\<lambda>b t. b XOR t) xs ts) ts = xs" using assms(3)
    by (induction xs arbitrary: ts) (auto simp: xor.assoc neq_Nil_conv Suc_le_length_iff)
  with assms show ?thesis by (simp add: trans_xor_def xor_bytes_def py_bytes_def)
qed

lemma length_xor [simp]: "length (xor_bytes xs ts) = min (length xs) (length ts)"
  by (simp add: xor_bytes_def)

lemma parse_plain:
  assumes "wf_endpoint ep"
  shows "parse_address env (attr_body tid (PlainAddr t ep) @ rest) [] = Inr (addr_of env ep)"
proof -
  have s1: "py_slice 2 4 ([0, 1] @ put_int BE 2 (snd ep) @ fst ep @ rest) = put_int BE 2 (snd ep)"
    by (rule slice_append) simp_all
  have s2: "py_slice 4 8 (([0, 1] @ put_int BE 2 (snd ep)) @ fst ep @ rest) = fst ep"
    by (rule slice_append) (use assms in \<open>simp_all add: wf_endpoint_def\<close>)
  have "py_get ([0, 1] @ put_int BE 2 (snd ep) @ fst ep @ rest) 1 = Inr 1" by (simp add: py_get_def py_index_def)
  then show ?thesis using assms s1 s2
    by (simp add: parse_address_def trans_xor_def unpack_be_put2 wf_endpoint_def mk_ip4_def addr_of_def)
qed

lemma parse_xor:
  assumes "wf_endpoint ep" "bytes_ok tid" "length tid = 16"
  shows "parse_address env (attr_body tid (XorAddr ep) @ rest) tid = Inr (addr_of env ep)"
proof -
  let ?p = "xor_bytes (put_int BE 2 (snd ep)) tid" and ?a = "xor_bytes (fst ep) tid"
  have ne: "tid \<noteq> []" using assms(3) by auto
  have s1: "py_slice 2 4 ([0, 1] @ ?p @ ?a @ rest) = ?p" by (rule slice_append) (use assms in simp_all)
  have s2: "py_slice 4 8 (([0, 1] @ ?p) @ ?a @ rest) = ?a"
    by (rule slice_append) (use assms in \<open>simp_all add: wf_endpoint_def\<close>)
  have x: "trans_xor ?p tid = Inr (put_int BE 2 (snd ep))" "trans_xor ?a tid = Inr (fst ep)"
    using assms ne by (auto intro!: xor_twice simp: wf_endpoint_def)
  have "py_get ([0, 1] @ ?p @ ?a @ rest) 1 = Inr 1" by (simp add: py_get_def py_index_def)
  then show ?thesis using assms s1 s2 x
    by (simp add: parse_address_def unpack_be_put2 wf_endpoint_def mk_ip4_def addr_of_def)
qed

lemma attr_facts:
  assumes "wf_attr a" "bytes_ok tid" "length tid = 16"
  shows "0 \<le> attr_type a" "attr_type a < 65536" "length (attr_body tid a) < 65536"
    "(case attr_field (attr_type a) of None \<Rightarrow> Inr r
       | Some f \<Rightarrow> bindR (parse_address env (attr_body tid a @ rest) (if attr_type a = 0x0020 then tid else []))
           (\<lambda>x. Inr (set_field f x r))) = Inr (apply_attr env a r)"
  using assms
  by (cases a; auto simp: wf_endpoint_def parse_plain [unfolded wf_endpoint_def, simplified]
      parse_xor [unfolded wf_endpoint_def, simplified] attr_field_def split: if_splits)+

lemma parse_attrs_enc:
  assumes "bytes_ok tid" "length tid = 16" "\<forall>a \<in> set as. wf_attr a"
  shows "parse_attrs env tid (pre @ concat (map (enc_attr tid) as)) (length pre)
     (int (length (concat (map (enc_attr tid) as)))) r = Inr (fold (apply_attr env) as r)"
  using assms(3)
proof (induction as arbitrary: pre r)
  case Nil
  then show ?case by (simp add: parse_attrs.simps)
next
  case (Cons a as)
  let ?rest = "concat (map (enc_attr tid) as)" and ?b = "attr_body tid a"
  let ?h = "put_int BE 2 (attr_type a) @ put_int BE 2 (int (length ?b))"
  have f: "0 \<le> attr_type a" "attr_type a < 65536" "length ?b < 65536"
    using attr_facts(1,2,3) [of a tid] Cons.prems assms by auto
  have sl: "py_slice (length pre) (length pre + 4) (pre @ ?h @ ?b @ ?rest) = ?h" by (rule slice_append) simp_all
  have dr: "drop (length pre + 4) (pre @ ?h @ ?b @ ?rest) = ?b @ ?rest" by simp
  have un: "unpack_be [FU 2, FU 2] ?h = Inr [attr_type a, int (length ?b)]" using f by (intro unpack_header) auto
  have e: "pre @ concat (map (enc_attr tid) (a # as)) = pre @ ?h @ ?b @ ?rest" by (simp add: enc_attr_def)
  have len: "int (length (concat (map (enc_attr tid) (a # as)))) = 4 + int (length ?b) + int (length ?rest)"
    by (simp add: enc_attr_def)
  have l: "length (pre @ ?h @ ?b) = length pre + 4 + length ?b" by simp
  have "parse_attrs env tid (pre @ ?h @ ?b @ ?rest) (length pre) (4 + int (length ?b) + int (length ?rest)) r
    = parse_attrs env tid (pre @ ?h @ ?b @ ?rest) (length pre + 4 + length ?b) (int (length ?rest)) (apply_attr env a r)"
    using attr_facts(4) [of a tid r env ?rest] Cons.prems assms
    by (subst parse_attrs.simps) (simp only: sl dr un, simp add: Let_def)
  also have "\<dots> = Inr (fold (apply_attr env) as (apply_attr env a r))"
  proof -
    have "parse_attrs env tid ((pre @ ?h @ ?b) @ ?rest) (length (pre @ ?h @ ?b)) (int (length ?rest)) (apply_attr env a r)
      = Inr (fold (apply_attr env) as (apply_attr env a r))"
      by (rule Cons.IH) (use Cons.prems in simp)
    from this [unfolded l, unfolded append_assoc] show ?thesis unfolding append_assoc .
  qed
  finally show ?case unfolding e len by simp
qed

text \<open>
  The parser of the responses inverts the encoding of RFC 3489 and RFC 5389: whatever attributes a
  server sends, in whatever order, plain or masked with the transaction, known or unknown, the fields
  of the result are the last addresses that were sent for them.
\<close>

theorem attributes_read_back:
  assumes "bytes_ok tid" "length tid = 16" "\<forall>a \<in> set as. wf_attr a"
  shows "parse_attrs env tid (concat (map (enc_attr tid) as)) 0 (int (length (concat (map (enc_attr tid) as)))) r
    = Inr (fold (apply_attr env) as r)"
  using parse_attrs_enc [OF assms, of env "[]" r] by simp

lemma attributes_read_back_witness:
  "parse_attrs (undefined\<lparr>sv_ip4 := map (\<lambda>b. if b = 97 then CHR ''a'' else CHR ''z'')\<rparr> :: unit stun_env) (replicate 16 7)
     (concat (map (enc_attr (replicate 16 7)) [OtherAttr 0x8022 [1, 2, 3, 4], XorAddr ([97, 98, 99, 100], 300)])) 0
     (int (length (concat (map (enc_attr (replicate 16 7)) [OtherAttr 0x8022 [1, 2, 3, 4], XorAddr ([97, 98, 99, 100], 300)]))))
     (empty_response True) = Inr \<lparr>sr_ok = True, sr_ext = Some \<lparr>sa_ip = ''azzz'', sa_port = 300\<rparr>, sr_src = None, sr_changed = None\<rparr>"
  by (subst attributes_read_back) (simp_all add: wf_endpoint_def attr_field_def addr_of_def empty_response_def set_replicate_conv_if bytes_ok_def list_all_iff)

section \<open>The server and the boxes in front of the client\<close>

text \<open>
  The server of RFC 3489 has two addresses and two ports.  It answers from the address and port the
  request came to, or from the other address (flag 4) or the other port (flag 2), and reports the
  address it saw, the one it answers from and the other one.
\<close>

datatype nat_box = BoxOpen | BoxFirewall | BoxFull | BoxRestricted | BoxPort | BoxSymmetric | BoxBlocked

record inet =
  in_box :: nat_box
  in_client :: endpoint
  in_public :: endpoint
  in_public2 :: "endpoint \<Rightarrow> endpoint"
  in_addr1 :: bytes
  in_addr2 :: bytes
  in_port1 :: int
  in_port2 :: int
  in_tokens :: "nat \<Rightarrow> bytes"
  in_asked :: nat
  in_contacted :: "endpoint list"

text \<open>What the box makes of the source address, and which answers it lets in.\<close>

definition mapped :: "inet \<Rightarrow> endpoint \<Rightarrow> endpoint" where
  "mapped w dest = (case in_box w of BoxOpen \<Rightarrow> in_client w | BoxFirewall \<Rightarrow> in_client w
     | BoxSymmetric \<Rightarrow> in_public2 w dest | _ \<Rightarrow> in_public w)"

definition lets_in :: "inet \<Rightarrow> endpoint set \<Rightarrow> endpoint \<Rightarrow> endpoint \<Rightarrow> bool" where
  "lets_in w contacted dest from = (case in_box w of
       BoxOpen \<Rightarrow> True
     | BoxFull \<Rightarrow> True
     | BoxRestricted \<Rightarrow> fst from \<in> fst ` contacted
     | BoxPort \<Rightarrow> from \<in> contacted
     | BoxFirewall \<Rightarrow> from \<in> contacted
     | BoxSymmetric \<Rightarrow> from = dest
     | BoxBlocked \<Rightarrow> False)"

definition other_addr :: "inet \<Rightarrow> bytes \<Rightarrow> bytes" where
  "other_addr w a = (if a = in_addr1 w then in_addr2 w else in_addr1 w)"

definition other_port :: "inet \<Rightarrow> int \<Rightarrow> int" where
  "other_port w p = (if p = in_port1 w then in_port2 w else in_port1 w)"

definition wants :: "int \<Rightarrow> bytes \<Rightarrow> bool" where
  "wants flag wire = (length wire > 24 \<and> get_int BE (drop 24 wire) AND flag \<noteq> 0)"

definition answer_from :: "inet \<Rightarrow> endpoint \<Rightarrow> bytes \<Rightarrow> endpoint" where
  "answer_from w dest wire = (if wants 4 wire then other_addr w (fst dest) else fst dest,
     if wants 2 wire then other_port w (snd dest) else snd dest)"

definition answer :: "inet \<Rightarrow> endpoint \<Rightarrow> bytes \<Rightarrow> bytes" where
  "answer w dest wire =
     (let tid = py_slice 4 20 wire;
          body = concat (map (enc_attr tid) [PlainAddr 1 (mapped w dest), PlainAddr 4 (answer_from w dest wire),
            PlainAddr 5 (other_addr w (fst dest), other_port w (snd dest))])
      in put_int BE 2 0x0101 @ put_int BE 2 (int (length body)) @ tid @ body)"

definition in_exchange :: "(bytes \<Rightarrow> string) \<Rightarrow> bytes \<Rightarrow> string \<times> int \<Rightarrow> (inet, bytes) sm" where
  "in_exchange fmt wire addr w =
     (case find (\<lambda>a. fmt a = fst addr) [in_addr1 w, in_addr2 w] of
        None \<Rightarrow> (Inl OSError, w)
      | Some a \<Rightarrow>
          (let dest = (a, snd addr); w' = w\<lparr>in_contacted := dest # in_contacted w\<rparr>
           in if lets_in w' (set (in_contacted w')) dest (answer_from w' dest wire) then (Inr (answer w' dest wire), w') else (Inl TimeoutError, w')))"

definition in_token :: "(inet, bytes) sm" where
  "in_token w = (Inr (in_tokens w (in_asked w)), w\<lparr>in_asked := Suc (in_asked w)\<rparr>)"

definition box_env :: "(bytes \<Rightarrow> string) \<Rightarrow> inet stun_env" where
  "box_env fmt = \<lparr>sv_token = in_token, sv_exchange = in_exchange fmt, sv_resolve = (\<lambda>h p. retS []), sv_bind = (\<lambda>f a. retS ()),
     sv_ip4 = fmt, sv_ip6 = fmt\<rparr>"

definition wf_inet :: "(bytes \<Rightarrow> string) \<Rightarrow> inet \<Rightarrow> bool" where
  "wf_inet fmt w =
     (in_addr1 w \<noteq> in_addr2 w \<and> in_port1 w \<noteq> in_port2 w
      \<and> wf_endpoint (in_addr1 w, in_port1 w) \<and> wf_endpoint (in_addr2 w, in_port2 w)
      \<and> wf_endpoint (in_client w) \<and> wf_endpoint (in_public w) \<and> (\<forall>d. wf_endpoint (in_public2 w d))
      \<and> in_public2 w (in_addr1 w, in_port1 w) \<noteq> in_public2 w (in_addr2 w, in_port2 w)
      \<and> fst (in_public w) \<noteq> fst (in_client w) \<and> (\<forall>d. fst (in_public2 w d) = fst (in_public w))
      \<and> (\<forall>n. length (in_tokens w n) = 12 \<and> bytes_ok (in_tokens w n))
      \<and> inj_on fmt {in_addr1 w, in_addr2 w, fst (in_client w), fst (in_public w)})"

text \<open>The same network, with more requests made.\<close>

definition after_asking :: "inet \<Rightarrow> nat \<Rightarrow> endpoint list \<Rightarrow> inet" where
  "after_asking w n contacted = w\<lparr>in_asked := n, in_contacted := contacted\<rparr>"

lemma after_fields [simp]:
  "in_box (after_asking w n c) = in_box w" "in_client (after_asking w n c) = in_client w"
  "in_public (after_asking w n c) = in_public w" "in_public2 (after_asking w n c) = in_public2 w"
  "in_addr1 (after_asking w n c) = in_addr1 w" "in_addr2 (after_asking w n c) = in_addr2 w"
  "in_port1 (after_asking w n c) = in_port1 w" "in_port2 (after_asking w n c) = in_port2 w"
  "in_tokens (after_asking w n c) = in_tokens w" "in_asked (after_asking w n c) = n"
  "in_contacted (after_asking w n c) = c" "after_asking (after_asking w n c) m c' = after_asking w m c'"
  by (simp_all add: after_asking_def)

lemma after_simps [simp]:
  "mapped (after_asking w n c) d = mapped w d" "lets_in (after_asking w n c) C d f = lets_in w C d f"
  "other_addr (after_asking w n c) a = other_addr w a" "other_port (after_asking w n c) p = other_port w p"
  "answer_from (after_asking w n c) d wire = answer_from w d wire"
  by (simp_all add: mapped_def lets_in_def other_addr_def other_port_def answer_from_def cong: nat_box.case_cong)

lemma after_answer [simp]: "answer (after_asking w n c) d wire = answer w d wire"
  by (simp add: answer_def)

lemma after_refl: "after_asking w (in_asked w) (in_contacted w) = w"
  by (simp add: after_asking_def)

definition wire_of :: "bytes \<Rightarrow> bytes \<Rightarrow> bytes" where
  "wire_of tid req = put_int BE 2 0x0001 @ put_int BE 2 (int (length req)) @ tid @ req"

definition answered :: "(bytes \<Rightarrow> string) \<Rightarrow> inet \<Rightarrow> endpoint \<Rightarrow> bytes \<Rightarrow> stun_response" where
  "answered fmt w dest wire = \<lparr>sr_ok = True, sr_ext = Some (addr_of (box_env fmt) (mapped w dest)),
     sr_src = Some (addr_of (box_env fmt) (answer_from w dest wire)),
     sr_changed = Some (addr_of (box_env fmt) (other_addr w (fst dest), other_port w (snd dest)))\<rparr>"

lemma wf_mapped: "wf_inet fmt w \<Longrightarrow> wf_endpoint (mapped w d)"
  by (cases d; cases "in_box w") (auto simp: wf_inet_def mapped_def)

lemma wf_others:
  assumes "wf_inet fmt w"
  shows "wf_endpoint (other_addr w a, other_port w p)"
    "a \<in> {in_addr1 w, in_addr2 w} \<Longrightarrow> p \<in> {in_port1 w, in_port2 w} \<Longrightarrow> wf_endpoint (answer_from w (a, p) wire)"
  using assms by (auto simp: wf_inet_def wf_endpoint_def other_addr_def other_port_def answer_from_def)

lemma exchange_eq:
  assumes "wf_inet fmt w" "a \<in> {in_addr1 w, in_addr2 w}"
  shows "in_exchange fmt wire (fmt a, p) (after_asking w n c) =
    (if lets_in w (insert (a, p) (set c)) (a, p) (answer_from w (a, p) wire)
     then (Inr (answer w (a, p) wire), after_asking w n ((a, p) # c))
     else (Inl TimeoutError, after_asking w n ((a, p) # c)))"
proof -
  have f: "find (\<lambda>x. fmt x = fmt a) [in_addr1 w, in_addr2 w] = Some a"
    using assms by (auto simp: wf_inet_def inj_on_def)
  have e: "in_contacted_update (\<lambda>_. (a, p) # c) (after_asking w n c) = after_asking w n ((a, p) # c)"
    by (simp add: after_asking_def)
  show ?thesis by (simp add: in_exchange_def Let_def f e del: find.simps)
qed

lemma inner_answered:
  assumes "wf_inet fmt w" "a \<in> {in_addr1 w, in_addr2 w}" "p \<in> {in_port1 w, in_port2 w}"
    and tid: "length tid = 16" "bytes_ok tid" and req: "length req < 65536"
  shows "inner_make_request (box_env fmt) tid req (fmt a, p) (after_asking w n c) =
    (Inr (if lets_in w (insert (a, p) (set c)) (a, p) (answer_from w (a, p) (wire_of tid req))
       then Some (concat (map (enc_attr tid) [PlainAddr 1 (mapped w (a, p)), PlainAddr 4 (answer_from w (a, p) (wire_of tid req)),
            PlainAddr 5 (other_addr w a, other_port w p)])) else None), after_asking w n ((a, p) # c))"
proof -
  let ?wire = "wire_of tid req"
  define body where "body = concat (map (enc_attr tid) [PlainAddr 1 (mapped w (a, p)), PlainAddr 4 (answer_from w (a, p) ?wire),
            PlainAddr 5 (other_addr w a, other_port w p)])"
  have hdr: "pack BE [FU 2, FU 2] [0x0001, int (length req)] = Inr (put_int BE 2 1 @ put_int BE 2 (int (length req)))"
    using req by simp
  have slice: "py_slice 4 20 ?wire = tid"
    using slice_append [of "put_int BE 2 1 @ put_int BE 2 (int (length req))" 4 tid 20 req] tid by (simp add: wire_of_def)
  have ans: "answer w (a, p) ?wire = (put_int BE 2 0x0101 @ put_int BE 2 (int (length body))) @ tid @ body"
    by (simp add: answer_def Let_def slice body_def)
  have len: "length body < 65536"
    using wf_mapped [OF assms(1), of "(a, p)"] wf_others [OF assms(1)] assms(2,3)
    by (simp add: body_def enc_attr_def wf_endpoint_def answer_from_def)
  have sl: "py_slice 4 20 (answer w (a, p) ?wire) = tid" unfolding ans by (rule slice_append) (use tid in simp_all)
  have tk: "take 4 (answer w (a, p) ?wire) = put_int BE 2 0x0101 @ put_int BE 2 (int (length body))" unfolding ans by simp
  have un: "unpack_be [FU 2, FU 2] (take 4 (answer w (a, p) ?wire)) = Inr [0x0101, int (length body)]"
    unfolding tk using len by (intro unpack_header) simp_all
  have bd: "py_slice 20 (20 + length body) (answer w (a, p) ?wire) = body"
    unfolding ans using slice_append [of "(put_int BE 2 0x0101 @ put_int BE 2 (int (length body))) @ tid" 20 body "20 + length body" "[]"] tid
    by simp
  show ?thesis unfolding body_def [symmetric]
    using exchange_eq [OF assms(1,2), of ?wire p n c]
    by (simp add: inner_make_request_def hdr box_env_def exceptS_def bindS_def sm_defs wire_of_def [symmetric] un sl bd
        del: pack.simps)
qed

text \<open>One request, with its retries: it is answered, or every retry is lost.\<close>

definition tid_of :: "inet \<Rightarrow> nat \<Rightarrow> bytes" where
  "tid_of w n = [0x21, 0x12, 0xA4, 0x42] @ in_tokens w n"

lemma retries_lost:
  assumes "wf_inet fmt w" "a \<in> {in_addr1 w, in_addr2 w}" "p \<in> {in_port1 w, in_port2 w}"
    and "length tid = 16" "bytes_ok tid" "length req < 65536"
    and "\<not> lets_in w (insert (a, p) (set c)) (a, p) (answer_from w (a, p) (wire_of tid req))"
  shows "request_retries (box_env fmt) tid req (fmt a, p) (Suc k) prev (after_asking w n c)
    = (Inr None, after_asking w n (replicate (Suc k) (a, p) @ c))"
  using assms(7)
proof (induction k arbitrary: c prev)
  case 0
  then show ?case using inner_answered [OF assms(1-6), of n c] by (simp add: bindS_def retS_def)
next
  case (Suc k)
  have again: "\<not> lets_in w (insert (a, p) (set ((a, p) # c))) (a, p) (answer_from w (a, p) (wire_of tid req))"
    using Suc.prems by simp
  have "request_retries (box_env fmt) tid req (fmt a, p) (Suc (Suc k)) prev (after_asking w n c)
    = request_retries (box_env fmt) tid req (fmt a, p) (Suc k) None (after_asking w n ((a, p) # c))"
    using inner_answered [OF assms(1-6), of n c] Suc.prems
    by (subst request_retries.simps) (simp add: bindS_def del: request_retries.simps)
  also have "\<dots> = (Inr None, after_asking w n (replicate (Suc k) (a, p) @ (a, p) # c))"
    by (rule Suc.IH [OF again])
  also have "replicate (Suc k) (a, p) @ (a, p) # c = replicate (Suc (Suc k)) (a, p) @ c"
    using replicate_app_Cons_same [of "Suc k" "(a, p)" c] by simp
  finally show ?case .
qed

lemma token_eq: "sv_token (box_env fmt) (after_asking w n c) = (Inr (in_tokens w n), after_asking w (Suc n) c)"
  by (simp add: box_env_def in_token_def after_asking_def)

lemma tid_facts: "wf_inet fmt w \<Longrightarrow> length (tid_of w n) = 16 \<and> bytes_ok (tid_of w n)"
  by (auto simp: wf_inet_def tid_of_def)

lemma request_lost:
  assumes "wf_inet fmt w" "a \<in> {in_addr1 w, in_addr2 w}" "p \<in> {in_port1 w, in_port2 w}" "length req < 65536"
    and "\<not> lets_in w (insert (a, p) (set c)) (a, p) (answer_from w (a, p) (wire_of (tid_of w n) req))"
    and "su_retries su = Suc k"
  shows "stun_request (box_env fmt) su (fmt a, p) req (after_asking w n c)
    = (Inr (empty_response False), after_asking w (Suc n) (replicate (Suc k) (a, p) @ c))"
  using retries_lost [OF assms(1-3) conjunct1 [OF tid_facts [OF assms(1)]] conjunct2 [OF tid_facts [OF assms(1)]] assms(4,5)] assms(6)
  by (simp add: stun_request_def bindS_def token_eq Let_def tid_of_def retS_def del: request_retries.simps)

lemma request_answered:
  assumes "wf_inet fmt w" "a \<in> {in_addr1 w, in_addr2 w}" "p \<in> {in_port1 w, in_port2 w}" "length req < 65536"
    and lets: "lets_in w (insert (a, p) (set c)) (a, p) (answer_from w (a, p) (wire_of (tid_of w n) req))"
    and k: "su_retries su = Suc k"
  shows "stun_request (box_env fmt) su (fmt a, p) req (after_asking w n c)
    = (Inr (answered fmt w (a, p) (wire_of (tid_of w n) req)), after_asking w (Suc n) ((a, p) # c))"
proof -
  let ?tid = "tid_of w n"
  let ?as = "[PlainAddr 1 (mapped w (a, p)), PlainAddr 4 (answer_from w (a, p) (wire_of ?tid req)),
            PlainAddr 5 (other_addr w a, other_port w p)]"
  have t: "length ?tid = 16" "bytes_ok ?tid" using tid_facts [OF assms(1)] by auto
  have wf: "\<forall>x \<in> set ?as. wf_attr x"
    using wf_mapped [OF assms(1)] wf_others [OF assms(1)] assms(2,3) by simp
  have parsed: "parse_attrs (box_env fmt) ?tid (concat (map (enc_attr ?tid) ?as)) 0
      (int (length (concat (map (enc_attr ?tid) ?as)))) (empty_response True) = Inr (answered fmt w (a, p) (wire_of ?tid req))"
    using parse_attrs_enc [OF t(2,1) wf, of "box_env fmt" "[]" "empty_response True"]
    by (simp add: answered_def empty_response_def attr_field_def)
  have "request_retries (box_env fmt) ?tid req (fmt a, p) (Suc k) (Some []) (after_asking w (Suc n) c)
    = (Inr (Some (concat (map (enc_attr ?tid) ?as))), after_asking w (Suc n) ((a, p) # c))"
    using inner_answered [OF assms(1-3) t assms(4), of "Suc n" c] lets
    by (subst request_retries.simps) (simp add: bindS_def retS_def del: request_retries.simps)
  then show ?thesis using parsed k
    by (simp add: stun_request_def bindS_def token_eq Let_def tid_of_def [symmetric] liftS_def del: request_retries.simps list.map concat.simps
        flip: tid_of_def [unfolded append_Cons append_Nil])
qed

lemma plain_request: "wf_inet fmt w \<Longrightarrow> answer_from w d (wire_of (tid_of w n) []) = d"
  using tid_facts [of fmt w n] by (simp add: answer_from_def wants_def wire_of_def)

lemma flags_sent:
  assumes "wf_inet fmt w" "0 \<le> f" "f < 2 ^ 32"
  shows "wants flag (wire_of (tid_of w n) (change_request f)) \<longleftrightarrow> f AND flag \<noteq> 0" "length (change_request f) = 8"
proof -
  have c: "change_request f = (put_int BE 2 3 @ put_int BE 2 4) @ put_int BE 4 f"
    using assms(2,3) by (simp add: change_request_def fromR_def)
  have "wire_of (tid_of w n) (change_request f)
      = (put_int BE 2 1 @ put_int BE 2 8 @ tid_of w n @ put_int BE 2 3 @ put_int BE 2 4) @ put_int BE 4 f"
    by (simp add: wire_of_def c)
  then have "drop 24 (wire_of (tid_of w n) (change_request f)) = put_int BE 4 f"
      "length (wire_of (tid_of w n) (change_request f)) = 28"
    using tid_facts [OF assms(1), of n] by simp_all
  then show "wants flag (wire_of (tid_of w n) (change_request f)) \<longleftrightarrow> f AND flag \<noteq> 0"
    using assms(2,3) by (simp add: wants_def get_put_int)
  show "length (change_request f) = 8" by (simp add: c)
qed

lemma change_both:
  "wf_inet fmt w \<Longrightarrow> answer_from w d (wire_of (tid_of w n) (change_request 6)) = (other_addr w (fst d), other_port w (snd d))"
  by (simp add: answer_from_def flags_sent)

lemma change_port:
  "wf_inet fmt w \<Longrightarrow> answer_from w d (wire_of (tid_of w n) (change_request 2)) = (fst d, other_port w (snd d))"
  by (simp add: answer_from_def flags_sent)

section \<open>The kind of NAT that is detected\<close>

fun detected :: "nat_box \<Rightarrow> nat_type" where
  "detected BoxBlocked = NatBlocked"
| "detected BoxOpen = OpenInternet"
| "detected BoxFirewall = SymmetricUdpFw"
| "detected BoxFull = FullConeNat"
| "detected BoxRestricted = RestrictedNat"
| "detected BoxPort = RestrictedNat"
| "detected BoxSymmetric = SymmetricNat"

text \<open>The external address in the last response, which is what \<open>get_info\<close> shows.\<close>

definition shown_ext :: "(bytes \<Rightarrow> string) \<Rightarrow> inet \<Rightarrow> stun_address option" where
  "shown_ext fmt w = (if in_box w \<in> {BoxBlocked, BoxFirewall} then None
     else Some (addr_of (box_env fmt) (mapped w
       (if in_box w = BoxSymmetric then (in_addr2 w, in_port2 w) else (in_addr1 w, in_port1 w)))))"

lemma own_ip:
  assumes "wf_inet fmt w"
  shows "fmt (fst (mapped w d)) = fmt (fst (in_client w)) \<longleftrightarrow> in_box w \<in> {BoxOpen, BoxFirewall}"
  using assms by (cases "in_box w"; cases d) (auto simp: wf_inet_def mapped_def inj_on_def)

lemma asked_first:
  assumes "wf_inet fmt w" "su_retries su = Suc k"
  shows "stun_request (box_env fmt) su (fmt (in_addr1 w), in_port1 w) [] (after_asking w n c) =
    (if in_box w = BoxBlocked then (Inr (empty_response False), after_asking w (Suc n) (replicate (Suc k) (in_addr1 w, in_port1 w) @ c))
     else (Inr (answered fmt w (in_addr1 w, in_port1 w) (wire_of (tid_of w n) [])), after_asking w (Suc n) ((in_addr1 w, in_port1 w) # c)))"
  using request_lost [OF assms(1) _ _ _ _ assms(2), of "in_addr1 w" "in_port1 w" "[]" c n]
    request_answered [OF assms(1) _ _ _ _ assms(2), of "in_addr1 w" "in_port1 w" "[]" c n]
  by (auto simp: plain_request [OF assms(1)] lets_in_def split: nat_box.splits)

lemma asked_change:
  assumes "wf_inet fmt w" "su_retries su = Suc k" "set c = {(in_addr1 w, in_port1 w)}"
  shows "\<exists>r c'. stun_request (box_env fmt) su (fmt (in_addr1 w), in_port1 w) (change_request 6) (after_asking w n c) =
      (Inr r, after_asking w (Suc n) c') \<and> set c' = {(in_addr1 w, in_port1 w)} \<and> sr_ok r = (in_box w \<in> {BoxOpen, BoxFull})
      \<and> sr_ext r = (if sr_ok r then Some (addr_of (box_env fmt) (mapped w (in_addr1 w, in_port1 w))) else None)"
proof -
  have d: "in_addr1 w \<noteq> in_addr2 w" "in_port1 w \<noteq> in_port2 w" using assms(1) by (auto simp: wf_inet_def)
  have lets: "lets_in w (insert (in_addr1 w, in_port1 w) (set c)) (in_addr1 w, in_port1 w)
      (answer_from w (in_addr1 w, in_port1 w) (wire_of (tid_of w n) (change_request 6))) \<longleftrightarrow> in_box w \<in> {BoxOpen, BoxFull}"
    using d assms(3) by (auto simp: change_both [OF assms(1)] lets_in_def other_addr_def other_port_def split: nat_box.splits)
  show ?thesis
  proof (cases "in_box w \<in> {BoxOpen, BoxFull}")
    case True
    then have eq: "stun_request (box_env fmt) su (fmt (in_addr1 w), in_port1 w) (change_request 6) (after_asking w n c) =
        (Inr (answered fmt w (in_addr1 w, in_port1 w) (wire_of (tid_of w n) (change_request 6))), after_asking w (Suc n) ((in_addr1 w, in_port1 w) # c))"
      by (intro request_answered [OF assms(1) _ _ _ _ assms(2)]) (simp_all only: lets, simp_all add: flags_sent [OF assms(1)])
    show ?thesis by (intro exI conjI, rule eq) (use True assms(3) in \<open>auto simp: answered_def\<close>)
  next
    case False
    then have eq: "stun_request (box_env fmt) su (fmt (in_addr1 w), in_port1 w) (change_request 6) (after_asking w n c) =
        (Inr (empty_response False), after_asking w (Suc n) (replicate (Suc k) (in_addr1 w, in_port1 w) @ c))"
      by (intro request_lost [OF assms(1) _ _ _ _ assms(2)]) (simp_all only: lets, simp_all add: flags_sent [OF assms(1)])
    show ?thesis by (intro exI conjI, rule eq) (use False assms(3) in \<open>simp_all add: empty_response_def set_replicate_conv_if\<close>)
  qed
qed

lemma asked_other:
  assumes "wf_inet fmt w" "su_retries su = Suc k" "in_box w \<noteq> BoxBlocked"
  shows "stun_request (box_env fmt) su (fmt (in_addr2 w), in_port2 w) [] (after_asking w n c) =
    (Inr (answered fmt w (in_addr2 w, in_port2 w) (wire_of (tid_of w n) [])), after_asking w (Suc n) ((in_addr2 w, in_port2 w) # c))"
  using request_answered [OF assms(1) _ _ _ _ assms(2), of "in_addr2 w" "in_port2 w" "[]" c n] assms(3)
  by (simp add: plain_request [OF assms(1)] lets_in_def split: nat_box.splits)

lemma asked_port:
  assumes "wf_inet fmt w" "su_retries su = Suc k" "in_box w \<in> {BoxRestricted, BoxPort}" "(in_addr2 w, in_port2 w) \<in> set c"
  shows "\<exists>w' wire. stun_request (box_env fmt) su (fmt (in_addr2 w), in_port1 w) (change_request 2) (after_asking w n c) =
    (Inr (answered fmt w (in_addr2 w, in_port1 w) wire), w')"
proof -
  have "lets_in w (insert (in_addr2 w, in_port1 w) (set c)) (in_addr2 w, in_port1 w)
      (answer_from w (in_addr2 w, in_port1 w) (wire_of (tid_of w n) (change_request 2)))"
    using assms(3,4) by (auto simp: change_port [OF assms(1)] lets_in_def other_port_def)
  then show ?thesis
    using request_answered [OF assms(1) _ _ _ _ assms(2), of "in_addr2 w" "in_port1 w" "change_request 2" c n]
    by (auto simp: flags_sent [OF assms(1)])
qed

text \<open>
  C25. Behind every kind of box the detection ends with one answer, whatever the addresses and the number of
  retries: a blocked network, the open internet, a symmetric firewall, a full cone, a restricted and a
  symmetric NAT are told by their names.  A port restricted NAT is reported as a restricted one: the
  request to change the port goes to the other address of the server, whose other port has just been
  contacted, so that the answer passes the box.
\<close>

theorem nat_detected:
  assumes "wf_inet fmt w" "in_contacted w = []" "su_port su = in_port1 w" "0 < su_retries su"
  shows "\<exists>r w'. get_nat_type (box_env fmt) su (fmt (in_addr1 w)) (fmt (fst (in_client w))) w = (Inr (detected (in_box w), r), w')
    \<and> sr_ext r = shown_ext fmt w"
proof -
  let ?d = "(in_addr1 w, in_port1 w)" and ?n = "in_asked w"
  obtain k where k: "su_retries su = Suc k" using assms(4) gr0_conv_Suc by blast
  have w: "w = after_asking w ?n []" using after_refl [of w] assms(2) by simp
  have first: "stun_request (box_env fmt) su (fmt (in_addr1 w), in_port1 w) [] w =
    (if in_box w = BoxBlocked then (Inr (empty_response False), after_asking w (Suc ?n) (replicate (Suc k) ?d))
     else (Inr (answered fmt w ?d (wire_of (tid_of w ?n) [])), after_asking w (Suc ?n) [?d]))"
    using asked_first [OF assms(1) k, of ?n "[]"] w by simp
  obtain r c where change: "stun_request (box_env fmt) su (fmt (in_addr1 w), in_port1 w) (change_request 6) (after_asking w (Suc ?n) [?d]) =
      (Inr r, after_asking w (Suc (Suc ?n)) c)" "sr_ok r = (in_box w \<in> {BoxOpen, BoxFull})"
      "sr_ext r = (if sr_ok r then Some (addr_of (box_env fmt) (mapped w ?d)) else None)"
    using asked_change [OF assms(1) k, of "[?d]" "Suc ?n"] unfolding list.set by blast
  let ?e = "(in_addr2 w, in_port2 w)"
  obtain w' wire where port: "in_box w \<in> {BoxRestricted, BoxPort} \<Longrightarrow>
      stun_request (box_env fmt) su (fmt (in_addr2 w), in_port1 w) (change_request 2) (after_asking w (Suc (Suc (Suc ?n))) (?e # c)) =
      (Inr (answered fmt w (in_addr2 w, in_port1 w) wire), w')"
    using asked_port [OF assms(1) k, of "?e # c" "Suc (Suc (Suc ?n))"] by (meson list.set_intros(1))
  have ext: "sr_ext (answered fmt w x y) = Some (addr_of (box_env fmt) (mapped w x))" "sr_ok (answered fmt w x y)"
      "sr_changed (answered fmt w ?d y) = Some (addr_of (box_env fmt) ?e)" for x y
    by (simp_all add: answered_def other_addr_def other_port_def)
  have ip: "sa_ip (addr_of (box_env fmt) ep) = fmt (fst ep)" "sa_port (addr_of (box_env fmt) ep) = snd ep" for ep
    by (simp_all add: addr_of_def box_env_def)
  have moved: "addr_of (box_env fmt) (mapped w ?e) = addr_of (box_env fmt) (mapped w ?d) \<longleftrightarrow> in_box w \<noteq> BoxSymmetric"
    using assms(1) by (cases "in_box w") (auto simp: addr_of_def mapped_def wf_inet_def prod_eq_iff)
  have same: "mapped w (in_addr2 w, in_port1 w) = mapped w ?d" if "in_box w \<noteq> BoxSymmetric"
    using that by (cases "in_box w") (simp_all add: mapped_def)
  show ?thesis
    by (cases "in_box w")
      (simp_all add: get_nat_type_def assms(3) bindS_def first change(1) change(2,3) ext ip own_ip [OF assms(1)]
        asked_other [OF assms(1) k] port moved same shown_ext_def retS_def empty_response_def)
qed

definition example_fmt :: "bytes \<Rightarrow> string" where
  "example_fmt bs = replicate (nat (hd bs)) CHR ''x''"

definition example_net :: "nat_box \<Rightarrow> inet" where
  "example_net box = \<lparr>in_box = box, in_client = ([3, 0, 0, 0], 7), in_public = ([4, 0, 0, 0], 8),
     in_public2 = (\<lambda>d. ([4, 0, 0, 0], if fst d = [1, 0, 0, 0] then 8 else 9)), in_addr1 = [1, 0, 0, 0], in_addr2 = [2, 0, 0, 0],
     in_port1 = 5, in_port2 = 6, in_tokens = (\<lambda>n. replicate 12 0), in_asked = 0, in_contacted = []\<rparr>"

lemma wf_example_net: "wf_inet example_fmt (example_net b)"
  by (simp add: wf_inet_def example_net_def wf_endpoint_def example_fmt_def inj_on_def)

lemma nat_detected_witness:
  "\<exists>r w'. get_nat_type (box_env example_fmt) \<lparr>su_host = ''s'', su_port = 5, su_retries = 2, su_ip = []\<rparr> ''x'' ''xxx'' (example_net BoxSymmetric)
    = (Inr (SymmetricNat, r), w') \<and> sr_ext r = Some \<lparr>sa_ip = ''xxxx'', sa_port = 9\<rparr>"
  using nat_detected [OF wf_example_net [of BoxSymmetric], of "\<lparr>su_host = ''s'', su_port = 5, su_retries = 2, su_ip = []\<rparr>"]
  by (simp add: example_net_def example_fmt_def shown_ext_def mapped_def addr_of_def box_env_def numeral_eq_Suc)

text \<open>
  The padding of RFC 5389 to a multiple of four bytes is not skipped: after an attribute of one byte, the
  mapped address is not found.
\<close>

lemma padding_hides_address:
  "(case parse_attrs (box_env example_fmt) (replicate 16 0)
      ([0x80, 0x22, 0, 1, 75, 0, 0, 0] @ [0, 1, 0, 8, 0, 1, 0, 8, 4, 0, 0, 0]) 0 20 (empty_response True)
    of Inr r \<Rightarrow> sr_ok r \<and> sr_ext r = None | Inl e \<Rightarrow> False)"
  by (simp add: parse_attrs.simps unpack_be_def unpack_from_def py_slice_def attr_field_def empty_response_def Let_def get_int_def)

end
