(* ===== verification/UserGpio.thy ===== *)
theory UserGpio
  imports PyText PyFloat
begin

text \<open>
  The user-defined GPIO channels (\<open>kvmd/apps/kvmd/ugpio.py\<close>): inputs, outputs with their exclusive
  regions, the switch and pulse actions with the sleeps at which other coroutines run, the polling of
  the state and the view for the web interface.  The drivers are an environment over a world of their
  own; a call of a driver is one moment.  Delays are finite floats.
\<close>

section \<open>Data\<close>

datatype gpio_mode = ModeInput | ModeOutput

record gpio_channel =
  gc_driver :: string
  gc_pin :: string
  gc_mode :: gpio_mode
  gc_inverted :: bool
  gc_debounce :: rat
  gc_switch :: bool
  gc_initial :: "bool option"
  gc_delay :: rat
  gc_min_delay :: rat
  gc_max_delay :: rat
  gc_busy_delay :: rat

record 'w gpio_env =
  gd_register_input :: "string \<Rightarrow> string \<Rightarrow> rat \<Rightarrow> ('w, unit) sm"
  gd_register_output :: "string \<Rightarrow> string \<Rightarrow> bool option \<Rightarrow> ('w, unit) sm"
  gd_prepare :: "string \<Rightarrow> ('w, unit) sm"
  gd_read :: "string \<Rightarrow> string \<Rightarrow> ('w, bool) sm"
  gd_write :: "string \<Rightarrow> string \<Rightarrow> bool \<Rightarrow> ('w, unit) sm"
  gd_cleanup :: "string \<Rightarrow> ('w, unit) sm"

record gpio_in =
  gi_pin :: string
  gi_inverted :: bool
  gi_driver :: string

text \<open>
  What a running action awaits: the sleep after a switch, the sleep while the line is held, or the
  sleep in the \<open>finally\<close> block with the exception that is raised at its end.
\<close>

datatype gpio_await = Switched | Held | Released "pyerr option"

record gpio_out =
  go_pin :: string
  go_inverted :: bool
  go_driver :: string
  go_switch :: bool
  go_pulse_delay :: rat
  go_min_delay :: rat
  go_max_delay :: rat
  go_busy_delay :: rat
  go_busy :: bool
  go_await :: "(gpio_await \<times> rat \<times> bool) option"

record in_state =
  is_online :: bool
  is_state :: bool

record out_state =
  os_online :: bool
  os_state :: bool
  os_busy :: bool

record io_state =
  io_inputs :: "(pytext, in_state) dict"
  io_outputs :: "(pytext, out_state) dict"

record out_scheme =
  sc_switch :: bool
  sc_delay :: rat
  sc_min_delay :: rat
  sc_max_delay :: rat
  sc_driver :: string
  sc_pin :: string

record gpio_scheme =
  sc_inputs :: "(pytext, string \<times> string) dict"
  sc_outputs :: "(pytext, out_scheme) dict"

record 'w ugpio =
  ug_drivers :: "string list"
  ug_inputs :: "(pytext, gpio_in) dict"
  ug_outputs :: "(pytext, gpio_out) dict"
  ug_notifier :: "nat list"
  ug_world :: 'w

section \<open>Inputs\<close>

definition driverS :: "('w, 'a) sm \<Rightarrow> ('w ugpio, 'a) sm" where
  "driverS m u = (case m (ug_world u) of (r, w) \<Rightarrow> (r, u\<lparr>ug_world := w\<rparr>))"

definition notifyG :: "nat \<Rightarrow> ('w ugpio, unit) sm" where
  "notifyG flags = modifyS (\<lambda>u. u\<lparr>ug_notifier := ug_notifier u @ [flags]\<rparr>)"

definition input_scheme :: "gpio_in \<Rightarrow> string \<times> string" where
  "input_scheme i = (gi_driver i, gi_pin i)"

definition offline_is :: "'a \<Rightarrow> pyerr \<Rightarrow> ('s, 'a) sm option" where
  "offline_is x e = (if e = GpioDriverOfflineError then Some (retS x) else None)"

definition input_state :: "'w gpio_env \<Rightarrow> gpio_in \<Rightarrow> ('w ugpio, in_state) sm" where
  "input_state env i =
     exceptS (bindS (driverS (gd_read env (gi_driver i) (gi_pin i))) (\<lambda>v.
        retS \<lparr>is_online = True, is_state = (v \<noteq> gi_inverted i)\<rparr>))
      (offline_is \<lparr>is_online = False, is_state = False\<rparr>)"

section \<open>Outputs\<close>

definition is_const :: "gpio_out \<Rightarrow> bool" where
  "is_const o1 = (\<not> go_switch o1 \<and> go_pulse_delay o1 = 0)"

definition output_scheme :: "gpio_out \<Rightarrow> out_scheme" where
  "output_scheme o1 = \<lparr>sc_switch = go_switch o1, sc_delay = go_pulse_delay o1, sc_min_delay = go_min_delay o1,
     sc_max_delay = go_max_delay o1, sc_driver = go_driver o1, sc_pin = go_pin o1\<rparr>"

definition output_read :: "'w gpio_env \<Rightarrow> gpio_out \<Rightarrow> ('w ugpio, bool) sm" where
  "output_read env o1 = bindS (driverS (gd_read env (go_driver o1) (go_pin o1))) (\<lambda>v. retS (v \<noteq> go_inverted o1))"

definition output_write :: "'w gpio_env \<Rightarrow> gpio_out \<Rightarrow> bool \<Rightarrow> ('w ugpio, unit) sm" where
  "output_write env o1 st = driverS (gd_write env (go_driver o1) (go_pin o1) (st \<noteq> go_inverted o1))"

definition output_state :: "'w gpio_env \<Rightarrow> gpio_out \<Rightarrow> ('w ugpio, out_state) sm" where
  "output_state env o1 =
     (if go_busy o1 then retS \<lparr>os_online = True, os_state = False, os_busy = True\<rparr>
      else exceptS (bindS (output_read env o1) (\<lambda>v. retS \<lparr>os_online = True, os_state = v, os_busy = False\<rparr>))
        (offline_is \<lparr>os_online = False, os_state = False, os_busy = False\<rparr>))"

definition set_output :: "pytext \<Rightarrow> (gpio_out \<Rightarrow> gpio_out) \<Rightarrow> ('w ugpio, unit) sm" where
  "set_output ch f = modifyS (\<lambda>u. u\<lparr>ug_outputs := map (\<lambda>(c, x). if c = ch then (c, f x) else (c, x)) (ug_outputs u)\<rparr>)"

subsection \<open>The exclusive region\<close>

definition region_enter :: "pytext \<Rightarrow> bool \<Rightarrow> ('w ugpio, unit) sm" where
  "region_enter ch busy =
     (if busy then raiseS GpioChannelIsBusyError
      else bindS (set_output ch (\<lambda>x. x\<lparr>go_busy := True\<rparr>)) (\<lambda>_. notifyG 0))"

definition region_exit :: "pytext \<Rightarrow> ('w ugpio, unit) sm" where
  "region_exit ch = bindS (set_output ch (\<lambda>x. x\<lparr>go_busy := False, go_await := None\<rparr>)) (\<lambda>_. notifyG 0)"

subsection \<open>Actions\<close>

text \<open>
  An action runs up to its first sleep, and from a sleep to the next: the result is the sleep it
  is in then with its time, or \<open>None\<close> at its end.
\<close>

definition inner_switch :: "'w gpio_env \<Rightarrow> gpio_out \<Rightarrow> bool \<Rightarrow> ('w ugpio, (gpio_await \<times> rat) option) sm" where
  "inner_switch env o1 st = bindS (output_write env o1 st) (\<lambda>_. retS (Some (Switched, go_busy_delay o1)))"

definition pulse_finally :: "'w gpio_env \<Rightarrow> gpio_out \<Rightarrow> pyerr option \<Rightarrow> ('w ugpio, (gpio_await \<times> rat) option) sm" where
  "pulse_finally env o1 pending =
     bindS (output_write env o1 False) (\<lambda>_. retS (Some (Released pending, go_busy_delay o1)))"

definition inner_pulse :: "'w gpio_env \<Rightarrow> gpio_out \<Rightarrow> rat \<Rightarrow> ('w ugpio, (gpio_await \<times> rat) option) sm" where
  "inner_pulse env o1 delay =
     exceptS (bindS (output_write env o1 True) (\<lambda>_. retS (Some (Held, delay))))
       (\<lambda>e. Some (pulse_finally env o1 (Some e)))"

fun woken :: "'w gpio_env \<Rightarrow> gpio_out \<Rightarrow> gpio_await \<Rightarrow> ('w ugpio, (gpio_await \<times> rat) option) sm" where
  "woken env o1 Switched = retS None"
| "woken env o1 Held = pulse_finally env o1 None"
| "woken env o1 (Released None) = retS None"
| "woken env o1 (Released (Some e)) = raiseS e"

text \<open>
  The region is left when the action ends or raises.  With \<open>wait\<close> the exception reaches the caller;
  without it the caller has returned as soon as the region was entered, and the task only logs.
\<close>

definition settle :: "pytext \<Rightarrow> bool \<Rightarrow> ('w ugpio, (gpio_await \<times> rat) option) sm \<Rightarrow> ('w ugpio, unit) sm" where
  "settle ch wait m =
     bindS (exceptS (bindS m (\<lambda>r. retS (Inr r))) (\<lambda>e. Some (retS (Inl e)))) (\<lambda>r. case r of
       Inr (Some (a, d)) \<Rightarrow> set_output ch (\<lambda>x. x\<lparr>go_await := Some (a, d, wait)\<rparr>)
     | Inr None \<Rightarrow> region_exit ch
     | Inl e \<Rightarrow> bindS (region_exit ch) (\<lambda>_. if wait then raiseS e else retS ()))"

definition run_action ::
  "pytext \<Rightarrow> gpio_out \<Rightarrow> bool \<Rightarrow> ('w ugpio, (gpio_await \<times> rat) option) sm \<Rightarrow> ('w ugpio, unit) sm" where
  "run_action ch o1 wait m = bindS (region_enter ch (go_busy o1)) (\<lambda>_. settle ch wait m)"

definition output_switch :: "'w gpio_env \<Rightarrow> pytext \<Rightarrow> gpio_out \<Rightarrow> bool \<Rightarrow> bool \<Rightarrow> ('w ugpio, unit) sm" where
  "output_switch env ch o1 st wait =
     (if \<not> go_switch o1 then raiseS GpioSwitchNotSupported
      else run_action ch o1 wait (inner_switch env o1 st))"

definition pulse_time :: "gpio_out \<Rightarrow> rat \<Rightarrow> rat" where
  "pulse_time o1 delay = min (max (if delay \<noteq> 0 then delay else go_pulse_delay o1) (go_min_delay o1)) (go_max_delay o1)"

definition output_pulse :: "'w gpio_env \<Rightarrow> pytext \<Rightarrow> gpio_out \<Rightarrow> rat \<Rightarrow> bool \<Rightarrow> ('w ugpio, unit) sm" where
  "output_pulse env ch o1 delay wait =
     (if go_pulse_delay o1 = 0 then raiseS GpioPulseNotSupported
      else run_action ch o1 wait (inner_pulse env o1 (pulse_time o1 delay)))"

section \<open>The facade\<close>

definition mk_output :: "gpio_channel \<Rightarrow> gpio_out result" where
  "mk_output c =
     (let o1 = \<lparr>go_pin = gc_pin c, go_inverted = gc_inverted c, go_driver = gc_driver c, go_switch = gc_switch c,
           go_pulse_delay = 0, go_min_delay = 0, go_max_delay = 0, go_busy_delay = gc_busy_delay c, go_busy = False, go_await = None\<rparr>
      in if gc_delay c = 0 then Inr o1
         else assertR (gc_max_delay c > 0) (Inr (o1\<lparr>
           go_pulse_delay := min (max (gc_delay c) (gc_min_delay c)) (gc_max_delay c),
           go_min_delay := gc_min_delay c, go_max_delay := gc_max_delay c\<rparr>)))"

definition add_channel :: "'w gpio_env \<Rightarrow> pytext \<times> gpio_channel \<Rightarrow> ('w ugpio, unit) sm" where
  "add_channel env = (\<lambda>(ch, c). getS (\<lambda>u.
     if gc_driver c \<notin> set (ug_drivers u) then raiseS KeyError
     else case gc_mode c of
       ModeInput \<Rightarrow>
         bindS (driverS (gd_register_input env (gc_driver c) (gc_pin c) (gc_debounce c))) (\<lambda>_.
         modifyS (\<lambda>u. u\<lparr>ug_inputs := AList.update ch
           \<lparr>gi_pin = gc_pin c, gi_inverted = gc_inverted c, gi_driver = gc_driver c\<rparr> (ug_inputs u)\<rparr>))
     | ModeOutput \<Rightarrow>
         bindS (liftS (mk_output c)) (\<lambda>o1.
         bindS (driverS (gd_register_output env (gc_driver c) (gc_pin c) (map_option (\<lambda>i. i \<noteq> gc_inverted c) (gc_initial c)))) (\<lambda>_.
         modifyS (\<lambda>u. u\<lparr>ug_outputs := AList.update ch o1 (ug_outputs u)\<rparr>)))))"

definition ugpio_init :: "'w gpio_env \<Rightarrow> string list \<Rightarrow> (pytext \<times> gpio_channel) list \<Rightarrow> 'w \<Rightarrow> unit result \<times> 'w ugpio" where
  "ugpio_init env drivers channels w =
     forS channels (add_channel env)
       \<lparr>ug_drivers = drivers, ug_inputs = [], ug_outputs = [], ug_notifier = [], ug_world = w\<rparr>"

definition ug_sysprep :: "'w gpio_env \<Rightarrow> ('w ugpio, unit) sm" where
  "ug_sysprep env = getS (\<lambda>u. forS (ug_drivers u) (\<lambda>d. driverS (gd_prepare env d)))"

definition ug_cleanup :: "'w gpio_env \<Rightarrow> ('w ugpio, unit) sm" where
  "ug_cleanup env = getS (\<lambda>u. forS (ug_drivers u) (\<lambda>d. exceptS (driverS (gd_cleanup env d)) (\<lambda>e. Some (retS ()))))"

definition ug_switch :: "'w gpio_env \<Rightarrow> pytext \<Rightarrow> bool \<Rightarrow> bool \<Rightarrow> ('w ugpio, unit) sm" where
  "ug_switch env ch st wait = getS (\<lambda>u. case map_of (ug_outputs u) ch of
       None \<Rightarrow> raiseS GpioChannelNotFoundError
     | Some o1 \<Rightarrow> output_switch env ch o1 st wait)"

definition ug_pulse :: "'w gpio_env \<Rightarrow> pytext \<Rightarrow> rat \<Rightarrow> bool \<Rightarrow> ('w ugpio, unit) sm" where
  "ug_pulse env ch delay wait = getS (\<lambda>u. case map_of (ug_outputs u) ch of
       None \<Rightarrow> raiseS GpioChannelNotFoundError
     | Some o1 \<Rightarrow> output_pulse env ch o1 delay wait)"

text \<open>The sleep of the action of a channel ends.\<close>

definition ug_wake :: "'w gpio_env \<Rightarrow> pytext \<Rightarrow> ('w ugpio, unit) sm" where
  "ug_wake env ch = getS (\<lambda>u. case map_of (ug_outputs u) ch of
       None \<Rightarrow> retS ()
     | Some o1 \<Rightarrow> (case go_await o1 of
         None \<Rightarrow> retS ()
       | Some (a, d, wait) \<Rightarrow> settle ch wait (woken env o1 a)))"

section \<open>The state shown\<close>

fun collectS :: "('k \<times> 'v) list \<Rightarrow> ('v \<Rightarrow> ('s, 'r) sm) \<Rightarrow> ('s, ('k \<times> 'r) list) sm" where
  "collectS [] f = retS []"
| "collectS ((k, v) # kvs) f = bindS (f v) (\<lambda>r. bindS (collectS kvs f) (\<lambda>rs. retS ((k, r) # rs)))"

definition shown_outputs :: "'w ugpio \<Rightarrow> (pytext, gpio_out) dict" where
  "shown_outputs u = filter (\<lambda>(ch, o1). \<not> is_const o1) (ug_outputs u)"

definition get_io_state :: "'w gpio_env \<Rightarrow> ('w ugpio, io_state) sm" where
  "get_io_state env = getS (\<lambda>u.
     bindS (collectS (ug_inputs u) (input_state env)) (\<lambda>ins.
     bindS (collectS (shown_outputs u) (output_state env)) (\<lambda>outs.
     retS \<lparr>io_inputs = ins, io_outputs = outs\<rparr>)))"

definition make_scheme :: "'w ugpio \<Rightarrow> gpio_scheme" where
  "make_scheme u = \<lparr>sc_inputs = map (\<lambda>(ch, i). (ch, input_scheme i)) (ug_inputs u),
     sc_outputs = map (\<lambda>(ch, o1). (ch, output_scheme o1)) (shown_outputs u)\<rparr>"

definition trigger_state :: "('w ugpio, unit) sm" where
  "trigger_state = notifyG 1"

text \<open>
  One turn of the loop of \<open>poll_state\<close>, which runs when there is a notification: the queue is drained,
  and the state is yielded in full or as the difference with the previous one, when there is any.
\<close>

datatype io_yield = FullState io_state | DiffState io_state

definition changed :: "(pytext, 'a) dict \<Rightarrow> (pytext, 'a) dict \<Rightarrow> (pytext, 'a) dict" where
  "changed prev new = filter (\<lambda>(ch, x). map_of prev ch \<noteq> Some x) new"

definition io_poll :: "'w gpio_env \<Rightarrow> io_state \<Rightarrow> ('w ugpio, io_yield option \<times> io_state) sm" where
  "io_poll env prev = getS (\<lambda>u.
     let full = (\<exists>m \<in> set (ug_notifier u). m > 0) in
     bindS (modifyS (\<lambda>u. u\<lparr>ug_notifier := []\<rparr>)) (\<lambda>_.
     bindS (get_io_state env) (\<lambda>new.
       if full then retS (Some (FullState new), new)
       else (let ins = changed (io_inputs prev) (io_inputs new); outs = changed (io_outputs prev) (io_outputs new) in
         if ins = [] \<and> outs = [] then retS (None, prev)
         else retS (Some (DiffState \<lparr>io_inputs = ins, io_outputs = outs\<rparr>), new)))))"

section \<open>The view\<close>

datatype view_item =
    LabelItem pytext
  | InputItem pytext pytext
  | OutputItem pytext bool bool pytext

datatype view_title = TitleText pytext | TitleItems "pytext list"

fun split_max :: "int \<Rightarrow> nat \<Rightarrow> pytext \<Rightarrow> pytext list" where
  "split_max sep 0 t = [t]"
| "split_max sep (Suc n) t =
     (if sep \<notin> set t then [t] else takeWhile (\<lambda>c. c \<noteq> sep) t # split_max sep n (tl (dropWhile (\<lambda>c. c \<noteq> sep) t)))"

definition hash_sign :: int where "hash_sign = 35"
definition bar_sign :: int where "bar_sign = 124"
definition comma_sign :: int where "comma_sign = 44"

definition item_parts :: "pytext \<Rightarrow> pytext list" where
  "item_parts item = map strip (split_max bar_sign 2 item)"

definition is_label :: "pytext \<Rightarrow> bool" where
  "is_label item = (item = [] \<or> hd item = hash_sign)"

definition item_label :: "pytext \<Rightarrow> view_item" where
  "item_label item = LabelItem (strip (drop 1 item))"

definition view_colors :: "pytext list" where
  "view_colors = map text_of [''green'', ''yellow'', ''red'', ''blue'', ''cyan'', ''magenta'', ''pink'', ''white'']"

definition item_input :: "pytext list \<Rightarrow> view_item" where
  "item_input parts =
     InputItem (parts ! 0)
       (if length parts > 1 \<and> parts ! 1 \<in> set view_colors then parts ! 1 else text_of ''green'')"

definition item_output :: "pytext list \<Rightarrow> view_item" where
  "item_output parts =
     (if length parts = 2 then OutputItem (parts ! 0) False False (parts ! 1)
      else if length parts = 3 then
        (let opts = split_max comma_sign (length (parts ! 1)) (parts ! 1) in
         OutputItem (parts ! 0) (text_of ''confirm'' \<in> set opts) (text_of ''hide'' \<in> set opts) (parts ! 2))
      else OutputItem (parts ! 0) False False (text_of ''Click''))"

definition view_title_items :: "'w ugpio \<Rightarrow> view_title \<Rightarrow> view_item list" where
  "view_title_items u title = (case title of
       TitleText t \<Rightarrow> [item_label (hash_sign # t)]
     | TitleItems items \<Rightarrow> concat (map (\<lambda>item.
         if is_label item then [item_label item]
         else if dict_has (ug_inputs u) (item_parts item ! 0) then [item_input (item_parts item)] else []) items))"

definition view_row :: "'w ugpio \<Rightarrow> pytext list \<Rightarrow> view_item list option" where
  "view_row u row =
     (if row = [] then None
      else Some (concat (map (\<lambda>item.
        if is_label item then [item_label item]
        else if dict_has (ug_inputs u) (item_parts item ! 0) then [item_input (item_parts item)]
        else if dict_has (ug_outputs u) (item_parts item ! 0) then [item_output (item_parts item)] else [])
       (map strip row))))"

definition view_table :: "'w ugpio \<Rightarrow> pytext list list \<Rightarrow> view_item list option list" where
  "view_table u = map (view_row u)"

fun item_known :: "'w ugpio \<Rightarrow> view_item \<Rightarrow> bool" where
  "item_known u (LabelItem t) = True"
| "item_known u (InputItem ch color) = (dict_has (ug_inputs u) ch \<and> color \<in> set view_colors)"
| "item_known u (OutputItem ch confirm hide t) = dict_has (ug_outputs u) ch"

lemma input_item_known: "dict_has (ug_inputs u) (parts ! 0) \<Longrightarrow> item_known u (item_input parts)"
  by (auto simp: item_input_def view_colors_def)

lemma output_item_known: "dict_has (ug_outputs u) (parts ! 0) \<Longrightarrow> item_known u (item_output parts)"
  by (simp add: item_output_def Let_def)

text \<open>
  Every item of the view is a label or names a channel that exists, inputs in one of the known colours,
  whatever the configured table and title hold.
\<close>

theorem view_names_channels:
  "list_all (\<lambda>row. list_all (item_known u) (case row of None \<Rightarrow> [] | Some items \<Rightarrow> items)) (view_table u table)
    \<and> list_all (item_known u) (view_title_items u title)"
  using input_item_known output_item_known
  by (auto simp: view_table_def view_row_def view_title_items_def item_label_def list_all_iff split: view_title.splits)

text \<open>
  An output that can neither be switched nor pulsed is not in the scheme, and yet the view offers it.
\<close>

definition const_channel :: "unit ugpio" where
  "const_channel = \<lparr>ug_drivers = [''g''], ug_inputs = [], ug_outputs = [([99], fromR undefined (mk_output
     \<lparr>gc_driver = ''g'', gc_pin = ''5'', gc_mode = ModeOutput, gc_inverted = False, gc_debounce = 0, gc_switch = False,
      gc_initial = None, gc_delay = 0, gc_min_delay = 0, gc_max_delay = 0, gc_busy_delay = 0\<rparr>))], ug_notifier = [], ug_world = ()\<rparr>"

lemma const_output_in_view:
  "view_row const_channel [[99]] = Some [OutputItem [99] False False (text_of ''Click'')]
    \<and> \<not> dict_has (sc_outputs (make_scheme const_channel)) [99]"
  by (simp add: view_row_def const_channel_def mk_output_def is_label_def item_parts_def bar_sign_def hash_sign_def numeral_2_eq_2 strip_def
      lstrip_def rstrip_def is_space_def dict_has_def item_output_def make_scheme_def shown_outputs_def is_const_def fromR_def)

end
