(* ===== verification/UserGpioSafe.thy ===== *)
theory UserGpioSafe
  imports UserGpio
begin

text \<open>
  What the GPIO channels promise over any driver that answers at once: the region of an output is held
  exactly while an action sleeps, a line that is only pulsed is active only while it is held, and a
  client that merges what it is sent shows the truth as soon as nothing is left to tell.
\<close>

section \<open>Runs\<close>

text \<open>The facade with its poller, and a client that merges what is yielded.\<close>

record client_view =
  cv_inputs :: "pytext \<rightharpoonup> in_state"
  cv_outputs :: "pytext \<rightharpoonup> out_state"

record 'w gpio_run =
  gr_gpio :: "'w ugpio"
  gr_prev :: io_state
  gr_client :: "client_view option"

datatype 'e gpio_act =
    CallSwitch pytext bool bool
  | CallPulse pytext rat bool
  | Wake pytext
  | CallTrigger
  | DriverEvent 'e
  | PollTurn

definition view_of :: "io_state \<Rightarrow> client_view" where
  "view_of st = \<lparr>cv_inputs = map_of (io_inputs st), cv_outputs = map_of (io_outputs st)\<rparr>"

definition client_merge :: "io_yield \<Rightarrow> client_view option \<Rightarrow> client_view option" where
  "client_merge y c = (case y of
       FullState st \<Rightarrow> Some (view_of st)
     | DiffState st \<Rightarrow> (case c of
         None \<Rightarrow> Some (view_of st)
       | Some v \<Rightarrow> Some \<lparr>cv_inputs = cv_inputs v ++ map_of (io_inputs st), cv_outputs = cv_outputs v ++ map_of (io_outputs st)\<rparr>))"

fun gpio_step :: "'w gpio_env \<Rightarrow> ('e \<Rightarrow> 'w \<Rightarrow> bool \<times> 'w) \<Rightarrow> 'e gpio_act \<Rightarrow> 'w gpio_run \<Rightarrow> 'w gpio_run" where
  "gpio_step env ev (CallSwitch ch st wait) r = r\<lparr>gr_gpio := snd (ug_switch env ch st wait (gr_gpio r))\<rparr>"
| "gpio_step env ev (CallPulse ch delay wait) r = r\<lparr>gr_gpio := snd (ug_pulse env ch delay wait (gr_gpio r))\<rparr>"
| "gpio_step env ev (Wake ch) r = r\<lparr>gr_gpio := snd (ug_wake env ch (gr_gpio r))\<rparr>"
| "gpio_step env ev CallTrigger r = r\<lparr>gr_gpio := snd (trigger_state (gr_gpio r))\<rparr>"
| "gpio_step env ev (DriverEvent e) r =
     (case ev e (ug_world (gr_gpio r)) of (n, w) \<Rightarrow>
        r\<lparr>gr_gpio := (let u = (gr_gpio r)\<lparr>ug_world := w\<rparr> in if n then snd (notifyG 0 u) else u)\<rparr>)"
| "gpio_step env ev PollTurn r =
     (if ug_notifier (gr_gpio r) = [] then r
      else case io_poll env (gr_prev r) (gr_gpio r) of
        (Inl e, u) \<Rightarrow> r\<lparr>gr_gpio := u\<rparr>
      | (Inr (y, prev), u) \<Rightarrow> r\<lparr>gr_gpio := u, gr_prev := prev,
          gr_client := (case y of None \<Rightarrow> gr_client r | Some y \<Rightarrow> client_merge y (gr_client r))\<rparr>)"

definition gpio_run :: "'w gpio_env \<Rightarrow> ('e \<Rightarrow> 'w \<Rightarrow> bool \<times> 'w) \<Rightarrow> 'e gpio_act list \<Rightarrow> 'w gpio_run \<Rightarrow> 'w gpio_run" where
  "gpio_run env ev acts r = fold (gpio_step env ev) acts r"

definition run_start :: "'w ugpio \<Rightarrow> 'w gpio_run" where
  "run_start u = \<lparr>gr_gpio = u, gr_prev = \<lparr>io_inputs = [], io_outputs = []\<rparr>, gr_client = None\<rparr>"

text \<open>The truth: what is to be shown when the drivers are online or not and the pins have their levels.\<close>

definition true_in :: "(string \<Rightarrow> bool) \<Rightarrow> (string \<Rightarrow> string \<Rightarrow> bool) \<Rightarrow> gpio_in \<Rightarrow> in_state" where
  "true_in on lv i = (if on (gi_driver i) then \<lparr>is_online = True, is_state = (lv (gi_driver i) (gi_pin i) \<noteq> gi_inverted i)\<rparr>
     else \<lparr>is_online = False, is_state = False\<rparr>)"

definition true_out :: "(string \<Rightarrow> bool) \<Rightarrow> (string \<Rightarrow> string \<Rightarrow> bool) \<Rightarrow> gpio_out \<Rightarrow> out_state" where
  "true_out on lv x =
     (if go_busy x then \<lparr>os_online = True, os_state = False, os_busy = True\<rparr>
      else if on (go_driver x) then \<lparr>os_online = True, os_state = (lv (go_driver x) (go_pin x) \<noteq> go_inverted x), os_busy = False\<rparr>
      else \<lparr>os_online = False, os_state = False, os_busy = False\<rparr>)"

definition true_io :: "(string \<Rightarrow> bool) \<Rightarrow> (string \<Rightarrow> string \<Rightarrow> bool) \<Rightarrow> 'w ugpio \<Rightarrow> io_state" where
  "true_io on lv u = \<lparr>io_inputs = map (\<lambda>(ch, i). (ch, true_in on lv i)) (ug_inputs u),
     io_outputs = map (\<lambda>(ch, x). (ch, true_out on lv x)) (shown_outputs u)\<rparr>"

definition shows_io :: "client_view \<Rightarrow> io_state \<Rightarrow> bool" where
  "shows_io c st = ((\<forall>(ch, x) \<in> set (io_inputs st). cv_inputs c ch = Some x)
     \<and> (\<forall>(ch, x) \<in> set (io_outputs st). cv_outputs c ch = Some x))"

definition regions_held :: "'w ugpio \<Rightarrow> bool" where
  "regions_held u = (\<forall>(ch, x) \<in> set (ug_outputs u). go_busy x \<longleftrightarrow> go_await x \<noteq> None)"

definition upd_out :: "pytext \<Rightarrow> (gpio_out \<Rightarrow> gpio_out) \<Rightarrow> (pytext, gpio_out) dict \<Rightarrow> (pytext, gpio_out) dict" where
  "upd_out ch f outs = map (\<lambda>(c, x). if c = ch then (c, f x) else (c, x)) outs"

lemma merge_shows:
  assumes "dict_wf new" "\<forall>(ch, x) \<in> set prev. c ch = Some x"
  shows "\<forall>(ch, x) \<in> set new. (c ++ map_of (changed prev new)) ch = Some x"
proof (intro ballI, clarify)
  fix ch x assume x: "(ch, x) \<in> set new"
  have only: "y = x" if "(ch, y) \<in> set new" for y
    using assms(1) x that by (auto simp: dict_wf_def dest: eq_key_imp_eq_value)
  have wf: "distinct (map fst (changed prev new))"
    using assms(1) by (auto simp: dict_wf_def changed_def distinct_map_filter)
  show "(c ++ map_of (changed prev new)) ch = Some x"
  proof (cases "map_of prev ch = Some x")
    case True
    then have "map_of (changed prev new) ch = None" using only
      by (auto simp: changed_def map_of_eq_None_iff image_iff)
    with True assms(2) show ?thesis by (auto simp: map_add_def dest: map_of_SomeD)
  next
    case False
    then have "(ch, x) \<in> set (changed prev new)" using x by (simp add: changed_def)
    with wf have "map_of (changed prev new) ch = Some x" by simp
    then show ?thesis by (simp add: map_add_def)
  qed
qed

lemma unchanged_shows:
  "changed prev new = [] \<Longrightarrow> \<forall>(ch, x) \<in> set prev. c ch = Some x \<Longrightarrow> \<forall>(ch, x) \<in> set new. c ch = Some x"
  by (fastforce simp: changed_def filter_empty_conv dest: map_of_SomeD)

lemma regions_held_update:
  assumes "regions_held u" "\<And>y. (ch, y) \<in> set (ug_outputs u) \<Longrightarrow> go_busy (f y) \<longleftrightarrow> go_await (f y) \<noteq> None"
  shows "regions_held (u\<lparr>ug_world := w', ug_outputs := upd_out ch f (ug_outputs u)\<rparr>)"
  unfolding regions_held_def
proof clarify
  fix c y assume "(c, y) \<in> set (ug_outputs (u\<lparr>ug_world := w', ug_outputs := upd_out ch f (ug_outputs u)\<rparr>))"
  then obtain y' where "(c, y') \<in> set (ug_outputs u)" "y = (if c = ch then f y' else y')"
    by (auto simp: upd_out_def split: if_splits)
  then show "go_busy y \<longleftrightarrow> go_await y \<noteq> None" using assms by (cases "c = ch") (auto simp: regions_held_def)
qed

lemma collectS_eq:
  "(\<And>k v. (k, v) \<in> set kvs \<Longrightarrow> f v u = (Inr (g v), u)) \<Longrightarrow> collectS kvs f u = (Inr (map (\<lambda>(k, v). (k, g v)) kvs), u)"
proof (induction kvs)
  case (Cons kv kvs)
  obtain k v where kv: "kv = (k, v)" by fastforce
  have "f v u = (Inr (g v), u)" by (rule Cons.prems [of k]) (simp add: kv)
  moreover have "collectS kvs f u = (Inr (map (\<lambda>(k, v). (k, g v)) kvs), u)"
    by (rule Cons.IH) (rule Cons.prems, rule list.set_intros(2))
  ultimately show ?case by (simp add: kv bindS_def retS_def)
qed (simp add: retS_def)

section \<open>The contract of a driver\<close>

text \<open>
  A driver that answers at once: a read of a registered pin gives its level unless it is offline, a
  write sets the level of its pin alone, and what changes by itself is notified.
\<close>

locale sync_driver =
  fixes env :: "'w gpio_env"
    and ev :: "'e \<Rightarrow> 'w \<Rightarrow> bool \<times> 'w"
    and readable :: "'w \<Rightarrow> string \<Rightarrow> string \<Rightarrow> bool"
    and writable :: "'w \<Rightarrow> string \<Rightarrow> string \<Rightarrow> bool"
    and online :: "'w \<Rightarrow> string \<Rightarrow> bool"
    and level :: "'w \<Rightarrow> string \<Rightarrow> string \<Rightarrow> bool"
  assumes read_law: "readable w d p \<Longrightarrow>
      gd_read env d p w = (if online w d then Inr (level w d p) else Inl GpioDriverOfflineError, w)"
    and write_law: "writable w d p \<Longrightarrow> gd_write env d p b w = (r, w') \<Longrightarrow>
      r = (if online w d then Inr () else Inl GpioDriverOfflineError)
      \<and> online w' = online w \<and> (\<forall>d' p'. readable w d' p' \<longrightarrow> readable w' d' p')
      \<and> (\<forall>d' p'. writable w d' p' \<longrightarrow> writable w' d' p')
      \<and> (\<forall>d' p'. readable w d' p' \<longrightarrow> level w' d' p' = (if d' = d \<and> p' = p \<and> online w d then b else level w d' p'))"
    and event_law: "ev e w = (n, w') \<Longrightarrow> (\<forall>d' p'. readable w d' p' \<longrightarrow> readable w' d' p')
      \<and> (\<forall>d' p'. writable w d' p' \<longrightarrow> writable w' d' p')
      \<and> (\<not> n \<longrightarrow> online w' = online w \<and> (\<forall>d' p'. readable w d' p' \<longrightarrow> level w' d' p' = level w d' p'))"
begin

text \<open>The channels are registered, on pins of their own.\<close>

definition wired :: "'w ugpio \<Rightarrow> bool" where
  "wired u = (dict_wf (ug_inputs u) \<and> dict_wf (ug_outputs u)
     \<and> (\<forall>(ch, i) \<in> set (ug_inputs u). readable (ug_world u) (gi_driver i) (gi_pin i))
     \<and> (\<forall>(ch, x) \<in> set (ug_outputs u). readable (ug_world u) (go_driver x) (go_pin x) \<and> writable (ug_world u) (go_driver x) (go_pin x))
     \<and> distinct (map (\<lambda>(ch, i). (gi_driver i, gi_pin i)) (ug_inputs u) @ map (\<lambda>(ch, x). (go_driver x, go_pin x)) (ug_outputs u)))"

abbreviation truth :: "'w ugpio \<Rightarrow> io_state" where
  "truth u \<equiv> true_io (online (ug_world u)) (level (ug_world u)) u"

definition run_ok :: "'w gpio_run \<Rightarrow> bool" where
  "run_ok r = (wired (gr_gpio r) \<and> regions_held (gr_gpio r)
     \<and> (case gr_client r of
          None \<Rightarrow> gr_prev r = \<lparr>io_inputs = [], io_outputs = []\<rparr>
        | Some c \<Rightarrow> shows_io c (gr_prev r) \<and> (ug_notifier (gr_gpio r) = [] \<longrightarrow> shows_io c (truth (gr_gpio r)))))"

subsection \<open>Reading\<close>

lemma input_state_eq:
  "readable (ug_world u) (gi_driver i) (gi_pin i) \<Longrightarrow>
    input_state env i u = (Inr (true_in (online (ug_world u)) (level (ug_world u)) i), u)"
  by (simp add: input_state_def exceptS_def bindS_def driverS_def read_law true_in_def offline_is_def retS_def)

lemma output_state_eq:
  "readable (ug_world u) (go_driver x) (go_pin x) \<Longrightarrow>
    output_state env x u = (Inr (true_out (online (ug_world u)) (level (ug_world u)) x), u)"
  by (simp add: output_state_def output_read_def exceptS_def bindS_def driverS_def read_law true_out_def offline_is_def retS_def)

lemma io_state_eq:
  assumes "wired u"
  shows "get_io_state env u = (Inr (truth u), u)"
proof -
  have i: "collectS (ug_inputs u) (input_state env) u
      = (Inr (map (\<lambda>(ch, i). (ch, true_in (online (ug_world u)) (level (ug_world u)) i)) (ug_inputs u)), u)"
    by (rule collectS_eq) (use assms in \<open>auto simp: wired_def input_state_eq\<close>)
  have o1: "collectS (shown_outputs u) (output_state env) u
      = (Inr (map (\<lambda>(ch, x). (ch, true_out (online (ug_world u)) (level (ug_world u)) x)) (shown_outputs u)), u)"
    by (rule collectS_eq) (use assms in \<open>auto simp: wired_def output_state_eq shown_outputs_def\<close>)
  show ?thesis by (simp add: get_io_state_def bindS_def getS_def i o1 true_io_def retS_def)
qed

subsection \<open>Writing\<close>

definition writes_only :: "gpio_out \<Rightarrow> 'w \<Rightarrow> 'w \<Rightarrow> bool" where
  "writes_only x w w' = (online w' = online w \<and> (\<forall>d p. readable w d p \<longrightarrow> readable w' d p) \<and> (\<forall>d p. writable w d p \<longrightarrow> writable w' d p)
     \<and> (\<forall>d p. readable w d p \<and> (d, p) \<noteq> (go_driver x, go_pin x) \<longrightarrow> level w' d p = level w d p))"

lemma writes_only_trans: "writes_only x w w1 \<Longrightarrow> writes_only x w1 w2 \<Longrightarrow> writes_only x w w2"
  by (auto simp: writes_only_def)

lemma output_write_result:
  assumes "writable (ug_world u) (go_driver x) (go_pin x)"
  shows "\<exists>w'. output_write env x st u = (if online (ug_world u) (go_driver x) then Inr () else Inl GpioDriverOfflineError, u\<lparr>ug_world := w'\<rparr>)
    \<and> writes_only x (ug_world u) w'
    \<and> (readable (ug_world u) (go_driver x) (go_pin x) \<longrightarrow> online (ug_world u) (go_driver x) \<longrightarrow>
         (level w' (go_driver x) (go_pin x) \<noteq> go_inverted x) = st)"
proof -
  obtain r w' where w: "gd_write env (go_driver x) (go_pin x) (st \<noteq> go_inverted x) (ug_world u) = (r, w')" by fastforce
  have eq: "output_write env x st u = (r, u\<lparr>ug_world := w'\<rparr>)" unfolding output_write_def driverS_def w by simp
  show ?thesis unfolding eq using write_law [OF assms w] by (intro exI [of _ w']) (auto simp: writes_only_def)
qed


subsection \<open>Actions\<close>

definition on_channel :: "gpio_out \<Rightarrow> 'w ugpio \<Rightarrow> bool" where
  "on_channel x u = (readable (ug_world u) (go_driver x) (go_pin x) \<and> writable (ug_world u) (go_driver x) (go_pin x))"

definition only_writes :: "gpio_out \<Rightarrow> ('w ugpio, 'a) sm \<Rightarrow> bool" where
  "only_writes x m = (\<forall>u. on_channel x u \<longrightarrow>
     (\<exists>r w'. m u = (r, u\<lparr>ug_world := w'\<rparr>) \<and> writes_only x (ug_world u) w'))"

lemma only_writes_ret: "only_writes x (retS a)" "only_writes x (raiseS e)"
proof -
  have "\<exists>w'. u = u\<lparr>ug_world := w'\<rparr> \<and> writes_only x (ug_world u) w'" for u
    by (rule exI [of _ "ug_world u"]) (simp add: writes_only_def)
  then show "only_writes x (retS a)" "only_writes x (raiseS e)"
    by (auto simp: only_writes_def retS_def raiseS_def)
qed

lemma on_channel_after: "on_channel x u \<Longrightarrow> writes_only x (ug_world u) w' \<Longrightarrow> on_channel x (u\<lparr>ug_world := w'\<rparr>)"
  by (simp add: on_channel_def writes_only_def)

lemma only_writes_output: "only_writes x (output_write env x st)"
  unfolding only_writes_def using output_write_result by (fastforce simp: on_channel_def)

lemma only_writes_bind:
  assumes "only_writes x m" "\<And>a. only_writes x (f a)"
  shows "only_writes x (bindS m f)"
  unfolding only_writes_def
proof (intro allI impI)
  fix u assume u: "on_channel x u"
  then obtain r w1 where m: "m u = (r, u\<lparr>ug_world := w1\<rparr>)" "writes_only x (ug_world u) w1"
    using assms(1) by (auto simp: only_writes_def)
  show "\<exists>r w'. bindS m f u = (r, u\<lparr>ug_world := w'\<rparr>) \<and> writes_only x (ug_world u) w'"
  proof (cases r)
    case (Inl e)
    with m show ?thesis by (auto simp: bindS_def)
  next
    case (Inr a)
    obtain r2 w2 where "f a (u\<lparr>ug_world := w1\<rparr>) = (r2, u\<lparr>ug_world := w2\<rparr>)" "writes_only x w1 w2"
      using assms(2) [of a] on_channel_after [OF u m(2)] by (fastforce simp: only_writes_def)
    with m Inr show ?thesis using writes_only_trans by (fastforce simp: bindS_def)
  qed
qed

lemma only_writes_except:
  assumes "only_writes x m" "\<And>e. only_writes x (h e)"
  shows "only_writes x (exceptS m (\<lambda>e. Some (h e)))"
  unfolding only_writes_def
proof (intro allI impI)
  fix u assume u: "on_channel x u"
  then obtain r w1 where m: "m u = (r, u\<lparr>ug_world := w1\<rparr>)" "writes_only x (ug_world u) w1"
    using assms(1) by (auto simp: only_writes_def)
  show "\<exists>r w'. exceptS m (\<lambda>e. Some (h e)) u = (r, u\<lparr>ug_world := w'\<rparr>) \<and> writes_only x (ug_world u) w'"
  proof (cases r)
    case (Inr a)
    with m show ?thesis by (auto simp: exceptS_def)
  next
    case (Inl e)
    obtain r2 w2 where "h e (u\<lparr>ug_world := w1\<rparr>) = (r2, u\<lparr>ug_world := w2\<rparr>)" "writes_only x w1 w2"
      using assms(2) [of e] on_channel_after [OF u m(2)] by (fastforce simp: only_writes_def)
    with m Inl show ?thesis using writes_only_trans by (fastforce simp: exceptS_def)
  qed
qed

lemma actions_only_write:
  "only_writes x (inner_switch env x st)" "only_writes x (pulse_finally env x p)" "only_writes x (inner_pulse env x d)"
  "only_writes x (woken env x a)"
proof -
  show "only_writes x (inner_switch env x st)"
    unfolding inner_switch_def by (intro only_writes_bind only_writes_output only_writes_ret)
  show f: "only_writes x (pulse_finally env x p)" for p
    unfolding pulse_finally_def by (intro only_writes_bind only_writes_output only_writes_ret)
  show "only_writes x (inner_pulse env x d)"
    unfolding inner_pulse_def by (intro only_writes_except only_writes_bind only_writes_output only_writes_ret f)
  show "only_writes x (woken env x a)"
  proof (cases a)
    case (Released p)
    then show ?thesis by (cases p) (simp_all add: only_writes_ret)
  qed (simp_all add: only_writes_ret f)
qed

text \<open>An action that runs on either sleeps again, or ends and notifies.\<close>

lemma settle_outcome:
  assumes "on_channel x u" "only_writes x m"
  shows "\<exists>w'. writes_only x (ug_world u) w' \<and>
    ((\<exists>a d. snd (settle ch wait m u) = u\<lparr>ug_world := w', ug_outputs := upd_out ch (\<lambda>x. x\<lparr>go_await := Some (a, d, wait)\<rparr>) (ug_outputs u)\<rparr>)
     \<or> snd (settle ch wait m u) = u\<lparr>ug_world := w', ug_outputs := upd_out ch (\<lambda>x. x\<lparr>go_busy := False, go_await := None\<rparr>) (ug_outputs u),
         ug_notifier := ug_notifier u @ [0]\<rparr>)"
proof -
  obtain r w' where m: "m u = (r, u\<lparr>ug_world := w'\<rparr>)" "writes_only x (ug_world u) w'"
    using assms by (auto simp: only_writes_def)
  show ?thesis
  proof (intro exI [of _ w'] conjI m(2))
    show "(\<exists>a d. snd (settle ch wait m u) = u\<lparr>ug_world := w', ug_outputs := upd_out ch (\<lambda>x. x\<lparr>go_await := Some (a, d, wait)\<rparr>) (ug_outputs u)\<rparr>)
     \<or> snd (settle ch wait m u) = u\<lparr>ug_world := w', ug_outputs := upd_out ch (\<lambda>x. x\<lparr>go_busy := False, go_await := None\<rparr>) (ug_outputs u),
         ug_notifier := ug_notifier u @ [0]\<rparr>"
      by (cases r)
        (auto simp: settle_def exceptS_def bindS_def m(1) retS_def raiseS_def set_output_def modifyS_def region_exit_def notifyG_def upd_out_def
          split: option.splits)
  qed
qed

definition tells :: "'w ugpio \<Rightarrow> 'w ugpio \<Rightarrow> bool" where
  "tells u u' = (wired u' \<and> regions_held u' \<and> (ug_notifier u' = [] \<longrightarrow> ug_notifier u = [] \<and> truth u' = truth u))"

lemma wired_update:
  assumes "wired u" "writes_only x (ug_world u) w'"
    and f: "\<And>x. go_pin (f x) = go_pin x \<and> go_driver (f x) = go_driver x"
  shows "wired (u\<lparr>ug_world := w', ug_outputs := upd_out ch f (ug_outputs u)\<rparr>)"
proof -
  have pins: "map (\<lambda>(ch, x). (go_driver x, go_pin x)) (upd_out ch f (ug_outputs u)) = map (\<lambda>(ch, x). (go_driver x, go_pin x)) (ug_outputs u)"
    using f by (auto simp: upd_out_def)
  have names: "map fst (upd_out ch f (ug_outputs u)) = map fst (ug_outputs u)" by (auto simp: upd_out_def)
  have access: "\<forall>(c, y) \<in> set (upd_out ch f (ug_outputs u)). readable w' (go_driver y) (go_pin y) \<and> writable w' (go_driver y) (go_pin y)"
    using assms(1,2) f by (auto simp: wired_def writes_only_def upd_out_def split: if_splits)
  have ins: "\<forall>(c, i) \<in> set (ug_inputs u). readable w' (gi_driver i) (gi_pin i)"
    using assms(1,2) by (auto simp: wired_def writes_only_def)
  show ?thesis using assms(1) access ins by (simp add: wired_def dict_wf_def pins names)
qed

lemma truth_while_busy:
  assumes "wired u" "(ch, x) \<in> set (ug_outputs u)" "writes_only x (ug_world u) w'" "go_busy x"
  shows "truth (u\<lparr>ug_world := w', ug_outputs := upd_out ch (\<lambda>x. x\<lparr>go_await := a\<rparr>) (ug_outputs u)\<rparr>) = truth u"
proof -
  have same: "online w' = online (ug_world u)" using assms(3) by (simp add: writes_only_def)
  have lv: "readable (ug_world u) d p \<Longrightarrow> (d, p) \<noteq> (go_driver x, go_pin x) \<Longrightarrow> level w' d p = level (ug_world u) d p" for d p
    using assms(3) by (simp add: writes_only_def)
  have i: "true_in (online w') (level w') i = true_in (online (ug_world u)) (level (ug_world u)) i" if "(c, i) \<in> set (ug_inputs u)" for c i
  proof -
    have "readable (ug_world u) (gi_driver i) (gi_pin i)" "(gi_driver i, gi_pin i) \<noteq> (go_driver x, go_pin x)"
      using assms(1,2) that by (fastforce simp: wired_def)+
    then show ?thesis using lv same by (auto simp: true_in_def)
  qed
  have out: "true_out (online w') (level w') y = true_out (online (ug_world u)) (level (ug_world u)) y"
    if "(c, y) \<in> set (ug_outputs u)" "c \<noteq> ch" for c y
  proof -
    have "inj_on (\<lambda>(ch, x). (go_driver x, go_pin x)) (set (ug_outputs u))"
      using assms(1) by (simp add: wired_def distinct_map)
    from inj_onD [OF this _ that(1) assms(2)] that(2) have "(go_driver y, go_pin y) \<noteq> (go_driver x, go_pin x)" by auto
    moreover have "readable (ug_world u) (go_driver y) (go_pin y)" using assms(1) that(1) by (auto simp: wired_def)
    ultimately show ?thesis using lv same by (auto simp: true_out_def)
  qed
  have mine: "y = x" if "(ch, y) \<in> set (ug_outputs u)" for y
    using assms(1,2) that by (auto simp: wired_def dict_wf_def dest: eq_key_imp_eq_value)
  have const: "is_const (y\<lparr>go_await := a\<rparr>) = is_const y" for y by (simp add: is_const_def)
  have "map (\<lambda>(c, y). (c, true_out (online w') (level w') y)) (filter (\<lambda>(c, y). \<not> is_const y) (upd_out ch (\<lambda>x. x\<lparr>go_await := a\<rparr>) ys))
      = map (\<lambda>(c, y). (c, true_out (online (ug_world u)) (level (ug_world u)) y)) (filter (\<lambda>(c, y). \<not> is_const y) ys)"
    if "set ys \<subseteq> set (ug_outputs u)" for ys using that
  proof (induction ys)
    case (Cons cy ys)
    obtain c y where cy: "cy = (c, y)" by fastforce
    have "c = ch \<Longrightarrow> go_busy y" using Cons.prems assms(4) mine by (auto simp: cy)
    then show ?case using Cons out [of c y] by (auto simp: cy upd_out_def const) (auto simp: true_out_def)
  qed (simp add: upd_out_def)
  then show ?thesis using i by (auto simp: true_io_def shown_outputs_def)
qed

lemma wired_notifier [simp]: "wired (u\<lparr>ug_notifier := q\<rparr>) = wired u"
  by (simp add: wired_def)

lemma truth_notifier [simp]: "true_io on lv (u\<lparr>ug_notifier := q\<rparr>) = true_io on lv u"
  by (simp add: true_io_def shown_outputs_def)

lemma writes_only_refl: "writes_only x w w"
  by (simp add: writes_only_def)

lemma tells_refl: "wired u \<Longrightarrow> regions_held u \<Longrightarrow> tells u u"
  by (simp add: tells_def)

lemma wired_channel: "wired u \<Longrightarrow> map_of (ug_outputs u) ch = Some x \<Longrightarrow> on_channel x u"
  by (auto simp: wired_def on_channel_def dest: map_of_SomeD)

lemma run_action_tells:
  assumes "wired u" "regions_held u" "map_of (ug_outputs u) ch = Some x" "only_writes x m"
  shows "tells u (snd (run_action ch x wait m u))"
proof (cases "go_busy x")
  case True
  then show ?thesis using assms tells_refl by (simp add: run_action_def region_enter_def bindS_def raiseS_def)
next
  case False
  define u1 where "u1 = u\<lparr>ug_outputs := upd_out ch (\<lambda>x. x\<lparr>go_busy := True\<rparr>) (ug_outputs u), ug_notifier := ug_notifier u @ [0]\<rparr>"
  have run: "run_action ch x wait m u = settle ch wait m u1"
    using False by (simp add: run_action_def region_enter_def bindS_def set_output_def modifyS_def notifyG_def u1_def upd_out_def)
  have w1: "wired u1"
    using wired_update [OF assms(1) writes_only_refl [of x], of "\<lambda>x. x\<lparr>go_busy := True\<rparr>" ch] by (simp add: u1_def)
  have on: "on_channel x u1" using wired_channel [OF assms(1,3)] by (simp add: on_channel_def u1_def)
  obtain w' where w': "writes_only x (ug_world u1) w'"
    and out: "(\<exists>a d. snd (settle ch wait m u1) = u1\<lparr>ug_world := w', ug_outputs := upd_out ch (\<lambda>x. x\<lparr>go_await := Some (a, d, wait)\<rparr>) (ug_outputs u1)\<rparr>)
     \<or> snd (settle ch wait m u1) = u1\<lparr>ug_world := w', ug_outputs := upd_out ch (\<lambda>x. x\<lparr>go_busy := False, go_await := None\<rparr>) (ug_outputs u1),
         ug_notifier := ug_notifier u1 @ [0]\<rparr>"
    using settle_outcome [OF on assms(4)] by blast
  from out show ?thesis
  proof
    assume "\<exists>a d. snd (settle ch wait m u1) = u1\<lparr>ug_world := w', ug_outputs := upd_out ch (\<lambda>x. x\<lparr>go_await := Some (a, d, wait)\<rparr>) (ug_outputs u1)\<rparr>"
    then obtain a d where e: "snd (settle ch wait m u1) = u1\<lparr>ug_world := w', ug_outputs := upd_out ch (\<lambda>x. x\<lparr>go_await := Some (a, d, wait)\<rparr>) (ug_outputs u1)\<rparr>"
      by blast
    show ?thesis unfolding run tells_def e using wired_update [OF w1 w', of "\<lambda>x. x\<lparr>go_await := Some (a, d, wait)\<rparr>" ch] assms(2)
      by (auto simp: u1_def regions_held_def upd_out_def split: if_splits)
  next
    assume e: "snd (settle ch wait m u1) = u1\<lparr>ug_world := w', ug_outputs := upd_out ch (\<lambda>x. x\<lparr>go_busy := False, go_await := None\<rparr>) (ug_outputs u1),
         ug_notifier := ug_notifier u1 @ [0]\<rparr>"
    have "wired (u1\<lparr>ug_world := w', ug_outputs := upd_out ch (\<lambda>x. x\<lparr>go_busy := False, go_await := None\<rparr>) (ug_outputs u1)\<rparr>)"
      using wired_update [OF w1 w'] by simp
    then show ?thesis unfolding run tells_def e using assms(2)
      by (auto simp: u1_def regions_held_def upd_out_def wired_def split: if_splits)
  qed
qed

lemma wake_tells:
  assumes "wired u" "regions_held u"
  shows "tells u (snd (ug_wake env ch u))"
proof (cases "map_of (ug_outputs u) ch")
  case None
  then show ?thesis using assms tells_refl by (simp add: ug_wake_def getS_def retS_def)
next
  case (Some x)
  show ?thesis
  proof (cases "go_await x")
    case None
    then show ?thesis using Some assms tells_refl by (simp add: ug_wake_def getS_def retS_def)
  next
    case (Some t)
    obtain a d wait where t: "t = (a, d, wait)" by (cases t)
    have mem: "(ch, x) \<in> set (ug_outputs u)" using \<open>map_of _ _ = _\<close> by (rule map_of_SomeD)
    have busy: "go_busy x" using assms(2) mem Some t by (fastforce simp: regions_held_def)
    have run: "ug_wake env ch u = settle ch wait (woken env x a) u"
      using \<open>map_of _ _ = _\<close> Some t by (simp add: ug_wake_def getS_def)
    obtain w' where w': "writes_only x (ug_world u) w'"
      and out: "(\<exists>b d. snd (settle ch wait (woken env x a) u) = u\<lparr>ug_world := w', ug_outputs := upd_out ch (\<lambda>x. x\<lparr>go_await := Some (b, d, wait)\<rparr>) (ug_outputs u)\<rparr>)
       \<or> snd (settle ch wait (woken env x a) u) = u\<lparr>ug_world := w', ug_outputs := upd_out ch (\<lambda>x. x\<lparr>go_busy := False, go_await := None\<rparr>) (ug_outputs u),
           ug_notifier := ug_notifier u @ [0]\<rparr>"
      using settle_outcome [OF wired_channel [OF assms(1) \<open>map_of _ _ = _\<close>] actions_only_write(4) [where a = a], of ch wait] by blast
    from out show ?thesis
    proof
      assume "\<exists>b d. snd (settle ch wait (woken env x a) u) = u\<lparr>ug_world := w', ug_outputs := upd_out ch (\<lambda>x. x\<lparr>go_await := Some (b, d, wait)\<rparr>) (ug_outputs u)\<rparr>"
      then obtain b d where e: "snd (settle ch wait (woken env x a) u) = u\<lparr>ug_world := w', ug_outputs := upd_out ch (\<lambda>x. x\<lparr>go_await := Some (b, d, wait)\<rparr>) (ug_outputs u)\<rparr>"
        by blast
      have "wired (u\<lparr>ug_world := w', ug_outputs := upd_out ch (\<lambda>x. x\<lparr>go_await := Some (b, d, wait)\<rparr>) (ug_outputs u)\<rparr>)"
        using wired_update [OF assms(1) w'] by simp
      moreover have "y = x" if "(ch, y) \<in> set (ug_outputs u)" for y
        using assms(1) that mem by (auto simp: wired_def dict_wf_def dest: eq_key_imp_eq_value)
      ultimately show ?thesis unfolding run tells_def e
        using regions_held_update [OF assms(2), of ch "\<lambda>x. x\<lparr>go_await := Some (b, d, wait)\<rparr>" w'] busy
          truth_while_busy [OF assms(1) mem w' busy] by fastforce
    next
      assume e: "snd (settle ch wait (woken env x a) u) = u\<lparr>ug_world := w', ug_outputs := upd_out ch (\<lambda>x. x\<lparr>go_busy := False, go_await := None\<rparr>) (ug_outputs u),
           ug_notifier := ug_notifier u @ [0]\<rparr>"
      have "wired (u\<lparr>ug_world := w', ug_outputs := upd_out ch (\<lambda>x. x\<lparr>go_busy := False, go_await := None\<rparr>) (ug_outputs u)\<rparr>)"
        using wired_update [OF assms(1) w'] by simp
      then show ?thesis unfolding run tells_def e using assms(2)
        by (auto simp: regions_held_def upd_out_def wired_def split: if_splits)
    qed
  qed
qed

lemma truth_wf: "wired u \<Longrightarrow> dict_wf (io_inputs (true_io on lv u)) \<and> dict_wf (io_outputs (true_io on lv u))"
  by (auto simp: wired_def dict_wf_def true_io_def shown_outputs_def comp_def case_prod_unfold distinct_map_filter)

lemma poll_ok:
  assumes "run_ok r"
  shows "run_ok (gpio_step env ev PollTurn r)"
proof (cases "ug_notifier (gr_gpio r) = []")
  case False
  let ?u = "gr_gpio r" and ?prev = "gr_prev r"
  let ?w = "?u\<lparr>ug_notifier := []\<rparr>" and ?new = "truth ?u"
  have w: "wired ?u" and h: "regions_held ?u" using assms by (auto simp: run_ok_def)
  have st: "get_io_state env ?w = (Inr ?new, ?w)" using io_state_eq [of ?w] w by simp
  have held: "regions_held ?w" using h by (simp add: regions_held_def)
  let ?ins = "changed (io_inputs ?prev) (io_inputs ?new)" and ?outs = "changed (io_outputs ?prev) (io_outputs ?new)"
  have poll: "io_poll env ?prev ?u =
     (if \<exists>m \<in> set (ug_notifier ?u). m > 0 then (Inr (Some (FullState ?new), ?new), ?w)
      else if ?ins = [] \<and> ?outs = [] then (Inr (None, ?prev), ?w)
      else (Inr (Some (DiffState \<lparr>io_inputs = ?ins, io_outputs = ?outs\<rparr>), ?new), ?w))"
    by (simp add: io_poll_def getS_def bindS_def modifyS_def st Let_def retS_def)
  have wf: "dict_wf (io_inputs ?new)" "dict_wf (io_outputs ?new)" using truth_wf [OF w] by auto
  have full: "shows_io (view_of ?new) ?new"
    using wf by (auto simp: shows_io_def view_of_def dict_wf_def)
  have merged: "shows_io c' ?new" if c: "Some c' = client_merge (DiffState \<lparr>io_inputs = ?ins, io_outputs = ?outs\<rparr>) (gr_client r)" for c'
  proof (cases "gr_client r")
    case None
    then have p: "?prev = \<lparr>io_inputs = [], io_outputs = []\<rparr>" using assms by (simp add: run_ok_def)
    show ?thesis using c None merge_shows [OF wf(1), of "[]" Map.empty] merge_shows [OF wf(2), of "[]" Map.empty]
      by (simp add: client_merge_def shows_io_def view_of_def p)
  next
    case (Some v)
    then have "shows_io v ?prev" using assms by (simp add: run_ok_def)
    then show ?thesis using c Some merge_shows [OF wf(1)] merge_shows [OF wf(2)]
      by (simp add: client_merge_def shows_io_def)
  qed
  have same: "shows_io c ?new" if "?ins = []" "?outs = []" "gr_client r = Some c" for c
    using unchanged_shows [OF that(1), of "cv_inputs c"] unchanged_shows [OF that(2), of "cv_outputs c"] that(3) assms
    by (simp add: run_ok_def shows_io_def)
  show ?thesis using False w h held full merged same assms
    by (auto simp: poll run_ok_def client_merge_def split: option.splits)
qed (use assms in simp)

lemma tells_run_ok:
  assumes "run_ok r" "tells (gr_gpio r) u"
  shows "run_ok (r\<lparr>gr_gpio := u\<rparr>)"
  using assms by (auto simp: run_ok_def tells_def split: option.splits)

lemma event_tells:
  assumes "wired u" "regions_held u" "ev e (ug_world u) = (n, w')"
  shows "tells u (let u = u\<lparr>ug_world := w'\<rparr> in if n then snd (notifyG 0 u) else u)"
proof -
  have "wired (u\<lparr>ug_world := w'\<rparr>)" using assms(1) event_law [OF assms(3)] by (auto simp: wired_def)
  moreover have "regions_held (u\<lparr>ug_world := w'\<rparr>)" using assms(2) by (simp add: regions_held_def)
  moreover have "truth (u\<lparr>ug_world := w'\<rparr>) = truth u" if "\<not> n"
    using assms(1) event_law [OF assms(3)] that
    by (auto simp: true_io_def shown_outputs_def true_in_def true_out_def wired_def split_beta)
  ultimately show ?thesis
    by (auto simp: Let_def notifyG_def modifyS_def tells_def regions_held_def)
qed

lemma step_ok: "run_ok r \<Longrightarrow> run_ok (gpio_step env ev act r)"
proof (cases act)
  case (CallSwitch ch st wait)
  assume r: "run_ok r"
  then have w: "wired (gr_gpio r)" "regions_held (gr_gpio r)" by (auto simp: run_ok_def)
  have "tells (gr_gpio r) (snd (ug_switch env ch st wait (gr_gpio r)))"
    using run_action_tells [OF w _ actions_only_write(1)] tells_refl [OF w]
    by (auto simp: ug_switch_def output_switch_def getS_def raiseS_def split: option.splits)
  then show ?thesis using CallSwitch tells_run_ok [OF r] by simp
next
  case (CallPulse ch delay wait)
  assume r: "run_ok r"
  then have w: "wired (gr_gpio r)" "regions_held (gr_gpio r)" by (auto simp: run_ok_def)
  have "tells (gr_gpio r) (snd (ug_pulse env ch delay wait (gr_gpio r)))"
    using run_action_tells [OF w _ actions_only_write(3)] tells_refl [OF w]
    by (auto simp: ug_pulse_def output_pulse_def getS_def raiseS_def split: option.splits)
  then show ?thesis using CallPulse tells_run_ok [OF r] by simp
next
  case (Wake ch)
  assume r: "run_ok r"
  then have w: "wired (gr_gpio r)" "regions_held (gr_gpio r)" by (auto simp: run_ok_def)
  show ?thesis using Wake tells_run_ok [OF r wake_tells [OF w]] by simp
next
  case CallTrigger
  assume r: "run_ok r"
  then show ?thesis using CallTrigger
    by (auto simp: trigger_state_def notifyG_def modifyS_def run_ok_def regions_held_def split: option.splits)
next
  case (DriverEvent e)
  assume r: "run_ok r"
  then have w: "wired (gr_gpio r)" "regions_held (gr_gpio r)" by (auto simp: run_ok_def)
  obtain n w' where e: "ev e (ug_world (gr_gpio r)) = (n, w')" by fastforce
  show ?thesis using DriverEvent tells_run_ok [OF r event_tells [OF w e]] e by simp
next
  case PollTurn
  assume r: "run_ok r"
  then show ?thesis using PollTurn poll_ok by simp
qed

theorem run_keeps_ok: "run_ok r \<Longrightarrow> run_ok (gpio_run env ev acts r)"
  by (induction acts arbitrary: r) (simp_all add: gpio_run_def step_ok)

lemma start_ok: "wired u \<Longrightarrow> regions_held u \<Longrightarrow> run_ok (run_start u)"
  by (simp add: run_ok_def run_start_def)

lemma poll_answers: "wired u \<Longrightarrow> \<exists>y prev' u'. io_poll env prev u = (Inr (y, prev'), u')"
  using io_state_eq [of "u\<lparr>ug_notifier := []\<rparr>"]
  by (auto simp: io_poll_def getS_def bindS_def modifyS_def Let_def retS_def split: if_splits)

end

section \<open>A driver that is always there\<close>

text \<open>Such a driver never refuses, so that a pulse always releases its line.\<close>

locale steady_driver = sync_driver env ev readable writable online level
  for env :: "'w gpio_env"
    and ev :: "'e \<Rightarrow> 'w \<Rightarrow> bool \<times> 'w"
    and readable :: "'w \<Rightarrow> string \<Rightarrow> string \<Rightarrow> bool"
    and writable :: "'w \<Rightarrow> string \<Rightarrow> string \<Rightarrow> bool"
    and online :: "'w \<Rightarrow> string \<Rightarrow> bool"
    and level :: "'w \<Rightarrow> string \<Rightarrow> string \<Rightarrow> bool" +
  assumes always_online: "readable w d p \<Longrightarrow> online w d"
    and outputs_stay: "ev e w = (n, w') \<Longrightarrow> writable w d p \<Longrightarrow> level w' d p = level w d p"
begin

definition is_held :: "gpio_out \<Rightarrow> bool" where
  "is_held x = (case go_await x of Some (Held, d, wait) \<Rightarrow> True | _ \<Rightarrow> False)"

definition lines_ok :: "'w ugpio \<Rightarrow> bool" where
  "lines_ok u = (\<forall>(ch, x) \<in> set (ug_outputs u). \<not> go_switch x \<longrightarrow>
     (level (ug_world u) (go_driver x) (go_pin x) \<noteq> go_inverted x) = is_held x)"

lemma lines_update:
  assumes "wired u" "lines_ok u" "(ch, x) \<in> set (ug_outputs u)" "writes_only x (ug_world u) w'"
    and f: "go_switch (f x) = go_switch x" "go_pin (f x) = go_pin x" "go_driver (f x) = go_driver x" "go_inverted (f x) = go_inverted x"
    and new: "\<not> go_switch x \<Longrightarrow> (level w' (go_driver x) (go_pin x) \<noteq> go_inverted x) = is_held (f x)"
  shows "lines_ok (u\<lparr>ug_world := w', ug_outputs := upd_out ch f (ug_outputs u)\<rparr>)"
  unfolding lines_ok_def
proof clarify
  fix c y assume y: "(c, y) \<in> set (ug_outputs (u\<lparr>ug_world := w', ug_outputs := upd_out ch f (ug_outputs u)\<rparr>))" "\<not> go_switch y"
  then obtain y' where y': "(c, y') \<in> set (ug_outputs u)" "y = (if c = ch then f y' else y')"
    by (auto simp: upd_out_def split: if_splits)
  show "(level (ug_world (u\<lparr>ug_world := w', ug_outputs := upd_out ch f (ug_outputs u)\<rparr>)) (go_driver y) (go_pin y) \<noteq> go_inverted y) = is_held y"
  proof (cases "c = ch")
    case True
    then have "y' = x" using assms(1,3) y'(1) by (auto simp: wired_def dict_wf_def dest: eq_key_imp_eq_value)
    then show ?thesis using y y' True f new by simp
  next
    case False
    have "inj_on (\<lambda>(ch, x). (go_driver x, go_pin x)) (set (ug_outputs u))"
      using assms(1) by (simp add: wired_def distinct_map)
    from inj_onD [OF this _ y'(1) assms(3)] False have "(go_driver y', go_pin y') \<noteq> (go_driver x, go_pin x)" by auto
    moreover have "readable (ug_world u) (go_driver y') (go_pin y')" using assms(1) y'(1) by (auto simp: wired_def)
    ultimately have "level w' (go_driver y') (go_pin y') = level (ug_world u) (go_driver y') (go_pin y')"
      using assms(4) by (simp add: writes_only_def)
    then show ?thesis using assms(2) y y' False by (auto simp: lines_ok_def)
  qed
qed

text \<open>What a step does to its own channel, over a driver that is there.\<close>

lemma write_done:
  assumes "on_channel x u"
  shows "\<exists>w'. output_write env x st u = (Inr (), u\<lparr>ug_world := w'\<rparr>) \<and> writes_only x (ug_world u) w'
    \<and> (level w' (go_driver x) (go_pin x) \<noteq> go_inverted x) = st"
  using output_write_result [of u x st] assms always_online [of "ug_world u" "go_driver x" "go_pin x"]
  by (auto simp: on_channel_def)

lemma lines_ok_notifier [simp]: "lines_ok (u\<lparr>ug_notifier := q\<rparr>) = lines_ok u"
  by (simp add: lines_ok_def)

lemma enter_lines:
  assumes "wired u" "lines_ok u" "(ch, x) \<in> set (ug_outputs u)"
  shows "lines_ok (u\<lparr>ug_outputs := upd_out ch (\<lambda>x. x\<lparr>go_busy := True\<rparr>) (ug_outputs u)\<rparr>)"
  using lines_update [OF assms writes_only_refl, of "\<lambda>x. x\<lparr>go_busy := True\<rparr>"] assms(2,3)
  by (auto simp: lines_ok_def is_held_def)

lemma settle_eqs:
  "m u = (Inr (Some (a, d)), v) \<Longrightarrow> snd (settle ch wait m u) = v\<lparr>ug_outputs := upd_out ch (\<lambda>x. x\<lparr>go_await := Some (a, d, wait)\<rparr>) (ug_outputs v)\<rparr>"
  "m u = (Inr None, v) \<or> m u = (Inl e, v) \<Longrightarrow> snd (settle ch wait m u) =
     v\<lparr>ug_outputs := upd_out ch (\<lambda>x. x\<lparr>go_busy := False, go_await := None\<rparr>) (ug_outputs v), ug_notifier := ug_notifier v @ [0]\<rparr>"
  by (auto simp: settle_def exceptS_def bindS_def retS_def raiseS_def set_output_def modifyS_def region_exit_def notifyG_def upd_out_def)

lemma entered:
  assumes "wired u" "lines_ok u" "map_of (ug_outputs u) ch = Some x" "\<not> go_busy x"
  defines "v \<equiv> u\<lparr>ug_outputs := upd_out ch (\<lambda>x. x\<lparr>go_busy := True\<rparr>) (ug_outputs u), ug_notifier := ug_notifier u @ [0]\<rparr>"
  shows "run_action ch x wait m u = settle ch wait m v" "wired v" "lines_ok v" "on_channel x v"
    "(ch, x\<lparr>go_busy := True\<rparr>) \<in> set (ug_outputs v)"
proof -
  have mem: "(ch, x) \<in> set (ug_outputs u)" using assms(3) by (rule map_of_SomeD)
  show "run_action ch x wait m u = settle ch wait m v"
    using assms(4) by (simp add: run_action_def region_enter_def bindS_def set_output_def modifyS_def notifyG_def v_def upd_out_def)
  show "wired v" using wired_update [OF assms(1) writes_only_refl [of x], of "\<lambda>x. x\<lparr>go_busy := True\<rparr>" ch] by (simp add: v_def)
  show "lines_ok v" using enter_lines [OF assms(1,2) mem] by (simp add: v_def)
  show "on_channel x v" using wired_channel [OF assms(1,3)] by (simp add: on_channel_def v_def)
  show "(ch, x\<lparr>go_busy := True\<rparr>) \<in> set (ug_outputs v)" using mem by (force simp: v_def upd_out_def)
qed

lemma switch_lines:
  assumes "wired u" "lines_ok u"
  shows "lines_ok (snd (ug_switch env ch st wait u))"
proof (cases "map_of (ug_outputs u) ch")
  case None
  then show ?thesis using assms by (simp add: ug_switch_def getS_def raiseS_def)
next
  case (Some x)
  show ?thesis
  proof (cases "go_switch x \<and> \<not> go_busy x")
    case False
    then show ?thesis using assms Some
      by (auto simp: ug_switch_def output_switch_def run_action_def region_enter_def getS_def raiseS_def bindS_def)
  next
    case True
    let ?v = "u\<lparr>ug_outputs := upd_out ch (\<lambda>x. x\<lparr>go_busy := True\<rparr>) (ug_outputs u), ug_notifier := ug_notifier u @ [0]\<rparr>"
    note v = entered [OF assms Some conjunct2 [OF True]]
    obtain w' where w': "output_write env x st ?v = (Inr (), ?v\<lparr>ug_world := w'\<rparr>)" "writes_only x (ug_world ?v) w'"
      using write_done [OF v(4)] by blast
    have m: "inner_switch env x st ?v = (Inr (Some (Switched, go_busy_delay x)), ?v\<lparr>ug_world := w'\<rparr>)"
      by (simp add: inner_switch_def bindS_def w'(1) retS_def)
    have only: "writes_only (x\<lparr>go_busy := True\<rparr>) (ug_world ?v) w'" using w'(2) by (simp add: writes_only_def)
    show ?thesis using True Some settle_eqs(1) [of "inner_switch env x st", OF m, of ch wait]
        lines_update [OF v(2,3,5) only, of "go_await_update (\<lambda>_. Some (Switched, go_busy_delay x, wait))"]
      by (simp add: ug_switch_def output_switch_def getS_def v(1))
  qed
qed

lemma pulse_lines:
  assumes "wired u" "lines_ok u"
  shows "lines_ok (snd (ug_pulse env ch delay wait u))"
proof (cases "map_of (ug_outputs u) ch")
  case None
  then show ?thesis using assms by (simp add: ug_pulse_def getS_def raiseS_def)
next
  case (Some x)
  show ?thesis
  proof (cases "go_pulse_delay x \<noteq> 0 \<and> \<not> go_busy x")
    case False
    then show ?thesis using assms Some
      by (auto simp: ug_pulse_def output_pulse_def run_action_def region_enter_def getS_def raiseS_def bindS_def)
  next
    case True
    let ?v = "u\<lparr>ug_outputs := upd_out ch (\<lambda>x. x\<lparr>go_busy := True\<rparr>) (ug_outputs u), ug_notifier := ug_notifier u @ [0]\<rparr>"
    let ?f = "go_await_update (\<lambda>_. Some (Held, pulse_time x delay, wait))"
    note v = entered [OF assms Some conjunct2 [OF True]]
    obtain w' where w': "output_write env x True ?v = (Inr (), ?v\<lparr>ug_world := w'\<rparr>)" "writes_only x (ug_world ?v) w'"
        "(level w' (go_driver x) (go_pin x) \<noteq> go_inverted x) = True"
      using write_done [OF v(4)] by blast
    have m: "inner_pulse env x (pulse_time x delay) ?v = (Inr (Some (Held, pulse_time x delay)), ?v\<lparr>ug_world := w'\<rparr>)"
      by (simp add: inner_pulse_def exceptS_def bindS_def w'(1) retS_def)
    have only: "writes_only (x\<lparr>go_busy := True\<rparr>) (ug_world ?v) w'" using w'(2) by (simp add: writes_only_def)
    show ?thesis using True Some settle_eqs(1) [of "inner_pulse env x (pulse_time x delay)", OF m, of ch wait] w'(3)
        lines_update [OF v(2,3,5) only, of ?f]
      by (simp add: ug_pulse_def output_pulse_def getS_def v(1) is_held_def)
  qed
qed

lemma wake_lines:
  assumes "wired u" "lines_ok u"
  shows "lines_ok (snd (ug_wake env ch u))"
proof (cases "map_of (ug_outputs u) ch")
  case None
  then show ?thesis using assms by (simp add: ug_wake_def getS_def retS_def)
next
  case (Some x)
  note found = Some
  show ?thesis
  proof (cases "go_await x")
    case None
    then show ?thesis using Some assms by (simp add: ug_wake_def getS_def retS_def)
  next
    case (Some t)
    obtain a d wait where t: "t = (a, d, wait)" by (cases t)
    have mem: "(ch, x) \<in> set (ug_outputs u)" using found by (rule map_of_SomeD)
    have run: "ug_wake env ch u = settle ch wait (woken env x a) u"
      using found Some t by (simp add: ug_wake_def getS_def)
    show ?thesis
    proof (cases "a = Held")
      case True
      obtain w' where w': "output_write env x False u = (Inr (), u\<lparr>ug_world := w'\<rparr>)" "writes_only x (ug_world u) w'"
          "(level w' (go_driver x) (go_pin x) \<noteq> go_inverted x) = False"
        using write_done [OF wired_channel [OF assms(1) found]] by blast
      have m: "woken env x a u = (Inr (Some (Released None, go_busy_delay x)), u\<lparr>ug_world := w'\<rparr>)"
        by (simp add: True pulse_finally_def bindS_def w'(1) retS_def)
      show ?thesis unfolding run settle_eqs(1) [of "woken env x a", OF m]
        using lines_update [OF assms mem w'(2), of "go_await_update (\<lambda>_. Some (Released None, go_busy_delay x, wait))"] w'(3)
        by (simp add: is_held_def)
    next
      case False
      then have m: "woken env x a u = (Inr None, u) \<or> woken env x a u = (Inl (case a of Released (Some e) \<Rightarrow> e | _ \<Rightarrow> RuntimeError), u)"
        by (cases a rule: gpio_await.exhaust) (auto simp: retS_def raiseS_def split: option.splits)
      have nh: "\<not> is_held x" using False Some t by (cases a) (auto simp: is_held_def)
      have quiet: "\<not> go_switch x \<Longrightarrow> \<not> (level (ug_world u) (go_driver x) (go_pin x) \<noteq> go_inverted x)"
        using assms(2) mem nh by (auto simp: lines_ok_def)
      show ?thesis unfolding run settle_eqs(2) [of "woken env x a", OF m]
        using lines_update [OF assms mem writes_only_refl, of "\<lambda>x. x\<lparr>go_busy := False, go_await := None\<rparr>"] quiet
        by (auto simp: is_held_def lines_ok_def)
    qed
  qed
qed

lemma event_lines:
  assumes "wired u" "lines_ok u" "ev e (ug_world u) = (n, w')"
  shows "lines_ok (u\<lparr>ug_world := w'\<rparr>)"
  using assms outputs_stay [OF assms(3)] by (fastforce simp: lines_ok_def wired_def)

theorem step_lines: "run_ok r \<Longrightarrow> lines_ok (gr_gpio r) \<Longrightarrow> lines_ok (gr_gpio (gpio_step env ev act r))"
proof -
  assume r: "run_ok r" and l: "lines_ok (gr_gpio r)"
  then have w: "wired (gr_gpio r)" by (simp add: run_ok_def)
  show ?thesis
  proof (cases act)
    case (DriverEvent e)
    obtain n w' where e: "ev e (ug_world (gr_gpio r)) = (n, w')" by fastforce
    show ?thesis using DriverEvent e event_lines [OF w l e] by (simp add: Let_def notifyG_def modifyS_def)
  next
    case PollTurn
    have "get_io_state env ((gr_gpio r)\<lparr>ug_notifier := []\<rparr>) = (Inr (truth (gr_gpio r)), (gr_gpio r)\<lparr>ug_notifier := []\<rparr>)"
      using io_state_eq [of "(gr_gpio r)\<lparr>ug_notifier := []\<rparr>"] w by simp
    then show ?thesis using PollTurn l by (simp add: io_poll_def getS_def bindS_def modifyS_def Let_def retS_def)
  qed (use switch_lines [OF w l] pulse_lines [OF w l] wake_lines [OF w l] l in
      \<open>simp_all add: trigger_state_def notifyG_def modifyS_def\<close>)
qed

theorem run_lines: "run_ok r \<Longrightarrow> lines_ok (gr_gpio r) \<Longrightarrow> lines_ok (gr_gpio (gpio_run env ev acts r))"
  by (induction acts arbitrary: r) (simp_all add: gpio_run_def step_ok step_lines)

text \<open>An action ends: a pulse at the second end of a sleep, everything else at the first.\<close>

lemma wake_ends:
  assumes "wired u" "regions_held u" "(ch, y) \<in> set (ug_outputs (snd (ug_wake env ch u)))"
  shows "\<exists>x. (ch, x) \<in> set (ug_outputs u) \<and> (if is_held x then (\<exists>p d w. go_await y = Some (Released p, d, w)) else go_await y = None)"
proof (cases "map_of (ug_outputs u) ch")
  case None
  then have "(ch, y) \<in> set (ug_outputs u)" using assms(3) by (simp add: ug_wake_def getS_def retS_def)
  with None show ?thesis by (force simp: map_of_eq_None_iff)
next
  case (Some x)
  note found = Some
  have mem: "(ch, x) \<in> set (ug_outputs u)" using found by (rule map_of_SomeD)
  have mine: "z = x" if "(ch, z) \<in> set (ug_outputs u)" for z
    using assms(1) that mem by (auto simp: wired_def dict_wf_def dest: eq_key_imp_eq_value)
  show ?thesis
  proof (cases "go_await x")
    case None
    then have "y = x" using assms(3) mine found by (simp add: ug_wake_def getS_def retS_def)
    then show ?thesis using mem None by (intro exI [of _ x]) (simp add: is_held_def)
  next
    case (Some t)
    obtain a d wait where t: "t = (a, d, wait)" by (cases t)
    have run: "ug_wake env ch u = settle ch wait (woken env x a) u"
      using found Some t by (simp add: ug_wake_def getS_def)
    show ?thesis
    proof (cases "a = Held")
      case True
      obtain w' where w': "output_write env x False u = (Inr (), u\<lparr>ug_world := w'\<rparr>)"
        using write_done [OF wired_channel [OF assms(1) found]] by blast
      have m: "woken env x a u = (Inr (Some (Released None, go_busy_delay x)), u\<lparr>ug_world := w'\<rparr>)"
        by (simp add: True pulse_finally_def bindS_def w' retS_def)
      have "is_held x" using Some t True by (simp add: is_held_def)
      moreover have "(ch, y) \<in> set (upd_out ch (\<lambda>x. x\<lparr>go_await := Some (Released None, go_busy_delay x, wait)\<rparr>) (ug_outputs u)) \<or>
          y = x\<lparr>go_await := Some (Released None, go_busy_delay x, wait)\<rparr>"
        using assms(3) by (auto simp: run settle_eqs(1) [of "woken env x a", OF m] upd_out_def split: if_splits dest!: mine)
      then have "y = x\<lparr>go_await := Some (Released None, go_busy_delay x, wait)\<rparr>"
        by (auto simp: upd_out_def split: if_splits dest!: mine)
      ultimately show ?thesis using mem by (intro exI [of _ x]) simp
    next
      case False
      then have m: "woken env x a u = (Inr None, u) \<or> woken env x a u = (Inl (case a of Released (Some e) \<Rightarrow> e | _ \<Rightarrow> RuntimeError), u)"
        by (cases a rule: gpio_await.exhaust) (auto simp: retS_def raiseS_def split: option.splits)
      have nh: "\<not> is_held x" using False Some t by (cases a) (auto simp: is_held_def)
      have "y = x\<lparr>go_busy := False, go_await := None\<rparr>" using assms(3)
        by (auto simp: run settle_eqs(2) [of "woken env x a", OF m] upd_out_def split: if_splits dest!: mine)
      with nh mem show ?thesis by (intro exI [of _ x]) simp
    qed
  qed
qed

lemma two_wakes_free:
  assumes "run_ok r" "(ch, y) \<in> set (ug_outputs (gr_gpio (gpio_step env ev (Wake ch) (gpio_step env ev (Wake ch) r))))"
  shows "\<not> go_busy y"
proof -
  let ?r1 = "gpio_step env ev (Wake ch) r"
  have ok1: "run_ok ?r1" using step_ok [OF assms(1)] .
  have ok2: "run_ok (gpio_step env ev (Wake ch) ?r1)" using step_ok [OF ok1] .
  obtain x1 where x1: "(ch, x1) \<in> set (ug_outputs (gr_gpio ?r1))"
      "if is_held x1 then (\<exists>p d w. go_await y = Some (Released p, d, w)) else go_await y = None"
    using wake_ends [of "gr_gpio ?r1" ch y] ok1 assms(2) by (auto simp: run_ok_def)
  obtain x where "if is_held x then (\<exists>p d w. go_await x1 = Some (Released p, d, w)) else go_await x1 = None"
    using wake_ends [of "gr_gpio r" ch x1] assms(1) x1(1) by (auto simp: run_ok_def)
  then have "\<not> is_held x1" by (auto simp: is_held_def split: if_splits)
  with x1(2) have "go_await y = None" by simp
  then show ?thesis using ok2 assms(2) by (fastforce simp: run_ok_def regions_held_def)
qed

end

end
