(* ===== verification/GpioDriver.thy ===== *)
theory GpioDriver
  imports UserGpio
begin

text \<open>
  The driver of the lines of the board (\<open>kvmd/plugins/ugpio/gpio.py\<close>) with the reader of the inputs and
  its debouncing (\<open>kvmd/aiogp.py\<close>).  The lines are levels that the outside changes; the thread of the
  reader and the consumers of the debounced values run in events.
\<close>

section \<open>Debounced values\<close>

record debounced =
  dv_value :: bool
  dv_queue :: "bool list"
  dv_sleeping :: bool

definition mk_debounced :: "bool \<Rightarrow> debounced" where
  "mk_debounced initial = \<lparr>dv_value = initial, dv_queue = [], dv_sleeping = False\<rparr>"

definition dv_set :: "bool \<Rightarrow> debounced \<Rightarrow> debounced" where
  "dv_set v d = d\<lparr>dv_queue := dv_queue d @ [v]\<rparr>"

text \<open>
  A turn of the consumer drains the queue, takes the last value, notifies when it is new, and sleeps.
\<close>

definition dv_turn :: "debounced \<Rightarrow> bool \<times> debounced" where
  "dv_turn d =
     (if dv_sleeping d \<or> dv_queue d = [] then (False, d)
      else (dv_value d \<noteq> last (dv_queue d), \<lparr>dv_value = last (dv_queue d), dv_queue = [], dv_sleeping = True\<rparr>))"

definition dv_wake :: "debounced \<Rightarrow> debounced" where
  "dv_wake d = d\<lparr>dv_sleeping := False\<rparr>"

section \<open>The reader\<close>

record aio_reader =
  ar_pins :: "(int, bool \<times> rat) dict"
  ar_values :: "(int, debounced) dict option"

definition mk_reader :: "(int, bool \<times> rat) dict \<Rightarrow> aio_reader" where
  "mk_reader pins = \<lparr>ar_pins = pins, ar_values = None\<rparr>"

definition reader_get :: "aio_reader \<Rightarrow> int \<Rightarrow> bool result" where
  "reader_get rd pin =
     bindR (case ar_values rd of None \<Rightarrow> Inr False | Some vs \<Rightarrow> bindR (dict_at vs pin) (\<lambda>d. Inr (dv_value d))) (\<lambda>v.
     bindR (dict_at (ar_pins rd) pin) (\<lambda>(inverted, debounce). Inr (v \<noteq> inverted)))"

definition map_values :: "(int \<Rightarrow> debounced \<Rightarrow> debounced) \<Rightarrow> aio_reader \<Rightarrow> aio_reader" where
  "map_values f rd = rd\<lparr>ar_values := map_option (map (\<lambda>(pin, d). (pin, f pin d))) (ar_values rd)\<rparr>"

definition reader_start :: "(int \<Rightarrow> bool) \<Rightarrow> aio_reader \<Rightarrow> aio_reader" where
  "reader_start lines rd =
     rd\<lparr>ar_values := Some (map (\<lambda>pin. (pin, mk_debounced (lines pin))) (sort (map fst (ar_pins rd))))\<rparr>"

text \<open>The events of one read, of which the last one of a pin counts.\<close>

definition reader_edges :: "(int \<times> bool) list \<Rightarrow> aio_reader \<Rightarrow> aio_reader" where
  "reader_edges evs = map_values (\<lambda>pin d. case map_of (rev evs) pin of None \<Rightarrow> d | Some v \<Rightarrow> dv_set v d)"

definition reader_timeout :: "(int \<Rightarrow> bool) \<Rightarrow> aio_reader \<Rightarrow> aio_reader" where
  "reader_timeout lines = map_values (\<lambda>pin d. dv_set (lines pin) d)"

section \<open>The plugin\<close>

text \<open>
  \<open>gp_lines\<close> are the levels of the input lines, \<open>gp_req\<close> those of the requested output lines.  A request
  that was released raises an exception of \<open>gpiod\<close>, which stands here as \<open>RuntimeError\<close>.
\<close>

record gpio_plugin =
  gp_input_pins :: "(int, bool \<times> rat) dict"
  gp_output_pins :: "(int, bool option) dict"
  gp_reader :: "aio_reader option"
  gp_req :: "(int, bool) dict option"
  gp_released :: bool
  gp_chip_ok :: bool
  gp_lines :: "int \<Rightarrow> bool"

type_synonym gpio_world = "string \<Rightarrow> gpio_plugin"

definition plugS :: "string \<Rightarrow> (gpio_plugin, 'a) sm \<Rightarrow> (gpio_world, 'a) sm" where
  "plugS name m w = (case m (w name) of (r, g) \<Rightarrow> (r, w(name := g)))"

text \<open>\<open>int(pin)\<close>: the pins were made by \<open>str\<close> from numbers that are not negative.\<close>

definition pin_digit :: "char \<Rightarrow> int" where
  "pin_digit c = int (of_char c) - 48"

definition pin_int :: "string \<Rightarrow> int result" where
  "pin_int s =
     (if s = [] \<or> \<not> list_all (\<lambda>c. 0 \<le> pin_digit c \<and> pin_digit c \<le> 9) s then Inl ValueError
      else Inr (foldl (\<lambda>n c. 10 * n + pin_digit c) 0 s))"

definition gpio_register_input :: "string \<Rightarrow> rat \<Rightarrow> (gpio_plugin, unit) sm" where
  "gpio_register_input pin debounce = bindS (liftS (pin_int pin)) (\<lambda>p.
     modifyS (\<lambda>g. g\<lparr>gp_input_pins := AList.update p (False, debounce) (gp_input_pins g)\<rparr>))"

definition gpio_register_output :: "string \<Rightarrow> bool option \<Rightarrow> (gpio_plugin, unit) sm" where
  "gpio_register_output pin initial = bindS (liftS (pin_int pin)) (\<lambda>p.
     modifyS (\<lambda>g. g\<lparr>gp_output_pins := AList.update p initial (gp_output_pins g)\<rparr>))"

definition gpio_prepare :: "(gpio_plugin, unit) sm" where
  "gpio_prepare = getS (\<lambda>g.
     assertS (gp_reader g = None) (assertS (gp_req g = None) (
     bindS (modifyS (\<lambda>g. g\<lparr>gp_reader := Some (mk_reader (gp_input_pins g))\<rparr>)) (\<lambda>_.
     if gp_output_pins g = [] then retS ()
     else if \<not> gp_chip_ok g then raiseS OSError
     else modifyS (\<lambda>g. g\<lparr>gp_req := Some (map (\<lambda>(p, initial). (p, initial = Some True)) (gp_output_pins g))\<rparr>)))))"

definition gpio_read :: "string \<Rightarrow> (gpio_plugin, bool) sm" where
  "gpio_read pin = getS (\<lambda>g. case gp_reader g of
       None \<Rightarrow> raiseS AssertionError
     | Some rd \<Rightarrow>
         bindS (liftS (pin_int pin)) (\<lambda>p.
         if dict_has (gp_input_pins g) p then liftS (reader_get rd p)
         else (case gp_req g of
           None \<Rightarrow> raiseS AssertionError
         | Some req \<Rightarrow> assertS (dict_has (gp_output_pins g) p)
             (if gp_released g then raiseS RuntimeError else liftS (dict_at req p)))))"

definition gpio_write :: "string \<Rightarrow> bool \<Rightarrow> (gpio_plugin, unit) sm" where
  "gpio_write pin st = getS (\<lambda>g. case gp_req g of
       None \<Rightarrow> raiseS AssertionError
     | Some req \<Rightarrow>
         bindS (liftS (pin_int pin)) (\<lambda>p.
         assertS (dict_has (gp_output_pins g) p)
           (if gp_released g then raiseS RuntimeError else modifyS (\<lambda>g. g\<lparr>gp_req := Some (AList.update p st req)\<rparr>))))"

definition gpio_cleanup :: "(gpio_plugin, unit) sm" where
  "gpio_cleanup = modifyS (\<lambda>g. if gp_req g = None then g else g\<lparr>gp_released := True\<rparr>)"

definition gpio_env :: "gpio_world gpio_env" where
  "gpio_env = \<lparr>gd_register_input = (\<lambda>d pin deb. plugS d (gpio_register_input pin deb)),
     gd_register_output = (\<lambda>d pin i. plugS d (gpio_register_output pin i)),
     gd_prepare = (\<lambda>d. plugS d gpio_prepare), gd_read = (\<lambda>d pin. plugS d (gpio_read pin)),
     gd_write = (\<lambda>d pin v. plugS d (gpio_write pin v)), gd_cleanup = (\<lambda>d. plugS d gpio_cleanup)\<rparr>"

text \<open>What happens in the thread of the reader and in the consumers; the flag tells that the notifier is called.\<close>

datatype gpio_event =
    LineLevel int bool
  | ReaderStart
  | ReaderEdges "(int \<times> bool) list"
  | ReaderTimeout
  | DebounceTurn int
  | DebounceWake int

definition turn_pin :: "int \<Rightarrow> aio_reader \<Rightarrow> bool \<times> aio_reader" where
  "turn_pin pin rd = (case ar_values rd of
       None \<Rightarrow> (False, rd)
     | Some vs \<Rightarrow> (case map_of vs pin of
         None \<Rightarrow> (False, rd)
       | Some d \<Rightarrow> (fst (dv_turn d), map_values (\<lambda>p x. if p = pin then snd (dv_turn x) else x) rd)))"

definition reader_event :: "(int \<Rightarrow> bool) \<Rightarrow> gpio_event \<Rightarrow> aio_reader \<Rightarrow> bool \<times> aio_reader" where
  "reader_event lines e rd = (case e of
       LineLevel p v \<Rightarrow> (False, rd)
     | ReaderStart \<Rightarrow> if ar_values rd = None \<and> ar_pins rd \<noteq> [] then (True, reader_start lines rd) else (False, rd)
     | ReaderEdges evs \<Rightarrow> (False, reader_edges evs rd)
     | ReaderTimeout \<Rightarrow> (False, reader_timeout lines rd)
     | DebounceTurn p \<Rightarrow> turn_pin p rd
     | DebounceWake p \<Rightarrow> (False, map_values (\<lambda>q d. if q = p then dv_wake d else d) rd))"

definition plugin_event :: "gpio_event \<Rightarrow> gpio_plugin \<Rightarrow> bool \<times> gpio_plugin" where
  "plugin_event e g = (case e of
       LineLevel p v \<Rightarrow> (False, g\<lparr>gp_lines := (gp_lines g)(p := v)\<rparr>)
     | _ \<Rightarrow> (case gp_reader g of
           None \<Rightarrow> (False, g)
         | Some rd \<Rightarrow> (case reader_event (gp_lines g) e rd of (n, rd') \<Rightarrow> (n, g\<lparr>gp_reader := Some rd'\<rparr>))))"

definition gpio_event :: "string \<times> gpio_event \<Rightarrow> gpio_world \<Rightarrow> bool \<times> gpio_world" where
  "gpio_event = (\<lambda>(name, e) w. case plugin_event e (w name) of (n, g) \<Rightarrow> (n, w(name := g)))"

section \<open>What a reader gives\<close>

text \<open>A reader that watches a pin always gives its value, and changes it only with a notification.\<close>

definition reader_has :: "aio_reader \<Rightarrow> int \<Rightarrow> bool" where
  "reader_has rd n = (dict_has (ar_pins rd) n \<and> (case ar_values rd of None \<Rightarrow> True | Some vs \<Rightarrow> map fst vs = sort (map fst (ar_pins rd))))"

lemma map_of_keyed: "map_of (map (\<lambda>(k, v). (k, f k v)) xs) k = map_option (f k) (map_of xs k)"
  by (induction xs) auto

lemma reader_get_ok:
  assumes "reader_has rd n"
  shows "\<exists>v. reader_get rd n = Inr v"
proof (cases "ar_values rd")
  case None
  then show ?thesis using assms by (auto simp: reader_get_def reader_has_def dict_at_def dict_has_def split: option.splits)
next
  case (Some vs)
  then have "set (map fst vs) = set (map fst (ar_pins rd))" using assms by (simp add: reader_has_def)
  moreover have "n \<in> set (map fst (ar_pins rd))" using assms by (force simp: reader_has_def dict_has_def dest: map_of_SomeD)
  ultimately obtain d where "map_of vs n = Some d"
    by (metis not_None_eq map_of_eq_None_iff list.set_map)
  then show ?thesis using Some assms by (auto simp: reader_get_def reader_has_def dict_at_def dict_has_def split: option.splits)
qed

lemma reader_get_keyed:
  assumes "\<And>d. map_of (case ar_values rd of None \<Rightarrow> [] | Some vs \<Rightarrow> vs) n = Some d \<Longrightarrow> dv_value (f n d) = dv_value d"
  shows "reader_get (map_values f rd) n = reader_get rd n"
  using assms by (auto simp: reader_get_def map_values_def dict_at_def map_of_keyed split: option.splits)

lemma reader_has_keyed: "reader_has (map_values f rd) n = reader_has rd n"
  by (cases "ar_values rd") (simp_all add: reader_has_def map_values_def comp_def case_prod_unfold)

lemma reader_has_start: "reader_has rd n \<Longrightarrow> ar_values rd = None \<Longrightarrow> reader_has (reader_start lines rd) n"
  by (simp add: reader_has_def reader_start_def comp_def)

lemma dv_turn_quiet: "\<not> fst (dv_turn d) \<Longrightarrow> dv_value (snd (dv_turn d)) = dv_value d"
  by (auto simp: dv_turn_def split: if_splits)

lemma reader_event_input:
  assumes "reader_event lines e rd = (n, rd')" "reader_has rd p"
  shows "reader_has rd' p \<and> (\<not> n \<longrightarrow> reader_get rd' p = reader_get rd p)"
proof -
  have timeout: "reader_get (reader_timeout l rd) p = reader_get rd p" for l
    unfolding reader_timeout_def by (rule reader_get_keyed) (simp add: dv_set_def)
  have edges: "reader_get (reader_edges evs rd) p = reader_get rd p" for evs
    unfolding reader_edges_def by (rule reader_get_keyed) (simp add: dv_set_def split: option.splits)
  have wake: "reader_get (map_values (\<lambda>q d. if q = k then dv_wake d else d) rd) p = reader_get rd p" for k
    by (rule reader_get_keyed) (simp add: dv_wake_def)
  have turn: "reader_has (snd (turn_pin k rd)) p \<and> (\<not> fst (turn_pin k rd) \<longrightarrow> reader_get (snd (turn_pin k rd)) p = reader_get rd p)" for k
    using assms(2)
    by (auto simp: turn_pin_def reader_has_keyed split: option.splits intro!: reader_get_keyed) (auto simp: dv_turn_quiet split: if_splits)
  show ?thesis
  proof (cases e)
    case (DebounceTurn k)
    then show ?thesis using assms turn [of k] by (auto simp: reader_event_def split: prod.splits)
  qed (use assms timeout edges wake in \<open>auto simp: reader_event_def reader_has_start reader_edges_def reader_timeout_def reader_has_keyed
      split: if_splits\<close>)
qed

end
