(* ===== verification/GpioRuns.thy ===== *)
theory GpioRuns
  imports UserGpioSafe GpioDriver
begin

text \<open>
  The GPIO channels over the lines of the board: the driver keeps its contract, so that what is proved
  over every driver holds of the runs of the two together, from the start of the daemon on.
\<close>

section \<open>Pins\<close>

definition pin_value :: "string \<Rightarrow> int" where
  "pin_value s = foldl (\<lambda>n c. 10 * n + pin_digit c) 0 s"

definition pin_digits :: "string \<Rightarrow> bool" where
  "pin_digits s = list_all (\<lambda>c. 0 \<le> pin_digit c \<and> pin_digit c \<le> 9) s"

text \<open>\<open>str\<close> writes no leading zeros.\<close>

definition pin_text :: "string \<Rightarrow> bool" where
  "pin_text s = (pin_digits s \<and> s \<noteq> [] \<and> (s = ''0'' \<or> pin_digit (hd s) \<noteq> 0))"

lemma pin_int_value: "pin_text s \<Longrightarrow> pin_int s = Inr (pin_value s)"
  by (simp add: pin_int_def pin_text_def pin_digits_def pin_value_def)

lemma pin_value_snoc: "pin_value (s @ [c]) = 10 * pin_value s + pin_digit c"
  by (simp add: pin_value_def)

lemma pin_value_pos: "pin_digits s \<Longrightarrow> s \<noteq> [] \<Longrightarrow> pin_digit (hd s) \<noteq> 0 \<Longrightarrow> 0 < pin_value s"
proof (induction s rule: rev_induct)
  case (snoc c s)
  then show ?case by (cases "s = []") (auto simp: pin_value_snoc pin_digits_def pin_value_def)
qed simp

lemma pin_digit_inj: "pin_digit c = pin_digit c' \<Longrightarrow> c = c'"
  by (simp add: pin_digit_def)

lemma pin_value_inj:
  assumes "pin_digits s" "pin_digits t" "s = [] \<or> pin_digit (hd s) \<noteq> 0" "t = [] \<or> pin_digit (hd t) \<noteq> 0"
    and "pin_value s = pin_value t"
  shows "s = t"
  using assms
proof (induction s arbitrary: t rule: rev_induct)
  case Nil
  then show ?case using pin_value_pos [of t] by (auto simp: pin_value_def)
next
  case (snoc c s)
  have "0 < pin_value (s @ [c])" using snoc.prems by (intro pin_value_pos) auto
  then obtain t' c' where t: "t = t' @ [c']"
    using snoc.prems(5) by (cases t rule: rev_cases) (auto simp: pin_value_def)
  have d: "0 \<le> pin_digit c" "pin_digit c \<le> 9" "0 \<le> pin_digit c'" "pin_digit c' \<le> 9"
    using snoc.prems by (auto simp: t pin_digits_def)
  have "10 * pin_value s + pin_digit c = 10 * pin_value t' + pin_digit c'"
    using snoc.prems(5) by (simp add: t pin_value_snoc)
  then have e: "pin_value s = pin_value t'" "pin_digit c = pin_digit c'" using d by presburger+
  have "s = t'"
    by (rule snoc.IH) (use snoc.prems e t in \<open>auto simp: pin_digits_def hd_append split: if_splits\<close>)
  with e(2) show ?case using pin_digit_inj t by simp
qed

lemma pin_int_inj: "pin_text s \<Longrightarrow> pin_text t \<Longrightarrow> pin_value s = pin_value t \<Longrightarrow> s = t"
  using pin_value_pos [of s] pin_value_pos [of t] pin_value_inj [of s t]
  by (auto simp: pin_text_def pin_digits_def) (auto simp: pin_value_def pin_digit_def)

section \<open>The contract\<close>

definition gpio_input_ok :: "gpio_plugin \<Rightarrow> string \<Rightarrow> bool" where
  "gpio_input_ok g p = (pin_text p \<and> dict_has (gp_input_pins g) (pin_value p)
     \<and> (case gp_reader g of None \<Rightarrow> False | Some rd \<Rightarrow> reader_has rd (pin_value p)))"

definition gpio_writable :: "gpio_world \<Rightarrow> string \<Rightarrow> string \<Rightarrow> bool" where
  "gpio_writable w d p = (pin_text p \<and> \<not> dict_has (gp_input_pins (w d)) (pin_value p) \<and> gp_reader (w d) \<noteq> None
     \<and> dict_has (gp_output_pins (w d)) (pin_value p) \<and> \<not> gp_released (w d)
     \<and> (case gp_req (w d) of None \<Rightarrow> False | Some req \<Rightarrow> dict_has req (pin_value p)))"

definition gpio_readable :: "gpio_world \<Rightarrow> string \<Rightarrow> string \<Rightarrow> bool" where
  "gpio_readable w d p = (gpio_input_ok (w d) p \<or> gpio_writable w d p)"

definition gpio_online :: "gpio_world \<Rightarrow> string \<Rightarrow> bool" where
  "gpio_online w d = True"

definition gpio_level :: "gpio_world \<Rightarrow> string \<Rightarrow> string \<Rightarrow> bool" where
  "gpio_level w d p = fromR False (fst (gpio_read p (w d)))"

lemma gpio_read_ok:
  assumes "gpio_readable w d p"
  shows "gpio_read p (w d) = (Inr (gpio_level w d p), w d)"
proof -
  have "\<exists>v. gpio_read p (w d) = (Inr v, w d)"
  proof (cases "gpio_writable w d p")
    case True
    then show ?thesis
      by (auto simp: gpio_writable_def gpio_read_def getS_def bindS_def liftS_def assertS_def retS_def pin_int_value dict_at_def dict_has_def
          split: option.splits)
  next
    case False
    then have "gpio_input_ok (w d) p" using assms by (simp add: gpio_readable_def)
    then obtain rd where rd: "pin_text p" "dict_has (gp_input_pins (w d)) (pin_value p)" "gp_reader (w d) = Some rd" "reader_has rd (pin_value p)"
      by (auto simp: gpio_input_ok_def split: option.splits)
    then show ?thesis using reader_get_ok [OF rd(4)] by (auto simp: gpio_read_def getS_def bindS_def liftS_def retS_def pin_int_value)
  qed
  then show ?thesis by (auto simp: gpio_level_def fromR_def)
qed

lemma gpio_level_input:
  assumes "gpio_input_ok (w d) p"
  shows "gpio_level w d p = fromR False (reader_get (the (gp_reader (w d))) (pin_value p))"
  using assms
  by (auto simp: gpio_input_ok_def gpio_level_def gpio_read_def getS_def bindS_def liftS_def retS_def raiseS_def pin_int_value split: option.splits)

lemma gpio_level_output:
  assumes "gpio_writable w d p"
  shows "gpio_level w d p = the (map_of (the (gp_req (w d))) (pin_value p))"
  using assms
  by (auto simp: gpio_writable_def gpio_level_def gpio_read_def getS_def bindS_def liftS_def assertS_def retS_def raiseS_def pin_int_value fromR_def
      dict_at_def dict_has_def split: option.splits)

lemma gpio_write_law:
  assumes "gpio_writable w d p" "gd_write gpio_env d p b w = (r, w')"
  shows "r = (if gpio_online w d then Inr () else Inl GpioDriverOfflineError)
      \<and> gpio_online w' = gpio_online w \<and> (\<forall>d' p'. gpio_readable w d' p' \<longrightarrow> gpio_readable w' d' p')
      \<and> (\<forall>d' p'. gpio_writable w d' p' \<longrightarrow> gpio_writable w' d' p')
      \<and> (\<forall>d' p'. gpio_readable w d' p' \<longrightarrow>
           gpio_level w' d' p' = (if d' = d \<and> p' = p \<and> gpio_online w d then b else gpio_level w d' p'))"
proof -
  let ?n = "pin_value p"
  obtain req where req: "gp_req (w d) = Some req" "dict_has req ?n" using assms(1) by (auto simp: gpio_writable_def split: option.splits)
  have p: "pin_text p" using assms(1) by (simp add: gpio_writable_def)
  have w: "w' = w(d := (w d)\<lparr>gp_req := Some (AList.update ?n b req)\<rparr>)" and r: "r = Inr ()"
    using assms by (auto simp: gpio_env_def plugS_def gpio_write_def getS_def bindS_def liftS_def assertS_def modifyS_def retS_def
        gpio_writable_def pin_int_value req(1))
  have wr: "gpio_writable w' d' p'" if "gpio_writable w d' p'" for d' p'
    using that req by (auto simp: gpio_writable_def w dict_has_def)
  have inp: "gpio_input_ok (w' d') p' = gpio_input_ok (w d') p'" for d' p' by (simp add: gpio_input_ok_def w)
  have lv: "gpio_level w' d' p' = (if d' = d \<and> p' = p then b else gpio_level w d' p')" if rd: "gpio_readable w d' p'" for d' p'
  proof (cases "gpio_writable w d' p'")
    case True
    have "pin_value p' = ?n \<longleftrightarrow> p' = p" if "d' = d" using True p pin_int_inj by (auto simp: gpio_writable_def)
    then show ?thesis using gpio_level_output [OF True] gpio_level_output [OF wr [OF True]] req by (auto simp: w)
  next
    case False
    then have i: "gpio_input_ok (w d') p'" using rd by (simp add: gpio_readable_def)
    have "\<not> (d' = d \<and> p' = p)" using False assms(1) by auto
    then show ?thesis using gpio_level_input [of w d' p', OF i] gpio_level_input [of w' d' p'] inp i by (auto simp: w)
  qed
  show ?thesis using r wr lv inp by (auto simp: gpio_online_def gpio_readable_def)
qed

lemma plugin_event_frame:
  "plugin_event e g = (n, g') \<Longrightarrow> gp_input_pins g' = gp_input_pins g \<and> gp_output_pins g' = gp_output_pins g
     \<and> gp_req g' = gp_req g \<and> gp_released g' = gp_released g \<and> (gp_reader g' = None \<longleftrightarrow> gp_reader g = None)"
  by (auto simp: plugin_event_def split: option.splits gpio_event.splits if_splits prod.splits)

lemma plugin_event_input:
  assumes "plugin_event e g = (n, g')" "gp_reader g = Some rd" "reader_has rd p"
  shows "\<exists>rd'. gp_reader g' = Some rd' \<and> reader_has rd' p \<and> (\<not> n \<longrightarrow> reader_get rd' p = reader_get rd p)"
proof (cases "\<exists>q v. e = LineLevel q v")
  case True
  then show ?thesis using assms by (auto simp: plugin_event_def)
next
  case False
  obtain m rd' where rd': "reader_event (gp_lines g) e rd = (m, rd')" by fastforce
  then have "n = m" "g' = g\<lparr>gp_reader := Some rd'\<rparr>" using False assms(1,2) by (cases e; simp add: plugin_event_def)+
  then show ?thesis using reader_event_input [OF rd' assms(3)] by simp
qed

lemma gpio_event_law:
  assumes "gpio_event e w = (n, w')"
  shows "(\<forall>d' p'. gpio_readable w d' p' \<longrightarrow> gpio_readable w' d' p') \<and> (\<forall>d' p'. gpio_writable w d' p' \<longrightarrow> gpio_writable w' d' p')
      \<and> (\<not> n \<longrightarrow> gpio_online w' = gpio_online w \<and> (\<forall>d' p'. gpio_readable w d' p' \<longrightarrow> gpio_level w' d' p' = gpio_level w d' p'))
      \<and> (\<forall>d' p'. gpio_writable w d' p' \<longrightarrow> gpio_level w' d' p' = gpio_level w d' p')"
proof -
  obtain name ev where e: "e = (name, ev)" by fastforce
  obtain g where g: "plugin_event ev (w name) = (n, g)" and w: "w' = w(name := g)"
    using assms by (auto simp: gpio_event_def e split: prod.splits)
  note fr = plugin_event_frame [OF g]
  have wr: "gpio_writable w d' p' \<Longrightarrow> gpio_writable w' d' p'" for d' p' using fr by (auto simp: gpio_writable_def w)
  have wlv: "gpio_writable w d' p' \<Longrightarrow> gpio_level w' d' p' = gpio_level w d' p'" for d' p'
    using gpio_level_output [of w d' p'] gpio_level_output [OF wr, of d' p'] fr by (auto simp: w)
  have inp: "gpio_input_ok (w' d') p' \<and> (\<not> n \<longrightarrow> gpio_level w' d' p' = gpio_level w d' p')" if i: "gpio_input_ok (w d') p'" for d' p'
  proof (cases "d' = name")
    case True
    obtain rd where rd: "gp_reader (w name) = Some rd" "reader_has rd (pin_value p')"
      using i True by (auto simp: gpio_input_ok_def split: option.splits)
    obtain rd' where rd': "gp_reader g = Some rd'" "reader_has rd' (pin_value p')"
        "\<not> n \<longrightarrow> reader_get rd' (pin_value p') = reader_get rd (pin_value p')"
      using plugin_event_input [OF g rd] by auto
    have ok': "gpio_input_ok (w' d') p'" using i rd' fr True by (simp add: gpio_input_ok_def w)
    show ?thesis using gpio_level_input [of w d' p', OF i] gpio_level_input [of w' d' p', OF ok'] ok' rd rd' True by (simp add: w)
  next
    case False
    then show ?thesis using i gpio_level_input [of w d' p', OF i] gpio_level_input [of w' d' p'] by (simp add: w)
  qed
  show ?thesis using wr wlv inp by (auto simp: gpio_readable_def gpio_online_def)
qed

interpretation board: steady_driver gpio_env gpio_event gpio_readable gpio_writable gpio_online gpio_level
proof unfold_locales
  show "gd_read gpio_env d p w = (if gpio_online w d then Inr (gpio_level w d p) else Inl GpioDriverOfflineError, w)"
    if "gpio_readable w d p" for w d p
    using gpio_read_ok [OF that] by (simp add: gpio_env_def plugS_def gpio_online_def)
next
  fix w d p b r w'
  assume "gpio_writable w d p" "gd_write gpio_env d p b w = (r, w')"
  from gpio_write_law [OF this] show "r = (if gpio_online w d then Inr () else Inl GpioDriverOfflineError)
      \<and> gpio_online w' = gpio_online w \<and> (\<forall>d' p'. gpio_readable w d' p' \<longrightarrow> gpio_readable w' d' p')
      \<and> (\<forall>d' p'. gpio_writable w d' p' \<longrightarrow> gpio_writable w' d' p')
      \<and> (\<forall>d' p'. gpio_readable w d' p' \<longrightarrow>
           gpio_level w' d' p' = (if d' = d \<and> p' = p \<and> gpio_online w d then b else gpio_level w d' p'))" .
next
  fix e w n w'
  assume "gpio_event e w = (n, w')"
  note law = gpio_event_law [OF this]
  from law show "(\<forall>d' p'. gpio_readable w d' p' \<longrightarrow> gpio_readable w' d' p') \<and> (\<forall>d' p'. gpio_writable w d' p' \<longrightarrow> gpio_writable w' d' p')
      \<and> (\<not> n \<longrightarrow> gpio_online w' = gpio_online w \<and> (\<forall>d' p'. gpio_readable w d' p' \<longrightarrow> gpio_level w' d' p' = gpio_level w d' p'))"
    by (elim conjE) (intro conjI)
  fix d p
  assume "gpio_writable w d p"
  with law show "gpio_level w' d p = gpio_level w d p" by blast
qed (simp add: gpio_online_def)

section \<open>The start of the daemon\<close>

text \<open>The plugins before anything is registered, and a configuration in which every channel has a pin of its own.\<close>

definition fresh_plugins :: "gpio_world \<Rightarrow> bool" where
  "fresh_plugins w = (\<forall>d. gp_input_pins (w d) = [] \<and> gp_output_pins (w d) = [] \<and> gp_reader (w d) = None
     \<and> gp_req (w d) = None \<and> \<not> gp_released (w d))"

definition channels_ok :: "(pytext \<times> gpio_channel) list \<Rightarrow> bool" where
  "channels_ok chs = (distinct (map fst chs) \<and> distinct (map (\<lambda>(ch, c). (gc_driver c, gc_pin c)) chs)
     \<and> list_all (\<lambda>(ch, c). pin_text (gc_pin c)) chs)"

definition has_mode :: "gpio_mode \<Rightarrow> (pytext \<times> gpio_channel) set \<Rightarrow> string \<Rightarrow> int \<Rightarrow> bool" where
  "has_mode m S d n = (\<exists>ch c. (ch, c) \<in> S \<and> gc_mode c = m \<and> gc_driver c = d \<and> pin_value (gc_pin c) = n)"

definition output_from :: "(pytext \<times> gpio_channel) set \<Rightarrow> string \<Rightarrow> int \<Rightarrow> bool option \<Rightarrow> bool" where
  "output_from S d n i = (\<exists>ch c. (ch, c) \<in> S \<and> gc_mode c = ModeOutput \<and> gc_driver c = d
     \<and> pin_value (gc_pin c) = n \<and> i = map_option (\<lambda>i. i \<noteq> gc_inverted c) (gc_initial c))"

lemma output_from_insert: "output_from (insert (ch, c) S) d n i = (output_from S d n i \<or> gc_mode c = ModeOutput \<and> gc_driver c = d
     \<and> pin_value (gc_pin c) = n \<and> i = map_option (\<lambda>i. i \<noteq> gc_inverted c) (gc_initial c))"
  by (auto simp: output_from_def)

text \<open>The facade and the plugins after the channels of \<open>S\<close> were registered.\<close>

definition registered :: "(pytext \<times> gpio_channel) set \<Rightarrow> gpio_world ugpio \<Rightarrow> bool" where
  "registered S u = (dict_wf (ug_inputs u) \<and> dict_wf (ug_outputs u) \<and> ug_notifier u = []
     \<and> (\<forall>(ch, i) \<in> set (ug_inputs u). \<exists>c. (ch, c) \<in> S \<and> gc_mode c = ModeInput \<and> gi_driver i = gc_driver c \<and> gi_pin i = gc_pin c)
     \<and> (\<forall>(ch, x) \<in> set (ug_outputs u). \<not> go_busy x \<and> go_await x = None
          \<and> (\<exists>c. (ch, c) \<in> S \<and> gc_mode c = ModeOutput \<and> go_driver x = gc_driver c \<and> go_pin x = gc_pin c
               \<and> go_inverted x = gc_inverted c \<and> go_switch x = gc_switch c))
     \<and> (\<forall>(ch, c) \<in> S. gc_driver c \<in> set (ug_drivers u))
     \<and> (\<forall>d n. dict_has (gp_input_pins (ug_world u d)) n = has_mode ModeInput S d n)
     \<and> (\<forall>d n. dict_has (gp_output_pins (ug_world u d)) n = has_mode ModeOutput S d n)
     \<and> (\<forall>d n i. map_of (gp_output_pins (ug_world u d)) n = Some i \<longrightarrow> output_from S d n i)
     \<and> (\<forall>d. gp_reader (ug_world u d) = None \<and> gp_req (ug_world u d) = None \<and> \<not> gp_released (ug_world u d)))"

lemma update_member: "x \<in> set (AList.update k v xs) \<Longrightarrow> x = (k, v) \<or> x \<in> set xs"
  by (induction xs) (auto split: if_splits)

lemma has_mode_insert:
  "has_mode m (insert (ch, c) S) d n = (has_mode m S d n \<or> gc_mode c = m \<and> gc_driver c = d \<and> pin_value (gc_pin c) = n)"
  by (auto simp: has_mode_def)

lemma mk_output_fresh:
  "mk_output c = Inr x \<Longrightarrow> \<not> go_busy x \<and> go_await x = None \<and> go_driver x = gc_driver c \<and> go_pin x = gc_pin c
     \<and> go_inverted x = gc_inverted c \<and> go_switch x = gc_switch c"
  by (auto simp: mk_output_def Let_def assertR_def split: if_splits)

lemma add_channel_registers:
  assumes "registered S u" "pin_text (gc_pin c)" "add_channel gpio_env (ch, c) u = (Inr (), u')"
  shows "registered (insert (ch, c) S) u' \<and> ug_drivers u' = ug_drivers u"
proof (cases "gc_mode c")
  case ModeInput
  have u': "gc_driver c \<in> set (ug_drivers u)"
    "u' = u\<lparr>ug_world := (ug_world u)(gc_driver c := (ug_world u (gc_driver c))\<lparr>gp_input_pins :=
        AList.update (pin_value (gc_pin c)) (False, gc_debounce c) (gp_input_pins (ug_world u (gc_driver c)))\<rparr>),
       ug_inputs := AList.update ch \<lparr>gi_pin = gc_pin c, gi_inverted = gc_inverted c, gi_driver = gc_driver c\<rparr> (ug_inputs u)\<rparr>"
    using assms(2,3) ModeInput
    by (auto simp: add_channel_def getS_def raiseS_def bindS_def driverS_def gpio_env_def plugS_def gpio_register_input_def liftS_def
        modifyS_def pin_int_value split: if_splits)
  show ?thesis using assms(1) ModeInput u'(1) unfolding u'(2)
    by (auto simp: registered_def has_mode_insert output_from_insert dict_has_def dest!: update_member)
next
  case ModeOutput
  obtain x where x: "mk_output c = Inr x" "gc_driver c \<in> set (ug_drivers u)"
    and u': "u' = u\<lparr>ug_world := (ug_world u)(gc_driver c := (ug_world u (gc_driver c))\<lparr>gp_output_pins :=
        AList.update (pin_value (gc_pin c)) (map_option (\<lambda>i. i \<noteq> gc_inverted c) (gc_initial c)) (gp_output_pins (ug_world u (gc_driver c)))\<rparr>),
       ug_outputs := AList.update ch x (ug_outputs u)\<rparr>"
    using assms(2,3) ModeOutput
    by (auto simp: add_channel_def getS_def raiseS_def bindS_def driverS_def gpio_env_def plugS_def gpio_register_output_def liftS_def
        modifyS_def pin_int_value split: if_splits sum.splits)
  show ?thesis using assms(1) ModeOutput x mk_output_fresh [OF x(1)] unfolding u'
    by (auto simp: registered_def has_mode_insert output_from_insert dict_has_def dest!: update_member)
qed

lemma forS_registers:
  assumes "registered S u" "list_all (\<lambda>(ch, c). pin_text (gc_pin c)) chs" "forS chs (add_channel gpio_env) u = (Inr (), u')"
  shows "registered (S \<union> set chs) u' \<and> ug_drivers u' = ug_drivers u"
  using assms
proof (induction chs arbitrary: S u)
  case (Cons chc chs)
  obtain ch c where chc: "chc = (ch, c)" by fastforce
  obtain u1 where u1: "add_channel gpio_env (ch, c) u = (Inr (), u1)" "forS chs (add_channel gpio_env) u1 = (Inr (), u')"
    using Cons.prems(3) by (auto simp: chc bindS_Inr_iff)
  have "registered (insert (ch, c) S) u1 \<and> ug_drivers u1 = ug_drivers u"
    using add_channel_registers [OF Cons.prems(1) _ u1(1)] Cons.prems(2) by (simp add: chc)
  then show ?case using Cons.IH [of "insert (ch, c) S" u1] Cons.prems(2) u1(2) by (simp add: chc)
qed (simp add: retS_def)

definition prepared :: "gpio_plugin \<Rightarrow> gpio_plugin \<Rightarrow> bool" where
  "prepared g g' = (g' = g\<lparr>gp_reader := Some (mk_reader (gp_input_pins g)),
     gp_req := (if gp_output_pins g = [] then gp_req g else Some (map (\<lambda>(p, initial). (p, initial = Some True)) (gp_output_pins g)))\<rparr>)"

lemma prepare_one:
  "driverS (gd_prepare gpio_env d) u = (Inr (), u') \<Longrightarrow>
    (\<exists>g. prepared (ug_world u d) g \<and> u' = u\<lparr>ug_world := (ug_world u)(d := g)\<rparr>)"
  by (auto simp: driverS_def gpio_env_def plugS_def gpio_prepare_def getS_def assertS_def bindS_def modifyS_def retS_def raiseS_def prepared_def
      split: if_splits)

lemma prepare_all:
  assumes "distinct ds" "forS ds (\<lambda>d. driverS (gd_prepare gpio_env d)) u = (Inr (), u')"
  shows "\<exists>w'. u' = u\<lparr>ug_world := w'\<rparr> \<and> (\<forall>d. if d \<in> set ds then prepared (ug_world u d) (w' d) else w' d = ug_world u d)"
  using assms
proof (induction ds arbitrary: u)
  case Nil
  then show ?case by (auto simp: retS_def intro!: exI [of _ "ug_world u"])
next
  case (Cons d ds)
  obtain u1 where u1: "driverS (gd_prepare gpio_env d) u = (Inr (), u1)" "forS ds (\<lambda>d. driverS (gd_prepare gpio_env d)) u1 = (Inr (), u')"
    using Cons.prems(2) by (auto simp: bindS_Inr_iff)
  obtain g where g: "prepared (ug_world u d) g" "u1 = u\<lparr>ug_world := (ug_world u)(d := g)\<rparr>" using prepare_one [OF u1(1)] by auto
  obtain w' where w': "u' = u1\<lparr>ug_world := w'\<rparr>" "\<forall>d. if d \<in> set ds then prepared (ug_world u1 d) (w' d) else w' d = ug_world u1 d"
    using Cons.IH [OF _ u1(2)] Cons.prems(1) by auto
  show ?case
  proof (intro exI [of _ w'] conjI allI)
    show "u' = u\<lparr>ug_world := w'\<rparr>" using w' g by simp
    fix d' show "if d' \<in> set (d # ds) then prepared (ug_world u d') (w' d') else w' d' = ug_world u d'"
      using w'(2) [rule_format, of d'] g Cons.prems(1) by (auto split: if_splits)
  qed
qed

text \<open>A daemon that has started over a well-formed configuration.\<close>

definition gpio_started :: "string list \<Rightarrow> (pytext \<times> gpio_channel) list \<Rightarrow> gpio_world ugpio \<Rightarrow> bool" where
  "gpio_started drivers chs u = (\<exists>w u0. fresh_plugins w \<and> ugpio_init gpio_env drivers chs w = (Inr (), u0)
     \<and> ug_sysprep gpio_env u0 = (Inr (), u))"

lemma started_facts:
  assumes "gpio_started drivers chs u" "channels_ok chs" "distinct drivers"
  obtains u0 where "registered (set chs) u0" "ug_inputs u = ug_inputs u0" "ug_outputs u = ug_outputs u0" "ug_notifier u = []"
    "\<And>d. d \<in> set (ug_drivers u0) \<Longrightarrow> prepared (ug_world u0 d) (ug_world u d)"
proof -
  obtain w u0 where w: "fresh_plugins w" "ugpio_init gpio_env drivers chs w = (Inr (), u0)" "ug_sysprep gpio_env u0 = (Inr (), u)"
    using assms(1) by (auto simp: gpio_started_def)
  let ?start = "\<lparr>ug_drivers = drivers, ug_inputs = [], ug_outputs = [], ug_notifier = [], ug_world = w\<rparr>"
  have "registered {} ?start"
    using w(1) by (simp add: registered_def fresh_plugins_def has_mode_def output_from_def dict_has_def dict_wf_def)
  from forS_registers [OF this, of chs u0] have reg: "registered (set chs) u0" "ug_drivers u0 = drivers"
    using assms(2) w(2) by (auto simp: channels_ok_def ugpio_init_def)
  obtain w' where "u = u0\<lparr>ug_world := w'\<rparr>" "\<forall>d. if d \<in> set drivers then prepared (ug_world u0 d) (w' d) else w' d = ug_world u0 d"
    using prepare_all [of drivers u0 u] assms(3) w(3) reg(2) by (auto simp: ug_sysprep_def getS_def)
  with reg show ?thesis by (intro that [of u0]) (auto simp: registered_def split: if_splits)
qed

lemma channel_unique:
  assumes "channels_ok chs" "(ch, c) \<in> set chs" "(ch', c') \<in> set chs"
  shows "ch = ch' \<Longrightarrow> c = c'" "gc_driver c = gc_driver c' \<Longrightarrow> pin_value (gc_pin c) = pin_value (gc_pin c') \<Longrightarrow> (ch, c) = (ch', c')"
proof -
  show "ch = ch' \<Longrightarrow> c = c'" using assms by (auto simp: channels_ok_def dest: eq_key_imp_eq_value)
  assume "gc_driver c = gc_driver c'" "pin_value (gc_pin c) = pin_value (gc_pin c')"
  moreover have "pin_text (gc_pin c)" "pin_text (gc_pin c')" using assms by (auto simp: channels_ok_def list_all_iff)
  ultimately have same: "(\<lambda>(ch, c). (gc_driver c, gc_pin c)) (ch, c) = (\<lambda>(ch, c). (gc_driver c, gc_pin c)) (ch', c')"
    using pin_int_inj by simp
  have "inj_on (\<lambda>(ch, c). (gc_driver c, gc_pin c)) (set chs)" using assms(1) by (simp add: channels_ok_def distinct_map)
  from inj_onD [OF this same assms(2,3)] show "(ch, c) = (ch', c')" .
qed

lemma started_wired:
  assumes "gpio_started drivers chs u" "channels_ok chs" "distinct drivers"
  shows "board.wired u" "regions_held u"
proof -
  obtain u0 where reg: "registered (set chs) u0" and same: "ug_inputs u = ug_inputs u0" "ug_outputs u = ug_outputs u0"
    and prep: "\<And>d. d \<in> set (ug_drivers u0) \<Longrightarrow> prepared (ug_world u0 d) (ug_world u d)"
    using started_facts [OF assms] by metis
  have ins: "\<exists>c. (ch, c) \<in> set chs \<and> gc_mode c = ModeInput \<and> gi_driver i = gc_driver c \<and> gi_pin i = gc_pin c"
    if "(ch, i) \<in> set (ug_inputs u)" for ch i
    using reg that same by (auto simp: registered_def)
  have outs: "\<exists>c. (ch, c) \<in> set chs \<and> gc_mode c = ModeOutput \<and> go_driver x = gc_driver c \<and> go_pin x = gc_pin c"
    if "(ch, x) \<in> set (ug_outputs u)" for ch x
    using reg that same by (fastforce simp: registered_def)
  have known: "gc_driver c \<in> set (ug_drivers u0)" if "(ch, c) \<in> set chs" for ch c
    using reg that by (auto simp: registered_def)
  have digits: "pin_text (gc_pin c)" if "(ch, c) \<in> set chs" for ch c
    using assms(2) that by (auto simp: channels_ok_def list_all_iff)
  have inp: "dict_has (gp_input_pins (ug_world u0 d)) n = has_mode ModeInput (set chs) d n"
    and outp: "dict_has (gp_output_pins (ug_world u0 d)) n = has_mode ModeOutput (set chs) d n"
    and rel: "\<not> gp_released (ug_world u0 d)" for d n
    using reg by (auto simp: registered_def)
  have readable: "gpio_readable (ug_world u) (gi_driver i) (gi_pin i)" if m: "(ch, i) \<in> set (ug_inputs u)" for ch i
  proof -
    obtain c where c: "(ch, c) \<in> set chs" "gc_mode c = ModeInput" "gi_driver i = gc_driver c" "gi_pin i = gc_pin c"
      using ins [OF m] by auto
    have "has_mode ModeInput (set chs) (gc_driver c) (pin_value (gc_pin c))" using c by (auto simp: has_mode_def)
    then have "dict_has (gp_input_pins (ug_world u0 (gc_driver c))) (pin_value (gc_pin c))" using inp by simp
    then show ?thesis using prep [OF known [OF c(1)]] digits [OF c(1)] c
      by (simp add: gpio_readable_def gpio_input_ok_def prepared_def mk_reader_def reader_has_def)
  qed
  have writable: "gpio_writable (ug_world u) (go_driver x) (go_pin x)" if m: "(ch, x) \<in> set (ug_outputs u)" for ch x
  proof -
    obtain c where c: "(ch, c) \<in> set chs" "gc_mode c = ModeOutput" "go_driver x = gc_driver c" "go_pin x = gc_pin c"
      using outs [OF m] by auto
    have "has_mode ModeOutput (set chs) (gc_driver c) (pin_value (gc_pin c))" using c by (auto simp: has_mode_def)
    then have o1: "dict_has (gp_output_pins (ug_world u0 (gc_driver c))) (pin_value (gc_pin c))" using outp by simp
    have "\<not> has_mode ModeInput (set chs) (gc_driver c) (pin_value (gc_pin c))"
      using channel_unique(2) [OF assms(2) _ c(1)] c(2) by (fastforce simp: has_mode_def)
    then have "\<not> dict_has (gp_input_pins (ug_world u0 (gc_driver c))) (pin_value (gc_pin c))" using inp by simp
    moreover have "gp_output_pins (ug_world u0 (gc_driver c)) \<noteq> []" using o1 by (auto simp: dict_has_def)
    ultimately show ?thesis using prep [OF known [OF c(1)]] digits [OF c(1)] c o1 rel
      by (auto simp: gpio_writable_def prepared_def dict_has_def map_of_keyed)
  qed
  have keys: "dict_wf (ug_inputs u)" "dict_wf (ug_outputs u)" using reg same by (auto simp: registered_def)
  have d1: "distinct (map (\<lambda>(ch, i). (gi_driver i, gi_pin i)) (ug_inputs u))"
  proof (rule distinct_map [THEN iffD2], intro conjI inj_onI)
    show "distinct (ug_inputs u)" using keys(1) by (simp add: dict_wf_def distinct_map)
    fix a b assume ab: "a \<in> set (ug_inputs u)" "b \<in> set (ug_inputs u)"
      and e: "(\<lambda>(ch, i). (gi_driver i, gi_pin i)) a = (\<lambda>(ch, i). (gi_driver i, gi_pin i)) b"
    obtain c1 c2 where c: "(fst a, c1) \<in> set chs" "gi_driver (snd a) = gc_driver c1" "gi_pin (snd a) = gc_pin c1"
        "(fst b, c2) \<in> set chs" "gi_driver (snd b) = gc_driver c2" "gi_pin (snd b) = gc_pin c2"
      using ins [of "fst a" "snd a"] ins [of "fst b" "snd b"] ab by auto
    have "fst a = fst b" using channel_unique(2) [OF assms(2) c(1,4)] c e by (auto simp: case_prod_unfold)
    then show "a = b" using ab keys(1) by (cases a; cases b) (auto simp: dict_wf_def dest: eq_key_imp_eq_value)
  qed
  have d2: "distinct (map (\<lambda>(ch, x). (go_driver x, go_pin x)) (ug_outputs u))"
  proof (rule distinct_map [THEN iffD2], intro conjI inj_onI)
    show "distinct (ug_outputs u)" using keys(2) by (simp add: dict_wf_def distinct_map)
    fix a b assume ab: "a \<in> set (ug_outputs u)" "b \<in> set (ug_outputs u)"
      and e: "(\<lambda>(ch, x). (go_driver x, go_pin x)) a = (\<lambda>(ch, x). (go_driver x, go_pin x)) b"
    obtain c1 c2 where c: "(fst a, c1) \<in> set chs" "go_driver (snd a) = gc_driver c1" "go_pin (snd a) = gc_pin c1"
        "(fst b, c2) \<in> set chs" "go_driver (snd b) = gc_driver c2" "go_pin (snd b) = gc_pin c2"
      using outs [of "fst a" "snd a"] outs [of "fst b" "snd b"] ab by auto
    have "fst a = fst b" using channel_unique(2) [OF assms(2) c(1,4)] c e by (auto simp: case_prod_unfold)
    then show "a = b" using ab keys(2) by (cases a; cases b) (auto simp: dict_wf_def dest: eq_key_imp_eq_value)
  qed
  have d3: "(gi_driver i, gi_pin i) \<noteq> (go_driver x, go_pin x)" if i: "(ch, i) \<in> set (ug_inputs u)" and x: "(ch', x) \<in> set (ug_outputs u)" for ch i ch' x
  proof
    assume e: "(gi_driver i, gi_pin i) = (go_driver x, go_pin x)"
    obtain c c' where c: "(ch, c) \<in> set chs" "gc_mode c = ModeInput" "gi_driver i = gc_driver c" "gi_pin i = gc_pin c"
        "(ch', c') \<in> set chs" "gc_mode c' = ModeOutput" "go_driver x = gc_driver c'" "go_pin x = gc_pin c'"
      using ins [OF i] outs [OF x] by auto
    then show False using channel_unique(2) [OF assms(2) c(1) c(5)] e by auto
  qed
  show "board.wired u" unfolding board.wired_def
    using keys readable writable d1 d2 d3 by (auto simp: gpio_readable_def)
  show "regions_held u" using reg same by (fastforce simp: registered_def regions_held_def)
qed

definition pulses_start_released :: "(pytext \<times> gpio_channel) list \<Rightarrow> bool" where
  "pulses_start_released chs = list_all (\<lambda>(ch, c). gc_mode c = ModeOutput \<and> \<not> gc_switch c \<longrightarrow> gc_initial c = Some False) chs"

lemma started_lines:
  assumes "gpio_started drivers chs u" "channels_ok chs" "distinct drivers" "pulses_start_released chs"
  shows "board.lines_ok u"
  unfolding board.lines_ok_def
proof (intro ballI, clarify)
  fix ch x assume x: "(ch, x) \<in> set (ug_outputs u)" "\<not> go_switch x"
  obtain u0 where reg: "registered (set chs) u0" and same: "ug_outputs u = ug_outputs u0"
    and prep: "\<And>d. d \<in> set (ug_drivers u0) \<Longrightarrow> prepared (ug_world u0 d) (ug_world u d)"
    using started_facts [OF assms(1-3)] by metis
  have x0: "(ch, x) \<in> set (ug_outputs u0)" using x same by simp
  obtain c where c: "(ch, c) \<in> set chs" "gc_mode c = ModeOutput" "go_driver x = gc_driver c" "go_pin x = gc_pin c"
      "go_inverted x = gc_inverted c" "go_switch x = gc_switch c" and idle: "go_await x = None"
    using reg x0 unfolding registered_def by blast
  let ?d = "gc_driver c" and ?n = "pin_value (gc_pin c)"
  have "gpio_writable (ug_world u) ?d (gc_pin c)"
    using started_wired(1) [OF assms(1-3)] x c by (auto simp: board.wired_def)
  moreover have w: "prepared (ug_world u0 ?d) (ug_world u ?d)" using prep reg c(1) by (auto simp: registered_def)
  ultimately have "dict_has (gp_output_pins (ug_world u0 ?d)) ?n" by (simp add: gpio_writable_def prepared_def)
  then obtain i where i: "map_of (gp_output_pins (ug_world u0 ?d)) ?n = Some i" by (auto simp: dict_has_def)
  then have "output_from (set chs) ?d ?n i" using reg by (simp add: registered_def)
  then obtain ch' c' where c': "(ch', c') \<in> set chs" "gc_driver c' = ?d" "pin_value (gc_pin c') = ?n"
      "i = map_option (\<lambda>i. i \<noteq> gc_inverted c') (gc_initial c')"
    by (auto simp: output_from_def)
  have "c' = c" using channel_unique(2) [OF assms(2) c'(1) c(1) c'(2,3)] by simp
  moreover have "gc_initial c = Some False" using assms(4) c x(2) by (auto simp: pulses_start_released_def list_all_iff)
  ultimately have "i = Some (gc_inverted c)" using c'(4) by auto
  then have "gpio_level (ug_world u) ?d (gc_pin c) = gc_inverted c"
    using gpio_level_output [OF \<open>gpio_writable _ _ _\<close>] w i by (auto simp: prepared_def map_of_keyed)
  then show "(gpio_level (ug_world u) (go_driver x) (go_pin x) \<noteq> go_inverted x) = board.is_held x"
    using c idle by (simp add: board.is_held_def)
qed

section \<open>Properties\<close>

text \<open>
  C26. The clients are told the truth: in every run from the start of the daemon, whatever is called, whatever
  the lines do and however the sleeps of the actions interleave, a client that merges what it is sent
  shows the state of every input and output as it is, as soon as no notification is waiting.
\<close>

theorem clients_see_gpio:
  assumes "gpio_started drivers chs u" "channels_ok chs" "distinct drivers"
    and "r = gpio_run gpio_env gpio_event acts (run_start u)" "gr_client r = Some c" "ug_notifier (gr_gpio r) = []"
  shows "shows_io c (true_io (\<lambda>d. True) (gpio_level (ug_world (gr_gpio r))) (gr_gpio r))"
proof -
  have "board.run_ok r" using board.run_keeps_ok [OF board.start_ok [OF started_wired [OF assms(1-3)]]] assms(4) by simp
  moreover have "gpio_online w = (\<lambda>d. True)" for w by (simp add: gpio_online_def fun_eq_iff)
  ultimately show ?thesis using assms(5,6) by (simp add: board.run_ok_def)
qed

text \<open>
  C27. An output that can only be pulsed is active exactly while a pulse holds it: in every run, whatever else
  is called meanwhile, its line is released when the pulse is over, and no other call makes it active.
\<close>

theorem pulse_line_released:
  assumes "gpio_started drivers chs u" "channels_ok chs" "distinct drivers" "pulses_start_released chs"
    and "r = gpio_run gpio_env gpio_event acts (run_start u)" "(ch, x) \<in> set (ug_outputs (gr_gpio r))" "\<not> go_switch x"
  shows "(gpio_level (ug_world (gr_gpio r)) (go_driver x) (go_pin x) \<noteq> go_inverted x) = (\<exists>d wait. go_await x = Some (Held, d, wait))"
proof -
  have ok: "board.run_ok (run_start u)" using board.start_ok [OF started_wired [OF assms(1-3)]] .
  have "board.lines_ok (gr_gpio r)"
    using board.run_lines [OF ok] started_lines [OF assms(1-4)] assms(5) by (simp add: run_start_def)
  then have "(gpio_level (ug_world (gr_gpio r)) (go_driver x) (go_pin x) \<noteq> go_inverted x) = board.is_held x"
    using assms(6,7) by (auto simp: board.lines_ok_def)
  then show ?thesis by (auto simp: board.is_held_def split: option.splits gpio_await.splits)
qed

definition example_channels :: "(pytext \<times> gpio_channel) list" where
  "example_channels =
    [([105], \<lparr>gc_driver = ''g'', gc_pin = ''4'', gc_mode = ModeInput, gc_inverted = True, gc_debounce = 0, gc_switch = False,
        gc_initial = None, gc_delay = 0, gc_min_delay = 0, gc_max_delay = 0, gc_busy_delay = 0\<rparr>),
     ([112], \<lparr>gc_driver = ''g'', gc_pin = ''5'', gc_mode = ModeOutput, gc_inverted = False, gc_debounce = 0, gc_switch = False,
        gc_initial = Some False, gc_delay = 1, gc_min_delay = 1, gc_max_delay = 2, gc_busy_delay = 0\<rparr>)]"

definition example_world :: gpio_world where
  "example_world = (\<lambda>d. \<lparr>gp_input_pins = [], gp_output_pins = [], gp_reader = None, gp_req = None, gp_released = False,
     gp_chip_ok = True, gp_lines = (\<lambda>p. False)\<rparr>)"

definition example_gpio :: "gpio_world ugpio" where
  "example_gpio = snd (ug_sysprep gpio_env (snd (ugpio_init gpio_env [''g''] example_channels example_world)))"

lemmas gpio_eval = ugpio_init_def add_channel_def getS_def bindS_def retS_def raiseS_def driverS_def gpio_env_def plugS_def
  gpio_register_input_def gpio_register_output_def liftS_def modifyS_def pin_int_def pin_digit_def mk_output_def Let_def
  assertR_def ug_sysprep_def gpio_prepare_def assertS_def mk_reader_def

lemma example_started: "gpio_started [''g''] example_channels example_gpio"
  unfolding gpio_started_def example_gpio_def
  by (rule exI [of _ example_world], rule exI [of _ "snd (ugpio_init gpio_env [''g''] example_channels example_world)"])
    (simp add: gpio_eval example_channels_def example_world_def fresh_plugins_def)

lemma example_channels_ok: "channels_ok example_channels" "pulses_start_released example_channels"
  by (simp_all add: channels_ok_def example_channels_def pulses_start_released_def pin_text_def pin_digits_def pin_digit_def)

lemma dict_has_eqs: "dict_has [] k = False" "dict_has ((k', v) # d) k = (k' = k \<or> dict_has d k)"
  by (auto simp: dict_has_def)

lemmas run_eval = gpio_run_def run_start_def ug_switch_def ug_pulse_def ug_wake_def output_switch_def output_pulse_def run_action_def
  region_enter_def region_exit_def set_output_def notifyG_def settle_def exceptS_def inner_pulse_def pulse_finally_def output_write_def
  gpio_write_def gpio_read_def trigger_state_def io_poll_def get_io_state_def shown_outputs_def is_const_def input_state_def
  output_state_def output_read_def offline_is_def reader_get_def dict_at_def dict_has_eqs bindR_def client_merge_def view_of_def

definition example_run :: "(string \<times> gpio_event) gpio_act list \<Rightarrow> gpio_world gpio_run" where
  "example_run acts = gpio_run gpio_env gpio_event acts (run_start example_gpio)"

lemma example_gpio_eq:
  "ug_outputs example_gpio = [([112], \<lparr>go_pin = ''5'', go_inverted = False, go_driver = ''g'', go_switch = False, go_pulse_delay = 1,
     go_min_delay = 1, go_max_delay = 2, go_busy_delay = 0, go_busy = False, go_await = None\<rparr>)]"
  "ug_inputs example_gpio = [([105], \<lparr>gi_pin = ''4'', gi_inverted = True, gi_driver = ''g''\<rparr>)]"
  "ug_notifier example_gpio = []"
  "gp_output_pins (ug_world example_gpio ''g'') = [(5, Some False)]"
  "gp_input_pins (ug_world example_gpio ''g'') = [(4, False, 0)]"
  "gp_reader (ug_world example_gpio ''g'') = Some \<lparr>ar_pins = [(4, False, 0)], ar_values = None\<rparr>"
  "gp_req (ug_world example_gpio ''g'') = Some [(5, False)]"
  "gp_released (ug_world example_gpio ''g'') = False"
  by (simp_all add: example_gpio_def gpio_eval example_channels_def example_world_def)

lemma clients_see_gpio_witness:
  "shows_io (the (gr_client (example_run [CallTrigger, PollTurn])))
     \<lparr>io_inputs = [([105], \<lparr>is_online = True, is_state = True\<rparr>)],
      io_outputs = [([112], \<lparr>os_online = True, os_state = False, os_busy = False\<rparr>)]\<rparr>"
proof -
  obtain c where c: "gr_client (example_run [CallTrigger, PollTurn]) = Some c"
    "ug_notifier (gr_gpio (example_run [CallTrigger, PollTurn])) = []"
    "true_io (\<lambda>d. True) (gpio_level (ug_world (gr_gpio (example_run [CallTrigger, PollTurn])))) (gr_gpio (example_run [CallTrigger, PollTurn]))
      = \<lparr>io_inputs = [([105], \<lparr>is_online = True, is_state = True\<rparr>)],
      io_outputs = [([112], \<lparr>os_online = True, os_state = False, os_busy = False\<rparr>)]\<rparr>"
    by (simp add: example_run_def run_eval gpio_eval example_gpio_eq true_io_def true_in_def true_out_def gpio_level_def fromR_def)
  show ?thesis
    using clients_see_gpio [OF example_started example_channels_ok(1) _ refl, where acts = "[CallTrigger, PollTurn]" and c = c] c
    by (simp add: example_run_def)
qed

lemma pulse_line_released_witness:
  "gpio_level (ug_world (gr_gpio (example_run [CallPulse [112] 0 False]))) ''g'' ''5''
   \<and> \<not> gpio_level (ug_world (gr_gpio (example_run [CallPulse [112] 0 False, Wake [112]]))) ''g'' ''5''"
proof -
  let ?x = "\<lambda>t. \<lparr>go_pin = ''5'', go_inverted = False, go_driver = ''g'', go_switch = False, go_pulse_delay = 1,
     go_min_delay = 1, go_max_delay = 2, go_busy_delay = 0, go_busy = True, go_await = Some t\<rparr>"
  have a: "ug_outputs (gr_gpio (example_run [CallPulse [112] 0 False])) = [([112], ?x (Held, 1, False))]"
    "ug_outputs (gr_gpio (example_run [CallPulse [112] 0 False, Wake [112]])) = [([112], ?x (Released None, 0, False))]"
    by (simp_all add: example_run_def run_eval gpio_eval example_gpio_eq pulse_time_def)
  show ?thesis
    using pulse_line_released [OF example_started example_channels_ok(1) _ example_channels_ok(2) refl,
        where acts = "[CallPulse [112] 0 False]" and ch = "[112]" and x = "?x (Held, 1, False)"]
      pulse_line_released [OF example_started example_channels_ok(1) _ example_channels_ok(2) refl,
        where acts = "[CallPulse [112] 0 False, Wake [112]]" and ch = "[112]" and x = "?x (Released None, 0, False)"] a
    by (auto simp: example_run_def)
qed

text \<open>
  Every action ends: whatever state a channel is in, after two ends of a sleep it is free again.
\<close>

theorem gpio_action_ends:
  assumes "gpio_started drivers chs u" "channels_ok chs" "distinct drivers"
    and "r = gpio_run gpio_env gpio_event (acts @ [Wake ch, Wake ch]) (run_start u)" "(ch, x) \<in> set (ug_outputs (gr_gpio r))"
  shows "\<not> go_busy x"
proof -
  have "board.run_ok (gpio_run gpio_env gpio_event acts (run_start u))"
    using board.run_keeps_ok [OF board.start_ok [OF started_wired [OF assms(1-3)]]] .
  from board.two_wakes_free [OF this] show ?thesis using assms(4,5) by (simp add: gpio_run_def)
qed

lemma gpio_action_ends_witness:
  "\<not> go_busy (snd (hd (ug_outputs (gr_gpio (example_run [CallPulse [112] 0 False, Wake [112], Wake [112]])))))"
proof -
  let ?x = "\<lparr>go_pin = ''5'', go_inverted = False, go_driver = ''g'', go_switch = False, go_pulse_delay = 1,
     go_min_delay = 1, go_max_delay = 2, go_busy_delay = 0, go_busy = False, go_await = None\<rparr>"
  have a: "ug_outputs (gr_gpio (example_run [CallPulse [112] 0 False, Wake [112], Wake [112]])) = [([112], ?x)]"
    by (simp add: example_run_def run_eval gpio_eval example_gpio_eq pulse_time_def)
  show ?thesis
    using gpio_action_ends [OF example_started example_channels_ok(1) _ refl, where acts = "[CallPulse [112] 0 False]" and ch = "[112]" and x = ?x] a
    by (simp add: example_run_def)
qed

end
