(* ===== verification/AtxGpio.thy ===== *)
theory AtxGpio
  imports GpioDriver
begin

text \<open>
  The ATX buttons over the lines of the board (\<open>kvmd/plugins/atx/gpio.py\<close>): the power and reset buttons
  with their exclusive regions, the LEDs and the polling of the state.
\<close>

section \<open>The plugin\<close>

text \<open>That the lines are granted is taken for granted: without them the daemon does not start.\<close>

datatype atx_region = PowerRegion | ResetRegion

text \<open>
  The sleeps of a click: with the button pressed, and after its release with the exception that is
  still to be raised.
\<close>

datatype atx_await = Pressed | Unpressed "pyerr option"

text \<open>\<open>at_lines\<close> are the levels of the two button lines once they are requested; a line may refuse to be set.\<close>

record atx =
  at_power_led :: int
  at_hdd_led :: int
  at_power_pin :: int
  at_reset_pin :: int
  at_click_delay :: rat
  at_long_delay :: rat
  at_reader :: aio_reader
  at_lines :: "(int \<Rightarrow> bool) option"
  at_refuses :: "int \<Rightarrow> bool"
  at_power_busy :: bool
  at_reset_busy :: bool
  at_power_await :: "(atx_await \<times> int \<times> rat \<times> bool) option"
  at_reset_await :: "(atx_await \<times> int \<times> rat \<times> bool) option"
  at_notifier :: "nat list"

record atx_state =
  as_busy :: bool
  as_power_act :: bool
  as_reset_act :: bool
  as_power_led :: bool
  as_hdd_led :: bool

record atx_config =
  ac_power_led_pin :: int
  ac_power_led_inverted :: bool
  ac_power_led_debounce :: rat
  ac_hdd_led_pin :: int
  ac_hdd_led_inverted :: bool
  ac_hdd_led_debounce :: rat
  ac_power_switch_pin :: int
  ac_reset_switch_pin :: int
  ac_click_delay :: rat
  ac_long_click_delay :: rat

definition atx_init :: "(int \<Rightarrow> bool) \<Rightarrow> atx_config \<Rightarrow> atx" where
  "atx_init refuses c = \<lparr>at_power_led = ac_power_led_pin c, at_hdd_led = ac_hdd_led_pin c, at_power_pin = ac_power_switch_pin c,
     at_reset_pin = ac_reset_switch_pin c, at_click_delay = ac_click_delay c, at_long_delay = ac_long_click_delay c,
     at_reader = mk_reader (dict_of [(ac_power_led_pin c, ac_power_led_inverted c, ac_power_led_debounce c),
       (ac_hdd_led_pin c, ac_hdd_led_inverted c, ac_hdd_led_debounce c)]),
     at_lines = None, at_refuses = refuses, at_power_busy = False, at_reset_busy = False,
     at_power_await = None, at_reset_await = None, at_notifier = []\<rparr>"

definition atx_notify :: "nat \<Rightarrow> (atx, unit) sm" where
  "atx_notify flags = modifyS (\<lambda>a. a\<lparr>at_notifier := at_notifier a @ [flags]\<rparr>)"

fun region_busy :: "atx_region \<Rightarrow> atx \<Rightarrow> bool" where
  "region_busy PowerRegion a = at_power_busy a"
| "region_busy ResetRegion a = at_reset_busy a"

fun set_region :: "atx_region \<Rightarrow> bool \<Rightarrow> atx \<Rightarrow> atx" where
  "set_region PowerRegion b a = a\<lparr>at_power_busy := b\<rparr>"
| "set_region ResetRegion b a = a\<lparr>at_reset_busy := b\<rparr>"

fun region_await :: "atx_region \<Rightarrow> atx \<Rightarrow> (atx_await \<times> int \<times> rat \<times> bool) option" where
  "region_await PowerRegion a = at_power_await a"
| "region_await ResetRegion a = at_reset_await a"

fun set_await :: "atx_region \<Rightarrow> (atx_await \<times> int \<times> rat \<times> bool) option \<Rightarrow> atx \<Rightarrow> atx" where
  "set_await PowerRegion t a = a\<lparr>at_power_await := t\<rparr>"
| "set_await ResetRegion t a = a\<lparr>at_reset_await := t\<rparr>"

definition atx_sysprep :: "(atx, unit) sm" where
  "atx_sysprep = getS (\<lambda>a. assertS (at_lines a = None) (modifyS (\<lambda>a. a\<lparr>at_lines := Some (\<lambda>pin. False)\<rparr>)))"

definition atx_get_state :: "(atx, atx_state) sm" where
  "atx_get_state = getS (\<lambda>a.
     bindS (liftS (reader_get (at_reader a) (at_power_led a))) (\<lambda>power.
     bindS (liftS (reader_get (at_reader a) (at_hdd_led a))) (\<lambda>hdd.
     retS \<lparr>as_busy = (at_power_busy a \<or> at_reset_busy a), as_power_act = at_power_busy a, as_reset_act = at_reset_busy a,
       as_power_led = power, as_hdd_led = hdd\<rparr>)))"

definition atx_trigger_state :: "(atx, unit) sm" where
  "atx_trigger_state = atx_notify 1"

text \<open>A turn of \<open>poll_state\<close>: \<open>None\<close> stands for the empty state that a full update starts from.\<close>

definition atx_poll :: "atx_state option \<Rightarrow> (atx, atx_state option \<times> atx_state option) sm" where
  "atx_poll prev = getS (\<lambda>a.
     let prev = (if \<exists>m \<in> set (at_notifier a). m > 0 then None else prev) in
     bindS (modifyS (\<lambda>a. a\<lparr>at_notifier := []\<rparr>)) (\<lambda>_.
     bindS atx_get_state (\<lambda>new. if Some new \<noteq> prev then retS (Some new, Some new) else retS (None, prev))))"

section \<open>Clicks\<close>

definition set_line :: "int \<Rightarrow> bool \<Rightarrow> (atx, unit) sm" where
  "set_line pin b = getS (\<lambda>a. case at_lines a of
       None \<Rightarrow> raiseS AssertionError
     | Some ls \<Rightarrow> if at_refuses a pin then raiseS OSError else modifyS (\<lambda>a. a\<lparr>at_lines := Some (ls(pin := b))\<rparr>))"

definition click_finally :: "int \<Rightarrow> pyerr option \<Rightarrow> (atx, (atx_await \<times> rat) option) sm" where
  "click_finally pin pending = bindS (set_line pin False) (\<lambda>_. retS (Some (Unpressed pending, 1)))"

definition inner_click :: "int \<Rightarrow> rat \<Rightarrow> (atx, (atx_await \<times> rat) option) sm" where
  "inner_click pin delay = getS (\<lambda>a.
     assertS (at_lines a \<noteq> None)
       (exceptS (bindS (set_line pin True) (\<lambda>_. retS (Some (Pressed, delay)))) (\<lambda>e. Some (click_finally pin (Some e)))))"

fun click_woken :: "int \<Rightarrow> atx_await \<Rightarrow> (atx, (atx_await \<times> rat) option) sm" where
  "click_woken pin Pressed = click_finally pin None"
| "click_woken pin (Unpressed None) = retS None"
| "click_woken pin (Unpressed (Some e)) = raiseS e"

definition leave_region :: "atx_region \<Rightarrow> (atx, unit) sm" where
  "leave_region rg = bindS (modifyS (\<lambda>a. set_await rg None (set_region rg False a))) (\<lambda>_. atx_notify 0)"

definition click_settle :: "atx_region \<Rightarrow> int \<Rightarrow> bool \<Rightarrow> (atx, (atx_await \<times> rat) option) sm \<Rightarrow> (atx, unit) sm" where
  "click_settle rg pin wait m =
     bindS (exceptS (bindS m (\<lambda>r. retS (Inr r))) (\<lambda>e. Some (retS (Inl e)))) (\<lambda>r. case r of
       Inr (Some (t, d)) \<Rightarrow> modifyS (set_await rg (Some (t, pin, d, wait)))
     | Inr None \<Rightarrow> leave_region rg
     | Inl e \<Rightarrow> bindS (leave_region rg) (\<lambda>_. if wait then raiseS e else retS ()))"

definition atx_click :: "atx_region \<Rightarrow> int \<Rightarrow> rat \<Rightarrow> bool \<Rightarrow> (atx, unit) sm" where
  "atx_click rg pin delay wait = getS (\<lambda>a.
     if region_busy rg a then raiseS AtxIsBusyError
     else bindS (modifyS (set_region rg True)) (\<lambda>_. bindS (atx_notify 0) (\<lambda>_. click_settle rg pin wait (inner_click pin delay))))"

definition atx_wake :: "atx_region \<Rightarrow> (atx, unit) sm" where
  "atx_wake rg = getS (\<lambda>a. case region_await rg a of
       None \<Rightarrow> retS ()
     | Some (t, pin, d, wait) \<Rightarrow> click_settle rg pin wait (click_woken pin t))"

definition click_power :: "bool \<Rightarrow> (atx, unit) sm" where
  "click_power wait = getS (\<lambda>a. atx_click PowerRegion (at_power_pin a) (at_click_delay a) wait)"

definition click_power_long :: "bool \<Rightarrow> (atx, unit) sm" where
  "click_power_long wait = getS (\<lambda>a. atx_click PowerRegion (at_power_pin a) (at_long_delay a) wait)"

definition click_reset :: "bool \<Rightarrow> (atx, unit) sm" where
  "click_reset wait = getS (\<lambda>a. atx_click ResetRegion (at_reset_pin a) (at_click_delay a) wait)"

definition get_power :: "(atx, bool) sm" where
  "get_power = bindS atx_get_state (\<lambda>st. retS (as_power_led st))"

definition power_on :: "bool \<Rightarrow> (atx, unit) sm" where
  "power_on wait = bindS get_power (\<lambda>p. if \<not> p then click_power wait else retS ())"

definition power_off :: "bool \<Rightarrow> (atx, unit) sm" where
  "power_off wait = bindS get_power (\<lambda>p. if p then click_power wait else retS ())"

definition power_off_hard :: "bool \<Rightarrow> (atx, unit) sm" where
  "power_off_hard wait = bindS get_power (\<lambda>p. if p then click_power_long wait else retS ())"

definition power_reset_hard :: "bool \<Rightarrow> (atx, unit) sm" where
  "power_reset_hard wait = bindS get_power (\<lambda>p. if p then click_reset wait else retS ())"

section \<open>Runs\<close>

datatype atx_act =
    ClickPower bool | ClickPowerLong bool | ClickReset bool
  | PowerOn bool | PowerOff bool | PowerOffHard bool | PowerResetHard bool
  | AtxWake atx_region | AtxTrigger | AtxReader "int \<Rightarrow> bool" gpio_event | AtxPoll

record atx_run =
  ru_atx :: atx
  ru_shown :: "atx_state option"

definition with_atx :: "(atx, unit) sm \<Rightarrow> atx_run \<Rightarrow> atx_run" where
  "with_atx m r = r\<lparr>ru_atx := snd (m (ru_atx r))\<rparr>"

text \<open>The state yielded last is also what the client shows: the poller yields whole states.\<close>

fun atx_step :: "atx_act \<Rightarrow> atx_run \<Rightarrow> atx_run" where
  "atx_step (ClickPower w) = with_atx (click_power w)"
| "atx_step (ClickPowerLong w) = with_atx (click_power_long w)"
| "atx_step (ClickReset w) = with_atx (click_reset w)"
| "atx_step (PowerOn w) = with_atx (power_on w)"
| "atx_step (PowerOff w) = with_atx (power_off w)"
| "atx_step (PowerOffHard w) = with_atx (power_off_hard w)"
| "atx_step (PowerResetHard w) = with_atx (power_reset_hard w)"
| "atx_step (AtxWake rg) = with_atx (atx_wake rg)"
| "atx_step AtxTrigger = with_atx atx_trigger_state"
| "atx_step (AtxReader lines e) = with_atx (\<lambda>a. case reader_event lines e (at_reader a) of (n, rd) \<Rightarrow>
     if n then atx_notify 0 (a\<lparr>at_reader := rd\<rparr>) else (Inr (), a\<lparr>at_reader := rd\<rparr>))"
| "atx_step AtxPoll = (\<lambda>r. if at_notifier (ru_atx r) = [] then r
     else case atx_poll (ru_shown r) (ru_atx r) of
       (Inl e, a) \<Rightarrow> r\<lparr>ru_atx := a\<rparr>
     | (Inr (y, prev), a) \<Rightarrow> r\<lparr>ru_atx := a, ru_shown := (case y of None \<Rightarrow> ru_shown r | Some st \<Rightarrow> Some st)\<rparr>)"

end
