(* ===== verification/AtxRuns.thy ===== *)
theory AtxRuns
  imports AtxGpio
begin

text \<open>
  What the ATX buttons promise: a button is pressed exactly while a click holds it, whatever is clicked
  and called in between, and the clients are told every change.
\<close>

definition is_pressed :: "(atx_await \<times> int \<times> rat \<times> bool) option \<Rightarrow> bool" where
  "is_pressed t = (case t of Some (Pressed, _) \<Rightarrow> True | _ \<Rightarrow> False)"

definition led :: "atx \<Rightarrow> int \<Rightarrow> bool" where
  "led a pin = fromR False (reader_get (at_reader a) pin)"

definition true_atx :: "atx \<Rightarrow> atx_state" where
  "true_atx a = \<lparr>as_busy = (at_power_busy a \<or> at_reset_busy a), as_power_act = at_power_busy a, as_reset_act = at_reset_busy a,
     as_power_led = led a (at_power_led a), as_hdd_led = led a (at_hdd_led a)\<rparr>"

definition atx_inv :: "atx \<Rightarrow> bool" where
  "atx_inv a = (reader_has (at_reader a) (at_power_led a) \<and> reader_has (at_reader a) (at_hdd_led a)
     \<and> (at_power_busy a \<longleftrightarrow> at_power_await a \<noteq> None) \<and> (at_reset_busy a \<longleftrightarrow> at_reset_await a \<noteq> None)
     \<and> (\<forall>t pin d w. at_power_await a = Some (t, pin, d, w) \<longrightarrow> pin = at_power_pin a)
     \<and> (\<forall>t pin d w. at_reset_await a = Some (t, pin, d, w) \<longrightarrow> pin = at_reset_pin a))"

text \<open>The lines, when none of them refuses to be set.\<close>

definition buttons_ok :: "atx \<Rightarrow> bool" where
  "buttons_ok a = (case at_lines a of
       None \<Rightarrow> False
     | Some ls \<Rightarrow> at_power_pin a \<noteq> at_reset_pin a \<and> (\<forall>pin. \<not> at_refuses a pin)
         \<and> ls (at_power_pin a) = is_pressed (at_power_await a) \<and> ls (at_reset_pin a) = is_pressed (at_reset_await a))"

lemma buttons_ok_others [simp]:
  "buttons_ok (a\<lparr>at_notifier := q\<rparr>) = buttons_ok a" "buttons_ok (a\<lparr>at_reader := rd\<rparr>) = buttons_ok a"
  by (cases "at_lines a"; simp add: buttons_ok_def)+

definition atx_tells :: "atx \<Rightarrow> atx \<Rightarrow> bool" where
  "atx_tells a b = (atx_inv b \<and> (buttons_ok a \<longrightarrow> buttons_ok b)
     \<and> (at_notifier b = [] \<longrightarrow> at_notifier a = [] \<and> true_atx b = true_atx a))"

lemma tells_self: "atx_inv a \<Longrightarrow> atx_tells a a"
  by (simp add: atx_tells_def)

lemmas click_eval = getS_def bindS_def retS_def raiseS_def modifyS_def exceptS_def assertS_def atx_notify_def leave_region_def
  click_settle_def set_line_def click_finally_def

lemma click_tells:
  assumes "atx_inv a" "pin = (case rg of PowerRegion \<Rightarrow> at_power_pin a | ResetRegion \<Rightarrow> at_reset_pin a)"
  shows "atx_tells a (snd (atx_click rg pin delay wait a))"
  using assms
  by (cases rg; cases "at_lines a")
    (auto simp: atx_click_def inner_click_def click_eval atx_tells_def atx_inv_def buttons_ok_def is_pressed_def split: if_splits)

lemma atx_wake_tells:
  assumes "atx_inv a"
  shows "atx_tells a (snd (atx_wake rg a))"
proof (cases "region_await rg a")
  case None
  then show ?thesis using tells_self [OF assms] by (simp add: atx_wake_def getS_def retS_def)
next
  case (Some t)
  obtain st pin d wait where t: "t = (st, pin, d, wait)" by (cases t)
  have m: "snd (atx_wake rg a) = snd (click_settle rg pin wait (click_woken pin st) a)"
    using Some t by (simp add: atx_wake_def getS_def)
  show ?thesis
  proof (cases st)
    case Pressed
    then show ?thesis unfolding m using assms Some t
      by (cases rg; cases "at_lines a")
        (auto simp: click_eval atx_tells_def atx_inv_def buttons_ok_def is_pressed_def true_atx_def led_def split: if_splits)
  next
    case (Unpressed p)
    then show ?thesis unfolding m using assms Some t
      by (cases rg; cases p)
        (auto simp: click_eval atx_tells_def atx_inv_def buttons_ok_def is_pressed_def split: option.splits)
  qed
qed

lemma atx_state_eq:
  assumes "atx_inv a"
  shows "atx_get_state a = (Inr (true_atx a), a)"
proof -
  obtain p h where "reader_get (at_reader a) (at_power_led a) = Inr p" "reader_get (at_reader a) (at_hdd_led a) = Inr h"
    using reader_get_ok [of "at_reader a" "at_power_led a"] reader_get_ok [of "at_reader a" "at_hdd_led a"] assms
    by (auto simp: atx_inv_def)
  then show ?thesis by (simp add: atx_get_state_def getS_def bindS_def liftS_def retS_def true_atx_def led_def fromR_def)
qed

lemma power_tells:
  assumes "atx_inv a"
  shows "atx_tells a (snd (click_power w a))" "atx_tells a (snd (click_power_long w a))" "atx_tells a (snd (click_reset w a))"
    "atx_tells a (snd (power_on w a))" "atx_tells a (snd (power_off w a))" "atx_tells a (snd (power_off_hard w a))"
    "atx_tells a (snd (power_reset_hard w a))"
proof -
  show c: "atx_tells a (snd (click_power w a))" "atx_tells a (snd (click_power_long w a))" "atx_tells a (snd (click_reset w a))"
    using click_tells [OF assms, of _ PowerRegion] click_tells [OF assms, of _ ResetRegion]
    by (simp_all add: click_power_def click_power_long_def click_reset_def getS_def)
  have g: "get_power a = (Inr (led a (at_power_led a)), a)"
    using atx_state_eq [OF assms] by (simp add: get_power_def bindS_def retS_def true_atx_def)
  show "atx_tells a (snd (power_on w a))" "atx_tells a (snd (power_off w a))" "atx_tells a (snd (power_off_hard w a))"
    "atx_tells a (snd (power_reset_hard w a))"
    using c tells_self [OF assms]
    by (simp_all add: power_on_def power_off_def power_off_hard_def power_reset_hard_def bindS_def g retS_def)
qed

definition atx_run_ok :: "atx_run \<Rightarrow> bool" where
  "atx_run_ok r = (atx_inv (ru_atx r)
     \<and> (at_notifier (ru_atx r) = [] \<longrightarrow> ru_shown r = None \<or> ru_shown r = Some (true_atx (ru_atx r))))"

lemma with_atx_ok:
  "atx_run_ok r \<Longrightarrow> atx_tells (ru_atx r) (snd (m (ru_atx r))) \<Longrightarrow> atx_run_ok (with_atx m r) \<and> (buttons_ok (ru_atx r) \<longrightarrow> buttons_ok (ru_atx (with_atx m r)))"
  by (auto simp: atx_run_ok_def with_atx_def atx_tells_def)

lemma atx_step_ok:
  assumes "atx_run_ok r"
  shows "atx_run_ok (atx_step act r) \<and> (buttons_ok (ru_atx r) \<longrightarrow> buttons_ok (ru_atx (atx_step act r)))"
proof -
  have inv: "atx_inv (ru_atx r)" using assms by (simp add: atx_run_ok_def)
  note wo = with_atx_ok [OF assms]
  show ?thesis
  proof (cases act)
    case (AtxReader lines e)
    obtain n rd where e: "reader_event lines e (at_reader (ru_atx r)) = (n, rd)" by fastforce
    have "atx_tells (ru_atx r) (snd (if n then atx_notify 0 ((ru_atx r)\<lparr>at_reader := rd\<rparr>) else (Inr (), (ru_atx r)\<lparr>at_reader := rd\<rparr>)))"
      using inv reader_event_input [OF e]
      by (auto simp: atx_tells_def atx_inv_def true_atx_def led_def atx_notify_def modifyS_def)
    then show ?thesis using AtxReader wo e by simp
  next
    case AtxPoll
    have st: "atx_get_state (ru_atx r\<lparr>at_notifier := []\<rparr>) = (Inr (true_atx (ru_atx r)), ru_atx r\<lparr>at_notifier := []\<rparr>)"
      using atx_state_eq [of "ru_atx r\<lparr>at_notifier := []\<rparr>"] inv by (simp add: atx_inv_def true_atx_def led_def)
    show ?thesis using AtxPoll assms
      by (auto simp: atx_poll_def getS_def bindS_def modifyS_def st Let_def retS_def atx_run_ok_def atx_inv_def
          true_atx_def led_def split: option.splits)
  next
    case AtxTrigger
    have "atx_tells (ru_atx r) (snd (atx_trigger_state (ru_atx r)))"
      using inv by (simp add: atx_tells_def atx_inv_def atx_trigger_state_def atx_notify_def modifyS_def)
    then show ?thesis using AtxTrigger wo by simp
  qed (use wo power_tells [OF inv] atx_wake_tells [OF inv] in simp_all)
qed

definition atx_runs :: "atx_act list \<Rightarrow> atx_run \<Rightarrow> atx_run" where
  "atx_runs acts r = fold atx_step acts r"

lemma atx_runs_ok: "atx_run_ok r \<Longrightarrow> atx_run_ok (atx_runs acts r) \<and> (buttons_ok (ru_atx r) \<longrightarrow> buttons_ok (ru_atx (atx_runs acts r)))"
proof (induction acts arbitrary: r)
  case (Cons act acts)
  then show ?case using atx_step_ok [OF Cons.prems, of act] by (simp add: atx_runs_def)
qed (simp add: atx_runs_def)

definition atx_begin :: "(int \<Rightarrow> bool) \<Rightarrow> atx_config \<Rightarrow> atx_run" where
  "atx_begin refuses c = \<lparr>ru_atx = snd (atx_sysprep (atx_init refuses c)), ru_shown = None\<rparr>"

lemma atx_begin_ok:
  "atx_run_ok (atx_begin refuses c)"
  "ac_power_switch_pin c \<noteq> ac_reset_switch_pin c \<Longrightarrow> buttons_ok (ru_atx (atx_begin (\<lambda>pin. False) c))"
  by (simp_all add: atx_begin_def atx_sysprep_def atx_init_def getS_def assertS_def modifyS_def atx_run_ok_def atx_inv_def buttons_ok_def
      is_pressed_def reader_has_def mk_reader_def dict_of_def dict_has_def)

section \<open>Properties\<close>

text \<open>
  C28. A button of the computer is pressed exactly while a click holds it: whatever clicks and power actions
  are asked for, whatever the LEDs do and however the sleeps interleave, no button stays pressed when
  its click is over, and no two clicks of one button overlap.
\<close>

theorem atx_button_released:
  assumes "ac_power_switch_pin c \<noteq> ac_reset_switch_pin c" "a = ru_atx (atx_runs acts (atx_begin (\<lambda>pin. False) c))"
  shows "\<exists>ls. at_lines a = Some ls
    \<and> ls (at_power_pin a) = (\<exists>pin d w. at_power_await a = Some (Pressed, pin, d, w))
    \<and> ls (at_reset_pin a) = (\<exists>pin d w. at_reset_await a = Some (Pressed, pin, d, w))"
proof -
  have p: "is_pressed t = (\<exists>pin d w. t = Some (Pressed, pin, d, w))" for t
    by (auto simp: is_pressed_def split: option.splits atx_await.splits)
  have "buttons_ok a" using atx_runs_ok [OF atx_begin_ok(1)] atx_begin_ok(2) [OF assms(1)] assms(2) by blast
  then show ?thesis unfolding buttons_ok_def p by (auto split: option.splits)
qed

text \<open>
  The clients are told every change of the ATX state: once no notification is waiting, the state they
  were sent last is the state of the regions and of the LEDs, even when the lines refuse to be set.
\<close>

theorem atx_state_shown:
  assumes "r = atx_runs acts (atx_begin refuses c)" "at_notifier (ru_atx r) = []" "ru_shown r = Some st"
  shows "as_power_act st = at_power_busy (ru_atx r)" "as_reset_act st = at_reset_busy (ru_atx r)"
    "as_busy st = (at_power_busy (ru_atx r) \<or> at_reset_busy (ru_atx r))"
    "reader_get (at_reader (ru_atx r)) (at_power_led (ru_atx r)) = Inr (as_power_led st)"
    "reader_get (at_reader (ru_atx r)) (at_hdd_led (ru_atx r)) = Inr (as_hdd_led st)"
proof -
  have ok: "atx_run_ok r" using atx_runs_ok [OF atx_begin_ok(1)] assms(1) by simp
  then have st: "st = true_atx (ru_atx r)" and inv: "atx_inv (ru_atx r)" using assms(2,3) by (auto simp: atx_run_ok_def)
  obtain p h where "reader_get (at_reader (ru_atx r)) (at_power_led (ru_atx r)) = Inr p"
      "reader_get (at_reader (ru_atx r)) (at_hdd_led (ru_atx r)) = Inr h"
    using reader_get_ok [of "at_reader (ru_atx r)" "at_power_led (ru_atx r)"] reader_get_ok [of "at_reader (ru_atx r)" "at_hdd_led (ru_atx r)"] inv
    by (auto simp: atx_inv_def)
  then show "as_power_act st = at_power_busy (ru_atx r)" "as_reset_act st = at_reset_busy (ru_atx r)"
    "as_busy st = (at_power_busy (ru_atx r) \<or> at_reset_busy (ru_atx r))"
    "reader_get (at_reader (ru_atx r)) (at_power_led (ru_atx r)) = Inr (as_power_led st)"
    "reader_get (at_reader (ru_atx r)) (at_hdd_led (ru_atx r)) = Inr (as_hdd_led st)"
    by (simp_all add: st true_atx_def led_def fromR_def)
qed

definition example_atx :: atx_config where
  "example_atx = \<lparr>ac_power_led_pin = 24, ac_power_led_inverted = False, ac_power_led_debounce = 1 / 10, ac_hdd_led_pin = 22,
     ac_hdd_led_inverted = False, ac_hdd_led_debounce = 1 / 10, ac_power_switch_pin = 23, ac_reset_switch_pin = 27,
     ac_click_delay = 1, ac_long_click_delay = 5\<rparr>"

lemmas atx_eval = atx_runs_def with_atx_def atx_begin_def atx_sysprep_def atx_init_def example_atx_def click_power_def click_reset_def
  atx_click_def inner_click_def click_eval

lemma atx_button_released_witness:
  "(case at_lines (ru_atx (atx_runs [ClickPower True, ClickReset False] (atx_begin (\<lambda>pin. False) example_atx))) of Some ls \<Rightarrow> ls 23 \<and> ls 27 | None \<Rightarrow> False)"
proof -
  let ?a = "ru_atx (atx_runs [ClickPower True, ClickReset False] (atx_begin (\<lambda>pin. False) example_atx))"
  have e: "at_power_pin ?a = 23" "at_reset_pin ?a = 27" "at_power_await ?a = Some (Pressed, 23, 1, True)"
      "at_reset_await ?a = Some (Pressed, 27, 1, False)"
    by (simp_all add: atx_eval)
  have "ac_power_switch_pin example_atx \<noteq> ac_reset_switch_pin example_atx" by (simp add: example_atx_def)
  from atx_button_released [OF this refl, of "[ClickPower True, ClickReset False]"] show ?thesis by (auto simp: e)
qed

lemma atx_state_shown_witness:
  "as_power_act (the (ru_shown (atx_runs [ClickPower True, AtxPoll] (atx_begin (\<lambda>pin. True) example_atx)))) = False"
proof -
  let ?r = "atx_runs [ClickPower True, AtxPoll] (atx_begin (\<lambda>pin. True) example_atx)"
  obtain st where "at_notifier (ru_atx ?r) = []" "ru_shown ?r = Some st" "\<not> at_power_busy (ru_atx ?r)"
    by (simp add: atx_eval atx_poll_def atx_get_state_def reader_get_def dict_of_def mk_reader_def dict_at_def bindR_def liftS_def Let_def)
  with atx_state_shown(1) [OF refl this(1,2)] show ?thesis by simp
qed

end
