(* ===== verification/Rfb.thy ===== *)
theory Rfb
  imports KeyText Tools
begin

text \<open>
  The VNC protocol of a client (\<open>kvmd/apps/vnc/rfb\<close>): the handshake with its security types, the messages of
  the client and the updates sent to it.  The stream is what the client sends and what is written to it;
  TLS, the random challenge, DES, the password check of the daemon, the keyboard layout and the handlers
  of the server that take the events are an environment over a world of their own.
\<close>

section \<open>Text on the wire\<close>

text \<open>
  \<open>decode("utf-8", errors="ignore")\<close>: a sequence that breaks off or is not allowed is dropped up to the byte
  that does not fit.
\<close>

definition utf8_tail :: "int \<Rightarrow> nat" where
  "utf8_tail b = (if 0xC2 \<le> b \<and> b \<le> 0xDF then 1 else if 0xE0 \<le> b \<and> b \<le> 0xEF then 2 else if 0xF0 \<le> b \<and> b \<le> 0xF4 then 3 else 0)"

definition utf8_second :: "int \<Rightarrow> int \<Rightarrow> bool" where
  "utf8_second b c = ((if b = 0xE0 then 0xA0 else if b = 0xF0 then 0x90 else 0x80) \<le> c
     \<and> c \<le> (if b = 0xED then 0x9F else if b = 0xF4 then 0x8F else 0xBF))"

definition utf8_cont :: "int \<Rightarrow> bool" where
  "utf8_cont c = (0x80 \<le> c \<and> c \<le> 0xBF)"

definition utf8_run :: "int \<Rightarrow> bytes \<Rightarrow> nat" where
  "utf8_run b bs = (if utf8_tail b = 0 \<or> bs = [] \<or> \<not> utf8_second b (hd bs) then 0
     else 1 + length (takeWhile utf8_cont (take (utf8_tail b - 1) (tl bs))))"

definition utf8_head :: "int \<Rightarrow> int" where
  "utf8_head b = (if b < 0xE0 then b - 0xC0 else if b < 0xF0 then b - 0xE0 else b - 0xF0)"

definition utf8_value :: "int \<Rightarrow> bytes \<Rightarrow> int" where
  "utf8_value b cs = foldl (\<lambda>x c. 64 * x + (c - 0x80)) (utf8_head b) cs"

function utf8_decode :: "bytes \<Rightarrow> pytext" where
  "utf8_decode [] = []"
| "utf8_decode (b # bs) =
     (if b < 0x80 then b # utf8_decode bs
      else let k = utf8_run b bs in
        if 0 < k \<and> k = utf8_tail b then utf8_value b (take k bs) # utf8_decode (drop k bs) else utf8_decode (drop k bs))"
  by pat_completeness auto
termination by (relation "measure length") auto

text \<open>\<open>encode("utf-8", errors="ignore")\<close> drops the surrogates.\<close>

definition utf8_char :: "int \<Rightarrow> bytes" where
  "utf8_char c =
     (if c < 0x80 then [c]
      else if c < 0x800 then [0xC0 + c div 64, 0x80 + c mod 64]
      else if 0xD800 \<le> c \<and> c \<le> 0xDFFF then []
      else if c < 0x10000 then [0xE0 + c div 4096, 0x80 + c div 64 mod 64, 0x80 + c mod 64]
      else [0xF0 + c div 262144, 0x80 + c div 4096 mod 64, 0x80 + c div 64 mod 64, 0x80 + c mod 64])"

definition utf8_encode :: "pytext \<Rightarrow> bytes" where
  "utf8_encode t = concat (map utf8_char t)"

section \<open>Encodings and the challenge\<close>

definition ENC_RESIZE :: int where "ENC_RESIZE = -223"
definition ENC_RENAME :: int where "ENC_RENAME = -307"
definition ENC_LEDS_STATE :: int where "ENC_LEDS_STATE = -261"
definition ENC_EXT_KEYS :: int where "ENC_EXT_KEYS = -258"
definition ENC_EXT_MOUSE :: int where "ENC_EXT_MOUSE = -316"
definition ENC_CONT_UPDATES :: int where "ENC_CONT_UPDATES = -313"
definition ENC_TIGHT :: int where "ENC_TIGHT = 7"
definition ENC_H264 :: int where "ENC_H264 = 50"

definition jpeg_qualities :: "(int \<times> int) list" where
  "jpeg_qualities = zip [-32, -31, -30, -29, -28, -27, -26, -25, -24, -23] [10, 20, 30, 40, 50, 60, 70, 80, 90, 100]"

record client_encodings =
  ce_encodings :: "int list"
  ce_resize :: bool
  ce_rename :: bool
  ce_leds_state :: bool
  ce_ext_keys :: bool
  ce_ext_mouse :: bool
  ce_cont_updates :: bool
  ce_tight :: bool
  ce_quality :: int
  ce_h264 :: bool

definition tight_quality :: "int list \<Rightarrow> int" where
  "tight_quality es =
     (let qs = filter (\<lambda>q. q \<in> set es) (map fst jpeg_qualities) in
      if ENC_TIGHT \<in> set es \<and> qs \<noteq> [] then the (map_of jpeg_qualities (foldr max qs (hd qs))) else 0)"

definition mk_encodings :: "int list \<Rightarrow> client_encodings" where
  "mk_encodings es = \<lparr>ce_encodings = es, ce_resize = (ENC_RESIZE \<in> set es), ce_rename = (ENC_RENAME \<in> set es),
     ce_leds_state = (ENC_LEDS_STATE \<in> set es), ce_ext_keys = (ENC_EXT_KEYS \<in> set es), ce_ext_mouse = (ENC_EXT_MOUSE \<in> set es),
     ce_cont_updates = (ENC_CONT_UPDATES \<in> set es), ce_tight = (ENC_TIGHT \<in> set es), ce_quality = tight_quality es,
     ce_h264 = (ENC_H264 \<in> set es)\<rparr>"

text \<open>The DES key of a password: its first eight bytes, padded with zeros, with the bits of each reversed.\<close>

definition reverse_bits :: "int \<Rightarrow> int" where
  "reverse_bits ch = sum_list (map (\<lambda>i. if bit ch i then 2 ^ (7 - i) else 0) [0..<8])"

definition make_key :: "bytes \<Rightarrow> bytes" where
  "make_key passwd = map reverse_bits (take 8 (passwd @ replicate 8 0))"

definition encrypt_challenge :: "(bytes \<Rightarrow> bytes \<Rightarrow> bytes) \<Rightarrow> bytes \<Rightarrow> bytes \<Rightarrow> bytes result" where
  "encrypt_challenge des challenge passwd =
     assertR (length challenge = 16) (Inr (des (make_key passwd) (take 8 challenge) @ des (make_key passwd) (drop 8 challenge)))"

section \<open>The client\<close>

datatype rfb_event =
    KeyEvent int bool
  | ButtonEvent int bool
  | MoveEvent int int
  | WheelEvent int int
  | CutEvent pytext
  | EncodingsSet

datatype access = ByUser pytext pytext | ByNone | ByPasswd bytes bytes

record 'w rfb_env =
  re_ecodes :: ecodes
  re_ciphers :: bool
  re_cert :: bool
  re_scroll_rate :: int
  re_vncpasses :: "pytext list"
  re_vencrypt :: bool
  re_none_auth :: bool
  re_userpass :: "pytext \<Rightarrow> pytext \<Rightarrow> ('w, bool) sm"
  re_none :: "('w, bool) sm"
  re_vncpass :: "('w, unit) sm"
  re_challenge :: "('w, bytes) sm"
  re_des :: "bytes \<Rightarrow> bytes \<Rightarrow> bytes"
  re_tls :: "nat \<Rightarrow> ('w, unit) sm"
  re_symmap :: "('w, symmap) sm"
  re_deliver :: "rfb_event \<Rightarrow> ('w, unit) sm"
  re_drain :: "'w \<Rightarrow> bool \<times> 'w"

text \<open>
  \<open>rb_in\<close> is what the client is still going to send before it closes the connection, \<open>rb_out\<close> what was written,
  \<open>rb_events\<close> the events given to the handlers and \<open>rb_log\<close> the log of the access that was granted or denied.
\<close>

record 'w rfb =
  rb_in :: bytes
  rb_out :: "bytes list"
  rb_width :: int
  rb_height :: int
  rb_name :: pytext
  rb_version :: int
  rb_symmap :: "symmap option"
  rb_encodings :: client_encodings
  rb_notified :: nat
  rb_cont_updates :: bool
  rb_reset_h264 :: bool
  rb_authorized :: bool
  rb_mods :: int
  rb_buttons :: "(int, bool) dict"
  rb_move :: "int \<times> int \<times> int \<times> int"
  rb_events :: "rfb_event list"
  rb_log :: "(access \<times> bool) list"
  rb_world :: 'w

definition rfb_init :: "int \<Rightarrow> int \<Rightarrow> pytext \<Rightarrow> bytes \<Rightarrow> 'w \<Rightarrow> 'w rfb" where
  "rfb_init width height name input w = \<lparr>rb_in = input, rb_out = [], rb_width = width, rb_height = height, rb_name = name,
     rb_version = 0, rb_symmap = None, rb_encodings = mk_encodings [], rb_notified = 0, rb_cont_updates = False,
     rb_reset_h264 = False, rb_authorized = False, rb_mods = 0, rb_buttons = [], rb_move = (-1, -1, -1, -1),
     rb_events = [], rb_log = [], rb_world = w\<rparr>"

definition envS :: "('w, 'a) sm \<Rightarrow> ('w rfb, 'a) sm" where
  "envS m s = (case m (rb_world s) of (r, w) \<Rightarrow> (r, s\<lparr>rb_world := w\<rparr>))"

subsection \<open>The stream\<close>

definition read_exactly :: "nat \<Rightarrow> ('w rfb, bytes) sm" where
  "read_exactly n = getS (\<lambda>s. if length (rb_in s) < n then bindS (modifyS (\<lambda>s. s\<lparr>rb_in := []\<rparr>)) (\<lambda>_. raiseS RfbConnectionError)
     else bindS (modifyS (\<lambda>s. s\<lparr>rb_in := drop n (rb_in s)\<rparr>)) (\<lambda>_. retS (take n (rb_in s))))"

definition read_number :: "nat \<Rightarrow> ('w rfb, int) sm" where
  "read_number n = bindS (read_exactly n) (\<lambda>bs. retS (get_int BE bs))"

definition read_struct :: "field list \<Rightarrow> ('w rfb, int list) sm" where
  "read_struct fs = bindS (read_exactly (calcsize fs)) (\<lambda>bs. retS (unpack_fields BE fs bs))"

definition read_text :: "nat \<Rightarrow> ('w rfb, pytext) sm" where
  "read_text n = bindS (read_exactly n) (\<lambda>bs. retS (utf8_decode bs))"

definition drainS :: "'w rfb_env \<Rightarrow> ('w rfb, unit) sm" where
  "drainS env s = (case re_drain env (rb_world s) of (ok1, w) \<Rightarrow> (if ok1 then Inr () else Inl RfbConnectionError, s\<lparr>rb_world := w\<rparr>))"

definition write_data :: "'w rfb_env \<Rightarrow> bytes \<Rightarrow> bool \<Rightarrow> ('w rfb, unit) sm" where
  "write_data env bs drain =
     bindS (modifyS (\<lambda>s. s\<lparr>rb_out := rb_out s @ [bs]\<rparr>)) (\<lambda>_. if drain then drainS env else retS ())"

definition write_struct :: "'w rfb_env \<Rightarrow> field list \<Rightarrow> int list \<Rightarrow> bool \<Rightarrow> ('w rfb, unit) sm" where
  "write_struct env fs vs drain = bindS (liftS (pack BE fs vs)) (\<lambda>bs. write_data env bs drain)"

definition write_reason :: "'w rfb_env \<Rightarrow> pytext \<Rightarrow> bool \<Rightarrow> ('w rfb, unit) sm" where
  "write_reason env t drain =
     bindS (write_struct env [FU 4] [int (length (utf8_encode t))] False) (\<lambda>_. write_data env (utf8_encode t) drain)"

definition write_fb_update :: "'w rfb_env \<Rightarrow> int \<Rightarrow> int \<Rightarrow> int \<Rightarrow> bool \<Rightarrow> ('w rfb, unit) sm" where
  "write_fb_update env width height encoding drain =
     write_struct env [FU 1, FX 1, FU 2, FU 2, FU 2, FU 2, FU 2, FS 4] [0, 1, 0, 0, width, height, encoding] drain"

section \<open>The handshake\<close>

definition handshake_version :: "'w rfb_env \<Rightarrow> ('w rfb, unit) sm" where
  "handshake_version env =
     bindS (write_data env (text_of ''RFB 003.008'' @ [10]) True) (\<lambda>_.
     bindS (read_text 12) (\<lambda>resp.
     if take 10 resp \<noteq> text_of ''RFB 003.00'' \<or> last resp \<noteq> 10 \<or> resp ! (length resp - 2) \<notin> set (text_of ''3578'') then raiseS RfbError
     else (let version = resp ! (length resp - 2) - 48 in
       modifyS (\<lambda>s. s\<lparr>rb_version := (if version = 5 then 3 else version)\<rparr>))))"

definition send_result :: "'w rfb_env \<Rightarrow> access \<Rightarrow> bool \<Rightarrow> pytext \<Rightarrow> ('w rfb, unit) sm" where
  "send_result env who allow deny_reason =
     bindS (modifyS (\<lambda>s. s\<lparr>rb_log := rb_log s @ [(who, allow)]\<rparr>)) (\<lambda>_.
     if allow then bindS (write_struct env [FU 4] [0] True) (\<lambda>_. modifyS (\<lambda>s. s\<lparr>rb_authorized := True\<rparr>))
     else getS (\<lambda>s.
       bindS (write_struct env [FU 4] [1] (rb_version s < 8)) (\<lambda>_.
       bindS (if rb_version s \<ge> 8 then write_reason env deny_reason True else retS ()) (\<lambda>_. raiseS RfbError))))"

definition security_userpass :: "'w rfb_env \<Rightarrow> ('w rfb, unit) sm" where
  "security_userpass env =
     bindS (read_struct [FU 4, FU 4]) (\<lambda>ns.
     bindS (read_text (nat (ns ! 0))) (\<lambda>u. let user = strip u in
     bindS (read_text (nat (ns ! 1))) (\<lambda>passwd.
     bindS (envS (re_userpass env user passwd)) (\<lambda>allow.
     if allow \<and> user = [] then raiseS AssertionError
     else send_result env (ByUser user passwd) allow (text_of ''Invalid username or password'')))))"

definition security_none :: "'w rfb_env \<Rightarrow> ('w rfb, unit) sm" where
  "security_none env = bindS (envS (re_none env)) (\<lambda>allow. send_result env ByNone allow (text_of ''Access denied''))"

fun find_passwd :: "'w rfb_env \<Rightarrow> bytes \<Rightarrow> bytes \<Rightarrow> pytext list \<Rightarrow> ('w rfb, bool) sm" where
  "find_passwd env challenge response [] = retS False"
| "find_passwd env challenge response (p # ps) =
     bindS (liftS (encrypt_challenge (re_des env) challenge (utf8_encode p))) (\<lambda>x.
     if x = response then bindS (envS (re_vncpass env)) (\<lambda>_. retS True) else find_passwd env challenge response ps)"

definition security_vnc_auth :: "'w rfb_env \<Rightarrow> ('w rfb, unit) sm" where
  "security_vnc_auth env =
     bindS (envS (re_challenge env)) (\<lambda>challenge.
     bindS (write_data env challenge True) (\<lambda>_.
     bindS (read_exactly 16) (\<lambda>response.
     bindS (find_passwd env challenge response (re_vncpasses env)) (\<lambda>allow.
     send_result env (ByPasswd challenge response) allow (text_of ''Invalid password'')))))"

datatype sec_handler = HandleNone | HandleVncAuth | HandleUserpass | HandleVencrypt

text \<open>The types that VeNCrypt offers, in order, with the kind of TLS: none, anonymous or with the certificate.\<close>

definition vencrypt_types :: "'w rfb_env \<Rightarrow> (int, nat \<times> sec_handler) dict" where
  "vencrypt_types env =
     (let tls = (\<lambda>x509 anon h. if re_ciphers env then (if re_cert env then [(x509, 2, h)] else []) @ [(anon, 1, h)] else []) in
      if re_none_auth env then (1, 0, HandleNone) # tls 260 257 HandleNone
      else (256, 0, HandleUserpass) # tls 262 259 HandleUserpass
        @ (if re_vncpasses env \<noteq> [] then (2, 0, HandleVncAuth) # tls 261 258 HandleVncAuth else []))"

definition run_handler :: "'w rfb_env \<Rightarrow> sec_handler \<Rightarrow> ('w rfb, unit) sm" where
  "run_handler env h = (case h of HandleNone \<Rightarrow> security_none env | HandleVncAuth \<Rightarrow> security_vnc_auth env
     | _ \<Rightarrow> security_userpass env)"

definition security_vencrypt :: "'w rfb_env \<Rightarrow> ('w rfb, unit) sm" where
  "security_vencrypt env =
     bindS (write_struct env [FU 1, FU 1] [0, 2] True) (\<lambda>_.
     bindS (read_struct [FU 1, FU 1]) (\<lambda>v.
     if v \<noteq> [0, 2] then bindS (write_struct env [FU 1] [1] True) (\<lambda>_. raiseS RfbError)
     else
       bindS (write_struct env [FU 1] [0] True) (\<lambda>_. let types = vencrypt_types env in
       bindS (write_struct env (FU 1 # replicate (length types) (FU 4)) (int (length types) # map fst types) True) (\<lambda>_.
       bindS (read_number 4) (\<lambda>t. case map_of types t of
         None \<Rightarrow> raiseS RfbError
       | Some (tls, h) \<Rightarrow>
           bindS (if tls > 0 then bindS (write_struct env [FU 1] [1] True) (\<lambda>_. envS (re_tls env tls)) else retS ()) (\<lambda>_.
           run_handler env h))))))"

definition security_types :: "'w rfb_env \<Rightarrow> int \<Rightarrow> (int, sec_handler) dict" where
  "security_types env version =
     (if re_vencrypt env \<and> version > 3 then [(19, HandleVencrypt)] else [])
     @ (if re_none_auth env then [(1, HandleNone)] else if re_vncpasses env \<noteq> [] then [(2, HandleVncAuth)] else [])"

definition old_protocol_reason :: pytext where
  "old_protocol_reason = text_of ''The client uses a very old protocol 3.3 and VNCAuth or NoneAuth is disabled''"

definition handshake_security :: "'w rfb_env \<Rightarrow> ('w rfb, unit) sm" where
  "handshake_security env = getS (\<lambda>s. let types = security_types env (rb_version s) in
     if types = [] then
       bindS (write_struct env [FU 4] [0] False) (\<lambda>_.
       bindS (write_reason env old_protocol_reason True) (\<lambda>_. raiseS RfbError))
     else
       bindS (if rb_version s > 3 then
           bindS (write_struct env (FU 1 # replicate (length types) (FU 1)) (int (length types) # map fst types) True) (\<lambda>_. read_number 1)
         else bindS (write_struct env [FU 4] [fst (hd types)] True) (\<lambda>_. retS (fst (hd types)))) (\<lambda>t.
       case map_of types t of
         None \<Rightarrow> raiseS RfbError
       | Some h \<Rightarrow> if h = HandleVencrypt then security_vencrypt env else run_handler env h))"

text \<open>\<open>_SecurityError\<close> stands as \<open>ForbiddenError\<close>.\<close>

definition check_authorized :: "('w rfb, unit) sm" where
  "check_authorized = getS (\<lambda>s. if \<not> rb_authorized s then raiseS ForbiddenError else retS ())"

definition handshake_init :: "'w rfb_env \<Rightarrow> ('w rfb, unit) sm" where
  "handshake_init env =
     bindS check_authorized (\<lambda>_.
     bindS (read_number 1) (\<lambda>_. getS (\<lambda>s.
     bindS (write_struct env [FU 2, FU 2] [rb_width s, rb_height s] False) (\<lambda>_.
     bindS (write_struct env [FU 1, FU 1, FU 1, FU 1, FU 2, FU 2, FU 2, FU 1, FU 1, FU 1, FX 3] [32, 24, 0, 1, 255, 255, 255, 16, 8, 0] False) (\<lambda>_.
     write_reason env (rb_name s) True)))))"

section \<open>Messages of the client\<close>

definition check_encodings :: "('w rfb, unit) sm" where
  "check_encodings = getS (\<lambda>s.
     if ce_encodings (rb_encodings s) = [] then raiseS RfbError
     else if \<not> ce_tight (rb_encodings s) \<or> ce_quality (rb_encodings s) = 0 then raiseS RfbError
     else retS ())"

definition get_symmap :: "'w rfb_env \<Rightarrow> ('w rfb, symmap) sm" where
  "get_symmap env = getS (\<lambda>s. case rb_symmap s of
     Some m \<Rightarrow> retS m
   | None \<Rightarrow> bindS (envS (re_symmap env)) (\<lambda>m. bindS (modifyS (\<lambda>s. s\<lparr>rb_symmap := Some m\<rparr>)) (\<lambda>_. retS m)))"

definition deliver :: "'w rfb_env \<Rightarrow> rfb_event \<Rightarrow> ('w rfb, unit) sm" where
  "deliver env e = bindS (modifyS (\<lambda>s. s\<lparr>rb_events := rb_events s @ [e]\<rparr>)) (\<lambda>_. envS (re_deliver env e))"

definition notify_fb :: "('w rfb, unit) sm" where
  "notify_fb = modifyS (\<lambda>s. s\<lparr>rb_notified := rb_notified s + 1\<rparr>)"

definition handle_set_pixel_format :: "('w rfb, unit) sm" where
  "handle_set_pixel_format =
     bindS (read_struct [FX 3, FU 1, FU 1, FU 1, FU 1, FU 2, FU 2, FU 2, FU 1, FU 1, FU 1, FX 3]) (\<lambda>vs.
     if vs ! 0 \<notin> {16, 32} then raiseS RfbError else retS ())"

text \<open>\<open>_read_struct\<close> asserts that its format has more than one character, and the format has one per encoding.\<close>

definition handle_set_encodings :: "'w rfb_env \<Rightarrow> ('w rfb, unit) sm" where
  "handle_set_encodings env =
     bindS (read_struct [FX 1, FU 2]) (\<lambda>vs.
     if vs ! 0 = 0 then raiseS RfbError
     else if vs ! 0 > 1024 then raiseS RfbError
     else assertS (vs ! 0 > 1)
       (bindS (read_struct (replicate (nat (vs ! 0)) (FS 4))) (\<lambda>es.
        bindS (modifyS (\<lambda>s. s\<lparr>rb_encodings := mk_encodings es\<rparr>)) (\<lambda>_.
        bindS check_encodings (\<lambda>_. getS (\<lambda>s. let enc = rb_encodings s in
        bindS (whenS (ce_cont_updates enc) (write_struct env [FU 1] [150] True)) (\<lambda>_.
        bindS (if ce_ext_keys enc then write_fb_update env 0 0 ENC_EXT_KEYS True else bindS (get_symmap env) (\<lambda>_. retS ())) (\<lambda>_.
        bindS (whenS (ce_ext_mouse enc) (write_fb_update env 0 0 ENC_EXT_MOUSE True)) (\<lambda>_.
        deliver env EncodingsSet)))))))))"

definition handle_fb_update_request :: "('w rfb, unit) sm" where
  "handle_fb_update_request =
     bindS check_encodings (\<lambda>_.
     bindS (read_struct [FU 1, FU 2, FU 2, FU 2, FU 2]) (\<lambda>_.
     getS (\<lambda>s. whenS (\<not> rb_cont_updates s) notify_fb)))"

definition switch_modifier :: "int \<Rightarrow> bool \<Rightarrow> ('w rfb, bool) sm" where
  "switch_modifier m state =
     (if m = 0 then retS False
      else bindS (modifyS (\<lambda>s. s\<lparr>rb_mods := (if state then rb_mods s OR m else rb_mods s AND NOT m)\<rparr>)) (\<lambda>_. retS True))"

definition x11_modifier :: "int \<Rightarrow> int" where
  "x11_modifier code = (if code \<in> {65505, 65506} then SHIFT else if code = 65027 then ALTGR
     else if code \<in> {65507, 65508} then CTRL else 0)"

definition evdev_modifier :: "ecodes \<Rightarrow> int \<Rightarrow> int" where
  "evdev_modifier ec key = (if key \<in> set (map ec SHIFTS) then SHIFT else if key = ec ''KEY_RIGHTALT'' then ALTGR
     else if key \<in> set (map ec CTRLS) then CTRL else 0)"

text \<open>The key for a keysym, and whether a Shift that the client did not send goes around it.\<close>

definition choose_key :: "(int, int) dict \<Rightarrow> bool \<Rightarrow> int \<Rightarrow> int option \<times> bool" where
  "choose_key variants is_mod mods =
     (if is_mod then (map_of variants 0, False)
      else let key = (case map_of variants mods of None \<Rightarrow> map_of variants 0 | Some k \<Rightarrow> Some k) in
        if key = None \<and> mods = 0 \<and> dict_has variants SHIFT then (map_of variants SHIFT, True) else (key, False))"

definition handle_key_event :: "'w rfb_env \<Rightarrow> ('w rfb, unit) sm" where
  "handle_key_event env =
     bindS (read_struct [FU 1, FX 2, FU 4]) (\<lambda>vs. let state = (vs ! 0 \<noteq> 0); code = vs ! 1 in
     bindS (switch_modifier (x11_modifier code) state) (\<lambda>is_mod.
     bindS (get_symmap env) (\<lambda>symmap. getS (\<lambda>s.
       case map_of symmap code of None \<Rightarrow> retS () | Some variants \<Rightarrow> whenS (variants \<noteq> [])
         (case choose_key variants is_mod (rb_mods s) of (key, fake_shift) \<Rightarrow>
            (case key of None \<Rightarrow> retS () | Some k \<Rightarrow> whenS (k \<noteq> 0)
              (bindS (whenS fake_shift (deliver env (KeyEvent (re_ecodes env ''KEY_LEFTSHIFT'') True))) (\<lambda>_.
               bindS (deliver env (KeyEvent k state)) (\<lambda>_.
               whenS fake_shift (deliver env (KeyEvent (re_ecodes env ''KEY_LEFTSHIFT'') False)))))))))))"

definition mouse_buttons :: "ecodes \<Rightarrow> int \<Rightarrow> int \<Rightarrow> (int \<times> bool) list" where
  "mouse_buttons ec buttons ext =
     [(ec ''BTN_LEFT'', bit_set buttons 1), (ec ''BTN_RIGHT'', bit_set buttons 4), (ec ''BTN_MIDDLE'', bit_set buttons 2),
      (ec ''BTN_BACK'', bit_set ext 2), (ec ''BTN_FORWARD'', bit_set ext 1)]"

definition set_button :: "'w rfb_env \<Rightarrow> int \<times> bool \<Rightarrow> ('w rfb, unit) sm" where
  "set_button env cs = (case cs of (code, state) \<Rightarrow> getS (\<lambda>s.
     whenS (map_of (rb_buttons s) code \<noteq> Some state)
       (bindS (deliver env (ButtonEvent code state)) (\<lambda>_.
        modifyS (\<lambda>s. s\<lparr>rb_buttons := AList.update code state (rb_buttons s)\<rparr>)))))"

definition wheel_delta :: "int \<Rightarrow> int \<Rightarrow> int \<Rightarrow> int \<Rightarrow> int" where
  "wheel_delta sr buttons neg pos = (if bit_set buttons neg then - sr else if bit_set buttons pos then sr else 0)"

definition point_to :: "int \<Rightarrow> int \<Rightarrow> int \<Rightarrow> int \<Rightarrow> rfb_event" where
  "point_to width height x y = MoveEvent (remap x 0 (width - 1) (-32768) 32767) (remap y 0 (height - 1) (-32768) 32767)"

definition pointer_event :: "'w rfb_env \<Rightarrow> int \<Rightarrow> int \<Rightarrow> int \<Rightarrow> int \<Rightarrow> ('w rfb, unit) sm" where
  "pointer_event env buttons ext x y = getS (\<lambda>s.
     bindS (whenS (bit_set buttons 0x78)
       (deliver env (WheelEvent (wheel_delta (re_scroll_rate env) buttons 0x40 0x20) (wheel_delta (re_scroll_rate env) buttons 0x10 0x08)))) (\<lambda>_.
     bindS (whenS (rb_move s \<noteq> (rb_width s, rb_height s, x, y))
       (bindS (deliver env (point_to (rb_width s) (rb_height s) x y)) (\<lambda>_.
        modifyS (\<lambda>s'. s'\<lparr>rb_move := (rb_width s, rb_height s, x, y)\<rparr>)))) (\<lambda>_.
     forS (mouse_buttons (re_ecodes env) buttons ext) (set_button env))))"

definition handle_pointer_event :: "'w rfb_env \<Rightarrow> ('w rfb, unit) sm" where
  "handle_pointer_event env =
     bindS (read_struct [FU 1, FU 2, FU 2]) (\<lambda>vs. getS (\<lambda>s.
     bindS (if ce_ext_mouse (rb_encodings s) \<and> bit_set (vs ! 0) 0x80 then read_number 1 else retS 0) (\<lambda>ext.
     pointer_event env (vs ! 0) ext (vs ! 1) (vs ! 2))))"

definition handle_client_cut_text :: "'w rfb_env \<Rightarrow> ('w rfb, unit) sm" where
  "handle_client_cut_text env =
     bindS (read_struct [FX 3, FU 4]) (\<lambda>vs. bindS (read_text (nat (vs ! 0))) (\<lambda>t. deliver env (CutEvent t)))"

definition handle_enable_cont_updates :: "'w rfb_env \<Rightarrow> ('w rfb, unit) sm" where
  "handle_enable_cont_updates env =
     bindS (read_struct [FU 1, FU 2, FU 2, FU 2, FU 2]) (\<lambda>vs. let enabled = (vs ! 0 \<noteq> 0) in
     bindS (modifyS (\<lambda>s. s\<lparr>rb_cont_updates := enabled\<rparr>)) (\<lambda>_.
     if enabled then notify_fb else write_struct env [FU 1] [150] True))"

definition qemu_code :: "int \<Rightarrow> int" where
  "qemu_code c = (let code = (if c = 0xB7 then 0x54 else c) in
     if bit_set code 0x80 then 0xE000 OR (code AND NOT 0x80) else code)"

definition handle_qemu_event :: "'w rfb_env \<Rightarrow> ('w rfb, unit) sm" where
  "handle_qemu_event env =
     bindS (read_struct [FU 1, FU 2, FX 4, FU 4]) (\<lambda>vs.
     if vs ! 0 \<noteq> 0 then raiseS RfbError
     else let state = (vs ! 1 \<noteq> 0); key = dict_get (at1_to_evdev (re_ecodes env)) (qemu_code (vs ! 2)) 0 in
       whenS (key \<noteq> 0)
         (bindS (switch_modifier (evdev_modifier (re_ecodes env) key) state) (\<lambda>_. deliver env (KeyEvent key state))))"

definition handle_message :: "'w rfb_env \<Rightarrow> int \<Rightarrow> ('w rfb, unit) sm" where
  "handle_message env t =
     (if t = 0 then handle_set_pixel_format
      else if t = 2 then handle_set_encodings env
      else if t = 3 then handle_fb_update_request
      else if t = 4 then handle_key_event env
      else if t = 5 then handle_pointer_event env
      else if t = 6 then handle_client_cut_text env
      else if t = 150 then handle_enable_cont_updates env
      else if t = 255 then handle_qemu_event env
      else raiseS RfbError)"

definition next_message :: "'w rfb_env \<Rightarrow> ('w rfb, unit) sm" where
  "next_message env = bindS (read_number 1) (handle_message env)"

definition handshake :: "'w rfb_env \<Rightarrow> ('w rfb, unit) sm" where
  "handshake env =
     bindS (handshake_version env) (\<lambda>_.
     bindS (handshake_security env) (\<lambda>_.
     bindS check_authorized (\<lambda>_.
     bindS (handshake_init env) (\<lambda>_. check_authorized))))"

text \<open>The loop ends by an exception only; the number bounds its rounds.\<close>

fun main_loop :: "'w rfb_env \<Rightarrow> nat \<Rightarrow> ('w rfb, unit) sm" where
  "main_loop env 0 = retS ()"
| "main_loop env (Suc n) = bindS (next_message env) (\<lambda>_. main_loop env n)"

definition main_task :: "'w rfb_env \<Rightarrow> nat \<Rightarrow> ('w rfb, unit) sm" where
  "main_task env n = bindS (handshake env) (\<lambda>_. main_loop env n)"

section \<open>Updates for the client\<close>

definition tight_length :: "int \<Rightarrow> bytes" where
  "tight_length n =
     (if n \<le> 127 then [0x9F, n AND 0x7F]
      else if n \<le> 16383 then [0x9F, n AND 0x7F OR 0x80, drop_bit 7 n AND 0x7F]
      else [0x9F, n AND 0x7F OR 0x80, drop_bit 7 n AND 0x7F OR 0x80, drop_bit 14 n AND 0xFF])"

definition after_frame :: "bool \<Rightarrow> ('w rfb, unit) sm" where
  "after_frame reset = bindS (modifyS (\<lambda>s. s\<lparr>rb_reset_h264 := reset\<rparr>)) (\<lambda>_. getS (\<lambda>s. whenS (rb_cont_updates s) notify_fb))"

definition send_fb_jpeg :: "'w rfb_env \<Rightarrow> bytes \<Rightarrow> ('w rfb, unit) sm" where
  "send_fb_jpeg env data = getS (\<lambda>s.
     assertS (ce_tight (rb_encodings s)) (assertS (ce_quality (rb_encodings s) > 0) (assertS (length data \<le> 4194303)
       (bindS (write_fb_update env (rb_width s) (rb_height s) ENC_TIGHT False) (\<lambda>_.
        bindS (liftS (py_bytes (tight_length (int (length data))))) (\<lambda>bs.
        bindS (write_data env bs False) (\<lambda>_.
        bindS (write_data env data True) (\<lambda>_. after_frame True))))))))"

definition send_fb_h264 :: "'w rfb_env \<Rightarrow> bytes \<Rightarrow> ('w rfb, unit) sm" where
  "send_fb_h264 env data = getS (\<lambda>s.
     assertS (ce_h264 (rb_encodings s)) (assertS (length data \<le> 0xFFFFFFFF)
       (bindS (write_fb_update env (rb_width s) (rb_height s) ENC_H264 False) (\<lambda>_.
        bindS (write_struct env [FU 4, FU 4] [int (length data), if rb_reset_h264 s then 1 else 0] False) (\<lambda>_.
        bindS (write_data env data True) (\<lambda>_. after_frame False))))))"

definition send_resize :: "'w rfb_env \<Rightarrow> int \<Rightarrow> int \<Rightarrow> ('w rfb, unit) sm" where
  "send_resize env width height = getS (\<lambda>s.
     assertS (ce_resize (rb_encodings s))
       (bindS (write_fb_update env width height ENC_RESIZE True) (\<lambda>_.
        modifyS (\<lambda>s. s\<lparr>rb_width := width, rb_height := height, rb_reset_h264 := True\<rparr>))))"

definition send_rename :: "'w rfb_env \<Rightarrow> pytext \<Rightarrow> ('w rfb, unit) sm" where
  "send_rename env name = getS (\<lambda>s.
     assertS (ce_rename (rb_encodings s))
       (bindS (write_fb_update env 0 0 ENC_RENAME False) (\<lambda>_.
        bindS (write_reason env name True) (\<lambda>_. modifyS (\<lambda>s. s\<lparr>rb_name := name\<rparr>)))))"

definition send_leds_state :: "'w rfb_env \<Rightarrow> bool \<Rightarrow> bool \<Rightarrow> bool \<Rightarrow> ('w rfb, unit) sm" where
  "send_leds_state env caps scroll num = getS (\<lambda>s.
     assertS (ce_leds_state (rb_encodings s))
       (bindS (write_fb_update env 0 0 ENC_LEDS_STATE False) (\<lambda>_.
        write_struct env [FU 1] [of_bool scroll OR push_bit 1 (of_bool num) OR push_bit 2 (of_bool caps)] True)))"

section \<open>A session\<close>

text \<open>After the handshake, the messages of the client are handled while other tasks send updates in between.\<close>

datatype rfb_step =
    NextMessage
  | SendJpeg bytes
  | SendH264 bytes
  | SendResize int int
  | SendRename pytext
  | SendLeds bool bool bool

fun do_step :: "'w rfb_env \<Rightarrow> rfb_step \<Rightarrow> ('w rfb, unit) sm" where
  "do_step env NextMessage = next_message env"
| "do_step env (SendJpeg data) = send_fb_jpeg env data"
| "do_step env (SendH264 data) = send_fb_h264 env data"
| "do_step env (SendResize width height) = send_resize env width height"
| "do_step env (SendRename name) = send_rename env name"
| "do_step env (SendLeds caps scroll num) = send_leds_state env caps scroll num"

definition session :: "'w rfb_env \<Rightarrow> rfb_step list \<Rightarrow> ('w rfb, unit) sm" where
  "session env steps = bindS (handshake env) (\<lambda>_. forS steps (do_step env))"

end
