(* ===== verification/RfbSafe.thy ===== *)
theory RfbSafe
  imports Rfb
begin

text \<open>
  What a VNC session promises whatever the client sends: the text it writes is read back, events are only
  taken after an accepted authorisation and in the ranges of the HID, and the session ends with one of the
  expected errors once the client is gone.
\<close>

section \<open>Text\<close>

definition scalar_value :: "int \<Rightarrow> bool" where
  "scalar_value c = (0 \<le> c \<and> c < 0x110000 \<and> \<not> (0xD800 \<le> c \<and> c \<le> 0xDFFF))"

lemma utf8_decode_2:
  assumes "0x80 \<le> c" "c < 0x800"
  shows "utf8_decode (utf8_char c @ rest) = c # utf8_decode rest"
proof -
  let ?b = "0xC0 + c div 64" and ?d = "0x80 + c mod 64"
  have b: "0xC2 \<le> ?b" "?b \<le> 0xDF" using assms by simp_all
  have run: "utf8_run ?b (?d # rest) = 1" using b by (simp add: utf8_run_def utf8_tail_def utf8_second_def)
  have "utf8_value ?b [?d] = c" using b by (simp add: utf8_value_def utf8_head_def)
  with assms b run show ?thesis by (simp add: utf8_char_def utf8_tail_def Let_def)
qed

lemma digits_64:
  "c = 4096 * (c div 4096) + 64 * (c div 64 mod 64) + c mod 64"
  "c div 4096 = 64 * (c div 262144) + c div 4096 mod 64" for c :: int
proof -
  have "c div 64 div 64 = c div 4096" "c div 4096 div 64 = c div 262144" by (simp_all add: div_mult2_eq [symmetric])
  then show "c = 4096 * (c div 4096) + 64 * (c div 64 mod 64) + c mod 64"
    and "c div 4096 = 64 * (c div 262144) + c div 4096 mod 64"
    using div_mult_mod_eq [of c 64] div_mult_mod_eq [of "c div 64" 64] div_mult_mod_eq [of "c div 4096" 64] by linarith+
qed

lemma utf8_three:
  assumes "c = 4096 * x + 64 * y + z" "0 \<le> y" "y < 64" "0 \<le> z" "z < 64"
    and "0x800 \<le> c" "c < 0x10000" "\<not> (0xD800 \<le> c \<and> c \<le> 0xDFFF)"
  shows "utf8_decode ([0xE0 + x, 0x80 + y, 0x80 + z] @ rest) = c # utf8_decode rest"
proof -
  have x: "0 \<le> x" "x \<le> 15" using assms by linarith+
  have second: "utf8_second (0xE0 + x) (0x80 + y)" unfolding utf8_second_def using assms x by auto
  have run: "utf8_run (0xE0 + x) ((0x80 + y) # (0x80 + z) # rest) = 2"
    using x assms(2-5) second by (simp add: utf8_run_def utf8_tail_def utf8_cont_def)
  have "utf8_value (0xE0 + x) [0x80 + y, 0x80 + z] = c" using x assms(1) by (simp add: utf8_value_def utf8_head_def)
  with x run show ?thesis by (simp add: utf8_tail_def Let_def numeral_2_eq_2)
qed

lemma utf8_four:
  assumes "c = 262144 * w + 4096 * x + 64 * y + z" "0 \<le> x" "x < 64" "0 \<le> y" "y < 64" "0 \<le> z" "z < 64"
    and "0x10000 \<le> c" "c < 0x110000"
  shows "utf8_decode ([0xF0 + w, 0x80 + x, 0x80 + y, 0x80 + z] @ rest) = c # utf8_decode rest"
proof -
  have w: "0 \<le> w" "w \<le> 4" using assms by linarith+
  have second: "utf8_second (0xF0 + w) (0x80 + x)" unfolding utf8_second_def using assms w by auto
  have run: "utf8_run (0xF0 + w) ((0x80 + x) # (0x80 + y) # (0x80 + z) # rest) = 3"
    using w assms(2-7) second by (simp add: utf8_run_def utf8_tail_def utf8_cont_def)
  have "utf8_value (0xF0 + w) [0x80 + x, 0x80 + y, 0x80 + z] = c" using w assms(1) by (simp add: utf8_value_def utf8_head_def)
  with w run show ?thesis by (simp add: utf8_tail_def Let_def numeral_3_eq_3)
qed

lemma utf8_decode_3:
  assumes "0x800 \<le> c" "c < 0x10000" "\<not> (0xD800 \<le> c \<and> c \<le> 0xDFFF)"
  shows "utf8_decode (utf8_char c @ rest) = c # utf8_decode rest"
  using utf8_three [OF digits_64(1) _ _ _ _ assms, of rest] assms by (simp add: utf8_char_def)

lemma utf8_decode_4:
  assumes "0x10000 \<le> c" "c < 0x110000"
  shows "utf8_decode (utf8_char c @ rest) = c # utf8_decode rest"
proof -
  have "c = 262144 * (c div 262144) + 4096 * (c div 4096 mod 64) + 64 * (c div 64 mod 64) + c mod 64"
    using digits_64 [of c] by linarith
  from utf8_four [OF this _ _ _ _ _ _ assms, of rest] assms show ?thesis by (simp add: utf8_char_def)
qed

lemma utf8_decode_char:
  assumes "scalar_value c"
  shows "utf8_decode (utf8_char c @ rest) = c # utf8_decode rest"
proof -
  consider "c < 0x80" | "0x80 \<le> c" "c < 0x800" | "0x800 \<le> c" "c < 0x10000" | "0x10000 \<le> c" by linarith
  then show ?thesis
  proof cases
    case 1
    then show ?thesis by (simp add: utf8_char_def)
  next
    case 2
    then show ?thesis by (rule utf8_decode_2)
  next
    case 3
    then show ?thesis using assms by (intro utf8_decode_3) (simp_all add: scalar_value_def)
  next
    case 4
    then show ?thesis using assms by (intro utf8_decode_4) (simp_all add: scalar_value_def)
  qed
qed

lemma utf8_decode_encode: "list_all scalar_value t \<Longrightarrow> utf8_decode (utf8_encode t) = t"
proof (induction t)
  case (Cons c t)
  then show ?case using utf8_decode_char [of c "utf8_encode t"] by (simp add: utf8_encode_def)
qed (simp add: utf8_encode_def)

section \<open>What holds during a session\<close>

text \<open>What the environment may raise is raised by the session, too.\<close>

definition env_errors :: "'w rfb_env \<Rightarrow> pyerr set" where
  "env_errors env = {e. \<exists>w w'. re_vncpass env w = (Inl e, w') \<or> re_none env w = (Inl e, w') \<or> re_challenge env w = (Inl e, w')
     \<or> re_symmap env w = (Inl e, w') \<or> (\<exists>n. re_tls env n w = (Inl e, w')) \<or> (\<exists>x. re_deliver env x w = (Inl e, w'))
     \<or> (\<exists>u p. re_userpass env u p w = (Inl e, w'))}"

definition session_errors :: "'w rfb_env \<Rightarrow> pyerr set" where
  "session_errors env = {RfbError, RfbConnectionError, AssertionError} \<union> env_errors env"

text \<open>Why an access is granted: the daemon accepts the user, or a password of the list encrypts the challenge.\<close>

definition granted :: "'w rfb_env \<Rightarrow> access \<Rightarrow> bool" where
  "granted env who = (case who of
     ByUser u p \<Rightarrow> re_vencrypt env \<and> \<not> re_none_auth env \<and> u \<noteq> [] \<and> (\<exists>w w'. re_userpass env u p w = (Inr True, w'))
   | ByNone \<Rightarrow> re_none_auth env \<and> (\<exists>w w'. re_none env w = (Inr True, w'))
   | ByPasswd c r \<Rightarrow> \<not> re_none_auth env
       \<and> (\<exists>p \<in> set (re_vncpasses env). encrypt_challenge (re_des env) c (utf8_encode p) = Inr r))"

definition event_in_range :: "'w rfb_env \<Rightarrow> rfb_event \<Rightarrow> bool" where
  "event_in_range env e = (case e of
     MoveEvent x y \<Rightarrow> -32768 \<le> x \<and> x \<le> 32767 \<and> -32768 \<le> y \<and> y \<le> 32767
   | WheelEvent x y \<Rightarrow> \<bar>x\<bar> \<le> \<bar>re_scroll_rate env\<bar> \<and> \<bar>y\<bar> \<le> \<bar>re_scroll_rate env\<bar>
   | ButtonEvent c b \<Rightarrow> c \<in> set (map (re_ecodes env) button_names)
   | KeyEvent k b \<Rightarrow> k \<noteq> 0 \<or> k = re_ecodes env ''KEY_LEFTSHIFT''
   | _ \<Rightarrow> True)"

definition sound :: "'w rfb_env \<Rightarrow> 'w rfb \<Rightarrow> bool" where
  "sound env s = (list_all (\<lambda>(who, allow). allow \<longrightarrow> granted env who) (rb_log s)
     \<and> (rb_authorized s \<longrightarrow> (\<exists>who. (who, True) \<in> set (rb_log s)))
     \<and> (rb_events s \<noteq> [] \<longrightarrow> rb_authorized s)
     \<and> list_all (event_in_range env) (rb_events s))"

text \<open>What the target shows after the events: the state of a button and the place of the pointer.\<close>

definition shown_button :: "rfb_event list \<Rightarrow> int \<Rightarrow> bool option" where
  "shown_button es c = foldl (\<lambda>b e. case e of ButtonEvent k x \<Rightarrow> if k = c then Some x else b | _ \<Rightarrow> b) None es"

definition shown_point :: "rfb_event list \<Rightarrow> (int \<times> int) option" where
  "shown_point es = foldl (\<lambda>p e. case e of MoveEvent x y \<Rightarrow> Some (x, y) | _ \<Rightarrow> p) None es"

definition point_of :: "int \<times> int \<times> int \<times> int \<Rightarrow> (int \<times> int) option" where
  "point_of m = (case m of (w, h, x, y) \<Rightarrow>
     if x < 0 then None else Some (remap x 0 (w - 1) (-32768) 32767, remap y 0 (h - 1) (-32768) 32767))"

definition linked :: "'w rfb \<Rightarrow> bool" where
  "linked s = ((\<forall>c. map_of (rb_buttons s) c = shown_button (rb_events s) c) \<and> shown_point (rb_events s) = point_of (rb_move s))"

definition rfb_wf :: "'w rfb \<Rightarrow> bool" where
  "rfb_wf s = (bytes_ok (rb_in s) \<and> is_u16 (rb_width s) \<and> is_u16 (rb_height s) \<and> length (utf8_encode (rb_name s)) < 2 ^ 32)"

definition rfb_inv :: "'w rfb_env \<Rightarrow> bool \<Rightarrow> 'w rfb \<Rightarrow> bool" where
  "rfb_inv env a s = (rfb_wf s \<and> sound env s \<and> linked s \<and> (a \<longrightarrow> rb_authorized s))"

lemma shown_simps [simp]:
  "shown_button [] c = None" "shown_point [] = None"
  "shown_button (es @ [ButtonEvent k b]) c = (if k = c then Some b else shown_button es c)"
  "shown_point (es @ [ButtonEvent k b]) = shown_point es"
  "shown_button (es @ [MoveEvent x y]) c = shown_button es c"
  "shown_point (es @ [MoveEvent x y]) = Some (x, y)"
  by (simp_all add: shown_button_def shown_point_def)

lemma shown_other:
  "case e of ButtonEvent _ _ \<Rightarrow> False | MoveEvent _ _ \<Rightarrow> False | _ \<Rightarrow> True \<Longrightarrow>
     shown_button (es @ [e]) c = shown_button es c \<and> shown_point (es @ [e]) = shown_point es"
  by (simp add: shown_button_def shown_point_def split: rfb_event.splits)

subsection \<open>Operations on the invariant\<close>

definition stays :: "'w rfb_env \<Rightarrow> bool \<Rightarrow> ('w rfb, 'a) sm \<Rightarrow> bool \<Rightarrow> bool" where
  "stays env a m b = (\<forall>s. rfb_inv env a s \<longrightarrow> (case m s of
     (Inl e, t) \<Rightarrow> e \<in> session_errors env \<and> sound env t | (Inr x, t) \<Rightarrow> rfb_inv env b t))"

named_theorems stays_rules \<open>an operation of a session stays in its invariant\<close>

lemma staysI:
  "(\<And>s. rfb_inv env a s \<Longrightarrow> case m s of (Inl e, t) \<Rightarrow> e \<in> session_errors env \<and> sound env t | (Inr x, t) \<Rightarrow> rfb_inv env b t)
     \<Longrightarrow> stays env a m b"
  by (simp add: stays_def)

lemma stays_Inr: "stays env a m b \<Longrightarrow> rfb_inv env a s \<Longrightarrow> m s = (Inr x, t) \<Longrightarrow> rfb_inv env b t"
  and stays_Inl: "stays env a m b \<Longrightarrow> rfb_inv env a s \<Longrightarrow> m s = (Inl e, t) \<Longrightarrow> e \<in> session_errors env \<and> sound env t"
  by (fastforce simp: stays_def)+

lemma rfb_inv_weaken: "rfb_inv env a s \<Longrightarrow> rfb_inv env False s"
  by (simp add: rfb_inv_def)

lemma inv_sound: "rfb_inv env a s \<Longrightarrow> sound env s"
  by (simp add: rfb_inv_def)

lemma stays_sound:
  assumes "stays env a m b" "rfb_inv env a s"
  shows "sound env (snd (m s))"
proof (cases "m s")
  case (Pair r t)
  with stays_Inl [OF assms] stays_Inr [OF assms] show ?thesis by (cases r) (auto dest: inv_sound)
qed

lemma stays_retS [stays_rules]: "stays env a (retS x) a"
  by (simp add: stays_def retS_def)

lemma stays_raiseS [stays_rules]: "e \<in> session_errors env \<Longrightarrow> stays env a (raiseS e) b"
  by (auto simp: stays_def raiseS_def dest: inv_sound)

lemma stays_liftS [stays_rules]: "(\<And>e. x = Inl e \<Longrightarrow> e \<in> session_errors env) \<Longrightarrow> stays env a (liftS x) a"
  by (auto simp: stays_def liftS_def split: sum.splits dest: inv_sound)

lemma stays_bind_result:
  assumes "stays env a m b"
    and "\<And>x s t. rfb_inv env a s \<Longrightarrow> m s = (Inr x, t) \<Longrightarrow> stays env b (f x) c"
  shows "stays env a (bindS m f) c"
proof (rule staysI)
  fix s
  assume s: "rfb_inv env a s"
  show "case bindS m f s of (Inl e, t) \<Rightarrow> e \<in> session_errors env \<and> sound env t | (Inr x, t) \<Rightarrow> rfb_inv env c t"
  proof (cases "m s")
    case (Pair r t)
    show ?thesis
    proof (cases r)
      case (Inl e)
      with Pair stays_Inl [OF assms(1) s] show ?thesis by (simp add: bindS_def)
    next
      case (Inr x)
      with Pair have m: "m s = (Inr x, t)" by simp
      from stays_Inr [OF assms(1) s m] assms(2) [OF s m] have "case f x t of (Inl e, u) \<Rightarrow> e \<in> session_errors env \<and> sound env u
          | (Inr y, u) \<Rightarrow> rfb_inv env c u" by (simp add: stays_def)
      then show ?thesis by (simp add: bindS_def m)
    qed
  qed
qed

lemma stays_bindS [stays_rules]: "stays env a m a \<Longrightarrow> (\<And>x. stays env a (f x) c) \<Longrightarrow> stays env a (bindS m f) c"
  by (rule stays_bind_result)

lemma stays_getS: "(\<And>s. rfb_inv env a s \<Longrightarrow> stays env a (f s) b) \<Longrightarrow> stays env a (getS f) b"
  by (simp add: stays_def getS_def)

lemma stays_getS_any [stays_rules]: "(\<And>s. stays env a (f s) b) \<Longrightarrow> stays env a (getS f) b"
  by (simp add: stays_def getS_def)

lemma stays_modifyS: "(\<And>s. rfb_inv env a s \<Longrightarrow> rfb_inv env b (g s)) \<Longrightarrow> stays env a (modifyS g) b"
  by (simp add: stays_def modifyS_def)

lemma stays_if [stays_rules]: "(p \<Longrightarrow> stays env a m b) \<Longrightarrow> (\<not> p \<Longrightarrow> stays env a n b) \<Longrightarrow> stays env a (if p then m else n) b"
  by simp

lemma stays_whenS [stays_rules]: "(p \<Longrightarrow> stays env a m a) \<Longrightarrow> stays env a (whenS p m) a"
  by (simp add: whenS_def stays_retS)

lemma session_errors_own [simp]:
  "RfbError \<in> session_errors env" "RfbConnectionError \<in> session_errors env" "AssertionError \<in> session_errors env"
  by (simp_all add: session_errors_def)

lemma stays_assertS [stays_rules]: "(p \<Longrightarrow> stays env a m b) \<Longrightarrow> stays env a (assertS p m) b"
  by (simp add: assertS_def stays_raiseS)

lemma stays_forS [stays_rules]: "(\<And>x. x \<in> set xs \<Longrightarrow> stays env a (f x) a) \<Longrightarrow> stays env a (forS xs f) a"
  by (induction xs) (auto intro!: stays_retS stays_bindS)

subsection \<open>Reading and writing\<close>

lemma inv_io [simp]:
  "rfb_inv env a (s\<lparr>rb_out := v\<rparr>) = rfb_inv env a s" "rfb_inv env a (s\<lparr>rb_world := w\<rparr>) = rfb_inv env a s"
  "rfb_inv env a (s\<lparr>rb_notified := n\<rparr>) = rfb_inv env a s" "rfb_inv env a (s\<lparr>rb_mods := m\<rparr>) = rfb_inv env a s"
  "rfb_inv env a (s\<lparr>rb_cont_updates := b\<rparr>) = rfb_inv env a s" "rfb_inv env a (s\<lparr>rb_reset_h264 := b\<rparr>) = rfb_inv env a s"
  "rfb_inv env a (s\<lparr>rb_symmap := y\<rparr>) = rfb_inv env a s" "rfb_inv env a (s\<lparr>rb_encodings := z\<rparr>) = rfb_inv env a s"
  "rfb_inv env a (s\<lparr>rb_version := k\<rparr>) = rfb_inv env a s"
  by (simp_all add: rfb_inv_def rfb_wf_def sound_def linked_def)

lemma sound_io [simp]:
  "sound env (s\<lparr>rb_world := w\<rparr>) = sound env s" "sound env (s\<lparr>rb_out := v\<rparr>) = sound env s"
  by (simp_all add: sound_def)

lemma inv_drop: "rfb_inv env a s \<Longrightarrow> rfb_inv env a (s\<lparr>rb_in := drop n (rb_in s)\<rparr>)"
  and inv_none: "rfb_inv env a s \<Longrightarrow> rfb_inv env a (s\<lparr>rb_in := []\<rparr>)"
  by (simp_all add: rfb_inv_def rfb_wf_def sound_def linked_def)

lemma stays_notify [stays_rules]: "stays env a notify_fb a"
  by (simp add: notify_fb_def stays_modifyS)

lemma stays_read_exactly [stays_rules]: "stays env a (read_exactly n) a"
  unfolding read_exactly_def by (auto intro!: stays_rules stays_modifyS inv_drop inv_none)

lemma stays_reads [stays_rules]:
  "stays env a (read_number n) a" "stays env a (read_struct fs) a" "stays env a (read_text n) a"
  unfolding read_number_def read_struct_def read_text_def by (auto intro!: stays_rules)

lemma stays_drain [stays_rules]: "stays env a (drainS env) a"
  by (auto simp: stays_def drainS_def split: prod.splits dest: inv_sound)

lemma stays_write_data [stays_rules]: "stays env a (write_data env bs d) a"
  unfolding write_data_def by (auto intro!: stays_rules stays_modifyS)

definition packs :: "field list \<Rightarrow> int list \<Rightarrow> bool" where
  "packs fs vs = (\<exists>bs. pack BE fs vs = Inr bs)"

lemma packs_simps [simp]:
  "packs [] []" "packs (FX n # fs) vs = packs fs vs"
  "packs (FU n # fs) (v # vs) \<longleftrightarrow> 0 \<le> v \<and> v < 256 ^ n \<and> packs fs vs"
  "packs (FS n # fs) (v # vs) \<longleftrightarrow> - (256 ^ n div 2) \<le> v \<and> v < 256 ^ n div 2 \<and> packs fs vs"
  by (auto simp: packs_def bindR_Inr_iff)

lemma stays_write_struct [stays_rules]: "packs fs vs \<Longrightarrow> stays env a (write_struct env fs vs d) a"
  unfolding write_struct_def packs_def by (auto intro!: stays_rules)

lemma stays_write_reason [stays_rules]: "length (utf8_encode t) < 2 ^ 32 \<Longrightarrow> stays env a (write_reason env t d) a"
  unfolding write_reason_def by (auto intro!: stays_rules)

lemma stays_fb_update [stays_rules]:
  "is_u16 w \<Longrightarrow> is_u16 h \<Longrightarrow> \<bar>e\<bar> < 2 ^ 31 \<Longrightarrow> stays env a (write_fb_update env w h e d) a"
  unfolding write_fb_update_def by (rule stays_write_struct) (auto simp: is_u16_def)

lemma envS_Inr: "envS m s = (Inr x, t) \<Longrightarrow> \<exists>w'. m (rb_world s) = (Inr x, w')"
  by (auto simp: envS_def split: prod.splits)

lemma stays_envS: "(\<And>e w w'. m w = (Inl e, w') \<Longrightarrow> e \<in> session_errors env) \<Longrightarrow> stays env a (envS m) a"
  by (auto simp: stays_def envS_def split: prod.splits sum.splits dest: inv_sound)

lemma env_error: "e \<in> env_errors env \<Longrightarrow> e \<in> session_errors env"
  by (simp add: session_errors_def)

lemma stays_env [stays_rules]:
  "stays env a (envS (re_vncpass env)) a" "stays env a (envS (re_none env)) a" "stays env a (envS (re_challenge env)) a"
  "stays env a (envS (re_symmap env)) a" "stays env a (envS (re_tls env n)) a" "stays env a (envS (re_deliver env x)) a"
  "stays env a (envS (re_userpass env u p)) a"
  by (rule stays_envS, rule env_error, unfold env_errors_def, blast)+

section \<open>The handshake\<close>

lemma stays_version: "stays env a (handshake_version env) a"
  unfolding handshake_version_def Let_def by (auto intro!: stays_rules stays_modifyS)

lemma inv_log:
  "rfb_inv env a s \<Longrightarrow> (allow \<Longrightarrow> granted env who) \<Longrightarrow> rfb_inv env a (s\<lparr>rb_log := rb_log s @ [(who, allow)]\<rparr>)"
  by (auto simp: rfb_inv_def rfb_wf_def sound_def linked_def)

lemma inv_authorized:
  "rfb_inv env a s \<Longrightarrow> (who, True) \<in> set (rb_log s) \<Longrightarrow> rfb_inv env True (s\<lparr>rb_authorized := True\<rparr>)"
  by (auto simp: rfb_inv_def rfb_wf_def sound_def linked_def)

lemma stays_authorized:
  assumes "granted env who"
  shows "stays env False (bindS (modifyS (\<lambda>s. s\<lparr>rb_log := rb_log s @ [(who, True)]\<rparr>)) (\<lambda>_.
     bindS (write_struct env [FU 4] [0] True) (\<lambda>_. modifyS (\<lambda>s. s\<lparr>rb_authorized := True\<rparr>)))) True"
proof (rule staysI)
  fix s
  assume s: "rfb_inv env False s"
  let ?s = "s\<lparr>rb_log := rb_log s @ [(who, True)], rb_out := rb_out s @ [put_int BE 4 0]\<rparr>"
  have "rfb_inv env False ?s" using inv_log [OF s, of True who] assms by simp
  then have "rfb_inv env False (?s\<lparr>rb_world := w\<rparr>)" and "rfb_inv env True (?s\<lparr>rb_world := w, rb_authorized := True\<rparr>)" for w
    by (simp, intro inv_authorized [of _ _ _ who]) simp_all
  then show "case bindS (modifyS (\<lambda>s. s\<lparr>rb_log := rb_log s @ [(who, True)]\<rparr>)) (\<lambda>_. bindS (write_struct env [FU 4] [0] True)
      (\<lambda>_. modifyS (\<lambda>s. s\<lparr>rb_authorized := True\<rparr>))) s of
      (Inl e, t) \<Rightarrow> e \<in> session_errors env \<and> sound env t | (Inr x, t) \<Rightarrow> rfb_inv env True t"
    by (auto simp: write_struct_def write_data_def drainS_def bindS_def modifyS_def liftS_def
        split: prod.splits sum.splits dest!: inv_sound)
qed

lemma stays_send_result:
  assumes "allow \<Longrightarrow> granted env who" and "length (utf8_encode r) < 2 ^ 32"
  shows "stays env False (send_result env who allow r) True"
proof (cases allow)
  case True
  with assms stays_authorized [of env who] show ?thesis by (simp add: send_result_def)
next
  case False
  then show ?thesis unfolding send_result_def
    by (auto intro!: stays_rules stays_modifyS inv_log assms(2))
qed

lemma find_passwd_True:
  "find_passwd env c r ps s = (Inr True, t) \<Longrightarrow> \<exists>p \<in> set ps. encrypt_challenge (re_des env) c (utf8_encode p) = Inr r"
proof (induction ps arbitrary: s)
  case (Cons p ps)
  then show ?case by (auto simp: bindS_Inr_iff liftS_def split: if_splits)
qed (simp add: retS_def)

lemma encrypt_error: "encrypt_challenge des c k = Inl e \<Longrightarrow> e \<in> session_errors env"
  by (simp add: encrypt_challenge_def assertR_def split: if_splits)

lemma stays_find_passwd [stays_rules]: "stays env a (find_passwd env c r ps) a"
  by (induction ps) (auto intro!: stays_rules encrypt_error)

lemma stays_vnc_auth: "\<not> re_none_auth env \<Longrightarrow> stays env False (security_vnc_auth env) True"
  unfolding security_vnc_auth_def
  by (intro stays_rules stays_bind_result [OF stays_find_passwd] stays_send_result)
     (auto simp: granted_def text_of_def utf8_encode_def utf8_char_def dest!: find_passwd_True)

lemma stays_none: "re_none_auth env \<Longrightarrow> stays env False (security_none env) True"
  unfolding security_none_def
  by (intro stays_bind_result [OF stays_env(2)] stays_send_result)
     (auto simp: granted_def text_of_def utf8_encode_def utf8_char_def dest!: envS_Inr)

lemma stays_userpass: "re_vencrypt env \<Longrightarrow> \<not> re_none_auth env \<Longrightarrow> stays env False (security_userpass env) True"
  unfolding security_userpass_def Let_def
  by (intro stays_bindS stays_reads stays_bind_result [OF stays_env(7)] stays_if stays_raiseS session_errors_own stays_send_result)
     (auto simp: granted_def text_of_def utf8_encode_def utf8_char_def dest!: envS_Inr)

definition offered :: "'w rfb_env \<Rightarrow> sec_handler \<Rightarrow> bool" where
  "offered env h = (case h of HandleNone \<Rightarrow> re_none_auth env | HandleVncAuth \<Rightarrow> \<not> re_none_auth env
     | _ \<Rightarrow> re_vencrypt env \<and> \<not> re_none_auth env)"

lemma stays_run_handler: "offered env h \<Longrightarrow> stays env False (run_handler env h) True"
  by (auto simp: run_handler_def offered_def intro: stays_none stays_vnc_auth stays_userpass split: sec_handler.splits)

lemma vencrypt_offers: "re_vencrypt env \<Longrightarrow> (t, tls, h) \<in> set (vencrypt_types env) \<Longrightarrow> offered env h"
  by (auto simp: vencrypt_types_def offered_def Let_def split: if_splits)

lemma security_offers:
  "(t, h) \<in> set (security_types env v) \<Longrightarrow> (h = HandleVencrypt \<and> re_vencrypt env) \<or> (h \<noteq> HandleVencrypt \<and> offered env h)"
  by (auto simp: security_types_def offered_def split: if_splits)

lemma vencrypt_packs:
  "packs (FU 1 # replicate (length (vencrypt_types env)) (FU 4)) (int (length (vencrypt_types env)) # map fst (vencrypt_types env))"
  by (simp add: vencrypt_types_def Let_def)

lemma security_packs:
  "packs (FU 1 # replicate (length (security_types env v)) (FU 1)) (int (length (security_types env v)) # map fst (security_types env v))"
  "security_types env v \<noteq> [] \<Longrightarrow> packs [FU 4] [fst (hd (security_types env v))]"
  by (auto simp: security_types_def)

lemma stays_vencrypt:
  assumes "re_vencrypt env"
  shows "stays env False (security_vencrypt env) True"
proof -
  have "stays env False (case map_of (vencrypt_types env) t of None \<Rightarrow> raiseS RfbError
       | Some (tls, h) \<Rightarrow>
           bindS (if tls > 0 then bindS (write_struct env [FU 1] [1] True) (\<lambda>_. envS (re_tls env tls)) else retS ()) (\<lambda>_.
           run_handler env h)) True" for t
    by (auto intro!: stays_rules stays_run_handler dest!: map_of_SomeD vencrypt_offers [OF assms] split: option.splits)
  then show ?thesis unfolding security_vencrypt_def Let_def
    by (intro stays_if stays_bindS stays_reads stays_raiseS stays_write_struct vencrypt_packs session_errors_own) simp_all
qed

lemma stays_security: "stays env False (handshake_security env) True"
proof -
  have "stays env False (case map_of (security_types env v) t of None \<Rightarrow> raiseS RfbError
      | Some h \<Rightarrow> if h = HandleVencrypt then security_vencrypt env else run_handler env h) True" for v t
    by (auto intro!: stays_raiseS stays_vencrypt stays_run_handler dest!: map_of_SomeD security_offers split: option.splits)
  moreover have "length (utf8_encode old_protocol_reason) < 2 ^ 32"
    by (simp add: old_protocol_reason_def text_of_def utf8_encode_def utf8_char_def)
  ultimately show ?thesis unfolding handshake_security_def Let_def
    by (intro stays_getS_any stays_if stays_bindS stays_reads stays_raiseS stays_write_struct stays_write_reason security_packs
        session_errors_own stays_retS) simp_all
qed

lemma stays_check_authorized: "stays env True check_authorized True"
  unfolding check_authorized_def by (rule stays_getS) (simp add: rfb_inv_def stays_retS)

lemma stays_init: "stays env True (handshake_init env) True"
  unfolding handshake_init_def
  by (intro stays_bindS stays_check_authorized stays_reads stays_getS stays_write_struct stays_write_reason)
     (simp_all add: rfb_inv_def rfb_wf_def is_u16_def)

lemma stays_handshake: "stays env False (handshake env) True"
  unfolding handshake_def
  by (rule stays_bindS [OF stays_version]) (intro stays_bind_result [OF stays_security] stays_bindS stays_check_authorized stays_init)

section \<open>Messages and updates\<close>

lemma inv_event:
  "rfb_inv env True s \<Longrightarrow> event_in_range env e \<Longrightarrow> case e of ButtonEvent _ _ \<Rightarrow> False | MoveEvent _ _ \<Rightarrow> False | _ \<Rightarrow> True \<Longrightarrow>
     rfb_inv env True (s\<lparr>rb_events := rb_events s @ [e]\<rparr>)"
  by (simp add: rfb_inv_def rfb_wf_def sound_def linked_def shown_other)

lemma stays_deliver [stays_rules]:
  "event_in_range env e \<Longrightarrow> case e of ButtonEvent _ _ \<Rightarrow> False | MoveEvent _ _ \<Rightarrow> False | _ \<Rightarrow> True \<Longrightarrow>
     stays env True (deliver env e) True"
  unfolding deliver_def by (intro stays_bindS stays_env stays_modifyS inv_event)

lemma stays_symmap [stays_rules]: "stays env a (get_symmap env) a"
  unfolding get_symmap_def by (auto intro!: stays_rules stays_modifyS split: option.splits)

lemma stays_encodings [stays_rules]: "stays env a check_encodings a"
  unfolding check_encodings_def by (auto intro!: stays_rules)

lemma stays_modifier [stays_rules]: "stays env a (switch_modifier m b) a"
  unfolding switch_modifier_def by (auto intro!: stays_rules stays_modifyS)

lemma stays_set_encodings: "stays env True (handle_set_encodings env) True"
  unfolding handle_set_encodings_def Let_def
  by (auto intro!: stays_rules stays_modifyS simp: event_in_range_def is_u16_def ENC_EXT_KEYS_def ENC_EXT_MOUSE_def)

lemma stays_key_event: "stays env True (handle_key_event env) True"
  unfolding handle_key_event_def Let_def
  by (auto intro!: stays_rules simp: event_in_range_def split: option.splits prod.splits)

lemma stays_qemu_event: "stays env True (handle_qemu_event env) True"
  unfolding handle_qemu_event_def Let_def by (auto intro!: stays_rules simp: event_in_range_def)

subsection \<open>The pointer\<close>

lemma sound_event:
  "rfb_inv env True s \<Longrightarrow> event_in_range env e \<Longrightarrow> sound env (s\<lparr>rb_events := rb_events s @ [e]\<rparr>)"
  by (simp add: rfb_inv_def sound_def)

lemma stays_deliver_then:
  assumes "event_in_range env e"
    and "\<And>s w. rfb_inv env True s \<Longrightarrow> rfb_inv env True (g (s\<lparr>rb_events := rb_events s @ [e], rb_world := w\<rparr>))"
  shows "stays env True (bindS (deliver env e) (\<lambda>_. modifyS g)) True"
proof (rule staysI)
  fix s
  assume s: "rfb_inv env True s"
  have "err \<in> session_errors env" if "re_deliver env e w = (Inl err, w')" for err w w'
    using that by (intro env_error) (auto simp: env_errors_def)
  then show "case bindS (deliver env e) (\<lambda>_. modifyS g) s of (Inl e, t) \<Rightarrow> e \<in> session_errors env \<and> sound env t
      | (Inr x, t) \<Rightarrow> rfb_inv env True t"
    using assms(2) [OF s] sound_event [OF s assms(1)]
    by (auto simp: deliver_def bindS_def modifyS_def envS_def split: prod.splits sum.splits)
qed

lemma stays_set_button:
  assumes "fst cs \<in> set (map (re_ecodes env) button_names)"
  shows "stays env True (set_button env cs) True"
proof -
  obtain c b where cs: "cs = (c, b)" by (cases cs)
  have "stays env True (bindS (deliver env (ButtonEvent c b)) (\<lambda>_. modifyS (\<lambda>s. s\<lparr>rb_buttons := AList.update c b (rb_buttons s)\<rparr>))) True"
    using assms by (intro stays_deliver_then)
      (auto simp: cs event_in_range_def rfb_inv_def rfb_wf_def sound_def linked_def)
  then show ?thesis by (auto simp: cs set_button_def intro!: stays_getS_any stays_whenS)
qed

lemma point_to_in_range: "event_in_range env (point_to w h x y)"
  by (simp add: event_in_range_def point_to_def remap_in_range)

lemma stays_move:
  "0 \<le> x \<Longrightarrow> stays env True (bindS (deliver env (point_to w h x y)) (\<lambda>_. modifyS (\<lambda>s. s\<lparr>rb_move := (w, h, x, y)\<rparr>))) True"
  by (rule stays_deliver_then [OF point_to_in_range])
     (simp add: rfb_inv_def rfb_wf_def sound_def linked_def point_to_def point_of_def event_in_range_def remap_in_range)

lemma wheel_in_range: "\<bar>wheel_delta sr b n p\<bar> \<le> \<bar>sr\<bar>"
  by (simp add: wheel_delta_def)

lemma mouse_button_codes: "fst cs \<in> set (map ec button_names)" if "cs \<in> set (mouse_buttons ec b e)"
  using that by (auto simp: mouse_buttons_def button_names_def)

lemma stays_pointer: "0 \<le> x \<Longrightarrow> stays env True (pointer_event env b e x y) True"
  unfolding pointer_event_def
  by (intro stays_getS_any stays_bindS stays_whenS stays_deliver stays_move stays_forS stays_set_button mouse_button_codes)
     (simp_all add: event_in_range_def wheel_in_range)

lemma read_struct_Inr:
  "read_struct fs s = (Inr vs, t) \<longleftrightarrow> calcsize fs \<le> length (rb_in s)
     \<and> vs = unpack_fields BE fs (take (calcsize fs) (rb_in s)) \<and> t = s\<lparr>rb_in := drop (calcsize fs) (rb_in s)\<rparr>"
  by (auto simp: read_struct_def read_exactly_def sm_defs bindS_def split: if_splits)

lemma stays_pointer_event: "stays env True (handle_pointer_event env) True"
  unfolding handle_pointer_event_def
proof (rule stays_bind_result [OF stays_reads(2)])
  fix vs s t
  assume "rfb_inv env True s" and "read_struct [FU 1, FU 2, FU 2] s = (Inr vs, t)"
  then have "0 \<le> vs ! 1" by (auto simp: read_struct_Inr rfb_inv_def rfb_wf_def intro!: conjunct1 [OF get_int_bounds])
  then show "stays env True (getS (\<lambda>s. bindS (if ce_ext_mouse (rb_encodings s) \<and> bit_set (vs ! 0) 0x80 then read_number 1 else retS 0)
      (\<lambda>ext. pointer_event env (vs ! 0) ext (vs ! 1) (vs ! 2)))) True"
    by (intro stays_getS_any stays_bindS stays_if stays_reads stays_retS stays_pointer)
qed

lemma stays_message: "stays env True (next_message env) True"
  unfolding next_message_def handle_message_def handle_set_pixel_format_def handle_fb_update_request_def
    handle_client_cut_text_def handle_enable_cont_updates_def Let_def
  by (intro stays_rules stays_set_encodings stays_key_event stays_pointer_event stays_qemu_event stays_modifyS session_errors_own)
     (simp_all add: event_in_range_def)

subsection \<open>Updates\<close>

lemma and_127: "x AND 127 = x mod 128" for x :: int
  using and_mask_mod [of x 7] by simp

lemma or_128: "x mod 128 OR 128 = x mod 128 + 128" for x :: int
  using or_push_add [of "x mod 128" 7 1] by simp

lemma tight_length_eq:
  "tight_length n = (if n \<le> 127 then [159, n mod 128] else if n \<le> 16383 then [159, n mod 128 + 128, n div 128 mod 128]
     else [159, n mod 128 + 128, n div 128 mod 128 + 128, n div 16384 mod 256])"
  by (simp add: tight_length_def and_127 or_128 and_FF drop_bit_int_def)

lemma tight_length_ok: "0 \<le> n \<Longrightarrow> bytes_ok (tight_length n)"
  by (simp add: tight_length_eq) presburger

definition step_ok :: "rfb_step \<Rightarrow> bool" where
  "step_ok st = (case st of SendResize w h \<Rightarrow> is_u16 w \<and> is_u16 h | SendRename n \<Rightarrow> length (utf8_encode n) < 2 ^ 32 | _ \<Rightarrow> True)"

lemma stays_after_frame [stays_rules]: "stays env a (after_frame b) a"
  unfolding after_frame_def by (auto intro!: stays_rules stays_modifyS)

lemma inv_size: "rfb_inv env a s \<Longrightarrow> is_u16 (rb_width s) \<and> is_u16 (rb_height s)"
  by (simp add: rfb_inv_def rfb_wf_def)

lemma stays_jpeg: "stays env a (send_fb_jpeg env data) a"
  unfolding send_fb_jpeg_def
  by (rule stays_getS) (auto intro!: stays_rules simp: tight_length_ok py_bytes_def ENC_TIGHT_def dest: inv_size)

lemma stays_h264: "stays env a (send_fb_h264 env data) a"
  unfolding send_fb_h264_def by (rule stays_getS) (auto intro!: stays_rules simp: ENC_H264_def dest: inv_size)

lemma stays_resize: "is_u16 w \<Longrightarrow> is_u16 h \<Longrightarrow> stays env a (send_resize env w h) a"
  unfolding send_resize_def
  by (intro stays_rules stays_modifyS) (simp_all add: ENC_RESIZE_def rfb_inv_def rfb_wf_def sound_def linked_def)

lemma stays_rename: "length (utf8_encode n) < 2 ^ 32 \<Longrightarrow> stays env a (send_rename env n) a"
  unfolding send_rename_def
  by (intro stays_rules stays_modifyS) (simp_all add: is_u16_def ENC_RENAME_def rfb_inv_def rfb_wf_def sound_def linked_def)

lemma stays_leds: "stays env a (send_leds_state env caps scroll num) a"
  unfolding send_leds_state_def
  by (intro stays_rules) (cases caps; cases scroll; cases num; simp add: is_u16_def ENC_LEDS_STATE_def)+

lemma stays_step: "step_ok st \<Longrightarrow> stays env True (do_step env st) True"
  by (cases st) (simp_all add: step_ok_def stays_message stays_jpeg stays_h264 stays_resize stays_rename stays_leds)

lemma stays_session: "list_all step_ok steps \<Longrightarrow> stays env False (session env steps) True"
  unfolding session_def list_all_iff
  by (intro stays_bind_result [OF stays_handshake] stays_forS stays_step) simp

definition sizes_ok :: "int \<Rightarrow> int \<Rightarrow> pytext \<Rightarrow> bool" where
  "sizes_ok width height name = (is_u16 width \<and> is_u16 height \<and> length (utf8_encode name) < 2 ^ 32)"

lemma inv_init: "sizes_ok width height name \<Longrightarrow> bytes_ok input \<Longrightarrow> rfb_inv env False (rfb_init width height name input w)"
  by (simp add: rfb_init_def rfb_inv_def rfb_wf_def sound_def linked_def point_of_def sizes_ok_def)

lemma session_sound:
  "sizes_ok width height name \<Longrightarrow> bytes_ok input \<Longrightarrow> list_all step_ok steps \<Longrightarrow>
     sound env (snd (session env steps (rfb_init width height name input w)))"
  by (rule stays_sound [OF stays_session inv_init])

section \<open>A session ends\<close>

abbreviation left :: "nat \<Rightarrow> 'w rfb \<Rightarrow> bool" where
  "left k s \<equiv> length (rb_in s) \<le> k"

lemma left_basic [keeps_rules]:
  "keeps (left k) (read_exactly n)" "keeps (left k) (drainS env)" "keeps (left k) (envS m)" "keeps (left k) notify_fb"
  by (auto simp: keeps_def read_exactly_def drainS_def envS_def notify_fb_def sm_defs bindS_def split: prod.splits)

lemma left_io [keeps_rules]:
  "keeps (left k) (read_number n)" "keeps (left k) (read_struct fs)" "keeps (left k) (read_text n)"
  "keeps (left k) (write_data env bs d)"
  unfolding read_number_def read_struct_def read_text_def write_data_def by (auto intro!: keeps_rules keeps_modifyS)

lemma left_write [keeps_rules]: "keeps (left k) (write_struct env fs vs d)"
  unfolding write_struct_def by (intro keeps_rules)

lemma left_write_more [keeps_rules]:
  "keeps (left k) (write_reason env t d)" "keeps (left k) (write_fb_update env w h e d)"
  unfolding write_reason_def write_fb_update_def by (intro keeps_rules)+

lemma left_small [keeps_rules]:
  "keeps (left k) (deliver env e)" "keeps (left k) (get_symmap env)" "keeps (left k) check_encodings"
  "keeps (left k) (switch_modifier m b)" "keeps (left k) (set_button env cs)" "keeps (left k) check_authorized"
  unfolding deliver_def get_symmap_def check_encodings_def switch_modifier_def set_button_def check_authorized_def
  by (auto intro!: keeps_rules keeps_modifyS split: option.splits prod.splits)

lemma left_message: "keeps (left k) (handle_message env t)"
  unfolding handle_message_def handle_set_pixel_format_def handle_set_encodings_def handle_fb_update_request_def
    handle_key_event_def handle_pointer_event_def pointer_event_def handle_client_cut_text_def handle_enable_cont_updates_def
    handle_qemu_event_def Let_def
  by (auto intro!: keeps_rules keeps_modifyS split: option.splits prod.splits)

lemma next_message_shrinks:
  assumes "next_message env s = (Inr (), t)"
  shows "length (rb_in t) < length (rb_in s)"
proof -
  obtain x u where u: "read_number 1 s = (Inr x, u)" and t: "handle_message env x u = (Inr (), t)"
    using assms by (auto simp: next_message_def bindS_Inr_iff)
  from u have "length (rb_in u) < length (rb_in s)"
    by (auto simp: read_number_def read_exactly_def sm_defs bindS_def split: if_splits)
  moreover have "length (rb_in t) \<le> length (rb_in u)" by (rule keepsE [OF left_message _ t]) simp
  ultimately show ?thesis by simp
qed

lemma main_loop_ends: "length (rb_in s) < n \<Longrightarrow> \<exists>e t. main_loop env n s = (Inl e, t)"
proof (induction n arbitrary: s)
  case (Suc n)
  obtain r t where m: "next_message env s = (r, t)" by fastforce
  show ?case
  proof (cases r)
    case (Inl e)
    with m show ?thesis by (simp add: bindS_def)
  next
    case (Inr x)
    with m have "next_message env s = (Inr (), t)" by simp
    with next_message_shrinks [OF this] Suc show ?thesis by (simp add: bindS_def)
  qed
qed simp

lemma left_version: "keeps (left k) (handshake_version env)"
  unfolding handshake_version_def Let_def by (auto intro!: keeps_rules keeps_modifyS)

lemma left_result [keeps_rules]: "keeps (left k) (send_result env who b r)"
  unfolding send_result_def by (auto intro!: keeps_rules keeps_modifyS)

lemma left_find [keeps_rules]: "keeps (left k) (find_passwd env c r ps)"
  by (induction ps) (auto intro!: keeps_rules)

lemma left_handler [keeps_rules]: "keeps (left k) (run_handler env h)"
  unfolding run_handler_def security_none_def security_vnc_auth_def security_userpass_def Let_def
  by (auto intro!: keeps_rules split: sec_handler.splits)

lemma left_vencrypt [keeps_rules]: "keeps (left k) (security_vencrypt env)"
  unfolding security_vencrypt_def Let_def by (auto intro!: keeps_rules split: option.splits)

lemma left_handshake: "keeps (left k) (handshake env)"
  unfolding handshake_def handshake_security_def handshake_init_def Let_def
  by (auto intro!: left_version keeps_rules split: option.splits)

lemma stays_main_loop: "stays env True (main_loop env n) True"
  by (induction n) (auto intro!: stays_rules stays_message)

lemma main_task_ends:
  assumes "length (rb_in s) < n"
  shows "\<exists>e t. main_task env n s = (Inl e, t)"
proof -
  obtain r t where h: "handshake env s = (r, t)" by fastforce
  have "length (rb_in t) \<le> length (rb_in s)" by (rule keepsE [OF left_handshake _ h]) simp
  then have "\<exists>e u. main_loop env n t = (Inl e, u)" using assms by (intro main_loop_ends) simp
  with h show ?thesis by (auto simp: main_task_def bindS_def split: sum.split)
qed

end
