(* ===== verification/RfbSession.thy ===== *)
theory RfbSession
  imports RfbSafe
begin

text \<open>
  The promises of a VNC session, from the first byte of the client on, with a session that goes through the
  handshake, and the messages that are handled in another way than they are meant.
\<close>

section \<open>A sample session\<close>

text \<open>A server without a password for a client that presses the left button in the corner of the screen.\<close>

definition sample_env :: "unit rfb_env" where
  "sample_env = \<lparr>re_ecodes = count_names, re_ciphers = False, re_cert = False, re_scroll_rate = 4, re_vncpasses = [],
     re_vencrypt = True, re_none_auth = True, re_userpass = (\<lambda>_ _. retS False), re_none = retS True, re_vncpass = retS (),
     re_challenge = retS (replicate 16 0), re_des = (\<lambda>k b. b), re_tls = (\<lambda>_. retS ()),
     re_symmap = retS [(64, [(2, 16)])], re_deliver = (\<lambda>_. retS ()), re_drain = (\<lambda>w. (True, w))\<rparr>"

definition sample_input :: bytes where
  "sample_input = [82, 70, 66, 32, 48, 48, 51, 46, 48, 48, 56, 10, 1, 1,
     2, 0, 0, 2, 0, 0, 0, 7, 255, 255, 255, 226, 5, 1, 1, 255, 0, 239]"

definition sample_start :: "unit rfb" where
  "sample_start = rfb_init 512 240 [75] sample_input ()"

lemma bindS_step: "bindS m f s = (case m s of (Inl e, t) \<Rightarrow> (Inl e, t) | (Inr x, t) \<Rightarrow> f x t)"
  by (simp add: bindS_def)

lemma bindS_weak: "m = m' \<Longrightarrow> bindS m f = bindS m' f"
  by simp

lemmas stream_eval = read_exactly_def read_number_def read_struct_def read_text_def write_data_def write_struct_def
  write_reason_def write_fb_update_def drainS_def envS_def

lemmas handshake_eval = handshake_def handshake_version_def handshake_security_def security_types_def run_handler_def
  security_none_def send_result_def check_authorized_def handshake_init_def text_of_def

lemmas message_eval = next_message_def handle_message_def handle_set_encodings_def mk_encodings_def tight_quality_def
  jpeg_qualities_def ENC_TIGHT_def ENC_RESIZE_def ENC_RENAME_def ENC_LEDS_STATE_def ENC_EXT_KEYS_def ENC_EXT_MOUSE_def
  ENC_CONT_UPDATES_def ENC_H264_def check_encodings_def get_symmap_def deliver_def handle_pointer_event_def
  pointer_event_def point_to_def remap_def mouse_buttons_def set_button_def wheel_delta_def bit_set_def

lemmas sample_eval = sample_env_def sample_input_def rfb_init_def bindS_step sm_defs Let_def

definition sample_1 :: "unit rfb" where
  "sample_1 = sample_start\<lparr>rb_in := drop 12 sample_input, rb_out := [[82, 70, 66, 32, 48, 48, 51, 46, 48, 48, 56, 10]], rb_version := 8\<rparr>"

lemma sample_version: "handshake_version sample_env sample_start = (Inr (), sample_1)"
  by (simp add: sample_eval sample_start_def sample_1_def handshake_version_def stream_eval text_of_def cong: bindS_weak)

definition sample_2 :: "unit rfb" where
  "sample_2 = sample_1\<lparr>rb_in := drop 13 sample_input, rb_out := rb_out sample_1 @ [[2, 19, 1], put_int BE 4 0],
     rb_authorized := True, rb_log := [(ByNone, True)]\<rparr>"

lemma sample_security: "handshake_security sample_env sample_1 = (Inr (), sample_2)"
  by (simp add: sample_eval sample_start_def sample_1_def sample_2_def stream_eval handshake_eval get_int_def put_int_def cong: bindS_weak)

definition sample_3 :: "unit rfb" where
  "sample_3 = sample_2\<lparr>rb_in := drop 14 sample_input,
     rb_out := rb_out sample_2 @ [put_int BE 2 512 @ put_int BE 2 240,
       put_int BE 1 32 @ put_int BE 1 24 @ put_int BE 1 0 @ put_int BE 1 1 @ put_int BE 2 255 @ put_int BE 2 255 @ put_int BE 2 255
         @ put_int BE 1 16 @ put_int BE 1 8 @ put_int BE 1 0 @ [0, 0, 0], put_int BE 4 1, [75]]\<rparr>"

lemma sample_init: "handshake_init sample_env sample_2 = (Inr (), sample_3)"
  by (simp add: sample_eval sample_start_def sample_1_def sample_2_def sample_3_def stream_eval handshake_eval utf8_encode_def
      utf8_char_def eval_nat_numeral cong: bindS_weak)

lemma sample_authorized:
  "check_authorized sample_2 = (Inr (), sample_2)" "check_authorized sample_3 = (Inr (), sample_3)"
  by (simp_all add: check_authorized_def sm_defs sample_3_def sample_2_def)

lemma sample_handshake: "handshake sample_env sample_start = (Inr (), sample_3)"
  by (simp add: handshake_def bindS_step sample_version sample_security sample_authorized sample_init cong: bindS_weak)

lemma sample_encodings: "mk_encodings [7, -30] = \<lparr>ce_encodings = [7, -30], ce_resize = False, ce_rename = False,
     ce_leds_state = False, ce_ext_keys = False, ce_ext_mouse = False, ce_cont_updates = False, ce_tight = True,
     ce_quality = 30, ce_h264 = False\<rparr>"
  by (simp add: message_eval Let_def)

definition sample_4 :: "unit rfb" where
  "sample_4 = sample_3\<lparr>rb_in := drop 26 sample_input, rb_encodings := mk_encodings [7, -30],
     rb_symmap := Some [(64, [(2, 16)])], rb_events := [EncodingsSet]\<rparr>"

lemma sample_message_1: "next_message sample_env sample_3 = (Inr (), sample_4)"
  by (simp add: sample_eval sample_start_def sample_1_def sample_2_def sample_3_def sample_4_def stream_eval sample_encodings
      next_message_def handle_message_def handle_set_encodings_def check_encodings_def get_symmap_def deliver_def
      get_int_def get_sint_def numeral_2_eq_2 cong: bindS_weak)

lemma sample_sizes: "sizes_ok 512 240 [75]" "bytes_ok sample_input"
  by (simp_all add: sizes_ok_def is_u16_def utf8_encode_def utf8_char_def sample_input_def)

lemma sample_session: "session sample_env [NextMessage] sample_start = (Inr (), sample_4)"
  by (simp add: session_def bindS_step sample_handshake sample_message_1 retS_def cong: bindS_weak)

lemma sample_4_in: "rb_in sample_4 = [5, 1, 1, 255, 0, 239]"
  by (simp add: sample_4_def sample_input_def)

lemma sample_deliver: "works (\<lambda>_. True) (deliver sample_env e) (\<lambda>_. True)"
  unfolding deliver_def by (rule works_seq) (simp_all add: works_def modifyS_def envS_def sample_env_def retS_def)

lemma sample_button: "works (\<lambda>_. True) (set_button sample_env cs) (\<lambda>_. True)"
  unfolding set_button_def by (auto intro!: works_rules works_getS works_modifyS sample_deliver split: prod.splits)

lemma sample_pointer: "works (\<lambda>_. True) (pointer_event sample_env b e x y) (\<lambda>_. True)"
  unfolding pointer_event_def by (intro works_rules works_getS works_modifyS sample_deliver sample_button) simp

section \<open>What a session promises\<close>



text \<open>
  C29. In every session, with updates sent between the messages, an event is only taken after an access was granted:
  the daemon accepted the user and the password, or access without a password, or a password of the list
  encrypts the challenge to the response; and only by a type of security that is enabled.
\<close>
theorem events_after_access:
  assumes "sizes_ok width height name" and "bytes_ok input" and "list_all step_ok steps"
    and "session env steps (rfb_init width height name input w) = (r, t)" and "e \<in> set (rb_events t)"
  shows "\<exists>who. (who, True) \<in> set (rb_log t) \<and> granted env who"
proof -
  have "sound env t" using session_sound [OF assms(1-3), of env w] assms(4) by simp
  moreover have "rb_events t \<noteq> []" using assms(5) by auto
  ultimately show ?thesis by (auto simp: sound_def list_all_iff)
qed

theorem events_after_access_witness: "\<exists>who. (who, True) \<in> set (rb_log sample_4) \<and> granted sample_env who"
  by (rule events_after_access [OF sample_sizes _ sample_session [unfolded sample_start_def], of EncodingsSet])
     (simp_all add: step_ok_def sample_4_def)

text \<open>
  C31. Every event of a session is in the range of the devices: the pointer stays in the signed 16-bit square, a wheel
  moves by at most the scroll rate, a button is one of the five, and no key has the code 0.
\<close>
theorem events_bounded:
  assumes "sizes_ok width height name" and "bytes_ok input" and "list_all step_ok steps"
    and "session env steps (rfb_init width height name input w) = (r, t)"
  shows "list_all (event_in_range env) (rb_events t)"
  using session_sound [OF assms(1-3), of env w] assms(4) by (simp add: sound_def)

theorem events_bounded_witness: "list_all (event_in_range sample_env) (rb_events sample_4)"
  by (rule events_bounded [OF sample_sizes _ sample_session [unfolded sample_start_def]]) (simp add: step_ok_def)

section \<open>The pointer\<close>

text \<open>The bytes of a pointer message after its type; the second mask comes only with the marker bit.\<close>

definition pointer_bytes :: "bool \<Rightarrow> int \<Rightarrow> int \<Rightarrow> int \<Rightarrow> int \<Rightarrow> bytes" where
  "pointer_bytes extended m ext x y = put_int BE 1 m @ put_int BE 2 x @ put_int BE 2 y
     @ (if extended \<and> bit_set m 0x80 then put_int BE 1 ext else [])"

lemma deliver_keeps:
  "deliver env e s = (Inr (), t) \<Longrightarrow> rb_buttons t = rb_buttons s \<and> rb_move t = rb_move s \<and> rb_in t = rb_in s
     \<and> rb_width t = rb_width s \<and> rb_height t = rb_height s"
  by (auto simp: deliver_def bindS_Inr_iff envS_def modifyS_def split: prod.splits)

lemma set_button_sets:
  "set_button env (c, b) s = (Inr (), t) \<Longrightarrow>
     map_of (rb_buttons t) = (map_of (rb_buttons s))(c \<mapsto> b) \<and> rb_move t = rb_move s \<and> rb_in t = rb_in s"
  by (auto simp: set_button_def getS_def whenS_def bindS_Inr_iff modifyS_def retS_def fun_eq_iff dest!: deliver_keeps split: if_splits)

lemma buttons_set:
  "forS cs (set_button env) s = (Inr (), t) \<Longrightarrow>
     map_of (rb_buttons t) = map_of (rb_buttons s) ++ map_of (rev cs) \<and> rb_move t = rb_move s \<and> rb_in t = rb_in s"
proof (induction cs arbitrary: s)
  case (Cons cb cs)
  obtain c b where cb: "cb = (c, b)" by (cases cb)
  from Cons.prems obtain u where u: "set_button env (c, b) s = (Inr (), u)" and t: "forS cs (set_button env) u = (Inr (), t)"
    by (auto simp: bindS_Inr_iff cb)
  show ?case using Cons.IH [OF t] set_button_sets [OF u] by (auto simp: cb map_add_def fun_eq_iff split: option.splits)
qed (simp add: retS_def)

lemma pointer_result:
  assumes "pointer_event env m e x y s = (Inr (), t)"
  shows "rb_move t = (rb_width s, rb_height s, x, y)" "rb_in t = rb_in s"
    "map_of (rb_buttons t) = map_of (rb_buttons s) ++ map_of (rev (mouse_buttons (re_ecodes env) m e))"
proof -
  obtain u v where u: "whenS (bit_set m 0x78) (deliver env (WheelEvent (wheel_delta (re_scroll_rate env) m 0x40 0x20)
        (wheel_delta (re_scroll_rate env) m 0x10 0x08))) s = (Inr (), u)"
    and v: "whenS (rb_move s \<noteq> (rb_width s, rb_height s, x, y)) (bindS (deliver env (point_to (rb_width s) (rb_height s) x y))
        (\<lambda>_. modifyS (\<lambda>s'. s'\<lparr>rb_move := (rb_width s, rb_height s, x, y)\<rparr>))) u = (Inr (), v)"
    and t: "forS (mouse_buttons (re_ecodes env) m e) (set_button env) v = (Inr (), t)"
    using assms by (auto simp: pointer_event_def getS_def bindS_Inr_iff)
  have u': "rb_buttons u = rb_buttons s \<and> rb_move u = rb_move s \<and> rb_in u = rb_in s"
    using u by (auto simp: whenS_def retS_def dest!: deliver_keeps split: if_splits)
  have v': "rb_buttons v = rb_buttons u \<and> rb_move v = (rb_width s, rb_height s, x, y) \<and> rb_in v = rb_in u"
    using v u' by (auto simp: whenS_def retS_def bindS_Inr_iff modifyS_def dest!: deliver_keeps split: if_splits)
  show "rb_move t = (rb_width s, rb_height s, x, y)" "rb_in t = rb_in s"
    "map_of (rb_buttons t) = map_of (rb_buttons s) ++ map_of (rev (mouse_buttons (re_ecodes env) m e))"
    using buttons_set [OF t] u' v' by simp_all
qed

lemma read_pointer:
  assumes "0 \<le> m" "m < 256" "0 \<le> ext" "ext < 256" "0 \<le> x" "x < 65536" "0 \<le> y" "y < 65536"
    and "rb_in s = pointer_bytes (ce_ext_mouse (rb_encodings s)) m ext x y @ rest"
  shows "handle_pointer_event env s =
     pointer_event env m (if ce_ext_mouse (rb_encodings s) \<and> bit_set m 0x80 then ext else 0) x y (s\<lparr>rb_in := rest\<rparr>)"
proof -
  have "unpack_fields BE [FU 1, FU 2, FU 2] (put_int BE 1 m @ put_int BE 2 x @ put_int BE 2 y) = [m, x, y]"
    using assms(1-8) by (simp add: get_put_int)
  moreover have "put_int BE (Suc 0) ext \<noteq> []" by (simp add: put_int_def)
  ultimately show ?thesis using assms
    by (auto simp: handle_pointer_event_def read_struct_def read_number_def read_exactly_def pointer_bytes_def bindS_def
        sm_defs get_put_int bit_set_def)
qed

lemma mouse_buttons_of:
  assumes "ecodes_ok ec" and "(c, b) \<in> set (mouse_buttons ec m e)"
  shows "map_of (rev (mouse_buttons ec m e)) c = Some b"
proof -
  have "distinct (map fst (mouse_buttons ec m e))"
    using assms(1) by (auto simp: ecodes_ok_def button_names_def mouse_buttons_def)
  then have "dict_wf (rev (mouse_buttons ec m e))" by (simp add: dict_wf_def rev_map [symmetric])
  then show ?thesis using assms(2) by (simp add: dict_wf_mem)
qed

lemma bit_of_mask: "bit m 0 = bit_set m 1" "bit m (Suc 0) = bit_set m 2" "bit m 1 = bit_set m 2" "bit m 2 = bit_set m 4" for m :: int
  using and_exp_eq_0_iff_not_bit [of m 0] and_exp_eq_0_iff_not_bit [of m 1] and_exp_eq_0_iff_not_bit [of m 2]
  by (simp_all add: bit_set_def)

lemma next_message_type:
  "rb_in s = b # bs \<Longrightarrow> next_message env s = handle_message env b (s\<lparr>rb_in := bs\<rparr>)"
  by (simp add: next_message_def read_number_def read_exactly_def sm_defs bindS_def get_int_def)

text \<open>
  C32. After every pointer message of a session, however the events before it went, the events leave the target with
  exactly the buttons of the message pressed, the two extra ones by the extended mask only, and with the
  pointer at the place of the message in the picture.
\<close>
theorem pointer_shown:
  assumes "sizes_ok width height name" and "bytes_ok input" and "list_all step_ok steps" and "ecodes_ok (re_ecodes env)"
    and "session env steps (rfb_init width height name input w) = (Inr (), s)"
    and "0 \<le> m" "m < 256" "0 \<le> ext" "ext < 256" "0 \<le> x" "x < 65536" "0 \<le> y" "y < 65536"
    and "rb_in s = 5 # pointer_bytes (ce_ext_mouse (rb_encodings s)) m ext x y @ rest"
    and "next_message env s = (Inr (), t)"
  shows "rb_in t = rest
    \<and> shown_point (rb_events t) = Some (remap x 0 (rb_width s - 1) (-32768) 32767, remap y 0 (rb_height s - 1) (-32768) 32767)
    \<and> list_all (\<lambda>(name, n). shown_button (rb_events t) (re_ecodes env name) = Some (bit m n))
        [(''BTN_LEFT'', 0), (''BTN_MIDDLE'', 1), (''BTN_RIGHT'', 2)]
    \<and> list_all (\<lambda>(name, n). shown_button (rb_events t) (re_ecodes env name)
          = Some (ce_ext_mouse (rb_encodings s) \<and> bit_set m 0x80 \<and> bit ext n)) [(''BTN_FORWARD'', 0), (''BTN_BACK'', 1)]"
proof -
  let ?e = "if ce_ext_mouse (rb_encodings s) \<and> bit_set m 0x80 then ext else 0"
  have s: "rfb_inv env True s" by (rule stays_Inr [OF stays_session [OF assms(3)] inv_init [OF assms(1,2)] assms(5)])
  have "rfb_inv env True t" by (rule stays_Inr [OF stays_message s assms(15)])
  then have linked: "shown_button (rb_events t) c = map_of (rb_buttons t) c" "shown_point (rb_events t) = point_of (rb_move t)" for c
    by (simp_all add: rfb_inv_def linked_def)
  have p: "pointer_event env m ?e x y (s\<lparr>rb_in := rest\<rparr>) = (Inr (), t)"
    using read_pointer [OF assms(6-13), where s = "s\<lparr>rb_in := tl (rb_in s)\<rparr>" and rest = rest and env = env] assms(14,15)
    by (simp add: next_message_type handle_message_def)
  have "map_of (rb_buttons t) c = Some b" if "(c, b) \<in> set (mouse_buttons (re_ecodes env) m ?e)" for c b
    using pointer_result(3) [OF p] mouse_buttons_of [OF assms(4) that] by simp
  then have "shown_button (rb_events t) c = Some b" if "(c, b) \<in> set (mouse_buttons (re_ecodes env) m ?e)" for c b
    using that by (simp add: linked)
  then have "shown_button (rb_events t) (re_ecodes env ''BTN_LEFT'') = Some (bit m 0)"
    "shown_button (rb_events t) (re_ecodes env ''BTN_MIDDLE'') = Some (bit m 1)"
    "shown_button (rb_events t) (re_ecodes env ''BTN_RIGHT'') = Some (bit m 2)"
    "shown_button (rb_events t) (re_ecodes env ''BTN_FORWARD'') = Some (bit ?e 0)"
    "shown_button (rb_events t) (re_ecodes env ''BTN_BACK'') = Some (bit ?e 1)"
    by (simp_all add: mouse_buttons_def bit_of_mask)
  then have "list_all (\<lambda>(name, n). shown_button (rb_events t) (re_ecodes env name) = Some (bit m n))
        [(''BTN_LEFT'', 0), (''BTN_MIDDLE'', 1), (''BTN_RIGHT'', 2)]"
    "list_all (\<lambda>(name, n). shown_button (rb_events t) (re_ecodes env name)
          = Some (ce_ext_mouse (rb_encodings s) \<and> bit_set m 0x80 \<and> bit ext n)) [(''BTN_FORWARD'', 0), (''BTN_BACK'', 1)]"
    by auto
  with pointer_result(1,2) [OF p] linked(2) assms(10) show ?thesis by (simp add: point_of_def)
qed

lemma sample_facts [simp]:
  "rb_width sample_4 = 512" "rb_height sample_4 = 240" "ce_ext_mouse (rb_encodings sample_4) = False"
  "re_ecodes sample_env = count_names"
  by (simp_all add: sample_4_def sample_3_def sample_2_def sample_1_def sample_start_def rfb_init_def sample_encodings sample_env_def)

lemma sample_bytes: "rb_in sample_4 = 5 # pointer_bytes (ce_ext_mouse (rb_encodings sample_4)) 1 0 511 239 @ []"
  by (simp add: sample_4_in pointer_bytes_def put_int_def numeral_2_eq_2)

lemma sample_click: "\<exists>t. next_message sample_env sample_4 = (Inr (), t)"
proof -
  have "next_message sample_env sample_4 = pointer_event sample_env 1 0 511 239 (sample_4\<lparr>rb_in := []\<rparr>)"
    using read_pointer [of 1 0 511 239 "sample_4\<lparr>rb_in := tl (rb_in sample_4)\<rparr>" "[]" sample_env] sample_bytes
    by (simp add: next_message_type handle_message_def)
  moreover have "\<exists>a t. pointer_event sample_env 1 0 511 239 (sample_4\<lparr>rb_in := []\<rparr>) = (Inr a, t)"
    using worksD [OF sample_pointer TrueI] by simp
  ultimately show ?thesis by auto
qed

theorem pointer_shown_witness:
  "\<exists>t. next_message sample_env sample_4 = (Inr (), t) \<and> shown_point (rb_events t) = Some (32767, 32767)
     \<and> shown_button (rb_events t) (count_names ''BTN_LEFT'') = Some True
     \<and> shown_button (rb_events t) (count_names ''BTN_RIGHT'') = Some False"
proof -
  obtain t where t: "next_message sample_env sample_4 = (Inr (), t)" using sample_click by blast
  have ec: "ecodes_ok (re_ecodes sample_env)" by (simp add: count_names_ok)
  from pointer_shown [OF sample_sizes _ ec sample_session [unfolded sample_start_def] _ _ _ _ _ _ _ _ sample_bytes t]
  show ?thesis using t by (simp add: step_ok_def bit_of_mask bit_set_def remap_def)
qed

section \<open>Updates and texts\<close>

text \<open>How a client reads an update that consists of one rectangle with a JPEG picture.\<close>

fun read_compact :: "bytes \<Rightarrow> (int \<times> bytes) option" where
  "read_compact (a # bs) = (if a < 128 then Some (a, bs) else
     (case bs of [] \<Rightarrow> None | b # cs \<Rightarrow> if b < 128 then Some (a - 128 + 128 * b, cs) else
       (case cs of [] \<Rightarrow> None | c # ds \<Rightarrow> Some (a - 128 + 128 * (b - 128) + 16384 * c, ds))))"
| "read_compact [] = None"

definition read_jpeg_update :: "bytes \<Rightarrow> (int \<times> int \<times> bytes \<times> bytes) option" where
  "read_jpeg_update bs =
     (case unpack_from BE [FU 1, FX 1, FU 2, FU 2, FU 2, FU 2, FU 2, FS 4, FU 1] bs 0 of
        Inr [message, n, x, y, w, h, encoding, control] \<Rightarrow>
          if message = 0 \<and> n = 1 \<and> x = 0 \<and> y = 0 \<and> encoding = 7 \<and> control div 16 = 9 then
            (case read_compact (drop 17 bs) of None \<Rightarrow> None
             | Some (k, data) \<Rightarrow> if nat k \<le> length data then Some (w, h, take (nat k) data, drop (nat k) data) else None)
          else None
      | _ \<Rightarrow> None)"

lemma read_compact_eqs:
  "r < 128 \<Longrightarrow> read_compact (r # rest) = Some (r, rest)"
  "0 \<le> r \<Longrightarrow> c < 128 \<Longrightarrow> read_compact ((r + 128) # c # rest) = Some (r + 128 * c, rest)"
  "0 \<le> r \<Longrightarrow> 0 \<le> c \<Longrightarrow> read_compact ((r + 128) # (c + 128) # b # rest) = Some (r + 128 * c + 16384 * b, rest)"
  by simp_all

lemma digits_128: "n = n mod 128 + 128 * (n div 128)" "n div 128 = n div 128 mod 128 + 128 * (n div 16384)" for n :: int
proof -
  have "n div 128 div 128 = n div 16384" by (simp add: div_mult2_eq [symmetric])
  then show "n = n mod 128 + 128 * (n div 128)" "n div 128 = n div 128 mod 128 + 128 * (n div 16384)"
    using mult_div_mod_eq [of 128 n] mult_div_mod_eq [of 128 "n div 128"] by simp_all
qed

lemma read_tight_length:
  assumes "0 \<le> n" "n \<le> 4194303"
  shows "\<exists>k. tight_length n = 159 # k \<and> read_compact (k @ rest) = Some (n, rest)"
proof -
  have pos: "0 \<le> n mod 128" "0 \<le> n div 128 mod 128" by simp_all
  consider "n \<le> 127" | "127 < n" "n \<le> 16383" | "16383 < n" by linarith
  then show ?thesis
  proof cases
    case 1
    with assms(1) have "n mod 128 = n" by (intro mod_pos_pos_trivial) simp_all
    with 1 show ?thesis by (intro exI [of _ "[n]"]) (simp add: tight_length_eq)
  next
    case 2
    then have "n div 128 \<le> 127" using zdiv_mono1 [of n 16383 128] by simp
    moreover have "0 \<le> n div 128" using assms(1) by simp
    ultimately have "n div 128 mod 128 = n div 128" "n div 128 < 128" by (simp_all add: mod_pos_pos_trivial)
    with 2 read_compact_eqs(2) [OF pos(1), of "n div 128" rest] digits_128(1) [of n] show ?thesis
      by (intro exI [of _ "[n mod 128 + 128, n div 128]"]) (simp only: tight_length_eq, simp)
  next
    case 3
    have "n div 16384 \<le> 255" using zdiv_mono1 [of n 4194303 16384] assms(2) by simp
    moreover have "0 \<le> n div 16384" using assms(1) by simp
    ultimately have "n div 16384 mod 256 = n div 16384" by (simp add: mod_pos_pos_trivial)
    moreover have "n mod 128 + 128 * (n div 128 mod 128) + 16384 * (n div 16384) = n" using digits_128 [of n] by linarith
    ultimately show ?thesis using 3 read_compact_eqs(3) [OF pos, of "n div 16384" rest]
      by (intro exI [of _ "[n mod 128 + 128, n div 128 mod 128 + 128, n div 16384]"]) (simp only: tight_length_eq, simp)
  qed
qed

lemma pack_append: "pack e fs vs = Inr bs \<Longrightarrow> pack e gs ws = Inr cs \<Longrightarrow> pack e (fs @ gs) (vs @ ws) = Inr (bs @ cs)"
  by (induction e fs vs arbitrary: bs rule: pack.induct) (auto simp: bindR_Inr_iff split: if_splits)

lemma write_data_out:
  "write_data env bs d s = (Inr (), t) \<Longrightarrow> rb_out t = rb_out s @ [bs]"
  by (auto simp: write_data_def drainS_def sm_defs bindS_def split: prod.splits if_splits)

lemma write_struct_out:
  "write_struct env fs vs d s = (Inr (), t) \<Longrightarrow> \<exists>bs. pack BE fs vs = Inr bs \<and> rb_out t = rb_out s @ [bs]"
  by (auto simp: write_struct_def bindS_Inr_iff liftS_def dest!: write_data_out)

lemma after_frame_out: "after_frame b s = (Inr (), t) \<Longrightarrow> rb_out t = rb_out s"
  by (auto simp: after_frame_def notify_fb_def sm_defs bindS_def split: if_splits)

text \<open>
  C33. A picture that is sent without an exception is read by the client with its size and exactly its bytes, of
  whatever length, and what follows on the wire is left for the next update.
\<close>
theorem jpeg_read_back:
  assumes "send_fb_jpeg env data s = (Inr (), t)"
  shows "\<exists>ms. rb_out t = rb_out s @ ms \<and> read_jpeg_update (concat ms @ rest) = Some (rb_width s, rb_height s, data, rest)"
proof -
  let ?n = "int (length data)" and ?fs = "[FU 1, FX 1, FU 2, FU 2, FU 2, FU 2, FU 2, FS 4]"
  obtain u v x where len: "?n \<le> 4194303"
    and u: "write_fb_update env (rb_width s) (rb_height s) ENC_TIGHT False s = (Inr (), u)"
    and v: "write_data env (tight_length ?n) False u = (Inr (), v)"
    and x: "write_data env data True v = (Inr (), x)" and t: "after_frame True x = (Inr (), t)"
    using assms by (auto simp: send_fb_jpeg_def getS_def assertS_def raiseS_def bindS_Inr_iff liftS_def py_bytes_def split: if_splits)
  obtain head where head: "pack BE ?fs [0, 1, 0, 0, rb_width s, rb_height s, 7] = Inr head" "rb_out u = rb_out s @ [head]"
    using write_struct_out [OF u [unfolded write_fb_update_def]] by (auto simp: ENC_TIGHT_def)
  obtain k where k: "tight_length ?n = 159 # k" "read_compact (k @ data @ rest) = Some (?n, data @ rest)"
    using read_tight_length [of ?n "data @ rest"] len by auto
  have "length head = 16" using pack_facts [OF head(1)] by simp
  have "pack BE (?fs @ [FU 1]) [0, 1, 0, 0, rb_width s, rb_height s, 7, 159] = Inr (head @ [159])"
    using pack_append [OF head(1), of "[FU 1]" "[159]" "[159]"] by (simp add: put_int_def)
  from unpack_from_pack [OF this, of 0 "[]" "k @ data @ rest"] \<open>length head = 16\<close> k(2)
  have "read_jpeg_update (head @ (159 # k) @ data @ rest) = Some (rb_width s, rb_height s, data, rest)"
    by (simp add: read_jpeg_update_def)
  moreover have "rb_out t = rb_out s @ [head, 159 # k, data]"
    using head(2) write_data_out [OF v] write_data_out [OF x] after_frame_out [OF t] by (simp add: k)
  ultimately show ?thesis by (intro exI [of _ "[head, 159 # k, data]"]) simp
qed

lemma sample_picture: "\<exists>t. send_fb_jpeg sample_env [255, 216] sample_4 = (Inr (), t)"
  by (simp add: send_fb_jpeg_def sample_eval stream_eval sample_4_def sample_3_def sample_2_def sample_1_def sample_start_def
      sample_encodings ENC_TIGHT_def py_bytes_def tight_length_eq after_frame_def cong: bindS_weak)

theorem jpeg_read_back_witness:
  "\<exists>t ms. send_fb_jpeg sample_env [255, 216] sample_4 = (Inr (), t) \<and> rb_out t = rb_out sample_4 @ ms
     \<and> read_jpeg_update (concat ms @ []) = Some (512, 240, [255, 216], [])"
proof -
  obtain t where t: "send_fb_jpeg sample_env [255, 216] sample_4 = (Inr (), t)" using sample_picture by blast
  from jpeg_read_back [OF t, of "[]"] t show ?thesis by auto
qed

text \<open>
  A text of Unicode characters that the client cuts, encoded in UTF-8, arrives at the handler as it was, and the
  next message starts right behind it.
\<close>
theorem cut_text_arrives:
  assumes "list_all scalar_value text" and "length (utf8_encode text) < 2 ^ 32"
    and "rb_in s = [6, 0, 0, 0] @ put_int BE 4 (int (length (utf8_encode text))) @ utf8_encode text @ rest"
  shows "next_message env s = deliver env (CutEvent text) (s\<lparr>rb_in := rest\<rparr>)"
proof -
  let ?n = "int (length (utf8_encode text))"
  have n: "get_int BE (put_int BE 4 ?n) = ?n" using assms(2) by (intro get_put_int) simp_all
  show ?thesis using assms(3) n
    by (simp add: next_message_def read_number_def read_exactly_def read_struct_def read_text_def handle_message_def
        handle_client_cut_text_def bindS_step sm_defs get_int_def utf8_decode_encode [OF assms(1)] cong: bindS_weak)
qed

theorem cut_text_arrives_witness:
  "next_message sample_env (sample_4\<lparr>rb_in := [6, 0, 0, 0, 0, 0, 0, 3, 65, 195, 169, 5]\<rparr>)
     = deliver sample_env (CutEvent [65, 233]) (sample_4\<lparr>rb_in := [5]\<rparr>)"
proof -
  have "utf8_encode [65, 233] = [65, 195, 169]" by (simp add: utf8_encode_def utf8_char_def)
  moreover have "put_int BE 4 3 = [0, 0, 0, 3]" by (simp add: put_int_def eval_nat_numeral)
  ultimately show ?thesis
    using cut_text_arrives [of "[65, 233]" "sample_4\<lparr>rb_in := [6, 0, 0, 0, 0, 0, 0, 3, 65, 195, 169, 5]\<rparr>" "[5]" sample_env]
    by (simp add: scalar_value_def)
qed

section \<open>Messages with surprises\<close>

text \<open>
  A character with AltGr only: when AltGr is released before the key, the release of the key finds no variant
  and is lost, so that the key stays pressed on the target.
\<close>

definition shown_key :: "rfb_event list \<Rightarrow> int \<Rightarrow> bool" where
  "shown_key es k = foldl (\<lambda>p e. case e of KeyEvent j b \<Rightarrow> if j = k then b else p | _ \<Rightarrow> p) False es"

definition key_message :: "bool \<Rightarrow> int \<Rightarrow> bytes" where
  "key_message b code = [4, of_bool b, 0, 0] @ put_int BE 4 code"

definition key_state :: "int \<Rightarrow> bytes \<Rightarrow> rfb_event list \<Rightarrow> unit rfb" where
  "key_state mods bs es = sample_4\<lparr>rb_in := bs, rb_mods := mods, rb_events := es\<rparr>"

lemma sample_symmap: "rb_symmap sample_4 = Some [(64, [(2, 16)])]"
  by (simp add: sample_4_def)

lemma sample_delivers: "deliver sample_env e s = (Inr (), s\<lparr>rb_events := rb_events s @ [e]\<rparr>)"
  by (simp add: deliver_def sample_env_def envS_def modifyS_def retS_def bindS_step)

lemma key_handled:
  assumes "0 \<le> code" "code < 2 ^ 32"
  shows "next_message sample_env (key_state mods (key_message b code @ bs) es) =
    (let m = x11_modifier code; mods' = (if m = 0 then mods else if b then mods OR m else mods AND NOT m)
     in (Inr (), key_state mods' bs (if code = 64 \<and> mods' = 2 then es @ [KeyEvent 16 b] else es)))"
proof -
  have "get_int BE (put_int BE 4 code) = code" using assms by (intro get_put_int) simp_all
  then show ?thesis
    by (auto simp: next_message_type handle_message_def key_message_def handle_key_event_def read_struct_def read_exactly_def
        key_state_def bindS_step sm_defs get_int_def switch_modifier_def get_symmap_def sample_symmap choose_key_def Let_def
        sample_delivers dict_has_def SHIFT_def x11_modifier_def cong: bindS_weak)
qed

lemma altgr_first_leaves_key:
  "forS (replicate 4 NextMessage) (do_step sample_env)
     (key_state 0 (key_message True 65027 @ key_message True 64 @ key_message False 65027 @ key_message False 64 @ []) []) =
   (Inr (), key_state 0 [] [KeyEvent 16 True])"
  by (simp add: numeral_eq_Suc bindS_step key_handled x11_modifier_def ALTGR_def Let_def retS_def del: append_Nil2 cong: bindS_weak)

text \<open>A list of one encoding fails in an assertion of the stream, before it is read.\<close>

lemma single_encoding_asserts:
  assumes "rb_in s = [2, 0, 0, 1] @ rest"
  shows "next_message env s = (Inl AssertionError, s\<lparr>rb_in := rest\<rparr>)"
  using assms by (simp add: next_message_type handle_message_def handle_set_encodings_def read_struct_def read_exactly_def bindS_step
      sm_defs get_int_def numeral_2_eq_2 cong: bindS_weak)

end
