(* ===== verification/OtgReports.thy ===== *)
theory OtgReports
  imports HidKeyboard HidMouse
begin

text \<open>
  The report descriptors of the USB gadget (\<open>kvmd/apps/otg/hid\<close>), read as a host reads them: the descriptors and
  the processes that write the reports are far apart in the code, and must say the same.
\<close>

section \<open>The descriptors\<close>

record hid =
  hid_protocol :: int
  hid_subclass :: int
  hid_report_length :: nat
  hid_report_descriptor :: bytes

definition horizontal_wheel_items :: bytes where
  "horizontal_wheel_items = [
     0x05, 0x0C,
     0x0A, 0x38, 0x02,
     0x15, 0x81,
     0x25, 0x7F,
     0x75, 0x08,
     0x95, 0x01,
     0x81, 0x06]"

definition report_id_items :: "int option \<Rightarrow> bytes" where
  "report_id_items report_id = (case report_id of None \<Rightarrow> [] | Some i \<Rightarrow> [0x85, i])"

definition make_absolute_hid :: "bool \<Rightarrow> int option \<Rightarrow> hid result" where
  "make_absolute_hid horizontal_wheel report_id =
     bindR (py_bytes ([
       0x05, 0x01,
       0x09, 0x02,
       0xA1, 0x01] @ report_id_items report_id @ [
       0x09, 0x01,
       0xA1, 0x00,
       0x05, 0x09,
       0x19, 0x01,
       0x29, 0x08,
       0x15, 0x00,
       0x25, 0x01,
       0x95, 0x08,
       0x75, 0x01,
       0x81, 0x02,
       0x05, 0x01,
       0x09, 0x30,
       0x09, 0x31,
       0x16, 0x00, 0x00,
       0x26, 0xFF, 0x7F,
       0x75, 0x10,
       0x95, 0x02,
       0x81, 0x02,
       0x09, 0x38,
       0x15, 0x81,
       0x25, 0x7F,
       0x75, 0x08,
       0x95, 0x01,
       0x81, 0x06] @ (if horizontal_wheel then horizontal_wheel_items else []) @ [
       0xC0,
       0xC0])) (\<lambda>desc.
     Inr \<lparr>hid_protocol = 0, hid_subclass = 0, hid_report_length = (if horizontal_wheel then 7 else 6),
        hid_report_descriptor = desc\<rparr>)"

definition make_relative_hid :: "bool \<Rightarrow> int option \<Rightarrow> hid result" where
  "make_relative_hid horizontal_wheel report_id =
     bindR (py_bytes ([
       0x05, 0x01,
       0x09, 0x02,
       0xA1, 0x01] @ report_id_items report_id @ [
       0x09, 0x01,
       0xA1, 0x00,
       0x05, 0x09,
       0x19, 0x01,
       0x29, 0x08,
       0x15, 0x00,
       0x25, 0x01,
       0x95, 0x08,
       0x75, 0x01,
       0x81, 0x02,
       0x05, 0x01,
       0x09, 0x30,
       0x09, 0x31,
       0x09, 0x38,
       0x15, 0x81,
       0x25, 0x7F,
       0x75, 0x08,
       0x95, 0x03,
       0x81, 0x06] @ (if horizontal_wheel then horizontal_wheel_items else []) @ [
       0xC0,
       0xC0])) (\<lambda>desc.
     Inr \<lparr>hid_protocol = 2, hid_subclass = 1, hid_report_length = (if horizontal_wheel then 5 else 4),
        hid_report_descriptor = desc\<rparr>)"

definition make_mouse_hid :: "bool \<Rightarrow> bool \<Rightarrow> int option \<Rightarrow> hid result" where
  "make_mouse_hid absolute horizontal_wheel report_id =
     (if absolute then make_absolute_hid else make_relative_hid) horizontal_wheel report_id"

definition make_keyboard_hid :: "int option \<Rightarrow> hid result" where
  "make_keyboard_hid report_id =
     bindR (py_bytes ([
       0x05, 0x01,
       0x09, 0x06,
       0xA1, 0x01] @ report_id_items report_id @ [
       0x05, 0x07,
       0x19, 0xE0,
       0x29, 0xE7,
       0x15, 0x00,
       0x25, 0x01,
       0x75, 0x01,
       0x95, 0x08,
       0x81, 0x02,
       0x95, 0x01,
       0x75, 0x08,
       0x81, 0x01,
       0x95, 0x05,
       0x75, 0x01,
       0x05, 0x08,
       0x19, 0x01,
       0x29, 0x05,
       0x91, 0x02,
       0x95, 0x01,
       0x75, 0x03,
       0x91, 0x01,
       0x95, 0x06,
       0x75, 0x08,
       0x15, 0x00,
       0x26, 0xFF, 0x00,
       0x05, 0x07,
       0x19, 0x00,
       0x2A, 0xFF, 0x00,
       0x81, 0x00,
       0xC0])) (\<lambda>desc.
     Inr \<lparr>hid_protocol = 1, hid_subclass = 1, hid_report_length = 8, hid_report_descriptor = desc\<rparr>)"

section \<open>How a host reads a descriptor\<close>

text \<open>The short items of the USB HID class: the prefix gives tag, type and the number of bytes of data.\<close>

definition item_size :: "int \<Rightarrow> nat" where
  "item_size p = (if p mod 4 = 3 then 4 else nat (p mod 4))"

function hid_items :: "bytes \<Rightarrow> (int \<times> bytes) list" where
  "hid_items [] = []"
| "hid_items (p # bs) = (p div 4, take (item_size p) bs) # hid_items (drop (item_size p) bs)"
  by pat_completeness auto
termination by (relation "measure length") auto

record hid_field =
  hf_input :: bool
  hf_data :: bool
  hf_variable :: bool
  hf_size :: nat
  hf_count :: nat
  hf_min :: int
  hf_max :: int
  hf_page :: int
  hf_usages :: "int list"

text \<open>The global and local items seen so far stand as a field, the local range of usages beside it.\<close>

definition hid_item :: "int \<times> bytes \<Rightarrow> hid_field \<times> int \<times> hid_field list \<Rightarrow> hid_field \<times> int \<times> hid_field list" where
  "hid_item item st = (case (item, st) of ((tag, data), (f, umin, fs)) \<Rightarrow>
     let v = of_le data; sv = get_sint LE (length data) data; clear = f\<lparr>hf_usages := []\<rparr> in
     if tag = 1 then (f\<lparr>hf_page := v\<rparr>, umin, fs)
     else if tag = 5 then (f\<lparr>hf_min := sv\<rparr>, umin, fs)
     else if tag = 9 then (f\<lparr>hf_max := sv\<rparr>, umin, fs)
     else if tag = 29 then (f\<lparr>hf_size := nat v\<rparr>, umin, fs)
     else if tag = 37 then (f\<lparr>hf_count := nat v\<rparr>, umin, fs)
     else if tag = 2 then (f\<lparr>hf_usages := hf_usages f @ [v]\<rparr>, umin, fs)
     else if tag = 6 then (f, v, fs)
     else if tag = 10 then (f\<lparr>hf_usages := hf_usages f @ [umin..v]\<rparr>, 0, fs)
     else if tag = 32 \<or> tag = 36 then
       (clear, 0, fs @ [f\<lparr>hf_input := (tag = 32), hf_data := \<not> odd v, hf_variable := odd (v div 2)\<rparr>])
     else if tag = 40 then (clear, 0, fs)
     else (f, umin, fs))"

definition hid_fields :: "bytes \<Rightarrow> hid_field list" where
  "hid_fields desc = snd (snd (fold hid_item (hid_items desc)
     (\<lparr>hf_input = True, hf_data = True, hf_variable = True, hf_size = 0, hf_count = 0, hf_min = 0, hf_max = 0, hf_page = 0,
       hf_usages = []\<rparr>, 0, [])))"

text \<open>The usages a report sets, with their values; an array lists the usages that are on.\<close>

definition field_values :: "hid_field \<Rightarrow> int \<Rightarrow> int list" where
  "field_values f x = map (\<lambda>i. let v = drop_bit (i * hf_size f) x in
     if hf_min f < 0 then signed_take_bit (hf_size f - 1) v else take_bit (hf_size f) v) [0..<hf_count f]"

fun host_values :: "hid_field list \<Rightarrow> int \<Rightarrow> ((int \<times> int) \<times> int) list" where
  "host_values [] x = []"
| "host_values (f # fs) x =
     (if \<not> hf_data f then []
      else if hf_variable f then zip (map (\<lambda>u. (hf_page f, u)) (hf_usages f)) (field_values f x)
      else map (\<lambda>v. ((hf_page f, hf_usages f ! nat (v - hf_min f)), 1)) (filter (\<lambda>v. v \<noteq> 0) (field_values f x)))
     @ host_values fs (drop_bit (hf_size f * hf_count f) x)"

definition host_reads :: "hid \<Rightarrow> bytes \<Rightarrow> ((int \<times> int) \<times> int) list" where
  "host_reads h r = host_values (filter hf_input (hid_fields (hid_report_descriptor h))) (of_le r)"

definition host_writes :: "hid \<Rightarrow> bytes \<Rightarrow> ((int \<times> int) \<times> int) list" where
  "host_writes h r = host_values (filter (\<lambda>f. \<not> hf_input f) (hid_fields (hid_report_descriptor h))) (of_le r)"

definition report_bits :: "bool \<Rightarrow> hid \<Rightarrow> nat" where
  "report_bits input h = sum_list (map (\<lambda>f. hf_size f * hf_count f)
     (filter (\<lambda>f. hf_input f = input) (hid_fields (hid_report_descriptor h))))"

section \<open>The descriptors read back\<close>

definition input_field :: "int \<Rightarrow> int list \<Rightarrow> nat \<Rightarrow> nat \<Rightarrow> int \<Rightarrow> int \<Rightarrow> hid_field" where
  "input_field page usages size1 count1 lo hi = \<lparr>hf_input = True, hf_data = True, hf_variable = True, hf_size = size1, hf_count = count1,
     hf_min = lo, hf_max = hi, hf_page = page, hf_usages = usages\<rparr>"

definition axis_fields :: "bool \<Rightarrow> bool \<Rightarrow> hid_field list" where
  "axis_fields absolute hwheel =
     (if absolute then [input_field 1 [0x30, 0x31] 16 2 0 32767, input_field 1 [0x38] 8 1 (-127) 127]
        else [input_field 1 [0x30, 0x31, 0x38] 8 3 (-127) 127])
     @ (if hwheel then [input_field 12 [0x238] 8 1 (-127) 127] else [])"

definition mouse_fields :: "bool \<Rightarrow> bool \<Rightarrow> hid_field list" where
  "mouse_fields absolute hwheel = input_field 9 [1, 2, 3, 4, 5, 6, 7, 8] 1 8 0 1 # axis_fields absolute hwheel"

definition described :: "hid result \<Rightarrow> (hid_field list \<times> nat) result" where
  "described r = bindR r (\<lambda>h. Inr (hid_fields (hid_report_descriptor h), hid_report_length h))"

lemma described_Inr: "described r = Inr (fs, n) \<longleftrightarrow> (\<exists>h. r = Inr h \<and> hid_fields (hid_report_descriptor h) = fs \<and> hid_report_length h = n)"
  by (auto simp: described_def bindR_Inr_iff)

lemma mouse_described:
  "described (make_mouse_hid True True None) = Inr (mouse_fields True True, 7)"
  "described (make_mouse_hid True False None) = Inr (mouse_fields True False, 6)"
  "described (make_mouse_hid False True None) = Inr (mouse_fields False True, 5)"
  "described (make_mouse_hid False False None) = Inr (mouse_fields False False, 4)"
  by code_simp+

definition keyboard_fields :: "hid_field list" where
  "keyboard_fields = [
     input_field 7 [0xE0, 0xE1, 0xE2, 0xE3, 0xE4, 0xE5, 0xE6, 0xE7] 1 8 0 1,
     (input_field 7 [] 8 1 0 1)\<lparr>hf_data := False, hf_variable := False\<rparr>,
     (input_field 8 [1, 2, 3, 4, 5] 1 5 0 1)\<lparr>hf_input := False\<rparr>,
     (input_field 8 [] 3 1 0 1)\<lparr>hf_input := False, hf_data := False, hf_variable := False\<rparr>,
     (input_field 7 [0..255] 8 6 0 255)\<lparr>hf_variable := False\<rparr>]"

lemma keyboard_described: "described (make_keyboard_hid None) = Inr (keyboard_fields, 8)"
  by code_simp

section \<open>Reports as numbers\<close>

lemma of_le_append: "of_le (xs @ ys) = of_le xs + 256 ^ length xs * of_le ys"
  by (induction xs) (simp_all add: algebra_simps)

lemma drop_bytes: "bytes_ok r \<Longrightarrow> drop_bit (8 * k) (of_le r) = of_le (drop k r)"
proof (induction k arbitrary: r)
  case (Suc k)
  show ?case
  proof (cases r)
    case (Cons b bs)
    have "drop_bit (8 * k) (drop_bit 8 (of_le (b # bs))) = of_le (drop k bs)"
      using Suc Cons by (simp add: drop_bit_int_def)
    then show ?thesis by (simp add: Cons drop_bit_drop_bit add.commute)
  qed simp
qed simp

lemma take_bytes:
  assumes "bytes_ok r"
  shows "take_bit (8 * k) (of_le r) = of_le (take k r)"
proof (cases "k \<le> length r")
  case True
  have "of_le r = of_le (take k r) + 256 ^ k * of_le (drop k r)"
    using of_le_append [of "take k r" "drop k r"] True by simp
  moreover have "0 \<le> of_le (take k r)" "of_le (take k r) < 256 ^ k"
    using of_le_bounds [OF bytes_ok_take [OF assms, of k]] True by simp_all
  ultimately show ?thesis by (simp add: take_bit_int_def power_mult)
next
  case False
  then have "(256 :: int) ^ length r \<le> 256 ^ k" by (intro power_increasing) simp_all
  with of_le_bounds [OF assms] have "0 \<le> of_le r" "of_le r < 256 ^ k" by linarith+
  with False show ?thesis by (simp add: take_bit_int_def power_mult)
qed

lemma signed_7:
  fixes x :: int
  assumes "0 \<le> x" "x < 256"
  shows "signed_take_bit 7 x = (if x < 128 then x else x - 256)"
proof -
  have s: "signed_take_bit 7 x = (x + 128) mod 256 - 128"
    by (simp add: signed_take_bit_eq_take_bit_shift take_bit_int_def)
  show ?thesis
  proof (cases "x < 128")
    case True
    with assms(1) show ?thesis by (simp add: s mod_pos_pos_trivial)
  next
    case False
    have "(x + 128) mod 256 = (x + 128 - 256) mod 256" by (rule minus_mod_self2 [symmetric])
    also have "\<dots> = x - 128" using False assms by (subst mod_pos_pos_trivial) simp_all
    finally show ?thesis using False by (simp add: s)
  qed
qed

lemma signed_byte:
  assumes "bytes_ok r"
  shows "signed_take_bit 7 (of_le r) = get_sint LE 1 (take 1 r)"
proof -
  have t: "take_bit 8 (of_le r) = of_le (take 1 r)" using take_bytes [OF assms, of 1] by simp
  have "signed_take_bit 7 (of_le r) = signed_take_bit 7 (take_bit 8 (of_le r))"
    by (simp add: signed_take_bit_take_bit)
  moreover have "0 \<le> of_le (take 1 r)" "of_le (take 1 r) < 256"
    using t [symmetric] take_bit_int_less_exp [of 8 "of_le r"] by simp_all
  ultimately show ?thesis by (simp add: t signed_7 get_sint_def get_int_def)
qed

lemma low_bits:
  assumes "bytes_ok (b # bs)" "i < 8"
  shows "bit (of_le (b # bs)) i = bit b i"
proof -
  have "take_bit 8 (of_le (b # bs)) = b" using take_bytes [OF assms(1), of 1] by simp
  then show ?thesis using assms(2) bit_take_bit_iff [of 8 "of_le (b # bs)" i] by simp
qed

section \<open>What the host makes of the reports\<close>

lemma host_fields:
  assumes "make_mouse_hid absolute hwheel None = Inr h"
  shows "hid_fields (hid_report_descriptor h) = mouse_fields absolute hwheel"
    "hid_report_length h = (if absolute then 6 else 4) + (if hwheel then 1 else 0)"
proof -
  have "described (make_mouse_hid absolute hwheel None) = Inr (mouse_fields absolute hwheel, (if absolute then 6 else 4) + (if hwheel then 1 else 0))"
    by (cases absolute; cases hwheel) (simp_all add: mouse_described)
  then show "hid_fields (hid_report_descriptor h) = mouse_fields absolute hwheel"
    "hid_report_length h = (if absolute then 6 else 4) + (if hwheel then 1 else 0)"
    using assms by (simp_all add: described_Inr)
qed

definition button_values :: "int \<Rightarrow> ((int \<times> int) \<times> int) list" where
  "button_values b = map (\<lambda>i. ((9, int i + 1), of_bool (bit b i))) [0..<8]"

lemma host_buttons:
  assumes "bytes_ok (b # r)"
  shows "host_values (input_field 9 [1, 2, 3, 4, 5, 6, 7, 8] 1 8 0 1 # fs) (of_le (b # r)) = button_values b @ host_values fs (of_le r)"
proof -
  have "take_bit (Suc 0) (drop_bit i (of_le (b # r))) = of_bool (bit b i)" if "i < 8" for i
    using low_bits [OF assms that] by (simp add: mod_2_eq_odd bit_iff_odd_drop_bit del: of_le.simps)
  moreover from this [of 0] have "of_le (b # r) mod 2 = of_bool (bit b 0)" by simp
  moreover have "drop_bit 8 (of_le (b # r)) = of_le r" using drop_bytes [OF assms, of 1] by simp
  ultimately show ?thesis
    by (simp add: input_field_def field_values_def button_values_def upt_rec del: of_le.simps)
qed

lemma host_word:
  assumes "bytes_ok r"
  shows "take_bit 16 (of_le r) = of_le (take 2 r)" "drop_bit 16 (of_le r) = of_le (drop 2 r)"
    "drop_bit 32 (of_le r) = of_le (drop 4 r)" "drop_bit 8 (of_le r) = of_le (drop 1 r)"
    "drop_bit 24 (of_le r) = of_le (drop 3 r)"
  using take_bytes [OF assms, of 2] drop_bytes [OF assms, of 2] drop_bytes [OF assms, of 4] drop_bytes [OF assms, of 1]
    drop_bytes [OF assms, of 3] by simp_all

lemma upt_small: "[0..<2] = [0, 1]" "[0..<3] = [0, 1, 2]" "(4 :: nat) = Suc (Suc (Suc (Suc 0)))"
    "(5 :: nat) = Suc (Suc (Suc (Suc (Suc 0))))"
  by code_simp+

text \<open>The axes with their usages, in the order of the report.\<close>

definition axis_usages :: "bool \<Rightarrow> (int \<times> int) list" where
  "axis_usages hwheel = [(1, 0x30), (1, 0x31), (1, 0x38)] @ (if hwheel then [(12, 0x238)] else [])"

lemma host_reads_mouse:
  assumes "make_mouse_hid (ms_absolute m) (ms_hwheel m) None = Inr h" and "bytes_ok r" and "length r = calcsize (ms_format m)"
  shows "host_reads h r = button_values (hd r) @ zip (axis_usages (ms_hwheel m)) (tl (ms_decode m r))"
proof -
  obtain b s where r: "r = b # s" using assms(3) by (cases r) (auto simp: ms_format_def)
  have s: "bytes_ok s" "bytes_ok (b # s)" using assms(2) by (simp_all add: r)
  have d: "bytes_ok (drop k s)" for k using s(1) by simp
  have "host_reads h r = host_values (input_field 9 [1, 2, 3, 4, 5, 6, 7, 8] 1 8 0 1 # axis_fields (ms_absolute m) (ms_hwheel m)) (of_le (b # s))"
    by (simp add: host_reads_def host_fields(1) [OF assms(1)] mouse_fields_def axis_fields_def r input_field_def del: of_le.simps host_values.simps)
  also have "\<dots> = button_values b @ host_values (axis_fields (ms_absolute m) (ms_hwheel m)) (of_le s)"
    by (rule host_buttons [OF s(2)])
  also have "host_values (axis_fields (ms_absolute m) (ms_hwheel m)) (of_le s) = zip (axis_usages (ms_hwheel m)) (tl (ms_decode m r))"
    by (cases "ms_absolute m"; cases "ms_hwheel m")
       (simp_all add: r axis_fields_def field_values_def input_field_def axis_usages_def ms_decode_def ms_format_def
        signed_byte [OF d] signed_byte [OF s(1)] host_word [OF s(1)] host_word [OF d] get_int_def
        upt_small numeral_2_eq_2 numeral_3_eq_3)
  finally show ?thesis by (simp add: r)
qed

lemma take_byte:
  assumes "bytes_ok ks" "i < length ks"
  shows "take_bit 8 (drop_bit (i * 8) (of_le ks)) = ks ! i"
proof -
  have "take_bit (8 * 1) (of_le (drop i ks)) = of_le (take 1 (drop i ks))" using assms by (intro take_bytes) simp
  also have "take 1 (drop i ks) = [ks ! i]" using assms(2) by (simp add: take_Suc_conv_app_nth)
  finally show ?thesis using drop_bytes [OF assms(1), of i] by (simp add: mult.commute)
qed

lemma host_fields_keyboard:
  assumes "make_keyboard_hid None = Inr h"
  shows "hid_fields (hid_report_descriptor h) = keyboard_fields" "hid_report_length h = 8"
  using keyboard_described assms by (simp_all add: described_Inr)

definition modifier_values :: "int \<Rightarrow> ((int \<times> int) \<times> int) list" where
  "modifier_values m = map (\<lambda>i. ((7, 0xE0 + int i), of_bool (bit m i))) [0..<8]"

lemma host_modifiers:
  assumes "bytes_ok (m # r)"
  shows "host_values (input_field 7 [0xE0, 0xE1, 0xE2, 0xE3, 0xE4, 0xE5, 0xE6, 0xE7] 1 8 0 1 # fs) (of_le (m # r))
    = modifier_values m @ host_values fs (of_le r)"
proof -
  have "take_bit (Suc 0) (drop_bit i (of_le (m # r))) = of_bool (bit m i)" if "i < 8" for i
    using low_bits [OF assms that] by (simp add: mod_2_eq_odd bit_iff_odd_drop_bit del: of_le.simps)
  moreover from this [of 0] have "of_le (m # r) mod 2 = of_bool (bit m 0)" by simp
  moreover have "drop_bit 8 (of_le (m # r)) = of_le r" using drop_bytes [OF assms, of 1] by simp
  ultimately show ?thesis
    by (simp add: input_field_def field_values_def modifier_values_def upt_rec del: of_le.simps)
qed

lemma host_reads_keyboard:
  assumes "make_keyboard_hid None = Inr h" and "bytes_ok (m # z # ks)" and "length ks = 6"
  shows "host_reads h (m # z # ks) = modifier_values m @ map (\<lambda>k. ((7, k), 1)) (filter (\<lambda>k. k \<noteq> 0) ks)"
proof -
  have ks: "bytes_ok ks" "bytes_ok (z # ks)" using assms(2) by simp_all
  let ?array = "(input_field 7 [0..255] 8 6 0 255)\<lparr>hf_variable := False\<rparr>"
    and ?pad = "(input_field 7 [] 8 1 0 1)\<lparr>hf_data := False, hf_variable := False\<rparr>"
  have "map (\<lambda>i. take_bit 8 (drop_bit (i * 8) (of_le ks))) [0..<6] = map ((!) ks) [0..<6]"
    using take_byte [OF ks(1)] assms(3) by (intro map_cong) simp_all
  also have "\<dots> = ks" using assms(3) by (metis map_nth)
  finally have vals: "field_values ?array (of_le ks) = ks" by (simp add: field_values_def input_field_def)
  have "[0..255] ! nat k = k" if "k \<in> set ks" for k :: int
    using that ks(1) by (auto simp: bytes_ok_def list_all_iff)
  then have "host_values [?array] (of_le ks) = map (\<lambda>k. ((7, k), 1)) (filter (\<lambda>k. k \<noteq> 0) ks)"
    using vals by (simp add: input_field_def)
  moreover have "host_values [?pad, ?array] (of_le (z # ks)) = host_values [?array] (of_le ks)"
    using host_word(4) [OF ks(2)] by (simp add: input_field_def del: of_le.simps)
  moreover have "filter hf_input keyboard_fields = input_field 7 [0xE0, 0xE1, 0xE2, 0xE3, 0xE4, 0xE5, 0xE6, 0xE7] 1 8 0 1 # [?pad, ?array]"
    by (simp add: keyboard_fields_def input_field_def)
  ultimately show ?thesis
    using host_modifiers [OF assms(2), of "[?pad, ?array]"] by (simp only: host_reads_def host_fields_keyboard(1) [OF assms(1)])
qed

section \<open>The promises of the gadget\<close>


text \<open>The usage of a key of the tables: modifiers are bits of the report, and usages of their own for the host.\<close>

definition key_usage :: "usb_key \<Rightarrow> int" where
  "key_usage u = (if uk_mod u then 0xE0 + int (index_of [1, 2, 4, 8, 16, 32, 64, 128] (uk_code u)) else uk_code u)"

lemma plain_codes: "list_all (\<lambda>(n, mcu, usb, m). m \<or> usb < 0xE0) KEYMAP"
  by (simp add: KEYMAP_def)

lemma plain_key_code: "table_key u \<Longrightarrow> \<not> uk_mod u \<Longrightarrow> uk_code u < 0xE0"
  using plain_codes by (force simp: table_key_def list_all_iff)

lemma bit_set_exp: "bit_set m (2 ^ i) \<longleftrightarrow> bit m i" for m :: int
  using and_exp_eq_0_iff_not_bit [of m i] by (simp add: bit_set_def)

lemma modifier_bit:
  assumes "table_key u" "uk_mod u"
  shows "\<exists>i < 8. uk_code u = 2 ^ i \<and> key_usage u = 0xE0 + int i"
proof -
  have "uk_code u \<in> {1, 2, 4, 8, 16, 32, 64, 128}" by (rule table_key_facts(3) [OF assms])
  then have "\<exists>i \<in> {0, 1, 2, 3, 4, 5, 6, 7}. uk_code u = 2 ^ i \<and> index_of [1, 2, 4, 8, 16, 32, 64, 128] (uk_code u) = i"
    by (auto simp: index_of_def)
  then show ?thesis using assms(2) by (auto simp: key_usage_def)
qed

lemma in_modifier_values: "((7, 0xE0 + int i), 1) \<in> set (modifier_values m) \<longleftrightarrow> i < 8 \<and> bit m i"
  by (auto simp: modifier_values_def)

lemma not_in_modifier_values: "k < 0xE0 \<Longrightarrow> ((7, k), 1) \<notin> set (modifier_values m)"
  by (auto simp: modifier_values_def)

lemma kb_report_bytes: "kb_wf kb \<Longrightarrow> bytes_ok (kb_report kb)"
  using kb_make_report_wf [of kb] by (auto simp: kb_make_report_def make_keyboard_report_def assertR_Inr_iff py_bytes_def kb_report_def split: if_splits)

lemma host_leds:
  assumes "make_keyboard_hid None = Inr h" and "0 \<le> flags" "flags < 256"
  shows "host_writes h [flags] = map (\<lambda>i. ((8, int i + 1), of_bool (bit flags i))) [0..<5]"
  by (simp add: host_writes_def host_fields_keyboard(1) [OF assms(1)] keyboard_fields_def input_field_def field_values_def upt_rec
      mod_2_eq_odd bit_iff_odd_drop_bit)

text \<open>
  C36. The descriptor of the keyboard says what the keyboard process writes and reads: a host that follows it sees
  exactly the held keys, modifiers included, and the lights it sets are the ones the daemon shows.
\<close>
theorem keyboard_understood:
  assumes "make_keyboard_hid None = Inr h" and "kb_wf kb" and "0 \<le> flags" "flags < 256"
  shows "\<exists>r leds. kb_make_report kb = Inr r \<and> length r = hid_report_length h
    \<and> (\<forall>u. table_key u \<longrightarrow> (((7, key_usage u), 1) \<in> set (host_reads h r) \<longleftrightarrow> u \<in> kb_held kb))
    \<and> kb_read_report [flags] = Inr leds
    \<and> (led_num leds \<longleftrightarrow> ((8, 1), 1) \<in> set (host_writes h [flags]))
    \<and> (led_caps leds \<longleftrightarrow> ((8, 2), 1) \<in> set (host_writes h [flags]))
    \<and> (led_scroll leds \<longleftrightarrow> ((8, 3), 1) \<in> set (host_writes h [flags]))"
proof -
  define m where "m = mods_byte (kb_mods kb)"
  define ks where "ks = map slot_code (kb_keys kb)"
  have r: "kb_report kb = m # 0 # ks" by (simp add: kb_report_def m_def ks_def)
  have "bytes_ok (m # 0 # ks)" "length ks = 6"
    using kb_report_bytes [OF assms(2)] assms(2) by (simp_all add: r kb_wf_def ks_def)
  note reads = host_reads_keyboard [OF assms(1) this]
  have "((7, key_usage u), 1) \<in> set (host_reads h (kb_report kb)) \<longleftrightarrow> u \<in> kb_held kb" if u: "table_key u" for u
  proof -
    have down: "down_in (kb_report kb) u \<longleftrightarrow> u \<in> kb_held kb"
      using kb_report_shows [OF assms(2)] u by (simp add: shows_keys_def)
    have "k < 0xE0" if "k \<in> set ks" for k
    proof -
      have "k = 0 \<or> (\<exists>v. table_key v \<and> \<not> uk_mod v \<and> k = uk_code v)" using that assms(2)
        by (fastforce simp: ks_def kb_wf_def list_all_iff set_filled slot_code_def split: option.splits)
      then show ?thesis using plain_key_code by auto
    qed
    then have arr: "((7, k), 1) \<in> set (host_reads h (kb_report kb)) \<longleftrightarrow> ((7, k), 1) \<in> set (modifier_values m) \<or> k \<noteq> 0 \<and> k \<in> set ks"
      for k by (auto simp: r reads)
    show ?thesis
    proof (cases "uk_mod u")
      case True
      then obtain i where i: "i < 8" "uk_code u = 2 ^ i" "key_usage u = 0xE0 + int i" using modifier_bit [OF u] by blast
      have "0xE0 + int i \<notin> set ks" using \<open>\<And>k. k \<in> set ks \<Longrightarrow> k < 0xE0\<close> [of "0xE0 + int i"] by auto
      with True i show ?thesis
        by (simp add: down [symmetric] down_in_def r arr [unfolded r] in_modifier_values bit_set_exp)
    next
      case False
      then show ?thesis using plain_key_code [OF u False] table_key_facts(1) [OF u]
        by (simp add: down [symmetric] down_in_def r arr [unfolded r] not_in_modifier_values key_usage_def)
    qed
  qed
  moreover have "bit_set flags 1 = bit flags 0" "bit_set flags 2 = bit flags 1" "bit_set flags 4 = bit flags 2"
    using bit_set_exp [of flags 0] bit_set_exp [of flags 1] bit_set_exp [of flags 2] by simp_all
  ultimately show ?thesis using kb_make_report_wf [OF assms(2)] host_fields_keyboard(2) [OF assms(1)] assms(2)
    by (auto simp: host_leds [OF assms(1,3,4)] kb_read_report_def get_led_num_def get_led_caps_def get_led_scroll_def py_get_def py_index_def
        kb_report_def kb_wf_def upt_rec numeral_2_eq_2)
qed

text \<open>A relative mouse with two wheels, the left and the middle button down, that moves and scrolls.\<close>

definition sample_mouse :: mouse where
  "sample_mouse = (mouse_init False True)\<lparr>ms_buttons := 5\<rparr>"


theorem keyboard_understood_witness:
  "\<exists>h r leds. make_keyboard_hid None = Inr h \<and> kb_make_report keyboard_init = Inr r \<and> length r = 8
    \<and> kb_read_report [5] = Inr leds \<and> (led_num leds \<longleftrightarrow> ((8, 1), 1) \<in> set (host_writes h [5]))"
proof -
  obtain h where h: "make_keyboard_hid None = Inr h" using keyboard_described by (auto simp: described_Inr)
  from keyboard_understood [OF h keyboard_init_facts(1), of 5] h host_fields_keyboard(2) [OF h] show ?thesis by auto
qed

end
