(* ===== verification/OtgGadget.thy ===== *)
theory OtgGadget
  imports OtgReports SwitchStorage "HOL-Library.Char_ord" "HOL-Library.List_Lexorder"
begin

text \<open>
  The script that builds the USB gadget and takes it down (\<open>kvmd/apps/otg/__init__.py\<close>, \<open>kvmd/usb.py\<close>), over the
  part of the file system it uses: the directories it makes, its symbolic links and the files it writes.  The
  kernel has the last word: it may refuse any write, and it lets a directory go only when nothing made by hand is
  below it and no link points to it.
\<close>

section \<open>The file system of the gadget\<close>

text \<open>Paths are lists of names; those of the gadget begin with its name, the others are ordinary files.\<close>

type_synonym path = "string list"

datatype fvalue =
    FText string
  | FInt int
  | FHex4 int
  | FBytes bytes
  | FLines "int list"
  | FMeta string string int "string list"

record gadget_env =
  ge_refuses :: "path \<Rightarrow> fvalue \<Rightarrow> bool"
  ge_exists :: "path \<Rightarrow> bool"
  ge_udcs :: "string list"
  ge_speeds :: "string \<Rightarrow> string list"
  ge_user_known :: "string \<Rightarrow> bool"
  ge_no_device :: bool

record gadget =
  gd_dirs :: "path list"
  gd_links :: "(path, path) dict"
  gd_files :: "(path, fvalue) dict"
  gd_owners :: "(path \<times> string) list"
  gd_eps_max :: int
  gd_eps_used :: int
  gd_hid_instance :: nat
  gd_msd_instance :: nat

type_synonym 'a gm = "(gadget, 'a) sm"

definition GADGET :: string where "GADGET = ''kvmd''"
definition G_PROFILE_NAME :: string where "G_PROFILE_NAME = ''c.1''"

definition gadget_path :: "path \<Rightarrow> path" where
  "gadget_path p = GADGET # p"

definition profile_path :: "path \<Rightarrow> path" where
  "profile_path p = gadget_path ([''configs'', G_PROFILE_NAME] @ p)"

definition func_path :: "string \<Rightarrow> path \<Rightarrow> path" where
  "func_path f p = gadget_path ([''functions'', f] @ p)"

definition below :: "path \<Rightarrow> path \<Rightarrow> bool" where
  "below p q = (length p < length q \<and> take (length p) q = p)"

definition g_mkdir :: "path \<Rightarrow> unit gm" where
  "g_mkdir p = getS (\<lambda>s. if p \<in> set (gd_dirs s) then raiseS OSError
     else modifyS (\<lambda>s. s\<lparr>gd_dirs := gd_dirs s @ [p]\<rparr>))"

definition g_chown :: "gadget_env \<Rightarrow> path \<Rightarrow> string \<Rightarrow> unit gm" where
  "g_chown env p user = (if \<not> ge_user_known env user then raiseS OSError
     else modifyS (\<lambda>s. s\<lparr>gd_owners := gd_owners s @ [(p, user)]\<rparr>))"

definition g_symlink :: "path \<Rightarrow> path \<Rightarrow> unit gm" where
  "g_symlink src dest = getS (\<lambda>s. if dict_has (gd_links s) dest \<or> src \<notin> set (gd_dirs s) then raiseS OSError
     else modifyS (\<lambda>s. s\<lparr>gd_links := AList.update dest src (gd_links s)\<rparr>))"

text \<open>Attributes vanish with their directory; a file outside the gadget keeps its directory alive.\<close>

definition g_busy :: "gadget \<Rightarrow> path \<Rightarrow> bool" where
  "g_busy s p = (list_ex (below p) (gd_dirs s) \<or> list_ex (\<lambda>(d, t). below p d \<or> t = p) (gd_links s)
     \<or> list_ex (\<lambda>(f, v). hd p \<noteq> GADGET \<and> below p f) (gd_files s))"

definition g_rmdir :: "path \<Rightarrow> unit gm" where
  "g_rmdir p = getS (\<lambda>s. whenS (p \<in> set (gd_dirs s))
     (if g_busy s p then raiseS OSError
      else modifyS (\<lambda>s. s\<lparr>gd_dirs := removeAll p (gd_dirs s), gd_files := filter (\<lambda>(f, v). \<not> below p f) (gd_files s)\<rparr>)))"

definition g_unlink :: "path \<Rightarrow> bool \<Rightarrow> unit gm" where
  "g_unlink p optional = getS (\<lambda>s.
     if dict_has (gd_links s) p then modifyS (\<lambda>s. s\<lparr>gd_links := AList.delete p (gd_links s)\<rparr>)
     else if dict_has (gd_files s) p then modifyS (\<lambda>s. s\<lparr>gd_files := AList.delete p (gd_files s)\<rparr>)
     else if optional then retS () else raiseS FileNotFoundError)"

definition g_write :: "gadget_env \<Rightarrow> path \<Rightarrow> fvalue \<Rightarrow> bool \<Rightarrow> unit gm" where
  "g_write env p v optional =
     (if optional \<and> \<not> ge_exists env p then retS ()
      else if ge_refuses env p v then raiseS OSError
      else modifyS (\<lambda>s. s\<lparr>gd_files := AList.update p v (gd_files s)\<rparr>))"

text \<open>The names in a directory that were made by hand.\<close>

definition entries :: "path list \<Rightarrow> path \<Rightarrow> string list" where
  "entries ps p = map last (filter (\<lambda>q. below p q \<and> length q = Suc (length p)) ps)"

section \<open>The configuration of the gadget\<close>

definition add_meta :: "gadget_env \<Rightarrow> path \<Rightarrow> string \<Rightarrow> string \<Rightarrow> int \<Rightarrow> string list \<Rightarrow> unit gm" where
  "add_meta env meta func desc eps starter =
     g_write env (meta @ [func @ ''@meta.json'']) (FMeta func desc eps ([''otg'', ''devices''] @ starter @ [''start''])) False"

definition start_function :: "string \<Rightarrow> int \<Rightarrow> unit gm" where
  "start_function func eps = getS (\<lambda>s.
     if gd_eps_max s - gd_eps_used s \<ge> eps then
       bindS (g_symlink (func_path func []) (profile_path [func])) (\<lambda>_.
       modifyS (\<lambda>s. s\<lparr>gd_eps_used := gd_eps_used s + eps\<rparr>))
     else retS ())"

definition setup_function :: "gadget_env \<Rightarrow> path \<Rightarrow> string \<Rightarrow> string \<Rightarrow> int \<Rightarrow> string list \<Rightarrow> bool \<Rightarrow> unit gm" where
  "setup_function env meta func desc eps starter start =
     bindS (add_meta env meta func desc eps starter) (\<lambda>_. whenS start (start_function func eps))"

definition create_function :: "string \<Rightarrow> unit gm" where
  "create_function func = g_mkdir (func_path func [])"

abbreviation writes :: "gadget_env \<Rightarrow> string \<Rightarrow> (path \<times> fvalue) list \<Rightarrow> unit gm" where
  "writes env func kvs \<equiv> forS kvs (\<lambda>(p, v). g_write env (func_path func p) v False)"

definition add_hid :: "gadget_env \<Rightarrow> path \<Rightarrow> string \<Rightarrow> string list \<Rightarrow> bool \<Rightarrow> bool \<Rightarrow> hid \<Rightarrow> unit gm" where
  "add_hid env meta desc starter start remote_wakeup h = getS (\<lambda>s. let func = ''hid.usb'' @ nat_str (gd_hid_instance s) in
     bindS (create_function func) (\<lambda>_.
     bindS (g_write env (func_path func [''no_out_endpoint'']) (FText ''1'') True) (\<lambda>_.
     bindS (whenS remote_wakeup (g_write env (func_path func [''wakeup_on_write'']) (FText ''1'') True)) (\<lambda>_.
     bindS (writes env func [([''protocol''], FInt (hid_protocol h)), ([''subclass''], FInt (hid_subclass h)),
       ([''report_length''], FInt (int (hid_report_length h))), ([''report_desc''], FBytes (hid_report_descriptor h))]) (\<lambda>_.
     bindS (setup_function env meta func desc 1 starter start) (\<lambda>_.
     modifyS (\<lambda>s. s\<lparr>gd_hid_instance := gd_hid_instance s + 1\<rparr>)))))))"

definition add_keyboard :: "gadget_env \<Rightarrow> path \<Rightarrow> string list \<Rightarrow> bool \<Rightarrow> bool \<Rightarrow> unit gm" where
  "add_keyboard env meta starter start remote_wakeup =
     bindS (liftS (make_keyboard_hid None)) (add_hid env meta ''Keyboard'' starter start remote_wakeup)"

definition add_mouse :: "gadget_env \<Rightarrow> path \<Rightarrow> string list \<Rightarrow> bool \<Rightarrow> bool \<Rightarrow> bool \<Rightarrow> bool \<Rightarrow> unit gm" where
  "add_mouse env meta starter start remote_wakeup absolute horizontal_wheel =
     bindS (liftS (make_mouse_hid absolute horizontal_wheel None))
       (add_hid env meta ((if absolute then ''Absolute'' else ''Relative'') @ '' Mouse'') starter start remote_wakeup)"

record msd_options =
  mo_image_path :: string
  mo_stall :: bool
  mo_cdrom :: bool
  mo_rw :: bool
  mo_removable :: bool
  mo_fua :: bool

definition add_msd :: "gadget_env \<Rightarrow> path \<Rightarrow> string list \<Rightarrow> bool \<Rightarrow> string \<Rightarrow> msd_options \<Rightarrow> string \<Rightarrow> string \<Rightarrow> unit gm" where
  "add_msd env meta starter start user mo inquiry_cdrom inquiry_flash = getS (\<lambda>s.
     let func = ''mass_storage.usb'' @ nat_str (gd_msd_instance s);
         desc = (if gd_msd_instance s = 0 then ''Mass Storage Drive'' else ''Extra Drive #'' @ nat_str (gd_msd_instance s)) in
     bindS (create_function func) (\<lambda>_.
     bindS (writes env func [([''stall''], FInt (of_bool (mo_stall mo)))]) (\<lambda>_.
     bindS (whenS (mo_image_path mo \<noteq> []) (writes env func [([''lun.0'', ''file''], FText (mo_image_path mo))])) (\<lambda>_.
     bindS (writes env func [([''lun.0'', ''cdrom''], FInt (of_bool (mo_cdrom mo))), ([''lun.0'', ''ro''], FInt (of_bool (\<not> mo_rw mo))),
       ([''lun.0'', ''removable''], FInt (of_bool (mo_removable mo))), ([''lun.0'', ''nofua''], FInt (of_bool (\<not> mo_fua mo))),
       ([''lun.0'', ''inquiry_string_cdrom''], FText inquiry_cdrom), ([''lun.0'', ''inquiry_string''], FText inquiry_flash)]) (\<lambda>_.
     bindS (whenS (user \<noteq> ''root'') (forS [''cdrom'', ''ro'', ''file'', ''forced_eject''] (\<lambda>f. g_chown env (func_path func [''lun.0'', f]) user))) (\<lambda>_.
     bindS (setup_function env meta func desc 2 starter start) (\<lambda>_.
     modifyS (\<lambda>s. s\<lparr>gd_msd_instance := gd_msd_instance s + 1\<rparr>))))))))"

definition add_serial :: "gadget_env \<Rightarrow> path \<Rightarrow> string list \<Rightarrow> bool \<Rightarrow> unit gm" where
  "add_serial env meta starter start =
     bindS (create_function ''acm.usb0'') (\<lambda>_. setup_function env meta ''acm.usb0'' ''Serial Port'' 3 starter start)"

definition add_ethernet :: "gadget_env \<Rightarrow> path \<Rightarrow> string list \<Rightarrow> bool \<Rightarrow> string \<Rightarrow> string \<Rightarrow> string \<Rightarrow> unit gm" where
  "add_ethernet env meta starter start driver host_mac kvm_mac =
     (let func = (if driver = ''rndis5'' then ''rndis'' else driver) @ ''.usb0'' in
     bindS (create_function func) (\<lambda>_.
     bindS (whenS (host_mac \<noteq> []) (writes env func [([''host_addr''], FText host_mac)])) (\<lambda>_.
     bindS (whenS (kvm_mac \<noteq> []) (writes env func [([''dev_addr''], FText kvm_mac)])) (\<lambda>_.
     bindS (whenS (driver \<in> {''ncm'', ''rndis''})
       (bindS (g_write env (gadget_path [''os_desc'', ''use'']) (FText ''1'') False) (\<lambda>_.
        bindS (g_write env (gadget_path [''os_desc'', ''b_vendor_code'']) (FText ''0xCD'') False) (\<lambda>_.
        bindS (g_write env (gadget_path [''os_desc'', ''qw_sign'']) (FText ''MSFT100'') False) (\<lambda>_.
        bindS (if driver = ''ncm'' then writes env func [([''os_desc'', ''interface.ncm'', ''compatible_id''], FText ''WINNCM'')]
          else writes env func [([''os_desc'', ''interface.rndis'', ''compatible_id''], FText ''RNDIS''),
            ([''os_desc'', ''interface.rndis'', ''sub_compatible_id''], FText ''5162001'')]) (\<lambda>_.
        g_symlink (profile_path []) (gadget_path [''os_desc'', G_PROFILE_NAME]))))))) (\<lambda>_.
     setup_function env meta func ''Ethernet'' 3 starter start)))))"

definition add_audio :: "gadget_env \<Rightarrow> path \<Rightarrow> string list \<Rightarrow> bool \<Rightarrow> bool \<Rightarrow> bool \<Rightarrow> unit gm" where
  "add_audio env meta starter start speakers mic = assertS (speakers \<or> mic)
     (let func = ''uac2.usb0''; desc = (if speakers then [''Speakers''] else []) @ (if mic then [''Microphone''] else []);
          channel = (\<lambda>c on. if on then [([c # ''_chmask''], FInt 3), ([c # ''_srate''], FInt 48000), ([c # ''_ssize''], FInt 2)]
            else [([c # ''_chmask''], FInt 0)]) in
      bindS (create_function func) (\<lambda>_.
      bindS (writes env func (channel CHR ''c'' speakers)) (\<lambda>_.
      bindS (writes env func (channel CHR ''p'' mic)) (\<lambda>_.
      setup_function env meta func (concat (tl (concat (map (\<lambda>d. [''+'', d]) desc)))) (int (length desc) + 1) starter start))))"

definition camera_formats :: "(nat \<times> nat \<times> nat list) list" where
  "camera_formats = map (\<lambda>(w, h). (w, h, [30, 24, 20, 15, 10, 5]))
     [(1280, 720), (1024, 768), (1024, 576), (960, 720), (800, 600), (640, 480), (640, 360), (320, 240), (320, 180)]"

definition add_camera_format :: "gadget_env \<Rightarrow> bool \<Rightarrow> nat \<times> nat \<times> nat list \<Rightarrow> unit gm" where
  "add_camera_format env safe fmt = (case fmt of (width, height, framerates) \<Rightarrow>
     whenS (\<not> (framerates = [] \<or> (safe \<and> width > 640)))
       (let fmt_path = [''streaming'', ''mjpeg'', ''m'', nat_str width @ ''x'' @ nat_str height] in
        bindS (g_mkdir (func_path ''uvc.usb0'' fmt_path)) (\<lambda>_.
        writes env ''uvc.usb0'' [(fmt_path @ [''wWidth''], FInt (int width)), (fmt_path @ [''wHeight''], FInt (int height)),
          (fmt_path @ [''dwMaxVideoFrameBufferSize''], FInt (int (width * height))),
          (fmt_path @ [''dwFrameInterval''], FLines (map (\<lambda>fps. 10000000 div int fps) framerates))])))"

definition to_bytes :: "int \<Rightarrow> nat \<Rightarrow> bytes result" where
  "to_bytes v n = (if 0 \<le> v \<and> v < 256 ^ n then Inr (to_le n v) else Inl OverflowError)"

definition add_camera :: "gadget_env \<Rightarrow> path \<Rightarrow> string list \<Rightarrow> bool \<Rightarrow> bool \<Rightarrow> int \<Rightarrow> int \<Rightarrow> unit gm" where
  "add_camera env meta starter start safe ct_mask pu_mask =
     (let func = ''uvc.usb0''; fp = func_path func in
     bindS (create_function func) (\<lambda>_.
     bindS (g_mkdir (fp [''streaming'', ''mjpeg'', ''m''])) (\<lambda>_.
     bindS (forS camera_formats (add_camera_format env safe)) (\<lambda>_.
     bindS (g_mkdir (fp [''streaming'', ''header'', ''h''])) (\<lambda>_.
     bindS (g_symlink (fp [''streaming'', ''mjpeg'', ''m'']) (fp [''streaming'', ''header'', ''h'', ''m''])) (\<lambda>_.
     bindS (forS (ge_speeds env ''streaming'') (\<lambda>speed.
       g_symlink (fp [''streaming'', ''header'', ''h'']) (fp [''streaming'', ''class'', speed, ''h'']))) (\<lambda>_.
     bindS (g_mkdir (fp [''control'', ''header'', ''h''])) (\<lambda>_.
     bindS (forS (ge_speeds env ''control'') (\<lambda>speed.
       g_symlink (fp [''control'', ''header'', ''h'']) (fp [''control'', ''class'', speed, ''h'']))) (\<lambda>_.
     bindS (liftS (to_bytes ct_mask 3)) (\<lambda>ct.
     bindS (g_write env (fp [''control'', ''terminal'', ''camera'', ''default'', ''bmControls'']) (FLines ct) False) (\<lambda>_.
     bindS (liftS (to_bytes pu_mask 2)) (\<lambda>pu.
     bindS (g_write env (fp [''control'', ''processing'', ''default'', ''bmControls'']) (FLines pu) False) (\<lambda>_.
     bindS (writes env func [([''streaming_maxpacket''], FInt 1024), ([''streaming_interval''], FInt 4)]) (\<lambda>_.
     setup_function env meta func ''Camera'' 2 starter start))))))))))))))"

section \<open>Start and stop\<close>

record inquiry =
  iq_vendor :: "string option"
  iq_product :: string
  iq_revision :: string

record otg_config =
  oc_udc :: string
  oc_vendor_id :: int
  oc_product_id :: int
  oc_usb_version :: int
  oc_device_version :: int
  oc_manufacturer :: string
  oc_product :: string
  oc_serial :: "string option"
  oc_config :: "string option"
  oc_max_power :: int
  oc_remote_wakeup :: bool
  oc_meta :: path
  oc_endpoints :: int
  oc_user :: string
  oc_hid_type :: string
  oc_msd_type :: string
  oc_keyboard_start :: bool
  oc_mouse_start :: bool
  oc_mouse_alt_start :: bool
  oc_mouse_absolute :: bool
  oc_mouse_hwheel :: bool
  oc_mouse_alt :: string
  oc_msd_start :: bool
  oc_msd :: msd_options
  oc_msd_inquiry :: "inquiry \<times> inquiry"
  oc_drives :: bool
  oc_drives_start :: bool
  oc_drives_count :: nat
  oc_drive :: msd_options
  oc_drive_inquiry :: "inquiry \<times> inquiry"
  oc_ethernet :: bool
  oc_ethernet_start :: bool
  oc_ethernet_driver :: string
  oc_host_mac :: string
  oc_kvm_mac :: string
  oc_serial_port :: bool
  oc_serial_port_start :: bool
  oc_audio :: bool
  oc_audio_start :: bool
  oc_speakers :: bool
  oc_mic :: bool
  oc_camera :: bool
  oc_camera_start :: bool
  oc_camera_safe :: bool
  oc_ct_mask :: int
  oc_pu_mask :: int

definition find_udc :: "gadget_env \<Rightarrow> string \<Rightarrow> string result" where
  "find_udc env udc = (let candidates = sort (ge_udcs env) in
     if udc = [] then (if candidates = [] then Inl RuntimeError else Inr (hd candidates))
     else if udc \<in> set candidates then Inr udc else Inl RuntimeError)"

text \<open>\<open>"%-8.8s%-16.16s%-4.4s"\<close>\<close>

definition column :: "nat \<Rightarrow> string \<Rightarrow> string" where
  "column n s = take n s @ replicate (n - length s) CHR '' ''"

definition make_inquiry_string :: "otg_config \<Rightarrow> inquiry \<Rightarrow> string" where
  "make_inquiry_string c iq =
     column 8 (case iq_vendor iq of None \<Rightarrow> oc_manufacturer c | Some v \<Rightarrow> v) @ column 16 (iq_product iq) @ column 4 (iq_revision iq)"

definition check_config :: "otg_config \<Rightarrow> bool" where
  "check_config c = (oc_camera c \<or> \<not> (oc_audio c \<and> (oc_speakers c \<or> oc_mic c)) \<or> \<not> oc_serial_port c \<or> \<not> oc_ethernet c
     \<or> oc_hid_type c \<noteq> ''otg'' \<or> oc_msd_type c \<noteq> ''otg'')"

definition device_version :: "otg_config \<Rightarrow> int" where
  "device_version c = (if oc_device_version c < 0 then
       (if oc_ethernet c then (if oc_ethernet_driver c = ''ncm'' then 0x0102 else if oc_ethernet_driver c = ''rndis'' then 0x0101 else 0x0100)
        else 0x0100)
     else oc_device_version c)"

definition lang_path :: "path \<Rightarrow> path" where
  "lang_path p = gadget_path ([''strings'', ''0x409''] @ p)"

definition start_device :: "gadget_env \<Rightarrow> otg_config \<Rightarrow> unit gm" where
  "start_device env c = (let w = (\<lambda>p v. g_write env p v False) in
     bindS (g_mkdir (gadget_path [])) (\<lambda>_.
     bindS (w (gadget_path [''idVendor'']) (FHex4 (oc_vendor_id c))) (\<lambda>_.
     bindS (w (gadget_path [''idProduct'']) (FHex4 (oc_product_id c))) (\<lambda>_.
     bindS (w (gadget_path [''bcdUSB'']) (FHex4 (oc_usb_version c))) (\<lambda>_.
     bindS (w (gadget_path [''bcdDevice'']) (FHex4 (device_version c))) (\<lambda>_.
     bindS (g_mkdir (lang_path [])) (\<lambda>_.
     bindS (w (lang_path [''manufacturer'']) (FText (oc_manufacturer c))) (\<lambda>_.
     bindS (w (lang_path [''product'']) (FText (oc_product c))) (\<lambda>_.
     case oc_serial c of None \<Rightarrow> retS () | Some s \<Rightarrow> w (lang_path [''serialnumber'']) (FText s))))))))))"

definition start_profile :: "gadget_env \<Rightarrow> otg_config \<Rightarrow> unit gm" where
  "start_profile env c = (let w = (\<lambda>p v. g_write env p v False) in
     bindS (g_mkdir (profile_path [])) (\<lambda>_.
     bindS (case oc_config c of None \<Rightarrow> retS () | Some t \<Rightarrow>
       bindS (g_mkdir (profile_path [''strings'', ''0x409''])) (\<lambda>_. w (profile_path [''strings'', ''0x409'', ''configuration'']) (FText t))) (\<lambda>_.
     bindS (w (profile_path [''MaxPower'']) (FInt (oc_max_power c))) (\<lambda>_.
     whenS (oc_remote_wakeup c) (w (profile_path [''bmAttributes'']) (FText ''0xA0''))))))"

definition gadget_config :: "path \<Rightarrow> int \<Rightarrow> unit gm" where
  "gadget_config meta eps_max =
     bindS (modifyS (\<lambda>s. s\<lparr>gd_eps_max := eps_max, gd_eps_used := 0, gd_hid_instance := 0, gd_msd_instance := 0\<rparr>)) (\<lambda>_. g_mkdir meta)"

definition start_hid :: "gadget_env \<Rightarrow> otg_config \<Rightarrow> unit gm" where
  "start_hid env c = whenS (oc_hid_type c = ''otg'')
     (bindS (add_keyboard env (oc_meta c) [''hid'', ''keyboard''] (oc_keyboard_start c) (oc_remote_wakeup c)) (\<lambda>_.
      bindS (add_mouse env (oc_meta c) [''hid'', ''mouse''] (oc_mouse_start c) (oc_remote_wakeup c) (oc_mouse_absolute c) (oc_mouse_hwheel c)) (\<lambda>_.
      whenS (oc_mouse_alt c \<noteq> [])
        (add_mouse env (oc_meta c) [''hid'', ''mouse_alt''] (oc_mouse_alt_start c) (oc_remote_wakeup c) (\<not> oc_mouse_absolute c) (oc_mouse_hwheel c)))))"

definition start_msd :: "gadget_env \<Rightarrow> otg_config \<Rightarrow> unit gm" where
  "start_msd env c = whenS (oc_msd_type c = ''otg'')
     (bindS (add_msd env (oc_meta c) [''msd''] (oc_msd_start c) (oc_user c) (oc_msd c)
        (make_inquiry_string c (fst (oc_msd_inquiry c))) (make_inquiry_string c (snd (oc_msd_inquiry c)))) (\<lambda>_.
      whenS (oc_drives c) (forS [0..<oc_drives_count c] (\<lambda>_.
        add_msd env (oc_meta c) [''drives''] (oc_drives_start c) ''root'' ((oc_drive c)\<lparr>mo_image_path := []\<rparr>)
          (make_inquiry_string c (fst (oc_drive_inquiry c))) (make_inquiry_string c (snd (oc_drive_inquiry c)))))))"

definition start_others :: "gadget_env \<Rightarrow> otg_config \<Rightarrow> unit gm" where
  "start_others env c =
     bindS (whenS (oc_ethernet c) (add_ethernet env (oc_meta c) [''ethernet''] (oc_ethernet_start c) (oc_ethernet_driver c) (oc_host_mac c) (oc_kvm_mac c))) (\<lambda>_.
     bindS (whenS (oc_serial_port c) (add_serial env (oc_meta c) [''serial''] (oc_serial_port_start c))) (\<lambda>_.
     bindS (whenS (oc_audio c \<and> (oc_speakers c \<or> oc_mic c)) (add_audio env (oc_meta c) [''audio''] (oc_audio_start c) (oc_speakers c) (oc_mic c))) (\<lambda>_.
     whenS (oc_camera c) (add_camera env (oc_meta c) [''camera''] (oc_camera_start c) (oc_camera_safe c) (oc_ct_mask c) (oc_pu_mask c)))))"

definition start_functions :: "gadget_env \<Rightarrow> otg_config \<Rightarrow> unit gm" where
  "start_functions env c = bindS (start_hid env c) (\<lambda>_. bindS (start_msd env c) (\<lambda>_. start_others env c))"

definition cmd_start :: "gadget_env \<Rightarrow> otg_config \<Rightarrow> unit gm" where
  "cmd_start env c = (if \<not> check_config c then retS () else getS (\<lambda>s.
     if gadget_path [] \<in> set (gd_dirs s) then retS ()
     else bindS (liftS (find_udc env (oc_udc c))) (\<lambda>udc.
       bindS (start_device env c) (\<lambda>_.
       bindS (start_profile env c) (\<lambda>_.
       bindS (gadget_config (oc_meta c) (oc_endpoints c)) (\<lambda>_.
       bindS (start_functions env c) (\<lambda>_.
       bindS (g_write env (gadget_path [''UDC'']) (FText udc) False) (\<lambda>_.
       bindS (g_chown env (gadget_path [''UDC'']) (oc_user c)) (\<lambda>_.
       g_chown env (profile_path []) (oc_user c))))))))))"

text \<open>\<open>re.search(r"\.usb\d+$", func)\<close>\<close>

definition is_usb_name :: "string \<Rightarrow> bool" where
  "is_usb_name f = (let r = rev f; ds = takeWhile (\<lambda>ch. ch \<in> set ''0123456789'') r; rest = dropWhile (\<lambda>ch. ch \<in> set ''0123456789'') r
     in ds \<noteq> [] \<and> take 4 rest = ''bsu.'')"

definition stop_camera :: "gadget_env \<Rightarrow> path \<Rightarrow> unit gm" where
  "stop_camera env u =
     bindS (forS (ge_speeds env ''control'') (\<lambda>speed. g_unlink (u @ [''control'', ''class'', speed, ''h'']) False)) (\<lambda>_.
     bindS (g_rmdir (u @ [''control'', ''header'', ''h''])) (\<lambda>_.
     bindS (forS (ge_speeds env ''streaming'') (\<lambda>speed. g_unlink (u @ [''streaming'', ''class'', speed, ''h'']) False)) (\<lambda>_.
     bindS (g_unlink (u @ [''streaming'', ''header'', ''h'', ''m'']) False) (\<lambda>_.
     bindS (g_rmdir (u @ [''streaming'', ''header'', ''h''])) (\<lambda>_.
     bindS (getS (\<lambda>s. forS (entries (gd_dirs s) (u @ [''streaming'', ''mjpeg'', ''m''])) (\<lambda>res. g_rmdir (u @ [''streaming'', ''mjpeg'', ''m'', res])))) (\<lambda>_.
     g_rmdir (u @ [''streaming'', ''mjpeg'', ''m''])))))))"

definition stop_function :: "gadget_env \<Rightarrow> string \<Rightarrow> unit gm" where
  "stop_function env func = whenS (is_usb_name func)
     (bindS (whenS (take 4 func = ''uvc.'') (stop_camera env (func_path func []))) (\<lambda>_. g_rmdir (func_path func [])))"

text \<open>The write to \<open>UDC\<close> fails with \<open>ENODEV\<close> when no device was bound, and only that is ignored.\<close>

definition unbind_udc :: "gadget_env \<Rightarrow> unit gm" where
  "unbind_udc env = (if ge_no_device env then retS () else g_write env (gadget_path [''UDC'']) (FText [CHR 0x0A]) False)"

definition cmd_stop :: "gadget_env \<Rightarrow> otg_config \<Rightarrow> unit gm" where
  "cmd_stop env c = getS (\<lambda>s. whenS (gadget_path [] \<in> set (gd_dirs s))
     (bindS (unbind_udc env) (\<lambda>_.
      bindS (g_unlink (gadget_path [''os_desc'', G_PROFILE_NAME]) True) (\<lambda>_.
      bindS (getS (\<lambda>s. forS (entries (map fst (gd_links s)) (profile_path [])) (\<lambda>func.
        whenS (is_usb_name func) (g_unlink (profile_path [func]) False)))) (\<lambda>_.
      bindS (g_rmdir (profile_path [''strings'', ''0x409''])) (\<lambda>_.
      bindS (g_rmdir (profile_path [])) (\<lambda>_.
      bindS (getS (\<lambda>s. forS (entries (gd_dirs s) (gadget_path [''functions''])) (stop_function env))) (\<lambda>_.
      bindS (g_rmdir (lang_path [])) (\<lambda>_.
      bindS (g_rmdir (gadget_path [])) (\<lambda>_.
      bindS (getS (\<lambda>s. forS (entries (map fst (gd_files s)) (oc_meta c)) (\<lambda>m. g_unlink (oc_meta c @ [m]) False))) (\<lambda>_.
      g_rmdir (oc_meta c))))))))))))"

end
