(* ===== verification/OtgLife.thy ===== *)
theory OtgLife
  imports OtgGadget
begin

text \<open>
  What the scripts of the gadget promise: stopping undoes starting, whatever is configured; and the
  configurations that are not served.
\<close>

section \<open>Names\<close>

lemma digit_chars: "map digit_of [0, 1, 2, 3, 4, 5, 6, 7, 8, 9] = ''0123456789''"
  by code_simp

lemma digit_of_mem: "k < 10 \<Longrightarrow> digit_of k \<in> set ''0123456789''"
proof -
  assume "k < 10"
  then have "k \<in> set [0, 1, 2, 3, 4, 5, 6, 7, 8, 9]" by auto
  then have "digit_of k \<in> set (map digit_of [0, 1, 2, 3, 4, 5, 6, 7, 8, 9])" by (simp only: set_map imageI)
  then show ?thesis by (simp only: digit_chars)
qed

lemma nat_str_digits: "set (nat_str n) \<subseteq> set ''0123456789''"
proof (induction n rule: nat_str.induct)
  case (1 n)
  show ?case
  proof (cases "n < 10")
    case True
    then have "nat_str n = [digit_of n]" by (simp add: nat_str.simps [of n])
    then show ?thesis using digit_of_mem [OF True] by (simp only: set_simps) blast
  next
    case False
    then have "nat_str n = nat_str (n div 10) @ [digit_of (n mod 10)]" by (simp add: nat_str.simps [of n])
    then show ?thesis using 1 [OF False] digit_of_mem [of "n mod 10"] by (simp only: set_append set_simps) auto
  qed
qed

lemma usb_name:
  assumes "ds \<noteq> []" "set ds \<subseteq> set ''0123456789''"
  shows "is_usb_name (f @ ''.usb'' @ ds)"
proof -
  let ?d = "\<lambda>ch. ch \<in> set ''0123456789''"
  have all: "\<forall>x \<in> set (rev ds). ?d x" using assms(2) by (simp only: set_rev) blast
  have "takeWhile ?d (rev ds @ CHR ''b'' # r) = rev ds" "dropWhile ?d (rev ds @ CHR ''b'' # r) = CHR ''b'' # r" for r
    using all by (simp_all only: takeWhile_append2 dropWhile_append2) simp_all
  then show ?thesis using assms(1) by (simp add: is_usb_name_def Let_def)
qed

lemma usb_names:
  "is_usb_name (''hid.usb'' @ nat_str n)" "is_usb_name (''mass_storage.usb'' @ nat_str n)"
  "is_usb_name (f @ ''.usb0'')" "is_usb_name ''acm.usb0''" "is_usb_name ''uac2.usb0''" "is_usb_name ''uvc.usb0''"
  using usb_name [of "nat_str n" "''hid''"] usb_name [of "nat_str n" "''mass_storage''"] usb_name [of "''0''" f]
    usb_name [of "''0''" "''acm''"] usb_name [of "''0''" "''uac2''"] usb_name [of "''0''" "''uvc''"] nat_str_first [of n] nat_str_digits [of n]
  by simp_all

section \<open>What a gadget consists of\<close>

definition inside :: "path \<Rightarrow> path \<Rightarrow> bool" where
  "inside meta p = (take 1 p = [GADGET] \<or> p = meta \<or> below meta p)"

definition usb_func :: "otg_config \<Rightarrow> string \<Rightarrow> bool" where
  "usb_func c f = (is_usb_name f \<and> (take 4 f = ''uvc.'' \<longrightarrow> f = ''uvc.usb0'' \<and> oc_camera c))"

definition uvc :: "path \<Rightarrow> path" where
  "uvc p = func_path ''uvc.usb0'' p"

definition camera_dirs :: "path set" where
  "camera_dirs = {uvc [''streaming'', ''mjpeg'', ''m''], uvc [''streaming'', ''header'', ''h''], uvc [''control'', ''header'', ''h'']}
     \<union> range (\<lambda>x. uvc [''streaming'', ''mjpeg'', ''m'', x])"

definition camera_links :: "gadget_env \<Rightarrow> (path \<times> path) set" where
  "camera_links env = {(uvc [''streaming'', ''header'', ''h'', ''m''], uvc [''streaming'', ''mjpeg'', ''m''])}
     \<union> (\<lambda>speed. (uvc [''streaming'', ''class'', speed, ''h''], uvc [''streaming'', ''header'', ''h''])) ` set (ge_speeds env ''streaming'')
     \<union> (\<lambda>speed. (uvc [''control'', ''class'', speed, ''h''], uvc [''control'', ''header'', ''h''])) ` set (ge_speeds env ''control'')"

definition func_dirs :: "string set \<Rightarrow> path set" where
  "func_dirs fs = (\<lambda>f. func_path f []) ` fs \<union> (if ''uvc.usb0'' \<in> fs then camera_dirs else {})"

definition func_links :: "gadget_env \<Rightarrow> string set \<Rightarrow> (path \<times> path) set" where
  "func_links env fs = (if ''uvc.usb0'' \<in> fs then camera_links env else {})"

definition base_dirs :: "path \<Rightarrow> path set" where
  "base_dirs meta = {gadget_path [], lang_path [], meta}"

definition profile_dirs :: "path set" where
  "profile_dirs = {profile_path [], profile_path [''strings'', ''0x409'']}"

definition profile_links :: "string set \<Rightarrow> (path \<times> path) set" where
  "profile_links fs = {(gadget_path [''os_desc'', G_PROFILE_NAME], profile_path [])} \<union> (\<lambda>f. (profile_path [f], func_path f [])) ` fs"

definition meta_files :: "path \<Rightarrow> path set" where
  "meta_files meta = range (\<lambda>x. meta @ [x])"

text \<open>Everything inside is of the given directories, links and files, and the outside is as it was.\<close>

definition holds_only :: "path \<Rightarrow> gadget \<Rightarrow> path set \<Rightarrow> (path \<times> path) set \<Rightarrow> path set \<Rightarrow> gadget \<Rightarrow> bool" where
  "holds_only meta s0 D L F s =
     (filter (\<lambda>p. \<not> inside meta p) (gd_dirs s) = gd_dirs s0
      \<and> filter (\<lambda>(d, t). \<not> inside meta d) (gd_links s) = gd_links s0
      \<and> filter (\<lambda>(f, v). \<not> inside meta f) (gd_files s) = gd_files s0
      \<and> (\<forall>p \<in> set (gd_dirs s). inside meta p \<longrightarrow> p \<in> D)
      \<and> (\<forall>x \<in> set (gd_links s). inside meta (fst x) \<longrightarrow> x \<in> L)
      \<and> (\<forall>x \<in> set (gd_files s). inside meta (fst x) \<longrightarrow> fst x \<in> F)
      \<and> dict_wf (gd_links s) \<and> dict_wf (gd_files s) \<and> distinct (gd_dirs s))"

definition gadget_files :: "path set" where
  "gadget_files = {f. below [GADGET] f}"

definition clean :: "path \<Rightarrow> gadget \<Rightarrow> bool" where
  "clean meta s = (list_all (\<lambda>p. \<not> inside meta p) (gd_dirs s) \<and> list_all (\<lambda>(d, t). \<not> inside meta d \<and> \<not> inside meta t) (gd_links s)
     \<and> list_all (\<lambda>(f, v). \<not> inside meta f) (gd_files s) \<and> dict_wf (gd_links s) \<and> dict_wf (gd_files s) \<and> distinct (gd_dirs s))"

definition meta_ok :: "path \<Rightarrow> bool" where
  "meta_ok meta = (meta \<noteq> [] \<and> hd meta \<noteq> GADGET)"

lemma inside_gadget [simp]:
  "inside meta (gadget_path p)" "inside meta (profile_path p)" "inside meta (func_path f p)" "inside meta (lang_path p)"
  "inside meta (uvc p)" "inside meta meta" "inside meta (meta @ [x])"
  by (simp_all add: inside_def gadget_path_def profile_path_def func_path_def lang_path_def uvc_def below_def)

lemma clean_holds: "clean meta s \<Longrightarrow> holds_only meta s D L F s"
  by (auto simp: clean_def holds_only_def list_all_iff filter_id_conv)

section \<open>Starting\<close>

lemma keeps_mkdir:
  "inside meta p \<Longrightarrow> p \<in> D \<Longrightarrow> keeps (holds_only meta s0 D L F) (g_mkdir p)"
  by (auto simp: keeps_def g_mkdir_def sm_defs holds_only_def)

lemma filter_update_inside:
  "P k \<Longrightarrow> filter (\<lambda>(k, v). \<not> P k) (AList.update k v d) = filter (\<lambda>(k, v). \<not> P k) d"
  by (induction d) auto

lemma set_update: "dict_wf d \<Longrightarrow> x \<in> set (AList.update k v d) \<Longrightarrow> x = (k, v) \<or> x \<in> set d"
  by (induction d) (auto simp: dict_wf_def split: if_splits)

lemma keeps_symlink:
  "inside meta dest \<Longrightarrow> (dest, src) \<in> L \<Longrightarrow> keeps (holds_only meta s0 D L F) (g_symlink src dest)"
  unfolding g_symlink_def
  by (intro keeps_getS_in keeps_if keeps_raiseS keeps_modifyS)
     (auto simp: holds_only_def filter_update_inside [where P = "inside meta"] dest!: set_update)

lemma keeps_write:
  "inside meta p \<Longrightarrow> p \<in> F \<Longrightarrow> keeps (holds_only meta s0 D L F) (g_write env p v optional)"
  unfolding g_write_def
  by (intro keeps_if keeps_raiseS keeps_retS keeps_modifyS)
     (auto simp: holds_only_def filter_update_inside [where P = "inside meta"] dest!: set_update)

lemma keeps_chown [keeps_rules]: "keeps (holds_only meta s0 D L F) (g_chown env p user)"
  unfolding g_chown_def by (intro keeps_rules keeps_modifyS) (simp add: holds_only_def)

abbreviation starting :: "gadget_env \<Rightarrow> otg_config \<Rightarrow> gadget \<Rightarrow> gadget \<Rightarrow> bool" where
  "starting env c s0 \<equiv> holds_only (oc_meta c) s0 (base_dirs (oc_meta c) \<union> profile_dirs \<union> func_dirs {f. usb_func c f})
     (profile_links {f. usb_func c f} \<union> func_links env {f. usb_func c f}) (gadget_files \<union> meta_files (oc_meta c))"

lemma gadget_file [simp]:
  "p \<noteq> [] \<Longrightarrow> gadget_path p \<in> gadget_files" "func_path f p \<in> gadget_files" "profile_path p \<in> gadget_files"
  "lang_path p \<in> gadget_files" "meta @ [x] \<in> meta_files meta"
  by (auto simp: gadget_files_def gadget_path_def func_path_def profile_path_def lang_path_def below_def meta_files_def)

lemma named_dirs [simp]:
  "gadget_path [] \<in> base_dirs meta" "lang_path [] \<in> base_dirs meta" "meta \<in> base_dirs meta"
  "profile_path [] \<in> profile_dirs" "profile_path [''strings'', ''0x409''] \<in> profile_dirs"
  by (simp_all add: base_dirs_def profile_dirs_def)

lemma keeps_gadget_writes [keeps_rules]:
  "p \<noteq> [] \<Longrightarrow> keeps (starting env c s0) (g_write env' (gadget_path p) v b)"
  "keeps (starting env c s0) (g_write env' (func_path f p) v b)" "keeps (starting env c s0) (g_write env' (profile_path p) v b)"
  "keeps (starting env c s0) (g_write env' (lang_path p) v b)"
  "keeps (starting env c s0) (g_write env' (oc_meta c @ [x]) v b)"
  by (rule keeps_write; simp)+

lemma keeps_write_pair [keeps_rules]:
  "keeps (starting env c s0) (case x of (p, v) \<Rightarrow> g_write env' (func_path f p) v b)"
  by (auto intro: keeps_rules split: prod.split)

lemma keeps_create [keeps_rules]: "usb_func c f \<Longrightarrow> keeps (starting env c s0) (create_function f)"
  unfolding create_function_def by (rule keeps_mkdir) (simp_all add: func_dirs_def)

lemma keeps_counters [keeps_rules]:
  "keeps (starting env c s0) (modifyS (\<lambda>s. s\<lparr>gd_eps_used := f s\<rparr>))"
  "keeps (starting env c s0) (modifyS (\<lambda>s. s\<lparr>gd_hid_instance := g s\<rparr>))"
  "keeps (starting env c s0) (modifyS (\<lambda>s. s\<lparr>gd_msd_instance := g s\<rparr>))"
  by (intro keeps_modifyS; simp add: holds_only_def)+

lemma keeps_setup [keeps_rules]: "usb_func c f \<Longrightarrow> keeps (starting env c s0) (setup_function env' (oc_meta c) f desc eps starter b)"
  unfolding setup_function_def add_meta_def start_function_def
  by (intro keeps_rules keeps_symlink) (simp_all add: profile_links_def)

lemma usb_func_names:
  "usb_func c (''hid.usb'' @ nat_str n)" "usb_func c (''mass_storage.usb'' @ nat_str n)" "usb_func c ''acm.usb0''"
  "usb_func c ''uac2.usb0''" "usb_func c ''uvc.usb0'' = oc_camera c"
  by (unfold usb_func_def, insert usb_names, auto)

lemmas usb_func_simps [simp] = usb_func_names [simplified]

lemma keeps_hid [keeps_rules]: "keeps (starting env c s0) (add_hid env' (oc_meta c) desc starter b w h)"
  unfolding add_hid_def Let_def by (intro keeps_rules) simp_all

lemma keeps_hids [keeps_rules]:
  "keeps (starting env c s0) (add_keyboard env' (oc_meta c) starter b w)"
  "keeps (starting env c s0) (add_mouse env' (oc_meta c) starter b w absolute hwheel)"
  unfolding add_keyboard_def add_mouse_def by (intro keeps_rules)+

lemma keeps_msd [keeps_rules]: "keeps (starting env c s0) (add_msd env' (oc_meta c) starter b user mo iq1 iq2)"
  unfolding add_msd_def Let_def by (intro keeps_rules) simp_all

definition drivers :: "string list" where
  "drivers = [''ecm'', ''eem'', ''ncm'', ''rndis'', ''rndis5'']"

lemma keeps_ethernet [keeps_rules]:
  assumes "driver \<in> set drivers"
  shows "keeps (starting env c s0) (add_ethernet env' (oc_meta c) starter b driver m1 m2)"
proof -
  have "usb_func c ((if driver = ''rndis5'' then ''rndis'' else driver) @ ''.usb0'')"
    using assms usb_names(3) by (fastforce simp: usb_func_def drivers_def)
  then show ?thesis unfolding add_ethernet_def Let_def
    by (intro keeps_rules keeps_symlink) (simp_all add: profile_links_def)
qed

lemma keeps_others [keeps_rules]:
  "keeps (starting env c s0) (add_serial env' (oc_meta c) starter b)"
  "keeps (starting env c s0) (add_audio env' (oc_meta c) starter b speakers mic)"
  unfolding add_serial_def add_audio_def Let_def by (intro keeps_rules; simp)+

lemma keeps_camera:
  assumes "oc_camera c"
  shows "keeps (starting env c s0) (add_camera env (oc_meta c) starter b safe ct pu)"
proof -
  have dirs: "func_path ''uvc.usb0'' [''streaming'', ''mjpeg'', ''m''] \<in> func_dirs {f. usb_func c f}"
    "func_path ''uvc.usb0'' [''streaming'', ''mjpeg'', ''m'', x] \<in> func_dirs {f. usb_func c f}"
    "func_path ''uvc.usb0'' [''streaming'', ''header'', ''h''] \<in> func_dirs {f. usb_func c f}"
    "func_path ''uvc.usb0'' [''control'', ''header'', ''h''] \<in> func_dirs {f. usb_func c f}" for x
    using assms by (auto simp: func_dirs_def camera_dirs_def uvc_def)
  have links: "(func_path ''uvc.usb0'' [''streaming'', ''header'', ''h'', ''m''], func_path ''uvc.usb0'' [''streaming'', ''mjpeg'', ''m'']) \<in> func_links env {f. usb_func c f}"
    "speed \<in> set (ge_speeds env ''streaming'') \<Longrightarrow>
       (func_path ''uvc.usb0'' [''streaming'', ''class'', speed, ''h''], func_path ''uvc.usb0'' [''streaming'', ''header'', ''h'']) \<in> func_links env {f. usb_func c f}"
    "speed \<in> set (ge_speeds env ''control'') \<Longrightarrow>
       (func_path ''uvc.usb0'' [''control'', ''class'', speed, ''h''], func_path ''uvc.usb0'' [''control'', ''header'', ''h'']) \<in> func_links env {f. usb_func c f}"
    for speed using assms by (auto simp: func_links_def camera_links_def uvc_def)
  have "keeps (starting env c s0) (add_camera_format env safe fmt)" for fmt
    unfolding add_camera_format_def Let_def using dirs(2) by (auto intro!: keeps_rules keeps_mkdir split: prod.splits)
  then show ?thesis unfolding add_camera_def Let_def
    by (intro keeps_rules keeps_mkdir keeps_symlink) (use assms dirs links in simp_all)
qed

lemma keeps_start_functions:
  "oc_ethernet_driver c \<in> set drivers \<Longrightarrow> keeps (starting env c s0) (start_functions env c)"
  unfolding start_functions_def start_hid_def start_msd_def start_others_def by (intro keeps_rules keeps_camera)

lemma keeps_start_device: "keeps (starting env c s0) (start_device env' c)"
  unfolding start_device_def Let_def
  by (cases "oc_serial c"; simp only: option.case; intro keeps_rules keeps_mkdir; simp)

lemma keeps_start_profile: "keeps (starting env c s0) (start_profile env' c)"
  unfolding start_profile_def Let_def
  by (cases "oc_config c"; simp only: option.case; intro keeps_rules keeps_mkdir; simp)

lemma keeps_gadget_config: "keeps (starting env c s0) (gadget_config (oc_meta c) n)"
  unfolding gadget_config_def
  by (intro keeps_rules keeps_mkdir keeps_modifyS) (simp_all add: holds_only_def)

lemma keeps_cmd_start: "oc_ethernet_driver c \<in> set drivers \<Longrightarrow> keeps (starting env c s0) (cmd_start env c)"
  unfolding cmd_start_def
  by (intro keeps_rules keeps_start_device keeps_start_profile keeps_gadget_config keeps_start_functions) simp_all

subsection \<open>What a start leaves\<close>

definition gives :: "('s, 'a) sm \<Rightarrow> ('s \<Rightarrow> bool) \<Rightarrow> bool" where
  "gives m Q = (\<forall>s a t. m s = (Inr a, t) \<longrightarrow> Q t)"

lemma gives_later: "(\<And>a. gives (f a) Q) \<Longrightarrow> gives (bindS m f) Q"
  by (auto simp: gives_def bindS_Inr_iff)

lemma gives_now: "gives m Q \<Longrightarrow> (\<And>a. keeps Q (f a)) \<Longrightarrow> gives (bindS m f) Q"
  unfolding gives_def bindS_Inr_iff by (blast dest: keepsE)

lemma givesD: "gives m Q \<Longrightarrow> m s = (Inr a, t) \<Longrightarrow> Q t"
  unfolding gives_def by blast

abbreviation has_link :: "path \<Rightarrow> gadget \<Rightarrow> bool" where
  "has_link l s \<equiv> dict_has (gd_links s) l"

abbreviation has_dir :: "path \<Rightarrow> gadget \<Rightarrow> bool" where
  "has_dir d s \<equiv> d \<in> set (gd_dirs s)"

lemma gives_symlink: "gives (g_symlink src dest) (has_link dest)"
  by (auto simp: gives_def g_symlink_def sm_defs dict_has_def split: if_splits)

lemma gives_mkdir: "gives (g_mkdir p) (has_dir p)"
  by (auto simp: gives_def g_mkdir_def sm_defs split: if_splits)

lemma grows_link [keeps_rules]:
  "keeps (has_link l) (g_mkdir p)" "keeps (has_link l) (g_symlink src dest)" "keeps (has_link l) (g_write env q v b)"
  "keeps (has_link l) (g_chown env q user)" "keeps (has_link l) (modifyS (\<lambda>s. s\<lparr>gd_eps_used := f s\<rparr>))"
  by (auto simp: keeps_def g_mkdir_def g_symlink_def g_write_def g_chown_def sm_defs dict_has_def)

lemma grows_dir [keeps_rules]:
  "keeps (has_dir d) (g_mkdir p)" "keeps (has_dir d) (g_symlink src dest)" "keeps (has_dir d) (g_write env q v b)"
  "keeps (has_dir d) (g_chown env q user)" "keeps (has_dir d) (modifyS (\<lambda>s. s\<lparr>gd_eps_used := f s\<rparr>))"
  by (auto simp: keeps_def g_mkdir_def g_symlink_def g_write_def g_chown_def sm_defs)

lemma gives_for:
  assumes "x \<in> set xs" and "gives (f x) Q" and "\<And>y. keeps Q (f y)"
  shows "gives (forS xs f) Q"
  using assms(1)
proof (induction xs)
  case (Cons y ys)
  show ?case
  proof (cases "x = y")
    case True
    then show ?thesis using assms(2,3) by (auto intro: gives_now keeps_forS)
  next
    case False
    with Cons show ?thesis by (auto intro: gives_later)
  qed
qed simp

definition camera_made :: "gadget_env \<Rightarrow> path set" where
  "camera_made env = fst ` camera_links env"

lemma keeps_pair_link [keeps_rules]:
  "keeps (has_link l) (case x of (p, v) \<Rightarrow> g_write env (func_path f p) v b)"
  "keeps (has_dir d) (case x of (p, v) \<Rightarrow> g_write env (func_path f p) v b)"
  by (auto intro: keeps_rules split: prod.split)

lemma grows_camera [keeps_rules]:
  "keeps (has_link l) (add_camera_format env safe fmt)" "keeps (has_dir d) (add_camera_format env safe fmt)"
  "keeps (has_link l) (setup_function env meta f desc eps starter b)" "keeps (has_dir d) (setup_function env meta f desc eps starter b)"
  unfolding add_camera_format_def setup_function_def add_meta_def start_function_def Let_def
  by (auto intro!: keeps_rules split: prod.split)

lemma camera_links_made:
  assumes "l \<in> camera_made env"
  shows "gives (add_camera env meta starter b safe ct pu) (has_link l)"
proof -
  consider "l = func_path ''uvc.usb0'' [''streaming'', ''header'', ''h'', ''m'']"
    | speed where "speed \<in> set (ge_speeds env ''streaming'')" "l = func_path ''uvc.usb0'' [''streaming'', ''class'', speed, ''h'']"
    | speed where "speed \<in> set (ge_speeds env ''control'')" "l = func_path ''uvc.usb0'' [''control'', ''class'', speed, ''h'']"
    using assms by (auto simp: camera_made_def camera_links_def uvc_def)
  then show ?thesis
  proof cases
    case 1
    show ?thesis unfolding add_camera_def Let_def 1
      by (rule gives_later, rule gives_later, rule gives_later, rule gives_later, rule gives_now, rule gives_symlink, intro keeps_rules)
  next
    case 2
    show ?thesis unfolding add_camera_def Let_def
      by (rule gives_later, rule gives_later, rule gives_later, rule gives_later, rule gives_later, rule gives_now,
          rule gives_for [OF 2(1)], unfold 2(2), rule gives_symlink, intro keeps_rules, intro keeps_rules)
  next
    case 3
    show ?thesis unfolding add_camera_def Let_def
      by (rule gives_later, rule gives_later, rule gives_later, rule gives_later, rule gives_later, rule gives_later, rule gives_later,
          rule gives_now, rule gives_for [OF 3(1)], unfold 3(2), rule gives_symlink, intro keeps_rules, intro keeps_rules)
  qed
qed

lemma camera_dir_made: "gives (add_camera env meta starter b safe ct pu) (has_dir (func_path ''uvc.usb0'' []))"
  unfolding add_camera_def create_function_def Let_def by (rule gives_now, rule gives_mkdir, intro keeps_rules)

lemma grows_dir_more [keeps_rules]:
  "keeps (has_dir d) (add_hid env meta desc starter b w h)" "keeps (has_dir d) (add_msd env meta starter b user mo iq1 iq2)"
  "keeps (has_dir d) (add_ethernet env meta starter b driver m1 m2)" "keeps (has_dir d) (add_serial env meta starter b)"
  "keeps (has_dir d) (add_audio env meta starter b speakers mic)" "keeps (has_dir d) (add_camera env meta starter b safe ct pu)"
  unfolding add_hid_def add_msd_def add_ethernet_def add_serial_def add_audio_def add_camera_def create_function_def Let_def
  by (intro keeps_rules keeps_modifyS; simp)+

lemma grows_start [keeps_rules]:
  "keeps (has_dir d) (start_functions env c)" "keeps (has_dir d) (start_profile env c)" "keeps (has_dir d) (gadget_config meta n)"
  unfolding start_functions_def start_hid_def start_msd_def start_others_def add_keyboard_def add_mouse_def start_profile_def
    gadget_config_def Let_def
  by (auto intro!: keeps_rules keeps_modifyS split: option.split)

lemma gadget_dir_made: "gives (start_device env c) (has_dir (gadget_path []))"
  unfolding start_device_def Let_def
  by (rule gives_now, rule gives_mkdir, cases "oc_serial c") (simp_all only: option.case, (intro keeps_rules)+)

lemma camera_functions:
  assumes "oc_camera c" "gives (add_camera env (oc_meta c) [''camera''] (oc_camera_start c) (oc_camera_safe c) (oc_ct_mask c) (oc_pu_mask c)) Q"
  shows "gives (start_functions env c) Q"
  unfolding start_functions_def start_others_def using assms by (auto intro!: gives_later simp: whenS_def)

end
