(* ===== verification/OtgStop.thy ===== *)
theory OtgStop
  imports OtgLife
begin

text \<open>
  Stopping undoes starting: whatever the gadget was configured with, the files, the links and the directories
  are again those from before.
\<close>

section \<open>Programs that succeed\<close>

text \<open>\<open>does P m Q\<close>: from the states of \<open>P\<close> the program returns, and it ends in \<open>Q\<close>.\<close>

definition does :: "('s \<Rightarrow> bool) \<Rightarrow> ('s, unit) sm \<Rightarrow> ('s \<Rightarrow> bool) \<Rightarrow> bool" where
  "does P m Q = (\<forall>s. P s \<longrightarrow> (\<exists>t. m s = (Inr (), t) \<and> Q t))"

lemma doesD: "does P m Q \<Longrightarrow> P s \<Longrightarrow> \<exists>t. m s = (Inr (), t) \<and> Q t"
  by (simp add: does_def)

lemma does_bind: "does P m Q \<Longrightarrow> does Q (f ()) R \<Longrightarrow> does P (bindS m f) R"
  unfolding does_def by (metis bindS_ok)

lemma does_ret: "(\<And>s. P s \<Longrightarrow> Q s) \<Longrightarrow> does P (retS ()) Q"
  by (simp add: does_def sm_defs)

lemma does_when: "(b \<Longrightarrow> does P m Q) \<Longrightarrow> (\<And>s. \<not> b \<Longrightarrow> P s \<Longrightarrow> Q s) \<Longrightarrow> does P (whenS b m) Q"
  by (cases b) (simp_all add: whenS_def does_ret)

lemma does_get: "(\<And>s. P s \<Longrightarrow> does (\<lambda>x. x = s) (f s) Q) \<Longrightarrow> does P (getS f) Q"
  by (auto simp: does_def getS_def)

lemma does_weaken: "does P m Q \<Longrightarrow> (\<And>s. P' s \<Longrightarrow> P s) \<Longrightarrow> (\<And>s. Q s \<Longrightarrow> Q' s) \<Longrightarrow> does P' m Q'"
  unfolding does_def by blast

lemma does_for:
  assumes "\<And>x ys. set (x # ys) \<subseteq> set xs \<Longrightarrow> distinct (x # ys) \<Longrightarrow> does (I (x # ys)) (f x) (I ys)" and "distinct xs"
  shows "does (I xs) (forS xs f) (I [])"
proof -
  have "set ys \<subseteq> set xs \<Longrightarrow> distinct ys \<Longrightarrow> does (I ys) (forS ys f) (I [])" for ys
  proof (induction ys)
    case (Cons y ys)
    have "does (I ys) (forS ys f) (I [])" using Cons by simp
    then show ?case using assms(1) [OF Cons.prems] by (simp add: does_bind)
  qed (simp add: does_ret)
  then show ?thesis using assms(2) by blast
qed

lemma bindS_assoc: "bindS (bindS m f) g = bindS m (\<lambda>a. bindS (f a) g)"
  by (auto simp: bindS_def fun_eq_iff split: prod.splits sum.splits)

section \<open>Taking one thing away\<close>

text \<open>What the state may still hold, and the links and the directories that are certainly there.\<close>

definition left_with :: "path \<Rightarrow> gadget \<Rightarrow> path set \<Rightarrow> (path \<times> path) set \<Rightarrow> path set \<Rightarrow> path set \<Rightarrow> path set \<Rightarrow> gadget \<Rightarrow> bool" where
  "left_with meta s0 D L F P E s = (holds_only meta s0 D L F s \<and> (\<forall>l \<in> P. has_link l s) \<and> (\<forall>d \<in> E. has_dir d s))"

lemma left_with_mono:
  "left_with meta s0 D L F P E s \<Longrightarrow> D \<subseteq> D' \<Longrightarrow> L \<subseteq> L' \<Longrightarrow> F \<subseteq> F' \<Longrightarrow> P' \<subseteq> P \<Longrightarrow> E' \<subseteq> E \<Longrightarrow> left_with meta s0 D' L' F' P' E' s"
  unfolding left_with_def holds_only_def by blast

lemma below_iff: "below p q \<longleftrightarrow> (\<exists>r. r \<noteq> [] \<and> q = p @ r)"
proof
  assume "below p q"
  then have "take (length p) q = p" and d: "drop (length p) q \<noteq> []" by (simp_all add: below_def)
  then have "q = p @ drop (length p) q" by (metis append_take_drop_id)
  then show "\<exists>r. r \<noteq> [] \<and> q = p @ r" using d by blast
qed (auto simp: below_def)

lemma inside_below:
  assumes "inside meta p" "below p q"
  shows "inside meta q"
proof -
  obtain r where r: "r \<noteq> []" "q = p @ r" using assms(2) by (auto simp: below_iff)
  consider "take 1 p = [GADGET]" | "p = meta" | "below meta p" using assms(1) unfolding inside_def by blast
  then show ?thesis
  proof cases
    case 1
    then show ?thesis using r by (cases p) (simp_all add: inside_def)
  next
    case 2
    then show ?thesis using assms(2) by (simp add: inside_def)
  next
    case 3
    then obtain r' where "p = meta @ r'" by (auto simp: below_iff)
    then show ?thesis using r by (simp add: inside_def below_iff)
  qed
qed

lemma clean_target: "clean meta s0 \<Longrightarrow> (d, t) \<in> set (gd_links s0) \<Longrightarrow> \<not> inside meta t"
  by (auto simp: clean_def list_all_iff)

lemma outside_link:
  assumes "holds_only meta s0 D L F s" "clean meta s0" "(d, t) \<in> set (gd_links s)" "\<not> inside meta d"
  shows "\<not> inside meta t"
proof -
  have "(d, t) \<in> set (filter (\<lambda>(d, t). \<not> inside meta d) (gd_links s))" using assms(3,4) by simp
  then have "(d, t) \<in> set (gd_links s0)" using assms(1) unfolding holds_only_def by argo
  then show ?thesis by (rule clean_target [OF assms(2)])
qed

definition free :: "path set \<Rightarrow> (path \<times> path) set \<Rightarrow> path set \<Rightarrow> path \<Rightarrow> bool" where
  "free D L F p = ((\<forall>q \<in> D. \<not> below p q) \<and> (\<forall>(d, t) \<in> L. \<not> below p d \<and> t \<noteq> p) \<and> (hd p \<noteq> GADGET \<longrightarrow> (\<forall>f \<in> F. \<not> below p f)))"

lemma not_busy:
  assumes s: "holds_only meta s0 D L F s" and "clean meta s0" "inside meta p" "free D L F p"
  shows "\<not> g_busy s p"
proof -
  have "\<not> below p q" if "q \<in> set (gd_dirs s)" for q
    using s that assms(3,4) inside_below [of meta p q] unfolding holds_only_def free_def by blast
  moreover have "\<not> below p d \<and> t \<noteq> p" if "(d, t) \<in> set (gd_links s)" for d t
  proof (cases "inside meta d")
    case True
    then have "(d, t) \<in> L" using s that unfolding holds_only_def by fastforce
    then show ?thesis using assms(4) unfolding free_def by blast
  next
    case False
    then show ?thesis using outside_link [OF s assms(2) that] assms(3) inside_below by blast
  qed
  moreover have "\<not> (hd p \<noteq> GADGET \<and> below p f)" if "(f, v) \<in> set (gd_files s)" for f v
    using s that assms(3,4) inside_below [of meta p f] unfolding holds_only_def free_def by fastforce
  ultimately show ?thesis unfolding g_busy_def list_ex_iff by fast
qed

lemma filter_removeAll_inside: "P p \<Longrightarrow> filter (\<lambda>p. \<not> P p) (removeAll p xs) = filter (\<lambda>p. \<not> P p) xs"
  by (induction xs) auto

lemma filter_delete_inside: "P p \<Longrightarrow> filter (\<lambda>(k, v). \<not> P k) (AList.delete p d) = filter (\<lambda>(k, v). \<not> P k) d"
  by (induction d) auto

lemma filter_below_inside:
  "inside meta p \<Longrightarrow> filter (\<lambda>(f, v). \<not> inside meta f) (filter (\<lambda>(f, v). \<not> below p f) d) = filter (\<lambda>(f, v). \<not> inside meta f) d"
  using inside_below [of meta p] by (induction d) auto

lemma holds_rmdir:
  assumes "holds_only meta s0 D L F s" "inside meta p" "fs = gd_files s \<or> fs = filter (\<lambda>(f, v). \<not> below p f) (gd_files s)"
    "\<forall>x \<in> set fs. fst x \<in> F \<longrightarrow> fst x \<in> F'"
  shows "holds_only meta s0 (D - {p}) L F' (s\<lparr>gd_dirs := removeAll p (gd_dirs s), gd_files := fs\<rparr>)"
proof -
  have "filter (\<lambda>(f, v). \<not> inside meta f) fs = gd_files s0" "dict_wf fs" "set fs \<subseteq> set (gd_files s)"
    using assms(1,2,3) by (auto simp: holds_only_def filter_below_inside simp del: filter_filter)
  then show ?thesis using assms(1,2,4) unfolding holds_only_def
    by (auto simp: filter_removeAll_inside [where P = "inside meta"] distinct_removeAll)
qed

lemma does_rmdir:
  assumes "clean meta s0" "inside meta p" "free D L F p"
  shows "does (left_with meta s0 D L F P E) (g_rmdir p)
    (left_with meta s0 (D - {p}) L (if p \<in> E then F - {f. below p f} else F) P (E - {p}))"
  unfolding does_def
proof (intro allI impI)
  fix s
  assume s: "left_with meta s0 D L F P E s"
  then have h: "holds_only meta s0 D L F s" by (simp add: left_with_def)
  show "\<exists>t. g_rmdir p s = (Inr (), t)
    \<and> left_with meta s0 (D - {p}) L (if p \<in> E then F - {f. below p f} else F) P (E - {p}) t"
  proof (cases "has_dir p s")
    case True
    let ?t = "s\<lparr>gd_dirs := removeAll p (gd_dirs s), gd_files := filter (\<lambda>(f, v). \<not> below p f) (gd_files s)\<rparr>"
    have "g_rmdir p s = (Inr (), ?t)"
      using True not_busy [OF h assms] by (simp add: g_rmdir_def getS_def whenS_def modifyS_def)
    moreover have "holds_only meta s0 (D - {p}) L (if p \<in> E then F - {f. below p f} else F) ?t"
      by (rule holds_rmdir [OF h assms(2)]) auto
    ultimately show ?thesis using s by (auto simp: left_with_def)
  next
    case False
    have "holds_only meta s0 (D - {p}) L F (s\<lparr>gd_dirs := removeAll p (gd_dirs s), gd_files := gd_files s\<rparr>)"
      by (rule holds_rmdir [OF h assms(2)]) auto
    then have "holds_only meta s0 (D - {p}) L F s" using False by simp
    then show ?thesis using False s by (auto simp: left_with_def g_rmdir_def getS_def whenS_def retS_def)
  qed
qed

lemma set_delete: "x \<in> set (AList.delete k d) \<longleftrightarrow> x \<in> set d \<and> fst x \<noteq> k"
  by (induction d) auto

lemma has_link_mem: "dict_has d k \<longleftrightarrow> k \<in> fst ` set d"
  by (simp add: dict_has_def map_of_eq_None_iff)

lemma holds_delete_link:
  "holds_only meta s0 D L F s \<Longrightarrow> inside meta p \<Longrightarrow> L' = {x \<in> L. fst x \<noteq> p} \<Longrightarrow>
     holds_only meta s0 D L' F (s\<lparr>gd_links := AList.delete p (gd_links s)\<rparr>)"
  unfolding holds_only_def by (simp add: filter_delete_inside [where P = "inside meta"] set_delete)

lemma holds_delete_file:
  "holds_only meta s0 D L F s \<Longrightarrow> inside meta p \<Longrightarrow> F' = F - {p} \<Longrightarrow>
     holds_only meta s0 D L F' (s\<lparr>gd_files := AList.delete p (gd_files s)\<rparr>)"
  unfolding holds_only_def by (simp add: filter_delete_inside [where P = "inside meta"] set_delete)

lemma delete_absent: "\<not> dict_has d p \<Longrightarrow> AList.delete p d = d"
  by (simp add: has_link_mem delete_idem)

lemma does_unlink_link:
  assumes "inside meta p" "optional \<or> p \<in> P"
  shows "does (left_with meta s0 D L F P E) (g_unlink p optional) (left_with meta s0 D {x \<in> L. fst x \<noteq> p} F (P - {p}) E)"
  unfolding does_def
proof (intro allI impI)
  fix s
  assume s: "left_with meta s0 D L F P E s"
  let ?t = "s\<lparr>gd_links := AList.delete p (gd_links s)\<rparr>"
  have t: "left_with meta s0 D {x \<in> L. fst x \<noteq> p} F (P - {p}) E ?t"
    using s holds_delete_link [of meta s0 D L F s p] assms(1) by (simp add: left_with_def dict_has_def)
  show "\<exists>t. g_unlink p optional s = (Inr (), t) \<and> left_with meta s0 D {x \<in> L. fst x \<noteq> p} F (P - {p}) E t"
  proof (cases "has_link p s")
    case True
    then show ?thesis using t by (simp add: g_unlink_def getS_def modifyS_def)
  next
    case False
    then have "optional" using s assms(2) unfolding left_with_def by auto
    have "?t = s" using delete_absent [OF False] by simp
    then have u: "left_with meta s0 D {x \<in> L. fst x \<noteq> p} F (P - {p}) E s" using t by metis
    then have "left_with meta s0 D {x \<in> L. fst x \<noteq> p} F (P - {p}) E (s\<lparr>gd_files := AList.delete p (gd_files s)\<rparr>)"
      using holds_delete_file [of meta s0 D "{x \<in> L. fst x \<noteq> p}" F s p "F - {p}"] assms(1)
      by (auto simp: left_with_def holds_only_def)
    then show ?thesis using u False \<open>optional\<close> by (simp add: g_unlink_def getS_def modifyS_def retS_def)
  qed
qed

lemma does_unlink_file:
  assumes "inside meta p" "p \<notin> fst ` L"
  shows "does (\<lambda>s. left_with meta s0 D L F P E s \<and> dict_has (gd_files s) p) (g_unlink p False)
    (left_with meta s0 D L (F - {p}) P E)"
  unfolding does_def
proof (intro allI impI)
  fix s
  assume s: "left_with meta s0 D L F P E s \<and> dict_has (gd_files s) p"
  then have "\<not> has_link p s"
    using assms unfolding left_with_def holds_only_def has_link_mem by (metis (no_types, lifting) image_iff)
  moreover have "left_with meta s0 D L (F - {p}) P E (s\<lparr>gd_files := AList.delete p (gd_files s)\<rparr>)"
    using s holds_delete_file [of meta s0 D L F s p] assms(1) by (simp add: left_with_def)
  ultimately show "\<exists>t. g_unlink p False s = (Inr (), t) \<and> left_with meta s0 D L (F - {p}) P E t"
    using s by (simp add: g_unlink_def getS_def modifyS_def)
qed

section \<open>Loops\<close>

lemma forS_cong: "(\<And>x. x \<in> set xs \<Longrightarrow> f x = g x) \<Longrightarrow> forS xs f = forS xs g"
  by (induction xs) simp_all

lemma does_unlinks:
  assumes "inj g"
  shows "distinct ns \<Longrightarrow> (\<And>n. n \<in> set ns \<Longrightarrow> inside meta (g n) \<and> g n \<in> P) \<Longrightarrow>
    does (left_with meta s0 D L F P E) (forS ns (\<lambda>n. g_unlink (g n) False))
      (left_with meta s0 D {x \<in> L. fst x \<notin> g ` set ns} F (P - g ` set ns) E)"
proof (induction ns arbitrary: L P)
  case Nil
  then show ?case by (simp add: does_ret)
next
  case (Cons n ns)
  have "does (left_with meta s0 D L F P E) (g_unlink (g n) False) (left_with meta s0 D {x \<in> L. fst x \<noteq> g n} F (P - {g n}) E)"
    by (rule does_unlink_link) (use Cons.prems in auto)
  moreover have "does (left_with meta s0 D {x \<in> L. fst x \<noteq> g n} F (P - {g n}) E) (forS ns (\<lambda>n. g_unlink (g n) False))
      (left_with meta s0 D {x \<in> {x \<in> L. fst x \<noteq> g n}. fst x \<notin> g ` set ns} F (P - {g n} - g ` set ns) E)"
    by (rule Cons.IH) (use Cons.prems assms in \<open>auto dest: injD\<close>)
  moreover have "{x \<in> {x \<in> L. fst x \<noteq> g n}. fst x \<notin> g ` set ns} = {x \<in> L. fst x \<notin> g ` set (n # ns)}"
    "P - {g n} - g ` set ns = P - g ` set (n # ns)" by auto
  ultimately show ?case by (auto intro: does_bind)
qed

lemma free_mono: "free D L F p \<Longrightarrow> D' \<subseteq> D \<Longrightarrow> L' \<subseteq> L \<Longrightarrow> F' \<subseteq> F \<Longrightarrow> free D' L' F' p"
  unfolding free_def by blast

lemma does_rmdirs:
  assumes "clean meta s0"
  shows "(\<And>n. n \<in> set ns \<Longrightarrow> inside meta (g n) \<and> free D L F (g n) \<and> g n \<notin> E) \<Longrightarrow>
    does (left_with meta s0 D L F P E) (forS ns (\<lambda>n. g_rmdir (g n))) (left_with meta s0 (D - g ` set ns) L F P E)"
proof (induction ns arbitrary: D)
  case Nil
  then show ?case by (simp add: does_ret)
next
  case (Cons n ns)
  have n: "inside meta (g n)" "free D L F (g n)" "g n \<notin> E" using Cons.prems by auto
  have "does (left_with meta s0 D L F P E) (g_rmdir (g n)) (left_with meta s0 (D - {g n}) L F P E)"
    using does_rmdir [OF assms n(1,2), of P E] n(3) by simp
  moreover have "does (left_with meta s0 (D - {g n}) L F P E) (forS ns (\<lambda>n. g_rmdir (g n)))
      (left_with meta s0 (D - {g n} - g ` set ns) L F P E)"
    by (rule Cons.IH) (use Cons.prems in \<open>auto intro: free_mono\<close>)
  moreover have "D - {g n} - g ` set ns = D - g ` set (n # ns)" by auto
  ultimately show ?case by (auto intro: does_bind)
qed

lemma entries_mem: "n \<in> set (entries ps p) \<longleftrightarrow> p @ [n] \<in> set ps"
proof
  assume "n \<in> set (entries ps p)"
  then obtain q where q: "q \<in> set ps" "below p q" "length q = Suc (length p)" "n = last q" by (auto simp: entries_def)
  then obtain r where "q = p @ r" by (auto simp: below_iff)
  then have "q = p @ [n]" using q(3,4) by (cases r) simp_all
  then show "p @ [n] \<in> set ps" using q(1) by simp
next
  assume "p @ [n] \<in> set ps"
  then show "n \<in> set (entries ps p)" by (force simp: entries_def below_iff)
qed

lemma distinct_entries: "distinct ps \<Longrightarrow> distinct (entries ps p)"
  unfolding entries_def distinct_map
proof (intro conjI inj_onI)
  fix x y
  assume "x \<in> set (filter (\<lambda>q. below p q \<and> length q = Suc (length p)) ps)"
    "y \<in> set (filter (\<lambda>q. below p q \<and> length q = Suc (length p)) ps)" and l: "last x = last y"
  then obtain r u where "x = p @ r" "length r = 1" "y = p @ u" "length u = 1" by (auto simp: below_iff)
  then show "x = y" using l by (cases r; cases u) simp_all
qed simp

lemma left_with_now:
  "left_with meta s0 D L F P E s \<Longrightarrow>
     left_with meta s0 {d \<in> D. has_dir d s} {x \<in> L. has_link (fst x) s} {f \<in> F. dict_has (gd_files s) f} P E s"
  unfolding left_with_def holds_only_def has_link_mem by blast

section \<open>The camera\<close>

text \<open>Each step, from what may be there to what is left.\<close>

lemma step_rmdir:
  assumes "clean meta s0" "inside meta p" "free D L F p" "D - {p} \<subseteq> D'" "p \<notin> E"
  shows "does (left_with meta s0 D L F P E) (g_rmdir p) (left_with meta s0 D' L F P E)"
proof (rule does_weaken [OF does_rmdir [OF assms(1-3)]])
  fix s
  assume "left_with meta s0 (D - {p}) L (if p \<in> E then F - {f. below p f} else F) P (E - {p}) s"
  then show "left_with meta s0 D' L F P E s" using assms(4,5) by (auto elim!: left_with_mono)
qed

lemma step_unlink:
  assumes "inside meta p" "optional \<or> p \<in> P" "{x \<in> L. fst x \<noteq> p} \<subseteq> L'" "P' \<subseteq> P - {p}"
  shows "does (left_with meta s0 D L F P E) (g_unlink p optional) (left_with meta s0 D L' F P' E)"
  by (rule does_weaken [OF does_unlink_link [OF assms(1,2)]], assumption, erule left_with_mono) (use assms(3,4) in auto)

lemma step_unlinks:
  assumes "inj g" "distinct ns" "\<And>n. inside meta (g n)" "g ` set ns \<subseteq> P" "{x \<in> L. fst x \<notin> g ` set ns} \<subseteq> L'" "P' \<subseteq> P - g ` set ns"
  shows "does (left_with meta s0 D L F P E) (forS ns (\<lambda>n. g_unlink (g n) False)) (left_with meta s0 D L' F P' E)"
  by (rule does_weaken [OF does_unlinks [OF assms(1,2)]]) (use assms(3-6) in \<open>auto elim!: left_with_mono\<close>)

lemma below_simps [simp]: "below (x # p) (y # q) \<longleftrightarrow> x = y \<and> below p q" "\<not> below p []" "below [] (y # q)" "\<not> below p p"
  by (auto simp: below_def)

lemma uvc_path: "uvc [] @ p = uvc p"
  by (simp add: uvc_def func_path_def gadget_path_def)

lemma uvc_simps [simp]:
  "uvc p = uvc q \<longleftrightarrow> p = q" "below (uvc p) (uvc q) \<longleftrightarrow> below p q" "hd (uvc p) = GADGET"
  "\<not> below (uvc (x # p)) (func_path f [])"
  by (auto simp: uvc_def func_path_def gadget_path_def below_def)

lemma not_below_uvc: "p \<noteq> [] \<Longrightarrow> d \<in> base_dirs meta \<union> (\<lambda>f. func_path f []) ` fs \<Longrightarrow> meta_ok meta \<Longrightarrow> \<not> below (uvc p) d"
  by (cases meta) (auto simp: base_dirs_def uvc_def func_path_def gadget_path_def lang_path_def below_def meta_ok_def)

lemma camera_cases:
  assumes "q \<in> camera_dirs"
  obtains "q = uvc [''streaming'', ''mjpeg'', ''m'']" | "q = uvc [''streaming'', ''header'', ''h'']" | "q = uvc [''control'', ''header'', ''h'']"
    | x where "q = uvc [''streaming'', ''mjpeg'', ''m'', x]"
  using assms by (auto simp: camera_dirs_def)

lemma does_stop_camera:
  assumes ok: "clean meta s0" "meta_ok meta" "distinct (ge_speeds env ''streaming'')" "distinct (ge_speeds env ''control'')"
    and fs: "D = base_dirs meta \<union> (\<lambda>f. func_path f []) ` fs"
  shows "does (left_with meta s0 (D \<union> camera_dirs) (camera_links env) F (camera_made env) {gadget_path []}) (stop_camera env (uvc []))
    (left_with meta s0 D {} F {} {gadget_path []})"
proof -
  let ?h = "''header''" and ?s = "''streaming''" and ?c = "''control''" and ?E = "{gadget_path []}"
  let ?m = "uvc [?s, ''mjpeg'', ''m'']"
  let ?mjpegs = "insert ?m (range (\<lambda>x. uvc [?s, ''mjpeg'', ''m'', x]))"
  let ?lc = "(\<lambda>speed. (uvc [?c, ''class'', speed, ''h''], uvc [?c, ?h, ''h''])) ` set (ge_speeds env ?c)"
  let ?ls = "(\<lambda>speed. (uvc [?s, ''class'', speed, ''h''], uvc [?s, ?h, ''h''])) ` set (ge_speeds env ?s)"
  let ?lm = "{(uvc [?s, ?h, ''h'', ''m''], ?m)}"
  note nb = not_below_uvc [OF _ _ ok(2)]
  have links: "camera_links env = ?lm \<union> ?ls \<union> ?lc" "camera_made env = fst ` ?lm \<union> fst ` ?ls \<union> fst ` ?lc"
    unfolding camera_made_def camera_links_def by blast+
  have dirs: "camera_dirs = insert (uvc [?s, ?h, ''h'']) (insert (uvc [?c, ?h, ''h'']) ?mjpegs)"
    unfolding camera_dirs_def by blast
  have gE: "gadget_path [] \<noteq> uvc p" for p by (simp add: uvc_def func_path_def gadget_path_def)
  have inj: "inj (\<lambda>speed. uvc [a, ''class'', speed, ''h''])" for a by (simp add: inj_def)
  have 1: "does (left_with meta s0 (D \<union> camera_dirs) (camera_links env) F (camera_made env) ?E)
      (forS (ge_speeds env ?c) (\<lambda>speed. g_unlink (uvc [?c, ''class'', speed, ''h'']) False))
      (left_with meta s0 (D \<union> camera_dirs) (?lm \<union> ?ls) F (fst ` ?lm \<union> fst ` ?ls) ?E)"
    by (rule step_unlinks [OF inj ok(4)]) (auto simp: links image_image)
  have 2: "does (left_with meta s0 (D \<union> camera_dirs) (?lm \<union> ?ls) F (fst ` ?lm \<union> fst ` ?ls) ?E) (g_rmdir (uvc [?c, ?h, ''h'']))
      (left_with meta s0 (D \<union> insert (uvc [?s, ?h, ''h'']) ?mjpegs) (?lm \<union> ?ls) F (fst ` ?lm \<union> fst ` ?ls) ?E)"
    by (rule step_rmdir [OF ok(1)]) (auto simp: free_def fs dirs nb gE gE [symmetric])
  have 3: "does (left_with meta s0 (D \<union> insert (uvc [?s, ?h, ''h'']) ?mjpegs) (?lm \<union> ?ls) F (fst ` ?lm \<union> fst ` ?ls) ?E)
      (forS (ge_speeds env ?s) (\<lambda>speed. g_unlink (uvc [?s, ''class'', speed, ''h'']) False))
      (left_with meta s0 (D \<union> insert (uvc [?s, ?h, ''h'']) ?mjpegs) ?lm F (fst ` ?lm) ?E)"
    by (rule step_unlinks [OF inj ok(3)]) (auto simp: image_image)
  have 4: "does (left_with meta s0 (D \<union> insert (uvc [?s, ?h, ''h'']) ?mjpegs) ?lm F (fst ` ?lm) ?E)
      (g_unlink (uvc [?s, ?h, ''h'', ''m'']) False) (left_with meta s0 (D \<union> insert (uvc [?s, ?h, ''h'']) ?mjpegs) {} F {} ?E)"
    by (rule step_unlink) auto
  have 5: "does (left_with meta s0 (D \<union> insert (uvc [?s, ?h, ''h'']) ?mjpegs) {} F {} ?E) (g_rmdir (uvc [?s, ?h, ''h'']))
      (left_with meta s0 (D \<union> ?mjpegs) {} F {} ?E)"
    by (rule step_rmdir [OF ok(1)]) (auto simp: free_def fs nb gE gE [symmetric])
  have 6: "does (left_with meta s0 (D \<union> ?mjpegs) {} F {} ?E)
      (getS (\<lambda>s. forS (entries (gd_dirs s) ?m) (\<lambda>res. g_rmdir (uvc [?s, ''mjpeg'', ''m'', res]))))
      (left_with meta s0 (D \<union> {?m}) {} F {} ?E)"
  proof (rule does_get)
    fix s
    assume s: "left_with meta s0 (D \<union> ?mjpegs) {} F {} ?E s"
    let ?ns = "entries (gd_dirs s) ?m" and ?f = "\<lambda>res. uvc [?s, ''mjpeg'', ''m'', res]"
    have n: "res \<in> set ?ns \<longleftrightarrow> has_dir (?f res) s" for res by (simp add: entries_mem uvc_def func_path_def gadget_path_def)
    have "does (left_with meta s0 (D \<union> {?m} \<union> ?f ` set ?ns) {} F {} ?E) (forS ?ns (\<lambda>res. g_rmdir (?f res)))
        (left_with meta s0 (D \<union> {?m} \<union> ?f ` set ?ns - ?f ` set ?ns) {} F {} ?E)"
      by (rule does_rmdirs [OF ok(1)]) (auto simp: free_def fs nb gE gE [symmetric])
    then show "does (\<lambda>x. x = s) (forS ?ns (\<lambda>res. g_rmdir (?f res))) (left_with meta s0 (D \<union> {?m}) {} F {} ?E)"
    proof (rule does_weaken)
      show "left_with meta s0 (D \<union> {?m} \<union> ?f ` set ?ns) {} F {} ?E t" if "t = s" for t
        unfolding that using left_with_now [OF s] by (rule left_with_mono) (auto simp: n)
    qed (auto elim!: left_with_mono)
  qed
  have 7: "does (left_with meta s0 (D \<union> {?m}) {} F {} ?E) (g_rmdir ?m) (left_with meta s0 D {} F {} ?E)"
    by (rule step_rmdir [OF ok(1)]) (auto simp: free_def fs nb gE gE [symmetric])
  show ?thesis unfolding stop_camera_def
    by (simp only: uvc_path, rule does_bind [OF 1 does_bind [OF 2 does_bind [OF 3 does_bind [OF 4 does_bind [OF 5 does_bind [OF 6 7]]]]]])
qed

section \<open>The functions\<close>

lemma func_path_simps [simp]:
  "func_path f p = func_path g q \<longleftrightarrow> f = g \<and> p = q" "below (func_path f []) (func_path g q) \<longleftrightarrow> f = g \<and> q \<noteq> []"
  "hd (func_path f p) = GADGET" "gadget_path [] \<noteq> func_path f p" "func_path f p \<noteq> gadget_path []"
  by (cases q; auto simp: func_path_def gadget_path_def)+

lemma base_not_below_func: "meta_ok meta \<Longrightarrow> d \<in> base_dirs meta \<Longrightarrow> \<not> below (func_path f p) d \<and> d \<noteq> func_path f p"
  by (cases meta) (auto simp: base_dirs_def func_path_def gadget_path_def lang_path_def meta_ok_def)

lemma camera_under: "d \<in> camera_dirs \<Longrightarrow> \<exists>p. p \<noteq> [] \<and> d = func_path ''uvc.usb0'' p"
  by (auto simp: camera_dirs_def uvc_def)

lemma camera_links_under:
  "(d, t) \<in> camera_links env \<Longrightarrow> (\<exists>p. d = func_path ''uvc.usb0'' p) \<and> (\<exists>p. p \<noteq> [] \<and> t = func_path ''uvc.usb0'' p)"
  by (auto simp: camera_links_def uvc_def)

text \<open>What is left when the functions of a set still stand.\<close>

definition standing :: "gadget_env \<Rightarrow> path \<Rightarrow> gadget \<Rightarrow> path set \<Rightarrow> string set \<Rightarrow> gadget \<Rightarrow> bool" where
  "standing env meta s0 F fs = left_with meta s0 (base_dirs meta \<union> func_dirs fs) (func_links env fs) F
     (if ''uvc.usb0'' \<in> fs then camera_made env else {}) {gadget_path []}"

lemma does_stop_function:
  assumes ok: "clean meta s0" "meta_ok meta" "distinct (ge_speeds env ''streaming'')" "distinct (ge_speeds env ''control'')"
    and f: "is_usb_name f" "take 4 f = ''uvc.'' \<longrightarrow> f = ''uvc.usb0''" "f \<notin> fs"
  shows "does (standing env meta s0 F (insert f fs)) (stop_function env f) (standing env meta s0 F fs)"
proof (cases "f = ''uvc.usb0''")
  case True
  let ?D = "base_dirs meta \<union> (\<lambda>f. func_path f []) ` insert f fs"
  have "does (left_with meta s0 (?D \<union> camera_dirs) (camera_links env) F (camera_made env) {gadget_path []}) (stop_camera env (uvc []))
      (left_with meta s0 ?D {} F {} {gadget_path []})"
    by (rule does_stop_camera [OF ok refl])
  moreover have "does (left_with meta s0 ?D {} F {} {gadget_path []}) (g_rmdir (uvc []))
      (left_with meta s0 (base_dirs meta \<union> (\<lambda>f. func_path f []) ` fs) {} F {} {gadget_path []})"
    by (rule step_rmdir [OF ok(1)]) (use base_not_below_func [OF ok(2)] True f(3) in \<open>auto simp: free_def uvc_def\<close>)
  ultimately show ?thesis using True f(3) f(1)
    by (auto simp: stop_function_def standing_def func_dirs_def func_links_def uvc_def [symmetric] whenS_def Un_assoc intro: does_bind)
next
  case False
  then have "stop_function env f = g_rmdir (func_path f [])" using f(1,2) by (simp add: stop_function_def whenS_def)
  moreover have uvc: "''uvc.usb0'' \<in> insert f fs \<longleftrightarrow> ''uvc.usb0'' \<in> fs" using False by simp
  then have links: "func_links env (insert f fs) = func_links env fs" by (simp only: func_links_def)
  have "does (standing env meta s0 F (insert f fs)) (g_rmdir (func_path f [])) (standing env meta s0 F fs)"
    unfolding standing_def uvc links
    by (rule step_rmdir [OF ok(1)])
       (use base_not_below_func [OF ok(2)] f(3) False in
         \<open>auto simp: free_def func_dirs_def func_links_def dest: camera_under camera_links_under split: if_splits\<close>)
  ultimately show ?thesis by simp
qed

lemma does_stop_functions:
  assumes ok: "clean meta s0" "meta_ok meta" "distinct (ge_speeds env ''streaming'')" "distinct (ge_speeds env ''control'')"
    and f: "\<And>f. f \<in> fs \<Longrightarrow> is_usb_name f \<and> (take 4 f = ''uvc.'' \<longrightarrow> f = ''uvc.usb0'')"
  shows "does (\<lambda>s. standing env meta s0 F fs s \<and> (''uvc.usb0'' \<in> fs \<longrightarrow> has_dir (uvc []) s))
    (getS (\<lambda>s. forS (entries (gd_dirs s) (gadget_path [''functions''])) (stop_function env))) (standing env meta s0 F {})"
proof (rule does_get)
  fix s
  assume s: "standing env meta s0 F fs s \<and> (''uvc.usb0'' \<in> fs \<longrightarrow> has_dir (uvc []) s)"
  let ?ns = "entries (gd_dirs s) (gadget_path [''functions''])"
  have h: "holds_only meta s0 (base_dirs meta \<union> func_dirs fs) (func_links env fs) F s"
    using s by (simp add: standing_def left_with_def)
  have n: "n \<in> set ?ns \<longleftrightarrow> has_dir (func_path n []) s" for n by (simp add: entries_mem func_path_def gadget_path_def)
  have sub: "n \<in> fs" if "n \<in> set ?ns" for n
  proof -
    have "func_path n [] \<in> base_dirs meta \<union> func_dirs fs" using h that n unfolding holds_only_def by simp
    then show ?thesis using base_not_below_func [OF ok(2)] by (auto simp: func_dirs_def dest!: camera_under split: if_splits)
  qed
  have cam: "''uvc.usb0'' \<in> set ?ns \<longleftrightarrow> ''uvc.usb0'' \<in> fs" using s sub n by (auto simp: uvc_def)
  have "standing env meta s0 F (set ?ns) s"
    unfolding standing_def cam using left_with_now [OF conjunct1 [OF s, unfolded standing_def]]
    by (rule left_with_mono) (auto simp: func_dirs_def func_links_def cam n [THEN iffD2] split: if_splits)
  moreover have "distinct ?ns" using h by (auto simp: holds_only_def intro: distinct_entries)
  then have "does (\<lambda>s. standing env meta s0 F (set ?ns) s) (forS ?ns (stop_function env)) (\<lambda>s. standing env meta s0 F (set []) s)"
    by (rule does_for [rotated]) (use f sub in \<open>auto intro!: does_stop_function [OF ok]\<close>)
  ultimately show "does (\<lambda>x. x = s) (forS ?ns (stop_function env)) (standing env meta s0 F {})"
    by (auto elim: does_weaken)
qed

section \<open>The whole gadget\<close>

lemma usb_func_fact: "usb_func c f \<Longrightarrow> is_usb_name f \<and> (take 4 f = ''uvc.'' \<longrightarrow> f = ''uvc.usb0'')"
  by (simp add: usb_func_def)

definition on_stage :: "gadget_env \<Rightarrow> otg_config \<Rightarrow> gadget \<Rightarrow> path set \<Rightarrow> (path \<times> path) set \<Rightarrow> gadget \<Rightarrow> bool" where
  "on_stage env c s0 D L s = left_with (oc_meta c) s0 (base_dirs (oc_meta c) \<union> D \<union> func_dirs {f. usb_func c f})
     (L \<union> func_links env {f. usb_func c f}) (gadget_files \<union> meta_files (oc_meta c))
     (if oc_camera c then camera_made env else {}) ({gadget_path []} \<union> (if oc_camera c then {uvc []} else {})) s"

lemma profile_path_simps [simp]:
  "profile_path p = profile_path q \<longleftrightarrow> p = q" "below (profile_path p) (profile_path q) \<longleftrightarrow> below p q" "hd (profile_path p) = GADGET"
  "profile_path p \<noteq> func_path f q" "\<not> below (profile_path p) (func_path f q)" "profile_path p \<noteq> uvc q" "\<not> below (profile_path p) (uvc q)"
  "profile_path p \<noteq> gadget_path []" "\<not> below (profile_path p) (gadget_path [])" "\<not> below (profile_path p) (lang_path q)"
  "profile_path p \<noteq> lang_path q" "profile_path p \<noteq> gadget_path [''os_desc'', x]" "profile_path p \<noteq> []"
  "func_path f q \<noteq> profile_path p" "hd (gadget_path q) = GADGET"
  by (auto simp: profile_path_def func_path_def uvc_def lang_path_def gadget_path_def)

lemma meta_not_below: "meta_ok meta \<Longrightarrow> p \<noteq> [] \<Longrightarrow> hd p = GADGET \<Longrightarrow> \<not> below p meta \<and> p \<noteq> meta"
  by (cases meta; cases p) (auto simp: meta_ok_def)

lemma camera_made_under: "l \<in> camera_made env \<Longrightarrow> \<exists>p. l = uvc p"
  by (auto simp: camera_made_def camera_links_def)

lemma no_func_dirs:
  "profile_path p \<noteq> d" "\<not> below (profile_path p) d" if "d \<in> func_dirs fs"
  using that by (auto simp: func_dirs_def dest!: camera_under split: if_splits)

lemma does_profile:
  assumes ok: "clean (oc_meta c) s0" "meta_ok (oc_meta c)"
  shows "does (on_stage env c s0 profile_dirs (profile_links {f. usb_func c f}))
    (bindS (g_unlink (gadget_path [''os_desc'', G_PROFILE_NAME]) True) (\<lambda>_.
     bindS (getS (\<lambda>s. forS (entries (map fst (gd_links s)) (profile_path [])) (\<lambda>func.
        whenS (is_usb_name func) (g_unlink (profile_path [func]) False)))) (\<lambda>_.
     bindS (g_rmdir (profile_path [''strings'', ''0x409''])) (\<lambda>_. g_rmdir (profile_path [])))))
    (on_stage env c s0 {} {})"
proof -
  let ?fs = "{f. usb_func c f}"
  let ?l = "\<lambda>f. (profile_path [f], func_path f [])"
  have uvcp: "gadget_path [''os_desc'', x] \<noteq> uvc p" "profile_path q \<noteq> uvc p" for x p q by (simp add: gadget_path_def uvc_def func_path_def) simp
  have fl: "(d, t) \<notin> func_links env ?fs" if "\<nexists>p. d = uvc p" for d t
    using that by (auto simp: func_links_def uvc_def dest!: camera_links_under split: if_splits)
  have 1: "does (on_stage env c s0 profile_dirs (profile_links ?fs)) (g_unlink (gadget_path [''os_desc'', G_PROFILE_NAME]) True)
      (on_stage env c s0 profile_dirs (?l ` ?fs))"
    unfolding on_stage_def
    by (rule step_unlink) (use uvcp in \<open>auto simp: profile_links_def dest: camera_made_under\<close>)
  have 2: "does (on_stage env c s0 profile_dirs (?l ` ?fs))
      (getS (\<lambda>s. forS (entries (map fst (gd_links s)) (profile_path [])) (\<lambda>func.
        whenS (is_usb_name func) (g_unlink (profile_path [func]) False))))
      (on_stage env c s0 profile_dirs {})"
  proof (rule does_get)
    fix s
    assume s: "on_stage env c s0 profile_dirs (?l ` ?fs) s"
    let ?ns = "entries (map fst (gd_links s)) (profile_path [])" and ?g = "\<lambda>n. profile_path [n]"
    let ?X = "?l ` ?fs \<union> func_links env ?fs" and ?P = "if oc_camera c then camera_made env else {}"
    have h: "holds_only (oc_meta c) s0 (base_dirs (oc_meta c) \<union> profile_dirs \<union> func_dirs ?fs) ?X (gadget_files \<union> meta_files (oc_meta c)) s"
      using s by (simp add: on_stage_def left_with_def)
    have n: "n \<in> set ?ns \<longleftrightarrow> has_link (?g n) s" for n by (simp add: entries_mem profile_path_def gadget_path_def has_link_mem)
    have "is_usb_name n" if n': "n \<in> set ?ns" for n
    proof -
      obtain t where "(?g n, t) \<in> set (gd_links s)" using n' by (auto simp: n has_link_mem)
      then have "(?g n, t) \<in> ?X" using h unfolding holds_only_def by fastforce
      then show ?thesis using fl [of "?g n" t] uvcp(2) by (auto dest: usb_func_fact)
    qed
    then have eq: "forS ?ns (\<lambda>func. whenS (is_usb_name func) (g_unlink (?g func) False)) = forS ?ns (\<lambda>n. g_unlink (?g n) False)"
      by (intro forS_cong) (simp add: whenS_def)
    have "distinct ?ns" using h by (auto simp: holds_only_def dict_wf_def intro: distinct_entries)
    then have "does (left_with (oc_meta c) s0 (base_dirs (oc_meta c) \<union> profile_dirs \<union> func_dirs ?fs) (?l ` set ?ns \<union> func_links env ?fs)
        (gadget_files \<union> meta_files (oc_meta c)) (?P \<union> ?g ` set ?ns) ({gadget_path []} \<union> (if oc_camera c then {uvc []} else {})))
        (forS ?ns (\<lambda>n. g_unlink (?g n) False)) (on_stage env c s0 profile_dirs {})"
      unfolding on_stage_def by (rule step_unlinks [rotated]) (auto simp: inj_def dest: camera_made_under split: if_splits)
    then show "does (\<lambda>x. x = s) (forS ?ns (\<lambda>func. whenS (is_usb_name func) (g_unlink (?g func) False))) (on_stage env c s0 profile_dirs {})"
      unfolding eq
    proof (rule does_weaken)
      have "left_with (oc_meta c) s0 (base_dirs (oc_meta c) \<union> profile_dirs \<union> func_dirs ?fs) (?l ` set ?ns \<union> func_links env ?fs)
        (gadget_files \<union> meta_files (oc_meta c)) ?P ({gadget_path []} \<union> (if oc_camera c then {uvc []} else {})) s"
        using left_with_now [OF s [unfolded on_stage_def]] by (rule left_with_mono) (auto simp: n [THEN iffD2])
      then show "left_with (oc_meta c) s0 (base_dirs (oc_meta c) \<union> profile_dirs \<union> func_dirs ?fs) (?l ` set ?ns \<union> func_links env ?fs)
        (gadget_files \<union> meta_files (oc_meta c)) (?P \<union> ?g ` set ?ns) ({gadget_path []} \<union> (if oc_camera c then {uvc []} else {})) t"
        if "t = s" for t using that by (auto simp: left_with_def n)
    qed
  qed
  have base: "\<not> below (profile_path p) d" if "d \<in> base_dirs (oc_meta c)" for p d
    using that meta_not_below [OF ok(2), of "profile_path p"] by (auto simp: base_dirs_def)
  have lk: "\<not> below (profile_path p) d \<and> t \<noteq> profile_path p" if "(d, t) \<in> func_links env ?fs" for p d t
    using that by (auto simp: func_links_def dest!: camera_links_under split: if_splits)
  have 3: "does (on_stage env c s0 profile_dirs {}) (g_rmdir (profile_path [''strings'', ''0x409''])) (on_stage env c s0 {profile_path []} {})"
    unfolding on_stage_def
    by (rule step_rmdir [OF ok(1)]) (use base in \<open>auto simp: free_def profile_dirs_def no_func_dirs dest: lk\<close>)
  have 4: "does (on_stage env c s0 {profile_path []} {}) (g_rmdir (profile_path [])) (on_stage env c s0 {} {})"
    unfolding on_stage_def
    by (rule step_rmdir [OF ok(1)]) (use base in \<open>auto simp: free_def no_func_dirs dest: lk\<close>)
  show ?thesis by (rule does_bind [OF 1 does_bind [OF 2 does_bind [OF 3 4]]])
qed

lemma does_functions:
  assumes ok: "clean (oc_meta c) s0" "meta_ok (oc_meta c)" "distinct (ge_speeds env ''streaming'')" "distinct (ge_speeds env ''control'')"
  shows "does (on_stage env c s0 {} {}) (getS (\<lambda>s. forS (entries (gd_dirs s) (gadget_path [''functions''])) (stop_function env)))
    (left_with (oc_meta c) s0 (base_dirs (oc_meta c)) {} (gadget_files \<union> meta_files (oc_meta c)) {} {gadget_path []})"
proof (rule does_weaken)
  show "does (\<lambda>s. standing env (oc_meta c) s0 (gadget_files \<union> meta_files (oc_meta c)) {f. usb_func c f} s \<and>
      (''uvc.usb0'' \<in> {f. usb_func c f} \<longrightarrow> has_dir (uvc []) s))
    (getS (\<lambda>s. forS (entries (gd_dirs s) (gadget_path [''functions''])) (stop_function env)))
    (standing env (oc_meta c) s0 (gadget_files \<union> meta_files (oc_meta c)) {})"
    by (rule does_stop_functions [OF ok]) (simp add: usb_func_fact)
  show "standing env (oc_meta c) s0 (gadget_files \<union> meta_files (oc_meta c)) {f. usb_func c f} s \<and>
      (''uvc.usb0'' \<in> {f. usb_func c f} \<longrightarrow> has_dir (uvc []) s)" if "on_stage env c s0 {} {} s" for s
    using that usb_func_names(5) [of c] unfolding on_stage_def standing_def
    by (auto simp: left_with_def split: if_splits)
qed (simp add: standing_def func_dirs_def func_links_def)

lemma does_unlink_metas:
  "distinct ns \<Longrightarrow> does (\<lambda>s. left_with meta s0 {meta} {} ((\<lambda>n. meta @ [n]) ` set ns) {} {} s \<and> (\<forall>n \<in> set ns. dict_has (gd_files s) (meta @ [n])))
     (forS ns (\<lambda>m. g_unlink (meta @ [m]) False)) (left_with meta s0 {meta} {} {} {} {})"
proof (induction ns)
  case (Cons n ns)
  let ?I = "\<lambda>ns s. left_with meta s0 {meta} {} ((\<lambda>n. meta @ [n]) ` set ns) {} {} s \<and> (\<forall>n \<in> set ns. dict_has (gd_files s) (meta @ [n]))"
  have "does (?I (n # ns)) (g_unlink (meta @ [n]) False) (?I ns)"
    unfolding does_def
  proof (intro allI impI)
    fix s
    assume s: "?I (n # ns) s"
    then have h: "left_with meta s0 {meta} {} ((\<lambda>n. meta @ [n]) ` set (n # ns)) {} {} s" "dict_has (gd_files s) (meta @ [n])" by simp_all
    then obtain t where t: "g_unlink (meta @ [n]) False s = (Inr (), t)"
      "left_with meta s0 {meta} {} ((\<lambda>n. meta @ [n]) ` set (n # ns) - {meta @ [n]}) {} {} t"
      using does_unlink_file [of meta "meta @ [n]" "{}", of s0 "{meta}" "(\<lambda>n. meta @ [n]) ` set (n # ns)" "{}" "{}"]
      unfolding does_def by auto
    have "\<not> has_link (meta @ [n]) s" using h(1) inside_gadget(7) [of meta n] by (fastforce simp: left_with_def holds_only_def has_link_mem)
    then have "gd_files t = AList.delete (meta @ [n]) (gd_files s)"
      using t(1) h(2) by (auto simp: g_unlink_def getS_def modifyS_def)
    then have "\<forall>m \<in> set ns. dict_has (gd_files t) (meta @ [m])"
      using s Cons.prems by (auto simp: dict_has_def)
    moreover have "left_with meta s0 {meta} {} ((\<lambda>n. meta @ [n]) ` set ns) {} {} t"
      using t(2) by (rule left_with_mono) auto
    ultimately show "\<exists>t. g_unlink (meta @ [n]) False s = (Inr (), t) \<and> ?I ns t" using t(1) by blast
  qed
  then show ?case using Cons by (auto intro: does_bind)
qed (simp add: does_ret)

lemma left_nothing:
  "left_with meta s0 {} {} {} {} {} u \<Longrightarrow> gd_dirs u = gd_dirs s0 \<and> gd_links u = gd_links s0 \<and> gd_files u = gd_files s0"
  unfolding left_with_def holds_only_def by (auto simp: filter_id_conv [THEN iffD2] split_def)

lemma does_meta:
  assumes ok: "clean meta s0" "meta_ok meta"
  shows "does (left_with meta s0 (base_dirs meta) {} (gadget_files \<union> meta_files meta) {} {gadget_path []})
    (bindS (g_rmdir (lang_path [])) (\<lambda>_. bindS (g_rmdir (gadget_path [])) (\<lambda>_.
     bindS (getS (\<lambda>s. forS (entries (map fst (gd_files s)) meta) (\<lambda>m. g_unlink (meta @ [m]) False))) (\<lambda>_. g_rmdir meta))))
    (left_with meta s0 {} {} {} {} {})"
proof -
  have m: "meta \<noteq> gadget_path p" "\<not> below (gadget_path p) meta" for p
    using meta_not_below [OF ok(2), of "gadget_path p"] by (auto simp: gadget_path_def)
  have l: "lang_path [] = gadget_path [''strings'', ''0x409'']" by (simp add: lang_path_def)
  have 1: "does (left_with meta s0 (base_dirs meta) {} (gadget_files \<union> meta_files meta) {} {gadget_path []}) (g_rmdir (lang_path []))
      (left_with meta s0 {gadget_path [], meta} {} (gadget_files \<union> meta_files meta) {} {gadget_path []})"
    by (rule step_rmdir [OF ok(1)]) (use m in \<open>auto simp: free_def base_dirs_def l, auto simp: gadget_path_def\<close>)
  have free: "free {gadget_path [], meta} {} (gadget_files \<union> meta_files meta) (gadget_path [])"
    using m by (auto simp: free_def)
  have 2: "does (left_with meta s0 {gadget_path [], meta} {} (gadget_files \<union> meta_files meta) {} {gadget_path []}) (g_rmdir (gadget_path []))
      (left_with meta s0 {meta} {} (meta_files meta) {} {})"
  proof (rule does_weaken [OF does_rmdir [OF ok(1) _ free]])
    show "left_with meta s0 {meta} {} (meta_files meta) {} {} s"
      if "left_with meta s0 ({gadget_path [], meta} - {gadget_path []}) {}
        (if gadget_path [] \<in> {gadget_path []} then gadget_files \<union> meta_files meta - {f. below (gadget_path []) f} else gadget_files \<union> meta_files meta)
        {} ({gadget_path []} - {gadget_path []}) s" for s
      using that by (rule left_with_mono) (auto simp: gadget_files_def gadget_path_def)
  qed auto
  have 3: "does (left_with meta s0 {meta} {} (meta_files meta) {} {})
      (getS (\<lambda>s. forS (entries (map fst (gd_files s)) meta) (\<lambda>m. g_unlink (meta @ [m]) False)))
      (left_with meta s0 {meta} {} {} {} {})"
  proof (rule does_get)
    fix s
    assume s: "left_with meta s0 {meta} {} (meta_files meta) {} {} s"
    let ?ns = "entries (map fst (gd_files s)) meta"
    have n: "n \<in> set ?ns \<longleftrightarrow> dict_has (gd_files s) (meta @ [n])" for n by (simp add: entries_mem has_link_mem)
    have "distinct ?ns" using s by (auto simp: left_with_def holds_only_def dict_wf_def intro: distinct_entries)
    from does_unlink_metas [OF this]
    show "does (\<lambda>x. x = s) (forS ?ns (\<lambda>m. g_unlink (meta @ [m]) False)) (left_with meta s0 {meta} {} {} {} {})"
    proof (rule does_weaken)
      show "left_with meta s0 {meta} {} ((\<lambda>n. meta @ [n]) ` set ?ns) {} {} t \<and> (\<forall>n \<in> set ?ns. dict_has (gd_files t) (meta @ [n]))"
        if "t = s" for t
        unfolding that using left_with_now [OF s] by (auto simp: n meta_files_def elim!: left_with_mono)
    qed
  qed
  have 4: "does (left_with meta s0 {meta} {} {} {} {}) (g_rmdir meta) (left_with meta s0 {} {} {} {} {})"
    by (rule step_rmdir [OF ok(1)]) (auto simp: free_def)
  show ?thesis by (rule does_bind [OF 1 does_bind [OF 2 does_bind [OF 3 4]]])
qed

subsection \<open>What is there after a start\<close>

lemma start_left:
  assumes "clean (oc_meta c) s" "oc_ethernet_driver c \<in> set drivers" "cmd_start env c s = (Inr (), t)" "has_dir (gadget_path []) t"
  shows "on_stage env c s profile_dirs (profile_links {f. usb_func c f}) t"
proof -
  have h: "starting env c s t"
    by (rule keepsE [OF keeps_cmd_start [OF assms(2)] clean_holds [OF assms(1)] assms(3)])
  have n: "\<not> has_dir (gadget_path []) s" using assms(1) by (auto simp: clean_def list_all_iff)
  have cam: "(\<forall>l \<in> camera_made env. has_link l t) \<and> has_dir (uvc []) t" if "oc_camera c"
  proof -
    have body: "\<exists>u v. start_functions env c u = (Inr (), v) \<and> gd_links t = gd_links v \<and> gd_dirs t = gd_dirs v"
      using assms(3) n that
      by (auto simp: cmd_start_def check_config_def getS_def bindS_Inr_iff liftS_def g_write_def g_chown_def modifyS_def raiseS_def retS_def
          split: if_splits, blast)
    then obtain u v where u: "start_functions env c u = (Inr (), v)" "gd_links t = gd_links v" "gd_dirs t = gd_dirs v" by blast
    have "has_link l v" if "l \<in> camera_made env" for l
      by (rule givesD [OF camera_functions [OF \<open>oc_camera c\<close> camera_links_made [OF that]] u(1)])
    moreover have "has_dir (func_path ''uvc.usb0'' []) v"
      by (rule givesD [OF camera_functions [OF \<open>oc_camera c\<close> camera_dir_made] u(1)])
    ultimately show ?thesis using u(2,3) by (simp add: uvc_def)
  qed
  show ?thesis using h cam assms(4)
    unfolding on_stage_def left_with_def by (auto simp: Un_assoc)
qed

lemma does_unbind:
  assumes "ge_no_device env \<or> \<not> ge_refuses env (gadget_path [''UDC'']) (FText [CHR 0x0A])"
  shows "does (on_stage env c s0 D L) (unbind_udc env) (on_stage env c s0 D L)"
  unfolding does_def
proof (intro allI impI)
  fix s
  assume s: "on_stage env c s0 D L s"
  let ?t = "s\<lparr>gd_files := AList.update (gadget_path [''UDC'']) (FText [CHR 0x0A]) (gd_files s)\<rparr>"
  show "\<exists>t. unbind_udc env s = (Inr (), t) \<and> on_stage env c s0 D L t"
  proof (cases "ge_no_device env")
    case True
    then show ?thesis using s by (simp add: unbind_udc_def retS_def)
  next
    case False
    then have u: "unbind_udc env s = (Inr (), ?t)"
      using assms by (simp add: unbind_udc_def g_write_def modifyS_def)
    have "on_stage env c s0 D L ?t"
      using s keepsD [OF keeps_write [of "oc_meta c" "gadget_path [''UDC'']" "gadget_files \<union> meta_files (oc_meta c)"], of s0 _ _ s env "FText [CHR 0x0A]" False] u False
      unfolding on_stage_def left_with_def by (simp add: unbind_udc_def)
    then show ?thesis using u by blast
  qed
qed

lemma start_makes_gadget:
  assumes "clean (oc_meta c) s" "cmd_start env c s = (Inr (), t)"
  shows "if check_config c then has_dir (gadget_path []) t else t = s"
proof (cases "check_config c")
  case True
  have n: "\<not> has_dir (gadget_path []) s" using assms(1) by (auto simp: clean_def list_all_iff)
  let ?tail = "\<lambda>udc. bindS (start_device env c) (\<lambda>_. bindS (start_profile env c) (\<lambda>_. bindS (gadget_config (oc_meta c) (oc_endpoints c)) (\<lambda>_.
       bindS (start_functions env c) (\<lambda>_. bindS (g_write env (gadget_path [''UDC'']) (FText udc) False) (\<lambda>_.
       bindS (g_chown env (gadget_path [''UDC'']) (oc_user c)) (\<lambda>_. g_chown env (profile_path []) (oc_user c)))))))"
  have "gives (?tail udc) (has_dir (gadget_path []))" for udc
    by (rule gives_now [OF gadget_dir_made]) (intro keeps_rules)
  moreover obtain udc where "?tail udc s = (Inr (), t)"
    using assms(2) n True by (auto simp: cmd_start_def getS_def bindS_Inr_iff [of "liftS x" for x] liftS_def)
  ultimately have "has_dir (gadget_path []) t" by (rule givesD)
  then show ?thesis using True by simp
qed (use assms(2) in \<open>simp add: cmd_start_def retS_def\<close>)

end
