(* ===== verification/OtgRuns.thy ===== *)
theory OtgRuns
  imports OtgStop
begin

text \<open>
  A start on a small machine, and the configurations the scripts do not serve the way their messages say.
\<close>

section \<open>Stopping undoes starting\<close>

text \<open>C34. Stopping undoes starting: whatever the gadget is configured with, if the start succeeds on a machine with no
  trace of the gadget, then the stop that follows succeeds too, every directory the kernel is asked to drop is empty
  by then, and the directories, the links and the files are exactly those from before the start.\<close>

theorem stop_undoes_start:
  assumes "clean (oc_meta c) s" "meta_ok (oc_meta c)" "oc_ethernet_driver c \<in> set drivers"
    and "distinct (ge_speeds env ''streaming'')" "distinct (ge_speeds env ''control'')"
    and "ge_no_device env \<or> \<not> ge_refuses env (gadget_path [''UDC'']) (FText [CHR 0x0A])"
    and "cmd_start env c s = (Inr (), t)"
  shows "\<exists>u. cmd_stop env c t = (Inr (), u) \<and> gd_dirs u = gd_dirs s \<and> gd_links u = gd_links s \<and> gd_files u = gd_files s"
proof (cases "check_config c")
  case True
  then have g: "has_dir (gadget_path []) t" using start_makes_gadget [OF assms(1,7)] by simp
  have "does (on_stage env c s profile_dirs (profile_links {f. usb_func c f}))
     (bindS (unbind_udc env) (\<lambda>_. bindS
       (bindS (g_unlink (gadget_path [''os_desc'', G_PROFILE_NAME]) True) (\<lambda>_.
        bindS (getS (\<lambda>s. forS (entries (map fst (gd_links s)) (profile_path [])) (\<lambda>func.
          whenS (is_usb_name func) (g_unlink (profile_path [func]) False)))) (\<lambda>_.
        bindS (g_rmdir (profile_path [''strings'', ''0x409''])) (\<lambda>_. g_rmdir (profile_path []))))) (\<lambda>_.
      bindS (getS (\<lambda>s. forS (entries (gd_dirs s) (gadget_path [''functions''])) (stop_function env))) (\<lambda>_.
      bindS (g_rmdir (lang_path [])) (\<lambda>_. bindS (g_rmdir (gadget_path [])) (\<lambda>_.
      bindS (getS (\<lambda>s. forS (entries (map fst (gd_files s)) (oc_meta c)) (\<lambda>m. g_unlink (oc_meta c @ [m]) False))) (\<lambda>_.
      g_rmdir (oc_meta c))))))))
     (left_with (oc_meta c) s {} {} {} {} {})"
    by (rule does_bind [OF does_unbind [OF assms(6)] does_bind [OF does_profile [OF assms(1,2)]
          does_bind [OF does_functions [OF assms(1,2,4,5)] does_meta [OF assms(1,2)]]]])
  from doesD [OF this, OF start_left [OF assms(1,3,7) g]]
  obtain u where "cmd_stop env c t = (Inr (), u)" "left_with (oc_meta c) s {} {} {} {} {} u"
    using g by (auto simp: cmd_stop_def getS_def [of _ t] whenS_def bindS_assoc)
  then show ?thesis using left_nothing by blast
next
  case False
  then have "t = s" using start_makes_gadget [OF assms(1,7)] by simp
  moreover have "\<not> has_dir (gadget_path []) s" using assms(1) by (auto simp: clean_def list_all_iff)
  ultimately show ?thesis by (simp add: cmd_stop_def getS_def whenS_def retS_def)
qed

section \<open>A start\<close>

definition env0 :: gadget_env where
  "env0 = \<lparr>ge_refuses = \<lambda>p v. False, ge_exists = \<lambda>p. True, ge_udcs = [''fe980000.usb''],
     ge_speeds = \<lambda>a. if a = ''streaming'' then [''fs'', ''hs''] else [''fs'', ''ss''], ge_user_known = \<lambda>u. u = ''kvmd'', ge_no_device = False\<rparr>"

definition g0 :: gadget where
  "g0 = \<lparr>gd_dirs = [[''proc'']], gd_links = [], gd_files = [([''proc'', ''uptime''], FInt 7)], gd_owners = [], gd_eps_max = 0, gd_eps_used = 0,
     gd_hid_instance = 0, gd_msd_instance = 0\<rparr>"

definition drive0 :: msd_options where
  "drive0 = \<lparr>mo_image_path = [], mo_stall = False, mo_cdrom = True, mo_rw = False, mo_removable = True, mo_fua = True\<rparr>"

definition iq0 :: inquiry where
  "iq0 = \<lparr>iq_vendor = None, iq_product = ''Optical Drive'', iq_revision = ''1.00''\<rparr>"

definition otg0 :: otg_config where
  "otg0 = \<lparr>oc_udc = [], oc_vendor_id = 0x1D6B, oc_product_id = 0x0104, oc_usb_version = 0x0200, oc_device_version = -1,
     oc_manufacturer = ''PiKVM'', oc_product = ''PiKVM'', oc_serial = Some ''CAFEBABE'', oc_config = None, oc_max_power = 250,
     oc_remote_wakeup = True, oc_meta = [''run'', ''kvmd'', ''otg''], oc_endpoints = 9, oc_user = ''kvmd'', oc_hid_type = ''ch9329'', oc_msd_type = ''disabled'',
     oc_keyboard_start = True, oc_mouse_start = True, oc_mouse_alt_start = True, oc_mouse_absolute = True, oc_mouse_hwheel = True, oc_mouse_alt = [],
     oc_msd_start = True, oc_msd = drive0, oc_msd_inquiry = (iq0, iq0), oc_drives = False, oc_drives_start = True, oc_drives_count = 1,
     oc_drive = drive0, oc_drive_inquiry = (iq0, iq0), oc_ethernet = True, oc_ethernet_start = True, oc_ethernet_driver = ''ncm'',
     oc_host_mac = [], oc_kvm_mac = [], oc_serial_port = True, oc_serial_port_start = False, oc_audio = False, oc_audio_start = True,
     oc_speakers = True, oc_mic = True, oc_camera = False, oc_camera_start = True, oc_camera_safe = True, oc_ct_mask = 10, oc_pu_mask = 1\<rparr>"

lemma bindS_then: "bindS m f s = (case m s of (Inl e, t) \<Rightarrow> (Inl e, t) | (Inr x, t) \<Rightarrow> f x t)"
  by (simp add: bindS_def)

lemma bindS_first: "m = m' \<Longrightarrow> bindS m f = bindS m' f"
  by simp

lemmas run_eval = bindS_then sm_defs Let_def dict_has_def g_mkdir_def g_symlink_def g_write_def g_chown_def env0_def
  gadget_path_def profile_path_def func_path_def lang_path_def

lemma start_runs: "fst (cmd_start env0 otg0 g0) = Inr ()"
proof -
  have udc: "find_udc env0 [] = Inr ''fe980000.usb''" by (simp add: find_udc_def env0_def)
  show ?thesis
    by (simp add: cmd_start_def check_config_def run_eval start_device_def start_profile_def gadget_config_def otg0_def g0_def GADGET_def
        G_PROFILE_NAME_def start_functions_def start_hid_def start_msd_def start_others_def add_serial_def add_ethernet_def
        create_function_def setup_function_def add_meta_def start_function_def
        udc [unfolded env0_def] cong: bindS_first)
qed

theorem stop_undoes_start_witness:
  "\<exists>u. cmd_stop env0 otg0 (snd (cmd_start env0 otg0 g0)) = (Inr (), u)
     \<and> gd_dirs u = [[''proc'']] \<and> gd_links u = [] \<and> gd_files u = [([''proc'', ''uptime''], FInt 7)]"
proof -
  have "cmd_start env0 otg0 g0 = (Inr (), snd (cmd_start env0 otg0 g0))" using start_runs by (metis prod.collapse)
  moreover have "clean (oc_meta otg0) g0" "meta_ok (oc_meta otg0)" "oc_ethernet_driver otg0 \<in> set drivers"
    by (simp_all add: clean_def otg0_def g0_def inside_def below_def GADGET_def dict_wf_def meta_ok_def drivers_def)
  ultimately show ?thesis
    using stop_undoes_start [of otg0 g0 env0 "snd (cmd_start env0 otg0 g0)"] by (simp add: env0_def g0_def)
qed

section \<open>What the messages do not say\<close>

text \<open>The configuration there is "nothing to do" for is the one with everything switched on but the camera; with
  everything switched off the gadget is built.\<close>

lemma nothing_to_do:
  "\<not> check_config c \<longleftrightarrow> \<not> oc_camera c \<and> oc_audio c \<and> (oc_speakers c \<or> oc_mic c) \<and> oc_serial_port c \<and> oc_ethernet c
     \<and> oc_hid_type c = ''otg'' \<and> oc_msd_type c = ''otg''"
  by (auto simp: check_config_def)

text \<open>Equal addresses at both ends: the log says that the function will not be created, and it is.\<close>

lemma equal_macs_still_made: "gives (add_ethernet env meta starter b ''ecm'' mac mac) (has_dir (func_path ''ecm.usb0'' []))"
proof -
  have f: "(if ''ecm'' = ''rndis5'' then ''rndis'' else ''ecm'') @ ''.usb0'' = ''ecm.usb0''" by simp
  show ?thesis unfolding add_ethernet_def Let_def f create_function_def
    by (rule gives_now, rule gives_mkdir, intro keeps_rules)
qed

end
