(* ===== verification/Ch9329.thy ===== *)
theory Ch9329
  imports HidBase HidKeyboard
begin

text \<open>
  The plugin for the CH9329 chip (\<open>kvmd/plugins/hid/ch9329\<close>): commands over a serial line, built when an
  event comes and sent by a process of its own.  The serial line is an environment: a read returns what came
  before its timeout, and reads and writes may raise.
\<close>

section \<open>chip.py\<close>

record 'w tty_env =
  ty_open :: "('w, unit) sm"
  ty_write :: "bytes \<Rightarrow> ('w, unit) sm"
  ty_read :: "nat \<Rightarrow> ('w, bytes) sm"

definition make_checksum :: "bytes \<Rightarrow> int" where
  "make_checksum cmd = sum_list cmd mod 256"

definition chip_frame :: "bytes \<Rightarrow> bytes" where
  "chip_frame cmd = (let cmd = [0x57, 0xAB] @ (if cmd = [] then [0x00, 0x01, 0x00] else cmd) in cmd @ [make_checksum cmd])"

definition chip_send :: "'w tty_env \<Rightarrow> bytes \<Rightarrow> ('w, unit) sm" where
  "chip_send env cmd = ty_write env (chip_frame cmd)"

definition read_answer :: "bytes \<Rightarrow> int result" where
  "read_answer data =
     (if make_checksum (butlast data) \<noteq> last data then Inl ChipResponseError
      else bindR (if data ! 4 = 1 then py_get data 5 else Inr 0) (\<lambda>code.
        if code \<noteq> 0 then Inl ChipResponseError
        else if data ! 3 = 0x81 then py_get data 7 else Inr (- 1)))"

definition chip_recv :: "'w tty_env \<Rightarrow> ('w, int) sm" where
  "chip_recv env = bindS (ty_read env 5) (\<lambda>data.
     if length data < 5 then raiseS ChipResponseError
     else bindS (if data ! 4 \<noteq> 0 then bindS (ty_read env (nat (data ! 4 + 1))) (\<lambda>more. retS (data @ more)) else retS data) (\<lambda>data.
     liftS (read_answer data)))"

definition xfer :: "'w tty_env \<Rightarrow> bytes \<Rightarrow> ('w, int) sm" where
  "xfer env cmd = bindS (chip_send env cmd) (\<lambda>_. chip_recv env)"

section \<open>keyboard.py\<close>

record ch_keyboard =
  ck_mods :: int
  ck_keys :: "int list"

definition ch_keyboard_init :: ch_keyboard where
  "ch_keyboard_init = \<lparr>ck_mods = 0, ck_keys = []\<rparr>"

definition ck_leds_of :: "int \<Rightarrow> kb_leds" where
  "ck_leds_of led_byte = \<lparr>led_caps = bit_set (drop_bit 1 led_byte) 1, led_scroll = bit_set (drop_bit 2 led_byte) 1, led_num = bit_set led_byte 1\<rparr>"

definition ck_update :: "usb_key \<Rightarrow> bool \<Rightarrow> ch_keyboard \<Rightarrow> ch_keyboard" where
  "ck_update u state kb =
     (if state then
        (if uk_mod u then kb\<lparr>ck_mods := ck_mods kb OR uk_code u\<rparr>
         else if length (ck_keys kb) < 6 \<and> uk_code u \<notin> set (ck_keys kb) then kb\<lparr>ck_keys := ck_keys kb @ [uk_code u]\<rparr> else kb)
      else
        (if uk_mod u then kb\<lparr>ck_mods := ck_mods kb AND NOT (uk_code u)\<rparr>
         else if uk_code u \<in> set (ck_keys kb) then kb\<lparr>ck_keys := remove1 (uk_code u) (ck_keys kb)\<rparr> else kb))"

definition ck_command :: "ch_keyboard \<Rightarrow> bytes result" where
  "ck_command kb = bindR (if length (ck_keys kb) \<le> 6 then Inr () else Inl IndexError) (\<lambda>_.
     py_bytes ([0, 0x02, 0x08, ck_mods kb, 0] @ ck_keys kb @ replicate (6 - length (ck_keys kb)) 0))"

definition ck_process_key :: "ecodes \<Rightarrow> int \<Rightarrow> bool \<Rightarrow> (ch_keyboard, bytes) sm" where
  "ck_process_key ec key state = bindS (liftS (dict_at (keymap ec) key)) (\<lambda>k.
     bindS (modifyS (ck_update (ky_usb k) state)) (\<lambda>_. getS (\<lambda>kb. liftS (ck_command kb))))"

section \<open>mouse.py\<close>

text \<open>The divisions are those of floats, exact enough in these ranges that rounding up gives the same.\<close>

record ch_mouse =
  cm_absolute :: bool
  cm_buttons :: int
  cm_to_x :: "int \<times> int"
  cm_to_y :: "int \<times> int"
  cm_delta_x :: int
  cm_delta_y :: int
  cm_wheel_y :: int

definition ch_mouse_init :: ch_mouse where
  "ch_mouse_init = \<lparr>cm_absolute = True, cm_buttons = 0, cm_to_x = (0, 0), cm_to_y = (0, 0), cm_delta_x = 0, cm_delta_y = 0, cm_wheel_y = 0\<rparr>"

definition ceil_div :: "int \<Rightarrow> int \<Rightarrow> int" where
  "ceil_div a b = - ((- a) div b)"

definition fix_absolute :: "int \<Rightarrow> (int \<times> int) result" where
  "fix_absolute v = assertR (in_range v)
     (let fixed = ceil_div (range_remap v 0 range_max) 8 in Inr (drop_bit 8 fixed, fixed AND 0xFF))"

definition fix_relative :: "int \<Rightarrow> int result" where
  "fix_relative v = assertR (in_delta v) (let v = ceil_div v 3 in Inr (if v \<ge> 0 then v else 255 + v))"

definition make_absolute_cmd :: "ch_mouse \<Rightarrow> bytes result" where
  "make_absolute_cmd m = py_bytes [0, 0x04, 0x07, 0x02, cm_buttons m,
     snd (cm_to_x m), fst (cm_to_x m), snd (cm_to_y m), fst (cm_to_y m), cm_wheel_y m]"

definition make_relative_cmd :: "ch_mouse \<Rightarrow> bytes result" where
  "make_relative_cmd m = py_bytes [0, 0x05, 0x05, 0x01, cm_buttons m, cm_delta_x m, cm_delta_y m, cm_wheel_y m]"

definition make_mouse_cmd :: "(ch_mouse, bytes) sm" where
  "make_mouse_cmd = getS (\<lambda>m. liftS (if \<not> cm_absolute m then make_relative_cmd m else make_absolute_cmd m))"

definition ch_button_code :: "ecodes \<Rightarrow> int \<Rightarrow> int" where
  "ch_button_code ec button =
     (if button = ec ''BTN_LEFT'' then 0x01 else if button = ec ''BTN_RIGHT'' then 0x02
      else if button = ec ''BTN_MIDDLE'' then 0x04 else if button = ec ''BTN_BACK'' then 0x08
      else if button = ec ''BTN_FORWARD'' then 0x10 else 0x00)"

definition process_button :: "ecodes \<Rightarrow> int \<Rightarrow> bool \<Rightarrow> (ch_mouse, bytes) sm" where
  "process_button ec button state = (let code = ch_button_code ec button in
     bindS (whenS (code \<noteq> 0) (modifyS (\<lambda>m. m\<lparr>cm_buttons := (if state then cm_buttons m OR code else cm_buttons m AND NOT code)\<rparr>))) (\<lambda>_.
     bindS (modifyS (\<lambda>m. m\<lparr>cm_wheel_y := 0\<rparr>)) (\<lambda>_. make_mouse_cmd)))"

definition process_move :: "int \<Rightarrow> int \<Rightarrow> (ch_mouse, bytes) sm" where
  "process_move to_x to_y =
     bindS (liftS (fix_absolute to_x)) (\<lambda>x. bindS (modifyS (\<lambda>m. m\<lparr>cm_to_x := x\<rparr>)) (\<lambda>_.
     bindS (liftS (fix_absolute to_y)) (\<lambda>y. bindS (modifyS (\<lambda>m. m\<lparr>cm_to_y := y, cm_wheel_y := 0\<rparr>)) (\<lambda>_.
     getS (\<lambda>m. liftS (make_absolute_cmd m))))))"

definition process_wheel :: "int \<Rightarrow> int \<Rightarrow> (ch_mouse, bytes) sm" where
  "process_wheel delta_x delta_y = assertS (in_delta delta_y)
     (bindS (modifyS (\<lambda>m. m\<lparr>cm_wheel_y := (if delta_y > 0 then 1 else 255)\<rparr>)) (\<lambda>_. make_mouse_cmd))"

definition process_relative :: "int \<Rightarrow> int \<Rightarrow> (ch_mouse, bytes) sm" where
  "process_relative delta_x delta_y =
     bindS (liftS (fix_relative delta_x)) (\<lambda>x. bindS (modifyS (\<lambda>m. m\<lparr>cm_delta_x := x\<rparr>)) (\<lambda>_.
     bindS (liftS (fix_relative delta_y)) (\<lambda>y. bindS (modifyS (\<lambda>m. m\<lparr>cm_delta_y := y, cm_wheel_y := 0\<rparr>)) (\<lambda>_.
     getS (\<lambda>m. liftS (make_relative_cmd m))))))"

section \<open>The plugin\<close>

record 'w ch9329 =
  cp_queue :: "bytes list"
  cp_stop :: bool
  cp_reset :: bool
  cp_online :: bool
  cp_busy :: bool
  cp_connected :: bool
  cp_leds :: kb_leds
  cp_notified :: nat
  cp_keyboard :: ch_keyboard
  cp_mouse :: ch_mouse
  cp_world :: 'w

definition ch9329_init :: "'w \<Rightarrow> 'w ch9329" where
  "ch9329_init w = \<lparr>cp_queue = [], cp_stop = False, cp_reset = False, cp_online = False, cp_busy = False, cp_connected = False,
     cp_leds = kb_leds_init, cp_notified = 0, cp_keyboard = ch_keyboard_init, cp_mouse = ch_mouse_init, cp_world = w\<rparr>"

definition queue_cmd :: "bytes \<Rightarrow> bool \<Rightarrow> ('w ch9329, unit) sm" where
  "queue_cmd cmd clear = getS (\<lambda>p. whenS (\<not> cp_stop p)
     (modifyS (\<lambda>p. p\<lparr>cp_queue := (if clear then [] else cp_queue p) @ [cmd]\<rparr>)))"

definition on_keyboard :: "(ch_keyboard, 'a) sm \<Rightarrow> ('w ch9329, 'a) sm" where
  "on_keyboard m p = (case m (cp_keyboard p) of (r, k) \<Rightarrow> (r, p\<lparr>cp_keyboard := k\<rparr>))"

definition on_mouse :: "(ch_mouse, 'a) sm \<Rightarrow> ('w ch9329, 'a) sm" where
  "on_mouse m p = (case m (cp_mouse p) of (r, k) \<Rightarrow> (r, p\<lparr>cp_mouse := k\<rparr>))"

definition on_tty :: "('w, 'a) sm \<Rightarrow> ('w ch9329, 'a) sm" where
  "on_tty m p = (case m (cp_world p) of (r, w) \<Rightarrow> (r, p\<lparr>cp_world := w\<rparr>))"

definition ch_clear_events :: "('w ch9329, unit) sm" where
  "ch_clear_events = modifyS (\<lambda>p. p\<lparr>cp_queue := []\<rparr>)"

definition ch9329_ops :: "ecodes \<Rightarrow> 'w ch9329 hid_ops" where
  "ch9329_ops ec =
     \<lparr>op_key = (\<lambda>key state. bindS (on_keyboard (ck_process_key ec key state)) (\<lambda>cmd. queue_cmd cmd False)),
      op_button = (\<lambda>button state. bindS (on_mouse (process_button ec button state)) (\<lambda>cmd. queue_cmd cmd False)),
      op_move = (\<lambda>x y. bindS (on_mouse (process_move x y)) (\<lambda>cmd. queue_cmd cmd False)),
      op_relative = (\<lambda>dx dy. bindS (on_mouse (process_relative dx dy)) (\<lambda>cmd. queue_cmd cmd False)),
      op_wheel = (\<lambda>dx dy. bindS (on_mouse (process_wheel dx dy)) (\<lambda>cmd. queue_cmd cmd False)),
      op_clear = ch_clear_events\<rparr>"

definition ch_set_params :: "string option \<Rightarrow> bool option \<Rightarrow> ('w ch9329 base_hid, unit) sm" where
  "ch_set_params mouse_output jiggler =
     bindS (case mouse_output of None \<Rightarrow> retS ()
       | Some output \<Rightarrow> (let absolute = (output = ''usb'') in
           bindS (on_dev (modifyS (\<lambda>p. p\<lparr>cp_mouse := (cp_mouse p)\<lparr>cm_absolute := absolute\<rparr>\<rparr>))) (\<lambda>_.
           bindS (modifyS (set_jiggler_absolute absolute)) (\<lambda>_.
           on_dev (modifyS (\<lambda>p. p\<lparr>cp_notified := cp_notified p + 1\<rparr>)))))) (\<lambda>_.
     case jiggler of None \<Rightarrow> retS ()
       | Some active \<Rightarrow> bindS (modifyS (set_jiggler_active active)) (\<lambda>_. on_dev (modifyS (\<lambda>p. p\<lparr>cp_notified := cp_notified p + 1\<rparr>))))"

definition ch_reset :: "('w ch9329, unit) sm" where
  "ch_reset = modifyS (\<lambda>p. p\<lparr>cp_reset := True\<rparr>)"

record ch_state =
  cs_online :: bool
  cs_leds :: kb_leds
  cs_absolute :: bool
  cs_active :: string
  cs_jiggler :: jiggler_state

definition ch_get_state :: "'w ch9329 base_hid \<Rightarrow> ch_state" where
  "ch_get_state h = (let p = bh_dev h; absolute = cm_absolute (cp_mouse p) in
     \<lparr>cs_online = cp_online p, cs_leds = cp_leds p, cs_absolute = absolute,
      cs_active = (if absolute then ''usb'' else ''usb_rel''), cs_jiggler = get_jiggler_state h\<rparr>)"

subsection \<open>The process\<close>

definition set_state_online :: "bool \<Rightarrow> ('w ch9329, unit) sm" where
  "set_state_online online = modifyS (\<lambda>p. if cp_online p = online then p else p\<lparr>cp_online := online, cp_notified := cp_notified p + 1\<rparr>)"

definition set_state_busy :: "bool \<Rightarrow> ('w ch9329, unit) sm" where
  "set_state_busy busy = modifyS (\<lambda>p. if cp_busy p = busy then p else p\<lparr>cp_busy := busy, cp_notified := cp_notified p + 1\<rparr>)"

definition process_cmd :: "'w tty_env \<Rightarrow> bytes \<Rightarrow> ('w ch9329, unit) sm" where
  "process_cmd env cmd = exceptS
     (bindS (on_tty (xfer env cmd)) (\<lambda>led_byte.
      bindS (whenS (led_byte \<ge> 0) (modifyS (\<lambda>p. p\<lparr>cp_leds := ck_leds_of led_byte, cp_notified := cp_notified p + 1\<rparr>))) (\<lambda>_.
      set_state_online True)))
     (\<lambda>e. if e = ChipResponseError then Some (set_state_online False) else None)"

text \<open>A turn of the loop; the line is opened when the last turn lost it.\<close>

definition ch_turn :: "'w tty_env \<Rightarrow> ('w ch9329, unit) sm" where
  "ch_turn env =
     bindS (getS (\<lambda>p. whenS (\<not> cp_connected p) (bindS (on_tty (ty_open env)) (\<lambda>_. modifyS (\<lambda>p. p\<lparr>cp_connected := True\<rparr>))))) (\<lambda>_.
     bindS (getS (\<lambda>p. whenS (cp_reset p) (bindS (set_state_busy True) (\<lambda>_. modifyS (\<lambda>p. p\<lparr>cp_reset := False\<rparr>))))) (\<lambda>_.
     getS (\<lambda>p. case cp_queue p of
         [] \<Rightarrow> process_cmd env []
       | cmd # cmds \<Rightarrow> bindS (modifyS (\<lambda>p. p\<lparr>cp_queue := cmds\<rparr>)) (\<lambda>_. process_cmd env cmd))))"

definition ch_loop_turn :: "'w tty_env \<Rightarrow> ('w ch9329, unit) sm" where
  "ch_loop_turn env = exceptS (ch_turn env) (\<lambda>_. Some (bindS ch_clear_events (\<lambda>_. modifyS (\<lambda>p. p\<lparr>cp_connected := False\<rparr>))))"

end
