(* ===== verification/ChipRuns.thy ===== *)
theory ChipRuns
  imports Ch9329
begin

text \<open>
  What the CH9329 gets: the keys that are held, every queued command once and in order, answers it can trust; and
  what its mouse really does.
\<close>

section \<open>What the chip is told of the keyboard\<close>

text \<open>The keys held: a seventh key that is no modifier is not taken.\<close>

definition chip_step :: "usb_key \<times> bool \<Rightarrow> usb_key set \<Rightarrow> usb_key set" where
  "chip_step us H = (case us of (u, state) \<Rightarrow>
     if \<not> state then H - {u} else if uk_mod u \<or> u \<in> H \<or> card {v \<in> H. \<not> uk_mod v} < 6 then insert u H else H)"

definition ck_holds :: "ch_keyboard \<Rightarrow> usb_key set \<Rightarrow> bool" where
  "ck_holds kb H = (0 \<le> ck_mods kb \<and> ck_mods kb < 256
     \<and> (\<forall>u. table_key u \<and> uk_mod u \<longrightarrow> (bit_set (ck_mods kb) (uk_code u) \<longleftrightarrow> u \<in> H))
     \<and> (\<forall>u \<in> H. table_key u)
     \<and> (\<exists>us. distinct us \<and> length us \<le> 6 \<and> set us = {u \<in> H. \<not> uk_mod u} \<and> ck_keys kb = map uk_code us))"

lemma inj_plain: "inj_on uk_code {u :: usb_key. \<not> uk_mod u}"
  by (rule inj_onI, rule table_key_eq) simp_all

lemma remove1_map: "inj_on f (insert x (set xs)) \<Longrightarrow> remove1 (f x) (map f xs) = map f (remove1 x xs)"
  by (induction xs) (auto simp: inj_on_def)

lemma bit_set_and_not: "m \<in> {1, 2, 4, 8, 16, 32, 64, 128} \<Longrightarrow> c \<in> {1, 2, 4, 8, 16, 32, 64, 128} \<Longrightarrow>
   bit_set (x AND NOT m) c \<longleftrightarrow> bit_set x c \<and> c \<noteq> m" for x m c :: int
proof -
  assume m: "m \<in> {1, 2, 4, 8, 16, 32, 64, 128}" "c \<in> {1, 2, 4, 8, 16, 32, 64, 128}"
  have "(x AND NOT m) AND c = x AND (NOT m AND c)" by (simp add: and.assoc)
  moreover have "NOT m AND c = (if c = m then 0 else c)" using m by auto
  ultimately show ?thesis by (simp add: bit_set_def)
qed

lemma and_not_byte: "0 \<le> x \<Longrightarrow> x < 256 \<Longrightarrow> 0 \<le> x AND NOT m \<and> x AND NOT m < 256" for x m :: int
  using AND_upper1 [of x "NOT m"] AND_lower [of x "NOT m"] by simp

lemma ck_update_holds:
  assumes "ck_holds kb H" and u: "table_key u"
  shows "ck_holds (ck_update u state kb) (chip_step (u, state) H)"
proof -
  obtain us where k: "0 \<le> ck_mods kb" "ck_mods kb < 2 ^ 8"
      "\<forall>u. table_key u \<and> uk_mod u \<longrightarrow> (bit_set (ck_mods kb) (uk_code u) \<longleftrightarrow> u \<in> H)" "\<forall>u \<in> H. table_key u"
      "distinct us" "length us \<le> 6" "set us = {u \<in> H. \<not> uk_mod u}" "ck_keys kb = map uk_code us"
    using assms(1) by (auto simp: ck_holds_def)
  show ?thesis
  proof (cases "uk_mod u")
    case True
    have c: "0 \<le> uk_code u" "uk_code u < 2 ^ 8" using table_key_facts(1,2) [OF u] by simp_all
    have bits: "bit_set (ck_mods kb OR uk_code u) (uk_code v) \<longleftrightarrow> v \<in> insert u H"
      "bit_set (ck_mods kb AND NOT (uk_code u)) (uk_code v) \<longleftrightarrow> v \<in> H - {u}" if v: "table_key v" "uk_mod v" for v
      using k(3) v modifier_codes_and [OF u True v] bit_set_and_not [OF table_key_facts(3) [OF u True] table_key_facts(3) [OF v]]
        table_key_eq [of v u] True by (auto simp: bit_set_or)
    have "ck_mods kb OR uk_code u < 2 ^ 8" "0 \<le> ck_mods kb OR uk_code u" using or_bound [OF k(1,2) c] k(1) c by simp_all
    moreover have "{v \<in> insert u H. \<not> uk_mod v} = set us" "{v \<in> H - {u}. \<not> uk_mod v} = set us" using True k(7) by auto
    ultimately show ?thesis
      using k u True bits and_not_byte [of "ck_mods kb" "uk_code u"] by (auto simp: ck_holds_def ck_update_def chip_step_def)
  next
    case False
    have inj: "inj_on uk_code (insert u (set us))" using False k(7) by (auto intro: inj_on_subset [OF inj_plain])
    then have mem: "uk_code u \<in> set (ck_keys kb) \<longleftrightarrow> u \<in> H" using k(7,8) False by (auto dest: inj_onD)
    have card: "card {v \<in> H. \<not> uk_mod v} = length (ck_keys kb)" using k(5,7,8) by (metis distinct_card length_map)
    have mods: "\<forall>v. table_key v \<and> uk_mod v \<longrightarrow> (bit_set (ck_mods kb) (uk_code v) \<longleftrightarrow> v \<in> insert u H)"
      "\<forall>v. table_key v \<and> uk_mod v \<longrightarrow> (bit_set (ck_mods kb) (uk_code v) \<longleftrightarrow> v \<in> H - {u})"
      using k(3) False by auto
    consider "state" "u \<in> H" | "state" "u \<notin> H" "length us < 6" | "state" "u \<notin> H" "\<not> length us < 6" | "\<not> state" by blast
    then show ?thesis
    proof cases
      case 1
      then show ?thesis using assms(1) False mem by (simp add: ck_update_def chip_step_def insert_absorb)
    next
      case 2
      have "ck_keys (ck_update u state kb) = map uk_code (us @ [u])" "ck_mods (ck_update u state kb) = ck_mods kb"
        "chip_step (u, state) H = insert u H"
        using 2 False mem card k(8) by (simp_all add: ck_update_def chip_step_def)
      moreover have "distinct (us @ [u])" "length (us @ [u]) \<le> 6" "set (us @ [u]) = {v \<in> insert u H. \<not> uk_mod v}"
        using 2 False k(5-7) by auto
      ultimately have "\<exists>us'. distinct us' \<and> length us' \<le> 6 \<and> set us' = {v \<in> insert u H. \<not> uk_mod v}
          \<and> ck_keys (ck_update u state kb) = map uk_code us'" "ck_mods (ck_update u state kb) = ck_mods kb"
        "chip_step (u, state) H = insert u H" by blast+
      then show ?thesis using k(1,2,4) mods(1) u unfolding ck_holds_def by simp
    next
      case 3
      then show ?thesis using assms(1) False mem card k(8) by (simp add: ck_update_def chip_step_def)
    next
      case 4
      have "ck_keys (ck_update u state kb) = map uk_code (remove1 u us)" "ck_mods (ck_update u state kb) = ck_mods kb"
        using 4 False remove1_map [OF inj] k(8) by (auto simp: ck_update_def remove1_idem)
      moreover have "distinct (remove1 u us)" "length (remove1 u us) \<le> 6" "set (remove1 u us) = {v \<in> H - {u}. \<not> uk_mod v}"
        using k(5-7) by (auto simp: length_remove1)
      ultimately show ?thesis using k(1,2,4) mods(2) 4 unfolding ck_holds_def chip_step_def by auto
    qed
  qed
qed

lemma ck_command_holds:
  assumes "ck_holds kb H"
  shows "\<exists>r. ck_command kb = Inr ([0, 2, 8] @ r) \<and> shows_keys r H"
proof -
  obtain us where k: "0 \<le> ck_mods kb" "ck_mods kb < 256"
      "\<forall>u. table_key u \<and> uk_mod u \<longrightarrow> (bit_set (ck_mods kb) (uk_code u) \<longleftrightarrow> u \<in> H)" "\<forall>u \<in> H. table_key u"
      "length us \<le> 6" "set us = {u \<in> H. \<not> uk_mod u}" "ck_keys kb = map uk_code us"
    using assms by (auto simp: ck_holds_def)
  let ?r = "[ck_mods kb, 0] @ ck_keys kb @ replicate (6 - length (ck_keys kb)) 0"
  have "bytes_ok (0 # 2 # 8 # ?r)" using k table_key_facts(1,2)
    by (fastforce simp: bytes_ok_def list_all_iff less_imp_le)
  then have "ck_command kb = Inr ([0, 2, 8] @ ?r)" using k(5,7) by (simp add: ck_command_def py_bytes_def)
  moreover have "shows_keys ?r H" unfolding shows_keys_def
  proof (intro conjI allI impI)
    fix u
    assume u: "table_key u"
    show "down_in ?r u \<longleftrightarrow> u \<in> H"
    proof (cases "uk_mod u")
      case True
      then show ?thesis using k(3) u by (simp add: down_in_def)
    next
      case False
      have "uk_code u \<in> uk_code ` set us \<longleftrightarrow> u \<in> set us" using False k(6) inj_plain by (auto dest: inj_onD)
      then show ?thesis using False table_key_facts(1) [OF u] k(6,7) by (simp add: down_in_def)
    qed
  qed (use k(5,7) in simp)
  ultimately show ?thesis by blast
qed

lemma forS_snoc: "forS (xs @ [x]) f = bindS (forS xs f) (\<lambda>_. f x)"
  by (induction xs) (auto simp: bindS_def retS_def fun_eq_iff split: prod.splits sum.splits)

definition chip_held :: "ecodes \<Rightarrow> (int \<times> bool) list \<Rightarrow> usb_key set" where
  "chip_held ec ks = fold (\<lambda>(key, state). chip_step (ky_usb (the (map_of (keymap ec) key)), state)) ks {}"

lemma queue_open: "\<not> cp_stop p \<Longrightarrow> queue_cmd cmd False p = (Inr (), p\<lparr>cp_queue := cp_queue p @ [cmd]\<rparr>)"
  by (simp add: queue_cmd_def getS_def whenS_def modifyS_def)

lemma process_key_holds:
  assumes "ck_holds (cp_keyboard p) H" "map_of (keymap ec) key = Some k" "\<not> cp_stop p"
  shows "\<exists>kb r. op_key (ch9329_ops ec) key state p = (Inr (), p\<lparr>cp_keyboard := kb, cp_queue := cp_queue p @ [[0, 2, 8] @ r]\<rparr>)
    \<and> ck_holds kb (chip_step (ky_usb k, state) H) \<and> shows_keys r (chip_step (ky_usb k, state) H)"
proof -
  let ?kb = "ck_update (ky_usb k) state (cp_keyboard p)"
  have h: "ck_holds ?kb (chip_step (ky_usb k, state) H)"
    by (rule ck_update_holds [OF assms(1) keymap_table_key [OF assms(2)]])
  then obtain r where r: "ck_command ?kb = Inr ([0, 2, 8] @ r)" "shows_keys r (chip_step (ky_usb k, state) H)"
    using ck_command_holds by blast
  have "on_keyboard (ck_process_key ec key state) p = (Inr ([0, 2, 8] @ r), p\<lparr>cp_keyboard := ?kb\<rparr>)"
    using assms(2) r(1) by (simp add: on_keyboard_def ck_process_key_def dict_at_def getS_def liftS_def modifyS_def)
  then have "op_key (ch9329_ops ec) key state p = queue_cmd ([0, 2, 8] @ r) False (p\<lparr>cp_keyboard := ?kb\<rparr>)"
    by (simp add: ch9329_ops_def bindS_def)
  then have "op_key (ch9329_ops ec) key state p = (Inr (), p\<lparr>cp_keyboard := ?kb, cp_queue := cp_queue p @ [[0, 2, 8] @ r]\<rparr>)"
    using assms(3) by (simp add: queue_open)
  then show ?thesis using h r(2) by blast
qed

lemma ch_keyboard_init_holds: "ck_holds ch_keyboard_init {}"
  by (auto simp: ck_holds_def ch_keyboard_init_def bit_set_def)

lemma chip_held_snoc:
  "map_of (keymap ec) key = Some k \<Longrightarrow> chip_held ec (ks @ [(key, state)]) = chip_step (ky_usb k, state) (chip_held ec ks)"
  by (simp add: chip_held_def)

text \<open>
  C37. The CH9329 is told which keys are held: for any sequence of presses and releases of known keys, the plugin
  queues one command per event, and the command of each event carries a report that shows exactly the keys held
  after it (a seventh key that is no modifier is left out).
\<close>
theorem chip_told_held_keys:
  assumes "\<forall>(key, state) \<in> set ks. map_of (keymap ec) key \<noteq> None"
  shows "\<exists>p. forS ks (\<lambda>(key, state). op_key (ch9329_ops ec) key state) (ch9329_init w) = (Inr (), p)
    \<and> length (cp_queue p) = length ks
    \<and> (\<forall>i < length ks. take 3 (cp_queue p ! i) = [0, 2, 8] \<and> shows_keys (drop 3 (cp_queue p ! i)) (chip_held ec (take (Suc i) ks)))"
proof -
  have "\<exists>p. forS ks (\<lambda>(key, state). op_key (ch9329_ops ec) key state) (ch9329_init w) = (Inr (), p)
    \<and> \<not> cp_stop p \<and> ck_holds (cp_keyboard p) (chip_held ec ks) \<and> length (cp_queue p) = length ks
    \<and> (\<forall>i < length ks. take 3 (cp_queue p ! i) = [0, 2, 8] \<and> shows_keys (drop 3 (cp_queue p ! i)) (chip_held ec (take (Suc i) ks)))"
    using assms
  proof (induction ks rule: rev_induct)
    case Nil
    then show ?case by (simp add: retS_def ch9329_init_def chip_held_def ch_keyboard_init_holds)
  next
    case (snoc ks0 ks)
    obtain key state where e: "ks0 = (key, state)" by fastforce
    then obtain k where k: "map_of (keymap ec) key = Some k" using snoc.prems by auto
    from snoc obtain p where p: "forS ks (\<lambda>(key, state). op_key (ch9329_ops ec) key state) (ch9329_init w) = (Inr (), p)"
      "\<not> cp_stop p" "ck_holds (cp_keyboard p) (chip_held ec ks)" "length (cp_queue p) = length ks"
      "\<forall>i < length ks. take 3 (cp_queue p ! i) = [0, 2, 8] \<and> shows_keys (drop 3 (cp_queue p ! i)) (chip_held ec (take (Suc i) ks))"
      by auto
    obtain kb r where r: "op_key (ch9329_ops ec) key state p = (Inr (), p\<lparr>cp_keyboard := kb, cp_queue := cp_queue p @ [[0, 2, 8] @ r]\<rparr>)"
      "ck_holds kb (chip_held ec (ks @ [ks0]))" "shows_keys r (chip_held ec (ks @ [ks0]))"
      using process_key_holds [OF p(3) k p(2)] chip_held_snoc [OF k] e by metis
    let ?p = "p\<lparr>cp_keyboard := kb, cp_queue := cp_queue p @ [[0, 2, 8] @ r]\<rparr>"
    have "forS (ks @ [ks0]) (\<lambda>(key, state). op_key (ch9329_ops ec) key state) (ch9329_init w) = (Inr (), ?p)"
      using p(1) r(1) e by (simp add: forS_snoc bindS_def)
    moreover have "take 3 (cp_queue ?p ! i) = [0, 2, 8] \<and> shows_keys (drop 3 (cp_queue ?p ! i)) (chip_held ec (take (Suc i) (ks @ [ks0])))"
      if "i < length (ks @ [ks0])" for i
      using that p(4,5) r(3) by (cases "i < length ks") (auto simp: nth_append less_Suc_eq)
    ultimately show ?case using p(2,4) r(2) by (intro exI [of _ ?p]) simp
  qed
  then show ?thesis by blast
qed

theorem chip_told_held_keys_witness:
  "\<exists>p. forS [(count_names ''KEY_LEFTSHIFT'', True), (count_names ''KEY_A'', True)]
      (\<lambda>(key, state). op_key (ch9329_ops count_names) key state) (ch9329_init ()) = (Inr (), p)
    \<and> shows_keys (drop 3 (cp_queue p ! 1)) {\<lparr>uk_code = 2, uk_mod = True\<rparr>, \<lparr>uk_code = 4, uk_mod = False\<rparr>}"
proof -
  let ?ks = "[(count_names ''KEY_LEFTSHIFT'', True), (count_names ''KEY_A'', True)]"
  have none: "{v :: usb_key. v = \<lparr>uk_code = 2, uk_mod = True\<rparr> \<and> \<not> uk_mod v} = {}" by auto
  have held: "chip_held count_names (take (Suc 1) ?ks) = {\<lparr>uk_code = 2, uk_mod = True\<rparr>, \<lparr>uk_code = 4, uk_mod = False\<rparr>}"
    using keymap_sample by (auto simp: chip_held_def chip_step_def mk_key_def none)
  have "\<forall>(key, state) \<in> set ?ks. map_of (keymap count_names) key \<noteq> None" using keymap_sample by simp
  from chip_told_held_keys [OF this, of "()"]
  obtain p where p: "forS ?ks (\<lambda>(key, state). op_key (ch9329_ops count_names) key state) (ch9329_init ()) = (Inr (), p)"
    "\<forall>i < length ?ks. take 3 (cp_queue p ! i) = [0, 2, 8] \<and> shows_keys (drop 3 (cp_queue p ! i)) (chip_held count_names (take (Suc i) ?ks))"
    by blast
  have "1 < length ?ks" by simp
  with p(2) have "shows_keys (drop 3 (cp_queue p ! 1)) (chip_held count_names (take (Suc 1) ?ks))" by blast
  then show ?thesis unfolding held using p(1) by blast
qed

section \<open>The line\<close>

text \<open>An answer of the chip: header, address, command with the answer bit, length, data and the sum.\<close>

definition chip_answer :: "int \<Rightarrow> bytes \<Rightarrow> bytes" where
  "chip_answer cmd payload = (let a = [0x57, 0xAB, 0, cmd, int (length payload)] @ payload in a @ [make_checksum a])"

lemma sum_list_update_int: "i < length xs \<Longrightarrow> sum_list (xs[i := b]) = sum_list xs + b - xs ! i" for xs :: "int list"
  by (induction xs arbitrary: i) (auto split: nat.splits)

lemma butlast_update: "butlast (xs[i := b]) = (if Suc i = length xs then butlast xs else (butlast xs)[i := b])"
  by (cases "xs = []") (auto simp: butlast_list_update)

text \<open>
  C39. A corrupted byte of an answer is noticed: whatever a valid answer says, with any one of its bytes changed
  (the length apart, after which other bytes are read) it is an error of the response and no state is taken from it.
\<close>
theorem corrupted_answer_noticed:
  assumes "bytes_ok a" "make_checksum (butlast a) = last a" "i < length a" "0 \<le> b" "b < 256" "b \<noteq> a ! i"
  shows "read_answer (a[i := b]) = Inl ChipResponseError"
proof -
  have ne: "a \<noteq> []" using assms(3) by auto
  have byte: "0 \<le> a ! i" "a ! i < 256" using assms(1,3) by (auto simp: bytes_ok_def list_all_iff)
  have "make_checksum (butlast (a[i := b])) \<noteq> last (a[i := b])"
  proof (cases "Suc i = length a")
    case True
    then have "i = length a - 1" by simp
    then have "last (a[i := b]) = b" "last a = a ! i" using ne by (simp_all add: last_list_update last_conv_nth)
    then show ?thesis using True assms(2,6) by (simp add: butlast_update)
  next
    case False
    then have i: "i < length (butlast a)" "butlast a ! i = a ! i" using assms(3) by (auto simp: nth_butlast)
    have "last (a[i := b]) = last a" using False ne assms(3) by (auto simp: last_list_update)
    moreover have "(sum_list (butlast a) + b - a ! i) mod 256 \<noteq> sum_list (butlast a) mod 256"
    proof
      assume "(sum_list (butlast a) + b - a ! i) mod 256 = sum_list (butlast a) mod 256"
      then have "256 dvd b - a ! i" by (simp add: mod_eq_dvd_iff)
      then obtain k where k: "b - a ! i = 256 * k" by (auto simp: dvd_def)
      then have "k = 0" using byte assms(4,5) by linarith
      then show False using k assms(6) by simp
    qed
    ultimately show ?thesis using False assms(2) i by (simp add: butlast_update make_checksum_def sum_list_update_int)
  qed
  then show ?thesis by (simp add: read_answer_def)
qed

theorem corrupted_answer_noticed_witness:
  "read_answer (chip_answer 0x81 [0x30, 1, 2, 0]) = Inr 2 \<and> read_answer ((chip_answer 0x81 [0x30, 1, 2, 0])[7 := 3]) = Inl ChipResponseError"
  using corrupted_answer_noticed [of "chip_answer 0x81 [0x30, 1, 2, 0]" 7 3]
  by (simp add: chip_answer_def Let_def make_checksum_def bytes_ok_def read_answer_def py_get_def py_index_def numeral_eq_Suc)

subsection \<open>A chip that answers\<close>

text \<open>What came over the line, and the bytes of the answer that were not read yet.  The answer to a frame is any
  valid one without an error.\<close>

record chip_world =
  cw_sent :: "bytes list"
  cw_input :: bytes

definition sim_chip :: "(bytes \<Rightarrow> int \<times> bytes) \<Rightarrow> chip_world tty_env" where
  "sim_chip answer = \<lparr>ty_open = retS (),
     ty_write = (\<lambda>frame. modifyS (\<lambda>w. w\<lparr>cw_sent := cw_sent w @ [frame], cw_input := cw_input w @ (case answer frame of (cmd, payload) \<Rightarrow> chip_answer cmd payload)\<rparr>)),
     ty_read = (\<lambda>n. getS (\<lambda>w. bindS (modifyS (\<lambda>w. w\<lparr>cw_input := drop n (cw_input w)\<rparr>)) (\<lambda>_. retS (take n (cw_input w)))))\<rparr>"

definition answers_well :: "(bytes \<Rightarrow> int \<times> bytes) \<Rightarrow> bool" where
  "answers_well answer = (\<forall>frame. case answer frame of (cmd, payload) \<Rightarrow>
     bytes_ok payload \<and> payload \<noteq> [] \<and> length payload < 256 \<and> 0 \<le> cmd \<and> cmd < 256
     \<and> (length payload = 1 \<longrightarrow> payload = [0]) \<and> (cmd = 0x81 \<longrightarrow> 3 \<le> length payload))"

lemma read_answer_valid:
  assumes "payload \<noteq> []" "length payload = 1 \<longrightarrow> payload = [0]" "cmd = 0x81 \<longrightarrow> 3 \<le> length payload"
  shows "read_answer (chip_answer cmd payload) = Inr (if cmd = 0x81 then payload ! 2 else - 1)"
proof -
  have "py_get (chip_answer cmd payload) 5 = Inr (payload ! 0)"
    using assms(1) by (cases payload) (simp_all add: chip_answer_def Let_def py_get_def py_index_def numeral_eq_Suc)
  moreover have "py_get (chip_answer cmd payload) 7 = Inr (payload ! 2)" if "3 \<le> length payload"
    using that by (cases payload; cases "tl payload"; cases "tl (tl payload)")
      (simp_all add: chip_answer_def Let_def py_get_def py_index_def numeral_eq_Suc)
  moreover have "chip_answer cmd payload ! 4 = int (length payload)" "chip_answer cmd payload ! 3 = cmd"
    "make_checksum (butlast (chip_answer cmd payload)) = last (chip_answer cmd payload)"
    by (simp_all add: chip_answer_def Let_def numeral_eq_Suc)
  ultimately show ?thesis using assms by (auto simp: read_answer_def split: if_splits)
qed

lemma xfer_sim:
  assumes "answers_well answer" "cw_input w = []"
  shows "\<exists>v. xfer (sim_chip answer) cmd w = (Inr v, w\<lparr>cw_sent := cw_sent w @ [chip_frame cmd], cw_input := []\<rparr>)"
proof -
  obtain c payload where a: "answer (chip_frame cmd) = (c, payload)" by fastforce
  then have p: "payload \<noteq> []" "length payload = 1 \<longrightarrow> payload = [0]" "c = 0x81 \<longrightarrow> 3 \<le> length payload"
    using assms(1) by (auto simp: answers_well_def dest!: spec [of _ "chip_frame cmd"])
  let ?a = "chip_answer c payload"
  have len: "length ?a = 6 + length payload" by (simp add: chip_answer_def Let_def)
  have n4: "?a ! 4 = int (length payload)" by (simp add: chip_answer_def Let_def numeral_eq_Suc)
  have rest: "take (nat (?a ! 4 + 1)) (drop 5 ?a) = drop 5 ?a" "drop (nat (?a ! 4 + 1)) (drop 5 ?a) = []" using len n4 by simp_all
  have "take 5 ?a ! 4 = ?a ! 4" by simp
  then show ?thesis using a p(1) len n4 rest assms(2) read_answer_valid [OF p]
    by (simp add: xfer_def chip_send_def chip_recv_def sim_chip_def bindS_def getS_def modifyS_def retS_def liftS_def)
qed

section \<open>The process\<close>

lemma process_cmd_sim:
  assumes "answers_well answer" "cw_input (cp_world p) = []"
  shows "\<exists>q. process_cmd (sim_chip answer) cmd p = (Inr (), q) \<and> cw_sent (cp_world q) = cw_sent (cp_world p) @ [chip_frame cmd]
    \<and> cw_input (cp_world q) = [] \<and> cp_online q \<and> cp_queue q = cp_queue p \<and> cp_connected q = cp_connected p \<and> cp_stop q = cp_stop p"
proof -
  obtain v where "xfer (sim_chip answer) cmd (cp_world p) =
      (Inr v, (cp_world p)\<lparr>cw_sent := cw_sent (cp_world p) @ [chip_frame cmd], cw_input := []\<rparr>)"
    using xfer_sim [OF assms] by blast
  then show ?thesis
    by (simp add: process_cmd_def exceptS_def bindS_def on_tty_def whenS_def modifyS_def retS_def set_state_online_def)
qed

lemma ch_loop_turn_sim:
  assumes "answers_well answer" "cw_input (cp_world p) = []"
  shows "\<exists>q. ch_loop_turn (sim_chip answer) p = (Inr (), q)
    \<and> cw_sent (cp_world q) = cw_sent (cp_world p) @ [chip_frame (case cp_queue p of [] \<Rightarrow> [] | cmd # _ \<Rightarrow> cmd)]
    \<and> cw_input (cp_world q) = [] \<and> cp_online q \<and> cp_queue q = tl (cp_queue p)"
proof -
  have "ty_open (sim_chip answer) = retS ()" by (simp add: sim_chip_def)
  then have "\<exists>b. cp_world b = cp_world p \<and> cp_queue b = cp_queue p
      \<and> ch_turn (sim_chip answer) p = (case cp_queue b of [] \<Rightarrow> process_cmd (sim_chip answer) [] b
        | cmd # cmds \<Rightarrow> process_cmd (sim_chip answer) cmd (b\<lparr>cp_queue := cmds\<rparr>))"
    by (intro exI [of _ "let q = (if cp_connected p then p else p\<lparr>cp_connected := True\<rparr>) in
          if cp_reset q then (if cp_busy q then q else q\<lparr>cp_busy := True, cp_notified := cp_notified q + 1\<rparr>)\<lparr>cp_reset := False\<rparr> else q"])
       (simp add: ch_turn_def bindS_def getS_def whenS_def retS_def modifyS_def on_tty_def set_state_busy_def split: list.split)
  then obtain b where b: "cp_world b = cp_world p" "cp_queue b = cp_queue p"
    and run: "ch_turn (sim_chip answer) p = (case cp_queue b of [] \<Rightarrow> process_cmd (sim_chip answer) [] b
      | cmd # cmds \<Rightarrow> process_cmd (sim_chip answer) cmd (b\<lparr>cp_queue := cmds\<rparr>))" by blast
  show ?thesis
  proof (cases "cp_queue p")
    case Nil
    then show ?thesis using process_cmd_sim [OF assms(1), of b "[]"] assms(2) run b by (auto simp: ch_loop_turn_def exceptS_def)
  next
    case (Cons cmd cmds)
    then show ?thesis using process_cmd_sim [OF assms(1), of "b\<lparr>cp_queue := cmds\<rparr>" cmd] assms(2) run b
      by (auto simp: ch_loop_turn_def exceptS_def)
  qed
qed

text \<open>
  C38. With a chip that answers, every queued command is sent once and in the order of the events: after as many turns
  of the loop as there are commands exactly their frames went over the line, none was lost, and the plugin is online.
\<close>
theorem chip_gets_commands_in_order:
  assumes "answers_well answer" "cw_input (cp_world p) = []" "cp_queue p \<noteq> []"
  shows "\<exists>q. forS (cp_queue p) (\<lambda>_. ch_loop_turn (sim_chip answer)) p = (Inr (), q)
    \<and> cw_sent (cp_world q) = cw_sent (cp_world p) @ map chip_frame (cp_queue p) \<and> cp_queue q = [] \<and> cp_online q"
proof -
  have "\<exists>q. forS cmds (\<lambda>_. ch_loop_turn (sim_chip answer)) p = (Inr (), q)
      \<and> cw_sent (cp_world q) = cw_sent (cp_world p) @ map chip_frame cmds \<and> cp_queue q = [] \<and> (cmds \<noteq> [] \<or> cp_online p \<longrightarrow> cp_online q)"
    if "cp_queue p = cmds" "cw_input (cp_world p) = []" for cmds p
    using that
  proof (induction cmds arbitrary: p)
    case Nil
    then show ?case by (simp add: retS_def)
  next
    case (Cons cmd cmds)
    from ch_loop_turn_sim [OF assms(1) Cons.prems(2)] Cons.prems(1)
    obtain q where q: "ch_loop_turn (sim_chip answer) p = (Inr (), q)" "cw_sent (cp_world q) = cw_sent (cp_world p) @ [chip_frame cmd]"
      "cw_input (cp_world q) = []" "cp_online q" "cp_queue q = cmds" by auto
    from Cons.IH [OF q(5,3)] q show ?case by (auto simp: bindS_def)
  qed
  from this [OF refl assms(2)] assms(3) show ?thesis by blast
qed

definition sample_chip :: "bytes \<Rightarrow> int \<times> bytes" where
  "sample_chip frame = (if frame ! 3 = 1 then (0x81, [0x30, 1, 2, 0]) else (0x82, [0]))"

theorem chip_gets_commands_in_order_witness:
  "\<exists>q. forS [[0, 2, 8, 0, 0, 4, 0, 0, 0, 0, 0]] (\<lambda>_. ch_loop_turn (sim_chip sample_chip))
      ((ch9329_init \<lparr>cw_sent = [], cw_input = []\<rparr>)\<lparr>cp_queue := [[0, 2, 8, 0, 0, 4, 0, 0, 0, 0, 0]]\<rparr>) = (Inr (), q)
    \<and> cw_sent (cp_world q) = [[0x57, 0xAB, 0, 2, 8, 0, 0, 4, 0, 0, 0, 0, 0, 16]]"
proof -
  have "answers_well sample_chip"
    by (simp add: answers_well_def sample_chip_def bytes_ok_def)
  then show ?thesis
    using chip_gets_commands_in_order [of sample_chip "(ch9329_init \<lparr>cw_sent = [], cw_input = []\<rparr>)\<lparr>cp_queue := [[0, 2, 8, 0, 0, 4, 0, 0, 0, 0, 0]]\<rparr>"]
    by (auto simp: ch9329_init_def chip_frame_def make_checksum_def Let_def)
qed

text \<open>Whatever the line does, a turn never raises, and it takes at most one command from the queue or drops them all.\<close>

lemma ch_loop_never_raises: "\<exists>q. ch_loop_turn env p = (Inr (), q)"
  by (auto simp: ch_loop_turn_def exceptS_def ch_clear_events_def modifyS_def bindS_def split: prod.splits sum.splits)

section \<open>Every event becomes a command\<close>

text \<open>A command says its own length, and the state of the mouse fits into the bytes of its commands.\<close>

definition cmd_ok :: "bytes \<Rightarrow> bool" where
  "cmd_ok cmd = (bytes_ok cmd \<and> 3 \<le> length cmd \<and> cmd ! 0 = 0 \<and> cmd ! 2 = int (length cmd) - 3)"

definition is_byte :: "int \<Rightarrow> bool" where
  "is_byte v = (0 \<le> v \<and> v < 256)"

definition cm_wf :: "ch_mouse \<Rightarrow> bool" where
  "cm_wf m = (list_all is_byte [cm_buttons m, fst (cm_to_x m), snd (cm_to_x m), fst (cm_to_y m), snd (cm_to_y m),
     cm_delta_x m, cm_delta_y m, cm_wheel_y m])"

definition ck_wf :: "ch_keyboard \<Rightarrow> bool" where
  "ck_wf kb = (list_all is_byte (ck_mods kb # ck_keys kb) \<and> length (ck_keys kb) \<le> 6)"

definition ch_good :: "'w ch9329 \<Rightarrow> bool" where
  "ch_good p = (list_all cmd_ok (cp_queue p) \<and> ck_wf (cp_keyboard p) \<and> cm_wf (cp_mouse p))"

lemma mouse_cmd_ok:
  "cm_wf m \<Longrightarrow> \<exists>cmd. make_absolute_cmd m = Inr cmd \<and> cmd_ok cmd"
  "cm_wf m \<Longrightarrow> \<exists>cmd. make_relative_cmd m = Inr cmd \<and> cmd_ok cmd"
  by (auto simp: make_absolute_cmd_def make_relative_cmd_def py_bytes_def cm_wf_def is_byte_def cmd_ok_def bytes_ok_def)

lemma keyboard_cmd_ok: "ck_wf kb \<Longrightarrow> \<exists>cmd. ck_command kb = Inr cmd \<and> cmd_ok cmd"
  by (auto simp: ck_command_def py_bytes_def ck_wf_def is_byte_def cmd_ok_def bytes_ok_def list_all_iff)

lemma works_make_mouse_cmd [works_rules]: "works cm_wf make_mouse_cmd cmd_ok"
  using mouse_cmd_ok by (fastforce simp: works_def make_mouse_cmd_def getS_def liftS_def)

lemma works_make_cmds [works_rules]:
  "works cm_wf (getS (\<lambda>m. liftS (make_absolute_cmd m))) cmd_ok" "works cm_wf (getS (\<lambda>m. liftS (make_relative_cmd m))) cmd_ok"
  using mouse_cmd_ok by (fastforce simp: works_def getS_def liftS_def)+

lemma byte_or: "is_byte a \<Longrightarrow> is_byte b \<Longrightarrow> is_byte (a OR b)"
  using or_bound [of a 8 b] by (simp add: is_byte_def)

lemma byte_and_not: "is_byte a \<Longrightarrow> is_byte (a AND NOT b)"
  using and_not_byte [of a b] by (simp add: is_byte_def)

lemma chip_button_byte: "is_byte (ch_button_code ec button)"
  by (simp add: ch_button_code_def is_byte_def)

lemma works_process_button: "works cm_wf (process_button ec button state) cmd_ok"
  unfolding process_button_def Let_def
  by (intro works_seq works_whenS works_modifyS works_make_mouse_cmd) 
     (auto simp: cm_wf_def is_byte_def [of 0] byte_or byte_and_not chip_button_byte)

lemma fix_absolute_bytes: "in_range v \<Longrightarrow> \<exists>h l. fix_absolute v = Inr (h, l) \<and> is_byte h \<and> is_byte l \<and> 256 * h + l = ceil_div (range_remap v 0 range_max) 8"
proof -
  assume v: "in_range v"
  let ?f = "ceil_div (range_remap v 0 range_max) 8"
  have "0 \<le> range_remap v 0 range_max \<and> range_remap v 0 range_max \<le> 32767"
    using remap_in_range [of 0 range_max v range_min range_max] by (simp add: range_remap_def mouse_ranges)
  then have "- 32767 div 8 \<le> - range_remap v 0 range_max div 8" "- range_remap v 0 range_max div 8 \<le> 0 div 8"
    by (intro zdiv_mono1; simp)+
  then have f: "0 \<le> ?f" "?f < 256 * 256" by (simp_all add: ceil_div_def)
  have d: "drop_bit 8 ?f = ?f div 256" "?f AND 0xFF = ?f mod 256"
    using and_mask_mod [of ?f 8] by (simp_all add: drop_bit_eq_div)
  then show ?thesis using v f by (auto simp: fix_absolute_def assertR_def is_byte_def Let_def div_less_iff_less_mult div_pos_pos_trivial pos_imp_zdiv_nonneg_iff)
qed

lemma fix_relative_byte: "in_delta v \<Longrightarrow> \<exists>b. fix_relative v = Inr b \<and> is_byte b"
proof -
  assume v: "in_delta v"
  then have "- 127 \<le> ceil_div v 3" "ceil_div v 3 \<le> 127" by (auto simp: ceil_div_def in_delta_def mouse_ranges)
  then show ?thesis using v by (auto simp: fix_relative_def assertR_def is_byte_def Let_def)
qed

lemma works_bind_liftS: "x = Inr a \<Longrightarrow> works P (f a) Q \<Longrightarrow> works P (bindS (liftS x) f) Q"
  by simp

lemma works_process_move:
  assumes "in_range x" "in_range y"
  shows "works cm_wf (process_move x y) cmd_ok"
proof -
  obtain hx lx hy ly where f: "fix_absolute x = Inr (hx, lx)" "is_byte hx" "is_byte lx" "fix_absolute y = Inr (hy, ly)" "is_byte hy" "is_byte ly"
    using fix_absolute_bytes [OF assms(1)] fix_absolute_bytes [OF assms(2)] by auto
  show ?thesis unfolding process_move_def
    by (intro works_bind_liftS [OF f(1)] works_bind_liftS [OF f(4)] works_seq works_modifyS works_make_cmds) (use f in \<open>auto simp: cm_wf_def is_byte_def [of 0]\<close>)
qed

lemma works_process_relative:
  assumes "in_delta x" "in_delta y"
  shows "works cm_wf (process_relative x y) cmd_ok"
proof -
  obtain bx b_y where f: "fix_relative x = Inr bx" "is_byte bx" "fix_relative y = Inr b_y" "is_byte b_y"
    using fix_relative_byte [OF assms(1)] fix_relative_byte [OF assms(2)] by auto
  show ?thesis unfolding process_relative_def
    by (intro works_bind_liftS [OF f(1)] works_bind_liftS [OF f(3)] works_seq works_modifyS works_make_cmds) (use f in \<open>auto simp: cm_wf_def is_byte_def [of 0]\<close>)
qed

lemma works_process_wheel: "in_delta y \<Longrightarrow> works cm_wf (process_wheel x y) cmd_ok"
  unfolding process_wheel_def
  by (intro works_assertS works_seq works_modifyS works_make_mouse_cmd) (auto simp: cm_wf_def is_byte_def [of 1] is_byte_def [of 255])

lemma ck_update_wf: "table_key u \<Longrightarrow> ck_wf kb \<Longrightarrow> ck_wf (ck_update u state kb)"
  using table_key_facts(1,2) [of u] set_remove1_subset [of "uk_code u" "ck_keys kb"]
  by (auto simp: ck_wf_def ck_update_def byte_or byte_and_not is_byte_def [of "uk_code u"] list_all_iff length_remove1)

lemma works_process_key:
  assumes "map_of (keymap ec) key = Some k"
  shows "works ck_wf (ck_process_key ec key state) cmd_ok"
proof -
  have "works ck_wf (getS (\<lambda>kb. liftS (ck_command kb))) cmd_ok"
    using keyboard_cmd_ok by (fastforce simp: works_def getS_def liftS_def)
  moreover have "dict_at (keymap ec) key = Inr k" using assms by (simp add: dict_at_def)
  ultimately show ?thesis unfolding ck_process_key_def
    using ck_update_wf [OF keymap_table_key [OF assms]] by (intro works_bind_liftS [of _ k] works_seq works_modifyS) simp_all
qed

text \<open>The same for the plugin: the queue gets the command.\<close>

lemma works_keeps: "works P m Q \<Longrightarrow> keeps P m"
  unfolding works_def keeps_def by fastforce

definition ch_open :: "nat \<Rightarrow> 'w ch9329 \<Rightarrow> bool" where
  "ch_open n p = (ch_good p \<and> \<not> cp_stop p \<and> length (cp_queue p) = n)"

lemma queue_cmd_good: "ch_open n p \<Longrightarrow> cmd_ok cmd \<Longrightarrow> \<exists>q. queue_cmd cmd False p = (Inr (), q) \<and> ch_open (Suc n) q"
  by (simp add: ch_open_def ch_good_def queue_open)

lemma on_mouse_good:
  assumes "works cm_wf m cmd_ok" "ch_open n p"
  shows "\<exists>q. bindS (on_mouse m) (\<lambda>cmd. queue_cmd cmd False) p = (Inr (), q) \<and> ch_open (Suc n) q"
proof -
  obtain cmd mo where m: "m (cp_mouse p) = (Inr cmd, mo)" "cm_wf mo" "cmd_ok cmd"
    using assms unfolding works_def ch_open_def ch_good_def by blast
  then have "ch_open n (p\<lparr>cp_mouse := mo\<rparr>)" using assms(2) by (simp add: ch_open_def ch_good_def)
  then show ?thesis using queue_cmd_good m by (simp add: bindS_def on_mouse_def)
qed

lemma on_keyboard_good:
  assumes "works ck_wf m cmd_ok" "ch_open n p"
  shows "\<exists>q. bindS (on_keyboard m) (\<lambda>cmd. queue_cmd cmd False) p = (Inr (), q) \<and> ch_open (Suc n) q"
proof -
  obtain cmd kb where m: "m (cp_keyboard p) = (Inr cmd, kb)" "ck_wf kb" "cmd_ok cmd"
    using assms unfolding works_def ch_open_def ch_good_def by blast
  then have "ch_open n (p\<lparr>cp_keyboard := kb\<rparr>)" using assms(2) by (simp add: ch_open_def ch_good_def)
  then show ?thesis using queue_cmd_good m by (simp add: bindS_def on_keyboard_def)
qed

datatype chip_event = ChKey int bool | ChButton int bool | ChMove int int | ChRelative int int | ChWheel int int

fun chip_do :: "ecodes \<Rightarrow> chip_event \<Rightarrow> ('w ch9329, unit) sm" where
  "chip_do ec (ChKey key state) = op_key (ch9329_ops ec) key state"
| "chip_do ec (ChButton button state) = op_button (ch9329_ops ec) button state"
| "chip_do ec (ChMove x y) = op_move (ch9329_ops ec) x y"
| "chip_do ec (ChRelative x y) = op_relative (ch9329_ops ec) x y"
| "chip_do ec (ChWheel x y) = op_wheel (ch9329_ops ec) x y"

fun chip_valid :: "ecodes \<Rightarrow> chip_event \<Rightarrow> bool" where
  "chip_valid ec (ChKey key state) = (map_of (keymap ec) key \<noteq> None)"
| "chip_valid ec (ChButton button state) = True"
| "chip_valid ec (ChMove x y) = (in_range x \<and> in_range y)"
| "chip_valid ec (ChRelative x y) = (in_delta x \<and> in_delta y)"
| "chip_valid ec (ChWheel x y) = in_delta y"

lemma chip_do_good:
  "chip_valid ec e \<Longrightarrow> ch_open n p \<Longrightarrow> \<exists>q. chip_do ec e p = (Inr (), q) \<and> ch_open (Suc n) q"
  by (cases e) (auto simp: ch9329_ops_def intro!: on_mouse_good on_keyboard_good works_process_key works_process_button
      works_process_move works_process_relative works_process_wheel)

text \<open>
  C40. Every valid event becomes one command of the CH9329: no sequence of known keys, buttons, moves and wheel
  turns within the ranges makes the plugin raise, and each event queues a command whose bytes are in range and
  whose length byte is its own length.
\<close>
theorem chip_events_become_commands:
  assumes "\<forall>e \<in> set es. chip_valid ec e"
  shows "\<exists>p. forS es (chip_do ec) (ch9329_init w) = (Inr (), p) \<and> length (cp_queue p) = length es \<and> list_all cmd_ok (cp_queue p)"
proof -
  have "\<exists>q. forS es (chip_do ec) p = (Inr (), q) \<and> ch_open (n + length es) q" if "ch_open n p" for n p
    using assms that
  proof (induction es arbitrary: n p)
    case (Cons e es)
    then obtain q where q: "chip_do ec e p = (Inr (), q)" "ch_open (Suc n) q" using chip_do_good [of ec e n p] by auto
    with Cons obtain r where "forS es (chip_do ec) q = (Inr (), r)" "ch_open (Suc n + length es) r" by (meson list.set_intros(2))
    then show ?case using q(1) by (simp add: bindS_def)
  qed (simp add: retS_def)
  moreover have "ch_open 0 (ch9329_init w)"
    by (simp add: ch_open_def ch_good_def ch9329_init_def ck_wf_def cm_wf_def is_byte_def ch_keyboard_init_def ch_mouse_init_def)
  ultimately show ?thesis unfolding ch_open_def ch_good_def by (metis add_0)
qed

theorem chip_events_become_commands_witness:
  "\<exists>p. forS [ChMove 0 (-32768), ChButton (count_names ''BTN_LEFT'') True, ChWheel 0 (-1)] (chip_do count_names) (ch9329_init ()) = (Inr (), p)
    \<and> length (cp_queue p) = 3 \<and> list_all cmd_ok (cp_queue p)"
  using chip_events_become_commands [of "[ChMove 0 (-32768), ChButton (count_names ''BTN_LEFT'') True, ChWheel 0 (-1)]" count_names "()"]
  by (simp add: in_range_def in_delta_def mouse_ranges numeral_3_eq_3)

text \<open>The plugin is a back end of \<open>BaseHid\<close>: also events it refuses leave it in order, so the jiggler and every
  method of the base keep the queue sendable.\<close>

lemma keeps_on_mouse:
  assumes "\<And>m. cm_wf m \<Longrightarrow> cm_wf (snd (f m)) \<and> (\<forall>cmd. fst (f m) = Inr cmd \<longrightarrow> cmd_ok cmd)"
  shows "keeps ch_good (bindS (on_mouse f) (\<lambda>cmd. queue_cmd cmd False))"
  unfolding keeps_def bindS_def on_mouse_def ch_good_def
  using assms by (fastforce simp: queue_cmd_def getS_def whenS_def modifyS_def retS_def split: prod.splits sum.splits)

lemma mouse_op_good: "works cm_wf f cmd_ok \<Longrightarrow> cm_wf m \<Longrightarrow> cm_wf (snd (f m)) \<and> (\<forall>cmd. fst (f m) = Inr cmd \<longrightarrow> cmd_ok cmd)"
  unfolding works_def by fastforce

lemma refused_move: "cm_wf m \<Longrightarrow> \<not> (in_range x \<and> in_range y) \<Longrightarrow> cm_wf (snd (process_move x y m)) \<and> (\<forall>cmd. fst (process_move x y m) \<noteq> Inr cmd)"
  using fix_absolute_bytes [of x]
  by (cases "in_range x") (auto simp: process_move_def fix_absolute_def [of y] fix_absolute_def [of x] assertR_def bindS_def liftS_def modifyS_def cm_wf_def)

lemma refused_relative: "cm_wf m \<Longrightarrow> \<not> (in_delta x \<and> in_delta y) \<Longrightarrow> cm_wf (snd (process_relative x y m)) \<and> (\<forall>cmd. fst (process_relative x y m) \<noteq> Inr cmd)"
  using fix_relative_byte [of x]
  by (cases "in_delta x") (auto simp: process_relative_def fix_relative_def [of y] fix_relative_def [of x] assertR_def bindS_def liftS_def modifyS_def cm_wf_def)

interpretation chip_backend: hid_backend "ch9329_ops ec" ch_good for ec
proof
  fix key state button x y
  show "keeps ch_good (op_key (ch9329_ops ec) key state)"
  proof (cases "map_of (keymap ec) key")
    case None
    then show ?thesis
      by (simp add: ch9329_ops_def keeps_def bindS_def on_keyboard_def ck_process_key_def dict_at_def liftS_def)
  next
    case (Some k)
    then have w: "works ck_wf (ck_process_key ec key state) cmd_ok" by (rule works_process_key)
    show ?thesis unfolding keeps_def ch9329_ops_def bindS_def on_keyboard_def ch_good_def
      using w unfolding works_def by (fastforce simp: queue_cmd_def getS_def whenS_def modifyS_def retS_def split: prod.splits sum.splits)
  qed
  show "keeps ch_good (op_button (ch9329_ops ec) button state)"
    by (simp add: ch9329_ops_def keeps_on_mouse mouse_op_good [OF works_process_button])
  show "keeps ch_good (op_move (ch9329_ops ec) x y)"
    by (cases "in_range x \<and> in_range y") (auto simp: ch9329_ops_def keeps_on_mouse mouse_op_good [OF works_process_move] refused_move)
  show "keeps ch_good (op_relative (ch9329_ops ec) x y)"
    by (cases "in_delta x \<and> in_delta y") (auto simp: ch9329_ops_def keeps_on_mouse mouse_op_good [OF works_process_relative] refused_relative)
  show "keeps ch_good (op_wheel (ch9329_ops ec) x y)"
    by (cases "in_delta y") (simp_all add: ch9329_ops_def keeps_on_mouse mouse_op_good [OF works_process_wheel], simp add: process_wheel_def assertS_def raiseS_def keeps_on_mouse)
  show "keeps ch_good (op_clear (ch9329_ops ec))"
    unfolding ch9329_ops_def ch_clear_events_def hid_ops.simps by (rule keeps_modifyS) (simp add: ch_good_def)
qed

lemma jiggler_keeps_queue_sendable: "ch_good (bh_dev h) \<Longrightarrow> ch_good (bh_dev (snd (jiggle (ch9329_ops ec) nows h)))"
  using keepsD [OF chip_backend.keeps_jiggle, of "bh_j_absolute h" h] by (simp add: chip_backend.dev_good_def)

section \<open>What the mouse really does\<close>

text \<open>The sign of a byte as the chip takes it.\<close>

definition signed_byte :: "int \<Rightarrow> int" where
  "signed_byte b = (if b < 128 then b else b - 256)"

lemma negative_steps_too_long:
  assumes "in_delta v" "v \<le> - 3"
  shows "map_option signed_byte (case fix_relative v of Inl _ \<Rightarrow> None | Inr b \<Rightarrow> Some b) = Some (ceil_div v 3 - 1)"
proof -
  have "3 div 3 \<le> (- v) div 3" "(- v) div 3 \<le> 127 div 3"
    using assms by (intro zdiv_mono1; simp add: in_delta_def mouse_ranges)+
  then show ?thesis using assms by (auto simp: fix_relative_def ceil_div_def signed_byte_def assertR_def Let_def)
qed

lemma there_and_not_back: "fix_relative 3 = Inr 1" "fix_relative (- 3) = Inr 254" "signed_byte 254 = - 2"
  by (simp_all add: fix_relative_def in_delta_def mouse_ranges ceil_div_def signed_byte_def assertR_def)

lemma button_moves_again:
  "\<exists>m. process_relative 30 0 (ch_mouse_init\<lparr>cm_absolute := False\<rparr>) = (Inr [0, 5, 5, 1, 0, 10, 0, 0], m)
     \<and> fst (process_button count_names (count_names ''BTN_LEFT'') True m) = Inr [0, 5, 5, 1, 1, 10, 0, 0]"
  by (simp add: process_relative_def process_button_def fix_relative_def in_delta_def mouse_ranges ceil_div_def assertR_def bindS_def liftS_def
      modifyS_def getS_def whenS_def make_relative_cmd_def make_mouse_cmd_def py_bytes_def ch_mouse_init_def ch_button_code_def)

lemma horizontal_wheel_scrolls_down: "cm_wheel_y (snd (process_wheel dx 0 m)) = 255"
  by (simp add: process_wheel_def assertS_def in_delta_def mouse_ranges bindS_def modifyS_def make_mouse_cmd_def getS_def liftS_def)

end
