(* ===== verification/Spec2Isabelle.thy ===== *)
theory Spec2Isabelle
  imports SwitchApi HidOtg KeyText KeyMagic McuBridge Auth MsdExamples MsdState StunNat GpioRuns AtxRuns RfbSession OtgRuns ChipRuns
begin

text \<open>
  A verification development for \<open>kvmd\<close>, the daemon of a KVM over IP: a board that shows the video of a
  computer to clients in the network and plays a keyboard, a mouse and a drive to that computer, presses its
  power buttons and switches between several computers.  The development models the logic of the daemon and of
  the programs around it as shallow definitions, one group per class of the sources, and proves what makes the
  parts correct.  Paths are relative to \<open>src/\<close>.

  \<^bold>\<open>The program.\<close> Clients of the daemon (\<open>kvmd/apps/kvmd\<close>) log in and call methods of its components; the
  components keep their state, tell every change to the clients, and drive devices.  Keys and mouse events go
  through a plugin to the USB gadget or to a microcontroller; images go to the mass storage of the gadget; the
  switch is a chain of units on a serial line; buttons and user-defined channels are GPIO lines.  Beside the
  daemon, a VNC server takes clients of that protocol, and a STUN client finds the address for WebRTC.

  \<^bold>\<open>How code is translated.\<close> A class is a record with one definition per method, in the order of the file and under
  its name without the leading underscores (a prefix such as \<open>kb_\<close> or \<open>ms_\<close> where names clash).  A method that
  may raise returns a sum with the exceptions of \<^typ>\<open>pyerr\<close>; one that also changes its object is a state
  transformer \<open>sm\<close> that keeps what was changed before an exception (\<open>bindS\<close>, \<open>exceptS\<close>, \<open>finallyS\<close> of the theory
  Prelude).  Integers are unbounded as in Python; bytes are lists of integers, and a wire format is a list of
  fields that \<open>pack\<close> refuses to fill with values that do not fit.  A dictionary is an association list in the
  order of insertion.  What is not in the repository (the kernel, \<open>evdev\<close>, DES, sockets, clocks, random
  numbers) is an argument or an environment record over a world of its own.  A coroutine runs from one
  suspension to the next; runs are lists of such steps in any order.

  \<^bold>\<open>Theories and sources.\<close>
  \<^item> Prelude, PyText, PyFloat, PosixPath: exceptions, state transformers with their invariant calculus
    (\<open>keeps\<close>, \<open>works\<close>), dictionaries, \<open>struct\<close>, text, floats and \<open>os.path\<close> of Python as far as they are used.
  \<^item> Tools: \<open>kvmd/bitbang.py\<close>, \<open>kvmd/tools.py\<close> and the checks of names and paths: the CRC tells messages apart
    that differ in a byte; a checked path stays below its root.
  \<^item> Edid: \<open>kvmd/edid.py\<close>: accessors, parser and printer of the extension blocks, with their round trips.
  \<^item> SwitchTypes, SwitchProto, SwitchDevice, SwitchChain, SwitchState, SwitchStorage, SwitchApi:
    \<open>kvmd/apps/kvmd/switch\<close>.  SwitchChainSafe has the invariant of the controller and shows that its loop never
    raises on a working port; SwitchChainSync relates what it sends to the wanted configuration; SwitchApi
    shows that the clients see the configuration that the controller gets.
  \<^item> KeyTables, KeyText, KeyMagic: \<open>kvmd/keyboard\<close>: the tables of keys, layouts and typed text, magic chords.
  \<^item> HidEvents, HidKeyboard, HidMouse, HidDevice, HidBase, HidOtg: \<open>kvmd/plugins/hid\<close> and its \<open>otg\<close> plugin: reports
    show what is held, whatever the device file answers, and the processes never die.
  \<^item> McuProto, McuFirmware, McuHid, McuBridge: \<open>kvmd/plugins/hid/_mcu\<close>, with the C sources of the other end
    (\<open>hid/pico/src\<close>): every event is performed by the firmware as it was asked for; corruption is noticed and
    retried.
  \<^item> Auth: \<open>kvmd/apps/kvmd/auth.py\<close>: tokens come from logins, expire and end with a logout.
  \<^item> MsdFs, MsdStorage, MsdOtg, MsdSafe, MsdUpload, MsdState, MsdExamples: \<open>kvmd/plugins/msd\<close> over a file system
    whose every call may fail: the inserted image is not touched, an unfinished upload is marked.
  \<^item> UserGpio, GpioDriver, UserGpioSafe, GpioRuns, AtxGpio, AtxRuns: \<open>kvmd/apps/kvmd/ugpio.py\<close>,
    \<open>kvmd/aiogp.py\<close>, \<open>kvmd/plugins/ugpio/gpio.py\<close>, \<open>kvmd/plugins/atx/gpio.py\<close>: lines are active exactly while an
    action holds them, and clients are told every change.  The locales of UserGpioSafe are the interface of a
    driver; GpioRuns interprets them on the driver of the board.
  \<^item> Stun, StunNat: \<open>kvmd/apps/janus/stun.py\<close>: the detected kind of NAT against a model of each kind.
  \<^item> Rfb, RfbSafe, RfbSession: \<open>kvmd/apps/vnc/rfb\<close>: no event before a granted access, events in range, the
    session ends; the pointer, pictures and texts arrive as they were sent.
  \<^item> OtgReports, OtgGadget, OtgLife, OtgStop, OtgRuns: \<open>kvmd/apps/otg\<close>, \<open>kvmd/usb.py\<close>: the HID descriptors say what the
    reports of HidKeyboard and HidMouse mean; a stop of the gadget undoes its start, whatever was configured.
  \<^item> Ch9329, ChipRuns: \<open>kvmd/plugins/hid/ch9329\<close>: the chip is told the keys that are held, every command once and in
    order; a corrupted answer is refused.

  \<^bold>\<open>Interfaces.\<close> Where components rely on each other the contract is a locale: the framing of the serial line, the
  JSON codecs of stored values, the settings of ports, a HID process and a HID back end, the line to the
  microcontroller, a driver of GPIO lines.  Each is interpreted on the definitions of the component
  that provides it, and the properties rest on the interpreted facts.

  \<^bold>\<open>Bounds and fuel.\<close> Loops over data are structural or have a measure.  The endless loops are single rounds:
  theorems speak of every round or of lists of rounds.  The loop of a VNC session takes a number of rounds; one
  more than the bytes of the client are enough, since every message takes a byte.  The loops of the
  microcontroller have the number of retries of the configuration, and the requests of the STUN client theirs.

  \<^bold>\<open>Not modelled.\<close> Glue over aiohttp, sockets, subprocesses and device files (the HTTP interface, the streamer and its
  snapshots, the services for IPMI, displays, media and block devices, Bluetooth), the drivers of single GPIO
  devices, the validators and the YAML configuration, which rest on packages outside the repository, the
  command line tools and the web interface.  Logging, timing and cancellation are left out of the modelled
  parts; JSON is not parsed byte by byte.  Where the code does not do what it is meant to, theorems show the
  run: their names are in the list of findings of the manifest.
\<close>

end
